(* ===== verification/Prelude.thy ===== *)
theory Prelude
  imports Complex_Main "HOL-Library.AList" "HOL-Library.Char_ord" "HOL-Library.List_Lexorder"
    "HOL-Library.Product_Lexorder" "HOL-Library.Option_ord"
begin

text \<open>
  Shared vocabulary of the development: time, optional values, SQL tables and the
  lemmas on lists and association lists that the component theories use.

  Conventions.
  \<^item> An instant is an \<open>int\<close>: microseconds since the epoch, in UTC. Python integers are
    unbounded, and a \<open>timedelta\<close> counts whole microseconds, so nothing is rounded.
  \<^item> A \<open>datetime\<close> is \<open>Aware\<close> (it denotes an instant whatever its offset is) or \<open>Naive\<close>
    (no time zone; the payload is its wall clock read as if it were UTC).
  \<^item> A DuckDB table is a list of rows in insertion order. A statement that addresses one
    key is a filter or a map over the list; a transaction is a function on the tables, and a
    rollback returns the tables it started from.
  \<^item> A Python exception is a value of a component's own error type on the left of a sum.
\<close>

section \<open>Time\<close>

type_synonym instant = int
type_synonym duration = int

datatype pydatetime = Aware instant | Naive instant

definition microseconds_per_second :: int where
  "microseconds_per_second = 1000000"

definition seconds :: "int \<Rightarrow> duration" where
  "seconds n = n * 1000000"

definition minutes :: "int \<Rightarrow> duration" where
  "minutes n = n * 60000000"

definition hours :: "int \<Rightarrow> duration" where
  "hours n = n * 3600000000"

definition days :: "int \<Rightarrow> duration" where
  "days n = n * 86400000000"

named_theorems time_units
  \<open>the units of time written out in microseconds\<close>

lemmas [time_units] = seconds_def minutes_def hours_def days_def microseconds_per_second_def

section \<open>Collections of rewrite rules\<close>

named_theorems table_simps
  \<open>what a read of a table returns after a write\<close>

named_theorems payload_defs
  \<open>the journal payloads of the components\<close>

section \<open>Results\<close>

text \<open>The value a total read returns when no row is found (\<open>row[0] if row else d\<close>).\<close>

definition opt_or :: "'a \<Rightarrow> 'a option \<Rightarrow> 'a" where
  "opt_or d x = (case x of None \<Rightarrow> d | Some v \<Rightarrow> v)"

lemma opt_or_simps [simp]: "opt_or d None = d" "opt_or d (Some v) = v"
  by (simp_all add: opt_or_def)

text \<open>A left result is an exception: nothing after it runs.\<close>

definition is_ok :: "'e + 'a \<Rightarrow> bool" where
  "is_ok r = (case r of Inl _ \<Rightarrow> False | Inr _ \<Rightarrow> True)"

lemma is_ok_simps [simp]: "\<not> is_ok (Inl e)" "is_ok (Inr v)"
  by (simp_all add: is_ok_def)

text \<open>Run the next statement unless an exception is on its way; \<open>check\<close> is \<open>if not c: raise e\<close>.\<close>

definition bind_sum :: "'e + 'a \<Rightarrow> ('a \<Rightarrow> 'e + 'b) \<Rightarrow> 'e + 'b" where
  "bind_sum r f = (case r of Inl e \<Rightarrow> Inl e | Inr x \<Rightarrow> f x)"

definition check :: "bool \<Rightarrow> 'e \<Rightarrow> 'e + unit" where
  "check c e = (if c then Inr () else Inl e)"

lemma bind_sum_simps [simp]: "bind_sum (Inl e) f = Inl e" "bind_sum (Inr x) f = f x"
  by (simp_all add: bind_sum_def)

lemma bind_sum_Inr: "bind_sum r f = Inr y \<longleftrightarrow> (\<exists>x. r = Inr x \<and> f x = Inr y)"
  by (cases r) simp_all

lemma check_Inr [simp]: "check c e = Inr u \<longleftrightarrow> c"
  by (simp add: check_def)

lemma check_simps [simp]: "check True e = Inr ()" "check False e = Inl e"
  by (simp_all add: check_def)

text \<open>\<open>str.startswith\<close>.\<close>

definition starts_with :: "string \<Rightarrow> string \<Rightarrow> bool" where
  "starts_with p s \<longleftrightarrow> take (length p) s = p"

section \<open>Tables\<close>

text \<open>\<open>fetchone\<close>: the first row of a result set, if any.\<close>

definition fetchone :: "'a list \<Rightarrow> 'a option" where
  "fetchone rows = (case rows of [] \<Rightarrow> None | r # _ \<Rightarrow> Some r)"

lemma fetchone_simps [simp]: "fetchone [] = None" "fetchone (r # rs) = Some r"
  by (simp_all add: fetchone_def)

lemma fetchone_None [simp]: "fetchone rs = None \<longleftrightarrow> rs = []"
  by (cases rs) simp_all

lemma fetchone_SomeD: "fetchone rs = Some r \<Longrightarrow> r \<in> set rs"
  by (cases rs) auto

lemma fetchone_filter_SomeD:
  "fetchone (filter P rs) = Some r \<Longrightarrow> r \<in> set rs \<and> P r"
  by (auto dest!: fetchone_SomeD)

lemma fetchone_filter_None:
  "fetchone (filter P rs) = None \<longleftrightarrow> (\<forall>r \<in> set rs. \<not> P r)"
  by (auto simp: filter_empty_conv)

text \<open>The row a primary key selects is unique.\<close>

lemma filter_key_unique:
  assumes "distinct (map k rs)" and "r \<in> set rs"
  shows "filter (\<lambda>x. k x = k r) rs = [r]"
  using assms
proof (induction rs)
  case Nil
  then show ?case by simp
next
  case (Cons a rs)
  show ?case
  proof (cases "a = r")
    case True
    then have "\<forall>x \<in> set rs. k x \<noteq> k r"
      using Cons.prems(1) by (metis distinct.simps(2) image_eqI list.simps(9) set_map)
    then show ?thesis using True by (simp add: filter_empty_conv)
  next
    case False
    then have r: "r \<in> set rs" using Cons.prems(2) by simp
    moreover have "k a \<noteq> k r"
      using Cons.prems(1) r by (metis distinct.simps(2) image_eqI list.simps(9) set_map)
    ultimately show ?thesis using Cons.IH Cons.prems(1) by simp
  qed
qed

lemma fetchone_key:
  "distinct (map k rs) \<Longrightarrow> r \<in> set rs \<Longrightarrow> fetchone (filter (\<lambda>x. k x = k r) rs) = Some r"
  by (simp add: filter_key_unique)

text \<open>\<open>UPDATE t SET ... WHERE P\<close>.\<close>

definition update_where :: "('a \<Rightarrow> bool) \<Rightarrow> ('a \<Rightarrow> 'a) \<Rightarrow> 'a list \<Rightarrow> 'a list" where
  "update_where P f rows = map (\<lambda>r. if P r then f r else r) rows"

lemma set_update_where:
  "set (update_where P f rows) = (f ` {r \<in> set rows. P r}) \<union> {r \<in> set rows. \<not> P r}"
  by (auto simp: update_where_def image_iff)

lemma update_where_no_match [simp]:
  "(\<forall>r \<in> set rows. \<not> P r) \<Longrightarrow> update_where P f rows = rows"
  by (induction rows) (auto simp: update_where_def)

lemma update_where_Nil [simp]: "update_where P f [] = []"
  by (simp add: update_where_def)

lemma update_where_Cons [simp]:
  "update_where P f (r # rows) = (if P r then f r else r) # update_where P f rows"
  by (simp add: update_where_def)

lemma update_where_append [simp]:
  "update_where P f (xs @ ys) = update_where P f xs @ update_where P f ys"
  by (simp add: update_where_def)

lemma length_update_where [simp]: "length (update_where P f rows) = length rows"
  by (simp add: update_where_def)

lemma map_update_where_key:
  "(\<And>r. k (f r) = k r) \<Longrightarrow> map k (update_where P f rows) = map k rows"
  by (induction rows) auto

lemma filter_update_where:
  "filter Q (update_where P f rows)
     = map (\<lambda>r. if P r then f r else r) (filter (\<lambda>r. Q (if P r then f r else r)) rows)"
  by (induction rows) auto

text \<open>A keyed read after an update of the one row with that key.\<close>

lemma fetchone_update_key [table_simps]:
  assumes "distinct (map k rs)" and "r \<in> set rs" and "\<And>x. k (f x) = k x"
    and "\<And>x. x \<in> set rs \<Longrightarrow> P x \<longleftrightarrow> x = r"
  shows "fetchone (filter (\<lambda>x. k x = a) (update_where P f rs))
    = (if a = k r then Some (f r) else fetchone (filter (\<lambda>x. k x = a) rs))"
proof -
  let ?g = "\<lambda>x. if P x then f x else x"
  have "filter (\<lambda>x. k x = a) (update_where P f rs) = map ?g (filter (\<lambda>x. k (?g x) = a) rs)"
    by (rule filter_update_where)
  also have "(\<lambda>x. k (?g x) = a) = (\<lambda>x. k x = a)" using assms(3) by auto
  finally have eq: "filter (\<lambda>x. k x = a) (update_where P f rs) = map ?g (filter (\<lambda>x. k x = a) rs)" .
  show ?thesis
  proof (cases "a = k r")
    case True
    then have "filter (\<lambda>x. k x = a) rs = [r]" using assms(1,2) by (simp add: filter_key_unique)
    then show ?thesis using True eq assms(2,4) by simp
  next
    case False
    then have "map ?g (filter (\<lambda>x. k x = a) rs) = filter (\<lambda>x. k x = a) rs"
      using assms(4) by (intro map_idI) auto
    then show ?thesis using False eq by simp
  qed
qed

text \<open>At most one row satisfies a condition: how a unique index reads.\<close>

definition at_most_one :: "('a \<Rightarrow> bool) \<Rightarrow> 'a list \<Rightarrow> bool" where
  "at_most_one P rows \<longleftrightarrow> length (filter P rows) \<le> 1"

lemma at_most_one_Nil [simp]: "at_most_one P []"
  by (simp add: at_most_one_def)

lemma at_most_one_append:
  "at_most_one P (xs @ [x]) \<longleftrightarrow> (if P x then filter P xs = [] else at_most_one P xs)"
  by (auto simp: at_most_one_def)

lemma at_most_one_eq:
  assumes "at_most_one P rows" and "r \<in> set rows" and "P r" and "s \<in> set rows" and "P s"
  shows "r = s"
proof -
  from assms have r: "r \<in> set (filter P rows)" and s: "s \<in> set (filter P rows)" by auto
  from assms(1) have "length (filter P rows) \<le> Suc 0" by (simp add: at_most_one_def)
  then have "\<exists>x. set (filter P rows) \<subseteq> {x}"
    by (cases "filter P rows") simp_all
  then show ?thesis using r s by (metis empty_iff insertE subsetD)
qed

lemma length_filter_mono:
  "(\<And>x. x \<in> set xs \<Longrightarrow> P x \<Longrightarrow> Q x) \<Longrightarrow> length (filter P xs) \<le> length (filter Q xs)"
  by (induction xs) (auto simp: le_SucI)

lemma at_most_one_update_where:
  assumes "at_most_one P rows"
    and "\<And>r. r \<in> set rows \<Longrightarrow> C r \<Longrightarrow> P (f r) \<Longrightarrow> P r"
  shows "at_most_one P (update_where C f rows)"
proof -
  have "length (filter (\<lambda>r. P (if C r then f r else r)) rows) \<le> length (filter P rows)"
    by (rule length_filter_mono) (use assms(2) in \<open>auto split: if_splits\<close>)
  then show ?thesis
    using assms(1) by (simp add: at_most_one_def filter_update_where)
qed

section \<open>Sorted lists of rows\<close>

text \<open>Rows appended with growing keys stay sorted; \<open>ORDER BY k LIMIT n\<close> then takes a prefix.\<close>

definition sorted_by :: "('a \<Rightarrow> 'k::linorder) \<Rightarrow> 'a list \<Rightarrow> bool" where
  "sorted_by k xs \<longleftrightarrow> sorted_wrt (\<lambda>x y. k x < k y) xs"

lemma sorted_by_Nil [simp]: "sorted_by k []"
  by (simp add: sorted_by_def)

lemma sorted_by_append_single:
  "sorted_by k (xs @ [x]) \<longleftrightarrow> sorted_by k xs \<and> (\<forall>y \<in> set xs. k y < k x)"
  by (simp add: sorted_by_def sorted_wrt_append)

lemma sorted_by_filter [intro]: "sorted_by k xs \<Longrightarrow> sorted_by k (filter P xs)"
  by (simp add: sorted_by_def sorted_wrt_filter)

lemma sorted_by_sort_key: "sorted_by k xs \<Longrightarrow> sort_key k xs = xs"
  by (rule sort_key_id_if_sorted)
    (auto simp: sorted_by_def sorted_map intro: sorted_wrt_mono_rel [of _ "\<lambda>x y. k x < k y"] less_imp_le)

lemma sorted_by_distinct: "sorted_by k xs \<Longrightarrow> distinct (map k xs)"
  by (induction xs) (auto simp: sorted_by_def)

lemma sorted_by_take_le_last:
  assumes "sorted_by k xs" and "y \<in> set xs" and "take n xs \<noteq> []"
    and "k y \<le> k (last (take n xs))"
  shows "y \<in> set (take n xs)"
proof (rule ccontr)
  assume notin: "y \<notin> set (take n xs)"
  have "set xs = set (take n xs) \<union> set (drop n xs)"
    by (metis append_take_drop_id set_append)
  with notin assms(2) have y: "y \<in> set (drop n xs)" by blast
  have "sorted_wrt (\<lambda>x y. k x < k y) (take n xs @ drop n xs)"
    using assms(1) by (simp add: sorted_by_def)
  then have "\<forall>x \<in> set (take n xs). \<forall>z \<in> set (drop n xs). k x < k z"
    unfolding sorted_wrt_append by blast
  with y assms(3) have "k (last (take n xs)) < k y" by auto
  with assms(4) show False by simp
qed

lemma sorted_by_last_max:
  assumes "sorted_by k xs" and "y \<in> set xs"
  shows "k y \<le> k (last xs)"
  using assms
proof (induction xs)
  case Nil
  then show ?case by simp
next
  case (Cons a xs)
  show ?case
  proof (cases "xs = []")
    case True
    then show ?thesis using Cons.prems by simp
  next
    case False
    then have "sorted_by k xs" and "last xs \<in> set xs" and "\<forall>x \<in> set xs. k a < k x"
      using Cons.prems by (auto simp: sorted_by_def)
    then show ?thesis using Cons False by (auto intro: less_imp_le)
  qed
qed

lemma Max_sorted_by:
  assumes "sorted_by k xs" and "xs \<noteq> []"
  shows "Max (k ` set xs) = k (last xs)"
  using assms by (intro Max_eqI) (auto intro: sorted_by_last_max)

section \<open>Association lists\<close>

lemma map_of_update [table_simps]: "map_of (AList.update k v al) = (map_of al)(k \<mapsto> v)"
  by (rule update_conv')

lemma distinct_keys_update [intro]:
  "distinct (map fst al) \<Longrightarrow> distinct (map fst (AList.update k v al))"
  by (rule distinct_update)

section \<open>Strings\<close>

text \<open>\<open>str.upper\<close> on the ASCII letters; the other bytes are kept.\<close>

definition upper_char :: "char \<Rightarrow> char" where
  "upper_char c = (if (97::nat) \<le> of_char c \<and> of_char c \<le> (122::nat) then char_of (of_char c - (32::nat)) else c)"

definition upper :: "string \<Rightarrow> string" where
  "upper s = map upper_char s"

lemma upper_char_idem [simp]: "upper_char (upper_char c) = upper_char c"
proof (cases "(97::nat) \<le> of_char c \<and> of_char c \<le> (122::nat)")
  case True
  then have "(of_char c - (32::nat)) mod 256 = of_char c - 32"
    by (intro mod_less) linarith
  moreover have "\<not> (97::nat) \<le> of_char c - 32" using True by linarith
  ultimately show ?thesis using True by (simp add: upper_char_def)
next
  case False
  then have "upper_char c = c" by (auto simp: upper_char_def)
  then show ?thesis by simp
qed

lemma upper_idem [simp]: "upper (upper s) = upper s"
  by (simp add: upper_def)

lemma upper_Nil [simp]: "upper s = [] \<longleftrightarrow> s = []"
  by (simp add: upper_def)

definition lower_char :: "char \<Rightarrow> char" where
  "lower_char c = (if (65::nat) \<le> of_char c \<and> of_char c \<le> (90::nat) then char_of (of_char c + (32::nat)) else c)"

definition lower :: "string \<Rightarrow> string" where
  "lower s = map lower_char s"

text \<open>\<open>str.strip\<close> and \<open>str.replace\<close> of one character; the white space of the first 256 code points.\<close>

definition is_space :: "char \<Rightarrow> bool" where
  "is_space c \<longleftrightarrow> (of_char c :: nat) \<in> {9, 10, 11, 12, 13, 28, 29, 30, 31, 32, 133, 160}"

definition strip :: "string \<Rightarrow> string" where
  "strip s = rev (dropWhile is_space (rev (dropWhile is_space s)))"

definition replace_char :: "char \<Rightarrow> char \<Rightarrow> string \<Rightarrow> string" where
  "replace_char a b s = map (\<lambda>c. if c = a then b else c) s"

text \<open>\<open>str(n)\<close> for an integer: decimal digits, with a sign when negative.\<close>

fun string_of_nat :: "nat \<Rightarrow> string" where
  "string_of_nat n =
     (if n < 10 then [char_of (48 + n)] else string_of_nat (n div 10) @ [char_of (48 + n mod 10)])"

declare string_of_nat.simps [simp del]

definition string_of_int :: "int \<Rightarrow> string" where
  "string_of_int i = (if i < 0 then CHR ''-'' # string_of_nat (nat (- i)) else string_of_nat (nat i))"

definition nat_of_digits :: "string \<Rightarrow> nat" where
  "nat_of_digits = foldl (\<lambda>acc c. 10 * acc + (of_char c - 48)) 0"

lemma nat_of_digits_snoc: "nat_of_digits (s @ [c]) = 10 * nat_of_digits s + (of_char c - 48)"
  by (simp add: nat_of_digits_def)

lemma of_char_digit: "d < 10 \<Longrightarrow> of_char (char_of (48 + d) :: char) = 48 + d"
  for d :: nat
  by (subst of_char_of) (rule mod_less, simp)

lemma nat_of_digits_string_of_nat [simp]: "nat_of_digits (string_of_nat n) = n"
proof (induction n rule: string_of_nat.induct)
  case (1 n)
  show ?case
  proof (cases "n < 10")
    case True
    then show ?thesis
      by (subst string_of_nat.simps) (simp add: nat_of_digits_def of_char_digit)
  next
    case False
    then show ?thesis
      using 1 by (subst string_of_nat.simps) (simp add: nat_of_digits_snoc of_char_digit)
  qed
qed

lemma digit_char_neq:
  fixes d :: nat
  assumes "d < 10" and "of_char c < (48::nat) \<or> 57 < (of_char c :: nat)"
  shows "char_of (48 + d) \<noteq> c"
  using assms of_char_digit [of d] by auto

lemma string_of_nat_set:
  assumes "of_char c < (48::nat) \<or> 57 < (of_char c :: nat)"
  shows "c \<notin> set (string_of_nat n)"
proof (induction n rule: string_of_nat.induct)
  case (1 n)
  show ?case
  proof (cases "n < 10")
    case True
    then show ?thesis using digit_char_neq [OF True assms] by (subst string_of_nat.simps) auto
  next
    case False
    then show ?thesis
      using 1 digit_char_neq [OF _ assms, of "n mod 10"] by (subst string_of_nat.simps) auto
  qed
qed

lemma colon_not_in_string_of_int [simp]: "CHR '':'' \<notin> set (string_of_int i)"
  by (auto simp: string_of_int_def string_of_nat_set)

lemma string_of_int_inject [simp]: "string_of_int i = string_of_int j \<longleftrightarrow> i = j"
proof
  assume eq: "string_of_int i = string_of_int j"
  have minus: "CHR ''-'' \<notin> set (string_of_nat n)" for n
    by (rule string_of_nat_set) simp
  show "i = j"
  proof (cases "i < 0 \<longleftrightarrow> j < 0")
    case True
    then have "string_of_nat (nat \<bar>i\<bar>) = string_of_nat (nat \<bar>j\<bar>)"
      using eq by (auto simp: string_of_int_def split: if_splits)
    then have "nat \<bar>i\<bar> = nat \<bar>j\<bar>" by (metis nat_of_digits_string_of_nat)
    with True show ?thesis by linarith
  next
    case False
    then have "\<exists>n m. CHR ''-'' # string_of_nat n = string_of_nat m"
      using eq by (auto simp: string_of_int_def split: if_splits) metis
    then show ?thesis using minus by (metis list.set_intros(1))
  qed
qed simp

text \<open>A separator splits a key at its last occurrence when the tail does not hold it.\<close>

lemma append_last_sep_inject:
  assumes "c \<notin> set b" and "c \<notin> set b'" and "a @ c # b = a' @ c # b'"
  shows "a = a' \<and> b = b'"
proof -
  have "rev b @ c # rev a = rev b' @ c # rev a'"
    using arg_cong [OF assms(3), of rev] by simp
  moreover have "takeWhile (\<lambda>x. x \<noteq> c) (rev b @ c # rev a) = rev b"
    "takeWhile (\<lambda>x. x \<noteq> c) (rev b' @ c # rev a') = rev b'"
    using assms(1,2) by (auto simp: takeWhile_append)
  ultimately have "rev b = rev b'" by simp
  with assms(3) show ?thesis by simp
qed

section \<open>Tables inside a larger database\<close>

text \<open>
  A component reads and writes its own tables of a database that other components share. A slot
  names them: a read and a write with the laws of a lens, so that what one component proves of its
  tables holds in any database that has them.
\<close>

record ('p, 't) slot =
  sl_get :: "'p \<Rightarrow> 't"
  sl_put :: "'t \<Rightarrow> 'p \<Rightarrow> 'p"

locale lawful_slot =
  fixes sl :: "('p, 't) slot"
  assumes get_put [simp]: "sl_get sl (sl_put sl t p) = t"
    and put_get [simp]: "sl_put sl (sl_get sl p) p = p"
    and put_put [simp]: "sl_put sl t' (sl_put sl t p) = sl_put sl t' p"
begin

lemma put_inject [simp]: "sl_put sl t p = sl_put sl t' p \<longleftrightarrow> t = t'"
  by (metis get_put)

lemma put_id_iff: "sl_put sl t p = p \<longleftrightarrow> t = sl_get sl p"
  by (metis get_put put_get)

end

section \<open>State machines\<close>

text \<open>
  The contract every store of the development meets: its operations, as a step relation, keep an
  invariant. What follows for runs is proved here once.
\<close>

locale state_machine =
  fixes step :: "'s \<Rightarrow> 's \<Rightarrow> bool" and inv :: "'s \<Rightarrow> bool"
  assumes step_keeps_inv: "step s s' \<Longrightarrow> inv s \<Longrightarrow> inv s'"
begin

lemma run_inv: "step\<^sup>*\<^sup>* s s' \<Longrightarrow> inv s \<Longrightarrow> inv s'"
  by (induction rule: rtranclp_induct) (auto intro: step_keeps_inv)

text \<open>A property that every step from a good state keeps is kept by every run.\<close>

lemma run_stable:
  assumes "step\<^sup>*\<^sup>* s s'" and "inv s" and "P s"
    and "\<And>u v. step u v \<Longrightarrow> inv u \<Longrightarrow> P u \<Longrightarrow> P v"
  shows "P s'"
  using assms(1,2,3)
proof (induction rule: rtranclp_induct)
  case (step y z)
  then show ?case using assms(4) run_inv by blast
qed simp

text \<open>A measure that no step lowers is never lowered by a run.\<close>

lemma run_mono:
  fixes m :: "'s \<Rightarrow> 'm::preorder"
  assumes "step\<^sup>*\<^sup>* s s'" and "inv s" and "\<And>u v. step u v \<Longrightarrow> inv u \<Longrightarrow> m u \<le> m v"
  shows "m s \<le> m s'"
  using assms(1,2)
proof (induction rule: rtranclp_induct)
  case (step y z)
  then show ?case using assms(3) [OF step(2)] run_inv [OF step(1)] order_trans by blast
qed simp

end

end
