(* ===== verification/Pyfloat.thy ===== *)
theory Pyfloat
  imports Prelude
begin

text \<open>
  Python floats. A finite double is the rational it denotes; the two infinities and NaN are apart.
  The sign of zero is not kept: no modelled comparison or branch can see it, and division by zero
  raises. Rounding is an argument: \<open>rnd q\<close> is the double nearest to the exact result \<open>q\<close>
  (an infinity on overflow), so every theorem holds for every rounding, the hardware's included.
\<close>

datatype pyfloat = Fin rat | PosInf | NegInf | NaN

text \<open>Comparisons are false as soon as one side is NaN.\<close>

fun flt_less :: "pyfloat \<Rightarrow> pyfloat \<Rightarrow> bool" where
  "flt_less (Fin a) (Fin b) \<longleftrightarrow> a < b"
| "flt_less (Fin _) PosInf \<longleftrightarrow> True"
| "flt_less NegInf (Fin _) \<longleftrightarrow> True"
| "flt_less NegInf PosInf \<longleftrightarrow> True"
| "flt_less _ _ \<longleftrightarrow> False"

fun flt_eq :: "pyfloat \<Rightarrow> pyfloat \<Rightarrow> bool" where
  "flt_eq (Fin a) (Fin b) \<longleftrightarrow> a = b"
| "flt_eq PosInf PosInf \<longleftrightarrow> True"
| "flt_eq NegInf NegInf \<longleftrightarrow> True"
| "flt_eq _ _ \<longleftrightarrow> False"

definition flt_le :: "pyfloat \<Rightarrow> pyfloat \<Rightarrow> bool" where
  "flt_le a b \<longleftrightarrow> flt_less a b \<or> flt_eq a b"

lemma flt_le_Fin [simp]: "flt_le (Fin a) (Fin b) \<longleftrightarrow> a \<le> b"
  by (auto simp: flt_le_def)

lemma flt_nan [simp]: "\<not> flt_less NaN x" "\<not> flt_less x NaN" "\<not> flt_le NaN x" "\<not> flt_le x NaN"
  by (cases x; simp add: flt_le_def)+

lemma flt_less_le_trans: "flt_less a b \<Longrightarrow> flt_le b c \<Longrightarrow> flt_less a c"
  by (cases a; cases b; cases c) (auto simp: flt_le_def)

lemma flt_le_not_less: "flt_le a b \<Longrightarrow> \<not> flt_less b a"
  by (cases a; cases b) (auto simp: flt_le_def)

lemma flt_not_less_cases: "a \<noteq> NaN \<Longrightarrow> b \<noteq> NaN \<Longrightarrow> \<not> flt_less b a \<Longrightarrow> flt_le a b"
  by (cases a; cases b) (auto simp: flt_le_def)

fun flt_neg :: "pyfloat \<Rightarrow> pyfloat" where
  "flt_neg (Fin a) = Fin (- a)"
| "flt_neg PosInf = NegInf"
| "flt_neg NegInf = PosInf"
| "flt_neg NaN = NaN"

definition flt_sign :: "pyfloat \<Rightarrow> int" where
  "flt_sign x = (if flt_less (Fin 0) x then 1 else if flt_less x (Fin 0) then - 1 else 0)"

definition signed_inf :: "int \<Rightarrow> pyfloat" where
  "signed_inf s = (if s > 0 then PosInf else if s < 0 then NegInf else NaN)"

fun flt_mul :: "(rat \<Rightarrow> pyfloat) \<Rightarrow> pyfloat \<Rightarrow> pyfloat \<Rightarrow> pyfloat" where
  "flt_mul rnd NaN _ = NaN"
| "flt_mul rnd _ NaN = NaN"
| "flt_mul rnd (Fin a) (Fin b) = rnd (a * b)"
| "flt_mul rnd a b = signed_inf (flt_sign a * flt_sign b)"

text \<open>None: \<open>ZeroDivisionError\<close>.\<close>

fun flt_div :: "(rat \<Rightarrow> pyfloat) \<Rightarrow> pyfloat \<Rightarrow> pyfloat \<Rightarrow> pyfloat option" where
  "flt_div rnd (Fin a) (Fin b) = (if b = 0 then None else Some (rnd (a / b)))"
| "flt_div rnd NaN b = (if b = Fin 0 then None else Some NaN)"
| "flt_div rnd _ NaN = Some NaN"
| "flt_div rnd (Fin a) _ = Some (Fin 0)"
| "flt_div rnd a (Fin b) = (if b = 0 then None else Some (signed_inf (flt_sign a * flt_sign (Fin b))))"
| "flt_div rnd _ _ = Some NaN"

fun flt_add :: "(rat \<Rightarrow> pyfloat) \<Rightarrow> pyfloat \<Rightarrow> pyfloat \<Rightarrow> pyfloat" where
  "flt_add rnd (Fin a) (Fin b) = rnd (a + b)"
| "flt_add rnd NaN _ = NaN"
| "flt_add rnd _ NaN = NaN"
| "flt_add rnd PosInf NegInf = NaN"
| "flt_add rnd NegInf PosInf = NaN"
| "flt_add rnd PosInf _ = PosInf"
| "flt_add rnd _ PosInf = PosInf"
| "flt_add rnd NegInf _ = NegInf"
| "flt_add rnd _ NegInf = NegInf"

definition flt_sub :: "(rat \<Rightarrow> pyfloat) \<Rightarrow> pyfloat \<Rightarrow> pyfloat \<Rightarrow> pyfloat" where
  "flt_sub rnd a b = flt_add rnd a (flt_neg b)"

definition flt_finite :: "pyfloat \<Rightarrow> bool" where
  "flt_finite x = (case x of Fin _ \<Rightarrow> True | _ \<Rightarrow> False)"

lemma flt_finite_iff: "flt_finite x \<longleftrightarrow> (\<exists>q. x = Fin q)"
  by (cases x) (simp_all add: flt_finite_def)

fun flt_abs :: "pyfloat \<Rightarrow> pyfloat" where
  "flt_abs (Fin a) = Fin \<bar>a\<bar>"
| "flt_abs PosInf = PosInf"
| "flt_abs NegInf = PosInf"
| "flt_abs NaN = NaN"

text \<open>
  \<open>sum\<close> of floats: it starts from the integer 0, and since Python 3.12 it carries the rounding error
  of each addition in a second accumulator and adds it at the end when it is finite.
\<close>

fun sum_step :: "(rat \<Rightarrow> pyfloat) \<Rightarrow> pyfloat \<times> pyfloat \<Rightarrow> pyfloat \<Rightarrow> pyfloat \<times> pyfloat" where
  "sum_step rnd (s, c) x =
     (let t = flt_add rnd s x
      in (t, flt_add rnd c
               (if flt_le (flt_abs x) (flt_abs s) then flt_add rnd (flt_sub rnd s t) x
                else flt_add rnd (flt_sub rnd x t) s)))"

definition py_sum :: "(rat \<Rightarrow> pyfloat) \<Rightarrow> pyfloat list \<Rightarrow> pyfloat" where
  "py_sum rnd xs =
     (case xs of [] \<Rightarrow> Fin 0
      | x # r \<Rightarrow>
          (case foldl (sum_step rnd) (x, Fin 0) r of
             (s, c) \<Rightarrow> if \<not> flt_eq c (Fin 0) \<and> flt_finite c then flt_add rnd s c else s))"

text \<open>In exact arithmetic the second accumulator stays 0 and the sum is the sum.\<close>

lemma py_sum_exact: "py_sum Fin (map Fin qs) = Fin (sum_list qs)"
proof -
  have "foldl (sum_step Fin) (Fin s, Fin 0) (map Fin qs) = (Fin (s + sum_list qs), Fin 0)" for s and qs :: "rat list"
    by (induction qs arbitrary: s) (simp_all add: Let_def flt_sub_def algebra_simps)
  then show ?thesis by (cases qs) (simp_all add: py_sum_def)
qed

text \<open>\<open>max(a, b)\<close> and \<open>min(a, b)\<close> keep the first unless the second wins.\<close>

definition flt_max :: "pyfloat \<Rightarrow> pyfloat \<Rightarrow> pyfloat" where
  "flt_max a b = (if flt_less a b then b else a)"

definition flt_min :: "pyfloat \<Rightarrow> pyfloat \<Rightarrow> pyfloat" where
  "flt_min a b = (if flt_less b a then b else a)"

text \<open>A float is false when it equals zero; a NaN is true.\<close>

definition flt_truthy :: "pyfloat \<Rightarrow> bool" where
  "flt_truthy x \<longleftrightarrow> \<not> flt_eq x (Fin 0)"

text \<open>\<open>timedelta.total_seconds()\<close> of a duration in microseconds.\<close>

definition total_seconds :: "(rat \<Rightarrow> pyfloat) \<Rightarrow> duration \<Rightarrow> pyfloat" where
  "total_seconds rnd d = rnd (of_int d / 1000000)"

section \<open>Numbers in strings\<close>

definition is_digit :: "char \<Rightarrow> bool" where
  "is_digit c \<longleftrightarrow> (48::nat) \<le> of_char c \<and> of_char c \<le> (57::nat)"

text \<open>A run of digits with single underscores between them, and the rest.\<close>

fun scan_digits :: "string \<Rightarrow> string \<times> string" where
  "scan_digits [] = ([], [])"
| "scan_digits (c # s) =
     (if is_digit c then (let (d, r) = scan_digits s in (c # d, r))
      else if c = CHR ''_'' \<and> s \<noteq> [] \<and> is_digit (hd s) then scan_digits s
      else ([], c # s))"

definition digits_of :: "string \<Rightarrow> string \<times> string" where
  "digits_of s = (if s \<noteq> [] \<and> is_digit (hd s) then scan_digits s else ([], s))"

definition split_sign :: "string \<Rightarrow> bool \<times> string" where
  "split_sign s =
     (case s of [] \<Rightarrow> (False, [])
      | c # r \<Rightarrow> if c = CHR ''-'' then (True, r) else if c = CHR ''+'' then (False, r) else (False, s))"

text \<open>\<open>int(s)\<close>; None is \<open>ValueError\<close>.\<close>

definition int_of_string :: "string \<Rightarrow> int option" where
  "int_of_string s =
     (let (neg, r) = split_sign (strip s);
          (d, rest) = digits_of r
      in if d = [] \<or> rest \<noteq> [] then None
         else Some (if neg then - int (nat_of_digits d) else int (nat_of_digits d)))"

text \<open>The exponent part of a float literal: 0 when there is none, None when it is malformed.\<close>

definition exponent_of :: "string \<Rightarrow> int option" where
  "exponent_of s =
     (case s of [] \<Rightarrow> Some 0
      | c # r \<Rightarrow>
          if c = CHR ''e'' \<or> c = CHR ''E''
          then (let (neg, t) = split_sign r; (d, rest) = digits_of t
                in if d = [] \<or> rest \<noteq> [] then None
                   else Some (if neg then - int (nat_of_digits d) else int (nat_of_digits d)))
          else None)"

definition decimal_value :: "nat \<Rightarrow> int \<Rightarrow> rat" where
  "decimal_value m e = (if e \<ge> 0 then of_nat m * 10 ^ nat e else of_nat m / 10 ^ nat (- e))"

text \<open>\<open>float(s)\<close>; None is \<open>ValueError\<close>.\<close>

definition float_of_string :: "(rat \<Rightarrow> pyfloat) \<Rightarrow> string \<Rightarrow> pyfloat option" where
  "float_of_string rnd s =
     (let (neg, r) = split_sign (strip s); w = lower r
      in if w = ''inf'' \<or> w = ''infinity'' then Some (if neg then NegInf else PosInf)
         else if w = ''nan'' then Some NaN
         else (let (whole, r1) = digits_of r;
                   (frac, r2) = (case r1 of c # t \<Rightarrow> if c = CHR ''.'' then digits_of t else ([], r1)
                                 | [] \<Rightarrow> ([], []))
               in if whole = [] \<and> frac = [] then None
                  else case exponent_of r2 of
                         None \<Rightarrow> None
                       | Some e \<Rightarrow>
                           (let q = decimal_value (nat_of_digits (whole @ frac)) (e - int (length frac))
                            in Some (rnd (if neg then - q else q)))))"

text \<open>\<open>int(x)\<close> of a float: toward zero; None for the infinities (\<open>OverflowError\<close>) and NaN (\<open>ValueError\<close>).\<close>

definition int_of_float :: "pyfloat \<Rightarrow> int option" where
  "int_of_float x = (case x of Fin q \<Rightarrow> Some (if q \<ge> 0 then \<lfloor>q\<rfloor> else \<lceil>q\<rceil>) | _ \<Rightarrow> None)"

end
