(* ===== verification/Domain_Events.thy ===== *)
theory Domain_Events
  imports Pyfloat
begin

text \<open>
  The frozen event contracts of \<^verbatim>\<open>src/trader/domain/events.py\<close>, the entity keys of
  \<^verbatim>\<open>src/trader/domain/identity.py\<close> and the wire form of an event
  (\<^verbatim>\<open>src/trader/domain/feed_service.py\<close>): JSON values, mutations with the checks of
  \<open>__post_init__\<close>, events, and the round trip of an event over the typed RPC wire.
\<close>

section \<open>JSON values\<close>

text \<open>
  A JSON-native value. An object is an association list (a Python dict keeps insertion order).
  A number is an integer or a float (\<open>json.dumps\<close> writes \<open>NaN\<close> and \<open>Infinity\<close>, and the JSON
  column keeps them). The string that
  \<open>datetime.isoformat\<close> renders is kept as the datetime it denotes (\<open>JTime\<close>): the rendering is
  injective, and \<open>fromisoformat\<close> inverts it.
\<close>

datatype json =
    JNull
  | JBool bool
  | JInt int
  | JNum pyfloat
  | JStr string
  | JTime pydatetime
  | JList "json list"
  | JObj "(string \<times> json) list"

type_synonym jobject = "(string \<times> json) list"

fun jopt :: "('a \<Rightarrow> json) \<Rightarrow> 'a option \<Rightarrow> json" where
  "jopt f None = JNull"
| "jopt f (Some v) = f v"

text \<open>
  \<open>json.dumps(payload, sort_keys=True)\<close>: equal for two dicts that differ in key order only,
  at any depth.
\<close>

fun canon :: "json \<Rightarrow> json" where
  "canon (JList vs) = JList (map canon vs)"
| "canon (JObj kvs) = JObj (sort_key fst (map (\<lambda>kv. (fst kv, canon (snd kv))) kvs))"
| "canon JNull = JNull"
| "canon (JBool b) = JBool b"
| "canon (JInt i) = JInt i"
| "canon (JNum q) = JNum q"
| "canon (JStr s) = JStr s"
| "canon (JTime t) = JTime t"

definition canonical_payload :: "jobject option \<Rightarrow> json option" where
  "canonical_payload p = map_option (\<lambda>kvs. canon (JObj kvs)) p"

lemma canonical_payload_None [simp]: "canonical_payload p = None \<longleftrightarrow> p = None"
  by (simp add: canonical_payload_def)

text \<open>
  Python's \<open>==\<close> on decoded JSON: dicts compare without regard to key order, \<open>1\<close>, \<open>1.0\<close> and
  \<open>True\<close> are equal, and a NaN that came out of the JSON column equals nothing.
\<close>

fun py_norm :: "json \<Rightarrow> json" where
  "py_norm (JBool b) = JNum (Fin (if b then 1 else 0))"
| "py_norm (JInt i) = JNum (Fin (of_int i))"
| "py_norm (JList vs) = JList (map py_norm vs)"
| "py_norm (JObj kvs) = JObj (sort_key fst (map (\<lambda>kv. (fst kv, py_norm (snd kv))) kvs))"
| "py_norm (JNum q) = JNum q"
| "py_norm JNull = JNull"
| "py_norm (JStr s) = JStr s"
| "py_norm (JTime t) = JTime t"

fun has_nan :: "json \<Rightarrow> bool" where
  "has_nan (JNum q) \<longleftrightarrow> q = NaN"
| "has_nan (JList vs) \<longleftrightarrow> list_ex has_nan vs"
| "has_nan (JObj kvs) \<longleftrightarrow> list_ex (\<lambda>kv. has_nan (snd kv)) kvs"
| "has_nan _ \<longleftrightarrow> False"

definition py_equal :: "json \<Rightarrow> json \<Rightarrow> bool" where
  "py_equal a b \<longleftrightarrow> \<not> has_nan a \<and> py_norm a = py_norm b"

lemma insort_key_map_snd:
  "insort_key fst (fst x, f (snd x)) (map (\<lambda>kv. (fst kv, f (snd kv))) xs)
     = map (\<lambda>kv. (fst kv, f (snd kv))) (insort_key fst x xs)"
  by (induction xs) auto

lemma sort_key_map_snd:
  "sort_key fst (map (\<lambda>kv. (fst kv, f (snd kv))) kvs) = map (\<lambda>kv. (fst kv, f (snd kv))) (sort_key fst kvs)"
  by (induction kvs) (auto simp: insort_key_map_snd)

text \<open>Rendering with sorted keys and reading back gives an equal value, unless it holds a NaN.\<close>

lemma py_norm_canon [simp]: "py_norm (canon v) = py_norm v"
proof (induction v rule: canon.induct)
  case (2 kvs)
  have "map (\<lambda>kv. (fst kv, py_norm (snd kv))) (sort_key fst (map (\<lambda>kv. (fst kv, canon (snd kv))) kvs))
      = sort_key fst (map (\<lambda>kv. (fst kv, py_norm (snd kv))) kvs)"
    using 2 by (simp add: sort_key_map_snd [symmetric] comp_def cong: map_cong)
  then show ?case by (simp add: sort_key_id_if_sorted)
qed simp_all

lemma has_nan_canon [simp]: "has_nan (canon v) = has_nan v"
  by (induction v rule: canon.induct) (auto simp: list_ex_iff)

lemma py_equal_canon: "py_equal (canon v) v \<longleftrightarrow> \<not> has_nan v"
  by (simp add: py_equal_def)

text \<open>\<open>int(v)\<close> of a JSON value; None is any of the exceptions it raises.\<close>

fun py_int :: "json \<Rightarrow> int option" where
  "py_int (JInt i) = Some i"
| "py_int (JBool b) = Some (if b then 1 else 0)"
| "py_int (JNum x) = int_of_float x"
| "py_int (JStr s) = int_of_string s"
| "py_int _ = None"

text \<open>\<open>d.get(k)\<close> and \<open>{**previous, **incoming}\<close> on dicts.\<close>

definition jget :: "jobject \<Rightarrow> string \<Rightarrow> json option" where
  "jget kvs k = map_of kvs k"

definition jmerge :: "jobject \<Rightarrow> jobject \<Rightarrow> jobject" where
  "jmerge previous incoming = fold (\<lambda>(k, v) acc. AList.update k v acc) incoming previous"

lemma map_of_fold_update:
  "map_of (fold (\<lambda>(k, v) acc. AList.update k v acc) kvs acc) = map_of acc ++ map_of (rev kvs)"
  by (induction kvs arbitrary: acc) (auto simp: table_simps)

lemma jget_jmerge:
  assumes "distinct (map fst incoming)"
  shows "jget (jmerge previous incoming) k
    = (case jget incoming k of Some v \<Rightarrow> Some v | None \<Rightarrow> jget previous k)"
proof -
  have "map_of (rev incoming) = map_of incoming"
    using assms by (subst map_of_inject_set) (simp_all flip: rev_map)
  then show ?thesis
    unfolding jget_def jmerge_def by (simp add: map_of_fold_update map_add_def)
qed

lemma distinct_fold_update:
  "distinct (map fst acc) \<Longrightarrow>
   distinct (map fst (fold (\<lambda>(k, v) acc. AList.update k v acc) kvs acc))"
  by (induction kvs arbitrary: acc) (auto simp: distinct_update)

lemma distinct_jmerge [intro]: "distinct (map fst previous) \<Longrightarrow> distinct (map fst (jmerge previous incoming))"
  by (simp add: jmerge_def distinct_fold_update)

section \<open>Mutations and events\<close>

datatype operation = Upsert | Delete

record entity_key =
  ek_entity_type :: string
  ek_entity_id :: string
  ek_account_id :: "string option"

record domain_mutation =
  dm_event_type :: string
  dm_entity_type :: string
  dm_entity_id :: string
  dm_operation :: operation
  dm_account_id :: "string option"
  dm_source :: string
  dm_source_timestamp :: pydatetime
  dm_correlation_id :: "string option"
  dm_payload :: "jobject option"

text \<open>\<open>DomainMutation.__post_init__\<close>: the three producer bugs it refuses, in its order.\<close>

datatype mutation_error =
    NaiveSourceTimestamp
  | UpsertWithoutPayload
  | DeleteWithPayload

definition domain_mutation_post_init :: "domain_mutation \<Rightarrow> mutation_error + domain_mutation" where
  "domain_mutation_post_init m =
     (case dm_source_timestamp m of
        Naive _ \<Rightarrow> Inl NaiveSourceTimestamp
      | Aware _ \<Rightarrow>
          if dm_operation m = Upsert \<and> dm_payload m = None then Inl UpsertWithoutPayload
          else if dm_operation m = Delete \<and> dm_payload m \<noteq> None then Inl DeleteWithPayload
          else Inr m)"

lemma post_init_ok_iff:
  "domain_mutation_post_init m = Inr m' \<longleftrightarrow>
     m' = m \<and> (\<exists>t. dm_source_timestamp m = Aware t)
     \<and> (dm_operation m = Upsert \<longleftrightarrow> dm_payload m \<noteq> None)"
  by (cases "dm_operation m")
    (auto simp: domain_mutation_post_init_def split: pydatetime.splits)

record domain_event =
  de_event_id :: string
  de_source_cursor :: int
  de_entity_revision :: int
  de_event_type :: string
  de_entity_type :: string
  de_entity_id :: string
  de_operation :: operation
  de_account_id :: "string option"
  de_source :: string
  de_source_timestamp :: pydatetime
  de_correlation_id :: "string option"
  de_payload :: "jobject option"

record snapshot_with_cursor =
  sw_source_cursor :: int
  sw_broker_generation :: int
  sw_entities :: "(string \<times> jobject list) list"

record read_domain_events_result =
  rr_events :: "domain_event list"
  rr_newest_cursor :: int

section \<open>Entity keys\<close>

definition position_entity_id :: "string \<Rightarrow> string \<Rightarrow> string" where
  "position_entity_id account_id conid = account_id @ '':'' @ conid"

definition strategy_entity_id :: "string \<Rightarrow> string" where
  "strategy_entity_id strategy_name = strategy_name"

definition command_entity_id :: "string \<Rightarrow> string" where
  "command_entity_id command_id = command_id"

definition reconciliation_run_entity_id :: "string \<Rightarrow> string" where
  "reconciliation_run_entity_id run_id = run_id"

definition risk_policy_entity_id :: "string \<Rightarrow> string" where
  "risk_policy_entity_id policy_id = ''policy:'' @ policy_id"

definition risk_projection_entity_id :: "string \<Rightarrow> string" where
  "risk_projection_entity_id account_id = ''projection:'' @ account_id"

definition risk_decision_entity_id :: "string \<Rightarrow> string" where
  "risk_decision_entity_id command_id = ''decision:'' @ command_id"

definition order_group_leg_entity_id :: "string \<Rightarrow> string \<Rightarrow> string" where
  "order_group_leg_entity_id order_group_id leg = order_group_id @ '':'' @ leg"

definition fill_entity_id :: "string \<Rightarrow> string \<Rightarrow> string" where
  "fill_entity_id account_id exec_id = account_id @ '':'' @ exec_id"

text \<open>Splitting at the first separator recovers both parts of a composite key.\<close>

lemma append_sep_inject:
  assumes "c \<notin> set a" and "c \<notin> set a'" and "a @ c # b = a' @ c # b'"
  shows "a = a' \<and> b = b'"
proof -
  have "takeWhile (\<lambda>x. x \<noteq> c) (a @ c # b) = a" "takeWhile (\<lambda>x. x \<noteq> c) (a' @ c # b') = a'"
    using assms(1,2) by (auto simp: takeWhile_append)
  then show ?thesis using assms(3) by auto
qed

text \<open>
  Two composite keys of the colon format are equal only if both their parts are, provided
  the account id itself holds no colon: distinct positions (and fills) never share a key.
\<close>

lemma position_key_injective:
  assumes "CHR '':'' \<notin> set account" and "CHR '':'' \<notin> set account'"
    and "position_entity_id account conid = position_entity_id account' conid'"
  shows "account = account' \<and> conid = conid'"
proof -
  have "account @ CHR '':'' # conid = account' @ CHR '':'' # conid'"
    using assms(3) by (simp add: position_entity_id_def)
  then show ?thesis using assms(1,2) by (intro append_sep_inject)
qed

section \<open>The wire form of an event\<close>

definition operation_to_wire :: "operation \<Rightarrow> json" where
  "operation_to_wire op = JStr (case op of Upsert \<Rightarrow> ''upsert'' | Delete \<Rightarrow> ''delete'')"

definition domain_event_to_wire :: "domain_event \<Rightarrow> jobject" where
  "domain_event_to_wire e =
     [(''event_id'', JStr (de_event_id e)),
      (''source_cursor'', JInt (de_source_cursor e)),
      (''entity_revision'', JInt (de_entity_revision e)),
      (''event_type'', JStr (de_event_type e)),
      (''entity_type'', JStr (de_entity_type e)),
      (''entity_id'', JStr (de_entity_id e)),
      (''operation'', operation_to_wire (de_operation e)),
      (''account_id'', jopt JStr (de_account_id e)),
      (''source'', JStr (de_source e)),
      (''source_timestamp'', JTime (de_source_timestamp e)),
      (''correlation_id'', jopt JStr (de_correlation_id e)),
      (''payload'', jopt JObj (de_payload e))]"

text \<open>
  The inverse. A missing key is the \<open>KeyError\<close> of \<open>wire[k]\<close>; a value of another JSON type has
  no counterpart in the typed record and is \<open>WireType\<close>.
\<close>

datatype wire_error = WireKeyError string | WireType string

definition wire_get :: "jobject \<Rightarrow> string \<Rightarrow> (json \<Rightarrow> 'a option) \<Rightarrow> wire_error + 'a" where
  "wire_get w k decode =
     (case jget w k of
        None \<Rightarrow> Inl (WireKeyError k)
      | Some v \<Rightarrow> (case decode v of None \<Rightarrow> Inl (WireType k) | Some x \<Rightarrow> Inr x))"

fun as_str :: "json \<Rightarrow> string option" where
  "as_str (JStr s) = Some s"
| "as_str _ = None"

fun as_int :: "json \<Rightarrow> int option" where
  "as_int (JInt i) = Some i"
| "as_int _ = None"

fun as_time :: "json \<Rightarrow> pydatetime option" where
  "as_time (JTime t) = Some t"
| "as_time _ = None"

fun as_opt_str :: "json \<Rightarrow> string option option" where
  "as_opt_str JNull = Some None"
| "as_opt_str (JStr s) = Some (Some s)"
| "as_opt_str _ = None"

fun as_opt_obj :: "json \<Rightarrow> jobject option option" where
  "as_opt_obj JNull = Some None"
| "as_opt_obj (JObj kvs) = Some (Some kvs)"
| "as_opt_obj _ = None"

definition as_operation :: "json \<Rightarrow> operation option" where
  "as_operation v =
     (if v = JStr ''upsert'' then Some Upsert
      else if v = JStr ''delete'' then Some Delete else None)"

definition bind_wire :: "wire_error + 'a \<Rightarrow> ('a \<Rightarrow> wire_error + 'b) \<Rightarrow> wire_error + 'b" where
  "bind_wire r f = (case r of Inl e \<Rightarrow> Inl e | Inr x \<Rightarrow> f x)"

lemma bind_wire_simps [simp]: "bind_wire (Inl e) f = Inl e" "bind_wire (Inr x) f = f x"
  by (simp_all add: bind_wire_def)

definition domain_event_from_wire :: "jobject \<Rightarrow> wire_error + domain_event" where
  "domain_event_from_wire w =
     bind_wire (wire_get w ''event_id'' as_str) (\<lambda>event_id.
     bind_wire (wire_get w ''source_cursor'' as_int) (\<lambda>source_cursor.
     bind_wire (wire_get w ''entity_revision'' as_int) (\<lambda>entity_revision.
     bind_wire (wire_get w ''event_type'' as_str) (\<lambda>event_type.
     bind_wire (wire_get w ''entity_type'' as_str) (\<lambda>entity_type.
     bind_wire (wire_get w ''entity_id'' as_str) (\<lambda>entity_id.
     bind_wire (wire_get w ''operation'' as_operation) (\<lambda>operation.
     bind_wire (wire_get w ''account_id'' as_opt_str) (\<lambda>account_id.
     bind_wire (wire_get w ''source'' as_str) (\<lambda>source.
     bind_wire (wire_get w ''source_timestamp'' as_time) (\<lambda>source_timestamp.
     bind_wire (wire_get w ''correlation_id'' as_opt_str) (\<lambda>correlation_id.
     bind_wire (wire_get w ''payload'' as_opt_obj) (\<lambda>payload.
       Inr \<lparr>de_event_id = event_id, de_source_cursor = source_cursor,
            de_entity_revision = entity_revision, de_event_type = event_type,
            de_entity_type = entity_type, de_entity_id = entity_id,
            de_operation = operation, de_account_id = account_id,
            de_source = source, de_source_timestamp = source_timestamp,
            de_correlation_id = correlation_id, de_payload = payload\<rparr>))))))))))))"

fun events_from_wire :: "jobject list \<Rightarrow> wire_error + domain_event list" where
  "events_from_wire [] = Inr []"
| "events_from_wire (w # ws) =
     bind_wire (domain_event_from_wire w) (\<lambda>e.
     bind_wire (events_from_wire ws) (\<lambda>es. Inr (e # es)))"

definition read_domain_events_result_from_wire ::
    "jobject list \<Rightarrow> int \<Rightarrow> wire_error + read_domain_events_result" where
  "read_domain_events_result_from_wire events newest_cursor =
     bind_wire (events_from_wire events) (\<lambda>es.
       Inr \<lparr>rr_events = es, rr_newest_cursor = newest_cursor\<rparr>)"

lemma as_opt_str_jopt [simp]: "as_opt_str (jopt JStr x) = Some x"
  by (cases x) simp_all

lemma as_opt_obj_jopt [simp]: "as_opt_obj (jopt JObj x) = Some x"
  by (cases x) simp_all

lemma as_operation_wire [simp]: "as_operation (operation_to_wire op) = Some op"
  by (cases op) (simp_all add: as_operation_def operation_to_wire_def)

lemma event_wire_roundtrip [simp]: "domain_event_from_wire (domain_event_to_wire e) = Inr e"
  by (simp add: domain_event_from_wire_def domain_event_to_wire_def wire_get_def jget_def)

text \<open>
  The field names of the two wire functions agree: a batch of events turned into wire dicts and
  rebuilt on the client gives the same events, in the same order. The text between the two is not
  covered: the transport renders the dicts as canonical JSON and refuses a payload that holds a NaN
  or an infinity (\<^verbatim>\<open>src/trader/messaging/typed_rpc.py\<close>, \<open>canonical_json\<close> with \<open>allow_nan=False\<close>),
  and a time stands here for its ISO text.
\<close>

lemma feed_wire_roundtrip:
  "read_domain_events_result_from_wire (map domain_event_to_wire (rr_events r)) (rr_newest_cursor r)
     = Inr r"
proof -
  have "events_from_wire (map domain_event_to_wire es) = Inr es" for es
    by (induction es) simp_all
  then show ?thesis by (simp add: read_domain_events_result_from_wire_def)
qed

end
