(* ===== verification/Domain_Journal.thy ===== *)
theory Domain_Journal
  imports Domain_Events
begin

text \<open>
  The durable, cursor-ordered event journal of \<^verbatim>\<open>src/trader/data/domain_journal.py\<close>: its
  three tables, the atomic append with its idempotency rule, batches, the commit signal, the
  retention sweep and the reads. The state also carries the producer's own tables (type
  \<open>'p\<close>), which the \<open>write_materialized\<close> callback of an append updates in the same transaction.

  A transaction runs under \<open>_write_lock\<close> and \<open>fenced_read_lock\<close>, so it is one step of the model.
  A failed transaction restores every table; the cursor sequence is not transactional and keeps
  the values it handed out (cursors are monotonic but sparse). Clock readings and \<open>uuid4\<close> values
  are arguments.
\<close>

section \<open>Tables\<close>

record journal_row =
  jr_source_cursor :: int
  jr_event_id :: string
  jr_entity_revision :: int
  jr_event_type :: string
  jr_entity_type :: string
  jr_entity_id :: string
  jr_operation :: operation
  jr_account_id :: "string option"
  jr_source :: string
  jr_source_timestamp :: instant
  jr_received_timestamp :: instant
  jr_correlation_id :: "string option"
  jr_payload :: "jobject option"

record checkpoint_record =
  ck_checkpoint_id :: int
  ck_created_at :: instant
  ck_newest_cursor :: int
  ck_oldest_retained_cursor :: int
  ck_broker_generation :: int

text \<open>A row of \<open>domain_materialized_entities\<close>; its key is (entity type, entity id).\<close>

record entity_row =
  en_account_id :: "string option"
  en_entity_revision :: int
  en_deleted :: bool
  en_payload :: "jobject option"
  en_updated_at :: instant

text \<open>
  \<open>jd_next_cursor\<close> and \<open>jd_next_checkpoint\<close> are the next values of the two sequences,
  \<open>jd_latest_committed\<close> is the in-memory counter the long-poll readers wait on, and
  \<open>jd_open_events\<close> collects the events of the running transaction.
\<close>

record 'p journal_db =
  jd_rows :: "journal_row list"
  jd_next_cursor :: int
  jd_checkpoints :: "checkpoint_record list"
  jd_next_checkpoint :: int
  jd_entities :: "((string \<times> string) \<times> entity_row) list"
  jd_latest_committed :: int
  jd_open_events :: "domain_event list"
  jd_prod :: 'p

definition empty_journal :: "'p \<Rightarrow> 'p journal_db" where
  "empty_journal p =
     \<lparr>jd_rows = [], jd_next_cursor = 1, jd_checkpoints = [], jd_next_checkpoint = 1,
      jd_entities = [], jd_latest_committed = 0, jd_open_events = [], jd_prod = p\<rparr>"

lemma empty_journal_simps [simp]:
  "jd_rows (empty_journal p) = []" "jd_next_cursor (empty_journal p) = 1"
  "jd_entities (empty_journal p) = []" "jd_prod (empty_journal p) = p"
  "jd_latest_committed (empty_journal p) = 0" "jd_checkpoints (empty_journal p) = []"
  by (simp_all add: empty_journal_def)

text \<open>
  What the journal can raise: a reused event id with other canonical fields, a violated
  unique index, a naive \<open>now\<close>, the index error of \<open>mutate_batch(...)[0]\<close> on an empty tuple
  (which a batch of one never returns), or an exception of the producer's callback.
\<close>

datatype 'e journal_error =
    EventIdentityConflict string
  | UniqueViolation
  | NaiveNow
  | BatchIndexError
  | Raised 'e

section \<open>Reading\<close>

definition as_utc :: "pydatetime \<Rightarrow> instant" where
  "as_utc v = (case v of Naive t \<Rightarrow> t | Aware t \<Rightarrow> t)"

lemma as_utc_simps [simp]: "as_utc (Aware t) = t" "as_utc (Naive t) = t"
  by (simp_all add: as_utc_def)

definition row_to_event :: "journal_row \<Rightarrow> domain_event" where
  "row_to_event r =
     \<lparr>de_event_id = jr_event_id r, de_source_cursor = jr_source_cursor r,
      de_entity_revision = jr_entity_revision r, de_event_type = jr_event_type r,
      de_entity_type = jr_entity_type r, de_entity_id = jr_entity_id r,
      de_operation = jr_operation r, de_account_id = jr_account_id r,
      de_source = jr_source r, de_source_timestamp = Aware (jr_source_timestamp r),
      de_correlation_id = jr_correlation_id r, de_payload = jr_payload r\<rparr>"

definition select_journal_row :: "'p journal_db \<Rightarrow> string \<Rightarrow> journal_row option" where
  "select_journal_row db event_id = fetchone (filter (\<lambda>r. jr_event_id r = event_id) (jd_rows db))"

definition journal_matches :: "journal_row \<Rightarrow> domain_mutation \<Rightarrow> bool" where
  "journal_matches existing m =
     (if jr_event_type existing \<noteq> dm_event_type m then False
      else if jr_entity_type existing \<noteq> dm_entity_type m then False
      else if jr_entity_id existing \<noteq> dm_entity_id m then False
      else if jr_operation existing \<noteq> dm_operation m then False
      else if jr_account_id existing \<noteq> dm_account_id m then False
      else if jr_source existing \<noteq> dm_source m then False
      else if jr_source_timestamp existing \<noteq> as_utc (dm_source_timestamp m) then False
      else if jr_correlation_id existing \<noteq> dm_correlation_id m then False
      else if canonical_payload (jr_payload existing) \<noteq> canonical_payload (dm_payload m) then False
      else True)"

text \<open>Not filtered by \<open>deleted\<close>: a tombstone keeps its place in the revision stream.\<close>

definition read_current_revision :: "'p journal_db \<Rightarrow> string \<Rightarrow> string \<Rightarrow> int" where
  "read_current_revision db entity_type entity_id =
     (case map_of (jd_entities db) (entity_type, entity_id) of
        None \<Rightarrow> 0 | Some row \<Rightarrow> en_entity_revision row)"

definition get_entity :: "'p journal_db \<Rightarrow> string \<Rightarrow> string \<Rightarrow> entity_row option" where
  "get_entity db entity_type entity_id =
     (case map_of (jd_entities db) (entity_type, entity_id) of
        None \<Rightarrow> None
      | Some row \<Rightarrow> if en_deleted row then None else Some row)"

definition read_after :: "'p journal_db \<Rightarrow> int \<Rightarrow> int \<Rightarrow> domain_event list" where
  "read_after db after_cursor limit =
     map row_to_event
       (take (nat limit)
         (sort_key jr_source_cursor (filter (\<lambda>r. jr_source_cursor r > after_cursor) (jd_rows db))))"

definition latest_checkpoint :: "'p journal_db \<Rightarrow> checkpoint_record option" where
  "latest_checkpoint db = fetchone (rev (sort_key ck_checkpoint_id (jd_checkpoints db)))"

definition read_latest_broker_generation :: "'p journal_db \<Rightarrow> int" where
  "read_latest_broker_generation db =
     (case latest_checkpoint db of None \<Rightarrow> 0 | Some c \<Rightarrow> ck_broker_generation c)"

section \<open>Writing\<close>

definition strategy_runtime_metadata_fields :: "string list" where
  "strategy_runtime_metadata_fields =
     [''class_name'', ''bar_size'', ''conids'', ''universe'', ''params'', ''module'',
      ''display_name'', ''historical_days_prior'']"

definition is_missing_strategy_metadata :: "json \<Rightarrow> bool" where
  "is_missing_strategy_metadata v \<longleftrightarrow> v = JNull \<or> v = JStr [] \<or> v = JList [] \<or> v = JObj []"

text \<open>
  A strategy update keeps the runtime metadata of the previous row where the incoming payload
  lacks it; every other entity replaces its payload.
\<close>

definition restore_field :: "jobject \<Rightarrow> jobject \<Rightarrow> string \<Rightarrow> jobject \<Rightarrow> jobject" where
  "restore_field incoming previous field merged =
     (if jget incoming field = None \<or> is_missing_strategy_metadata (opt_or JNull (jget incoming field))
      then (case jget previous field of
              Some v \<Rightarrow> AList.update field v merged
            | None \<Rightarrow> merged)
      else merged)"

definition materialized_payload :: "'p journal_db \<Rightarrow> domain_mutation \<Rightarrow> jobject option" where
  "materialized_payload db m =
     (if dm_entity_type m \<noteq> ''strategy'' \<or> dm_operation m = Delete then dm_payload m
      else case dm_payload m of
        None \<Rightarrow> None
      | Some incoming \<Rightarrow>
         (case get_entity db (dm_entity_type m) (dm_entity_id m) of
            None \<Rightarrow> Some incoming
          | Some row \<Rightarrow>
             (case en_payload row of
                None \<Rightarrow> Some incoming
              | Some previous \<Rightarrow>
                  Some (fold (restore_field incoming previous)
                         strategy_runtime_metadata_fields (jmerge previous incoming)))))"

definition upsert_materialized ::
    "domain_mutation \<Rightarrow> int \<Rightarrow> instant \<Rightarrow> 'p journal_db \<Rightarrow> 'p journal_db" where
  "upsert_materialized m revision updated_at db =
     db\<lparr>jd_entities := AList.update (dm_entity_type m, dm_entity_id m)
          \<lparr>en_account_id = dm_account_id m, en_entity_revision = revision,
           en_deleted = (dm_operation m = Delete),
           en_payload = materialized_payload db m, en_updated_at = updated_at\<rparr>
          (jd_entities db)\<rparr>"

definition make_journal_row :: "int \<Rightarrow> string \<Rightarrow> domain_mutation \<Rightarrow> int \<Rightarrow> instant \<Rightarrow> journal_row" where
  "make_journal_row cursor event_id m revision received_ts =
     \<lparr>jr_source_cursor = cursor, jr_event_id = event_id, jr_entity_revision = revision,
      jr_event_type = dm_event_type m, jr_entity_type = dm_entity_type m,
      jr_entity_id = dm_entity_id m, jr_operation = dm_operation m,
      jr_account_id = dm_account_id m, jr_source = dm_source m,
      jr_source_timestamp = as_utc (dm_source_timestamp m),
      jr_received_timestamp = received_ts, jr_correlation_id = dm_correlation_id m,
      jr_payload = dm_payload m\<rparr>"

text \<open>
  The insert takes a cursor from the sequence first, then the two unique indexes
  (\<open>event_id\<close>, and entity type, id and revision together) are checked.
\<close>

definition insert_journal_row ::
    "string \<Rightarrow> domain_mutation \<Rightarrow> int \<Rightarrow> instant \<Rightarrow> 'p journal_db
     \<Rightarrow> ('e journal_error + domain_event) \<times> 'p journal_db" where
  "insert_journal_row event_id m revision received_ts db =
     (let row = make_journal_row (jd_next_cursor db) event_id m revision received_ts;
          db1 = db\<lparr>jd_next_cursor := jd_next_cursor db + 1\<rparr>
      in if (\<exists>r \<in> set (jd_rows db). jr_event_id r = event_id
              \<or> (jr_entity_type r = dm_entity_type m \<and> jr_entity_id r = dm_entity_id m
                 \<and> jr_entity_revision r = revision))
         then (Inl UniqueViolation, db1)
         else (Inr (row_to_event row), db1\<lparr>jd_rows := jd_rows db @ [row]\<rparr>))"

text \<open>The \<open>append\<close> function a unit of work receives.\<close>

definition journal_append ::
    "instant \<Rightarrow> string \<Rightarrow> domain_mutation \<Rightarrow> ('p \<Rightarrow> int \<Rightarrow> 'e + 'p) \<Rightarrow> string option
     \<Rightarrow> 'p journal_db \<Rightarrow> ('e journal_error + domain_event) \<times> 'p journal_db" where
  "journal_append received_ts uuid m write_materialized event_id db =
     (let eid = opt_or uuid event_id
      in case select_journal_row db eid of
           Some existing \<Rightarrow>
             if \<not> journal_matches existing m then (Inl (EventIdentityConflict eid), db)
             else (Inr (row_to_event existing),
                   db\<lparr>jd_open_events := jd_open_events db @ [row_to_event existing]\<rparr>)
         | None \<Rightarrow>
             (let next_revision = read_current_revision db (dm_entity_type m) (dm_entity_id m) + 1
              in case write_materialized (jd_prod db) next_revision of
                   Inl e \<Rightarrow> (Inl (Raised e), db)
                 | Inr p \<Rightarrow>
                    (case insert_journal_row eid m next_revision received_ts
                            (upsert_materialized m next_revision received_ts (db\<lparr>jd_prod := p\<rparr>)) of
                       (Inl e, db') \<Rightarrow> (Inl e, db')
                     | (Inr ev, db') \<Rightarrow>
                         (Inr ev, db'\<lparr>jd_open_events := jd_open_events db' @ [ev]\<rparr>))))"

definition signal_commit :: "int \<Rightarrow> 'p journal_db \<Rightarrow> 'p journal_db" where
  "signal_commit source_cursor db =
     (if source_cursor > jd_latest_committed db
      then db\<lparr>jd_latest_committed := source_cursor\<rparr> else db)"

text \<open>\<open>max(event.source_cursor for event in committed_events)\<close>.\<close>

definition top_cursor :: "domain_event list \<Rightarrow> int" where
  "top_cursor events = Max (de_source_cursor ` set events)"

text \<open>
  \<open>mutate_batch_work\<close>: run \<open>work\<close> in one transaction. On an exception every table is as before
  \<open>BEGIN\<close>; after a commit the highest cursor of the batch is signalled.
\<close>

definition mutate_batch_work ::
    "('p journal_db \<Rightarrow> ('e journal_error + 'r) \<times> 'p journal_db) \<Rightarrow> 'p journal_db
     \<Rightarrow> ('e journal_error + 'r) \<times> 'p journal_db" where
  "mutate_batch_work work db =
     (case work (db\<lparr>jd_open_events := []\<rparr>) of
        (Inl e, db') \<Rightarrow> (Inl e, db\<lparr>jd_next_cursor := jd_next_cursor db'\<rparr>)
      | (Inr r, db') \<Rightarrow>
          (Inr r, if jd_open_events db' = [] then db'
                  else signal_commit (top_cursor (jd_open_events db')) db'))"

record ('p, 'e) batch_item =
  bi_received_ts :: instant
  bi_uuid :: string
  bi_mutation :: domain_mutation
  bi_write :: "'p \<Rightarrow> int \<Rightarrow> 'e + 'p"
  bi_event_id :: "string option"

fun append_all ::
    "('p, 'e) batch_item list \<Rightarrow> 'p journal_db
     \<Rightarrow> ('e journal_error + domain_event list) \<times> 'p journal_db" where
  "append_all [] db = (Inr [], db)"
| "append_all (b # bs) db =
     (case journal_append (bi_received_ts b) (bi_uuid b) (bi_mutation b) (bi_write b) (bi_event_id b) db of
        (Inl e, db') \<Rightarrow> (Inl e, db')
      | (Inr ev, db') \<Rightarrow>
         (case append_all bs db' of
            (Inl e, db'') \<Rightarrow> (Inl e, db'')
          | (Inr evs, db'') \<Rightarrow> (Inr (ev # evs), db'')))"

definition mutate_batch ::
    "('p, 'e) batch_item list \<Rightarrow> 'p journal_db
     \<Rightarrow> ('e journal_error + domain_event list) \<times> 'p journal_db" where
  "mutate_batch items db =
     (if items = [] then (Inr [], db) else mutate_batch_work (append_all items) db)"

definition mutate ::
    "('p, 'e) batch_item \<Rightarrow> 'p journal_db \<Rightarrow> ('e journal_error + domain_event) \<times> 'p journal_db" where
  "mutate item db =
     (case mutate_batch [item] db of
        (Inl e, db') \<Rightarrow> (Inl e, db')
      | (Inr [], db') \<Rightarrow> (Inl BatchIndexError, db')
      | (Inr (ev # _), db') \<Rightarrow> (Inr ev, db'))"

section \<open>Start-up, waiting and retention\<close>

definition max_cursor :: "journal_row list \<Rightarrow> int" where
  "max_cursor rows = (if rows = [] then 0 else Max (jr_source_cursor ` set rows))"

definition sync_latest_committed_cursor :: "'p journal_db \<Rightarrow> 'p journal_db" where
  "sync_latest_committed_cursor db = signal_commit (max_cursor (jd_rows db)) db"

text \<open>
  \<open>wait_for_cursor_after\<close>: each element of the schedule is one check of the loop condition,
  the monotonic clock and the committed counter at that check. None: the schedule ends while
  the caller still waits.
\<close>

fun wait_for_cursor_after :: "int \<Rightarrow> int \<Rightarrow> (int \<times> int) list \<Rightarrow> int option" where
  "wait_for_cursor_after after_cursor deadline [] = None"
| "wait_for_cursor_after after_cursor deadline ((now, latest) # wakeups) =
     (if latest > after_cursor then Some latest
      else if deadline - now \<le> 0 then Some latest
      else wait_for_cursor_after after_cursor deadline wakeups)"

definition retention_floor :: duration where
  "retention_floor = days 30"

record compaction_result =
  cr_oldest_retained_cursor :: int
  cr_newest_cursor :: int
  cr_deleted_count :: int
  cr_completed_at :: instant

definition time_floor_cursor :: "instant \<Rightarrow> journal_row list \<Rightarrow> int" where
  "time_floor_cursor now rows =
     (let recent = filter (\<lambda>r. jr_received_timestamp r \<ge> now - retention_floor) rows
      in if recent = [] then max_cursor rows else Min (jr_source_cursor ` set recent))"

text \<open>
  \<open>active_cursors\<close> is part of the signature and does not change the outcome, as in the source.
\<close>

definition compact ::
    "pydatetime \<Rightarrow> (string \<times> int) list \<Rightarrow> instant \<Rightarrow> 'p journal_db
     \<Rightarrow> ('e journal_error + compaction_result) \<times> 'p journal_db" where
  "compact now active_cursors completed_at db =
     (case now of
        Naive _ \<Rightarrow> (Inl NaiveNow, db)
      | Aware t \<Rightarrow>
         (let newest = max_cursor (jd_rows db);
              oldest = time_floor_cursor t (jd_rows db);
              kept = filter (\<lambda>r. \<not> jr_source_cursor r < oldest) (jd_rows db);
              generation = read_latest_broker_generation db;
              ck = \<lparr>ck_checkpoint_id = jd_next_checkpoint db, ck_created_at = completed_at,
                    ck_newest_cursor = newest, ck_oldest_retained_cursor = oldest,
                    ck_broker_generation = generation\<rparr>
          in (Inr \<lparr>cr_oldest_retained_cursor = oldest, cr_newest_cursor = newest,
                   cr_deleted_count = int (length (jd_rows db)) - int (length kept),
                   cr_completed_at = completed_at\<rparr>,
              db\<lparr>jd_rows := kept, jd_checkpoints := jd_checkpoints db @ [ck],
                 jd_next_checkpoint := jd_next_checkpoint db + 1\<rparr>)))"

section \<open>The invariant\<close>

definition retained_floor :: "'p journal_db \<Rightarrow> int" where
  "retained_floor db =
     (case latest_checkpoint db of None \<Rightarrow> 0 | Some c \<Rightarrow> ck_oldest_retained_cursor c)"

definition same_entity :: "journal_row \<Rightarrow> journal_row \<Rightarrow> bool" where
  "same_entity r s \<longleftrightarrow> jr_entity_type r = jr_entity_type s \<and> jr_entity_id r = jr_entity_id s"

text \<open>
  Cursors grow along the journal and stay below the sequence; event ids are unique; the ledger
  revision of an entity bounds its journal revisions, which grow; checkpoint ids grow; nothing
  below the retained floor is left; the committed counter never runs ahead of the journal.
\<close>

definition rows_ok :: "journal_row list \<Rightarrow> int \<Rightarrow> bool" where
  "rows_ok rows next_cursor \<longleftrightarrow>
     sorted_by jr_source_cursor rows
     \<and> (\<forall>r \<in> set rows. 1 \<le> jr_source_cursor r \<and> jr_source_cursor r < next_cursor)
     \<and> 1 \<le> next_cursor
     \<and> distinct (map jr_event_id rows)
     \<and> sorted_wrt (\<lambda>r s. same_entity r s \<longrightarrow> jr_entity_revision r < jr_entity_revision s) rows"

definition ledger_ok :: "'p journal_db \<Rightarrow> bool" where
  "ledger_ok db \<longleftrightarrow>
     (\<forall>r \<in> set (jd_rows db).
        jr_entity_revision r \<le> read_current_revision db (jr_entity_type r) (jr_entity_id r))"

definition retention_ok :: "'p journal_db \<Rightarrow> bool" where
  "retention_ok db \<longleftrightarrow>
     sorted_by ck_checkpoint_id (jd_checkpoints db)
     \<and> (\<forall>c \<in> set (jd_checkpoints db). ck_checkpoint_id c < jd_next_checkpoint db)
     \<and> (\<forall>r \<in> set (jd_rows db). retained_floor db \<le> jr_source_cursor r)
     \<and> (jd_rows db = [] \<longrightarrow> retained_floor db = 0)"

definition journal_inv :: "'p journal_db \<Rightarrow> bool" where
  "journal_inv db \<longleftrightarrow>
     rows_ok (jd_rows db) (jd_next_cursor db) \<and> ledger_ok db \<and> retention_ok db
     \<and> jd_latest_committed db \<le> max_cursor (jd_rows db)"

lemma journal_inv_empty [simp]: "journal_inv (empty_journal p)"
  by (simp add: journal_inv_def rows_ok_def ledger_ok_def retention_ok_def empty_journal_def
      retained_floor_def latest_checkpoint_def max_cursor_def)

lemma journal_inv_sorted: "journal_inv db \<Longrightarrow> sorted_by jr_source_cursor (jd_rows db)"
  by (simp add: journal_inv_def rows_ok_def)

lemma ledger_okD:
  "journal_inv db \<Longrightarrow> r \<in> set (jd_rows db) \<Longrightarrow>
   jr_entity_revision r \<le> read_current_revision db (jr_entity_type r) (jr_entity_id r)"
  by (simp add: journal_inv_def ledger_ok_def)

lemma retained_floor_cong:
  "jd_checkpoints db' = jd_checkpoints db \<Longrightarrow> retained_floor db' = retained_floor db"
  by (simp add: retained_floor_def latest_checkpoint_def)

lemma latest_checkpoint_snoc:
  assumes "sorted_by ck_checkpoint_id cks" and "\<forall>c \<in> set cks. ck_checkpoint_id c < ck_checkpoint_id ck"
    and "jd_checkpoints db = cks @ [ck]"
  shows "latest_checkpoint db = Some ck"
proof -
  have "sorted_by ck_checkpoint_id (cks @ [ck])"
    using assms(1,2) by (simp add: sorted_by_append_single)
  then show ?thesis using assms(3) by (simp add: latest_checkpoint_def sorted_by_sort_key)
qed

lemma max_cursor_ge: "r \<in> set rows \<Longrightarrow> jr_source_cursor r \<le> max_cursor rows"
  by (auto simp: max_cursor_def)

lemma max_cursor_in: "rows \<noteq> [] \<Longrightarrow> max_cursor rows \<in> jr_source_cursor ` set rows"
  unfolding max_cursor_def by (simp add: Max_in)

lemma max_cursor_snoc:
  "(\<forall>r \<in> set rows. jr_source_cursor r < jr_source_cursor x) \<Longrightarrow> 0 \<le> jr_source_cursor x \<Longrightarrow>
   max_cursor (rows @ [x]) = jr_source_cursor x"
  unfolding max_cursor_def by (simp, intro Max_eqI) (auto intro: less_imp_le)

section \<open>What one append does\<close>

text \<open>The state after a fresh append.\<close>

definition appended :: "instant \<Rightarrow> string \<Rightarrow> domain_mutation \<Rightarrow> 'p \<Rightarrow> 'p journal_db \<Rightarrow> 'p journal_db" where
  "appended received_ts eid m p db =
     (let rev = read_current_revision db (dm_entity_type m) (dm_entity_id m) + 1;
          row = make_journal_row (jd_next_cursor db) eid m rev received_ts
      in (upsert_materialized m rev received_ts (db\<lparr>jd_prod := p\<rparr>))
           \<lparr>jd_next_cursor := jd_next_cursor db + 1, jd_rows := jd_rows db @ [row],
            jd_open_events := jd_open_events db @ [row_to_event row]\<rparr>)"

definition fresh_row :: "instant \<Rightarrow> string \<Rightarrow> domain_mutation \<Rightarrow> 'p journal_db \<Rightarrow> journal_row" where
  "fresh_row received_ts eid m db =
     make_journal_row (jd_next_cursor db) eid m
       (read_current_revision db (dm_entity_type m) (dm_entity_id m) + 1) received_ts"

lemma appended_simps [simp]:
  "jd_rows (appended t eid m p db) = jd_rows db @ [fresh_row t eid m db]"
  "jd_next_cursor (appended t eid m p db) = jd_next_cursor db + 1"
  "jd_checkpoints (appended t eid m p db) = jd_checkpoints db"
  "jd_next_checkpoint (appended t eid m p db) = jd_next_checkpoint db"
  "jd_latest_committed (appended t eid m p db) = jd_latest_committed db"
  "jd_open_events (appended t eid m p db) = jd_open_events db @ [row_to_event (fresh_row t eid m db)]"
  "jd_prod (appended t eid m p db) = p"
  by (simp_all add: appended_def fresh_row_def upsert_materialized_def Let_def)

lemma fresh_row_simps [simp]:
  "jr_source_cursor (fresh_row t eid m db) = jd_next_cursor db"
  "jr_event_id (fresh_row t eid m db) = eid"
  "jr_entity_type (fresh_row t eid m db) = dm_entity_type m"
  "jr_entity_id (fresh_row t eid m db) = dm_entity_id m"
  "jr_received_timestamp (fresh_row t eid m db) = t"
  "jr_entity_revision (fresh_row t eid m db)
     = read_current_revision db (dm_entity_type m) (dm_entity_id m) + 1"
  by (simp_all add: fresh_row_def make_journal_row_def)

lemma row_to_event_simps [simp]:
  "de_source_cursor (row_to_event r) = jr_source_cursor r"
  "de_event_id (row_to_event r) = jr_event_id r"
  "de_entity_revision (row_to_event r) = jr_entity_revision r"
  "de_entity_type (row_to_event r) = jr_entity_type r"
  "de_entity_id (row_to_event r) = jr_entity_id r"
  "de_operation (row_to_event r) = jr_operation r"
  "de_account_id (row_to_event r) = jr_account_id r"
  "de_payload (row_to_event r) = jr_payload r"
  by (simp_all add: row_to_event_def)

lemma revision_appended:
  "read_current_revision (appended t eid m p db) et ei =
     (if et = dm_entity_type m \<and> ei = dm_entity_id m
      then read_current_revision db et ei + 1 else read_current_revision db et ei)"
  by (auto simp: appended_def read_current_revision_def upsert_materialized_def Let_def table_simps)

lemma select_journal_row_None:
  "select_journal_row db eid = None \<longleftrightarrow> (\<forall>r \<in> set (jd_rows db). jr_event_id r \<noteq> eid)"
  by (simp add: select_journal_row_def filter_empty_conv)

lemma select_journal_row_Some:
  "select_journal_row db eid = Some r \<Longrightarrow> r \<in> set (jd_rows db) \<and> jr_event_id r = eid"
  unfolding select_journal_row_def by (auto dest!: fetchone_SomeD)

text \<open>
  The outcomes of an append in a consistent journal: a conflict or a callback exception, which
  change nothing; a replay, which only reports the recorded event; or a fresh event. The unique
  index on the revision is never hit.
\<close>

lemma journal_append_cases:
  assumes inv: "journal_inv db"
    and app: "journal_append t u m w event_id db = (res, db')"
  obtains (conflict) "res = Inl (EventIdentityConflict (opt_or u event_id))" and "db' = db"
  | (raised) e where "res = Inl (Raised e)" and "db' = db"
  | (replay) row where "select_journal_row db (opt_or u event_id) = Some row" and "journal_matches row m"
      and "res = Inr (row_to_event row)"
      and "db' = db\<lparr>jd_open_events := jd_open_events db @ [row_to_event row]\<rparr>"
  | (fresh) p where "select_journal_row db (opt_or u event_id) = None"
      and "w (jd_prod db) (read_current_revision db (dm_entity_type m) (dm_entity_id m) + 1) = Inr p"
      and "res = Inr (row_to_event (fresh_row t (opt_or u event_id) m db))"
      and "db' = appended t (opt_or u event_id) m p db"
proof (cases "select_journal_row db (opt_or u event_id)")
  case (Some row)
  show thesis
  proof (cases "journal_matches row m")
    case True
    then show thesis using app Some by (intro replay) (auto simp: journal_append_def)
  next
    case False
    then show thesis using app Some by (intro conflict) (auto simp: journal_append_def)
  qed
next
  case None
  let ?rev = "read_current_revision db (dm_entity_type m) (dm_entity_id m) + 1"
  show thesis
  proof (cases "w (jd_prod db) ?rev")
    case (Inl e)
    then show thesis using app None by (intro raised [of e]) (auto simp: journal_append_def)
  next
    case (Inr p)
    have "\<not> (\<exists>r \<in> set (jd_rows db). jr_event_id r = opt_or u event_id
        \<or> (jr_entity_type r = dm_entity_type m \<and> jr_entity_id r = dm_entity_id m
           \<and> jr_entity_revision r = ?rev))"
    proof
      assume "\<exists>r \<in> set (jd_rows db). jr_event_id r = opt_or u event_id
        \<or> (jr_entity_type r = dm_entity_type m \<and> jr_entity_id r = dm_entity_id m
           \<and> jr_entity_revision r = ?rev)"
      then obtain r where r: "r \<in> set (jd_rows db)" "jr_entity_type r = dm_entity_type m"
          "jr_entity_id r = dm_entity_id m" "jr_entity_revision r = ?rev"
        using None by (auto simp: select_journal_row_None)
      then show False using ledger_okD [OF inv r(1)] by simp
    qed
    then have "journal_append t u m w event_id db =
        (Inr (row_to_event (fresh_row t (opt_or u event_id) m db)),
         appended t (opt_or u event_id) m p db)"
      using None Inr
      by (simp add: journal_append_def Let_def insert_journal_row_def upsert_materialized_def
          appended_def fresh_row_def)
    then show thesis using app None Inr by (intro fresh) auto
  qed
qed

text \<open>An append that only journals, under an id the journal does not hold, succeeds.\<close>

lemma append_fresh:
  assumes "journal_inv db" and "select_journal_row db eid = None"
  shows "journal_append t u m (\<lambda>p _. Inr p) (Some eid) db
    = (Inr (row_to_event (fresh_row t eid m db)) :: 'e journal_error + domain_event,
       appended t eid m (jd_prod db) db)"
proof -
  obtain res db' where run: "journal_append t u m (\<lambda>p _. Inr p) (Some eid) db
      = (res :: 'e journal_error + domain_event, db')" by fastforce
  from assms(1) this show ?thesis
  proof (cases rule: journal_append_cases)
    case conflict
    then show ?thesis
      using run assms(2) by (auto simp: journal_append_def insert_journal_row_def Let_def split: if_splits)
  next
    case (raised e)
    then show ?thesis
      using run assms(2) by (auto simp: journal_append_def insert_journal_row_def Let_def split: if_splits)
  next
    case (replay row)
    then show ?thesis using assms(2) by simp
  next
    case (fresh p)
    then show ?thesis using run by simp
  qed
qed

lemma rows_ok_snoc:
  assumes "rows_ok rows n" and "jr_source_cursor x = n" and "\<forall>r \<in> set rows. jr_event_id r \<noteq> jr_event_id x"
    and "\<forall>r \<in> set rows. same_entity r x \<longrightarrow> jr_entity_revision r < jr_entity_revision x"
  shows "rows_ok (rows @ [x]) (n + 1)"
  using assms by (force simp: rows_ok_def sorted_by_append_single sorted_wrt_append)

lemma journal_inv_appended:
  assumes inv: "journal_inv db" and new: "select_journal_row db eid = None"
  shows "journal_inv (appended t eid m p db)"
proof -
  let ?db = "appended t eid m p db" and ?x = "fresh_row t eid m db"
  note led = ledger_okD [OF inv]
  have lt: "jr_entity_revision r < read_current_revision db (dm_entity_type m) (dm_entity_id m) + 1"
    if "r \<in> set (jd_rows db)" "jr_entity_type r = dm_entity_type m"
      "jr_entity_id r = dm_entity_id m" for r
    using led [OF that(1)] that(2,3) by simp
  have "rows_ok (jd_rows db @ [?x]) (jd_next_cursor db + 1)"
    using inv new lt
    by (intro rows_ok_snoc) (simp_all add: journal_inv_def select_journal_row_None same_entity_def)
  moreover have "ledger_ok ?db"
    using led lt by (simp add: ledger_ok_def revision_appended less_imp_le)
  moreover have "retained_floor db \<le> jd_next_cursor db"
  proof (cases "jd_rows db")
    case Nil
    then show ?thesis using inv by (simp add: journal_inv_def retention_ok_def rows_ok_def)
  next
    case (Cons r rs)
    then have "retained_floor db \<le> jr_source_cursor r" "jr_source_cursor r < jd_next_cursor db"
      using inv by (auto simp: journal_inv_def retention_ok_def rows_ok_def)
    then show ?thesis by simp
  qed
  then have "retention_ok ?db"
    using inv retained_floor_cong [of ?db db] by (auto simp: journal_inv_def retention_ok_def)
  moreover have "max_cursor (jd_rows db @ [?x]) = jd_next_cursor db"
    using inv by (subst max_cursor_snoc) (auto simp: journal_inv_def rows_ok_def)
  moreover have "jd_latest_committed db \<le> jd_next_cursor db"
  proof (cases "jd_rows db = []")
    case True
    then show ?thesis using inv by (simp add: journal_inv_def max_cursor_def rows_ok_def)
  next
    case False
    then have "max_cursor (jd_rows db) < jd_next_cursor db"
      using inv max_cursor_in [OF False] by (auto simp: journal_inv_def rows_ok_def)
    then show ?thesis using inv by (simp add: journal_inv_def)
  qed
  ultimately show ?thesis by (simp add: journal_inv_def)
qed

lemma journal_inv_prod [simp]: "journal_inv (db\<lparr>jd_prod := p\<rparr>) = journal_inv db"
  by (simp add: journal_inv_def ledger_ok_def retention_ok_def retained_floor_def
      latest_checkpoint_def read_current_revision_def)

lemma revision_prod [simp]:
  "read_current_revision (db\<lparr>jd_prod := p\<rparr>) et ei = read_current_revision db et ei"
  by (simp add: read_current_revision_def)

lemma journal_inv_open_events [simp]:
  "journal_inv (db\<lparr>jd_open_events := es\<rparr>) = journal_inv db"
  by (simp add: journal_inv_def ledger_ok_def retention_ok_def retained_floor_def
      latest_checkpoint_def read_current_revision_def)

section \<open>Units of work\<close>

text \<open>The collected events of a transaction are events of its journal.\<close>

definition open_ok :: "'p journal_db \<Rightarrow> bool" where
  "open_ok db \<longleftrightarrow> set (jd_open_events db) \<subseteq> row_to_event ` set (jd_rows db)"

text \<open>Work in a transaction only adds rows at the end, and it collects every row it adds.\<close>

definition journal_extends :: "'p journal_db \<Rightarrow> 'p journal_db \<Rightarrow> bool" where
  "journal_extends db db' \<longleftrightarrow>
     (\<exists>new. jd_rows db' = jd_rows db @ new \<and> row_to_event ` set new \<subseteq> set (jd_open_events db'))
     \<and> set (jd_open_events db) \<subseteq> set (jd_open_events db')
     \<and> jd_checkpoints db' = jd_checkpoints db \<and> jd_next_checkpoint db' = jd_next_checkpoint db
     \<and> jd_latest_committed db' = jd_latest_committed db \<and> jd_next_cursor db \<le> jd_next_cursor db'"

lemma journal_extends_refl [simp]: "journal_extends db db"
  by (simp add: journal_extends_def)

lemma journal_extends_trans:
  assumes "journal_extends a b" and "journal_extends b c"
  shows "journal_extends a c"
proof -
  obtain n1 n2 where "jd_rows b = jd_rows a @ n1" "row_to_event ` set n1 \<subseteq> set (jd_open_events b)"
    "jd_rows c = jd_rows b @ n2" "row_to_event ` set n2 \<subseteq> set (jd_open_events c)"
    using assms by (auto simp: journal_extends_def)
  moreover have "set (jd_open_events b) \<subseteq> set (jd_open_events c)"
    using assms(2) by (simp add: journal_extends_def)
  ultimately have "jd_rows c = jd_rows a @ (n1 @ n2)"
    and "row_to_event ` set (n1 @ n2) \<subseteq> set (jd_open_events c)" by auto
  then show ?thesis using assms unfolding journal_extends_def by auto
qed

lemma max_cursor_mono:
  assumes "set rows \<subseteq> set rows'" and "rows \<noteq> []"
  shows "max_cursor rows \<le> max_cursor rows'"
proof -
  obtain r where "r \<in> set rows" and "max_cursor rows = jr_source_cursor r"
    using max_cursor_in [OF assms(2)] by auto
  then show ?thesis using assms(1) max_cursor_ge [of r rows'] by auto
qed

text \<open>
  The contract between the journal and a producer's unit of work: it keeps the journal
  consistent, it writes the journal only through \<open>append\<close>, and even when it raises the cursor
  sequence has not moved back.
\<close>

locale journal_work =
  fixes work :: "'p journal_db \<Rightarrow> ('e journal_error + 'r) \<times> 'p journal_db"
  assumes work_next:
      "journal_inv db \<Longrightarrow> open_ok db \<Longrightarrow> work db = (res, db') \<Longrightarrow>
       jd_next_cursor db \<le> jd_next_cursor db'"
    and work_ok:
      "journal_inv db \<Longrightarrow> open_ok db \<Longrightarrow> work db = (Inr r, db') \<Longrightarrow>
       journal_inv db' \<and> open_ok db' \<and> journal_extends db db'"
begin

lemma batch_work_rollback:
  "mutate_batch_work work db = (Inl e, db') \<Longrightarrow> db' = db\<lparr>jd_next_cursor := jd_next_cursor db'\<rparr>"
  by (auto simp: mutate_batch_work_def split: prod.splits sum.splits)

lemma batch_work_committed:
  assumes "journal_inv db" and "mutate_batch_work work db = (Inr r, db')"
  obtains mid where "work (db\<lparr>jd_open_events := []\<rparr>) = (Inr r, mid)" and "journal_inv mid"
    and "open_ok mid" and "journal_extends (db\<lparr>jd_open_events := []\<rparr>) mid"
    and "db' = (if jd_open_events mid = [] then mid
                else signal_commit (top_cursor (jd_open_events mid)) mid)"
proof -
  obtain mid where mid: "work (db\<lparr>jd_open_events := []\<rparr>) = (Inr r, mid)"
    and db': "db' = (if jd_open_events mid = [] then mid
                else signal_commit (top_cursor (jd_open_events mid)) mid)"
    using assms(2) by (auto simp: mutate_batch_work_def split: prod.splits sum.splits)
  have "journal_inv (db\<lparr>jd_open_events := []\<rparr>)" and "open_ok (db\<lparr>jd_open_events := []\<rparr>)"
    using assms(1) by (simp_all add: open_ok_def)
  from work_ok [OF this mid] show thesis using that [OF mid] db' by blast
qed

end

lemma open_max_le:
  assumes "open_ok db" and "jd_open_events db \<noteq> []"
  shows "top_cursor (jd_open_events db) \<le> max_cursor (jd_rows db)"
proof -
  have "c \<le> max_cursor (jd_rows db)" if mem: "c \<in> de_source_cursor ` set (jd_open_events db)" for c
  proof -
    obtain e where "e \<in> set (jd_open_events db)" and c: "c = de_source_cursor e"
      using mem by auto
    then obtain r where "r \<in> set (jd_rows db)" and "e = row_to_event r"
      using assms(1) by (auto simp: open_ok_def)
    then show ?thesis using c by (simp add: max_cursor_ge)
  qed
  then show ?thesis using assms(2) by (simp add: top_cursor_def)
qed

lemma journal_inv_signal:
  assumes "journal_inv db" and "c \<le> max_cursor (jd_rows db)"
  shows "journal_inv (signal_commit c db)"
  using assms
  by (simp add: signal_commit_def journal_inv_def ledger_ok_def retention_ok_def retained_floor_def
      latest_checkpoint_def read_current_revision_def)

lemma signal_commit_simps [simp]:
  "jd_rows (signal_commit c db) = jd_rows db"
  "jd_checkpoints (signal_commit c db) = jd_checkpoints db"
  "jd_entities (signal_commit c db) = jd_entities db"
  "jd_next_cursor (signal_commit c db) = jd_next_cursor db"
  "jd_prod (signal_commit c db) = jd_prod db"
  "jd_latest_committed (signal_commit c db) = max c (jd_latest_committed db)"
  by (simp_all add: signal_commit_def)

lemma journal_inv_next_cursor:
  assumes "journal_inv db" and "jd_next_cursor db \<le> n"
  shows "journal_inv (db\<lparr>jd_next_cursor := n\<rparr>)"
  using assms
  by (auto simp: journal_inv_def rows_ok_def ledger_ok_def retention_ok_def retained_floor_def
      latest_checkpoint_def read_current_revision_def)

lemma max_cursor_bounds:
  assumes "journal_inv db"
  shows "0 \<le> max_cursor (jd_rows db)" and "max_cursor (jd_rows db) < jd_next_cursor db"
proof -
  have "0 \<le> max_cursor (jd_rows db) \<and> max_cursor (jd_rows db) < jd_next_cursor db"
  proof (cases "jd_rows db = []")
    case True
    then show ?thesis using assms by (simp add: max_cursor_def journal_inv_def rows_ok_def)
  next
    case False
    then obtain x where "x \<in> set (jd_rows db)" and "max_cursor (jd_rows db) = jr_source_cursor x"
      using max_cursor_in by force
    then show ?thesis using assms by (fastforce simp: journal_inv_def rows_ok_def)
  qed
  then show "0 \<le> max_cursor (jd_rows db)" and "max_cursor (jd_rows db) < jd_next_cursor db" by simp_all
qed

text \<open>The counter the long-poll readers wait on is in step with the journal.\<close>

definition signalled :: "'p journal_db \<Rightarrow> bool" where
  "signalled db \<longleftrightarrow> jd_latest_committed db = max_cursor (jd_rows db)"

context journal_work
begin

lemma batch_work_inv:
  assumes "journal_inv db" and "mutate_batch_work work db = (res, db')"
  shows "journal_inv db'"
proof (cases res)
  case (Inl e)
  then obtain mid where "work (db\<lparr>jd_open_events := []\<rparr>) = (Inl e, mid)"
    and "db' = db\<lparr>jd_next_cursor := jd_next_cursor mid\<rparr>"
    using assms(2) by (auto simp: mutate_batch_work_def split: prod.splits sum.splits)
  then show ?thesis
    using assms(1) work_next [of "db\<lparr>jd_open_events := []\<rparr>" "Inl e" mid]
    by (auto simp: open_ok_def intro: journal_inv_next_cursor)
next
  case (Inr r)
  from assms(1) assms(2) [unfolded Inr] obtain mid where
    "work (db\<lparr>jd_open_events := []\<rparr>) = (Inr r, mid)" and "journal_inv mid" and "open_ok mid"
    and "journal_extends (db\<lparr>jd_open_events := []\<rparr>) mid"
    and "db' = (if jd_open_events mid = [] then mid
            else signal_commit (top_cursor (jd_open_events mid)) mid)"
    by (rule batch_work_committed)
  then show ?thesis by (simp add: journal_inv_signal open_max_le)
qed

lemma batch_work_rows:
  assumes "journal_inv db" and "mutate_batch_work work db = (Inr r, db')"
  shows "\<exists>new. jd_rows db' = jd_rows db @ new" and "jd_checkpoints db' = jd_checkpoints db"
proof -
  from assms obtain mid where "work (db\<lparr>jd_open_events := []\<rparr>) = (Inr r, mid)"
    and "journal_inv mid" and "open_ok mid"
    and "journal_extends (db\<lparr>jd_open_events := []\<rparr>) mid"
    and "db' = (if jd_open_events mid = [] then mid
            else signal_commit (top_cursor (jd_open_events mid)) mid)"
    by (rule batch_work_committed)
  then show "\<exists>new. jd_rows db' = jd_rows db @ new" and "jd_checkpoints db' = jd_checkpoints db"
    by (auto simp: journal_extends_def)
qed

lemma batch_work_signalled:
  assumes inv: "journal_inv db" and sig: "signalled db"
    and run: "mutate_batch_work work db = (Inr r, db')"
  shows "signalled db'"
proof -
  from inv run obtain mid where "work (db\<lparr>jd_open_events := []\<rparr>) = (Inr r, mid)"
    and mid: "journal_inv mid" "open_ok mid" "journal_extends (db\<lparr>jd_open_events := []\<rparr>) mid"
    and db': "db' = (if jd_open_events mid = [] then mid
            else signal_commit (top_cursor (jd_open_events mid)) mid)"
    by (rule batch_work_committed)
  obtain new where new: "jd_rows mid = jd_rows db @ new"
      "row_to_event ` set new \<subseteq> set (jd_open_events mid)"
    and latest: "jd_latest_committed mid = max_cursor (jd_rows db)"
    using mid(3) sig by (auto simp: journal_extends_def signalled_def)
  show ?thesis
  proof (cases "jd_open_events mid = []")
    case True
    then show ?thesis using new latest db' by (simp add: signalled_def)
  next
    case False
    let ?m = "top_cursor (jd_open_events mid)"
    have ne: "jd_rows mid \<noteq> []" using False mid(2) by (auto simp: open_ok_def)
    obtain x where x: "x \<in> set (jd_rows mid)" "max_cursor (jd_rows mid) = jr_source_cursor x"
      using max_cursor_in [OF ne] by auto
    have "jr_source_cursor x \<le> max ?m (max_cursor (jd_rows db))"
    proof (cases "x \<in> set new")
      case True
      then have "row_to_event x \<in> set (jd_open_events mid)" using new(2) by blast
      then have "de_source_cursor (row_to_event x) \<le> ?m"
        unfolding top_cursor_def by (intro Max_ge imageI) simp_all
      then show ?thesis by simp
    next
      case False
      then show ?thesis using x(1) new(1) max_cursor_ge [of x "jd_rows db"] by auto
    qed
    moreover have "?m \<le> max_cursor (jd_rows mid)" using mid(2) False by (rule open_max_le)
    moreover have "max_cursor (jd_rows db) \<le> max_cursor (jd_rows mid)"
      using latest mid(1) by (simp add: journal_inv_def)
    ultimately have "max ?m (max_cursor (jd_rows db)) = max_cursor (jd_rows mid)"
      unfolding x(2) by (intro antisym) simp_all
    then show ?thesis using db' False latest by (simp add: signalled_def)
  qed
qed

end

lemma append_next_cursor:
  assumes "journal_inv db" and "journal_append t u m w eid db = (res, db')"
  shows "jd_next_cursor db \<le> jd_next_cursor db'"
  using assms by (elim journal_append_cases) auto

lemma append_ok:
  assumes "journal_inv db" and "open_ok db" and "journal_append t u m w eid db = (Inr ev, db')"
  shows "journal_inv db' \<and> open_ok db' \<and> journal_extends db db'"
  using assms(1,3)
proof (cases rule: journal_append_cases)
  case (replay row)
  then show ?thesis
    using assms(1,2) by (auto simp: open_ok_def journal_extends_def dest: select_journal_row_Some)
next
  case (fresh p)
  then show ?thesis
    using assms(1,2) by (auto simp: open_ok_def journal_extends_def intro: journal_inv_appended)
qed simp_all

lemma append_all_next:
  "journal_inv db \<Longrightarrow> open_ok db \<Longrightarrow> append_all items db = (res, db') \<Longrightarrow>
   jd_next_cursor db \<le> jd_next_cursor db'"
proof (induction items arbitrary: db res)
  case Nil
  then show ?case by simp
next
  case (Cons b bs)
  obtain r1 db1 where ap: "journal_append (bi_received_ts b) (bi_uuid b) (bi_mutation b) (bi_write b)
      (bi_event_id b) db = (r1, db1)" by fastforce
  have n1: "jd_next_cursor db \<le> jd_next_cursor db1" using Cons.prems(1) ap by (rule append_next_cursor)
  show ?case
  proof (cases r1)
    case (Inl e)
    then show ?thesis using Cons.prems(3) ap n1 by simp
  next
    case (Inr ev)
    then have "journal_inv db1 \<and> open_ok db1"
      using append_ok [OF Cons.prems(1,2)] ap by blast
    then show ?thesis
      using Cons.IH [of db1] Cons.prems(3) ap n1 Inr by (fastforce split: prod.splits sum.splits)
  qed
qed

lemma append_all_ok:
  "journal_inv db \<Longrightarrow> open_ok db \<Longrightarrow> append_all items db = (Inr evs, db') \<Longrightarrow>
   journal_inv db' \<and> open_ok db' \<and> journal_extends db db'"
proof (induction items arbitrary: db evs)
  case Nil
  then show ?case by simp
next
  case (Cons b bs)
  then obtain ev db1 evs' where ap: "journal_append (bi_received_ts b) (bi_uuid b) (bi_mutation b)
      (bi_write b) (bi_event_id b) db = (Inr ev, db1)" and rest: "append_all bs db1 = (Inr evs', db')"
    by (auto split: prod.splits sum.splits)
  have one: "journal_inv db1 \<and> open_ok db1 \<and> journal_extends db db1"
    using append_ok [OF Cons.prems(1,2) ap] .
  then have "journal_inv db' \<and> open_ok db' \<and> journal_extends db1 db'"
    using Cons.IH rest by blast
  then show ?case using one journal_extends_trans by blast
qed

interpretation batch: journal_work "append_all items" for items
  by unfold_locales (erule (2) append_all_next, erule (2) append_all_ok)

lemma mutate_batch_inv:
  "journal_inv db \<Longrightarrow> mutate_batch items db = (res, db') \<Longrightarrow> journal_inv db'"
  by (auto simp: mutate_batch_def split: if_splits intro: batch.batch_work_inv)

lemma mutate_batch_keeps_rows:
  assumes "journal_inv db" and "mutate_batch items db = (res, db')"
  shows "\<exists>new. jd_rows db' = jd_rows db @ new" and "jd_checkpoints db' = jd_checkpoints db"
proof -
  have "(\<exists>new. jd_rows db' = jd_rows db @ new) \<and> jd_checkpoints db' = jd_checkpoints db"
  proof (cases "items = []")
    case True
    then show ?thesis using assms(2) by (simp add: mutate_batch_def)
  next
    case False
    then have run: "mutate_batch_work (append_all items) db = (res, db')"
      using assms(2) by (simp add: mutate_batch_def)
    show ?thesis
    proof (cases res)
      case (Inl e)
      then have "db' = db\<lparr>jd_next_cursor := jd_next_cursor db'\<rparr>"
        using run batch.batch_work_rollback by blast
      then have "jd_rows db' = jd_rows db @ []" and "jd_checkpoints db' = jd_checkpoints db"
        by (metis append_Nil2 journal_db.select_convs(1) journal_db.update_convs(2) journal_db.surjective)
          (metis \<open>db' = db\<lparr>jd_next_cursor := jd_next_cursor db'\<rparr>\<close> journal_db.select_convs(3)
            journal_db.update_convs(2) journal_db.surjective)
      then show ?thesis by blast
    next
      case (Inr r)
      then show ?thesis using run assms(1) batch.batch_work_rows by blast
    qed
  qed
  then show "\<exists>new. jd_rows db' = jd_rows db @ new" and "jd_checkpoints db' = jd_checkpoints db"
    by simp_all
qed

section \<open>Retention\<close>

lemma time_floor_in:
  assumes "rows \<noteq> []"
  shows "time_floor_cursor now rows \<in> jr_source_cursor ` set rows"
proof (cases "filter (\<lambda>r. jr_received_timestamp r \<ge> now - retention_floor) rows = []")
  case True
  then show ?thesis using max_cursor_in [OF assms] by (simp add: time_floor_cursor_def)
next
  case False
  let ?recent = "filter (\<lambda>r. jr_received_timestamp r \<ge> now - retention_floor) rows"
  have "Min (jr_source_cursor ` set ?recent) \<in> jr_source_cursor ` set ?recent"
    using False by (intro Min_in) (simp_all only: finite_set finite_imageI image_is_empty set_empty simp_thms)
  then show ?thesis using False by (auto simp: time_floor_cursor_def Let_def)
qed

lemma time_floor_le_recent:
  assumes "r \<in> set rows" and "jr_received_timestamp r \<ge> now - retention_floor"
  shows "time_floor_cursor now rows \<le> jr_source_cursor r"
proof -
  let ?recent = "filter (\<lambda>r. jr_received_timestamp r \<ge> now - retention_floor) rows"
  have "r \<in> set ?recent" using assms by simp
  then have "?recent \<noteq> []" and "Min (jr_source_cursor ` set ?recent) \<le> jr_source_cursor r"
    by (force simp: filter_empty_conv, intro Min_le imageI) simp_all
  then show ?thesis by (simp add: time_floor_cursor_def Let_def)
qed

lemma time_floor_le_max: "time_floor_cursor now rows \<le> max_cursor rows"
proof (cases "rows = []")
  case True
  then show ?thesis by (simp add: time_floor_cursor_def)
next
  case False
  then show ?thesis using time_floor_in [OF False, of now] max_cursor_ge by auto
qed

text \<open>The state after a sweep.\<close>

lemma compactE:
  assumes "compact now ac t db = (Inr res, db')"
  obtains n where "now = Aware n"
    and "cr_oldest_retained_cursor res = time_floor_cursor n (jd_rows db)"
    and "cr_newest_cursor res = max_cursor (jd_rows db)"
    and "jd_rows db' = filter (\<lambda>r. time_floor_cursor n (jd_rows db) \<le> jr_source_cursor r) (jd_rows db)"
    and "jd_checkpoints db' = jd_checkpoints db @
          [\<lparr>ck_checkpoint_id = jd_next_checkpoint db, ck_created_at = t,
            ck_newest_cursor = max_cursor (jd_rows db),
            ck_oldest_retained_cursor = time_floor_cursor n (jd_rows db),
            ck_broker_generation = read_latest_broker_generation db\<rparr>]"
    and "jd_next_checkpoint db' = jd_next_checkpoint db + 1"
    and "jd_entities db' = jd_entities db" and "jd_prod db' = jd_prod db"
    and "jd_next_cursor db' = jd_next_cursor db"
    and "jd_latest_committed db' = jd_latest_committed db"
  using assms by (cases now) (auto simp: compact_def Let_def not_less)

lemma compact_floor:
  assumes inv: "journal_inv db" and run: "compact now ac t db = (Inr res, db')"
  shows "retained_floor db' = cr_oldest_retained_cursor res"
  using run
proof (cases rule: compactE)
  case (1 n)
  have "latest_checkpoint db' = Some \<lparr>ck_checkpoint_id = jd_next_checkpoint db, ck_created_at = t,
            ck_newest_cursor = max_cursor (jd_rows db),
            ck_oldest_retained_cursor = time_floor_cursor n (jd_rows db),
            ck_broker_generation = read_latest_broker_generation db\<rparr>"
    using inv 1(5)
    by (intro latest_checkpoint_snoc [of "jd_checkpoints db"]) (auto simp: journal_inv_def retention_ok_def)
  then show ?thesis using 1(2) by (simp add: retained_floor_def)
qed

lemma compact_max_cursor:
  assumes "compact now ac t db = (Inr res, db')"
  shows "max_cursor (jd_rows db') = max_cursor (jd_rows db)"
    and "jd_rows db' = [] \<longleftrightarrow> jd_rows db = []"
proof -
  have both: "max_cursor (jd_rows db') = max_cursor (jd_rows db) \<and> (jd_rows db' = [] \<longleftrightarrow> jd_rows db = [])"
    using assms
  proof (cases rule: compactE)
    case (1 n)
    show ?thesis
    proof (cases "jd_rows db = []")
      case True
      then show ?thesis using 1(4) by simp
    next
      case False
      obtain x where x: "x \<in> set (jd_rows db)" "max_cursor (jd_rows db) = jr_source_cursor x"
        using max_cursor_in [OF False] by auto
      then have x': "x \<in> set (jd_rows db')"
        using 1(4) time_floor_le_max [of n "jd_rows db"] by simp
      moreover have "set (jd_rows db') \<subseteq> set (jd_rows db)" using 1(4) by auto
      moreover have "jd_rows db' \<noteq> []" using x' by auto
      ultimately show ?thesis
        using False x(2) max_cursor_ge [OF x'] max_cursor_mono [of "jd_rows db'" "jd_rows db"] by auto
    qed
  qed
  then show "max_cursor (jd_rows db') = max_cursor (jd_rows db)"
    and "jd_rows db' = [] \<longleftrightarrow> jd_rows db = []" by blast+
qed

lemma compact_floor_mono:
  assumes inv: "journal_inv db" and run: "compact now ac t db = (Inr res, db')"
  shows "retained_floor db \<le> retained_floor db'"
  using run
proof (cases rule: compactE)
  case (1 n)
  show ?thesis
  proof (cases "jd_rows db = []")
    case True
    then show ?thesis
      using inv compact_floor [OF inv run] 1(2)
      by (simp add: journal_inv_def retention_ok_def time_floor_cursor_def max_cursor_def)
  next
    case False
    then show ?thesis
      using inv compact_floor [OF inv run] 1(2) time_floor_in [OF False, of n]
      by (auto simp: journal_inv_def retention_ok_def)
  qed
qed

lemma compact_inv:
  assumes inv: "journal_inv db" and run: "compact now ac t db = (res, db')"
  shows "journal_inv db'"
proof (cases res)
  case (Inl e)
  then have "db' = db" using run by (cases now) (auto simp: compact_def Let_def)
  then show ?thesis using inv by simp
next
  case (Inr r)
  note run' = run [unfolded Inr]
  from run' show ?thesis
  proof (cases rule: compactE)
    case (1 n)
    have rows: "rows_ok (jd_rows db') (jd_next_cursor db')"
      using inv 1(4,9)
      by (auto simp: journal_inv_def rows_ok_def sorted_wrt_filter distinct_map_filter)
    have "ledger_ok db'"
      using inv 1(4,7) by (simp add: journal_inv_def ledger_ok_def read_current_revision_def)
    moreover have "retention_ok db'"
      using inv 1(4,5,6) compact_floor [OF inv run'] 1(2) compact_max_cursor(2) [OF run']
      by (auto simp: journal_inv_def retention_ok_def sorted_by_append_single time_floor_cursor_def
          max_cursor_def)
    ultimately show ?thesis
      using rows inv 1(10) compact_max_cursor(1) [OF run'] by (simp add: journal_inv_def)
  qed
qed

section \<open>One mutation\<close>

definition item_id :: "('p, 'e) batch_item \<Rightarrow> string" where
  "item_id item = opt_or (bi_uuid item) (bi_event_id item)"

text \<open>What a unit of work leaves: nothing of it when it failed, its tables when it was committed.\<close>

lemma batch_work_prod:
  assumes "mutate_batch_work work db = (res, db')"
  obtains (rolled_back) e where "res = Inl e" and "jd_prod db' = jd_prod db" and "jd_rows db' = jd_rows db"
  | (committed) r mid where "res = Inr r" and "work (db\<lparr>jd_open_events := []\<rparr>) = (Inr r, mid)"
      and "jd_prod db' = jd_prod mid" and "jd_rows db' = jd_rows mid" and "jd_entities db' = jd_entities mid"
  using assms by (auto simp: mutate_batch_work_def split: prod.splits sum.splits if_splits)

lemma mutate_work:
  "mutate item db = mutate_batch_work
     (journal_append (bi_received_ts item) (bi_uuid item) (bi_mutation item) (bi_write item)
       (bi_event_id item)) db"
  by (auto simp: mutate_def mutate_batch_def mutate_batch_work_def split: prod.splits sum.splits)

interpretation single: journal_work "journal_append t u m w eid" for t u m w eid
  by unfold_locales (erule (1) append_next_cursor, erule (2) append_ok)

lemma select_open_events [simp]:
  "select_journal_row (db\<lparr>jd_open_events := es\<rparr>) eid = select_journal_row db eid"
  by (simp add: select_journal_row_def)

lemma revision_open_events [simp]:
  "read_current_revision (db\<lparr>jd_open_events := es\<rparr>) et ei = read_current_revision db et ei"
  by (simp add: read_current_revision_def)

lemma fresh_row_open_events [simp]: "fresh_row t eid m (db\<lparr>jd_open_events := es\<rparr>) = fresh_row t eid m db"
  by (simp add: fresh_row_def)

lemma mutate_inv: "journal_inv db \<Longrightarrow> mutate item db = (res, db') \<Longrightarrow> journal_inv db'"
  unfolding mutate_work by (rule single.batch_work_inv)

lemma mutate_cases:
  assumes inv: "journal_inv db" and run: "mutate item db = (res, db')"
  obtains (failed) e where "res = Inl e" and "db' = db"
  | (replay) row where "select_journal_row db (item_id item) = Some row"
      and "journal_matches row (bi_mutation item)" and "res = Inr (row_to_event row)"
      and "db' = signal_commit (jr_source_cursor row) (db\<lparr>jd_open_events := [row_to_event row]\<rparr>)"
  | (fresh) p where "select_journal_row db (item_id item) = None"
      and "bi_write item (jd_prod db) (read_current_revision db (dm_entity_type (bi_mutation item))
             (dm_entity_id (bi_mutation item)) + 1) = Inr p"
      and "res = Inr (row_to_event (fresh_row (bi_received_ts item) (item_id item) (bi_mutation item) db))"
      and "db' = signal_commit (jd_next_cursor db)
             (appended (bi_received_ts item) (item_id item) (bi_mutation item) p (db\<lparr>jd_open_events := []\<rparr>))"
proof -
  let ?db = "db\<lparr>jd_open_events := []\<rparr>"
  obtain r mid where ap: "journal_append (bi_received_ts item) (bi_uuid item) (bi_mutation item)
      (bi_write item) (bi_event_id item) ?db = (r, mid)" by fastforce
  have inv': "journal_inv ?db" using inv by simp
  from inv' ap show thesis
  proof (cases rule: journal_append_cases)
    case conflict
    then show thesis using run ap by (intro failed) (auto simp: mutate_work mutate_batch_work_def)
  next
    case (raised e)
    then show thesis using run ap by (intro failed) (auto simp: mutate_work mutate_batch_work_def)
  next
    case (replay row)
    then show thesis
      using run ap that(2) by (simp add: mutate_work mutate_batch_work_def item_id_def top_cursor_def)
  next
    case (fresh p)
    then show thesis
      using run ap that(3) by (simp add: mutate_work mutate_batch_work_def item_id_def top_cursor_def)
  qed
qed

text \<open>An item whose callback succeeds under an unused event id commits.\<close>

lemma mutate_fresh:
  fixes item :: "('p, 'e) batch_item"
  assumes inv: "journal_inv db" and new: "select_journal_row db (item_id item) = None"
    and w: "bi_write item (jd_prod db) (read_current_revision db (dm_entity_type (bi_mutation item))
             (dm_entity_id (bi_mutation item)) + 1) = Inr p"
  shows "mutate item db = (Inr (row_to_event (fresh_row (bi_received_ts item) (item_id item) (bi_mutation item) db)),
    signal_commit (jd_next_cursor db)
      (appended (bi_received_ts item) (item_id item) (bi_mutation item) p (db\<lparr>jd_open_events := []\<rparr>)))"
proof -
  obtain res mid where run: "journal_append (bi_received_ts item) (bi_uuid item) (bi_mutation item)
      (bi_write item) (bi_event_id item) (db\<lparr>jd_open_events := []\<rparr>) = (res :: 'e journal_error + domain_event, mid)"
    by fastforce
  have inv': "journal_inv (db\<lparr>jd_open_events := []\<rparr>)" using inv by simp
  from inv' run have "res = Inr (row_to_event (fresh_row (bi_received_ts item) (item_id item) (bi_mutation item) db))
      \<and> mid = appended (bi_received_ts item) (item_id item) (bi_mutation item) p (db\<lparr>jd_open_events := []\<rparr>)"
  proof (cases rule: journal_append_cases)
    case conflict
    then show ?thesis using run new w
      by (simp add: journal_append_def item_id_def Let_def insert_journal_row_def split: if_splits)
  next
    case (raised e)
    then show ?thesis using run new w
      by (simp add: journal_append_def item_id_def Let_def insert_journal_row_def split: if_splits)
  next
    case (replay row)
    then show ?thesis using new by (simp add: item_id_def)
  next
    case (fresh q)
    then show ?thesis using w by (simp add: item_id_def)
  qed
  then show ?thesis using run by (simp add: mutate_work mutate_batch_work_def top_cursor_def)
qed

lemma fresh_row_matches: "journal_matches (fresh_row t eid m db) m"
  by (simp add: journal_matches_def fresh_row_def make_journal_row_def)

lemma mutate_ok_row:
  assumes inv: "journal_inv db" and run: "mutate item db = (Inr ev, db')"
  shows "\<exists>row \<in> set (jd_rows db'). ev = row_to_event row \<and> jr_event_id row = item_id item
    \<and> journal_matches row (bi_mutation item)"
  using inv run
proof (cases rule: mutate_cases)
  case (replay row)
  then show ?thesis by (auto dest: select_journal_row_Some)
next
  case (fresh p)
  then show ?thesis by (auto intro: fresh_row_matches)
qed simp

section \<open>Properties of the journal\<close>

text \<open>
  C31. A retried mutation is idempotent: once an event id is journaled, presenting the same
  mutation under it again, at any later time, whatever else has been written or swept since and
  whatever its callback would do, returns the recorded event and changes neither the journal, the
  ledger, the cursor sequence nor the producer's tables, as long as retention has kept that event.
\<close>

theorem mutate_retry_idempotent:
  assumes "journal_inv db" and "mutate item db = (Inr ev, db1)"
    and "journal_inv db2" and "\<forall>row \<in> set (jd_rows db1). jr_event_id row = item_id item \<longrightarrow> row \<in> set (jd_rows db2)"
    and "bi_mutation retry = bi_mutation item" and "item_id retry = item_id item"
  shows "\<exists>db3. mutate retry db2 = (Inr ev, db3) \<and> jd_rows db3 = jd_rows db2
    \<and> jd_entities db3 = jd_entities db2 \<and> jd_next_cursor db3 = jd_next_cursor db2
    \<and> jd_prod db3 = jd_prod db2"
proof -
  obtain row where row: "row \<in> set (jd_rows db2)" "ev = row_to_event row"
      "jr_event_id row = item_id retry" "journal_matches row (bi_mutation retry)"
    using mutate_ok_row [OF assms(1,2)] assms(4-6) by auto
  have "distinct (map jr_event_id (jd_rows db2))"
    using assms(3) by (simp add: journal_inv_def rows_ok_def)
  then have "select_journal_row db2 (item_id retry) = Some row"
    using row(1,3) fetchone_key [of jr_event_id "jd_rows db2" row] by (simp add: select_journal_row_def)
  then have "mutate retry db2 = (Inr ev, signal_commit (jr_source_cursor row)
      (db2\<lparr>jd_open_events := [row_to_event row]\<rparr>))"
    using row(2,4)
    by (simp add: mutate_work mutate_batch_work_def journal_append_def item_id_def top_cursor_def)
  then show ?thesis by simp
qed

text \<open>
  A batch is atomic: if any of its appends raises, every table of the journal and of the
  producer is as it was before the batch; only the (non-transactional) cursor sequence may have
  moved on, and the journal is still consistent.
\<close>

lemma mutate_batch_atomic:
  assumes "journal_inv db" and "mutate_batch items db = (Inl e, db')"
  shows "db' = db\<lparr>jd_next_cursor := jd_next_cursor db'\<rparr> \<and> journal_inv db'"
proof
  have run: "mutate_batch_work (append_all items) db = (Inl e, db')"
    using assms(2) by (simp add: mutate_batch_def split: if_splits)
  show "db' = db\<lparr>jd_next_cursor := jd_next_cursor db'\<rparr>" using run by (rule batch.batch_work_rollback)
  show "journal_inv db'" using assms(1) run by (rule batch.batch_work_inv)
qed

text \<open>
  Reusing an event id for a mutation that differs in any canonical field is refused with
  \<open>EventIdentityConflict\<close> and writes nothing.
\<close>

lemma mutate_conflict_refused:
  assumes "journal_inv db" and "select_journal_row db (item_id item) = Some row"
    and "\<not> journal_matches row (bi_mutation item)"
  shows "mutate item db = (Inl (EventIdentityConflict (item_id item)), db)"
  using assms(2,3) by (simp add: mutate_work mutate_batch_work_def journal_append_def item_id_def)

text \<open>
  A first-time mutation gets the entity's next revision, one above the ledger, and the
  revision stream of no other entity moves. The revision comes from the ledger, so a retention
  sweep that deleted the entity's events does not restart it.
\<close>

lemma mutate_revision_after_compaction:
  assumes inv: "journal_inv db" and sweep: "compact now ac t db = (Inr res, db1)"
    and new: "select_journal_row db1 (item_id item) = None"
    and run: "mutate item db1 = (Inr ev, db2)"
  shows "de_entity_revision ev
      = read_current_revision db (dm_entity_type (bi_mutation item)) (dm_entity_id (bi_mutation item)) + 1
    \<and> read_current_revision db2 et ei =
      (if et = dm_entity_type (bi_mutation item) \<and> ei = dm_entity_id (bi_mutation item)
       then de_entity_revision ev else read_current_revision db et ei)"
proof -
  have inv1: "journal_inv db1" using inv sweep by (rule compact_inv)
  have same: "read_current_revision db1 = read_current_revision db"
    using sweep by (auto elim!: compactE simp: read_current_revision_def fun_eq_iff)
  from inv1 run show ?thesis
  proof (cases rule: mutate_cases)
    case (fresh p)
    have "read_current_revision db2 et ei = read_current_revision (appended (bi_received_ts item)
        (item_id item) (bi_mutation item) p (db1\<lparr>jd_open_events := []\<rparr>)) et ei"
      using fresh(4) by (simp add: read_current_revision_def)
    then show ?thesis using fresh(3) same by (auto simp: revision_appended)
  qed (use new in simp_all)
qed

text \<open>
  A retention sweep keeps every event received in the last thirty days and always the newest
  event, it deletes exactly the events below the floor it records, the floor never moves back,
  and the ledger and the producer's tables are untouched.
\<close>

lemma compact_retains:
  assumes inv: "journal_inv db" and run: "compact (Aware now) ac t db = (Inr res, db')"
  shows "(\<forall>r \<in> set (jd_rows db). now - days 30 \<le> jr_received_timestamp r \<longrightarrow> r \<in> set (jd_rows db'))
    \<and> (\<forall>r \<in> set (jd_rows db). r \<in> set (jd_rows db') \<longleftrightarrow> cr_oldest_retained_cursor res \<le> jr_source_cursor r)
    \<and> max_cursor (jd_rows db') = max_cursor (jd_rows db)
    \<and> retained_floor db \<le> retained_floor db' \<and> retained_floor db' \<le> cr_newest_cursor res
    \<and> jd_entities db' = jd_entities db \<and> jd_prod db' = jd_prod db"
proof (intro conjI)
  obtain n where n: "now = n" and st: "cr_oldest_retained_cursor res = time_floor_cursor n (jd_rows db)"
      "cr_newest_cursor res = max_cursor (jd_rows db)"
      "jd_rows db' = filter (\<lambda>r. time_floor_cursor n (jd_rows db) \<le> jr_source_cursor r) (jd_rows db)"
    and frame: "jd_entities db' = jd_entities db" "jd_prod db' = jd_prod db"
    using run by (auto elim: compactE)
  show "\<forall>r \<in> set (jd_rows db). now - days 30 \<le> jr_received_timestamp r \<longrightarrow> r \<in> set (jd_rows db')"
    using st(3) n by (auto simp: retention_floor_def intro: time_floor_le_recent)
  show "\<forall>r \<in> set (jd_rows db). r \<in> set (jd_rows db') \<longleftrightarrow> cr_oldest_retained_cursor res \<le> jr_source_cursor r"
    using st by auto
  show "max_cursor (jd_rows db') = max_cursor (jd_rows db)" using run by (rule compact_max_cursor)
  show "retained_floor db \<le> retained_floor db'" using inv run by (rule compact_floor_mono)
  show "retained_floor db' \<le> cr_newest_cursor res"
    using compact_floor [OF inv run] st time_floor_le_max by simp
  show "jd_entities db' = jd_entities db" and "jd_prod db' = jd_prod db" using frame by simp_all
qed

section \<open>Witnesses\<close>

text \<open>A journal with one event of one entity.\<close>

definition demo_mutation :: domain_mutation where
  "demo_mutation =
     \<lparr>dm_event_type = ''proposal.updated'', dm_entity_type = ''proposal'', dm_entity_id = ''42'',
      dm_operation = Upsert, dm_account_id = Some ''DU123'', dm_source = ''trader_service'',
      dm_source_timestamp = Aware 100, dm_correlation_id = None,
      dm_payload = Some [(''id'', JInt 42), (''status'', JStr ''PENDING'')]\<rparr>"

definition demo_item :: "string \<Rightarrow> (unit, unit) batch_item" where
  "demo_item eid =
     \<lparr>bi_received_ts = 101, bi_uuid = ''u'', bi_mutation = demo_mutation,
      bi_write = (\<lambda>p _. Inr p), bi_event_id = Some eid\<rparr>"

definition demo_failing_item :: "string \<Rightarrow> (unit, unit) batch_item" where
  "demo_failing_item eid = (demo_item eid)\<lparr>bi_write := (\<lambda>_ _. Inl ())\<rparr>"

definition demo_db :: "unit journal_db" where
  "demo_db = snd (mutate (demo_item ''e1'') (empty_journal ()))"

definition demo_event :: domain_event where
  "demo_event = row_to_event (make_journal_row 1 ''e1'' demo_mutation 1 101)"

lemma demo_run: "mutate (demo_item ''e1'') (empty_journal ()) = (Inr demo_event, demo_db)"
  by code_simp

lemma demo_db_inv: "journal_inv demo_db"
  using demo_run by (rule mutate_inv [OF journal_inv_empty])

lemma mutate_batch_atomic_example:
  "mutate_batch [demo_item ''e2'', demo_failing_item ''e3''] demo_db
     = (Inl (Raised ()), demo_db\<lparr>jd_next_cursor := 3\<rparr>)
   \<and> journal_inv (demo_db\<lparr>jd_next_cursor := 3\<rparr>)"
proof -
  have run: "mutate_batch [demo_item ''e2'', demo_failing_item ''e3''] demo_db
      = (Inl (Raised ()), demo_db\<lparr>jd_next_cursor := 3\<rparr>)" by code_simp
  show ?thesis using run mutate_batch_atomic [OF demo_db_inv run] by simp
qed

lemma mutate_conflict_refused_example:
  "mutate (demo_item ''e1''\<lparr>bi_mutation := demo_mutation\<lparr>dm_source := ''other''\<rparr>\<rparr>) demo_db
     = (Inl (EventIdentityConflict ''e1''), demo_db)"
proof -
  let ?item = "demo_item ''e1''\<lparr>bi_mutation := demo_mutation\<lparr>dm_source := ''other''\<rparr>\<rparr>"
  have id: "item_id ?item = ''e1''" by code_simp
  have "select_journal_row demo_db (item_id ?item) = Some (make_journal_row 1 ''e1'' demo_mutation 1 101)"
    by code_simp
  moreover have "\<not> journal_matches (make_journal_row 1 ''e1'' demo_mutation 1 101) (bi_mutation ?item)"
    by code_simp
  ultimately show ?thesis using mutate_conflict_refused [OF demo_db_inv, of ?item] id by simp
qed

text \<open>A sweep a year later, with a second event received since.\<close>

definition demo_db2 :: "unit journal_db" where
  "demo_db2 = snd (mutate (demo_item ''e2''\<lparr>bi_received_ts := days 365\<rparr>) demo_db)"

definition demo_swept :: "unit journal_db" where
  "demo_swept = snd (compact (Aware (days 366)) [] 7 demo_db2 :: (unit journal_error + compaction_result) \<times> unit journal_db)"

lemma demo_run2: "mutate (demo_item ''e2''\<lparr>bi_received_ts := days 365\<rparr>) demo_db
    = (Inr (row_to_event (make_journal_row 2 ''e2'' demo_mutation 2 (days 365))), demo_db2)"
  by code_simp

lemma demo_db2_inv: "journal_inv demo_db2"
  using demo_run2 by (rule mutate_inv [OF demo_db_inv])

theorem mutate_retry_idempotent_witness:
  "\<exists>db3. mutate (demo_item ''e1'') demo_db2 = (Inr demo_event, db3) \<and> jd_rows db3 = jd_rows demo_db2
    \<and> jd_entities db3 = jd_entities demo_db2 \<and> jd_next_cursor db3 = jd_next_cursor demo_db2 \<and> jd_prod db3 = jd_prod demo_db2
    \<and> length (jd_rows demo_db2) = 2"
proof -
  have "jd_rows demo_db = [make_journal_row 1 ''e1'' demo_mutation 1 101]"
    "jd_rows demo_db2 = [make_journal_row 1 ''e1'' demo_mutation 1 101, make_journal_row 2 ''e2'' demo_mutation 2 (days 365)]" by code_simp+
  then show ?thesis using mutate_retry_idempotent [OF journal_inv_empty demo_run demo_db2_inv _ refl refl] by simp
qed

lemma demo_sweep: "compact (Aware (days 366)) [] 7 demo_db2
    = (Inr \<lparr>cr_oldest_retained_cursor = 2, cr_newest_cursor = 2, cr_deleted_count = 1,
            cr_completed_at = 7\<rparr> :: unit journal_error + compaction_result, demo_swept)"
  by code_simp

lemma compact_retains_example:
  "retained_floor demo_db2 \<le> retained_floor demo_swept \<and> retained_floor demo_swept \<le> 2
   \<and> max_cursor (jd_rows demo_swept) = max_cursor (jd_rows demo_db2)
   \<and> jd_entities demo_swept = jd_entities demo_db2"
  using compact_retains [OF demo_db2_inv demo_sweep] by simp

lemma mutate_revision_after_compaction_example:
  "de_entity_revision (row_to_event (make_journal_row 3 ''e3'' demo_mutation 3 101)) = 3"
proof -
  have run: "mutate (demo_item ''e3'') demo_swept
      = (Inr (row_to_event (make_journal_row 3 ''e3'' demo_mutation 3 101)),
         snd (mutate (demo_item ''e3'') demo_swept))" by code_simp
  have new: "select_journal_row demo_swept (item_id (demo_item ''e3'')) = None" by code_simp
  have "read_current_revision demo_db2 ''proposal'' ''42'' = 2" by code_simp
  moreover have "dm_entity_type (bi_mutation (demo_item ''e3'')) = ''proposal''"
    and "dm_entity_id (bi_mutation (demo_item ''e3'')) = ''42''" by code_simp+
  ultimately show ?thesis
    using mutate_revision_after_compaction [OF demo_db2_inv demo_sweep new run] by simp
qed

end
