(* ===== verification/Trading_Control.thy ===== *)
theory Trading_Control
  imports Domain_Journal
begin

text \<open>
  The durable per-account pause gate of \<^verbatim>\<open>src/trader/trading/trading_control.py\<close>. The
  producer's table in the journal file is the list of \<open>trading_control_state\<close> rows; a change of
  the pause flag and its \<open>trading_control.updated\<close> event commit in one transaction that the
  store runs itself, next to \<open>DomainJournal.mutate\<close>.
\<close>

section \<open>State and errors\<close>

record control_state =
  tc_account_id :: string
  tc_new_exposure_paused :: bool
  tc_revision :: int
  tc_updated_at :: instant
  tc_updated_by_command_id :: string
  tc_updated_reason :: string

type_synonym control_db = "control_state list journal_db"

datatype control_error =
    PauseStateUnavailable string
  | PauseRevisionConflict string int
  | TradingPausedError string
  | ControlNaiveTimestamp

type_synonym 'r control_result = "(control_error journal_error + 'r) \<times> control_db"

definition control_as_utc :: "pydatetime \<Rightarrow> control_error + instant" where
  "control_as_utc v = (case v of Naive _ \<Rightarrow> Inl ControlNaiveTimestamp | Aware t \<Rightarrow> Inr t)"

section \<open>Reads\<close>

definition control_get_in_tx :: "control_db \<Rightarrow> string \<Rightarrow> control_state option" where
  "control_get_in_tx db account_id =
     fetchone (filter (\<lambda>s. tc_account_id s = account_id) (jd_prod db))"

definition control_get :: "control_db \<Rightarrow> string \<Rightarrow> control_error + control_state" where
  "control_get db account_id =
     (case control_get_in_tx db account_id of
        None \<Rightarrow> Inl (PauseStateUnavailable account_id)
      | Some state \<Rightarrow> Inr state)"

definition require_unpaused :: "control_db \<Rightarrow> string \<Rightarrow> control_error + unit" where
  "require_unpaused db account_id =
     (case control_get_in_tx db account_id of
        None \<Rightarrow> Inl (PauseStateUnavailable account_id)
      | Some state \<Rightarrow>
          if tc_new_exposure_paused state then Inl (TradingPausedError account_id) else Inr ())"

section \<open>Journaling\<close>

definition control_event_id :: "string \<Rightarrow> int \<Rightarrow> string" where
  "control_event_id account_id revision =
     (''trading_control:'' @ account_id) @ CHR '':'' # string_of_int revision"

definition control_mutation :: "control_state \<Rightarrow> string \<Rightarrow> domain_mutation" where
  "control_mutation state correlation_id =
     \<lparr>dm_event_type = ''trading_control.updated'', dm_entity_type = ''trading_control'',
      dm_entity_id = tc_account_id state, dm_operation = Upsert,
      dm_account_id = Some (tc_account_id state), dm_source = ''trader_service'',
      dm_source_timestamp = Aware (tc_updated_at state),
      dm_correlation_id = Some correlation_id,
      dm_payload = Some
        [(''account_id'', JStr (tc_account_id state)),
         (''new_exposure_paused'', JBool (tc_new_exposure_paused state)),
         (''revision'', JInt (tc_revision state)),
         (''updated_by_command_id'', JStr (tc_updated_by_command_id state)),
         (''updated_reason'', JStr (tc_updated_reason state))]\<rparr>"

text \<open>The bookkeeping of \<open>mutate\<close> repeated by hand: no event-id lookup and no commit signal.\<close>

definition control_journal_in_tx ::
    "control_state \<Rightarrow> string \<Rightarrow> string \<Rightarrow> control_db \<Rightarrow> domain_event control_result" where
  "control_journal_in_tx state correlation_id event_id db =
     (let m = control_mutation state correlation_id;
          next_revision = read_current_revision db (dm_entity_type m) (dm_entity_id m) + 1
      in insert_journal_row event_id m next_revision (tc_updated_at state)
           (upsert_materialized m next_revision (tc_updated_at state) db))"

section \<open>Bootstrap, pause and resume\<close>

fun control_seed_rows ::
    "instant \<Rightarrow> (string \<times> string) list \<Rightarrow> control_db \<Rightarrow> control_state list control_result" where
  "control_seed_rows now [] db = (Inr [], db)"
| "control_seed_rows now ((account_id, mode) # accounts) db =
     (if control_get_in_tx db account_id \<noteq> None then control_seed_rows now accounts db
      else
        let state = \<lparr>tc_account_id = account_id, tc_new_exposure_paused = (mode = ''live''),
                     tc_revision = 1, tc_updated_at = now,
                     tc_updated_by_command_id = ''system:bootstrap'',
                     tc_updated_reason = ''account initialization''\<rparr>
        in case control_journal_in_tx state (''system:bootstrap:'' @ account_id)
                  (control_event_id account_id (tc_revision state))
                  (db\<lparr>jd_prod := jd_prod db @ [state]\<rparr>) of
             (Inl e, db') \<Rightarrow> (Inl e, db')
           | (Inr _, db') \<Rightarrow>
              (case control_seed_rows now accounts db' of
                 (Inl e, db'') \<Rightarrow> (Inl e, db'')
               | (Inr seeded, db'') \<Rightarrow> (Inr (state # seeded), db'')))"

definition control_seed_in_tx ::
    "(string \<times> string) list \<Rightarrow> pydatetime \<Rightarrow> control_db \<Rightarrow> control_state list control_result" where
  "control_seed_in_tx accounts now db =
     (case control_as_utc now of
        Inl e \<Rightarrow> (Inl (Raised e), db)
      | Inr t \<Rightarrow> control_seed_rows t accounts db)"

definition set_pause_in_tx ::
    "string \<Rightarrow> bool \<Rightarrow> int option \<Rightarrow> string \<Rightarrow> string \<Rightarrow> pydatetime \<Rightarrow> control_db
     \<Rightarrow> control_state control_result" where
  "set_pause_in_tx account_id paused expected_revision command_id reason now db =
     (case control_as_utc now of
        Inl e \<Rightarrow> (Inl (Raised e), db)
      | Inr t \<Rightarrow>
         (case control_get_in_tx db account_id of
            None \<Rightarrow> (Inl (Raised (PauseStateUnavailable account_id)), db)
          | Some current \<Rightarrow>
             if tc_new_exposure_paused current = paused then (Inr current, db)
             else if \<not> paused \<and> expected_revision \<noteq> Some (tc_revision current)
             then (Inl (Raised (PauseRevisionConflict account_id (tc_revision current))), db)
             else
               let match = (\<lambda>s. tc_account_id s = account_id \<and> tc_revision s = tc_revision current);
                   set_row = (\<lambda>s. s\<lparr>tc_new_exposure_paused := paused, tc_revision := tc_revision s + 1,
                                    tc_updated_at := t, tc_updated_by_command_id := command_id,
                                    tc_updated_reason := reason\<rparr>);
                   rows = map set_row (filter match (jd_prod db));
                   db1 = db\<lparr>jd_prod := update_where match set_row (jd_prod db)\<rparr>
               in case rows of
                    [] \<Rightarrow> (Inl (Raised (PauseRevisionConflict account_id (tc_revision current))), db1)
                  | state # _ \<Rightarrow>
                     (case control_journal_in_tx state command_id
                             (control_event_id account_id (tc_revision state)) db1 of
                        (Inl e, db') \<Rightarrow> (Inl e, db')
                      | (Inr _, db') \<Rightarrow> (Inr state, db'))))"

text \<open>\<open>set\<close> and the caller of \<open>seed_in_tx\<close> own the transaction; nothing signals the readers.\<close>

definition control_transaction :: "(control_db \<Rightarrow> 'r control_result) \<Rightarrow> control_db \<Rightarrow> 'r control_result" where
  "control_transaction work db =
     (case work db of
        (Inl e, db') \<Rightarrow> (Inl e, db\<lparr>jd_next_cursor := jd_next_cursor db'\<rparr>)
      | (Inr r, db') \<Rightarrow> (Inr r, db'))"

definition control_set ::
    "string \<Rightarrow> bool \<Rightarrow> int option \<Rightarrow> string \<Rightarrow> string \<Rightarrow> pydatetime \<Rightarrow> control_db
     \<Rightarrow> control_state control_result" where
  "control_set account_id paused expected_revision command_id reason now db =
     control_transaction (set_pause_in_tx account_id paused expected_revision command_id reason now) db"

section \<open>The invariant\<close>

definition control_revision :: "control_db \<Rightarrow> string \<Rightarrow> int" where
  "control_revision db account_id =
     (case control_get_in_tx db account_id of None \<Rightarrow> 0 | Some s \<Rightarrow> tc_revision s)"

text \<open>
  One row per account; its revision runs in step with the journal's revision of that entity,
  and no journaled control event is numbered beyond it.
\<close>

definition control_inv :: "control_db \<Rightarrow> bool" where
  "control_inv db \<longleftrightarrow>
     journal_inv db
     \<and> distinct (map tc_account_id (jd_prod db))
     \<and> (\<forall>a. read_current_revision db ''trading_control'' a = control_revision db a)
     \<and> (\<forall>r \<in> set (jd_rows db). \<forall>a n. jr_event_id r = control_event_id a n \<longrightarrow> n \<le> control_revision db a)"

lemma control_event_id_inject [simp]:
  "control_event_id a n = control_event_id a' n' \<longleftrightarrow> a = a' \<and> n = n'"
proof
  assume "control_event_id a n = control_event_id a' n'"
  then have "(''trading_control:'' @ a) @ CHR '':'' # string_of_int n
      = (''trading_control:'' @ a') @ CHR '':'' # string_of_int n'"
    unfolding control_event_id_def .
  from append_last_sep_inject [OF _ _ this]
  show "a = a' \<and> n = n'" by simp
qed simp

lemma control_inv_empty [simp]: "control_inv (empty_journal [])"
  by (simp add: control_inv_def read_current_revision_def control_revision_def control_get_in_tx_def)

lemma control_get_Some:
  "control_inv db \<Longrightarrow> control_get_in_tx db a = Some s \<longleftrightarrow> s \<in> set (jd_prod db) \<and> tc_account_id s = a"
  using fetchone_filter_SomeD [of "\<lambda>s. tc_account_id s = a" "jd_prod db" s]
    fetchone_key [of tc_account_id "jd_prod db" s]
  by (auto simp: control_get_in_tx_def control_inv_def)

lemma control_get_cong: "jd_prod db' = jd_prod db \<Longrightarrow> control_get_in_tx db' a = control_get_in_tx db a"
  by (simp add: control_get_in_tx_def)

text \<open>Journaling a row whose revision is one above the journal never violates an index.\<close>

lemma control_journal_ok:
  assumes "journal_inv db"
    and "\<forall>r \<in> set (jd_rows db). jr_event_id r \<noteq> eid"
  shows "control_journal_in_tx state c eid db =
     (Inr (row_to_event (fresh_row (tc_updated_at state) eid (control_mutation state c) db)),
      (appended (tc_updated_at state) eid (control_mutation state c) (jd_prod db) db)
        \<lparr>jd_open_events := jd_open_events db\<rparr>)"
proof -
  let ?m = "control_mutation state c"
  let ?rev = "read_current_revision db (dm_entity_type ?m) (dm_entity_id ?m) + 1"
  have "\<not> (\<exists>r \<in> set (jd_rows db). jr_event_id r = eid
        \<or> (jr_entity_type r = dm_entity_type ?m \<and> jr_entity_id r = dm_entity_id ?m
           \<and> jr_entity_revision r = ?rev))"
  proof
    assume "\<exists>r \<in> set (jd_rows db). jr_event_id r = eid
        \<or> (jr_entity_type r = dm_entity_type ?m \<and> jr_entity_id r = dm_entity_id ?m
           \<and> jr_entity_revision r = ?rev)"
    then obtain r where r: "r \<in> set (jd_rows db)" "jr_entity_type r = dm_entity_type ?m"
        "jr_entity_id r = dm_entity_id ?m" "jr_entity_revision r = ?rev"
      using assms(2) by auto
    then show False using ledger_okD [OF assms(1) r(1)] by simp
  qed
  then show ?thesis
    by (simp add: control_journal_in_tx_def Let_def insert_journal_row_def upsert_materialized_def
        appended_def fresh_row_def materialized_payload_def get_entity_def control_mutation_def)
qed

lemma control_mutation_entity [simp]:
  "dm_entity_type (control_mutation s c) = ''trading_control''"
  "dm_entity_id (control_mutation s c) = tc_account_id s"
  by (simp_all add: control_mutation_def)

text \<open>A transaction that journals one fresh event itself, outside \<open>mutate\<close>.\<close>

definition direct_write :: "'p journal_db \<Rightarrow> 'p journal_db \<Rightarrow> bool" where
  "direct_write db db' \<longleftrightarrow> (\<exists>t eid m p. select_journal_row db eid = None
     \<and> db' = (appended t eid m p db)\<lparr>jd_open_events := jd_open_events db\<rparr>)"

lemma appended_prod: "appended t eid m p (db\<lparr>jd_prod := q\<rparr>) = appended t eid m p db"
  by (simp add: appended_def Let_def upsert_materialized_def materialized_payload_def get_entity_def)

text \<open>
  Every write of a control row: journaling it succeeds, adds one row to the journal, moves the
  cursor sequence by one, leaves the committed counter alone and keeps the invariant.
\<close>

lemma control_write:
  assumes inv: "control_inv db"
    and rev: "tc_revision state = control_revision db (tc_account_id state) + 1"
    and dist: "distinct (map tc_account_id p)"
    and look: "\<And>a. fetchone (filter (\<lambda>s. tc_account_id s = a) p)
        = (if a = tc_account_id state then Some state else control_get_in_tx db a)"
  shows "\<exists>ev db'. control_journal_in_tx state c
      (control_event_id (tc_account_id state) (tc_revision state)) (db\<lparr>jd_prod := p\<rparr>) = (Inr ev, db')
    \<and> control_inv db' \<and> jd_prod db' = p \<and> jd_latest_committed db' = jd_latest_committed db
    \<and> direct_write db db' \<and> max_cursor (jd_rows db') = jd_next_cursor db"
proof -
  let ?eid = "control_event_id (tc_account_id state) (tc_revision state)"
  let ?m = "control_mutation state c" and ?t = "tc_updated_at state"
  let ?db1 = "db\<lparr>jd_prod := p\<rparr>"
  let ?db' = "(appended ?t ?eid ?m p ?db1)\<lparr>jd_open_events := jd_open_events db\<rparr>"
  have jinv: "journal_inv ?db1" using inv by (simp add: control_inv_def)
  have new: "\<forall>r \<in> set (jd_rows ?db1). jr_event_id r \<noteq> ?eid"
    using inv rev by (auto simp: control_inv_def)
  have run: "control_journal_in_tx state c ?eid ?db1 =
      (Inr (row_to_event (fresh_row ?t ?eid ?m ?db1)), ?db')"
    using control_journal_ok [OF jinv new, of state c] by simp
  have get: "control_revision ?db' a = (if a = tc_account_id state then tc_revision state
      else control_revision db a)" for a
    by (simp add: control_revision_def control_get_in_tx_def look)
  have "journal_inv ?db'" using jinv new by (simp add: journal_inv_appended select_journal_row_None)
  moreover have "\<forall>a. read_current_revision ?db' ''trading_control'' a = control_revision ?db' a"
    unfolding get using inv rev by (simp add: revision_appended control_inv_def)
  moreover have "\<forall>r \<in> set (jd_rows ?db'). \<forall>a n. jr_event_id r = control_event_id a n
      \<longrightarrow> n \<le> control_revision ?db' a"
    unfolding get using inv rev by (fastforce simp: control_inv_def)
  ultimately have inv': "control_inv ?db'" using dist by (simp add: control_inv_def)
  have "direct_write db ?db'"
    unfolding direct_write_def appended_prod using new by (intro exI) (auto simp: select_journal_row_None)
  moreover have "max_cursor (jd_rows ?db') = jd_next_cursor db"
    using inv by (simp, subst max_cursor_snoc) (auto simp: control_inv_def journal_inv_def rows_ok_def)
  ultimately show ?thesis using run inv' by simp
qed

text \<open>The row a pause or resume writes.\<close>

definition paused_row :: "bool \<Rightarrow> string \<Rightarrow> string \<Rightarrow> instant \<Rightarrow> control_state \<Rightarrow> control_state" where
  "paused_row paused command_id reason t s =
     s\<lparr>tc_new_exposure_paused := paused, tc_revision := tc_revision s + 1, tc_updated_at := t,
       tc_updated_by_command_id := command_id, tc_updated_reason := reason\<rparr>"

lemma paused_row_simps [simp]:
  "tc_account_id (paused_row b c r t s) = tc_account_id s"
  "tc_new_exposure_paused (paused_row b c r t s) = b"
  "tc_revision (paused_row b c r t s) = tc_revision s + 1"
  by (simp_all add: paused_row_def)

lemma set_pause_write:
  assumes inv: "control_inv db" and cur: "control_get_in_tx db a = Some current"
    and flip: "tc_new_exposure_paused current \<noteq> paused"
    and ok: "paused \<or> expected = Some (tc_revision current)"
  shows "\<exists>db'. set_pause_in_tx a paused expected cmd reason (Aware t) db
      = (Inr (paused_row paused cmd reason t current), db')
    \<and> control_inv db' \<and> jd_latest_committed db' = jd_latest_committed db
    \<and> direct_write db db' \<and> max_cursor (jd_rows db') = jd_next_cursor db
    \<and> (\<forall>b. control_get_in_tx db' b = (if b = a then Some (paused_row paused cmd reason t current)
                                    else control_get_in_tx db b))"
proof -
  let ?match = "\<lambda>s. tc_account_id s = a \<and> tc_revision s = tc_revision current"
  let ?set = "paused_row paused cmd reason t"
  let ?p = "update_where ?match ?set (jd_prod db)"
  have mem: "current \<in> set (jd_prod db)" "tc_account_id current = a"
    using cur control_get_Some [OF inv] by auto
  have dist: "distinct (map tc_account_id (jd_prod db))" using inv by (simp add: control_inv_def)
  have only: "?match s \<longleftrightarrow> s = current" if "s \<in> set (jd_prod db)" for s
    using that mem control_get_Some [OF inv, of a] by (metis option.inject)
  have "filter ?match (jd_prod db) = filter (\<lambda>s. tc_account_id s = tc_account_id current) (jd_prod db)"
    using only mem control_get_Some [OF inv, of a] by (intro filter_cong) (metis option.inject)+
  then have one: "filter ?match (jd_prod db) = [current]" using dist mem(1) by (simp add: filter_key_unique)
  have dist': "distinct (map tc_account_id ?p)" using dist by (simp add: map_update_where_key)
  have look: "fetchone (filter (\<lambda>s. tc_account_id s = b) ?p)
      = (if b = tc_account_id (?set current) then Some (?set current) else control_get_in_tx db b)" for b
    using fetchone_update_key [OF dist mem(1), of ?set ?match b] only
    by (simp add: control_get_in_tx_def)
  have rev: "tc_revision (?set current) = control_revision db (tc_account_id (?set current)) + 1"
    using cur mem(2) by (simp add: control_revision_def)
  obtain ev db' where jr: "control_journal_in_tx (?set current) cmd
      (control_event_id (tc_account_id (?set current)) (tc_revision (?set current)))
      (db\<lparr>jd_prod := ?p\<rparr>) = (Inr ev, db')"
    and out: "control_inv db'" "jd_prod db' = ?p" "jd_latest_committed db' = jd_latest_committed db"
      "direct_write db db'" "max_cursor (jd_rows db') = jd_next_cursor db"
    using control_write [OF inv rev dist' look] by blast
  have "set_pause_in_tx a paused expected cmd reason (Aware t) db = (Inr (?set current), db')"
    using cur flip ok one jr mem(2)
    by (auto simp: set_pause_in_tx_def control_as_utc_def Let_def paused_row_def [symmetric, abs_def])
  moreover have "control_get_in_tx db' b
      = (if b = a then Some (?set current) else control_get_in_tx db b)" for b
    using look [of b] out(2) mem(2) by (simp add: control_get_in_tx_def)
  ultimately show ?thesis using out by blast
qed

lemma control_set_write:
  assumes "control_inv db" and "control_get_in_tx db a = Some current"
    and "tc_new_exposure_paused current \<noteq> paused"
    and "paused \<or> expected = Some (tc_revision current)"
  shows "\<exists>db'. control_set a paused expected cmd reason (Aware t) db
      = (Inr (paused_row paused cmd reason t current), db')
    \<and> control_inv db' \<and> jd_latest_committed db' = jd_latest_committed db
    \<and> direct_write db db' \<and> max_cursor (jd_rows db') = jd_next_cursor db
    \<and> (\<forall>b. control_get_in_tx db' b = (if b = a then Some (paused_row paused cmd reason t current)
                                    else control_get_in_tx db b))"
  using set_pause_write [OF assms, of cmd reason t] by (auto simp: control_set_def control_transaction_def)

lemma control_set_same:
  assumes "control_get_in_tx db a = Some current" and "tc_new_exposure_paused current = paused"
  shows "control_set a paused expected cmd reason (Aware t) db = (Inr current, db)"
  using assms by (simp add: control_set_def control_transaction_def set_pause_in_tx_def control_as_utc_def)

definition seed_state :: "instant \<Rightarrow> string \<Rightarrow> string \<Rightarrow> control_state" where
  "seed_state t account_id mode =
     \<lparr>tc_account_id = account_id, tc_new_exposure_paused = (mode = ''live''), tc_revision = 1,
      tc_updated_at = t, tc_updated_by_command_id = ''system:bootstrap'',
      tc_updated_reason = ''account initialization''\<rparr>"

lemma seed_state_simps [simp]:
  "tc_account_id (seed_state t a m) = a" "tc_revision (seed_state t a m) = 1"
  "tc_new_exposure_paused (seed_state t a m) \<longleftrightarrow> m = ''live''" "tc_updated_at (seed_state t a m) = t"
  by (simp_all add: seed_state_def)

lemma seed_one:
  assumes inv: "control_inv db" and new: "control_get_in_tx db a = None"
  shows "\<exists>ev db'. control_journal_in_tx (seed_state t a mode) c (control_event_id a 1)
      (db\<lparr>jd_prod := jd_prod db @ [seed_state t a mode]\<rparr>) = (Inr ev, db')
    \<and> control_inv db'
    \<and> (\<forall>b. control_get_in_tx db' b = (if b = a then Some (seed_state t a mode) else control_get_in_tx db b))"
proof -
  let ?p = "jd_prod db @ [seed_state t a mode]"
  have no: "filter (\<lambda>s. tc_account_id s = a) (jd_prod db) = []"
    using new by (simp add: control_get_in_tx_def)
  have dist: "distinct (map tc_account_id ?p)"
    using inv no by (auto simp: control_inv_def filter_empty_conv)
  have look: "fetchone (filter (\<lambda>s. tc_account_id s = b) ?p)
      = (if b = tc_account_id (seed_state t a mode) then Some (seed_state t a mode)
         else control_get_in_tx db b)" for b
    using no by (auto simp: control_get_in_tx_def)
  have rev: "tc_revision (seed_state t a mode) = control_revision db (tc_account_id (seed_state t a mode)) + 1"
    using new by (simp add: control_revision_def)
  obtain ev db' where run: "control_journal_in_tx (seed_state t a mode) c (control_event_id a 1)
      (db\<lparr>jd_prod := ?p\<rparr>) = (Inr ev, db')" and out: "control_inv db'" "jd_prod db' = ?p"
    using control_write [OF inv rev dist look, of c] by auto
  have "control_get_in_tx db' b = (if b = a then Some (seed_state t a mode) else control_get_in_tx db b)" for b
    using look [of b] unfolding out(2) [symmetric] control_get_in_tx_def [of db', symmetric] by simp
  then show ?thesis using run out(1) by blast
qed

lemma seed_rows:
  "control_inv db \<Longrightarrow> \<exists>seeded db'. control_seed_rows t accounts db = (Inr seeded, db')
    \<and> control_inv db'
    \<and> (\<forall>a. control_get_in_tx db' a = (case control_get_in_tx db a of Some s \<Rightarrow> Some s
          | None \<Rightarrow> map_option (seed_state t a) (map_of accounts a)))"
proof (induction accounts arbitrary: db)
  case Nil
  then show ?case by (auto split: option.splits)
next
  case (Cons am accounts)
  obtain a mode where am: "am = (a, mode)" by fastforce
  show ?case
  proof (cases "control_get_in_tx db a")
    case (Some s)
    have "control_seed_rows t (am # accounts) db = control_seed_rows t accounts db"
      using Some by (simp add: am)
    moreover have "(case control_get_in_tx db b of Some s \<Rightarrow> Some s
          | None \<Rightarrow> map_option (seed_state t b) (map_of (am # accounts) b))
        = (case control_get_in_tx db b of Some s \<Rightarrow> Some s
          | None \<Rightarrow> map_option (seed_state t b) (map_of accounts b))" for b
      using Some by (auto simp: am split: option.splits)
    ultimately show ?thesis using Cons.IH [OF Cons.prems] by presburger
  next
    case None
    obtain ev db1 where one: "control_journal_in_tx (seed_state t a mode) (''system:bootstrap:'' @ a)
        (control_event_id a 1) (db\<lparr>jd_prod := jd_prod db @ [seed_state t a mode]\<rparr>) = (Inr ev, db1)"
      and inv1: "control_inv db1"
      and get1: "\<And>b. control_get_in_tx db1 b
          = (if b = a then Some (seed_state t a mode) else control_get_in_tx db b)"
      using seed_one [OF Cons.prems None] by blast
    obtain seeded db' where rest: "control_seed_rows t accounts db1 = (Inr seeded, db')"
      and inv': "control_inv db'"
      and get': "\<And>b. control_get_in_tx db' b = (case control_get_in_tx db1 b of Some s \<Rightarrow> Some s
          | None \<Rightarrow> map_option (seed_state t b) (map_of accounts b))"
      using Cons.IH [OF inv1] by blast
    have "control_seed_rows t (am # accounts) db = (Inr (seed_state t a mode # seeded), db')"
      using None one rest by (simp add: am seed_state_def Let_def)
    moreover have "control_get_in_tx db' b = (case control_get_in_tx db b of Some s \<Rightarrow> Some s
          | None \<Rightarrow> map_option (seed_state t b) (map_of (am # accounts) b))" for b
      using get' [of b] get1 [of b] None by (auto simp: am split: option.splits)
    ultimately show ?thesis using inv' by blast
  qed
qed

definition demo_control :: control_db where
  "demo_control = snd (control_seed_rows 0 [(''U1'', ''live''), (''D1'', ''paper'')] (empty_journal []))"

lemma demo_control_inv: "control_inv demo_control"
  using seed_rows [OF control_inv_empty, of 0 "[(''U1'', ''live''), (''D1'', ''paper'')]"]
  by (auto simp: demo_control_def)

lemma demo_control_get:
  "control_get_in_tx demo_control ''U1'' = Some (seed_state 0 ''U1'' ''live'')"
  "control_get_in_tx demo_control ''D1'' = Some (seed_state 0 ''D1'' ''paper'')"
  by code_simp+

section \<open>Properties of the pause gate\<close>

text \<open>
  Pausing is never refused on a governed account: whatever revision the caller believes in,
  \<open>set(paused=True)\<close> succeeds, and every later \<open>require_unpaused\<close> on the state it leaves is
  refused with \<open>TradingPausedError\<close>, while the gates of the other accounts are unchanged.
\<close>

lemma pause_always_succeeds:
  assumes inv: "control_inv db" and cur: "control_get_in_tx db a = Some current"
  shows "\<exists>s db'. control_set a True expected cmd reason (Aware t) db = (Inr s, db')
    \<and> control_inv db' \<and> require_unpaused db' a = Inl (TradingPausedError a)
    \<and> (\<forall>b. b \<noteq> a \<longrightarrow> require_unpaused db' b = require_unpaused db b)"
proof (cases "tc_new_exposure_paused current")
  case True
  then show ?thesis
    using control_set_same [OF cur] cur inv by (auto simp: require_unpaused_def)
next
  case False
  then show ?thesis
    using control_set_write [OF inv cur, of True expected cmd reason t] by (auto simp: require_unpaused_def)
qed

lemma pause_always_succeeds_example:
  "control_inv demo_control \<and> control_get_in_tx demo_control ''D1'' = Some (seed_state 0 ''D1'' ''paper'')
   \<and> (\<exists>s db'. control_set ''D1'' True None ''cmd'' ''halt'' (Aware 9) demo_control = (Inr s, db')
        \<and> control_inv db' \<and> require_unpaused db' ''D1'' = Inl (TradingPausedError ''D1''))"
  using pause_always_succeeds [OF demo_control_inv demo_control_get(2), of None "''cmd''" "''halt''" 9]
    demo_control_inv demo_control_get(2) by blast

text \<open>
  Resuming a paused account succeeds exactly when the caller presents the current revision,
  and then opens the gate; with any other revision (or none) it is refused with the current
  revision and nothing is written.
\<close>

lemma resume_needs_current_revision:
  assumes inv: "control_inv db" and cur: "control_get_in_tx db a = Some current"
    and paused: "tc_new_exposure_paused current"
  shows "if expected = Some (tc_revision current)
    then \<exists>s db'. control_set a False expected cmd reason (Aware t) db = (Inr s, db')
           \<and> control_inv db' \<and> require_unpaused db' a = Inr () \<and> tc_revision s = tc_revision current + 1
    else control_set a False expected cmd reason (Aware t) db
           = (Inl (Raised (PauseRevisionConflict a (tc_revision current))), db)"
proof (cases "expected = Some (tc_revision current)")
  case True
  then show ?thesis
    using control_set_write [OF inv cur, of False expected cmd reason t] paused
    by (auto simp: require_unpaused_def)
next
  case False
  then show ?thesis
    using cur paused by (simp add: control_set_def control_transaction_def set_pause_in_tx_def control_as_utc_def)
qed

lemma resume_needs_current_revision_example:
  "control_inv demo_control
   \<and> (\<exists>s db'. control_set ''U1'' False (Some 1) ''cmd'' ''open'' (Aware 9) demo_control = (Inr s, db')
        \<and> control_inv db' \<and> require_unpaused db' ''U1'' = Inr () \<and> tc_revision s = 2)
   \<and> control_set ''U1'' False None ''cmd'' ''open'' (Aware 9) demo_control
      = (Inl (Raised (PauseRevisionConflict ''U1'' 1)), demo_control)"
  using resume_needs_current_revision [OF demo_control_inv demo_control_get(1), of "Some 1" "''cmd''" "''open''" 9]
    resume_needs_current_revision [OF demo_control_inv demo_control_get(1), of None "''cmd''" "''open''" 9]
    demo_control_inv by simp

text \<open>
  Seeding is fail-safe: it always succeeds, an account that already has a row keeps it
  untouched, and a new account starts paused if its (first) listed mode is live and unpaused
  otherwise; an account that is not listed stays ungoverned, so every exposure check on it is
  refused with \<open>PauseStateUnavailable\<close>.
\<close>

lemma seed_fail_safe:
  assumes "control_inv db"
  shows "\<exists>seeded db'. control_transaction (control_seed_in_tx accounts (Aware t)) db = (Inr seeded, db')
    \<and> control_inv db'
    \<and> (\<forall>a s. control_get_in_tx db a = Some s \<longrightarrow> control_get_in_tx db' a = Some s)
    \<and> (\<forall>a. control_get_in_tx db a = None \<longrightarrow> require_unpaused db' a =
          (case map_of accounts a of
             None \<Rightarrow> Inl (PauseStateUnavailable a)
           | Some mode \<Rightarrow> if mode = ''live'' then Inl (TradingPausedError a) else Inr ()))"
proof -
  obtain seeded db' where run: "control_seed_rows t accounts db = (Inr seeded, db')"
    and inv': "control_inv db'"
    and get': "\<And>a. control_get_in_tx db' a = (case control_get_in_tx db a of Some s \<Rightarrow> Some s
          | None \<Rightarrow> map_option (seed_state t a) (map_of accounts a))"
    using seed_rows [OF assms] by blast
  have "control_transaction (control_seed_in_tx accounts (Aware t)) db = (Inr seeded, db')"
    using run by (simp add: control_transaction_def control_seed_in_tx_def control_as_utc_def)
  moreover have "\<forall>a s. control_get_in_tx db a = Some s \<longrightarrow> control_get_in_tx db' a = Some s"
    using get' by simp
  moreover have "\<forall>a. control_get_in_tx db a = None \<longrightarrow> require_unpaused db' a =
      (case map_of accounts a of
         None \<Rightarrow> Inl (PauseStateUnavailable a)
       | Some mode \<Rightarrow> if mode = ''live'' then Inl (TradingPausedError a) else Inr ())"
    using get' by (auto simp: require_unpaused_def split: option.splits)
  ultimately show ?thesis using inv' by blast
qed

lemma seed_fail_safe_example:
  "control_inv demo_control
   \<and> (\<exists>seeded db'. control_transaction (control_seed_in_tx [(''U2'', ''live''), (''D1'', ''live'')] (Aware 5))
          demo_control = (Inr seeded, db')
        \<and> control_inv db' \<and> control_get_in_tx db' ''D1'' = Some (seed_state 0 ''D1'' ''paper'')
        \<and> require_unpaused db' ''U2'' = Inl (TradingPausedError ''U2'')
        \<and> require_unpaused db' ''U3'' = Inl (PauseStateUnavailable ''U3''))"
proof -
  let ?acc = "[(''U2'', ''live''), (''D1'', ''live'')]"
  have none: "control_get_in_tx demo_control ''U2'' = None" "control_get_in_tx demo_control ''U3'' = None"
    by code_simp+
  obtain seeded db' where out:
    "control_transaction (control_seed_in_tx ?acc (Aware 5)) demo_control = (Inr seeded, db')" "control_inv db'"
    and old: "\<And>a s. control_get_in_tx demo_control a = Some s \<Longrightarrow> control_get_in_tx db' a = Some s"
    and fresh: "\<And>a. control_get_in_tx demo_control a = None \<Longrightarrow> require_unpaused db' a =
          (case map_of ?acc a of
             None \<Rightarrow> Inl (PauseStateUnavailable a)
           | Some mode \<Rightarrow> if mode = ''live'' then Inl (TradingPausedError a) else Inr ())"
    using seed_fail_safe [OF demo_control_inv, of ?acc 5] by blast
  have "require_unpaused db' ''U2'' = Inl (TradingPausedError ''U2'')"
    "require_unpaused db' ''U3'' = Inl (PauseStateUnavailable ''U3'')"
    using fresh [OF none(1)] fresh [OF none(2)] by simp_all
  then show ?thesis using out old [OF demo_control_get(2)] demo_control_inv by blast
qed

text \<open>
  A pause that commits is in the journal but wakes nobody: \<open>set\<close> does not signal the commit,
  so a reader caught up to the previous newest cursor still sees a counter that is not above its
  cursor and goes on waiting until its deadline, although the event is already readable.
\<close>

lemma pause_event_not_signalled:
  assumes inv: "control_inv db" and sig: "signalled db"
    and cur: "control_get_in_tx db a = Some current" and open_gate: "\<not> tc_new_exposure_paused current"
    and time: "now < deadline"
  shows "\<exists>s db'. control_set a True None cmd reason (Aware t) db = (Inr s, db')
    \<and> max_cursor (jd_rows db) < max_cursor (jd_rows db')
    \<and> wait_for_cursor_after (max_cursor (jd_rows db)) deadline [(now, jd_latest_committed db')] = None"
proof -
  obtain db' where db': "control_set a True None cmd reason (Aware t) db
      = (Inr (paused_row True cmd reason t current), db')"
    "jd_latest_committed db' = jd_latest_committed db" "max_cursor (jd_rows db') = jd_next_cursor db"
    using control_set_write [OF inv cur, of True None cmd reason t] open_gate by auto
  have "max_cursor (jd_rows db) < jd_next_cursor db"
    using inv by (simp add: control_inv_def max_cursor_bounds)
  then show ?thesis using db' sig time by (auto simp: signalled_def)
qed

definition demo_control_synced :: control_db where
  "demo_control_synced = sync_latest_committed_cursor demo_control"

lemma pause_event_not_signalled_example:
  "\<exists>s db'. control_set ''D1'' True None ''cmd'' ''halt'' (Aware 9) demo_control_synced = (Inr s, db')
    \<and> max_cursor (jd_rows demo_control_synced) < max_cursor (jd_rows db')
    \<and> wait_for_cursor_after (max_cursor (jd_rows demo_control_synced)) 10 [(3, jd_latest_committed db')] = None"
proof -
  have "control_inv demo_control_synced"
    using demo_control_inv
    by (simp add: demo_control_synced_def sync_latest_committed_cursor_def journal_inv_signal
        control_inv_def control_revision_def control_get_in_tx_def read_current_revision_def)
  moreover have "signalled demo_control_synced" by code_simp
  moreover have "control_get_in_tx demo_control_synced ''D1'' = Some (seed_state 0 ''D1'' ''paper'')"
    by code_simp
  ultimately show ?thesis
    using pause_event_not_signalled [of demo_control_synced "''D1''" "seed_state 0 ''D1'' ''paper''" 3 10
        "''cmd''" "''halt''" 9] by simp
qed

end
