(* ===== verification/Domain_Feed.thy ===== *)
theory Domain_Feed
  imports Trading_Control
begin

text \<open>
  The read side of the journal: the fenced snapshot of
  \<^verbatim>\<open>src/trader/domain/snapshot_service.py\<close> with the generic adapter of
  \<^verbatim>\<open>src/trader/data/materialized_state.py\<close>, and the long-poll feed of
  \<^verbatim>\<open>src/trader/domain/feed_service.py\<close>. Between the reads of one feed call the journal goes
  on being written: \<open>journal_step\<close> says how, and the feed theorems hold for every interleaving.
\<close>

section \<open>How the journal evolves\<close>

text \<open>
  A committed or failed batch, a retention sweep, a writer that journals in a transaction of its
  own without signalling (the pause gate), a write of the producer's own tables, and a restart,
  which reads the committed counter back from the table. The string is the exception a callback
  raised. Each is one step, from the allocation of its cursor to its commit. That is what the lock
  of the journal gives the batches; the pause gate writes without it
  (\<^verbatim>\<open>src/trader/trading/trading_control.py\<close>, \<open>set\<close>), so for its events the single step is an assumption:
  nothing there keeps a batch from committing a later cursor first.
\<close>

inductive journal_step :: "'p journal_db \<Rightarrow> 'p journal_db \<Rightarrow> bool" where
  step_batch: "mutate_batch items db = (res :: string journal_error + domain_event list, db')
      \<Longrightarrow> journal_step db db'"
| step_compact: "compact now ac t db = (res :: string journal_error + compaction_result, db')
      \<Longrightarrow> journal_step db db'"
| step_direct: "select_journal_row db eid = None
      \<Longrightarrow> journal_step db ((appended t eid m p db)\<lparr>jd_open_events := jd_open_events db\<rparr>)"
| step_prod: "journal_step db (db\<lparr>jd_prod := p\<rparr>)"
| step_restart: "journal_step db (sync_latest_committed_cursor (db\<lparr>jd_latest_committed := 0\<rparr>))"

section \<open>Snapshot\<close>

record 'p adapter =
  ad_entity_type :: string
  ad_select_active :: "'p journal_db \<Rightarrow> jobject list"

definition active_row :: "string \<times> entity_row \<Rightarrow> jobject" where
  "active_row er =
     (case er of (entity_id, row) \<Rightarrow>
        AList.update ''account_id'' (case en_account_id row of None \<Rightarrow> JNull | Some a \<Rightarrow> JStr a)
         (AList.update ''entity_revision'' (JInt (en_entity_revision row))
           (AList.update ''entity_id'' (JStr entity_id) (opt_or [] (en_payload row)))))"

definition generic_select_active :: "string \<Rightarrow> 'p journal_db \<Rightarrow> jobject list" where
  "generic_select_active entity_type db =
     map (\<lambda>((et, ei), row). active_row (ei, row))
       (filter (\<lambda>((et, ei), row). et = entity_type \<and> \<not> en_deleted row) (jd_entities db))"

definition generic_entity_adapter :: "string \<Rightarrow> 'p adapter" where
  "generic_entity_adapter entity_type =
     \<lparr>ad_entity_type = entity_type, ad_select_active = generic_select_active entity_type\<rparr>"

record 'p snapshot_service =
  sv_adapters :: "'p adapter list"
  sv_broker_generation_reader :: "('p journal_db \<Rightarrow> int option) option"

definition empty_snapshot_service :: "'p snapshot_service" where
  "empty_snapshot_service = \<lparr>sv_adapters = [], sv_broker_generation_reader = None\<rparr>"

definition register_adapter :: "'p adapter \<Rightarrow> 'p snapshot_service \<Rightarrow> 'p snapshot_service" where
  "register_adapter adapter svc = svc\<lparr>sv_adapters := sv_adapters svc @ [adapter]\<rparr>"

definition register_broker_generation_reader ::
    "('p journal_db \<Rightarrow> int option) \<Rightarrow> 'p snapshot_service \<Rightarrow> 'p snapshot_service" where
  "register_broker_generation_reader reader svc = svc\<lparr>sv_broker_generation_reader := Some reader\<rparr>"

datatype snapshot_error = SnapshotNotReady

definition read_broker_generation :: "'p snapshot_service \<Rightarrow> 'p journal_db \<Rightarrow> snapshot_error + int" where
  "read_broker_generation svc db =
     (case sv_broker_generation_reader svc of
        Some reader \<Rightarrow> (case reader db of None \<Rightarrow> Inl SnapshotNotReady | Some g \<Rightarrow> Inr g)
      | None \<Rightarrow> Inr (read_latest_broker_generation db))"

text \<open>
  Every read of the transaction sees the state its first read pinned, so the whole method is a
  function of that one state.
\<close>

definition take_snapshot :: "'p snapshot_service \<Rightarrow> 'p journal_db \<Rightarrow> snapshot_error + snapshot_with_cursor" where
  "take_snapshot svc db =
     (case read_broker_generation svc db of
        Inl e \<Rightarrow> Inl e
      | Inr generation \<Rightarrow>
          Inr \<lparr>sw_source_cursor = max_cursor (jd_rows db), sw_broker_generation = generation,
               sw_entities = fold (\<lambda>a. AList.update (ad_entity_type a) (ad_select_active a db))
                               (sv_adapters svc) []\<rparr>)"

section \<open>Feed\<close>

definition min_limit :: int where "min_limit = 1"
definition max_limit :: int where "max_limit = 1000"
definition min_wait_ms :: int where "min_wait_ms = 0"
definition max_wait_ms :: int where "max_wait_ms = 10000"

datatype feed_error = CursorExpired int int

definition clamp :: "int \<Rightarrow> int \<Rightarrow> int \<Rightarrow> int" where
  "clamp v lo hi = max lo (min hi v)"

definition raise_if_expired :: "int \<Rightarrow> 'p journal_db \<Rightarrow> feed_error + unit" where
  "raise_if_expired after_cursor db =
     (case latest_checkpoint db of
        None \<Rightarrow> Inr ()
      | Some c \<Rightarrow>
          if after_cursor < ck_oldest_retained_cursor c
          then Inl (CursorExpired after_cursor (ck_oldest_retained_cursor c)) else Inr ())"

text \<open>
  What one call observes: the journal at the up-front check, the monotonic clock when it starts
  to wait, the checks of the wait loop (clock and committed counter), the journal at the query
  and the journal at the second check.
\<close>

record 'p feed_run =
  fr_check :: "'p journal_db"
  fr_started :: instant
  fr_wakeups :: "(instant \<times> int) list"
  fr_read :: "'p journal_db"
  fr_recheck :: "'p journal_db"

definition feed_deadline :: "instant \<Rightarrow> int \<Rightarrow> instant" where
  "feed_deadline started wait_ms = started + clamp wait_ms min_wait_ms max_wait_ms * 1000"

text \<open>None: the call is still waiting when the observed wake-ups end.\<close>

definition read_domain_events ::
    "int \<Rightarrow> int \<Rightarrow> int \<Rightarrow> 'p feed_run \<Rightarrow> (feed_error + read_domain_events_result) option" where
  "read_domain_events after_cursor limit wait_ms run =
     (case raise_if_expired after_cursor (fr_check run) of
        Inl e \<Rightarrow> Some (Inl e)
      | Inr _ \<Rightarrow>
         (case wait_for_cursor_after after_cursor (feed_deadline (fr_started run) wait_ms)
                 (fr_wakeups run) of
            None \<Rightarrow> None
          | Some cursor_at_wake \<Rightarrow>
             (let events = read_after (fr_read run) after_cursor (clamp limit min_limit max_limit)
              in case raise_if_expired after_cursor (fr_recheck run) of
                   Inl e \<Rightarrow> Some (Inl e)
                 | Inr _ \<Rightarrow>
                     Some (Inr \<lparr>rr_events = events,
                       rr_newest_cursor =
                         (if events \<noteq> [] then de_source_cursor (last events)
                          else max after_cursor cursor_at_wake)\<rparr>))))"

section \<open>Steps keep the invariant and never drop a row silently\<close>

lemma raise_if_expired_kept: "raise_if_expired after db = Inr u \<Longrightarrow> retained_floor db \<le> max 0 after"
  by (auto simp: raise_if_expired_def retained_floor_def split: option.splits if_splits)

lemma step_inv: "journal_step db db' \<Longrightarrow> journal_inv db \<Longrightarrow> journal_inv db'"
proof (induction rule: journal_step.induct)
  case (step_batch items db res db')
  then show ?case using mutate_batch_inv by blast
next
  case (step_compact now ac t db res db')
  then show ?case using compact_inv by blast
next
  case (step_direct db eid t m p)
  then show ?case by (simp add: journal_inv_appended)
next
  case (step_restart db)
  have "journal_inv (db\<lparr>jd_latest_committed := 0\<rparr>)"
    using step_restart max_cursor_bounds(1) [OF step_restart]
    by (simp add: journal_inv_def ledger_ok_def retention_ok_def retained_floor_def
        latest_checkpoint_def read_current_revision_def)
  then show ?case by (simp add: sync_latest_committed_cursor_def journal_inv_signal)
qed simp

text \<open>A row either survives a step or lies below the floor the step leaves; the floor never falls.\<close>

lemma step_keeps:
  assumes "journal_step db db'" and "journal_inv db"
  shows "retained_floor db \<le> retained_floor db'"
    and "r \<in> set (jd_rows db) \<Longrightarrow> r \<in> set (jd_rows db') \<or> jr_source_cursor r < retained_floor db'"
proof -
  have "retained_floor db \<le> retained_floor db'
    \<and> (\<forall>r \<in> set (jd_rows db). r \<in> set (jd_rows db') \<or> jr_source_cursor r < retained_floor db')"
    using assms
  proof (induction rule: journal_step.induct)
    case (step_batch items db res db')
    then obtain new where "jd_rows db' = jd_rows db @ new" "jd_checkpoints db' = jd_checkpoints db"
      using mutate_batch_keeps_rows by metis
    then show ?case using retained_floor_cong [of db' db] by simp
  next
    case (step_compact now ac t db res db')
    show ?case
    proof (cases res)
      case (Inl e)
      then show ?thesis using step_compact by (auto simp: compact_def Let_def split: pydatetime.splits)
    next
      case (Inr out)
      with step_compact have run: "compact now ac t db
          = (Inr out :: string journal_error + compaction_result, db')" by simp
      obtain n where "jd_rows db' = filter (\<lambda>r. cr_oldest_retained_cursor out \<le> jr_source_cursor r) (jd_rows db)"
        using run by (auto elim: compactE)
      then show ?thesis
        using compact_floor [OF step_compact(2) run] compact_floor_mono [OF step_compact(2) run] by auto
    qed
  next
    case (step_direct db eid t m p)
    have "retained_floor ((appended t eid m p db)\<lparr>jd_open_events := jd_open_events db\<rparr>) = retained_floor db"
      by (rule retained_floor_cong) simp
    then show ?case by simp
  next
    case (step_prod db p)
    have "retained_floor (db\<lparr>jd_prod := p\<rparr>) = retained_floor db" by (rule retained_floor_cong) simp
    then show ?case by simp
  next
    case (step_restart db)
    have "retained_floor (sync_latest_committed_cursor (db\<lparr>jd_latest_committed := 0\<rparr>)) = retained_floor db"
      by (rule retained_floor_cong) (simp add: sync_latest_committed_cursor_def)
    then show ?case by (simp add: sync_latest_committed_cursor_def)
  qed
  then show "retained_floor db \<le> retained_floor db'"
    and "r \<in> set (jd_rows db) \<Longrightarrow> r \<in> set (jd_rows db') \<or> jr_source_cursor r < retained_floor db'"
    by auto
qed

text \<open>
  What a tailing reader relies on: a log whose every step keeps an invariant, never lowers the
  floor, and removes only what lies below the floor it leaves. Then so does every run.
\<close>

locale retained_log = state_machine step inv
  for step :: "'s \<Rightarrow> 's \<Rightarrow> bool" and inv :: "'s \<Rightarrow> bool" +
  fixes floor_of :: "'s \<Rightarrow> int" and entries :: "'s \<Rightarrow> 'r set" and cursor_of :: "'r \<Rightarrow> int"
  assumes log_floor: "step s s' \<Longrightarrow> inv s \<Longrightarrow> floor_of s \<le> floor_of s'"
    and log_keeps: "step s s' \<Longrightarrow> inv s \<Longrightarrow> r \<in> entries s \<Longrightarrow> r \<in> entries s' \<or> cursor_of r < floor_of s'"
begin

lemma run_floor: "step\<^sup>*\<^sup>* s s' \<Longrightarrow> inv s \<Longrightarrow> floor_of s \<le> floor_of s'"
  by (rule run_mono [of s s' floor_of]) (auto intro: log_floor)

lemma run_keeps:
  "step\<^sup>*\<^sup>* s s' \<Longrightarrow> inv s \<Longrightarrow> r \<in> entries s \<Longrightarrow> r \<in> entries s' \<or> cursor_of r < floor_of s'"
proof (induction rule: rtranclp_induct)
  case (step y z)
  then show ?case using log_floor [OF step(2)] log_keeps [OF step(2)] run_inv [OF step(1)] by fastforce
qed simp

text \<open>Nothing above a cursor that is still retained at the end was lost on the way.\<close>

lemma run_retained:
  assumes "step\<^sup>*\<^sup>* s s'" and "step\<^sup>*\<^sup>* s' s''" and "inv s" and "r \<in> entries s" and "floor_of s'' \<le> cursor_of r"
  shows "r \<in> entries s'"
  using run_keeps [OF assms(1,3,4)] run_floor [OF assms(2) run_inv [OF assms(1,3)]] assms(5) by force

end

interpretation journal_log: retained_log journal_step journal_inv retained_floor
    "\<lambda>db. set (jd_rows db)" jr_source_cursor
  by unfold_locales (erule (1) step_inv, erule (1) step_keeps(1), erule (2) step_keeps(2))

section \<open>The feed\<close>

lemma read_after_sorted:
  assumes "journal_inv db"
  shows "read_after db after limit
    = map row_to_event (take (nat limit) (filter (\<lambda>r. after < jr_source_cursor r) (jd_rows db)))"
  using journal_inv_sorted [OF assms] by (simp add: read_after_def sorted_by_sort_key sorted_by_filter)

lemma clamp_bounds: "lo \<le> hi \<Longrightarrow> lo \<le> clamp v lo hi \<and> clamp v lo hi \<le> hi"
  by (auto simp: clamp_def)

text \<open>The reads of one call, in the order they happen, on a journal that goes on evolving.\<close>

definition feed_schedule :: "'p feed_run \<Rightarrow> bool" where
  "feed_schedule run \<longleftrightarrow> journal_step\<^sup>*\<^sup>* (fr_check run) (fr_read run)
     \<and> journal_step\<^sup>*\<^sup>* (fr_read run) (fr_recheck run)"

lemma read_domain_eventsE:
  assumes "read_domain_events after limit wait_ms run = Some (Inr res)"
  obtains wake where "raise_if_expired after (fr_check run) = Inr ()"
    and "raise_if_expired after (fr_recheck run) = Inr ()"
    and "wait_for_cursor_after after (feed_deadline (fr_started run) wait_ms) (fr_wakeups run) = Some wake"
    and "rr_events res = read_after (fr_read run) after (clamp limit min_limit max_limit)"
    and "rr_newest_cursor res = (if rr_events res \<noteq> [] then de_source_cursor (last (rr_events res))
           else max after wake)"
  using assms by (auto simp: read_domain_events_def Let_def split: sum.splits option.splits)

text \<open>
  C24. The feed never loses an event silently. Whatever the writers and the retention sweep do
  while a call runs, a call that answers has returned every event that was ever in the journal
  up to its query and whose cursor lies between the caller's cursor and the \<open>newest_cursor\<close> the
  caller will resume from; otherwise the call raises \<open>CursorExpired\<close>.
\<close>

theorem feed_no_silent_gap:
  assumes inv: "journal_inv past" and before: "journal_step\<^sup>*\<^sup>* past (fr_read run)"
    and sched: "feed_schedule run"
    and answer: "read_domain_events after limit wait_ms run = Some (Inr res)"
    and row: "r \<in> set (jd_rows past)" "after < jr_source_cursor r"
      "jr_source_cursor r \<le> rr_newest_cursor res"
  shows "row_to_event r \<in> set (rr_events res)"
proof -
  let ?db = "fr_read run" and ?n = "nat (clamp limit min_limit max_limit)"
  let ?rows = "filter (\<lambda>r. after < jr_source_cursor r) (jd_rows ?db)"
  from answer obtain wake where fresh: "raise_if_expired after (fr_recheck run) = Inr ()"
    and ev: "rr_events res = read_after ?db after (clamp limit min_limit max_limit)"
    and new: "rr_newest_cursor res = (if rr_events res \<noteq> [] then de_source_cursor (last (rr_events res))
        else max after wake)"
    by (rule read_domain_eventsE)
  have inv': "journal_inv ?db" using before inv by (rule journal_log.run_inv)
  have pos: "1 \<le> jr_source_cursor r" using inv row(1) by (simp add: journal_inv_def rows_ok_def)
  have after: "journal_step\<^sup>*\<^sup>* ?db (fr_recheck run)" using sched by (simp add: feed_schedule_def)
  have "retained_floor (fr_recheck run) \<le> jr_source_cursor r"
    using raise_if_expired_kept [OF fresh] row(2) pos by simp
  then have mem: "r \<in> set ?rows"
    using journal_log.run_retained [OF before after inv row(1)] row(2) by simp
  have evs: "rr_events res = map row_to_event (take ?n ?rows)"
    unfolding ev by (rule read_after_sorted [OF inv'])
  have "1 \<le> ?n" using clamp_bounds [of min_limit max_limit limit] by (auto simp: min_limit_def max_limit_def)
  then have ne: "take ?n ?rows \<noteq> []" using mem by (auto simp: filter_empty_conv)
  have "jr_source_cursor r \<le> jr_source_cursor (last (take ?n ?rows))"
    using row(3) new evs ne by (simp add: last_map)
  then have "r \<in> set (take ?n ?rows)"
    using sorted_by_take_le_last [OF sorted_by_filter [OF journal_inv_sorted [OF inv']] mem ne] by blast
  then show ?thesis unfolding evs by simp
qed

text \<open>
  The window of an answer: at most a thousand events, in strictly growing cursor order, all
  above the caller's cursor and at most \<open>newest_cursor\<close>, which is never below the caller's
  cursor, so resuming from it never repeats an event and never moves back.
\<close>

lemma feed_window:
  assumes inv: "journal_inv (fr_read run)"
    and answer: "read_domain_events after limit wait_ms run = Some (Inr res)"
  shows "sorted_by de_source_cursor (rr_events res) \<and> length (rr_events res) \<le> 1000
    \<and> (\<forall>e \<in> set (rr_events res). after < de_source_cursor e \<and> de_source_cursor e \<le> rr_newest_cursor res)
    \<and> after \<le> rr_newest_cursor res"
proof -
  let ?n = "nat (clamp limit min_limit max_limit)"
  let ?rows = "take ?n (filter (\<lambda>r. after < jr_source_cursor r) (jd_rows (fr_read run)))"
  from answer obtain wake where
    ev: "rr_events res = read_after (fr_read run) after (clamp limit min_limit max_limit)"
    and new: "rr_newest_cursor res = (if rr_events res \<noteq> [] then de_source_cursor (last (rr_events res))
        else max after wake)"
    by (rule read_domain_eventsE)
  have evs: "rr_events res = map row_to_event ?rows" unfolding ev by (rule read_after_sorted [OF inv])
  have sorted: "sorted_by jr_source_cursor ?rows"
    using sorted_by_filter [OF journal_inv_sorted [OF inv]] by (simp add: sorted_by_def sorted_wrt_take)
  then have 1: "sorted_by de_source_cursor (rr_events res)" unfolding evs by (simp add: sorted_by_def sorted_wrt_map)
  have 2: "length (rr_events res) \<le> 1000"
    unfolding evs using clamp_bounds [of min_limit max_limit limit]
    by (auto simp: min_limit_def max_limit_def intro!: min.coboundedI2)
  have above: "after < de_source_cursor e" if "e \<in> set (rr_events res)" for e
    using that unfolding evs by (auto dest: in_set_takeD)
  moreover have "de_source_cursor e \<le> rr_newest_cursor res" if "e \<in> set (rr_events res)" for e
    using sorted_by_last_max [OF 1 that] new that by (auto split: if_splits)
  moreover have "after \<le> rr_newest_cursor res"
    using new above [of "last (rr_events res)"] by (auto simp: less_imp_le)
  ultimately show ?thesis using 1 2 by blast
qed

lemma wait_returns:
  "deadline \<le> now \<or> after < latest \<Longrightarrow> (now, latest) \<in> set ws
   \<Longrightarrow> \<exists>w. wait_for_cursor_after after deadline ws = Some w"
  by (induction ws) auto

text \<open>
  C37. A feed call always comes back: whatever \<open>wait_ms\<close> asks for, the first check of the wait
  loop that is ten seconds or more after the start (or that sees a newer committed cursor) ends
  the wait, and the call answers or raises \<open>CursorExpired\<close>.
\<close>

theorem feed_returns:
  assumes "(now, latest) \<in> set (fr_wakeups run)"
    and "fr_started run + seconds 10 \<le> now \<or> after < latest"
  shows "read_domain_events after limit wait_ms run \<noteq> None"
proof -
  let ?deadline = "feed_deadline (fr_started run) wait_ms"
  have "?deadline \<le> now \<or> after < latest"
    using assms(2) clamp_bounds [of min_wait_ms max_wait_ms wait_ms]
    by (auto simp: feed_deadline_def min_wait_ms_def max_wait_ms_def seconds_def)
  then have "\<exists>w. wait_for_cursor_after after ?deadline (fr_wakeups run) = Some w"
    using assms(1) by (intro wait_returns)
  then show ?thesis by (auto simp: read_domain_events_def Let_def split: sum.splits)
qed

section \<open>Snapshot and tail\<close>

text \<open>
  What a consumer keeps per entity: account, revision, tombstone and payload. It installs the
  ledger's view at the snapshot and lets every event of the tail overwrite it.
\<close>

type_synonym entity_view = "string option \<times> int \<times> bool \<times> jobject option"

definition row_view :: "entity_row \<Rightarrow> entity_view" where
  "row_view row = (en_account_id row, en_entity_revision row, en_deleted row, en_payload row)"

definition event_view :: "domain_event \<Rightarrow> entity_view" where
  "event_view ev = (de_account_id ev, de_entity_revision ev, de_operation ev = Delete, de_payload ev)"

definition ledger_view :: "'p journal_db \<Rightarrow> string \<Rightarrow> string \<Rightarrow> entity_view option" where
  "ledger_view db et ei = map_option row_view (map_of (jd_entities db) (et, ei))"

definition apply_event :: "string \<Rightarrow> string \<Rightarrow> domain_event \<Rightarrow> entity_view option \<Rightarrow> entity_view option" where
  "apply_event et ei ev v =
     (if de_entity_type ev = et \<and> de_entity_id ev = ei then Some (event_view ev) else v)"

definition tail_events :: "int \<Rightarrow> 'p journal_db \<Rightarrow> domain_event list" where
  "tail_events c db = map row_to_event (filter (\<lambda>r. c < jr_source_cursor r) (jd_rows db))"

definition tail_ok :: "int \<Rightarrow> entity_view option \<Rightarrow> string \<Rightarrow> string \<Rightarrow> 'p journal_db \<Rightarrow> bool" where
  "tail_ok c base et ei db \<longleftrightarrow>
     c < jd_next_cursor db \<and> ledger_view db et ei = fold (apply_event et ei) (tail_events c db) base"

lemma tail_ok_cong:
  assumes "tail_ok c base et ei db" and "jd_rows db' = jd_rows db" and "jd_entities db' = jd_entities db"
    and "jd_next_cursor db \<le> jd_next_cursor db'"
  shows "tail_ok c base et ei db'"
  using assms by (simp add: tail_ok_def ledger_view_def tail_events_def)

lemma ledger_view_appended:
  assumes "et \<noteq> ''strategy''"
  shows "ledger_view (appended t eid m p db) et ei
    = apply_event et ei (row_to_event (fresh_row t eid m db)) (ledger_view db et ei)"
  using assms
  by (auto simp: ledger_view_def apply_event_def event_view_def row_view_def appended_def Let_def
      upsert_materialized_def materialized_payload_def table_simps fresh_row_def make_journal_row_def)

lemma tail_ok_appended:
  assumes "et \<noteq> ''strategy''" and "tail_ok c base et ei db"
  shows "tail_ok c base et ei (appended t eid m p db)"
  using assms by (simp add: tail_ok_def ledger_view_appended tail_events_def)

lemma tail_ok_append:
  assumes "et \<noteq> ''strategy''" and "journal_inv db" and "tail_ok c base et ei db"
    and "journal_append t u m w eid db = (Inr ev, db')"
  shows "tail_ok c base et ei db'"
  using assms(2,4)
proof (cases rule: journal_append_cases)
  case (replay row)
  show ?thesis using assms(3) by (rule tail_ok_cong) (simp_all add: replay)
next
  case (fresh p)
  then show ?thesis using assms(1,3) by (simp add: tail_ok_appended)
qed simp_all

lemma tail_ok_append_all:
  assumes "et \<noteq> ''strategy''"
  shows "journal_inv db \<Longrightarrow> open_ok db \<Longrightarrow> tail_ok c base et ei db \<Longrightarrow> append_all items db = (Inr evs, db')
    \<Longrightarrow> tail_ok c base et ei db'"
proof (induction items arbitrary: db evs)
  case Nil
  then show ?case by simp
next
  case (Cons b bs)
  then obtain ev db1 evs' where ap: "journal_append (bi_received_ts b) (bi_uuid b) (bi_mutation b)
      (bi_write b) (bi_event_id b) db = (Inr ev, db1)" and rest: "append_all bs db1 = (Inr evs', db')"
    by (auto split: prod.splits sum.splits)
  have "journal_inv db1 \<and> open_ok db1" using append_ok [OF Cons.prems(1,2) ap] by blast
  moreover have "tail_ok c base et ei db1" using assms Cons.prems(1,3) ap by (rule tail_ok_append)
  ultimately show ?case using Cons.IH rest by blast
qed

lemma tail_ok_batch:
  assumes "et \<noteq> ''strategy''" and inv: "journal_inv db" and tail: "tail_ok c base et ei db"
    and run: "mutate_batch items db = (res, db')"
  shows "tail_ok c base et ei db'"
proof (cases "items = []")
  case True
  then show ?thesis using run tail by (simp add: mutate_batch_def)
next
  case False
  then have work: "mutate_batch_work (append_all items) db = (res, db')"
    using run by (simp add: mutate_batch_def)
  have start: "journal_inv (db\<lparr>jd_open_events := []\<rparr>)" "open_ok (db\<lparr>jd_open_events := []\<rparr>)"
      "tail_ok c base et ei (db\<lparr>jd_open_events := []\<rparr>)"
    using inv tail by (simp_all add: open_ok_def tail_ok_def ledger_view_def tail_events_def)
  show ?thesis
  proof (cases res)
    case (Inl e)
    then obtain mid where mid: "append_all items (db\<lparr>jd_open_events := []\<rparr>) = (Inl e, mid)"
      and db': "db' = db\<lparr>jd_next_cursor := jd_next_cursor mid\<rparr>"
      using work by (auto simp: mutate_batch_work_def split: prod.splits sum.splits)
    have "jd_next_cursor (db\<lparr>jd_open_events := []\<rparr>) \<le> jd_next_cursor mid"
      using start(1,2) mid by (rule append_all_next)
    then show ?thesis using tail by (intro tail_ok_cong [OF tail]) (simp_all add: db')
  next
    case (Inr r)
    then obtain mid where mid: "append_all items (db\<lparr>jd_open_events := []\<rparr>) = (Inr r, mid)"
      and db': "db' = (if jd_open_events mid = [] then mid
          else signal_commit (top_cursor (jd_open_events mid)) mid)"
      using work by (auto simp: mutate_batch_work_def split: prod.splits sum.splits)
    have "tail_ok c base et ei mid" using assms(1) start mid by (rule tail_ok_append_all)
    then show ?thesis by (rule tail_ok_cong) (simp_all add: db')
  qed
qed

lemma tail_ok_step:
  assumes "journal_step db db'" and "et \<noteq> ''strategy''" and "journal_inv db" and "tail_ok c base et ei db"
    and "retained_floor db' \<le> c"
  shows "tail_ok c base et ei db'"
  using assms
proof (induction rule: journal_step.induct)
  case (step_batch items db res db')
  then show ?case using tail_ok_batch by blast
next
  case (step_compact now ac t db res db')
  show ?case
  proof (cases res)
    case (Inl e)
    then show ?thesis using step_compact by (auto simp: compact_def Let_def split: pydatetime.splits)
  next
    case (Inr out)
    with step_compact(1) have run: "compact now ac t db
        = (Inr out :: string journal_error + compaction_result, db')" by simp
    then obtain n where rows: "jd_rows db'
        = filter (\<lambda>r. cr_oldest_retained_cursor out \<le> jr_source_cursor r) (jd_rows db)"
      and frame: "jd_entities db' = jd_entities db" "jd_next_cursor db' = jd_next_cursor db"
      by (auto elim: compactE)
    have "cr_oldest_retained_cursor out \<le> c"
      using step_compact(5) compact_floor [OF step_compact(3) run] by simp
    then have "tail_events c db' = tail_events c db"
      unfolding tail_events_def rows filter_filter by (intro arg_cong [of _ _ "map row_to_event"] filter_cong) auto
    then show ?thesis using step_compact(4) frame by (simp add: tail_ok_def ledger_view_def)
  qed
next
  case (step_direct db eid t m p)
  have "tail_ok c base et ei (appended t eid m p db)" using step_direct by (simp add: tail_ok_appended)
  then show ?case by (rule tail_ok_cong) simp_all
next
  case (step_prod db p)
  show ?case using step_prod(3) by (rule tail_ok_cong) simp_all
next
  case (step_restart db)
  show ?case using step_restart(3) by (rule tail_ok_cong) (simp_all add: sync_latest_committed_cursor_def)
qed

lemma tail_ok_steps:
  "journal_step\<^sup>*\<^sup>* db db' \<Longrightarrow> et \<noteq> ''strategy'' \<Longrightarrow> journal_inv db \<Longrightarrow> tail_ok c base et ei db
   \<Longrightarrow> retained_floor db' \<le> c \<Longrightarrow> tail_ok c base et ei db'"
proof (induction rule: rtranclp_induct)
  case (step y z)
  have inv: "journal_inv y" using step(1,5) by (rule journal_log.run_inv)
  then have "retained_floor y \<le> c" using step_keeps(1) [OF step(2)] step(7) by force
  then show ?case using step tail_ok_step [OF step(2)] inv by blast
qed simp

text \<open>
  The cursor of a snapshot is the right place to read on from: let the journal run on, and read
  everything after that cursor while it is still retained, with a limit that no page cuts short;
  applying those events to the ledger's view when the snapshot was taken gives exactly the ledger's
  view now, for every entity except strategies (whose payloads the ledger merges). What the adapters
  put into the snapshot plays no part here.
\<close>

lemma snapshot_tail_replay:
  assumes inv: "journal_inv db" and snap: "take_snapshot svc db = Inr s"
    and run: "journal_step\<^sup>*\<^sup>* db db'" and kept: "raise_if_expired (sw_source_cursor s) db' = Inr ()"
    and et: "et \<noteq> ''strategy''" and all: "int (length (jd_rows db')) \<le> limit"
  shows "fold (apply_event et ei) (read_after db' (sw_source_cursor s) limit) (ledger_view db et ei)
    = ledger_view db' et ei"
proof -
  let ?c = "max_cursor (jd_rows db)"
  have c: "sw_source_cursor s = ?c"
    using snap by (auto simp: take_snapshot_def split: sum.splits)
  have none: "tail_events ?c db = []"
    by (auto simp: tail_events_def filter_empty_conv not_less max_cursor_ge)
  have "tail_ok ?c (ledger_view db et ei) et ei db"
    using none max_cursor_bounds(2) [OF inv] by (simp add: tail_ok_def)
  moreover have "retained_floor db' \<le> ?c"
    using raise_if_expired_kept [OF kept] max_cursor_bounds(1) [OF inv] c by simp
  ultimately have "tail_ok ?c (ledger_view db et ei) et ei db'" using tail_ok_steps [OF run et inv] by blast
  moreover have "read_after db' (sw_source_cursor s) limit = tail_events ?c db'"
  proof -
    have "length (filter (\<lambda>r. ?c < jr_source_cursor r) (jd_rows db')) \<le> nat limit"
      using all length_filter_le [of "\<lambda>r. ?c < jr_source_cursor r" "jd_rows db'"] by linarith
    then show ?thesis
      using read_after_sorted [OF journal_log.run_inv [OF run inv], of ?c limit] c by (simp add: tail_events_def)
  qed
  ultimately show ?thesis by (simp add: tail_ok_def)
qed

text \<open>Whatever a payload holds, the reserved keys of a listed row are the ledger's own.\<close>

lemma active_row_keys:
  "jget (active_row (ei, row)) ''entity_id'' = Some (JStr ei)"
  "jget (active_row (ei, row)) ''entity_revision'' = Some (JInt (en_entity_revision row))"
  by (simp_all add: active_row_def jget_def table_simps)

lemma snapshot_needs_generation:
  "reader db = None \<Longrightarrow>
   take_snapshot (register_broker_generation_reader reader svc) db = Inl SnapshotNotReady"
  by (simp add: take_snapshot_def read_broker_generation_def register_broker_generation_reader_def)

text \<open>A pause or resume is one of the journal's steps, so the feed theorems cover it.\<close>

lemma control_set_step:
  assumes "control_inv db" and "control_get_in_tx db a = Some current"
    and "control_set a paused expected cmd reason (Aware t) db = (res, db')"
  shows "journal_step\<^sup>*\<^sup>* db db'"
proof (cases "tc_new_exposure_paused current = paused \<or> (\<not> paused \<and> expected \<noteq> Some (tc_revision current))")
  case True
  then have "db' = db"
    using assms(2,3) by (cases "tc_new_exposure_paused current = paused")
      (simp_all add: control_set_def control_transaction_def set_pause_in_tx_def control_as_utc_def)
  then show ?thesis by simp
next
  case False
  then have "direct_write db db'"
    using control_set_write [OF assms(1,2), of paused expected cmd reason t] assms(3) by auto
  then show ?thesis by (auto simp: direct_write_def intro: step_direct)
qed

section \<open>Witnesses\<close>

definition demo_feed_item :: "(unit, string) batch_item" where
  "demo_feed_item =
     \<lparr>bi_received_ts = 200, bi_uuid = ''u'',
      bi_mutation = demo_mutation\<lparr>dm_payload := Some [(''status'', JStr ''EXECUTED'')]\<rparr>,
      bi_write = (\<lambda>p _. Inr p), bi_event_id = Some ''e9''\<rparr>"

definition demo_next :: "unit journal_db" where
  "demo_next = snd (mutate_batch [demo_feed_item] demo_db)"

lemma demo_next_step: "journal_step\<^sup>*\<^sup>* demo_db demo_next"
  by (rule r_into_rtranclp, rule step_batch [of "[demo_feed_item]" _ "fst (mutate_batch [demo_feed_item] demo_db)"])
    (simp add: demo_next_def)

definition demo_run_feed :: "unit feed_run" where
  "demo_run_feed =
     \<lparr>fr_check = demo_db, fr_started = 0, fr_wakeups = [(5, 1), (7, 2)], fr_read = demo_next,
      fr_recheck = demo_next\<rparr>"

definition demo_result :: read_domain_events_result where
  "demo_result =
     \<lparr>rr_events = [row_to_event (make_journal_row 2 ''e9'' (bi_mutation demo_feed_item) 2 200)],
      rr_newest_cursor = 2\<rparr>"

lemma demo_feed_answer: "read_domain_events 1 50 60000 demo_run_feed = Some (Inr demo_result)"
  by code_simp

lemma demo_feed_schedule: "feed_schedule demo_run_feed"
  using demo_next_step by (simp add: feed_schedule_def demo_run_feed_def)

theorem feed_no_silent_gap_witness:
  "row_to_event (make_journal_row 2 ''e9'' (bi_mutation demo_feed_item) 2 200) \<in> set (rr_events demo_result)"
proof (rule feed_no_silent_gap [OF _ _ demo_feed_schedule demo_feed_answer])
  show "journal_inv demo_next" using demo_next_step demo_db_inv by (rule journal_log.run_inv)
  show "journal_step\<^sup>*\<^sup>* demo_next (fr_read demo_run_feed)" by (simp add: demo_run_feed_def)
  show "make_journal_row 2 ''e9'' (bi_mutation demo_feed_item) 2 200 \<in> set (jd_rows demo_next)" by code_simp
qed code_simp+

lemma feed_window_example:
  "sorted_by de_source_cursor (rr_events demo_result) \<and> length (rr_events demo_result) \<le> 1000
   \<and> 1 \<le> rr_newest_cursor demo_result"
proof -
  have "journal_inv (fr_read demo_run_feed)"
    using journal_log.run_inv [OF demo_next_step demo_db_inv] by (simp add: demo_run_feed_def)
  from feed_window [OF this demo_feed_answer] show ?thesis by simp
qed

theorem feed_returns_witness:
  "read_domain_events 9 50 60000 (demo_run_feed\<lparr>fr_wakeups := [(5, 1), (seconds 10, 2)]\<rparr>) \<noteq> None"
  by (rule feed_returns [of "seconds 10" 2]) (simp_all add: demo_run_feed_def)

lemma snapshot_tail_replay_example:
  "fold (apply_event ''proposal'' ''42'') (read_after demo_next 1 2) (ledger_view demo_db ''proposal'' ''42'')
     = ledger_view demo_next ''proposal'' ''42''
   \<and> ledger_view demo_next ''proposal'' ''42''
     = Some (Some ''DU123'', 2, False, Some [(''status'', JStr ''EXECUTED'')])"
proof -
  let ?svc = "register_adapter (generic_entity_adapter ''proposal'') empty_snapshot_service"
  obtain s where s: "take_snapshot ?svc demo_db = Inr s"
    by (simp add: take_snapshot_def read_broker_generation_def register_adapter_def empty_snapshot_service_def)
  have "max_cursor (jd_rows demo_db) = 1" by code_simp
  then have c: "sw_source_cursor s = 1"
    using s by (auto simp: take_snapshot_def split: sum.splits)
  have "raise_if_expired 1 demo_next = Inr ()" and "int (length (jd_rows demo_next)) \<le> 2" by code_simp+
  then show ?thesis
    using snapshot_tail_replay [OF demo_db_inv s demo_next_step, of "''proposal''" 2 "''42''"] c
    by simp code_simp
qed

end
