(* ===== verification/Circuit_Breaker.thy ===== *)
theory Circuit_Breaker
  imports Domain_Journal
begin

text \<open>
  The durable automation circuit breaker: \<^verbatim>\<open>src/trader/trading/circuit_breaker.py\<close> (the trip
  and reset policy) over \<^verbatim>\<open>src/trader/data/circuit_breaker_store.py\<close> (the per-account row, the
  incident table and the journaled transactions). Signals carry aware timestamps, as every caller
  passes them. The rendering of a timestamp and SHA-256, which only build the incident id, are the
  arguments \<open>render\<close> and \<open>sha\<close>; no property needs more of them than that they are functions.
\<close>

section \<open>Tables\<close>

datatype breaker_status = CLEAR | TRIPPED

record breaker_state =
  bs_account_id :: string
  bs_state :: breaker_status
  bs_reason_code :: "string option"
  bs_reason :: "string option"
  bs_revision :: int
  bs_tripped_at :: "instant option"
  bs_reset_at :: "instant option"
  bs_reset_command_id :: "string option"

record incident =
  ic_incident_id :: string
  ic_account_id :: string
  ic_signal_kind :: string
  ic_detail :: string
  ic_occurred_at :: instant
  ic_recorded_at :: instant

record breaker_tables =
  bt_breaker :: "breaker_state list"
  bt_incidents :: "incident list"

type_synonym breaker_db = "breaker_tables journal_db"

datatype breaker_error =
    BreakerNotSeeded string
  | BreakerTypeError
  | UnknownBreakerSignal string
  | BreakerResetRefused string

type_synonym 'r breaker_result = "(breaker_error journal_error + 'r) \<times> breaker_db"

definition breaker_to_payload :: "breaker_state \<Rightarrow> jobject" where
  "breaker_to_payload s =
     [(''account_id'', JStr (bs_account_id s)),
      (''state'', JStr (case bs_state s of CLEAR \<Rightarrow> ''CLEAR'' | TRIPPED \<Rightarrow> ''TRIPPED'')),
      (''reason_code'', jopt JStr (bs_reason_code s)),
      (''reason'', jopt JStr (bs_reason s)),
      (''revision'', JInt (bs_revision s)),
      (''tripped_at'', jopt (\<lambda>t. JTime (Aware t)) (bs_tripped_at s)),
      (''reset_at'', jopt (\<lambda>t. JTime (Aware t)) (bs_reset_at s)),
      (''reset_command_id'', jopt JStr (bs_reset_command_id s))]"

section \<open>The store\<close>

definition breaker_row :: "string \<Rightarrow> breaker_db \<Rightarrow> breaker_state option" where
  "breaker_row account_id db =
     fetchone (filter (\<lambda>s. bs_account_id s = account_id) (bt_breaker (jd_prod db)))"

definition set_breaker :: "(breaker_state list \<Rightarrow> breaker_state list) \<Rightarrow> breaker_db \<Rightarrow> breaker_db" where
  "set_breaker f db = db\<lparr>jd_prod := (jd_prod db)\<lparr>bt_breaker := f (bt_breaker (jd_prod db))\<rparr>\<rparr>"

definition breaker_get :: "string \<Rightarrow> breaker_db \<Rightarrow> breaker_error journal_error + breaker_state" where
  "breaker_get account_id db =
     (case breaker_row account_id db of
        None \<Rightarrow> Inl (Raised (BreakerNotSeeded account_id))
      | Some s \<Rightarrow> Inr s)"

definition breaker_seed :: "string \<Rightarrow> breaker_db \<Rightarrow> breaker_state breaker_result" where
  "breaker_seed account_id db =
     (let row = \<lparr>bs_account_id = account_id, bs_state = CLEAR, bs_reason_code = None,
                 bs_reason = None, bs_revision = 1, bs_tripped_at = None, bs_reset_at = None,
                 bs_reset_command_id = None\<rparr>;
          db' = (if \<exists>s \<in> set (bt_breaker (jd_prod db)). bs_account_id s = account_id then db
                 else set_breaker (\<lambda>rows. rows @ [row]) db)
      in (breaker_get account_id db', db'))"

definition committed_outcome ::
    "string \<Rightarrow> string \<Rightarrow> breaker_db \<Rightarrow> breaker_error journal_error + jobject option" where
  "committed_outcome account_id command_id db =
     (case breaker_get account_id db of
        Inl e \<Rightarrow> Inl e
      | Inr s \<Rightarrow> Inr (if bs_reset_command_id s = Some command_id then Some (breaker_to_payload s) else None))"

definition incident_id ::
    "(string \<Rightarrow> string) \<Rightarrow> (instant \<Rightarrow> string) \<Rightarrow> string \<Rightarrow> string \<Rightarrow> instant \<Rightarrow> string \<Rightarrow> string" where
  "incident_id sha render account_id kind occurred_at key =
     sha (account_id @ ''|'' @ kind @ ''|'' @ (if key \<noteq> [] then key else render occurred_at))"

definition count_since :: "string \<Rightarrow> breaker_db \<Rightarrow> string \<Rightarrow> instant \<Rightarrow> int" where
  "count_since account_id db kind since =
     int (length (filter (\<lambda>i. ic_account_id i = account_id \<and> ic_signal_kind i = kind
                              \<and> since \<le> ic_occurred_at i) (bt_incidents (jd_prod db))))"

definition last_reconnect :: "string \<Rightarrow> breaker_db \<Rightarrow> instant option" where
  "last_reconnect account_id db =
     fetchone (rev (sort (map ic_occurred_at
       (filter (\<lambda>i. ic_account_id i = account_id \<and> ic_signal_kind i = ''BROKER_RECONNECTED'')
          (bt_incidents (jd_prod db))))))"

definition disconnect_started :: "string \<Rightarrow> breaker_db \<Rightarrow> instant option" where
  "disconnect_started account_id db =
     (let reconnected = last_reconnect account_id db
      in fetchone (sort (map ic_occurred_at
           (filter (\<lambda>i. ic_account_id i = account_id \<and> ic_signal_kind i = ''BROKER_DISCONNECTED''
                        \<and> (case reconnected of None \<Rightarrow> True | Some r \<Rightarrow> r < ic_occurred_at i))
             (bt_incidents (jd_prod db))))))"

text \<open>The transaction of \<open>apply_signal\<close>; \<open>trip_reason\<close> reads the tables with the new incident in.\<close>

definition incident_mutation ::
    "string \<Rightarrow> string \<Rightarrow> string \<Rightarrow> instant \<Rightarrow> breaker_state \<Rightarrow> domain_mutation" where
  "incident_mutation account_id iid kind recorded_at s =
     \<lparr>dm_event_type = ''automation.incident'', dm_entity_type = ''automation_breaker'',
      dm_entity_id = account_id, dm_operation = Upsert, dm_account_id = Some account_id,
      dm_source = ''trader_service'', dm_source_timestamp = Aware recorded_at,
      dm_correlation_id = Some iid,
      dm_payload = Some (jmerge [(''incident_id'', JStr iid), (''signal_kind'', JStr kind)]
                           (breaker_to_payload s))\<rparr>"

definition trip :: "string \<Rightarrow> string \<Rightarrow> instant \<Rightarrow> breaker_state \<Rightarrow> breaker_state" where
  "trip code message recorded_at s =
     s\<lparr>bs_state := TRIPPED, bs_reason_code := Some code, bs_reason := Some message,
       bs_revision := bs_revision s + 1, bs_tripped_at := Some recorded_at, bs_reset_at := None,
       bs_reset_command_id := None\<rparr>"

definition insert_incident :: "incident \<Rightarrow> breaker_db \<Rightarrow> breaker_db" where
  "insert_incident inc db =
     db\<lparr>jd_prod := (jd_prod db)\<lparr>bt_incidents := bt_incidents (jd_prod db) @ [inc]\<rparr>\<rparr>"

definition trip_if_clear ::
    "string \<Rightarrow> (string \<times> string) option \<Rightarrow> instant \<Rightarrow> breaker_state \<Rightarrow> breaker_db \<Rightarrow> breaker_db" where
  "trip_if_clear account_id reason recorded_at current db =
     (case reason of
        None \<Rightarrow> db
      | Some (code, message) \<Rightarrow>
          if bs_state current = CLEAR
          then set_breaker (update_where (\<lambda>s. bs_account_id s = account_id) (trip code message recorded_at)) db
          else db)"

definition apply_signal_work ::
    "string \<Rightarrow> string \<Rightarrow> string \<Rightarrow> string \<Rightarrow> instant \<Rightarrow> instant
     \<Rightarrow> (breaker_db \<Rightarrow> (string \<times> string) option) \<Rightarrow> instant \<Rightarrow> breaker_db \<Rightarrow> breaker_state breaker_result" where
  "apply_signal_work account_id iid kind detail occurred_at recorded_at trip_reason received_ts db =
     (if \<exists>i \<in> set (bt_incidents (jd_prod db)). ic_incident_id i = iid
      then (case breaker_row account_id db of
              None \<Rightarrow> (Inl (Raised BreakerTypeError), db)
            | Some s \<Rightarrow> (Inr s, db))
      else
        let db1 = insert_incident
                    \<lparr>ic_incident_id = iid, ic_account_id = account_id, ic_signal_kind = kind,
                     ic_detail = detail, ic_occurred_at = occurred_at, ic_recorded_at = recorded_at\<rparr> db
        in case breaker_row account_id db1 of
             None \<Rightarrow> (Inl (Raised (BreakerNotSeeded account_id)), db1)
           | Some current \<Rightarrow>
              (let db2 = trip_if_clear account_id (trip_reason db1) recorded_at current db1
               in case breaker_row account_id db2 of
                    None \<Rightarrow> (Inl (Raised BreakerTypeError), db2)
                  | Some result \<Rightarrow>
                     (case journal_append received_ts [] (incident_mutation account_id iid kind recorded_at result)
                             (\<lambda>p _. Inr p) (Some iid) db2 of
                        (Inl e, db') \<Rightarrow> (Inl e, db')
                      | (Inr _, db') \<Rightarrow> (Inr result, db'))))"

definition apply_signal ::
    "string \<Rightarrow> string \<Rightarrow> string \<Rightarrow> string \<Rightarrow> instant \<Rightarrow> instant
     \<Rightarrow> (breaker_db \<Rightarrow> (string \<times> string) option) \<Rightarrow> instant \<Rightarrow> breaker_db \<Rightarrow> breaker_state breaker_result" where
  "apply_signal account_id iid kind detail occurred_at recorded_at trip_reason received_ts db =
     mutate_batch_work
       (apply_signal_work account_id iid kind detail occurred_at recorded_at trip_reason received_ts) db"

definition cleared :: "string \<Rightarrow> string \<Rightarrow> instant \<Rightarrow> breaker_state \<Rightarrow> breaker_state" where
  "cleared command_id reason now s =
     s\<lparr>bs_state := CLEAR, bs_reason_code := None, bs_reason := Some reason,
       bs_revision := bs_revision s + 1, bs_reset_at := Some now,
       bs_reset_command_id := Some command_id\<rparr>"

definition reset_mutation :: "string \<Rightarrow> string \<Rightarrow> instant \<Rightarrow> breaker_state \<Rightarrow> domain_mutation" where
  "reset_mutation account_id command_id now s =
     \<lparr>dm_event_type = ''automation.reset'', dm_entity_type = ''automation_breaker'',
      dm_entity_id = account_id, dm_operation = Upsert, dm_account_id = Some account_id,
      dm_source = ''trader_service'', dm_source_timestamp = Aware now,
      dm_correlation_id = Some command_id, dm_payload = Some (breaker_to_payload s)\<rparr>"

definition store_reset_work ::
    "string \<Rightarrow> string \<Rightarrow> string \<Rightarrow> instant \<Rightarrow> instant \<Rightarrow> breaker_db \<Rightarrow> breaker_state breaker_result" where
  "store_reset_work account_id command_id reason now received_ts db =
     (case breaker_row account_id db of
        None \<Rightarrow> (Inl (Raised BreakerTypeError), db)
      | Some state \<Rightarrow>
         if bs_state state = CLEAR then (Inr state, db)
         else
           let db1 = set_breaker (update_where (\<lambda>s. bs_account_id s = account_id)
                                    (cleared command_id reason now)) db
           in case breaker_row account_id db1 of
                None \<Rightarrow> (Inl (Raised BreakerTypeError), db1)
              | Some updated \<Rightarrow>
                 (case journal_append received_ts [] (reset_mutation account_id command_id now updated)
                         (\<lambda>p _. Inr p) (Some (''breaker-reset:'' @ command_id)) db1 of
                    (Inl e, db') \<Rightarrow> (Inl e, db')
                  | (Inr _, db') \<Rightarrow> (Inr updated, db')))"

definition store_reset ::
    "string \<Rightarrow> string \<Rightarrow> string \<Rightarrow> instant \<Rightarrow> instant \<Rightarrow> breaker_db \<Rightarrow> breaker_state breaker_result" where
  "store_reset account_id command_id reason now received_ts db =
     mutate_batch_work (store_reset_work account_id command_id reason now received_ts) db"

section \<open>The policy\<close>

record breaker_signal =
  sg_kind :: string
  sg_occurred_at :: instant
  sg_detail :: string
  sg_key :: string

definition immediate_kinds :: "string list" where
  "immediate_kinds =
     [''DAILY_LOSS_BREACH'', ''PROTECTIVE_ORDER_FAILURE'', ''RECONCILIATION_DIVERGENCE'',
      ''LIQUIDATION_FAILED'', ''ACCOUNT_MISMATCH'', ''INSTRUMENT_HALT'', ''DRAWDOWN_BREACH'',
      ''MISSED_FLAT_DEADLINE'', ''DUPLICATE_SUBMISSION'', ''UNEXPLAINED_POSITION'']"

text \<open>Threshold, window and the window as \<open>str(timedelta)\<close> prints it.\<close>

definition rolling_kinds :: "(string \<times> int \<times> duration \<times> string) list" where
  "rolling_kinds =
     [(''QUOTE_FAILURE'', 3, minutes 5, ''0:05:00''),
      (''AMBIGUOUS_OUTCOME'', 3, minutes 5, ''0:05:00''),
      (''RUNTIME_EXCEPTION'', 5, minutes 10, ''0:10:00'')]"

definition known_kind :: "string \<Rightarrow> bool" where
  "known_kind kind \<longleftrightarrow> kind \<in> set immediate_kinds \<or> kind \<in> set (map fst rolling_kinds)
     \<or> kind = ''BROKER_DISCONNECTED'' \<or> kind = ''BROKER_RECONNECTED''"

record breaker_config =
  bc_account_id :: string
  bc_disconnect_grace :: duration
  bc_session_key :: "instant \<Rightarrow> string"
  bc_has_on_trip :: bool

definition default_disconnect_grace :: duration where
  "default_disconnect_grace = seconds 30"

definition rolling_reason :: "string \<Rightarrow> int \<Rightarrow> string \<Rightarrow> string" where
  "rolling_reason kind threshold window =
     string_of_int threshold @ '' '' @ lower kind @ '' signals within '' @ window"

definition trip_reason ::
    "breaker_config \<Rightarrow> breaker_signal \<Rightarrow> instant \<Rightarrow> breaker_db \<Rightarrow> (string \<times> string) option" where
  "trip_reason cfg sig now db =
     (if sg_kind sig \<in> set immediate_kinds
      then Some (sg_kind sig, if sg_detail sig \<noteq> [] then sg_detail sig
                              else lower (replace_char (CHR ''_'') (CHR '' '') (sg_kind sig)))
      else
        let rolled = (case map_of rolling_kinds (sg_kind sig) of
                        None \<Rightarrow> None
                      | Some (threshold, window, shown) \<Rightarrow>
                          if threshold \<le> count_since (bc_account_id cfg) db (sg_kind sig) (now - window)
                          then Some (sg_kind sig, rolling_reason (sg_kind sig) threshold shown) else None)
        in case rolled of
             Some r \<Rightarrow> Some r
           | None \<Rightarrow>
               if sg_kind sig = ''BROKER_DISCONNECTED''
               then (case disconnect_started (bc_account_id cfg) db of
                       None \<Rightarrow> None
                     | Some started \<Rightarrow>
                         if bc_disconnect_grace cfg \<le> now - started
                         then Some (''BROKER_DISCONNECTED'', ''broker disconnect exceeded grace period'')
                         else None)
               else None)"

text \<open>
  \<open>record\<close> returns the new state, the argument of the \<open>on_trip\<close> call if it makes one, and the
  state of the tables.
\<close>

definition breaker_record ::
    "(string \<Rightarrow> string) \<Rightarrow> (instant \<Rightarrow> string) \<Rightarrow> breaker_config \<Rightarrow> breaker_signal \<Rightarrow> instant \<Rightarrow> instant
     \<Rightarrow> breaker_db \<Rightarrow> (breaker_error journal_error + breaker_state \<times> breaker_state option) \<times> breaker_db" where
  "breaker_record sha render cfg sig now received_ts db =
     (if \<not> known_kind (sg_kind sig) then (Inl (Raised (UnknownBreakerSignal (sg_kind sig))), db)
      else case breaker_get (bc_account_id cfg) db of
        Inl e \<Rightarrow> (Inl e, db)
      | Inr previous \<Rightarrow>
         (case apply_signal (bc_account_id cfg)
                 (incident_id sha render (bc_account_id cfg) (sg_kind sig) (sg_occurred_at sig) (sg_key sig))
                 (sg_kind sig) (sg_detail sig) (sg_occurred_at sig) now (trip_reason cfg sig now)
                 received_ts db of
            (Inl e, db') \<Rightarrow> (Inl e, db')
          | (Inr new_state, db') \<Rightarrow>
              (Inr (new_state,
                    if bc_has_on_trip cfg \<and> bs_state previous = CLEAR \<and> bs_state new_state = TRIPPED
                    then Some new_state else None), db')))"

definition breaker_reset ::
    "breaker_config \<Rightarrow> string \<Rightarrow> string \<Rightarrow> string \<Rightarrow> bool \<Rightarrow> (string \<Rightarrow> bool) \<Rightarrow> instant \<Rightarrow> instant
     \<Rightarrow> breaker_db \<Rightarrow> breaker_state breaker_result" where
  "breaker_reset cfg command_id reason operator_authority reset_ready reconciliation_complete now
       received_ts db =
     (if command_id = [] \<or> strip reason = [] \<or> strip operator_authority = []
      then (Inl (Raised (BreakerResetRefused ''command, reason, and operator authority are required'')), db)
      else case breaker_get (bc_account_id cfg) db of
        Inl e \<Rightarrow> (Inl e, db)
      | Inr current \<Rightarrow>
         if bs_state current = CLEAR then (Inr current, db)
         else if bs_reason_code current = Some ''DAILY_LOSS_BREACH''
              \<and> (case bs_tripped_at current of
                   None \<Rightarrow> False | Some t \<Rightarrow> bc_session_key cfg t = bc_session_key cfg now)
         then (Inl (Raised (BreakerResetRefused ''daily-loss breaker may reset only in the next session'')), db)
         else if \<not> reset_ready
         then (Inl (Raised (BreakerResetRefused ''semantic readiness preconditions are not satisfied'')), db)
         else if \<not> reconciliation_complete command_id
         then (Inl (Raised (BreakerResetRefused ''reconciliation is incomplete'')), db)
         else store_reset (bc_account_id cfg) command_id (strip reason) now received_ts db)"

section \<open>The transactions keep the journal's contract\<close>

text \<open>Work that writes its own tables and ends in one append is a unit of work of the journal.\<close>

lemma prod_extends: "journal_extends db (db\<lparr>jd_prod := p\<rparr>)"
  by (simp add: journal_extends_def)

lemma open_ok_prod [simp]: "open_ok (db\<lparr>jd_prod := p\<rparr>) = open_ok db"
  by (simp add: open_ok_def)

lemma prod_then_append_ok:
  assumes "journal_inv db" and "open_ok db"
    and "journal_append t u m w eid (db\<lparr>jd_prod := p\<rparr>) = (Inr ev, db')"
  shows "journal_inv db' \<and> open_ok db' \<and> journal_extends db db'"
  using append_ok [OF _ _ assms(3)] assms(1,2) prod_extends journal_extends_trans by fastforce

lemma prod_then_append_next:
  assumes "journal_inv db" and "journal_append t u m w eid (db\<lparr>jd_prod := p\<rparr>) = (res, db')"
  shows "jd_next_cursor db \<le> jd_next_cursor db'"
  using append_next_cursor [OF _ assms(2)] assms(1) by simp

text \<open>Both writes of the breaker touch only the producer's tables.\<close>

definition prod_only :: "'p journal_db \<Rightarrow> 'p journal_db \<Rightarrow> bool" where
  "prod_only db db' \<longleftrightarrow> db' = db\<lparr>jd_prod := jd_prod db'\<rparr>"

lemma prod_only_refl [simp]: "prod_only db db"
  by (simp add: prod_only_def)

lemma prod_only_insert [simp]: "prod_only db (insert_incident inc db)"
  by (simp add: prod_only_def insert_incident_def)

lemma prod_only_trip [simp]: "prod_only db (trip_if_clear a reason rec current db)"
  by (auto simp: prod_only_def trip_if_clear_def set_breaker_def split: option.splits)

lemma prod_only_trans: "prod_only a b \<Longrightarrow> prod_only b c \<Longrightarrow> prod_only a c"
  unfolding prod_only_def by (metis journal_db.surjective journal_db.update_convs(8))

text \<open>
  What \<open>apply_signal_work\<close> does: nothing but a read on a duplicate; otherwise one incident, at
  most one trip and one append.
\<close>

definition signal_incident :: "string \<Rightarrow> string \<Rightarrow> string \<Rightarrow> string \<Rightarrow> instant \<Rightarrow> instant \<Rightarrow> incident" where
  "signal_incident a iid kind detail occ rec =
     \<lparr>ic_incident_id = iid, ic_account_id = a, ic_signal_kind = kind, ic_detail = detail,
      ic_occurred_at = occ, ic_recorded_at = rec\<rparr>"

lemma breaker_row_insert [simp]: "breaker_row a (insert_incident inc db) = breaker_row a db"
  by (simp add: breaker_row_def insert_incident_def)

lemma breaker_row_append:
  "journal_append t u m (\<lambda>p _. Inr p) eid db = (res, db') \<Longrightarrow> journal_inv db \<Longrightarrow> jd_prod db' = jd_prod db"
  by (erule journal_append_cases [rotated]) (auto)

lemma fetchone_trip:
  "fetchone (filter (\<lambda>s. bs_account_id s = a) rows) = Some s \<Longrightarrow> (\<And>x. bs_account_id (f x) = bs_account_id x) \<Longrightarrow>
   fetchone (filter (\<lambda>s. bs_account_id s = a) (update_where (\<lambda>s. bs_account_id s = a) f rows)) = Some (f s)"
  by (induction rows) (auto split: if_splits)

lemma breaker_row_update:
  assumes "breaker_row a db = Some s" and "\<And>x. bs_account_id (f x) = bs_account_id x"
  shows "breaker_row a (set_breaker (update_where (\<lambda>s. bs_account_id s = a) f) db) = Some (f s)"
  using fetchone_trip [of a _ s f] assms by (simp add: breaker_row_def set_breaker_def)

lemma breaker_row_trip:
  assumes "breaker_row a db = Some current"
  shows "breaker_row a (trip_if_clear a reason rec current db)
    = Some (case reason of Some (code, message) \<Rightarrow>
              if bs_state current = CLEAR then trip code message rec current else current
            | None \<Rightarrow> current)"
  using assms breaker_row_update [OF assms, of "trip c m rec" for c m]
  by (auto simp: trip_if_clear_def trip_def split: option.splits)

lemma apply_signal_work_cases:
  assumes "apply_signal_work a iid kind detail occ rec tr rts db = (res, db')"
  obtains (duplicate) s where "\<exists>i \<in> set (bt_incidents (jd_prod db)). ic_incident_id i = iid"
      and "breaker_row a db = Some s" and "res = Inr s" and "db' = db"
  | (raised) e where "breaker_row a db = None" and "res = Inl e" and "prod_only db db'"
  | (appended) current db1 db2 s ares where
      "\<forall>i \<in> set (bt_incidents (jd_prod db)). ic_incident_id i \<noteq> iid"
      and "breaker_row a db = Some current"
      and "db1 = insert_incident (signal_incident a iid kind detail occ rec) db"
      and "db2 = trip_if_clear a (tr db1) rec current db1" and "prod_only db db2"
      and "s = (case tr db1 of Some (code, message) \<Rightarrow>
              if bs_state current = CLEAR then trip code message rec current else current
            | None \<Rightarrow> current)"
      and "journal_append rts [] (incident_mutation a iid kind rec s) (\<lambda>p _. Inr p) (Some iid) db2 = (ares, db')"
      and "res = (case ares of Inl e \<Rightarrow> Inl e | Inr _ \<Rightarrow> Inr s)"
proof (cases "breaker_row a db")
  case None
  then have "\<exists>e. res = Inl e \<and> prod_only db db'"
    using assms by (auto simp: apply_signal_work_def Let_def split: if_splits)
  then show thesis using None raised by blast
next
  case (Some current)
  show thesis
  proof (cases "\<exists>i \<in> set (bt_incidents (jd_prod db)). ic_incident_id i = iid")
    case True
    then show thesis using assms Some by (intro duplicate) (auto simp: apply_signal_work_def)
  next
    case False
    define db1 where "db1 = insert_incident (signal_incident a iid kind detail occ rec) db"
    define db2 where "db2 = trip_if_clear a (tr db1) rec current db1"
    define s where "s = (case tr db1 of Some (code, message) \<Rightarrow>
              if bs_state current = CLEAR then trip code message rec current else current
            | None \<Rightarrow> current)"
    have row1: "breaker_row a db1 = Some current" using Some by (simp add: db1_def)
    have row2: "breaker_row a db2 = Some s" unfolding db2_def s_def using row1 by (rule breaker_row_trip)
    have only: "prod_only db db2" unfolding db1_def db2_def by (rule prod_only_trans [OF prod_only_insert prod_only_trip])
    obtain ares mid where ap: "journal_append rts [] (incident_mutation a iid kind rec s) (\<lambda>p _. Inr p)
        (Some iid) db2 = (ares :: breaker_error journal_error + domain_event, mid)" by fastforce
    have "apply_signal_work a iid kind detail occ rec tr rts db = (case ares of Inl e \<Rightarrow> Inl e | Inr _ \<Rightarrow> Inr s, mid)"
      using False row1 row2 ap
      by (simp add: apply_signal_work_def Let_def flip: signal_incident_def db1_def db2_def split: sum.splits)
    then have out: "res = (case ares of Inl e \<Rightarrow> Inl e | Inr _ \<Rightarrow> Inr s)" "mid = db'"
      using assms by simp_all
    show thesis
      by (rule appended [OF _ Some db1_def db2_def only s_def ap [unfolded out(2)] out(1)]) (use False in blast)
  qed
qed

lemma prod_only_frame:
  "prod_only db db' \<Longrightarrow> jd_next_cursor db' = jd_next_cursor db \<and> jd_rows db' = jd_rows db
     \<and> jd_entities db' = jd_entities db \<and> journal_inv db' = journal_inv db \<and> open_ok db' = open_ok db
     \<and> journal_extends db db'"
  by (erule ssubst [OF prod_only_def [THEN iffD1]]) (simp add: prod_extends)

text \<open>A unit of work that writes tables and then appends once meets the journal's contract.\<close>

lemma apply_signal_work_next:
  assumes "journal_inv db" and "apply_signal_work a iid kind detail occ rec tr rts db = (res, db')"
  shows "jd_next_cursor db \<le> jd_next_cursor db'"
  using assms(2)
proof (cases rule: apply_signal_work_cases)
  case (raised e)
  then show ?thesis using prod_only_frame by fastforce
next
  case (appended current db1 db2 s ares)
  then show ?thesis
    using append_next_cursor [OF _ appended(7)] prod_only_frame [OF appended(5)] assms(1) by simp
qed simp

lemma apply_signal_work_ok:
  assumes "journal_inv db" and "open_ok db"
    and "apply_signal_work a iid kind detail occ rec tr rts db = (Inr r, db')"
  shows "journal_inv db' \<and> open_ok db' \<and> journal_extends db db'"
  using assms(3)
proof (cases rule: apply_signal_work_cases)
  case (duplicate s)
  then show ?thesis using assms by simp
next
  case (appended current db1 db2 s ares)
  then obtain ev where ev: "ares = Inr ev" by (cases ares) auto
  note frame = prod_only_frame [OF appended(5)]
  have "journal_inv db' \<and> open_ok db' \<and> journal_extends db2 db'"
    using append_ok [OF _ _ appended(7) [unfolded ev]] frame assms(1,2) by simp
  then show ?thesis using frame journal_extends_trans by blast
qed simp

interpretation breaker_tx: journal_work "apply_signal_work a iid kind detail occ rec tr rts"
    for a iid kind detail occ rec tr rts
  by unfold_locales (erule (1) apply_signal_work_next, erule (2) apply_signal_work_ok)

lemma store_reset_work_cases:
  assumes "store_reset_work a cmd reason now rts db = (res, db')"
  obtains (unseeded) "breaker_row a db = None" and "res = Inl (Raised BreakerTypeError)" and "db' = db"
  | (clear) s where "breaker_row a db = Some s" and "bs_state s = CLEAR" and "res = Inr s" and "db' = db"
  | (appended) s db1 ares where "breaker_row a db = Some s" and "bs_state s = TRIPPED"
      and "db1 = set_breaker (update_where (\<lambda>s. bs_account_id s = a) (cleared cmd reason now)) db"
      and "prod_only db db1"
      and "journal_append rts [] (reset_mutation a cmd now (cleared cmd reason now s)) (\<lambda>p _. Inr p)
             (Some (''breaker-reset:'' @ cmd)) db1 = (ares, db')"
      and "res = (case ares of Inl e \<Rightarrow> Inl e | Inr _ \<Rightarrow> Inr (cleared cmd reason now s))"
proof (cases "breaker_row a db")
  case None
  then have "res = Inl (Raised BreakerTypeError)" "db' = db" using assms by (simp_all add: store_reset_work_def)
  with None show thesis by (rule unseeded)
next
  case (Some s)
  show thesis
  proof (cases "bs_state s")
    case CLEAR
    then have "res = Inr s" "db' = db" using assms Some by (simp_all add: store_reset_work_def)
    with Some CLEAR show thesis by (rule clear)
  next
    case TRIPPED
    define db1 where "db1 = set_breaker (update_where (\<lambda>s. bs_account_id s = a) (cleared cmd reason now)) db"
    have row: "breaker_row a db1 = Some (cleared cmd reason now s)"
      unfolding db1_def using Some by (rule breaker_row_update) (simp add: cleared_def)
    obtain ares mid where ap: "journal_append rts [] (reset_mutation a cmd now (cleared cmd reason now s))
        (\<lambda>p _. Inr p) (Some (''breaker-reset:'' @ cmd)) db1 = (ares :: breaker_error journal_error + domain_event, mid)"
      by fastforce
    have "store_reset_work a cmd reason now rts db
        = (case ares of Inl e \<Rightarrow> Inl e | Inr _ \<Rightarrow> Inr (cleared cmd reason now s), mid)"
      using Some TRIPPED row ap by (simp add: store_reset_work_def Let_def flip: db1_def split: sum.splits)
    then have out: "res = (case ares of Inl e \<Rightarrow> Inl e | Inr _ \<Rightarrow> Inr (cleared cmd reason now s))" "mid = db'"
      using assms by simp_all
    have only: "prod_only db db1" by (simp add: db1_def set_breaker_def prod_only_def)
    show thesis by (rule appended [OF Some TRIPPED db1_def only ap [unfolded out(2)] out(1)])
  qed
qed

lemma store_reset_work_next:
  assumes "journal_inv db" and "store_reset_work a cmd reason now rts db = (res, db')"
  shows "jd_next_cursor db \<le> jd_next_cursor db'"
  using assms(2)
proof (cases rule: store_reset_work_cases)
  case (appended s db1 ares)
  then show ?thesis
    using append_next_cursor [OF _ appended(5)] prod_only_frame [OF appended(4)] assms(1) by simp
qed simp_all

lemma store_reset_work_ok:
  assumes "journal_inv db" and "open_ok db" and "store_reset_work a cmd reason now rts db = (Inr r, db')"
  shows "journal_inv db' \<and> open_ok db' \<and> journal_extends db db'"
  using assms(3)
proof (cases rule: store_reset_work_cases)
  case (appended s db1 ares)
  then obtain ev where ev: "ares = Inr ev" by (cases ares) auto
  note frame = prod_only_frame [OF appended(4)]
  have "journal_inv db' \<and> open_ok db' \<and> journal_extends db1 db'"
    using append_ok [OF _ _ appended(5) [unfolded ev]] frame assms(1,2) by simp
  then show ?thesis using frame journal_extends_trans by blast
qed (use assms in simp_all)

interpretation reset_tx: journal_work "store_reset_work a cmd reason now rts" for a cmd reason now rts
  by unfold_locales (erule (1) store_reset_work_next, erule (2) store_reset_work_ok)

section \<open>What a signal and a reset do to the row\<close>

lemma breaker_row_cong: "jd_prod db' = jd_prod db \<Longrightarrow> breaker_row a db' = breaker_row a db"
  by (simp add: breaker_row_def)

lemma signal_work_committed:
  assumes "mutate_batch_work work db = (Inr r, db')"
  obtains mid where "work (db\<lparr>jd_open_events := []\<rparr>) = (Inr r, mid)" and "jd_prod db' = jd_prod mid"
    and "jd_rows db' = jd_rows mid"
  using assms by (rule batch_work_prod) auto

text \<open>The row after a signal that is not a duplicate.\<close>

definition signalled_row :: "(string \<times> string) option \<Rightarrow> instant \<Rightarrow> breaker_state \<Rightarrow> breaker_state" where
  "signalled_row reason rec s =
     (case reason of
        Some (code, message) \<Rightarrow> if bs_state s = CLEAR then trip code message rec s else s
      | None \<Rightarrow> s)"

lemma other_rows_kept:
  "b \<noteq> a \<Longrightarrow> (\<And>x. bs_account_id (f x) = bs_account_id x) \<Longrightarrow>
   filter (\<lambda>s. bs_account_id s = b) (update_where (\<lambda>s. bs_account_id s = a) f rows)
     = filter (\<lambda>s. bs_account_id s = b) rows"
  by (induction rows) auto

lemma other_row_trip:
  "b \<noteq> a \<Longrightarrow> breaker_row b (trip_if_clear a reason rec current db) = breaker_row b db"
  by (simp add: trip_if_clear_def breaker_row_def set_breaker_def other_rows_kept trip_def
      split: option.splits prod.splits)

lemma apply_signal_ok:
  assumes inv: "journal_inv db" and run: "apply_signal a iid kind detail occ rec tr rts db = (Inr s, db')"
  shows "\<exists>current. breaker_row a db = Some current \<and> breaker_row a db' = Some s
    \<and> (if \<exists>i \<in> set (bt_incidents (jd_prod db)). ic_incident_id i = iid then s = current
       else s = signalled_row (tr (insert_incident (signal_incident a iid kind detail occ rec)
                                     (db\<lparr>jd_open_events := []\<rparr>))) rec current)"
proof -
  let ?db = "db\<lparr>jd_open_events := []\<rparr>"
  obtain mid where work: "apply_signal_work a iid kind detail occ rec tr rts ?db = (Inr s, mid)"
    and prod: "jd_prod db' = jd_prod mid"
    using run unfolding apply_signal_def by (rule signal_work_committed)
  have row: "breaker_row a ?db = breaker_row a db" by (rule breaker_row_cong) simp
  from work show ?thesis
  proof (cases rule: apply_signal_work_cases)
    case (duplicate t)
    then show ?thesis using breaker_row_cong [OF prod] row by auto
  next
    case (raised e)
    then show ?thesis by simp
  next
    case (appended current db1 db2 t ares)
    have t: "t = s" using appended(8) by (auto split: sum.splits)
    have "journal_inv db2" using inv prod_only_frame [OF appended(5)] by simp
    then have "jd_prod mid = jd_prod db2" using appended(7) by (intro breaker_row_append)
    then have "breaker_row a db' = breaker_row a db2" using prod by (intro breaker_row_cong) simp
    moreover have "breaker_row a db1 = Some current" using appended(2,3) by simp
    ultimately have "breaker_row a db' = Some s"
      using breaker_row_trip [of a db1 current "tr db1" rec] appended(4,6) t by simp
    then show ?thesis using appended(1-3,6) t row by (simp add: signalled_row_def)
  qed
qed

lemma apply_signal_fail:
  assumes "apply_signal a iid kind detail occ rec tr rts db = (Inl e, db')"
  shows "jd_prod db' = jd_prod db \<and> jd_rows db' = jd_rows db"
  using breaker_tx.batch_work_rollback [OF assms [unfolded apply_signal_def]]
  by (metis journal_db.select_convs(1,8) journal_db.surjective journal_db.update_convs(2))

text \<open>A signal whose incident id is new to the tables and to the journal always commits.\<close>

lemma apply_signal_commits:
  assumes inv: "journal_inv db" and row: "breaker_row a db = Some current"
    and new: "\<forall>i \<in> set (bt_incidents (jd_prod db)). ic_incident_id i \<noteq> iid" "select_journal_row db iid = None"
  shows "\<exists>s db'. apply_signal a iid kind detail occ rec tr rts db = (Inr s, db')
    \<and> bt_incidents (jd_prod db') = bt_incidents (jd_prod db) @ [signal_incident a iid kind detail occ rec]"
proof -
  let ?db = "db\<lparr>jd_open_events := []\<rparr>"
  obtain res mid where work: "apply_signal_work a iid kind detail occ rec tr rts ?db = (res, mid)" by fastforce
  have row': "breaker_row a ?db = Some current" using row by (simp add: breaker_row_def)
  from work show ?thesis
  proof (cases rule: apply_signal_work_cases)
    case (duplicate s)
    then show ?thesis using new(1) by simp
  next
    case (raised e)
    then show ?thesis using row' by simp
  next
    case (appended cur db1 db2 s ares)
    note frame = prod_only_frame [OF appended(5)]
    have "journal_inv db2" and "select_journal_row db2 iid = None"
      using inv new(2) frame by (simp_all add: select_journal_row_def)
    from trans [OF appended(7) [symmetric] append_fresh [OF this]]
    have out: "ares = Inr (row_to_event (fresh_row rts iid (incident_mutation a iid kind rec s) db2))"
      "mid = Domain_Journal.appended rts iid (incident_mutation a iid kind rec s) (jd_prod db2) db2"
      by simp_all
    then have "jd_prod mid = jd_prod db2" by simp
    moreover have "bt_incidents (jd_prod db2) = bt_incidents (jd_prod db) @ [signal_incident a iid kind detail occ rec]"
      unfolding appended(3,4) by (simp add: trip_if_clear_def insert_incident_def set_breaker_def split: option.splits prod.splits)
    ultimately have inc: "bt_incidents (jd_prod mid) = bt_incidents (jd_prod db) @ [signal_incident a iid kind detail occ rec]"
      by simp
    have "res = Inr s" using appended(8) out(1) by simp
    then have "apply_signal a iid kind detail occ rec tr rts db
        = (Inr s, if jd_open_events mid = [] then mid else signal_commit (top_cursor (jd_open_events mid)) mid)"
      using work by (simp add: apply_signal_def mutate_batch_work_def)
    then show ?thesis using inc by simp
  qed
qed

section \<open>Properties of the breaker\<close>

definition signal_id ::
    "(string \<Rightarrow> string) \<Rightarrow> (instant \<Rightarrow> string) \<Rightarrow> breaker_config \<Rightarrow> breaker_signal \<Rightarrow> string" where
  "signal_id sha render cfg sig =
     incident_id sha render (bc_account_id cfg) (sg_kind sig) (sg_occurred_at sig) (sg_key sig)"

lemma breaker_record_cases:
  assumes row: "breaker_row (bc_account_id cfg) db = Some s"
    and run: "breaker_record sha render cfg sig now rts db = (res, db')"
  obtains (unknown) "res = Inl (Raised (UnknownBreakerSignal (sg_kind sig)))" and "db' = db"
  | (failed) e where "apply_signal (bc_account_id cfg) (signal_id sha render cfg sig) (sg_kind sig)
        (sg_detail sig) (sg_occurred_at sig) now (trip_reason cfg sig now) rts db = (Inl e, db')" and "res = Inl e"
  | (recorded) t where "apply_signal (bc_account_id cfg) (signal_id sha render cfg sig) (sg_kind sig)
        (sg_detail sig) (sg_occurred_at sig) now (trip_reason cfg sig now) rts db = (Inr t, db')"
      and "res = Inr (t, if bc_has_on_trip cfg \<and> bs_state s = CLEAR \<and> bs_state t = TRIPPED then Some t else None)"
proof (cases "known_kind (sg_kind sig)")
  case False
  then have "res = Inl (Raised (UnknownBreakerSignal (sg_kind sig)))" "db' = db"
    using run by (simp_all add: breaker_record_def)
  then show thesis by (rule unknown)
next
  case True
  obtain r mid where ap: "apply_signal (bc_account_id cfg) (signal_id sha render cfg sig) (sg_kind sig)
      (sg_detail sig) (sg_occurred_at sig) now (trip_reason cfg sig now) rts db = (r, mid)" by fastforce
  have out: "(res, db') = (case r of Inl e \<Rightarrow> Inl e | Inr t \<Rightarrow> Inr (t, if bc_has_on_trip cfg \<and> bs_state s = CLEAR
        \<and> bs_state t = TRIPPED then Some t else None), mid)"
    using run True row ap
    by (cases r) (auto simp: breaker_record_def breaker_get_def signal_id_def)
  show thesis
  proof (cases r)
    case (Inl e)
    then show thesis using ap out failed by simp
  next
    case (Inr t)
    then show thesis using ap out recorded by simp
  qed
qed

lemma breaker_record_inv:
  assumes "journal_inv db" and "breaker_row (bc_account_id cfg) db = Some s"
    and "breaker_record sha render cfg sig now rts db = (res, db')"
  shows "journal_inv db'"
  using assms(2,3)
proof (cases rule: breaker_record_cases)
  case (failed e)
  then show ?thesis using assms(1) breaker_tx.batch_work_inv unfolding apply_signal_def by blast
next
  case (recorded t)
  then show ?thesis using assms(1) breaker_tx.batch_work_inv unfolding apply_signal_def by blast
qed (use assms in simp)

text \<open>
  C30. A tripped breaker stays tripped: whatever signal is recorded next, at whatever time, the
  account's row is left exactly as it is (state, reason, time of the trip, revision), the result
  reports that row and the trip hook is not called again.
\<close>

theorem breaker_latches:
  assumes inv: "journal_inv db" and row: "breaker_row (bc_account_id cfg) db = Some s"
    and tripped: "bs_state s = TRIPPED"
    and run: "breaker_record sha render cfg sig now rts db = (res, db')"
  shows "journal_inv db' \<and> breaker_row (bc_account_id cfg) db' = Some s
    \<and> (case res of Inl _ \<Rightarrow> True | Inr (t, hook) \<Rightarrow> t = s \<and> hook = None)"
proof -
  have "breaker_row (bc_account_id cfg) db' = Some s
      \<and> (case res of Inl _ \<Rightarrow> True | Inr (t, hook) \<Rightarrow> t = s \<and> hook = None)"
    using row run
  proof (cases rule: breaker_record_cases)
    case unknown
    then show ?thesis using row by simp
  next
    case (failed e)
    have "breaker_row (bc_account_id cfg) db' = breaker_row (bc_account_id cfg) db"
      using apply_signal_fail [OF failed(1)] by (intro breaker_row_cong) simp
    then show ?thesis using row failed(2) by simp
  next
    case (recorded t)
    have "signalled_row r now s = s" for r
      using tripped by (auto simp: signalled_row_def split: option.splits)
    then have "t = s" "breaker_row (bc_account_id cfg) db' = Some t"
      using apply_signal_ok [OF inv recorded(1)] row by (auto split: if_splits)
    then show ?thesis using recorded(2) tripped by simp
  qed
  then show ?thesis using breaker_record_inv [OF inv row run] by blast
qed

lemma trip_reason_cong:
  assumes "bt_incidents (jd_prod db') = bt_incidents (jd_prod db)"
  shows "trip_reason cfg sig now db' = trip_reason cfg sig now db"
proof -
  have "count_since a db' k t = count_since a db k t" for a k t using assms by (simp add: count_since_def)
  moreover have "disconnect_started a db' = disconnect_started a db" for a
    using assms by (simp add: disconnect_started_def last_reconnect_def)
  ultimately show ?thesis unfolding trip_reason_def by presburger
qed

lemma record_fresh:
  assumes inv: "journal_inv db" and row: "breaker_row (bc_account_id cfg) db = Some s"
    and known: "known_kind (sg_kind sig)"
    and new: "\<forall>i \<in> set (bt_incidents (jd_prod db)). ic_incident_id i \<noteq> signal_id sha render cfg sig"
      "select_journal_row db (signal_id sha render cfg sig) = None"
  shows "\<exists>t hook db'. breaker_record sha render cfg sig now rts db = (Inr (t, hook), db')
    \<and> breaker_row (bc_account_id cfg) db' = Some t
    \<and> t = signalled_row (trip_reason cfg sig now db') now s
    \<and> hook = (if bc_has_on_trip cfg \<and> bs_state s = CLEAR \<and> bs_state t = TRIPPED then Some t else None)
    \<and> bt_incidents (jd_prod db') = bt_incidents (jd_prod db)
        @ [signal_incident (bc_account_id cfg) (signal_id sha render cfg sig) (sg_kind sig) (sg_detail sig)
             (sg_occurred_at sig) now]"
proof -
  let ?a = "bc_account_id cfg" and ?iid = "signal_id sha render cfg sig"
  let ?inc = "signal_incident ?a ?iid (sg_kind sig) (sg_detail sig) (sg_occurred_at sig) now"
  obtain t db' where run: "apply_signal ?a ?iid (sg_kind sig) (sg_detail sig) (sg_occurred_at sig) now
      (trip_reason cfg sig now) rts db = (Inr t, db')"
    and incs: "bt_incidents (jd_prod db') = bt_incidents (jd_prod db) @ [?inc]"
    using apply_signal_commits [OF inv row new] by blast
  have same: "trip_reason cfg sig now db' = trip_reason cfg sig now (insert_incident ?inc (db\<lparr>jd_open_events := []\<rparr>))"
    using incs by (intro trip_reason_cong) (simp add: insert_incident_def)
  have out: "breaker_row ?a db' = Some t" "t = signalled_row (trip_reason cfg sig now db') now s"
    using apply_signal_ok [OF inv run] row new(1) same by auto
  have "breaker_record sha render cfg sig now rts db = (Inr (t, if bc_has_on_trip cfg \<and> bs_state s = CLEAR
      \<and> bs_state t = TRIPPED then Some t else None), db')"
    using run row known by (simp add: breaker_record_def breaker_get_def signal_id_def)
  then show ?thesis using out incs by blast
qed

text \<open>
  A capital-safety signal trips a clear breaker at once: the first report of an immediate
  kind commits, latches the row as TRIPPED with that kind as its reason code and the current
  time, raises the revision by one and calls the trip hook exactly once.
\<close>

lemma breaker_immediate_trips:
  assumes "journal_inv db" and "breaker_row (bc_account_id cfg) db = Some s" and "bs_state s = CLEAR"
    and "sg_kind sig \<in> set immediate_kinds"
    and "\<forall>i \<in> set (bt_incidents (jd_prod db)). ic_incident_id i \<noteq> signal_id sha render cfg sig"
    and "select_journal_row db (signal_id sha render cfg sig) = None"
  shows "\<exists>t hook db'. breaker_record sha render cfg sig now rts db = (Inr (t, hook), db')
    \<and> breaker_row (bc_account_id cfg) db' = Some t \<and> bs_state t = TRIPPED
    \<and> bs_reason_code t = Some (sg_kind sig) \<and> bs_tripped_at t = Some now
    \<and> bs_revision t = bs_revision s + 1 \<and> hook = (if bc_has_on_trip cfg then Some t else None)"
proof -
  have "known_kind (sg_kind sig)" using assms(4) by (simp add: known_kind_def)
  from record_fresh [OF assms(1,2) this assms(5,6), of now rts]
  show ?thesis using assms(3,4) by (auto simp: trip_reason_def signalled_row_def trip_def)
qed

text \<open>
  A rolling signal trips a clear breaker exactly when its count in the window reaches the
  threshold: after a first-time report of such a kind the row is TRIPPED if and only if at least
  \<open>threshold\<close> incidents of the kind, the new one included, occurred within the window before now.
\<close>

lemma breaker_rolling_exact:
  assumes inv: "journal_inv db" and row: "breaker_row (bc_account_id cfg) db = Some s" and clear: "bs_state s = CLEAR"
    and kind: "map_of rolling_kinds (sg_kind sig) = Some (threshold, window, shown)"
    and new: "\<forall>i \<in> set (bt_incidents (jd_prod db)). ic_incident_id i \<noteq> signal_id sha render cfg sig"
      "select_journal_row db (signal_id sha render cfg sig) = None"
  shows "\<exists>t hook db'. breaker_record sha render cfg sig now rts db = (Inr (t, hook), db')
    \<and> breaker_row (bc_account_id cfg) db' = Some t
    \<and> (bs_state t = TRIPPED \<longleftrightarrow>
         threshold \<le> count_since (bc_account_id cfg) db (sg_kind sig) (now - window)
           + (if now - window \<le> sg_occurred_at sig then 1 else 0))"
proof -
  have mem: "sg_kind sig \<in> set (map fst rolling_kinds)"
    using map_of_SomeD [OF kind] by (force simp: image_iff)
  then have other: "sg_kind sig \<notin> set immediate_kinds" "sg_kind sig \<noteq> ''BROKER_DISCONNECTED''"
    by (auto simp: rolling_kinds_def immediate_kinds_def)
  have "known_kind (sg_kind sig)" using mem by (simp add: known_kind_def)
  then obtain t hook db' where run: "breaker_record sha render cfg sig now rts db = (Inr (t, hook), db')"
    and row': "breaker_row (bc_account_id cfg) db' = Some t"
    and t: "t = signalled_row (trip_reason cfg sig now db') now s"
    and incs: "bt_incidents (jd_prod db') = bt_incidents (jd_prod db)
        @ [signal_incident (bc_account_id cfg) (signal_id sha render cfg sig) (sg_kind sig) (sg_detail sig)
             (sg_occurred_at sig) now]"
    using record_fresh [OF inv row _ new, of now rts] by blast
  have "count_since (bc_account_id cfg) db' (sg_kind sig) (now - window)
      = count_since (bc_account_id cfg) db (sg_kind sig) (now - window)
           + (if now - window \<le> sg_occurred_at sig then 1 else 0)"
    by (simp add: count_since_def incs signal_incident_def)
  moreover have "bs_state t = TRIPPED \<longleftrightarrow> threshold \<le> count_since (bc_account_id cfg) db' (sg_kind sig) (now - window)"
    using t clear kind other by (auto simp: trip_reason_def signalled_row_def trip_def)
  ultimately show ?thesis using run row' by auto
qed

lemma apply_signal_incident:
  assumes inv: "journal_inv db" and run: "apply_signal a iid kind detail occ rec tr rts db = (Inr s, db')"
  shows "\<exists>i \<in> set (bt_incidents (jd_prod db')). ic_incident_id i = iid"
proof -
  let ?db = "db\<lparr>jd_open_events := []\<rparr>"
  obtain mid where work: "apply_signal_work a iid kind detail occ rec tr rts ?db = (Inr s, mid)"
    and prod: "jd_prod db' = jd_prod mid"
    using run unfolding apply_signal_def by (rule signal_work_committed)
  from work show ?thesis
  proof (cases rule: apply_signal_work_cases)
    case (duplicate t)
    then show ?thesis using prod by simp
  next
    case (appended current db1 db2 t ares)
    have "journal_inv db2" using inv prod_only_frame [OF appended(5)] by simp
    then have "jd_prod mid = jd_prod db2" using appended(7) by (intro breaker_row_append)
    moreover have "signal_incident a iid kind detail occ rec \<in> set (bt_incidents (jd_prod db2))"
      unfolding appended(3,4)
      by (simp add: trip_if_clear_def insert_incident_def set_breaker_def split: option.splits prod.splits)
    ultimately show ?thesis using prod by (force simp: signal_incident_def)
  qed simp
qed

lemma apply_signal_duplicate:
  assumes "\<exists>i \<in> set (bt_incidents (jd_prod db)). ic_incident_id i = iid" and "breaker_row a db = Some s"
  shows "apply_signal a iid kind detail occ rec tr rts db = (Inr s, db\<lparr>jd_open_events := []\<rparr>)"
proof -
  have "breaker_row a (db\<lparr>jd_open_events := []\<rparr>) = Some s" using assms(2) by (simp add: breaker_row_def)
  then show ?thesis using assms(1) by (simp add: apply_signal_def mutate_batch_work_def apply_signal_work_def)
qed

text \<open>
  Redelivery is harmless: recording the same signal again, at any later time, returns the
  current row, calls no hook and changes neither the breaker's tables nor the journal.
\<close>

lemma breaker_redelivery:
  assumes inv: "journal_inv db" and run: "breaker_record sha render cfg sig now rts db = (Inr (t, hook), db1)"
  shows "\<exists>db2. breaker_record sha render cfg sig now' rts' db1 = (Inr (t, None), db2)
    \<and> jd_prod db2 = jd_prod db1 \<and> jd_rows db2 = jd_rows db1 \<and> jd_next_cursor db2 = jd_next_cursor db1"
proof -
  have known: "known_kind (sg_kind sig)" using run by (simp add: breaker_record_def split: if_splits)
  obtain s where row: "breaker_row (bc_account_id cfg) db = Some s"
    using run known by (auto simp: breaker_record_def breaker_get_def split: option.splits)
  from row run have ap: "apply_signal (bc_account_id cfg) (signal_id sha render cfg sig) (sg_kind sig)
      (sg_detail sig) (sg_occurred_at sig) now (trip_reason cfg sig now) rts db = (Inr t, db1)"
    by (cases rule: breaker_record_cases) simp_all
  have row1: "breaker_row (bc_account_id cfg) db1 = Some t" using apply_signal_ok [OF inv ap] by blast
  have "breaker_record sha render cfg sig now' rts' db1 = (Inr (t, None), db1\<lparr>jd_open_events := []\<rparr>)"
    using known row1 apply_signal_duplicate [OF apply_signal_incident [OF inv ap] row1]
    by (simp add: breaker_record_def breaker_get_def flip: signal_id_def)
  then show ?thesis by simp
qed

lemma store_reset_ok:
  assumes inv: "journal_inv db" and row: "breaker_row a db = Some s" and "bs_state s = TRIPPED"
    and run: "store_reset a cmd reason now rts db = (Inr t, db')"
  shows "t = cleared cmd reason now s \<and> breaker_row a db' = Some t"
proof -
  let ?db = "db\<lparr>jd_open_events := []\<rparr>"
  obtain mid where work: "store_reset_work a cmd reason now rts ?db = (Inr t, mid)"
    and prod: "jd_prod db' = jd_prod mid"
    using run unfolding store_reset_def by (rule signal_work_committed)
  have row': "breaker_row a ?db = Some s" using row by (simp add: breaker_row_def)
  from work show ?thesis
  proof (cases rule: store_reset_work_cases)
    case (appended s' db1 ares)
    have s': "s' = s" using appended(1) row' by simp
    have t: "t = cleared cmd reason now s" using appended(6) s' by (auto split: sum.splits)
    have "journal_inv db1" using inv prod_only_frame [OF appended(4)] by simp
    then have "jd_prod mid = jd_prod db1" using appended(5) by (intro breaker_row_append)
    then have "breaker_row a db' = breaker_row a db1" using prod by (intro breaker_row_cong) simp
    also have "\<dots> = Some (cleared cmd reason now s)"
      unfolding appended(3) using row' by (rule breaker_row_update) (simp add: cleared_def)
    finally show ?thesis using t by simp
  qed (use row' assms(3) in simp_all)
qed

lemma store_reset_fail:
  assumes "store_reset a cmd reason now rts db = (Inl e, db')"
  shows "jd_prod db' = jd_prod db"
  using reset_tx.batch_work_rollback [OF assms [unfolded store_reset_def]]
  by (metis journal_db.select_convs(8) journal_db.surjective journal_db.update_convs(2))

text \<open>The guards of a reset, in one condition.\<close>

definition reset_allowed ::
    "breaker_config \<Rightarrow> string \<Rightarrow> string \<Rightarrow> string \<Rightarrow> bool \<Rightarrow> (string \<Rightarrow> bool) \<Rightarrow> instant \<Rightarrow> breaker_state \<Rightarrow> bool" where
  "reset_allowed cfg cmd reason authority ready reconciled now s \<longleftrightarrow>
     cmd \<noteq> [] \<and> strip reason \<noteq> [] \<and> strip authority \<noteq> [] \<and> ready \<and> reconciled cmd
     \<and> \<not> (bs_reason_code s = Some ''DAILY_LOSS_BREACH''
          \<and> map_option (bc_session_key cfg) (bs_tripped_at s) = Some (bc_session_key cfg now))"

text \<open>
  A tripped breaker clears only through an authorised reset: \<open>reset\<close> succeeds only with a
  command id, a reason, an operator, readiness and complete reconciliation, and never for a
  daily loss in the session it tripped in; it then leaves a CLEAR row that names the command.
  A refused or failed reset leaves the row as it was.
\<close>

lemma breaker_reset_guarded:
  assumes inv: "journal_inv db" and row: "breaker_row (bc_account_id cfg) db = Some s"
    and tripped: "bs_state s = TRIPPED"
    and run: "breaker_reset cfg cmd reason authority ready reconciled now rts db = (res, db')"
  shows "(case res of
       Inl _ \<Rightarrow> breaker_row (bc_account_id cfg) db' = Some s
     | Inr t \<Rightarrow> reset_allowed cfg cmd reason authority ready reconciled now s
         \<and> breaker_row (bc_account_id cfg) db' = Some t \<and> bs_state t = CLEAR
         \<and> bs_revision t = bs_revision s + 1 \<and> bs_reset_command_id t = Some cmd) \<and> journal_inv db'"
proof (cases "reset_allowed cfg cmd reason authority ready reconciled now s")
  case False
  then have "(\<exists>e. res = Inl e) \<and> db' = db"
    using run row tripped
    by (auto simp: reset_allowed_def breaker_reset_def breaker_get_def split: if_splits option.splits)
  then show ?thesis using row inv by auto
next
  case True
  then have store: "store_reset (bc_account_id cfg) cmd (strip reason) now rts db = (res, db')"
    using run row tripped
    by (auto simp: reset_allowed_def breaker_reset_def breaker_get_def split: option.splits)
  then have inv': "journal_inv db'" using inv reset_tx.batch_work_inv unfolding store_reset_def by blast
  show ?thesis
  proof (cases res)
    case (Inl e)
    then have "jd_prod db' = jd_prod db" using store store_reset_fail by blast
    then show ?thesis using Inl row inv' by (simp add: breaker_row_def)
  next
    case (Inr t)
    then show ?thesis
      using store_reset_ok [OF inv row tripped store [unfolded Inr]] True inv' by (simp add: cleared_def)
  qed
qed

section \<open>Witnesses\<close>

definition demo_breaker_config :: breaker_config where
  "demo_breaker_config =
     \<lparr>bc_account_id = ''DU1'', bc_disconnect_grace = seconds 30,
      bc_session_key = (\<lambda>t. string_of_int (t div days 1)), bc_has_on_trip = True\<rparr>"

definition demo_signal :: "string \<Rightarrow> instant \<Rightarrow> string \<Rightarrow> breaker_signal" where
  "demo_signal kind occurred_at key =
     \<lparr>sg_kind = kind, sg_occurred_at = occurred_at, sg_detail = [], sg_key = key\<rparr>"

definition demo_breaker :: breaker_db where
  "demo_breaker = snd (breaker_seed ''DU1'' (empty_journal \<lparr>bt_breaker = [], bt_incidents = []\<rparr>))"

definition demo_breaker_row :: breaker_state where
  "demo_breaker_row =
     \<lparr>bs_account_id = ''DU1'', bs_state = CLEAR, bs_reason_code = None, bs_reason = None,
      bs_revision = 1, bs_tripped_at = None, bs_reset_at = None, bs_reset_command_id = None\<rparr>"

lemma demo_breaker_inv: "journal_inv demo_breaker"
  by (simp add: demo_breaker_def breaker_seed_def set_breaker_def Let_def)

lemma demo_breaker_seeded: "breaker_row (bc_account_id demo_breaker_config) demo_breaker = Some demo_breaker_row"
  by code_simp

definition demo_loss :: breaker_signal where
  "demo_loss = demo_signal ''DAILY_LOSS_BREACH'' 100 ''k1''"

text \<open>The identity stands for the digest, a numeral for the rendering of a time.\<close>

definition demo_record ::
    "breaker_signal \<Rightarrow> instant \<Rightarrow> breaker_db
     \<Rightarrow> (breaker_error journal_error + breaker_state \<times> breaker_state option) \<times> breaker_db" where
  "demo_record sig now db = breaker_record (\<lambda>s. s) string_of_int demo_breaker_config sig now now db"

definition demo_tripped :: breaker_db where
  "demo_tripped = snd (demo_record demo_loss 101 demo_breaker)"

definition demo_tripped_row :: breaker_state where
  "demo_tripped_row = trip ''DAILY_LOSS_BREACH'' ''daily loss breach'' 101 demo_breaker_row"

lemma demo_tripped_run:
  "breaker_record (\<lambda>s. s) string_of_int demo_breaker_config demo_loss 101 101 demo_breaker
     = (Inr (demo_tripped_row, Some demo_tripped_row), demo_tripped)"
  by code_simp

lemma demo_tripped_inv: "journal_inv demo_tripped"
  by (rule breaker_record_inv [OF demo_breaker_inv demo_breaker_seeded demo_tripped_run])

lemma demo_tripped_seen: "breaker_row (bc_account_id demo_breaker_config) demo_tripped = Some demo_tripped_row"
  by code_simp

theorem breaker_latches_witness:
  "\<exists>res db'. breaker_record (\<lambda>s. s) string_of_int demo_breaker_config (demo_signal ''INSTRUMENT_HALT'' 300 [])
      301 301 demo_tripped = (res, db')
    \<and> breaker_row (bc_account_id demo_breaker_config) db' = Some demo_tripped_row"
proof -
  obtain res db' where run: "breaker_record (\<lambda>s. s) string_of_int demo_breaker_config
      (demo_signal ''INSTRUMENT_HALT'' 300 []) 301 301 demo_tripped = (res, db')" by fastforce
  have "bs_state demo_tripped_row = TRIPPED" by code_simp
  from breaker_latches [OF demo_tripped_inv demo_tripped_seen this run] run show ?thesis by blast
qed

lemma breaker_immediate_trips_example:
  "\<exists>t hook db'. breaker_record (\<lambda>s. s) string_of_int demo_breaker_config demo_loss 101 101 demo_breaker
      = (Inr (t, hook), db')
    \<and> bs_state t = TRIPPED \<and> bs_reason_code t = Some ''DAILY_LOSS_BREACH'' \<and> bs_revision t = 2 \<and> hook = Some t"
proof -
  have "bs_state demo_breaker_row = CLEAR" "sg_kind demo_loss \<in> set immediate_kinds"
    "\<forall>i \<in> set (bt_incidents (jd_prod demo_breaker)). ic_incident_id i \<noteq> signal_id (\<lambda>s. s) string_of_int demo_breaker_config demo_loss"
    "select_journal_row demo_breaker (signal_id (\<lambda>s. s) string_of_int demo_breaker_config demo_loss) = None"
    by code_simp+
  from breaker_immediate_trips [OF demo_breaker_inv demo_breaker_seeded this, of 101 101]
  show ?thesis by (auto simp: demo_loss_def demo_signal_def demo_breaker_row_def demo_breaker_config_def)
qed

definition demo_quotes :: breaker_db where
  "demo_quotes = snd (demo_record (demo_signal ''QUOTE_FAILURE'' 20 ''q2'') 21
     (snd (demo_record (demo_signal ''QUOTE_FAILURE'' 10 ''q1'') 11 demo_breaker)))"

lemma demo_quotes_inv: "journal_inv demo_quotes"
proof -
  let ?one = "snd (demo_record (demo_signal ''QUOTE_FAILURE'' 10 ''q1'') 11 demo_breaker)"
  have one: "breaker_record (\<lambda>s. s) string_of_int demo_breaker_config (demo_signal ''QUOTE_FAILURE'' 10 ''q1'') 11 11
      demo_breaker = (fst (demo_record (demo_signal ''QUOTE_FAILURE'' 10 ''q1'') 11 demo_breaker), ?one)"
    by (simp add: demo_record_def)
  have two: "breaker_record (\<lambda>s. s) string_of_int demo_breaker_config (demo_signal ''QUOTE_FAILURE'' 20 ''q2'') 21 21
      ?one = (fst (demo_record (demo_signal ''QUOTE_FAILURE'' 20 ''q2'') 21 ?one), demo_quotes)"
    by (simp add: demo_record_def demo_quotes_def)
  have "breaker_row (bc_account_id demo_breaker_config) ?one = Some demo_breaker_row" by code_simp
  then show ?thesis
    using breaker_record_inv [OF breaker_record_inv [OF demo_breaker_inv demo_breaker_seeded one] _ two] by blast
qed

lemma breaker_rolling_exact_example:
  "\<exists>t hook db'. breaker_record (\<lambda>s. s) string_of_int demo_breaker_config (demo_signal ''QUOTE_FAILURE'' 30 ''q3'')
      31 31 demo_quotes = (Inr (t, hook), db') \<and> bs_state t = TRIPPED"
proof -
  let ?sig = "demo_signal ''QUOTE_FAILURE'' 30 ''q3''"
  have 1: "breaker_row (bc_account_id demo_breaker_config) demo_quotes = Some demo_breaker_row"
    "bs_state demo_breaker_row = CLEAR"
    "map_of rolling_kinds (sg_kind ?sig) = Some (3, minutes 5, ''0:05:00'')"
    "\<forall>i \<in> set (bt_incidents (jd_prod demo_quotes)). ic_incident_id i \<noteq> signal_id (\<lambda>s. s) string_of_int demo_breaker_config ?sig"
    "select_journal_row demo_quotes (signal_id (\<lambda>s. s) string_of_int demo_breaker_config ?sig) = None"
    by code_simp+
  have "3 \<le> count_since (bc_account_id demo_breaker_config) demo_quotes (sg_kind ?sig) (31 - minutes 5)
      + (if 31 - minutes 5 \<le> sg_occurred_at ?sig then 1 else 0)" by code_simp
  then show ?thesis using breaker_rolling_exact [OF demo_quotes_inv 1, of 31 31] by blast
qed

lemma breaker_redelivery_example:
  "\<exists>db2. breaker_record (\<lambda>s. s) string_of_int demo_breaker_config demo_loss 500 500 demo_tripped
      = (Inr (demo_tripped_row, None), db2) \<and> jd_prod db2 = jd_prod demo_tripped"
  using breaker_redelivery [OF demo_breaker_inv demo_tripped_run, of 500 500] by blast

lemma breaker_reset_guarded_example:
  "\<exists>t db'. breaker_reset demo_breaker_config ''cmd-1'' ''checked'' ''ops'' True (\<lambda>_. True) (days 2) 5 demo_tripped
      = (Inr t, db') \<and> bs_state t = CLEAR \<and> bs_reset_command_id t = Some ''cmd-1''
   \<and> reset_allowed demo_breaker_config ''cmd-1'' ''checked'' ''ops'' True (\<lambda>_. True) (days 2) demo_tripped_row"
proof -
  let ?t = "cleared ''cmd-1'' ''checked'' (days 2) demo_tripped_row"
  let ?db' = "snd (breaker_reset demo_breaker_config ''cmd-1'' ''checked'' ''ops'' True (\<lambda>_. True) (days 2) 5 demo_tripped)"
  have run: "breaker_reset demo_breaker_config ''cmd-1'' ''checked'' ''ops'' True (\<lambda>_. True) (days 2) 5 demo_tripped
      = (Inr ?t, ?db')" by code_simp
  have "bs_state demo_tripped_row = TRIPPED" by code_simp
  from breaker_reset_guarded [OF demo_tripped_inv demo_tripped_seen this run] run show ?thesis by auto
qed

end
