(* ===== verification/Exit_Owner.thy ===== *)
theory Exit_Owner
  imports Prelude
begin

text \<open>
  Durable exit ownership, \<^verbatim>\<open>src/trader/trading/exit_owner.py\<close>: one close per position, one
  flatten per account. The table is the list of \<open>exit_owners\<close> rows; an operation that raises
  leaves the caller's transaction to roll back, which \<open>exit_transaction\<close> does. A quantity is the
  exact value of the stored double.
\<close>

section \<open>Rows and claims\<close>

datatype exit_kind = ScopedClose | AccountFlatten
datatype exit_goal = GoalZero | GoalPartial
datatype exit_state = ExitActive | ExitSuperseded | ExitReleased | ExitFailedSafe
datatype claim_outcome = Claimed | Joined | Upgraded | JoinedFlatten

record exit_owner_row =
  eo_root_id :: string
  eo_account_id :: string
  eo_conid :: "int option"
  eo_kind :: exit_kind
  eo_goal :: exit_goal
  eo_goal_quantity :: "rat option"
  eo_state :: exit_state
  eo_updated_at :: instant

record exit_claim =
  ec_root_id :: string
  ec_outcome :: claim_outcome
  ec_superseded :: "string list"

type_synonym exit_table = "exit_owner_row list"

datatype exit_error =
    ExitInProgress string
  | BadRootId
  | RootIdReused string
  | BadFinishState

type_synonym 'r exit_result = "(exit_error + 'r) \<times> exit_table"

definition check_root_id :: "string \<Rightarrow> exit_error + unit" where
  "check_root_id root_id = (if root_id = [] \<or> CHR '':'' \<in> set root_id then Inl BadRootId else Inr ())"

section \<open>Reads\<close>

definition exit_get_in_tx :: "exit_table \<Rightarrow> string \<Rightarrow> exit_owner_row option" where
  "exit_get_in_tx db root_id = fetchone (filter (\<lambda>r. eo_root_id r = root_id) db)"

definition owner_for_in_tx :: "exit_table \<Rightarrow> string \<Rightarrow> int \<Rightarrow> exit_owner_row option" where
  "owner_for_in_tx db account_id conid =
     fetchone (filter (\<lambda>r. eo_account_id r = account_id \<and> eo_conid r = Some conid
                           \<and> eo_kind r = ScopedClose \<and> eo_state r = ExitActive) db)"

definition account_owner_in_tx :: "exit_table \<Rightarrow> string \<Rightarrow> exit_owner_row option" where
  "account_owner_in_tx db account_id =
     fetchone (filter (\<lambda>r. eo_account_id r = account_id \<and> eo_kind r = AccountFlatten
                           \<and> eo_state r = ExitActive) db)"

definition ensure_partial_allowed_in_tx :: "exit_table \<Rightarrow> string \<Rightarrow> int \<Rightarrow> exit_error + unit" where
  "ensure_partial_allowed_in_tx db account_id conid =
     (case account_owner_in_tx db account_id of
        Some owner \<Rightarrow> Inl (ExitInProgress (eo_root_id owner))
      | None \<Rightarrow>
         (case owner_for_in_tx db account_id conid of
            Some owner \<Rightarrow> Inl (ExitInProgress (eo_root_id owner))
          | None \<Rightarrow> Inr ()))"

section \<open>Writes\<close>

definition exit_insert_in_tx ::
    "string \<Rightarrow> string \<Rightarrow> int option \<Rightarrow> exit_kind \<Rightarrow> exit_goal \<Rightarrow> rat option \<Rightarrow> instant \<Rightarrow> exit_table
     \<Rightarrow> unit exit_result" where
  "exit_insert_in_tx root_id account_id conid kind goal goal_quantity now db =
     (if \<exists>r \<in> set db. eo_root_id r = root_id then (Inl (RootIdReused root_id), db)
      else (Inr (), db @ [\<lparr>eo_root_id = root_id, eo_account_id = account_id, eo_conid = conid,
                           eo_kind = kind, eo_goal = goal, eo_goal_quantity = goal_quantity,
                           eo_state = ExitActive, eo_updated_at = now\<rparr>]))"

definition upgrade_goal_in_tx :: "string \<Rightarrow> instant \<Rightarrow> exit_table \<Rightarrow> exit_table" where
  "upgrade_goal_in_tx root_id now db =
     update_where (\<lambda>r. eo_root_id r = root_id \<and> eo_state r = ExitActive)
       (\<lambda>r. r\<lparr>eo_goal := GoalZero, eo_goal_quantity := None, eo_updated_at := now\<rparr>) db"

definition finish_in_tx :: "string \<Rightarrow> exit_state \<Rightarrow> instant \<Rightarrow> exit_table \<Rightarrow> unit exit_result" where
  "finish_in_tx root_id state now db =
     (if state \<notin> {ExitReleased, ExitFailedSafe} then (Inl BadFinishState, db)
      else (Inr (), update_where (\<lambda>r. eo_root_id r = root_id \<and> eo_state r = ExitActive)
                      (\<lambda>r. r\<lparr>eo_state := state, eo_updated_at := now\<rparr>) db))"

definition claim_scoped_in_tx ::
    "string \<Rightarrow> int \<Rightarrow> string \<Rightarrow> rat option \<Rightarrow> instant \<Rightarrow> exit_table \<Rightarrow> exit_claim exit_result" where
  "claim_scoped_in_tx account_id conid root_id goal_quantity now db =
     (case check_root_id root_id of
        Inl e \<Rightarrow> (Inl e, db)
      | Inr _ \<Rightarrow>
         (case account_owner_in_tx db account_id of
            Some flatten \<Rightarrow>
              if goal_quantity \<noteq> None then (Inl (ExitInProgress (eo_root_id flatten)), db)
              else (Inr \<lparr>ec_root_id = eo_root_id flatten, ec_outcome = JoinedFlatten, ec_superseded = []\<rparr>, db)
          | None \<Rightarrow>
             (case owner_for_in_tx db account_id conid of
                Some owner \<Rightarrow>
                  if eo_root_id owner = root_id
                  then (Inr \<lparr>ec_root_id = eo_root_id owner, ec_outcome = Joined, ec_superseded = []\<rparr>, db)
                  else if goal_quantity \<noteq> None then (Inl (ExitInProgress (eo_root_id owner)), db)
                  else if eo_goal owner = GoalPartial
                  then (Inr \<lparr>ec_root_id = eo_root_id owner, ec_outcome = Upgraded, ec_superseded = []\<rparr>,
                        upgrade_goal_in_tx (eo_root_id owner) now db)
                  else (Inr \<lparr>ec_root_id = eo_root_id owner, ec_outcome = Joined, ec_superseded = []\<rparr>, db)
              | None \<Rightarrow>
                 (case exit_insert_in_tx root_id account_id (Some conid) ScopedClose
                         (if goal_quantity \<noteq> None then GoalPartial else GoalZero) goal_quantity now db of
                    (Inl e, db') \<Rightarrow> (Inl e, db')
                  | (Inr _, db') \<Rightarrow>
                      (Inr \<lparr>ec_root_id = root_id, ec_outcome = Claimed, ec_superseded = []\<rparr>, db')))))"

definition active_scoped :: "string \<Rightarrow> exit_owner_row \<Rightarrow> bool" where
  "active_scoped account_id r \<longleftrightarrow>
     eo_account_id r = account_id \<and> eo_kind r = ScopedClose \<and> eo_state r = ExitActive"

definition claim_account_in_tx :: "string \<Rightarrow> string \<Rightarrow> instant \<Rightarrow> exit_table \<Rightarrow> exit_claim exit_result" where
  "claim_account_in_tx account_id root_id now db =
     (case check_root_id root_id of
        Inl e \<Rightarrow> (Inl e, db)
      | Inr _ \<Rightarrow>
         (case account_owner_in_tx db account_id of
            Some flatten \<Rightarrow>
              (Inr \<lparr>ec_root_id = eo_root_id flatten,
                    ec_outcome = (if eo_root_id flatten = root_id then Claimed else JoinedFlatten),
                    ec_superseded = []\<rparr>, db)
          | None \<Rightarrow>
             (let scoped = sort (map eo_root_id (filter (active_scoped account_id) db));
                  db1 = update_where (active_scoped account_id)
                          (\<lambda>r. r\<lparr>eo_state := ExitSuperseded, eo_updated_at := now\<rparr>) db
              in case exit_insert_in_tx root_id account_id None AccountFlatten GoalZero None now db1 of
                   (Inl e, db') \<Rightarrow> (Inl e, db')
                 | (Inr _, db') \<Rightarrow>
                     (Inr \<lparr>ec_root_id = root_id, ec_outcome = Claimed, ec_superseded = scoped\<rparr>, db'))))"

definition exit_transaction :: "(exit_table \<Rightarrow> 'r exit_result) \<Rightarrow> exit_table \<Rightarrow> 'r exit_result" where
  "exit_transaction work db =
     (case work db of (Inl e, _) \<Rightarrow> (Inl e, db) | (Inr r, db') \<Rightarrow> (Inr r, db'))"

definition claim_scoped ::
    "string \<Rightarrow> int \<Rightarrow> string \<Rightarrow> rat option \<Rightarrow> instant \<Rightarrow> exit_table \<Rightarrow> exit_claim exit_result" where
  "claim_scoped account_id conid root_id goal_quantity now =
     exit_transaction (claim_scoped_in_tx account_id conid root_id goal_quantity now)"

definition claim_account :: "string \<Rightarrow> string \<Rightarrow> instant \<Rightarrow> exit_table \<Rightarrow> exit_claim exit_result" where
  "claim_account account_id root_id now = exit_transaction (claim_account_in_tx account_id root_id now)"

definition exit_release :: "string \<Rightarrow> instant \<Rightarrow> exit_table \<Rightarrow> unit exit_result" where
  "exit_release root_id now = exit_transaction (finish_in_tx root_id ExitReleased now)"

section \<open>Runs and the invariant\<close>

inductive exit_step :: "exit_table \<Rightarrow> exit_table \<Rightarrow> bool" where
  es_scoped: "claim_scoped a c rid q now db = (res, db') \<Longrightarrow> exit_step db db'"
| es_account: "claim_account a rid now db = (res, db') \<Longrightarrow> exit_step db db'"
| es_upgrade: "exit_step db (upgrade_goal_in_tx rid now db)"
| es_finish: "exit_transaction (finish_in_tx rid st now) db = (res, db') \<Longrightarrow> exit_step db db'"

definition flattens :: "string \<Rightarrow> exit_owner_row \<Rightarrow> bool" where
  "flattens a r \<longleftrightarrow> eo_account_id r = a \<and> eo_kind r = AccountFlatten \<and> eo_state r = ExitActive"

definition closes :: "string \<Rightarrow> int \<Rightarrow> exit_owner_row \<Rightarrow> bool" where
  "closes a c r \<longleftrightarrow> eo_account_id r = a \<and> eo_conid r = Some c \<and> eo_kind r = ScopedClose \<and> eo_state r = ExitActive"

text \<open>
  Root ids are used once; an account has at most one active flatten, a position at most one
  active close, and no close is active while its account is being flattened.
\<close>

definition exit_inv :: "exit_table \<Rightarrow> bool" where
  "exit_inv db \<longleftrightarrow>
     distinct (map eo_root_id db)
     \<and> (\<forall>a. at_most_one (flattens a) db) \<and> (\<forall>a c. at_most_one (closes a c) db)
     \<and> (\<forall>r \<in> set db. \<forall>s \<in> set db. \<forall>a. \<not> (flattens a r \<and> active_scoped a s))"

lemmas exit_row_defs = flattens_def closes_def active_scoped_def

lemma exit_inv_empty [simp]: "exit_inv []"
  by (simp add: exit_inv_def)

lemma account_owner_iff: "account_owner_in_tx db a = None \<longleftrightarrow> filter (flattens a) db = []"
  by (simp add: account_owner_in_tx_def flattens_def [abs_def])

lemma owner_for_iff: "owner_for_in_tx db a c = None \<longleftrightarrow> filter (closes a c) db = []"
  by (simp add: owner_for_in_tx_def closes_def [abs_def])

lemma account_owner_SomeD: "account_owner_in_tx db a = Some r \<Longrightarrow> r \<in> set db \<and> flattens a r"
  unfolding account_owner_in_tx_def flattens_def by (rule fetchone_filter_SomeD)

lemma owner_for_SomeD: "owner_for_in_tx db a c = Some r \<Longrightarrow> r \<in> set db \<and> closes a c r"
  unfolding owner_for_in_tx_def closes_def by (rule fetchone_filter_SomeD)

text \<open>An update that only lets go of ownership, or changes goals, keeps the invariant.\<close>

lemma exit_inv_update:
  assumes inv: "exit_inv db"
    and keys: "\<And>r. eo_root_id (f r) = eo_root_id r" "\<And>r. eo_account_id (f r) = eo_account_id r"
      "\<And>r. eo_conid (f r) = eo_conid r" "\<And>r. eo_kind (f r) = eo_kind r"
    and state: "\<And>r. r \<in> set db \<Longrightarrow> C r \<Longrightarrow> eo_state (f r) = ExitActive \<Longrightarrow> eo_state r = ExitActive"
  shows "exit_inv (update_where C f db)"
proof -
  have "distinct (map eo_root_id (update_where C f db))"
    using inv by (simp add: exit_inv_def map_update_where_key keys)
  moreover have "at_most_one (flattens a) (update_where C f db)" for a
    using inv by (intro at_most_one_update_where) (auto simp: exit_inv_def flattens_def keys state)
  moreover have "at_most_one (closes a c) (update_where C f db)" for a c
    using inv by (intro at_most_one_update_where) (auto simp: exit_inv_def closes_def keys state)
  moreover have "\<not> (flattens a r \<and> active_scoped a s)"
    if rs: "r \<in> set (update_where C f db)" "s \<in> set (update_where C f db)" for r s a
  proof
    assume act: "flattens a r \<and> active_scoped a s"
    obtain r0 s0 where "r0 \<in> set db" "r = (if C r0 then f r0 else r0)"
        "s0 \<in> set db" "s = (if C s0 then f s0 else s0)"
      using rs by (auto simp: update_where_def)
    then have "r0 \<in> set db" "s0 \<in> set db" "flattens a r0" "active_scoped a s0"
      using act state by (auto simp: flattens_def active_scoped_def keys split: if_splits)
    then show False using inv by (auto simp: exit_inv_def)
  qed
  ultimately show ?thesis by (auto simp: exit_inv_def)
qed

lemma exit_inv_insert:
  assumes inv: "exit_inv db" and id: "\<forall>r \<in> set db. eo_root_id r \<noteq> eo_root_id x"
    and flat: "\<And>a r. flattens a x \<Longrightarrow> r \<in> set db \<Longrightarrow> \<not> flattens a r \<and> \<not> active_scoped a r"
    and scoped: "\<And>a r. active_scoped a x \<Longrightarrow> r \<in> set db \<Longrightarrow> \<not> flattens a r"
    and close: "\<And>a c r. closes a c x \<Longrightarrow> r \<in> set db \<Longrightarrow> \<not> closes a c r"
  shows "exit_inv (db @ [x])"
proof -
  have "distinct (map eo_root_id (db @ [x]))" using inv id by (auto simp: exit_inv_def)
  moreover have "at_most_one (flattens a) (db @ [x])" for a
    using inv flat [of a] by (simp add: exit_inv_def at_most_one_append filter_empty_conv)
  moreover have "at_most_one (closes a c) (db @ [x])" for a c
    using inv close [of a c] by (simp add: exit_inv_def at_most_one_append filter_empty_conv)
  moreover have "\<not> (flattens a r \<and> active_scoped a s)"
    if rs: "r \<in> set (db @ [x])" "s \<in> set (db @ [x])" for r s a
  proof -
    have "\<not> (flattens a x \<and> active_scoped a x)" by (simp add: flattens_def active_scoped_def)
    then show ?thesis using rs inv flat [of a s] scoped [of a r] by (auto simp: exit_inv_def)
  qed
  ultimately show ?thesis by (simp add: exit_inv_def)
qed

lemma claim_scoped_cases:
  assumes "claim_scoped a c rid q now db = (res, db')"
  obtains (refused) e where "res = Inl e" and "db' = db"
  | (flatten) r where "account_owner_in_tx db a = Some r" and "q = None"
      and "res = Inr \<lparr>ec_root_id = eo_root_id r, ec_outcome = JoinedFlatten, ec_superseded = []\<rparr>" and "db' = db"
  | (joined) r where "account_owner_in_tx db a = None" and "owner_for_in_tx db a c = Some r"
      and "eo_root_id r = rid \<or> q = None \<and> eo_goal r = GoalZero"
      and "res = Inr \<lparr>ec_root_id = eo_root_id r, ec_outcome = Joined, ec_superseded = []\<rparr>" and "db' = db"
  | (upgraded) r where "account_owner_in_tx db a = None" and "owner_for_in_tx db a c = Some r" and "q = None"
      and "res = Inr \<lparr>ec_root_id = eo_root_id r, ec_outcome = Upgraded, ec_superseded = []\<rparr>"
      and "db' = upgrade_goal_in_tx (eo_root_id r) now db"
  | (fresh) "account_owner_in_tx db a = None" and "owner_for_in_tx db a c = None"
      and "\<forall>r \<in> set db. eo_root_id r \<noteq> rid"
      and "res = Inr \<lparr>ec_root_id = rid, ec_outcome = Claimed, ec_superseded = []\<rparr>"
      and "db' = db @ [\<lparr>eo_root_id = rid, eo_account_id = a, eo_conid = Some c, eo_kind = ScopedClose,
             eo_goal = (if q \<noteq> None then GoalPartial else GoalZero), eo_goal_quantity = q,
             eo_state = ExitActive, eo_updated_at = now\<rparr>]"
proof (cases "\<exists>e. res = Inl e")
  case True
  then have "db' = db"
    using assms by (auto simp: claim_scoped_def exit_transaction_def split: prod.splits sum.splits)
  then show thesis using True refused by blast
next
  case False
  then obtain cl where res: "res = Inr cl" by (cases res) auto
  have run: "claim_scoped_in_tx a c rid q now db = (Inr cl, db')"
    using assms res by (auto simp: claim_scoped_def exit_transaction_def split: prod.splits sum.splits)
  then have ok: "check_root_id rid = Inr ()"
    by (auto simp: claim_scoped_in_tx_def check_root_id_def split: if_splits)
  show thesis
  proof (cases "account_owner_in_tx db a")
    case (Some r)
    have "q = None" "cl = \<lparr>ec_root_id = eo_root_id r, ec_outcome = JoinedFlatten, ec_superseded = []\<rparr>" "db' = db"
      using run ok Some by (auto simp: claim_scoped_in_tx_def split: if_splits)
    then show thesis using flatten Some res by blast
  next
    case None
    note flat = None
    show thesis
    proof (cases "owner_for_in_tx db a c")
      case (Some r)
      consider "eo_root_id r = rid \<or> q = None \<and> eo_goal r = GoalZero" "cl = \<lparr>ec_root_id = eo_root_id r,
            ec_outcome = Joined, ec_superseded = []\<rparr>" "db' = db"
        | "q = None" "cl = \<lparr>ec_root_id = eo_root_id r, ec_outcome = Upgraded, ec_superseded = []\<rparr>"
          "db' = upgrade_goal_in_tx (eo_root_id r) now db"
        using run ok flat Some by (cases "eo_goal r") (auto simp: claim_scoped_in_tx_def split: if_splits)
      then show thesis using joined upgraded flat Some res by cases blast+
    next
      case None
      have "\<forall>r \<in> set db. eo_root_id r \<noteq> rid"
        "cl = \<lparr>ec_root_id = rid, ec_outcome = Claimed, ec_superseded = []\<rparr>"
        "db' = db @ [\<lparr>eo_root_id = rid, eo_account_id = a, eo_conid = Some c, eo_kind = ScopedClose,
             eo_goal = (if q \<noteq> None then GoalPartial else GoalZero), eo_goal_quantity = q,
             eo_state = ExitActive, eo_updated_at = now\<rparr>]"
        using run ok flat None by (auto simp: claim_scoped_in_tx_def exit_insert_in_tx_def split: if_splits)
      then show thesis using fresh flat None res by blast
    qed
  qed
qed

lemma claim_account_cases:
  assumes "claim_account a rid now db = (res, db')"
  obtains (refused) e where "res = Inl e" and "db' = db"
  | (joined) r where "account_owner_in_tx db a = Some r" and "db' = db"
      and "res = Inr \<lparr>ec_root_id = eo_root_id r,
             ec_outcome = (if eo_root_id r = rid then Claimed else JoinedFlatten), ec_superseded = []\<rparr>"
  | (fresh) "account_owner_in_tx db a = None" and "\<forall>r \<in> set db. eo_root_id r \<noteq> rid"
      and "res = Inr \<lparr>ec_root_id = rid, ec_outcome = Claimed,
             ec_superseded = sort (map eo_root_id (filter (active_scoped a) db))\<rparr>"
      and "db' = update_where (active_scoped a) (\<lambda>r. r\<lparr>eo_state := ExitSuperseded, eo_updated_at := now\<rparr>) db
             @ [\<lparr>eo_root_id = rid, eo_account_id = a, eo_conid = None, eo_kind = AccountFlatten,
                 eo_goal = GoalZero, eo_goal_quantity = None, eo_state = ExitActive, eo_updated_at = now\<rparr>]"
proof (cases "\<exists>e. res = Inl e")
  case True
  then have "db' = db"
    using assms by (auto simp: claim_account_def exit_transaction_def split: prod.splits sum.splits)
  then show thesis using True refused by blast
next
  case False
  then obtain cl where res: "res = Inr cl" by (cases res) auto
  let ?upd = "update_where (active_scoped a) (\<lambda>r. r\<lparr>eo_state := ExitSuperseded, eo_updated_at := now\<rparr>) db"
  have run: "claim_account_in_tx a rid now db = (Inr cl, db')"
    using assms res by (auto simp: claim_account_def exit_transaction_def split: prod.splits sum.splits)
  then have ok: "check_root_id rid = Inr ()"
    by (auto simp: claim_account_in_tx_def check_root_id_def split: if_splits)
  show thesis
  proof (cases "account_owner_in_tx db a")
    case (Some r)
    have "cl = \<lparr>ec_root_id = eo_root_id r,
             ec_outcome = (if eo_root_id r = rid then Claimed else JoinedFlatten), ec_superseded = []\<rparr>" "db' = db"
      using run ok Some by (auto simp: claim_account_in_tx_def)
    then show thesis using joined Some res by blast
  next
    case None
    have "map eo_root_id ?upd = map eo_root_id db" by (simp add: map_update_where_key)
    then have ids: "eo_root_id ` set ?upd = eo_root_id ` set db" by (metis set_map)
    have new: "\<not> (\<exists>r \<in> set ?upd. eo_root_id r = rid)"
      and out: "cl = \<lparr>ec_root_id = rid, ec_outcome = Claimed,
             ec_superseded = sort (map eo_root_id (filter (active_scoped a) db))\<rparr>"
        "db' = ?upd @ [\<lparr>eo_root_id = rid, eo_account_id = a, eo_conid = None, eo_kind = AccountFlatten,
                 eo_goal = GoalZero, eo_goal_quantity = None, eo_state = ExitActive, eo_updated_at = now\<rparr>]"
      using run ok None by (auto simp: claim_account_in_tx_def exit_insert_in_tx_def Let_def split: if_splits)
    have "rid \<notin> eo_root_id ` set db" using new unfolding ids [symmetric] by blast
    then have "\<forall>r \<in> set db. eo_root_id r \<noteq> rid" by blast
    then show thesis using fresh None out res by blast
  qed
qed

lemma exit_inv_upgrade: "exit_inv db \<Longrightarrow> exit_inv (upgrade_goal_in_tx rid now db)"
  unfolding upgrade_goal_in_tx_def by (rule exit_inv_update) simp_all

lemma exit_inv_claim_scoped:
  assumes inv: "exit_inv db" and run: "claim_scoped a c rid q now db = (res, db')"
  shows "exit_inv db'"
  using run
proof (cases rule: claim_scoped_cases)
  case (upgraded r)
  then show ?thesis using inv exit_inv_upgrade by simp
next
  case fresh
  have no: "\<forall>r \<in> set db. \<not> flattens a r" "\<forall>r \<in> set db. \<not> closes a c r"
    using fresh(1,2) by (simp_all add: account_owner_iff owner_for_iff filter_empty_conv)
  let ?x = "\<lparr>eo_root_id = rid, eo_account_id = a, eo_conid = Some c, eo_kind = ScopedClose,
             eo_goal = (if q \<noteq> None then GoalPartial else GoalZero), eo_goal_quantity = q,
             eo_state = ExitActive, eo_updated_at = now\<rparr>"
  show ?thesis unfolding fresh(5)
  proof (rule exit_inv_insert [OF inv])
    show "\<forall>r \<in> set db. eo_root_id r \<noteq> eo_root_id ?x" using fresh(3) by simp
    show "\<not> flattens b r \<and> \<not> active_scoped b r" if "flattens b ?x" for b r
      using that by (simp add: flattens_def)
    show "\<not> flattens b r" if "active_scoped b ?x" "r \<in> set db" for b r
      using that no(1) by (simp add: active_scoped_def)
    show "\<not> closes b d r" if "closes b d ?x" "r \<in> set db" for b d r
      using that no(2) unfolding closes_def [of b d ?x] by auto
  qed
qed (use inv in simp_all)

lemma exit_inv_claim_account:
  assumes inv: "exit_inv db" and run: "claim_account a rid now db = (res, db')"
  shows "exit_inv db'"
  using run
proof (cases rule: claim_account_cases)
  case fresh
  let ?upd = "update_where (active_scoped a) (\<lambda>r. r\<lparr>eo_state := ExitSuperseded, eo_updated_at := now\<rparr>) db"
  have inv': "exit_inv ?upd" using inv by (rule exit_inv_update) simp_all
  have no: "\<forall>r \<in> set ?upd. \<not> flattens a r \<and> \<not> active_scoped a r \<and> eo_root_id r \<noteq> rid"
    using fresh(1,2) by (auto simp: account_owner_iff filter_empty_conv set_update_where exit_row_defs)
  let ?x = "\<lparr>eo_root_id = rid, eo_account_id = a, eo_conid = None, eo_kind = AccountFlatten,
             eo_goal = GoalZero, eo_goal_quantity = None, eo_state = ExitActive, eo_updated_at = now\<rparr>"
  show ?thesis unfolding fresh(4)
  proof (rule exit_inv_insert [OF inv'])
    show "\<forall>r \<in> set ?upd. eo_root_id r \<noteq> eo_root_id ?x" using no by simp
    show "\<not> flattens b r \<and> \<not> active_scoped b r" if "flattens b ?x" "r \<in> set ?upd" for b r
      using that no by (simp add: flattens_def [of _ ?x])
    show "\<not> flattens b r" if "active_scoped b ?x" for b r
      using that by (simp add: active_scoped_def)
    show "\<not> closes b d r" if "closes b d ?x" for b d r
      using that by (simp add: closes_def)
  qed
qed (use inv in simp_all)

lemma exit_step_inv: "exit_step db db' \<Longrightarrow> exit_inv db \<Longrightarrow> exit_inv db'"
proof (induction rule: exit_step.induct)
  case (es_scoped a c rid q now db res db')
  then show ?case using exit_inv_claim_scoped by blast
next
  case (es_account a rid now db res db')
  then show ?case using exit_inv_claim_account by blast
next
  case (es_upgrade db rid now)
  then show ?case by (rule exit_inv_upgrade)
next
  case (es_finish rid st now db res db')
  have "exit_inv (update_where (\<lambda>r. eo_root_id r = rid \<and> eo_state r = ExitActive)
      (\<lambda>r. r\<lparr>eo_state := st, eo_updated_at := now\<rparr>) db)"
    using es_finish(2) by (rule exit_inv_update) simp_all
  then show ?case
    using es_finish by (auto simp: exit_transaction_def finish_in_tx_def split: if_splits)
qed

interpretation exit_machine: state_machine exit_step exit_inv
  by unfold_locales (rule exit_step_inv)

section \<open>Properties of exit ownership\<close>

definition covers :: "string \<Rightarrow> int \<Rightarrow> exit_owner_row \<Rightarrow> bool" where
  "covers a c r \<longleftrightarrow> flattens a r \<or> closes a c r"

lemma covers_unique:
  assumes inv: "exit_inv db" and r: "r \<in> set db" "covers a c r" and s: "s \<in> set db" "covers a c s"
  shows "r = s"
proof -
  have mixed: "\<not> (flattens a x \<and> closes a c y)" if "x \<in> set db" "y \<in> set db" for x y
    using inv that by (auto simp: exit_inv_def closes_def active_scoped_def)
  have "(flattens a r \<and> flattens a s) \<or> (closes a c r \<and> closes a c s)"
    using r s mixed by (auto simp: covers_def)
  moreover have "at_most_one (flattens a) db" "at_most_one (closes a c) db" using inv by (simp_all add: exit_inv_def)
  ultimately show ?thesis using r(1) s(1) at_most_one_eq by metis
qed

text \<open>
  C29. One exit per position: in every table that claims, upgrades and finishes can produce from
  an empty one, two active owners that both cover a position (a close of it, or a flatten of its
  account) are the same owner.
\<close>

theorem exit_ownership_exclusive:
  assumes "exit_step\<^sup>*\<^sup>* [] db" and "r \<in> set db" and "covers a c r" and "s \<in> set db" and "covers a c s"
  shows "r = s"
  using covers_unique [OF exit_machine.run_inv [OF assms(1) exit_inv_empty] assms(2-5)] .

text \<open>
  What a claim on a position returns is the position's owner: after a successful claim the
  returned root is active and covers the position; it is a fresh root exactly when nothing
  covered the position before; and a full close that joins another root's close leaves it with
  the goal zero.
\<close>

lemma exit_claim_covers:
  assumes inv: "exit_inv db" and run: "claim_scoped a c rid q now db = (Inr cl, db')"
  shows "\<exists>r \<in> set db'. eo_root_id r = ec_root_id cl \<and> covers a c r
    \<and> (ec_outcome cl = Claimed \<longleftrightarrow> (\<forall>s \<in> set db. \<not> covers a c s))
    \<and> (q = None \<and> ec_outcome cl \<noteq> JoinedFlatten \<and> ec_root_id cl \<noteq> rid \<longrightarrow> eo_goal r = GoalZero)"
  using run
proof (cases rule: claim_scoped_cases)
  case (flatten r)
  then have "r \<in> set db" "covers a c r" by (auto dest: account_owner_SomeD simp: covers_def)
  then show ?thesis using flatten by auto
next
  case (joined r)
  then have "r \<in> set db" "covers a c r" by (auto dest: owner_for_SomeD simp: covers_def)
  then show ?thesis using joined by auto
next
  case (upgraded r)
  let ?r = "r\<lparr>eo_goal := GoalZero, eo_goal_quantity := None, eo_updated_at := now\<rparr>"
  have r: "r \<in> set db" "closes a c r" using owner_for_SomeD [OF upgraded(2)] by auto
  then have "?r \<in> set db'" unfolding upgraded(5) upgrade_goal_in_tx_def
    by (auto simp: set_update_where closes_def)
  moreover have "covers a c ?r" "covers a c r" using r(2) by (simp_all add: covers_def closes_def)
  ultimately show ?thesis using r(1) upgraded(4) by (intro bexI [of _ ?r]) auto
next
  case fresh
  have "\<forall>s \<in> set db. \<not> covers a c s"
    using fresh(1,2) by (simp add: account_owner_iff owner_for_iff filter_empty_conv covers_def)
  then show ?thesis using fresh(4,5) by (auto simp: covers_def closes_def)
qed simp

text \<open>
  A partial close never competes: while any active owner with another root covers the
  position, a partial claim is refused with that owner's root and the table is unchanged.
\<close>

lemma exit_partial_refused:
  assumes inv: "exit_inv db" and owner: "s \<in> set db" "covers a c s" "eo_root_id s \<noteq> rid"
    and id: "rid \<noteq> []" "CHR '':'' \<notin> set rid"
  shows "claim_scoped a c rid (Some quantity) now db = (Inl (ExitInProgress (eo_root_id s)), db)"
proof (cases "account_owner_in_tx db a")
  case (Some r)
  then have "r = s" using covers_unique [OF inv _ _ owner(1,2)] account_owner_SomeD by (auto simp: covers_def)
  then show ?thesis
    using Some id by (simp add: claim_scoped_def exit_transaction_def claim_scoped_in_tx_def check_root_id_def)
next
  case None
  then have "closes a c s" using owner by (auto simp: account_owner_iff filter_empty_conv covers_def)
  then obtain r where r: "owner_for_in_tx db a c = Some r"
    using owner(1) by (cases "owner_for_in_tx db a c") (auto simp: owner_for_iff filter_empty_conv)
  then have "r = s" using covers_unique [OF inv _ _ owner(1,2)] owner_for_SomeD by (auto simp: covers_def)
  then show ?thesis
    using None r id owner(3)
    by (simp add: claim_scoped_def exit_transaction_def claim_scoped_in_tx_def check_root_id_def)
qed

text \<open>
  A flatten takes the account over: when it starts, every active close of the account is
  superseded and reported in order, nothing of the account but the flatten stays active, and the
  rows of the other accounts are untouched.
\<close>

lemma exit_flatten_supersedes:
  assumes none: "account_owner_in_tx db a = None" and run: "claim_account a rid now db = (Inr cl, db')"
  shows "ec_root_id cl = rid \<and> ec_superseded cl = sort (map eo_root_id (filter (active_scoped a) db))
    \<and> (\<forall>r \<in> set db'. eo_account_id r = a \<and> eo_state r = ExitActive \<longleftrightarrow> r = last db')
    \<and> filter (\<lambda>r. eo_account_id r \<noteq> a) db' = filter (\<lambda>r. eo_account_id r \<noteq> a) db"
  using run
proof (cases rule: claim_account_cases)
  case fresh
  let ?upd = "update_where (active_scoped a) (\<lambda>r. r\<lparr>eo_state := ExitSuperseded, eo_updated_at := now\<rparr>) db"
  have scoped: "eo_kind s = ScopedClose" if "s \<in> set db" "eo_account_id s = a" "eo_state s = ExitActive" for s
    using fresh(1) that by (cases "eo_kind s") (auto simp: account_owner_iff filter_empty_conv flattens_def)
  have idle: "\<not> (eo_account_id r = a \<and> eo_state r = ExitActive)" if r: "r \<in> set ?upd" for r
  proof -
    obtain s where "s \<in> set db" "r = (if active_scoped a s
        then s\<lparr>eo_state := ExitSuperseded, eo_updated_at := now\<rparr> else s)"
      using r by (auto simp: update_where_def)
    then show ?thesis using scoped [of s] by (auto simp: active_scoped_def)
  qed
  have keep: "filter (\<lambda>r. eo_account_id r \<noteq> a) ?upd = filter (\<lambda>r. eo_account_id r \<noteq> a) db"
    by (induction db) (auto simp: active_scoped_def)
  have new: "eo_account_id (last db') = a" "eo_state (last db') = ExitActive" "db' = ?upd @ [last db']"
    using fresh(4) by simp_all
  have "set db' = insert (last db') (set ?upd)" by (subst new(3)) simp
  then have "\<forall>r \<in> set db'. eo_account_id r = a \<and> eo_state r = ExitActive \<longleftrightarrow> r = last db'"
    using idle new(1,2) by auto
  moreover have "filter (\<lambda>r. eo_account_id r \<noteq> a) db' = filter (\<lambda>r. eo_account_id r \<noteq> a) db"
    by (subst new(3)) (simp add: keep new(1))
  ultimately show ?thesis using fresh(3) by simp
next
  case (refused e)
  then show ?thesis by simp
next
  case (joined r)
  then show ?thesis using none by simp
qed

definition later_row :: "exit_owner_row \<Rightarrow> exit_owner_row \<Rightarrow> bool" where
  "later_row r r' \<longleftrightarrow> eo_root_id r' = eo_root_id r \<and> eo_account_id r' = eo_account_id r
    \<and> eo_conid r' = eo_conid r \<and> eo_kind r' = eo_kind r
    \<and> (eo_goal r = GoalZero \<longrightarrow> eo_goal r' = GoalZero)
    \<and> (eo_state r \<noteq> ExitActive \<longrightarrow> eo_state r' = eo_state r)"

lemma later_row_refl [simp]: "later_row r r"
  by (simp add: later_row_def)

lemma later_row_trans: "later_row r s \<Longrightarrow> later_row s t \<Longrightarrow> later_row r t"
  by (simp add: later_row_def)

lemma update_where_later:
  assumes "r \<in> set db" and "\<And>s. C s \<Longrightarrow> later_row s (f s)"
  shows "\<exists>r' \<in> set (update_where C f db). later_row r r'"
proof (cases "C r")
  case True
  then have "f r \<in> set (update_where C f db)" using assms(1) by (auto simp: set_update_where)
  then show ?thesis using assms(2) [OF True] by blast
next
  case False
  then have "r \<in> set (update_where C f db)" using assms(1) by (auto simp: set_update_where)
  then show ?thesis using later_row_refl by blast
qed

lemma exit_step_later: "exit_step db db' \<Longrightarrow> r \<in> set db \<Longrightarrow> \<exists>r' \<in> set db'. later_row r r'"
proof (induction rule: exit_step.induct)
  case (es_scoped a c rid q now db res db')
  have up: "\<exists>r' \<in> set (upgrade_goal_in_tx i now db). later_row r r'" for i
    unfolding upgrade_goal_in_tx_def using es_scoped(2) by (rule update_where_later) (simp add: later_row_def)
  from es_scoped(1) show ?case
  proof (cases rule: claim_scoped_cases)
    case (upgraded s)
    then show ?thesis using up by simp
  next
    case fresh
    have "r \<in> set db'" unfolding fresh(5) using es_scoped(2) by simp
    then show ?thesis using later_row_refl by blast
  qed (use es_scoped(2) later_row_refl in blast)+
next
  case (es_account a rid now db res db')
  from es_account(1) show ?case
  proof (cases rule: claim_account_cases)
    case fresh
    have "\<exists>r' \<in> set (update_where (active_scoped a) (\<lambda>r. r\<lparr>eo_state := ExitSuperseded, eo_updated_at := now\<rparr>) db).
        later_row r r'"
      using es_account(2) by (rule update_where_later) (simp add: later_row_def active_scoped_def)
    then show ?thesis unfolding fresh(4) by auto
  qed (use es_account(2) later_row_refl in blast)+
next
  case (es_upgrade db rid now)
  then show ?case unfolding upgrade_goal_in_tx_def by (rule update_where_later) (simp add: later_row_def)
next
  case (es_finish rid st now db res db')
  have "\<exists>r' \<in> set (update_where (\<lambda>r. eo_root_id r = rid \<and> eo_state r = ExitActive)
      (\<lambda>r. r\<lparr>eo_state := st, eo_updated_at := now\<rparr>) db). later_row r r'"
    using es_finish(2) by (rule update_where_later) (simp add: later_row_def)
  moreover have "db' = db \<or> db' = update_where (\<lambda>r. eo_root_id r = rid \<and> eo_state r = ExitActive)
      (\<lambda>r. r\<lparr>eo_state := st, eo_updated_at := now\<rparr>) db"
    using es_finish(1) by (auto simp: exit_transaction_def finish_in_tx_def split: if_splits)
  ultimately show ?case using es_finish(2) later_row_refl by blast
qed

text \<open>
  Exit rows only move forward: along any run a row is never deleted or moved to another
  position, a goal of zero is never turned back into a partial one, and a row that has stopped
  being active (superseded, released or failed safe) keeps that state for good.
\<close>

lemma exit_rows_monotone:
  assumes "exit_inv db" and "exit_step\<^sup>*\<^sup>* db db'" and "r \<in> set db"
  shows "\<exists>r' \<in> set db'. eo_root_id r' = eo_root_id r \<and> eo_account_id r' = eo_account_id r
    \<and> eo_conid r' = eo_conid r \<and> eo_kind r' = eo_kind r
    \<and> (eo_goal r = GoalZero \<longrightarrow> eo_goal r' = GoalZero)
    \<and> (eo_state r \<noteq> ExitActive \<longrightarrow> eo_state r' = eo_state r)"
proof -
  have "\<exists>r' \<in> set db'. later_row r r'"
  proof (rule exit_machine.run_stable [OF assms(2,1)])
    show "\<exists>r' \<in> set db. later_row r r'" using assms(3) later_row_refl by blast
    show "\<exists>r' \<in> set v. later_row r r'" if "exit_step u v" "\<exists>r' \<in> set u. later_row r r'" for u v
      using that exit_step_later later_row_trans by blast
  qed
  then show ?thesis by (simp add: later_row_def)
qed

section \<open>Witnesses\<close>

definition demo_exits :: exit_table where
  "demo_exits = snd (claim_scoped ''DU1'' 265598 ''close-1'' (Some 10) 5 [])"

definition demo_exit_row :: exit_owner_row where
  "demo_exit_row =
     \<lparr>eo_root_id = ''close-1'', eo_account_id = ''DU1'', eo_conid = Some 265598, eo_kind = ScopedClose,
      eo_goal = GoalPartial, eo_goal_quantity = Some 10, eo_state = ExitActive, eo_updated_at = 5\<rparr>"

lemma demo_exits_eq: "demo_exits = [demo_exit_row]"
  by code_simp

lemma demo_exits_step: "exit_step\<^sup>*\<^sup>* [] demo_exits"
  by (rule r_into_rtranclp, rule es_scoped [of _ _ _ _ _ _ "fst (claim_scoped ''DU1'' 265598 ''close-1'' (Some 10) 5 [])"])
    (simp add: demo_exits_def)

lemma demo_exits_inv: "exit_inv demo_exits"
  using demo_exits_step by (rule exit_machine.run_inv) simp

lemma demo_exit_covers: "demo_exit_row \<in> set demo_exits" "covers ''DU1'' 265598 demo_exit_row"
  by (simp_all add: demo_exits_eq covers_def closes_def demo_exit_row_def)

theorem exit_ownership_exclusive_witness:
  "exit_step\<^sup>*\<^sup>* [] demo_exits \<and> demo_exit_row = hd demo_exits"
proof -
  have "hd demo_exits \<in> set demo_exits" "covers ''DU1'' 265598 (hd demo_exits)"
    using demo_exit_covers by (simp_all add: demo_exits_eq)
  from exit_ownership_exclusive [OF demo_exits_step demo_exit_covers this] show ?thesis
    using demo_exits_step by simp
qed

lemma exit_claim_covers_example:
  "\<exists>cl db'. claim_scoped ''DU1'' 265598 ''close-2'' None 6 demo_exits = (Inr cl, db') \<and> ec_outcome cl = Upgraded
    \<and> (\<exists>r \<in> set db'. eo_root_id r = ''close-1'' \<and> eo_goal r = GoalZero)"
proof -
  let ?cl = "\<lparr>ec_root_id = ''close-1'', ec_outcome = Upgraded, ec_superseded = []\<rparr>"
  let ?db' = "snd (claim_scoped ''DU1'' 265598 ''close-2'' None 6 demo_exits)"
  have run: "claim_scoped ''DU1'' 265598 ''close-2'' None 6 demo_exits = (Inr ?cl, ?db')" by code_simp
  from exit_claim_covers [OF demo_exits_inv run]
  have "\<exists>r \<in> set ?db'. eo_root_id r = ''close-1'' \<and> eo_goal r = GoalZero" by auto
  then show ?thesis by (intro exI [of _ ?cl] exI [of _ ?db'] conjI run) simp_all
qed

lemma exit_partial_refused_example:
  "claim_scoped ''DU1'' 265598 ''close-2'' (Some 3) 6 demo_exits = (Inl (ExitInProgress ''close-1''), demo_exits)"
proof -
  have "eo_root_id demo_exit_row = ''close-1''" by code_simp
  then show ?thesis
    using exit_partial_refused [OF demo_exits_inv demo_exit_covers, of "''close-2''" 3 6] by simp
qed

lemma exit_flatten_supersedes_example:
  "\<exists>cl db'. claim_account ''DU1'' ''flat-1'' 7 demo_exits = (Inr cl, db') \<and> ec_superseded cl = [''close-1'']
    \<and> filter (\<lambda>r. eo_account_id r \<noteq> ''DU1'') db' = []"
proof -
  let ?cl = "\<lparr>ec_root_id = ''flat-1'', ec_outcome = Claimed, ec_superseded = [''close-1'']\<rparr>"
  let ?db' = "snd (claim_account ''DU1'' ''flat-1'' 7 demo_exits)"
  have run: "claim_account ''DU1'' ''flat-1'' 7 demo_exits = (Inr ?cl, ?db')" by code_simp
  have "account_owner_in_tx demo_exits ''DU1'' = None"
    "filter (\<lambda>r. eo_account_id r \<noteq> ''DU1'') demo_exits = []" by code_simp+
  with exit_flatten_supersedes [OF this(1) run]
  have "filter (\<lambda>r. eo_account_id r \<noteq> ''DU1'') ?db' = []" by simp
  then show ?thesis by (intro exI [of _ ?cl] exI [of _ ?db'] conjI run) simp_all
qed

lemma exit_rows_monotone_example:
  "\<exists>r' \<in> set (upgrade_goal_in_tx ''close-1'' 9 demo_exits). eo_root_id r' = ''close-1''"
proof -
  have "exit_step\<^sup>*\<^sup>* demo_exits (upgrade_goal_in_tx ''close-1'' 9 demo_exits)" by (intro r_into_rtranclp es_upgrade)
  moreover have "eo_root_id demo_exit_row = ''close-1''" by code_simp
  ultimately show ?thesis
    using exit_rows_monotone [OF demo_exits_inv _ demo_exit_covers(1)] by metis
qed

end
