(* ===== verification/Controller_Epoch.thy ===== *)
theory Controller_Epoch
  imports Domain_Journal
begin

text \<open>
  The controller epoch the trader grants and its lease,
  \<^verbatim>\<open>src/trader/automation/controller_epoch.py\<close>: one row per granted epoch, the newest row being
  the current epoch. A grant is a unit of work of the journal that appends no event. The
  arguments of a grant arrive untyped, so they are JSON values here and the input check is
  the source's.
\<close>

section \<open>Rows, limits and errors\<close>

record epoch_row =
  er_epoch :: int
  er_holder_id :: string
  er_granted_at :: instant
  er_renewed_at :: instant
  er_lease_expires_at :: instant

record epoch_grant =
  eg_epoch :: int
  eg_holder_id :: string
  eg_lease_expires_at :: instant
  eg_renewed :: bool

type_synonym epoch_db = "epoch_row list journal_db"

datatype epoch_refusal = EPOCH_MISSING | EPOCH_STALE | EPOCH_HELD | EPOCH_UNKNOWN

datatype epoch_error =
    EpochRefused epoch_refusal
  | BadGrantInput string
  | EpochNaiveTime

definition min_lease_seconds :: int where "min_lease_seconds = 10"
definition max_lease_seconds :: int where "max_lease_seconds = 600"
definition max_controller_epoch :: int where "max_controller_epoch = 2 ^ 53"

text \<open>The pattern \<open>^[a-z0-9][a-z0-9_.-]{0,63}$\<close> on the whole string.\<close>

definition lower_alnum :: "char \<Rightarrow> bool" where
  "lower_alnum c \<longleftrightarrow> (97 \<le> (of_char c :: nat) \<and> (of_char c :: nat) \<le> 122)
     \<or> (48 \<le> (of_char c :: nat) \<and> (of_char c :: nat) \<le> 57)"

definition holder_id_matches :: "string \<Rightarrow> bool" where
  "holder_id_matches s =
     (case s of
        [] \<Rightarrow> False
      | c # cs \<Rightarrow> lower_alnum c \<and> length cs \<le> 63
          \<and> list_all (\<lambda>d. lower_alnum d \<or> d = CHR ''_'' \<or> d = CHR ''.'' \<or> d = CHR ''-'') cs)"

definition epoch_as_utc :: "pydatetime \<Rightarrow> epoch_error + instant" where
  "epoch_as_utc v = (case v of Naive _ \<Rightarrow> Inl EpochNaiveTime | Aware t \<Rightarrow> Inr t)"

definition is_epoch_number :: "json \<Rightarrow> bool" where
  "is_epoch_number v = (case v of JInt n \<Rightarrow> 1 \<le> n \<and> n \<le> max_controller_epoch | _ \<Rightarrow> False)"

definition check_grant_input :: "json \<Rightarrow> json \<Rightarrow> json \<Rightarrow> epoch_error + string \<times> int option \<times> int" where
  "check_grant_input holder_id current_epoch lease_seconds =
     (case holder_id of
        JStr h \<Rightarrow>
          if \<not> holder_id_matches h then Inl (BadGrantInput ''holder_id'')
          else if current_epoch \<noteq> JNull \<and> \<not> is_epoch_number current_epoch
          then Inl (BadGrantInput ''current_epoch'')
          else (case lease_seconds of
                  JInt n \<Rightarrow>
                    if min_lease_seconds \<le> n \<and> n \<le> max_lease_seconds
                    then Inr (h, (case current_epoch of JInt e \<Rightarrow> Some e | _ \<Rightarrow> None), n)
                    else Inl (BadGrantInput ''lease_seconds'')
                | _ \<Rightarrow> Inl (BadGrantInput ''lease_seconds''))
      | _ \<Rightarrow> Inl (BadGrantInput ''holder_id''))"

section \<open>Granting\<close>

definition latest_in_tx :: "epoch_row list \<Rightarrow> epoch_row option" where
  "latest_in_tx rows = fetchone (rev (sort_key er_epoch rows))"

definition grant_in_tx ::
    "string \<Rightarrow> int option \<Rightarrow> int \<Rightarrow> instant \<Rightarrow> epoch_row list \<Rightarrow> (epoch_error + epoch_grant) \<times> epoch_row list" where
  "grant_in_tx holder_id current_epoch lease_seconds now rows =
     (let latest = latest_in_tx rows;
          expires = now + seconds lease_seconds
      in if (case current_epoch of
               None \<Rightarrow> False
             | Some c \<Rightarrow> (case latest of None \<Rightarrow> True | Some l \<Rightarrow> c > er_epoch l))
         then (Inl (EpochRefused EPOCH_UNKNOWN), rows)
         else case latest of
           Some l \<Rightarrow>
             if er_lease_expires_at l > now
             then if er_holder_id l \<noteq> holder_id \<or> current_epoch \<noteq> Some (er_epoch l)
                  then (Inl (EpochRefused EPOCH_HELD), rows)
                  else (Inr \<lparr>eg_epoch = er_epoch l, eg_holder_id = holder_id,
                             eg_lease_expires_at = expires, eg_renewed = True\<rparr>,
                        update_where (\<lambda>r. er_epoch r = er_epoch l)
                          (\<lambda>r. r\<lparr>er_renewed_at := now, er_lease_expires_at := expires\<rparr>) rows)
             else (Inr \<lparr>eg_epoch = er_epoch l + 1, eg_holder_id = holder_id,
                        eg_lease_expires_at = expires, eg_renewed = False\<rparr>,
                   rows @ [\<lparr>er_epoch = er_epoch l + 1, er_holder_id = holder_id, er_granted_at = now,
                            er_renewed_at = now, er_lease_expires_at = expires\<rparr>])
         | None \<Rightarrow> (Inr \<lparr>eg_epoch = 1, eg_holder_id = holder_id,
                         eg_lease_expires_at = expires, eg_renewed = False\<rparr>,
                    rows @ [\<lparr>er_epoch = 1, er_holder_id = holder_id, er_granted_at = now,
                             er_renewed_at = now, er_lease_expires_at = expires\<rparr>]))"

definition grant_work ::
    "string \<Rightarrow> int option \<Rightarrow> int \<Rightarrow> instant \<Rightarrow> epoch_db
     \<Rightarrow> (epoch_error journal_error + epoch_grant) \<times> epoch_db" where
  "grant_work holder_id current_epoch lease_seconds now db =
     (case grant_in_tx holder_id current_epoch lease_seconds now (jd_prod db) of
        (Inl e, rows) \<Rightarrow> (Inl (Raised e), db\<lparr>jd_prod := rows\<rparr>)
      | (Inr g, rows) \<Rightarrow> (Inr g, db\<lparr>jd_prod := rows\<rparr>))"

definition epoch_grant_call ::
    "json \<Rightarrow> json \<Rightarrow> json \<Rightarrow> pydatetime \<Rightarrow> epoch_db
     \<Rightarrow> (epoch_error journal_error + epoch_grant) \<times> epoch_db" where
  "epoch_grant_call holder_id current_epoch lease_seconds now db =
     (case check_grant_input holder_id current_epoch lease_seconds of
        Inl e \<Rightarrow> (Inl (Raised e), db)
      | Inr (h, c, n) \<Rightarrow>
         (case epoch_as_utc now of
            Inl e \<Rightarrow> (Inl (Raised e), db)
          | Inr t \<Rightarrow> mutate_batch_work (grant_work h c n t) db))"

definition require_current_in_tx :: "int option \<Rightarrow> epoch_row list \<Rightarrow> epoch_error + unit" where
  "require_current_in_tx epoch rows =
     (case epoch of
        None \<Rightarrow> Inl (EpochRefused EPOCH_MISSING)
      | Some e \<Rightarrow>
         (case latest_in_tx rows of
            None \<Rightarrow> Inl (EpochRefused EPOCH_STALE)
          | Some l \<Rightarrow> if e \<noteq> er_epoch l then Inl (EpochRefused EPOCH_STALE) else Inr ()))"

text \<open>The reply of the RPC handler \<open>_grant_ai_controller_epoch_handler\<close>.\<close>

definition grant_reply :: "epoch_grant \<Rightarrow> json" where
  "grant_reply g = JObj [(''epoch'', JInt (eg_epoch g)), (''lease_expires_at'', JTime (Aware (eg_lease_expires_at g)))]"

section \<open>The invariant\<close>

text \<open>
  At time \<open>t\<close>: epochs grow along the table from 1, no row lies in the future, and the lease of
  every epoch but the newest has expired.
\<close>

definition epochs_inv :: "instant \<Rightarrow> epoch_row list \<Rightarrow> bool" where
  "epochs_inv t rows \<longleftrightarrow>
     sorted_by er_epoch rows \<and> (\<forall>r \<in> set rows. 1 \<le> er_epoch r)
     \<and> (\<forall>r \<in> set (butlast rows). er_lease_expires_at r \<le> t)"

lemma epochs_inv_empty [simp]: "epochs_inv t []"
  by (simp add: epochs_inv_def)

lemma epochs_inv_mono: "epochs_inv t rows \<Longrightarrow> t \<le> t' \<Longrightarrow> epochs_inv t' rows"
  by (fastforce simp: epochs_inv_def)

lemma latest_last: "epochs_inv t rows \<Longrightarrow> latest_in_tx rows = (if rows = [] then None else Some (last rows))"
  by (cases rows rule: rev_cases) (simp_all add: latest_in_tx_def epochs_inv_def sorted_by_sort_key)

lemma update_last_only:
  assumes "sorted_by k (xs @ [x])" and "\<And>r. k (f r) = k r"
  shows "update_where (\<lambda>r. k r = k x) f (xs @ [x]) = xs @ [f x]"
  using assms by (simp add: sorted_by_append_single) (rule update_where_no_match, fastforce)

lemma grant_cases:
  assumes inv: "epochs_inv t rows" and run: "grant_in_tx h c n now rows = (res, rows')"
  obtains (refused) e where "res = Inl (EpochRefused e)" and "rows' = rows"
  | (renewed) xs l where "rows = xs @ [l]" and "now < er_lease_expires_at l" and "er_holder_id l = h"
      and "c = Some (er_epoch l)"
      and "res = Inr \<lparr>eg_epoch = er_epoch l, eg_holder_id = h, eg_lease_expires_at = now + seconds n, eg_renewed = True\<rparr>"
      and "rows' = xs @ [l\<lparr>er_renewed_at := now, er_lease_expires_at := now + seconds n\<rparr>]"
  | (granted) e where "rows \<noteq> [] \<Longrightarrow> er_lease_expires_at (last rows) \<le> now"
      and "e = (if rows = [] then 1 else er_epoch (last rows) + 1)"
      and "res = Inr \<lparr>eg_epoch = e, eg_holder_id = h, eg_lease_expires_at = now + seconds n, eg_renewed = False\<rparr>"
      and "rows' = rows @ [\<lparr>er_epoch = e, er_holder_id = h, er_granted_at = now, er_renewed_at = now,
             er_lease_expires_at = now + seconds n\<rparr>]"
proof (cases rows rule: rev_cases)
  case Nil
  then show thesis
    using run refused [of EPOCH_UNKNOWN] granted [of 1]
    by (auto simp: grant_in_tx_def latest_in_tx_def Let_def split: option.splits)
next
  case (snoc xs l)
  have latest: "latest_in_tx rows = Some l" using latest_last [OF inv] snoc by simp
  have sorted: "sorted_by er_epoch (xs @ [l])" using inv snoc by (simp add: epochs_inv_def)
  have upd: "update_where (\<lambda>r. er_epoch r = er_epoch l)
      (\<lambda>r. r\<lparr>er_renewed_at := now, er_lease_expires_at := now + seconds n\<rparr>) rows
      = xs @ [l\<lparr>er_renewed_at := now, er_lease_expires_at := now + seconds n\<rparr>]"
    unfolding snoc using sorted by (rule update_last_only) simp
  show thesis
  proof (cases "\<exists>e. res = Inl e")
    case True
    then have "(\<exists>e. res = Inl (EpochRefused e)) \<and> rows' = rows"
      using run latest by (auto simp: grant_in_tx_def Let_def split: option.splits if_splits)
    then show thesis using refused by blast
  next
    case False
    show thesis
    proof (cases "now < er_lease_expires_at l")
      case True
      then have "er_holder_id l = h" "c = Some (er_epoch l)"
        "res = Inr \<lparr>eg_epoch = er_epoch l, eg_holder_id = h, eg_lease_expires_at = now + seconds n, eg_renewed = True\<rparr>"
        "rows' = xs @ [l\<lparr>er_renewed_at := now, er_lease_expires_at := now + seconds n\<rparr>]"
        using run latest False upd by (auto simp: grant_in_tx_def Let_def split: option.splits if_splits)
      then show thesis by (rule renewed [OF snoc True])
    next
      case expired: False
      have "res = Inr \<lparr>eg_epoch = er_epoch l + 1, eg_holder_id = h, eg_lease_expires_at = now + seconds n, eg_renewed = False\<rparr>"
        "rows' = rows @ [\<lparr>er_epoch = er_epoch l + 1, er_holder_id = h, er_granted_at = now, er_renewed_at = now,
             er_lease_expires_at = now + seconds n\<rparr>]"
        using run latest False expired by (auto simp: grant_in_tx_def Let_def split: option.splits if_splits)
      then show thesis using granted [of "er_epoch l + 1"] expired snoc by simp
    qed
  qed
qed

lemma grant_inv:
  assumes inv: "epochs_inv t rows" and "t \<le> now" and run: "grant_in_tx h c n now rows = (res, rows')"
  shows "epochs_inv now rows'"
  using inv run
proof (cases rule: grant_cases)
  case (refused e)
  then show ?thesis using inv assms(2) epochs_inv_mono by simp
next
  case (renewed xs l)
  then show ?thesis
    using epochs_inv_mono [OF inv assms(2)] by (simp add: epochs_inv_def sorted_by_append_single)
next
  case (granted e)
  show ?thesis
  proof (cases rows rule: rev_cases)
    case Nil
    then show ?thesis using granted(2,4) by (simp add: epochs_inv_def sorted_by_def)
  next
    case (snoc xs l)
    note old = epochs_inv_mono [OF inv assms(2), unfolded epochs_inv_def]
    have "er_epoch r \<le> er_epoch l" if "r \<in> set rows" for r
      using sorted_by_last_max [of er_epoch rows r] old that snoc by simp
    then have "\<forall>r \<in> set rows. er_epoch r < e" using granted(2) snoc by fastforce
    then have "sorted_by er_epoch rows'" using old granted(4) by (simp add: sorted_by_append_single)
    moreover have "1 \<le> er_epoch l" using old snoc by simp
    then have "\<forall>r \<in> set rows'. 1 \<le> er_epoch r" using old granted(2,4) snoc by simp
    moreover have "\<forall>r \<in> set (butlast rows'). er_lease_expires_at r \<le> now"
      using old granted(1,4) snoc by (auto simp: butlast_append)
    ultimately show ?thesis by (simp add: epochs_inv_def)
  qed
qed

text \<open>A grant writes only its own table, so it is a unit of work of the journal.\<close>

lemma grant_work_ok:
  assumes "grant_work h c n now db = (res, db')"
  shows "jd_next_cursor db' = jd_next_cursor db" and "journal_inv db \<Longrightarrow> journal_inv db'"
    and "open_ok db \<Longrightarrow> open_ok db'" and "journal_extends db db'"
  using assms by (auto simp: grant_work_def open_ok_def journal_extends_def split: prod.splits sum.splits)

interpretation grant_tx: journal_work "grant_work h c n now" for h c n now
  by unfold_locales (auto simp: grant_work_ok)

lemma grant_call_table:
  assumes "epoch_grant_call (JStr h) cj (JInt n) (Aware now) db = (Inr g, db')"
  shows "\<exists>c. grant_in_tx h c n now (jd_prod db) = (Inr g, jd_prod db')"
  using assms
  by (auto simp: epoch_grant_call_def check_grant_input_def epoch_as_utc_def mutate_batch_work_def
      grant_work_def split: if_splits prod.splits sum.splits)

end
