(* ===== verification/Leadership.thy ===== *)
theory Leadership
  imports Controller_Epoch
begin

text \<open>
  The controller process's side of leadership, \<^verbatim>\<open>src/trader/ai/leadership.py\<close>, and the system
  of several such processes around one trader. A process asks for an epoch, persists it before
  using it, and uses it only before its own conservative deadline. Clocks are in microseconds.

  The system: time passes; a process sends a grant request (remembering when); the trader
  processes it at some later moment; the reply arrives later still, or never. The trader's clock
  is the system time and a process's monotonic clock runs at the same rate from an offset of its
  own. Holder ids are fresh per process (\<open>new_holder_id\<close>), so a process is named by its holder id.
\<close>

section \<open>The process\<close>

definition lease_safety :: duration where
  "lease_safety = seconds 5"

record held_epoch =
  he_epoch :: int
  he_lease_expires_at :: instant
  he_local_deadline :: instant

record held_epoch_row =
  hr_epoch :: int
  hr_holder_id :: string
  hr_acquired_at :: instant
  hr_renewed_at :: instant
  hr_lease_expires_at :: instant
  hr_lost_at :: "instant option"
  hr_lost_reason :: "string option"

record leadership =
  ld_holder_id :: string
  ld_lease_seconds :: int
  ld_renew :: duration
  ld_held_retry :: duration
  ld_held :: "held_epoch option"
  ld_last_epoch :: "int option"
  ld_store :: "held_epoch_row list"

datatype rpc_outcome = RpcReply json | RpcRefused string | RpcNotSent string | RpcOutcomeUnknown string

datatype leadership_error =
    NotLeader string
  | Refused string
  | NotSent string
  | OutcomeUnknown string
  | BadHolderId

definition lost_to_another :: "string list" where
  "lost_to_another = [''CONTROLLER_EPOCH_HELD'', ''CONTROLLER_EPOCH_UNKNOWN'']"

definition new_leadership :: "string \<Rightarrow> int \<Rightarrow> duration \<Rightarrow> duration \<Rightarrow> leadership_error + leadership" where
  "new_leadership holder_id lease_seconds renew held_retry =
     (if \<not> holder_id_matches holder_id then Inl BadHolderId
      else Inr \<lparr>ld_holder_id = holder_id, ld_lease_seconds = lease_seconds, ld_renew = renew,
                ld_held_retry = held_retry, ld_held = None, ld_last_epoch = None, ld_store = []\<rparr>)"

definition parse_grant :: "json \<Rightarrow> leadership_error + int \<times> instant" where
  "parse_grant reply =
     (case reply of
        JObj kvs \<Rightarrow>
          (case (jget kvs ''epoch'', jget kvs ''lease_expires_at'') of
             (Some (JInt epoch), Some (JTime (Aware t))) \<Rightarrow>
               if epoch < 1 then Inl (OutcomeUnknown ''GRANT_REPLY_MALFORMED'') else Inr (epoch, t)
           | _ \<Rightarrow> Inl (OutcomeUnknown ''GRANT_REPLY_MALFORMED''))
      | _ \<Rightarrow> Inl (OutcomeUnknown ''GRANT_REPLY_MALFORMED''))"

definition current_epoch :: "instant \<Rightarrow> leadership \<Rightarrow> int option" where
  "current_epoch monotonic ld =
     (case ld_held ld of
        None \<Rightarrow> None
      | Some held \<Rightarrow> if monotonic \<ge> he_local_deadline held then None else Some (he_epoch held))"

definition persist_epoch :: "int \<Rightarrow> instant \<Rightarrow> instant \<Rightarrow> leadership \<Rightarrow> leadership" where
  "persist_epoch epoch expires now ld =
     (let superseded = (case ld_last_epoch ld of
            Some previous \<Rightarrow>
              if previous \<noteq> epoch
              then update_where (\<lambda>r. hr_epoch r = previous \<and> hr_lost_at r = None)
                     (\<lambda>r. r\<lparr>hr_lost_at := Some now, hr_lost_reason := Some ''SUPERSEDED''\<rparr>) (ld_store ld)
              else ld_store ld
          | None \<Rightarrow> ld_store ld)
      in ld\<lparr>ld_store :=
           if \<exists>r \<in> set superseded. hr_epoch r = epoch
           then update_where (\<lambda>r. hr_epoch r = epoch)
                  (\<lambda>r. r\<lparr>hr_holder_id := ld_holder_id ld, hr_renewed_at := now,
                         hr_lease_expires_at := expires, hr_lost_at := None, hr_lost_reason := None\<rparr>) superseded
           else superseded @ [\<lparr>hr_epoch = epoch, hr_holder_id = ld_holder_id ld, hr_acquired_at = now,
                               hr_renewed_at = now, hr_lease_expires_at = expires, hr_lost_at = None,
                               hr_lost_reason = None\<rparr>]\<rparr>)"

definition mark_lost :: "string \<Rightarrow> instant \<Rightarrow> leadership \<Rightarrow> leadership" where
  "mark_lost reason now ld =
     (case ld_held ld of
        None \<Rightarrow> ld\<lparr>ld_held := None\<rparr>
      | Some held \<Rightarrow>
          ld\<lparr>ld_held := None,
             ld_store := update_where (\<lambda>r. hr_epoch r = he_epoch held \<and> hr_lost_at r = None)
               (\<lambda>r. r\<lparr>hr_lost_at := Some now, hr_lost_reason := Some reason\<rparr>) (ld_store ld)\<rparr>)"

definition on_stale :: "string \<Rightarrow> instant \<Rightarrow> leadership \<Rightarrow> leadership" where
  "on_stale code now ld = mark_lost code now ld"

text \<open>
  \<open>grant_once\<close> from the moment the call returns: \<open>started\<close> is the monotonic clock before the
  request was sent, \<open>now\<close> the wall clock.
\<close>

definition grant_once_finish ::
    "instant \<Rightarrow> rpc_outcome \<Rightarrow> instant \<Rightarrow> leadership \<Rightarrow> (leadership_error + int) \<times> leadership" where
  "grant_once_finish started out now ld =
     (case out of
        RpcRefused code \<Rightarrow>
          if code \<notin> set lost_to_another then (Inl (Refused code), ld)
          else let ld1 = (if code = ''CONTROLLER_EPOCH_UNKNOWN'' then ld\<lparr>ld_last_epoch := None\<rparr> else ld)
               in (Inl (NotLeader code), mark_lost code now ld1)
      | RpcNotSent code \<Rightarrow> (Inl (NotSent code), ld)
      | RpcOutcomeUnknown code \<Rightarrow> (Inl (OutcomeUnknown code), ld)
      | RpcReply reply \<Rightarrow>
         (case parse_grant reply of
            Inl e \<Rightarrow> (Inl e, ld)
          | Inr (epoch, expires) \<Rightarrow>
              (Inr epoch,
               (persist_epoch epoch expires now ld)
                 \<lparr>ld_last_epoch := Some epoch,
                  ld_held := Some \<lparr>he_epoch = epoch, he_lease_expires_at = expires,
                    he_local_deadline = started + seconds (ld_lease_seconds ld) - lease_safety\<rparr>\<rparr>)))"

text \<open>One turn of the renewal loop before its next request: an overdue epoch is given up, then it sleeps.\<close>

definition renewal_turn :: "instant \<Rightarrow> instant \<Rightarrow> leadership \<Rightarrow> duration \<times> leadership" where
  "renewal_turn monotonic now ld =
     (let ld1 = (case ld_held ld of
                   Some held \<Rightarrow> if monotonic \<ge> he_local_deadline held
                                then mark_lost ''LEASE_EXPIRED_LOCALLY'' now ld else ld
                 | None \<Rightarrow> ld)
      in (if current_epoch monotonic ld1 \<noteq> None then ld_renew ld1 else ld_held_retry ld1, ld1))"

section \<open>The system\<close>

datatype request_phase =
    Idle
  | Requested instant "int option"
  | Answered instant rpc_outcome

record lead_system =
  ls_time :: instant
  ls_trader :: "epoch_row list"
  ls_process :: "string \<Rightarrow> leadership"
  ls_phase :: "string \<Rightarrow> request_phase"

definition refusal_code :: "epoch_error \<Rightarrow> string" where
  "refusal_code e =
     (case e of
        EpochRefused EPOCH_MISSING \<Rightarrow> ''CONTROLLER_EPOCH_MISSING''
      | EpochRefused EPOCH_STALE \<Rightarrow> ''CONTROLLER_EPOCH_STALE''
      | EpochRefused EPOCH_HELD \<Rightarrow> ''CONTROLLER_EPOCH_HELD''
      | EpochRefused EPOCH_UNKNOWN \<Rightarrow> ''CONTROLLER_EPOCH_UNKNOWN''
      | BadGrantInput _ \<Rightarrow> ''INVALID_REQUEST''
      | EpochNaiveTime \<Rightarrow> ''INTERNAL_ERROR'')"

definition rpc_of_grant :: "epoch_error + epoch_grant \<Rightarrow> rpc_outcome" where
  "rpc_of_grant r = (case r of Inl e \<Rightarrow> RpcRefused (refusal_code e) | Inr g \<Rightarrow> RpcReply (grant_reply g))"

text \<open>
  \<open>offset h\<close> is what process \<open>h\<close>'s monotonic clock shows at system time 0, \<open>lease h\<close> the lease it
  asks for.
\<close>

inductive lead_step :: "(string \<Rightarrow> instant) \<Rightarrow> lead_system \<Rightarrow> lead_system \<Rightarrow> bool"
    for offset :: "string \<Rightarrow> instant" where
  lead_tick: "ls_time s \<le> t \<Longrightarrow> lead_step offset s (s\<lparr>ls_time := t\<rparr>)"
| lead_send: "ls_phase s h = Idle \<Longrightarrow>
    lead_step offset s (s\<lparr>ls_phase := (ls_phase s)(h := Requested (offset h + ls_time s) (ld_last_epoch (ls_process s h)))\<rparr>)"
| lead_serve: "ls_phase s h = Requested started c \<Longrightarrow>
    grant_in_tx h c (ld_lease_seconds (ls_process s h)) (ls_time s) (ls_trader s) = (res, rows) \<Longrightarrow>
    lead_step offset s (s\<lparr>ls_trader := rows, ls_phase := (ls_phase s)(h := Answered started (rpc_of_grant res))\<rparr>)"
| lead_lose: "ls_phase s h = Requested started c \<or> ls_phase s h = Answered started out \<Longrightarrow>
    lead_step offset s (s\<lparr>ls_phase := (ls_phase s)(h := Answered started (RpcOutcomeUnknown code))\<rparr>)"
| lead_receive: "ls_phase s h = Answered started out \<Longrightarrow>
    grant_once_finish started out now (ls_process s h) = (res, ld) \<Longrightarrow>
    lead_step offset s (s\<lparr>ls_process := (ls_process s)(h := ld), ls_phase := (ls_phase s)(h := Idle)\<rparr>)"
| lead_turn: "renewal_turn (offset h + ls_time s) now (ls_process s h) = (sleep, ld) \<Longrightarrow>
    lead_step offset s (s\<lparr>ls_process := (ls_process s)(h := ld)\<rparr>)"
| lead_stale: "lead_step offset s (s\<lparr>ls_process := (ls_process s)(h := on_stale code now (ls_process s h))\<rparr>)"

definition lead_init :: "instant \<Rightarrow> (string \<Rightarrow> leadership) \<Rightarrow> lead_system" where
  "lead_init t procs = \<lparr>ls_time = t, ls_trader = [], ls_process = procs, ls_phase = (\<lambda>_. Idle)\<rparr>"

section \<open>The invariant\<close>

text \<open>The trader's row behind an epoch that process \<open>h\<close> may use until \<open>deadline\<close> (system time).\<close>

definition backed :: "epoch_row list \<Rightarrow> string \<Rightarrow> int \<Rightarrow> instant \<Rightarrow> bool" where
  "backed rows h epoch deadline \<longleftrightarrow>
     (\<exists>r \<in> set rows. er_epoch r = epoch \<and> er_holder_id r = h \<and> deadline \<le> er_lease_expires_at r)"

definition lease_of :: "lead_system \<Rightarrow> string \<Rightarrow> duration" where
  "lease_of s h = seconds (ld_lease_seconds (ls_process s h))"

definition phase_ok :: "(string \<Rightarrow> instant) \<Rightarrow> lead_system \<Rightarrow> string \<Rightarrow> bool" where
  "phase_ok offset s h =
     (case ls_phase s h of
        Idle \<Rightarrow> True
      | Requested started c \<Rightarrow> started - offset h \<le> ls_time s
      | Answered started out \<Rightarrow> started - offset h \<le> ls_time s
          \<and> (case out of
               RpcReply reply \<Rightarrow>
                 (case parse_grant reply of
                    Inl _ \<Rightarrow> True
                  | Inr (epoch, _) \<Rightarrow> backed (ls_trader s) h epoch (started - offset h + lease_of s h))
             | _ \<Rightarrow> True))"

definition held_ok :: "(string \<Rightarrow> instant) \<Rightarrow> lead_system \<Rightarrow> string \<Rightarrow> bool" where
  "held_ok offset s h =
     (case ld_held (ls_process s h) of
        None \<Rightarrow> True
      | Some e \<Rightarrow> backed (ls_trader s) h (he_epoch e) (he_local_deadline e - offset h + lease_safety))"

definition lead_inv :: "(string \<Rightarrow> instant) \<Rightarrow> lead_system \<Rightarrow> bool" where
  "lead_inv offset s \<longleftrightarrow>
     epochs_inv (ls_time s) (ls_trader s)
     \<and> (\<forall>r \<in> set (ls_trader s). er_lease_expires_at r \<le> ls_time s + lease_of s (er_holder_id r))
     \<and> (\<forall>h. phase_ok offset s h) \<and> (\<forall>h. held_ok offset s h)"

lemma lead_inv_init: "(\<And>h. ld_held (procs h) = None) \<Longrightarrow> lead_inv offset (lead_init t procs)"
  by (simp add: lead_inv_def lead_init_def phase_ok_def held_ok_def)

lemma mark_lost_simps [simp]:
  "ld_held (mark_lost reason now ld) = None"
  "ld_lease_seconds (mark_lost reason now ld) = ld_lease_seconds ld"
  by (simp_all add: mark_lost_def split: option.splits)

lemma grant_once_lease:
  "grant_once_finish started out now ld = (res, ld') \<Longrightarrow> ld_lease_seconds ld' = ld_lease_seconds ld"
  by (auto simp: grant_once_finish_def persist_epoch_def Let_def split: rpc_outcome.splits sum.splits if_splits)

lemma grant_once_held:
  assumes "grant_once_finish started out now ld = (res, ld')"
  shows "ld_held ld' = None \<or> ld_held ld' = ld_held ld
    \<or> (\<exists>reply epoch expires. out = RpcReply reply \<and> parse_grant reply = Inr (epoch, expires)
        \<and> ld_held ld' = Some \<lparr>he_epoch = epoch, he_lease_expires_at = expires,
            he_local_deadline = started + seconds (ld_lease_seconds ld) - lease_safety\<rparr>)"
  using assms
  by (auto simp: grant_once_finish_def persist_epoch_def Let_def split: rpc_outcome.splits sum.splits if_splits)

lemma renewal_turn_simps:
  assumes "renewal_turn monotonic now ld = (sleep, ld')"
  shows "ld_lease_seconds ld' = ld_lease_seconds ld" and "ld_held ld' = None \<or> ld_held ld' = ld_held ld"
  using assms by (auto simp: renewal_turn_def Let_def split: option.splits if_splits)

text \<open>A grant never shortens a lease, so what backed an epoch still backs it.\<close>

lemma grant_backed:
  assumes inv: "epochs_inv now rows" and run: "grant_in_tx h c n now rows = (res, rows')"
    and cap: "\<forall>r \<in> set rows. er_holder_id r = h \<longrightarrow> er_lease_expires_at r \<le> now + seconds n"
    and old: "backed rows g epoch deadline"
  shows "backed rows' g epoch deadline"
  using inv run
proof (cases rule: grant_cases)
  case (renewed xs l)
  obtain r where r: "r \<in> set rows" "er_epoch r = epoch" "er_holder_id r = g" "deadline \<le> er_lease_expires_at r"
    using old by (auto simp: backed_def)
  show ?thesis
  proof (cases "r = l")
    case True
    then have "er_lease_expires_at r \<le> now + seconds n" using cap r(1) renewed(3) by auto
    then show ?thesis unfolding backed_def renewed(6) using r True by (auto)
  next
    case False
    then show ?thesis unfolding backed_def renewed(6) using r renewed(1) by auto
  qed
next
  case (granted e)
  then show ?thesis using old by (auto simp: backed_def)
qed (use old in simp)

lemma parse_grant_reply: "parse_grant (grant_reply g) = Inr (e, t) \<Longrightarrow> e = eg_epoch g"
  by (auto simp: parse_grant_def grant_reply_def jget_def split: if_splits)

lemma grant_backs_reply:
  assumes "epochs_inv now rows" and "grant_in_tx h c n now rows = (Inr g, rows')"
  shows "backed rows' h (eg_epoch g) (now + seconds n)"
    and "r \<in> set rows' \<Longrightarrow> (r \<in> set rows \<or> er_holder_id r = h \<and> er_lease_expires_at r = now + seconds n)"
  using assms by (auto elim!: grant_cases simp: backed_def)

text \<open>Steps that keep the trader's table and only take time or leave processes without an epoch.\<close>

lemma lead_inv_frame:
  assumes inv: "lead_inv offset s" and "ls_time s \<le> ls_time s'" and "ls_trader s' = ls_trader s"
    and lease: "\<And>h. lease_of s' h = lease_of s h"
    and phase: "\<And>h. phase_ok offset s' h" and held: "\<And>h. held_ok offset s' h"
  shows "lead_inv offset s'"
  using assms by (auto simp: lead_inv_def intro: epochs_inv_mono)

lemma lead_serve_inv:
  assumes inv: "lead_inv offset s" and req: "ls_phase s h = Requested started c"
    and run: "grant_in_tx h c (ld_lease_seconds (ls_process s h)) (ls_time s) (ls_trader s) = (res, rows)"
  shows "lead_inv offset (s\<lparr>ls_trader := rows, ls_phase := (ls_phase s)(h := Answered started (rpc_of_grant res))\<rparr>)"
    (is "lead_inv offset ?s'")
proof -
  let ?now = "ls_time s" and ?n = "ld_lease_seconds (ls_process s h)"
  have ep: "epochs_inv ?now (ls_trader s)" using inv by (simp add: lead_inv_def)
  have cap: "\<forall>r \<in> set (ls_trader s). er_lease_expires_at r \<le> ?now + lease_of s (er_holder_id r)"
    using inv by (simp add: lead_inv_def)
  then have cap_h: "\<forall>r \<in> set (ls_trader s). er_holder_id r = h \<longrightarrow> er_lease_expires_at r \<le> ?now + seconds ?n"
    by (auto simp: lease_of_def)
  note keep = grant_backed [OF ep run cap_h]
  have lease: "lease_of ?s' = lease_of s" by (simp add: lease_of_def fun_eq_iff)
  have new: "\<forall>r \<in> set rows. er_lease_expires_at r \<le> ?now + lease_of s (er_holder_id r)"
  proof (cases res)
    case (Inl e)
    then have "rows = ls_trader s" using run ep by (auto elim!: grant_cases)
    then show ?thesis using cap by simp
  next
    case (Inr g)
    show ?thesis
    proof
      fix r assume "r \<in> set rows"
      then consider "r \<in> set (ls_trader s)" | "er_holder_id r = h" "er_lease_expires_at r = ?now + seconds ?n"
        using grant_backs_reply(2) [OF ep run [unfolded Inr]] by blast
      then show "er_lease_expires_at r \<le> ?now + lease_of s (er_holder_id r)"
        using cap by cases (auto simp: lease_of_def)
    qed
  qed
  have st: "started - offset h \<le> ?now" using inv req by (auto simp: lead_inv_def phase_ok_def dest: spec [of _ h])
  have "phase_ok offset ?s' g" for g
  proof (cases "g = h")
    case False
    have "phase_ok offset s g" using inv by (simp add: lead_inv_def)
    then show ?thesis using False keep lease
      by (auto simp: phase_ok_def split: request_phase.splits rpc_outcome.splits sum.splits)
  next
    case True
    have "backed rows h epoch (started - offset h + lease_of s h)"
      if "res = Inr gr" "parse_grant (grant_reply gr) = Inr (epoch, t)" for gr epoch t
    proof -
      have "backed rows h (eg_epoch gr) (?now + seconds ?n)"
        using grant_backs_reply(1) [OF ep run [unfolded that(1)]] .
      then show ?thesis using parse_grant_reply [OF that(2)] st by (force simp: backed_def lease_of_def)
    qed
    then show ?thesis using True st lease
      by (auto simp: phase_ok_def rpc_of_grant_def split: sum.splits)
  qed
  moreover have "held_ok offset ?s' g" for g
  proof -
    have "held_ok offset s g" using inv by (simp add: lead_inv_def)
    then show ?thesis using keep by (auto simp: held_ok_def split: option.splits)
  qed
  moreover have "epochs_inv ?now rows" using ep run by (intro grant_inv [OF ep _ run]) simp
  ultimately show ?thesis using new lease by (simp add: lead_inv_def)
qed

lemma phase_ok_frame:
  assumes "phase_ok offset s g" and "ls_phase s' g = ls_phase s g" and "ls_trader s' = ls_trader s"
    and "ls_time s \<le> ls_time s'" and "lease_of s' g = lease_of s g"
  shows "phase_ok offset s' g"
  using assms unfolding phase_ok_def
  by (auto split: request_phase.splits rpc_outcome.splits sum.splits)

lemma held_ok_frame:
  assumes "held_ok offset s g" and "ls_trader s' = ls_trader s"
    and "ld_held (ls_process s' g) = None \<or> ld_held (ls_process s' g) = ld_held (ls_process s g)"
  shows "held_ok offset s' g"
  using assms by (auto simp: held_ok_def split: option.splits)

lemma lead_step_inv: "lead_step offset s s' \<Longrightarrow> lead_inv offset s \<Longrightarrow> lead_inv offset s'"
proof (induction rule: lead_step.induct)
  case (lead_tick s t)
  have ok: "phase_ok offset s g" "held_ok offset s g" for g using lead_tick(2) by (simp_all add: lead_inv_def)
  show ?case using lead_tick(1)
    by (intro lead_inv_frame [OF lead_tick(2)] phase_ok_frame [OF ok(1)] held_ok_frame [OF ok(2)])
      (simp_all add: lease_of_def)
next
  case (lead_send s h)
  let ?s' = "s\<lparr>ls_phase := (ls_phase s)(h := Requested (offset h + ls_time s) (ld_last_epoch (ls_process s h)))\<rparr>"
  have ok: "phase_ok offset s g" "held_ok offset s g" for g using lead_send(2) by (simp_all add: lead_inv_def)
  have "phase_ok offset ?s' g" for g
  proof (cases "g = h")
    case True
    then show ?thesis by (simp add: phase_ok_def)
  next
    case False
    then show ?thesis by (intro phase_ok_frame [OF ok(1)]) (simp_all add: lease_of_def)
  qed
  then show ?case by (intro lead_inv_frame [OF lead_send(2)] held_ok_frame [OF ok(2)]) (simp_all add: lease_of_def)
next
  case (lead_serve s h started c res rows)
  then show ?case using lead_serve_inv by blast
next
  case (lead_lose s h started c out code)
  let ?s' = "s\<lparr>ls_phase := (ls_phase s)(h := Answered started (RpcOutcomeUnknown code))\<rparr>"
  have ok: "phase_ok offset s g" "held_ok offset s g" for g using lead_lose(2) by (simp_all add: lead_inv_def)
  have "phase_ok offset ?s' g" for g
  proof (cases "g = h")
    case True
    then show ?thesis using ok(1) [of h] lead_lose(1) by (auto simp: phase_ok_def)
  next
    case False
    then show ?thesis by (intro phase_ok_frame [OF ok(1)]) (simp_all add: lease_of_def)
  qed
  then show ?case by (intro lead_inv_frame [OF lead_lose(2)] held_ok_frame [OF ok(2)]) (simp_all add: lease_of_def)
next
  case (lead_receive s h started out now res ld)
  let ?s' = "s\<lparr>ls_process := (ls_process s)(h := ld), ls_phase := (ls_phase s)(h := Idle)\<rparr>"
  have lease: "lease_of ?s' g = lease_of s g" for g
    using grant_once_lease [OF lead_receive(2)] by (simp add: lease_of_def)
  have ok: "phase_ok offset s g" "held_ok offset s g" for g using lead_receive(3) by (simp_all add: lead_inv_def)
  have "phase_ok offset ?s' g" for g
  proof (cases "g = h")
    case True
    then show ?thesis by (simp add: phase_ok_def)
  next
    case False
    then show ?thesis using lease by (intro phase_ok_frame [OF ok(1)]) simp_all
  qed
  moreover have "held_ok offset ?s' g" for g
  proof (cases "g = h")
    case True
    from grant_once_held [OF lead_receive(2)] show ?thesis
    proof (elim disjE exE conjE)
      fix reply epoch expires
      assume out: "out = RpcReply reply" "parse_grant reply = Inr (epoch, expires)"
        and held: "ld_held ld = Some \<lparr>he_epoch = epoch, he_lease_expires_at = expires, he_local_deadline =
            started + seconds (ld_lease_seconds (ls_process s h)) - lease_safety\<rparr>"
      have "backed (ls_trader s) h epoch (started - offset h + lease_of s h)"
        using ok(1) [of h] lead_receive(1) out by (simp add: phase_ok_def)
      then show ?thesis using held True by (simp add: held_ok_def lease_of_def algebra_simps)
    next
      assume "ld_held ld = None"
      then show ?thesis using True by (simp add: held_ok_def)
    next
      assume "ld_held ld = ld_held (ls_process s h)"
      then show ?thesis using True by (intro held_ok_frame [OF ok(2)]) simp_all
    qed
  next
    case False
    then show ?thesis by (intro held_ok_frame [OF ok(2)]) simp_all
  qed
  ultimately show ?case using lease by (intro lead_inv_frame [OF lead_receive(3)]) simp_all
next
  case (lead_turn h s now sleep ld)
  have ok: "phase_ok offset s g" "held_ok offset s g" for g using lead_turn(2) by (simp_all add: lead_inv_def)
  show ?case using renewal_turn_simps [OF lead_turn(1)]
    by (intro lead_inv_frame [OF lead_turn(2)] phase_ok_frame [OF ok(1)] held_ok_frame [OF ok(2)])
      (simp_all add: lease_of_def)
next
  case (lead_stale s h code now)
  have ok: "phase_ok offset s g" "held_ok offset s g" for g using lead_stale by (simp_all add: lead_inv_def)
  show ?case
    by (intro lead_inv_frame [OF lead_stale] phase_ok_frame [OF ok(1)] held_ok_frame [OF ok(2)])
      (simp_all add: lease_of_def on_stale_def)
qed

interpretation lead_machine: state_machine "lead_step offset" "lead_inv offset" for offset
  by unfold_locales (rule lead_step_inv)

section \<open>Properties of leadership\<close>

text \<open>
  C25. At most one controller leads: whatever the interleaving of requests, lost and late replies,
  restarts (fresh holder ids) and clock offsets, two processes that would use an epoch at the
  same moment are the same process, and the epoch it would use is the trader's current one, so
  the trader's own check accepts it.
\<close>

theorem one_leader_at_a_time:
  assumes start: "\<And>h. ld_held (procs h) = None"
    and run: "(lead_step offset)\<^sup>*\<^sup>* (lead_init t procs) s"
    and lead: "current_epoch (offset h + ls_time s) (ls_process s h) = Some e"
    and lead': "current_epoch (offset h' + ls_time s) (ls_process s h') = Some e'"
  shows "h = h' \<and> e = e' \<and> require_current_in_tx (Some e) (ls_trader s) = Inr ()"
proof -
  have inv: "lead_inv offset s" using run lead_inv_init [OF start] by (rule lead_machine.run_inv)
  have ep: "epochs_inv (ls_time s) (ls_trader s)" using inv by (simp add: lead_inv_def)
  have row: "ls_trader s \<noteq> [] \<and> er_holder_id (last (ls_trader s)) = g \<and> er_epoch (last (ls_trader s)) = x"
    if use: "current_epoch (offset g + ls_time s) (ls_process s g) = Some x" for g x
  proof -
    obtain held where held: "ld_held (ls_process s g) = Some held" "he_epoch held = x"
      and time: "offset g + ls_time s < he_local_deadline held"
      using use by (auto simp: current_epoch_def split: option.splits if_splits)
    have "held_ok offset s g" using inv by (simp add: lead_inv_def)
    then obtain r where r: "r \<in> set (ls_trader s)" "er_epoch r = x" "er_holder_id r = g"
      and lease: "he_local_deadline held - offset g + lease_safety \<le> er_lease_expires_at r"
      using held by (auto simp: held_ok_def backed_def)
    have "ls_time s < er_lease_expires_at r" using time lease by (simp add: lease_safety_def seconds_def)
    then have "r \<notin> set (butlast (ls_trader s))" using ep by (auto simp: epochs_inv_def)
    then have "r = last (ls_trader s)"
      using r(1) by (metis append_butlast_last_id empty_iff list.set(1) rotate1.simps(2) set_ConsD set_rotate1)
    then show ?thesis using r by auto
  qed
  have "latest_in_tx (ls_trader s) = Some (last (ls_trader s))"
    using latest_last [OF ep] row [OF lead] by simp
  then show ?thesis using row [OF lead] row [OF lead'] by (auto simp: require_current_in_tx_def)
qed

text \<open>
  While a lease runs, the trader grants nothing to anybody else: another holder, or the same
  holder without the current epoch number, is refused and the table is unchanged; the holder
  itself renews under the same epoch number, and after expiry the next grant takes a strictly
  larger number.
\<close>

lemma lease_excludes_others:
  assumes inv: "epochs_inv t (xs @ [l])"
  shows "grant_in_tx h c n now (xs @ [l]) =
    (if \<exists>k. c = Some k \<and> er_epoch l < k then (Inl (EpochRefused EPOCH_UNKNOWN), xs @ [l])
     else if now < er_lease_expires_at l \<and> (h \<noteq> er_holder_id l \<or> c \<noteq> Some (er_epoch l))
     then (Inl (EpochRefused EPOCH_HELD), xs @ [l])
     else if now < er_lease_expires_at l
     then (Inr \<lparr>eg_epoch = er_epoch l, eg_holder_id = h, eg_lease_expires_at = now + seconds n, eg_renewed = True\<rparr>,
           xs @ [l\<lparr>er_renewed_at := now, er_lease_expires_at := now + seconds n\<rparr>])
     else (Inr \<lparr>eg_epoch = er_epoch l + 1, eg_holder_id = h, eg_lease_expires_at = now + seconds n, eg_renewed = False\<rparr>,
           xs @ [l, \<lparr>er_epoch = er_epoch l + 1, er_holder_id = h, er_granted_at = now, er_renewed_at = now,
                    er_lease_expires_at = now + seconds n\<rparr>]))"
proof -
  have latest: "latest_in_tx (xs @ [l]) = Some l" using latest_last [OF inv] by simp
  have "sorted_by er_epoch (xs @ [l])" using inv by (simp add: epochs_inv_def)
  from update_last_only [OF this, of "\<lambda>r. r\<lparr>er_renewed_at := now, er_lease_expires_at := now + seconds n\<rparr>"]
  have upd: "update_where (\<lambda>r. er_epoch r = er_epoch l)
      (\<lambda>r. r\<lparr>er_renewed_at := now, er_lease_expires_at := now + seconds n\<rparr>) (xs @ [l])
      = xs @ [l\<lparr>er_renewed_at := now, er_lease_expires_at := now + seconds n\<rparr>]" by simp
  show ?thesis unfolding grant_in_tx_def latest Let_def upd
    by (cases c) (auto simp: upd simp del: update_where_append)
qed

section \<open>Witnesses\<close>

definition demo_process :: "string \<Rightarrow> leadership" where
  "demo_process h = \<lparr>ld_holder_id = h, ld_lease_seconds = 60, ld_renew = seconds 20,
     ld_held_retry = seconds 5, ld_held = None, ld_last_epoch = None, ld_store = []\<rparr>"

definition demo_lead_rows :: "epoch_row list" where
  "demo_lead_rows = [\<lparr>er_epoch = 1, er_holder_id = ''ai-a'', er_granted_at = 0, er_renewed_at = 0,
     er_lease_expires_at = seconds 60\<rparr>]"

definition demo_lead_state :: "leadership \<Rightarrow> request_phase \<Rightarrow> epoch_row list \<Rightarrow> lead_system" where
  "demo_lead_state ld ph rows =
     \<lparr>ls_time = 0, ls_trader = rows, ls_process = demo_process(''ai-a'' := ld),
      ls_phase = (\<lambda>_. Idle)(''ai-a'' := ph)\<rparr>"

definition demo_leader :: leadership where
  "demo_leader = snd (grant_once_finish 0 (rpc_of_grant (fst (grant_in_tx ''ai-a'' None 60 0 []))) 0 (demo_process ''ai-a''))"

lemma demo_lead_run:
  "(lead_step (\<lambda>_. 0))\<^sup>*\<^sup>* (lead_init 0 demo_process) (demo_lead_state demo_leader Idle demo_lead_rows)"
proof -
  let ?p = "demo_process ''ai-a''" and ?res = "fst (grant_in_tx ''ai-a'' None 60 0 [])"
  let ?s0 = "demo_lead_state ?p Idle []" and ?s1 = "demo_lead_state ?p (Requested 0 None) []"
  let ?s2 = "demo_lead_state ?p (Answered 0 (rpc_of_grant ?res)) demo_lead_rows"
  have 0: "lead_init 0 demo_process = ?s0" by (simp add: lead_init_def demo_lead_state_def fun_eq_iff)
  have 1: "lead_step (\<lambda>_. 0) ?s0 ?s1"
    using lead_send [of ?s0 "''ai-a''" "\<lambda>_. 0"] by (simp add: demo_lead_state_def demo_process_def)
  have grant: "grant_in_tx ''ai-a'' None 60 0 [] = (?res, demo_lead_rows)" by code_simp
  have lease: "ld_lease_seconds (ls_process ?s1 ''ai-a'') = 60"
    by (simp add: demo_lead_state_def demo_process_def)
  have 2: "lead_step (\<lambda>_. 0) ?s1 ?s2"
    using lead_serve [of ?s1 "''ai-a''" 0 None ?res demo_lead_rows "\<lambda>_. 0"] grant lease
    by (simp add: demo_lead_state_def)
  have 3: "lead_step (\<lambda>_. 0) ?s2 (demo_lead_state demo_leader Idle demo_lead_rows)"
    using lead_receive [of ?s2 "''ai-a''" 0 "rpc_of_grant ?res" 0
        "fst (grant_once_finish 0 (rpc_of_grant ?res) 0 ?p)" demo_leader "\<lambda>_. 0"]
    by (simp add: demo_lead_state_def demo_leader_def)
  show ?thesis unfolding 0 using 1 2 3 by (meson converse_rtranclp_into_rtranclp rtranclp.rtrancl_refl)
qed

theorem one_leader_at_a_time_witness:
  "current_epoch 0 (ls_process (demo_lead_state demo_leader Idle demo_lead_rows) ''ai-a'') = Some 1
   \<and> require_current_in_tx (Some 1) demo_lead_rows = Inr ()"
proof -
  let ?s = "demo_lead_state demo_leader Idle demo_lead_rows"
  have "current_epoch 0 demo_leader = Some 1" by code_simp
  then have lead: "current_epoch ((\<lambda>_. 0) ''ai-a'' + ls_time ?s) (ls_process ?s ''ai-a'') = Some 1"
    by (simp add: demo_lead_state_def)
  have "ld_held (demo_process h) = None" for h by (simp add: demo_process_def)
  from one_leader_at_a_time [OF this demo_lead_run lead lead] lead
  show ?thesis by (simp add: demo_lead_state_def)
qed

lemma lease_excludes_others_example:
  "grant_in_tx ''ai-b'' None 60 (seconds 30) demo_lead_rows = (Inl (EpochRefused EPOCH_HELD), demo_lead_rows)"
proof -
  have "epochs_inv 0 ([] @ [hd demo_lead_rows])" by (simp add: epochs_inv_def demo_lead_rows_def sorted_by_def)
  from lease_excludes_others [OF this, of "''ai-b''" None 60 "seconds 30"] show ?thesis
    by (simp add: demo_lead_rows_def seconds_def)
qed

end
