(* ===== verification/Ai_Budget.thy ===== *)
theory Ai_Budget
  imports Prelude
begin

text \<open>
  The durable model budget, \<^verbatim>\<open>src/trader/ai/budget.py\<close>: the daily cap with its scheduled raise,
  reservations, settlement and the hourly limit. Money is integer micro-USD.

  The calendar of America/New York comes from the time-zone database, so the two functions the
  code takes from it are arguments: \<open>date_of\<close> (an instant's New York date, as a day number; the
  ISO text the code stores compares the same way) and \<open>midnight_of\<close> (the instant a date starts).
  Every operation runs in one store transaction: an exception leaves the tables as they were.
\<close>

section \<open>Tables\<close>

datatype reservation_state = ResOpen | ResUnknown | ResSettled | ResReleased

record reservation_row =
  rv_id :: string
  rv_window :: int
  rv_role :: string
  rv_backend :: string
  rv_model :: string
  rv_state :: reservation_state
  rv_reserved :: int
  rv_actual :: "int option"
  rv_input_tokens :: "int option"
  rv_output_tokens :: "int option"
  rv_release_reason :: "string option"
  rv_created_at :: instant
  rv_closed_at :: "instant option"

record cap_state =
  cs_effective :: int
  cs_pending :: "int option"
  cs_pending_window :: "int option"
  cs_updated_at :: instant

record cap_event =
  ce_occurred_at :: instant
  ce_kind :: string
  ce_requested :: int
  ce_effective :: int
  ce_pending :: "int option"
  ce_pending_window :: "int option"

record budget_db =
  bd_state :: "cap_state option"
  bd_events :: "cap_event list"
  bd_reservations :: "reservation_row list"

definition empty_budget :: budget_db where
  "empty_budget = \<lparr>bd_state = None, bd_events = [], bd_reservations = []\<rparr>"

datatype budget_error =
    BudgetNotInitialized
  | BudgetExhausted int int int int instant
  | HourlyLimitReached instant duration
  | BudgetConflict string
  | BudgetValueError
  | DuplicateReservation string
  | BudgetTypeError

record reservation =
  re_id :: string
  re_window :: int
  re_reserved :: int
  re_state :: reservation_state
  re_actual :: "int option"

record budget_snapshot =
  sn_window :: int
  sn_effective :: int
  sn_pending :: "int option"
  sn_pending_window :: "int option"
  sn_committed :: int
  sn_open :: int
  sn_unknown :: int
  sn_next_reset_at :: instant

type_synonym 'r budget_result = "(budget_error + 'r) \<times> budget_db"

definition budget_transaction :: "(budget_db \<Rightarrow> 'r budget_result) \<Rightarrow> budget_db \<Rightarrow> 'r budget_result" where
  "budget_transaction work db =
     (case work db of (Inl e, _) \<Rightarrow> (Inl e, db) | (Inr r, db') \<Rightarrow> (Inr r, db'))"

section \<open>The cap\<close>

definition next_window_date :: "(instant \<Rightarrow> int) \<Rightarrow> instant \<Rightarrow> int" where
  "next_window_date date_of now = date_of now + 1"

definition next_window_start :: "(instant \<Rightarrow> int) \<Rightarrow> (int \<Rightarrow> instant) \<Rightarrow> instant \<Rightarrow> instant" where
  "next_window_start date_of midnight_of now = midnight_of (date_of now + 1)"

definition budget_event :: "string \<Rightarrow> int \<Rightarrow> instant \<Rightarrow> cap_state \<Rightarrow> budget_db \<Rightarrow> budget_db" where
  "budget_event kind requested now st db =
     db\<lparr>bd_events := bd_events db @
         [\<lparr>ce_occurred_at = now, ce_kind = kind, ce_requested = requested,
           ce_effective = cs_effective st, ce_pending = cs_pending st,
           ce_pending_window = cs_pending_window st\<rparr>]\<rparr>"

definition write_state :: "string \<Rightarrow> int \<Rightarrow> instant \<Rightarrow> cap_state \<Rightarrow> budget_db \<Rightarrow> budget_db" where
  "write_state kind requested now st db = budget_event kind requested now st (db\<lparr>bd_state := Some st\<rparr>)"

text \<open>A pending cap always has a window; a row without one would be a comparison with \<open>None\<close>.\<close>

definition roll_in_tx :: "(instant \<Rightarrow> int) \<Rightarrow> instant \<Rightarrow> budget_db \<Rightarrow> unit budget_result" where
  "roll_in_tx date_of now db =
     (case bd_state db of
        None \<Rightarrow> (Inr (), db)
      | Some st \<Rightarrow>
         (case cs_pending st of
            None \<Rightarrow> (Inr (), db)
          | Some pending \<Rightarrow>
             (case cs_pending_window st of
                None \<Rightarrow> (Inl BudgetTypeError, db)
              | Some w \<Rightarrow>
                  if date_of now \<ge> w
                  then (Inr (), write_state ''RAISE_APPLIED'' pending now
                          \<lparr>cs_effective = pending, cs_pending = None, cs_pending_window = None,
                           cs_updated_at = now\<rparr> db)
                  else (Inr (), db))))"

definition set_cap_in_tx :: "(instant \<Rightarrow> int) \<Rightarrow> int \<Rightarrow> instant \<Rightarrow> budget_db \<Rightarrow> string budget_result" where
  "set_cap_in_tx date_of requested now db =
     (if requested < 0 then (Inl BudgetValueError, db)
      else case bd_state db of
        None \<Rightarrow>
          (Inr ''INITIALIZED'', write_state ''INITIALIZED'' requested now
             \<lparr>cs_effective = requested, cs_pending = None, cs_pending_window = None, cs_updated_at = now\<rparr> db)
      | Some _ \<Rightarrow>
         (case roll_in_tx date_of now db of
            (Inl e, db1) \<Rightarrow> (Inl e, db1)
          | (Inr _, db1) \<Rightarrow>
             (case bd_state db1 of
                None \<Rightarrow> (Inl BudgetTypeError, db1)
              | Some st \<Rightarrow>
                  if requested < cs_effective st
                  then (Inr ''LOWERED'', write_state ''LOWERED'' requested now
                          \<lparr>cs_effective = requested, cs_pending = None, cs_pending_window = None,
                           cs_updated_at = now\<rparr> db1)
                  else if requested = cs_effective st
                  then (Inr ''UNCHANGED'', write_state ''UNCHANGED'' requested now
                          (st\<lparr>cs_pending := None, cs_pending_window := None, cs_updated_at := now\<rparr>) db1)
                  else if cs_pending st = Some requested then (Inr ''RAISE_KEPT'', db1)
                  else (Inr ''RAISE_SCHEDULED'', write_state ''RAISE_SCHEDULED'' requested now
                          (st\<lparr>cs_pending := Some requested,
                              cs_pending_window := Some (next_window_date date_of now),
                              cs_updated_at := now\<rparr>) db1))))"

section \<open>Reservations\<close>

definition charge :: "reservation_row \<Rightarrow> int" where
  "charge r =
     (case rv_state r of
        ResSettled \<Rightarrow> opt_or 0 (rv_actual r)
      | ResReleased \<Rightarrow> 0
      | _ \<Rightarrow> rv_reserved r)"

definition committed :: "reservation_row list \<Rightarrow> int \<Rightarrow> int" where
  "committed rows window = sum_list (map charge (filter (\<lambda>r. rv_window r = window) rows))"

definition counted_calls :: "instant \<Rightarrow> reservation_row list \<Rightarrow> reservation_row list" where
  "counted_calls since rows =
     sort_key rv_created_at
       (filter (\<lambda>r. rv_created_at r > since
                    \<and> \<not> (rv_state r = ResReleased \<and> rv_release_reason r = Some ''NOT_SENT'')) rows)"

definition check_hourly :: "int \<Rightarrow> instant \<Rightarrow> reservation_row list \<Rightarrow> budget_error + unit" where
  "check_hourly calls_per_hour now rows =
     (let calls = counted_calls (now - hours 1) rows
      in if int (length calls) \<ge> calls_per_hour
         then let leaves = rv_created_at (calls ! nat (int (length calls) - calls_per_hour)) + hours 1
              in Inl (HourlyLimitReached leaves (max 0 (leaves - now)))
         else Inr ())"

definition reserve_in_tx ::
    "(instant \<Rightarrow> int) \<Rightarrow> (int \<Rightarrow> instant) \<Rightarrow> int \<Rightarrow> string \<Rightarrow> string \<Rightarrow> string \<Rightarrow> string \<Rightarrow> int \<Rightarrow> instant
     \<Rightarrow> budget_db \<Rightarrow> reservation budget_result" where
  "reserve_in_tx date_of midnight_of calls_per_hour rid role backend model worst_case now db =
     (if worst_case < 0 then (Inl BudgetValueError, db)
      else if bd_state db = None then (Inl BudgetNotInitialized, db)
      else case roll_in_tx date_of now db of
        (Inl e, db1) \<Rightarrow> (Inl e, db1)
      | (Inr _, db1) \<Rightarrow>
         (case bd_state db1 of
            None \<Rightarrow> (Inl BudgetTypeError, db1)
          | Some st \<Rightarrow>
             (let window = date_of now; spent = committed (bd_reservations db1) window
              in if spent + worst_case > cs_effective st
                 then (Inl (BudgetExhausted window (cs_effective st) spent worst_case
                              (next_window_start date_of midnight_of now)), db1)
                 else case check_hourly calls_per_hour now (bd_reservations db1) of
                        Inl e \<Rightarrow> (Inl e, db1)
                      | Inr _ \<Rightarrow>
                          if \<exists>r \<in> set (bd_reservations db1). rv_id r = rid
                          then (Inl (DuplicateReservation rid), db1)
                          else (Inr \<lparr>re_id = rid, re_window = window, re_reserved = worst_case,
                                     re_state = ResOpen, re_actual = None\<rparr>,
                                db1\<lparr>bd_reservations := bd_reservations db1 @
                                  [\<lparr>rv_id = rid, rv_window = window, rv_role = role, rv_backend = backend,
                                    rv_model = model, rv_state = ResOpen, rv_reserved = worst_case,
                                    rv_actual = None, rv_input_tokens = None, rv_output_tokens = None,
                                    rv_release_reason = None, rv_created_at = now,
                                    rv_closed_at = None\<rparr>]\<rparr>))))"

definition reservation_row_of :: "budget_db \<Rightarrow> string \<Rightarrow> reservation_row option" where
  "reservation_row_of db rid = fetchone (filter (\<lambda>r. rv_id r = rid) (bd_reservations db))"

definition budget_get_in_tx :: "budget_db \<Rightarrow> string \<Rightarrow> budget_error + reservation" where
  "budget_get_in_tx db rid =
     (case reservation_row_of db rid of
        None \<Rightarrow> Inl (BudgetConflict ''RESERVATION_UNKNOWN'')
      | Some r \<Rightarrow> Inr \<lparr>re_id = rv_id r, re_window = rv_window r, re_reserved = rv_reserved r,
                       re_state = rv_state r, re_actual = rv_actual r\<rparr>)"

definition update_reservation :: "string \<Rightarrow> (reservation_row \<Rightarrow> reservation_row) \<Rightarrow> budget_db \<Rightarrow> budget_db" where
  "update_reservation rid f db =
     db\<lparr>bd_reservations := update_where (\<lambda>r. rv_id r = rid) f (bd_reservations db)\<rparr>"

definition release_in_tx :: "string \<Rightarrow> string \<Rightarrow> instant \<Rightarrow> budget_db \<Rightarrow> unit budget_result" where
  "release_in_tx rid reason now db =
     (case budget_get_in_tx db rid of
        Inl e \<Rightarrow> (Inl e, db)
      | Inr row \<Rightarrow>
          if re_state row \<noteq> ResOpen then (Inl (BudgetConflict ''RESERVATION_STATE''), db)
          else (Inr (), update_reservation rid
                  (\<lambda>r. r\<lparr>rv_state := ResReleased, rv_release_reason := Some reason, rv_closed_at := Some now\<rparr>) db))"

definition mark_unknown_in_tx :: "string \<Rightarrow> instant \<Rightarrow> budget_db \<Rightarrow> unit budget_result" where
  "mark_unknown_in_tx rid now db =
     (case budget_get_in_tx db rid of
        Inl e \<Rightarrow> (Inl e, db)
      | Inr row \<Rightarrow>
          if re_state row \<noteq> ResOpen then (Inl (BudgetConflict ''RESERVATION_STATE''), db)
          else (Inr (), update_reservation rid (\<lambda>r. r\<lparr>rv_state := ResUnknown, rv_closed_at := Some now\<rparr>) db))"

definition settle_in_tx :: "string \<Rightarrow> int \<Rightarrow> int \<Rightarrow> int \<Rightarrow> instant \<Rightarrow> bool \<Rightarrow> budget_db \<Rightarrow> bool budget_result" where
  "settle_in_tx rid actual input_tokens output_tokens now late db =
     (case budget_get_in_tx db rid of
        Inl e \<Rightarrow> (Inl e, db)
      | Inr row \<Rightarrow>
          if re_state row = ResSettled
          then (if re_actual row = Some actual then (Inr False, db)
                else (Inl (BudgetConflict ''SETTLEMENT_CONFLICT''), db))
          else if re_state row \<noteq> (if late then ResUnknown else ResOpen)
          then (Inl (BudgetConflict ''RESERVATION_STATE''), db)
          else (Inr True, update_reservation rid
                  (\<lambda>r. r\<lparr>rv_state := ResSettled, rv_actual := Some actual, rv_input_tokens := Some input_tokens,
                         rv_output_tokens := Some output_tokens, rv_closed_at := Some now\<rparr>) db))"

definition recover_open_in_tx :: "instant \<Rightarrow> budget_db \<Rightarrow> string list budget_result" where
  "recover_open_in_tx now db =
     (Inr (map rv_id (filter (\<lambda>r. rv_state r = ResOpen) (bd_reservations db))),
      db\<lparr>bd_reservations := update_where (\<lambda>r. rv_state r = ResOpen)
           (\<lambda>r. r\<lparr>rv_state := ResUnknown, rv_closed_at := Some now\<rparr>) (bd_reservations db)\<rparr>)"

definition count_state :: "reservation_state \<Rightarrow> int \<Rightarrow> reservation_row list \<Rightarrow> int" where
  "count_state st window rows = int (length (filter (\<lambda>r. rv_window r = window \<and> rv_state r = st) rows))"

definition snapshot_in_tx ::
    "(instant \<Rightarrow> int) \<Rightarrow> (int \<Rightarrow> instant) \<Rightarrow> instant \<Rightarrow> budget_db \<Rightarrow> budget_snapshot budget_result" where
  "snapshot_in_tx date_of midnight_of now db =
     (if bd_state db = None then (Inl BudgetNotInitialized, db)
      else case roll_in_tx date_of now db of
        (Inl e, db1) \<Rightarrow> (Inl e, db1)
      | (Inr _, db1) \<Rightarrow>
         (case bd_state db1 of
            None \<Rightarrow> (Inl BudgetTypeError, db1)
          | Some st \<Rightarrow>
             (let window = date_of now
              in (Inr \<lparr>sn_window = window, sn_effective = cs_effective st, sn_pending = cs_pending st,
                       sn_pending_window = cs_pending_window st,
                       sn_committed = committed (bd_reservations db1) window,
                       sn_open = count_state ResOpen window (bd_reservations db1),
                       sn_unknown = count_state ResUnknown window (bd_reservations db1),
                       sn_next_reset_at = next_window_start date_of midnight_of now\<rparr>, db1))))"

section \<open>Facts on the tables\<close>

lemma write_state_simps [simp]:
  "bd_state (write_state k q n st db) = Some st"
  "bd_reservations (write_state k q n st db) = bd_reservations db"
  by (simp_all add: write_state_def budget_event_def)

lemma roll_reservations: "roll_in_tx date_of now db = (res, db') \<Longrightarrow> bd_reservations db' = bd_reservations db"
  by (auto simp: roll_in_tx_def split: option.splits if_splits)

lemma committed_append: "committed (rows @ [r]) w = committed rows w + (if rv_window r = w then charge r else 0)"
  by (simp add: committed_def)

lemma committed_update_le:
  assumes "\<And>r. r \<in> set rows \<Longrightarrow> C r \<Longrightarrow> charge (f r) \<le> charge r" and "\<And>r. rv_window (f r) = rv_window r"
  shows "committed (update_where C f rows) w \<le> committed rows w"
  using assms(1)
proof (induction rows)
  case (Cons a rows)
  then have "committed (update_where C f rows) w \<le> committed rows w" by simp
  moreover have "C a \<Longrightarrow> charge (f a) \<le> charge a" using Cons.prems by simp
  ultimately show ?case using assms(2) by (auto simp: committed_def)
qed simp

lemma committed_update_eq:
  assumes "\<And>r. r \<in> set rows \<Longrightarrow> C r \<Longrightarrow> charge (f r) = charge r" and "\<And>r. rv_window (f r) = rv_window r"
  shows "committed (update_where C f rows) w = committed rows w"
  using assms(1)
proof (induction rows)
  case (Cons a rows)
  then have "committed (update_where C f rows) w = committed rows w" by simp
  moreover have "C a \<Longrightarrow> charge (f a) = charge a" using Cons.prems by simp
  ultimately show ?case using assms(2) by (auto simp: committed_def)
qed simp

lemma reserve_cases:
  assumes "reserve_in_tx date_of midnight_of cph rid role backend model worst now db = (Inr rv, db')"
  obtains db1 st row where "roll_in_tx date_of now db = (Inr (), db1)" and "bd_state db1 = Some st" and "0 \<le> worst"
    and "bd_reservations db1 = bd_reservations db"
    and "committed (bd_reservations db) (date_of now) + worst \<le> cs_effective st"
    and "int (length (counted_calls (now - hours 1) (bd_reservations db))) < cph"
    and "\<forall>r \<in> set (bd_reservations db). rv_id r \<noteq> rid"
    and "rv = \<lparr>re_id = rid, re_window = date_of now, re_reserved = worst, re_state = ResOpen, re_actual = None\<rparr>"
    and "db' = db1\<lparr>bd_reservations := bd_reservations db @ [row]\<rparr>"
    and "rv_id row = rid" and "rv_window row = date_of now" and "charge row = worst" and "rv_state row = ResOpen"
    and "rv_reserved row = worst" and "rv_created_at row = now"
proof -
  obtain db1 where roll: "roll_in_tx date_of now db = (Inr (), db1)"
    using assms by (auto simp: reserve_in_tx_def split: if_splits prod.splits sum.splits)
  have same: "bd_reservations db1 = bd_reservations db" using roll by (rule roll_reservations)
  obtain st where st: "bd_state db1 = Some st"
    using assms roll by (auto simp: reserve_in_tx_def split: if_splits option.splits)
  show thesis
    using assms roll st same
    by (intro that [of db1 st "\<lparr>rv_id = rid, rv_window = date_of now, rv_role = role, rv_backend = backend,
          rv_model = model, rv_state = ResOpen, rv_reserved = worst, rv_actual = None, rv_input_tokens = None,
          rv_output_tokens = None, rv_release_reason = None, rv_created_at = now, rv_closed_at = None\<rparr>"])
      (auto simp: reserve_in_tx_def check_hourly_def Let_def charge_def split: if_splits)
qed

section \<open>Properties of the budget\<close>

text \<open>
  A reservation never overspends: when one is granted, the window of the current New York
  date has grown by exactly the worst case, its total is within the effective cap, the other
  windows are unchanged, and no more than \<open>calls_per_hour\<close> counted calls fall in the last hour.
\<close>

lemma reserve_within_cap:
  assumes "budget_transaction (reserve_in_tx date_of midnight_of cph rid role backend model worst now) db
      = (Inr rv, db')"
  shows "\<exists>st. bd_state db' = Some st
    \<and> committed (bd_reservations db') (date_of now) = committed (bd_reservations db) (date_of now) + worst
    \<and> committed (bd_reservations db') (date_of now) \<le> cs_effective st
    \<and> (\<forall>w. w \<noteq> date_of now \<longrightarrow> committed (bd_reservations db') w = committed (bd_reservations db) w)
    \<and> int (length (counted_calls (now - hours 1) (bd_reservations db'))) \<le> cph"
proof -
  have run: "reserve_in_tx date_of midnight_of cph rid role backend model worst now db = (Inr rv, db')"
    using assms by (auto simp: budget_transaction_def split: prod.splits sum.splits)
  from run show ?thesis
  proof (cases rule: reserve_cases)
    case (1 db1 st row)
    have "length (counted_calls (now - hours 1) (bd_reservations db @ [row]))
        \<le> Suc (length (counted_calls (now - hours 1) (bd_reservations db)))"
      by (simp add: counted_calls_def)
    then have "int (length (counted_calls (now - hours 1) (bd_reservations db'))) \<le> cph" using 1(6,9) by simp
    then show ?thesis using 1(2,5,9,11,12) by (simp add: committed_append)
  qed
qed

definition pending_ok :: "cap_state \<Rightarrow> bool" where
  "pending_ok st =
     (case cs_pending st of None \<Rightarrow> True | Some p \<Rightarrow> cs_effective st < p \<and> cs_pending_window st \<noteq> None)"

definition cap_ok :: "cap_state option \<Rightarrow> reservation_row list \<Rightarrow> bool" where
  "cap_ok s rows =
     (case s of
        None \<Rightarrow> rows = []
      | Some st \<Rightarrow> 0 \<le> cs_effective st \<and> pending_ok st \<and> (\<forall>w. committed rows w \<le> cs_effective st))"

definition budget_inv :: "budget_db \<Rightarrow> bool" where
  "budget_inv db \<longleftrightarrow>
     distinct (map rv_id (bd_reservations db))
     \<and> (\<forall>r \<in> set (bd_reservations db). 0 \<le> rv_reserved r)
     \<and> cap_ok (bd_state db) (bd_reservations db)"

lemma budget_inv_empty [simp]: "budget_inv empty_budget"
  by (simp add: budget_inv_def empty_budget_def cap_ok_def)

text \<open>
  A run of the budget in which the owner never lowers the cap and no call costs more than the
  worst case it reserved.
\<close>

inductive budget_step :: "(instant \<Rightarrow> int) \<Rightarrow> (int \<Rightarrow> instant) \<Rightarrow> int \<Rightarrow> budget_db \<Rightarrow> budget_db \<Rightarrow> bool"
    for date_of midnight_of cph where
  bu_cap: "budget_transaction (set_cap_in_tx date_of requested now) db = (res, db') \<Longrightarrow> res \<noteq> Inr ''LOWERED''
      \<Longrightarrow> budget_step date_of midnight_of cph db db'"
| bu_reserve: "budget_transaction (reserve_in_tx date_of midnight_of cph rid role backend model worst now) db = (res, db')
      \<Longrightarrow> budget_step date_of midnight_of cph db db'"
| bu_release: "budget_transaction (release_in_tx rid reason now) db = (res, db')
      \<Longrightarrow> budget_step date_of midnight_of cph db db'"
| bu_unknown: "budget_transaction (mark_unknown_in_tx rid now) db = (res, db')
      \<Longrightarrow> budget_step date_of midnight_of cph db db'"
| bu_settle: "budget_transaction (settle_in_tx rid actual i out now late) db = (res, db')
      \<Longrightarrow> \<forall>r \<in> set (bd_reservations db). rv_id r = rid \<longrightarrow> actual \<le> rv_reserved r
      \<Longrightarrow> budget_step date_of midnight_of cph db db'"
| bu_recover: "budget_transaction (recover_open_in_tx now) db = (res, db')
      \<Longrightarrow> budget_step date_of midnight_of cph db db'"
| bu_snapshot: "budget_transaction (snapshot_in_tx date_of midnight_of now) db = (res, db')
      \<Longrightarrow> budget_step date_of midnight_of cph db db'"

text \<open>Writing a cap that is not below the old one keeps the invariant.\<close>

lemma budget_inv_write:
  assumes inv: "budget_inv db" and "bd_state db = Some st" and le: "cs_effective st \<le> cs_effective st'" and "pending_ok st'"
  shows "budget_inv (write_state k q n st' db)"
proof -
  have "0 \<le> cs_effective st" "\<And>w. committed (bd_reservations db) w \<le> cs_effective st"
    using inv assms(2) by (simp_all add: budget_inv_def cap_ok_def)
  then have "cap_ok (Some st') (bd_reservations db)"
    using le assms(4) by (auto simp: cap_ok_def intro: order_trans)
  then show ?thesis using inv by (simp add: budget_inv_def)
qed

lemma pending_okD: "budget_inv db \<Longrightarrow> bd_state db = Some st \<Longrightarrow> pending_ok st"
  by (simp add: budget_inv_def cap_ok_def)

lemma budget_inv_roll:
  assumes inv: "budget_inv db" and run: "roll_in_tx date_of now db = (res, db')"
  shows "budget_inv db'"
proof (cases "db' = db")
  case True
  then show ?thesis using inv by simp
next
  case False
  then obtain st p where st: "bd_state db = Some st" "cs_pending st = Some p"
    and db': "db' = write_state ''RAISE_APPLIED'' p now \<lparr>cs_effective = p, cs_pending = None,
        cs_pending_window = None, cs_updated_at = now\<rparr> db"
    using run by (auto simp: roll_in_tx_def split: option.splits if_splits)
  have "cs_effective st < p" using pending_okD [OF inv st(1)] st(2) by (simp add: pending_ok_def)
  then show ?thesis unfolding db' using inv st(1) by (intro budget_inv_write) (auto simp: pending_ok_def)
qed

lemma budget_inv_update:
  assumes inv: "budget_inv db"
    and "\<And>r. r \<in> set (bd_reservations db) \<Longrightarrow> C r \<Longrightarrow> charge (f r) \<le> charge r"
    and "\<And>r. rv_window (f r) = rv_window r" "\<And>r. rv_id (f r) = rv_id r" "\<And>r. rv_reserved (f r) = rv_reserved r"
  shows "budget_inv (db\<lparr>bd_reservations := update_where C f (bd_reservations db)\<rparr>)"
proof -
  let ?rows = "bd_reservations db"
  have le: "committed (update_where C f ?rows) w \<le> committed ?rows w" for w
    by (rule committed_update_le [OF assms(2,3)])
  have "distinct (map rv_id (update_where C f ?rows))"
    using inv by (simp add: budget_inv_def map_update_where_key assms(4))
  moreover have "\<forall>r \<in> set (update_where C f ?rows). 0 \<le> rv_reserved r"
    using inv by (auto simp: budget_inv_def set_update_where assms(5))
  moreover have "cap_ok (bd_state db) (update_where C f ?rows)"
    using inv le by (auto simp: budget_inv_def cap_ok_def intro: order_trans split: option.splits)
  ultimately show ?thesis by (simp add: budget_inv_def)
qed

text \<open>With unique ids the row an operation reads is the only row it writes.\<close>

lemma reservation_row_unique:
  assumes "budget_inv db" and "reservation_row_of db rid = Some x" and "r \<in> set (bd_reservations db)" and "rv_id r = rid"
  shows "r = x"
  using fetchone_key [of rv_id "bd_reservations db" r] assms by (simp add: reservation_row_of_def budget_inv_def)

lemma budget_inv_update_one:
  assumes inv: "budget_inv db" and "reservation_row_of db rid = Some x" and "charge (f x) \<le> charge x"
    and "\<And>r. rv_window (f r) = rv_window r" "\<And>r. rv_id (f r) = rv_id r" "\<And>r. rv_reserved (f r) = rv_reserved r"
  shows "budget_inv (update_reservation rid f db)"
  unfolding update_reservation_def
proof (rule budget_inv_update [OF inv])
  show "charge (f r) \<le> charge r" if "r \<in> set (bd_reservations db)" "rv_id r = rid" for r
    using reservation_row_unique [OF inv assms(2) that] assms(3) by simp
qed (simp_all add: assms)

lemma reserved_nonneg:
  "budget_inv db \<Longrightarrow> reservation_row_of db rid = Some x \<Longrightarrow> 0 \<le> rv_reserved x"
  by (auto simp: budget_inv_def reservation_row_of_def dest!: fetchone_filter_SomeD)

lemma budget_step_inv: "budget_step date_of midnight_of cph db db' \<Longrightarrow> budget_inv db \<Longrightarrow> budget_inv db'"
proof (induction rule: budget_step.induct)
  case (bu_cap requested now db res db')
  show ?case
  proof (cases "bd_state db")
    case None
    then show ?thesis using bu_cap
      by (auto simp: budget_transaction_def set_cap_in_tx_def budget_inv_def cap_ok_def pending_ok_def
          committed_def split: if_splits)
  next
    case (Some st0)
    obtain r1 db1 where roll: "roll_in_tx date_of now db = (r1, db1)" by fastforce
    have inv1: "budget_inv db1" using bu_cap(3) roll by (rule budget_inv_roll)
    have "budget_inv (snd (set_cap_in_tx date_of requested now db)) \<or> is_ok res = False"
    proof (cases "0 \<le> requested \<and> r1 = Inr () \<and> (\<exists>st. bd_state db1 = Some st \<and> cs_effective st \<le> requested)")
      case True
      then obtain st where st: "bd_state db1 = Some st" "cs_effective st \<le> requested" by blast
      note raise = budget_inv_write [OF inv1 st(1)]
      show ?thesis using True st Some roll inv1
        by (auto simp: set_cap_in_tx_def pending_ok_def intro!: raise)
    next
      case False
      then show ?thesis using bu_cap(1,2,3) Some roll
        by (auto simp: budget_transaction_def set_cap_in_tx_def split: if_splits sum.splits option.splits)
    qed
    then show ?thesis using bu_cap(1,3)
      by (auto simp: budget_transaction_def split: prod.splits sum.splits)
  qed
next
  case (bu_reserve rid role backend model worst now db res db')
  show ?case
  proof (cases res)
    case (Inl e)
    then show ?thesis using bu_reserve by (auto simp: budget_transaction_def split: prod.splits sum.splits)
  next
    case (Inr rv)
    then have run: "reserve_in_tx date_of midnight_of cph rid role backend model worst now db = (Inr rv, db')"
      using bu_reserve(1) by (auto simp: budget_transaction_def split: prod.splits sum.splits)
    from run show ?thesis
    proof (cases rule: reserve_cases)
      case (1 db1 st row)
      have "budget_inv db1" using bu_reserve(2) 1(1) by (rule budget_inv_roll)
      then show ?thesis using 1 by (auto simp: budget_inv_def cap_ok_def committed_append)
    qed
  qed
next
  case (bu_release rid reason now db res db')
  have "budget_inv (update_reservation rid
      (\<lambda>r. r\<lparr>rv_state := ResReleased, rv_release_reason := Some reason, rv_closed_at := Some now\<rparr>) db)"
    if "reservation_row_of db rid = Some x" "rv_state x = ResOpen" for x
    using bu_release(2) that(1)
    by (rule budget_inv_update_one) (use that reserved_nonneg [OF bu_release(2)] in \<open>simp_all add: charge_def\<close>)
  then show ?case using bu_release
    by (auto simp: budget_transaction_def release_in_tx_def budget_get_in_tx_def split: if_splits option.splits)
next
  case (bu_unknown rid now db res db')
  have "budget_inv (update_reservation rid (\<lambda>r. r\<lparr>rv_state := ResUnknown, rv_closed_at := Some now\<rparr>) db)"
    if "reservation_row_of db rid = Some x" "rv_state x = ResOpen" for x
    using bu_unknown(2) that(1) by (rule budget_inv_update_one) (use that in \<open>simp_all add: charge_def\<close>)
  then show ?case using bu_unknown
    by (auto simp: budget_transaction_def mark_unknown_in_tx_def budget_get_in_tx_def split: if_splits option.splits)
next
  case (bu_settle rid actual i out now late db res db')
  have "budget_inv (update_reservation rid
      (\<lambda>r. r\<lparr>rv_state := ResSettled, rv_actual := Some actual, rv_input_tokens := Some i,
             rv_output_tokens := Some out, rv_closed_at := Some now\<rparr>) db)"
    if x: "reservation_row_of db rid = Some x" "rv_state x = ResOpen \<or> rv_state x = ResUnknown" for x
  proof -
    have "x \<in> set (bd_reservations db)" "rv_id x = rid"
      using x(1) fetchone_filter_SomeD by (fastforce simp: reservation_row_of_def)+
    then have "actual \<le> rv_reserved x" using bu_settle(2) by blast
    then show ?thesis
      using x(2) by (intro budget_inv_update_one [OF bu_settle(3) x(1)]) (auto simp: charge_def)
  qed
  then show ?case using bu_settle
    by (auto simp: budget_transaction_def settle_in_tx_def budget_get_in_tx_def split: if_splits option.splits)
next
  case (bu_recover now db res db')
  have "budget_inv (db\<lparr>bd_reservations := update_where (\<lambda>r. rv_state r = ResOpen)
      (\<lambda>r. r\<lparr>rv_state := ResUnknown, rv_closed_at := Some now\<rparr>) (bd_reservations db)\<rparr>)"
    using bu_recover(2) by (rule budget_inv_update) (auto simp: charge_def)
  then show ?case using bu_recover(1) by (auto simp: budget_transaction_def recover_open_in_tx_def)
next
  case (bu_snapshot now db res db')
  obtain r1 db1 where roll: "roll_in_tx date_of now db = (r1, db1)" by fastforce
  have "budget_inv db1" using bu_snapshot(2) roll by (rule budget_inv_roll)
  then show ?case using bu_snapshot roll
    by (auto simp: budget_transaction_def snapshot_in_tx_def Let_def split: if_splits sum.splits option.splits)
qed

interpretation budget_machine: state_machine "budget_step date_of midnight_of cph" budget_inv
    for date_of midnight_of cph
  by unfold_locales (rule budget_step_inv)

text \<open>
  C27. The cap holds at every moment: from an empty budget, in every state that any sequence of
  cap settings (that do not lower it), reservations, releases, settlements (within the reserved
  worst case), unknown outcomes, restarts and snapshots can reach, the total of every window is
  within the effective cap.
\<close>

theorem budget_never_overspent:
  assumes "(budget_step date_of midnight_of cph)\<^sup>*\<^sup>* empty_budget db" and "bd_state db = Some st"
  shows "committed (bd_reservations db) w \<le> cs_effective st"
  using budget_machine.run_inv [OF assms(1) budget_inv_empty] assms(2) by (simp add: budget_inv_def cap_ok_def)

text \<open>
  A raise waits for midnight and a lowering does not: a cap setting above the effective cap
  leaves the effective cap as it is and becomes effective exactly when the New York date has
  moved past the date of the request; a setting below it is effective at once and cancels any
  pending raise.
\<close>

lemma raise_waits_for_midnight:
  assumes inv: "budget_inv db" and st: "bd_state db = Some st" and idle: "cs_pending st = None"
    and req: "0 \<le> requested" "requested \<noteq> cs_effective st"
    and run: "set_cap_in_tx date_of requested now db = (res, db1)"
    and later: "roll_in_tx date_of later db1 = (res', db2)"
  shows "map_option cs_effective (bd_state db1) = Some (min requested (cs_effective st))
    \<and> map_option cs_effective (bd_state db2)
        = Some (if cs_effective st < requested \<and> date_of later \<le> date_of now then cs_effective st else requested)"
proof (cases "requested < cs_effective st")
  case True
  then show ?thesis using assms
    by (auto simp: set_cap_in_tx_def roll_in_tx_def)
next
  case False
  then have "db1 = write_state ''RAISE_SCHEDULED'' requested now
      (st\<lparr>cs_pending := Some requested, cs_pending_window := Some (date_of now + 1), cs_updated_at := now\<rparr>) db"
    using assms by (auto simp: set_cap_in_tx_def roll_in_tx_def next_window_date_def)
  then show ?thesis using False req(2) later by (auto simp: roll_in_tx_def split: if_splits)
qed

text \<open>
  A reservation is settled once: after a settlement the charge of its window counts the
  actual cost, an exact repeat is acknowledged and changes nothing, and a different figure is a
  conflict that changes nothing, whether or not it claims to be late.
\<close>

lemma settle_once:
  assumes inv: "budget_inv db" and run: "settle_in_tx rid actual i out now late db = (Inr True, db1)"
  shows "settle_in_tx rid actual i' out' now' late' db1 = (Inr False, db1)
    \<and> (other \<noteq> actual \<longrightarrow>
        settle_in_tx rid other i' out' now' late' db1 = (Inl (BudgetConflict ''SETTLEMENT_CONFLICT''), db1))
    \<and> (\<exists>x. reservation_row_of db1 rid = Some x \<and> charge x = actual)"
proof -
  let ?f = "\<lambda>r. r\<lparr>rv_state := ResSettled, rv_actual := Some actual, rv_input_tokens := Some i,
             rv_output_tokens := Some out, rv_closed_at := Some now\<rparr>"
  obtain x where x: "reservation_row_of db rid = Some x" and db1: "db1 = update_reservation rid ?f db"
    using run by (auto simp: settle_in_tx_def budget_get_in_tx_def split: option.splits if_splits)
  have mem: "x \<in> set (bd_reservations db)" "rv_id x = rid"
    using x fetchone_filter_SomeD by (fastforce simp: reservation_row_of_def)+
  have "distinct (map rv_id (bd_reservations db))" using inv by (simp add: budget_inv_def)
  moreover have "rv_id r = rid \<longleftrightarrow> r = x" if "r \<in> set (bd_reservations db)" for r
    using reservation_row_unique [OF inv x that] mem(2) by blast
  ultimately have "fetchone (filter (\<lambda>r. rv_id r = rid) (update_where (\<lambda>r. rv_id r = rid) ?f (bd_reservations db)))
      = (if rid = rv_id x then Some (?f x) else fetchone (filter (\<lambda>r. rv_id r = rid) (bd_reservations db)))"
    using mem(1) by (intro fetchone_update_key) simp_all
  then have "reservation_row_of db1 rid = Some (?f x)"
    using mem(2) by (simp add: db1 reservation_row_of_def update_reservation_def)
  then show ?thesis by (auto simp: settle_in_tx_def budget_get_in_tx_def charge_def)
qed

text \<open>
  An unknown outcome keeps its money: marking a reservation unknown, and the recovery at
  process start that does so for every open one, change the total of no window; after recovery
  nothing is open, and the recovered reservations are reported.
\<close>

lemma unknown_keeps_reserved:
  assumes inv: "budget_inv db"
  shows "(\<forall>db1. mark_unknown_in_tx rid now db = (Inr (), db1) \<longrightarrow>
        committed (bd_reservations db1) w = committed (bd_reservations db) w)
    \<and> (\<forall>ids db1. recover_open_in_tx now db = (Inr ids, db1) \<longrightarrow>
        committed (bd_reservations db1) w = committed (bd_reservations db) w
        \<and> ids = map rv_id (filter (\<lambda>r. rv_state r = ResOpen) (bd_reservations db))
        \<and> (\<forall>r \<in> set (bd_reservations db1). rv_state r \<noteq> ResOpen))"
proof (intro conjI allI impI)
  let ?f = "\<lambda>r. r\<lparr>rv_state := ResUnknown, rv_closed_at := Some now\<rparr>"
  fix db1 assume "mark_unknown_in_tx rid now db = (Inr (), db1)"
  then obtain x where x: "reservation_row_of db rid = Some x" "rv_state x = ResOpen"
    and db1: "db1 = update_reservation rid ?f db"
    by (auto simp: mark_unknown_in_tx_def budget_get_in_tx_def split: option.splits if_splits)
  show "committed (bd_reservations db1) w = committed (bd_reservations db) w"
  proof -
    have "charge (?f r) = charge r" if "r \<in> set (bd_reservations db)" "rv_id r = rid" for r
      using reservation_row_unique [OF inv x(1) that] x(2) by (simp add: charge_def)
    then show ?thesis
      using committed_update_eq [of "bd_reservations db" "\<lambda>r. rv_id r = rid" ?f w]
      by (simp add: db1 update_reservation_def)
  qed
next
  fix ids db1 assume run: "recover_open_in_tx now db = (Inr ids, db1)"
  show "committed (bd_reservations db1) w = committed (bd_reservations db) w"
    using run committed_update_eq [of "bd_reservations db" "\<lambda>r. rv_state r = ResOpen"
        "\<lambda>r. r\<lparr>rv_state := ResUnknown, rv_closed_at := Some now\<rparr>" w]
    by (auto simp: recover_open_in_tx_def charge_def)
  show "ids = map rv_id (filter (\<lambda>r. rv_state r = ResOpen) (bd_reservations db))"
    "\<forall>r \<in> set (bd_reservations db1). rv_state r \<noteq> ResOpen"
    using run by (auto simp: recover_open_in_tx_def set_update_where)
qed

section \<open>Witnesses\<close>

text \<open>A calendar of UTC days stands for New York's.\<close>

definition demo_date :: "instant \<Rightarrow> int" where "demo_date t = t div days 1"
definition demo_midnight :: "int \<Rightarrow> instant" where "demo_midnight d = d * days 1"

definition demo_budget :: budget_db where
  "demo_budget = snd (budget_transaction (set_cap_in_tx demo_date 1000 0) empty_budget)"

definition demo_reserve :: "string \<Rightarrow> int \<Rightarrow> instant \<Rightarrow> budget_db \<Rightarrow> reservation budget_result" where
  "demo_reserve rid worst now =
     budget_transaction (reserve_in_tx demo_date demo_midnight 10 rid ''analyst'' ''api'' ''m'' worst now)"

definition demo_spent :: budget_db where
  "demo_spent = snd (demo_reserve ''r1'' 600 5 demo_budget)"

definition demo_cap :: "int \<Rightarrow> cap_state" where
  "demo_cap c = \<lparr>cs_effective = c, cs_pending = None, cs_pending_window = None, cs_updated_at = 0\<rparr>"

lemma demo_budget_run: "(budget_step demo_date demo_midnight 10)\<^sup>*\<^sup>* empty_budget demo_spent"
proof -
  have "budget_step demo_date demo_midnight 10 empty_budget demo_budget"
    by (rule bu_cap [of _ 1000 0 _ "Inr ''INITIALIZED''"]) code_simp+
  moreover have "budget_step demo_date demo_midnight 10 demo_budget demo_spent"
    by (rule bu_reserve [of _ _ _ "''r1''" "''analyst''" "''api''" "''m''" 600 5 _ "fst (demo_reserve ''r1'' 600 5 demo_budget)"])
      (simp add: demo_spent_def demo_reserve_def)
  ultimately show ?thesis by (meson converse_rtranclp_into_rtranclp rtranclp.rtrancl_refl)
qed

lemma demo_budget_invs: "budget_inv demo_budget" "budget_inv demo_spent"
proof -
  show "budget_inv demo_spent" using budget_machine.run_inv [OF demo_budget_run budget_inv_empty] .
  have "bd_reservations demo_budget = []" "bd_state demo_budget = Some (demo_cap 1000)" by code_simp+
  then show "budget_inv demo_budget"
    by (simp add: budget_inv_def cap_ok_def pending_ok_def committed_def demo_cap_def)
qed

lemma reserve_within_cap_example:
  "\<exists>st. bd_state demo_spent = Some st \<and> committed (bd_reservations demo_spent) 0 \<le> cs_effective st"
proof -
  have "budget_transaction (reserve_in_tx demo_date demo_midnight 10 ''r1'' ''analyst'' ''api'' ''m'' 600 5) demo_budget
      = (Inr \<lparr>re_id = ''r1'', re_window = 0, re_reserved = 600, re_state = ResOpen, re_actual = None\<rparr>, demo_spent)"
    by code_simp
  from reserve_within_cap [OF this] show ?thesis by (auto simp: demo_date_def days_def)
qed

theorem budget_never_overspent_witness:
  "bd_state demo_spent = Some (demo_cap 1000) \<and> committed (bd_reservations demo_spent) 0 \<le> cs_effective (demo_cap 1000)"
proof -
  have "bd_state demo_spent = Some (demo_cap 1000)" by code_simp
  then show ?thesis using budget_never_overspent [OF demo_budget_run] by blast
qed

lemma raise_waits_for_midnight_example:
  "map_option cs_effective (bd_state (snd (roll_in_tx demo_date (days 1)
      (snd (set_cap_in_tx demo_date 2000 7 demo_budget))))) = Some 2000"
proof -
  let ?db1 = "snd (set_cap_in_tx demo_date 2000 7 demo_budget)"
  have st: "bd_state demo_budget = Some (demo_cap 1000)" by code_simp
  have "cs_pending (demo_cap 1000) = None" "(0::int) \<le> 2000" "2000 \<noteq> cs_effective (demo_cap 1000)"
    by (simp_all add: demo_cap_def)
  from raise_waits_for_midnight [OF demo_budget_invs(1) st this, of demo_date 7 "fst (set_cap_in_tx demo_date 2000 7 demo_budget)"
      ?db1 "days 1" "fst (roll_in_tx demo_date (days 1) ?db1)" "snd (roll_in_tx demo_date (days 1) ?db1)"]
  show ?thesis by (simp add: demo_date_def [abs_def] days_def demo_cap_def)
qed

lemma settle_once_example:
  "settle_in_tx ''r1'' 400 1 1 9 False (snd (settle_in_tx ''r1'' 400 1 1 8 False demo_spent))
     = (Inr False, snd (settle_in_tx ''r1'' 400 1 1 8 False demo_spent))"
proof -
  let ?db1 = "snd (settle_in_tx ''r1'' 400 1 1 8 False demo_spent)"
  have "settle_in_tx ''r1'' 400 1 1 8 False demo_spent = (Inr True, ?db1)" by code_simp
  from settle_once [OF demo_budget_invs(2) this] show ?thesis by blast
qed

lemma unknown_keeps_reserved_demo:
  "committed (bd_reservations (snd (recover_open_in_tx 9 demo_spent))) 0 = committed (bd_reservations demo_spent) 0
   \<and> fst (recover_open_in_tx 9 demo_spent) = Inr [''r1'']"
proof -
  have run: "recover_open_in_tx 9 demo_spent = (Inr [''r1''], snd (recover_open_in_tx 9 demo_spent))" by code_simp
  have "committed (bd_reservations (snd (recover_open_in_tx 9 demo_spent))) 0 = committed (bd_reservations demo_spent) 0"
    using unknown_keeps_reserved [OF demo_budget_invs(2), of "''r1''" 9 0] run by blast
  moreover have "fst (recover_open_in_tx 9 demo_spent) = Inr [''r1'']" by code_simp
  ultimately show ?thesis by blast
qed

end
