(* ===== verification/Proposal_Repository.thy ===== *)
theory Proposal_Repository
  imports Domain_Journal
begin

text \<open>
  The proposal table of the journal database and its repository,
  \<^verbatim>\<open>src/trader/data/proposal_repository.py\<close>: the guard-complete record, its journal payload, the
  compare-and-set updates (reject, expire, approve, submit, fail), the identity allocator and the
  reads. Every update is an \<open>UPDATE ... WHERE id, status and revision ... RETURNING\<close>.

  The \<open>execution\<close> and \<open>metadata\<close> columns hold the sorted \<open>json.dumps\<close> of a dict, so a stored
  row carries the canonical form of both. \<open>TIMESTAMP\<close> columns hold UTC instants.
\<close>

section \<open>Records\<close>

datatype proposal_status = PENDING | APPROVED | REJECTED | EXPIRED | EXECUTED | FAILED

definition status_str :: "proposal_status \<Rightarrow> string" where
  "status_str s = (case s of PENDING \<Rightarrow> ''PENDING'' | APPROVED \<Rightarrow> ''APPROVED'' | REJECTED \<Rightarrow> ''REJECTED''
     | EXPIRED \<Rightarrow> ''EXPIRED'' | EXECUTED \<Rightarrow> ''EXECUTED'' | FAILED \<Rightarrow> ''FAILED'')"

record proposal_record =
  pr_id :: int
  pr_symbol :: string
  pr_action :: string
  pr_quantity :: "pyfloat option"
  pr_amount :: "pyfloat option"
  pr_execution :: jobject
  pr_reasoning :: string
  pr_confidence :: pyfloat
  pr_thesis :: string
  pr_source :: string
  pr_metadata :: jobject
  pr_status :: proposal_status
  pr_created_at :: instant
  pr_updated_at :: instant
  pr_order_ids :: "int list"
  pr_rejection_reason :: string
  pr_sec_type :: string
  pr_account_id :: "string option"
  pr_account_mode :: "string option"
  pr_conid :: "int option"
  pr_reference_price :: "pyfloat option"
  pr_reference_timestamp :: "instant option"
  pr_reference_quote_side :: "string option"
  pr_reference_feed_type :: "string option"
  pr_max_price_drift_bps :: "pyfloat option"
  pr_expires_at :: "instant option"
  pr_live_approval_eligible :: bool
  pr_revision :: int
  pr_order_group_id :: "string option"

text \<open>The decoding of a row: an empty source or security type reads as its default.\<close>

definition from_row :: "proposal_record \<Rightarrow> proposal_record" where
  "from_row r =
     r\<lparr>pr_source := (if pr_source r = [] then ''manual'' else pr_source r),
       pr_sec_type := (if pr_sec_type r = [] then ''STK'' else pr_sec_type r)\<rparr>"

definition proposal_to_payload :: "proposal_record \<Rightarrow> jobject" where
  "proposal_to_payload r =
     [(''id'', JInt (pr_id r)),
      (''symbol'', JStr (pr_symbol r)),
      (''action'', JStr (pr_action r)),
      (''quantity'', jopt JNum (pr_quantity r)),
      (''amount'', jopt JNum (pr_amount r)),
      (''execution'', JObj (pr_execution r)),
      (''reasoning'', JStr (pr_reasoning r)),
      (''confidence'', JNum (pr_confidence r)),
      (''thesis'', JStr (pr_thesis r)),
      (''source'', JStr (pr_source r)),
      (''metadata'', JObj (pr_metadata r)),
      (''status'', JStr (status_str (pr_status r))),
      (''created_at'', JTime (Aware (pr_created_at r))),
      (''updated_at'', JTime (Aware (pr_updated_at r))),
      (''order_ids'', JList (map JInt (pr_order_ids r))),
      (''rejection_reason'', JStr (pr_rejection_reason r)),
      (''sec_type'', JStr (pr_sec_type r)),
      (''account_id'', jopt JStr (pr_account_id r)),
      (''account_mode'', jopt JStr (pr_account_mode r)),
      (''conid'', jopt JInt (pr_conid r)),
      (''reference_price'', jopt JNum (pr_reference_price r)),
      (''reference_timestamp'', jopt (\<lambda>t. JTime (Aware t)) (pr_reference_timestamp r)),
      (''reference_quote_side'', jopt JStr (pr_reference_quote_side r)),
      (''reference_feed_type'', jopt JStr (pr_reference_feed_type r)),
      (''max_price_drift_bps'', jopt JNum (pr_max_price_drift_bps r)),
      (''expires_at'', jopt (\<lambda>t. JTime (Aware t)) (pr_expires_at r)),
      (''live_approval_eligible'', JBool (pr_live_approval_eligible r)),
      (''revision'', JInt (pr_revision r)),
      (''order_group_id'', jopt JStr (pr_order_group_id r))]"

record proposal_draft =
  pd_id :: int
  pd_symbol :: string
  pd_action :: string
  pd_quantity :: "pyfloat option"
  pd_amount :: "pyfloat option"
  pd_execution :: jobject
  pd_reasoning :: string
  pd_confidence :: pyfloat
  pd_thesis :: string
  pd_source :: string
  pd_metadata :: jobject
  pd_sec_type :: string
  pd_account_id :: string
  pd_account_mode :: string
  pd_conid :: int
  pd_reference_price :: pyfloat
  pd_reference_timestamp :: pydatetime
  pd_reference_quote_side :: string
  pd_reference_feed_type :: string
  pd_max_price_drift_bps :: pyfloat
  pd_expires_at :: pydatetime
  pd_live_approval_eligible :: bool
  pd_created_at :: pydatetime

datatype approval_claim =
    CLAIMED | CLAIM_EXPIRED | REVISION_MISMATCH | NOT_PENDING | NOT_FOUND | WRONG_ACCOUNT

record approval_claim_outcome =
  ac_result :: approval_claim
  ac_record :: "proposal_record option"

text \<open>
  The table and its id sequence. \<open>pt_written\<close> is the list \<open>written\<close> of the running service
  call, which its \<open>write_materialized\<close> closure fills: empty or one record.
\<close>

record proposal_tables =
  pt_rows :: "proposal_record list"
  pt_next_id :: int
  pt_written :: "proposal_record option"

type_synonym proposal_db = "proposal_tables journal_db"

section \<open>Reads\<close>

definition proposal_get :: "proposal_record list \<Rightarrow> int \<Rightarrow> proposal_record option" where
  "proposal_get rows proposal_id = map_option from_row (fetchone (filter (\<lambda>r. pr_id r = proposal_id) rows))"

definition proposal_list :: "proposal_record list \<Rightarrow> string option \<Rightarrow> int \<Rightarrow> proposal_record list" where
  "proposal_list rows status limit =
     (case status of
        None \<Rightarrow> map from_row (take (nat limit) (sort_key (\<lambda>r. - pr_created_at r) rows))
      | Some s \<Rightarrow>
         map from_row (take (nat limit) (sort_key (\<lambda>r. - pr_created_at r)
           (filter (\<lambda>r. status_str (pr_status r) = s) rows))))"

definition pending_duplicate_in_tx :: "proposal_record list \<Rightarrow> string \<Rightarrow> int \<Rightarrow> string \<Rightarrow> bool" where
  "pending_duplicate_in_tx rows source conid action \<longleftrightarrow>
     fetchone (filter (\<lambda>r. pr_status r = PENDING \<and> pr_source r = source
       \<and> pr_conid r = Some conid \<and> pr_action r = action) rows) \<noteq> None"

text \<open>\<open>json_extract_string(metadata, '$.expires_at') IS NOT NULL\<close>: a JSON null reads as NULL.\<close>

definition legacy_expiry :: "jobject \<Rightarrow> bool" where
  "legacy_expiry metadata \<longleftrightarrow>
     (case jget metadata ''expires_at'' of None \<Rightarrow> False | Some v \<Rightarrow> v \<noteq> JNull)"

definition is_stale :: "instant \<Rightarrow> proposal_record \<Rightarrow> bool" where
  "is_stale now r \<longleftrightarrow>
     (case pr_expires_at r of Some t \<Rightarrow> t \<le> now | None \<Rightarrow> legacy_expiry (pr_metadata r))"

definition stale_pending :: "proposal_record list \<Rightarrow> pydatetime \<Rightarrow> proposal_record list" where
  "stale_pending rows now =
     map from_row (sort_key pr_id
       (filter (\<lambda>r. pr_status r = PENDING \<and> is_stale (as_utc now) r) rows))"

section \<open>Identity\<close>

definition proposal_event_id :: "int \<Rightarrow> int \<Rightarrow> string" where
  "proposal_event_id proposal_id revision =
     (''proposal:'' @ string_of_int proposal_id) @ CHR '':'' # string_of_int revision"

definition id_taken :: "proposal_db \<Rightarrow> int \<Rightarrow> bool" where
  "id_taken db proposal_id \<longleftrightarrow>
     (\<exists>r \<in> set (pt_rows (jd_prod db)). pr_id r = proposal_id)
     \<or> (\<exists>r \<in> set (jd_rows db). jr_event_id r = proposal_event_id proposal_id 1)"

text \<open>\<open>nextval\<close> hands out a value and moves on, whatever becomes of the value.\<close>

definition proposal_nextval :: "proposal_db \<Rightarrow> int \<times> proposal_db" where
  "proposal_nextval db =
     (pt_next_id (jd_prod db),
      db\<lparr>jd_prod := (jd_prod db)\<lparr>pt_next_id := pt_next_id (jd_prod db) + 1\<rparr>\<rparr>)"

text \<open>The first argument is the number of \<open>nextval\<close> calls left; None: the \<open>RuntimeError\<close>.\<close>

fun reserve_loop :: "nat \<Rightarrow> proposal_db \<Rightarrow> int option \<times> proposal_db" where
  "reserve_loop 0 db = (None, db)"
| "reserve_loop (Suc n) db =
     (let (proposal_id, db') = proposal_nextval db
      in if \<not> id_taken db' proposal_id then (Some proposal_id, db') else reserve_loop n db')"

definition reserve_attempts :: nat where
  "reserve_attempts = 10000"

definition reserve_id :: "proposal_db \<Rightarrow> int option \<times> proposal_db" where
  "reserve_id db = reserve_loop reserve_attempts db"

section \<open>Writes\<close>

definition canon_object :: "jobject \<Rightarrow> jobject" where
  "canon_object kvs = sort_key fst (map (\<lambda>kv. (fst kv, canon (snd kv))) kvs)"

definition pending_row :: "proposal_draft \<Rightarrow> int \<Rightarrow> proposal_record" where
  "pending_row d revision =
     \<lparr>pr_id = pd_id d, pr_symbol = pd_symbol d, pr_action = pd_action d,
      pr_quantity = pd_quantity d, pr_amount = pd_amount d,
      pr_execution = canon_object (pd_execution d), pr_reasoning = pd_reasoning d,
      pr_confidence = pd_confidence d, pr_thesis = pd_thesis d, pr_source = pd_source d,
      pr_metadata = canon_object (pd_metadata d), pr_status = PENDING,
      pr_created_at = as_utc (pd_created_at d), pr_updated_at = as_utc (pd_created_at d),
      pr_order_ids = [], pr_rejection_reason = [], pr_sec_type = pd_sec_type d,
      pr_account_id = Some (pd_account_id d), pr_account_mode = Some (pd_account_mode d),
      pr_conid = Some (pd_conid d), pr_reference_price = Some (pd_reference_price d),
      pr_reference_timestamp = Some (as_utc (pd_reference_timestamp d)),
      pr_reference_quote_side = Some (pd_reference_quote_side d),
      pr_reference_feed_type = Some (pd_reference_feed_type d),
      pr_max_price_drift_bps = Some (pd_max_price_drift_bps d),
      pr_expires_at = Some (as_utc (pd_expires_at d)),
      pr_live_approval_eligible = pd_live_approval_eligible d,
      pr_revision = revision, pr_order_group_id = None\<rparr>"

text \<open>None: the id is already a primary key of the table.\<close>

definition insert_pending_in_tx ::
    "proposal_draft \<Rightarrow> int \<Rightarrow> proposal_record list \<Rightarrow> (proposal_record \<times> proposal_record list) option" where
  "insert_pending_in_tx d revision rows =
     (if \<exists>r \<in> set rows. pr_id r = pd_id d then None
      else Some (from_row (pending_row d revision), rows @ [pending_row d revision]))"

text \<open>\<open>UPDATE ... SET f WHERE P RETURNING\<close> followed by \<open>fetchone\<close> and \<open>from_row\<close>.\<close>

definition update_returning ::
    "(proposal_record \<Rightarrow> bool) \<Rightarrow> (proposal_record \<Rightarrow> proposal_record) \<Rightarrow> proposal_record list
     \<Rightarrow> proposal_record option \<times> proposal_record list" where
  "update_returning P f rows =
     (map_option from_row (fetchone (map f (filter P rows))), update_where P f rows)"

definition reject_in_tx ::
    "int \<Rightarrow> string \<Rightarrow> pydatetime \<Rightarrow> int \<Rightarrow> proposal_record list
     \<Rightarrow> proposal_record option \<times> proposal_record list" where
  "reject_in_tx proposal_id reason now expected_revision rows =
     update_returning
       (\<lambda>r. pr_id r = proposal_id \<and> pr_status r = PENDING \<and> pr_revision r = expected_revision)
       (\<lambda>r. r\<lparr>pr_status := REJECTED, pr_rejection_reason := reason, pr_updated_at := as_utc now,
              pr_revision := pr_revision r + 1\<rparr>) rows"

definition expire_in_tx ::
    "int \<Rightarrow> pydatetime \<Rightarrow> int \<Rightarrow> proposal_record list
     \<Rightarrow> proposal_record option \<times> proposal_record list" where
  "expire_in_tx proposal_id now expected_revision rows =
     update_returning
       (\<lambda>r. pr_id r = proposal_id \<and> pr_status r = PENDING \<and> pr_revision r = expected_revision
            \<and> is_stale (as_utc now) r)
       (\<lambda>r. r\<lparr>pr_status := EXPIRED, pr_updated_at := as_utc now, pr_revision := pr_revision r + 1\<rparr>) rows"

text \<open>A missing expected revision is bound as \<open>NULL\<close>, which equals no revision.\<close>

definition claim_for_approval_in_tx ::
    "int \<Rightarrow> int option \<Rightarrow> string \<Rightarrow> pydatetime \<Rightarrow> proposal_record list
     \<Rightarrow> approval_claim_outcome \<times> proposal_record list" where
  "claim_for_approval_in_tx proposal_id expected_revision account_id now rows =
     (let (row, rows') = update_returning
            (\<lambda>r. pr_id r = proposal_id \<and> pr_status r = PENDING \<and> Some (pr_revision r) = expected_revision
                 \<and> pr_account_id r = Some account_id)
            (\<lambda>r. r\<lparr>pr_status := (if is_stale (as_utc now) r then EXPIRED else APPROVED),
                   pr_updated_at := as_utc now, pr_revision := pr_revision r + 1\<rparr>) rows
      in case row of
           Some rec \<Rightarrow>
             (\<lparr>ac_result = (if pr_status rec = APPROVED then CLAIMED else CLAIM_EXPIRED),
               ac_record = Some rec\<rparr>, rows')
         | None \<Rightarrow>
            (case proposal_get rows' proposal_id of
               None \<Rightarrow> (\<lparr>ac_result = NOT_FOUND, ac_record = None\<rparr>, rows')
             | Some current \<Rightarrow>
                 if pr_account_id current \<noteq> Some account_id
                 then (\<lparr>ac_result = WRONG_ACCOUNT, ac_record = Some current\<rparr>, rows')
                 else if pr_status current \<noteq> PENDING
                 then (\<lparr>ac_result = NOT_PENDING, ac_record = Some current\<rparr>, rows')
                 else (\<lparr>ac_result = REVISION_MISMATCH, ac_record = Some current\<rparr>, rows')))"

definition link_order_group_in_tx ::
    "int \<Rightarrow> string \<Rightarrow> proposal_record list \<Rightarrow> proposal_record list" where
  "link_order_group_in_tx proposal_id order_group_id rows =
     update_where (\<lambda>r. pr_id r = proposal_id \<and> pr_status r = APPROVED)
       (\<lambda>r. r\<lparr>pr_order_group_id := Some order_group_id\<rparr>) rows"

definition mark_order_submitted_in_tx ::
    "int \<Rightarrow> int list \<Rightarrow> int \<Rightarrow> pydatetime \<Rightarrow> proposal_record list
     \<Rightarrow> proposal_record option \<times> proposal_record list" where
  "mark_order_submitted_in_tx proposal_id order_ids expected_revision now rows =
     update_returning
       (\<lambda>r. pr_id r = proposal_id \<and> pr_status r = APPROVED \<and> pr_revision r = expected_revision)
       (\<lambda>r. r\<lparr>pr_status := EXECUTED, pr_order_ids := order_ids, pr_updated_at := as_utc now,
              pr_revision := pr_revision r + 1\<rparr>) rows"

definition mark_failed_in_tx ::
    "int \<Rightarrow> string \<Rightarrow> int \<Rightarrow> pydatetime \<Rightarrow> proposal_record list
     \<Rightarrow> proposal_record option \<times> proposal_record list" where
  "mark_failed_in_tx proposal_id reason expected_revision now rows =
     update_returning
       (\<lambda>r. pr_id r = proposal_id \<and> pr_status r = APPROVED \<and> pr_revision r = expected_revision)
       (\<lambda>r. r\<lparr>pr_status := FAILED, pr_rejection_reason := reason, pr_updated_at := as_utc now,
              pr_revision := pr_revision r + 1\<rparr>) rows"

definition proposal_mutation_for :: "proposal_record \<Rightarrow> string option \<Rightarrow> domain_mutation" where
  "proposal_mutation_for r correlation_id =
     \<lparr>dm_event_type = ''proposal.updated'', dm_entity_type = ''proposal'',
      dm_entity_id = string_of_int (pr_id r), dm_operation = Upsert,
      dm_account_id = pr_account_id r, dm_source = ''trader_service'',
      dm_source_timestamp = Aware (pr_updated_at r), dm_correlation_id = correlation_id,
      dm_payload = Some (proposal_to_payload r)\<rparr>"

lemma mutation_for_accepted:
  "domain_mutation_post_init (proposal_mutation_for r c) = Inr (proposal_mutation_for r c)"
  by (simp add: post_init_ok_iff proposal_mutation_for_def)

section \<open>The lifecycle\<close>

text \<open>The moves of a proposal's status, and how many lie behind each status.\<close>

inductive status_edge :: "proposal_status \<Rightarrow> proposal_status \<Rightarrow> bool" where
  edge_approve: "status_edge PENDING APPROVED"
| edge_reject: "status_edge PENDING REJECTED"
| edge_expire: "status_edge PENDING EXPIRED"
| edge_execute: "status_edge APPROVED EXECUTED"
| edge_fail: "status_edge APPROVED FAILED"

inductive_cases edge_from_pending: "status_edge PENDING s"
inductive_cases edge_from_approved: "status_edge APPROVED s"
inductive_simps status_edge_simps: "status_edge s s'"

fun status_rank :: "proposal_status \<Rightarrow> int" where
  "status_rank PENDING = 0"
| "status_rank APPROVED = 1"
| "status_rank REJECTED = 1"
| "status_rank EXPIRED = 1"
| "status_rank EXECUTED = 2"
| "status_rank FAILED = 2"

definition terminal :: "proposal_status \<Rightarrow> bool" where
  "terminal s \<longleftrightarrow> s \<noteq> PENDING \<and> s \<noteq> APPROVED"

text \<open>What was proposed and reviewed: every field but the six the lifecycle may write.\<close>

definition frozen :: "proposal_record \<Rightarrow> proposal_record" where
  "frozen r = r\<lparr>pr_status := PENDING, pr_updated_at := 0, pr_order_ids := [], pr_rejection_reason := [],
     pr_revision := 0, pr_order_group_id := None\<rparr>"

text \<open>One write of the repository, with any arguments.\<close>

inductive proposal_step :: "proposal_record list \<Rightarrow> proposal_record list \<Rightarrow> bool" where
  step_insert: "insert_pending_in_tx d 1 rows = Some (rec, rows') \<Longrightarrow> proposal_step rows rows'"
| step_reject: "reject_in_tx i reason now n rows = (res, rows') \<Longrightarrow> proposal_step rows rows'"
| step_expire: "expire_in_tx i now n rows = (res, rows') \<Longrightarrow> proposal_step rows rows'"
| step_claim: "claim_for_approval_in_tx i n account now rows = (out, rows') \<Longrightarrow> proposal_step rows rows'"
| step_link: "link_order_group_in_tx i g rows = rows' \<Longrightarrow> proposal_step rows rows'"
| step_submit: "mark_order_submitted_in_tx i os n now rows = (res, rows') \<Longrightarrow> proposal_step rows rows'"
| step_failed: "mark_failed_in_tx i reason n now rows = (res, rows') \<Longrightarrow> proposal_step rows rows'"

text \<open>How one row may change, in one step and in many.\<close>

definition row_moves :: "proposal_record \<Rightarrow> proposal_record \<Rightarrow> bool" where
  "row_moves r r' \<longleftrightarrow>
     frozen r' = frozen r \<and> status_edge\<^sup>*\<^sup>* (pr_status r) (pr_status r')
     \<and> pr_revision r' - pr_revision r = status_rank (pr_status r') - status_rank (pr_status r)
     \<and> (terminal (pr_status r) \<longrightarrow> r' = r)"

lemma row_moves_refl [simp]: "row_moves r r"
  by (simp add: row_moves_def)

lemma edges_terminal: "status_edge\<^sup>*\<^sup>* s s' \<Longrightarrow> terminal s \<Longrightarrow> s' = s"
  by (induction rule: rtranclp_induct) (auto simp: terminal_def status_edge_simps)

lemma row_moves_trans: "row_moves r s \<Longrightarrow> row_moves s t \<Longrightarrow> row_moves r t"
  by (auto simp: row_moves_def)

lemma frozen_id: "frozen r' = frozen r \<Longrightarrow> pr_id r' = pr_id r"
  by (drule arg_cong [of _ _ pr_id]) (simp add: frozen_def)

lemma row_moves_id: "row_moves r r' \<Longrightarrow> pr_id r' = pr_id r"
  by (rule frozen_id) (simp add: row_moves_def)

lemma edge_facts: "status_edge s s' \<Longrightarrow> \<not> terminal s \<and> status_rank s' = status_rank s + 1"
  by (induction rule: status_edge.induct) (simp_all add: terminal_def)

lemma row_moves_edge:
  assumes "status_edge (pr_status r) (pr_status r')" and "frozen r' = frozen r"
    and "pr_revision r' = pr_revision r + 1"
  shows "row_moves r r'"
  using assms(2,3) edge_facts [OF assms(1)] r_into_rtranclp [of status_edge, OF assms(1)]
  by (simp add: row_moves_def)

lemma row_moves_link:
  "pr_status r = APPROVED \<Longrightarrow> row_moves r (r\<lparr>pr_order_group_id := Some g\<rparr>)"
  by (simp add: row_moves_def frozen_def terminal_def)

lemma update_moves:
  assumes "\<And>r. P r \<Longrightarrow> row_moves r (f r)"
  shows "list_all2 row_moves rows (update_where P f rows)"
  using assms by (induction rows) auto

text \<open>Every write moves rows in place, or adds one pending row under an unused id.\<close>

lemma proposal_step_cases:
  assumes "proposal_step rows rows'"
  obtains (moved) "list_all2 row_moves rows rows'"
  | (inserted) d where "\<forall>r \<in> set rows. pr_id r \<noteq> pd_id d" and "rows' = rows @ [pending_row d 1]"
  using assms
proof (cases rule: proposal_step.cases)
  case (step_insert d rec)
  then show thesis using inserted by (auto simp: insert_pending_in_tx_def split: if_splits)
next
  case (step_reject i reason now n res)
  then show thesis
    by (intro moved)
      (auto simp: reject_in_tx_def update_returning_def frozen_def status_edge_simps
        intro!: update_moves row_moves_edge)
next
  case (step_expire i now n res)
  then show thesis
    by (intro moved)
      (auto simp: expire_in_tx_def update_returning_def frozen_def status_edge_simps
        intro!: update_moves row_moves_edge)
next
  case (step_claim i n account now out)
  then have "rows' = update_where
      (\<lambda>r. pr_id r = i \<and> pr_status r = PENDING \<and> Some (pr_revision r) = n \<and> pr_account_id r = Some account)
      (\<lambda>r. r\<lparr>pr_status := (if is_stale (as_utc now) r then EXPIRED else APPROVED),
             pr_updated_at := as_utc now, pr_revision := pr_revision r + 1\<rparr>) rows"
    by (auto simp: claim_for_approval_in_tx_def update_returning_def Let_def
        split: option.splits if_splits)
  then show thesis
    by (intro moved)
      (auto simp: frozen_def status_edge_simps intro!: update_moves row_moves_edge)
next
  case (step_link i g)
  then show thesis
    by (intro moved) (auto simp: link_order_group_in_tx_def intro!: update_moves row_moves_link)
next
  case (step_submit i os n now res)
  then show thesis
    by (intro moved)
      (auto simp: mark_order_submitted_in_tx_def update_returning_def frozen_def status_edge_simps
        intro!: update_moves row_moves_edge)
next
  case (step_failed i reason n now res)
  then show thesis
    by (intro moved)
      (auto simp: mark_failed_in_tx_def update_returning_def frozen_def status_edge_simps
        intro!: update_moves row_moves_edge)
qed

lemma moves_ids: "list_all2 row_moves rows rows' \<Longrightarrow> map pr_id rows' = map pr_id rows"
  by (induction rule: list_all2_induct) (simp_all add: row_moves_id)

definition ids_distinct :: "proposal_record list \<Rightarrow> bool" where
  "ids_distinct rows \<longleftrightarrow> distinct (map pr_id rows)"

lemma pending_row_id [simp]: "pr_id (pending_row d n) = pd_id d"
  by (simp add: pending_row_def)

interpretation proposals: state_machine proposal_step ids_distinct
proof
  fix rows rows'
  assume "proposal_step rows rows'" and "ids_distinct rows"
  then show "ids_distinct rows'"
  proof (cases rule: proposal_step_cases)
    case (inserted d)
    then show ?thesis using \<open>ids_distinct rows\<close> by (auto simp: ids_distinct_def)
  qed (simp add: ids_distinct_def moves_ids)
qed

lemma list_all2_memD: "list_all2 R xs ys \<Longrightarrow> x \<in> set xs \<Longrightarrow> \<exists>y \<in> set ys. R x y"
  by (induction rule: list_all2_induct) auto

lemma step_row:
  assumes "proposal_step rows rows'" and "r \<in> set rows"
  shows "\<exists>r' \<in> set rows'. row_moves r r'"
  using assms(1)
proof (cases rule: proposal_step_cases)
  case moved
  then show ?thesis using assms(2) by (rule list_all2_memD)
next
  case (inserted d)
  then show ?thesis using assms(2) by (auto intro!: bexI [of _ r])
qed

lemma run_row:
  assumes "proposal_step\<^sup>*\<^sup>* rows rows'" and "r \<in> set rows"
  shows "\<exists>r' \<in> set rows'. row_moves r r'"
  using assms
proof (induction rule: rtranclp_induct)
  case base
  then show ?case by (auto intro!: bexI [of _ r])
next
  case (step y z)
  then obtain r1 where "r1 \<in> set y" and "row_moves r r1" by blast
  moreover from step_row [OF step(2) this(1)] obtain r2 where "r2 \<in> set z" "row_moves r1 r2" by blast
  ultimately show ?case using row_moves_trans by blast
qed

section \<open>Properties of the repository\<close>

text \<open>
  C36. Over any sequence of repository writes a stored proposal stays in the table, what was
  proposed and reviewed never changes, its status moves only from pending to approved, rejected
  or expired and from approved to executed or failed, its revision grows by exactly the number
  of those moves, and once it is rejected, expired, executed or failed its row is final.
\<close>

theorem proposal_lifecycle:
  assumes "proposal_step\<^sup>*\<^sup>* rows rows'" and "ids_distinct rows" and "r \<in> set rows"
  shows "ids_distinct rows' \<and> (\<exists>r' \<in> set rows'. pr_id r' = pr_id r \<and> frozen r' = frozen r
    \<and> status_edge\<^sup>*\<^sup>* (pr_status r) (pr_status r')
    \<and> pr_revision r' - pr_revision r = status_rank (pr_status r') - status_rank (pr_status r)
    \<and> (terminal (pr_status r) \<longrightarrow> r' = r))"
proof
  show "ids_distinct rows'" using assms(1,2) by (rule proposals.run_inv)
  from run_row [OF assms(1,3)] obtain r' where r': "r' \<in> set rows'" and "row_moves r r'" by blast
  moreover from this(2) have "pr_id r' = pr_id r" by (rule row_moves_id)
  ultimately show "\<exists>r' \<in> set rows'. pr_id r' = pr_id r \<and> frozen r' = frozen r
    \<and> status_edge\<^sup>*\<^sup>* (pr_status r) (pr_status r')
    \<and> pr_revision r' - pr_revision r = status_rank (pr_status r') - status_rank (pr_status r)
    \<and> (terminal (pr_status r) \<longrightarrow> r' = r)"
    unfolding row_moves_def by blast
qed

lemma status_edge_to: "status_edge s s' \<Longrightarrow> s' \<noteq> PENDING"
  by (induction rule: status_edge.induct) simp_all

lemma moved_not_pending: "row_moves r r' \<Longrightarrow> pr_status r \<noteq> PENDING \<Longrightarrow> pr_status r' \<noteq> PENDING"
  unfolding row_moves_def by (metis status_edge_to rtranclp.cases)

lemma ids_distinct_eq: "ids_distinct rows \<Longrightarrow> r \<in> set rows \<Longrightarrow> s \<in> set rows \<Longrightarrow> pr_id r = pr_id s \<Longrightarrow> r = s"
  by (auto simp: ids_distinct_def distinct_map inj_on_def)

lemma from_row_simps [simp]:
  "pr_id (from_row r) = pr_id r" "pr_status (from_row r) = pr_status r"
  "pr_account_id (from_row r) = pr_account_id r" "pr_revision (from_row r) = pr_revision r"
  "pr_updated_at (from_row r) = pr_updated_at r" "pr_expires_at (from_row r) = pr_expires_at r"
  "pr_metadata (from_row r) = pr_metadata r" "is_stale t (from_row r) = is_stale t r"
  by (simp_all add: from_row_def is_stale_def split: option.split)

lemma claim_claimedE:
  assumes "ids_distinct rows" and "claim_for_approval_in_tx i n account now rows = (out, rows')"
    and "ac_result out = CLAIMED"
  obtains r where "r \<in> set rows" and "pr_id r = i" and "pr_status r = PENDING" and "Some (pr_revision r) = n"
    and "pr_account_id r = Some account" and "\<not> is_stale (as_utc now) r"
    and "ac_record out = Some (from_row (r\<lparr>pr_status := APPROVED, pr_updated_at := as_utc now,
           pr_revision := pr_revision r + 1\<rparr>))"
    and "r\<lparr>pr_status := APPROVED, pr_updated_at := as_utc now, pr_revision := pr_revision r + 1\<rparr> \<in> set rows'"
proof -
  let ?P = "\<lambda>r. pr_id r = i \<and> pr_status r = PENDING \<and> Some (pr_revision r) = n \<and> pr_account_id r = Some account"
  let ?f = "\<lambda>r. r\<lparr>pr_status := (if is_stale (as_utc now) r then EXPIRED else APPROVED),
             pr_updated_at := as_utc now, pr_revision := pr_revision r + 1\<rparr>"
  have "fetchone (map ?f (filter ?P rows)) \<noteq> None"
  proof
    assume "fetchone (map ?f (filter ?P rows)) = None"
    then show False using assms(2,3)
      by (auto simp: claim_for_approval_in_tx_def update_returning_def Let_def split: option.splits if_splits)
  qed
  then obtain r rs where hit: "filter ?P rows = r # rs" by (cases "filter ?P rows") auto
  then have "r \<in> set (filter ?P rows)" by simp
  then have r: "r \<in> set rows" "?P r" by simp_all
  have look: "fetchone (map ?f (filter ?P rows)) = Some (?f r)" using hit by simp
  have out: "out = \<lparr>ac_result = (if is_stale (as_utc now) r then CLAIM_EXPIRED else CLAIMED),
      ac_record = Some (from_row (?f r))\<rparr>" and rows': "rows' = update_where ?P ?f rows"
    using assms(2) look by (auto simp: claim_for_approval_in_tx_def update_returning_def Let_def)
  then have fresh: "\<not> is_stale (as_utc now) r" using assms(3) by (auto split: if_splits)
  have "?f r \<in> set rows'" unfolding rows' set_update_where using r by blast
  then show thesis using that [of r] r fresh out by simp
qed

lemma claim_not_pending:
  assumes "ids_distinct rows" and "r \<in> set rows" and "pr_id r = i" and "pr_status r \<noteq> PENDING"
  shows "claim_for_approval_in_tx i n account now rows
    = (\<lparr>ac_result = (if pr_account_id r = Some account then NOT_PENDING else WRONG_ACCOUNT),
        ac_record = Some (from_row r)\<rparr>, rows)"
proof -
  have only: "\<And>x. x \<in> set rows \<Longrightarrow> pr_id x = i \<Longrightarrow> x = r"
    using assms by (auto dest: ids_distinct_eq)
  then have none: "filter (\<lambda>r. pr_id r = i \<and> pr_status r = PENDING \<and> Some (pr_revision r) = n
      \<and> pr_account_id r = Some account) rows = []"
    using assms(4) by (auto simp: filter_empty_conv)
  have look: "fetchone (filter (\<lambda>x. pr_id x = i) rows) = Some r"
    using fetchone_key [of pr_id rows r] assms(1-3) by (simp add: ids_distinct_def)
  have same: "update_where (\<lambda>r. pr_id r = i \<and> pr_status r = PENDING \<and> Some (pr_revision r) = n
      \<and> pr_account_id r = Some account) f rows = rows" for f
    using only assms(4) by (intro update_where_no_match) auto
  show ?thesis
    using assms(4)
    by (simp add: claim_for_approval_in_tx_def update_returning_def none same proposal_get_def look)
qed

text \<open>
  C26. A proposal is claimed for approval at most once, and never after it expired: a successful
  claim presented the current revision and the owning account of a pending proposal whose expiry
  lies in the future; after it, whatever writes follow, every further claim of that proposal is
  refused and changes nothing.
\<close>

theorem approval_claimed_once:
  assumes "ids_distinct rows" and "claim_for_approval_in_tx i n account now rows = (out, rows1)"
    and "ac_result out = CLAIMED" and "proposal_step\<^sup>*\<^sup>* rows1 rows2"
    and "claim_for_approval_in_tx i n' account' now' rows2 = (out', rows3)"
  shows "ac_result out' \<in> {NOT_PENDING, WRONG_ACCOUNT} \<and> rows3 = rows2
    \<and> (\<exists>r \<in> set rows. pr_id r = i \<and> pr_status r = PENDING \<and> Some (pr_revision r) = n
         \<and> pr_account_id r = Some account \<and> \<not> is_stale (as_utc now) r)"
proof -
  from assms(1-3) obtain r where r: "r \<in> set rows" "pr_id r = i" "pr_status r = PENDING"
      "Some (pr_revision r) = n" "pr_account_id r = Some account" "\<not> is_stale (as_utc now) r"
    and mem: "r\<lparr>pr_status := APPROVED, pr_updated_at := as_utc now, pr_revision := pr_revision r + 1\<rparr> \<in> set rows1"
    by (rule claim_claimedE)
  let ?a = "r\<lparr>pr_status := APPROVED, pr_updated_at := as_utc now, pr_revision := pr_revision r + 1\<rparr>"
  from run_row [OF assms(4) mem] obtain r2 where r2: "r2 \<in> set rows2" "row_moves ?a r2" by blast
  have id2: "pr_id r2 = i" using row_moves_id [OF r2(2)] r(2) by simp
  have np: "pr_status r2 \<noteq> PENDING" using moved_not_pending [OF r2(2)] by simp
  have dist: "ids_distinct rows2"
    using proposals.run_inv [OF assms(4)] proposals.step_keeps_inv [OF step_claim [OF assms(2)] assms(1)]
    by blast
  from claim_not_pending [OF dist r2(1) id2 np, of n' account' now'] assms(5)
  show ?thesis using r by auto
qed

section \<open>A concrete proposal\<close>

definition demo_draft :: proposal_draft where
  "demo_draft =
     \<lparr>pd_id = 7, pd_symbol = ''AMD'', pd_action = ''BUY'', pd_quantity = Some (Fin 10),
      pd_amount = Some (Fin 1500), pd_execution = [(''type'', JStr ''LMT''), (''limit'', JNum (Fin 150))],
      pd_reasoning = [], pd_confidence = Fin (1/2), pd_thesis = [], pd_source = ''strategy:orb'',
      pd_metadata = [], pd_sec_type = ''STK'', pd_account_id = ''DU1'', pd_account_mode = ''paper'',
      pd_conid = 4391, pd_reference_price = Fin 150, pd_reference_timestamp = Aware 0,
      pd_reference_quote_side = ''ask'', pd_reference_feed_type = ''live'',
      pd_max_price_drift_bps = Fin 50, pd_expires_at = Aware (minutes 5),
      pd_live_approval_eligible = True, pd_created_at = Aware 0\<rparr>"

definition demo_rows :: "proposal_record list" where
  "demo_rows = [pending_row demo_draft 1]"

definition demo_claimed :: "proposal_record list" where
  "demo_claimed = snd (claim_for_approval_in_tx 7 (Some 1) ''DU1'' (Aware 10) demo_rows)"

definition demo_submitted :: "proposal_record list" where
  "demo_submitted = snd (mark_order_submitted_in_tx 7 [101] 2 (Aware 20) demo_claimed)"

lemma demo_submission: "proposal_step\<^sup>*\<^sup>* demo_claimed demo_submitted"
  unfolding demo_submitted_def by (rule r_into_rtranclp, rule step_submit, rule surjective_pairing)

lemma demo_distinct: "ids_distinct demo_rows" "ids_distinct demo_claimed"
  by code_simp+

theorem proposal_lifecycle_witness:
  "\<exists>r' \<in> set demo_submitted. frozen r' = frozen (hd demo_claimed)
     \<and> status_edge\<^sup>*\<^sup>* APPROVED (pr_status r') \<and> pr_revision r' - 2 = status_rank (pr_status r') - 1"
proof -
  have hd: "hd demo_claimed \<in> set demo_claimed" "pr_status (hd demo_claimed) = APPROVED"
    "pr_revision (hd demo_claimed) = 2" by code_simp+
  from proposal_lifecycle [OF demo_submission demo_distinct(2) hd(1)] hd(2,3) show ?thesis by auto
qed

theorem approval_claimed_once_witness:
  "ac_result (fst (claim_for_approval_in_tx 7 (Some 1) ''DU1'' (Aware 10) demo_rows)) = CLAIMED
   \<and> ac_result (fst (claim_for_approval_in_tx 7 (Some 3) ''DU1'' (Aware 30) demo_submitted))
       \<in> {NOT_PENDING, WRONG_ACCOUNT}
   \<and> snd (claim_for_approval_in_tx 7 (Some 3) ''DU1'' (Aware 30) demo_submitted) = demo_submitted"
proof -
  have claim: "claim_for_approval_in_tx 7 (Some 1) ''DU1'' (Aware 10) demo_rows
      = (fst (claim_for_approval_in_tx 7 (Some 1) ''DU1'' (Aware 10) demo_rows), demo_claimed)"
    by (simp add: demo_claimed_def)
  have ok: "ac_result (fst (claim_for_approval_in_tx 7 (Some 1) ''DU1'' (Aware 10) demo_rows)) = CLAIMED"
    by code_simp
  from approval_claimed_once [OF demo_distinct(1) claim ok demo_submission surjective_pairing] ok
  show ?thesis by blast
qed

end
