(* ===== verification/Proposal_Service.thy ===== *)
theory Proposal_Service
  imports Proposal_Repository Trading_Control
begin

text \<open>
  The proposal authority, \<^verbatim>\<open>src/trader/trading/proposal_command_service.py\<close>: creating a proposal
  (its checks in the source's order, sizing, the draft, the journaled insert), rejecting one and
  the expiry sweep. The authorities the service is constructed with (security definitions, the
  instrument filter, positions, the pause control, quotes, the position sizer) are functions of
  the service record, and an authority that is not wired is None. The text of a refusal is left out, its
  code is kept.
\<close>

section \<open>Requests, authorities and refusals\<close>

record executable_quote =
  xq_conid :: int
  xq_side :: string
  xq_price :: pyfloat
  xq_market_timestamp :: pydatetime
  xq_feed_type :: string
  xq_session_state :: string
  xq_bid :: "pyfloat option"
  xq_ask :: "pyfloat option"
  xq_bid_size :: "pyfloat option"
  xq_ask_size :: "pyfloat option"

record proposal_create_request =
  rq_conid :: int
  rq_action :: string
  rq_quantity :: "pyfloat option"
  rq_amount :: "pyfloat option"
  rq_execution :: jobject
  rq_reasoning :: string
  rq_confidence :: pyfloat
  rq_thesis :: string
  rq_group :: string
  rq_max_price_drift_bps :: "pyfloat option"
  rq_max_hold_bars :: "int option"
  rq_close_by_time :: "string option"
  rq_close_by_tz :: "string option"

record secdef =
  sd_symbol :: string
  sd_primaryExchange :: string
  sd_secType :: string

record sizing =
  sz_amount_usd :: pyfloat
  sz_quantity :: "pyfloat option"

datatype refusal_code =
    INVALID_ACTION | INVALID_SIZE | UNKNOWN_CONID | TRADING_FILTER_REJECTED | NO_LONG_TO_CLOSE
  | TRADING_PAUSED | QUOTE_UNAVAILABLE | SIZING_BLOCKED | DUPLICATE_PENDING
  | PROPOSAL_IDENTITY_CONFLICT | REFUSED_NOT_FOUND | REFUSED_NOT_PENDING

datatype proposal_error =
    ProposalCreationRefused refusal_code
  | ConcurrentProposalChange
  | NaiveProposalTime
  | ReserveExhausted
  | ProposalKeyViolation
  | ProposalZeroDivision
  | WrittenIndexError
  | ControlRaised control_error

record proposal_service =
  ps_check_instrument :: "string \<Rightarrow> string \<Rightarrow> string \<Rightarrow> bool"
  ps_quotes :: "int \<Rightarrow> string \<Rightarrow> executable_quote option"
  ps_universe :: "int \<Rightarrow> secdef option"
  ps_account_id :: string
  ps_account_mode :: string
  ps_ttl :: duration
  ps_controls :: "(string \<Rightarrow> control_error + unit) option"
  ps_sizer :: "(pyfloat \<Rightarrow> pyfloat \<Rightarrow> sizing) option"
  ps_positions :: "(string \<Rightarrow> int \<Rightarrow> pyfloat) option"
  ps_rnd :: "rat \<Rightarrow> pyfloat"

definition default_drift_bps :: pyfloat where
  "default_drift_bps = Fin 50"

definition service_as_utc :: "pydatetime \<Rightarrow> proposal_error + instant" where
  "service_as_utc v = (case v of Naive _ \<Rightarrow> Inl NaiveProposalTime | Aware t \<Rightarrow> Inr t)"

section \<open>Checks and sizing\<close>

definition is_reducing_close :: "proposal_service \<Rightarrow> proposal_create_request \<Rightarrow> bool" where
  "is_reducing_close svc request =
     (if rq_action request \<noteq> ''SELL'' then False
      else case rq_quantity request of
             None \<Rightarrow> False
           | Some q \<Rightarrow>
              (case ps_positions svc of
                 None \<Rightarrow> False
               | Some reducible \<Rightarrow> flt_le q (reducible (ps_account_id svc) (rq_conid request))))"

definition flat_strategy_sell :: "proposal_service \<Rightarrow> proposal_create_request \<Rightarrow> string \<Rightarrow> bool" where
  "flat_strategy_sell svc request source =
     (if rq_action request = ''SELL'' \<and> starts_with ''strategy:'' source
      then case ps_positions svc of
             None \<Rightarrow> False
           | Some reducible \<Rightarrow> flt_le (reducible (ps_account_id svc) (rq_conid request)) (Fin 0)
      else False)"

definition check_pause :: "proposal_service \<Rightarrow> proposal_create_request \<Rightarrow> proposal_error + unit" where
  "check_pause svc request =
     (case ps_controls svc of
        None \<Rightarrow> Inr ()
      | Some require \<Rightarrow>
          if is_reducing_close svc request then Inr ()
          else case require (ps_account_id svc) of
                 Inr _ \<Rightarrow> Inr ()
               | Inl (TradingPausedError _) \<Rightarrow> Inl (ProposalCreationRefused TRADING_PAUSED)
               | Inl (PauseStateUnavailable _) \<Rightarrow> Inl (ProposalCreationRefused TRADING_PAUSED)
               | Inl e \<Rightarrow> Inl (ControlRaised e))"

definition quote_side :: "proposal_create_request \<Rightarrow> string" where
  "quote_side request = (if rq_action request = ''BUY'' then ''ask'' else ''bid'')"

definition check_quote ::
    "proposal_service \<Rightarrow> proposal_create_request \<Rightarrow> proposal_error + executable_quote" where
  "check_quote svc request =
     (case ps_quotes svc (rq_conid request) (quote_side request) of
        None \<Rightarrow> Inl (ProposalCreationRefused QUOTE_UNAVAILABLE)
      | Some quote \<Rightarrow>
          if flt_le (xq_price quote) (Fin 0) then Inl (ProposalCreationRefused QUOTE_UNAVAILABLE)
          else if xq_conid quote \<noteq> rq_conid request \<or> xq_side quote \<noteq> quote_side request
          then Inl (ProposalCreationRefused QUOTE_UNAVAILABLE)
          else case xq_market_timestamp quote of
                 Naive _ \<Rightarrow> Inl (ProposalCreationRefused QUOTE_UNAVAILABLE)
               | Aware _ \<Rightarrow> Inr quote)"

text \<open>\<open>a / b\<close>, which raises \<open>ZeroDivisionError\<close>.\<close>

definition py_div :: "(rat \<Rightarrow> pyfloat) \<Rightarrow> pyfloat \<Rightarrow> pyfloat \<Rightarrow> proposal_error + pyfloat" where
  "py_div rnd a b = (case flt_div rnd a b of None \<Rightarrow> Inl ProposalZeroDivision | Some q \<Rightarrow> Inr q)"

definition size_request ::
    "proposal_service \<Rightarrow> proposal_create_request \<Rightarrow> pyfloat \<Rightarrow> proposal_error + pyfloat \<times> pyfloat" where
  "size_request svc request price =
     (case rq_quantity request of
        Some q \<Rightarrow>
          if flt_le q (Fin 0) then Inl (ProposalCreationRefused INVALID_SIZE)
          else Inr (q, flt_mul (ps_rnd svc) q price)
      | None \<Rightarrow>
         (case rq_amount request of
            Some a \<Rightarrow>
              if flt_le a (Fin 0) then Inl (ProposalCreationRefused INVALID_SIZE)
              else bind_sum (py_div (ps_rnd svc) a price) (\<lambda>q. Inr (q, a))
          | None \<Rightarrow>
             (case ps_sizer svc of
                None \<Rightarrow> Inl (ProposalCreationRefused SIZING_BLOCKED)
              | Some compute \<Rightarrow>
                 (let result = compute (rq_confidence request) price
                  in if flt_le (sz_amount_usd result) (Fin 0)
                     then Inl (ProposalCreationRefused SIZING_BLOCKED)
                     else case sz_quantity result of
                            Some q \<Rightarrow>
                              if q \<noteq> Fin 0 then Inr (q, sz_amount_usd result)
                              else bind_sum (py_div (ps_rnd svc) (sz_amount_usd result) price)
                                     (\<lambda>q. Inr (q, sz_amount_usd result))
                          | None \<Rightarrow>
                              bind_sum (py_div (ps_rnd svc) (sz_amount_usd result) price)
                                (\<lambda>q. Inr (q, sz_amount_usd result))))))"

text \<open>Everything \<open>create_proposal\<close> checks before it reserves an id, in its order.\<close>

definition validate_request ::
    "proposal_service \<Rightarrow> proposal_create_request \<Rightarrow> string
     \<Rightarrow> proposal_error + secdef \<times> executable_quote \<times> pyfloat \<times> pyfloat" where
  "validate_request svc request source =
     bind_sum (check (rq_action request = ''BUY'' \<or> rq_action request = ''SELL'')
                 (ProposalCreationRefused INVALID_ACTION)) (\<lambda>_.
     bind_sum (check (\<not> (rq_quantity request \<noteq> None \<and> rq_amount request \<noteq> None))
                 (ProposalCreationRefused INVALID_SIZE)) (\<lambda>_.
     case ps_universe svc (rq_conid request) of
       None \<Rightarrow> Inl (ProposalCreationRefused UNKNOWN_CONID)
     | Some sd \<Rightarrow>
        bind_sum (check (ps_check_instrument svc (sd_symbol sd) (sd_primaryExchange sd)
                           (if sd_secType sd = [] then ''STK'' else sd_secType sd))
                    (ProposalCreationRefused TRADING_FILTER_REJECTED)) (\<lambda>_.
        bind_sum (check (\<not> flat_strategy_sell svc request source)
                    (ProposalCreationRefused NO_LONG_TO_CLOSE)) (\<lambda>_.
        bind_sum (check_pause svc request) (\<lambda>_.
        bind_sum (check_quote svc request) (\<lambda>quote.
        bind_sum (size_request svc request (xq_price quote)) (\<lambda>(quantity, amount).
          Inr (sd, quote, quantity, amount))))))))"

section \<open>The journaled writes\<close>

definition request_metadata :: "proposal_create_request \<Rightarrow> jobject" where
  "request_metadata request =
     (if rq_group request = [] then [] else [(''group'', JStr (rq_group request))])
     @ (case rq_max_hold_bars request of None \<Rightarrow> [] | Some n \<Rightarrow> [(''max_hold_bars'', JInt n)])
     @ (case rq_close_by_time request of
          None \<Rightarrow> []
        | Some t \<Rightarrow>
            if t = [] then []
            else (''close_by_time'', JStr t)
                 # (case rq_close_by_tz request of
                      None \<Rightarrow> []
                    | Some z \<Rightarrow> if z = [] then [] else [(''close_by_tz'', JStr z)]))"

definition make_draft ::
    "proposal_service \<Rightarrow> proposal_create_request \<Rightarrow> string \<Rightarrow> instant \<Rightarrow> int \<Rightarrow> secdef \<Rightarrow> executable_quote
     \<Rightarrow> pyfloat \<Rightarrow> pyfloat \<Rightarrow> proposal_draft" where
  "make_draft svc request source now proposal_id sd quote quantity amount =
     \<lparr>pd_id = proposal_id, pd_symbol = sd_symbol sd, pd_action = rq_action request,
      pd_quantity = Some quantity, pd_amount = Some amount, pd_execution = rq_execution request,
      pd_reasoning = rq_reasoning request, pd_confidence = rq_confidence request,
      pd_thesis = rq_thesis request, pd_source = source, pd_metadata = request_metadata request,
      pd_sec_type = (if sd_secType sd = [] then ''STK'' else sd_secType sd),
      pd_account_id = ps_account_id svc, pd_account_mode = ps_account_mode svc,
      pd_conid = rq_conid request, pd_reference_price = xq_price quote,
      pd_reference_timestamp = xq_market_timestamp quote,
      pd_reference_quote_side = xq_side quote, pd_reference_feed_type = xq_feed_type quote,
      pd_max_price_drift_bps = opt_or default_drift_bps (rq_max_price_drift_bps request),
      pd_expires_at = Aware (now + ps_ttl svc), pd_live_approval_eligible = True,
      pd_created_at = Aware now\<rparr>"

definition record_from_draft :: "proposal_draft \<Rightarrow> int \<Rightarrow> proposal_record" where
  "record_from_draft d revision =
     \<lparr>pr_id = pd_id d, pr_symbol = pd_symbol d, pr_action = pd_action d,
      pr_quantity = pd_quantity d, pr_amount = pd_amount d,
      pr_execution = pd_execution d, pr_reasoning = pd_reasoning d,
      pr_confidence = pd_confidence d, pr_thesis = pd_thesis d, pr_source = pd_source d,
      pr_metadata = pd_metadata d, pr_status = PENDING,
      pr_created_at = as_utc (pd_created_at d), pr_updated_at = as_utc (pd_created_at d),
      pr_order_ids = [], pr_rejection_reason = [], pr_sec_type = pd_sec_type d,
      pr_account_id = Some (pd_account_id d), pr_account_mode = Some (pd_account_mode d),
      pr_conid = Some (pd_conid d), pr_reference_price = Some (pd_reference_price d),
      pr_reference_timestamp = Some (as_utc (pd_reference_timestamp d)),
      pr_reference_quote_side = Some (pd_reference_quote_side d),
      pr_reference_feed_type = Some (pd_reference_feed_type d),
      pr_max_price_drift_bps = Some (pd_max_price_drift_bps d),
      pr_expires_at = Some (as_utc (pd_expires_at d)),
      pr_live_approval_eligible = pd_live_approval_eligible d,
      pr_revision = revision, pr_order_group_id = None\<rparr>"

text \<open>
  \<open>written = []\<close>, the call of \<open>mutate\<close>, and \<open>written[0]\<close>: an \<open>IndexError\<close> when \<open>mutate\<close> replayed an event
  and did not run the callback. Every call names its event id, so no \<open>uuid4\<close> is drawn.
\<close>

definition journal_write ::
    "(proposal_tables, proposal_error) batch_item \<Rightarrow> proposal_db
     \<Rightarrow> (proposal_error journal_error + proposal_record) \<times> proposal_db" where
  "journal_write item db =
     (case mutate item (db\<lparr>jd_prod := (jd_prod db)\<lparr>pt_written := None\<rparr>\<rparr>) of
        (Inl e, db') \<Rightarrow> (Inl e, db')
      | (Inr _, db') \<Rightarrow>
         (case pt_written (jd_prod db') of
            None \<Rightarrow> (Inl (Raised WrittenIndexError), db')
          | Some rec \<Rightarrow> (Inr rec, db'\<lparr>jd_prod := (jd_prod db')\<lparr>pt_written := None\<rparr>\<rparr>)))"

definition proposal_item ::
    "instant \<Rightarrow> proposal_record \<Rightarrow> string option \<Rightarrow> (proposal_tables \<Rightarrow> int \<Rightarrow> proposal_error + proposal_tables)
     \<Rightarrow> (proposal_tables, proposal_error) batch_item" where
  "proposal_item received_ts predicted correlation_id write_materialized =
     \<lparr>bi_received_ts = received_ts, bi_uuid = [],
      bi_mutation = proposal_mutation_for predicted correlation_id,
      bi_write = write_materialized,
      bi_event_id = Some (proposal_event_id (pr_id predicted) (pr_revision predicted))\<rparr>"

definition create_write ::
    "string \<Rightarrow> proposal_create_request \<Rightarrow> proposal_draft \<Rightarrow> proposal_tables \<Rightarrow> int
     \<Rightarrow> proposal_error + proposal_tables" where
  "create_write source request d p revision =
     (if revision \<noteq> 1 then Inl ConcurrentProposalChange
      else if starts_with ''strategy:'' source
              \<and> pending_duplicate_in_tx (pt_rows p) source (rq_conid request) (rq_action request)
      then Inl (ProposalCreationRefused DUPLICATE_PENDING)
      else case insert_pending_in_tx d revision (pt_rows p) of
             None \<Rightarrow> Inl ProposalKeyViolation
           | Some (rec, rows) \<Rightarrow> Inr (p\<lparr>pt_rows := rows, pt_written := Some rec\<rparr>))"

definition create_proposal ::
    "proposal_service \<Rightarrow> proposal_create_request \<Rightarrow> string \<Rightarrow> string \<Rightarrow> pydatetime \<Rightarrow> instant \<Rightarrow> proposal_db
     \<Rightarrow> (proposal_error journal_error + proposal_record) \<times> proposal_db" where
  "create_proposal svc request source correlation_id now received_ts db =
     (case validate_request svc request source of
        Inl e \<Rightarrow> (Inl (Raised e), db)
      | Inr (sd, quote, quantity, amount) \<Rightarrow>
         (case service_as_utc now of
            Inl e \<Rightarrow> (Inl (Raised e), db)
          | Inr t \<Rightarrow>
             (case reserve_id db of
                (None, db1) \<Rightarrow> (Inl (Raised ReserveExhausted), db1)
              | (Some proposal_id, db1) \<Rightarrow>
                 (let d = make_draft svc request source t proposal_id sd quote quantity amount
                  in case journal_write
                            (proposal_item received_ts (record_from_draft d 1) (Some correlation_id)
                              (create_write source request d)) db1 of
                       (Inl (EventIdentityConflict _), db2) \<Rightarrow>
                         (Inl (Raised (ProposalCreationRefused PROPOSAL_IDENTITY_CONFLICT)), db2)
                     | (Inl e, db2) \<Rightarrow> (Inl e, db2)
                     | (Inr rec, db2) \<Rightarrow> (Inr rec, db2)))))"

text \<open>The closures of the two compare-and-set writes have the same shape.\<close>

definition cas_write ::
    "int \<Rightarrow> (proposal_record list \<Rightarrow> proposal_record option \<times> proposal_record list)
     \<Rightarrow> proposal_tables \<Rightarrow> int \<Rightarrow> proposal_error + proposal_tables" where
  "cas_write predicted_revision update p revision =
     (if revision \<noteq> predicted_revision then Inl ConcurrentProposalChange
      else case update (pt_rows p) of
             (None, _) \<Rightarrow> Inl ConcurrentProposalChange
           | (Some rec, rows) \<Rightarrow> Inr (p\<lparr>pt_rows := rows, pt_written := Some rec\<rparr>))"

definition reject_proposal ::
    "int \<Rightarrow> string \<Rightarrow> string \<Rightarrow> pydatetime \<Rightarrow> instant \<Rightarrow> proposal_db
     \<Rightarrow> (proposal_error journal_error + proposal_record) \<times> proposal_db" where
  "reject_proposal proposal_id reason correlation_id now received_ts db =
     (case proposal_get (pt_rows (jd_prod db)) proposal_id of
        None \<Rightarrow> (Inl (Raised (ProposalCreationRefused REFUSED_NOT_FOUND)), db)
      | Some current \<Rightarrow>
          if pr_status current = REJECTED then (Inr current, db)
          else if pr_status current \<noteq> PENDING
          then (Inl (Raised (ProposalCreationRefused REFUSED_NOT_PENDING)), db)
          else case service_as_utc now of
                 Inl e \<Rightarrow> (Inl (Raised e), db)
               | Inr t \<Rightarrow>
                  (let predicted = current\<lparr>pr_status := REJECTED, pr_rejection_reason := reason,
                         pr_updated_at := t, pr_revision := pr_revision current + 1\<rparr>
                   in journal_write
                        (proposal_item received_ts predicted (Some correlation_id)
                          (cas_write (pr_revision predicted)
                            (reject_in_tx proposal_id reason (Aware t) (pr_revision current)))) db))"

text \<open>
  The sweep over the rows one query returned. \<open>received_ts\<close> is the clock reading of the append
  for each id. A lost compare-and-set skips the row; any other exception ends the sweep.
\<close>

fun expire_each ::
    "instant \<Rightarrow> (int \<Rightarrow> instant) \<Rightarrow> proposal_record list \<Rightarrow> proposal_db
     \<Rightarrow> (proposal_error journal_error + int list) \<times> proposal_db" where
  "expire_each now received_ts [] db = (Inr [], db)"
| "expire_each now received_ts (current # rest) db =
     (let predicted = current\<lparr>pr_status := EXPIRED, pr_updated_at := now,
            pr_revision := pr_revision current + 1\<rparr>
      in case journal_write
                (proposal_item (received_ts (pr_id current)) predicted None
                  (cas_write (pr_revision predicted)
                    (expire_in_tx (pr_id current) (Aware now) (pr_revision current)))) db of
           (Inl (Raised ConcurrentProposalChange), db1) \<Rightarrow> expire_each now received_ts rest db1
         | (Inl e, db1) \<Rightarrow> (Inl e, db1)
         | (Inr rec, db1) \<Rightarrow>
            (case expire_each now received_ts rest db1 of
               (Inl e, db2) \<Rightarrow> (Inl e, db2)
             | (Inr expired, db2) \<Rightarrow> (Inr (pr_id rec # expired), db2)))"

definition expire_stale ::
    "pydatetime \<Rightarrow> (int \<Rightarrow> instant) \<Rightarrow> proposal_db
     \<Rightarrow> (proposal_error journal_error + int list) \<times> proposal_db" where
  "expire_stale now received_ts db =
     (case service_as_utc now of
        Inl e \<Rightarrow> (Inl (Raised e), db)
      | Inr t \<Rightarrow> expire_each t received_ts (stale_pending (pt_rows (jd_prod db)) (Aware t)) db)"

section \<open>The invariant\<close>

definition row_revision :: "proposal_record list \<Rightarrow> int \<Rightarrow> int" where
  "row_revision rows i = (case fetchone (filter (\<lambda>r. pr_id r = i) rows) of None \<Rightarrow> 0 | Some r \<Rightarrow> pr_revision r)"

text \<open>
  One row per id; a row's revision runs in step with the journal's revision of that proposal, and
  no proposal event is numbered beyond it; no service call is in progress.
\<close>

definition proposals_inv :: "proposal_db \<Rightarrow> bool" where
  "proposals_inv db \<longleftrightarrow>
     journal_inv db \<and> ids_distinct (pt_rows (jd_prod db)) \<and> pt_written (jd_prod db) = None
     \<and> (\<forall>i. read_current_revision db ''proposal'' (string_of_int i) = row_revision (pt_rows (jd_prod db)) i)
     \<and> (\<forall>r \<in> set (jd_rows db). \<forall>i n. jr_event_id r = proposal_event_id i n
          \<longrightarrow> n \<le> row_revision (pt_rows (jd_prod db)) i)"

lemma proposals_inv_journal: "proposals_inv db \<Longrightarrow> journal_inv db"
  by (simp add: proposals_inv_def)

lemma proposals_inv_empty [simp]:
  "proposals_inv (empty_journal \<lparr>pt_rows = [], pt_next_id = n, pt_written = None\<rparr>)"
  by (simp add: proposals_inv_def ids_distinct_def row_revision_def read_current_revision_def)

lemma proposal_event_id_inject [simp]:
  "proposal_event_id i n = proposal_event_id i' n' \<longleftrightarrow> i = i' \<and> n = n'"
proof
  assume "proposal_event_id i n = proposal_event_id i' n'"
  then have "(''proposal:'' @ string_of_int i) @ CHR '':'' # string_of_int n
      = (''proposal:'' @ string_of_int i') @ CHR '':'' # string_of_int n'"
    by (simp add: proposal_event_id_def)
  from append_last_sep_inject [OF _ _ this] show "i = i' \<and> n = n'" by simp
qed simp

lemma mutation_for_entity [simp]:
  "dm_entity_type (proposal_mutation_for r c) = ''proposal''"
  "dm_entity_id (proposal_mutation_for r c) = string_of_int (pr_id r)"
  by (simp_all add: proposal_mutation_for_def)

lemma proposal_item_simps [simp]:
  "bi_received_ts (proposal_item t r c w) = t" "bi_mutation (proposal_item t r c w) = proposal_mutation_for r c"
  "bi_write (proposal_item t r c w) = w"
  "item_id (proposal_item t r c w) = proposal_event_id (pr_id r) (pr_revision r)"
  "bi_event_id (proposal_item t r c w) = Some (proposal_event_id (pr_id r) (pr_revision r))"
  by (simp_all add: proposal_item_def item_id_def)

lemma select_prod [simp]: "select_journal_row (db\<lparr>jd_prod := p\<rparr>) eid = select_journal_row db eid"
  by (simp add: select_journal_row_def)

lemma revision_signal:
  "read_current_revision (signal_commit c db) et ei = read_current_revision db et ei"
  by (simp add: read_current_revision_def)

text \<open>
  The one write lemma of the service: a journaled write whose callback applies to the next
  revision commits one event with the predicted payload, returns the written record, wakes the
  readers and keeps the invariant.
\<close>

lemma journal_write_ok:
  assumes inv: "proposals_inv db"
    and rev: "pr_revision r = row_revision (pt_rows (jd_prod db)) (pr_id r) + 1"
    and w: "w (jd_prod db) (pr_revision r) = Inr p"
    and p: "ids_distinct (pt_rows p)" "pt_written p = Some out"
    and revs: "\<And>j. row_revision (pt_rows p) j
        = (if j = pr_id r then pr_revision r else row_revision (pt_rows (jd_prod db)) j)"
  shows "\<exists>db' row. journal_write (proposal_item t r c w) db = (Inr out, db') \<and> proposals_inv db'
    \<and> jd_prod db' = p\<lparr>pt_written := None\<rparr> \<and> jd_rows db' = jd_rows db @ [row]
    \<and> jr_event_id row = proposal_event_id (pr_id r) (pr_revision r)
    \<and> jr_entity_revision row = pr_revision r \<and> jr_payload row = Some (proposal_to_payload r)
    \<and> jd_latest_committed db' \<ge> jr_source_cursor row"
proof -
  let ?item = "proposal_item t r c w" and ?eid = "proposal_event_id (pr_id r) (pr_revision r)"
  let ?m = "proposal_mutation_for r c"
  let ?row = "fresh_row t ?eid ?m db"
  have same: "db\<lparr>jd_prod := (jd_prod db)\<lparr>pt_written := None\<rparr>\<rparr> = db"
    using inv by (simp add: proposals_inv_def)
  have cur: "read_current_revision db ''proposal'' (string_of_int (pr_id r)) + 1 = pr_revision r"
    using inv rev by (simp add: proposals_inv_def)
  have new: "select_journal_row db ?eid = None"
    using inv rev by (auto simp: proposals_inv_def select_journal_row_None)
  have run: "mutate ?item db = (Inr (row_to_event ?row),
      signal_commit (jd_next_cursor db) (appended t ?eid ?m p (db\<lparr>jd_open_events := []\<rparr>)))"
    (is "_ = (_, ?db1)")
    using mutate_fresh [of db ?item p] inv new w cur by (simp add: proposals_inv_def)
  let ?db' = "?db1\<lparr>jd_prod := p\<lparr>pt_written := None\<rparr>\<rparr>"
  have res: "journal_write ?item db = (Inr out, ?db')"
    using p(2) by (simp add: journal_write_def same run)
  have rows: "jd_rows ?db' = jd_rows db @ [?row]" by simp
  have "journal_inv ?db1" using mutate_inv [OF proposals_inv_journal [OF inv] run] .
  moreover have "read_current_revision ?db' ''proposal'' (string_of_int i) = row_revision (pt_rows p) i" for i
    using inv cur revs [of i] rev
    by (simp add: revision_signal revision_appended proposals_inv_def)
  moreover have "n \<le> row_revision (pt_rows p) i"
    if "x \<in> set (jd_rows ?db')" "jr_event_id x = proposal_event_id i n" for x i n
    using that inv rev revs [of i] unfolding rows by (fastforce simp: proposals_inv_def)
  ultimately have "proposals_inv ?db'" using p(1) by (auto simp: proposals_inv_def)
  moreover have "jr_entity_revision ?row = pr_revision r" using cur by simp
  moreover have "jr_payload ?row = Some (proposal_to_payload r)"
    by (simp add: fresh_row_def make_journal_row_def proposal_mutation_for_def)
  ultimately show ?thesis using res rows by (intro exI [of _ ?db'] exI [of _ ?row]) simp
qed

lemma get_SomeE:
  assumes "proposal_get rows i = Some rec"
  obtains r where "r \<in> set rows" and "pr_id r = i" and "rec = from_row r"
  using assms unfolding proposal_get_def by (auto dest: fetchone_filter_SomeD)

lemma get_mem: "ids_distinct rows \<Longrightarrow> r \<in> set rows \<Longrightarrow> proposal_get rows (pr_id r) = Some (from_row r)"
  using fetchone_key [of pr_id rows r] by (simp add: proposal_get_def ids_distinct_def)

lemma row_revision_mem: "ids_distinct rows \<Longrightarrow> r \<in> set rows \<Longrightarrow> row_revision rows (pr_id r) = pr_revision r"
  using fetchone_key [of pr_id rows r] by (simp add: row_revision_def ids_distinct_def)

text \<open>A compare-and-set that hits its row, journaled in step.\<close>

lemma cas_ok:
  assumes inv: "proposals_inv db" and r: "r \<in> set (pt_rows (jd_prod db))"
    and only: "\<And>x. x \<in> set (pt_rows (jd_prod db)) \<Longrightarrow> P x \<longleftrightarrow> x = r"
    and f: "\<And>x. pr_id (f x) = pr_id x" "pr_revision (f r) = pr_revision r + 1"
    and pred: "predicted = from_row (f r)"
  shows "\<exists>db' row. journal_write (proposal_item t predicted c
        (cas_write (pr_revision predicted) (update_returning P f))) db = (Inr predicted, db')
    \<and> proposals_inv db' \<and> pt_rows (jd_prod db') = update_where P f (pt_rows (jd_prod db))
    \<and> jd_rows db' = jd_rows db @ [row]
    \<and> jr_event_id row = proposal_event_id (pr_id r) (pr_revision r + 1)
    \<and> jr_entity_revision row = pr_revision predicted \<and> jr_payload row = Some (proposal_to_payload predicted)
    \<and> jd_latest_committed db' \<ge> jr_source_cursor row"
proof -
  let ?rows = "pt_rows (jd_prod db)"
  let ?p = "(jd_prod db)\<lparr>pt_rows := update_where P f ?rows, pt_written := Some predicted\<rparr>"
  have dist: "ids_distinct ?rows" using inv by (simp add: proposals_inv_def)
  have "r \<in> set (filter P ?rows)" using r only by simp
  then obtain x xs where hit: "filter P ?rows = x # xs" by (cases "filter P ?rows") simp_all
  then have "x \<in> set (filter P ?rows)" by simp
  then have "x = r" using only [of x] by simp
  then have upd: "update_returning P f ?rows = (Some predicted, update_where P f ?rows)"
    using hit by (simp add: update_returning_def pred)
  have look: "fetchone (filter (\<lambda>x. pr_id x = a) (update_where P f ?rows))
      = (if a = pr_id r then Some (f r) else fetchone (filter (\<lambda>x. pr_id x = a) ?rows))" for a
    by (rule fetchone_update_key) (use dist r f(1) only in \<open>simp_all add: ids_distinct_def\<close>)
  have ids: "ids_distinct (update_where P f ?rows)"
    using dist f(1) by (simp add: ids_distinct_def map_update_where_key)
  have revs: "row_revision (update_where P f ?rows) j
      = (if j = pr_id r then pr_revision r + 1 else row_revision ?rows j)" for j
    unfolding row_revision_def look by (simp add: f(2))
  have rev: "pr_revision predicted = row_revision ?rows (pr_id predicted) + 1"
    using row_revision_mem [OF dist r] f by (simp add: pred)
  have w: "cas_write (pr_revision predicted) (update_returning P f) (jd_prod db) (pr_revision predicted) = Inr ?p"
    by (simp add: cas_write_def upd)
  have "ids_distinct (pt_rows ?p)" "pt_written ?p = Some predicted"
    "\<And>j. row_revision (pt_rows ?p) j
       = (if j = pr_id predicted then pr_revision predicted else row_revision ?rows j)"
    using ids revs f by (simp_all add: pred)
  from journal_write_ok [where w = "cas_write (pr_revision predicted) (update_returning P f)",
      OF inv rev w this, of t c]
  obtain db' row where out: "journal_write (proposal_item t predicted c
      (cas_write (pr_revision predicted) (update_returning P f))) db = (Inr predicted, db')"
    and facts: "proposals_inv db'" "jd_prod db' = ?p\<lparr>pt_written := None\<rparr>" "jd_rows db' = jd_rows db @ [row]"
      "jr_event_id row = proposal_event_id (pr_id predicted) (pr_revision predicted)"
      "jr_entity_revision row = pr_revision predicted" "jr_payload row = Some (proposal_to_payload predicted)"
      "jd_latest_committed db' \<ge> jr_source_cursor row" by blast
  have "pr_id predicted = pr_id r" "pr_revision predicted = pr_revision r + 1" using f by (simp_all add: pred)
  with out facts show ?thesis by (intro exI [of _ db'] exI [of _ row]) simp
qed

section \<open>Properties of the service\<close>

text \<open>
  Rejecting a pending proposal succeeds, and the row and its event move together: the row
  becomes rejected with the reason and the next revision, exactly one event is journaled, it
  carries that revision and the complete new record, and readers of the feed are woken; every
  other row is untouched. Rejecting it once more returns the same record and writes nothing.
\<close>

lemma reject_proposal_lockstep:
  assumes inv: "proposals_inv db" and cur: "proposal_get (pt_rows (jd_prod db)) i = Some current"
    and pending: "pr_status current = PENDING"
  shows "\<exists>rec db' row. reject_proposal i reason c (Aware now) t db = (Inr rec, db')
    \<and> proposals_inv db' \<and> rec = current\<lparr>pr_status := REJECTED, pr_rejection_reason := reason,
        pr_updated_at := now, pr_revision := pr_revision current + 1\<rparr>
    \<and> proposal_get (pt_rows (jd_prod db')) i = Some rec
    \<and> (\<forall>j. j \<noteq> i \<longrightarrow> proposal_get (pt_rows (jd_prod db')) j = proposal_get (pt_rows (jd_prod db)) j)
    \<and> jd_rows db' = jd_rows db @ [row] \<and> jr_entity_revision row = pr_revision rec
    \<and> jr_payload row = Some (proposal_to_payload rec)
    \<and> jd_latest_committed db' \<ge> jr_source_cursor row
    \<and> reject_proposal i reason' c' now' t' db' = (Inr rec, db')"
proof -
  let ?rows = "pt_rows (jd_prod db)"
  have dist: "ids_distinct ?rows" using inv by (simp add: proposals_inv_def)
  from cur obtain r where r: "r \<in> set ?rows" "pr_id r = i" "current = from_row r" by (rule get_SomeE)
  let ?P = "\<lambda>x. pr_id x = i \<and> pr_status x = PENDING \<and> pr_revision x = pr_revision current"
  let ?f = "\<lambda>x. x\<lparr>pr_status := REJECTED, pr_rejection_reason := reason, pr_updated_at := now,
      pr_revision := pr_revision x + 1\<rparr>"
  let ?rec = "current\<lparr>pr_status := REJECTED, pr_rejection_reason := reason, pr_updated_at := now,
      pr_revision := pr_revision current + 1\<rparr>"
  have only: "x \<in> set ?rows \<Longrightarrow> ?P x \<longleftrightarrow> x = r" for x
    using ids_distinct_eq [OF dist] r pending by auto
  have pred: "?rec = from_row (?f r)" by (simp add: r(3) from_row_def)
  have upd: "reject_in_tx i reason (Aware now) (pr_revision current) = update_returning ?P ?f"
    by (rule ext) (simp add: reject_in_tx_def)
  have fid: "\<And>x. pr_id (?f x) = pr_id x" and frev: "pr_revision (?f r) = pr_revision r + 1" by simp_all
  from cas_ok [OF inv r(1) only fid frev pred, of t "Some c"]
  obtain db' row where run: "journal_write (proposal_item t ?rec (Some c)
      (cas_write (pr_revision ?rec) (update_returning ?P ?f))) db = (Inr ?rec, db')"
    and facts: "proposals_inv db'" "pt_rows (jd_prod db') = update_where ?P ?f ?rows"
      "jd_rows db' = jd_rows db @ [row]" "jr_entity_revision row = pr_revision ?rec"
      "jr_payload row = Some (proposal_to_payload ?rec)" "jd_latest_committed db' \<ge> jr_source_cursor row"
    by blast
  have res: "reject_proposal i reason c (Aware now) t db = (Inr ?rec, db')"
    using run pending by (simp add: reject_proposal_def cur service_as_utc_def upd Let_def)
  have look: "fetchone (filter (\<lambda>x. pr_id x = a) (update_where ?P ?f ?rows))
      = (if a = pr_id r then Some (?f r) else fetchone (filter (\<lambda>x. pr_id x = a) ?rows))" for a
    by (rule fetchone_update_key) (use dist r(1) only in \<open>auto simp: ids_distinct_def\<close>)
  have get: "proposal_get (pt_rows (jd_prod db')) a = (if a = i then Some ?rec else proposal_get ?rows a)" for a
    unfolding facts(2) proposal_get_def look using r(2) pred by simp
  have "reject_proposal i reason' c' now' t' db' = (Inr ?rec, db')"
    by (simp add: reject_proposal_def get)
  with res facts get show ?thesis by (intro exI [of _ ?rec] exI [of _ db'] exI [of _ row]) simp
qed

text \<open>The row the sweep writes.\<close>

definition expired_row :: "instant \<Rightarrow> proposal_record \<Rightarrow> proposal_record" where
  "expired_row now r = r\<lparr>pr_status := EXPIRED, pr_updated_at := now, pr_revision := pr_revision r + 1\<rparr>"

lemma expired_row_simps [simp]:
  "pr_id (expired_row now r) = pr_id r" "pr_status (expired_row now r) = EXPIRED"
  "pr_revision (expired_row now r) = pr_revision r + 1"
  by (simp_all add: expired_row_def)

lemma from_expired: "from_row (expired_row now r) = (from_row r)\<lparr>pr_status := EXPIRED,
    pr_updated_at := now, pr_revision := pr_revision (from_row r) + 1\<rparr>"
  by (simp add: expired_row_def from_row_def)

lemma expire_one:
  assumes inv: "proposals_inv db" and r: "r \<in> set (pt_rows (jd_prod db))"
    and pending: "pr_status r = PENDING" and stale: "is_stale now r"
  shows "\<exists>db'. journal_write (proposal_item t (from_row (expired_row now r)) None
        (cas_write (pr_revision (from_row (expired_row now r)))
          (expire_in_tx (pr_id r) (Aware now) (pr_revision r)))) db
      = (Inr (from_row (expired_row now r)), db')
    \<and> proposals_inv db' \<and> length (jd_rows db') = Suc (length (jd_rows db))
    \<and> pt_rows (jd_prod db') = update_where (\<lambda>x. pr_id x = pr_id r) (expired_row now) (pt_rows (jd_prod db))"
proof -
  let ?rows = "pt_rows (jd_prod db)"
  let ?P = "\<lambda>x. pr_id x = pr_id r \<and> pr_status x = PENDING \<and> pr_revision x = pr_revision r \<and> is_stale now x"
  have dist: "ids_distinct ?rows" using inv by (simp add: proposals_inv_def)
  have only: "x \<in> set ?rows \<Longrightarrow> ?P x \<longleftrightarrow> x = r" for x
    using ids_distinct_eq [OF dist _ r] pending stale by auto
  have upd: "expire_in_tx (pr_id r) (Aware now) (pr_revision r) = update_returning ?P (expired_row now)"
    by (rule ext) (simp add: expire_in_tx_def expired_row_def [abs_def])
  have "update_where ?P (expired_row now) ?rows = update_where (\<lambda>x. pr_id x = pr_id r) (expired_row now) ?rows"
    unfolding update_where_def using only ids_distinct_eq [OF dist _ r] by (intro map_cong refl) auto
  moreover have "\<exists>db' row. journal_write (proposal_item t (from_row (expired_row now r)) None
        (cas_write (pr_revision (from_row (expired_row now r))) (update_returning ?P (expired_row now)))) db
      = (Inr (from_row (expired_row now r)), db')
    \<and> proposals_inv db' \<and> pt_rows (jd_prod db') = update_where ?P (expired_row now) ?rows
    \<and> jd_rows db' = jd_rows db @ [row]"
    using cas_ok [where P = ?P and f = "expired_row now" and t = t and c = None,
        OF inv r only expired_row_simps(1,3) refl] by blast
  ultimately show ?thesis unfolding upd by (metis length_append_singleton)
qed

lemma update_ids_step:
  assumes "\<And>x. pr_id (f x) = pr_id x" and "pr_id r \<notin> I"
  shows "update_where (\<lambda>x. pr_id x \<in> I) f (update_where (\<lambda>x. pr_id x = pr_id r) f rows)
    = update_where (\<lambda>x. pr_id x \<in> insert (pr_id r) I) f rows"
  using assms by (induction rows) auto

lemma expire_each_ok:
  assumes "proposals_inv db" and "distinct (map pr_id rs)"
    and "\<forall>r \<in> set rs. r \<in> set (pt_rows (jd_prod db)) \<and> pr_status r = PENDING \<and> is_stale now r"
  shows "\<exists>db'. expire_each now ts (map from_row rs) db = (Inr (map pr_id rs), db') \<and> proposals_inv db'
    \<and> length (jd_rows db') = length (jd_rows db) + length rs
    \<and> pt_rows (jd_prod db')
        = update_where (\<lambda>x. pr_id x \<in> pr_id ` set rs) (expired_row now) (pt_rows (jd_prod db))"
  using assms
proof (induction rs arbitrary: db)
  case Nil
  then show ?case by simp
next
  case (Cons r rs)
  let ?rows = "pt_rows (jd_prod db)"
  from expire_one [OF Cons.prems(1), of r now "ts (pr_id r)"] Cons.prems(3)
  obtain db1 where one: "journal_write (proposal_item (ts (pr_id r)) (from_row (expired_row now r)) None
        (cas_write (pr_revision (from_row (expired_row now r)))
          (expire_in_tx (pr_id r) (Aware now) (pr_revision r)))) db = (Inr (from_row (expired_row now r)), db1)"
    and inv1: "proposals_inv db1" and len1: "length (jd_rows db1) = Suc (length (jd_rows db))"
    and rows1: "pt_rows (jd_prod db1) = update_where (\<lambda>x. pr_id x = pr_id r) (expired_row now) ?rows"
    by auto
  have ne: "pr_id r \<notin> pr_id ` set rs" using Cons.prems(2) by simp
  have "\<forall>s \<in> set rs. s \<in> set (pt_rows (jd_prod db1)) \<and> pr_status s = PENDING \<and> is_stale now s"
  proof
    fix s assume s: "s \<in> set rs"
    then have "pr_id s \<noteq> pr_id r" using ne by (metis image_eqI)
    then show "s \<in> set (pt_rows (jd_prod db1)) \<and> pr_status s = PENDING \<and> is_stale now s"
      using Cons.prems(3) s unfolding rows1 by (simp add: set_update_where)
  qed
  with Cons.IH [OF inv1] Cons.prems(2)
  obtain db' where rest: "expire_each now ts (map from_row rs) db1 = (Inr (map pr_id rs), db')"
    and inv': "proposals_inv db'" and len': "length (jd_rows db') = length (jd_rows db1) + length rs"
    and rows': "pt_rows (jd_prod db')
        = update_where (\<lambda>x. pr_id x \<in> pr_id ` set rs) (expired_row now) (pt_rows (jd_prod db1))"
    by auto
  have "expire_each now ts (map from_row (r # rs)) db = (Inr (map pr_id (r # rs)), db')"
    using one rest by (simp add: from_expired)
  moreover have "pt_rows (jd_prod db')
      = update_where (\<lambda>x. pr_id x \<in> pr_id ` set (r # rs)) (expired_row now) ?rows"
    unfolding rows' rows1 using update_ids_step [of "expired_row now" r, OF expired_row_simps(1) ne] by simp
  ultimately show ?case using inv' len1 len' by simp
qed

text \<open>
  The expiry sweep is complete and exact: in a consistent database it always returns, it
  expires every pending proposal whose time has passed and no other, it reports exactly those
  ids, each expiry is journaled as one event in step with its row, and right after the sweep no
  stale pending proposal is left.
\<close>

lemma expire_sweep_exact:
  assumes inv: "proposals_inv db"
  shows "\<exists>ids db'. expire_stale (Aware now) ts db = (Inr ids, db') \<and> proposals_inv db' \<and> distinct ids
    \<and> set ids = pr_id ` {r \<in> set (pt_rows (jd_prod db)). pr_status r = PENDING \<and> is_stale now r}
    \<and> pt_rows (jd_prod db') = map (\<lambda>r. if pr_status r = PENDING \<and> is_stale now r
          then r\<lparr>pr_status := EXPIRED, pr_updated_at := now, pr_revision := pr_revision r + 1\<rparr> else r)
        (pt_rows (jd_prod db))
    \<and> length (jd_rows db') = length (jd_rows db) + length ids
    \<and> stale_pending (pt_rows (jd_prod db')) (Aware now) = []"
proof -
  let ?rows = "pt_rows (jd_prod db)"
  let ?S = "\<lambda>r. pr_status r = PENDING \<and> is_stale now r"
  let ?rs = "sort_key pr_id (filter ?S ?rows)"
  have dist: "ids_distinct ?rows" using inv by (simp add: proposals_inv_def)
  have ids: "distinct (map pr_id ?rs)"
    using dist by (simp add: ids_distinct_def distinct_map inj_on_def)
  from expire_each_ok [OF inv ids, of now ts]
  obtain db' where run: "expire_each now ts (map from_row ?rs) db = (Inr (map pr_id ?rs), db')"
    and inv': "proposals_inv db'" and len: "length (jd_rows db') = length (jd_rows db) + length ?rs"
    and rows': "pt_rows (jd_prod db') = update_where (\<lambda>x. pr_id x \<in> pr_id ` set ?rs) (expired_row now) ?rows"
    by auto
  have res: "expire_stale (Aware now) ts db = (Inr (map pr_id ?rs), db')"
    using run by (simp add: expire_stale_def service_as_utc_def stale_pending_def)
  have "pr_id x \<in> pr_id ` set ?rs \<longleftrightarrow> ?S x" if "x \<in> set ?rows" for x
    unfolding set_sort set_filter image_iff mem_Collect_eq bex_simps
    using that dist by (metis (no_types, lifting) mem_Collect_eq ids_distinct_eq)
  then have map': "pt_rows (jd_prod db') = map (\<lambda>r. if ?S r
          then r\<lparr>pr_status := EXPIRED, pr_updated_at := now, pr_revision := pr_revision r + 1\<rparr> else r) ?rows"
    unfolding rows' update_where_def by (intro map_cong refl) (simp add: expired_row_def)
  have "stale_pending (pt_rows (jd_prod db')) (Aware now) = []"
  proof -
    have "filter ?S (pt_rows (jd_prod db')) = []" unfolding map' by (auto simp: filter_empty_conv)
    then show ?thesis by (simp add: stale_pending_def)
  qed
  with res inv' ids len map' show ?thesis
    by (intro exI [of _ "map pr_id ?rs"] exI [of _ db']) simp
qed

section \<open>Creation\<close>

lemma insort_key_map: "(\<And>y. k (g y) = k y) \<Longrightarrow> insort_key k (g x) (map g xs) = map g (insort_key k x xs)"
  by (induction xs) auto

lemma sort_key_map: "(\<And>y. k (g y) = k y) \<Longrightarrow> sort_key k (map g xs) = map g (sort_key k xs)"
  by (induction xs) (auto simp: insort_key_map)

lemma sort_key_idem: "sort_key k (sort_key k xs) = sort_key k xs"
  by (rule sort_key_id_if_sorted) simp

text \<open>Sorting the keys twice is sorting them once, at every depth.\<close>

lemma canon_idem: "canon (canon j) = canon j"
proof (induction j rule: canon.induct)
  case (2 kvs)
  let ?g = "\<lambda>kv. (fst kv, canon (snd kv)) :: string \<times> json"
  have "map ?g (map ?g kvs) = map ?g kvs" using 2 by simp
  then have "sort_key fst (map ?g (sort_key fst (map ?g kvs))) = sort_key fst (map ?g kvs)"
    by (subst sort_key_map) (simp_all only: fst_conv sort_key_idem sort_key_map [of fst ?g, symmetric])
  then show ?case by simp
qed simp_all

lemma canon_object_canon: "canon (JObj (canon_object kvs)) = canon (JObj kvs)"
  using canon_idem [of "JObj kvs"] by (simp add: canon_object_def)

text \<open>The predicted event and the stored row agree up to the order of dict keys.\<close>

lemma predicted_payload:
  assumes "pd_source d \<noteq> []" and "pd_sec_type d \<noteq> []"
  shows "canonical_payload (Some (proposal_to_payload (record_from_draft d n)))
    = canonical_payload (Some (proposal_to_payload (from_row (pending_row d n))))"
proof -
  let ?g = "\<lambda>kv. (fst kv, canon (snd kv)) :: string \<times> json"
  have "map ?g (proposal_to_payload (record_from_draft d n))
      = map ?g (proposal_to_payload (from_row (pending_row d n)))"
    using assms canon_object_canon [of "pd_execution d"] canon_object_canon [of "pd_metadata d"]
    by (simp add: proposal_to_payload_def record_from_draft_def from_row_def pending_row_def del: canon.simps(2))
  then show ?thesis by (simp add: canonical_payload_def)
qed

lemma reserve_loop_ok:
  "reserve_loop n db = (res, db') \<Longrightarrow>
   (\<exists>k. db' = db\<lparr>jd_prod := (jd_prod db)\<lparr>pt_next_id := k\<rparr>\<rparr>) \<and> (\<forall>i. res = Some i \<longrightarrow> \<not> id_taken db i)"
proof (induction n arbitrary: db)
  case 0
  then show ?case by (auto intro: exI [of _ "pt_next_id (jd_prod db)"])
next
  case (Suc n)
  let ?db1 = "db\<lparr>jd_prod := (jd_prod db)\<lparr>pt_next_id := pt_next_id (jd_prod db) + 1\<rparr>\<rparr>"
  have taken: "id_taken ?db1 i = id_taken db i" for i by (simp add: id_taken_def)
  show ?case
  proof (cases "id_taken db (pt_next_id (jd_prod db))")
    case True
    then have "reserve_loop n ?db1 = (res, db')" using Suc.prems by (simp add: proposal_nextval_def taken)
    from Suc.IH [OF this] show ?thesis by (auto simp: taken)
  next
    case False
    then have "res = Some (pt_next_id (jd_prod db))" "db' = ?db1"
      using Suc.prems by (auto simp: proposal_nextval_def taken)
    then show ?thesis using False by auto
  qed
qed

lemma proposals_inv_next_id:
  "proposals_inv db \<Longrightarrow> proposals_inv (db\<lparr>jd_prod := (jd_prod db)\<lparr>pt_next_id := k\<rparr>\<rparr>)"
  by (simp add: proposals_inv_def)

text \<open>A journaled write that returns ran its callback.\<close>

lemma journal_write_InrD:
  assumes inv: "proposals_inv db" and new: "select_journal_row db (item_id item) = None"
    and run: "journal_write item db = (Inr out, db')"
  shows "\<exists>p. bi_write item (jd_prod db) (read_current_revision db (dm_entity_type (bi_mutation item))
             (dm_entity_id (bi_mutation item)) + 1) = Inr p"
proof -
  have same: "db\<lparr>jd_prod := (jd_prod db)\<lparr>pt_written := None\<rparr>\<rparr> = db"
    using inv by (simp add: proposals_inv_def)
  obtain res mid where m: "mutate item db = (res, mid)" by fastforce
  from proposals_inv_journal [OF inv] m show ?thesis
  proof (cases rule: mutate_cases)
    case (failed e)
    then show ?thesis using run m by (simp add: journal_write_def same)
  next
    case (replay row)
    then show ?thesis using new by simp
  qed blast
qed

text \<open>A successful creation, in full.\<close>

lemma create_ok:
  assumes inv: "proposals_inv db" and source: "source \<noteq> []"
    and run: "create_proposal svc request source c (Aware now) t db = (Inr rec, db')"
  shows "proposals_inv db' \<and> \<not> id_taken db (pr_id rec)
    \<and> (\<exists>r. pt_rows (jd_prod db') = pt_rows (jd_prod db) @ [r] \<and> rec = from_row r)
    \<and> pr_status rec = PENDING \<and> pr_revision rec = 1 \<and> pr_account_id rec = Some (ps_account_id svc)
    \<and> pr_conid rec = Some (rq_conid request) \<and> pr_action rec = rq_action request
    \<and> pr_expires_at rec = Some (now + ps_ttl svc)
    \<and> (\<exists>row. jd_rows db' = jd_rows db @ [row] \<and> jr_entity_revision row = 1
         \<and> canonical_payload (jr_payload row) = canonical_payload (Some (proposal_to_payload rec)))
    \<and> (starts_with ''strategy:'' source \<longrightarrow>
         \<not> pending_duplicate_in_tx (pt_rows (jd_prod db)) source (rq_conid request) (rq_action request))"
proof -
  obtain sd quote quantity amount where v: "validate_request svc request source = Inr (sd, quote, quantity, amount)"
    using run by (auto simp: create_proposal_def split: sum.splits)
  obtain i db1 where res: "reserve_id db = (Some i, db1)"
    using run v by (auto simp: create_proposal_def service_as_utc_def split: prod.splits option.splits)
  from reserve_loop_ok [OF res [unfolded reserve_id_def]]
  obtain k where db1: "db1 = db\<lparr>jd_prod := (jd_prod db)\<lparr>pt_next_id := k\<rparr>\<rparr>" and free: "\<not> id_taken db i" by auto
  define d where "d = make_draft svc request source now i sd quote quantity amount"
  let ?item = "proposal_item t (record_from_draft d 1) (Some c) (create_write source request d)"
  let ?rows = "pt_rows (jd_prod db)" and ?r = "pending_row d 1"
  have d: "pd_id d = i" "pd_source d = source" "pd_sec_type d \<noteq> []" "pd_account_id d = ps_account_id svc"
    "pd_conid d = rq_conid request" "pd_action d = rq_action request" "pd_expires_at d = Aware (now + ps_ttl svc)"
    by (simp_all add: d_def make_draft_def)
  have rec0: "pr_id (record_from_draft d 1) = i" "pr_revision (record_from_draft d 1) = 1"
    by (simp_all add: record_from_draft_def d)
  have inv1: "proposals_inv db1" unfolding db1 using inv by (rule proposals_inv_next_id)
  have wrote: "journal_write ?item db1 = (Inr rec, db')"
    using run by (auto simp: create_proposal_def v service_as_utc_def res d_def [symmetric] Let_def
        split: prod.splits sum.splits journal_error.splits)
  have none: "\<forall>r \<in> set ?rows. pr_id r \<noteq> i" using free by (auto simp: id_taken_def)
  then have rev0: "row_revision ?rows i = 0" by (simp add: row_revision_def fetchone_filter_None)
  have cur0: "read_current_revision db1 ''proposal'' (string_of_int i) = 0"
    using inv1 rev0 by (simp add: proposals_inv_def db1)
  have new: "select_journal_row db1 (item_id ?item) = None"
    using free by (auto simp: select_journal_row_None db1 rec0 id_taken_def)
  from journal_write_InrD [OF inv1 new wrote]
  obtain p where w: "create_write source request d (jd_prod db1) 1 = Inr p" by (auto simp: rec0 cur0)
  then have p: "p = (jd_prod db1)\<lparr>pt_rows := ?rows @ [?r], pt_written := Some (from_row ?r)\<rparr>"
    and dup: "starts_with ''strategy:'' source \<Longrightarrow>
       \<not> pending_duplicate_in_tx ?rows source (rq_conid request) (rq_action request)"
    by (auto simp: create_write_def insert_pending_in_tx_def db1 split: if_splits)
  have ids: "ids_distinct (?rows @ [?r])"
    using inv none by (auto simp: proposals_inv_def ids_distinct_def d)
  have "row_revision (?rows @ [?r]) j = (if j = i then 1 else row_revision ?rows j)" for j
    using none d(1) by (simp add: row_revision_def filter_empty_conv pending_row_def)
  then have "ids_distinct (pt_rows p)" "pt_written p = Some (from_row ?r)"
    "\<And>j. row_revision (pt_rows p) j = (if j = pr_id (record_from_draft d 1)
       then pr_revision (record_from_draft d 1) else row_revision (pt_rows (jd_prod db1)) j)"
    using ids by (simp_all add: p rec0 db1)
  from journal_write_ok [where w = "create_write source request d", OF inv1 _ _ this, of t "Some c"] w wrote
  obtain row where out: "rec = from_row ?r" "proposals_inv db'" "jd_prod db' = p\<lparr>pt_written := None\<rparr>"
    "jd_rows db' = jd_rows db1 @ [row]" "jr_entity_revision row = 1"
    "jr_payload row = Some (proposal_to_payload (record_from_draft d 1))"
    by (auto simp: rec0 db1 rev0)
  have "canonical_payload (jr_payload row) = canonical_payload (Some (proposal_to_payload rec))"
    using predicted_payload [of d 1] source d out by simp
  moreover have "pr_id rec = i" "pr_status rec = PENDING" "pr_revision rec = 1"
    "pr_account_id rec = Some (ps_account_id svc)" "pr_conid rec = Some (rq_conid request)"
    "pr_action rec = rq_action request" "pr_expires_at rec = Some (now + ps_ttl svc)"
    using d out(1) by (simp_all add: pending_row_def from_row_def)
  ultimately show ?thesis using out free dup by (simp add: db1 p)
qed

text \<open>
  A proposal that is created is stored exactly as announced: under an id no row and no
  event used before, pending at revision one, for the service's account, expiring one time-to-live
  after now; the only other change is one journal event whose payload is that record; a strategy
  never gets a second pending proposal for the same instrument and action; the stored row and the
  journal stay in step.
\<close>

lemma create_proposal_stores:
  assumes inv: "proposals_inv db" and source: "source \<noteq> []"
    and run: "create_proposal svc request source c (Aware now) t db = (Inr rec, db')"
  shows "proposals_inv db' \<and> \<not> id_taken db (pr_id rec)
    \<and> (\<exists>r. pt_rows (jd_prod db') = pt_rows (jd_prod db) @ [r] \<and> rec = from_row r)
    \<and> pr_status rec = PENDING \<and> pr_revision rec = 1 \<and> pr_account_id rec = Some (ps_account_id svc)
    \<and> pr_conid rec = Some (rq_conid request) \<and> pr_action rec = rq_action request
    \<and> pr_expires_at rec = Some (now + ps_ttl svc)
    \<and> (\<exists>row. jd_rows db' = jd_rows db @ [row] \<and> jr_entity_revision row = 1
         \<and> canonical_payload (jr_payload row) = canonical_payload (Some (proposal_to_payload rec)))
    \<and> (starts_with ''strategy:'' source \<longrightarrow>
         \<not> pending_duplicate_in_tx (pt_rows (jd_prod db)) source (rq_conid request) (rq_action request))"
  using assms by (rule create_ok)

text \<open>
  The pause gate stops creation: while the account is paused, or its control row cannot be
  read, every request that is not a verified reducing close (a SELL of at most the quantity the
  broker reports as held) is refused, and the database is left exactly as it was: no id is
  taken, no row and no event is written.
\<close>

lemma create_proposal_paused:
  assumes controls: "ps_controls svc = Some (require_unpaused control_db)"
    and paused: "control_get_in_tx control_db (ps_account_id svc) = None
      \<or> (\<exists>s. control_get_in_tx control_db (ps_account_id svc) = Some s \<and> tc_new_exposure_paused s)"
    and open_: "\<not> is_reducing_close svc request"
  shows "\<exists>code. create_proposal svc request source c now t db
      = (Inl (Raised (ProposalCreationRefused code)), db)
    \<and> code \<in> {INVALID_ACTION, INVALID_SIZE, UNKNOWN_CONID, TRADING_FILTER_REJECTED, NO_LONG_TO_CLOSE,
              TRADING_PAUSED}"
proof -
  have pause: "check_pause svc request = Inl (ProposalCreationRefused TRADING_PAUSED)"
    using paused open_ by (auto simp: check_pause_def controls require_unpaused_def)
  have "\<exists>code. validate_request svc request source = Inl (ProposalCreationRefused code)
      \<and> code \<in> {INVALID_ACTION, INVALID_SIZE, UNKNOWN_CONID, TRADING_FILTER_REJECTED, NO_LONG_TO_CLOSE,
              TRADING_PAUSED}"
    by (auto simp: validate_request_def pause check_def split: option.split)
  then show ?thesis by (auto simp: create_proposal_def)
qed

section \<open>A concrete service\<close>

definition demo_request :: proposal_create_request where
  "demo_request =
     \<lparr>rq_conid = 4391, rq_action = ''BUY'', rq_quantity = Some (Fin 10), rq_amount = None,
      rq_execution = [(''type'', JStr ''LMT''), (''limit'', JNum (Fin 150))], rq_reasoning = [],
      rq_confidence = Fin (1/2), rq_thesis = [], rq_group = ''core'', rq_max_price_drift_bps = None,
      rq_max_hold_bars = Some 12, rq_close_by_time = Some ''15:45:00'', rq_close_by_tz = None\<rparr>"

definition demo_quote :: executable_quote where
  "demo_quote =
     \<lparr>xq_conid = 4391, xq_side = ''ask'', xq_price = Fin 150, xq_market_timestamp = Aware 0,
      xq_feed_type = ''live'', xq_session_state = ''RTH'', xq_bid = None, xq_ask = Some (Fin 150),
      xq_bid_size = None, xq_ask_size = None\<rparr>"

definition demo_service :: proposal_service where
  "demo_service =
     \<lparr>ps_check_instrument = (\<lambda>_ _ _. True), ps_quotes = (\<lambda>_ _. Some demo_quote),
      ps_universe = (\<lambda>_. Some \<lparr>sd_symbol = ''AMD'', sd_primaryExchange = ''NASDAQ'', sd_secType = ''STK''\<rparr>),
      ps_account_id = ''DU1'', ps_account_mode = ''paper'', ps_ttl = minutes 5, ps_controls = None,
      ps_sizer = None, ps_positions = None, ps_rnd = Fin\<rparr>"

definition demo_tables :: proposal_db where
  "demo_tables = empty_journal \<lparr>pt_rows = [], pt_next_id = 1, pt_written = None\<rparr>"

definition demo_created :: "(proposal_error journal_error + proposal_record) \<times> proposal_db" where
  "demo_created = create_proposal demo_service demo_request ''strategy:orb'' ''c1'' (Aware 0) 5 demo_tables"

lemma demo_created_ok: "is_ok (fst demo_created)"
  by code_simp

lemma demo_created_run:
  obtains rec where "create_proposal demo_service demo_request ''strategy:orb'' ''c1'' (Aware 0) 5 demo_tables
    = (Inr rec, snd demo_created)"
proof -
  obtain rec where "fst demo_created = Inr rec" using demo_created_ok by (cases "fst demo_created") simp_all
  then have "demo_created = (Inr rec, snd demo_created)" by (simp add: prod_eq_iff)
  then show thesis using that by (simp add: demo_created_def [symmetric])
qed

lemma demo_tables_inv: "proposals_inv demo_tables"
  by (simp add: demo_tables_def)

definition demo_proposals :: proposal_db where
  "demo_proposals = snd demo_created"

lemma demo_proposals_inv: "proposals_inv demo_proposals"
proof -
  obtain rec where run: "create_proposal demo_service demo_request ''strategy:orb'' ''c1'' (Aware 0) 5 demo_tables
    = (Inr rec, snd demo_created)" by (rule demo_created_run)
  have "''strategy:orb'' \<noteq> ([] :: string)" by simp
  from create_ok [OF demo_tables_inv this run] show ?thesis by (simp add: demo_proposals_def)
qed

lemma create_proposal_stores_example:
  "proposals_inv (snd demo_created) \<and> is_ok (fst demo_created)
   \<and> (\<exists>rec. pr_status rec = PENDING \<and> pr_revision rec = 1 \<and> pr_expires_at rec = Some (minutes 5)
        \<and> proposal_get (pt_rows (jd_prod (snd demo_created))) (pr_id rec) = Some rec)"
proof -
  obtain rec where run: "create_proposal demo_service demo_request ''strategy:orb'' ''c1'' (Aware 0) 5 demo_tables
    = (Inr rec, snd demo_created)" by (rule demo_created_run)
  have src: "''strategy:orb'' \<noteq> ([] :: string)" by simp
  note facts = create_proposal_stores [OF demo_tables_inv src run]
  then obtain r where r: "pt_rows (jd_prod (snd demo_created)) = pt_rows (jd_prod demo_tables) @ [r]"
    "rec = from_row r" by blast
  have "ids_distinct (pt_rows (jd_prod (snd demo_created)))" using facts by (simp add: proposals_inv_def)
  then have "proposal_get (pt_rows (jd_prod (snd demo_created))) (pr_id r) = Some (from_row r)"
    by (rule get_mem) (simp add: r(1))
  moreover have "ps_ttl demo_service = minutes 5" by (simp add: demo_service_def)
  ultimately show ?thesis using facts r(2) demo_created_ok by (intro conjI exI [of _ rec]) simp_all
qed

definition demo_current :: proposal_record where
  "demo_current = from_row (hd (pt_rows (jd_prod demo_proposals)))"

lemma reject_proposal_lockstep_example:
  "\<exists>rec db'. reject_proposal 1 ''stale idea'' ''c2'' (Aware 60) 61 demo_proposals = (Inr rec, db')
     \<and> pr_status rec = REJECTED \<and> pr_revision rec = 2 \<and> proposals_inv db'"
proof -
  have cur: "proposal_get (pt_rows (jd_prod demo_proposals)) 1 = Some demo_current"
    and st: "pr_status demo_current = PENDING" and rev: "pr_revision demo_current = 1"
    by code_simp+
  obtain rec db' where "reject_proposal 1 ''stale idea'' ''c2'' (Aware 60) 61 demo_proposals = (Inr rec, db')"
    and "proposals_inv db'" and rec: "rec = demo_current\<lparr>pr_status := REJECTED,
        pr_rejection_reason := ''stale idea'', pr_updated_at := 60, pr_revision := pr_revision demo_current + 1\<rparr>"
    using reject_proposal_lockstep [OF demo_proposals_inv cur st, of "''stale idea''" "''c2''" 60 61 "[]" "[]" "Aware 0" 0]
    by blast
  moreover have "pr_status rec = REJECTED" "pr_revision rec = 2" using rev by (simp_all add: rec)
  ultimately show ?thesis by blast
qed

lemma expire_sweep_exact_example:
  "\<exists>ids db'. expire_stale (Aware (minutes 6)) (\<lambda>_. minutes 6) demo_proposals = (Inr ids, db')
     \<and> set ids = {1} \<and> proposals_inv db' \<and> stale_pending (pt_rows (jd_prod db')) (Aware (minutes 6)) = []"
proof -
  let ?rows = "pt_rows (jd_prod demo_proposals)"
  have "map pr_id (filter (\<lambda>r. pr_status r = PENDING \<and> is_stale (minutes 6) r) ?rows) = [1]" by code_simp
  then have "set (map pr_id (filter (\<lambda>r. pr_status r = PENDING \<and> is_stale (minutes 6) r) ?rows)) = {1}"
    by (simp only: list.set)
  then have stale: "pr_id ` {r \<in> set ?rows. pr_status r = PENDING \<and> is_stale (minutes 6) r} = {1}"
    by (simp only: set_map set_filter)
  obtain ids db' where "expire_stale (Aware (minutes 6)) (\<lambda>_. minutes 6) demo_proposals = (Inr ids, db')"
    and "proposals_inv db'" and "stale_pending (pt_rows (jd_prod db')) (Aware (minutes 6)) = []"
    and "set ids = pr_id ` {r \<in> set ?rows. pr_status r = PENDING \<and> is_stale (minutes 6) r}"
    using expire_sweep_exact [OF demo_proposals_inv, of "minutes 6" "\<lambda>_. minutes 6"] by blast
  then show ?thesis unfolding stale by blast
qed

definition demo_paused_service :: proposal_service where
  "demo_paused_service = demo_service\<lparr>ps_account_id := ''U1'', ps_controls := Some (require_unpaused demo_control)\<rparr>"

lemma create_proposal_paused_example:
  "\<exists>code. create_proposal demo_paused_service demo_request ''manual'' ''c1'' (Aware 0) 5 demo_tables
     = (Inl (Raised (ProposalCreationRefused code)), demo_tables)"
proof -
  have c: "ps_controls demo_paused_service = Some (require_unpaused demo_control)"
    and a: "ps_account_id demo_paused_service = ''U1''" by (simp_all add: demo_paused_service_def)
  have p: "control_get_in_tx demo_control (ps_account_id demo_paused_service) = None
      \<or> (\<exists>s. control_get_in_tx demo_control (ps_account_id demo_paused_service) = Some s
             \<and> tc_new_exposure_paused s)"
    by (simp add: a demo_control_get)
  have o: "\<not> is_reducing_close demo_paused_service demo_request"
    by (simp add: is_reducing_close_def demo_request_def)
  from create_proposal_paused [OF c p o, of "''manual''" "''c1''" "Aware 0" 5 demo_tables]
  show ?thesis by blast
qed

end
