(* ===== verification/Command_Ledger.thy ===== *)
theory Command_Ledger
  imports Domain_Journal
begin

text \<open>
  The command ledger and its audit table, the first half of
  \<^verbatim>\<open>src/trader/trading/command_coordinator.py\<close>: the request envelope and its canonical hash, the
  ledger rows with their seven saga states, the replay lookup, the compare-and-set transition,
  the recovery reads, the retention purge and the mandatory audit record; and the receipt of
  \<^verbatim>\<open>src/trader/domain/commands.py\<close>.

  SHA-256 is an argument \<open>sha\<close> on the canonical JSON document; \<open>allow_nan=False\<close> makes the
  hash of a body with a non-finite float a \<open>ValueError\<close> (None).
\<close>

section \<open>Requests\<close>

record command_request =
  cq_command_id :: string
  cq_action :: string
  cq_account_id :: "string option"
  cq_target_type :: string
  cq_target_id :: string
  cq_expected_version :: "int option"
  cq_body :: jobject
  cq_source :: string
  cq_preflight_nonce :: "string option"
  cq_parent_command_id :: "string option"
  cq_session_fingerprint :: "string option"
  cq_principal :: "string option"
  cq_controller_epoch :: "int option"

text \<open>\<open>CommandRequest.__post_init__\<close>: a command id holds no colon.\<close>

definition command_request_ok :: "command_request \<Rightarrow> bool" where
  "command_request_ok q \<longleftrightarrow> CHR '':'' \<notin> set (cq_command_id q)"

definition correlation_id :: "command_request \<Rightarrow> string" where
  "correlation_id q =
     (case cq_parent_command_id q of
        None \<Rightarrow> cq_command_id q
      | Some p \<Rightarrow> if p = [] then cq_command_id q else p)"

fun json_finite :: "json \<Rightarrow> bool" where
  "json_finite (JNum x) \<longleftrightarrow> flt_finite x"
| "json_finite (JList vs) \<longleftrightarrow> list_all json_finite vs"
| "json_finite (JObj kvs) \<longleftrightarrow> list_all (\<lambda>kv. json_finite (snd kv)) kvs"
| "json_finite JNull \<longleftrightarrow> True"
| "json_finite (JBool b) \<longleftrightarrow> True"
| "json_finite (JInt i) \<longleftrightarrow> True"
| "json_finite (JStr s) \<longleftrightarrow> True"
| "json_finite (JTime t) \<longleftrightarrow> True"

definition canonical_json :: "json \<Rightarrow> json option" where
  "canonical_json v = (if json_finite v then Some (canon v) else None)"

text \<open>What makes a request the same command; source, nonce, session and caller are left out.\<close>

definition request_identity :: "command_request \<Rightarrow> json" where
  "request_identity q =
     JObj [(''action'', JStr (cq_action q)),
           (''account_id'', jopt JStr (cq_account_id q)),
           (''target_type'', JStr (cq_target_type q)),
           (''target_id'', JStr (cq_target_id q)),
           (''expected_version'', jopt JInt (cq_expected_version q)),
           (''body'', JObj (cq_body q))]"

definition canonical_request_hash :: "(json \<Rightarrow> string) \<Rightarrow> command_request \<Rightarrow> string option" where
  "canonical_request_hash sha q = map_option sha (canonical_json (request_identity q))"

section \<open>Rows and receipts\<close>

datatype command_state = Received | Validated | Submitting | Submitted | Rejected | OutcomeUnknown | Resolved

definition command_state_str :: "command_state \<Rightarrow> string" where
  "command_state_str s = (case s of Received \<Rightarrow> ''RECEIVED'' | Validated \<Rightarrow> ''VALIDATED''
     | Submitting \<Rightarrow> ''SUBMITTING'' | Submitted \<Rightarrow> ''SUBMITTED'' | Rejected \<Rightarrow> ''REJECTED''
     | OutcomeUnknown \<Rightarrow> ''OUTCOME_UNKNOWN'' | Resolved \<Rightarrow> ''RESOLVED'')"

definition terminal_state :: "command_state \<Rightarrow> bool" where
  "terminal_state s \<longleftrightarrow> s = Resolved \<or> s = Rejected"

definition command_retention :: duration where
  "command_retention = days 30"

record ledger_row =
  lr_command_id :: string
  lr_request_hash :: string
  lr_account_id :: "string option"
  lr_action :: string
  lr_target_type :: string
  lr_target_id :: string
  lr_expected_version :: "int option"
  lr_state :: command_state
  lr_outcome :: "jobject option"
  lr_error_code :: "string option"
  lr_source :: string
  lr_created_at :: instant
  lr_updated_at :: instant

record audit_row =
  au_audit_id :: int
  au_command_id :: string
  au_correlation_id :: string
  au_action :: string
  au_target_type :: string
  au_target_id :: string
  au_expected_version :: "int option"
  au_redacted_inputs :: jobject
  au_validation_result :: "string option"
  au_acknowledgement :: "string option"
  au_outcome :: "string option"
  au_created_at :: instant

record command_receipt =
  rc_command_id :: string
  rc_correlation_id :: string
  rc_state :: command_state
  rc_outcome :: "jobject option"
  rc_error_code :: "string option"
  rc_retryable :: bool

definition row_to_receipt :: "ledger_row \<Rightarrow> command_receipt" where
  "row_to_receipt row =
     \<lparr>rc_command_id = lr_command_id row, rc_correlation_id = lr_command_id row, rc_state = lr_state row,
      rc_outcome = lr_outcome row, rc_error_code = lr_error_code row,
      rc_retryable = (\<not> terminal_state (lr_state row) \<and> lr_state row \<noteq> OutcomeUnknown)\<rparr>"

definition conflict_receipt :: "string \<Rightarrow> command_receipt" where
  "conflict_receipt command_id =
     \<lparr>rc_command_id = command_id, rc_correlation_id = command_id, rc_state = Rejected, rc_outcome = None,
      rc_error_code = Some ''COMMAND_CONFLICT'', rc_retryable = False\<rparr>"

datatype ledger_claim = ClaimNew | ClaimReplay command_receipt | ClaimConflict command_receipt

section \<open>The ledger\<close>

definition ledger_select :: "ledger_row list \<Rightarrow> string \<Rightarrow> ledger_row option" where
  "ledger_select rows command_id = fetchone (filter (\<lambda>r. lr_command_id r = command_id) rows)"

text \<open>None: the hash of the request raised.\<close>

definition claim_or_replay_in_tx ::
    "(json \<Rightarrow> string) \<Rightarrow> ledger_row list \<Rightarrow> command_request \<Rightarrow> ledger_claim option" where
  "claim_or_replay_in_tx sha rows q =
     (case ledger_select rows (cq_command_id q) of
        None \<Rightarrow> Some ClaimNew
      | Some row \<Rightarrow>
         (case canonical_request_hash sha q of
            None \<Rightarrow> None
          | Some h \<Rightarrow>
              if lr_request_hash row = h then Some (ClaimReplay (row_to_receipt row))
              else Some (ClaimConflict (conflict_receipt (cq_command_id q)))))"

definition received_row :: "command_request \<Rightarrow> string \<Rightarrow> instant \<Rightarrow> ledger_row" where
  "received_row q request_hash now =
     \<lparr>lr_command_id = cq_command_id q, lr_request_hash = request_hash, lr_account_id = cq_account_id q,
      lr_action = cq_action q, lr_target_type = cq_target_type q, lr_target_id = cq_target_id q,
      lr_expected_version = cq_expected_version q, lr_state = Received, lr_outcome = None,
      lr_error_code = None, lr_source = cq_source q, lr_created_at = now, lr_updated_at = now\<rparr>"

text \<open>None: the command id is already a primary key.\<close>

definition insert_received_in_tx ::
    "command_request \<Rightarrow> string \<Rightarrow> instant \<Rightarrow> ledger_row list \<Rightarrow> (ledger_row \<times> ledger_row list) option" where
  "insert_received_in_tx q request_hash now rows =
     (if \<exists>r \<in> set rows. lr_command_id r = cq_command_id q then None
      else Some (received_row q request_hash now, rows @ [received_row q request_hash now]))"

text \<open>None: \<open>IllegalCommandTransition\<close>.\<close>

definition transition_in_tx ::
    "string \<Rightarrow> command_state \<Rightarrow> command_state \<Rightarrow> jobject option \<Rightarrow> string option \<Rightarrow> instant
     \<Rightarrow> ledger_row list \<Rightarrow> (ledger_row \<times> ledger_row list) option" where
  "transition_in_tx command_id from_state to_state outcome error_code now rows =
     (let match = (\<lambda>r. lr_command_id r = command_id \<and> lr_state r = from_state);
          set_row = (\<lambda>r. r\<lparr>lr_state := to_state, lr_outcome := outcome, lr_error_code := error_code,
                           lr_updated_at := now\<rparr>)
      in case fetchone (map set_row (filter match rows)) of
           None \<Rightarrow> None
         | Some row \<Rightarrow> Some (row, update_where match set_row rows))"

definition unresolved_for_target :: "ledger_row list \<Rightarrow> string \<Rightarrow> string \<Rightarrow> ledger_row list" where
  "unresolved_for_target rows target_type target_id =
     sort_key lr_created_at (filter (\<lambda>r. lr_target_type r = target_type \<and> lr_target_id r = target_id
       \<and> \<not> terminal_state (lr_state r)) rows)"

definition unresolved_for_account :: "ledger_row list \<Rightarrow> string \<Rightarrow> string option \<Rightarrow> ledger_row list" where
  "unresolved_for_account rows account_id exclude_command_id =
     sort_key lr_created_at (filter (\<lambda>r. lr_account_id r = Some account_id \<and> \<not> terminal_state (lr_state r)
       \<and> (case exclude_command_id of None \<Rightarrow> True | Some c \<Rightarrow> lr_command_id r \<noteq> c)) rows)"

definition reconcilable :: "ledger_row list \<Rightarrow> ledger_row list" where
  "reconcilable rows =
     sort_key lr_created_at (filter (\<lambda>r. lr_state r = Submitting \<or> lr_state r = OutcomeUnknown
       \<or> lr_state r = Submitted) rows)"

definition received :: "ledger_row list \<Rightarrow> ledger_row list" where
  "received rows = sort_key lr_created_at (filter (\<lambda>r. lr_state r = Received) rows)"

definition pre_dispatch_orphans :: "ledger_row list \<Rightarrow> ledger_row list" where
  "pre_dispatch_orphans rows = sort_key lr_created_at (filter (\<lambda>r. lr_state r = Validated) rows)"

definition audited_correlation_id :: "audit_row list \<Rightarrow> string \<Rightarrow> string option" where
  "audited_correlation_id rows command_id =
     map_option au_correlation_id
       (fetchone (sort_key au_audit_id (filter (\<lambda>r. au_command_id r = command_id) rows)))"

definition audited_body :: "audit_row list \<Rightarrow> string \<Rightarrow> jobject option" where
  "audited_body rows command_id =
     map_option au_redacted_inputs
       (fetchone (sort_key au_audit_id (filter (\<lambda>r. au_command_id r = command_id) rows)))"

definition purge_expired :: "pydatetime \<Rightarrow> ledger_row list \<Rightarrow> int \<times> ledger_row list" where
  "purge_expired now rows =
     (let old = (\<lambda>r. terminal_state (lr_state r) \<and> lr_updated_at r < as_utc now - command_retention)
      in (int (length (filter old rows)), filter (\<lambda>r. \<not> old r) rows))"

text \<open>\<open>audit_id\<close> comes from the sequence the table's default names. None: the insert raised, as \<open>written\<close> says.\<close>

definition record_in_tx ::
    "bool \<Rightarrow> command_request \<Rightarrow> string option \<Rightarrow> string option \<Rightarrow> string option \<Rightarrow> string option \<Rightarrow> instant
     \<Rightarrow> int \<Rightarrow> audit_row list \<Rightarrow> (audit_row list \<times> int) option" where
  "record_in_tx written q correlation validation_result acknowledgement outcome now next_id rows =
     (if \<not> written then None
      else Some (rows @ [\<lparr>au_audit_id = next_id, au_command_id = cq_command_id q,
               au_correlation_id = (case correlation of
                   None \<Rightarrow> cq_command_id q
                 | Some c \<Rightarrow> if c = [] then cq_command_id q else c),
               au_action = cq_action q, au_target_type = cq_target_type q, au_target_id = cq_target_id q,
               au_expected_version = cq_expected_version q, au_redacted_inputs = cq_body q,
               au_validation_result = validation_result, au_acknowledgement = acknowledgement,
               au_outcome = outcome, au_created_at = now\<rparr>],
      next_id + 1))"

section \<open>Every unresolved command is found again\<close>

text \<open>
  A command that is neither resolved nor rejected is in exactly one of the three recovery reads,
  so a restart sees it.
\<close>

lemma recovery_partition:
  "set (reconcilable rows) \<union> set (received rows) \<union> set (pre_dispatch_orphans rows)
     = {r \<in> set rows. \<not> terminal_state (lr_state r)}"
proof -
  have "(s = Submitting \<or> s = OutcomeUnknown \<or> s = Submitted) \<or> s = Received \<or> s = Validated
      \<longleftrightarrow> \<not> terminal_state s" for s
    by (cases s) (simp_all add: terminal_state_def)
  then show ?thesis by (auto simp: reconcilable_def received_def pre_dispatch_orphans_def)
qed

lemma purge_keeps_unresolved:
  "r \<in> set rows \<Longrightarrow> \<not> terminal_state (lr_state r) \<Longrightarrow> r \<in> set (snd (purge_expired now rows))"
  by (simp add: purge_expired_def)

lemma ledger_select_Some: "ledger_select rows i = Some r \<Longrightarrow> r \<in> set rows \<and> lr_command_id r = i"
  unfolding ledger_select_def by (auto dest: fetchone_filter_SomeD)

lemma ledger_select_None: "ledger_select rows i = None \<longleftrightarrow> (\<forall>r \<in> set rows. lr_command_id r \<noteq> i)"
  by (simp add: ledger_select_def filter_empty_conv)

lemma ledger_select_mem:
  "distinct (map lr_command_id rows) \<Longrightarrow> r \<in> set rows \<Longrightarrow> ledger_select rows (lr_command_id r) = Some r"
  by (simp add: ledger_select_def fetchone_key)

text \<open>The transition hits exactly the row in the expected state.\<close>

lemma transition_ok:
  assumes dist: "distinct (map lr_command_id rows)" and row: "ledger_select rows i = Some r"
    and st: "lr_state r = from_state"
  shows "\<exists>rows'. transition_in_tx i from_state to_state outcome error_code now rows
      = Some (r\<lparr>lr_state := to_state, lr_outcome := outcome, lr_error_code := error_code, lr_updated_at := now\<rparr>, rows')
    \<and> map lr_command_id rows' = map lr_command_id rows
    \<and> (\<forall>a. ledger_select rows' a = (if a = i then Some (r\<lparr>lr_state := to_state, lr_outcome := outcome,
          lr_error_code := error_code, lr_updated_at := now\<rparr>) else ledger_select rows a))"
proof -
  let ?P = "\<lambda>x. lr_command_id x = i \<and> lr_state x = from_state"
  let ?f = "\<lambda>x. x\<lparr>lr_state := to_state, lr_outcome := outcome, lr_error_code := error_code, lr_updated_at := now\<rparr>"
  from row have r: "r \<in> set rows" "lr_command_id r = i" by (auto dest: ledger_select_Some)
  have inj: "x = r" if "x \<in> set rows" "lr_command_id x = i" for x
    using dist that r by (auto simp: distinct_map inj_on_def)
  have only: "?P x \<longleftrightarrow> x = r" if "x \<in> set rows" for x using inj [OF that] r st by blast
  have "r \<in> set (filter ?P rows)" using r st by simp
  then obtain x xs where hit: "filter ?P rows = x # xs" by (cases "filter ?P rows") simp_all
  then have "x \<in> set (filter ?P rows)" by simp
  then have "x = r" using only [of x] by simp
  then have "transition_in_tx i from_state to_state outcome error_code now rows
      = Some (?f r, update_where ?P ?f rows)"
    using hit by (simp add: transition_in_tx_def)
  moreover have "map lr_command_id (update_where ?P ?f rows) = map lr_command_id rows"
    by (rule map_update_where_key) simp
  moreover have "ledger_select (update_where ?P ?f rows) a = (if a = i then Some (?f r) else ledger_select rows a)" for a
    unfolding ledger_select_def r(2) [symmetric]
    by (rule fetchone_update_key) (use dist r(1) only in \<open>simp_all add: r(2)\<close>)
  ultimately show ?thesis by blast
qed

lemma transition_miss:
  "ledger_select rows i = None \<Longrightarrow> transition_in_tx i from_state to_state outcome error_code now rows = None"
  by (auto simp: transition_in_tx_def Let_def ledger_select_None filter_empty_conv)

end
