(* ===== verification/Preflight_Nonce.thy ===== *)
theory Preflight_Nonce
  imports Command_Ledger
begin

text \<open>
  The preflight nonce gate, \<^verbatim>\<open>src/trader/trading/preflight_nonce.py\<close>: issuing a nonce bound to a
  command, an account, a session and the canonical request hash, and spending it inside the
  transaction that claims the command. The locale \<open>single_use_gate\<close> is the contract the
  coordinator relies on; the gate's own table is its interpretation. \<open>uuid4().hex\<close> is an argument.
\<close>

section \<open>The table\<close>

record nonce_row =
  nr_nonce :: string
  nr_command_id :: string
  nr_account_id :: "string option"
  nr_account_mode :: string
  nr_session_fingerprint :: string
  nr_request_hash :: string
  nr_issued_at :: instant
  nr_expires_at :: instant
  nr_consumed :: bool

definition default_nonce_ttl :: duration where
  "default_nonce_ttl = seconds 120"

text \<open>The insert fails on a reused primary key, and the table is unchanged (None).\<close>

definition issue_with_expiry ::
    "duration \<Rightarrow> string \<Rightarrow> instant \<Rightarrow> string \<Rightarrow> string option \<Rightarrow> string \<Rightarrow> string \<Rightarrow> string
     \<Rightarrow> nonce_row list \<Rightarrow> (string \<times> instant) option \<times> nonce_row list" where
  "issue_with_expiry ttl uuid_hex now command_id account_id account_mode session_fingerprint request_hash rows =
     (let expires = now + ttl
      in if \<exists>r \<in> set rows. nr_nonce r = uuid_hex then (None, rows)
         else (Some (uuid_hex, expires),
               rows @ [\<lparr>nr_nonce = uuid_hex, nr_command_id = command_id, nr_account_id = account_id,
                        nr_account_mode = account_mode, nr_session_fingerprint = session_fingerprint,
                        nr_request_hash = request_hash, nr_issued_at = now, nr_expires_at = expires,
                        nr_consumed = False\<rparr>]))"

definition issue ::
    "duration \<Rightarrow> string \<Rightarrow> instant \<Rightarrow> string \<Rightarrow> string option \<Rightarrow> string \<Rightarrow> string \<Rightarrow> string
     \<Rightarrow> nonce_row list \<Rightarrow> string option \<times> nonce_row list" where
  "issue ttl uuid_hex now command_id account_id account_mode session_fingerprint request_hash rows =
     (let (res, rows') = issue_with_expiry ttl uuid_hex now command_id account_id account_mode
            session_fingerprint request_hash rows
      in (map_option fst res, rows'))"

definition consume_in_tx ::
    "(json \<Rightarrow> string) \<Rightarrow> instant \<Rightarrow> string option \<Rightarrow> command_request \<Rightarrow> nonce_row list \<Rightarrow> bool \<times> nonce_row list" where
  "consume_in_tx sha now nonce q rows =
     (case nonce of
        None \<Rightarrow> (False, rows)
      | Some n \<Rightarrow>
          if n = [] then (False, rows)
          else case fetchone (filter (\<lambda>r. nr_nonce r = n) rows) of
                 None \<Rightarrow> (False, rows)
               | Some row \<Rightarrow>
                   if nr_consumed row then (False, rows)
                   else if now > nr_expires_at row then (False, rows)
                   else if nr_command_id row \<noteq> cq_command_id q then (False, rows)
                   else if nr_account_id row \<noteq> cq_account_id q then (False, rows)
                   else if Some (nr_request_hash row) \<noteq> canonical_request_hash sha q then (False, rows)
                   else if nr_session_fingerprint row \<noteq> opt_or [] (cq_session_fingerprint q) then (False, rows)
                   else (True, update_where (\<lambda>r. nr_nonce r = n) (\<lambda>r. r\<lparr>nr_consumed := True\<rparr>) rows))"

section \<open>The contract\<close>

text \<open>
  A gate whose tokens can be spent once: spending marks the token, a marked token is refused and
  leaves the gate alone, and no operation of the gate unmarks one.
\<close>

locale single_use_gate =
  fixes spend :: "string \<Rightarrow> 'q \<Rightarrow> 's \<Rightarrow> bool \<times> 's"
    and spent :: "string \<Rightarrow> 's \<Rightarrow> bool"
    and move :: "'s \<Rightarrow> 's \<Rightarrow> bool"
    and ok :: "'s \<Rightarrow> bool"
  assumes spend_marks: "ok s \<Longrightarrow> spend n q s = (True, s') \<Longrightarrow> spent n s'"
    and spent_refused: "ok s \<Longrightarrow> spent n s \<Longrightarrow> spend n q s = (False, s)"
    and spend_moves: "spend n q s = (b, s') \<Longrightarrow> move s s'"
    and move_keeps: "move s s' \<Longrightarrow> ok s \<Longrightarrow> spent n s \<Longrightarrow> spent n s'"
    and move_ok: "move s s' \<Longrightarrow> ok s \<Longrightarrow> ok s'"
begin

lemma run_keeps: "move\<^sup>*\<^sup>* s s' \<Longrightarrow> ok s \<Longrightarrow> ok s' \<and> (spent n s \<longrightarrow> spent n s')"
  by (induction rule: rtranclp_induct) (auto dest: move_keeps move_ok)

text \<open>Between two attempts on one token anything may happen: at most one succeeds.\<close>

lemma spent_once:
  assumes "ok s" and "spend n q s = (True, s1)" and "move\<^sup>*\<^sup>* s1 s2" and "spend n q' s2 = (b, s3)"
  shows "\<not> b \<and> s3 = s2"
proof -
  have "ok s1" using move_ok [OF spend_moves [OF assms(2)] assms(1)] .
  with run_keeps [OF assms(3) this, of n] spend_marks [OF assms(1,2)]
  have "ok s2" "spent n s2" by simp_all
  from spent_refused [OF this, of q'] show ?thesis using assms(4) by simp
qed

end

section \<open>The gate meets it\<close>

text \<open>One operation of the gate, with any arguments.\<close>

inductive nonce_step :: "(json \<Rightarrow> string) \<Rightarrow> nonce_row list \<Rightarrow> nonce_row list \<Rightarrow> bool" for sha where
  nonce_issued: "issue_with_expiry ttl u now c a m f h rows = (res, rows') \<Longrightarrow> nonce_step sha rows rows'"
| nonce_used: "consume_in_tx sha now n q rows = (b, rows') \<Longrightarrow> nonce_step sha rows rows'"

inductive_cases nonce_stepE: "nonce_step sha rows rows'"

definition nonces_distinct :: "nonce_row list \<Rightarrow> bool" where
  "nonces_distinct rows \<longleftrightarrow> distinct (map nr_nonce rows)"

definition nonce_spent :: "string \<Rightarrow> nonce_row list \<Rightarrow> bool" where
  "nonce_spent n rows \<longleftrightarrow> (\<exists>r \<in> set rows. nr_nonce r = n \<and> nr_consumed r)"

lemma nonce_spent_update:
  "nonce_spent n (update_where (\<lambda>r. nr_nonce r = m) (\<lambda>r. r\<lparr>nr_consumed := True\<rparr>) rows)
     \<longleftrightarrow> nonce_spent n rows \<or> n = m \<and> (\<exists>r \<in> set rows. nr_nonce r = n)"
  by (induction rows) (auto simp: nonce_spent_def)

lemma consume_TrueE:
  assumes "consume_in_tx sha now nonce q rows = (True, rows')"
  obtains n row where "nonce = Some n" and "row \<in> set rows" and "nr_nonce row = n" and "\<not> nr_consumed row"
    and "now \<le> nr_expires_at row" and "nr_command_id row = cq_command_id q"
    and "nr_account_id row = cq_account_id q" and "canonical_request_hash sha q = Some (nr_request_hash row)"
    and "nr_session_fingerprint row = opt_or [] (cq_session_fingerprint q)"
    and "rows' = update_where (\<lambda>r. nr_nonce r = n) (\<lambda>r. r\<lparr>nr_consumed := True\<rparr>) rows"
proof -
  obtain n where n: "nonce = Some n" using assms by (auto simp: consume_in_tx_def split: option.splits)
  obtain row where row: "fetchone (filter (\<lambda>r. nr_nonce r = n) rows) = Some row"
    using assms n by (auto simp: consume_in_tx_def split: option.splits if_splits)
  then have mem: "row \<in> set rows" "nr_nonce row = n" by (auto dest: fetchone_filter_SomeD)
  show thesis
    by (rule that [OF n mem]) (use assms n row in \<open>auto simp: consume_in_tx_def split: if_splits\<close>)
qed

lemma consume_FalseD: "consume_in_tx sha now nonce q rows = (False, rows') \<Longrightarrow> rows' = rows"
  by (auto simp: consume_in_tx_def split: option.splits if_splits)

lemma nonce_step_keeps:
  assumes "nonce_step sha rows rows'" and "nonces_distinct rows"
  shows "nonces_distinct rows' \<and> (nonce_spent n rows \<longrightarrow> nonce_spent n rows')"
  using assms(1)
proof (cases rule: nonce_step.cases)
  case (nonce_issued ttl u now c a m f h res)
  then show ?thesis
    using assms(2)
    by (auto simp: issue_with_expiry_def Let_def nonces_distinct_def nonce_spent_def split: if_splits)
next
  case (nonce_used now nonce q b)
  show ?thesis
  proof (cases b)
    case True
    obtain m where rows': "rows' = update_where (\<lambda>r. nr_nonce r = m) (\<lambda>r. r\<lparr>nr_consumed := True\<rparr>) rows"
      using nonce_used True by (auto elim: consume_TrueE)
    have "map nr_nonce rows' = map nr_nonce rows" unfolding rows' by (rule map_update_where_key) simp
    moreover have "nonce_spent n rows \<longrightarrow> nonce_spent n rows'"
      by (simp add: rows' nonce_spent_update)
    ultimately show ?thesis using assms(2) by (simp add: nonces_distinct_def)
  next
    case False
    then show ?thesis using nonce_used assms(2) by (auto dest: consume_FalseD)
  qed
qed

lemma consumed_refused:
  assumes "nonces_distinct rows" and "nonce_spent n rows"
  shows "consume_in_tx sha now (Some n) q rows = (False, rows)"
proof -
  from assms(2) obtain r where r: "r \<in> set rows" "nr_nonce r = n" "nr_consumed r"
    by (auto simp: nonce_spent_def)
  then have "fetchone (filter (\<lambda>x. nr_nonce x = n) rows) = Some r"
    using fetchone_key [of nr_nonce rows r] assms(1) by (simp add: nonces_distinct_def)
  then show ?thesis using r(3) by (simp add: consume_in_tx_def)
qed

text \<open>The query of the contract is the request together with the clock reading.\<close>

interpretation gate: single_use_gate
  "\<lambda>n (now, q). consume_in_tx sha now (Some n) q" nonce_spent "nonce_step sha" nonces_distinct for sha
proof unfold_locales
  fix rows n and tq :: "instant \<times> command_request" and rows'
  assume "(case tq of (now, q) \<Rightarrow> consume_in_tx sha now (Some n) q) rows = (True, rows')"
  then have "consume_in_tx sha (fst tq) (Some n) (snd tq) rows = (True, rows')" by (simp add: case_prod_beta)
  then show "nonce_spent n rows'"
    by (rule consume_TrueE) (auto simp: nonce_spent_update)
next
  fix rows n and tq :: "instant \<times> command_request"
  assume "nonces_distinct rows" and "nonce_spent n rows"
  then show "(case tq of (now, q) \<Rightarrow> consume_in_tx sha now (Some n) q) rows = (False, rows)"
    by (simp add: case_prod_beta consumed_refused)
next
  fix rows n and tq :: "instant \<times> command_request" and b rows'
  assume "(case tq of (now, q) \<Rightarrow> consume_in_tx sha now (Some n) q) rows = (b, rows')"
  then show "nonce_step sha rows rows'" by (simp add: case_prod_beta nonce_used)
qed (use nonce_step_keeps in blast)+

section \<open>Properties of the gate\<close>

text \<open>
  C35. A preflight nonce authorises one command, once: a successful spend presented it no later
  than its expiry, for the command, the account, the session and the exact request content it
  was issued for; after that, whatever else is issued or spent, presenting it again, with any
  request and at any time, is refused and changes nothing.
\<close>

theorem preflight_single_use:
  assumes "nonces_distinct rows" and "consume_in_tx sha now (Some n) q rows = (True, rows1)"
    and "(nonce_step sha)\<^sup>*\<^sup>* rows1 rows2" and "consume_in_tx sha now' (Some n) q' rows2 = (b, rows3)"
  shows "\<not> b \<and> rows3 = rows2
    \<and> (\<exists>row \<in> set rows. nr_nonce row = n \<and> \<not> nr_consumed row \<and> now \<le> nr_expires_at row
         \<and> nr_command_id row = cq_command_id q \<and> nr_account_id row = cq_account_id q
         \<and> nr_session_fingerprint row = opt_or [] (cq_session_fingerprint q)
         \<and> canonical_request_hash sha q = Some (nr_request_hash row))"
proof -
  have "\<not> b \<and> rows3 = rows2"
    using gate.spent_once [of rows sha n "(now, q)" rows1 rows2 "(now', q')" b rows3] assms by simp
  moreover from assms(2) obtain row where "row \<in> set rows" "nr_nonce row = n" "\<not> nr_consumed row"
      "now \<le> nr_expires_at row" "nr_command_id row = cq_command_id q" "nr_account_id row = cq_account_id q"
      "canonical_request_hash sha q = Some (nr_request_hash row)"
      "nr_session_fingerprint row = opt_or [] (cq_session_fingerprint q)"
    by (rule consume_TrueE) blast
  ultimately show ?thesis by blast
qed

definition demo_sha :: "json \<Rightarrow> string" where
  "demo_sha j = (case j of JObj kvs \<Rightarrow> ''h'' @ concat (map fst kvs) | _ \<Rightarrow> ''h'')"

definition demo_command :: command_request where
  "demo_command =
     \<lparr>cq_command_id = ''c1'', cq_action = ''approve_proposal'', cq_account_id = Some ''DU1'',
      cq_target_type = ''proposal'', cq_target_id = ''7'', cq_expected_version = Some 1,
      cq_body = [(''id'', JInt 7)], cq_source = ''dashboard'', cq_preflight_nonce = Some ''n1'',
      cq_parent_command_id = None, cq_session_fingerprint = Some ''fp'', cq_principal = Some ''dashboard'',
      cq_controller_epoch = None\<rparr>"

definition demo_nonces :: "nonce_row list" where
  "demo_nonces = snd (issue default_nonce_ttl ''n1'' 0 ''c1'' (Some ''DU1'') ''paper'' ''fp''
     (the (canonical_request_hash demo_sha demo_command)) [])"

theorem preflight_single_use_witness:
  "fst (consume_in_tx demo_sha 10 (Some ''n1'') demo_command demo_nonces)
   \<and> \<not> fst (consume_in_tx demo_sha 20 (Some ''n1'') demo_command
        (snd (consume_in_tx demo_sha 10 (Some ''n1'') demo_command demo_nonces)))"
proof -
  have first: "fst (consume_in_tx demo_sha 10 (Some ''n1'') demo_command demo_nonces)" by code_simp
  then have run: "consume_in_tx demo_sha 10 (Some ''n1'') demo_command demo_nonces
      = (True, snd (consume_in_tx demo_sha 10 (Some ''n1'') demo_command demo_nonces))"
    by (simp add: prod_eq_iff)
  have "nonces_distinct demo_nonces" by code_simp
  from preflight_single_use [OF this run rtranclp.rtrancl_refl surjective_pairing] first
  show ?thesis by blast
qed

end
