(* ===== verification/Command_Coordinator.thy ===== *)
theory Command_Coordinator
  imports Preflight_Nonce
begin

text \<open>
  \<open>TradingCommandCoordinator\<close> of \<^verbatim>\<open>src/trader/trading/command_coordinator.py\<close>, the one mutation
  boundary: the replay lookup, the claiming transaction (nonce, ledger row, audit record and
  RECEIVED event together), the registered handler, and the transition to the command's final
  state. A handler is an arbitrary function on the database: everything the handlers and the
  other threads own is the field \<open>ct_world\<close> and the rest of the journal.

  The lookup holds no lock, so other callers may commit between it and the claiming transaction.
  The argument \<open>gap\<close> of \<open>execute\<close> is what they did to the database in that time.
\<close>

section \<open>State, handlers and errors\<close>

text \<open>\<open>ct_written\<close> is the list \<open>inserted\<close> or \<open>transitioned\<close> of the running call.\<close>

record 'w command_tables =
  ct_ledger :: "ledger_row list"
  ct_audit :: "audit_row list"
  ct_next_audit :: int
  ct_nonces :: "nonce_row list"
  ct_written :: "ledger_row option"
  ct_world :: 'w

type_synonym 'w command_db = "'w command_tables journal_db"

text \<open>
  What the callbacks raise, and what \<open>execute\<close> raises: \<open>KeyError\<close> for an unknown action, the
  \<open>ValueError\<close> of a body that cannot be hashed or of a naive clock, the atomicity \<open>RuntimeError\<close>,
  \<open>IndexError\<close> of \<open>transitioned[0]\<close>, a failed final transition, or the handler's own exception.
\<close>

datatype command_error =
    PreflightRequired
  | LedgerKeyViolation
  | AuditWriteFailed
  | IllegalCommandTransition

datatype 'x execute_error =
    NoActionHandler
  | HashValueError
  | CommandNaiveTime
  | AtomicityViolated
  | TransitionedIndexError
  | TransitionFailed "command_error journal_error"
  | HandlerRaised 'x
  | SagaValidationRaised string string

datatype 'x handler_error = ValidationError string string | OtherException 'x

datatype ('w, 'x) handler =
    SingleStep "command_request \<Rightarrow> 'w command_db \<Rightarrow> ('x handler_error + jobject) \<times> 'w command_db"
  | Saga "command_request \<Rightarrow> 'w command_db \<Rightarrow> ('x handler_error + command_receipt) \<times> 'w command_db"

record ('w, 'x) action_registration =
  ar_handler :: "('w, 'x) handler"
  ar_requires_preflight :: bool

record ('w, 'x) coordinator =
  co_actions :: "(string \<times> ('w, 'x) action_registration) list"
  co_sha :: "json \<Rightarrow> string"
  co_reconciler :: bool

text \<open>
  The clock readings of one call, in the order it takes them: the receipt time, the nonce gate's
  clock, the time the claim is journaled, the time of the final transition and its journaling; and
  whether the insert of the audit record succeeds.
\<close>

record clock_readings =
  cl_received :: pydatetime
  cl_nonce :: instant
  cl_claim_journaled :: instant
  cl_transition :: pydatetime
  cl_transition_journaled :: instant
  cl_audit_written :: bool

definition register_action ::
    "string \<Rightarrow> ('w, 'x) handler \<Rightarrow> bool \<Rightarrow> ('w, 'x) coordinator \<Rightarrow> ('w, 'x) coordinator" where
  "register_action action handler requires_preflight c =
     c\<lparr>co_actions := AList.update action
         \<lparr>ar_handler = handler, ar_requires_preflight = requires_preflight\<rparr> (co_actions c)\<rparr>"

definition unregister_action :: "string \<Rightarrow> ('w, 'x) coordinator \<Rightarrow> bool \<times> ('w, 'x) coordinator" where
  "unregister_action action c =
     (case map_of (co_actions c) action of
        None \<Rightarrow> (False, c)
      | Some _ \<Rightarrow> (True, c\<lparr>co_actions := filter (\<lambda>kv. fst kv \<noteq> action) (co_actions c)\<rparr>))"

definition reconciliation_complete_for_account :: "ledger_row list \<Rightarrow> string \<Rightarrow> string option \<Rightarrow> bool" where
  "reconciliation_complete_for_account rows account_id exclude_command_id \<longleftrightarrow>
     unresolved_for_account rows account_id exclude_command_id = []"

definition get_command :: "ledger_row list \<Rightarrow> string \<Rightarrow> command_receipt option" where
  "get_command rows command_id = map_option row_to_receipt (ledger_select rows command_id)"

definition coordinator_as_utc :: "pydatetime \<Rightarrow> instant option" where
  "coordinator_as_utc v = (case v of Naive _ \<Rightarrow> None | Aware t \<Rightarrow> Some t)"

section \<open>Events\<close>

text \<open>\<open>command:<id>:<state>\<close> with the state in lower case.\<close>

definition command_event_id :: "string \<Rightarrow> command_state \<Rightarrow> string" where
  "command_event_id command_id s =
     (''command:'' @ command_id) @ CHR '':'' # lower (command_state_str s)"

definition received_mutation :: "command_request \<Rightarrow> instant \<Rightarrow> domain_mutation" where
  "received_mutation q now =
     \<lparr>dm_event_type = ''command.updated'', dm_entity_type = ''command'',
      dm_entity_id = command_entity_id (cq_command_id q), dm_operation = Upsert,
      dm_account_id = cq_account_id q, dm_source = ''trader_service'',
      dm_source_timestamp = Aware now, dm_correlation_id = Some (correlation_id q),
      dm_payload = Some
        [(''state'', JStr ''RECEIVED''), (''action'', JStr (cq_action q)),
         (''target_type'', JStr (cq_target_type q)), (''target_id'', JStr (cq_target_id q))]\<rparr>"

definition command_updated_mutation ::
    "command_request \<Rightarrow> command_state \<Rightarrow> instant \<Rightarrow> jobject option \<Rightarrow> string option \<Rightarrow> domain_mutation" where
  "command_updated_mutation q to_state now outcome error_code =
     \<lparr>dm_event_type = ''command.updated'', dm_entity_type = ''command'',
      dm_entity_id = command_entity_id (cq_command_id q), dm_operation = Upsert,
      dm_account_id = cq_account_id q, dm_source = ''trader_service'',
      dm_source_timestamp = Aware now, dm_correlation_id = Some (correlation_id q),
      dm_payload = Some
        [(''state'', JStr (command_state_str to_state)), (''action'', JStr (cq_action q)),
         (''target_type'', JStr (cq_target_type q)), (''target_id'', JStr (cq_target_id q)),
         (''outcome'', jopt JObj outcome), (''error_code'', jopt JStr error_code)]\<rparr>"

section \<open>Claiming and transitions\<close>

definition write_received ::
    "(json \<Rightarrow> string) \<Rightarrow> bool \<Rightarrow> bool \<Rightarrow> command_request \<Rightarrow> string \<Rightarrow> instant \<Rightarrow> instant
     \<Rightarrow> 'w command_tables \<Rightarrow> int \<Rightarrow> command_error + 'w command_tables" where
  "write_received sha audit_written requires_preflight q request_hash nonce_now received_at p _ =
     bind_sum
       (if requires_preflight
        then case consume_in_tx sha nonce_now (cq_preflight_nonce q) q (ct_nonces p) of
               (False, _) \<Rightarrow> Inl PreflightRequired
             | (True, nonces) \<Rightarrow> Inr (p\<lparr>ct_nonces := nonces\<rparr>)
        else Inr p)
       (\<lambda>p1.
         case insert_received_in_tx q request_hash received_at (ct_ledger p1) of
           None \<Rightarrow> Inl LedgerKeyViolation
         | Some (row, rows) \<Rightarrow>
             (case record_in_tx audit_written q (Some (correlation_id q)) None None None received_at
                     (ct_next_audit p1) (ct_audit p1) of
                None \<Rightarrow> Inl AuditWriteFailed
              | Some (audit, next_audit) \<Rightarrow>
                  Inr (p1\<lparr>ct_ledger := rows, ct_audit := audit, ct_next_audit := next_audit,
                          ct_written := Some row\<rparr>)))"

definition write_transition ::
    "command_request \<Rightarrow> command_state \<Rightarrow> command_state \<Rightarrow> jobject option \<Rightarrow> string option \<Rightarrow> instant
     \<Rightarrow> 'w command_tables \<Rightarrow> int \<Rightarrow> command_error + 'w command_tables" where
  "write_transition q from_state to_state outcome error_code now p _ =
     (case transition_in_tx (cq_command_id q) from_state to_state outcome error_code now (ct_ledger p) of
        None \<Rightarrow> Inl IllegalCommandTransition
      | Some (row, rows) \<Rightarrow> Inr (p\<lparr>ct_ledger := rows, ct_written := Some row\<rparr>))"

text \<open>An empty result list, the call of \<open>mutate\<close>, and what the callback put into the list.\<close>

definition mutate_collect ::
    "('w command_tables, command_error) batch_item \<Rightarrow> 'w command_db
     \<Rightarrow> (command_error journal_error + ledger_row option) \<times> 'w command_db" where
  "mutate_collect item db =
     (case mutate item (db\<lparr>jd_prod := (jd_prod db)\<lparr>ct_written := None\<rparr>\<rparr>) of
        (Inl e, db') \<Rightarrow> (Inl e, db')
      | (Inr _, db') \<Rightarrow> (Inr (ct_written (jd_prod db')), db'\<lparr>jd_prod := (jd_prod db')\<lparr>ct_written := None\<rparr>\<rparr>))"

definition transition ::
    "command_request \<Rightarrow> command_state \<Rightarrow> command_state \<Rightarrow> jobject option \<Rightarrow> string option
     \<Rightarrow> pydatetime \<Rightarrow> instant \<Rightarrow> 'w command_db \<Rightarrow> ('x execute_error + ledger_row) \<times> 'w command_db" where
  "transition q from_state to_state outcome error_code now journaled db =
     (case coordinator_as_utc now of
        None \<Rightarrow> (Inl CommandNaiveTime, db)
      | Some t \<Rightarrow>
         (case mutate_collect
                 \<lparr>bi_received_ts = journaled, bi_uuid = [],
                  bi_mutation = command_updated_mutation q to_state t outcome error_code,
                  bi_write = write_transition q from_state to_state outcome error_code t,
                  bi_event_id = Some (command_event_id (cq_command_id q) to_state)\<rparr> db of
            (Inl e, db') \<Rightarrow> (Inl (TransitionFailed e), db')
          | (Inr None, db') \<Rightarrow> (Inl TransitionedIndexError, db')
          | (Inr (Some row), db') \<Rightarrow> (Inr row, db')))"

definition losing_claim_receipt ::
    "(json \<Rightarrow> string) \<Rightarrow> ledger_row list \<Rightarrow> command_request \<Rightarrow> 'x execute_error + command_receipt" where
  "losing_claim_receipt sha rows q =
     (case claim_or_replay_in_tx sha rows q of
        None \<Rightarrow> Inl HashValueError
      | Some ClaimNew \<Rightarrow> Inl AtomicityViolated
      | Some (ClaimReplay r) \<Rightarrow> Inr r
      | Some (ClaimConflict r) \<Rightarrow> Inr r)"

text \<open>\<open>_schedule_reconcile\<close>: the ids handed to the reconciler, none when it is not wired.\<close>

definition schedule_reconcile :: "('w, 'x) coordinator \<Rightarrow> string \<Rightarrow> string list" where
  "schedule_reconcile c command_id = (if co_reconciler c then [command_id] else [])"

definition fallback_outcome_unknown ::
    "('w, 'x) coordinator \<Rightarrow> clock_readings \<Rightarrow> command_request \<Rightarrow> 'w command_db \<Rightarrow> string list \<times> 'w command_db" where
  "fallback_outcome_unknown c clocks q db =
     (case ledger_select (ct_ledger (jd_prod db)) (cq_command_id q) of
        None \<Rightarrow> ([], db)
      | Some current \<Rightarrow>
          if terminal_state (lr_state current) \<or> lr_state current = OutcomeUnknown then ([], db)
          else case transition q (lr_state current) OutcomeUnknown None (Some ''INTERNAL_ERROR'')
                      (cl_transition clocks) (cl_transition_journaled clocks) db of
                 (Inl (e :: 'x execute_error), db') \<Rightarrow> ([], db')
               | (Inr _, db') \<Rightarrow> (schedule_reconcile c (cq_command_id q), db'))"

section \<open>Running the handler\<close>

definition finish_single ::
    "('w, 'x) coordinator \<Rightarrow> clock_readings \<Rightarrow> command_request \<Rightarrow> ('x handler_error + jobject) \<times> 'w command_db
     \<Rightarrow> ('x execute_error + command_receipt) \<times> string list \<times> 'w command_db" where
  "finish_single c clocks q answer =
     (case answer of
        (Inr outcome, db) \<Rightarrow>
          (case transition q Received Resolved (Some outcome) None
                  (cl_transition clocks) (cl_transition_journaled clocks) db of
             (Inl e, db') \<Rightarrow> (Inl e, [], db')
           | (Inr row, db') \<Rightarrow> (Inr (row_to_receipt row), [], db'))
      | (Inl (ValidationError code message), db) \<Rightarrow>
          (case transition q Received Rejected (Some [(''message'', JStr message)]) (Some code)
                  (cl_transition clocks) (cl_transition_journaled clocks) db of
             (Inl e, db') \<Rightarrow> (Inl e, [], db')
           | (Inr row, db') \<Rightarrow> (Inr (row_to_receipt row), [], db'))
      | (Inl (OtherException x), db) \<Rightarrow>
          (case transition q Received OutcomeUnknown None (Some ''INTERNAL_ERROR'')
                  (cl_transition clocks) (cl_transition_journaled clocks) db of
             (Inl (e :: 'x execute_error), db') \<Rightarrow> (Inl (HandlerRaised x), [], db')
           | (Inr _, db') \<Rightarrow> (Inl (HandlerRaised x), schedule_reconcile c (cq_command_id q), db')))"

definition finish_saga ::
    "('w, 'x) coordinator \<Rightarrow> clock_readings \<Rightarrow> command_request \<Rightarrow> ('x handler_error + command_receipt) \<times> 'w command_db
     \<Rightarrow> ('x execute_error + command_receipt) \<times> string list \<times> 'w command_db" where
  "finish_saga c clocks q answer =
     (case answer of
        (Inr receipt, db) \<Rightarrow> (Inr receipt, [], db)
      | (Inl (ValidationError code message), db) \<Rightarrow>
          (let (scheduled, db') = fallback_outcome_unknown c clocks q db
           in (Inl (SagaValidationRaised code message), scheduled, db'))
      | (Inl (OtherException x), db) \<Rightarrow>
          (let (scheduled, db') = fallback_outcome_unknown c clocks q db
           in (Inl (HandlerRaised x), scheduled, db')))"

definition run_handler ::
    "('w, 'x) coordinator \<Rightarrow> ('w, 'x) action_registration \<Rightarrow> clock_readings \<Rightarrow> command_request \<Rightarrow> 'w command_db
     \<Rightarrow> ('x execute_error + command_receipt) \<times> string list \<times> 'w command_db" where
  "run_handler c reg clocks q db =
     (case ar_handler reg of
        SingleStep h \<Rightarrow> finish_single c clocks q (h q db)
      | Saga h \<Rightarrow> finish_saga c clocks q (h q db))"

definition rejected_receipt :: "string \<Rightarrow> string \<Rightarrow> command_receipt" where
  "rejected_receipt command_id code =
     \<lparr>rc_command_id = command_id, rc_correlation_id = command_id, rc_state = Rejected, rc_outcome = None,
      rc_error_code = Some code, rc_retryable = True\<rparr>"

section \<open>Executing a command\<close>

definition claim_item ::
    "('w, 'x) coordinator \<Rightarrow> ('w, 'x) action_registration \<Rightarrow> clock_readings \<Rightarrow> command_request \<Rightarrow> string \<Rightarrow> instant
     \<Rightarrow> ('w command_tables, command_error) batch_item" where
  "claim_item c reg clocks q request_hash received_at =
     \<lparr>bi_received_ts = cl_claim_journaled clocks, bi_uuid = [],
      bi_mutation = received_mutation q received_at,
      bi_write = write_received (co_sha c) (cl_audit_written clocks) (ar_requires_preflight reg) q request_hash
                   (cl_nonce clocks) received_at,
      bi_event_id = Some (command_event_id (cq_command_id q) Received)\<rparr>"

definition claim_and_run ::
    "('w, 'x) coordinator \<Rightarrow> ('w, 'x) action_registration \<Rightarrow> clock_readings \<Rightarrow> command_request \<Rightarrow> 'w command_db
     \<Rightarrow> ('x execute_error + command_receipt) \<times> string list \<times> 'w command_db" where
  "claim_and_run c reg clocks q db =
     (case canonical_request_hash (co_sha c) q of
        None \<Rightarrow> (Inl HashValueError, [], db)
      | Some request_hash \<Rightarrow>
         (case coordinator_as_utc (cl_received clocks) of
            None \<Rightarrow> (Inl CommandNaiveTime, [], db)
          | Some received_at \<Rightarrow>
             (case mutate_collect (claim_item c reg clocks q request_hash received_at) db of
                (Inl (Raised PreflightRequired), db') \<Rightarrow>
                  (Inr (rejected_receipt (cq_command_id q) ''PREFLIGHT_REQUIRED''), [], db')
              | (Inl (EventIdentityConflict _), db') \<Rightarrow>
                  (losing_claim_receipt (co_sha c) (ct_ledger (jd_prod db')) q, [], db')
              | (Inl _, db') \<Rightarrow>
                  (Inr (rejected_receipt (cq_command_id q) ''AUDIT_UNAVAILABLE''), [], db')
              | (Inr None, db') \<Rightarrow>
                  (losing_claim_receipt (co_sha c) (ct_ledger (jd_prod db')) q, [], db')
              | (Inr (Some _), db') \<Rightarrow> run_handler c reg clocks q db')))"

definition execute ::
    "('w, 'x) coordinator \<Rightarrow> clock_readings \<Rightarrow> ('w command_db \<Rightarrow> 'w command_db) \<Rightarrow> command_request \<Rightarrow> 'w command_db
     \<Rightarrow> ('x execute_error + command_receipt) \<times> string list \<times> 'w command_db" where
  "execute c clocks gap q db =
     (case map_of (co_actions c) (cq_action q) of
        None \<Rightarrow> (Inl NoActionHandler, [], db)
      | Some reg \<Rightarrow>
         (case claim_or_replay_in_tx (co_sha c) (ct_ledger (jd_prod db)) q of
            None \<Rightarrow> (Inl HashValueError, [], db)
          | Some (ClaimReplay r) \<Rightarrow> (Inr r, [], db)
          | Some (ClaimConflict r) \<Rightarrow> (Inr r, [], db)
          | Some ClaimNew \<Rightarrow> claim_and_run c reg clocks q (gap db)))"

section \<open>What one journaled write of the coordinator does\<close>

lemma written_None_same: "ct_written (jd_prod db) = None \<Longrightarrow> db\<lparr>jd_prod := (jd_prod db)\<lparr>ct_written := None\<rparr>\<rparr> = db"
  by simp

lemma mutate_collect_cases:
  assumes inv: "journal_inv db" and idle: "ct_written (jd_prod db) = None"
    and run: "mutate_collect item db = (res, db')"
  obtains (failed) e where "res = Inl e" and "db' = db" and "fst (mutate item db) = Inl e"
  | (replay) row where "select_journal_row db (item_id item) = Some row"
      and "res = Inr None" and "jd_prod db' = jd_prod db" and "jd_rows db' = jd_rows db"
      and "jd_entities db' = jd_entities db" and "journal_inv db'"
  | (fresh) p where "select_journal_row db (item_id item) = None"
      and "bi_write item (jd_prod db) (read_current_revision db (dm_entity_type (bi_mutation item))
             (dm_entity_id (bi_mutation item)) + 1) = Inr p"
      and "res = Inr (ct_written p)" and "jd_prod db' = p\<lparr>ct_written := None\<rparr>"
      and "jd_rows db' = jd_rows db @ [fresh_row (bi_received_ts item) (item_id item) (bi_mutation item) db]"
      and "journal_inv db'"
proof -
  obtain r mid where m: "mutate item db = (r, mid)" by fastforce
  have inv': "journal_inv mid" by (rule mutate_inv [OF inv m])
  have shape: "mutate_collect item db = (case r of Inl e \<Rightarrow> (Inl e, mid)
      | Inr _ \<Rightarrow> (Inr (ct_written (jd_prod mid)), mid\<lparr>jd_prod := (jd_prod mid)\<lparr>ct_written := None\<rparr>\<rparr>))"
    unfolding mutate_collect_def written_None_same [OF idle] m by simp
  from inv m show thesis
  proof (cases rule: mutate_cases)
    case (failed e)
    then have "res = Inl e" "db' = db" "fst (mutate item db) = Inl e" using run shape m by simp_all
    then show thesis by (rule that(1))
  next
    case (replay row)
    have "db' = mid\<lparr>jd_prod := (jd_prod db)\<lparr>ct_written := None\<rparr>\<rparr>" and res: "res = Inr None"
      using run shape replay idle by simp_all
    then have "jd_prod db' = jd_prod db" "jd_rows db' = jd_rows db" "jd_entities db' = jd_entities db"
      "journal_inv db'"
      using replay(4) idle inv' by simp_all
    then show thesis using that(2) [OF replay(1) res] by blast
  next
    case (fresh p)
    have "db' = mid\<lparr>jd_prod := p\<lparr>ct_written := None\<rparr>\<rparr>" "res = Inr (ct_written p)"
      using run shape fresh by simp_all
    then show thesis using that(3) fresh inv' by simp
  qed
qed

lemma claim_item_simps [simp]:
  "bi_mutation (claim_item c reg clocks q h t) = received_mutation q t"
  "item_id (claim_item c reg clocks q h t) = command_event_id (cq_command_id q) Received"
  "bi_write (claim_item c reg clocks q h t)
     = write_received (co_sha c) (cl_audit_written clocks) (ar_requires_preflight reg) q h (cl_nonce clocks) t"
  by (simp_all add: claim_item_def item_id_def)

lemma write_received_Inr:
  assumes "write_received sha audit_ok pre q h nonce_now t p n = Inr p'"
  shows "audit_ok \<and> (\<forall>r \<in> set (ct_ledger p). lr_command_id r \<noteq> cq_command_id q)
    \<and> ct_ledger p' = ct_ledger p @ [received_row q h t] \<and> ct_written p' = Some (received_row q h t)
    \<and> ct_world p' = ct_world p
    \<and> (\<exists>a. ct_audit p' = ct_audit p @ [a] \<and> au_command_id a = cq_command_id q
         \<and> au_redacted_inputs a = cq_body q \<and> au_correlation_id a = correlation_id q)
    \<and> (if pre then consume_in_tx sha nonce_now (cq_preflight_nonce q) q (ct_nonces p) = (True, ct_nonces p')
       else ct_nonces p' = ct_nonces p)"
proof -
  have "correlation_id q = (if correlation_id q = [] then cq_command_id q else correlation_id q)"
    by (auto simp: correlation_id_def split: option.splits if_splits)
  then show ?thesis
    using assms
    by (auto simp: write_received_def bind_sum_Inr insert_received_in_tx_def record_in_tx_def
        split: if_splits prod.splits bool.splits)
qed

lemma write_received_Inl:
  "write_received sha audit_ok pre q h nonce_now t p n = Inl e \<Longrightarrow> e \<in> {PreflightRequired, LedgerKeyViolation, AuditWriteFailed}"
  by (auto simp: write_received_def bind_sum_def insert_received_in_tx_def record_in_tx_def
      split: if_splits prod.splits bool.splits sum.splits option.splits)

lemma mutate_raises:
  fixes item :: "('p, 'e) batch_item"
  assumes "select_journal_row db (item_id item) = None"
    and "bi_write item (jd_prod db) (read_current_revision db (dm_entity_type (bi_mutation item))
             (dm_entity_id (bi_mutation item)) + 1) = Inl e"
  shows "fst (mutate item db) = Inl (Raised e)"
  using assms by (simp add: mutate_work mutate_batch_work_def journal_append_def item_id_def)

lemma mutate_conflict:
  assumes "select_journal_row db (item_id item) = Some row" and "fst (mutate item db) = Inl e"
  shows "e = EventIdentityConflict (item_id item)"
  using assms
  by (auto simp: mutate_work mutate_batch_work_def journal_append_def item_id_def split: if_splits prod.splits)

section \<open>Properties of the coordinator\<close>

text \<open>The receipt a duplicate of a recorded command gets.\<close>

definition recorded_receipt :: "ledger_row \<Rightarrow> command_request \<Rightarrow> string \<Rightarrow> command_receipt" where
  "recorded_receipt row q h =
     (if lr_request_hash row = h then row_to_receipt row else conflict_receipt (cq_command_id q))"

lemma losing_receipt:
  assumes "ledger_select rows (cq_command_id q) = Some row" and "canonical_request_hash sha q = Some h"
  shows "losing_claim_receipt sha rows q = Inr (recorded_receipt row q h)"
  using assms by (simp add: losing_claim_receipt_def claim_or_replay_in_tx_def recorded_receipt_def)

lemma claim_refused:
  fixes c :: "('w, 'x) coordinator"
  assumes "journal_inv db" and "ct_written (jd_prod db) = None"
    and "ledger_select (ct_ledger (jd_prod db)) (cq_command_id q) = Some row"
    and "canonical_request_hash (co_sha c) q = Some h" and "cl_received clocks = Aware t"
  shows "\<exists>receipt db'. claim_and_run c reg clocks q db = (Inr receipt, [], db') \<and> jd_prod db' = jd_prod db
    \<and> jd_rows db' = jd_rows db \<and> jd_entities db' = jd_entities db
    \<and> (receipt = recorded_receipt row q h
       \<or> select_journal_row db (command_event_id (cq_command_id q) Received) = None
         \<and> receipt \<in> {rejected_receipt (cq_command_id q) ''PREFLIGHT_REQUIRED'',
                       rejected_receipt (cq_command_id q) ''AUDIT_UNAVAILABLE''})"
proof -
  let ?item = "claim_item c reg clocks q h t"
  let ?eid = "command_event_id (cq_command_id q) Received"
  have lose: "losing_claim_receipt (co_sha c) (ct_ledger (jd_prod db)) q
      = (Inr (recorded_receipt row q h) :: 'x execute_error + command_receipt)"
    using assms(3,4) by (rule losing_receipt)
  have taken: "\<exists>r \<in> set (ct_ledger (jd_prod db)). lr_command_id r = cq_command_id q"
    using ledger_select_Some [OF assms(3)] by blast
  obtain res db' where run: "mutate_collect ?item db = (res, db')" by fastforce
  have shape: "claim_and_run c reg clocks q db = (case (res, db') of
      (Inl (Raised PreflightRequired), db') \<Rightarrow>
        (Inr (rejected_receipt (cq_command_id q) ''PREFLIGHT_REQUIRED''), [], db')
    | (Inl (EventIdentityConflict _), db') \<Rightarrow>
        (losing_claim_receipt (co_sha c) (ct_ledger (jd_prod db')) q, [], db')
    | (Inl _, db') \<Rightarrow> (Inr (rejected_receipt (cq_command_id q) ''AUDIT_UNAVAILABLE''), [], db')
    | (Inr None, db') \<Rightarrow> (losing_claim_receipt (co_sha c) (ct_ledger (jd_prod db')) q, [], db')
    | (Inr (Some _), db') \<Rightarrow> run_handler c reg clocks q db')"
    using assms(4,5) run by (simp add: claim_and_run_def coordinator_as_utc_def)
  from assms(1,2) run show ?thesis
  proof (cases rule: mutate_collect_cases)
    case (failed e)
    show ?thesis
    proof (cases "select_journal_row db ?eid")
      case None
      then show ?thesis using shape failed lose
        by (cases e; cases "case e of Raised x \<Rightarrow> x | _ \<Rightarrow> LedgerKeyViolation") auto
    next
      case (Some jrow)
      then have "e = EventIdentityConflict ?eid" using mutate_conflict [of db ?item jrow e] failed by simp
      then show ?thesis using shape failed lose by simp
    qed
  next
    case (replay jrow)
    then show ?thesis using shape lose by simp
  next
    case (fresh p)
    then have "write_received (co_sha c) (cl_audit_written clocks) (ar_requires_preflight reg) q h (cl_nonce clocks) t (jd_prod db)
        (read_current_revision db (dm_entity_type (received_mutation q t)) (dm_entity_id (received_mutation q t)) + 1)
      = Inr p" by simp
    from write_received_Inr [OF this] taken show ?thesis by blast
  qed
qed

text \<open>
  C6. A command id is executed at most once, also under concurrent duplicates: whenever the
  ledger already holds the command, at the lookup or because another caller claimed it between
  the lookup and the claiming transaction, \<open>execute\<close> returns without running the handler (the
  answer does not depend on it), changes no table, and hands nothing to the reconciler. The caller gets the
  recorded receipt, or the conflict receipt when the request differs, as long as the RECEIVED
  event is retained; otherwise a rejection.
\<close>

theorem command_executes_once:
  assumes "journal_inv (gap db)" and "ct_written (jd_prod (gap db)) = None"
    and "ledger_select (ct_ledger (jd_prod (gap db))) (cq_command_id q) = Some row"
    and "ledger_select (ct_ledger (jd_prod db)) (cq_command_id q) = None \<or> gap db = db"
    and "canonical_request_hash (co_sha c) q = Some h" and "cl_received clocks = Aware t"
    and "map_of (co_actions c) (cq_action q) \<noteq> None"
  shows "\<exists>receipt db'. execute c clocks gap q db = (Inr receipt, [], db') \<and> jd_prod db' = jd_prod (gap db)
    \<and> jd_rows db' = jd_rows (gap db) \<and> jd_entities db' = jd_entities (gap db)
    \<and> (receipt = (if lr_request_hash row = h then row_to_receipt row else conflict_receipt (cq_command_id q))
       \<or> select_journal_row (gap db) (command_event_id (cq_command_id q) Received) = None
         \<and> receipt \<in> {rejected_receipt (cq_command_id q) ''PREFLIGHT_REQUIRED'',
                       rejected_receipt (cq_command_id q) ''AUDIT_UNAVAILABLE''})"
proof -
  obtain reg where reg: "map_of (co_actions c) (cq_action q) = Some reg" using assms(7) by blast
  show ?thesis
  proof (cases "ledger_select (ct_ledger (jd_prod db)) (cq_command_id q)")
    case None
    then have "execute c clocks gap q db = claim_and_run c reg clocks q (gap db)"
      using reg by (simp add: execute_def claim_or_replay_in_tx_def)
    with claim_refused [OF assms(1-3,5,6), of reg] show ?thesis by (simp add: recorded_receipt_def)
  next
    case (Some r)
    then have same: "gap db = db" using assms(4) by simp
    then have "execute c clocks gap q db
        = (Inr (if lr_request_hash row = h then row_to_receipt row else conflict_receipt (cq_command_id q)), [], db)"
      using reg assms(3,5) by (simp add: execute_def claim_or_replay_in_tx_def)
    then show ?thesis using same by simp
  qed
qed

text \<open>
  C28. The claim comes first: for a command id that is new at the claiming transaction, either a
  required preflight nonce is missing or refused, or the nonce is good but the audit record cannot be
  written, and in both cases the handler does not run, the command is rejected as retryable and the
  database is exactly as before, the nonce unspent; or the handler starts from a state in which the
  RECEIVED ledger row, the audit record with the request body, the RECEIVED event and the spent nonce
  are all committed, and nothing else has changed.
\<close>

theorem command_claimed_before_handler:
  assumes "journal_inv (gap db)" and "ct_written (jd_prod (gap db)) = None"
    and "ledger_select (ct_ledger (jd_prod db)) (cq_command_id q) = None"
    and "ledger_select (ct_ledger (jd_prod (gap db))) (cq_command_id q) = None"
    and "select_journal_row (gap db) (command_event_id (cq_command_id q) Received) = None"
    and "canonical_request_hash (co_sha c) q = Some h" and "cl_received clocks = Aware t"
    and "map_of (co_actions c) (cq_action q) = Some reg"
  shows "ar_requires_preflight reg
      \<and> \<not> fst (consume_in_tx (co_sha c) (cl_nonce clocks) (cq_preflight_nonce q) q (ct_nonces (jd_prod (gap db))))
      \<and> execute c clocks gap q db = (Inr (rejected_receipt (cq_command_id q) ''PREFLIGHT_REQUIRED''), [], gap db)
    \<or> \<not> cl_audit_written clocks
      \<and> (ar_requires_preflight reg
         \<longrightarrow> fst (consume_in_tx (co_sha c) (cl_nonce clocks) (cq_preflight_nonce q) q (ct_nonces (jd_prod (gap db)))))
      \<and> execute c clocks gap q db = (Inr (rejected_receipt (cq_command_id q) ''AUDIT_UNAVAILABLE''), [], gap db)
    \<or> cl_audit_written clocks \<and> (\<exists>db2 a ev. execute c clocks gap q db = run_handler c reg clocks q db2 \<and> journal_inv db2
      \<and> ct_ledger (jd_prod db2) = ct_ledger (jd_prod (gap db)) @ [received_row q h t]
      \<and> ct_audit (jd_prod db2) = ct_audit (jd_prod (gap db)) @ [a]
      \<and> au_command_id a = cq_command_id q \<and> au_redacted_inputs a = cq_body q
      \<and> jd_rows db2 = jd_rows (gap db) @ [ev] \<and> jr_event_id ev = command_event_id (cq_command_id q) Received
      \<and> ct_world (jd_prod db2) = ct_world (jd_prod (gap db))
      \<and> (if ar_requires_preflight reg
         then consume_in_tx (co_sha c) (cl_nonce clocks) (cq_preflight_nonce q) q (ct_nonces (jd_prod (gap db)))
                = (True, ct_nonces (jd_prod db2))
         else ct_nonces (jd_prod db2) = ct_nonces (jd_prod (gap db))))"
proof -
  let ?db = "gap db" and ?item = "claim_item c reg clocks q h t"
  let ?consume = "consume_in_tx (co_sha c) (cl_nonce clocks) (cq_preflight_nonce q) q (ct_nonces (jd_prod ?db))"
  let ?w = "write_received (co_sha c) (cl_audit_written clocks) (ar_requires_preflight reg) q h (cl_nonce clocks) t (jd_prod ?db)
      (read_current_revision ?db (dm_entity_type (received_mutation q t)) (dm_entity_id (received_mutation q t)) + 1)"
  have ex: "execute c clocks gap q db = claim_and_run c reg clocks q ?db"
    using assms(3,8) by (simp add: execute_def claim_or_replay_in_tx_def)
  have free: "\<forall>r \<in> set (ct_ledger (jd_prod ?db)). lr_command_id r \<noteq> cq_command_id q"
    using assms(4) by (simp add: ledger_select_None)
  obtain res db' where run: "mutate_collect ?item ?db = (res, db')" by fastforce
  show ?thesis
  proof (cases ?w)
    case (Inl e)
    have refused: "ar_requires_preflight reg \<and> \<not> fst ?consume \<and> e = PreflightRequired
        \<or> \<not> cl_audit_written clocks \<and> (ar_requires_preflight reg \<longrightarrow> fst ?consume) \<and> e = AuditWriteFailed"
      using Inl free
      by (auto simp: write_received_def bind_sum_def insert_received_in_tx_def record_in_tx_def
          split: if_splits prod.splits bool.splits)
    have err: "fst (mutate ?item ?db) = Inl (Raised e)"
      using mutate_raises [of ?db ?item e] Inl assms(5) by simp
    from assms(1,2) run have "res = Inl (Raised e) \<and> db' = ?db"
      by (cases rule: mutate_collect_cases) (use err Inl assms(5) in auto)
    then have "claim_and_run c reg clocks q ?db
        = (Inr (rejected_receipt (cq_command_id q) (if e = PreflightRequired then ''PREFLIGHT_REQUIRED'' else ''AUDIT_UNAVAILABLE'')), [], ?db)"
      using assms(6,7) run refused by (auto simp: claim_and_run_def coordinator_as_utc_def)
    then show ?thesis using refused ex by (elim disjE) simp_all
  next
    case (Inr p)
    have ok: "fst (mutate ?item ?db) \<noteq> Inl e" for e
      using mutate_fresh [of ?db ?item p] Inr assms(1,5) by simp
    note facts = write_received_Inr [OF Inr]
    from assms(1,2) run have out: "res = Inr (ct_written p) \<and> jd_prod db' = p\<lparr>ct_written := None\<rparr>
        \<and> jd_rows db' = jd_rows ?db @ [fresh_row (bi_received_ts ?item) (item_id ?item) (bi_mutation ?item) ?db]
        \<and> journal_inv db'"
      by (cases rule: mutate_collect_cases) (use ok Inr assms(5) in auto)
    then have "execute c clocks gap q db = run_handler c reg clocks q db'"
      using ex assms(6,7) run facts by (simp add: claim_and_run_def coordinator_as_utc_def)
    then show ?thesis using out facts
      by (intro disjI2) (auto intro!: exI [of _ db'])
  qed
qed

text \<open>The row a command ends with, by the answer of its single-step handler.\<close>

fun answer_target :: "'x handler_error + jobject \<Rightarrow> command_state \<times> jobject option \<times> string option" where
  "answer_target (Inr outcome) = (Resolved, Some outcome, None)"
| "answer_target (Inl (ValidationError code message))
     = (Rejected, Some [(''message'', JStr message)], Some code)"
| "answer_target (Inl (OtherException x)) = (OutcomeUnknown, None, Some ''INTERNAL_ERROR'')"

definition settled_row :: "'x handler_error + jobject \<Rightarrow> instant \<Rightarrow> ledger_row \<Rightarrow> ledger_row" where
  "settled_row answer t row =
     (let (to_state, outcome, error_code) = answer_target answer
      in row\<lparr>lr_state := to_state, lr_outcome := outcome, lr_error_code := error_code, lr_updated_at := t\<rparr>)"

lemma answer_target_new: "fst (answer_target answer) \<noteq> Received"
  by (cases answer rule: answer_target.cases) simp_all

lemma settled_not_retryable: "\<not> rc_retryable (row_to_receipt (settled_row answer t row))"
  by (cases answer rule: answer_target.cases)
    (simp_all add: settled_row_def row_to_receipt_def terminal_state_def)

text \<open>Whatever the answer, the call makes one transition, to the answer's target.\<close>

lemma finish_single_target:
  fixes c :: "('w, 'x) coordinator"
  assumes "answer_target answer = (s, outcome, error_code)"
    and "transition q Received s outcome error_code (cl_transition clocks) (cl_transition_journaled clocks) db
      = (Inr row :: 'x execute_error + ledger_row, db')"
  shows "finish_single c clocks q (answer, db)
    = (case answer of
         Inl (OtherException x) \<Rightarrow> (Inl (HandlerRaised x), schedule_reconcile c (cq_command_id q), db')
       | _ \<Rightarrow> (Inr (row_to_receipt row), [], db'))"
  using assms by (cases answer rule: answer_target.cases) (auto simp: finish_single_def)

lemma transition_commits:
  fixes db :: "'w command_db"
  assumes inv: "journal_inv db" and idle: "ct_written (jd_prod db) = None"
    and dist: "distinct (map lr_command_id (ct_ledger (jd_prod db)))"
    and row: "ledger_select (ct_ledger (jd_prod db)) (cq_command_id q) = Some row"
    and st: "lr_state row = from_state"
    and new: "select_journal_row db (command_event_id (cq_command_id q) to_state) = None"
  shows "\<exists>db'. transition q from_state to_state outcome error_code (Aware t) j db
      = (Inr (row\<lparr>lr_state := to_state, lr_outcome := outcome, lr_error_code := error_code, lr_updated_at := t\<rparr>)
          :: 'x execute_error + ledger_row, db')
    \<and> journal_inv db' \<and> ct_world (jd_prod db') = ct_world (jd_prod db)
    \<and> (\<forall>a. ledger_select (ct_ledger (jd_prod db')) a = (if a = cq_command_id q then Some (row\<lparr>lr_state := to_state,
          lr_outcome := outcome, lr_error_code := error_code, lr_updated_at := t\<rparr>)
          else ledger_select (ct_ledger (jd_prod db)) a))
    \<and> (\<exists>ev. jd_rows db' = jd_rows db @ [ev] \<and> jr_event_id ev = command_event_id (cq_command_id q) to_state)"
proof -
  let ?row = "row\<lparr>lr_state := to_state, lr_outcome := outcome, lr_error_code := error_code, lr_updated_at := t\<rparr>"
  define item :: "('w command_tables, command_error) batch_item" where
    "item = \<lparr>bi_received_ts = j, bi_uuid = [],
                bi_mutation = command_updated_mutation q to_state t outcome error_code,
                bi_write = write_transition q from_state to_state outcome error_code t,
                bi_event_id = Some (command_event_id (cq_command_id q) to_state)\<rparr>"
  from transition_ok [OF dist row st, of to_state outcome error_code t]
  obtain rows' where tr: "transition_in_tx (cq_command_id q) from_state to_state outcome error_code t
      (ct_ledger (jd_prod db)) = Some (?row, rows')"
    and look: "\<And>a. ledger_select rows' a = (if a = cq_command_id q then Some ?row
        else ledger_select (ct_ledger (jd_prod db)) a)" by blast
  let ?p = "(jd_prod db)\<lparr>ct_ledger := rows', ct_written := Some ?row\<rparr>"
  have id: "item_id item = command_event_id (cq_command_id q) to_state" by (simp add: item_def item_id_def)
  have w: "bi_write item (jd_prod db) n = Inr ?p" for n by (simp add: item_def write_transition_def tr)
  have ok: "fst (mutate item db) \<noteq> Inl e" for e
    using mutate_fresh [of db item ?p] inv new w by (simp add: id)
  obtain res db' where run: "mutate_collect item db = (res, db')" by fastforce
  from inv idle run have out: "res = Inr (Some ?row) \<and> jd_prod db' = ?p\<lparr>ct_written := None\<rparr> \<and> journal_inv db'
      \<and> jd_rows db' = jd_rows db @ [fresh_row (bi_received_ts item) (item_id item) (bi_mutation item) db]"
    by (cases rule: mutate_collect_cases) (use ok w new id in auto)
  then have "transition q from_state to_state outcome error_code (Aware t) j db
      = (Inr ?row :: 'x execute_error + ledger_row, db')"
    by (simp add: transition_def coordinator_as_utc_def run [unfolded item_def])
  then show ?thesis using out look id by simp
qed

text \<open>
  Every answer of a single-step handler is recorded durably: if the handler returns, the
  command is RESOLVED with its outcome; if it refuses, REJECTED with its code; if it fails in any other
  way, the exception is raised again, the command is parked as OUTCOME_UNKNOWN, never as
  retryable, and handed to the reconciler; no other command's row is touched. This holds for any
  handler that leaves the command's own row and events alone.
\<close>

lemma command_outcome_recorded:
  fixes c :: "('w, 'x) coordinator"
  assumes "ar_handler reg = SingleStep handle" and "handle q db2 = (answer, db)"
    and "journal_inv db" and "ct_written (jd_prod db) = None"
    and "distinct (map lr_command_id (ct_ledger (jd_prod db)))"
    and "ledger_select (ct_ledger (jd_prod db)) (cq_command_id q) = Some row" and "lr_state row = Received"
    and "\<forall>s. s \<noteq> Received \<longrightarrow> select_journal_row db (command_event_id (cq_command_id q) s) = None"
    and "cl_transition clocks = Aware t"
  shows "\<exists>db'. run_handler c reg clocks q db2
      = (case answer of
           Inl (OtherException x) \<Rightarrow> (Inl (HandlerRaised x), schedule_reconcile c (cq_command_id q), db')
         | _ \<Rightarrow> (Inr (row_to_receipt (settled_row answer t row)), [], db'))
    \<and> (\<forall>a. ledger_select (ct_ledger (jd_prod db')) a
         = (if a = cq_command_id q then Some (settled_row answer t row) else ledger_select (ct_ledger (jd_prod db)) a))
    \<and> \<not> rc_retryable (row_to_receipt (settled_row answer t row)) \<and> journal_inv db'"
proof -
  obtain s outcome error_code where target: "answer_target answer = (s, outcome, error_code)"
    by (cases "answer_target answer")
  have "s \<noteq> Received" using answer_target_new [of answer] target by simp
  then have "select_journal_row db (command_event_id (cq_command_id q) s) = None" using assms(8) by blast
  from transition_commits [OF assms(3-7) this, of outcome error_code t "cl_transition_journaled clocks"]
  obtain db' where "transition q Received s outcome error_code (Aware t) (cl_transition_journaled clocks) db
      = (Inr (settled_row answer t row) :: 'x execute_error + ledger_row, db')"
    and inv: "journal_inv db'" and look: "\<forall>a. ledger_select (ct_ledger (jd_prod db')) a
      = (if a = cq_command_id q then Some (settled_row answer t row) else ledger_select (ct_ledger (jd_prod db)) a)"
    unfolding settled_row_def target Let_def prod.case by blast
  from finish_single_target [OF target this(1) [folded assms(9)], of c]
  have "run_handler c reg clocks q db2
      = (case answer of
           Inl (OtherException x) \<Rightarrow> (Inl (HandlerRaised x), schedule_reconcile c (cq_command_id q), db')
         | _ \<Rightarrow> (Inr (row_to_receipt (settled_row answer t row)), [], db'))"
    by (simp add: run_handler_def assms(1,2))
  with inv look settled_not_retryable show ?thesis by blast
qed

section \<open>A concrete coordinator\<close>

definition demo_handler :: "command_request \<Rightarrow> nat command_db \<Rightarrow> (string handler_error + jobject) \<times> nat command_db" where
  "demo_handler q db =
     (Inr [(''done'', JBool True)], db\<lparr>jd_prod := (jd_prod db)\<lparr>ct_world := ct_world (jd_prod db) + 1\<rparr>\<rparr>)"

definition demo_registration :: "(nat, string) action_registration" where
  "demo_registration = \<lparr>ar_handler = SingleStep demo_handler, ar_requires_preflight = True\<rparr>"

definition demo_coordinator :: "(nat, string) coordinator" where
  "demo_coordinator =
     \<lparr>co_actions = [(''approve_proposal'', demo_registration)], co_sha = demo_sha, co_reconciler = True\<rparr>"

definition demo_clocks :: clock_readings where
  "demo_clocks = \<lparr>cl_received = Aware 10, cl_nonce = 10, cl_claim_journaled = 11, cl_transition = Aware 12,
     cl_transition_journaled = 13, cl_audit_written = True\<rparr>"

definition demo_cdb :: "nat command_db" where
  "demo_cdb = empty_journal \<lparr>ct_ledger = [], ct_audit = [], ct_next_audit = 1, ct_nonces = demo_nonces,
     ct_written = None, ct_world = 0\<rparr>"

definition demo_hash :: string where
  "demo_hash = the (canonical_request_hash demo_sha demo_command)"

definition demo_claimed_cdb :: "nat command_db" where
  "demo_claimed_cdb = snd (mutate_collect
     (claim_item demo_coordinator demo_registration demo_clocks demo_command demo_hash 10) demo_cdb)"

lemma demo_cdb_inv: "journal_inv demo_cdb" "ct_written (jd_prod demo_cdb) = None"
  by (simp_all add: demo_cdb_def)

lemma demo_hash_ok: "canonical_request_hash (co_sha demo_coordinator) demo_command = Some demo_hash"
  by code_simp

lemma demo_received: "cl_received demo_clocks = Aware 10" "cl_transition demo_clocks = Aware 12"
  by (simp_all add: demo_clocks_def)

lemma demo_claimed_inv: "journal_inv demo_claimed_cdb"
proof -
  obtain res db' where run: "mutate_collect
     (claim_item demo_coordinator demo_registration demo_clocks demo_command demo_hash 10) demo_cdb = (res, db')"
    by fastforce
  from demo_cdb_inv(1,2) run have "journal_inv db'"
    by (cases rule: mutate_collect_cases) (use demo_cdb_inv in simp_all)
  then show ?thesis by (simp add: demo_claimed_cdb_def run)
qed

lemma demo_registered: "map_of (co_actions demo_coordinator) (cq_action demo_command) = Some demo_registration"
  by (simp add: demo_coordinator_def demo_command_def)

lemma demo_claimed_facts:
  "ct_written (jd_prod demo_claimed_cdb) = None"
  "ledger_select (ct_ledger (jd_prod demo_claimed_cdb)) ''c1'' = Some (received_row demo_command demo_hash 10)"
  "ledger_select (ct_ledger (jd_prod demo_cdb)) ''c1'' = None"
  "distinct (map lr_command_id (ct_ledger (jd_prod demo_claimed_cdb)))"
  "cq_command_id demo_command = ''c1''"
  by code_simp+

text \<open>Two callers race: the other one claims the command in the gap.\<close>

theorem command_executes_once_witness:
  "\<exists>receipt db'. execute demo_coordinator demo_clocks (\<lambda>_. demo_claimed_cdb) demo_command demo_cdb
      = (Inr receipt, [], db') \<and> ct_world (jd_prod db') = 0"
proof -
  have w: "ct_world (jd_prod demo_claimed_cdb) = 0" by code_simp
  have reg: "map_of (co_actions demo_coordinator) (cq_action demo_command) \<noteq> None"
    by (simp add: demo_registered)
  have row: "ledger_select (ct_ledger (jd_prod demo_claimed_cdb)) (cq_command_id demo_command)
      = Some (received_row demo_command demo_hash 10)"
    and none: "ledger_select (ct_ledger (jd_prod demo_cdb)) (cq_command_id demo_command) = None
        \<or> demo_claimed_cdb = demo_cdb"
    using demo_claimed_facts by simp_all
  from command_executes_once [where gap = "\<lambda>_. demo_claimed_cdb" and db = demo_cdb,
      OF demo_claimed_inv demo_claimed_facts(1) row none demo_hash_ok demo_received(1) reg]
  show ?thesis using w by metis
qed

theorem command_claimed_before_handler_witness:
  "\<exists>db2. execute demo_coordinator demo_clocks (\<lambda>d. d) demo_command demo_cdb
      = run_handler demo_coordinator demo_registration demo_clocks demo_command db2
    \<and> ct_ledger (jd_prod db2) = [received_row demo_command demo_hash 10]"
proof -
  have none: "ledger_select (ct_ledger (jd_prod demo_cdb)) (cq_command_id demo_command) = None"
    using demo_claimed_facts by simp
  have ev: "select_journal_row demo_cdb (command_event_id (cq_command_id demo_command) Received) = None"
    by code_simp
  have empty: "ct_ledger (jd_prod demo_cdb) = []" by (simp add: demo_cdb_def)
  have "fst (consume_in_tx (co_sha demo_coordinator) (cl_nonce demo_clocks) (cq_preflight_nonce demo_command)
      demo_command (ct_nonces (jd_prod demo_cdb)))" by code_simp
  with command_claimed_before_handler [where gap = "\<lambda>d. d" and db = demo_cdb, OF demo_cdb_inv none none ev
      demo_hash_ok demo_received(1) demo_registered]
  show ?thesis unfolding empty by (fastforce simp: demo_clocks_def)
qed

lemma command_outcome_recorded_example:
  "\<exists>db'. fst (run_handler demo_coordinator demo_registration demo_clocks demo_command demo_claimed_cdb)
      = Inr (row_to_receipt (settled_row (Inr [(''done'', JBool True)] :: string handler_error + jobject) 12
          (received_row demo_command demo_hash 10)))
    \<and> snd (snd (run_handler demo_coordinator demo_registration demo_clocks demo_command demo_claimed_cdb)) = db'
    \<and> journal_inv db'"
proof -
  let ?db = "snd (demo_handler demo_command demo_claimed_cdb)"
  have h: "ar_handler demo_registration = SingleStep demo_handler" by (simp add: demo_registration_def)
  have a: "demo_handler demo_command demo_claimed_cdb = (Inr [(''done'', JBool True)], ?db)"
    by (simp add: demo_handler_def)
  have inv: "journal_inv ?db" using demo_claimed_inv by (simp add: demo_handler_def)
  have idle: "ct_written (jd_prod ?db) = None"
    and dist: "distinct (map lr_command_id (ct_ledger (jd_prod ?db)))"
    and row: "ledger_select (ct_ledger (jd_prod ?db)) (cq_command_id demo_command)
      = Some (received_row demo_command demo_hash 10)"
    using demo_claimed_facts by (simp_all add: demo_handler_def)
  have st: "lr_state (received_row demo_command demo_hash 10) = Received" by (simp add: received_row_def)
  have "list_all (\<lambda>s. select_journal_row ?db (command_event_id (cq_command_id demo_command) s) = None)
      [Validated, Submitting, Submitted, Rejected, OutcomeUnknown, Resolved]" by code_simp
  then have ev: "\<forall>s. s \<noteq> Received \<longrightarrow> select_journal_row ?db (command_event_id (cq_command_id demo_command) s) = None"
    by (intro allI) (case_tac s; simp)
  from command_outcome_recorded [where c = demo_coordinator and clocks = demo_clocks,
      OF h a inv idle dist row st ev demo_received(2)]
  show ?thesis by auto
qed

end
