(* ===== verification/Risk_Producer.thy ===== *)
theory Risk_Producer
  imports Domain_Journal
begin

text \<open>
  \<open>RiskProducer\<close> and \<open>ReconciliationProducer\<close> of \<^verbatim>\<open>src/trader/trading/risk_producer.py\<close>: the risk
  state table with its replaceable rows (policy, projection) and its write-once rows (the risk
  decision of a command), the debounce timer of the projection, and the table of reconciliation
  runs. Every write is journaled in the transaction that makes it.

  The tables live in a database shared with other components: the operations take a slot.
\<close>

section \<open>State\<close>

datatype risk_kind = RiskPolicy | RiskProjection | RiskDecision

definition risk_kind_str :: "risk_kind \<Rightarrow> string" where
  "risk_kind_str k = (case k of RiskPolicy \<Rightarrow> ''policy'' | RiskProjection \<Rightarrow> ''projection''
     | RiskDecision \<Rightarrow> ''decision'')"

text \<open>\<open>rs_payload\<close> is the JSON column, written with sorted keys.\<close>

record risk_row =
  rs_risk_id :: string
  rs_kind :: risk_kind
  rs_account_id :: string
  rs_payload :: json
  rs_revision :: int
  rs_source_timestamp :: pydatetime
  rs_updated_at :: pydatetime

record reconciliation_run =
  rn_run_id :: string
  rn_trigger :: string
  rn_source_cursor :: "int option"
  rn_discrepancies :: json
  rn_resolutions :: json
  rn_started_at :: pydatetime
  rn_completed_at :: pydatetime
  rn_revision :: int

datatype risk_error =
    RiskDecisionImmutable string
  | RiskMutation mutation_error
  | TriggerConstraint

text \<open>The readings of one publication: the producer's clock, the journal's clock, a fresh uuid.\<close>

record publish_run =
  pb_clock :: pydatetime
  pb_journaled :: instant
  pb_uuid :: string

text \<open>
  The debounce timer: whether one is pending, and the delays of the timers started so far. The
  constructor refuses a debounce of zero or less and one above the double nearest to 0.1.
\<close>

record projection_timer =
  pj_debounce :: pyfloat
  pj_pending :: bool
  pj_started :: "pyfloat list"

definition tenth :: pyfloat where
  "tenth = Fin (3602879701896397 / 36028797018963968)"

definition risk_producer_init :: "pyfloat \<Rightarrow> projection_timer option" where
  "risk_producer_init debounce_seconds =
     (if flt_le debounce_seconds (Fin 0) \<or> flt_less tenth debounce_seconds then None
      else Some \<lparr>pj_debounce = debounce_seconds, pj_pending = False, pj_started = []\<rparr>)"

section \<open>Operations\<close>

definition risk_get_in_tx :: "risk_row list \<Rightarrow> string \<Rightarrow> json option" where
  "risk_get_in_tx rows risk_id = map_option rs_payload (fetchone (filter (\<lambda>r. rs_risk_id r = risk_id) rows))"

definition risk_mutation ::
    "string \<Rightarrow> pydatetime \<Rightarrow> string \<Rightarrow> risk_kind \<Rightarrow> jobject \<Rightarrow> string option \<Rightarrow> domain_mutation" where
  "risk_mutation account_id now risk_id kind payload correlation_id =
     \<lparr>dm_event_type = ''risk.updated'', dm_entity_type = ''risk'', dm_entity_id = risk_id,
      dm_operation = Upsert, dm_account_id = Some account_id, dm_source = ''trader_service'',
      dm_source_timestamp = now, dm_correlation_id = correlation_id,
      dm_payload = Some (jmerge [(''kind'', JStr (risk_kind_str kind)), (''risk_id'', JStr risk_id)] payload)\<rparr>"

definition replace_risk_row :: "risk_row \<Rightarrow> risk_row list \<Rightarrow> risk_row list" where
  "replace_risk_row row rows = filter (\<lambda>r. rs_risk_id r \<noteq> rs_risk_id row) rows @ [row]"

text \<open>\<open>DomainMutation\<close> checks its fields before \<open>append\<close> is called.\<close>

definition risk_append_write ::
    "('p, risk_row list) slot \<Rightarrow> string \<Rightarrow> publish_run \<Rightarrow> string \<Rightarrow> risk_kind \<Rightarrow> jobject \<Rightarrow> string option
     \<Rightarrow> 'p journal_db \<Rightarrow> (risk_error journal_error + domain_event option) \<times> 'p journal_db" where
  "risk_append_write sl account_id run risk_id kind payload correlation_id db =
     (case domain_mutation_post_init (risk_mutation account_id (pb_clock run) risk_id kind payload correlation_id) of
        Inl e \<Rightarrow> (Inl (Raised (RiskMutation e)), db)
      | Inr m \<Rightarrow>
         (case journal_append (pb_journaled run) (pb_uuid run) m
                 (\<lambda>p revision. Inr (sl_put sl (replace_risk_row
                    \<lparr>rs_risk_id = risk_id, rs_kind = kind, rs_account_id = account_id,
                     rs_payload = canon (JObj payload), rs_revision = revision,
                     rs_source_timestamp = pb_clock run, rs_updated_at = pb_clock run\<rparr> (sl_get sl p)) p))
                 None db of
            (Inl e, db') \<Rightarrow> (Inl e, db')
          | (Inr ev, db') \<Rightarrow> (Inr (Some ev), db')))"

definition publish_replaceable_work ::
    "('p, risk_row list) slot \<Rightarrow> string \<Rightarrow> publish_run \<Rightarrow> string \<Rightarrow> risk_kind \<Rightarrow> jobject \<Rightarrow> string option
     \<Rightarrow> 'p journal_db \<Rightarrow> (risk_error journal_error + domain_event option) \<times> 'p journal_db" where
  "publish_replaceable_work sl account_id run risk_id kind payload correlation_id db =
     (case risk_get_in_tx (sl_get sl (jd_prod db)) risk_id of
        Some current \<Rightarrow>
          if py_equal current (JObj payload) then (Inr None, db)
          else risk_append_write sl account_id run risk_id kind payload correlation_id db
      | None \<Rightarrow> risk_append_write sl account_id run risk_id kind payload correlation_id db)"

definition publish_replaceable ::
    "('p, risk_row list) slot \<Rightarrow> string \<Rightarrow> publish_run \<Rightarrow> string \<Rightarrow> risk_kind \<Rightarrow> jobject \<Rightarrow> string option
     \<Rightarrow> 'p journal_db \<Rightarrow> (risk_error journal_error + domain_event option) \<times> 'p journal_db" where
  "publish_replaceable sl account_id run risk_id kind payload correlation_id =
     mutate_batch_work (publish_replaceable_work sl account_id run risk_id kind payload correlation_id)"

definition publish_policy ::
    "('p, risk_row list) slot \<Rightarrow> string \<Rightarrow> publish_run \<Rightarrow> string \<Rightarrow> jobject
     \<Rightarrow> 'p journal_db \<Rightarrow> (risk_error journal_error + domain_event option) \<times> 'p journal_db" where
  "publish_policy sl account_id run policy_id payload =
     publish_replaceable sl account_id run (risk_policy_entity_id policy_id) RiskPolicy payload None"

definition publish_decision_work ::
    "('p, risk_row list) slot \<Rightarrow> string \<Rightarrow> publish_run \<Rightarrow> string \<Rightarrow> jobject \<Rightarrow> string option
     \<Rightarrow> 'p journal_db \<Rightarrow> (risk_error journal_error + domain_event option) \<times> 'p journal_db" where
  "publish_decision_work sl account_id run command_id payload correlation_id db =
     (case risk_get_in_tx (sl_get sl (jd_prod db)) (risk_decision_entity_id command_id) of
        Some current \<Rightarrow>
          if py_equal current (JObj payload) then (Inr None, db)
          else (Inl (Raised (RiskDecisionImmutable command_id)), db)
      | None \<Rightarrow>
          risk_append_write sl account_id run (risk_decision_entity_id command_id) RiskDecision payload
            (Some (case correlation_id of None \<Rightarrow> command_id
                   | Some c \<Rightarrow> if c = [] then command_id else c)) db)"

definition publish_decision ::
    "('p, risk_row list) slot \<Rightarrow> string \<Rightarrow> publish_run \<Rightarrow> string \<Rightarrow> jobject \<Rightarrow> string option
     \<Rightarrow> 'p journal_db \<Rightarrow> (risk_error journal_error + domain_event option) \<times> 'p journal_db" where
  "publish_decision sl account_id run command_id payload correlation_id =
     mutate_batch_work (publish_decision_work sl account_id run command_id payload correlation_id)"

definition mark_projection_dirty :: "projection_timer \<Rightarrow> projection_timer" where
  "mark_projection_dirty t =
     (if pj_pending t then t
      else t\<lparr>pj_pending := True, pj_started := pj_started t @ [pj_debounce t]\<rparr>)"

text \<open>\<open>compute\<close> is what \<open>compute_projection()\<close> returned, None when it raised.\<close>

definition flush_projection ::
    "('p, risk_row list) slot \<Rightarrow> string \<Rightarrow> publish_run \<Rightarrow> jobject option \<Rightarrow> projection_timer \<Rightarrow> 'p journal_db
     \<Rightarrow> (risk_error journal_error + domain_event option) \<times> projection_timer \<times> 'p journal_db" where
  "flush_projection sl account_id run compute t db =
     (let t' = t\<lparr>pj_pending := False\<rparr>
      in case compute of
           None \<Rightarrow> (Inr None, t', db)
         | Some payload \<Rightarrow>
             (let (res, db') = publish_replaceable sl account_id run (risk_projection_entity_id account_id)
                    RiskProjection payload None db
              in (res, t', db')))"

definition run_payload :: "reconciliation_run \<Rightarrow> jobject" where
  "run_payload r =
     [(''run_id'', JStr (rn_run_id r)), (''trigger'', JStr (rn_trigger r)),
      (''source_cursor'', jopt JInt (rn_source_cursor r)),
      (''discrepancies'', rn_discrepancies r), (''resolutions'', rn_resolutions r),
      (''started_at'', JTime (rn_started_at r)), (''completed_at'', JTime (rn_completed_at r))]"

text \<open>The argument \<open>r\<close> carries the call's arguments; the journal gives the revision.\<close>

definition publish_run_mutation :: "reconciliation_run \<Rightarrow> domain_mutation" where
  "publish_run_mutation r =
     \<lparr>dm_event_type = ''reconciliation.updated'', dm_entity_type = ''reconciliation'',
      dm_entity_id = reconciliation_run_entity_id (rn_run_id r), dm_operation = Upsert,
      dm_account_id = None, dm_source = ''trader_service'', dm_source_timestamp = rn_completed_at r,
      dm_correlation_id = None, dm_payload = Some (run_payload r)\<rparr>"

definition write_run ::
    "('p, reconciliation_run list) slot \<Rightarrow> reconciliation_run \<Rightarrow> 'p \<Rightarrow> int \<Rightarrow> risk_error + 'p" where
  "write_run sl r p revision =
     (if rn_trigger r \<notin> {''startup'', ''scheduled'', ''command'', ''operator''} then Inl TriggerConstraint
      else Inr (sl_put sl
        (filter (\<lambda>x. rn_run_id x \<noteq> rn_run_id r) (sl_get sl p)
         @ [r\<lparr>rn_discrepancies := canon (rn_discrepancies r), rn_resolutions := canon (rn_resolutions r),
              rn_revision := revision\<rparr>]) p))"

definition publish_reconciliation_run ::
    "('p, reconciliation_run list) slot \<Rightarrow> publish_run \<Rightarrow> reconciliation_run \<Rightarrow> 'p journal_db
     \<Rightarrow> (risk_error journal_error + domain_event) \<times> 'p journal_db" where
  "publish_reconciliation_run sl run r db =
     (case domain_mutation_post_init (publish_run_mutation r) of
        Inl e \<Rightarrow> (Inl (Raised (RiskMutation e)), db)
      | Inr m \<Rightarrow>
          mutate \<lparr>bi_received_ts = pb_journaled run, bi_uuid = pb_uuid run, bi_mutation = m,
                  bi_write = write_run sl r, bi_event_id = None\<rparr> db)"

section \<open>What a publication writes\<close>

text \<open>One write of the risk table, in the database the slot is a part of.\<close>

lemma risk_append_cases:
  assumes inv: "journal_inv db"
    and run: "risk_append_write sl account_id run risk_id kind payload corr db = (res, db')"
  obtains (failed) e where "res = Inl e" and "db' = db"
  | (replay) row where "res = Inr (Some (row_to_event row))" and "row \<in> set (jd_rows db)"
      and "db' = db\<lparr>jd_open_events := jd_open_events db @ [row_to_event row]\<rparr>"
  | (fresh) t m revision where "res = Inr (Some (row_to_event (fresh_row (pb_journaled run) (pb_uuid run) m db)))"
      and "pb_clock run = Aware t" and "m = risk_mutation account_id (Aware t) risk_id kind payload corr"
      and "db' = appended (pb_journaled run) (pb_uuid run) m
          (sl_put sl (replace_risk_row \<lparr>rs_risk_id = risk_id, rs_kind = kind, rs_account_id = account_id,
             rs_payload = canon (JObj payload), rs_revision = revision, rs_source_timestamp = pb_clock run,
             rs_updated_at = pb_clock run\<rparr> (sl_get sl (jd_prod db))) (jd_prod db)) db"
      and "select_journal_row db (pb_uuid run) = None"
proof (cases "domain_mutation_post_init (risk_mutation account_id (pb_clock run) risk_id kind payload corr)")
  case (Inl e)
  then show thesis using run failed by (auto simp: risk_append_write_def)
next
  case (Inr m)
  then obtain t where m: "m = risk_mutation account_id (Aware t) risk_id kind payload corr"
    and t: "pb_clock run = Aware t"
    by (auto simp: post_init_ok_iff risk_mutation_def)
  let ?w = "\<lambda>p revision. Inr (sl_put sl (replace_risk_row
      \<lparr>rs_risk_id = risk_id, rs_kind = kind, rs_account_id = account_id,
       rs_payload = canon (JObj payload), rs_revision = revision,
       rs_source_timestamp = pb_clock run, rs_updated_at = pb_clock run\<rparr> (sl_get sl p)) p) :: risk_error + 'a"
  obtain r mid where ap: "journal_append (pb_journaled run) (pb_uuid run) m ?w None db = (r, mid)" by fastforce
  have shape: "res = (case r of Inl e \<Rightarrow> Inl e | Inr ev \<Rightarrow> Inr (Some ev))" "db' = mid"
    using run Inr ap by (simp_all add: risk_append_write_def split: sum.splits)
  from inv ap show thesis
  proof (cases rule: journal_append_cases)
    case conflict
    then show thesis using shape failed by simp
  next
    case (raised e)
    then show thesis using shape failed by simp
  next
    case (replay row)
    then show thesis using shape that(2) by (auto dest: select_journal_row_Some)
  next
    case (fresh p)
    have p: "p = sl_put sl (replace_risk_row \<lparr>rs_risk_id = risk_id, rs_kind = kind,
        rs_account_id = account_id, rs_payload = canon (JObj payload),
        rs_revision = read_current_revision db (dm_entity_type m) (dm_entity_id m) + 1,
        rs_source_timestamp = pb_clock run, rs_updated_at = pb_clock run\<rparr> (sl_get sl (jd_prod db))) (jd_prod db)"
      using fresh(2) by simp
    show thesis
      by (rule that(3) [OF _ t m, of "read_current_revision db (dm_entity_type m) (dm_entity_id m) + 1"])
        (use fresh(1,3,4) shape p in simp_all)
  qed
qed

lemma risk_append_ok:
  assumes "journal_inv db" and "open_ok db"
    and "risk_append_write sl account_id run risk_id kind payload corr db = (Inr r, db')"
  shows "journal_inv db' \<and> open_ok db' \<and> journal_extends db db'"
  using assms(1,3)
proof (cases rule: risk_append_cases)
  case (replay row)
  then show ?thesis using assms(1,2) by (auto simp: open_ok_def journal_extends_def)
next
  case (fresh t m revision)
  then show ?thesis
    using assms(1,2) by (auto simp: open_ok_def journal_extends_def intro!: journal_inv_appended)
qed simp

lemma risk_append_next:
  assumes "journal_inv db" and "risk_append_write sl account_id run risk_id kind payload corr db = (res, db')"
  shows "jd_next_cursor db \<le> jd_next_cursor db'"
  using assms by (cases rule: risk_append_cases) simp_all

interpretation replaceable: journal_work "publish_replaceable_work sl account_id run risk_id kind payload corr"
  for sl account_id run risk_id kind payload corr
  by unfold_locales
    (auto simp: publish_replaceable_work_def split: option.splits if_splits
      dest: risk_append_next risk_append_ok)

interpretation decision: journal_work "publish_decision_work sl account_id run command_id payload corr"
  for sl account_id run command_id payload corr
  by unfold_locales
    (auto simp: publish_decision_work_def split: option.splits if_splits
      dest: risk_append_next risk_append_ok)

text \<open>Which rows of the risk table a publication may touch: those of its own id.\<close>

definition risk_rows_ok :: "risk_row list \<Rightarrow> bool" where
  "risk_rows_ok rows \<longleftrightarrow> distinct (map rs_risk_id rows)"

definition only_touches :: "string \<Rightarrow> risk_row list \<Rightarrow> risk_row list \<Rightarrow> bool" where
  "only_touches risk_id rows rows' \<longleftrightarrow>
     filter (\<lambda>r. rs_risk_id r \<noteq> risk_id) rows' = filter (\<lambda>r. rs_risk_id r \<noteq> risk_id) rows
     \<and> (risk_rows_ok rows \<longrightarrow> risk_rows_ok rows')"

lemma only_touches_refl [simp]: "only_touches risk_id rows rows"
  by (simp add: only_touches_def)

lemma only_touches_mem:
  assumes "only_touches risk_id rows rows'" and "rs_risk_id r \<noteq> risk_id" and "r \<in> set rows"
  shows "r \<in> set rows'"
proof -
  have "r \<in> set (filter (\<lambda>r. rs_risk_id r \<noteq> risk_id) rows)" using assms(2,3) by simp
  then have "r \<in> set (filter (\<lambda>r. rs_risk_id r \<noteq> risk_id) rows')" using assms(1) by (simp only: only_touches_def)
  then show ?thesis by simp
qed

lemma only_touches_ok: "only_touches risk_id rows rows' \<Longrightarrow> risk_rows_ok rows \<Longrightarrow> risk_rows_ok rows'"
  by (simp add: only_touches_def)

lemma replace_touches: "rs_risk_id row = risk_id \<Longrightarrow> only_touches risk_id rows (replace_risk_row row rows)"
  by (auto simp: only_touches_def replace_risk_row_def risk_rows_ok_def distinct_map
      intro: inj_on_subset)

text \<open>Any publication of any producer on the database, or a transaction that leaves the table alone.\<close>

inductive publish_step :: "('p, risk_row list) slot \<Rightarrow> 'p journal_db \<Rightarrow> 'p journal_db \<Rightarrow> bool"
  for sl where
  step_policy: "publish_policy sl account_id run policy_id payload db = (res, db') \<Longrightarrow> publish_step sl db db'"
| step_decision:
    "publish_decision sl account_id run command_id payload corr db = (res, db') \<Longrightarrow> publish_step sl db db'"
| step_flush:
    "flush_projection sl account_id run compute t db = (res, t', db') \<Longrightarrow> publish_step sl db db'"
| step_other:
    "sl_get sl (jd_prod db') = sl_get sl (jd_prod db) \<Longrightarrow> journal_inv db' \<Longrightarrow> publish_step sl db db'"

locale risk_slot = lawful_slot sl
  for sl :: "('p, risk_row list) slot"
begin

lemma append_touches:
  assumes "journal_inv db"
    and "risk_append_write sl account_id run risk_id kind payload corr db = (res, db')"
  shows "only_touches risk_id (sl_get sl (jd_prod db)) (sl_get sl (jd_prod db'))"
  using assms by (cases rule: risk_append_cases) (simp_all add: replace_touches)

lemma replaceable_touches:
  assumes "journal_inv db"
    and "publish_replaceable sl account_id run risk_id kind payload corr db = (res, db')"
  shows "journal_inv db' \<and> only_touches risk_id (sl_get sl (jd_prod db)) (sl_get sl (jd_prod db'))"
proof -
  note run = assms(2) [unfolded publish_replaceable_def]
  from run show ?thesis
  proof (cases rule: batch_work_prod)
    case (rolled_back e)
    then show ?thesis using replaceable.batch_work_inv [OF assms(1) run] by simp
  next
    case (committed r mid)
    have "only_touches risk_id (sl_get sl (jd_prod db)) (sl_get sl (jd_prod mid))"
      using committed(2) append_touches [of "db\<lparr>jd_open_events := []\<rparr>"] assms(1)
      by (auto simp: publish_replaceable_work_def split: option.splits if_splits)
    then show ?thesis using replaceable.batch_work_inv [OF assms(1) run] committed(3) by simp
  qed
qed

text \<open>The recorded decision of a command, as a publication of a decision sees it.\<close>

lemma decision_recorded:
  assumes inv: "journal_inv db" and ok: "risk_rows_ok (sl_get sl (jd_prod db))"
    and row: "row \<in> set (sl_get sl (jd_prod db))" "rs_risk_id row = risk_decision_entity_id command_id"
    and run: "publish_decision sl account_id run command_id payload corr db = (res, db')"
  shows "res = (if py_equal (rs_payload row) (JObj payload) then Inr None
      else Inl (Raised (RiskDecisionImmutable command_id)))
    \<and> db' = (if py_equal (rs_payload row) (JObj payload) then db\<lparr>jd_open_events := []\<rparr> else db)"
proof -
  have "risk_get_in_tx (sl_get sl (jd_prod db)) (risk_decision_entity_id command_id) = Some (rs_payload row)"
    using fetchone_key [OF ok [unfolded risk_rows_ok_def] row(1)] row(2) by (simp add: risk_get_in_tx_def)
  then show ?thesis
    using run by (auto simp: publish_decision_def mutate_batch_work_def publish_decision_work_def split: if_splits)
qed

lemma decision_touches:
  assumes "journal_inv db"
    and "publish_decision sl account_id run command_id payload corr db = (res, db')"
  shows "journal_inv db'
    \<and> only_touches (risk_decision_entity_id command_id) (sl_get sl (jd_prod db)) (sl_get sl (jd_prod db'))"
proof -
  note run = assms(2) [unfolded publish_decision_def]
  from run show ?thesis
  proof (cases rule: batch_work_prod)
    case (rolled_back e)
    then show ?thesis using decision.batch_work_inv [OF assms(1) run] by simp
  next
    case (committed r mid)
    have "only_touches (risk_decision_entity_id command_id) (sl_get sl (jd_prod db)) (sl_get sl (jd_prod mid))"
      using committed(2) append_touches [of "db\<lparr>jd_open_events := []\<rparr>"] assms(1)
      by (auto simp: publish_decision_work_def split: option.splits if_splits)
    then show ?thesis using decision.batch_work_inv [OF assms(1) run] committed(3) by simp
  qed
qed

lemma decision_keys_apart:
  "risk_decision_entity_id c \<noteq> risk_policy_entity_id a" "risk_decision_entity_id c \<noteq> risk_projection_entity_id a"
  "risk_decision_entity_id c = risk_decision_entity_id c' \<longleftrightarrow> c = c'"
  by (simp_all add: risk_decision_entity_id_def risk_policy_entity_id_def risk_projection_entity_id_def)

lemma touches_decision:
  assumes "only_touches risk_id rows rows'" and "\<And>c. risk_decision_entity_id c \<noteq> risk_id"
  shows "\<forall>row c. row \<in> set rows \<longrightarrow> rs_risk_id row = risk_decision_entity_id c \<longrightarrow> row \<in> set rows'"
  using assms by (metis only_touches_mem)

lemma step_keeps_decision:
  assumes step: "publish_step sl db db'"
    and inv: "journal_inv db" "risk_rows_ok (sl_get sl (jd_prod db))"
  shows "journal_inv db' \<and> risk_rows_ok (sl_get sl (jd_prod db'))
    \<and> (\<forall>row c. row \<in> set (sl_get sl (jd_prod db)) \<longrightarrow> rs_risk_id row = risk_decision_entity_id c
         \<longrightarrow> row \<in> set (sl_get sl (jd_prod db')))"
  using step
proof (cases rule: publish_step.cases)
  case (step_policy account_id run policy_id payload res)
  from replaceable_touches [OF inv(1) step_policy [unfolded publish_policy_def]] inv(2)
  show ?thesis using touches_decision decision_keys_apart only_touches_ok by metis
next
  case (step_decision account_id run command_id payload corr res)
  note t = decision_touches [OF inv(1) step_decision]
  have "row \<in> set (sl_get sl (jd_prod db'))"
    if "row \<in> set (sl_get sl (jd_prod db))" "rs_risk_id row = risk_decision_entity_id c" for row c
  proof (cases "c = command_id")
    case True
    then show ?thesis using decision_recorded [OF inv that(1) _ step_decision] that by (simp split: if_splits)
  next
    case False
    then show ?thesis using t that by (auto simp: decision_keys_apart intro: only_touches_mem)
  qed
  then show ?thesis using t inv(2) by (auto simp: only_touches_def)
next
  case (step_flush account_id run compute t res t')
  show ?thesis
  proof (cases compute)
    case None
    then show ?thesis using step_flush inv by (simp add: flush_projection_def)
  next
    case (Some payload)
    then have "publish_replaceable sl account_id run (risk_projection_entity_id account_id) RiskProjection payload
        None db = (res, db')"
      using step_flush by (auto simp: flush_projection_def Let_def split: prod.splits)
    from replaceable_touches [OF inv(1) this] inv(2)
    show ?thesis using touches_decision decision_keys_apart only_touches_ok by metis
  qed
next
  case step_other
  then show ?thesis using inv(2) by simp
qed

end

text \<open>The risk table of any database that has one, as a state machine.\<close>

definition risk_inv :: "('p, risk_row list) slot \<Rightarrow> 'p journal_db \<Rightarrow> bool" where
  "risk_inv sl db \<longleftrightarrow> risk_slot sl \<and> journal_inv db \<and> risk_rows_ok (sl_get sl (jd_prod db))"

interpretation risk_table: state_machine "publish_step sl" "risk_inv sl" for sl :: "('p, risk_row list) slot"
  by unfold_locales (auto simp: risk_inv_def dest: risk_slot.step_keeps_decision)

text \<open>
  The risk decision of a command is written once. Whatever is published afterwards, by any
  producer and for any policy, projection or command, and whatever other transactions commit, the
  recorded row stays as it is; publishing the command's decision again returns without an event
  when the payload is equal (in Python's sense) and is refused otherwise, and in both cases no
  table and no journal row changes.
\<close>

lemma risk_decision_write_once:
  assumes "risk_inv sl db" and "row \<in> set (sl_get sl (jd_prod db))"
    and "rs_risk_id row = risk_decision_entity_id command_id"
    and "(publish_step sl)\<^sup>*\<^sup>* db db1"
    and "publish_decision sl account_id run command_id payload corr db1 = (res, db2)"
  shows "row \<in> set (sl_get sl (jd_prod db2)) \<and> jd_prod db2 = jd_prod db1 \<and> jd_rows db2 = jd_rows db1
    \<and> jd_entities db2 = jd_entities db1
    \<and> res = (if py_equal (rs_payload row) (JObj payload) then Inr None
             else Inl (Raised (RiskDecisionImmutable command_id)))"
proof -
  have inv1: "risk_inv sl db1" by (rule risk_table.run_inv [OF assms(4,1)])
  have row1: "row \<in> set (sl_get sl (jd_prod db1))"
    by (rule risk_table.run_stable [OF assms(4,1), where P = "\<lambda>d. row \<in> set (sl_get sl (jd_prod d))"])
      (use assms(2,3) in \<open>auto simp: risk_inv_def dest: risk_slot.step_keeps_decision\<close>)
  from inv1 have "risk_slot sl" and inv: "journal_inv db1" "risk_rows_ok (sl_get sl (jd_prod db1))"
    by (simp_all add: risk_inv_def)
  from risk_slot.decision_recorded [OF this row1 assms(3,5)] row1 show ?thesis by simp
qed

text \<open>Marking the projection dirty again before the timer fires starts no second timer.\<close>

lemma mark_dirty_debounced: "mark_projection_dirty (mark_projection_dirty t) = mark_projection_dirty t"
  by (simp add: mark_projection_dirty_def)

section \<open>The two tables of the module\<close>

record risk_tables =
  rt_risk_state :: "risk_row list"
  rt_reconciliation_runs :: "reconciliation_run list"

definition risk_state_slot :: "(risk_tables, risk_row list) slot" where
  "risk_state_slot = \<lparr>sl_get = rt_risk_state, sl_put = (\<lambda>t p. p\<lparr>rt_risk_state := t\<rparr>)\<rparr>"

definition runs_slot :: "(risk_tables, reconciliation_run list) slot" where
  "runs_slot = \<lparr>sl_get = rt_reconciliation_runs, sl_put = (\<lambda>t p. p\<lparr>rt_reconciliation_runs := t\<rparr>)\<rparr>"

interpretation risk_state: risk_slot risk_state_slot
  by unfold_locales (simp_all add: risk_state_slot_def)

interpretation runs: lawful_slot runs_slot
  by unfold_locales (simp_all add: runs_slot_def)

definition demo_publish :: publish_run where
  "demo_publish = \<lparr>pb_clock = Aware 5, pb_journaled = 6, pb_uuid = ''u1''\<rparr>"

definition demo_decision :: jobject where
  "demo_decision = [(''decision'', JStr ''reject''), (''proposal_id'', JInt 7)]"

definition demo_risk_db :: "risk_tables journal_db" where
  "demo_risk_db = snd (publish_decision risk_state_slot ''DU1'' demo_publish ''c1'' demo_decision None
     (empty_journal \<lparr>rt_risk_state = [], rt_reconciliation_runs = []\<rparr>))"

definition demo_policy_db :: "risk_tables journal_db" where
  "demo_policy_db = snd (publish_policy risk_state_slot ''DU1'' (demo_publish\<lparr>pb_uuid := ''u2''\<rparr>) ''c1''
     [(''max_orders'', JInt 3)] demo_risk_db)"

lemma demo_risk_inv: "risk_inv risk_state_slot demo_risk_db"
proof -
  have "publish_step risk_state_slot (empty_journal \<lparr>rt_risk_state = [], rt_reconciliation_runs = []\<rparr>) demo_risk_db"
    unfolding demo_risk_db_def by (rule step_decision) (rule surjective_pairing)
  moreover have "risk_inv risk_state_slot (empty_journal \<lparr>rt_risk_state = [], rt_reconciliation_runs = []\<rparr>)"
    using risk_state.risk_slot_axioms by (simp add: risk_inv_def risk_state_slot_def risk_rows_ok_def)
  ultimately show ?thesis by (rule risk_table.step_keeps_inv)
qed

text \<open>The decision survives a policy of the same name, and a different decision is refused.\<close>

lemma risk_decision_write_once_example:
  "\<exists>row \<in> set (rt_risk_state (jd_prod demo_policy_db)). rs_payload row = canon (JObj demo_decision)
     \<and> fst (publish_decision risk_state_slot ''DU1'' (demo_publish\<lparr>pb_uuid := ''u3''\<rparr>) ''c1''
         [(''decision'', JStr ''approve''), (''proposal_id'', JInt 7)] None demo_policy_db)
       = Inl (Raised (RiskDecisionImmutable ''c1''))"
proof -
  let ?row = "hd (sl_get risk_state_slot (jd_prod demo_risk_db))"
  let ?payload = "[(''decision'', JStr ''approve''), (''proposal_id'', JInt 7)]"
  have row: "?row \<in> set (sl_get risk_state_slot (jd_prod demo_risk_db))"
    "rs_risk_id ?row = risk_decision_entity_id ''c1''"
    "rs_payload ?row = canon (JObj demo_decision)" "\<not> py_equal (rs_payload ?row) (JObj ?payload)"
    by code_simp+
  have step: "(publish_step risk_state_slot)\<^sup>*\<^sup>* demo_risk_db demo_policy_db"
    unfolding demo_policy_db_def by (intro r_into_rtranclp step_policy) (rule surjective_pairing)
  obtain res db2 where run: "publish_decision risk_state_slot ''DU1'' (demo_publish\<lparr>pb_uuid := ''u3''\<rparr>) ''c1''
      ?payload None demo_policy_db = (res, db2)" by fastforce
  note once = risk_decision_write_once [OF demo_risk_inv row(1,2) step run]
  have "?row \<in> set (rt_risk_state (jd_prod demo_policy_db))"
    using once by (auto simp: risk_state_slot_def)
  moreover have "res = Inl (Raised (RiskDecisionImmutable ''c1''))" using once row(4) by simp
  ultimately show ?thesis using run row(3) by (intro bexI [of _ ?row]) simp_all
qed

end
