(* ===== verification/Order_Correlation.thy ===== *)
theory Order_Correlation
  imports Domain_Events
begin

text \<open>
  \<^verbatim>\<open>src/trader/trading/order_correlation.py\<close>: the order references sent to the broker, the ids of
  liquidation child orders and how they are recognised again, the leg an order is filed under, and
  \<open>OrderCorrelator\<close>, which finds the one entity id of an observed order through its aliases (the
  alias table of \<^verbatim>\<open>src/trader/data/broker_state.py\<close>).
\<close>

section \<open>Order references\<close>

definition order_ref_prefix :: string where
  "order_ref_prefix = ''mmr:''"

definition encode_order_ref :: "string \<Rightarrow> string" where
  "encode_order_ref order_group_id = order_ref_prefix @ order_group_id"

definition decode_order_ref :: "string option \<Rightarrow> string option" where
  "decode_order_ref order_ref =
     (case order_ref of
        None \<Rightarrow> None
      | Some ref \<Rightarrow>
          if ref \<noteq> [] \<and> starts_with order_ref_prefix ref
          then (let rest = drop (length order_ref_prefix) ref in if rest = [] then None else Some rest)
          else None)"

section \<open>Liquidation child orders\<close>

definition liquidation_child_kinds :: "string list" where
  "liquidation_child_kinds = [''cancel'', ''reduce'', ''reprotect-stop'', ''reprotect-target'']"

text \<open>\<open>str.isdigit\<close>: not empty, and every character a digit; the superscripts count.\<close>

definition py_isdigit :: "string \<Rightarrow> bool" where
  "py_isdigit s \<longleftrightarrow> s \<noteq> [] \<and> list_all (\<lambda>c. is_digit c \<or> (of_char c :: nat) \<in> {178, 179, 185}) s"

definition strip_prefix :: "string \<Rightarrow> string \<Rightarrow> string option" where
  "strip_prefix p s = (if starts_with p s then Some (drop (length p) s) else None)"

text \<open>\<open>$\<close> matches at the end of the string and before a final newline.\<close>

definition at_end :: "string \<Rightarrow> bool" where
  "at_end s \<longleftrightarrow> s = [] \<or> s = [CHR 0x0A]"

text \<open>\<open>(\d+)-(\d+)$\<close> and \<open>(\d+)$\<close> at the start of a string.\<close>

definition match_two_numbers :: "string \<Rightarrow> bool" where
  "match_two_numbers s \<longleftrightarrow>
     takeWhile is_digit s \<noteq> [] \<and>
     (case dropWhile is_digit s of
        [] \<Rightarrow> False
      | c # r \<Rightarrow> c = CHR ''-'' \<and> takeWhile is_digit r \<noteq> [] \<and> at_end (dropWhile is_digit r))"

definition match_number :: "string \<Rightarrow> bool" where
  "match_number s \<longleftrightarrow> takeWhile is_digit s \<noteq> [] \<and> at_end (dropWhile is_digit s)"

text \<open>\<open>_LIQUIDATION_CHILD\<close> and \<open>_LEGACY_REDUCE\<close> at one position, and \<open>search\<close> over all of them.\<close>

definition match_kind :: "string \<Rightarrow> string \<Rightarrow> bool" where
  "match_kind s kind \<longleftrightarrow>
     (case strip_prefix (CHR ''-'' # kind @ ''-'') s of None \<Rightarrow> False | Some rest \<Rightarrow> match_two_numbers rest)"

definition match_liquidation_child :: "string \<Rightarrow> string option" where
  "match_liquidation_child s = List.find (match_kind s) liquidation_child_kinds"

fun search_liquidation_child :: "string \<Rightarrow> (string \<times> string) option" where
  "search_liquidation_child [] = None"
| "search_liquidation_child (c # s) =
     (case match_liquidation_child (c # s) of
        Some kind \<Rightarrow> Some ([], kind)
      | None \<Rightarrow> map_option (\<lambda>(before, kind). (c # before, kind)) (search_liquidation_child s))"

definition match_legacy_reduce :: "string \<Rightarrow> bool" where
  "match_legacy_reduce s \<longleftrightarrow>
     (case strip_prefix ''-liquidation-reduce-'' s of None \<Rightarrow> False | Some rest \<Rightarrow> match_number rest)"

fun search_legacy_reduce :: "string \<Rightarrow> bool" where
  "search_legacy_reduce [] \<longleftrightarrow> False"
| "search_legacy_reduce (c # s) \<longleftrightarrow> match_legacy_reduce (c # s) \<or> search_legacy_reduce s"

definition legacy_reduce_prefix :: "string \<Rightarrow> string" where
  "legacy_reduce_prefix run_id = run_id @ ''-liquidation-reduce-''"

definition matches_legacy_reduce :: "string option \<Rightarrow> string \<Rightarrow> bool" where
  "matches_legacy_reduce order_group_id prefix =
     (let g = opt_or [] order_group_id in starts_with prefix g \<and> py_isdigit (drop (length prefix) g))"

datatype child_id_error = UnknownChildKind | BadRootId | AttemptBelowOne

definition liquidation_child_id :: "string \<Rightarrow> string \<Rightarrow> int \<Rightarrow> int \<Rightarrow> child_id_error + string" where
  "liquidation_child_id root_id kind conid attempt =
     (if kind \<notin> set liquidation_child_kinds then Inl UnknownChildKind
      else if root_id = [] \<or> CHR '':'' \<in> set root_id then Inl BadRootId
      else if attempt < 1 then Inl AttemptBelowOne
      else Inr (root_id @ CHR ''-'' # kind @ CHR ''-'' # string_of_int conid @ CHR ''-'' # string_of_int attempt))"

definition reprotect_oca_group :: "string \<Rightarrow> int \<Rightarrow> int \<Rightarrow> string" where
  "reprotect_oca_group root_id conid attempt =
     root_id @ ''-reprotect-'' @ string_of_int conid @ CHR ''-'' # string_of_int attempt"

definition liquidation_child_root :: "string option \<Rightarrow> string option" where
  "liquidation_child_root order_group_id =
     (case search_liquidation_child (opt_or [] order_group_id) of
        None \<Rightarrow> None
      | Some (before, _) \<Rightarrow> if before = [] then None else Some before)"

definition liquidation_child_kind :: "string option \<Rightarrow> string option" where
  "liquidation_child_kind order_group_id =
     (let g = opt_or [] order_group_id
      in case search_liquidation_child g of
           Some (_, kind) \<Rightarrow> Some kind
         | None \<Rightarrow> if search_legacy_reduce g then Some ''reduce'' else None)"

section \<open>Legs and prices\<close>

definition stop_types :: "string list" where
  "stop_types = [''STP'', ''STP LMT'', ''TRAIL'', ''TRAIL LIMIT'']"

definition classify_leg :: "string \<Rightarrow> int \<Rightarrow> int \<Rightarrow> string option \<Rightarrow> string" where
  "classify_leg order_type parent_id client_order_id order_group_id =
     (let kind = liquidation_child_kind order_group_id
      in if kind = Some ''reprotect-stop'' then ''stop''
         else if kind = Some ''reprotect-target'' then ''take_profit''
         else if kind = Some ''reduce'' then ''exit''
         else if parent_id = 0 then ''entry''
         else if order_type \<in> set stop_types then ''stop''
         else if order_type = ''LMT'' then ''take_profit''
         else ''child-'' @ string_of_int client_order_id)"

text \<open>The largest finite double, which the broker's library uses for "unset".\<close>

definition unset_double :: pyfloat where
  "unset_double = Fin ((2 ^ 53 - 1) * 2 ^ 971)"

definition price_or_none :: "pyfloat option \<Rightarrow> pyfloat option" where
  "price_or_none value =
     (case value of
        None \<Rightarrow> None
      | Some numeric \<Rightarrow>
          if flt_eq numeric (Fin 0) \<or> flt_le unset_double numeric then None else Some numeric)"

section \<open>Observations\<close>

record order_observation =
  ob_account_id :: string
  ob_client_order_id :: int
  ob_perm_id :: int
  ob_parent_id :: int
  ob_order_ref :: "string option"
  ob_conid :: int
  ob_symbol :: string
  ob_action :: string
  ob_order_type :: string
  ob_total_quantity :: pyfloat
  ob_limit_price :: "pyfloat option"
  ob_stop_price :: "pyfloat option"
  ob_tif :: "string option"
  ob_status :: string
  ob_filled_quantity :: pyfloat
  ob_avg_fill_price :: "pyfloat option"
  ob_source_timestamp :: pydatetime
  ob_oca_group :: "string option"
  ob_oca_type :: "int option"
  ob_oca_reported :: bool

text \<open>
  The attributes of the broker library's trade, order, status and contract objects that are read;
  None is Python's \<open>None\<close>. The two OCA attributes may be missing altogether (outer None).
\<close>

record ib_trade =
  ib_account :: "string option"
  ib_orderId :: "int option"
  ib_permId :: "int option"
  ib_parentId :: "int option"
  ib_orderRef :: "string option"
  ib_conId :: int
  ib_symbol :: "string option"
  ib_action :: "string option"
  ib_orderType :: "string option"
  ib_totalQuantity :: "pyfloat option"
  ib_lmtPrice :: "pyfloat option"
  ib_auxPrice :: "pyfloat option"
  ib_tif :: "string option"
  ib_status :: "string option"
  ib_filled :: "pyfloat option"
  ib_avgFillPrice :: "pyfloat option"
  ib_ocaGroup :: "string option option"
  ib_ocaType :: "int option option"

definition none_if_empty :: "string option \<Rightarrow> string option" where
  "none_if_empty s = (case s of None \<Rightarrow> None | Some v \<Rightarrow> if v = [] then None else Some v)"

definition normalize_open_order :: "ib_trade \<Rightarrow> pydatetime \<Rightarrow> order_observation" where
  "normalize_open_order trade now =
     \<lparr>ob_account_id = opt_or [] (ib_account trade),
      ob_client_order_id = opt_or 0 (ib_orderId trade),
      ob_perm_id = opt_or 0 (ib_permId trade),
      ob_parent_id = opt_or 0 (ib_parentId trade),
      ob_order_ref = none_if_empty (ib_orderRef trade),
      ob_conid = ib_conId trade,
      ob_symbol = opt_or [] (ib_symbol trade),
      ob_action = opt_or [] (ib_action trade),
      ob_order_type = opt_or [] (ib_orderType trade),
      ob_total_quantity = opt_or (Fin 0) (ib_totalQuantity trade),
      ob_limit_price = price_or_none (ib_lmtPrice trade),
      ob_stop_price = price_or_none (ib_auxPrice trade),
      ob_tif = none_if_empty (ib_tif trade),
      ob_status = opt_or [] (ib_status trade),
      ob_filled_quantity = opt_or (Fin 0) (ib_filled trade),
      ob_avg_fill_price = price_or_none (ib_avgFillPrice trade),
      ob_source_timestamp = now,
      ob_oca_group = none_if_empty (opt_or None (ib_ocaGroup trade)),
      ob_oca_type = (let n = opt_or 0 (opt_or None (ib_ocaType trade)) in if n = 0 then None else Some n),
      ob_oca_reported = (ib_ocaGroup trade \<noteq> None \<and> ib_ocaType trade \<noteq> None)\<rparr>"

section \<open>Aliases and the correlator\<close>

datatype alias_type = ClientOrderId | PermId | ParentId | OrderRef

record alias_row =
  al_type :: alias_type
  al_value :: string
  al_account_id :: string
  al_session_epoch :: string
  al_order_entity_id :: string
  al_bound_at :: pydatetime

definition alias_key :: "alias_row \<Rightarrow> alias_type \<times> string \<times> string \<times> string" where
  "alias_key r = (al_type r, al_value r, al_account_id r, al_session_epoch r)"

text \<open>\<open>INSERT OR IGNORE\<close> under the unique index of the key.\<close>

definition bind_alias_in_tx ::
    "alias_type \<Rightarrow> string \<Rightarrow> string \<Rightarrow> string \<Rightarrow> string \<Rightarrow> pydatetime \<Rightarrow> alias_row list \<Rightarrow> alias_row list" where
  "bind_alias_in_tx ty v account_id session_epoch order_entity_id bound_at rows =
     (if \<exists>r \<in> set rows. alias_key r = (ty, v, account_id, session_epoch) then rows
      else rows @ [\<lparr>al_type = ty, al_value = v, al_account_id = account_id, al_session_epoch = session_epoch,
                    al_order_entity_id = order_entity_id, al_bound_at = bound_at\<rparr>])"

definition find_order_by_alias_in_tx ::
    "alias_row list \<Rightarrow> alias_type \<Rightarrow> string \<Rightarrow> string \<Rightarrow> string \<Rightarrow> string option" where
  "find_order_by_alias_in_tx rows ty v account_id session_epoch =
     map_option al_order_entity_id
       (fetchone (filter (\<lambda>r. alias_key r = (ty, v, account_id, session_epoch)) rows))"

text \<open>\<open>minted\<close> is the id \<open>external_order_entity_id()\<close> would mint, \<open>ext:\<close> and a fresh uuid.\<close>

definition resolve_in_tx :: "string \<Rightarrow> string \<Rightarrow> alias_row list \<Rightarrow> order_observation \<Rightarrow> string" where
  "resolve_in_tx session_epoch minted rows obs =
     (let by_perm = (if ob_perm_id obs = 0 then None
            else none_if_empty (find_order_by_alias_in_tx rows PermId (string_of_int (ob_perm_id obs)) (ob_account_id obs) []));
          by_client = (if ob_client_order_id obs = 0 then None
            else none_if_empty (find_order_by_alias_in_tx rows ClientOrderId (string_of_int (ob_client_order_id obs))
                   (ob_account_id obs) session_epoch))
      in case by_perm of
           Some entity \<Rightarrow> entity
         | None \<Rightarrow>
            (case by_client of
               Some entity \<Rightarrow> entity
             | None \<Rightarrow>
                (case decode_order_ref (ob_order_ref obs) of
                   Some group_id \<Rightarrow>
                     order_group_leg_entity_id group_id
                       (classify_leg (ob_order_type obs) (ob_parent_id obs) (ob_client_order_id obs) (Some group_id))
                 | None \<Rightarrow> minted)))"

definition bind_aliases_in_tx :: "string \<Rightarrow> string \<Rightarrow> order_observation \<Rightarrow> alias_row list \<Rightarrow> alias_row list" where
  "bind_aliases_in_tx session_epoch entity_id obs rows =
     (let bind = (\<lambda>wanted ty v epoch rows.
            if wanted then bind_alias_in_tx ty v (ob_account_id obs) epoch entity_id (ob_source_timestamp obs) rows
            else rows)
      in bind (opt_or [] (ob_order_ref obs) \<noteq> []) OrderRef (opt_or [] (ob_order_ref obs)) []
        (bind (ob_parent_id obs \<noteq> 0) ParentId (string_of_int (ob_parent_id obs)) session_epoch
          (bind (ob_client_order_id obs \<noteq> 0) ClientOrderId (string_of_int (ob_client_order_id obs)) session_epoch
            (bind (ob_perm_id obs \<noteq> 0) PermId (string_of_int (ob_perm_id obs)) [] rows))))"

section \<open>Recognising child orders\<close>

lemma starts_with_append [simp]: "starts_with p (p @ s)"
  by (simp add: starts_with_def)

lemma starts_with_iff: "starts_with p s \<longleftrightarrow> (\<exists>r. s = p @ r)"
  by (auto simp: starts_with_def) (metis append_take_drop_id)

lemma strip_prefix_Some: "strip_prefix p s = Some r \<longleftrightarrow> s = p @ r"
  by (auto simp: strip_prefix_def starts_with_iff)

lemma digit_char: "d < 10 \<Longrightarrow> is_digit (char_of (48 + d))" for d :: nat
  by (simp add: is_digit_def of_char_digit)

lemma string_of_nat_digits: "list_all is_digit (string_of_nat n)"
proof (induction n rule: string_of_nat.induct)
  case (1 n)
  then show ?case
    by (subst string_of_nat.simps) (auto simp: digit_char)
qed

lemma string_of_nat_nonempty [simp]: "string_of_nat n \<noteq> []"
  by (subst string_of_nat.simps) simp

lemma string_of_int_digits: "0 \<le> i \<Longrightarrow> list_all is_digit (string_of_int i) \<and> string_of_int i \<noteq> []"
  by (simp add: string_of_int_def string_of_nat_digits)

lemma takeWhile_digits:
  assumes "list_all is_digit d" and "s = [] \<or> \<not> is_digit (hd s)"
  shows "takeWhile is_digit (d @ s) = d" "dropWhile is_digit (d @ s) = s"
  using assms by (cases s; auto simp: list_all_iff takeWhile_append dropWhile_append takeWhile_eq_all_conv dropWhile_eq_Nil_conv)+

lemma digits_no_dash: "list_all is_digit d \<Longrightarrow> CHR ''-'' \<notin> set d"
  by (auto simp: list_all_iff is_digit_def)

text \<open>The shape of a match: two runs of digits at the end.\<close>

lemma match_two_numbers_iff:
  "match_two_numbers s \<longleftrightarrow> (\<exists>a b e. s = a @ CHR ''-'' # b @ e \<and> list_all is_digit a \<and> a \<noteq> []
     \<and> list_all is_digit b \<and> b \<noteq> [] \<and> at_end e)"
proof
  assume m: "match_two_numbers s"
  then obtain r where r: "dropWhile is_digit s = CHR ''-'' # r" "takeWhile is_digit r \<noteq> []"
      "at_end (dropWhile is_digit r)" "takeWhile is_digit s \<noteq> []"
    by (auto simp: match_two_numbers_def split: list.splits)
  have "s = takeWhile is_digit s @ CHR ''-'' # takeWhile is_digit r @ dropWhile is_digit r"
    using takeWhile_dropWhile_id [of is_digit s] r(1) by simp
  moreover have "list_all is_digit (takeWhile is_digit s)" "list_all is_digit (takeWhile is_digit r)"
    by (auto simp: list_all_iff dest: set_takeWhileD)
  ultimately show "\<exists>a b e. s = a @ CHR ''-'' # b @ e \<and> list_all is_digit a \<and> a \<noteq> []
     \<and> list_all is_digit b \<and> b \<noteq> [] \<and> at_end e" using r by blast
next
  assume "\<exists>a b e. s = a @ CHR ''-'' # b @ e \<and> list_all is_digit a \<and> a \<noteq> []
     \<and> list_all is_digit b \<and> b \<noteq> [] \<and> at_end e"
  then obtain a b e where s: "s = a @ CHR ''-'' # b @ e" and d: "list_all is_digit a" "a \<noteq> []"
      "list_all is_digit b" "b \<noteq> []" "at_end e" by blast
  have dash: "\<not> is_digit (CHR ''-'')" and e: "e = [] \<or> \<not> is_digit (hd e)"
    using d(5) by (auto simp: is_digit_def at_end_def)
  show "match_two_numbers s"
    unfolding match_two_numbers_def s
    using takeWhile_digits [OF d(1), of "CHR ''-'' # b @ e"] takeWhile_digits [OF d(3) e] d dash by simp
qed

lemma match_child_Some:
  "match_liquidation_child s = Some k \<Longrightarrow> k \<in> set liquidation_child_kinds \<and> match_kind s k"
  by (auto simp: match_liquidation_child_def find_Some_iff)

lemma match_kind_iff:
  "match_kind s k \<longleftrightarrow> (\<exists>a b e. s = CHR ''-'' # k @ CHR ''-'' # a @ CHR ''-'' # b @ e \<and> list_all is_digit a
     \<and> a \<noteq> [] \<and> list_all is_digit b \<and> b \<noteq> [] \<and> at_end e)"
proof -
  have "match_kind s k \<longleftrightarrow> (\<exists>r. s = CHR ''-'' # k @ CHR ''-'' # r \<and> match_two_numbers r)"
    by (auto simp: match_kind_def strip_prefix_def starts_with_iff)
  then show ?thesis unfolding match_two_numbers_iff by blast
qed

text \<open>The kinds end in different letters, so the kind before the numbers is determined.\<close>

lemma kind_suffix_unique:
  assumes "k \<in> set liquidation_child_kinds" and "k' \<in> set liquidation_child_kinds"
    and "before @ CHR ''-'' # k = before' @ CHR ''-'' # k'"
  shows "before = before' \<and> k = k'"
proof -
  have "last (before @ CHR ''-'' # k) = last k" "last (before' @ CHR ''-'' # k') = last k'"
    using assms(1,2) by (auto simp: liquidation_child_kinds_def)
  then have "last k = last k'" using assms(3) by simp
  then have "k = k'" using assms(1,2) by (auto simp: liquidation_child_kinds_def)
  then show ?thesis using assms(3) by simp
qed

lemma search_sound:
  "search_liquidation_child s = Some (before, k) \<Longrightarrow> \<exists>r. s = before @ r \<and> match_liquidation_child r = Some k"
proof (induction s arbitrary: before)
  case (Cons c s)
  then show ?case by (auto split: option.splits)
qed simp

lemma search_complete:
  "match_liquidation_child r \<noteq> None \<Longrightarrow> r \<noteq> [] \<Longrightarrow> search_liquidation_child (before @ r) \<noteq> None"
proof (induction before)
  case Nil
  then show ?case by (cases r) (auto split: option.splits)
next
  case (Cons c before)
  then show ?case by (auto split: option.splits)
qed

text \<open>Whatever stands before it, the id of a child is recognised at the right place.\<close>

lemma search_child_id:
  assumes k: "k \<in> set liquidation_child_kinds" and a: "list_all is_digit a" "a \<noteq> []"
    and b: "list_all is_digit b" "b \<noteq> []"
  shows "search_liquidation_child (before @ CHR ''-'' # k @ CHR ''-'' # a @ CHR ''-'' # b) = Some (before, k)"
proof -
  let ?r = "CHR ''-'' # k @ CHR ''-'' # a @ CHR ''-'' # b"
  have "match_kind ?r k" unfolding match_kind_iff
    using a b by (intro exI [of _ a] exI [of _ b] exI [of _ "[]"]) (simp add: at_end_def)
  then have "match_liquidation_child ?r \<noteq> None"
    using k unfolding match_liquidation_child_def by (simp add: find_None_iff) blast
  then obtain before' k' where found: "search_liquidation_child (before @ ?r) = Some (before', k')"
    using search_complete [of ?r before] by auto
  then obtain r' where r': "before @ ?r = before' @ r'" "match_liquidation_child r' = Some k'"
    using search_sound by blast
  from match_child_Some [OF r'(2)] have k': "k' \<in> set liquidation_child_kinds" and "match_kind r' k'" by simp_all
  then obtain a' b' e where shape: "r' = CHR ''-'' # k' @ CHR ''-'' # a' @ CHR ''-'' # b' @ e"
    and d': "list_all is_digit a'" "list_all is_digit b'" "b' \<noteq> []" and e: "at_end e"
    by (auto simp: match_kind_iff)
  have eq: "before @ ?r = (before' @ CHR ''-'' # k' @ CHR ''-'' # a') @ CHR ''-'' # b' @ e" using r'(1) shape by simp
  have "is_digit (last b)" using b last_in_set [of b] by (simp add: list_all_iff)
  then have "is_digit (last (before @ ?r))" using b(2) by simp
  moreover have "\<not> is_digit (last (before @ ?r))" if "e = [CHR 0x0A]"
    unfolding eq that by (simp add: is_digit_def)
  ultimately have "e = []" using e by (auto simp: at_end_def)
  then have "(before @ CHR ''-'' # k @ CHR ''-'' # a) @ CHR ''-'' # b
      = (before' @ CHR ''-'' # k' @ CHR ''-'' # a') @ CHR ''-'' # b'" using eq by simp
  then have "before @ CHR ''-'' # k @ CHR ''-'' # a = before' @ CHR ''-'' # k' @ CHR ''-'' # a'"
    using append_last_sep_inject [OF digits_no_dash [OF b(1)] digits_no_dash [OF d'(2)]] by blast
  then have "(before @ CHR ''-'' # k) @ CHR ''-'' # a = (before' @ CHR ''-'' # k') @ CHR ''-'' # a'" by simp
  then have "before @ CHR ''-'' # k = before' @ CHR ''-'' # k'"
    using append_last_sep_inject [OF digits_no_dash [OF a(1)] digits_no_dash [OF d'(1)]] by blast
  then show ?thesis using found kind_suffix_unique [OF k k'] by blast
qed

lemma decode_encode: "g \<noteq> [] \<Longrightarrow> decode_order_ref (Some (encode_order_ref g)) = Some g"
  by (simp add: decode_order_ref_def encode_order_ref_def order_ref_prefix_def starts_with_def)

text \<open>
  C38. The id of a liquidation child order survives the trip through the broker. The order reference
  sent for it decodes to the id, the id gives back the close that sent it and the kind of the
  child, whatever the close is called, and a reduce is filed as an exit and the two re-protect
  orders as stop and target, whatever order type and parent the broker reports.
\<close>

theorem liquidation_child_roundtrip:
  assumes "liquidation_child_id root_id kind conid attempt = Inr child" and "0 \<le> conid"
  shows "decode_order_ref (Some (encode_order_ref child)) = Some child
    \<and> liquidation_child_root (Some child) = Some root_id \<and> liquidation_child_kind (Some child) = Some kind
    \<and> (kind \<noteq> ''cancel'' \<longrightarrow> classify_leg order_type parent_id client_id (Some child)
         = (if kind = ''reduce'' then ''exit'' else if kind = ''reprotect-stop'' then ''stop'' else ''take_profit''))"
proof -
  have k: "kind \<in> set liquidation_child_kinds" and r: "root_id \<noteq> []" and n: "0 \<le> attempt"
    and child: "child = root_id @ CHR ''-'' # kind @ CHR ''-'' # string_of_int conid @ CHR ''-'' # string_of_int attempt"
    using assms(1) by (auto simp: liquidation_child_id_def split: if_splits)
  have found: "search_liquidation_child child = Some (root_id, kind)"
    unfolding child using k string_of_int_digits [OF assms(2)] string_of_int_digits [OF n]
    by (intro search_child_id) simp_all
  have "child \<noteq> []" using r child by simp
  then have "decode_order_ref (Some (encode_order_ref child)) = Some child" by (rule decode_encode)
  moreover have "liquidation_child_root (Some child) = Some root_id"
    using found r by (simp add: liquidation_child_root_def)
  moreover have kind: "liquidation_child_kind (Some child) = Some kind"
    using found by (simp add: liquidation_child_kind_def)
  moreover have "kind \<noteq> ''cancel'' \<longrightarrow> classify_leg order_type parent_id client_id (Some child)
         = (if kind = ''reduce'' then ''exit'' else if kind = ''reprotect-stop'' then ''stop'' else ''take_profit'')"
    using k unfolding classify_leg_def kind Let_def by (simp add: liquidation_child_kinds_def) blast
  ultimately show ?thesis by blast
qed

theorem liquidation_child_roundtrip_witness:
  "liquidation_child_root (Some ''lq-7-reduce-1-1-reduce-42-2'') = Some ''lq-7-reduce-1-1''
   \<and> classify_leg ''LMT'' 0 5 (Some ''lq-7-reduce-1-1-reduce-42-2'') = ''exit''"
proof -
  have "liquidation_child_id ''lq-7-reduce-1-1'' ''reduce'' 42 2 = Inr ''lq-7-reduce-1-1-reduce-42-2''"
    by code_simp
  from liquidation_child_roundtrip [OF this, of "''LMT''" 0 5]
  have "liquidation_child_root (Some ''lq-7-reduce-1-1-reduce-42-2'') = Some ''lq-7-reduce-1-1''"
    and "classify_leg ''LMT'' 0 5 (Some ''lq-7-reduce-1-1-reduce-42-2'') = ''exit''" by simp_all
  then show ?thesis by blast
qed

section \<open>One identity per order\<close>

definition alias_ok :: "alias_row list \<Rightarrow> bool" where
  "alias_ok rows \<longleftrightarrow> distinct (map alias_key rows) \<and> (\<forall>r \<in> set rows. al_order_entity_id r \<noteq> [])"

text \<open>One binding of any alias to any entity, or the bindings of one observation.\<close>

inductive alias_step :: "alias_row list \<Rightarrow> alias_row list \<Rightarrow> bool" where
  step_bind: "entity \<noteq> [] \<Longrightarrow> alias_step rows (bind_alias_in_tx ty v account epoch entity t rows)"
| step_observe: "entity \<noteq> [] \<Longrightarrow> alias_step rows (bind_aliases_in_tx epoch entity obs rows)"

lemma bind_alias_ok: "alias_ok rows \<Longrightarrow> entity \<noteq> [] \<Longrightarrow> alias_ok (bind_alias_in_tx ty v account epoch entity t rows)"
  by (auto simp: alias_ok_def bind_alias_in_tx_def alias_key_def)

lemma bind_alias_keeps: "r \<in> set rows \<Longrightarrow> r \<in> set (bind_alias_in_tx ty v account epoch entity t rows)"
  by (simp add: bind_alias_in_tx_def)

lemma bind_aliases_ok: "alias_ok rows \<Longrightarrow> entity \<noteq> [] \<Longrightarrow> alias_ok (bind_aliases_in_tx epoch entity obs rows)"
  by (simp add: bind_aliases_in_tx_def bind_alias_ok)

lemma bind_aliases_keeps: "r \<in> set rows \<Longrightarrow> r \<in> set (bind_aliases_in_tx epoch entity obs rows)"
  by (simp add: bind_aliases_in_tx_def bind_alias_keeps)

interpretation aliases: state_machine alias_step alias_ok
  by unfold_locales (auto elim!: alias_step.cases intro: bind_alias_ok bind_aliases_ok)

lemma alias_run_keeps: "alias_step\<^sup>*\<^sup>* rows rows' \<Longrightarrow> alias_ok rows \<Longrightarrow> r \<in> set rows \<Longrightarrow> r \<in> set rows'"
  by (rule aliases.run_stable [where P = "\<lambda>rows. r \<in> set rows"])
    (auto elim!: alias_step.cases intro: bind_alias_keeps bind_aliases_keeps)

lemma find_alias_mem:
  assumes "alias_ok rows" and "r \<in> set rows" and "alias_key r = (ty, v, account, epoch)"
  shows "find_order_by_alias_in_tx rows ty v account epoch = Some (al_order_entity_id r)"
  using fetchone_key [of alias_key rows r] assms by (simp add: alias_ok_def find_order_by_alias_in_tx_def)

lemma find_alias_SomeD:
  assumes "find_order_by_alias_in_tx rows ty v account epoch = Some e"
  obtains r where "r \<in> set rows" and "alias_key r = (ty, v, account, epoch)" and "al_order_entity_id r = e"
  using assms by (auto simp: find_order_by_alias_in_tx_def dest: fetchone_filter_SomeD)

text \<open>A bound alias reads the same for ever.\<close>

lemma find_alias_stable:
  assumes "alias_step\<^sup>*\<^sup>* rows rows'" and "alias_ok rows"
    and "find_order_by_alias_in_tx rows ty v account epoch = Some e"
  shows "find_order_by_alias_in_tx rows' ty v account epoch = Some e"
  using find_alias_SomeD [OF assms(3)] alias_run_keeps [OF assms(1,2)]
    aliases.run_inv [OF assms(1,2)] find_alias_mem by metis

lemma find_alias_nonempty:
  assumes "alias_ok rows" and "find_order_by_alias_in_tx rows ty v account epoch = Some e"
  shows "e \<noteq> []"
  using find_alias_SomeD [OF assms(2)] assms(1) by (auto simp: alias_ok_def)

text \<open>After a binding the alias is bound: to the new entity, or to the one it had.\<close>

lemma find_bind_alias:
  assumes "alias_ok rows" and "entity \<noteq> []"
  shows "find_order_by_alias_in_tx (bind_alias_in_tx ty v account epoch entity t rows) ty v account epoch
    = Some (opt_or entity (find_order_by_alias_in_tx rows ty v account epoch))"
proof (cases "\<exists>r \<in> set rows. alias_key r = (ty, v, account, epoch)")
  case True
  then show ?thesis using find_alias_mem [OF assms(1)] by (fastforce simp: bind_alias_in_tx_def)
next
  case False
  then show ?thesis by (auto simp: bind_alias_in_tx_def find_order_by_alias_in_tx_def alias_key_def)
qed

text \<open>Bindings of other aliases do not matter.\<close>

lemma alias_key_bind:
  "(ty, v, account, epoch) \<noteq> (ty', v', account', epoch') \<Longrightarrow>
   find_order_by_alias_in_tx (bind_alias_in_tx ty' v' account' epoch' entity t rows) ty v account epoch
     = find_order_by_alias_in_tx rows ty v account epoch"
  by (auto simp: bind_alias_in_tx_def find_order_by_alias_in_tx_def alias_key_def)

lemma find_bound_perm:
  assumes "alias_ok rows" and "entity \<noteq> []" and "ob_perm_id obs \<noteq> 0"
  shows "find_order_by_alias_in_tx (bind_aliases_in_tx epoch entity obs rows) PermId
      (string_of_int (ob_perm_id obs)) (ob_account_id obs) []
    = Some (opt_or entity (find_order_by_alias_in_tx rows PermId (string_of_int (ob_perm_id obs)) (ob_account_id obs) []))"
  using assms by (simp add: bind_aliases_in_tx_def alias_key_bind find_bind_alias)

lemma find_bound_client:
  assumes "alias_ok rows" and "entity \<noteq> []" and "ob_client_order_id obs \<noteq> 0"
  shows "find_order_by_alias_in_tx (bind_aliases_in_tx epoch entity obs rows) ClientOrderId
      (string_of_int (ob_client_order_id obs)) (ob_account_id obs) epoch
    = Some (opt_or entity (find_order_by_alias_in_tx rows ClientOrderId (string_of_int (ob_client_order_id obs))
        (ob_account_id obs) epoch))"
  using assms by (simp add: bind_aliases_in_tx_def alias_key_bind find_bind_alias bind_alias_ok)

lemma none_if_empty_simps [simp]:
  "none_if_empty None = None" "e \<noteq> [] \<Longrightarrow> none_if_empty (Some e) = Some e"
  by (simp_all add: none_if_empty_def)

lemma resolve_by_perm:
  "ob_perm_id obs \<noteq> 0 \<Longrightarrow> e \<noteq> [] \<Longrightarrow>
   find_order_by_alias_in_tx rows PermId (string_of_int (ob_perm_id obs)) (ob_account_id obs) [] = Some e \<Longrightarrow>
   resolve_in_tx epoch minted rows obs = e"
  by (simp add: resolve_in_tx_def)

lemma resolve_by_client:
  "ob_client_order_id obs \<noteq> 0 \<Longrightarrow> e \<noteq> [] \<Longrightarrow>
   ob_perm_id obs = 0 \<or> find_order_by_alias_in_tx rows PermId (string_of_int (ob_perm_id obs)) (ob_account_id obs) [] = None \<Longrightarrow>
   find_order_by_alias_in_tx rows ClientOrderId (string_of_int (ob_client_order_id obs)) (ob_account_id obs) epoch = Some e \<Longrightarrow>
   resolve_in_tx epoch minted rows obs = e"
  by (auto simp: resolve_in_tx_def)

text \<open>An alias that was bound before is the one the observation was resolved by.\<close>

lemma perm_prior:
  assumes "alias_ok rows" and "ob_perm_id obs \<noteq> 0" and "resolve_in_tx epoch minted rows obs = entity"
  shows "opt_or entity (find_order_by_alias_in_tx rows PermId (string_of_int (ob_perm_id obs)) (ob_account_id obs) [])
    = entity"
proof (cases "find_order_by_alias_in_tx rows PermId (string_of_int (ob_perm_id obs)) (ob_account_id obs) []")
  case (Some e)
  then show ?thesis
    using resolve_by_perm [OF assms(2) find_alias_nonempty [OF assms(1) Some] Some] assms(3) by simp
qed simp

lemma client_prior:
  assumes "alias_ok rows" and "ob_perm_id obs = 0" and "ob_client_order_id obs \<noteq> 0"
    and "resolve_in_tx epoch minted rows obs = entity"
  shows "opt_or entity (find_order_by_alias_in_tx rows ClientOrderId (string_of_int (ob_client_order_id obs))
      (ob_account_id obs) epoch) = entity"
proof (cases "find_order_by_alias_in_tx rows ClientOrderId (string_of_int (ob_client_order_id obs))
      (ob_account_id obs) epoch")
  case (Some e)
  then show ?thesis
    using resolve_by_client [OF assms(3) find_alias_nonempty [OF assms(1) Some] _ Some] assms(2,4) by simp
qed simp

lemma resolve_nonempty:
  assumes "alias_ok rows" and "minted \<noteq> []"
  shows "resolve_in_tx epoch minted rows obs \<noteq> []"
  using assms find_alias_nonempty [OF assms(1)]
  by (auto simp: resolve_in_tx_def Let_def none_if_empty_def order_group_leg_entity_id_def
      split: option.splits if_splits)


definition demo_trade :: ib_trade where
  "demo_trade =
     \<lparr>ib_account = Some ''DU1'', ib_orderId = Some 12, ib_permId = None, ib_parentId = Some 0,
      ib_orderRef = Some ''mmr:og-c1'', ib_conId = 42, ib_symbol = Some ''AMD'', ib_action = Some ''BUY'',
      ib_orderType = Some ''LMT'', ib_totalQuantity = Some (Fin 10), ib_lmtPrice = Some (Fin 150),
      ib_auxPrice = Some (Fin 0), ib_tif = Some [], ib_status = Some ''Submitted'', ib_filled = None,
      ib_avgFillPrice = None, ib_ocaGroup = Some (Some []), ib_ocaType = Some (Some 0)\<rparr>"


end
