(* ===== verification/Broker_State.thy ===== *)
theory Broker_State
  imports Domain_Journal Order_Correlation
begin

text \<open>
  \<^verbatim>\<open>src/trader/data/broker_state.py\<close>: the materialized broker tables (accounts, positions, orders,
  aliases, fills), the generations of a broker enumeration with their staging rows, and the risk
  snapshot that is read from all of them in one transaction. The column \<open>updated_at\<close>, which no
  query reads, is left out.
\<close>

section \<open>Rows\<close>

record account_row =
  ba_account_id :: string
  ba_account_mode :: string
  ba_net_liquidation :: "pyfloat option"
  ba_total_cash :: "pyfloat option"
  ba_buying_power :: "pyfloat option"
  ba_available_funds :: "pyfloat option"
  ba_maintenance_margin :: "pyfloat option"
  ba_balances :: "(string \<times> string) list"
  ba_revision :: int
  ba_source_timestamp :: instant

record position_row =
  bp_account_id :: string
  bp_conid :: int
  bp_symbol :: string
  bp_sec_type :: string
  bp_exchange :: "string option"
  bp_currency :: string
  bp_quantity :: pyfloat
  bp_average_cost :: "pyfloat option"
  bp_market_price :: "pyfloat option"
  bp_market_value :: "pyfloat option"
  bp_unrealized_pnl :: "pyfloat option"
  bp_realized_pnl :: "pyfloat option"
  bp_daily_pnl :: "pyfloat option"
  bp_deleted :: bool
  bp_revision :: int
  bp_source_timestamp :: instant

record order_row =
  bo_order_entity_id :: string
  bo_account_id :: string
  bo_conid :: int
  bo_symbol :: string
  bo_order_group_id :: "string option"
  bo_leg :: "string option"
  bo_is_external :: bool
  bo_action :: string
  bo_order_type :: string
  bo_total_quantity :: pyfloat
  bo_filled_quantity :: pyfloat
  bo_avg_fill_price :: "pyfloat option"
  bo_limit_price :: "pyfloat option"
  bo_stop_price :: "pyfloat option"
  bo_tif :: "string option"
  bo_status :: string
  bo_deleted :: bool
  bo_revision :: int
  bo_source_timestamp :: instant
  bo_oca_group :: "string option"
  bo_oca_type :: "int option"

record fill_row =
  bf_account_id :: string
  bf_exec_id :: string
  bf_order_entity_id :: "string option"
  bf_perm_id :: "int option"
  bf_client_order_id :: "int option"
  bf_session_epoch :: string
  bf_conid :: int
  bf_side :: string
  bf_quantity :: pyfloat
  bf_price :: pyfloat
  bf_commission :: "pyfloat option"
  bf_commission_currency :: "string option"
  bf_realized_pnl :: "pyfloat option"
  bf_fill_time :: instant
  bf_revision :: int
  bf_source_timestamp :: instant

datatype generation_status = Staging | Promoted | Abandoned

record generation_row =
  bg_generation_id :: int
  bg_status :: generation_status
  bg_sources_required :: "string list"
  bg_sources_complete :: "string list"
  bg_promoted_cursor :: "int option"
  bg_abandon_reason :: "string option"
  bg_started_at :: instant
  bg_completed_at :: "instant option"

record staging_row =
  sg_generation_id :: int
  sg_ingest_seq :: int
  sg_source :: string
  sg_entity_type :: string
  sg_canonical_key :: string
  sg_record_kind :: string
  sg_record_json :: string

record broker_tables =
  bt_accounts :: "account_row list"
  bt_positions :: "position_row list"
  bt_orders :: "order_row list"
  bt_aliases :: "alias_row list"
  bt_fills :: "fill_row list"
  bt_generations :: "generation_row list"
  bt_next_generation :: int
  bt_staging :: "staging_row list"

section \<open>Keyed writes and reads\<close>

text \<open>\<open>_upsert\<close>: delete the rows of the key, then insert.\<close>

definition upsert_by :: "('a \<Rightarrow> 'k) \<Rightarrow> 'a \<Rightarrow> 'a list \<Rightarrow> 'a list" where
  "upsert_by key row rows = filter (\<lambda>r. key r \<noteq> key row) rows @ [row]"

definition position_key :: "position_row \<Rightarrow> string \<times> int" where
  "position_key r = (bp_account_id r, bp_conid r)"

definition fill_key :: "fill_row \<Rightarrow> string \<times> string" where
  "fill_key r = (bf_account_id r, bf_exec_id r)"

definition upsert_account_in_tx :: "account_row \<Rightarrow> broker_tables \<Rightarrow> broker_tables" where
  "upsert_account_in_tx row t = t\<lparr>bt_accounts := upsert_by ba_account_id row (bt_accounts t)\<rparr>"

definition get_account_in_tx :: "broker_tables \<Rightarrow> string \<Rightarrow> account_row option" where
  "get_account_in_tx t account_id = fetchone (filter (\<lambda>r. ba_account_id r = account_id) (bt_accounts t))"

definition select_accounts_in_tx :: "broker_tables \<Rightarrow> account_row list" where
  "select_accounts_in_tx t = sort_key ba_account_id (bt_accounts t)"

definition upsert_position_in_tx :: "position_row \<Rightarrow> broker_tables \<Rightarrow> broker_tables" where
  "upsert_position_in_tx row t = t\<lparr>bt_positions := upsert_by position_key row (bt_positions t)\<rparr>"

definition get_position_in_tx :: "broker_tables \<Rightarrow> string \<Rightarrow> int \<Rightarrow> position_row option" where
  "get_position_in_tx t account_id conid =
     fetchone (filter (\<lambda>r. position_key r = (account_id, conid)) (bt_positions t))"

definition tombstone_position_in_tx ::
    "string \<Rightarrow> int \<Rightarrow> int \<Rightarrow> instant \<Rightarrow> broker_tables \<Rightarrow> broker_tables" where
  "tombstone_position_in_tx account_id conid revision source_timestamp t =
     (case get_position_in_tx t account_id conid of
        None \<Rightarrow> t
      | Some row \<Rightarrow> upsert_position_in_tx (row\<lparr>bp_quantity := Fin 0, bp_deleted := True,
                      bp_revision := revision, bp_source_timestamp := source_timestamp\<rparr>) t)"

definition select_active_positions_in_tx :: "broker_tables \<Rightarrow> position_row list" where
  "select_active_positions_in_tx t = sort_key position_key (filter (\<lambda>r. \<not> bp_deleted r) (bt_positions t))"

definition upsert_order_in_tx :: "order_row \<Rightarrow> broker_tables \<Rightarrow> broker_tables" where
  "upsert_order_in_tx row t = t\<lparr>bt_orders := upsert_by bo_order_entity_id row (bt_orders t)\<rparr>"

definition get_order_in_tx :: "broker_tables \<Rightarrow> string \<Rightarrow> order_row option" where
  "get_order_in_tx t order_entity_id =
     fetchone (filter (\<lambda>r. bo_order_entity_id r = order_entity_id) (bt_orders t))"

definition tombstone_order_in_tx :: "string \<Rightarrow> int \<Rightarrow> instant \<Rightarrow> broker_tables \<Rightarrow> broker_tables" where
  "tombstone_order_in_tx order_entity_id revision source_timestamp t =
     (case get_order_in_tx t order_entity_id of
        None \<Rightarrow> t
      | Some row \<Rightarrow> upsert_order_in_tx (row\<lparr>bo_deleted := True, bo_revision := revision,
                      bo_source_timestamp := source_timestamp\<rparr>) t)"

definition select_active_orders_in_tx :: "broker_tables \<Rightarrow> order_row list" where
  "select_active_orders_in_tx t = sort_key bo_order_entity_id (filter (\<lambda>r. \<not> bo_deleted r) (bt_orders t))"

text \<open>The left join finds the order of a fill, if there is one.\<close>

definition fill_order :: "broker_tables \<Rightarrow> fill_row \<Rightarrow> order_row option" where
  "fill_order t f = (case bf_order_entity_id f of None \<Rightarrow> None | Some e \<Rightarrow> get_order_in_tx t e)"

definition group_has_broker_trace_in_tx :: "broker_tables \<Rightarrow> string \<Rightarrow> string \<Rightarrow> int \<Rightarrow> instant \<Rightarrow> bool" where
  "group_has_broker_trace_in_tx t account_id order_group_id conid since \<longleftrightarrow>
     (\<exists>g \<in> set (bt_generations t). bg_status g = Staging)
     \<or> (\<exists>x \<in> set (bt_orders t). bo_account_id x = account_id
          \<and> (bo_order_group_id x = Some order_group_id
             \<or> bo_conid x = conid \<and> since \<le> bo_source_timestamp x \<and> bo_order_group_id x = None))
     \<or> (\<exists>f \<in> set (bt_fills t). bf_account_id f = account_id
          \<and> ((case fill_order t f of Some x \<Rightarrow> bo_order_group_id x = Some order_group_id | None \<Rightarrow> False)
             \<or> bf_conid f = conid \<and> since \<le> bf_source_timestamp f
               \<and> (case fill_order t f of None \<Rightarrow> True | Some x \<Rightarrow> bo_order_group_id x = None)))"

definition select_group_entry_orders_in_tx :: "broker_tables \<Rightarrow> string \<Rightarrow> string \<Rightarrow> order_row list" where
  "select_group_entry_orders_in_tx t account_id order_group_id =
     map (\<lambda>x. x\<lparr>bo_oca_group := None, bo_oca_type := None\<rparr>)
       (sort_key bo_order_entity_id (filter (\<lambda>x. bo_account_id x = account_id
          \<and> bo_order_group_id x = Some order_group_id \<and> bo_leg x = Some ''entry'') (bt_orders t)))"

definition working_order_statuses :: "string list" where
  "working_order_statuses = [''PendingSubmit'', ''ApiPending'', ''PreSubmitted'', ''Submitted'', ''PendingCancel'']"

definition select_working_orders_in_tx :: "broker_tables \<Rightarrow> order_row list" where
  "select_working_orders_in_tx t =
     sort_key bo_order_entity_id
       (filter (\<lambda>r. \<not> bo_deleted r \<and> bo_status r \<in> set working_order_statuses) (bt_orders t))"

definition find_perm_id_for_order_in_tx :: "broker_tables \<Rightarrow> string \<Rightarrow> int option option" where
  "find_perm_id_for_order_in_tx t order_entity_id =
     map_option (\<lambda>r. int_of_string (al_value r))
       (fetchone (filter (\<lambda>r. al_order_entity_id r = order_entity_id \<and> al_type r = PermId) (bt_aliases t)))"

definition upsert_fill_in_tx :: "fill_row \<Rightarrow> broker_tables \<Rightarrow> broker_tables" where
  "upsert_fill_in_tx row t = t\<lparr>bt_fills := upsert_by fill_key row (bt_fills t)\<rparr>"

definition get_fill_in_tx :: "broker_tables \<Rightarrow> string \<Rightarrow> string \<Rightarrow> fill_row option" where
  "get_fill_in_tx t account_id exec_id = fetchone (filter (\<lambda>r. fill_key r = (account_id, exec_id)) (bt_fills t))"

definition select_fills_in_tx :: "broker_tables \<Rightarrow> fill_row list" where
  "select_fills_in_tx t = sort_key (\<lambda>r. (bf_fill_time r, bf_account_id r, bf_exec_id r)) (bt_fills t)"

definition unbound_fills_in_tx :: "broker_tables \<Rightarrow> string \<Rightarrow> fill_row list" where
  "unbound_fills_in_tx t account_id =
     sort_key (\<lambda>r. (bf_fill_time r, bf_exec_id r))
       (filter (\<lambda>r. bf_account_id r = account_id \<and> bf_order_entity_id r = None) (bt_fills t))"

definition unbound_fill_since_generation_in_tx ::
    "broker_tables \<Rightarrow> string \<Rightarrow> int option \<Rightarrow> int \<Rightarrow> bool" where
  "unbound_fill_since_generation_in_tx t account_id conid generation_id =
     (case fetchone (filter (\<lambda>g. bg_generation_id g = generation_id) (bt_generations t)) of
        None \<Rightarrow> True
      | Some g \<Rightarrow>
          (\<exists>r \<in> set (bt_fills t). bf_account_id r = account_id \<and> bf_order_entity_id r = None
             \<and> bg_started_at g \<le> bf_source_timestamp r
             \<and> (case conid of None \<Rightarrow> True | Some c \<Rightarrow> bf_conid r = c)))"

section \<open>Generations\<close>

definition open_generation_in_tx :: "string list \<Rightarrow> instant \<Rightarrow> broker_tables \<Rightarrow> int \<times> broker_tables" where
  "open_generation_in_tx sources started_at t =
     (bt_next_generation t,
      t\<lparr>bt_generations := bt_generations t @
          [\<lparr>bg_generation_id = bt_next_generation t, bg_status = Staging, bg_sources_required = sources,
            bg_sources_complete = [], bg_promoted_cursor = None, bg_abandon_reason = None,
            bg_started_at = started_at, bg_completed_at = None\<rparr>],
        bt_next_generation := bt_next_generation t + 1\<rparr>)"

text \<open>None: the \<open>ValueError\<close> of an unknown generation.\<close>

definition mark_source_complete_in_tx :: "int \<Rightarrow> string \<Rightarrow> broker_tables \<Rightarrow> broker_tables option" where
  "mark_source_complete_in_tx generation_id source t =
     (case fetchone (filter (\<lambda>g. bg_generation_id g = generation_id) (bt_generations t)) of
        None \<Rightarrow> None
      | Some row \<Rightarrow>
          Some (t\<lparr>bt_generations := update_where (\<lambda>g. bg_generation_id g = generation_id)
            (\<lambda>g. g\<lparr>bg_sources_complete := sort (remdups (source # bg_sources_complete row))\<rparr>)
            (bt_generations t)\<rparr>))"

definition mark_generation_promoted_in_tx :: "int \<Rightarrow> int \<Rightarrow> instant \<Rightarrow> broker_tables \<Rightarrow> broker_tables" where
  "mark_generation_promoted_in_tx generation_id cursor completed_at t =
     t\<lparr>bt_generations := update_where (\<lambda>g. bg_generation_id g = generation_id)
        (\<lambda>g. g\<lparr>bg_status := Promoted, bg_promoted_cursor := Some cursor,
               bg_completed_at := Some completed_at, bg_abandon_reason := None\<rparr>) (bt_generations t)\<rparr>"

definition mark_generation_abandoned_in_tx :: "int \<Rightarrow> string \<Rightarrow> instant \<Rightarrow> broker_tables \<Rightarrow> broker_tables" where
  "mark_generation_abandoned_in_tx generation_id reason completed_at t =
     t\<lparr>bt_generations := update_where (\<lambda>g. bg_generation_id g = generation_id)
        (\<lambda>g. g\<lparr>bg_status := Abandoned, bg_abandon_reason := Some reason,
               bg_completed_at := Some completed_at\<rparr>) (bt_generations t)\<rparr>"

text \<open>None: the unique index of generation and sequence number.\<close>

definition stage_in_tx :: "staging_row \<Rightarrow> broker_tables \<Rightarrow> broker_tables option" where
  "stage_in_tx row t =
     (if \<exists>r \<in> set (bt_staging t). sg_generation_id r = sg_generation_id row \<and> sg_ingest_seq r = sg_ingest_seq row
      then None else Some (t\<lparr>bt_staging := bt_staging t @ [row]\<rparr>))"

definition staged_rows_in_tx :: "broker_tables \<Rightarrow> int \<Rightarrow> staging_row list" where
  "staged_rows_in_tx t generation_id =
     sort_key sg_ingest_seq (filter (\<lambda>r. sg_generation_id r = generation_id) (bt_staging t))"

definition purge_staging_in_tx :: "int \<Rightarrow> broker_tables \<Rightarrow> broker_tables" where
  "purge_staging_in_tx generation_id t =
     t\<lparr>bt_staging := filter (\<lambda>r. sg_generation_id r \<noteq> generation_id) (bt_staging t)\<rparr>"

definition max_generation :: "generation_row list \<Rightarrow> int option" where
  "max_generation gs = (if gs = [] then None else Some (Max (bg_generation_id ` set gs)))"

definition newest_generation_in_tx :: "broker_tables \<Rightarrow> int option" where
  "newest_generation_in_tx t = max_generation (bt_generations t)"

definition latest_promoted_generation_in_tx :: "broker_tables \<Rightarrow> int option" where
  "latest_promoted_generation_in_tx t =
     max_generation (filter (\<lambda>g. bg_status g = Promoted) (bt_generations t))"

section \<open>The risk snapshot\<close>

record risk_snapshot =
  sn_generation_id :: int
  sn_source_cursor :: int
  sn_promoted_at :: instant
  sn_account_id :: string
  sn_account_mode :: string
  sn_net_liquidation :: pyfloat
  sn_daily_pnl :: pyfloat
  sn_positions :: "position_row list"
  sn_working_orders :: "order_row list"
  sn_generation_started_at :: "instant option"
  sn_base_currency :: "string option"

definition reducible_quantity :: "(rat \<Rightarrow> pyfloat) \<Rightarrow> risk_snapshot \<Rightarrow> int option \<Rightarrow> pyfloat" where
  "reducible_quantity rnd sn conid =
     py_sum rnd (map bp_quantity (filter (\<lambda>r. Some (bp_conid r) = conid) (sn_positions sn)))"

definition position_value :: "(rat \<Rightarrow> pyfloat) \<Rightarrow> risk_snapshot \<Rightarrow> int option \<Rightarrow> pyfloat" where
  "position_value rnd sn conid =
     py_sum rnd (map (\<lambda>r. flt_abs (opt_or (Fin 0) (bp_market_value r)))
       (filter (\<lambda>r. Some (bp_conid r) = conid) (sn_positions sn)))"

definition open_order_count :: "risk_snapshot \<Rightarrow> int" where
  "open_order_count sn = int (length (sn_working_orders sn))"

text \<open>\<open>key.split(":", 1)\<close>: before and after the first colon.\<close>

definition before_colon :: "string \<Rightarrow> string" where
  "before_colon s = takeWhile (\<lambda>c. c \<noteq> CHR '':'') s"

definition after_colon :: "string \<Rightarrow> string" where
  "after_colon s = tl (dropWhile (\<lambda>c. c \<noteq> CHR '':'') s)"

definition net_liquidation_currency :: "(string \<times> string) list \<Rightarrow> string option" where
  "net_liquidation_currency balances =
     (let currencies = remdups (map (after_colon \<circ> fst) (filter (\<lambda>kv.
            starts_with ''NetLiquidation:'' (fst kv) \<and> fst kv \<noteq> ''NetLiquidation:BASE'') balances))
      in case currencies of [c] \<Rightarrow> Some c | _ \<Rightarrow> None)"

datatype snapshot_error =
    NO_PROMOTED_GENERATION | INVALID_GENERATION_CURSOR | GENERATION_STAGING | ACCOUNT_MISMATCH
  | ACCOUNT_STATE_UNAVAILABLE | INVALID_NET_LIQUIDATION | INVALID_POSITION | INVALID_DAILY_PNL
  | DAILY_PNL_UNAVAILABLE | INVALID_WORKING_ORDER

text \<open>\<open>ORDER BY generation_id DESC LIMIT 1\<close> under a condition.\<close>

definition top_generation :: "(generation_row \<Rightarrow> bool) \<Rightarrow> broker_tables \<Rightarrow> generation_row option" where
  "top_generation P t = fetchone (rev (sort_key bg_generation_id (filter P (bt_generations t))))"

definition check_positions :: "position_row list \<Rightarrow> snapshot_error + unit" where
  "check_positions rows =
     check (list_all (\<lambda>r. flt_finite (bp_quantity r)
       \<and> (flt_truthy (bp_quantity r) \<longrightarrow> (case bp_market_value r of None \<Rightarrow> False | Some v \<Rightarrow> flt_finite v))) rows)
       INVALID_POSITION"

definition snapshot_daily_pnl ::
    "(rat \<Rightarrow> pyfloat) \<Rightarrow> (string \<times> string) list \<Rightarrow> position_row list \<Rightarrow> snapshot_error + pyfloat" where
  "snapshot_daily_pnl rnd balances positions =
     (let daily_values = map snd (filter (\<lambda>kv. before_colon (fst kv) = ''DailyPnL'') balances)
      in bind_sum
           (if daily_values \<noteq> []
            then if length daily_values \<noteq> 1 then Inl INVALID_DAILY_PNL
                 else (case float_of_string rnd (hd daily_values) of
                         None \<Rightarrow> Inl INVALID_DAILY_PNL
                       | Some x \<Rightarrow> Inr x)
            else if positions \<noteq> []
            then if list_ex (\<lambda>r. bp_daily_pnl r = None) positions then Inl DAILY_PNL_UNAVAILABLE
                 else Inr (py_sum rnd (map (\<lambda>r. opt_or (Fin 0) (bp_daily_pnl r)) positions))
            else Inr (Fin 0))
           (\<lambda>x. if flt_finite x then Inr x else Inl INVALID_DAILY_PNL))"

definition snapshot_account :: "broker_tables \<Rightarrow> string \<Rightarrow> snapshot_error + account_row" where
  "snapshot_account t account_id =
     (case List.find (\<lambda>r. ba_account_id r = account_id) (select_accounts_in_tx t) of
        Some a \<Rightarrow> Inr a
      | None \<Rightarrow> Inl (if select_accounts_in_tx t \<noteq> [] then ACCOUNT_MISMATCH else ACCOUNT_STATE_UNAVAILABLE))"

definition snapshot_generation :: "broker_tables \<Rightarrow> snapshot_error + (generation_row \<times> int \<times> instant)" where
  "snapshot_generation t =
     (case top_generation (\<lambda>g. bg_status g = Promoted) t of
        None \<Rightarrow> Inl NO_PROMOTED_GENERATION
      | Some g \<Rightarrow>
         (case (bg_promoted_cursor g, bg_completed_at g) of
            (Some c, Some completed) \<Rightarrow>
              if c < 0 then Inl INVALID_GENERATION_CURSOR
              else if top_generation (\<lambda>s. bg_status s = Staging \<and> bg_generation_id g < bg_generation_id s) t \<noteq> None
              then Inl GENERATION_STAGING
              else Inr (g, c, completed)
          | _ \<Rightarrow> Inl INVALID_GENERATION_CURSOR))"

definition capture_risk_snapshot_in_tx ::
    "(rat \<Rightarrow> pyfloat) \<Rightarrow> broker_tables \<Rightarrow> journal_row list \<Rightarrow> string \<Rightarrow> snapshot_error + risk_snapshot" where
  "capture_risk_snapshot_in_tx rnd t journal account_id =
     bind_sum (snapshot_generation t) (\<lambda>(g, promoted_cursor, promoted_at).
     bind_sum (snapshot_account t account_id) (\<lambda>account.
     bind_sum (case ba_net_liquidation account of
                 None \<Rightarrow> Inl INVALID_NET_LIQUIDATION
               | Some n \<Rightarrow> if \<not> flt_finite n \<or> flt_le n (Fin 0) then Inl INVALID_NET_LIQUIDATION else Inr n)
       (\<lambda>net_liquidation.
     (let positions = filter (\<lambda>r. bp_account_id r = account_id) (select_active_positions_in_tx t);
          working = filter (\<lambda>r. bo_account_id r = account_id) (select_working_orders_in_tx t);
          source_cursor = max_cursor journal
      in bind_sum (check_positions positions) (\<lambda>_.
         bind_sum (snapshot_daily_pnl rnd (ba_balances account) positions) (\<lambda>daily_pnl.
         bind_sum (check (list_all (\<lambda>r. flt_finite (bo_total_quantity r) \<and> flt_finite (bo_filled_quantity r)) working)
                     INVALID_WORKING_ORDER) (\<lambda>_.
         bind_sum (check (promoted_cursor \<le> source_cursor) INVALID_GENERATION_CURSOR) (\<lambda>_.
         Inr \<lparr>sn_generation_id = bg_generation_id g, sn_source_cursor = source_cursor,
              sn_promoted_at = promoted_at, sn_account_id = ba_account_id account,
              sn_account_mode = ba_account_mode account, sn_net_liquidation = net_liquidation,
              sn_daily_pnl = daily_pnl, sn_positions = positions, sn_working_orders = working,
              sn_generation_started_at = Some (bg_started_at g),
              sn_base_currency = net_liquidation_currency (ba_balances account)\<rparr>))))))))"

section \<open>What the store promises\<close>

lemma get_upsert_by:
  "fetchone (filter (\<lambda>r. key r = k) (upsert_by key row rows))
     = (if k = key row then Some row else fetchone (filter (\<lambda>r. key r = k) rows))"
proof -
  have "filter (\<lambda>r. key r = k \<and> key r \<noteq> key row) rows = (if k = key row then [] else filter (\<lambda>r. key r = k) rows)"
    by (auto intro!: filter_cong simp: filter_empty_conv)
  then show ?thesis by (auto simp: upsert_by_def conj_commute)
qed

text \<open>A row is read back as it was written, other rows are untouched, and a tombstone hides a position.\<close>

lemma position_roundtrip:
  "get_position_in_tx (upsert_position_in_tx row t) a c
     = (if (a, c) = position_key row then Some row else get_position_in_tx t a c)"
  by (simp add: get_position_in_tx_def upsert_position_in_tx_def get_upsert_by)

lemma order_roundtrip:
  "get_order_in_tx (upsert_order_in_tx row t) e
     = (if e = bo_order_entity_id row then Some row else get_order_in_tx t e)"
  by (simp add: get_order_in_tx_def upsert_order_in_tx_def get_upsert_by)

lemma fill_roundtrip:
  "get_fill_in_tx (upsert_fill_in_tx row t) a e
     = (if (a, e) = fill_key row then Some row else get_fill_in_tx t a e)"
  by (simp add: get_fill_in_tx_def upsert_fill_in_tx_def get_upsert_by)

lemma tombstone_position_key:
  "get_position_in_tx t a c = Some row \<Longrightarrow> position_key row = (a, c)"
  by (auto simp: get_position_in_tx_def dest: fetchone_filter_SomeD)

lemma tombstone_position_hides:
  assumes "r \<in> set (select_active_positions_in_tx (tombstone_position_in_tx a c n ts t))"
    and "distinct (map position_key (bt_positions t))"
  shows "position_key r \<noteq> (a, c) \<and> r \<in> set (select_active_positions_in_tx t)"
proof (cases "get_position_in_tx t a c")
  case None
  then have "\<forall>x \<in> set (bt_positions t). position_key x \<noteq> (a, c)"
    by (simp add: get_position_in_tx_def filter_empty_conv)
  then show ?thesis using assms(1) None by (auto simp: tombstone_position_in_tx_def select_active_positions_in_tx_def)
next
  case (Some row)
  with tombstone_position_key [OF Some] show ?thesis
    using assms(1) by (auto simp: tombstone_position_in_tx_def upsert_position_in_tx_def upsert_by_def
        select_active_positions_in_tx_def position_key_def)
qed

lemma top_generation_Some:
  assumes "top_generation P t = Some g"
  shows "g \<in> set (bt_generations t) \<and> P g
    \<and> (\<forall>x \<in> set (bt_generations t). P x \<longrightarrow> bg_generation_id x \<le> bg_generation_id g)"
proof -
  let ?xs = "sort_key bg_generation_id (filter P (bt_generations t))"
  from assms obtain r where rev: "rev ?xs = g # r"
    by (cases "rev ?xs") (auto simp: top_generation_def)
  then have xs: "?xs = rev r @ [g]" by simp
  have "sorted (map bg_generation_id (rev r @ [g]))" by (simp only: xs [symmetric] sorted_sort_key)
  then have "\<forall>x \<in> set (rev r @ [g]). bg_generation_id x \<le> bg_generation_id g" by (auto simp: sorted_append)
  moreover have "set (rev r @ [g]) = {x \<in> set (bt_generations t). P x}"
    by (simp only: xs [symmetric]) simp
  ultimately show ?thesis by auto
qed

lemma top_generation_None: "top_generation P t = None \<longleftrightarrow> (\<forall>x \<in> set (bt_generations t). \<not> P x)"
proof -
  have "sort_key bg_generation_id xs = [] \<longleftrightarrow> xs = []" for xs :: "generation_row list" by (metis length_0_conv length_sort)
  then show ?thesis by (simp add: top_generation_def filter_empty_conv)
qed

text \<open>
  C39. A risk snapshot is fenced and trustworthy. When the capture succeeds, it stands on the newest
  promoted broker generation, no newer generation is still being staged, the promotion lies within
  the journal the snapshot has read; it holds exactly the live positions and the working orders of
  the account, every quantity in it is a finite number, every held position has a finite market
  value, and net liquidation is finite and positive and daily P\&L finite.
\<close>

theorem risk_snapshot_fenced:
  assumes "capture_risk_snapshot_in_tx rnd t journal account_id = Inr sn"
  shows "(\<exists>g c. g \<in> set (bt_generations t) \<and> bg_status g = Promoted \<and> bg_generation_id g = sn_generation_id sn
      \<and> bg_promoted_cursor g = Some c \<and> 0 \<le> c \<and> c \<le> sn_source_cursor sn)
    \<and> (\<forall>g \<in> set (bt_generations t). sn_generation_id sn < bg_generation_id g \<longrightarrow> bg_status g = Abandoned)
    \<and> sn_source_cursor sn = max_cursor journal \<and> sn_account_id sn = account_id
    \<and> set (sn_positions sn) = {r \<in> set (bt_positions t). bp_account_id r = account_id \<and> \<not> bp_deleted r}
    \<and> set (sn_working_orders sn) = {r \<in> set (bt_orders t). bo_account_id r = account_id \<and> \<not> bo_deleted r
        \<and> bo_status r \<in> set working_order_statuses}
    \<and> (\<forall>r \<in> set (sn_positions sn). flt_finite (bp_quantity r)
        \<and> (bp_quantity r = Fin 0 \<or> (\<exists>v. bp_market_value r = Some v \<and> flt_finite v)))
    \<and> (\<forall>r \<in> set (sn_working_orders sn). flt_finite (bo_total_quantity r) \<and> flt_finite (bo_filled_quantity r))
    \<and> (\<exists>q. sn_net_liquidation sn = Fin q \<and> 0 < q) \<and> flt_finite (sn_daily_pnl sn)"
proof -
  obtain g c at' account n d where gen: "snapshot_generation t = Inr (g, c, at')"
    and acc: "snapshot_account t account_id = Inr account"
    and n: "ba_net_liquidation account = Some n" "flt_finite n" "\<not> flt_le n (Fin 0)"
    and pos: "check_positions (filter (\<lambda>r. bp_account_id r = account_id) (select_active_positions_in_tx t)) = Inr ()"
    and d: "snapshot_daily_pnl rnd (ba_balances account)
        (filter (\<lambda>r. bp_account_id r = account_id) (select_active_positions_in_tx t)) = Inr d"
    and work: "list_all (\<lambda>r. flt_finite (bo_total_quantity r) \<and> flt_finite (bo_filled_quantity r))
        (filter (\<lambda>r. bo_account_id r = account_id) (select_working_orders_in_tx t))"
    and cur: "c \<le> max_cursor journal"
    and sn: "sn_generation_id sn = bg_generation_id g" "sn_source_cursor sn = max_cursor journal"
      "sn_account_id sn = ba_account_id account" "sn_net_liquidation sn = n" "sn_daily_pnl sn = d"
      "sn_positions sn = filter (\<lambda>r. bp_account_id r = account_id) (select_active_positions_in_tx t)"
      "sn_working_orders sn = filter (\<lambda>r. bo_account_id r = account_id) (select_working_orders_in_tx t)"
    using assms
    by (auto simp: capture_risk_snapshot_in_tx_def bind_sum_Inr Let_def split: option.splits if_splits)
  have top: "top_generation (\<lambda>g. bg_status g = Promoted) t = Some g" and c: "bg_promoted_cursor g = Some c" "0 \<le> c"
    and staging: "top_generation (\<lambda>s. bg_status s = Staging \<and> bg_generation_id g < bg_generation_id s) t = None"
    using gen by (auto simp: snapshot_generation_def split: option.splits if_splits)
  have newer: "bg_status x = Abandoned"
    if "x \<in> set (bt_generations t)" "bg_generation_id g < bg_generation_id x" for x
    using that top_generation_Some [OF top] staging [unfolded top_generation_None]
    by (cases "bg_status x") fastforce+
  have "ba_account_id account = account_id"
    using acc by (auto simp: snapshot_account_def find_Some_iff split: option.splits)
  moreover have "\<exists>q. n = Fin q \<and> 0 < q" using n(2,3) by (cases n) (auto simp: flt_finite_def)
  moreover have "flt_finite d"
    using d by (auto simp: snapshot_daily_pnl_def Let_def bind_sum_Inr split: if_splits)
  moreover have "\<forall>r \<in> set (sn_positions sn). flt_finite (bp_quantity r)
        \<and> (bp_quantity r = Fin 0 \<or> (\<exists>v. bp_market_value r = Some v \<and> flt_finite v))"
    using pos unfolding sn check_positions_def
    by (auto simp: list_all_iff flt_truthy_def flt_finite_iff split: option.splits) (metis flt_eq.simps(1) option.distinct(1))+
  moreover have "set (sn_positions sn) = {r \<in> set (bt_positions t). bp_account_id r = account_id \<and> \<not> bp_deleted r}"
    "set (sn_working_orders sn) = {r \<in> set (bt_orders t). bo_account_id r = account_id \<and> \<not> bo_deleted r
        \<and> bo_status r \<in> set working_order_statuses}"
    unfolding sn by (auto simp: select_active_positions_in_tx_def select_working_orders_in_tx_def)
  ultimately show ?thesis
    using top_generation_Some [OF top] c cur newer sn(1-5) work [folded sn(7)] by (auto simp: list_all_iff)
qed

definition demo_broker :: broker_tables where
  "demo_broker =
     \<lparr>bt_accounts = [\<lparr>ba_account_id = ''DU1'', ba_account_mode = ''paper'', ba_net_liquidation = Some (Fin 100000),
        ba_total_cash = None, ba_buying_power = None, ba_available_funds = None, ba_maintenance_margin = None,
        ba_balances = [(''NetLiquidation:USD'', ''100000''), (''DailyPnL:USD'', ''-12.5'')], ba_revision = 1,
        ba_source_timestamp = 0\<rparr>],
      bt_positions = [\<lparr>bp_account_id = ''DU1'', bp_conid = 42, bp_symbol = ''AMD'', bp_sec_type = ''STK'',
        bp_exchange = None, bp_currency = ''USD'', bp_quantity = Fin 10, bp_average_cost = None,
        bp_market_price = None, bp_market_value = Some (Fin 1500), bp_unrealized_pnl = None,
        bp_realized_pnl = None, bp_daily_pnl = None, bp_deleted = False, bp_revision = 1,
        bp_source_timestamp = 0\<rparr>],
      bt_orders = [], bt_aliases = [], bt_fills = [],
      bt_generations = [\<lparr>bg_generation_id = 1, bg_status = Promoted, bg_sources_required = [''positions''],
        bg_sources_complete = [''positions''], bg_promoted_cursor = Some 0, bg_abandon_reason = None,
        bg_started_at = 0, bg_completed_at = Some 1\<rparr>],
      bt_next_generation = 2, bt_staging = []\<rparr>"

definition demo_snapshot :: risk_snapshot where
  "demo_snapshot = (case capture_risk_snapshot_in_tx Fin demo_broker [] ''DU1'' of Inr sn \<Rightarrow> sn)"

lemma demo_capture: "capture_risk_snapshot_in_tx Fin demo_broker [] ''DU1'' = Inr demo_snapshot"
proof -
  have "is_ok (capture_risk_snapshot_in_tx Fin demo_broker [] ''DU1'')" by code_simp
  then show ?thesis
    by (cases "capture_risk_snapshot_in_tx Fin demo_broker [] ''DU1''") (simp_all add: demo_snapshot_def)
qed

theorem risk_snapshot_fenced_witness:
  "sn_source_cursor demo_snapshot = max_cursor [] \<and> sn_daily_pnl demo_snapshot = Fin (- 25 / 2)
   \<and> set (sn_positions demo_snapshot) = set (bt_positions demo_broker)"
proof -
  have "sn_daily_pnl demo_snapshot = Fin (- 25 / 2)" by code_simp
  moreover have "\<forall>r \<in> set (bt_positions demo_broker). bp_account_id r = ''DU1'' \<and> \<not> bp_deleted r" by code_simp
  moreover note risk_snapshot_fenced [OF demo_capture]
  ultimately show ?thesis by blast
qed

end
