(* ===== verification/Pretrade_Gates.thy ===== *)
theory Pretrade_Gates
  imports Proposal_Service Broker_State
begin

text \<open>
  The checks an order passes before it is sent: the risk gate (\<^verbatim>\<open>src/trader/trading/risk_gate.py\<close>), the
  trading filter (\<^verbatim>\<open>src/trader/trading/trading_filter.py\<close>), the structural order check
  (\<^verbatim>\<open>src/trader/trading/order_validator.py\<close>), and the pure guards of an approval in
  \<^verbatim>\<open>src/trader/trading/command_coordinator.py\<close> (\<open>classify_risk_direction\<close>,
  \<open>check_exposure_increasing_guards\<close>). Reasons are constructors in place of the message texts.
\<close>

section \<open>The risk gate\<close>

record risk_limits =
  rl_max_position_size_pct :: pyfloat
  rl_max_daily_loss :: pyfloat
  rl_max_open_orders :: int
  rl_max_signals_per_hour :: int
  rl_max_leverage :: pyfloat
  rl_min_margin_cushion :: pyfloat

datatype gate_refusal =
    MaxOpenOrders | DailyLoss | Concentration | SignalRate | Leverage | MarginCushion | TradingFilterRefused

text \<open>\<open>None\<close> is an approval.\<close>

type_synonym gate_result = "gate_refusal option"

text \<open>\<open>a / b\<close> where the code has made sure that \<open>b\<close> is positive.\<close>

definition div_pos :: "(rat \<Rightarrow> pyfloat) \<Rightarrow> pyfloat \<Rightarrow> pyfloat \<Rightarrow> pyfloat" where
  "div_pos rnd a b = opt_or NaN (flt_div rnd a b)"

text \<open>
  \<open>signal_count\<close> is what \<open>event_store.count_since\<close> returns for the signal's source over the last
  hour; the rest of the signal is not read.
\<close>

definition risk_gate_evaluate ::
    "(rat \<Rightarrow> pyfloat) \<Rightarrow> risk_limits \<Rightarrow> int \<Rightarrow> int \<Rightarrow> pyfloat \<Rightarrow> pyfloat \<Rightarrow> pyfloat \<Rightarrow> gate_result" where
  "risk_gate_evaluate rnd limits signal_count open_orders daily_pnl portfolio_value held_value =
     (if rl_max_open_orders limits \<le> open_orders then Some MaxOpenOrders
      else if flt_less daily_pnl (flt_neg (rl_max_daily_loss limits)) then Some DailyLoss
      else if flt_less (Fin 0) portfolio_value \<and> flt_less (Fin 0) held_value
          \<and> flt_less (rl_max_position_size_pct limits) (div_pos rnd held_value portfolio_value)
      then Some Concentration
      else if rl_max_signals_per_hour limits \<le> signal_count then Some SignalRate
      else None)"

text \<open>The two margin figures default to 0 when the dict lacks them.\<close>

definition check_leverage ::
    "(rat \<Rightarrow> pyfloat) \<Rightarrow> risk_limits \<Rightarrow> pyfloat option \<Rightarrow> pyfloat option \<Rightarrow> pyfloat \<Rightarrow> gate_result" where
  "check_leverage rnd limits init_margin equity net_liquidation =
     (let init_margin_after = opt_or (Fin 0) init_margin; equity_after = opt_or (Fin 0) equity
      in if flt_less (Fin 0) net_liquidation \<and> flt_truthy init_margin_after
            \<and> flt_less (rl_max_leverage limits) (div_pos rnd init_margin_after net_liquidation)
         then Some Leverage
         else if flt_truthy equity_after \<and> flt_less (Fin 0) net_liquidation
            \<and> flt_less (div_pos rnd (flt_sub rnd equity_after init_margin_after) net_liquidation)
                (rl_min_margin_cushion limits)
         then Some MarginCushion
         else None)"

section \<open>The trading filter\<close>

record trading_filter =
  tf_denylist :: "string list"
  tf_allowlist :: "string list"
  tf_exchanges :: "string list"
  tf_deny_exchanges :: "string list"
  tf_sec_types :: "string list"
  tf_deny_sec_types :: "string list"
  tf_locations :: "string list"
  tf_deny_locations :: "string list"
  tf_min_price :: pyfloat

datatype filter_reason =
    NotInAllowlist | OnDenylist | ExchangeDenied | ExchangeNotAllowed | SecTypeDenied | SecTypeNotAllowed
  | LocationDenied | LocationNotAllowed | BelowMinPrice

definition listed :: "string \<Rightarrow> string list \<Rightarrow> bool" where
  "listed name names \<longleftrightarrow> upper name \<in> upper ` set names"

text \<open>\<open>None\<close> is \<open>(True, '')\<close>.\<close>

definition is_allowed :: "trading_filter \<Rightarrow> string \<Rightarrow> string \<Rightarrow> string \<Rightarrow> pyfloat \<Rightarrow> string \<Rightarrow> filter_reason option" where
  "is_allowed f symbol exchange sec_type price location =
     (if tf_allowlist f \<noteq> [] \<and> \<not> listed symbol (tf_allowlist f) then Some NotInAllowlist
      else if listed symbol (tf_denylist f) then Some OnDenylist
      else if exchange \<noteq> [] \<and> tf_deny_exchanges f \<noteq> [] \<and> listed exchange (tf_deny_exchanges f)
      then Some ExchangeDenied
      else if exchange \<noteq> [] \<and> tf_exchanges f \<noteq> [] \<and> \<not> listed exchange (tf_exchanges f)
      then Some ExchangeNotAllowed
      else if sec_type \<noteq> [] \<and> tf_deny_sec_types f \<noteq> [] \<and> listed sec_type (tf_deny_sec_types f)
      then Some SecTypeDenied
      else if sec_type \<noteq> [] \<and> tf_sec_types f \<noteq> [] \<and> \<not> listed sec_type (tf_sec_types f)
      then Some SecTypeNotAllowed
      else if location \<noteq> [] \<and> tf_deny_locations f \<noteq> [] \<and> listed location (tf_deny_locations f)
      then Some LocationDenied
      else if location \<noteq> [] \<and> tf_locations f \<noteq> [] \<and> \<not> listed location (tf_locations f)
      then Some LocationNotAllowed
      else if flt_less (Fin 0) price \<and> flt_less (Fin 0) (tf_min_price f) \<and> flt_less price (tf_min_price f)
      then Some BelowMinPrice
      else None)"

definition filter_is_empty :: "trading_filter \<Rightarrow> bool" where
  "filter_is_empty f \<longleftrightarrow>
     tf_denylist f = [] \<and> tf_allowlist f = [] \<and> tf_exchanges f = [] \<and> tf_deny_exchanges f = []
     \<and> tf_sec_types f = [] \<and> tf_deny_sec_types f = [] \<and> tf_locations f = [] \<and> tf_deny_locations f = []
     \<and> flt_le (tf_min_price f) (Fin 0)"

text \<open>\<open>RiskGate.check_instrument\<close> leaves price and location at their defaults.\<close>

definition check_instrument :: "trading_filter option \<Rightarrow> string \<Rightarrow> string \<Rightarrow> string \<Rightarrow> gate_result" where
  "check_instrument f symbol exchange sec_type =
     (case f of
        None \<Rightarrow> None
      | Some flt \<Rightarrow>
          if is_allowed flt symbol exchange sec_type (Fin 0) [] = None then None else Some TradingFilterRefused)"

section \<open>The structural order check\<close>

text \<open>
  The attributes of the broker library's order that are read; None is a missing or \<open>None\<close>
  attribute, for which \<open>float(None)\<close> raises and the number counts as not positive.
\<close>

record checked_order =
  od_action :: string
  od_totalQuantity :: "pyfloat option"
  od_orderType :: string
  od_lmtPrice :: "pyfloat option"
  od_auxPrice :: "pyfloat option"

datatype order_refusal = InvalidAction | BadQuantity | LimitPriceRequired | StopPriceRequired

definition finite_positive :: "pyfloat option \<Rightarrow> bool" where
  "finite_positive x = (case x of None \<Rightarrow> False | Some v \<Rightarrow> flt_finite v \<and> flt_less (Fin 0) v)"

definition check_order :: "checked_order \<Rightarrow> order_refusal option" where
  "check_order order =
     (let otype = upper (od_orderType order)
      in if upper (od_action order) \<notin> {''BUY'', ''SELL''} then Some InvalidAction
         else if \<not> finite_positive (od_totalQuantity order) then Some BadQuantity
         else if otype \<in> {''LMT'', ''STP LMT''} \<and> \<not> finite_positive (od_lmtPrice order) then Some LimitPriceRequired
         else if otype \<in> {''STP'', ''STP LMT''} \<and> \<not> finite_positive (od_auxPrice order) then Some StopPriceRequired
         else None)"

definition sanity_check_order :: "checked_order \<Rightarrow> bool" where
  "sanity_check_order order \<longleftrightarrow> check_order order = None"

definition sanity_check_basket :: "checked_order list \<Rightarrow> bool" where
  "sanity_check_basket orders \<longleftrightarrow> list_all (\<lambda>order. check_order order = None) orders"

section \<open>The guards of an approval\<close>

datatype risk_direction = INCREASING | REDUCING

definition classify_risk_direction :: "string \<Rightarrow> pyfloat \<Rightarrow> pyfloat \<Rightarrow> risk_direction" where
  "classify_risk_direction action held_quantity order_quantity =
     (if action = ''SELL'' \<and> flt_less (Fin 0) held_quantity \<and> flt_le order_quantity held_quantity then REDUCING
      else if action = ''BUY'' \<and> flt_less held_quantity (Fin 0) \<and> flt_le order_quantity (flt_neg held_quantity)
      then REDUCING
      else INCREASING)"

record command_problem =
  cp_code :: string
  cp_retryable :: bool

text \<open>What the guards may raise: arithmetic on a missing value or a naive time, and a division by zero.\<close>

datatype guard_exception = GuardTypeError | GuardZeroDivision

definition max_source_clock_skew_seconds :: pyfloat where
  "max_source_clock_skew_seconds = Fin 30"

definition quote_age :: "(rat \<Rightarrow> pyfloat) \<Rightarrow> instant \<Rightarrow> executable_quote \<Rightarrow> guard_exception + pyfloat" where
  "quote_age rnd now quote =
     (case xq_market_timestamp quote of
        Naive _ \<Rightarrow> Inl GuardTypeError
      | Aware t \<Rightarrow> Inr (total_seconds rnd (now - t)))"

definition check_quote_age ::
    "(rat \<Rightarrow> pyfloat) \<Rightarrow> instant \<Rightarrow> pyfloat \<Rightarrow> executable_quote \<Rightarrow> guard_exception + command_problem option" where
  "check_quote_age rnd now max_age quote =
     bind_sum (quote_age rnd now quote) (\<lambda>age.
       if flt_less max_age age then Inr (Some \<lparr>cp_code = ''QUOTE_STALE'', cp_retryable = True\<rparr>)
       else if flt_less age (flt_neg max_source_clock_skew_seconds)
       then Inr (Some \<lparr>cp_code = ''SOURCE_CLOCK_SKEW'', cp_retryable = True\<rparr>)
       else Inr None)"

definition drift_bps :: "(rat \<Rightarrow> pyfloat) \<Rightarrow> pyfloat \<Rightarrow> pyfloat \<Rightarrow> guard_exception + pyfloat" where
  "drift_bps rnd price reference =
     (case flt_div rnd (flt_abs (flt_sub rnd price reference)) reference of
        None \<Rightarrow> Inl GuardZeroDivision
      | Some q \<Rightarrow> Inr (flt_mul rnd q (Fin 10000)))"

definition check_drift ::
    "(rat \<Rightarrow> pyfloat) \<Rightarrow> proposal_record \<Rightarrow> executable_quote \<Rightarrow> guard_exception + command_problem option" where
  "check_drift rnd record quote =
     (case pr_reference_price record of
        None \<Rightarrow> Inl GuardTypeError
      | Some reference \<Rightarrow>
          bind_sum (drift_bps rnd (xq_price quote) reference) (\<lambda>bps.
            case pr_max_price_drift_bps record of
              None \<Rightarrow> Inl GuardTypeError
            | Some limit \<Rightarrow>
                if flt_less limit bps then Inr (Some \<lparr>cp_code = ''PRICE_DRIFT_EXCEEDED'', cp_retryable = False\<rparr>)
                else Inr None))"

definition check_live_quote ::
    "(rat \<Rightarrow> pyfloat) \<Rightarrow> proposal_record \<Rightarrow> executable_quote \<Rightarrow> instant \<Rightarrow> bool
     \<Rightarrow> guard_exception + command_problem option" where
  "check_live_quote rnd record quote now outside_session_limit_enabled =
     (if xq_feed_type quote \<noteq> ''live'' then Inr (Some \<lparr>cp_code = ''FEED_NOT_LIVE'', cp_retryable = True\<rparr>)
      else if xq_session_state quote \<noteq> ''continuous''
          \<and> (opt_or (JStr ''MARKET'') (jget (pr_execution record) ''order_type'') = JStr ''MARKET''
             \<or> \<not> outside_session_limit_enabled)
      then Inr (Some \<lparr>cp_code = ''SESSION_INCOMPATIBLE'', cp_retryable = True\<rparr>)
      else check_quote_age rnd now (Fin 5) quote)"

definition check_exposure_increasing_guards ::
    "(rat \<Rightarrow> pyfloat) \<Rightarrow> proposal_record \<Rightarrow> executable_quote option \<Rightarrow> instant \<Rightarrow> string \<Rightarrow> bool \<Rightarrow> pyfloat option
     \<Rightarrow> guard_exception + command_problem option" where
  "check_exposure_increasing_guards rnd record quote now account_mode outside_session_limit_enabled
       paper_max_quote_age_seconds =
     (let expected_side = (if pr_action record = ''BUY'' then ''ask'' else ''bid'')
      in case quote of
           None \<Rightarrow> Inr (Some \<lparr>cp_code = ''EXECUTABLE_QUOTE_MISSING'', cp_retryable = True\<rparr>)
         | Some q \<Rightarrow>
             if xq_side q \<noteq> expected_side \<or> \<not> flt_truthy (xq_price q) \<or> flt_le (xq_price q) (Fin 0)
             then Inr (Some \<lparr>cp_code = ''EXECUTABLE_QUOTE_MISSING'', cp_retryable = True\<rparr>)
             else bind_sum
               (if account_mode = ''live'' then check_live_quote rnd record q now outside_session_limit_enabled
                else case paper_max_quote_age_seconds of
                       None \<Rightarrow> Inr None
                     | Some max_age \<Rightarrow> check_quote_age rnd now max_age q)
               (\<lambda>problem. case problem of Some p \<Rightarrow> Inr (Some p) | None \<Rightarrow> check_drift rnd record q))"

section \<open>What the gates promise\<close>

text \<open>
  A closing order never increases or flips a position: an order classified as reducing, for
  which the pause gate and the quote guards are waived, leaves a holding of the same sign (or none)
  that is no larger than before, whatever non-negative quantity it asks for.
\<close>

lemma reducing_never_flips:
  assumes "classify_risk_direction action (Fin held) (Fin quantity) = REDUCING" and "0 \<le> quantity"
    and "after = (if action = ''BUY'' then held + quantity else held - quantity)"
  shows "\<bar>after\<bar> \<le> \<bar>held\<bar> \<and> 0 \<le> after * held \<and> held \<noteq> 0 \<and> action \<in> {''BUY'', ''SELL''}"
  using assms
  by (auto simp: classify_risk_direction_def zero_le_mult_iff split: if_splits)

lemma reducing_never_flips_example:
  "classify_risk_direction ''BUY'' (Fin (- 10)) (Fin 4) = REDUCING \<and> \<bar>- 10 + 4 :: rat\<bar> \<le> \<bar>- 10\<bar>"
proof -
  have "classify_risk_direction ''BUY'' (Fin (- 10)) (Fin 4) = REDUCING"
    by (simp add: classify_risk_direction_def)
  with reducing_never_flips [OF this, of "- 6"] show ?thesis by simp
qed

text \<open>A missing quantity, an infinite and a NaN one, and one beyond the holding are never exempt.\<close>

lemma oversized_sell_increases: "flt_less held quantity \<Longrightarrow> classify_risk_direction ''SELL'' held quantity = INCREASING"
  by (auto simp: classify_risk_direction_def dest: flt_le_not_less)

lemma check_quote_age_ok:
  "check_quote_age rnd now max_age q = Inr None \<longleftrightarrow>
     (\<exists>t. xq_market_timestamp q = Aware t \<and> \<not> flt_less max_age (total_seconds rnd (now - t))
        \<and> \<not> flt_less (total_seconds rnd (now - t)) (Fin (- 30)))"
  by (auto simp: check_quote_age_def quote_age_def bind_sum_def max_source_clock_skew_seconds_def
      split: pydatetime.splits if_splits)

lemma check_drift_ok:
  "check_drift rnd r q = Inr None \<longleftrightarrow>
     (\<exists>reference limit bps. pr_reference_price r = Some reference \<and> pr_max_price_drift_bps r = Some limit
        \<and> drift_bps rnd (xq_price q) reference = Inr bps \<and> \<not> flt_less limit bps)"
  by (auto simp: check_drift_def bind_sum_Inr split: option.splits if_splits)

text \<open>
  On a live account an order that increases exposure passes the guards exactly when there is a
  quote of the side it will cross, with a price that is not zero or negative, from the live feed,
  in a continuous session (or the order is not a market order and orders outside the session are
  enabled), not older than five seconds nor more than thirty seconds ahead of the clock, and the
  price drift against the reference price of the proposal does not exceed its limit.
\<close>

lemma live_exposure_guards_exact:
  "check_exposure_increasing_guards rnd r quote now ''live'' outside max_age = Inr None \<longleftrightarrow>
   (\<exists>q t reference limit bps. quote = Some q
      \<and> xq_side q = (if pr_action r = ''BUY'' then ''ask'' else ''bid'')
      \<and> \<not> flt_le (xq_price q) (Fin 0) \<and> xq_feed_type q = ''live''
      \<and> (xq_session_state q = ''continuous''
         \<or> outside \<and> opt_or (JStr ''MARKET'') (jget (pr_execution r) ''order_type'') \<noteq> JStr ''MARKET'')
      \<and> xq_market_timestamp q = Aware t \<and> \<not> flt_less (Fin 5) (total_seconds rnd (now - t))
      \<and> \<not> flt_less (total_seconds rnd (now - t)) (Fin (- 30))
      \<and> pr_reference_price r = Some reference \<and> pr_max_price_drift_bps r = Some limit
      \<and> drift_bps rnd (xq_price q) reference = Inr bps \<and> \<not> flt_less limit bps)"
proof (cases quote)
  case None
  then show ?thesis by (simp add: check_exposure_increasing_guards_def)
next
  case (Some q)
  have truthy: "flt_truthy (xq_price q)" if "\<not> flt_le (xq_price q) (Fin 0)"
    using that by (auto simp: flt_truthy_def flt_le_def)
  have "check_exposure_increasing_guards rnd r quote now ''live'' outside max_age = Inr None \<longleftrightarrow>
      xq_side q = (if pr_action r = ''BUY'' then ''ask'' else ''bid'') \<and> \<not> flt_le (xq_price q) (Fin 0)
      \<and> xq_feed_type q = ''live''
      \<and> (xq_session_state q = ''continuous''
         \<or> outside \<and> opt_or (JStr ''MARKET'') (jget (pr_execution r) ''order_type'') \<noteq> JStr ''MARKET'')
      \<and> check_quote_age rnd now (Fin 5) q = Inr None \<and> check_drift rnd r q = Inr None"
    using Some truthy
    by (auto simp: check_exposure_increasing_guards_def check_live_quote_def Let_def bind_sum_Inr
        split: option.splits if_splits)
  then show ?thesis unfolding check_quote_age_ok check_drift_ok Some by blast
qed

text \<open>
  A quote without a number slips through: the comparisons with a NaN price are all false, the
  drift is NaN, and NaN exceeds no limit.
\<close>

lemma nan_price_passes:
  assumes "pr_reference_price r = Some (Fin p)" and "p \<noteq> 0" and "pr_max_price_drift_bps r = Some (Fin limit)"
    and "xq_side q = (if pr_action r = ''BUY'' then ''ask'' else ''bid'')" and "xq_price q = NaN"
  shows "check_exposure_increasing_guards rnd r (Some q) now ''paper'' outside None = Inr None"
  using assms
  by (simp add: check_exposure_increasing_guards_def check_drift_def drift_bps_def flt_truthy_def
      flt_sub_def flt_le_def)

text \<open>
  The risk gate approves exactly when fewer orders than the limit are open, the daily loss is
  within its limit, the position is not concentrated above its share of the portfolio, and the
  source sent fewer signals than the limit in the last hour.
\<close>

lemma risk_gate_exact:
  "risk_gate_evaluate rnd limits signal_count open_orders daily_pnl portfolio held = None \<longleftrightarrow>
     open_orders < rl_max_open_orders limits
     \<and> \<not> flt_less daily_pnl (flt_neg (rl_max_daily_loss limits))
     \<and> \<not> (flt_less (Fin 0) portfolio \<and> flt_less (Fin 0) held
          \<and> flt_less (rl_max_position_size_pct limits) (div_pos rnd held portfolio))
     \<and> signal_count < rl_max_signals_per_hour limits"
  by (auto simp: risk_gate_evaluate_def)

text \<open>Letter case never decides; the denylist wins over the allowlist; an empty filter passes everything.\<close>

lemma filter_case_blind:
  "is_allowed f (upper symbol) (upper exchange) (upper sec_type) price (upper location)
     = is_allowed f symbol exchange sec_type price location"
  by (simp add: is_allowed_def listed_def)

lemma denylist_wins: "listed symbol (tf_denylist f) \<Longrightarrow> is_allowed f symbol exchange sec_type price location \<noteq> None"
  by (simp add: is_allowed_def)

lemma flt_pos_not_le: "flt_less (Fin 0) x \<Longrightarrow> \<not> flt_le x (Fin 0)"
  using flt_le_not_less by blast

lemma empty_filter_allows: "filter_is_empty f \<Longrightarrow> is_allowed f symbol exchange sec_type price location = None"
  by (auto simp: filter_is_empty_def is_allowed_def listed_def dest: flt_pos_not_le)

text \<open>
  The structural check accepts a limit order whose price was never set: the broker library marks
  an unset price with the largest finite double, which is finite and positive.
\<close>

lemma unset_price_accepted:
  "check_order \<lparr>od_action = ''BUY'', od_totalQuantity = Some (Fin 1), od_orderType = ''LMT'',
     od_lmtPrice = Some unset_double, od_auxPrice = None\<rparr> = None"
  "price_or_none (Some unset_double) = None"
proof -
  have "upper ''BUY'' = ''BUY''" "upper ''LMT'' = ''LMT''" by code_simp+
  then show "check_order \<lparr>od_action = ''BUY'', od_totalQuantity = Some (Fin 1), od_orderType = ''LMT'',
     od_lmtPrice = Some unset_double, od_auxPrice = None\<rparr> = None"
    by (simp add: check_order_def finite_positive_def flt_finite_def unset_double_def)
  show "price_or_none (Some unset_double) = None"
    by (simp add: price_or_none_def unset_double_def)
qed

end
