(* ===== verification/Entry_Limits.thy ===== *)
theory Entry_Limits
  imports Broker_State Circuit_Breaker
begin

text \<open>
  The limits an automated entry must fit: \<open>RiskLimits\<close> (\<^verbatim>\<open>src/trader/automation/risk_limits.py\<close>), the
  liquidity policy (\<^verbatim>\<open>src/trader/automation/liquidity_policy.py\<close>), the gross allocation policy
  (\<^verbatim>\<open>src/trader/promotion/allocation_policy.py\<close>) and the sizing of an entry
  (\<^verbatim>\<open>src/trader/automation/ai_paper_sizing.py\<close>). All of it is pure arithmetic on floats; \<open>rnd\<close> is the
  rounding, and a decimal literal of the source is the double nearest to it.
\<close>

section \<open>Risk limits as data\<close>

record entry_limits =
  el_max_positions :: int
  el_position_fraction :: pyfloat
  el_gross_fraction :: pyfloat
  el_trade_risk_fraction :: pyfloat
  el_daily_loss_fraction :: pyfloat
  el_drawdown_fraction :: pyfloat
  el_max_pending_entry_orders :: int

definition limit_fields :: "string list" where
  "limit_fields = [''max_positions'', ''position_fraction'', ''gross_fraction'', ''trade_risk_fraction'',
     ''daily_loss_fraction'', ''drawdown_fraction'', ''max_pending_entry_orders'']"

text \<open>\<open>LimitOverflow\<close>: an integer too large for a float.\<close>

datatype limits_error = LimitInvalid "string list" | LimitOverflow

definition check_count :: "string \<Rightarrow> json \<Rightarrow> limits_error + int" where
  "check_count name v =
     (case v of JInt i \<Rightarrow> if i < 1 then Inl (LimitInvalid [name]) else Inr i | _ \<Rightarrow> Inl (LimitInvalid [name]))"

definition checked_fraction :: "(rat \<Rightarrow> pyfloat) \<Rightarrow> string \<Rightarrow> json \<Rightarrow> limits_error + pyfloat" where
  "checked_fraction rnd name v =
     (case v of
        JInt i \<Rightarrow> (case rnd (of_int i) of
                     Fin q \<Rightarrow> if i \<le> 0 then Inl (LimitInvalid [name]) else Inr (Fin q)
                   | _ \<Rightarrow> Inl LimitOverflow)
      | JNum x \<Rightarrow> if \<not> flt_finite x \<or> flt_le x (Fin 0) then Inl (LimitInvalid [name]) else Inr x
      | _ \<Rightarrow> Inl (LimitInvalid [name]))"

text \<open>The constructor with its \<open>__post_init__\<close>: the fields are checked in their order.\<close>

definition make_limits ::
    "(rat \<Rightarrow> pyfloat) \<Rightarrow> (string \<Rightarrow> json) \<Rightarrow> limits_error + entry_limits" where
  "make_limits rnd v =
     bind_sum (check_count ''max_positions'' (v ''max_positions'')) (\<lambda>positions.
     bind_sum (checked_fraction rnd ''position_fraction'' (v ''position_fraction'')) (\<lambda>position.
     bind_sum (checked_fraction rnd ''gross_fraction'' (v ''gross_fraction'')) (\<lambda>gross.
     bind_sum (checked_fraction rnd ''trade_risk_fraction'' (v ''trade_risk_fraction'')) (\<lambda>risk.
     bind_sum (checked_fraction rnd ''daily_loss_fraction'' (v ''daily_loss_fraction'')) (\<lambda>daily.
     bind_sum (checked_fraction rnd ''drawdown_fraction'' (v ''drawdown_fraction'')) (\<lambda>drawdown.
     bind_sum (check_count ''max_pending_entry_orders'' (v ''max_pending_entry_orders'')) (\<lambda>pending.
     Inr \<lparr>el_max_positions = positions, el_position_fraction = position, el_gross_fraction = gross,
          el_trade_risk_fraction = risk, el_daily_loss_fraction = daily, el_drawdown_fraction = drawdown,
          el_max_pending_entry_orders = pending\<rparr>)))))))"

definition limits_to_json :: "entry_limits \<Rightarrow> jobject" where
  "limits_to_json l =
     [(''max_positions'', JInt (el_max_positions l)), (''position_fraction'', JNum (el_position_fraction l)),
      (''gross_fraction'', JNum (el_gross_fraction l)), (''trade_risk_fraction'', JNum (el_trade_risk_fraction l)),
      (''daily_loss_fraction'', JNum (el_daily_loss_fraction l)),
      (''drawdown_fraction'', JNum (el_drawdown_fraction l)),
      (''max_pending_entry_orders'', JInt (el_max_pending_entry_orders l))]"

definition limits_from_json :: "(rat \<Rightarrow> pyfloat) \<Rightarrow> json \<Rightarrow> limits_error + entry_limits" where
  "limits_from_json rnd v =
     (case v of
        JObj kvs \<Rightarrow>
          if set (map fst kvs) \<noteq> set limit_fields then Inl (LimitInvalid [])
          else make_limits rnd (\<lambda>k. opt_or JNull (jget kvs k))
      | _ \<Rightarrow> Inl (LimitInvalid []))"

definition field_minima :: "entry_limits \<Rightarrow> entry_limits \<Rightarrow> entry_limits" where
  "field_minima a b =
     \<lparr>el_max_positions = min (el_max_positions a) (el_max_positions b),
      el_position_fraction = flt_min (el_position_fraction a) (el_position_fraction b),
      el_gross_fraction = flt_min (el_gross_fraction a) (el_gross_fraction b),
      el_trade_risk_fraction = flt_min (el_trade_risk_fraction a) (el_trade_risk_fraction b),
      el_daily_loss_fraction = flt_min (el_daily_loss_fraction a) (el_daily_loss_fraction b),
      el_drawdown_fraction = flt_min (el_drawdown_fraction a) (el_drawdown_fraction b),
      el_max_pending_entry_orders = min (el_max_pending_entry_orders a) (el_max_pending_entry_orders b)\<rparr>"

definition tighter :: "(rat \<Rightarrow> pyfloat) \<Rightarrow> entry_limits \<Rightarrow> entry_limits \<Rightarrow> limits_error + entry_limits" where
  "tighter rnd a b = make_limits rnd (\<lambda>k. opt_or JNull (jget (limits_to_json (field_minima a b)) k))"

definition fields_above :: "entry_limits \<Rightarrow> entry_limits \<Rightarrow> string list" where
  "fields_above a b = map fst (filter snd
     [(''max_positions'', el_max_positions b < el_max_positions a),
      (''position_fraction'', flt_less (el_position_fraction b) (el_position_fraction a)),
      (''gross_fraction'', flt_less (el_gross_fraction b) (el_gross_fraction a)),
      (''trade_risk_fraction'', flt_less (el_trade_risk_fraction b) (el_trade_risk_fraction a)),
      (''daily_loss_fraction'', flt_less (el_daily_loss_fraction b) (el_daily_loss_fraction a)),
      (''drawdown_fraction'', flt_less (el_drawdown_fraction b) (el_drawdown_fraction a)),
      (''max_pending_entry_orders'', el_max_pending_entry_orders b < el_max_pending_entry_orders a)])"

definition structural_problems :: "entry_limits \<Rightarrow> string list" where
  "structural_problems l = map snd (filter (\<lambda>c. \<not> fst c)
     [(flt_le (el_gross_fraction l) (Fin 1), ''GROSS_ABOVE_ONE''),
      (flt_le (el_position_fraction l) (el_gross_fraction l), ''POSITION_ABOVE_GROSS''),
      (flt_less (el_daily_loss_fraction l) (Fin 1), ''DAILY_LOSS_NOT_BELOW_ONE''),
      (flt_less (el_drawdown_fraction l) (Fin 1), ''DRAWDOWN_NOT_BELOW_ONE'')])"

definition paper_limits :: "(rat \<Rightarrow> pyfloat) \<Rightarrow> entry_limits" where
  "paper_limits rnd =
     \<lparr>el_max_positions = 3, el_position_fraction = rnd (5 / 100), el_gross_fraction = rnd (6 / 100),
      el_trade_risk_fraction = rnd (2 / 1000), el_daily_loss_fraction = rnd (5 / 1000),
      el_drawdown_fraction = rnd (3 / 100), el_max_pending_entry_orders = 3\<rparr>"

section \<open>Liquidity\<close>

record liquidity_evidence =
  le_price :: pyfloat
  le_median_dollar_volume_20d :: pyfloat
  le_adv_shares_20d :: pyfloat
  le_spread_bps :: pyfloat
  le_top_of_book_depth :: pyfloat
  le_feed_type :: string
  le_session_state :: string
  le_halt_requalifying :: bool
  le_sliced_execution_approved :: bool

record liquidity_decision =
  ld_approved :: bool
  ld_reason_codes :: "string list"
  ld_breaker_signals :: "breaker_signal list"

definition positive_finite :: "pyfloat \<Rightarrow> bool" where
  "positive_finite x \<longleftrightarrow> flt_finite x \<and> flt_less (Fin 0) x"

definition max_adv_fraction :: "(rat \<Rightarrow> pyfloat) \<Rightarrow> pyfloat" where
  "max_adv_fraction rnd = rnd (25 / 10000)"

definition max_spread_bps :: pyfloat where
  "max_spread_bps = Fin 15"

definition max_quantity :: "(rat \<Rightarrow> pyfloat) \<Rightarrow> liquidity_evidence \<Rightarrow> pyfloat" where
  "max_quantity rnd e =
     flt_min (flt_mul rnd (le_adv_shares_20d e) (max_adv_fraction rnd))
       (if le_sliced_execution_approved e then PosInf else le_top_of_book_depth e)"

definition evidence_usable :: "liquidity_evidence \<Rightarrow> bool" where
  "evidence_usable e \<longleftrightarrow> positive_finite (le_price e) \<and> positive_finite (le_median_dollar_volume_20d e)
     \<and> positive_finite (le_adv_shares_20d e) \<and> flt_finite (le_spread_bps e) \<and> flt_le (Fin 0) (le_spread_bps e)
     \<and> flt_finite (le_top_of_book_depth e) \<and> flt_le (Fin 0) (le_top_of_book_depth e)"

text \<open>The findings in the order they are appended: a reason, and the breaker signal that comes with it.\<close>

definition liquidity_findings ::
    "(rat \<Rightarrow> pyfloat) \<Rightarrow> string list \<Rightarrow> pyfloat \<Rightarrow> liquidity_evidence \<Rightarrow> instant
     \<Rightarrow> (string \<times> breaker_signal list) list" where
  "liquidity_findings rnd feeds qty e now =
     (let signal = (\<lambda>kind detail. [\<lparr>sg_kind = kind, sg_occurred_at = now, sg_detail = detail, sg_key = []\<rparr>])
      in map snd (filter fst
        [(flt_less (le_price e) (Fin 5), ''PRICE_FLOOR'', []),
         (flt_less (le_median_dollar_volume_20d e) (Fin 50000000), ''MEDIAN_DOLLAR_VOLUME'', []),
         (flt_less max_spread_bps (le_spread_bps e), ''SPREAD_BPS'', []),
         (flt_less (flt_mul rnd (le_adv_shares_20d e) (max_adv_fraction rnd)) qty, ''ADV_CAP'', []),
         (le_feed_type e \<notin> set feeds, ''FEED_NOT_LIVE'', signal ''QUOTE_FAILURE'' (le_feed_type e)),
         (le_session_state e = ''halted'', ''INSTRUMENT_HALT'', signal ''INSTRUMENT_HALT'' ''halted''),
         (le_halt_requalifying e, ''HALT_REQUALIFICATION'', []),
         (flt_less (le_top_of_book_depth e) qty \<and> \<not> le_sliced_execution_approved e, ''DEPTH_EXCEEDED'', [])]))"

definition liquidity_evaluate ::
    "(rat \<Rightarrow> pyfloat) \<Rightarrow> string list \<Rightarrow> pyfloat \<Rightarrow> liquidity_evidence \<Rightarrow> instant \<Rightarrow> liquidity_decision" where
  "liquidity_evaluate rnd feeds qty e now =
     (if \<not> evidence_usable e \<or> \<not> positive_finite qty
      then \<lparr>ld_approved = False, ld_reason_codes = [''LIQUIDITY_EVIDENCE_INVALID''], ld_breaker_signals = []\<rparr>
      else (let found = liquidity_findings rnd feeds qty e now
            in \<lparr>ld_approved = (found = []), ld_reason_codes = map fst found,
                ld_breaker_signals = concat (map snd found)\<rparr>))"

section \<open>The gross allocation policy\<close>

record alloc_authority =
  au_authority_digest :: "string option"
  au_account_id :: string
  au_account_mode :: string
  au_artifact_digest :: string
  au_max_gross_allocation :: pyfloat
  au_expires_at :: pydatetime
  au_stage :: string

record allocation_decision =
  ad_approved :: bool
  ad_reason_codes :: "string list"
  ad_effective_gross_ceiling :: pyfloat
  ad_authority_digest :: "string option"
  ad_limit_candidates :: "(string \<times> pyfloat) list"
  ad_current_gross_fraction :: pyfloat
  ad_projected_gross_fraction :: "pyfloat option"
  ad_broker_generation_id :: int
  ad_broker_source_cursor :: int

definition stage_max_ceiling :: "(rat \<Rightarrow> pyfloat) \<Rightarrow> string \<Rightarrow> pyfloat option" where
  "stage_max_ceiling rnd stage = map_of
     [(''CANARY'', rnd (6 / 100)), (''SCALE_1'', rnd (9 / 100)), (''SCALE_2'', rnd (135 / 1000)),
      (''STEADY'', rnd (15 / 100))] stage"

definition steady_max_gross_fraction :: "(rat \<Rightarrow> pyfloat) \<Rightarrow> pyfloat" where
  "steady_max_gross_fraction rnd = rnd (15 / 100)"

definition steady_limits :: "(rat \<Rightarrow> pyfloat) \<Rightarrow> entry_limits" where
  "steady_limits rnd = (paper_limits rnd)\<lparr>el_gross_fraction := steady_max_gross_fraction rnd\<rparr>"

text \<open>The slack of every comparison with a ceiling, \<open>1e-15\<close>.\<close>

definition gross_slack :: "(rat \<Rightarrow> pyfloat) \<Rightarrow> pyfloat" where
  "gross_slack rnd = rnd (1 / 10 ^ 15)"

text \<open>\<open>tuple(dict.fromkeys(xs))\<close>: the first occurrence of each.\<close>

definition from_keys :: "'a list \<Rightarrow> 'a list" where
  "from_keys xs = rev (remdups (rev xs))"

text \<open>What the authority adds: its candidates, its digest, and the reasons it gives against a live entry.\<close>

definition authority_candidates :: "(rat \<Rightarrow> pyfloat) \<Rightarrow> string \<Rightarrow> alloc_authority option \<Rightarrow> (string \<times> pyfloat) list" where
  "authority_candidates rnd account_mode authority =
     (case authority of
        None \<Rightarrow> []
      | Some a \<Rightarrow> (''signed_authority'', au_max_gross_allocation a)
          # (if account_mode = ''live''
             then [(''stage_'' @ lower (au_stage a),
                    opt_or (au_max_gross_allocation a) (stage_max_ceiling rnd (au_stage a)))]
             else []))"

definition authority_reasons ::
    "string \<Rightarrow> string \<Rightarrow> string \<Rightarrow> pydatetime \<Rightarrow> alloc_authority option \<Rightarrow> string list" where
  "authority_reasons account_mode account_id artifact_digest now authority =
     (if account_mode \<noteq> ''live'' then []
      else case authority of
             None \<Rightarrow> [''ALLOCATION_AUTHORITY_ABSENT'']
           | Some a \<Rightarrow>
               (if au_account_id a \<noteq> account_id then [''ALLOCATION_AUTHORITY_MISMATCH''] else [])
               @ (if au_artifact_digest a \<noteq> artifact_digest then [''ALLOCATION_AUTHORITY_MISMATCH''] else [])
               @ (if as_utc (au_expires_at a) \<le> as_utc now then [''ALLOCATION_AUTHORITY_EXPIRED''] else []))"

definition ceiling_candidates ::
    "(rat \<Rightarrow> pyfloat) \<Rightarrow> pyfloat \<Rightarrow> alloc_authority option \<Rightarrow> string \<Rightarrow> pyfloat option \<Rightarrow> (string \<times> pyfloat) list" where
  "ceiling_candidates rnd artifact_max_gross authority account_mode risk_limits_gross =
     [(''trader_steady_cap'', steady_max_gross_fraction rnd), (''artifact'', artifact_max_gross)]
     @ (case risk_limits_gross of None \<Rightarrow> [] | Some g \<Rightarrow> [(''risk_limits'', g)])
     @ authority_candidates rnd account_mode authority"

text \<open>\<open>min(...)\<close> of a non-empty sequence.\<close>

definition min_float :: "pyfloat list \<Rightarrow> pyfloat" where
  "min_float xs = foldl flt_min (hd xs) (tl xs)"

text \<open>Ceiling, candidates, digest and reasons.\<close>

definition resolve_effective_gross_ceiling ::
    "(rat \<Rightarrow> pyfloat) \<Rightarrow> pyfloat \<Rightarrow> alloc_authority option \<Rightarrow> string \<Rightarrow> string \<Rightarrow> string \<Rightarrow> pydatetime \<Rightarrow> pyfloat option
     \<Rightarrow> pyfloat \<times> (string \<times> pyfloat) list \<times> string option \<times> string list" where
  "resolve_effective_gross_ceiling rnd artifact_max_gross authority account_mode account_id artifact_digest now
       risk_limits_gross =
     (let candidates = ceiling_candidates rnd artifact_max_gross authority account_mode risk_limits_gross;
          reasons = authority_reasons account_mode account_id artifact_digest now authority;
          digest = (case authority of None \<Rightarrow> None | Some a \<Rightarrow> au_authority_digest a);
          effective = min_float (map snd candidates)
      in if flt_le effective (Fin 0) \<or> \<not> flt_finite effective
         then (Fin 0, candidates, digest, reasons @ [''GROSS_CEILING_INVALID''])
         else (effective, candidates, digest, reasons))"

definition usable_price :: "pyfloat option \<Rightarrow> pyfloat option" where
  "usable_price p = (case p of Some x \<Rightarrow> if positive_finite x then Some x else None | None \<Rightarrow> None)"

definition order_reference_price :: "order_row \<Rightarrow> (int \<Rightarrow> pyfloat option) \<Rightarrow> pyfloat option" where
  "order_reference_price order quote_prices =
     (case usable_price (bo_limit_price order) of
        Some p \<Rightarrow> Some p
      | None \<Rightarrow> (case usable_price (bo_stop_price order) of
                   Some p \<Rightarrow> Some p
                 | None \<Rightarrow> quote_prices (bo_conid order)))"

definition position_gross_notional :: "(rat \<Rightarrow> pyfloat) \<Rightarrow> risk_snapshot \<Rightarrow> pyfloat" where
  "position_gross_notional rnd broker =
     py_sum rnd (map (\<lambda>r. flt_abs (opt_or (Fin 0) (bp_market_value r)))
       (filter (\<lambda>r. \<not> bp_deleted r) (sn_positions broker)))"

definition remaining_quantity :: "(rat \<Rightarrow> pyfloat) \<Rightarrow> order_row \<Rightarrow> pyfloat" where
  "remaining_quantity rnd order = flt_max (Fin 0) (flt_sub rnd (bo_total_quantity order) (bo_filled_quantity order))"

text \<open>Whether the loop counts the order: a live BUY with a positive remainder, not the excluded one.\<close>

definition counts_as_entry :: "(rat \<Rightarrow> pyfloat) \<Rightarrow> string option \<Rightarrow> order_row \<Rightarrow> bool" where
  "counts_as_entry rnd excluded order \<longleftrightarrow> \<not> bo_deleted order \<and> excluded \<noteq> Some (bo_order_entity_id order)
     \<and> \<not> flt_le (remaining_quantity rnd order) (Fin 0) \<and> upper (bo_action order) = ''BUY''"

fun working_entry_notional ::
    "(rat \<Rightarrow> pyfloat) \<Rightarrow> (int \<Rightarrow> pyfloat option) \<Rightarrow> string option \<Rightarrow> pyfloat \<Rightarrow> order_row list \<Rightarrow> pyfloat \<times> string list" where
  "working_entry_notional rnd prices excluded acc [] = (acc, [])"
| "working_entry_notional rnd prices excluded acc (order # orders) =
     (if \<not> counts_as_entry rnd excluded order then working_entry_notional rnd prices excluded acc orders
      else case order_reference_price order prices of
             None \<Rightarrow> (case working_entry_notional rnd prices excluded acc orders of
                        (t, reasons) \<Rightarrow> (t, ''WORKING_ORDER_PRICE_UNKNOWN'' # reasons))
           | Some price \<Rightarrow> working_entry_notional rnd prices excluded
               (flt_add rnd acc (flt_mul rnd (remaining_quantity rnd order) price)) orders)"

definition gross_notional ::
    "(rat \<Rightarrow> pyfloat) \<Rightarrow> risk_snapshot \<Rightarrow> (int \<Rightarrow> pyfloat option) \<Rightarrow> string option \<Rightarrow> pyfloat \<times> string list" where
  "gross_notional rnd broker prices excluded =
     (case working_entry_notional rnd prices excluded (Fin 0) (sn_working_orders broker) of
        (pending, reasons) \<Rightarrow> (flt_add rnd (position_gross_notional rnd broker) pending, reasons))"

text \<open>A decision from its parts; with no usable equity it stops before the fractions.\<close>

definition make_decision ::
    "risk_snapshot \<Rightarrow> string list \<Rightarrow> pyfloat \<Rightarrow> string option \<Rightarrow> (string \<times> pyfloat) list \<Rightarrow> pyfloat \<Rightarrow> pyfloat option
     \<Rightarrow> allocation_decision" where
  "make_decision broker reasons effective digest candidates current projected =
     \<lparr>ad_approved = (from_keys reasons = []), ad_reason_codes = from_keys reasons,
      ad_effective_gross_ceiling = effective, ad_authority_digest = digest, ad_limit_candidates = candidates,
      ad_current_gross_fraction = current, ad_projected_gross_fraction = projected,
      ad_broker_generation_id = sn_generation_id broker, ad_broker_source_cursor = sn_source_cursor broker\<rparr>"

text \<open>\<open>side\<close>, \<open>conid\<close> and \<open>quantity\<close> are those of the intent, the artifact's gross and id those of the artifact.\<close>

definition allocation_evaluate ::
    "(rat \<Rightarrow> pyfloat) \<Rightarrow> pydatetime \<Rightarrow> string \<Rightarrow> int \<Rightarrow> pyfloat option \<Rightarrow> risk_snapshot \<Rightarrow> alloc_authority option
     \<Rightarrow> pyfloat \<Rightarrow> string \<Rightarrow> pyfloat option \<Rightarrow> (int \<Rightarrow> pyfloat option) \<Rightarrow> string option \<Rightarrow> pyfloat option
     \<Rightarrow> allocation_decision" where
  "allocation_evaluate rnd now side conid quantity broker authority artifact_max_gross artifact_id entry_price
       quote_prices excluded risk_limits_gross =
     (case resolve_effective_gross_ceiling rnd artifact_max_gross authority (sn_account_mode broker)
             (sn_account_id broker) artifact_id now risk_limits_gross of
        (effective, candidates, digest, reasons) \<Rightarrow>
         (let equity = sn_net_liquidation broker
          in if \<not> flt_finite equity \<or> flt_le equity (Fin 0)
             then make_decision broker (reasons @ [''EQUITY_INVALID'']) effective digest candidates (Fin 0) None
             else
              (let prices = (case entry_price of
                     Some p \<Rightarrow> if flt_finite p then quote_prices(conid := Some p) else quote_prices
                   | None \<Rightarrow> quote_prices)
               in case gross_notional rnd broker prices excluded of
                    (current_notional, pending) \<Rightarrow>
                     (let current = opt_or NaN (flt_div rnd current_notional equity);
                          entry = (if side \<noteq> ''BUY'' then (None, [])
                            else case usable_price entry_price of
                              None \<Rightarrow> (None, [''ENTRY_PRICE_REQUIRED''])
                            | Some price \<Rightarrow>
                               (let qty = opt_or (Fin 0) quantity
                                in if flt_le qty (Fin 0) then (None, [''QUANTITY_REQUIRED''])
                                   else (let projected = opt_or NaN (flt_div rnd
                                            (flt_add rnd current_notional (flt_mul rnd qty price)) equity)
                                         in (Some projected,
                                             if flt_less (flt_add rnd effective (gross_slack rnd)) projected
                                             then [''GROSS_EXPOSURE''] else []))))
                      in make_decision broker (reasons @ pending @ snd entry) effective digest candidates current
                           (fst entry)))))"

text \<open>\<open>revalidate_dispatch\<close>; None is its \<open>ValueError\<close>.\<close>

definition gross_breach ::
    "(rat \<Rightarrow> pyfloat) \<Rightarrow> pyfloat \<Rightarrow> pyfloat \<Rightarrow> pyfloat \<Rightarrow> pyfloat \<Rightarrow> pyfloat \<Rightarrow> string list" where
  "gross_breach rnd effective approved_ceiling projected_notional in_flight equity =
     (let slack = gross_slack rnd;
          projected = opt_or NaN (flt_div rnd projected_notional equity)
      in if \<not> flt_less (flt_add rnd effective slack) projected then []
         else if flt_less (flt_add rnd effective slack) approved_ceiling
             \<and> flt_le projected (flt_add rnd approved_ceiling slack)
         then [''LIMIT_TIGHTENED_BEFORE_DISPATCH'']
         else if flt_le (opt_or NaN (flt_div rnd (flt_sub rnd projected_notional in_flight) equity))
                   (flt_add rnd effective slack)
         then [''GROSS_EXPOSURE_IN_FLIGHT'']
         else [''GROSS_EXPOSURE''])"

definition fence_reasons :: "risk_snapshot \<Rightarrow> risk_snapshot \<Rightarrow> string list" where
  "fence_reasons broker approved =
     (if sn_generation_id broker < sn_generation_id approved then [''BROKER_GENERATION_STALE''] else [])
     @ (if sn_source_cursor broker < sn_source_cursor approved then [''BROKER_CURSOR_STALE''] else [])"

definition ceiling_reasons ::
    "(rat \<Rightarrow> pyfloat) \<Rightarrow> string option \<Rightarrow> string option \<Rightarrow> pyfloat \<Rightarrow> pyfloat \<Rightarrow> string list" where
  "ceiling_reasons rnd approved_digest digest effective approved_ceiling =
     (if approved_digest \<noteq> None \<and> digest \<noteq> approved_digest then [''ALLOCATION_AUTHORITY_CHANGED''] else [])
     @ (if flt_less (flt_add rnd approved_ceiling (gross_slack rnd)) effective
        then [''ALLOCATION_CEILING_CHANGED''] else [])"

text \<open>\<open>a or b\<close> on optional strings: the empty string is false.\<close>

definition or_digest :: "string option \<Rightarrow> string option \<Rightarrow> string option" where
  "or_digest a b = (case a of Some s \<Rightarrow> if s = [] then b else a | None \<Rightarrow> b)"

definition revalidate_dispatch ::
    "(rat \<Rightarrow> pyfloat) \<Rightarrow> pydatetime \<Rightarrow> risk_snapshot \<Rightarrow> risk_snapshot \<Rightarrow> int \<Rightarrow> string \<Rightarrow> pyfloat \<Rightarrow> pyfloat
     \<Rightarrow> alloc_authority option \<Rightarrow> pyfloat \<Rightarrow> string \<Rightarrow> string option \<Rightarrow> pyfloat \<Rightarrow> pyfloat \<Rightarrow> pyfloat option
     \<Rightarrow> allocation_decision option" where
  "revalidate_dispatch rnd now broker approved_broker conid side quantity entry_price authority artifact_max_gross
       artifact_digest authority_digest approved_ceiling in_flight risk_limits_gross =
     (if \<not> flt_finite in_flight \<or> flt_less in_flight (Fin 0) then None
      else case resolve_effective_gross_ceiling rnd artifact_max_gross authority (sn_account_mode broker)
                  (sn_account_id broker) artifact_digest now risk_limits_gross of
             (effective, candidates, digest, auth_reasons) \<Rightarrow>
              (let equity = sn_net_liquidation broker;
                   reasons = fence_reasons broker approved_broker @ auth_reasons
                     @ ceiling_reasons rnd authority_digest digest effective approved_ceiling;
                   shown = or_digest digest authority_digest
               in if \<not> flt_finite equity \<or> flt_le equity (Fin 0)
                  then Some (make_decision broker (reasons @ [''EQUITY_INVALID'']) effective shown candidates (Fin 0) None)
                  else case gross_notional rnd broker [conid \<mapsto> entry_price] None of
                         (broker_notional, pending) \<Rightarrow>
                          (let current_notional = flt_add rnd broker_notional in_flight;
                               current = opt_or NaN (flt_div rnd current_notional equity);
                               projected_notional = flt_add rnd current_notional
                                 (flt_mul rnd (flt_abs quantity) entry_price)
                           in if upper side = ''BUY''
                              then Some (make_decision broker
                                (reasons @ pending
                                 @ gross_breach rnd effective approved_ceiling projected_notional in_flight equity)
                                effective shown candidates current
                                (Some (opt_or NaN (flt_div rnd projected_notional equity))))
                              else Some (make_decision broker (reasons @ pending) effective shown candidates current None))))"

section \<open>Sizing an entry\<close>

record sizing_inputs =
  si_equity :: pyfloat
  si_price :: pyfloat
  si_stop_price :: pyfloat
  si_existing_position_value :: pyfloat
  si_current_gross_notional :: pyfloat
  si_liquidity_max_shares :: pyfloat
  si_notional_cap :: pyfloat

text \<open>The entry limits frozen at approval (\<open>EntryLimitsEvidence\<close> of \<^verbatim>\<open>approval_context.py\<close>).\<close>

record limits_evidence =
  lv_limits :: entry_limits
  lv_stop_price :: pyfloat
  lv_liquidity_max_shares :: pyfloat
  lv_notional_cap :: pyfloat
  lv_daily_loss_anchor :: pyfloat
  lv_high_water_mark :: pyfloat

definition shares :: "pyfloat \<Rightarrow> pyfloat" where
  "shares x = (if positive_finite x then x else Fin 0)"

text \<open>The five bounds on the number of shares; None when a division raises.\<close>

definition entry_bounds :: "(rat \<Rightarrow> pyfloat) \<Rightarrow> entry_limits \<Rightarrow> sizing_inputs \<Rightarrow> pyfloat list option" where
  "entry_bounds rnd l i =
     (case (flt_div rnd (flt_mul rnd (el_trade_risk_fraction l) (si_equity i))
              (flt_sub rnd (si_price i) (si_stop_price i)),
            flt_div rnd (flt_sub rnd (flt_mul rnd (el_position_fraction l) (si_equity i))
              (si_existing_position_value i)) (si_price i),
            flt_div rnd (flt_sub rnd (flt_mul rnd (el_gross_fraction l) (si_equity i))
              (si_current_gross_notional i)) (si_price i),
            flt_div rnd (si_notional_cap i) (si_price i)) of
        (Some risk, Some position, Some gross, Some notional) \<Rightarrow>
          Some [risk, position, gross, si_liquidity_max_shares i, notional]
      | _ \<Rightarrow> None)"

text \<open>\<open>int(math.floor(x))\<close>; None for an infinity or NaN.\<close>

definition floor_float :: "pyfloat \<Rightarrow> int option" where
  "floor_float x = (case x of Fin q \<Rightarrow> Some \<lfloor>q\<rfloor> | _ \<Rightarrow> None)"

definition max_entry_quantity :: "(rat \<Rightarrow> pyfloat) \<Rightarrow> entry_limits \<Rightarrow> sizing_inputs \<Rightarrow> int option" where
  "max_entry_quantity rnd l i =
     (if \<not> (positive_finite (si_equity i) \<and> positive_finite (si_price i) \<and> positive_finite (si_stop_price i))
         \<or> flt_le (si_price i) (si_stop_price i)
      then Some 0
      else case entry_bounds rnd l i of
             None \<Rightarrow> None
           | Some bounds \<Rightarrow> floor_float (flt_add rnd (min_float (map shares bounds)) (rnd (1 / 10 ^ 9))))"

definition protective_legs :: "string list" where
  "protective_legs = [''stop'', ''take_profit'', ''exit'']"

definition is_pending_entry :: "(rat \<Rightarrow> pyfloat) \<Rightarrow> order_row \<Rightarrow> bool" where
  "is_pending_entry rnd order \<longleftrightarrow> \<not> bo_deleted order
     \<and> flt_less (Fin 0) (flt_sub rnd (bo_total_quantity order) (bo_filled_quantity order))
     \<and> (case bo_leg order of Some leg \<Rightarrow> leg \<notin> set protective_legs | None \<Rightarrow> True)"

definition busy_conids :: "(rat \<Rightarrow> pyfloat) \<Rightarrow> risk_snapshot \<Rightarrow> int list" where
  "busy_conids rnd broker = remdups
     (map bp_conid (filter (\<lambda>r. flt_truthy (bp_quantity r) \<and> \<not> bp_deleted r) (sn_positions broker))
      @ map bo_conid (filter (is_pending_entry rnd) (sn_working_orders broker)))"

definition pending_entry_refusal :: "(rat \<Rightarrow> pyfloat) \<Rightarrow> risk_snapshot \<Rightarrow> int \<Rightarrow> entry_limits \<Rightarrow> string option" where
  "pending_entry_refusal rnd broker conid l =
     (if el_max_pending_entry_orders l < int (length (filter (is_pending_entry rnd) (sn_working_orders broker))) + 1
      then Some ''MAX_PENDING_ENTRIES''
      else if conid \<notin> set (busy_conids rnd broker) \<and> el_max_positions l < int (length (busy_conids rnd broker)) + 1
      then Some ''MAX_PENDING_ENTRIES''
      else None)"

definition make_sizing_inputs ::
    "(rat \<Rightarrow> pyfloat) \<Rightarrow> risk_snapshot \<Rightarrow> int \<Rightarrow> pyfloat \<Rightarrow> pyfloat \<Rightarrow> pyfloat \<Rightarrow> pyfloat \<Rightarrow> sizing_inputs" where
  "make_sizing_inputs rnd broker conid price stop_price liquidity_max_shares notional_cap =
     \<lparr>si_equity = sn_net_liquidation broker, si_price = price, si_stop_price = stop_price,
      si_existing_position_value = position_value rnd broker (Some conid),
      si_current_gross_notional = (case gross_notional rnd broker [conid \<mapsto> price] None of
         (gross, unknown) \<Rightarrow> if unknown \<noteq> [] then PosInf else gross),
      si_liquidity_max_shares = liquidity_max_shares, si_notional_cap = notional_cap\<rparr>"

text \<open>None when the drawdown division raises.\<close>

definition loss_limit_breaches ::
    "(rat \<Rightarrow> pyfloat) \<Rightarrow> entry_limits \<Rightarrow> risk_snapshot \<Rightarrow> limits_evidence \<Rightarrow> string list option" where
  "loss_limit_breaches rnd l broker ev =
     (let daily_pnl = sn_daily_pnl broker; equity = sn_net_liquidation broker;
          anchor = lv_daily_loss_anchor ev; hwm = lv_high_water_mark ev
      in if \<not> (flt_finite daily_pnl \<and> flt_finite equity \<and> flt_finite anchor \<and> flt_finite hwm)
         then Some [''LOSS_STATE_UNKNOWN'']
         else (let daily = (if flt_le (flt_mul rnd anchor (el_daily_loss_fraction l)) (flt_max (Fin 0) (flt_neg daily_pnl))
                            then [''DAILY_LOSS''] else [])
               in if \<not> flt_less (Fin 0) hwm then Some daily
                  else case flt_div rnd (flt_sub rnd hwm equity) hwm of
                         None \<Rightarrow> None
                       | Some drawdown \<Rightarrow> Some (daily @ (if flt_le (el_drawdown_fraction l) drawdown
                                                          then [''DRAWDOWN''] else []))))"

definition entry_limit_violations ::
    "(rat \<Rightarrow> pyfloat) \<Rightarrow> entry_limits \<Rightarrow> risk_snapshot \<Rightarrow> int \<Rightarrow> pyfloat \<Rightarrow> pyfloat \<Rightarrow> limits_evidence
     \<Rightarrow> string list option" where
  "entry_limit_violations rnd l broker conid quantity price ev =
     (case (max_entry_quantity rnd l (make_sizing_inputs rnd broker conid price (lv_stop_price ev)
              (lv_liquidity_max_shares ev) (lv_notional_cap ev)), loss_limit_breaches rnd l broker ev) of
        (Some most, Some losses) \<Rightarrow>
          Some (if flt_less (Fin (of_int most)) quantity \<or> pending_entry_refusal rnd broker conid l \<noteq> None
                   \<or> losses \<noteq> []
                then [''LIMIT_TIGHTENED_BEFORE_DISPATCH''] else [])
      | _ \<Rightarrow> None)"

section \<open>Limits only get tighter\<close>

lemma positive_finite_iff: "positive_finite x \<longleftrightarrow> (\<exists>q > 0. x = Fin q)"
  by (cases x) (auto simp: positive_finite_def flt_finite_def)

lemma positive_finite_Fin [simp]: "positive_finite (Fin q) \<longleftrightarrow> 0 < q"
  by (simp add: positive_finite_def flt_finite_def)

definition limits_valid :: "entry_limits \<Rightarrow> bool" where
  "limits_valid l \<longleftrightarrow> 1 \<le> el_max_positions l \<and> positive_finite (el_position_fraction l)
     \<and> positive_finite (el_gross_fraction l) \<and> positive_finite (el_trade_risk_fraction l)
     \<and> positive_finite (el_daily_loss_fraction l) \<and> positive_finite (el_drawdown_fraction l)
     \<and> 1 \<le> el_max_pending_entry_orders l"

lemma checked_fraction_ok [simp]: "positive_finite x \<Longrightarrow> checked_fraction rnd n (JNum x) = Inr x"
  by (auto simp: checked_fraction_def positive_finite_iff flt_finite_def)

lemma check_count_ok [simp]: "1 \<le> i \<Longrightarrow> check_count n (JInt i) = Inr i"
  by (simp add: check_count_def)

lemma limits_json_fields: "set (map fst (limits_to_json l)) = set limit_fields"
  by (simp add: limits_to_json_def limit_fields_def)

lemma make_limits_json:
  assumes "limits_valid l"
  shows "make_limits rnd (\<lambda>k. opt_or JNull (jget (limits_to_json l) k)) = Inr l"
  using assms by (simp add: make_limits_def limits_to_json_def jget_def limits_valid_def)

text \<open>Limits survive their JSON form.\<close>

lemma limits_json_roundtrip: "limits_valid l \<Longrightarrow> limits_from_json rnd (JObj (limits_to_json l)) = Inr l"
  using make_limits_json [of l rnd] limits_json_fields [of l] by (simp add: limits_from_json_def)

lemma flt_min_Fin [simp]: "flt_min (Fin a) (Fin b) = Fin (min a b)"
  by (simp add: flt_min_def)

lemma positive_finite_min: "positive_finite a \<Longrightarrow> positive_finite b \<Longrightarrow> positive_finite (flt_min a b)"
  by (auto simp: positive_finite_iff)

lemma minima_valid: "limits_valid a \<Longrightarrow> limits_valid b \<Longrightarrow> limits_valid (field_minima a b)"
  by (simp add: limits_valid_def field_minima_def positive_finite_min)

lemma fields_above_empty:
  assumes "limits_valid a" and "limits_valid b"
  shows "fields_above a b = [] \<longleftrightarrow> field_minima a b = a"
  using assms
  by (cases a; cases b) (auto simp: fields_above_def field_minima_def limits_valid_def positive_finite_iff min_def)

text \<open>
  C33. Combining two sets of limits never raises and never loosens: the result is a valid set of limits
  that is above neither in any field, and it is the loosest such set. Combining a set with one it is
  already within changes nothing.
\<close>

theorem tighter_is_meet:
  assumes a: "limits_valid a" and b: "limits_valid b"
  shows "\<exists>t. tighter rnd a b = Inr t \<and> limits_valid t \<and> fields_above t a = [] \<and> fields_above t b = []
    \<and> (\<forall>c. limits_valid c \<longrightarrow> fields_above c a = [] \<longrightarrow> fields_above c b = [] \<longrightarrow> fields_above c t = [])
    \<and> (fields_above a b = [] \<longleftrightarrow> t = a)"
proof -
  let ?t = "field_minima a b"
  have valid: "limits_valid ?t" using minima_valid [OF a b] .
  have run: "tighter rnd a b = Inr ?t" using make_limits_json [OF valid] by (simp add: tighter_def)
  have below: "fields_above ?t a = []" "fields_above ?t b = []"
    using a b by (auto simp: fields_above_def field_minima_def limits_valid_def positive_finite_iff)
  have greatest: "fields_above c ?t = []" if "limits_valid c" "fields_above c a = []" "fields_above c b = []" for c
    using that a b by (auto simp: fields_above_def field_minima_def limits_valid_def positive_finite_iff
        min_less_iff_disj split: if_splits)
  show ?thesis using run valid below greatest fields_above_empty [OF a b] by blast
qed

theorem tighter_is_meet_witness:
  "limits_valid (paper_limits Fin) \<and> limits_valid (steady_limits Fin)
   \<and> (\<exists>t. tighter Fin (steady_limits Fin) (paper_limits Fin) = Inr t \<and> fields_above t (paper_limits Fin) = []
        \<and> t \<noteq> steady_limits Fin)"
proof -
  have v: "limits_valid (paper_limits Fin)" "limits_valid (steady_limits Fin)"
    by (simp_all add: limits_valid_def paper_limits_def steady_limits_def steady_max_gross_fraction_def)
  have "fields_above (steady_limits Fin) (paper_limits Fin) \<noteq> []"
    by (simp add: fields_above_def paper_limits_def steady_limits_def steady_max_gross_fraction_def)
  with v tighter_is_meet [OF v(2,1), of Fin] show ?thesis by blast
qed

section \<open>What an approval means\<close>

text \<open>An approved quantity is within what \<open>max_quantity\<close> offers.\<close>

lemma liquidity_within_max:
  assumes "ld_approved (liquidity_evaluate rnd feeds qty e now)"
  shows "evidence_usable e \<and> positive_finite qty \<and> \<not> flt_less (max_quantity rnd e) qty
    \<and> le_feed_type e \<in> set feeds \<and> le_session_state e \<noteq> ''halted''"
proof -
  have "qty \<noteq> PosInf \<longrightarrow> \<not> flt_less PosInf qty" by (cases qty) simp_all
  then show ?thesis
    using assms by (auto simp: liquidity_evaluate_def liquidity_findings_def max_quantity_def flt_min_def Let_def
        split: if_splits)
qed

text \<open>A refusal always says why.\<close>

lemma liquidity_reasons: "ld_approved (liquidity_evaluate rnd feeds qty e now) \<longleftrightarrow>
    ld_reason_codes (liquidity_evaluate rnd feeds qty e now) = []"
  by (simp add: liquidity_evaluate_def Let_def)

section \<open>A sized entry fits every limit\<close>

lemma min_float_le:
  assumes "x \<in> set xs" and "\<forall>x \<in> set xs. x \<noteq> NaN"
  shows "flt_le (min_float xs) x"
proof -
  have refl: "flt_le z z" if "z \<noteq> NaN" for z using that by (cases z) (simp_all add: flt_le_def)
  have trans: "flt_le u w" if "flt_le u v" "flt_le v w" for u v w
    using that by (cases u; cases v; cases w) (auto simp: flt_le_def)
  have le: "flt_le (flt_min u v) u \<and> flt_le (flt_min u v) v \<and> flt_min u v \<noteq> NaN" if "u \<noteq> NaN" "v \<noteq> NaN" for u v
    using that by (cases u; cases v) (auto simp: flt_min_def flt_le_def)
  have fold: "(\<forall>y \<in> set ys. y \<noteq> NaN) \<Longrightarrow> y \<noteq> NaN \<Longrightarrow>
      flt_le (foldl flt_min y ys) y \<and> (\<forall>z \<in> set ys. flt_le (foldl flt_min y ys) z)" for y ys
  proof (induction ys arbitrary: y)
    case (Cons a ys)
    then have "a \<noteq> NaN" by simp
    note le = le [OF Cons.prems(2) this]
    have step: "flt_le (foldl flt_min (flt_min y a) ys) (flt_min y a)
        \<and> (\<forall>z \<in> set ys. flt_le (foldl flt_min (flt_min y a) ys) z)"
      using Cons.IH [of "flt_min y a"] Cons.prems(1) le by simp
    then show ?case using trans le by (auto intro: trans)
  qed (simp add: refl)
  show ?thesis using fold [of "tl xs" "hd xs"] assms by (cases xs) (auto simp: min_float_def)
qed

lemma floor_share: "of_int n \<le> (x :: rat) + 1 / 10 ^ 9 \<Longrightarrow> 0 < n \<Longrightarrow> 0 < x"
proof -
  assume a: "of_int n \<le> x + 1 / 10 ^ 9" "0 < n"
  then have "(1 :: rat) \<le> of_int n" by simp
  with a(1) show "0 < x" by simp
qed

text \<open>A positive number of shares is below every bound, up to a billionth of a share.\<close>

lemma max_entry_bounds:
  assumes run: "max_entry_quantity Fin l i = Some n" and n: "0 < n"
  obtains E P S bounds where "si_equity i = Fin E" and "0 < E" and "si_price i = Fin P" and "0 < P"
    and "si_stop_price i = Fin S" and "0 < S" and "S < P" and "entry_bounds Fin l i = Some bounds"
    and "\<forall>b \<in> set bounds. \<exists>q. b = Fin q \<and> of_int n \<le> q + 1 / 10 ^ 9"
proof -
  from run n have ok: "positive_finite (si_equity i)" "positive_finite (si_price i)" "positive_finite (si_stop_price i)"
    "\<not> flt_le (si_price i) (si_stop_price i)"
    by (auto simp: max_entry_quantity_def split: if_splits)
  then obtain E P S where fin: "si_equity i = Fin E" "0 < E" "si_price i = Fin P" "0 < P" "si_stop_price i = Fin S"
    "0 < S" "S < P" by (auto simp: positive_finite_iff)
  from run ok obtain bounds where bounds: "entry_bounds Fin l i = Some bounds"
    and fl: "floor_float (flt_add Fin (min_float (map shares bounds)) (Fin (1 / 10 ^ 9))) = Some n"
    by (auto simp: max_entry_quantity_def split: option.splits if_splits)
  have share: "shares b \<noteq> NaN" for b by (auto simp: shares_def positive_finite_iff)
  have "\<exists>q. b = Fin q \<and> of_int n \<le> q + 1 / 10 ^ 9" if b: "b \<in> set bounds" for b
  proof -
    have le: "flt_le (min_float (map shares bounds)) (shares b)"
      using b share by (intro min_float_le) auto
    from fl obtain m where m: "min_float (map shares bounds) = Fin m" "n = \<lfloor>m + 1 / 10 ^ 9\<rfloor>"
      by (cases "min_float (map shares bounds)") (auto simp: floor_float_def)
    have nm: "of_int n \<le> m + 1 / 10 ^ 9" unfolding m(2) by (rule of_int_floor_le)
    obtain s where s: "shares b = Fin s" "m \<le> s" using le m(1) share [of b]
      by (cases "shares b") (auto simp: shares_def flt_le_def positive_finite_iff split: if_splits)
    have "0 < s" using floor_share [OF nm n] s(2) by simp
    then have "b = Fin s" using s(1) by (auto simp: shares_def split: if_splits)
    then show ?thesis using nm s(2) by auto
  qed
  with fin bounds that show thesis by blast
qed

lemma div_Fin_cases:
  assumes "flt_div Fin x (Fin P) = Some (Fin q)" and "0 < P"
  shows "\<exists>y. x = Fin y \<and> q = y / P"
  using assms by (cases x) (auto simp: signed_inf_def flt_sign_def split: if_splits)

lemma sub_Fin_cases: "flt_sub Fin (Fin a) x = Fin q \<Longrightarrow> \<exists>y. x = Fin y \<and> q = a - y"
  by (cases x) (simp_all add: flt_sub_def)

text \<open>
  The number of shares an entry is sized to fits every limit. In exact arithmetic and with valid
  limits, a positive size loses at most the trade-risk fraction of equity between price and stop, keeps
  the position and the gross exposure within their fractions of equity, and stays within the liquidity
  and the notional cap, each up to a billionth of a share; and every input it rests on was finite.
\<close>

lemma sized_entry_fits:
  assumes valid: "limits_valid l" and run: "max_entry_quantity Fin l i = Some n" and n: "0 < n"
  shows "\<exists>E P S held gross most cap risk position total. si_equity i = Fin E \<and> si_price i = Fin P
    \<and> si_stop_price i = Fin S \<and> 0 < S \<and> S < P \<and> si_existing_position_value i = Fin held
    \<and> si_current_gross_notional i = Fin gross \<and> si_liquidity_max_shares i = Fin most \<and> si_notional_cap i = Fin cap
    \<and> el_trade_risk_fraction l = Fin risk \<and> el_position_fraction l = Fin position \<and> el_gross_fraction l = Fin total
    \<and> (of_int n - 1 / 10 ^ 9) * (P - S) \<le> risk * E \<and> held + (of_int n - 1 / 10 ^ 9) * P \<le> position * E
    \<and> gross + (of_int n - 1 / 10 ^ 9) * P \<le> total * E \<and> of_int n - 1 / 10 ^ 9 \<le> most
    \<and> (of_int n - 1 / 10 ^ 9) * P \<le> cap"
proof -
  from run n obtain E P S bounds where fin: "si_equity i = Fin E" "0 < E" "si_price i = Fin P" "0 < P"
      "si_stop_price i = Fin S" "0 < S" "S < P" and b: "entry_bounds Fin l i = Some bounds"
    and le: "\<forall>b \<in> set bounds. \<exists>q. b = Fin q \<and> of_int n \<le> q + 1 / 10 ^ 9"
    by (rule max_entry_bounds)
  from valid obtain risk position total where cap_now: "el_trade_risk_fraction l = Fin risk"
      "el_position_fraction l = Fin position" "el_gross_fraction l = Fin total"
    by (auto simp: limits_valid_def positive_finite_iff)
  have "\<exists>x1 x2 x3 x4. bounds = [x1, x2, x3, si_liquidity_max_shares i, x4]
      \<and> flt_div Fin (Fin (risk * E)) (Fin (P - S)) = Some x1
      \<and> flt_div Fin (flt_sub Fin (Fin (position * E)) (si_existing_position_value i)) (Fin P) = Some x2
      \<and> flt_div Fin (flt_sub Fin (Fin (total * E)) (si_current_gross_notional i)) (Fin P) = Some x3
      \<and> flt_div Fin (si_notional_cap i) (Fin P) = Some x4"
    using b cap_now fin by (auto simp: entry_bounds_def flt_sub_def split: option.splits)
  then obtain q1 q2 q3 q4 q5 where q: "flt_div Fin (Fin (risk * E)) (Fin (P - S)) = Some (Fin q1)"
      "flt_div Fin (flt_sub Fin (Fin (position * E)) (si_existing_position_value i)) (Fin P) = Some (Fin q2)"
      "flt_div Fin (flt_sub Fin (Fin (total * E)) (si_current_gross_notional i)) (Fin P) = Some (Fin q3)"
      "si_liquidity_max_shares i = Fin q4" "flt_div Fin (si_notional_cap i) (Fin P) = Some (Fin q5)"
    and les: "of_int n \<le> q1 + 1 / 10 ^ 9" "of_int n \<le> q2 + 1 / 10 ^ 9" "of_int n \<le> q3 + 1 / 10 ^ 9"
      "of_int n \<le> q4 + 1 / 10 ^ 9" "of_int n \<le> q5 + 1 / 10 ^ 9"
    using le by fastforce
  obtain held where held: "si_existing_position_value i = Fin held" "q2 = (position * E - held) / P"
    using div_Fin_cases [OF q(2) fin(4)] sub_Fin_cases by blast
  obtain gross where gross: "si_current_gross_notional i = Fin gross" "q3 = (total * E - gross) / P"
    using div_Fin_cases [OF q(3) fin(4)] sub_Fin_cases by blast
  obtain cap where cap: "si_notional_cap i = Fin cap" "q5 = cap / P" using div_Fin_cases [OF q(5) fin(4)] by blast
  have times: "(of_int n - 1 / 10 ^ 9) * D \<le> y" if "of_int n \<le> y / D + 1 / 10 ^ 9" "0 < D" for y D :: rat
    using that by (simp add: field_simps)
  have "q1 = risk * E / (P - S)" using q(1) fin(7) by (simp split: if_splits)
  then have "(of_int n - 1 / 10 ^ 9) * (P - S) \<le> risk * E" using times [of "risk * E" "P - S"] les(1) fin(7) by simp
  moreover have "(of_int n - 1 / 10 ^ 9) * P \<le> position * E - held" using times les(2) held(2) fin(4) by simp
  moreover have "(of_int n - 1 / 10 ^ 9) * P \<le> total * E - gross" using times les(3) gross(2) fin(4) by simp
  moreover have "(of_int n - 1 / 10 ^ 9) * P \<le> cap" using times les(5) cap(2) fin(4) by simp
  ultimately show ?thesis using fin held(1) gross(1) cap(1) q(4) cap_now les(4) by (simp add: algebra_simps)
qed

definition demo_sizing :: sizing_inputs where
  "demo_sizing = \<lparr>si_equity = Fin 100000, si_price = Fin 50, si_stop_price = Fin 48,
     si_existing_position_value = Fin 0, si_current_gross_notional = Fin 2000, si_liquidity_max_shares = Fin 500,
     si_notional_cap = Fin 4000\<rparr>"

lemma demo_size: "max_entry_quantity Fin (paper_limits Fin) demo_sizing = Some 80"
  by (simp add: max_entry_quantity_def demo_sizing_def entry_bounds_def paper_limits_def flt_sub_def min_float_def
      shares_def floor_float_def floor_eq_iff)

lemma sized_entry_fits_example:
  "max_entry_quantity Fin (paper_limits Fin) demo_sizing = Some 80 \<and>
   (\<exists>E P S. si_equity demo_sizing = Fin E \<and> si_price demo_sizing = Fin P \<and> si_stop_price demo_sizing = Fin S
      \<and> (80 - 1 / 10 ^ 9) * (P - S) \<le> 2 / 1000 * E)"
proof -
  have valid: "limits_valid (paper_limits Fin)" by (simp add: limits_valid_def paper_limits_def)
  have risk: "el_trade_risk_fraction (paper_limits Fin) = Fin (2 / 1000)" by (simp add: paper_limits_def)
  have "0 < (80 :: int)" by simp
  from sized_entry_fits [OF valid demo_size this] obtain E P S where
      "si_equity demo_sizing = Fin E" "si_price demo_sizing = Fin P" "si_stop_price demo_sizing = Fin S"
      "(of_int 80 - 1 / 10 ^ 9) * (P - S) \<le> 2 / 1000 * E"
    unfolding risk pyfloat.inject by blast
  then show ?thesis using demo_size unfolding of_int_numeral by blast
qed

section \<open>Gross exposure at dispatch\<close>

text \<open>The exposure a snapshot shows, as a sum of exact numbers.\<close>

fun exact :: "pyfloat \<Rightarrow> rat" where
  "exact (Fin q) = q"
| "exact _ = 0"

definition held_notional :: "risk_snapshot \<Rightarrow> rat" where
  "held_notional broker = (\<Sum>r \<leftarrow> filter (\<lambda>r. \<not> bp_deleted r) (sn_positions broker).
     \<bar>exact (opt_or (Fin 0) (bp_market_value r))\<bar>)"

definition order_notional :: "(int \<Rightarrow> pyfloat option) \<Rightarrow> order_row \<Rightarrow> rat" where
  "order_notional prices order = (exact (bo_total_quantity order) - exact (bo_filled_quantity order))
     * exact (opt_or (Fin 0) (order_reference_price order prices))"

definition pending_notional :: "(int \<Rightarrow> pyfloat option) \<Rightarrow> order_row list \<Rightarrow> rat" where
  "pending_notional prices orders = (\<Sum>r \<leftarrow> filter (counts_as_entry Fin None) orders. order_notional prices r)"

definition values_finite :: "risk_snapshot \<Rightarrow> bool" where
  "values_finite broker \<longleftrightarrow>
     (\<forall>r \<in> set (sn_positions broker). \<not> bp_deleted r \<longrightarrow> flt_finite (opt_or (Fin 0) (bp_market_value r)))
     \<and> (\<forall>r \<in> set (sn_working_orders broker). flt_finite (bo_total_quantity r) \<and> flt_finite (bo_filled_quantity r))"

lemma finite_exact: "flt_finite x \<Longrightarrow> x = Fin (exact x)"
  by (cases x) (simp_all add: flt_finite_def)

lemma flt_add_Fin [simp]: "flt_add Fin (Fin a) (Fin b) = Fin (a + b)" by simp

lemma position_gross_exact:
  assumes "values_finite broker"
  shows "position_gross_notional Fin broker = Fin (held_notional broker)"
proof -
  have "map (\<lambda>r. flt_abs (opt_or (Fin 0) (bp_market_value r))) (filter (\<lambda>r. \<not> bp_deleted r) (sn_positions broker))
      = map Fin (map (\<lambda>r. \<bar>exact (opt_or (Fin 0) (bp_market_value r))\<bar>)
          (filter (\<lambda>r. \<not> bp_deleted r) (sn_positions broker)))"
    using assms by (auto simp: values_finite_def flt_finite_iff)
  then show ?thesis by (simp only: position_gross_notional_def held_notional_def py_sum_exact)
qed

lemma counted_remaining:
  assumes "counts_as_entry Fin e order" and "flt_finite (bo_total_quantity order)" and "flt_finite (bo_filled_quantity order)"
  shows "remaining_quantity Fin order = Fin (exact (bo_total_quantity order) - exact (bo_filled_quantity order))"
  using assms by (auto simp: counts_as_entry_def remaining_quantity_def flt_finite_iff flt_sub_def flt_max_def)

lemma usable_price_Some: "usable_price p = Some x \<Longrightarrow> \<exists>q. x = Fin q"
  by (auto simp: usable_price_def positive_finite_iff split: option.splits if_splits)

lemma reference_price_Fin:
  assumes "order_reference_price order [conid \<mapsto> Fin p] = Some x"
  shows "\<exists>q. x = Fin q"
  using assms by (auto simp: order_reference_price_def split: option.splits if_splits dest: usable_price_Some)

lemma pending_exact:
  assumes "\<forall>r \<in> set orders. flt_finite (bo_total_quantity r) \<and> flt_finite (bo_filled_quantity r)"
    and "working_entry_notional Fin [conid \<mapsto> Fin p] None (Fin a) orders = (t, [])"
  shows "t = Fin (a + pending_notional [conid \<mapsto> Fin p] orders)"
  using assms
proof (induction orders arbitrary: a)
  case (Cons order orders)
  show ?case
  proof (cases "counts_as_entry Fin None order")
    case False
    then show ?thesis using Cons by (simp add: pending_notional_def)
  next
    case True
    then obtain x where x: "order_reference_price order [conid \<mapsto> Fin p] = Some x"
      using Cons.prems(2)
      by (cases "order_reference_price order [conid \<mapsto> Fin p]") (auto simp del: fun_upd_apply split: prod.splits)
    then obtain q where q: "x = Fin q" using reference_price_Fin by blast
    have rem: "remaining_quantity Fin order = Fin (exact (bo_total_quantity order) - exact (bo_filled_quantity order))"
      using counted_remaining [OF True] Cons.prems(1) by simp
    have "working_entry_notional Fin [conid \<mapsto> Fin p] None (Fin (a + order_notional [conid \<mapsto> Fin p] order)) orders = (t, [])"
      using Cons.prems(2) True x q rem by (simp add: order_notional_def del: fun_upd_apply)
    from Cons.IH [OF _ this] Cons.prems(1) True show ?thesis
      by (simp add: pending_notional_def add.assoc del: fun_upd_apply)
  qed
qed (simp add: pending_notional_def)

lemma from_keys_empty [simp]: "from_keys xs = [] \<longleftrightarrow> xs = []"
  by (simp add: from_keys_def)

lemma gross_breach_none:
  assumes "gross_breach Fin (Fin c) approved (Fin notional) in_flight (Fin E) = []" and "0 < E"
  shows "notional \<le> (c + 1 / 10 ^ 15) * E"
  using assms by (auto simp: gross_breach_def gross_slack_def Let_def field_simps split: if_splits)

text \<open>The ceiling in force is below each candidate, whenever none of them is NaN.\<close>

lemma ceiling_below:
  assumes "resolve_effective_gross_ceiling rnd g authority mode account digest now cap_now = (effective, cs, dg, [])"
    and "\<forall>x \<in> set cs. snd x \<noteq> NaN"
  shows "(\<exists>c > 0. effective = Fin c) \<and> (\<forall>x \<in> set cs. flt_le effective (snd x))
    \<and> cs = ceiling_candidates rnd g authority mode cap_now \<and> dg = Option.bind authority au_authority_digest
    \<and> authority_reasons mode account digest now authority = []"
proof -
  from assms(1) have eq: "effective = min_float (map snd cs)" "\<not> flt_le effective (Fin 0)" "flt_finite effective"
    "cs = ceiling_candidates rnd g authority mode cap_now" "dg = Option.bind authority au_authority_digest"
    "authority_reasons mode account digest now authority = []"
    by (auto simp: resolve_effective_gross_ceiling_def Let_def split: if_splits option.splits)
  have "flt_le effective (snd x)" if "x \<in> set cs" for x
    unfolding eq(1) using that assms(2) by (intro min_float_le) auto
  moreover have "\<exists>c > 0. effective = Fin c" using eq(2,3) by (cases effective) (auto simp: flt_finite_def)
  ultimately show ?thesis using eq(4-6) by blast
qed

text \<open>
  C32. A buy that passes the allocation re-check at dispatch fits the gross ceiling with everything that
  is already committed. In exact arithmetic, on a snapshot with finite values: what is held, what is
  still working, what is in flight and the new order together stay within the ceiling in force (up to
  \<open>1e-15\<close> of equity). That ceiling is at most fifteen percent, at most what the artifact, the current
  risk limits and a signed authority allow, and not above the one that was approved; the broker fence
  has not moved back, and on a live account the authority is present, unexpired and unchanged.
\<close>

theorem dispatch_gross_bounded:
  assumes run: "revalidate_dispatch Fin now broker approved conid side quantity (Fin p) authority (Fin artifact)
      digest approved_digest (Fin approved_ceiling) in_flight (Some (Fin cap_now)) = Some d"
    and ok: "ad_approved d" and buy: "upper side = ''BUY''" and finite: "values_finite broker" "quantity = Fin q"
    and auth: "\<forall>a. authority = Some a \<longrightarrow> flt_finite (au_max_gross_allocation a)"
  shows "\<exists>E c f. sn_net_liquidation broker = Fin E \<and> 0 < E \<and> ad_effective_gross_ceiling d = Fin c \<and> 0 < c
    \<and> in_flight = Fin f \<and> 0 \<le> f
    \<and> held_notional broker + pending_notional [conid \<mapsto> Fin p] (sn_working_orders broker) + f + \<bar>q\<bar> * p
        \<le> (c + 1 / 10 ^ 15) * E
    \<and> c \<le> 15 / 100 \<and> c \<le> artifact \<and> c \<le> cap_now \<and> c \<le> approved_ceiling + 1 / 10 ^ 15
    \<and> (\<forall>a. authority = Some a \<longrightarrow> Fin c = au_max_gross_allocation a \<or> flt_less (Fin c) (au_max_gross_allocation a))
    \<and> sn_generation_id approved \<le> sn_generation_id broker \<and> sn_source_cursor approved \<le> sn_source_cursor broker
    \<and> (approved_digest \<noteq> None \<longrightarrow> Option.bind authority au_authority_digest = approved_digest)
    \<and> (sn_account_mode broker = ''live'' \<longrightarrow> (\<exists>a. authority = Some a \<and> au_account_id a = sn_account_id broker
         \<and> au_artifact_digest a = digest \<and> as_utc now < as_utc (au_expires_at a)))"
proof -
  obtain eff cs dg rs where res: "resolve_effective_gross_ceiling Fin (Fin artifact) authority (sn_account_mode broker)
      (sn_account_id broker) digest now (Some (Fin cap_now)) = (eff, cs, dg, rs)" by (metis prod_cases4)
  obtain gross pend where gross: "gross_notional Fin broker [conid \<mapsto> Fin p] None = (gross, pend)" by fastforce
  from run ok buy obtain E f where E: "sn_net_liquidation broker = Fin E" "0 < E" and f: "in_flight = Fin f" "0 \<le> f"
    and none: "fence_reasons broker approved = []" "rs = []" "pend = []"
      "ceiling_reasons Fin approved_digest dg eff (Fin approved_ceiling) = []"
      "gross_breach Fin eff (Fin approved_ceiling)
         (flt_add Fin (flt_add Fin gross in_flight) (flt_mul Fin (flt_abs quantity) (Fin p))) in_flight (Fin E) = []"
    and eff: "ad_effective_gross_ceiling d = eff"
    unfolding revalidate_dispatch_def res gross
    by (cases in_flight; cases "sn_net_liquidation broker")
      (auto simp: Let_def make_decision_def flt_finite_def split: if_splits)
  have cs: "cs = ceiling_candidates Fin (Fin artifact) authority (sn_account_mode broker) (Some (Fin cap_now))"
    using res by (auto simp: resolve_effective_gross_ceiling_def Let_def split: if_splits)
  have "\<forall>x \<in> set cs. snd x \<noteq> NaN"
  proof (cases authority)
    case None
    then show ?thesis by (simp add: cs ceiling_candidates_def authority_candidates_def steady_max_gross_fraction_def)
  next
    case (Some a)
    then obtain k where "au_max_gross_allocation a = Fin k" using auth finite_exact by blast
    then show ?thesis using Some
      by (simp add: cs ceiling_candidates_def authority_candidates_def steady_max_gross_fraction_def stage_max_ceiling_def)
  qed
  note below = ceiling_below [OF res [unfolded none(2)] this]
  then obtain c where c: "eff = Fin c" "0 < c" by blast
  have le: "flt_le (Fin c) (snd x)" if "x \<in> set cs" for x using below that c(1) by blast
  have caps: "c \<le> 15 / 100" "c \<le> artifact" "c \<le> cap_now"
    using le [of "(''trader_steady_cap'', Fin (15 / 100))"] le [of "(''artifact'', Fin artifact)"]
      le [of "(''risk_limits'', Fin cap_now)"]
    by (simp_all add: cs ceiling_candidates_def steady_max_gross_fraction_def)
  have signed: "Fin c = au_max_gross_allocation a \<or> flt_less (Fin c) (au_max_gross_allocation a)" if "authority = Some a" for a
    using le [of "(''signed_authority'', au_max_gross_allocation a)"] that
    by (cases "au_max_gross_allocation a") (auto simp: cs ceiling_candidates_def authority_candidates_def flt_le_def)
  obtain t where t: "working_entry_notional Fin [conid \<mapsto> Fin p] None (Fin 0) (sn_working_orders broker) = (t, [])"
      "gross = flt_add Fin (position_gross_notional Fin broker) t"
    using gross none(3) by (auto simp: gross_notional_def split: prod.splits)
  have "t = Fin (pending_notional [conid \<mapsto> Fin p] (sn_working_orders broker))"
    using pending_exact [OF _ t(1)] finite(1) by (simp add: values_finite_def)
  then have g: "gross = Fin (held_notional broker + pending_notional [conid \<mapsto> Fin p] (sn_working_orders broker))"
    using t(2) position_gross_exact [OF finite(1)] by simp
  have bound: "held_notional broker + pending_notional [conid \<mapsto> Fin p] (sn_working_orders broker) + f + \<bar>q\<bar> * p
      \<le> (c + 1 / 10 ^ 15) * E"
    using none(5) E(2) by (intro gross_breach_none [where approved = "Fin approved_ceiling" and in_flight = in_flight])
      (simp_all add: g f(1) c(1) finite(2))
  have kept: "c \<le> approved_ceiling + 1 / 10 ^ 15" "approved_digest \<noteq> None \<longrightarrow> dg = approved_digest"
    using none(4) by (auto simp: ceiling_reasons_def c(1) gross_slack_def split: if_splits)
  have fence: "sn_generation_id approved \<le> sn_generation_id broker" "sn_source_cursor approved \<le> sn_source_cursor broker"
    using none(1) by (auto simp: fence_reasons_def split: if_splits)
  have live: "\<exists>a. authority = Some a \<and> au_account_id a = sn_account_id broker \<and> au_artifact_digest a = digest
      \<and> as_utc now < as_utc (au_expires_at a)" if "sn_account_mode broker = ''live''"
    using below that by (auto simp: authority_reasons_def split: option.splits if_splits)
  show ?thesis using E f bound caps c signed kept fence live below eff by blast
qed

text \<open>A snapshot with one position worth 10000 and no working order, on an account of 1000000.\<close>

definition demo_exposure :: "pyfloat \<Rightarrow> risk_snapshot" where
  "demo_exposure value =
     \<lparr>sn_generation_id = 3, sn_source_cursor = 40, sn_promoted_at = 0, sn_account_id = ''DU1'', sn_account_mode = ''paper'',
      sn_net_liquidation = Fin 1000000, sn_daily_pnl = Fin 0,
      sn_positions = [\<lparr>bp_account_id = ''DU1'', bp_conid = 1, bp_symbol = ''AMD'', bp_sec_type = ''STK'',
        bp_exchange = None, bp_currency = ''USD'', bp_quantity = Fin 0, bp_average_cost = None, bp_market_price = None,
        bp_market_value = Some value, bp_unrealized_pnl = None, bp_realized_pnl = None, bp_daily_pnl = None,
        bp_deleted = False, bp_revision = 1, bp_source_timestamp = 0\<rparr>],
      sn_working_orders = [], sn_generation_started_at = None, sn_base_currency = None\<rparr>"

definition demo_recheck :: "pyfloat \<Rightarrow> rat \<Rightarrow> allocation_decision option" where
  "demo_recheck value quantity = revalidate_dispatch Fin (Aware 0) (demo_exposure value) (demo_exposure value) 2 ''BUY''
     (Fin quantity) (Fin 100) None (Fin (6 / 100)) ''d'' None (Fin (6 / 100)) (Fin 5000) (Some (Fin (6 / 100)))"

lemmas demo_recheck_simps = demo_recheck_def revalidate_dispatch_def resolve_effective_gross_ceiling_def
  ceiling_candidates_def authority_candidates_def authority_reasons_def steady_max_gross_fraction_def min_float_def
  fence_reasons_def ceiling_reasons_def gross_slack_def gross_notional_def position_gross_notional_def demo_exposure_def
  py_sum_def make_decision_def gross_breach_def or_digest_def upper_def upper_char_def flt_finite_def Let_def

lemma demo_rechecked: "\<exists>d. demo_recheck (Fin 10000) 400 = Some d \<and> ad_approved d"
  by (simp add: demo_recheck_simps)

theorem dispatch_gross_bounded_witness:
  "\<exists>d E c. demo_recheck (Fin 10000) 400 = Some d \<and> sn_net_liquidation (demo_exposure (Fin 10000)) = Fin E
     \<and> ad_effective_gross_ceiling d = Fin c
     \<and> held_notional (demo_exposure (Fin 10000)) + 5000 + 400 * 100 \<le> (c + 1 / 10 ^ 15) * E"
proof -
  obtain d where d: "demo_recheck (Fin 10000) 400 = Some d" "ad_approved d" using demo_rechecked by blast
  have buy: "upper ''BUY'' = ''BUY''" by (simp add: upper_def upper_char_def)
  have fin: "values_finite (demo_exposure (Fin 10000))" by (simp add: values_finite_def demo_exposure_def flt_finite_def)
  have none: "\<forall>a. (None :: alloc_authority option) = Some a \<longrightarrow> flt_finite (au_max_gross_allocation a)" by simp
  have pend: "pending_notional [2 \<mapsto> Fin 100] (sn_working_orders (demo_exposure (Fin 10000))) = 0"
    by (simp add: pending_notional_def demo_exposure_def)
  from dispatch_gross_bounded [OF d(1) [unfolded demo_recheck_def] d(2) buy fin refl none] obtain E c f where
      "sn_net_liquidation (demo_exposure (Fin 10000)) = Fin E" "ad_effective_gross_ceiling d = Fin c" "Fin 5000 = Fin f"
      "held_notional (demo_exposure (Fin 10000)) + 0 + f + \<bar>400\<bar> * 100 \<le> (c + 1 / 10 ^ 15) * E"
    unfolding pend by blast
  then show ?thesis using d(1) by auto
qed

text \<open>
  Without the finiteness of the values the bound fails: one position whose market value is NaN (a flat
  position may carry one, the snapshot checks only positions with a quantity) makes the projected
  fraction NaN, no comparison with it holds, and a buy of ten times the account is approved.
\<close>

lemma nan_value_lifts_gross_cap: "\<exists>d. demo_recheck NaN 100000 = Some d \<and> ad_approved d"
  by (simp add: demo_recheck_simps)

end
