(* ===== verification/Command_Ports.thy ===== *)
theory Command_Ports
  imports Entry_Limits Proposal_Service
begin

text \<open>
  What the command authority stands on: its policy and capability matrix
  (\<^verbatim>\<open>src/trader/trading/command_policy.py\<close>), which feeds count as executable evidence
  (\<^verbatim>\<open>src/trader/trading/quote_feeds.py\<close>), and the read-only adapters over broker state and quotes
  (\<^verbatim>\<open>src/trader/trading/command_ports.py\<close>): the fenced snapshot authority, the quote built from a
  ticker, and the correlation helpers behind cancel and reconciliation.
\<close>

section \<open>The policy\<close>

record authority_policy =
  ap_enabled :: bool
  ap_live_enabled :: bool
  ap_live_account_id :: "string option"
  ap_max_order_notional :: "pyfloat option"
  ap_max_drift_bps :: "pyfloat option"
  ap_max_paper_quote_age_seconds :: "pyfloat option"

datatype policy_error =
    ConfigNotMapping | ConfigOverflow | UnknownKeys "string list" | NotBoolean string | NotNumber string
  | BadDrift | BadNotional | BadQuoteAge | LiveOnPaper | LiveWithoutAccount | LiveAccountMismatch | LiveWithoutNotional

definition known_policy_keys :: "string list" where
  "known_policy_keys = [''enabled'', ''live_enabled'', ''live_account_id'', ''max_order_notional'',
     ''max_drift_bps'', ''max_paper_quote_age_seconds'']"

definition as_bool :: "string \<Rightarrow> json \<Rightarrow> policy_error + bool" where
  "as_bool key v =
     (case v of
        JBool b \<Rightarrow> Inr b
      | JStr s \<Rightarrow>
          (let low = lower (strip s)
           in if low \<in> set [''1'', ''true'', ''yes'', ''on''] then Inr True
              else if low \<in> set [''0'', ''false'', ''no'', ''off''] then Inr False
              else Inl (NotBoolean key))
      | _ \<Rightarrow> Inl (NotBoolean key))"

text \<open>\<open>float(v)\<close> of a configuration value; \<open>ConfigOverflow\<close> is the \<open>OverflowError\<close> of an integer too large for a float.\<close>

definition as_optional_float :: "(rat \<Rightarrow> pyfloat) \<Rightarrow> string \<Rightarrow> json \<Rightarrow> policy_error + pyfloat option" where
  "as_optional_float rnd key v =
     (case v of
        JNull \<Rightarrow> Inr None
      | JBool b \<Rightarrow> Inr (Some (Fin (if b then 1 else 0)))
      | JInt i \<Rightarrow> (case rnd (of_int i) of Fin q \<Rightarrow> Inr (Some (Fin q)) | _ \<Rightarrow> Inl ConfigOverflow)
      | JNum x \<Rightarrow> Inr (Some x)
      | JStr s \<Rightarrow> (case float_of_string rnd s of None \<Rightarrow> Inl (NotNumber key) | Some x \<Rightarrow> Inr (Some x))
      | _ \<Rightarrow> Inl (NotNumber key))"

text \<open>\<open>bool(v)\<close> of a decoded value.\<close>

fun json_truthy :: "json \<Rightarrow> bool" where
  "json_truthy JNull \<longleftrightarrow> False"
| "json_truthy (JBool b) \<longleftrightarrow> b"
| "json_truthy (JInt i) \<longleftrightarrow> i \<noteq> 0"
| "json_truthy (JNum x) \<longleftrightarrow> flt_truthy x"
| "json_truthy (JStr s) \<longleftrightarrow> s \<noteq> []"
| "json_truthy (JTime _) \<longleftrightarrow> True"
| "json_truthy (JList vs) \<longleftrightarrow> vs \<noteq> []"
| "json_truthy (JObj kvs) \<longleftrightarrow> kvs \<noteq> []"

text \<open>\<open>render\<close> is \<open>str\<close> on the values other than strings.\<close>

definition policy_from_config ::
    "(rat \<Rightarrow> pyfloat) \<Rightarrow> (json \<Rightarrow> string) \<Rightarrow> json \<Rightarrow> policy_error + authority_policy" where
  "policy_from_config rnd render raw =
     (case (if json_truthy raw then raw else JObj []) of
        JObj kvs \<Rightarrow>
         (let get = (\<lambda>k d. opt_or d (jget kvs k));
              unknown = sort (filter (\<lambda>k. k \<notin> set known_policy_keys) (remdups (map fst kvs)));
              account = get ''live_account_id'' JNull
          in if unknown \<noteq> [] then Inl (UnknownKeys unknown)
             else bind_sum (as_bool ''enabled'' (get ''enabled'' (JBool False))) (\<lambda>enabled.
                  bind_sum (as_bool ''live_enabled'' (get ''live_enabled'' (JBool False))) (\<lambda>live.
                  bind_sum (as_optional_float rnd ''max_order_notional'' (get ''max_order_notional'' JNull)) (\<lambda>notional.
                  bind_sum (as_optional_float rnd ''max_drift_bps'' (get ''max_drift_bps'' (JNum (Fin 50)))) (\<lambda>drift.
                  bind_sum (as_optional_float rnd ''max_paper_quote_age_seconds''
                              (get ''max_paper_quote_age_seconds'' JNull)) (\<lambda>age.
                  Inr \<lparr>ap_enabled = enabled, ap_live_enabled = live,
                       ap_live_account_id = (if \<not> json_truthy account then None
                          else Some (case account of JStr s \<Rightarrow> s | v \<Rightarrow> render v)),
                       ap_max_order_notional = notional, ap_max_drift_bps = drift,
                       ap_max_paper_quote_age_seconds = age\<rparr>))))))
      | _ \<Rightarrow> Inl ConfigNotMapping)"

definition validate_command_policy :: "authority_policy \<Rightarrow> string option \<Rightarrow> bool \<Rightarrow> policy_error + unit" where
  "validate_command_policy p trader_account_id paper_trading =
     (if \<not> ap_enabled p then Inr ()
      else bind_sum (check (case ap_max_drift_bps p of None \<Rightarrow> False | Some x \<Rightarrow> flt_finite x \<and> \<not> flt_le x (Fin 0))
                       BadDrift) (\<lambda>_.
           bind_sum (check (case ap_max_order_notional p of None \<Rightarrow> True | Some x \<Rightarrow> flt_finite x \<and> \<not> flt_le x (Fin 0))
                       BadNotional) (\<lambda>_.
           bind_sum (check (case ap_max_paper_quote_age_seconds p of None \<Rightarrow> True
                              | Some x \<Rightarrow> flt_finite x \<and> \<not> flt_le x (Fin 0)) BadQuoteAge) (\<lambda>_.
           if \<not> ap_live_enabled p then Inr ()
           else bind_sum (check (\<not> paper_trading) LiveOnPaper) (\<lambda>_.
                bind_sum (check (case ap_live_account_id p of None \<Rightarrow> False | Some a \<Rightarrow> a \<noteq> []) LiveWithoutAccount) (\<lambda>_.
                bind_sum (check (ap_live_account_id p = trader_account_id) LiveAccountMismatch) (\<lambda>_.
                check (ap_max_order_notional p \<noteq> None) LiveWithoutNotional)))))))"

definition load_and_validate_command_policy ::
    "(rat \<Rightarrow> pyfloat) \<Rightarrow> (json \<Rightarrow> string) \<Rightarrow> json \<Rightarrow> string option \<Rightarrow> bool \<Rightarrow> policy_error + authority_policy" where
  "load_and_validate_command_policy rnd render raw trader_account_id paper_trading =
     bind_sum (policy_from_config rnd render raw) (\<lambda>p.
     bind_sum (validate_command_policy p trader_account_id paper_trading) (\<lambda>_. Inr p))"

definition command_port_requirements :: "(string \<times> string list) list" where
  "command_port_requirements =
     [(''preflight_command'', [''nonces'']),
      (''create_proposal'', [''quotes'', ''positions'', ''risk_gate'']),
      (''approve_proposal'', [''order_submit'', ''order_state'', ''quotes'', ''positions'', ''broker'', ''risk_gate'',
         ''alerts'', ''nonces'']),
      (''reject_proposal'', []),
      (''cancel_order'', [''order_cancel'', ''order_state'']),
      (''cancel_all'', [''order_cancel'', ''order_state'']),
      (''pause_trading'', [''controls'']),
      (''resume_trading'', [''controls'', ''nonces'']),
      (''enable_strategy'', [''strategy'']),
      (''disable_strategy'', [''strategy'']),
      (''update_strategy_params'', [''strategy'', ''nonces'']),
      (''execute_automated_intent'', [''order_submit'', ''order_state'', ''quotes'', ''positions'', ''broker'',
         ''risk_gate'', ''alerts'', ''controls''])]"

definition available_commands :: "string list \<Rightarrow> string list" where
  "available_commands ready =
     sort (map fst (filter (\<lambda>c. set (snd c) \<subseteq> set ready) command_port_requirements))"

section \<open>Feeds\<close>

definition live_only_feeds :: "string list" where
  "live_only_feeds = [''live'']"

definition accepted_feeds :: "string \<Rightarrow> string \<Rightarrow> string list" where
  "accepted_feeds account_mode quote_fallback =
     (if account_mode = ''paper'' \<and> quote_fallback = ''alpaca_iex'' then [''live'', ''iex_realtime'']
      else live_only_feeds)"

text \<open>Unset means off; None is the \<open>ValueError\<close> of an unknown setting.\<close>

definition parse_quote_fallback :: "json \<Rightarrow> string option" where
  "parse_quote_fallback v =
     (case v of JNull \<Rightarrow> Some [] | JStr s \<Rightarrow> if s = [] \<or> s = ''alpaca_iex'' then Some s else None | _ \<Rightarrow> None)"

definition require_live_feed_on_live_account :: "string \<Rightarrow> string list \<Rightarrow> bool" where
  "require_live_feed_on_live_account account_mode feeds \<longleftrightarrow> account_mode = ''paper'' \<or> set feeds = set live_only_feeds"

section \<open>The fenced snapshot authority\<close>

definition snapshot_error_code :: "snapshot_error \<Rightarrow> string" where
  "snapshot_error_code e =
     (case e of NO_PROMOTED_GENERATION \<Rightarrow> ''NO_PROMOTED_GENERATION''
      | INVALID_GENERATION_CURSOR \<Rightarrow> ''INVALID_GENERATION_CURSOR'' | GENERATION_STAGING \<Rightarrow> ''GENERATION_STAGING''
      | ACCOUNT_MISMATCH \<Rightarrow> ''ACCOUNT_MISMATCH'' | ACCOUNT_STATE_UNAVAILABLE \<Rightarrow> ''ACCOUNT_STATE_UNAVAILABLE''
      | INVALID_NET_LIQUIDATION \<Rightarrow> ''INVALID_NET_LIQUIDATION'' | INVALID_POSITION \<Rightarrow> ''INVALID_POSITION''
      | INVALID_DAILY_PNL \<Rightarrow> ''INVALID_DAILY_PNL'' | DAILY_PNL_UNAVAILABLE \<Rightarrow> ''DAILY_PNL_UNAVAILABLE''
      | INVALID_WORKING_ORDER \<Rightarrow> ''INVALID_WORKING_ORDER'')"

text \<open>What the adapter was composed with, and the fence of its last answer.\<close>

record snapshot_authority =
  sa_account_id :: string
  sa_account_mode :: string
  sa_last_fence :: "(int \<times> int) option"

definition authority_capture ::
    "(rat \<Rightarrow> pyfloat) \<Rightarrow> bool \<Rightarrow> broker_tables \<Rightarrow> journal_row list \<Rightarrow> string \<Rightarrow> snapshot_authority
     \<Rightarrow> (string + risk_snapshot) \<times> snapshot_authority" where
  "authority_capture rnd ready t journal account_id sa =
     (if \<not> ready then (Inl ''BROKER_UNAVAILABLE'', sa)
      else if account_id \<noteq> sa_account_id sa then (Inl ''ACCOUNT_MISMATCH'', sa)
      else case capture_risk_snapshot_in_tx rnd t journal account_id of
             Inl e \<Rightarrow> (Inl (snapshot_error_code e), sa)
           | Inr sn \<Rightarrow>
               if sn_account_mode sn \<noteq> sa_account_mode sa then (Inl ''ACCOUNT_MODE_MISMATCH'', sa)
               else (let fence = (sn_generation_id sn, sn_source_cursor sn)
                     in case sa_last_fence sa of
                          Some (g, c) \<Rightarrow>
                            if fst fence < g \<or> snd fence < c then (Inl ''GENERATION_REGRESSION'', sa)
                            else (Inr sn, sa\<lparr>sa_last_fence := Some fence\<rparr>)
                        | None \<Rightarrow> (Inr sn, sa\<lparr>sa_last_fence := Some fence\<rparr>)))"

section \<open>Quotes from a ticker\<close>

record ticker =
  tk_bid :: "pyfloat option"
  tk_ask :: "pyfloat option"
  tk_last :: "pyfloat option"
  tk_close :: "pyfloat option"
  tk_bid_size :: "pyfloat option"
  tk_ask_size :: "pyfloat option"
  tk_time :: "pydatetime option"
  tk_market_data_type :: "int option"
  tk_halted :: "pyfloat option"

definition feed_type_of :: "ticker \<Rightarrow> string" where
  "feed_type_of t = (case tk_market_data_type t of None \<Rightarrow> ''unknown''
     | Some m \<Rightarrow> opt_or ''unknown''
         (map_of [(1, ''live''), (2, ''frozen''), (3, ''delayed''), (4, ''delayed-frozen'')] m))"

definition session_state_of :: "ticker \<Rightarrow> string" where
  "session_state_of t = (if flt_less (Fin 0) (opt_or (Fin 0) (tk_halted t)) then ''halted'' else ''continuous'')"

definition tradable_price :: "pyfloat option \<Rightarrow> pyfloat option" where
  "tradable_price v = (case v of None \<Rightarrow> None
     | Some p \<Rightarrow> if \<not> flt_eq p p \<or> flt_le p (Fin 0) then None else Some p)"

definition usable_depth :: "pyfloat option \<Rightarrow> pyfloat option" where
  "usable_depth v = (case v of None \<Rightarrow> None | Some d \<Rightarrow> if flt_finite d \<and> flt_le (Fin 0) d then Some d else None)"

definition side_wants_ask :: "string \<Rightarrow> bool" where
  "side_wants_ask side \<longleftrightarrow> upper side = ''BUY'' \<or> upper side = ''ASK''"

definition executable_price :: "ticker \<Rightarrow> string \<Rightarrow> pyfloat option" where
  "executable_price t side =
     (case tradable_price (if side_wants_ask side then tk_ask t else tk_bid t) of
        Some p \<Rightarrow> Some p
      | None \<Rightarrow> (case tradable_price (tk_last t) of Some p \<Rightarrow> Some p | None \<Rightarrow> tradable_price (tk_close t)))"

text \<open>\<open>fetched\<close>: what resolving the contract and the snapshot gave, None when either failed or raised.\<close>

definition snapshot_quote :: "int \<Rightarrow> string \<Rightarrow> instant \<Rightarrow> ticker option \<Rightarrow> executable_quote option" where
  "snapshot_quote conid side now fetched =
     (case fetched of None \<Rightarrow> None
      | Some t \<Rightarrow>
         (case executable_price t side of None \<Rightarrow> None
          | Some price \<Rightarrow>
             (let feed = feed_type_of t;
                  stamp = (case tk_time t of Some m \<Rightarrow> Some m
                    | None \<Rightarrow> if feed \<in> set [''delayed'', ''delayed-frozen'', ''frozen''] then Some (Aware now) else None)
              in case stamp of None \<Rightarrow> None
                 | Some m \<Rightarrow> Some \<lparr>xq_conid = conid, xq_side = side, xq_price = price, xq_market_timestamp = m,
                     xq_feed_type = feed, xq_session_state = session_state_of t,
                     xq_bid = tradable_price (tk_bid t), xq_ask = tradable_price (tk_ask t),
                     xq_bid_size = usable_depth (tk_bid_size t), xq_ask_size = usable_depth (tk_ask_size t)\<rparr>)))"

definition executable_quote_of ::
    "bool \<Rightarrow> int \<Rightarrow> string \<Rightarrow> (bool \<Rightarrow> instant) \<Rightarrow> (bool \<Rightarrow> ticker option) \<Rightarrow> executable_quote option" where
  "executable_quote_of delayed conid side now fetch =
     (case snapshot_quote conid side (now delayed) (fetch delayed) of
        Some q \<Rightarrow> Some q
      | None \<Rightarrow> if \<not> delayed then snapshot_quote conid side (now True) (fetch True) else None)"

section \<open>Cancel and reconciliation correlation\<close>

text \<open>An open trade is its order, with the permanent id the broker gave it.\<close>

definition resolve_cancel_target :: "int option \<Rightarrow> (int option \<times> 'o) list \<Rightarrow> 'o option" where
  "resolve_cancel_target perm_id open_trades =
     (case perm_id of None \<Rightarrow> None
      | Some p \<Rightarrow> map_option snd (List.find (\<lambda>t. fst t = Some p) open_trades))"

definition orders_matching_group :: "order_row list \<Rightarrow> string \<Rightarrow> string option \<Rightarrow> order_row list" where
  "orders_matching_group rows account_id order_group_id =
     (case order_group_id of None \<Rightarrow> []
      | Some g \<Rightarrow> if g = [] then []
          else filter (\<lambda>r. bo_account_id r = account_id \<and> bo_order_group_id r = Some g) rows)"

definition orders_matching_legacy_reduces :: "order_row list \<Rightarrow> string \<Rightarrow> string \<Rightarrow> order_row list" where
  "orders_matching_legacy_reduces rows account_id prefix =
     filter (\<lambda>r. bo_account_id r = account_id \<and> matches_legacy_reduce (bo_order_group_id r) prefix) rows"

section \<open>What the ports promise\<close>

text \<open>A policy that starts the trader bounds what it allows.\<close>

lemma policy_bounds:
  assumes "load_and_validate_command_policy rnd render raw trader_account_id paper_trading = Inr p" and "ap_enabled p"
  shows "\<exists>d. ap_max_drift_bps p = Some d \<and> positive_finite d"
    and "\<forall>n. ap_max_order_notional p = Some n \<longrightarrow> positive_finite n"
    and "ap_live_enabled p \<longrightarrow> \<not> paper_trading \<and> ap_live_account_id p = trader_account_id
      \<and> trader_account_id \<noteq> None \<and> ap_max_order_notional p \<noteq> None"
proof -
  have pos: "positive_finite x" if "flt_finite x" "\<not> flt_le x (Fin 0)" for x
    using that by (cases x) (auto simp: positive_finite_def flt_finite_def)
  from assms have v: "validate_command_policy p trader_account_id paper_trading = Inr ()"
    by (auto simp: load_and_validate_command_policy_def bind_sum_Inr)
  from v assms(2) show "\<exists>d. ap_max_drift_bps p = Some d \<and> positive_finite d"
    by (auto simp: validate_command_policy_def bind_sum_Inr pos split: option.splits)
  from v assms(2) show "\<forall>n. ap_max_order_notional p = Some n \<longrightarrow> positive_finite n"
    by (auto simp: validate_command_policy_def bind_sum_Inr pos)
  from v assms(2) show "ap_live_enabled p \<longrightarrow> \<not> paper_trading \<and> ap_live_account_id p = trader_account_id
      \<and> trader_account_id \<noteq> None \<and> ap_max_order_notional p \<noteq> None"
    by (cases trader_account_id) (auto simp: validate_command_policy_def bind_sum_Inr)
qed

text \<open>
  A quote carries the feed's own time. Whatever the broker answers, a quote that the port labels live
  has the timestamp the ticker reported and never the time it was received; its price is positive and
  not NaN, taken from the crossed side when that side shows one, and its depth is finite or unknown.
\<close>

lemma quote_time_honest:
  assumes "executable_quote_of delayed conid side now fetch = Some q"
  shows "\<exists>b t. fetch b = Some t \<and> (xq_feed_type q = ''live'' \<longrightarrow> tk_time t = Some (xq_market_timestamp q))
    \<and> (tk_time t = None \<longrightarrow> xq_market_timestamp q = Aware (now b))
    \<and> xq_conid q = conid \<and> xq_side q = side \<and> xq_feed_type q = feed_type_of t
    \<and> flt_less (Fin 0) (xq_price q)
    \<and> (\<forall>p. tradable_price (if side_wants_ask side then tk_ask t else tk_bid t) = Some p \<longrightarrow> xq_price q = p)
    \<and> (\<forall>d. xq_ask_size q = Some d \<or> xq_bid_size q = Some d \<longrightarrow> flt_finite d)"
proof -
  obtain b t where t: "fetch b = Some t" and q: "snapshot_quote conid side (now b) (fetch b) = Some q"
    using assms by (auto simp: executable_quote_of_def snapshot_quote_def split: option.splits if_splits)
  obtain price m where price: "executable_price t side = Some price"
    and m: "tk_time t = Some m \<or> tk_time t = None \<and> feed_type_of t \<noteq> ''live'' \<and> m = Aware (now b)"
    and q': "xq_conid q = conid" "xq_side q = side" "xq_feed_type q = feed_type_of t" "xq_price q = price"
      "xq_market_timestamp q = m" "xq_bid_size q = usable_depth (tk_bid_size t)" "xq_ask_size q = usable_depth (tk_ask_size t)"
    using q t by (auto simp: snapshot_quote_def Let_def split: option.splits if_splits)
  have tp: "flt_less (Fin 0) p" if "tradable_price v = Some p" for v p
    using that by (cases p) (auto simp: tradable_price_def flt_le_def split: option.splits if_splits)
  have "flt_less (Fin 0) price" using price tp by (auto simp: executable_price_def split: option.splits)
  moreover have "\<forall>p. tradable_price (if side_wants_ask side then tk_ask t else tk_bid t) = Some p \<longrightarrow> price = p"
    using price by (auto simp: executable_price_def)
  moreover have "flt_finite d" if "usable_depth v = Some d" for v d
    using that by (auto simp: usable_depth_def split: option.splits if_splits)
  moreover have "xq_feed_type q = ''live'' \<longrightarrow> tk_time t = Some (xq_market_timestamp q)"
    "tk_time t = None \<longrightarrow> xq_market_timestamp q = Aware (now b)" using m q'(3,5) by auto
  ultimately show ?thesis using t q'
    by (intro exI [of _ b] exI [of _ t] conjI) auto
qed

definition demo_ticker :: ticker where
  "demo_ticker = \<lparr>tk_bid = Some (Fin 99), tk_ask = Some (Fin (-1)), tk_last = Some (Fin 100), tk_close = None,
     tk_bid_size = Some (Fin 300), tk_ask_size = Some NaN, tk_time = Some (Aware 5), tk_market_data_type = Some 1,
     tk_halted = None\<rparr>"

definition demo_fetched :: "executable_quote option" where
  "demo_fetched = executable_quote_of False 7 ''ask'' (\<lambda>_. 9) (\<lambda>delayed. if delayed then None else Some demo_ticker)"

lemma quote_time_honest_example:
  "\<exists>q. demo_fetched = Some q \<and> xq_market_timestamp q = Aware 5 \<and> xq_price q = Fin 100"
proof -
  have eval: "map_option (\<lambda>q. (xq_price q, xq_feed_type q)) demo_fetched = Some (Fin 100, ''live'')" by code_simp
  then obtain q where q: "demo_fetched = Some q" "xq_price q = Fin 100" "xq_feed_type q = ''live''" by auto
  from quote_time_honest [OF q(1) [unfolded demo_fetched_def]] q(3) obtain b t where
      "(if b then None else Some demo_ticker) = Some t" "tk_time t = Some (xq_market_timestamp q)" by blast
  then have "xq_market_timestamp q = Aware 5" by (cases b) (auto simp: demo_ticker_def)
  with q show ?thesis by blast
qed

text \<open>The answers of the snapshot authority over a sequence of calls, each on its own state of the database.\<close>

fun capture_run ::
    "(rat \<Rightarrow> pyfloat) \<Rightarrow> (bool \<times> broker_tables \<times> journal_row list \<times> string) list \<Rightarrow> snapshot_authority
     \<Rightarrow> risk_snapshot list" where
  "capture_run rnd [] sa = []"
| "capture_run rnd ((ready, t, journal, account_id) # calls) sa =
     (case authority_capture rnd ready t journal account_id sa of
        (Inl _, sa') \<Rightarrow> capture_run rnd calls sa'
      | (Inr sn, sa') \<Rightarrow> sn # capture_run rnd calls sa')"

definition fence_le :: "risk_snapshot \<Rightarrow> risk_snapshot \<Rightarrow> bool" where
  "fence_le a b \<longleftrightarrow> sn_generation_id a \<le> sn_generation_id b \<and> sn_source_cursor a \<le> sn_source_cursor b"

lemma authority_capture_Inr:
  assumes "authority_capture rnd ready t journal account_id sa = (Inr sn, sa')"
  shows "ready \<and> account_id = sa_account_id sa \<and> capture_risk_snapshot_in_tx rnd t journal account_id = Inr sn
    \<and> sn_account_mode sn = sa_account_mode sa \<and> sa' = sa\<lparr>sa_last_fence := Some (sn_generation_id sn, sn_source_cursor sn)\<rparr>
    \<and> (\<forall>g c. sa_last_fence sa = Some (g, c) \<longrightarrow> g \<le> sn_generation_id sn \<and> c \<le> sn_source_cursor sn)"
  using assms by (auto simp: authority_capture_def Let_def split: if_splits sum.splits option.splits)

lemma authority_capture_Inl: "authority_capture rnd ready t journal account_id sa = (Inl e, sa') \<Longrightarrow> sa' = sa"
  by (auto simp: authority_capture_def Let_def split: if_splits sum.splits option.splits)

lemma capture_run_above:
  "sn \<in> set (capture_run rnd calls sa) \<Longrightarrow> sa_last_fence sa = Some (g, c) \<Longrightarrow>
     g \<le> sn_generation_id sn \<and> c \<le> sn_source_cursor sn"
proof (induction calls arbitrary: sa g c)
  case (Cons call calls)
  obtain ready t journal account_id where call: "call = (ready, t, journal, account_id)" by (metis prod_cases4)
  obtain r sa' where r: "authority_capture rnd ready t journal account_id sa = (r, sa')" by fastforce
  show ?case
  proof (cases r)
    case (Inl e)
    with r have "sa' = sa" using authority_capture_Inl by blast
    then show ?thesis using Cons Inl r call by auto
  next
    case (Inr first)
    note facts = authority_capture_Inr [OF r [unfolded Inr]]
    then have "g \<le> sn_generation_id first" "c \<le> sn_source_cursor first" using Cons.prems(2) by auto
    moreover have "sn = first \<or> sn \<in> set (capture_run rnd calls sa')" using Cons.prems(1) Inr r call by auto
    ultimately show ?thesis using Cons.IH [of sa'] facts by fastforce
  qed
qed simp

lemma captured_account: "capture_risk_snapshot_in_tx rnd t journal account_id = Inr sn \<Longrightarrow> sn_account_id sn = account_id"
  by (auto simp: capture_risk_snapshot_in_tx_def snapshot_account_def bind_sum_Inr Let_def find_Some_iff
      split: option.splits)

text \<open>
  The risk snapshots one process acts on never go back. Whatever the database holds at each call, a
  restored or replaced journal included, every snapshot that is handed out is for the pinned account and
  mode, and later ones are at least as new, in generation and in journal cursor, as every earlier one.
\<close>

lemma captures_never_regress:
  "sorted_wrt fence_le (capture_run rnd calls sa)
   \<and> list_all (\<lambda>sn. sn_account_id sn = sa_account_id sa \<and> sn_account_mode sn = sa_account_mode sa)
       (capture_run rnd calls sa)"
proof (induction calls arbitrary: sa)
  case (Cons call calls)
  obtain ready t journal account_id where call: "call = (ready, t, journal, account_id)" by (metis prod_cases4)
  obtain r sa' where r: "authority_capture rnd ready t journal account_id sa = (r, sa')" by fastforce
  show ?case
  proof (cases r)
    case (Inl e)
    with r have "sa' = sa" using authority_capture_Inl by blast
    then show ?thesis using Cons [of sa] Inl r call by simp
  next
    case (Inr first)
    note facts = authority_capture_Inr [OF r [unfolded Inr]]
    have "fence_le first sn" if "sn \<in> set (capture_run rnd calls sa')" for sn
      using capture_run_above [OF that] facts by (simp add: fence_le_def)
    moreover have "sn_account_id first = account_id" using facts captured_account by blast
    ultimately show ?thesis using Cons [of sa'] facts Inr r call by simp
  qed
qed simp

end
