(* ===== verification/Dispatch_Guard.thy ===== *)
theory Dispatch_Guard
  imports Command_Ports Command_Ledger Pretrade_Gates
begin

text \<open>
  The last check before an order leaves: \<open>DispatchGuard.revalidate\<close>
  (\<^verbatim>\<open>src/trader/trading/dispatch_guard.py\<close>) on the evidence an approval rests on
  (\<^verbatim>\<open>src/trader/trading/approval_context.py\<close>). The guard reads everything again: the broker snapshot, the
  quote, the pause gate, the margin, the limits and the allocation authority. Its collaborators are functions
  of the record \<open>guard_run\<close>: what each of them answers during the call.
\<close>

section \<open>The evidence of an approval\<close>

record market_evidence =
  me_quote :: executable_quote
  me_received_at :: instant

record what_if_evidence =
  wi_response :: "(string \<times> pyfloat) list"
  wi_received_at :: instant

record in_flight_entry =
  fe_order_group_id :: string
  fe_conid :: int
  fe_unfilled_quantity :: pyfloat
  fe_filled_quantity :: pyfloat
  fe_limit_price :: pyfloat
  fe_filled_at :: "instant option"
  fe_baseline_position :: "pyfloat option"

record allocation_evidence =
  ae_artifact_digest :: string
  ae_artifact_max_gross :: pyfloat
  ae_authority_digest :: "string option"
  ae_effective_gross_ceiling :: pyfloat
  ae_entry_limit_price :: "pyfloat option"
  ae_in_flight_entries :: "in_flight_entry list"

record approval_context =
  cx_conid :: "int option"
  cx_side :: string
  cx_quantity :: pyfloat
  cx_reference_price :: "pyfloat option"
  cx_max_drift_bps :: "pyfloat option"
  cx_risk_direction :: risk_direction
  cx_broker :: risk_snapshot
  cx_market :: "market_evidence option"
  cx_what_if :: "what_if_evidence option"
  cx_allocation :: "allocation_evidence option"
  cx_entry_limits :: "limits_evidence option"
  cx_discretionary_scope :: "json option"

record dispatch_permit =
  dp_generation_id :: int
  dp_source_cursor :: int
  dp_quote_timestamp :: "pydatetime option"
  dp_what_if_timestamp :: "pydatetime option"
  dp_warnings :: "string list"

datatype capture_answer = Captured risk_snapshot | SnapshotRefused string | CaptureRaised

text \<open>How the guard stops: its own error with code and retryable flag, or another exception that escapes it.\<close>

datatype guard_stop = Refused string bool | Escaped

section \<open>Entries in flight\<close>

definition broker_counted_entry_quantity :: "(rat \<Rightarrow> pyfloat) \<Rightarrow> in_flight_entry \<Rightarrow> risk_snapshot \<Rightarrow> pyfloat" where
  "broker_counted_entry_quantity rnd e sn =
     py_sum rnd (map (remaining_quantity rnd) (filter (\<lambda>r. \<not> bo_deleted r
       \<and> bo_order_group_id r = Some (fe_order_group_id e) \<and> bo_leg r = Some ''entry'' \<and> upper (bo_action r) = ''BUY'')
       (sn_working_orders sn)))"

definition enumerated_after_fill :: "in_flight_entry \<Rightarrow> risk_snapshot \<Rightarrow> bool" where
  "enumerated_after_fill e sn \<longleftrightarrow>
     (case (sn_generation_started_at sn, fe_filled_at e) of (Some started, Some filled) \<Rightarrow> filled < started | _ \<Rightarrow> False)"

text \<open>\<open>sorted(..., key=baseline)\<close>: a stable insertion sort on the comparison of floats.\<close>

fun insert_by_baseline :: "in_flight_entry \<Rightarrow> in_flight_entry list \<Rightarrow> in_flight_entry list" where
  "insert_by_baseline e [] = [e]"
| "insert_by_baseline e (x # xs) =
     (if flt_less (opt_or (Fin 0) (fe_baseline_position e)) (opt_or (Fin 0) (fe_baseline_position x)) then e # x # xs
      else x # insert_by_baseline e xs)"

definition sort_by_baseline :: "in_flight_entry list \<Rightarrow> in_flight_entry list" where
  "sort_by_baseline es = foldl (\<lambda>acc e. insert_by_baseline e acc) [] es"

text \<open>The groups proven so far, and per instrument the filled quantity already claimed.\<close>

type_synonym fill_proof = "string list \<times> (int \<Rightarrow> pyfloat)"

definition claim_fill :: "(rat \<Rightarrow> pyfloat) \<Rightarrow> in_flight_entry \<Rightarrow> fill_proof \<Rightarrow> fill_proof" where
  "claim_fill rnd e p = (fst p @ [fe_order_group_id e],
     (snd p)(fe_conid e := flt_add rnd (snd p (fe_conid e)) (fe_filled_quantity e)))"

definition claim_if_grown :: "(rat \<Rightarrow> pyfloat) \<Rightarrow> risk_snapshot \<Rightarrow> in_flight_entry \<Rightarrow> fill_proof \<Rightarrow> fill_proof" where
  "claim_if_grown rnd sn e p =
     (let growth = flt_sub rnd (flt_sub rnd (reducible_quantity rnd sn (Some (fe_conid e)))
            (opt_or (Fin 0) (fe_baseline_position e))) (snd p (fe_conid e))
      in if flt_le (fe_filled_quantity e) growth then claim_fill rnd e p else p)"

definition fills_in_snapshot :: "(rat \<Rightarrow> pyfloat) \<Rightarrow> in_flight_entry list \<Rightarrow> risk_snapshot \<Rightarrow> fill_proof" where
  "fills_in_snapshot rnd entries sn =
     (let filled = filter (\<lambda>e. flt_less (Fin 0) (fe_filled_quantity e)) entries;
          enumerated = fold (\<lambda>e p. if enumerated_after_fill e sn then claim_fill rnd e p else p) filled ([], \<lambda>_. Fin 0);
          by_baseline = sort_by_baseline (filter (\<lambda>e. fe_order_group_id e \<notin> set (fst enumerated)
            \<and> fe_baseline_position e \<noteq> None) filled)
      in fold (claim_if_grown rnd sn) by_baseline enumerated)"

definition unseen_quantity :: "(rat \<Rightarrow> pyfloat) \<Rightarrow> string list \<Rightarrow> risk_snapshot \<Rightarrow> in_flight_entry \<Rightarrow> pyfloat" where
  "unseen_quantity rnd proven sn e =
     (let unseen = flt_max (Fin 0) (flt_sub rnd (fe_unfilled_quantity e) (broker_counted_entry_quantity rnd e sn))
      in if fe_order_group_id e \<notin> set proven then flt_add rnd unseen (fe_filled_quantity e) else unseen)"

definition unseen_in_flight_notional :: "(rat \<Rightarrow> pyfloat) \<Rightarrow> in_flight_entry list \<Rightarrow> risk_snapshot \<Rightarrow> pyfloat" where
  "unseen_in_flight_notional rnd entries sn =
     (let proven = fst (fills_in_snapshot rnd entries sn)
      in foldl (\<lambda>acc e. flt_add rnd acc (flt_mul rnd (unseen_quantity rnd proven sn e) (fe_limit_price e)))
           (Fin 0) entries)"

section \<open>The guard\<close>

record dispatch_guard =
  dg_account_id :: string
  dg_account_mode :: string
  dg_policy :: authority_policy
  dg_has_allocation_policy :: bool
  dg_strict_margin_actions :: "string list"
  dg_accepted_feeds :: "string list"
  dg_risk_limits :: risk_limits
  dg_rnd :: "rat \<Rightarrow> pyfloat"

datatype pause_answer = PauseOpen | PauseRefused | PauseEscaped

text \<open>
  In the optional results of the collaborators an outer \<open>None\<close> is an exception. The margin port never
  raises through the guard: an exception counts as no answer.
\<close>

record guard_run =
  gr_experiment :: "command_request \<Rightarrow> string option option"
  gr_capture :: "string \<Rightarrow> capture_answer"
  gr_quote :: "int option \<Rightarrow> string \<Rightarrow> executable_quote option option"
  gr_pause :: "string \<Rightarrow> pause_answer"
  gr_margin :: "int option \<Rightarrow> string \<Rightarrow> pyfloat \<Rightarrow> (string \<times> pyfloat) list option"
  gr_limits :: "command_request \<Rightarrow> entry_limits option"
  gr_authority :: "string \<Rightarrow> string \<Rightarrow> alloc_authority option option"
  gr_policy_now :: pydatetime
  gr_entry_gate :: "command_request \<Rightarrow> approval_context \<Rightarrow> executable_quote \<Rightarrow> instant \<Rightarrow> string option option"

definition automated_entry_actions :: "string list" where
  "automated_entry_actions = [''execute_automated_intent'', ''submit_ai_paper_decision'']"

definition refuse_if :: "bool \<Rightarrow> string \<Rightarrow> bool \<Rightarrow> guard_stop + unit" where
  "refuse_if c code retryable = check (\<not> c) (Refused code retryable)"

definition of_option :: "'e \<Rightarrow> 'a option \<Rightarrow> 'e + 'a" where
  "of_option e x = (case x of None \<Rightarrow> Inl e | Some v \<Rightarrow> Inr v)"

text \<open>Tuples of the working orders compare field by field; a NaN differs from every NaN.\<close>

definition same_working_order :: "order_row \<Rightarrow> order_row \<Rightarrow> bool" where
  "same_working_order a b \<longleftrightarrow> bo_order_entity_id a = bo_order_entity_id b \<and> bo_status a = bo_status b
     \<and> flt_eq (bo_total_quantity a) (bo_total_quantity b) \<and> flt_eq (bo_filled_quantity a) (bo_filled_quantity b)"

definition same_fingerprint :: "risk_snapshot \<Rightarrow> risk_snapshot \<Rightarrow> bool" where
  "same_fingerprint a b = list_all2 same_working_order (sn_working_orders a) (sn_working_orders b)"

definition check_spread_and_depth ::
    "(rat \<Rightarrow> pyfloat) \<Rightarrow> approval_context \<Rightarrow> executable_quote \<Rightarrow> pyfloat \<Rightarrow> guard_stop + unit" where
  "check_spread_and_depth rnd approved quote price =
     (case (xq_bid quote, xq_ask quote) of
        (Some bid, Some ask) \<Rightarrow>
         (case flt_div rnd (flt_sub rnd ask bid) price of
            None \<Rightarrow> Inl Escaped
          | Some ratio \<Rightarrow>
              bind_sum (refuse_if (flt_less max_spread_bps (flt_mul rnd ratio (Fin 10000))) ''SPREAD_BPS'' True) (\<lambda>_.
              (let depth = opt_or NaN (if cx_side approved = ''BUY'' then xq_ask_size quote else xq_bid_size quote)
               in refuse_if (\<not> flt_finite depth \<or> flt_less depth (flt_abs (cx_quantity approved)))
                    ''DEPTH_EXCEEDED'' True)))
      | _ \<Rightarrow> Inl (Refused ''EXECUTABLE_QUOTE_INVALID'' True))"

text \<open>The paper ceiling stands in for a signed authority.\<close>

definition active_authority ::
    "dispatch_guard \<Rightarrow> guard_run \<Rightarrow> string \<Rightarrow> allocation_evidence \<Rightarrow> alloc_authority option option" where
  "active_authority dg run account_id ev =
     map_option (\<lambda>authority. case authority of
        Some a \<Rightarrow> Some a
      | None \<Rightarrow>
          if dg_account_mode dg \<noteq> ''live''
          then Some \<lparr>au_authority_digest = None, au_account_id = account_id, au_account_mode = dg_account_mode dg,
                 au_artifact_digest = ae_artifact_digest ev, au_max_gross_allocation = ae_effective_gross_ceiling ev,
                 au_expires_at = Aware 4070908800000000, au_stage = ''CANARY''\<rparr>
          else None) (gr_authority run account_id (ae_artifact_digest ev))"

definition recheck_allocation ::
    "dispatch_guard \<Rightarrow> guard_run \<Rightarrow> approval_context \<Rightarrow> command_request \<Rightarrow> risk_snapshot \<Rightarrow> int \<Rightarrow> pyfloat \<Rightarrow> bool
     \<Rightarrow> guard_stop + unit" where
  "recheck_allocation dg run approved request current conid price automated =
     (case cx_allocation approved of
        None \<Rightarrow> refuse_if automated ''ALLOCATION_EVIDENCE_MISSING'' False
      | Some ev \<Rightarrow>
          bind_sum (of_option (Refused ''LIMITS_UNAVAILABLE'' False) (gr_limits run request)) (\<lambda>limits.
          bind_sum (of_option (Refused ''ALLOCATION_EVIDENCE_UNAVAILABLE'' False)
              (Option.bind (active_authority dg run (sn_account_id current) ev) (\<lambda>authority.
                 revalidate_dispatch (dg_rnd dg) (gr_policy_now run) current (cx_broker approved) conid (cx_side approved)
                   (flt_abs (cx_quantity approved)) (flt_max price (opt_or (Fin 0) (ae_entry_limit_price ev))) authority
                   (ae_artifact_max_gross ev) (ae_artifact_digest ev) (ae_authority_digest ev)
                   (ae_effective_gross_ceiling ev)
                   (unseen_in_flight_notional (dg_rnd dg) (ae_in_flight_entries ev) current)
                   (Some (el_gross_fraction limits))))) (\<lambda>decision.
          refuse_if (\<not> ad_approved decision)
            (case ad_reason_codes decision of [] \<Rightarrow> ''GROSS_EXPOSURE'' | c # _ \<Rightarrow> c) False)))"

definition recheck_entry_limits ::
    "dispatch_guard \<Rightarrow> guard_run \<Rightarrow> approval_context \<Rightarrow> command_request \<Rightarrow> risk_snapshot \<Rightarrow> int \<Rightarrow> pyfloat
     \<Rightarrow> guard_stop + unit" where
  "recheck_entry_limits dg run approved request current conid price =
     (case cx_entry_limits approved of
        None \<Rightarrow> Inr ()
      | Some ev \<Rightarrow>
          bind_sum (of_option (Refused ''LIMITS_UNAVAILABLE'' False) (gr_limits run request)) (\<lambda>limits.
          bind_sum (case tighter (dg_rnd dg) (lv_limits ev) limits of Inl _ \<Rightarrow> Inl Escaped | Inr t \<Rightarrow> Inr t) (\<lambda>tight.
          bind_sum (of_option (Refused ''LIMITS_UNAVAILABLE'' False)
              (loss_limit_breaches (dg_rnd dg) tight current ev)) (\<lambda>losses.
          case losses of
            code # _ \<Rightarrow> Inl (Refused code False)
          | [] \<Rightarrow>
              if tight = lv_limits ev then Inr ()
              else bind_sum (of_option (Refused ''LIMITS_UNAVAILABLE'' False)
                     (entry_limit_violations (dg_rnd dg) tight current conid (flt_abs (cx_quantity approved)) price ev))
                     (\<lambda>violations. case violations of code # _ \<Rightarrow> Inl (Refused code False) | [] \<Rightarrow> Inr ())))))"

definition run_ai_entry_gate ::
    "guard_run \<Rightarrow> command_request \<Rightarrow> approval_context \<Rightarrow> executable_quote \<Rightarrow> instant \<Rightarrow> guard_stop + unit" where
  "run_ai_entry_gate run request approved quote now =
     bind_sum (of_option (Refused ''AI_ENTRY_GATE_UNAVAILABLE'' False) (gr_entry_gate run request approved quote now))
       (\<lambda>code. case code of None \<Rightarrow> Inr () | Some c \<Rightarrow> refuse_if (c \<noteq> []) c False)"

text \<open>The experiment gate, the fresh snapshot, and that the broker state is still the approved one.\<close>

definition recheck_broker ::
    "dispatch_guard \<Rightarrow> guard_run \<Rightarrow> approval_context \<Rightarrow> command_request \<Rightarrow> guard_stop + risk_snapshot" where
  "recheck_broker dg run approved request =
     bind_sum (refuse_if (cq_account_id request \<noteq> Some (dg_account_id dg)) ''ACCOUNT_MISMATCH'' False) (\<lambda>_.
     bind_sum (of_option (Refused ''EXPERIMENT_STATE_UNAVAILABLE'' True) (gr_experiment run request)) (\<lambda>code.
     bind_sum (case code of None \<Rightarrow> Inr () | Some c \<Rightarrow> refuse_if (c \<noteq> []) c False) (\<lambda>_.
     bind_sum (case gr_capture run (dg_account_id dg) of
                 Captured sn \<Rightarrow> Inr sn
               | SnapshotRefused c \<Rightarrow> Inl (Refused c True)
               | CaptureRaised \<Rightarrow> Inl (Refused ''BROKER_UNAVAILABLE'' True)) (\<lambda>current.
     bind_sum (refuse_if (sn_account_id current \<noteq> dg_account_id dg) ''ACCOUNT_MISMATCH'' False) (\<lambda>_.
     bind_sum (refuse_if (sn_account_mode current \<noteq> dg_account_mode dg) ''ACCOUNT_MODE_MISMATCH'' False) (\<lambda>_.
     bind_sum (refuse_if (sn_generation_id current < sn_generation_id (cx_broker approved)
                 \<or> sn_source_cursor current < sn_source_cursor (cx_broker approved)) ''GENERATION_REGRESSION'' False) (\<lambda>_.
     bind_sum (refuse_if (\<not> flt_eq (reducible_quantity (dg_rnd dg) current (cx_conid approved))
                              (reducible_quantity (dg_rnd dg) (cx_broker approved) (cx_conid approved))
                 \<or> \<not> same_fingerprint current (cx_broker approved)) ''BROKER_STATE_CHANGED'' False) (\<lambda>_.
     Inr current))))))))"

definition still_reducing :: "dispatch_guard \<Rightarrow> approval_context \<Rightarrow> risk_snapshot \<Rightarrow> bool" where
  "still_reducing dg approved current \<longleftrightarrow>
     (let quantity = flt_abs (cx_quantity approved);
          held = reducible_quantity (dg_rnd dg) current (cx_conid approved)
      in cx_side approved = ''SELL'' \<and> flt_less (Fin 0) held \<and> flt_le quantity held
         \<or> cx_side approved = ''BUY'' \<and> flt_less held (Fin 0) \<and> flt_le quantity (flt_neg held))"

definition recheck_quote ::
    "dispatch_guard \<Rightarrow> guard_run \<Rightarrow> approval_context \<Rightarrow> command_request \<Rightarrow> instant \<Rightarrow> guard_stop + executable_quote" where
  "recheck_quote dg run approved request now =
     (let rnd = dg_rnd dg; live = (dg_account_mode dg = ''live'');
          side = (if cx_side approved = ''BUY'' then ''ask'' else ''bid'')
      in bind_sum (refuse_if (live \<and> \<not> ap_live_enabled (dg_policy dg)) ''LIVE_TRADING_DISABLED'' False) (\<lambda>_.
         bind_sum (refuse_if (live \<and> ap_live_account_id (dg_policy dg) \<noteq> Some (dg_account_id dg))
                     ''WRONG_LIVE_ACCOUNT'' False) (\<lambda>_.
         bind_sum (of_option Escaped (gr_quote run (cx_conid approved) side)) (\<lambda>answer.
         bind_sum (of_option (Refused ''EXECUTABLE_QUOTE_MISSING'' True) answer) (\<lambda>quote.
         bind_sum (refuse_if (\<not> flt_finite (xq_price quote) \<or> flt_le (xq_price quote) (Fin 0)
                     \<or> Some (xq_conid quote) \<noteq> cx_conid approved) ''EXECUTABLE_QUOTE_INVALID'' False) (\<lambda>_.
         bind_sum (refuse_if (xq_side quote \<noteq> side) ''EXECUTABLE_QUOTE_INVALID'' False) (\<lambda>_.
         bind_sum (case (xq_bid quote, xq_ask quote) of
                     (Some bid, Some ask) \<Rightarrow>
                       bind_sum (refuse_if (\<not> flt_finite bid \<or> \<not> flt_finite ask \<or> flt_le bid (Fin 0)
                                   \<or> flt_le ask (Fin 0)) ''EXECUTABLE_QUOTE_INVALID'' False) (\<lambda>_.
                       refuse_if (flt_less ask bid) ''CROSSED_MARKET'' True)
                   | _ \<Rightarrow> Inr ()) (\<lambda>_.
         bind_sum (if live \<or> cq_action request \<in> set automated_entry_actions
                   then bind_sum (refuse_if (xq_feed_type quote \<notin> set (dg_accepted_feeds dg)) ''FEED_NOT_LIVE'' True) (\<lambda>_.
                        bind_sum (refuse_if (xq_session_state quote \<noteq> ''continuous'') ''SESSION_INCOMPATIBLE'' True) (\<lambda>_.
                        case xq_market_timestamp quote of
                          Naive _ \<Rightarrow> Inl (Refused ''EXECUTABLE_QUOTE_INVALID'' False)
                        | Aware m \<Rightarrow>
                            bind_sum (refuse_if (flt_less (Fin 5) (total_seconds rnd (now - m))) ''QUOTE_STALE'' True) (\<lambda>_.
                            bind_sum (refuse_if (flt_less (total_seconds rnd (now - m)) (Fin (- 30)))
                                        ''SOURCE_CLOCK_SKEW'' False) (\<lambda>_.
                            check_spread_and_depth rnd approved quote (xq_price quote)))))
                   else Inr ()) (\<lambda>_.
         Inr quote)))))))))"

definition recheck_price ::
    "dispatch_guard \<Rightarrow> approval_context \<Rightarrow> pyfloat \<Rightarrow> guard_stop + unit" where
  "recheck_price dg approved price =
     (let rnd = dg_rnd dg
      in bind_sum (of_option Escaped (cx_reference_price approved)) (\<lambda>reference.
         bind_sum (refuse_if (\<not> flt_finite reference \<or> flt_le reference (Fin 0)) ''REFERENCE_PRICE_INVALID'' False) (\<lambda>_.
         bind_sum (of_option Escaped (ap_max_drift_bps (dg_policy dg))) (\<lambda>policy_limit.
         bind_sum (if dg_account_mode dg \<noteq> ''live''
                   then bind_sum (of_option Escaped (cx_max_drift_bps approved)) (\<lambda>requested.
                        bind_sum (refuse_if (\<not> flt_finite requested \<or> flt_le requested (Fin 0))
                                    ''PRICE_DRIFT_INVALID'' False) (\<lambda>_.
                        Inr (flt_min policy_limit requested)))
                   else Inr policy_limit) (\<lambda>limit.
         bind_sum (of_option Escaped (flt_div rnd (flt_abs (flt_sub rnd price reference)) reference)) (\<lambda>ratio.
         (let drift = flt_mul rnd ratio (Fin 10000)
          in refuse_if (\<not> flt_finite drift \<or> flt_less limit drift) ''PRICE_DRIFT_EXCEEDED'' False)))))))"

definition recheck_notional :: "dispatch_guard \<Rightarrow> approval_context \<Rightarrow> pyfloat \<Rightarrow> guard_stop + unit" where
  "recheck_notional dg approved price =
     (let quantity = flt_abs (cx_quantity approved); notional = flt_mul (dg_rnd dg) quantity price
      in refuse_if (flt_le quantity (Fin 0) \<or> \<not> flt_finite notional
           \<or> (case ap_max_order_notional (dg_policy dg) of None \<Rightarrow> False | Some most \<Rightarrow> flt_less most notional))
           ''ORDER_NOTIONAL_LIMIT'' False)"

definition margin_usable :: "(string \<times> pyfloat) list \<Rightarrow> bool" where
  "margin_usable m \<longleftrightarrow> (case (map_of m ''initMarginAfter'', map_of m ''equityWithLoanAfter'') of
     (Some a, Some b) \<Rightarrow> flt_finite a \<and> \<not> flt_less a (Fin 0) \<and> flt_finite b \<and> \<not> flt_less b (Fin 0) | _ \<Rightarrow> False)"

text \<open>The margin the leverage check may use: None on a paper account without a usable one.\<close>

definition recheck_margin ::
    "dispatch_guard \<Rightarrow> guard_run \<Rightarrow> approval_context \<Rightarrow> command_request \<Rightarrow> risk_snapshot
     \<Rightarrow> guard_stop + (string \<times> pyfloat) list option" where
  "recheck_margin dg run approved request current =
     (let live = (dg_account_mode dg = ''live''); strict = (cq_action request \<in> set (dg_strict_margin_actions dg));
          answer = gr_margin run (cx_conid approved) (cx_side approved) (cx_quantity approved)
      in bind_sum (refuse_if (live \<and> answer = None) ''WHAT_IF_UNAVAILABLE'' True) (\<lambda>_.
         bind_sum (refuse_if (strict \<and> answer = None) ''MARGIN_UNAVAILABLE'' True) (\<lambda>_.
         bind_sum (case answer of
                     None \<Rightarrow> Inr None
                   | Some m \<Rightarrow>
                       if margin_usable m then Inr (Some m)
                       else if live then Inl (Refused ''WHAT_IF_INVALID'' False)
                       else if strict then Inl (Refused ''MARGIN_INVALID'' False)
                       else Inr None) (\<lambda>margin.
         bind_sum (case margin of
                     None \<Rightarrow> Inr ()
                   | Some m \<Rightarrow> refuse_if (check_leverage (dg_rnd dg) (dg_risk_limits dg) (map_of m ''initMarginAfter'')
                                  (map_of m ''equityWithLoanAfter'') (sn_net_liquidation current) \<noteq> None)
                                 ''LEVERAGE_REJECTED'' False) (\<lambda>_.
         Inr margin)))))"

definition recheck_pause :: "dispatch_guard \<Rightarrow> guard_run \<Rightarrow> guard_stop + unit" where
  "recheck_pause dg run =
     (case gr_pause run (dg_account_id dg) of
        PauseOpen \<Rightarrow> Inr () | PauseRefused \<Rightarrow> Inl (Refused ''TRADING_PAUSED'' True) | PauseEscaped \<Rightarrow> Inl Escaped)"

definition revalidate_increasing ::
    "dispatch_guard \<Rightarrow> guard_run \<Rightarrow> approval_context \<Rightarrow> command_request \<Rightarrow> instant \<Rightarrow> risk_snapshot
     \<Rightarrow> guard_stop + dispatch_permit" where
  "revalidate_increasing dg run approved request now current =
     bind_sum (recheck_quote dg run approved request now) (\<lambda>quote.
     (let price = xq_price quote
      in bind_sum (recheck_price dg approved price) (\<lambda>_.
         bind_sum (recheck_notional dg approved price) (\<lambda>_.
         bind_sum (recheck_pause dg run) (\<lambda>_.
         bind_sum (recheck_margin dg run approved request current) (\<lambda>margin.
         bind_sum (if dg_has_allocation_policy dg
                   then recheck_allocation dg run approved request current (xq_conid quote) price
                          (cq_action request \<in> set automated_entry_actions)
                   else Inr ()) (\<lambda>_.
         bind_sum (recheck_entry_limits dg run approved request current (xq_conid quote) price) (\<lambda>_.
         bind_sum (run_ai_entry_gate run request approved quote now) (\<lambda>_.
         Inr \<lparr>dp_generation_id = sn_generation_id current, dp_source_cursor = sn_source_cursor current,
              dp_quote_timestamp = Some (xq_market_timestamp quote),
              dp_what_if_timestamp = (if margin \<noteq> None then Some (Aware now) else None),
              dp_warnings = (if dg_account_mode dg \<noteq> ''live'' \<and> margin = None
                             then [''WHAT_IF_UNAVAILABLE_PAPER''] else [])\<rparr>)))))))))"

definition revalidate ::
    "dispatch_guard \<Rightarrow> guard_run \<Rightarrow> approval_context \<Rightarrow> command_request \<Rightarrow> instant \<Rightarrow> guard_stop + dispatch_permit" where
  "revalidate dg run approved request now =
     bind_sum (recheck_broker dg run approved request) (\<lambda>current.
     if cx_risk_direction approved = REDUCING
     then bind_sum (refuse_if (\<not> still_reducing dg approved current) ''REDUCTION_NOT_MONOTONIC'' False) (\<lambda>_.
          Inr \<lparr>dp_generation_id = sn_generation_id current, dp_source_cursor = sn_source_cursor current,
               dp_quote_timestamp = None, dp_what_if_timestamp = None, dp_warnings = []\<rparr>)
     else revalidate_increasing dg run approved request now current)"

section \<open>What a permit means\<close>

lemma refuse_if_Inr [simp]: "refuse_if c code retryable = Inr u \<longleftrightarrow> \<not> c"
  by (simp add: refuse_if_def)

lemma of_option_Inr [simp]: "of_option e x = Inr v \<longleftrightarrow> x = Some v"
  by (simp add: of_option_def split: option.splits)

lemma not_le_zero: "flt_finite x \<Longrightarrow> \<not> flt_le x (Fin 0) \<longleftrightarrow> positive_finite x"
  by (cases x) (auto simp: flt_finite_def)

text \<open>The broker state at the permit is the approved one, on the pinned account, and not older.\<close>

definition broker_unchanged :: "dispatch_guard \<Rightarrow> approval_context \<Rightarrow> risk_snapshot \<Rightarrow> bool" where
  "broker_unchanged dg approved current \<longleftrightarrow> sn_account_id current = dg_account_id dg
     \<and> sn_account_mode current = dg_account_mode dg \<and> sn_generation_id (cx_broker approved) \<le> sn_generation_id current
     \<and> sn_source_cursor (cx_broker approved) \<le> sn_source_cursor current
     \<and> flt_eq (reducible_quantity (dg_rnd dg) current (cx_conid approved))
         (reducible_quantity (dg_rnd dg) (cx_broker approved) (cx_conid approved))
     \<and> same_fingerprint current (cx_broker approved)"

lemma recheck_broker_Inr:
  assumes "recheck_broker dg run approved request = Inr current"
  shows "cq_account_id request = Some (dg_account_id dg)
     \<and> (\<exists>code. gr_experiment run request = Some code \<and> opt_or [] code = [])
     \<and> gr_capture run (dg_account_id dg) = Captured current \<and> broker_unchanged dg approved current"
proof -
  from assms obtain code where code: "gr_experiment run request = Some code"
      "(case code of None \<Rightarrow> Inr () | Some c \<Rightarrow> refuse_if (c \<noteq> []) c False) = Inr ()"
    and acc: "cq_account_id request = Some (dg_account_id dg)"
    and cap: "(case gr_capture run (dg_account_id dg) of Captured sn \<Rightarrow> Inr sn | SnapshotRefused c \<Rightarrow> Inl (Refused c True)
        | CaptureRaised \<Rightarrow> Inl (Refused ''BROKER_UNAVAILABLE'' True)) = Inr current"
    and unchanged: "broker_unchanged dg approved current"
    unfolding recheck_broker_def bind_sum_Inr refuse_if_Inr of_option_Inr broker_unchanged_def by auto
  have "opt_or [] code = []" using code(2) by (cases code) simp_all
  moreover have "gr_capture run (dg_account_id dg) = Captured current"
    using cap by (cases "gr_capture run (dg_account_id dg)") simp_all
  ultimately show ?thesis using code(1) acc unchanged by blast
qed

text \<open>The evidence a live or automated entry is sent on: an accepted, continuous, fresh, tight and deep quote.\<close>

definition executable_evidence ::
    "dispatch_guard \<Rightarrow> approval_context \<Rightarrow> executable_quote \<Rightarrow> instant \<Rightarrow> bool" where
  "executable_evidence dg approved quote now \<longleftrightarrow>
     xq_feed_type quote \<in> set (dg_accepted_feeds dg) \<and> xq_session_state quote = ''continuous''
     \<and> (\<exists>m. xq_market_timestamp quote = Aware m \<and> \<not> flt_less (Fin 5) (total_seconds (dg_rnd dg) (now - m))
          \<and> \<not> flt_less (total_seconds (dg_rnd dg) (now - m)) (Fin (- 30)))
     \<and> (\<exists>bid ask ratio depth. xq_bid quote = Some bid \<and> xq_ask quote = Some ask \<and> positive_finite bid \<and> positive_finite ask
          \<and> \<not> flt_less ask bid \<and> flt_div (dg_rnd dg) (flt_sub (dg_rnd dg) ask bid) (xq_price quote) = Some ratio
          \<and> \<not> flt_less max_spread_bps (flt_mul (dg_rnd dg) ratio (Fin 10000))
          \<and> (if cx_side approved = ''BUY'' then xq_ask_size quote else xq_bid_size quote) = Some depth
          \<and> flt_finite depth \<and> \<not> flt_less depth (flt_abs (cx_quantity approved)))"

lemma check_spread_Inr:
  assumes "check_spread_and_depth rnd approved quote price = Inr u"
  shows "\<exists>bid ask ratio depth. xq_bid quote = Some bid \<and> xq_ask quote = Some ask
    \<and> flt_div rnd (flt_sub rnd ask bid) price = Some ratio \<and> \<not> flt_less max_spread_bps (flt_mul rnd ratio (Fin 10000))
    \<and> (if cx_side approved = ''BUY'' then xq_ask_size quote else xq_bid_size quote) = Some depth
    \<and> flt_finite depth \<and> \<not> flt_less depth (flt_abs (cx_quantity approved))"
proof -
  let ?size = "if cx_side approved = ''BUY'' then xq_ask_size quote else xq_bid_size quote"
  from assms obtain bid ask ratio where q: "xq_bid quote = Some bid" "xq_ask quote = Some ask"
      "flt_div rnd (flt_sub rnd ask bid) price = Some ratio" "\<not> flt_less max_spread_bps (flt_mul rnd ratio (Fin 10000))"
    and d: "flt_finite (opt_or NaN ?size)" "\<not> flt_less (opt_or NaN ?size) (flt_abs (cx_quantity approved))"
    by (auto simp: check_spread_and_depth_def bind_sum_Inr Let_def split: option.splits)
  from d obtain depth where "?size = Some depth" "flt_finite depth" "\<not> flt_less depth (flt_abs (cx_quantity approved))"
    by (cases ?size) (auto simp: flt_finite_def)
  with q show ?thesis by blast
qed

lemma recheck_quote_Inr:
  assumes "recheck_quote dg run approved request now = Inr quote"
  shows "gr_quote run (cx_conid approved) (if cx_side approved = ''BUY'' then ''ask'' else ''bid'') = Some (Some quote)
    \<and> positive_finite (xq_price quote) \<and> cx_conid approved = Some (xq_conid quote)
    \<and> xq_side quote = (if cx_side approved = ''BUY'' then ''ask'' else ''bid'')
    \<and> (dg_account_mode dg = ''live'' \<longrightarrow> ap_live_enabled (dg_policy dg)
         \<and> ap_live_account_id (dg_policy dg) = Some (dg_account_id dg))
    \<and> (dg_account_mode dg = ''live'' \<or> cq_action request \<in> set automated_entry_actions
         \<longrightarrow> executable_evidence dg approved quote now)"
proof -
  from assms have facts: "gr_quote run (cx_conid approved) (if cx_side approved = ''BUY'' then ''ask'' else ''bid'') = Some (Some quote)"
      "positive_finite (xq_price quote)" "cx_conid approved = Some (xq_conid quote)"
      "xq_side quote = (if cx_side approved = ''BUY'' then ''ask'' else ''bid'')"
      "dg_account_mode dg = ''live'' \<longrightarrow> ap_live_enabled (dg_policy dg)
         \<and> ap_live_account_id (dg_policy dg) = Some (dg_account_id dg)"
    and sides: "\<And>bid ask. xq_bid quote = Some bid \<Longrightarrow> xq_ask quote = Some ask \<Longrightarrow>
        positive_finite bid \<and> positive_finite ask \<and> \<not> flt_less ask bid"
    by (auto simp: recheck_quote_def Let_def bind_sum_Inr not_le_zero [symmetric])
  have "executable_evidence dg approved quote now"
    if strict: "dg_account_mode dg = ''live'' \<or> cq_action request \<in> set automated_entry_actions"
  proof -
    from assms strict obtain m where "xq_feed_type quote \<in> set (dg_accepted_feeds dg)"
        "xq_session_state quote = ''continuous''" "xq_market_timestamp quote = Aware m"
        "\<not> flt_less (Fin 5) (total_seconds (dg_rnd dg) (now - m))"
        "\<not> flt_less (total_seconds (dg_rnd dg) (now - m)) (Fin (- 30))"
        "check_spread_and_depth (dg_rnd dg) approved quote (xq_price quote) = Inr ()"
      by (auto simp: recheck_quote_def Let_def bind_sum_Inr split: pydatetime.splits)
    with check_spread_Inr [OF this(6)] sides show ?thesis unfolding executable_evidence_def by blast
  qed
  with facts show ?thesis by blast
qed

text \<open>The drift of the price from the reviewed reference, in basis points, as the guard computes it.\<close>

definition guard_drift :: "(rat \<Rightarrow> pyfloat) \<Rightarrow> pyfloat \<Rightarrow> pyfloat \<Rightarrow> pyfloat" where
  "guard_drift rnd price reference =
     flt_mul rnd (opt_or NaN (flt_div rnd (flt_abs (flt_sub rnd price reference)) reference)) (Fin 10000)"

lemma below_minimum:
  "\<not> flt_less (flt_min a b) x \<Longrightarrow> positive_finite a \<Longrightarrow> positive_finite b \<Longrightarrow> flt_finite x \<Longrightarrow> \<not> flt_less a x \<and> \<not> flt_less b x"
  by (auto simp: positive_finite_iff flt_finite_iff min_less_iff_disj)

lemma recheck_price_Inr:
  assumes "recheck_price dg approved price = Inr u"
    and policy: "ap_max_drift_bps (dg_policy dg) = Some limit" "positive_finite limit"
  shows "\<exists>reference. cx_reference_price approved = Some reference \<and> positive_finite reference
    \<and> flt_finite (guard_drift (dg_rnd dg) price reference)
    \<and> \<not> flt_less limit (guard_drift (dg_rnd dg) price reference)
    \<and> (dg_account_mode dg \<noteq> ''live'' \<longrightarrow> (\<exists>requested. cx_max_drift_bps approved = Some requested
         \<and> positive_finite requested \<and> \<not> flt_less requested (guard_drift (dg_rnd dg) price reference)))"
proof -
  from assms(1) policy(1) obtain reference cap ratio where r: "cx_reference_price approved = Some reference"
      "flt_finite reference" "\<not> flt_le reference (Fin 0)"
      "flt_div (dg_rnd dg) (flt_abs (flt_sub (dg_rnd dg) price reference)) reference = Some ratio"
    and d: "flt_finite (flt_mul (dg_rnd dg) ratio (Fin 10000))" "\<not> flt_less cap (flt_mul (dg_rnd dg) ratio (Fin 10000))"
    and cap: "(if dg_account_mode dg \<noteq> ''live''
         then bind_sum (of_option Escaped (cx_max_drift_bps approved)) (\<lambda>requested.
              bind_sum (refuse_if (\<not> flt_finite requested \<or> flt_le requested (Fin 0)) ''PRICE_DRIFT_INVALID'' False)
                (\<lambda>_. Inr (flt_min limit requested)))
         else Inr limit) = Inr cap"
    unfolding recheck_price_def Let_def bind_sum_Inr refuse_if_Inr of_option_Inr by auto
  have drift: "guard_drift (dg_rnd dg) price reference = flt_mul (dg_rnd dg) ratio (Fin 10000)"
    using r(4) by (simp add: guard_drift_def)
  have pos: "positive_finite reference" using r(2,3) not_le_zero by blast
  show ?thesis
  proof (cases "dg_account_mode dg = ''live''")
    case True
    then show ?thesis using r(1) pos d cap drift by simp
  next
    case False
    with cap obtain requested where q: "cx_max_drift_bps approved = Some requested" "positive_finite requested"
        "cap = flt_min limit requested" by (auto simp: bind_sum_Inr not_le_zero)
    show ?thesis using r(1) pos d(1) q(1,2) below_minimum [OF d(2) [unfolded q(3)] policy(2) q(2) d(1)] drift by simp
  qed
qed

lemma recheck_margin_Inr:
  assumes "recheck_margin dg run approved request current = Inr margin"
  shows "(dg_account_mode dg = ''live'' \<longrightarrow> margin \<noteq> None)
    \<and> (\<forall>m. margin = Some m \<longrightarrow> gr_margin run (cx_conid approved) (cx_side approved) (cx_quantity approved) = Some m
         \<and> margin_usable m
         \<and> check_leverage (dg_rnd dg) (dg_risk_limits dg) (map_of m ''initMarginAfter'') (map_of m ''equityWithLoanAfter'')
             (sn_net_liquidation current) = None)"
  using assms
  by (auto simp: recheck_margin_def Let_def bind_sum_Inr split: option.splits if_splits)

lemma recheck_notional_Inr:
  assumes "recheck_notional dg approved price = Inr u"
  shows "\<not> flt_le (flt_abs (cx_quantity approved)) (Fin 0)
    \<and> flt_finite (flt_mul (dg_rnd dg) (flt_abs (cx_quantity approved)) price)
    \<and> (\<forall>most. ap_max_order_notional (dg_policy dg) = Some most \<longrightarrow>
         \<not> flt_less most (flt_mul (dg_rnd dg) (flt_abs (cx_quantity approved)) price))"
  using assms by (auto simp: recheck_notional_def Let_def)

text \<open>What the allocation and the entry limits were re-checked against.\<close>

definition allocation_rechecked ::
    "dispatch_guard \<Rightarrow> guard_run \<Rightarrow> approval_context \<Rightarrow> command_request \<Rightarrow> risk_snapshot \<Rightarrow> executable_quote \<Rightarrow> bool" where
  "allocation_rechecked dg run approved request current quote \<longleftrightarrow>
     (case cx_allocation approved of
        None \<Rightarrow> cq_action request \<notin> set automated_entry_actions
      | Some ev \<Rightarrow> \<exists>limits authority decision. gr_limits run request = Some limits
          \<and> active_authority dg run (sn_account_id current) ev = Some authority
          \<and> revalidate_dispatch (dg_rnd dg) (gr_policy_now run) current (cx_broker approved) (xq_conid quote)
              (cx_side approved) (flt_abs (cx_quantity approved))
              (flt_max (xq_price quote) (opt_or (Fin 0) (ae_entry_limit_price ev))) authority
              (ae_artifact_max_gross ev) (ae_artifact_digest ev) (ae_authority_digest ev) (ae_effective_gross_ceiling ev)
              (unseen_in_flight_notional (dg_rnd dg) (ae_in_flight_entries ev) current)
              (Some (el_gross_fraction limits)) = Some decision
          \<and> ad_approved decision)"

lemma recheck_allocation_Inr:
  assumes "recheck_allocation dg run approved request current (xq_conid quote) (xq_price quote)
      (cq_action request \<in> set automated_entry_actions) = Inr u"
  shows "allocation_rechecked dg run approved request current quote"
  using assms by (auto simp: recheck_allocation_def allocation_rechecked_def bind_sum_Inr bind_eq_Some_conv
      split: option.splits)

lemma recheck_pause_Inr: "recheck_pause dg run = Inr u \<longleftrightarrow> gr_pause run (dg_account_id dg) = PauseOpen"
  by (simp add: recheck_pause_def split: pause_answer.splits)

lemma permit_broker:
  assumes "revalidate dg run approved request now = Inr permit"
  obtains current where "gr_capture run (dg_account_id dg) = Captured current" and "broker_unchanged dg approved current"
    and "cx_risk_direction approved = REDUCING \<longrightarrow> still_reducing dg approved current"
    and "cx_risk_direction approved = INCREASING \<longrightarrow> gr_pause run (dg_account_id dg) = PauseOpen"
proof -
  from assms obtain current where "recheck_broker dg run approved request = Inr current"
    unfolding revalidate_def bind_sum_Inr by blast
  note b = this recheck_broker_Inr [OF this]
  show thesis
  proof (rule that)
    show "cx_risk_direction approved = REDUCING \<longrightarrow> still_reducing dg approved current"
      using assms b by (auto simp: revalidate_def bind_sum_Inr)
    show "cx_risk_direction approved = INCREASING \<longrightarrow> gr_pause run (dg_account_id dg) = PauseOpen"
      using assms b by (auto simp: revalidate_def revalidate_increasing_def Let_def bind_sum_Inr recheck_pause_Inr)
  qed (use b in auto)
qed

text \<open>
  C4. A permit of the dispatch guard means that the order still fits, on fresh readings. The broker state is the
  approved one, on the pinned account and mode, and not older. A reducing order still reduces and cannot flip the
  position. For an increasing one trading is not paused; the price is positive and finite, has drifted from the
  reviewed reference by no more than the policy (and on paper the proposal) allows, and the order's value is within
  the policy's ceiling; on a live account live trading is enabled for exactly this account, the margin answer is
  usable and passes the leverage check; a live or automated entry has an accepted, continuous, fresh quote with a
  tight spread and enough depth; and where an allocation policy is set, an automated entry carries allocation
  evidence, and the gross allocation of every order that carries it was approved again with what is in flight under
  the limits and the authority of now. (A manual order without such evidence is not checked again.)
\<close>

theorem dispatch_permit_means:
  assumes run: "revalidate dg run approved request now = Inr permit"
    and policy: "ap_max_drift_bps (dg_policy dg) = Some limit" "positive_finite limit"
  shows "\<exists>current. gr_capture run (dg_account_id dg) = Captured current \<and> broker_unchanged dg approved current
    \<and> cq_account_id request = Some (dg_account_id dg)
    \<and> dp_generation_id permit = sn_generation_id current \<and> dp_source_cursor permit = sn_source_cursor current
    \<and> (cx_risk_direction approved = REDUCING \<longrightarrow> still_reducing dg approved current)
    \<and> (cx_risk_direction approved = INCREASING \<longrightarrow>
        (\<exists>quote reference margin.
          gr_quote run (cx_conid approved) (if cx_side approved = ''BUY'' then ''ask'' else ''bid'') = Some (Some quote)
          \<and> gr_pause run (dg_account_id dg) = PauseOpen \<and> positive_finite (xq_price quote)
          \<and> cx_reference_price approved = Some reference \<and> positive_finite reference
          \<and> flt_finite (guard_drift (dg_rnd dg) (xq_price quote) reference)
          \<and> \<not> flt_less limit (guard_drift (dg_rnd dg) (xq_price quote) reference)
          \<and> (dg_account_mode dg \<noteq> ''live'' \<longrightarrow> (\<exists>requested. cx_max_drift_bps approved = Some requested
               \<and> \<not> flt_less requested (guard_drift (dg_rnd dg) (xq_price quote) reference)))
          \<and> flt_finite (flt_mul (dg_rnd dg) (flt_abs (cx_quantity approved)) (xq_price quote))
          \<and> (\<forall>most. ap_max_order_notional (dg_policy dg) = Some most \<longrightarrow>
               \<not> flt_less most (flt_mul (dg_rnd dg) (flt_abs (cx_quantity approved)) (xq_price quote)))
          \<and> (dg_account_mode dg = ''live'' \<longrightarrow> ap_live_enabled (dg_policy dg)
               \<and> ap_live_account_id (dg_policy dg) = Some (dg_account_id dg) \<and> margin \<noteq> None)
          \<and> (\<forall>m. margin = Some m \<longrightarrow>
               gr_margin run (cx_conid approved) (cx_side approved) (cx_quantity approved) = Some m
               \<and> margin_usable m \<and> check_leverage (dg_rnd dg) (dg_risk_limits dg)
               (map_of m ''initMarginAfter'') (map_of m ''equityWithLoanAfter'') (sn_net_liquidation current) = None)
          \<and> (dg_account_mode dg = ''live'' \<or> cq_action request \<in> set automated_entry_actions
               \<longrightarrow> executable_evidence dg approved quote now)
          \<and> (dg_has_allocation_policy dg \<longrightarrow> allocation_rechecked dg run approved request current quote)))"
proof -
  from run obtain current where broker: "recheck_broker dg run approved request = Inr current"
    and rest: "(if cx_risk_direction approved = REDUCING
        then bind_sum (refuse_if (\<not> still_reducing dg approved current) ''REDUCTION_NOT_MONOTONIC'' False) (\<lambda>_.
          Inr \<lparr>dp_generation_id = sn_generation_id current, dp_source_cursor = sn_source_cursor current,
               dp_quote_timestamp = None, dp_what_if_timestamp = None, dp_warnings = []\<rparr>)
        else revalidate_increasing dg run approved request now current) = Inr permit"
    unfolding revalidate_def bind_sum_Inr by blast
  note b = recheck_broker_Inr [OF broker]
  show ?thesis
  proof (cases "cx_risk_direction approved = REDUCING")
    case True
    then show ?thesis using b rest by (intro exI [of _ current]) (auto simp: bind_sum_Inr)
  next
    case False
    with rest have "revalidate_increasing dg run approved request now current = Inr permit" by simp
    then obtain quote margin where quote: "recheck_quote dg run approved request now = Inr quote"
      and parts: "recheck_price dg approved (xq_price quote) = Inr ()" "recheck_notional dg approved (xq_price quote) = Inr ()"
        "recheck_pause dg run = Inr ()" "recheck_margin dg run approved request current = Inr margin"
      and alloc: "dg_has_allocation_policy dg \<longrightarrow> recheck_allocation dg run approved request current (xq_conid quote)
          (xq_price quote) (cq_action request \<in> set automated_entry_actions) = Inr ()"
      and permit: "dp_generation_id permit = sn_generation_id current" "dp_source_cursor permit = sn_source_cursor current"
      unfolding revalidate_increasing_def Let_def bind_sum_Inr by (auto split: if_splits)
    have "gr_pause run (dg_account_id dg) = PauseOpen"
      using parts(3) by (simp add: recheck_pause_Inr)
    then show ?thesis
      using b permit False recheck_quote_Inr [OF quote] recheck_price_Inr [OF parts(1) policy]
        recheck_notional_Inr [OF parts(2)] recheck_margin_Inr [OF parts(4)] recheck_allocation_Inr alloc
      by (intro exI [of _ current]) blast
  qed
qed

section \<open>A concrete permit\<close>

definition demo_live :: risk_snapshot where
  "demo_live = (demo_exposure (Fin 10000))\<lparr>sn_account_id := ''U1'', sn_account_mode := ''live''\<rparr>"

definition demo_context :: approval_context where
  "demo_context = \<lparr>cx_conid = Some 2, cx_side = ''BUY'', cx_quantity = Fin 10, cx_reference_price = Some (Fin 100),
     cx_max_drift_bps = Some (Fin 50), cx_risk_direction = INCREASING, cx_broker = demo_live, cx_market = None,
     cx_what_if = None,
     cx_allocation = Some \<lparr>ae_artifact_digest = ''d'', ae_artifact_max_gross = Fin (6 / 100), ae_authority_digest = Some ''a1'',
        ae_effective_gross_ceiling = Fin (6 / 100), ae_entry_limit_price = Some (Fin 101),
        ae_in_flight_entries = [\<lparr>fe_order_group_id = ''g'', fe_conid = 7, fe_unfilled_quantity = Fin 5, fe_filled_quantity = Fin 0,
           fe_limit_price = Fin 50, fe_filled_at = None, fe_baseline_position = None\<rparr>]\<rparr>,
     cx_entry_limits = None, cx_discretionary_scope = None\<rparr>"

definition demo_guard :: dispatch_guard where
  "demo_guard = \<lparr>dg_account_id = ''U1'', dg_account_mode = ''live'',
     dg_policy = \<lparr>ap_enabled = True, ap_live_enabled = True, ap_live_account_id = Some ''U1'',
        ap_max_order_notional = Some (Fin 2000), ap_max_drift_bps = Some (Fin 50), ap_max_paper_quote_age_seconds = None\<rparr>,
     dg_has_allocation_policy = True, dg_strict_margin_actions = [], dg_accepted_feeds = live_only_feeds,
     dg_risk_limits = \<lparr>rl_max_position_size_pct = Fin (1 / 10), rl_max_daily_loss = Fin 1000, rl_max_open_orders = 10,
        rl_max_signals_per_hour = 20, rl_max_leverage = Fin 3, rl_min_margin_cushion = Fin (1 / 10)\<rparr>,
     dg_rnd = Fin\<rparr>"

definition demo_live_quote :: executable_quote where
  "demo_live_quote = \<lparr>xq_conid = 2, xq_side = ''ask'', xq_price = Fin (1001 / 10), xq_market_timestamp = Aware 3,
     xq_feed_type = ''live'', xq_session_state = ''continuous'', xq_bid = Some (Fin 100), xq_ask = Some (Fin (1001 / 10)),
     xq_bid_size = Some (Fin 40), xq_ask_size = Some (Fin 30)\<rparr>"

definition demo_entry_limits :: entry_limits where
  "demo_entry_limits = \<lparr>el_max_positions = 5, el_position_fraction = Fin (5 / 100), el_gross_fraction = Fin (6 / 100),
     el_trade_risk_fraction = Fin (1 / 100), el_daily_loss_fraction = Fin (2 / 100), el_drawdown_fraction = Fin (10 / 100),
     el_max_pending_entry_orders = 3\<rparr>"

definition demo_guard_run :: guard_run where
  "demo_guard_run = \<lparr>gr_experiment = (\<lambda>_. Some None), gr_capture = (\<lambda>_. Captured demo_live),
     gr_quote = (\<lambda>_ _. Some (Some demo_live_quote)), gr_pause = (\<lambda>_. PauseOpen),
     gr_margin = (\<lambda>_ _ _. Some [(''initMarginAfter'', Fin 5000), (''equityWithLoanAfter'', Fin 900000)]),
     gr_limits = (\<lambda>_. Some demo_entry_limits),
     gr_authority = (\<lambda>_ _. Some (Some \<lparr>au_authority_digest = Some ''a1'', au_account_id = ''U1'', au_account_mode = ''live'',
        au_artifact_digest = ''d'', au_max_gross_allocation = Fin (5 / 100), au_expires_at = Aware 100, au_stage = ''CANARY''\<rparr>)),
     gr_policy_now = Aware 3,
     gr_entry_gate = (\<lambda>_ _ _ _. Some None)\<rparr>"

definition demo_approve_request :: command_request where
  "demo_approve_request = \<lparr>cq_command_id = ''c9'', cq_action = ''approve_proposal'', cq_account_id = Some ''U1'',
     cq_target_type = ''proposal'', cq_target_id = ''7'', cq_expected_version = Some 1, cq_body = [], cq_source = ''dashboard'',
     cq_preflight_nonce = None, cq_parent_command_id = None, cq_session_fingerprint = None,
     cq_principal = Some ''dashboard'', cq_controller_epoch = None\<rparr>"

lemma demo_permit: "is_ok (revalidate demo_guard demo_guard_run demo_context demo_approve_request 4)"
  by code_simp

theorem dispatch_permit_means_witness:
  "\<exists>permit. revalidate demo_guard demo_guard_run demo_context demo_approve_request 4 = Inr permit
     \<and> dp_source_cursor permit = 40 \<and> executable_evidence demo_guard demo_context demo_live_quote 4
     \<and> cx_allocation demo_context \<noteq> None
     \<and> allocation_rechecked demo_guard demo_guard_run demo_context demo_approve_request demo_live demo_live_quote"
proof -
  obtain permit where p: "revalidate demo_guard demo_guard_run demo_context demo_approve_request 4 = Inr permit"
    using demo_permit by (cases "revalidate demo_guard demo_guard_run demo_context demo_approve_request 4") simp_all
  have pol: "ap_max_drift_bps (dg_policy demo_guard) = Some (Fin 50)" "positive_finite (Fin 50)"
    by (simp_all add: demo_guard_def)
  have inc: "cx_risk_direction demo_context = INCREASING" "dg_account_mode demo_guard = ''live''" "dg_has_allocation_policy demo_guard"
    "cx_allocation demo_context \<noteq> None" by (simp_all add: demo_context_def demo_guard_def)
  have run: "gr_capture demo_guard_run a = Captured demo_live" "gr_quote demo_guard_run c s = Some (Some demo_live_quote)" for a c s
    by (simp_all add: demo_guard_run_def)
  have "sn_source_cursor demo_live = 40" by (simp add: demo_live_def demo_exposure_def)
  with dispatch_permit_means [OF p pol] p inc show ?thesis unfolding run by auto
qed

section \<open>Growth of a position proves each fill once\<close>

definition entry_finite :: "in_flight_entry \<Rightarrow> bool" where
  "entry_finite e \<longleftrightarrow> flt_finite (fe_filled_quantity e) \<and> (case fe_baseline_position e of None \<Rightarrow> True | Some b \<Rightarrow> flt_finite b)"

definition baseline :: "in_flight_entry \<Rightarrow> rat" where
  "baseline e = exact (opt_or (Fin 0) (fe_baseline_position e))"

definition claimed_on :: "int \<Rightarrow> in_flight_entry list \<Rightarrow> rat" where
  "claimed_on conid es = (\<Sum>e \<leftarrow> filter (\<lambda>e. fe_conid e = conid) es. exact (fe_filled_quantity e))"

text \<open>The state of the two loops: the claimed entries \<open>cs\<close>, and the sums of what they claim.\<close>

definition claims :: "in_flight_entry list \<Rightarrow> fill_proof \<Rightarrow> bool" where
  "claims cs p \<longleftrightarrow> fst p = map fe_order_group_id cs \<and> (\<forall>c. snd p c = Fin (claimed_on c cs))"

lemma claims_step:
  assumes "claims cs p" and "entry_finite e"
  shows "claims (cs @ [e]) (claim_fill Fin e p)"
  using assms by (auto simp: claims_def claim_fill_def claimed_on_def entry_finite_def flt_finite_iff)

lemma enumerated_claims:
  assumes "claims cs p" and "\<forall>e \<in> set es. entry_finite e"
  shows "claims (cs @ filter (\<lambda>e. enumerated_after_fill e sn) es)
    (fold (\<lambda>e p. if enumerated_after_fill e sn then claim_fill Fin e p else p) es p)"
  using assms
proof (induction es arbitrary: cs p)
  case (Cons e es)
  show ?case
  proof (cases "enumerated_after_fill e sn")
    case True
    with Cons.IH [OF claims_step [OF Cons.prems(1)], of e] Cons.prems(2) show ?thesis by simp
  next
    case False
    then show ?thesis using Cons by simp
  qed
qed simp

definition held_on :: "risk_snapshot \<Rightarrow> int \<Rightarrow> rat" where
  "held_on sn conid = exact (reducible_quantity Fin sn (Some conid))"

lemma grown_iff:
  assumes "claims cs p" and "entry_finite e" and "flt_finite (reducible_quantity Fin sn (Some (fe_conid e)))"
  shows "claim_if_grown Fin sn e p = (if exact (fe_filled_quantity e) \<le> held_on sn (fe_conid e) - baseline e - claimed_on (fe_conid e) cs
      then claim_fill Fin e p else p)"
proof -
  have b: "opt_or (Fin 0) (fe_baseline_position e) = Fin (baseline e)" and f: "fe_filled_quantity e = Fin (exact (fe_filled_quantity e))"
    using assms(2) by (auto simp: entry_finite_def baseline_def flt_finite_iff split: option.splits)
  have h: "reducible_quantity Fin sn (Some (fe_conid e)) = Fin (held_on sn (fe_conid e))"
    using finite_exact [OF assms(3)] by (simp add: held_on_def)
  have c: "snd p (fe_conid e) = Fin (claimed_on (fe_conid e) cs)" using assms(1) by (simp add: claims_def)
  have "flt_sub Fin (flt_sub Fin (reducible_quantity Fin sn (Some (fe_conid e))) (opt_or (Fin 0) (fe_baseline_position e)))
      (snd p (fe_conid e)) = Fin (held_on sn (fe_conid e) - baseline e - claimed_on (fe_conid e) cs)"
    unfolding b h c by (simp add: flt_sub_def)
  moreover have "flt_le (fe_filled_quantity e) (Fin y) \<longleftrightarrow> exact (fe_filled_quantity e) \<le> y" for y
    by (subst f) simp
  ultimately show ?thesis by (simp add: claim_if_grown_def Let_def)
qed

lemma set_insert_by_baseline [simp]: "set (insert_by_baseline e xs) = insert e (set xs)"
  by (induction xs) auto

lemma set_sort_by_baseline [simp]: "set (sort_by_baseline es) = set es"
proof -
  have "set (foldl (\<lambda>acc e. insert_by_baseline e acc) acc es) = set acc \<union> set es" for acc
    by (induction es arbitrary: acc) auto
  then show ?thesis by (simp add: sort_by_baseline_def)
qed

lemma insert_sorted:
  assumes "sorted_wrt (\<lambda>a b. baseline a \<le> baseline b) xs" and "\<forall>x \<in> insert e (set xs). entry_finite x"
  shows "sorted_wrt (\<lambda>a b. baseline a \<le> baseline b) (insert_by_baseline e xs)"
proof -
  have less: "flt_less (opt_or (Fin 0) (fe_baseline_position x)) (opt_or (Fin 0) (fe_baseline_position y)) \<longleftrightarrow> baseline x < baseline y"
    if "entry_finite x" "entry_finite y" for x y
    using that by (auto simp: entry_finite_def baseline_def flt_finite_iff split: option.splits)
  show ?thesis using assms by (induction xs) (force simp: less)+
qed

lemma sort_sorted:
  assumes "\<forall>e \<in> set es. entry_finite e"
  shows "sorted_wrt (\<lambda>a b. baseline a \<le> baseline b) (sort_by_baseline es)"
proof -
  have "sorted_wrt (\<lambda>a b. baseline a \<le> baseline b) (foldl (\<lambda>acc e. insert_by_baseline e acc) acc es)"
    if "sorted_wrt (\<lambda>a b. baseline a \<le> baseline b) acc" "\<forall>e \<in> set acc \<union> set es. entry_finite e" for acc
    using that by (induction es arbitrary: acc) (simp_all add: insert_sorted)
  from this [of "[]"] assms show ?thesis by (simp add: sort_by_baseline_def)
qed

lemma claimed_on_snoc: "claimed_on c (cs @ [e]) = claimed_on c cs + (if fe_conid e = c then exact (fe_filled_quantity e) else 0)"
  by (simp add: claimed_on_def)

text \<open>The second loop: each claim it adds is covered by the growth from its own baseline.\<close>

lemma growth_claims:
  assumes "claims cs p" and "sorted_wrt (\<lambda>a b. baseline a \<le> baseline b) es"
    and "\<forall>e \<in> set es. entry_finite e \<and> flt_finite (reducible_quantity Fin sn (Some (fe_conid e)))"
    and "set gs \<subseteq> set cs" and "\<forall>g \<in> set gs. claimed_on (fe_conid g) cs \<le> held_on sn (fe_conid g) - baseline g"
    and "\<forall>g \<in> set gs. \<forall>e \<in> set es. baseline g \<le> baseline e"
  shows "\<exists>new. claims (cs @ new) (fold (claim_if_grown Fin sn) es p) \<and> set new \<subseteq> set es
    \<and> (\<forall>g \<in> set gs \<union> set new. claimed_on (fe_conid g) (cs @ new) \<le> held_on sn (fe_conid g) - baseline g)"
  using assms
proof (induction es arbitrary: cs gs p)
  case Nil
  then show ?case by (intro exI [of _ "[]"]) simp
next
  case (Cons e es)
  note grown = grown_iff [OF Cons.prems(1), of e sn]
  show ?case
  proof (cases "exact (fe_filled_quantity e) \<le> held_on sn (fe_conid e) - baseline e - claimed_on (fe_conid e) cs")
    case False
    then have "claim_if_grown Fin sn e p = p" using grown Cons.prems(3) by simp
    with Cons.IH [OF Cons.prems(1) _ _ Cons.prems(4,5)] Cons.prems(2,3,6) show ?thesis by fastforce
  next
    case True
    then have step: "claim_if_grown Fin sn e p = claim_fill Fin e p" using grown Cons.prems(3) by simp
    have cl: "claims (cs @ [e]) (claim_fill Fin e p)" using claims_step [OF Cons.prems(1)] Cons.prems(3) by simp
    have cover: "\<forall>g \<in> set (gs @ [e]). claimed_on (fe_conid g) (cs @ [e]) \<le> held_on sn (fe_conid g) - baseline g"
    proof
      fix g assume g: "g \<in> set (gs @ [e])"
      show "claimed_on (fe_conid g) (cs @ [e]) \<le> held_on sn (fe_conid g) - baseline g"
      proof (cases "fe_conid e = fe_conid g")
        case same: True
        have "baseline g \<le> baseline e" using g Cons.prems(6) by auto
        then show ?thesis using True same by (simp add: claimed_on_snoc)
      next
        case False
        then show ?thesis using g Cons.prems(5) by (auto simp: claimed_on_snoc)
      qed
    qed
    have order: "\<forall>g \<in> set (gs @ [e]). \<forall>x \<in> set es. baseline g \<le> baseline x" using Cons.prems(2,6) by auto
    from Cons.IH [OF cl _ _ _ cover order] Cons.prems(2-4) obtain new where
        "claims ((cs @ [e]) @ new) (fold (claim_if_grown Fin sn) es (claim_fill Fin e p))" "set new \<subseteq> set es"
        "\<forall>g \<in> set (gs @ [e]) \<union> set new. claimed_on (fe_conid g) ((cs @ [e]) @ new) \<le> held_on sn (fe_conid g) - baseline g"
      by force
    then show ?thesis using step by (intro exI [of _ "e # new"]) auto
  qed
qed

text \<open>
  A share of growth proves one fill only. In exact arithmetic and whatever the entries in flight are, the fills
  that the snapshot is said to contain are a list of entries with a fill, and for every one that was accepted because
  its position had grown since it was sent, all the fills accepted on that instrument together are within the growth
  from its own baseline. So no fill is released from the gross exposure by shares another fill already accounts for.
\<close>

lemma growth_proves_one_fill:
  assumes finite: "\<forall>e \<in> set entries. entry_finite e \<and> flt_finite (reducible_quantity Fin sn (Some (fe_conid e)))"
  shows "\<exists>accepted. fst (fills_in_snapshot Fin entries sn) = map fe_order_group_id accepted
    \<and> set accepted \<subseteq> {e \<in> set entries. 0 < exact (fe_filled_quantity e)}
    \<and> (\<forall>e \<in> set accepted. \<not> enumerated_after_fill e sn \<longrightarrow>
         claimed_on (fe_conid e) accepted \<le> held_on sn (fe_conid e) - baseline e)"
proof -
  let ?filled = "filter (\<lambda>e. flt_less (Fin 0) (fe_filled_quantity e)) entries"
  let ?enum = "filter (\<lambda>e. enumerated_after_fill e sn) ?filled"
  let ?p = "fold (\<lambda>e p. if enumerated_after_fill e sn then claim_fill Fin e p else p) ?filled ([], \<lambda>_. Fin 0)"
  let ?rest = "sort_by_baseline (filter (\<lambda>e. fe_order_group_id e \<notin> set (fst ?p) \<and> fe_baseline_position e \<noteq> None) ?filled)"
  have "claims [] ([], \<lambda>_. Fin 0)" by (simp add: claims_def claimed_on_def)
  from enumerated_claims [OF this, of ?filled sn] finite have p: "claims ?enum ?p" by simp
  have "sorted_wrt (\<lambda>a b. baseline a \<le> baseline b) ?rest" using finite by (intro sort_sorted) auto
  from growth_claims [OF p this, of sn "[]"] finite obtain new where
      new: "claims (?enum @ new) (fold (claim_if_grown Fin sn) ?rest ?p)" "set new \<subseteq> set ?rest"
      "\<forall>g \<in> set new. claimed_on (fe_conid g) (?enum @ new) \<le> held_on sn (fe_conid g) - baseline g"
    by auto
  have fills: "fills_in_snapshot Fin entries sn = fold (claim_if_grown Fin sn) ?rest ?p"
    by (simp add: fills_in_snapshot_def Let_def)
  have pos: "0 < exact (fe_filled_quantity e)" if "e \<in> set ?filled" for e
    using that finite by (auto simp: entry_finite_def flt_finite_iff)
  show ?thesis
  proof (intro exI conjI)
    show "fst (fills_in_snapshot Fin entries sn) = map fe_order_group_id (?enum @ new)"
      using new(1) unfolding fills claims_def by blast
    show "set (?enum @ new) \<subseteq> {e \<in> set entries. 0 < exact (fe_filled_quantity e)}" using new(2) pos by auto
    show "\<forall>e \<in> set (?enum @ new). \<not> enumerated_after_fill e sn \<longrightarrow>
        claimed_on (fe_conid e) (?enum @ new) \<le> held_on sn (fe_conid e) - baseline e" using new(3) by auto
  qed
qed

text \<open>Two entries of ten shares each on a position that has grown by ten: one of them is accepted.\<close>

definition demo_entry :: "string \<Rightarrow> rat \<Rightarrow> in_flight_entry" where
  "demo_entry g b = \<lparr>fe_order_group_id = g, fe_conid = 1, fe_unfilled_quantity = Fin 0, fe_filled_quantity = Fin 10,
     fe_limit_price = Fin 50, fe_filled_at = None, fe_baseline_position = Some (Fin b)\<rparr>"

definition demo_grown :: risk_snapshot where
  "demo_grown = (demo_exposure (Fin 500))\<lparr>sn_positions := map (\<lambda>r. r\<lparr>bp_quantity := Fin 10\<rparr>)
     (sn_positions (demo_exposure (Fin 500)))\<rparr>"

lemma demo_fills: "fst (fills_in_snapshot Fin [demo_entry ''b'' 0, demo_entry ''a'' 0] demo_grown) = [''b'']"
  by code_simp

lemma growth_proves_one_fill_example:
  "\<exists>accepted. map fe_order_group_id accepted = [''b''] \<and> set accepted \<subseteq> {demo_entry ''b'' 0, demo_entry ''a'' 0}
     \<and> (\<forall>e \<in> set accepted. \<not> enumerated_after_fill e demo_grown \<longrightarrow>
          claimed_on (fe_conid e) accepted \<le> held_on demo_grown (fe_conid e) - baseline e)"
proof -
  have "\<forall>e \<in> set [demo_entry ''b'' 0, demo_entry ''a'' 0].
      entry_finite e \<and> flt_finite (reducible_quantity Fin demo_grown (Some (fe_conid e)))"
    by (simp add: entry_finite_def demo_entry_def flt_finite_def reducible_quantity_def demo_grown_def demo_exposure_def py_sum_def)
  from growth_proves_one_fill [OF this, unfolded demo_fills] obtain accepted where
      a: "[''b''] = map fe_order_group_id accepted"
        "set accepted \<subseteq> {e \<in> set [demo_entry ''b'' 0, demo_entry ''a'' 0]. 0 < exact (fe_filled_quantity e)}"
        "\<forall>e \<in> set accepted. \<not> enumerated_after_fill e demo_grown \<longrightarrow>
          claimed_on (fe_conid e) accepted \<le> held_on demo_grown (fe_conid e) - baseline e"
    by (elim exE conjE)
  have "set accepted \<subseteq> {demo_entry ''b'' 0, demo_entry ''a'' 0}" using a(2) by auto
  then show ?thesis using a(1) [symmetric] a(3) by (intro exI [of _ accepted] conjI)
qed

end
