(* ===== verification/Approval_Saga.thy ===== *)
theory Approval_Saga
  imports Command_Coordinator Dispatch_Guard Risk_Producer
begin

text \<open>
  \<open>ApprovalCommandService\<close> of \<^verbatim>\<open>src/trader/trading/command_coordinator.py\<close>: the saga that sends real
  orders. It validates a proposal, records the risk decision, claims the proposal in one
  transaction (with the pause gate re-checked in it), and only then hands the bracket to the broker.

  The proposals, the pause table and the risk table are the world of the command coordinator's
  database. The collaborators the service is built with (quotes, broker snapshot, risk gate,
  dispatch guard, order port) are functions of the record \<open>approval_run\<close>: what each of them answers
  in this call. Between the service's own transactions other threads commit theirs: \<open>ru_gap\<close> says
  what they did to the database before each of them.
\<close>

section \<open>State and collaborators\<close>

record trading_tables =
  tt_proposals :: "proposal_record list"
  tt_controls :: "control_state list"
  tt_risk :: "risk_row list"
  tt_sent :: "(proposal_record \<times> string) list"
  tt_scheduled :: "(string \<times> instant) list"
  tt_cancelled :: "(string \<times> string) list"

type_synonym saga_db = "trading_tables command_db"

definition saga_risk_slot :: "(trading_tables command_tables, risk_row list) slot" where
  "saga_risk_slot = \<lparr>sl_get = (\<lambda>p. tt_risk (ct_world p)),
     sl_put = (\<lambda>rows p. p\<lparr>ct_world := (ct_world p)\<lparr>tt_risk := rows\<rparr>\<rparr>)\<rparr>"

interpretation saga_risk: risk_slot saga_risk_slot
  by unfold_locales (simp_all add: saga_risk_slot_def)

definition proposals_of :: "saga_db \<Rightarrow> proposal_record list" where
  "proposals_of db = tt_proposals (ct_world (jd_prod db))"

definition controls_of :: "saga_db \<Rightarrow> control_state list" where
  "controls_of db = tt_controls (ct_world (jd_prod db))"

definition ledger_of :: "saga_db \<Rightarrow> ledger_row list" where
  "ledger_of db = ct_ledger (jd_prod db)"

definition set_proposals :: "proposal_record list \<Rightarrow> saga_db \<Rightarrow> saga_db" where
  "set_proposals rows db =
     db\<lparr>jd_prod := (jd_prod db)\<lparr>ct_world := (ct_world (jd_prod db))\<lparr>tt_proposals := rows\<rparr>\<rparr>\<rparr>"

definition set_ledger :: "ledger_row list \<Rightarrow> saga_db \<Rightarrow> saga_db" where
  "set_ledger rows db = db\<lparr>jd_prod := (jd_prod db)\<lparr>ct_ledger := rows\<rparr>\<rparr>"

lemma table_writes [simp]:
  "proposals_of (set_proposals rows db) = rows" "ledger_of (set_proposals rows db) = ledger_of db"
  "controls_of (set_proposals rows db) = controls_of db" "jd_rows (set_proposals rows db) = jd_rows db"
  "proposals_of (set_ledger ls db) = proposals_of db" "ledger_of (set_ledger ls db) = ls"
  "controls_of (set_ledger ls db) = controls_of db" "jd_rows (set_ledger ls db) = jd_rows db"
  "jd_open_events (set_proposals rows db) = jd_open_events db"
  "jd_open_events (set_ledger ls db) = jd_open_events db"
  "jd_next_cursor (set_proposals rows db) = jd_next_cursor db"
  "jd_next_cursor (set_ledger ls db) = jd_next_cursor db"
  by (simp_all add: proposals_of_def ledger_of_def controls_of_def set_proposals_def set_ledger_def)

record approval_signal =
  as_source_name :: string
  as_buy :: bool
  as_conid :: int

datatype submit_answer = OrdersSubmitted "int list" | BrokerRejected string | SubmitRaised

text \<open>The places at which the call reads its clock, and at which it starts a transaction or a read.\<close>

datatype reading =
    AtQuoteGuards | AtEvidence | AtFirstGuard | AtValidated | AtClaim | AtSubmittingEvent
  | AtDispatchGuard | AtFinishMark | AtFinishEvent | AtFailMark | AtFailEvent | AtRejected | AtUnknown | AtSchedule
  | AtResolved | AtAcknowledged

datatype gap_point =
    GapInflight | GapDecision | GapFirstTransition | GapClaim | GapRefused | GapDispatchDecision
  | GapFail | GapFinish | GapUnknown | GapAcknowledge

record call_run =
  ru_clock :: "reading \<Rightarrow> pydatetime"
  ru_ledger_clock :: "reading \<Rightarrow> instant"
  ru_journaled :: "reading \<Rightarrow> instant"
  ru_publish :: "bool \<Rightarrow> publish_run"
  ru_gap :: "gap_point \<Rightarrow> saga_db \<Rightarrow> saga_db"

record approval_run = call_run +
  ru_capture :: "string \<Rightarrow> capture_answer"
  ru_risk :: "approval_signal \<Rightarrow> int \<Rightarrow> pyfloat \<Rightarrow> pyfloat \<Rightarrow> pyfloat \<Rightarrow> bool option"
  ru_quote :: "int option \<Rightarrow> string \<Rightarrow> executable_quote option option"
  ru_revalidate :: "bool \<Rightarrow> approval_context \<Rightarrow> command_request \<Rightarrow> instant \<Rightarrow> guard_stop + dispatch_permit"
  ru_submit :: "proposal_record \<Rightarrow> string \<Rightarrow> string \<Rightarrow> submit_answer"

record approval_service =
  sv_account_id :: string
  sv_account_mode :: string
  sv_outside_session_limit_enabled :: bool
  sv_has_dispatch_guard :: bool
  sv_paper_max_quote_age_seconds :: "pyfloat option"
  sv_rnd :: "rat \<Rightarrow> pyfloat"

text \<open>
  What the saga may raise. \<open>BadProposalId\<close> stands for the exceptions of \<open>int(cmd.body["proposal_id"])\<close>,
  \<open>BodyKeyError\<close> for those of a body without the key another saga reads,
  \<open>CollaboratorRaised\<close> for an exception of a collaborator that is not caught.
\<close>

datatype claim_error =
    ClaimPaused control_error
  | ApprovalClaimFailed approval_claim_outcome
  | ConcurrentChange
  | ClaimIllegalTransition
  | ClaimPreflightRequired

datatype saga_error =
    BadProposalId
  | BodyKeyError
  | GuardException guard_exception
  | CollaboratorRaised
  | RiskWriteRaised "risk_error journal_error"
  | TransitionRaised "command_error journal_error"
  | ClaimRaised "claim_error journal_error"
  | FailMarkRaised "claim_error journal_error"

text \<open>What the call did outside the database: the orders it submitted and the commands it scheduled.\<close>

record saga_effects =
  fx_sent :: "(proposal_record \<times> string) list"
  fx_scheduled :: "(string \<times> instant) list"
  fx_cancelled :: "(string \<times> string) list"

definition no_effects :: saga_effects where
  "no_effects = \<lparr>fx_sent = [], fx_scheduled = [], fx_cancelled = []\<rparr>"

type_synonym saga_answer = "(saga_error + command_receipt) \<times> saga_effects \<times> saga_db"

definition now_utc :: "'a call_run_scheme \<Rightarrow> reading \<Rightarrow> instant" where
  "now_utc run r = as_utc (ru_clock run r)"

definition live_approve_principal :: string where
  "live_approve_principal = ''dashboard''"

definition claim_error_code :: "approval_claim \<Rightarrow> string" where
  "claim_error_code r = (case r of CLAIM_EXPIRED \<Rightarrow> ''PROPOSAL_EXPIRED'' | REVISION_MISMATCH \<Rightarrow> ''REVISION_MISMATCH''
     | NOT_PENDING \<Rightarrow> ''NOT_PENDING'' | NOT_FOUND \<Rightarrow> ''PROPOSAL_NOT_FOUND'' | WRONG_ACCOUNT \<Rightarrow> ''WRONG_ACCOUNT''
     | CLAIMED \<Rightarrow> ''PROPOSAL_NOT_FOUND'')"

section \<open>Validation\<close>

record verdict =
  vd_problem :: "command_problem option"
  vd_direction :: "risk_direction option"
  vd_decision :: jobject
  vd_context :: "approval_context option"

definition reject_decision :: "string \<Rightarrow> int \<Rightarrow> jobject" where
  "reject_decision code proposal_id =
     [(''decision'', JStr ''reject''), (''code'', JStr code), (''proposal_id'', JInt proposal_id)]"

definition reject :: "int \<Rightarrow> string \<Rightarrow> bool \<Rightarrow> verdict" where
  "reject proposal_id code retryable =
     \<lparr>vd_problem = Some \<lparr>cp_code = code, cp_retryable = retryable\<rparr>, vd_direction = None,
      vd_decision = reject_decision code proposal_id, vd_context = None\<rparr>"

definition approve_decision :: "string \<Rightarrow> int \<Rightarrow> jobject" where
  "approve_decision direction proposal_id =
     [(''decision'', JStr ''approve''), (''direction'', JStr direction), (''proposal_id'', JInt proposal_id)]"

definition definite_snapshot_errors :: "string list" where
  "definite_snapshot_errors = [''ACCOUNT_MISMATCH'', ''ACCOUNT_MODE_MISMATCH'', ''INVALID_NET_LIQUIDATION'',
     ''INVALID_DAILY_PNL'', ''INVALID_POSITION'', ''INVALID_WORKING_ORDER'']"

definition evaluate_risk :: "approval_service \<Rightarrow> approval_run \<Rightarrow> proposal_record \<Rightarrow> risk_snapshot \<Rightarrow> bool option" where
  "evaluate_risk svc run rec broker =
     ru_risk run \<lparr>as_source_name = ''approval:'' @ pr_source rec, as_buy = (pr_action rec = ''BUY''),
                  as_conid = opt_or 0 (pr_conid rec)\<rparr>
       (open_order_count broker) (sn_daily_pnl broker) (sn_net_liquidation broker)
       (position_value (sv_rnd svc) broker (pr_conid rec))"

definition validate_increasing ::
    "approval_service \<Rightarrow> approval_run \<Rightarrow> command_request \<Rightarrow> int \<Rightarrow> proposal_record \<Rightarrow> risk_snapshot \<Rightarrow> pyfloat
     \<Rightarrow> saga_error + verdict" where
  "validate_increasing svc run q proposal_id rec broker qty =
     (case ru_quote run (pr_conid rec) (if pr_action rec = ''BUY'' then ''ask'' else ''bid'') of
        None \<Rightarrow> Inl CollaboratorRaised
      | Some quote \<Rightarrow>
         (case check_exposure_increasing_guards (sv_rnd svc) rec quote (now_utc run AtQuoteGuards)
                 (sv_account_mode svc) (sv_outside_session_limit_enabled svc)
                 (sv_paper_max_quote_age_seconds svc) of
            Inl e \<Rightarrow> Inl (GuardException e)
          | Inr (Some p) \<Rightarrow>
              Inr \<lparr>vd_problem = Some p, vd_direction = Some INCREASING,
                   vd_decision = reject_decision (cp_code p) (pr_id rec), vd_context = None\<rparr>
          | Inr None \<Rightarrow>
             (let context = \<lparr>cx_conid = pr_conid rec, cx_side = pr_action rec, cx_quantity = qty,
                    cx_reference_price = pr_reference_price rec, cx_max_drift_bps = pr_max_price_drift_bps rec,
                    cx_risk_direction = INCREASING, cx_broker = broker,
                    cx_market = map_option (\<lambda>x. \<lparr>me_quote = x, me_received_at = now_utc run AtEvidence\<rparr>) quote,
                    cx_what_if = None, cx_allocation = None, cx_entry_limits = None, cx_discretionary_scope = None\<rparr>;
                  approved = Inr \<lparr>vd_problem = None, vd_direction = Some INCREASING,
                    vd_decision = approve_decision ''INCREASING'' (pr_id rec), vd_context = Some context\<rparr>
              in if sv_has_dispatch_guard svc
                 then case ru_revalidate run False context q (now_utc run AtFirstGuard) of
                        Inr _ \<Rightarrow> approved
                      | Inl (Refused code retryable) \<Rightarrow> Inr (reject proposal_id code retryable)
                      | Inl Escaped \<Rightarrow> Inl CollaboratorRaised
                 else approved)))"

definition validate_exposure ::
    "approval_service \<Rightarrow> approval_run \<Rightarrow> command_request \<Rightarrow> int \<Rightarrow> proposal_record \<Rightarrow> risk_snapshot
     \<Rightarrow> saga_error + verdict" where
  "validate_exposure svc run q proposal_id rec broker =
     (let held = reducible_quantity (sv_rnd svc) broker (pr_conid rec);
          qty = opt_or (Fin 0) (pr_quantity rec);
          direction = classify_risk_direction (pr_action rec) held qty
      in if pr_action rec = ''SELL'' \<and> flt_less (Fin 0) held \<and> flt_less held qty
         then Inr ((reject proposal_id ''REDUCIBLE_QUANTITY_EXCEEDED'' False)\<lparr>vd_direction := Some direction\<rparr>)
         else if direction = REDUCING
         then Inr \<lparr>vd_problem = None, vd_direction = Some REDUCING,
                vd_decision = approve_decision ''REDUCING'' (pr_id rec),
                vd_context = Some \<lparr>cx_conid = pr_conid rec, cx_side = pr_action rec, cx_quantity = qty,
                    cx_reference_price = pr_reference_price rec, cx_max_drift_bps = pr_max_price_drift_bps rec,
                    cx_risk_direction = REDUCING, cx_broker = broker, cx_market = None,
                    cx_what_if = None, cx_allocation = None, cx_entry_limits = None, cx_discretionary_scope = None\<rparr>\<rparr>
         else validate_increasing svc run q proposal_id rec broker qty)"

definition validate ::
    "approval_service \<Rightarrow> approval_run \<Rightarrow> command_request \<Rightarrow> int \<Rightarrow> proposal_record option \<Rightarrow> ledger_row list
     \<Rightarrow> saga_error + verdict" where
  "validate svc run q proposal_id found ledger =
     (let reject = (\<lambda>code retryable. Inr (reject proposal_id code retryable))
      in case found of
           None \<Rightarrow> reject ''PROPOSAL_NOT_FOUND'' False
         | Some rec \<Rightarrow>
             if pr_status rec \<noteq> PENDING then reject ''NOT_PENDING'' False
             else if cq_expected_version q \<noteq> None \<and> Some (pr_revision rec) \<noteq> cq_expected_version q
             then reject ''REVISION_MISMATCH'' False
             else if pr_account_id rec \<noteq> Some (sv_account_id svc) then reject ''WRONG_ACCOUNT'' False
             else if sv_account_mode svc = ''live'' \<and> \<not> pr_live_approval_eligible rec
             then reject ''LIVE_INELIGIBLE'' False
             else if sv_account_mode svc = ''live'' \<and> cq_principal q \<noteq> Some live_approve_principal
             then reject ''LLM_LIVE_APPROVE_FORBIDDEN'' False
             else if filter (\<lambda>r. lr_command_id r \<noteq> cq_command_id q)
                       (unresolved_for_target ledger ''proposal'' (string_of_int (pr_id rec))) \<noteq> []
             then reject ''COMMAND_IN_FLIGHT'' True
             else case ru_capture run (sv_account_id svc) of
                    SnapshotRefused code \<Rightarrow> reject code (code \<notin> set definite_snapshot_errors)
                  | CaptureRaised \<Rightarrow> reject ''BROKER_UNAVAILABLE'' True
                  | Captured broker \<Rightarrow>
                      (case evaluate_risk svc run rec broker of
                         None \<Rightarrow> Inl CollaboratorRaised
                       | Some False \<Rightarrow> reject ''RISK_REJECTED'' False
                       | Some True \<Rightarrow> validate_exposure svc run q proposal_id rec broker))"

section \<open>Transitions of the command\<close>

definition command_write ::
    "command_request \<Rightarrow> command_state \<Rightarrow> command_state \<Rightarrow> jobject option \<Rightarrow> string option \<Rightarrow> instant
     \<Rightarrow> trading_tables command_tables \<Rightarrow> int \<Rightarrow> command_error + trading_tables command_tables" where
  "command_write q from_state to_state outcome error_code now p _ =
     (case transition_in_tx (cq_command_id q) from_state to_state outcome error_code now (ct_ledger p) of
        None \<Rightarrow> Inl IllegalCommandTransition
      | Some (row, rows) \<Rightarrow> Inr (p\<lparr>ct_ledger := rows\<rparr>))"

definition transition_item ::
    "command_request \<Rightarrow> command_state \<Rightarrow> command_state \<Rightarrow> jobject option \<Rightarrow> string option \<Rightarrow> instant \<Rightarrow> instant
     \<Rightarrow> (trading_tables command_tables, command_error) batch_item" where
  "transition_item q from_state to_state outcome error_code now journaled =
     \<lparr>bi_received_ts = journaled, bi_uuid = [],
      bi_mutation = command_updated_mutation q to_state now outcome error_code,
      bi_write = command_write q from_state to_state outcome error_code now,
      bi_event_id = Some (command_event_id (cq_command_id q) to_state)\<rparr>"

definition transition_command ::
    "'a call_run_scheme \<Rightarrow> reading \<Rightarrow> command_request \<Rightarrow> command_state \<Rightarrow> command_state \<Rightarrow> jobject option \<Rightarrow> string option
     \<Rightarrow> saga_db \<Rightarrow> (saga_error + unit) \<times> saga_db" where
  "transition_command run at_time q from_state to_state outcome error_code db =
     (case mutate (transition_item q from_state to_state outcome error_code (now_utc run at_time)
             (ru_journaled run at_time)) db of
        (Inl e, db') \<Rightarrow> (Inl (TransitionRaised e), db')
      | (Inr _, db') \<Rightarrow> (Inr (), db'))"

definition receipt ::
    "string \<Rightarrow> command_state \<Rightarrow> string option \<Rightarrow> bool \<Rightarrow> jobject option \<Rightarrow> command_receipt" where
  "receipt command_id state error_code retryable outcome =
     \<lparr>rc_command_id = command_id, rc_correlation_id = command_id, rc_state = state, rc_outcome = outcome,
      rc_error_code = error_code, rc_retryable = retryable\<rparr>"

section \<open>Units of work on proposal and command together\<close>

type_synonym 'r claim_result = "(claim_error journal_error + 'r) \<times> saga_db"

definition assert_proposal_revision ::
    "int \<Rightarrow> trading_tables command_tables \<Rightarrow> int \<Rightarrow> claim_error + trading_tables command_tables" where
  "assert_proposal_revision expected p revision = (if revision \<noteq> expected then Inl ConcurrentChange else Inr p)"

definition append_proposal ::
    "'a call_run_scheme \<Rightarrow> reading \<Rightarrow> command_request \<Rightarrow> proposal_record \<Rightarrow> saga_db \<Rightarrow> domain_event claim_result" where
  "append_proposal run at_time q rec db =
     journal_append (ru_journaled run at_time) [] (proposal_mutation_for rec (Some (cq_command_id q)))
       (assert_proposal_revision (pr_revision rec)) (Some (proposal_event_id (pr_id rec) (pr_revision rec))) db"

text \<open>The ledger row moves, then the event is appended with a callback that writes nothing.\<close>

definition move_command ::
    "'a call_run_scheme \<Rightarrow> reading \<Rightarrow> command_request \<Rightarrow> command_state \<Rightarrow> command_state \<Rightarrow> jobject option \<Rightarrow> string option
     \<Rightarrow> saga_db \<Rightarrow> domain_event claim_result" where
  "move_command run at_time q from_state to_state outcome error_code db =
     (case transition_in_tx (cq_command_id q) from_state to_state outcome error_code (ru_ledger_clock run at_time)
             (ledger_of db) of
        None \<Rightarrow> (Inl (Raised ClaimIllegalTransition), db)
      | Some (row, rows) \<Rightarrow>
          journal_append (ru_journaled run at_time) []
            (command_updated_mutation q to_state (now_utc run at_time) outcome error_code) (\<lambda>p _. Inr p)
            (Some (command_event_id (cq_command_id q) to_state)) (set_ledger rows db))"

definition proposal_and_command ::
    "'a call_run_scheme \<Rightarrow> reading \<Rightarrow> command_request \<Rightarrow> proposal_record \<Rightarrow> command_state \<Rightarrow> command_state
     \<Rightarrow> jobject option \<Rightarrow> string option \<Rightarrow> saga_db \<Rightarrow> unit claim_result" where
  "proposal_and_command run at_time q rec from_state to_state outcome error_code db =
     (case append_proposal run at_time q rec db of
        (Inl e, db') \<Rightarrow> (Inl e, db')
      | (Inr _, db') \<Rightarrow>
         (case move_command run at_time q from_state to_state outcome error_code db' of
            (Inl e, db'') \<Rightarrow> (Inl e, db'')
          | (Inr _, db'') \<Rightarrow> (Inr (), db'')))"

definition order_group_of :: "command_request \<Rightarrow> string" where
  "order_group_of q = ''og-'' @ cq_command_id q"

definition claim_work ::
    "approval_service \<Rightarrow> approval_run \<Rightarrow> command_request \<Rightarrow> proposal_record \<Rightarrow> risk_direction \<Rightarrow> saga_db
     \<Rightarrow> proposal_record option claim_result" where
  "claim_work svc run q rec direction db =
     (case (if direction = INCREASING
            then require_unpaused (empty_journal (controls_of db)) (opt_or [] (pr_account_id rec)) else Inr ()) of
        Inl e \<Rightarrow> (Inl (Raised (ClaimPaused e)), db)
      | Inr _ \<Rightarrow>
         (case claim_for_approval_in_tx (pr_id rec) (cq_expected_version q) (sv_account_id svc)
                 (ru_clock run AtClaim) (proposals_of db) of
            (outcome, rows) \<Rightarrow>
             (case (ac_result outcome, ac_record outcome) of
                (CLAIMED, Some claimed) \<Rightarrow>
                  (let linked = claimed\<lparr>pr_order_group_id := Some (order_group_of q)\<rparr>
                   in case proposal_and_command run AtSubmittingEvent q linked Validated Submitting None None
                             (set_proposals (link_order_group_in_tx (pr_id rec) (order_group_of q) rows) db) of
                        (Inl e, db') \<Rightarrow> (Inl e, db')
                      | (Inr _, db') \<Rightarrow> (Inr (Some linked), db'))
              | (CLAIM_EXPIRED, Some expired) \<Rightarrow>
                  (case append_proposal run AtSubmittingEvent q expired (set_proposals rows db) of
                     (Inl e, db') \<Rightarrow> (Inl e, db')
                   | (Inr _, db') \<Rightarrow> (Inr None, db'))
              | _ \<Rightarrow> (Inl (Raised (ApprovalClaimFailed outcome)), db))))"

definition fail_work ::
    "'a call_run_scheme \<Rightarrow> command_request \<Rightarrow> proposal_record \<Rightarrow> string \<Rightarrow> string \<Rightarrow> saga_db \<Rightarrow> unit claim_result" where
  "fail_work run q claimed reason error_code db =
     (case mark_failed_in_tx (pr_id claimed) reason (pr_revision claimed) (ru_clock run AtFailMark)
             (proposals_of db) of
        (None, _) \<Rightarrow> (Inl (Raised ConcurrentChange), db)
      | (Some row, rows) \<Rightarrow>
          proposal_and_command run AtFailEvent q row Submitting Rejected None (Some error_code) (set_proposals rows db))"

definition finish_work ::
    "'a call_run_scheme \<Rightarrow> command_request \<Rightarrow> proposal_record \<Rightarrow> int list \<Rightarrow> jobject \<Rightarrow> saga_db \<Rightarrow> unit claim_result" where
  "finish_work run q claimed order_ids outcome db =
     (case mark_order_submitted_in_tx (pr_id claimed) order_ids (pr_revision claimed) (ru_clock run AtFinishMark)
             (proposals_of db) of
        (None, _) \<Rightarrow> (Inl (Raised ConcurrentChange), db)
      | (Some row, rows) \<Rightarrow>
          proposal_and_command run AtFinishEvent q row Submitting Submitted (Some outcome) None (set_proposals rows db))"

section \<open>Dispatch\<close>

text \<open>A refusal after validation: one transition to REJECTED and its receipt.\<close>

definition refuse ::
    "'a call_run_scheme \<Rightarrow> command_request \<Rightarrow> command_state \<Rightarrow> string \<Rightarrow> bool \<Rightarrow> saga_db \<Rightarrow> saga_answer" where
  "refuse run q from_state code retryable db =
     (case transition_command run AtRejected q from_state Rejected None (Some code) db of
        (Inl e, db') \<Rightarrow> (Inl e, no_effects, db')
      | (Inr _, db') \<Rightarrow> (Inr (receipt (cq_command_id q) Rejected (Some code) retryable None), no_effects, db'))"

text \<open>\<open>_fail_after_broker_rejection\<close> and the receipt that follows it; \<open>sent\<close> is what was submitted before.\<close>

definition fail_claimed ::
    "'a call_run_scheme \<Rightarrow> command_request \<Rightarrow> proposal_record \<Rightarrow> string \<Rightarrow> string \<Rightarrow> bool \<Rightarrow> saga_effects \<Rightarrow> saga_db
     \<Rightarrow> saga_answer" where
  "fail_claimed run q claimed reason code retryable sent db =
     (case mutate_batch_work (fail_work run q claimed reason code) (ru_gap run GapFail db) of
        (Inl e, db') \<Rightarrow> (Inl (FailMarkRaised e), sent, db')
      | (Inr _, db') \<Rightarrow> (Inr (receipt (cq_command_id q) Rejected (Some code) retryable None), sent, db'))"

definition park_unknown ::
    "'a call_run_scheme \<Rightarrow> command_request \<Rightarrow> jobject option \<Rightarrow> saga_effects \<Rightarrow> saga_db \<Rightarrow> saga_answer" where
  "park_unknown run q outcome sent db =
     (case transition_command run AtUnknown q Submitting OutcomeUnknown outcome (Some ''DISPATCH_AMBIGUOUS'')
             (ru_gap run GapUnknown db) of
        (Inl e, db') \<Rightarrow> (Inl e, sent, db')
      | (Inr _, db') \<Rightarrow>
          (Inr (receipt (cq_command_id q) OutcomeUnknown (Some ''DISPATCH_AMBIGUOUS'') False outcome),
           sent\<lparr>fx_scheduled := fx_scheduled sent @ [(cq_command_id q, now_utc run AtSchedule)]\<rparr>, db'))"

definition submit_orders ::
    "approval_run \<Rightarrow> command_request \<Rightarrow> proposal_record \<Rightarrow> saga_db \<Rightarrow> saga_answer" where
  "submit_orders run q claimed db =
     (let order_ref = encode_order_ref (order_group_of q);
          sent = no_effects\<lparr>fx_sent := [(claimed, order_ref)]\<rparr>
      in case ru_submit run claimed order_ref (order_group_of q) of
           BrokerRejected reason \<Rightarrow> fail_claimed run q claimed reason ''BROKER_REJECTED'' False sent db
         | SubmitRaised \<Rightarrow> park_unknown run q None sent db
         | OrdersSubmitted order_ids \<Rightarrow>
             (let outcome = [(''order_ids'', JList (map JInt order_ids)),
                             (''order_group_id'', JStr (order_group_of q))]
              in case mutate_batch_work (finish_work run q claimed order_ids outcome) (ru_gap run GapFinish db) of
                   (Inl _, db') \<Rightarrow> park_unknown run q (Some outcome) sent db'
                 | (Inr _, db') \<Rightarrow>
                     (Inr (receipt (cq_command_id q) Submitted None False (Some outcome)), sent, db')))"

definition permit_decision :: "proposal_record \<Rightarrow> dispatch_permit \<Rightarrow> jobject" where
  "permit_decision claimed permit =
     [(''decision'', JStr ''approve''), (''proposal_id'', JInt (pr_id claimed)),
      (''generation_id'', JInt (dp_generation_id permit)), (''source_cursor'', JInt (dp_source_cursor permit)),
      (''quote_timestamp'', jopt JTime (dp_quote_timestamp permit)),
      (''what_if_timestamp'', jopt JTime (dp_what_if_timestamp permit)),
      (''warnings'', JList (map JStr (dp_warnings permit)))]"

definition publish_dispatch_decision ::
    "approval_service \<Rightarrow> approval_run \<Rightarrow> command_request \<Rightarrow> jobject \<Rightarrow> saga_db
     \<Rightarrow> (risk_error journal_error + domain_event option) \<times> saga_db" where
  "publish_dispatch_decision svc run q decision db =
     publish_decision saga_risk_slot (sv_account_id svc) (ru_publish run True)
       (cq_command_id q @ ''/dispatch'') decision (Some (cq_command_id q)) (ru_gap run GapDispatchDecision db)"

definition dispatch ::
    "approval_service \<Rightarrow> approval_run \<Rightarrow> command_request \<Rightarrow> approval_context option \<Rightarrow> proposal_record \<Rightarrow> saga_db
     \<Rightarrow> saga_answer" where
  "dispatch svc run q context claimed db =
     (case (sv_has_dispatch_guard svc, context) of
        (True, Some cx) \<Rightarrow>
          (case ru_revalidate run True cx q (now_utc run AtDispatchGuard) of
             Inl Escaped \<Rightarrow> (Inl CollaboratorRaised, no_effects, db)
           | Inl (Refused code retryable) \<Rightarrow>
              (case publish_dispatch_decision svc run q (reject_decision code (pr_id claimed)) db of
                 (Inl e, db') \<Rightarrow> (Inl (RiskWriteRaised e), no_effects, db')
               | (Inr _, db') \<Rightarrow>
                   fail_claimed run q claimed (''pre-dispatch validation: '' @ code) code retryable no_effects db')
           | Inr permit \<Rightarrow>
              (case publish_dispatch_decision svc run q (permit_decision claimed permit) db of
                 (Inl e, db') \<Rightarrow> (Inl (RiskWriteRaised e), no_effects, db')
               | (Inr _, db') \<Rightarrow> submit_orders run q claimed db'))
      | _ \<Rightarrow> submit_orders run q claimed db)"

section \<open>The saga\<close>

definition context_decision :: "verdict \<Rightarrow> jobject" where
  "context_decision v =
     (case vd_context v of
        None \<Rightarrow> vd_decision v
      | Some cx \<Rightarrow> jmerge (vd_decision v)
          [(''generation_id'', JInt (sn_generation_id (cx_broker cx))),
           (''source_cursor'', JInt (sn_source_cursor (cx_broker cx))),
           (''quote_timestamp'', jopt (\<lambda>m. JTime (xq_market_timestamp (me_quote m))) (cx_market cx))])"

text \<open>From the VALIDATED command on: claim, then dispatch. \<open>db\<close> is the state the claim transaction begins in.\<close>

definition claim_and_dispatch ::
    "approval_service \<Rightarrow> approval_run \<Rightarrow> command_request \<Rightarrow> verdict \<Rightarrow> proposal_record \<Rightarrow> saga_db \<Rightarrow> saga_answer" where
  "claim_and_dispatch svc run q v rec db =
     (case mutate_batch_work (claim_work svc run q rec (opt_or REDUCING (vd_direction v))) db of
        (Inl (Raised (ClaimPaused (PauseStateUnavailable _))), db') \<Rightarrow>
          refuse run q Validated ''TRADING_PAUSED'' True (ru_gap run GapRefused db')
      | (Inl (Raised (ClaimPaused (TradingPausedError _))), db') \<Rightarrow>
          refuse run q Validated ''TRADING_PAUSED'' True (ru_gap run GapRefused db')
      | (Inl (Raised (ApprovalClaimFailed outcome)), db') \<Rightarrow>
          refuse run q Validated (claim_error_code (ac_result outcome)) False (ru_gap run GapRefused db')
      | (Inl e, db') \<Rightarrow> (Inl (ClaimRaised e), no_effects, db')
      | (Inr None, db') \<Rightarrow> refuse run q Validated ''PROPOSAL_EXPIRED'' False (ru_gap run GapRefused db')
      | (Inr (Some claimed), db') \<Rightarrow> dispatch svc run q (vd_context v) claimed db')"

definition after_validation ::
    "approval_service \<Rightarrow> approval_run \<Rightarrow> command_request \<Rightarrow> verdict \<Rightarrow> proposal_record option \<Rightarrow> saga_db \<Rightarrow> saga_answer" where
  "after_validation svc run q v found db =
     (case publish_decision saga_risk_slot (sv_account_id svc) (ru_publish run False) (cq_command_id q)
             (context_decision v) (Some (cq_command_id q)) (ru_gap run GapDecision db) of
        (Inl e, db') \<Rightarrow> (Inl (RiskWriteRaised e), no_effects, db')
      | (Inr _, db1) \<Rightarrow>
         (case (vd_problem v, found) of
            (Some problem, _) \<Rightarrow>
              refuse run q Received (cp_code problem) (cp_retryable problem) (ru_gap run GapFirstTransition db1)
          | (None, None) \<Rightarrow> (Inl CollaboratorRaised, no_effects, db1)
          | (None, Some rec) \<Rightarrow>
             (case transition_command run AtValidated q Received Validated None None
                     (ru_gap run GapFirstTransition db1) of
                (Inl e, db2) \<Rightarrow> (Inl e, no_effects, db2)
              | (Inr _, db2) \<Rightarrow> claim_and_dispatch svc run q v rec (ru_gap run GapClaim db2))))"

definition approve ::
    "approval_service \<Rightarrow> approval_run \<Rightarrow> command_request \<Rightarrow> saga_db \<Rightarrow> saga_answer" where
  "approve svc run q db =
     (case bind_sum (case jget (cq_body q) ''proposal_id'' of None \<Rightarrow> Inl BadProposalId | Some v \<Rightarrow> Inr v)
             (\<lambda>v. case py_int v of None \<Rightarrow> Inl BadProposalId | Some i \<Rightarrow> Inr i) of
        Inl e \<Rightarrow> (Inl e, no_effects, db)
      | Inr proposal_id \<Rightarrow>
         (let found = proposal_get (proposals_of db) proposal_id;
              db1 = ru_gap run GapInflight db
          in case validate svc run q proposal_id found (ledger_of db1) of
               Inl e \<Rightarrow> (Inl e, no_effects, db1)
             | Inr v \<Rightarrow> after_validation svc run q v found db1))"

text \<open>As the coordinator calls it: the effects outside the database go to its logs.\<close>

definition approve_handler ::
    "approval_service \<Rightarrow> approval_run \<Rightarrow> command_request \<Rightarrow> saga_db
     \<Rightarrow> (saga_error handler_error + command_receipt) \<times> saga_db" where
  "approve_handler svc run q db =
     (case approve svc run q db of
        (res, fx, db') \<Rightarrow>
          ((case res of Inl e \<Rightarrow> Inl (OtherException e) | Inr r \<Rightarrow> Inr r),
           db'\<lparr>jd_prod := (jd_prod db')\<lparr>ct_world := (ct_world (jd_prod db'))
              \<lparr>tt_sent := tt_sent (ct_world (jd_prod db')) @ fx_sent fx,
               tt_scheduled := tt_scheduled (ct_world (jd_prod db')) @ fx_scheduled fx,
               tt_cancelled := tt_cancelled (ct_world (jd_prod db')) @ fx_cancelled fx\<rparr>\<rparr>\<rparr>))"

section \<open>The units of work keep the journal\<close>

lemma journal_prod_blind [simp]:
  "open_ok (db\<lparr>jd_prod := p\<rparr>) = open_ok db"
  "journal_extends (db\<lparr>jd_prod := p\<rparr>) db' = journal_extends db db'"
  "select_journal_row (db\<lparr>jd_prod := p\<rparr>) e = select_journal_row db e"
  by (simp_all add: open_ok_def journal_extends_def select_journal_row_def)

lemma set_tables_blind [simp]:
  "journal_inv (set_proposals rows db) = journal_inv db" "journal_inv (set_ledger ls db) = journal_inv db"
  "open_ok (set_proposals rows db) = open_ok db" "open_ok (set_ledger ls db) = open_ok db"
  "journal_extends (set_proposals rows db) db' = journal_extends db db'"
  "journal_extends (set_ledger ls db) db' = journal_extends db db'"
  "select_journal_row (set_proposals rows db) e = select_journal_row db e"
  "select_journal_row (set_ledger ls db) e = select_journal_row db e"
  by (simp_all add: set_proposals_def set_ledger_def)

text \<open>A unit of work that may be run inside a larger one.\<close>

definition keeps_journal :: "(saga_db \<Rightarrow> 'r claim_result) \<Rightarrow> bool" where
  "keeps_journal work \<longleftrightarrow> (\<forall>db res db'. journal_inv db \<longrightarrow> open_ok db \<longrightarrow> work db = (res, db') \<longrightarrow>
     jd_next_cursor db \<le> jd_next_cursor db'
     \<and> (is_ok res \<longrightarrow> journal_inv db' \<and> open_ok db' \<and> journal_extends db db'))"

lemma keeps_journalI:
  assumes "\<And>db res db'. journal_inv db \<Longrightarrow> open_ok db \<Longrightarrow> work db = (res, db') \<Longrightarrow>
      jd_next_cursor db \<le> jd_next_cursor db'
      \<and> (is_ok res \<longrightarrow> journal_inv db' \<and> open_ok db' \<and> journal_extends db db')"
  shows "keeps_journal work"
  unfolding keeps_journal_def by (intro allI impI) (rule assms)

lemma keeps_journal_work:
  assumes "keeps_journal work"
  shows "journal_work work"
proof (rule journal_work.intro)
  note keeps = assms [unfolded keeps_journal_def, rule_format]
  fix db res db'
  assume "journal_inv db" "open_ok db" "work db = (res, db')"
  from keeps [OF this] show "jd_next_cursor db \<le> jd_next_cursor db'" by (rule conjunct1)
next
  note keeps = assms [unfolded keeps_journal_def, rule_format]
  fix db r db'
  assume "journal_inv db" "open_ok db" "work db = (Inr r, db')"
  from keeps [OF this] show "journal_inv db' \<and> open_ok db' \<and> journal_extends db db'" by simp
qed

lemma keeps_append: "keeps_journal (journal_append t u m w e)"
proof (rule keeps_journalI)
  fix db res db'
  assume inv: "journal_inv db" "open_ok db" and run: "journal_append t u m w e db = (res, db')"
  show "jd_next_cursor db \<le> jd_next_cursor db'
      \<and> (is_ok res \<longrightarrow> journal_inv db' \<and> open_ok db' \<and> journal_extends db db')"
  proof (cases res)
    case (Inl e)
    then show ?thesis using append_next_cursor [OF inv(1) run] by simp
  next
    case (Inr ev)
    then show ?thesis using append_next_cursor [OF inv(1) run] append_ok [OF inv] run by simp
  qed
qed

text \<open>One unit after another, the second only when the first succeeded.\<close>

lemma keeps_then:
  assumes "keeps_journal first" and "\<And>x. keeps_journal (second x)"
  shows "keeps_journal (\<lambda>db. case first db of (Inl e, db') \<Rightarrow> (Inl e, db') | (Inr x, db') \<Rightarrow> second x db')"
proof (rule keeps_journalI)
  fix db res db'
  assume inv: "journal_inv db" "open_ok db"
    and run: "(case first db of (Inl e, db') \<Rightarrow> (Inl e, db') | (Inr x, db') \<Rightarrow> second x db') = (res, db')"
  obtain r mid where f: "first db = (r, mid)" by fastforce
  note one = assms(1) [unfolded keeps_journal_def, rule_format, OF inv f]
  show "jd_next_cursor db \<le> jd_next_cursor db'
      \<and> (is_ok res \<longrightarrow> journal_inv db' \<and> open_ok db' \<and> journal_extends db db')"
  proof (cases r)
    case (Inl e)
    then show ?thesis using run f one by auto
  next
    case (Inr x)
    then have s: "second x mid = (res, db')" and ok: "journal_inv mid" "open_ok mid" "journal_extends db mid"
      using run f one by simp_all
    note two = assms(2) [unfolded keeps_journal_def, rule_format, OF ok(1,2) s]
    show ?thesis using one two journal_extends_trans [OF ok(3)] by (meson order_trans)
  qed
qed

lemma keeps_return: "keeps_journal (\<lambda>db. (Inr x, db))" "keeps_journal (\<lambda>db. (Inl e, db))"
  by (simp_all add: keeps_journal_def)

lemma keeps_move: "keeps_journal (move_command run at_time q from_state to_state outcome error_code)"
proof (rule keeps_journalI)
  fix db res db'
  assume inv: "journal_inv db" "open_ok db"
    and run: "move_command run at_time q from_state to_state outcome error_code db = (res, db')"
  show "jd_next_cursor db \<le> jd_next_cursor db'
      \<and> (is_ok res \<longrightarrow> journal_inv db' \<and> open_ok db' \<and> journal_extends db db')"
  proof (cases "transition_in_tx (cq_command_id q) from_state to_state outcome error_code
      (ru_ledger_clock run at_time) (ledger_of db)")
    case None
    then show ?thesis using run by (auto simp: move_command_def)
  next
    case (Some rr)
    then have ap: "journal_append (ru_journaled run at_time) []
        (command_updated_mutation q to_state (now_utc run at_time) outcome error_code) (\<lambda>p _. Inr p)
        (Some (command_event_id (cq_command_id q) to_state)) (set_ledger (snd rr) db) = (res, db')"
      using run by (cases rr) (simp add: move_command_def)
    have "journal_inv (set_ledger (snd rr) db)" "open_ok (set_ledger (snd rr) db)" using inv by simp_all
    from keeps_append [unfolded keeps_journal_def, rule_format, OF this ap] show ?thesis by simp
  qed
qed

lemma keeps_proposal_and_command:
  "keeps_journal (proposal_and_command run at_time q rec from_state to_state outcome error_code)"
proof -
  have "proposal_and_command run at_time q rec from_state to_state outcome error_code
      = (\<lambda>db. case append_proposal run at_time q rec db of (Inl e, db') \<Rightarrow> (Inl e, db')
          | (Inr x, db') \<Rightarrow> (\<lambda>db. case move_command run at_time q from_state to_state outcome error_code db of
               (Inl e, db'') \<Rightarrow> (Inl e, db'') | (Inr y, db'') \<Rightarrow> (Inr (), db'')) db')"
    by (rule ext) (simp add: proposal_and_command_def)
  moreover have "keeps_journal (append_proposal run at_time q rec)"
    unfolding append_proposal_def by (rule keeps_append)
  ultimately show ?thesis by (simp only:) (intro keeps_then keeps_move keeps_return)
qed

text \<open>A write to the tables before a unit of work changes nothing for the journal.\<close>

lemma keeps_after_write:
  assumes "keeps_journal work"
  shows "journal_inv db \<Longrightarrow> open_ok db \<Longrightarrow> work (set_proposals rows db) = (res, db') \<Longrightarrow>
     jd_next_cursor db \<le> jd_next_cursor db'
     \<and> (is_ok res \<longrightarrow> journal_inv db' \<and> open_ok db' \<and> journal_extends db db')"
  using assms [unfolded keeps_journal_def, rule_format, of "set_proposals rows db" res db'] by simp

lemma keeps_finish: "keeps_journal (finish_work run q claimed order_ids outcome)"
proof (rule keeps_journalI)
  fix db res db'
  assume inv: "journal_inv db" "open_ok db" and run: "finish_work run q claimed order_ids outcome db = (res, db')"
  obtain row rows where m: "mark_order_submitted_in_tx (pr_id claimed) order_ids (pr_revision claimed)
      (ru_clock run AtFinishMark) (proposals_of db) = (row, rows)" by fastforce
  show "jd_next_cursor db \<le> jd_next_cursor db'
      \<and> (is_ok res \<longrightarrow> journal_inv db' \<and> open_ok db' \<and> journal_extends db db')"
  proof (cases row)
    case None
    then show ?thesis using run m by (auto simp: finish_work_def)
  next
    case (Some r)
    then have "proposal_and_command run AtFinishEvent q r Submitting Submitted (Some outcome) None
        (set_proposals rows db) = (res, db')" using run m by (simp add: finish_work_def)
    then show ?thesis by (rule keeps_after_write [OF keeps_proposal_and_command inv])
  qed
qed

lemma keeps_fail: "keeps_journal (fail_work run q claimed reason error_code)"
proof (rule keeps_journalI)
  fix db res db'
  assume inv: "journal_inv db" "open_ok db" and run: "fail_work run q claimed reason error_code db = (res, db')"
  obtain row rows where m: "mark_failed_in_tx (pr_id claimed) reason (pr_revision claimed)
      (ru_clock run AtFailMark) (proposals_of db) = (row, rows)" by fastforce
  show "jd_next_cursor db \<le> jd_next_cursor db'
      \<and> (is_ok res \<longrightarrow> journal_inv db' \<and> open_ok db' \<and> journal_extends db db')"
  proof (cases row)
    case None
    then show ?thesis using run m by (auto simp: fail_work_def)
  next
    case (Some r)
    then have "proposal_and_command run AtFailEvent q r Submitting Rejected None (Some error_code)
        (set_proposals rows db) = (res, db')" using run m by (simp add: fail_work_def)
    then show ?thesis by (rule keeps_after_write [OF keeps_proposal_and_command inv])
  qed
qed

text \<open>The ways the claim can go.\<close>

lemma claim_work_cases:
  assumes "claim_work svc run q rec direction db = (res, db')"
  obtains (paused) e where "direction = INCREASING" and "res = Inl (Raised (ClaimPaused e))" and "db' = db"
      and "require_unpaused (empty_journal (controls_of db)) (opt_or [] (pr_account_id rec)) = Inl e"
  | (refused) outcome rows where "res = Inl (Raised (ApprovalClaimFailed outcome))" and "db' = db"
      and "claim_for_approval_in_tx (pr_id rec) (cq_expected_version q) (sv_account_id svc)
             (ru_clock run AtClaim) (proposals_of db) = (outcome, rows)"
  | (claimed) outcome rows r res' where
      "direction = INCREASING \<Longrightarrow>
         require_unpaused (empty_journal (controls_of db)) (opt_or [] (pr_account_id rec)) = Inr ()"
      and "claim_for_approval_in_tx (pr_id rec) (cq_expected_version q) (sv_account_id svc)
             (ru_clock run AtClaim) (proposals_of db) = (outcome, rows)"
      and "ac_result outcome = CLAIMED" and "ac_record outcome = Some r"
      and "proposal_and_command run AtSubmittingEvent q (r\<lparr>pr_order_group_id := Some (order_group_of q)\<rparr>)
             Validated Submitting None None
             (set_proposals (link_order_group_in_tx (pr_id rec) (order_group_of q) rows) db) = (res', db')"
      and "res = (case res' of Inl e \<Rightarrow> Inl e
             | Inr _ \<Rightarrow> Inr (Some (r\<lparr>pr_order_group_id := Some (order_group_of q)\<rparr>)))"
  | (expired) outcome rows r res' where
      "claim_for_approval_in_tx (pr_id rec) (cq_expected_version q) (sv_account_id svc)
             (ru_clock run AtClaim) (proposals_of db) = (outcome, rows)"
      and "ac_result outcome = CLAIM_EXPIRED" and "ac_record outcome = Some r"
      and "append_proposal run AtSubmittingEvent q r (set_proposals rows db) = (res', db')"
      and "res = (case res' of Inl e \<Rightarrow> Inl e | Inr _ \<Rightarrow> Inr None)"
proof -
  let ?gate = "if direction = INCREASING
      then require_unpaused (empty_journal (controls_of db)) (opt_or [] (pr_account_id rec)) else Inr ()"
  obtain outcome rows where cl: "claim_for_approval_in_tx (pr_id rec) (cq_expected_version q) (sv_account_id svc)
      (ru_clock run AtClaim) (proposals_of db) = (outcome, rows)" by fastforce
  show thesis
  proof (cases ?gate)
    case (Inl e)
    then show thesis using assms paused by (auto simp: claim_work_def split: if_splits)
  next
    case (Inr u)
    then have gate: "direction = INCREASING \<Longrightarrow>
        require_unpaused (empty_journal (controls_of db)) (opt_or [] (pr_account_id rec)) = Inr ()" by simp
    note body = assms [unfolded claim_work_def Inr sum.case cl prod.case]
    consider (c) r where "ac_result outcome = CLAIMED" "ac_record outcome = Some r"
      | (x) r where "ac_result outcome = CLAIM_EXPIRED" "ac_record outcome = Some r"
      | (n) "ac_record outcome = None \<or> (ac_result outcome \<noteq> CLAIMED \<and> ac_result outcome \<noteq> CLAIM_EXPIRED)"
      by (cases "ac_record outcome") auto
    then show thesis
    proof cases
      case (c r)
      obtain res' mid where pc: "proposal_and_command run AtSubmittingEvent q
          (r\<lparr>pr_order_group_id := Some (order_group_of q)\<rparr>) Validated Submitting None None
          (set_proposals (link_order_group_in_tx (pr_id rec) (order_group_of q) rows) db) = (res', mid)" by fastforce
      then have "mid = db'" and "res = (case res' of Inl e \<Rightarrow> Inl e
             | Inr _ \<Rightarrow> Inr (Some (r\<lparr>pr_order_group_id := Some (order_group_of q)\<rparr>)))"
        using body c by (simp_all add: Let_def split: sum.splits)
      with pc show thesis using claimed [OF gate cl c] by blast
    next
      case (x r)
      obtain res' mid where ap: "append_proposal run AtSubmittingEvent q r (set_proposals rows db) = (res', mid)"
        by fastforce
      then have "mid = db'" and "res = (case res' of Inl e \<Rightarrow> Inl e | Inr _ \<Rightarrow> Inr None)"
        using body x by (simp_all split: sum.splits)
      with ap show thesis using expired [OF cl x] by blast
    next
      case n
      then have "res = Inl (Raised (ApprovalClaimFailed outcome)) \<and> db' = db"
        using body by (cases "ac_result outcome"; cases "ac_record outcome") simp_all
      then show thesis using refused [OF _ _ cl] by blast
    qed
  qed
qed

lemma keeps_claim: "keeps_journal (claim_work svc run q rec direction)"
proof (rule keeps_journalI)
  fix db res db'
  assume inv: "journal_inv db" "open_ok db" and run: "claim_work svc run q rec direction db = (res, db')"
  from run show "jd_next_cursor db \<le> jd_next_cursor db'
      \<and> (is_ok res \<longrightarrow> journal_inv db' \<and> open_ok db' \<and> journal_extends db db')"
  proof (cases rule: claim_work_cases)
    case (claimed outcome rows r res')
    from keeps_after_write [OF keeps_proposal_and_command inv claimed(5)] show ?thesis
      using claimed(6) by (cases res') simp_all
  next
    case (expired outcome rows r res')
    from keeps_after_write [OF keeps_append inv expired(4) [unfolded append_proposal_def]] show ?thesis
      using expired(5) by (cases res') simp_all
  qed simp_all
qed

interpretation claim: journal_work "claim_work svc run q rec direction" for svc run q rec direction
  by (rule keeps_journal_work [OF keeps_claim])

interpretation finish: journal_work "finish_work run q claimed order_ids outcome"
  for run q claimed order_ids outcome
  by (rule keeps_journal_work [OF keeps_finish])

interpretation fail_mark: journal_work "fail_work run q claimed reason error_code"
  for run q claimed reason error_code
  by (rule keeps_journal_work [OF keeps_fail])

section \<open>What the units of work do\<close>

lemma open_events_blind [simp]:
  "proposals_of (db\<lparr>jd_open_events := es\<rparr>) = proposals_of db" "ledger_of (db\<lparr>jd_open_events := es\<rparr>) = ledger_of db"
  "controls_of (db\<lparr>jd_open_events := es\<rparr>) = controls_of db"
  by (simp_all add: proposals_of_def ledger_of_def controls_of_def)

definition journal_has :: "saga_db \<Rightarrow> string \<Rightarrow> bool" where
  "journal_has db event_id \<longleftrightarrow> (\<exists>r \<in> set (jd_rows db). jr_event_id r = event_id)"

lemma append_has:
  assumes "journal_inv db" and "journal_append t u m w (Some e) db = (Inr ev, db')"
  shows "journal_has db' e \<and> set (jd_rows db) \<subseteq> set (jd_rows db')"
  using assms
  by (cases rule: journal_append_cases) (auto simp: journal_has_def dest: select_journal_row_Some)

lemma append_keeps_prod:
  assumes "journal_inv db" and "journal_append t u m w e db = (Inr ev, db')"
    and "\<And>p n p'. w p n = Inr p' \<Longrightarrow> p' = p"
  shows "jd_prod db' = jd_prod db"
  using assms(1,2) by (cases rule: journal_append_cases) (auto dest: assms(3))

lemma append_inv:
  assumes "journal_inv db" and "journal_append t u m w e db = (Inr ev, db')"
  shows "journal_inv db'"
  using assms(1,2)
proof (cases rule: journal_append_cases)
  case (replay row)
  then show ?thesis using assms(1) by simp
next
  case (fresh p)
  then show ?thesis using assms(1) by (simp add: journal_inv_appended)
qed simp_all

text \<open>A successful unit on proposal and command leaves the proposals as given and moves the ledger row.\<close>

lemma proposal_and_command_ok:
  assumes inv: "journal_inv db"
    and run: "proposal_and_command run at_time q rec from_state to_state outcome error_code db = (Inr u, db')"
  obtains row where "transition_in_tx (cq_command_id q) from_state to_state outcome error_code
      (ru_ledger_clock run at_time) (ledger_of db) = Some (row, ledger_of db')"
    and "jd_prod db' = (jd_prod db)\<lparr>ct_ledger := ledger_of db'\<rparr>"
    and "journal_has db' (proposal_event_id (pr_id rec) (pr_revision rec))"
    and "journal_has db' (command_event_id (cq_command_id q) to_state)"
proof -
  obtain ev mid where ap: "append_proposal run at_time q rec db = (Inr ev, mid)"
    using run by (auto simp: proposal_and_command_def split: prod.splits sum.splits)
  then obtain ev2 where mv: "move_command run at_time q from_state to_state outcome error_code mid = (Inr ev2, db')"
    using run by (auto simp: proposal_and_command_def split: prod.splits sum.splits)
  have inv1: "journal_inv mid" using append_inv [OF inv ap [unfolded append_proposal_def]] .
  have prod1: "jd_prod mid = jd_prod db"
    by (rule append_keeps_prod [OF inv ap [unfolded append_proposal_def]])
      (simp add: assert_proposal_revision_def split: if_splits)
  have has1: "journal_has mid (proposal_event_id (pr_id rec) (pr_revision rec))"
    using append_has [OF inv ap [unfolded append_proposal_def]] by blast
  obtain row rows where tr: "transition_in_tx (cq_command_id q) from_state to_state outcome error_code
      (ru_ledger_clock run at_time) (ledger_of mid) = Some (row, rows)"
    and ap2: "journal_append (ru_journaled run at_time) []
        (command_updated_mutation q to_state (now_utc run at_time) outcome error_code) (\<lambda>p _. Inr p)
        (Some (command_event_id (cq_command_id q) to_state)) (set_ledger rows mid)
        = (Inr ev2 :: claim_error journal_error + domain_event, db')"
    using mv by (auto simp: move_command_def split: option.splits)
  have inv2: "journal_inv (set_ledger rows mid)" using inv1 by simp
  have "jd_prod db' = jd_prod (set_ledger rows mid)" by (rule append_keeps_prod [OF inv2 ap2]) simp
  then have prod: "jd_prod db' = (jd_prod db)\<lparr>ct_ledger := rows\<rparr>" by (simp add: set_ledger_def prod1)
  then have "ledger_of db' = rows" by (simp add: ledger_of_def)
  moreover have "journal_has db' (proposal_event_id (pr_id rec) (pr_revision rec))"
    "journal_has db' (command_event_id (cq_command_id q) to_state)"
    using append_has [OF inv2 ap2] has1 by (auto simp: journal_has_def)
  ultimately show thesis using that tr prod by (simp add: ledger_of_def prod1)
qed

lemma linked_row:
  assumes "r \<in> set rows" and "pr_id r = i" and "pr_status r = APPROVED"
  shows "r\<lparr>pr_order_group_id := Some g\<rparr> \<in> set (link_order_group_in_tx i g rows)"
  using assms by (auto simp: link_order_group_in_tx_def set_update_where intro!: image_eqI [of _ _ r])

text \<open>A committed claim: what was true when it began, and what is recorded before anything is sent.\<close>

lemma claim_committed:
  assumes inv: "journal_inv db" and dist: "ids_distinct (proposals_of db)"
    and run: "mutate_batch_work (claim_work svc run q rec direction) db = (Inr (Some linked), mid)"
  obtains r rows where "r \<in> set (proposals_of db)" and "pr_id r = pr_id rec" and "pr_status r = PENDING"
    and "Some (pr_revision r) = cq_expected_version q" and "pr_account_id r = Some (sv_account_id svc)"
    and "\<not> is_stale (as_utc (ru_clock run AtClaim)) r"
    and "linked = from_row (r\<lparr>pr_status := APPROVED, pr_updated_at := as_utc (ru_clock run AtClaim),
           pr_revision := pr_revision r + 1, pr_order_group_id := Some (order_group_of q)\<rparr>)"
    and "direction = INCREASING \<longrightarrow>
           require_unpaused (empty_journal (controls_of db)) (opt_or [] (pr_account_id rec)) = Inr ()"
    and "r\<lparr>pr_status := APPROVED, pr_updated_at := as_utc (ru_clock run AtClaim),
           pr_revision := pr_revision r + 1, pr_order_group_id := Some (order_group_of q)\<rparr> \<in> set (proposals_of mid)"
    and "proposal_step\<^sup>*\<^sup>* (proposals_of db) (proposals_of mid)"
    and "\<exists>row. transition_in_tx (cq_command_id q) Validated Submitting None None
           (ru_ledger_clock run AtSubmittingEvent) (ledger_of db) = Some (row, ledger_of mid)"
    and "journal_inv mid"
    and "journal_has mid (proposal_event_id (pr_id linked) (pr_revision linked))"
    and "journal_has mid (command_event_id (cq_command_id q) Submitting)"
proof -
  have inv': "journal_inv mid" using claim.batch_work_inv [OF inv run] .
  from run obtain m where w: "claim_work svc run q rec direction (db\<lparr>jd_open_events := []\<rparr>) = (Inr (Some linked), m)"
    and prod: "jd_prod mid = jd_prod m" and jrows: "jd_rows mid = jd_rows m"
    by (rule batch_work_prod) auto
  from w show thesis
  proof (cases rule: claim_work_cases)
    case (claimed outcome rows c res')
    have cl: "claim_for_approval_in_tx (pr_id rec) (cq_expected_version q) (sv_account_id svc)
        (ru_clock run AtClaim) (proposals_of db) = (outcome, rows)" using claimed(2) by simp
    from dist cl claimed(3) obtain r where r: "r \<in> set (proposals_of db)" "pr_id r = pr_id rec"
        "pr_status r = PENDING" "Some (pr_revision r) = cq_expected_version q"
        "pr_account_id r = Some (sv_account_id svc)" "\<not> is_stale (as_utc (ru_clock run AtClaim)) r"
      and out: "ac_record outcome = Some (from_row (r\<lparr>pr_status := APPROVED,
          pr_updated_at := as_utc (ru_clock run AtClaim), pr_revision := pr_revision r + 1\<rparr>))"
      and mem: "r\<lparr>pr_status := APPROVED, pr_updated_at := as_utc (ru_clock run AtClaim),
          pr_revision := pr_revision r + 1\<rparr> \<in> set rows"
      by (rule claim_claimedE)
    let ?r = "r\<lparr>pr_status := APPROVED, pr_updated_at := as_utc (ru_clock run AtClaim), pr_revision := pr_revision r + 1\<rparr>"
    have linked: "linked = c\<lparr>pr_order_group_id := Some (order_group_of q)\<rparr>" and res': "res' = Inr ()"
      using claimed(6) by (cases res'; simp)+
    then have linked': "linked = from_row (?r\<lparr>pr_order_group_id := Some (order_group_of q)\<rparr>)"
      using out claimed(4) by (simp add: from_row_def)
    let ?rows = "link_order_group_in_tx (pr_id rec) (order_group_of q) rows"
    have base: "journal_inv (set_proposals ?rows (db\<lparr>jd_open_events := []\<rparr>))" using inv by simp
    from base claimed(5) [unfolded res'] obtain row where
        tr: "transition_in_tx (cq_command_id q) Validated Submitting None None
          (ru_ledger_clock run AtSubmittingEvent) (ledger_of db) = Some (row, ledger_of m)"
      and pm: "jd_prod m = (jd_prod (set_proposals ?rows (db\<lparr>jd_open_events := []\<rparr>)))\<lparr>ct_ledger := ledger_of m\<rparr>"
      and ev: "journal_has m (proposal_event_id (pr_id linked) (pr_revision linked))"
        "journal_has m (command_event_id (cq_command_id q) Submitting)"
      by (rule proposal_and_command_ok) (simp_all add: linked)
    have tables: "proposals_of mid = ?rows" "ledger_of mid = ledger_of m"
      using arg_cong [OF pm, of "\<lambda>p. tt_proposals (ct_world p)"] prod
      by (simp_all add: proposals_of_def ledger_of_def set_proposals_def)
    have "proposal_step\<^sup>*\<^sup>* (proposals_of db) rows" using step_claim [OF cl] by blast
    then have steps: "proposal_step\<^sup>*\<^sup>* (proposals_of db) (proposals_of mid)"
      unfolding tables using step_link [OF refl] rtranclp.rtrancl_into_rtrancl by metis
    have "?r\<lparr>pr_order_group_id := Some (order_group_of q)\<rparr> \<in> set (proposals_of mid)"
      unfolding tables using mem r(2) by (intro linked_row) simp_all
    moreover have "journal_has mid (proposal_event_id (pr_id linked) (pr_revision linked))"
      "journal_has mid (command_event_id (cq_command_id q) Submitting)"
      using ev jrows by (simp_all add: journal_has_def)
    ultimately show thesis
      using that [OF r, of] linked' claimed(1) steps tr tables inv' by simp
  qed (simp_all split: sum.splits)
qed

section \<open>What the saga may send\<close>

lemma refuse_sends_nothing: "refuse run q s code retryable db = (res, fx, db') \<Longrightarrow> fx = no_effects"
  by (auto simp: refuse_def split: prod.splits sum.splits)

lemma fail_claimed_effects: "fail_claimed run q c reason code retryable sent db = (res, fx, db') \<Longrightarrow> fx = sent"
  by (auto simp: fail_claimed_def split: prod.splits sum.splits)

lemma park_effects: "park_unknown run q outcome sent db = (res, fx, db') \<Longrightarrow> fx_sent fx = fx_sent sent"
  by (auto simp: park_unknown_def split: prod.splits sum.splits)

lemma submit_sends_once:
  "submit_orders run q claimed db = (res, fx, db') \<Longrightarrow> fx_sent fx = [(claimed, encode_order_ref (order_group_of q))]"
  by (auto simp: submit_orders_def Let_def no_effects_def split: submit_answer.splits prod.splits sum.splits
      dest: fail_claimed_effects park_effects)

lemma dispatch_sends:
  assumes "dispatch svc run q cx claimed db = (res, fx, db')" and "fx_sent fx \<noteq> []"
  shows "fx_sent fx = [(claimed, encode_order_ref (order_group_of q))]"
  using assms
  by (auto simp: dispatch_def no_effects_def split: bool.splits option.splits guard_stop.splits prod.splits sum.splits
      dest: fail_claimed_effects submit_sends_once)

lemma claim_and_dispatch_sends:
  assumes "claim_and_dispatch svc run q v rec db = (res, fx, db')" and "fx_sent fx \<noteq> []"
  obtains linked mid where
    "mutate_batch_work (claim_work svc run q rec (opt_or REDUCING (vd_direction v))) db = (Inr (Some linked), mid)"
    and "dispatch svc run q (vd_context v) linked mid = (res, fx, db')"
    and "fx_sent fx = [(linked, encode_order_ref (order_group_of q))]"
proof -
  have quiet: False if "refuse run q Validated code retryable d = (res, fx, db')" for code retryable d
    using refuse_sends_nothing [OF that] assms(2) by (simp add: no_effects_def)
  obtain r mid where w: "mutate_batch_work (claim_work svc run q rec (opt_or REDUCING (vd_direction v))) db = (r, mid)"
    by fastforce
  show thesis
  proof (cases r)
    case (Inr claimed)
    show thesis
    proof (cases claimed)
      case None
      then show thesis using assms(1) w Inr quiet by (auto simp: claim_and_dispatch_def)
    next
      case (Some linked)
      then have "dispatch svc run q (vd_context v) linked mid = (res, fx, db')"
        using assms(1) w Inr by (simp add: claim_and_dispatch_def)
      with w Inr Some that dispatch_sends [OF this assms(2)] show thesis by blast
    qed
  next
    case (Inl e)
    have "e = Raised (ClaimPaused (PauseStateUnavailable a)) \<Longrightarrow> False"
      "e = Raised (ClaimPaused (TradingPausedError a)) \<Longrightarrow> False"
      "e = Raised (ApprovalClaimFailed outcome) \<Longrightarrow> False" for a outcome
      using assms(1) w Inl quiet by (auto simp: claim_and_dispatch_def)
    then have "fx = no_effects"
      using assms(1) w Inl
      by (cases e rule: journal_error.exhaust; simp add: claim_and_dispatch_def)
        (auto split: claim_error.splits control_error.splits)
    then show thesis using assms(2) by (simp add: no_effects_def)
  qed
qed

text \<open>What a verdict without a problem has checked.\<close>

lemma validate_exposure_ok:
  assumes "validate_exposure svc run q i rec broker = Inr v" and "vd_problem v = None"
  defines "direction \<equiv> classify_risk_direction (pr_action rec) (reducible_quantity (sv_rnd svc) broker (pr_conid rec))
      (opt_or (Fin 0) (pr_quantity rec))"
  shows "vd_direction v = Some direction
    \<and> (direction = INCREASING \<longrightarrow> (\<exists>quote.
        ru_quote run (pr_conid rec) (if pr_action rec = ''BUY'' then ''ask'' else ''bid'') = Some quote
        \<and> check_exposure_increasing_guards (sv_rnd svc) rec quote (now_utc run AtQuoteGuards) (sv_account_mode svc)
            (sv_outside_session_limit_enabled svc) (sv_paper_max_quote_age_seconds svc) = Inr None))"
proof (cases direction)
  case REDUCING
  then show ?thesis
    using assms(1,2) unfolding direction_def
    by (auto simp: validate_exposure_def Let_def reject_def split: if_splits)
next
  case INCREASING
  have "validate_increasing svc run q i rec broker (opt_or (Fin 0) (pr_quantity rec)) = Inr v"
    using assms(1,2) INCREASING unfolding direction_def
    by (auto simp: validate_exposure_def Let_def reject_def split: if_splits)
  then show ?thesis
    using assms(2) INCREASING
    by (auto simp: validate_increasing_def Let_def reject_def
        split: option.splits sum.splits if_splits guard_stop.splits)
qed

lemma validate_ok:
  assumes "validate svc run q i (Some rec) ledger = Inr v" and "vd_problem v = None"
  obtains broker where "pr_status rec = PENDING" and "pr_account_id rec = Some (sv_account_id svc)"
    and "sv_account_mode svc = ''live'' \<longrightarrow> pr_live_approval_eligible rec \<and> cq_principal q = Some live_approve_principal"
    and "\<forall>r \<in> set ledger. lr_target_type r = ''proposal'' \<longrightarrow> lr_target_id r = string_of_int (pr_id rec)
           \<longrightarrow> lr_command_id r \<noteq> cq_command_id q \<longrightarrow> terminal_state (lr_state r)"
    and "ru_capture run (sv_account_id svc) = Captured broker" and "evaluate_risk svc run rec broker = Some True"
    and "validate_exposure svc run q i rec broker = Inr v"
proof -
  note a = assms(1) [unfolded validate_def Let_def option.case]
  have st: "pr_status rec = PENDING" using a assms(2) by (auto simp: reject_def split: if_splits)
  note a = a [unfolded st, simplified]
  have ac: "pr_account_id rec = Some (sv_account_id svc)" using a assms(2) by (auto simp: reject_def split: if_splits)
  have live: "sv_account_mode svc = ''live'' \<longrightarrow> pr_live_approval_eligible rec \<and> cq_principal q = Some live_approve_principal"
    using a assms(2) by (auto simp: reject_def split: if_splits)
  have fl: "filter (\<lambda>r. lr_command_id r \<noteq> cq_command_id q)
      (unresolved_for_target ledger ''proposal'' (string_of_int (pr_id rec))) = []"
    using a assms(2) by (auto simp: reject_def split: if_splits)
  have rest: "(case ru_capture run (sv_account_id svc) of
        SnapshotRefused code \<Rightarrow> Inr (reject i code (code \<notin> set definite_snapshot_errors))
      | CaptureRaised \<Rightarrow> Inr (reject i ''BROKER_UNAVAILABLE'' True)
      | Captured broker \<Rightarrow> (case evaluate_risk svc run rec broker of
             None \<Rightarrow> Inl CollaboratorRaised
           | Some False \<Rightarrow> Inr (reject i ''RISK_REJECTED'' False)
           | Some True \<Rightarrow> validate_exposure svc run q i rec broker)) = Inr v"
    using a assms(2) fl by (auto simp: reject_def split: if_splits)
  then obtain broker where "ru_capture run (sv_account_id svc) = Captured broker"
    "evaluate_risk svc run rec broker = Some True" "validate_exposure svc run q i rec broker = Inr v"
    using assms(2) by (auto simp: reject_def split: capture_answer.splits option.splits bool.splits)
  moreover have "\<forall>r \<in> set ledger. lr_target_type r = ''proposal'' \<longrightarrow> lr_target_id r = string_of_int (pr_id rec)
      \<longrightarrow> lr_command_id r \<noteq> cq_command_id q \<longrightarrow> terminal_state (lr_state r)"
    using fl by (auto simp: unresolved_for_target_def filter_empty_conv)
  ultimately show thesis using that st ac live by blast
qed

lemma validate_missing: "validate svc run q i None ledger = Inr v \<Longrightarrow> vd_problem v \<noteq> None"
  by (auto simp: validate_def reject_def)

section \<open>The rest of the system\<close>

text \<open>
  What the saga relies on: between its own transactions the other threads keep the journal
  consistent and write proposals only through the repository.
\<close>

definition saga_inv :: "saga_db \<Rightarrow> bool" where
  "saga_inv db \<longleftrightarrow> journal_inv db \<and> ids_distinct (proposals_of db)"

definition others_behave :: "'a call_run_scheme \<Rightarrow> bool" where
  "others_behave run \<longleftrightarrow> (\<forall>g db. saga_inv db \<longrightarrow>
     saga_inv (ru_gap run g db) \<and> proposal_step\<^sup>*\<^sup>* (proposals_of db) (proposals_of (ru_gap run g db)))"

lemma gapD:
  assumes "others_behave run" and "saga_inv db"
  shows "saga_inv (ru_gap run g db)" and "proposal_step\<^sup>*\<^sup>* (proposals_of db) (proposals_of (ru_gap run g db))"
  using assms by (auto simp: others_behave_def)

lemma publish_keeps:
  assumes inv: "journal_inv db"
    and run: "publish_decision saga_risk_slot account_id pr command_id payload corr db = (res, db')"
  shows "journal_inv db' \<and> proposals_of db' = proposals_of db \<and> ledger_of db' = ledger_of db
    \<and> controls_of db' = controls_of db"
proof -
  note run' = run [unfolded publish_decision_def]
  have inv': "journal_inv db'" using decision.batch_work_inv [OF inv run'] .
  from run' show ?thesis
  proof (cases rule: batch_work_prod)
    case (rolled_back e)
    then show ?thesis using inv' by (simp add: proposals_of_def ledger_of_def controls_of_def)
  next
    case (committed r mid)
    have blind: "proposals_of mid = proposals_of db \<and> ledger_of mid = ledger_of db \<and> controls_of mid = controls_of db"
    proof (cases "risk_get_in_tx (sl_get saga_risk_slot (jd_prod db)) (risk_decision_entity_id command_id)")
      case (Some current)
      then show ?thesis using committed(2) by (auto simp: publish_decision_work_def split: if_splits)
    next
      case None
      define c' where "c' = (case corr of None \<Rightarrow> command_id | Some c \<Rightarrow> if c = [] then command_id else c)"
      have w: "risk_append_write saga_risk_slot account_id pr (risk_decision_entity_id command_id) RiskDecision payload
          (Some c') (db\<lparr>jd_open_events := []\<rparr>) = (Inr r, mid)"
        using committed(2) None by (simp add: publish_decision_work_def c'_def)
      have "journal_inv (db\<lparr>jd_open_events := []\<rparr>)" using inv by simp
      from this w show ?thesis
      proof (cases rule: risk_append_cases)
        case (fresh t m revision)
        then show ?thesis by (simp add: proposals_of_def ledger_of_def controls_of_def saga_risk_slot_def)
      qed simp_all
    qed
    then show ?thesis using inv' committed(3) by (simp add: proposals_of_def ledger_of_def controls_of_def)
  qed
qed

lemma transition_keeps:
  assumes inv: "journal_inv db"
    and run: "transition_command run at_time q from_state to_state outcome error_code db = (res, db')"
  shows "journal_inv db' \<and> proposals_of db' = proposals_of db \<and> controls_of db' = controls_of db"
proof -
  obtain r mid where m: "mutate (transition_item q from_state to_state outcome error_code (now_utc run at_time)
      (ru_journaled run at_time)) db = (r, mid)" by fastforce
  have mid: "db' = mid" using run m by (auto simp: transition_command_def split: sum.splits)
  have inv': "journal_inv db'" unfolding mid using mutate_inv [OF inv m] .
  from inv m show ?thesis
  proof (cases rule: mutate_cases)
    case (failed e)
    then show ?thesis using inv' mid by simp
  next
    case (replay row)
    then show ?thesis using inv' mid by (simp add: proposals_of_def controls_of_def)
  next
    case (fresh p)
    then have "ct_world p = ct_world (jd_prod db)"
      by (auto simp: transition_item_def command_write_def split: option.splits)
    then show ?thesis using inv' mid fresh(4) by (simp add: proposals_of_def controls_of_def)
  qed
qed

text \<open>Up to the claim the saga itself writes no proposal: what it read can only have moved on.\<close>

lemma approve_reaches_claim:
  assumes inv: "saga_inv db" and others: "others_behave run"
    and run: "approve svc run q db = (res, fx, db')" and sent: "fx_sent fx \<noteq> []"
  obtains i rec v cdb where "proposal_get (proposals_of db) i = Some rec"
    and "validate svc run q i (Some rec) (ledger_of (ru_gap run GapInflight db)) = Inr v" and "vd_problem v = None"
    and "saga_inv cdb" and "proposal_step\<^sup>*\<^sup>* (proposals_of db) (proposals_of cdb)"
    and "claim_and_dispatch svc run q v rec cdb = (res, fx, db')"
proof -
  have quiet: False if "fx = no_effects" using sent that by (simp add: no_effects_def)
  obtain i where i: "(let found = proposal_get (proposals_of db) i;
      db1 = ru_gap run GapInflight db in case validate svc run q i found (ledger_of db1) of
         Inl e \<Rightarrow> (Inl e, no_effects, db1) | Inr v \<Rightarrow> after_validation svc run q v found db1) = (res, fx, db')"
    using run quiet unfolding approve_def by (auto split: sum.splits)
  define found where "found = proposal_get (proposals_of db) i"
  define db1 where "db1 = ru_gap run GapInflight db"
  obtain v where v: "validate svc run q i found (ledger_of db1) = Inr v"
    and after: "after_validation svc run q v found db1 = (res, fx, db')"
    using i quiet by (auto simp: Let_def found_def db1_def split: sum.splits)
  have inv1: "saga_inv db1" "proposal_step\<^sup>*\<^sup>* (proposals_of db) (proposals_of db1)"
    unfolding db1_def using gapD [OF others inv] by simp_all
  obtain pres db2 where pub: "publish_decision saga_risk_slot (sv_account_id svc) (ru_publish run False)
      (cq_command_id q) (context_decision v) (Some (cq_command_id q)) (ru_gap run GapDecision db1) = (pres, db2)"
    by fastforce
  have step1: "saga_inv (ru_gap run GapDecision db1)"
    "proposal_step\<^sup>*\<^sup>* (proposals_of db1) (proposals_of (ru_gap run GapDecision db1))"
    using gapD [OF others inv1(1)] by simp_all
  have inv2: "saga_inv db2" "proposals_of db2 = proposals_of (ru_gap run GapDecision db1)"
    using publish_keeps [OF _ pub] step1(1) by (simp_all add: saga_inv_def)
  have noproblem: "vd_problem v = None"
  proof (rule ccontr)
    assume "vd_problem v \<noteq> None"
    then show False using after pub quiet
      by (auto simp: after_validation_def split: sum.splits dest!: refuse_sends_nothing)
  qed
  obtain rec where rec: "found = Some rec" using v noproblem validate_missing [of svc run q i] by (cases found) auto
  obtain tres db3 where tr: "transition_command run AtValidated q Received Validated None None
      (ru_gap run GapFirstTransition db2) = (tres, db3)" by fastforce
  have step2: "saga_inv (ru_gap run GapFirstTransition db2)"
    "proposal_step\<^sup>*\<^sup>* (proposals_of db2) (proposals_of (ru_gap run GapFirstTransition db2))"
    using gapD [OF others inv2(1)] by simp_all
  have inv3: "saga_inv db3" "proposals_of db3 = proposals_of (ru_gap run GapFirstTransition db2)"
    using transition_keeps [OF _ tr] step2(1) by (simp_all add: saga_inv_def)
  have step3: "saga_inv (ru_gap run GapClaim db3)"
    "proposal_step\<^sup>*\<^sup>* (proposals_of db3) (proposals_of (ru_gap run GapClaim db3))"
    using gapD [OF others inv3(1)] by simp_all
  have "claim_and_dispatch svc run q v rec (ru_gap run GapClaim db3) = (res, fx, db')"
    using after pub tr rec noproblem quiet by (auto simp: after_validation_def split: sum.splits)
  moreover have "proposal_step\<^sup>*\<^sup>* (proposals_of db) (proposals_of (ru_gap run GapClaim db3))"
    using inv1(2) step1(2) step2(2) step3(2) unfolding inv2(2) inv3(2) by (meson rtranclp_trans)
  ultimately show thesis
    using that v rec noproblem step3(1) by (simp add: found_def db1_def)
qed

lemma frozen_from_row [simp]: "frozen (from_row r) = from_row (frozen r)"
  by (simp add: frozen_def from_row_def)

lemma proposal_get_Some:
  assumes "proposal_get rows i = Some rec"
  obtains r where "r \<in> set rows" and "pr_id r = i" and "rec = from_row r"
  using assms by (auto simp: proposal_get_def dest: fetchone_filter_SomeD)

text \<open>
  The claimed row is the row that was read: what was reviewed is unchanged, at the version the
  command names, and the pause gate was open in the claim's own transaction.
\<close>

lemma claimed_as_read:
  assumes rec: "proposal_get (proposals_of db) i = Some rec" and pending: "pr_status rec = PENDING"
    and cdb: "saga_inv cdb" "proposal_step\<^sup>*\<^sup>* (proposals_of db) (proposals_of cdb)"
    and claim: "mutate_batch_work (claim_work svc run q rec direction) cdb = (Inr (Some linked), mid)"
  shows "frozen linked = frozen rec" "pr_order_group_id linked = Some (order_group_of q)" "pr_status linked = APPROVED"
    "proposal_get (proposals_of db) (pr_id rec) = Some rec" "cq_expected_version q = Some (pr_revision rec)"
    "\<exists>r \<in> set (proposals_of mid). pr_id r = pr_id rec \<and> pr_status r = APPROVED
       \<and> pr_order_group_id r = Some (order_group_of q)"
    "journal_has mid (proposal_event_id (pr_id rec) (pr_revision linked))"
    "journal_has mid (command_event_id (cq_command_id q) Submitting)"
    "direction = INCREASING \<longrightarrow>
       require_unpaused (empty_journal (controls_of cdb)) (opt_or [] (pr_account_id rec)) = Inr ()"
proof -
  from cdb(1) have inv: "journal_inv cdb" "ids_distinct (proposals_of cdb)" by (simp_all add: saga_inv_def)
  from inv claim obtain r where r: "r \<in> set (proposals_of cdb)" "pr_id r = pr_id rec" "pr_status r = PENDING"
      "Some (pr_revision r) = cq_expected_version q"
    and l: "linked = from_row (r\<lparr>pr_status := APPROVED, pr_updated_at := as_utc (ru_clock run AtClaim),
           pr_revision := pr_revision r + 1, pr_order_group_id := Some (order_group_of q)\<rparr>)"
    and pause: "direction = INCREASING \<longrightarrow>
           require_unpaused (empty_journal (controls_of cdb)) (opt_or [] (pr_account_id rec)) = Inr ()"
    and mem: "r\<lparr>pr_status := APPROVED, pr_updated_at := as_utc (ru_clock run AtClaim),
           pr_revision := pr_revision r + 1, pr_order_group_id := Some (order_group_of q)\<rparr> \<in> set (proposals_of mid)"
    and ev: "journal_has mid (proposal_event_id (pr_id linked) (pr_revision linked))"
      "journal_has mid (command_event_id (cq_command_id q) Submitting)"
    by (rule claim_committed) blast
  from rec obtain r0 where r0: "r0 \<in> set (proposals_of db)" "pr_id r0 = i" "rec = from_row r0"
    by (rule proposal_get_Some)
  from run_row [OF cdb(2) r0(1)] obtain r1 where r1: "r1 \<in> set (proposals_of cdb)" "row_moves r0 r1" by blast
  have "pr_id r1 = pr_id r" using row_moves_id [OF r1(2)] r(2) r0 by simp
  then have "r1 = r" using ids_distinct_eq [OF inv(2) r1(1) r(1)] by blast
  then have same: "frozen r = frozen r0" and rev: "pr_revision r = pr_revision r0"
    using r1(2) r(3) pending r0(3) by (simp_all add: row_moves_def)
  have "frozen linked = from_row (frozen r)" unfolding l by (simp add: frozen_def from_row_def)
  then have fr: "frozen linked = frozen rec" using same r0(3) by simp
  have lf: "pr_order_group_id linked = Some (order_group_of q)" "pr_status linked = APPROVED" "pr_id linked = pr_id rec"
    unfolding l using r(2) by (simp_all add: from_row_def)
  have ver: "cq_expected_version q = Some (pr_revision rec)" using r(4) rev r0(3) by simp
  have rec': "proposal_get (proposals_of db) (pr_id rec) = Some rec" using rec r0 by simp
  have stored: "\<exists>r \<in> set (proposals_of mid). pr_id r = pr_id rec \<and> pr_status r = APPROVED
         \<and> pr_order_group_id r = Some (order_group_of q)" using mem r(2) by (intro bexI [OF _ mem]) simp
  show "frozen linked = frozen rec" "pr_order_group_id linked = Some (order_group_of q)" "pr_status linked = APPROVED"
    "proposal_get (proposals_of db) (pr_id rec) = Some rec" "cq_expected_version q = Some (pr_revision rec)"
    "\<exists>r \<in> set (proposals_of mid). pr_id r = pr_id rec \<and> pr_status r = APPROVED
       \<and> pr_order_group_id r = Some (order_group_of q)"
    "journal_has mid (proposal_event_id (pr_id rec) (pr_revision linked))"
    "journal_has mid (command_event_id (cq_command_id q) Submitting)"
    "direction = INCREASING \<longrightarrow>
       require_unpaused (empty_journal (controls_of cdb)) (opt_or [] (pr_account_id rec)) = Inr ()"
    using fr lf(1,2) rec' ver stored ev(1) [unfolded lf(3)] ev(2) pause by blast+
qed

text \<open>
  C1. Approving a proposal sends at most one order group, and only after the claim is durable. If
  anything is sent, it is one bracket, for exactly the content that was validated, under the
  reference of this command; the proposal was pending at the version the command named, owned by
  the service's account, with no other unresolved command on it, the risk gate approved it, on a
  live account the dashboard asked for it and the proposal was eligible; an order that increases
  exposure passed the quote guards, and trading was not paused in the very transaction that claimed
  it; and that transaction, which committed the approval, the order group, the SUBMITTING command
  and both events, had ended before the order was handed over.
\<close>

theorem approve_sends_only_claimed:
  assumes "saga_inv db" and "others_behave run"
    and "approve svc run q db = (res, fx, db')" and "fx_sent fx \<noteq> []"
  shows "\<exists>rec linked broker cdb mid (v :: verdict). fx_sent fx = [(linked, encode_order_ref (order_group_of q))]
    \<and> frozen linked = frozen rec \<and> pr_order_group_id linked = Some (order_group_of q) \<and> pr_status linked = APPROVED
    \<and> proposal_get (proposals_of db) (pr_id rec) = Some rec \<and> pr_status rec = PENDING
    \<and> cq_expected_version q = Some (pr_revision rec) \<and> pr_account_id rec = Some (sv_account_id svc)
    \<and> (\<forall>r \<in> set (ledger_of (ru_gap run GapInflight db)). lr_target_type r = ''proposal''
         \<longrightarrow> lr_target_id r = string_of_int (pr_id rec) \<longrightarrow> lr_command_id r \<noteq> cq_command_id q
         \<longrightarrow> terminal_state (lr_state r))
    \<and> (sv_account_mode svc = ''live'' \<longrightarrow> pr_live_approval_eligible rec \<and> cq_principal q = Some ''dashboard'')
    \<and> ru_capture run (sv_account_id svc) = Captured broker \<and> evaluate_risk svc run rec broker = Some True
    \<and> (classify_risk_direction (pr_action rec) (reducible_quantity (sv_rnd svc) broker (pr_conid rec))
          (opt_or (Fin 0) (pr_quantity rec)) = INCREASING \<longrightarrow>
        require_unpaused (empty_journal (controls_of cdb)) (sv_account_id svc) = Inr ()
        \<and> (\<exists>quote. check_exposure_increasing_guards (sv_rnd svc) rec quote (now_utc run AtQuoteGuards)
             (sv_account_mode svc) (sv_outside_session_limit_enabled svc) (sv_paper_max_quote_age_seconds svc) = Inr None))
    \<and> mutate_batch_work (claim_work svc run q rec (opt_or REDUCING (vd_direction v))) cdb = (Inr (Some linked), mid)
    \<and> (\<exists>r \<in> set (proposals_of mid). pr_id r = pr_id rec \<and> pr_status r = APPROVED
         \<and> pr_order_group_id r = Some (order_group_of q))
    \<and> journal_has mid (proposal_event_id (pr_id rec) (pr_revision linked))
    \<and> journal_has mid (command_event_id (cq_command_id q) Submitting)
    \<and> dispatch svc run q (vd_context v) linked mid = (res, fx, db')"
proof -
  from assms obtain i rec v cdb where rec: "proposal_get (proposals_of db) i = Some rec"
    and v: "validate svc run q i (Some rec) (ledger_of (ru_gap run GapInflight db)) = Inr v" "vd_problem v = None"
    and cdb: "saga_inv cdb" "proposal_step\<^sup>*\<^sup>* (proposals_of db) (proposals_of cdb)"
    and cd: "claim_and_dispatch svc run q v rec cdb = (res, fx, db')"
    by (rule approve_reaches_claim)
  from cd assms(4) obtain linked mid where
      claim: "mutate_batch_work (claim_work svc run q rec (opt_or REDUCING (vd_direction v))) cdb = (Inr (Some linked), mid)"
    and disp: "dispatch svc run q (vd_context v) linked mid = (res, fx, db')"
    and fx: "fx_sent fx = [(linked, encode_order_ref (order_group_of q))]"
    by (rule claim_and_dispatch_sends)
  from v obtain broker where ok: "pr_status rec = PENDING" "pr_account_id rec = Some (sv_account_id svc)"
      "sv_account_mode svc = ''live'' \<longrightarrow> pr_live_approval_eligible rec \<and> cq_principal q = Some live_approve_principal"
      "\<forall>r \<in> set (ledger_of (ru_gap run GapInflight db)). lr_target_type r = ''proposal''
        \<longrightarrow> lr_target_id r = string_of_int (pr_id rec) \<longrightarrow> lr_command_id r \<noteq> cq_command_id q \<longrightarrow> terminal_state (lr_state r)"
      "ru_capture run (sv_account_id svc) = Captured broker" "evaluate_risk svc run rec broker = Some True"
    and ve: "validate_exposure svc run q i rec broker = Inr v"
    by (rule validate_ok)
  note dir = validate_exposure_ok [OF ve v(2)]
  note claimed = claimed_as_read [OF rec ok(1) cdb claim]
  have live: "sv_account_mode svc = ''live'' \<longrightarrow> pr_live_approval_eligible rec \<and> cq_principal q = Some ''dashboard''"
    using ok(3) by (simp add: live_approve_principal_def)
  have increasing: "classify_risk_direction (pr_action rec) (reducible_quantity (sv_rnd svc) broker (pr_conid rec))
          (opt_or (Fin 0) (pr_quantity rec)) = INCREASING \<longrightarrow>
        require_unpaused (empty_journal (controls_of cdb)) (sv_account_id svc) = Inr ()
        \<and> (\<exists>quote. check_exposure_increasing_guards (sv_rnd svc) rec quote (now_utc run AtQuoteGuards)
             (sv_account_mode svc) (sv_outside_session_limit_enabled svc) (sv_paper_max_quote_age_seconds svc) = Inr None)"
    using dir claimed ok(2) by auto
  note parts = fx claimed(1-4) ok(1) claimed(5) ok(2,4) live ok(5,6) increasing claim claimed(6-8) disp
  show ?thesis
    by (rule exI [of _ rec], rule exI [of _ linked], rule exI [of _ broker], rule exI [of _ cdb],
        rule exI [of _ mid], rule exI [of _ v], intro conjI) (rule parts)+
qed

lemma guarded_dispatch_sends:
  assumes "dispatch svc run q (Some cx) claimed db = (res, fx, db')" and "fx_sent fx \<noteq> []" and "sv_has_dispatch_guard svc"
  obtains permit e mid where "ru_revalidate run True cx q (now_utc run AtDispatchGuard) = Inr permit"
    and "publish_dispatch_decision svc run q (permit_decision claimed permit) db = (Inr e, mid)"
    and "submit_orders run q claimed mid = (res, fx, db')"
  using assms
  by (auto simp: dispatch_def no_effects_def split: guard_stop.splits prod.splits sum.splits dest: fail_claimed_effects)

text \<open>The context the guard is given holds what the proposal says.\<close>

definition context_of :: "approval_service \<Rightarrow> proposal_record \<Rightarrow> risk_snapshot \<Rightarrow> approval_context \<Rightarrow> bool" where
  "context_of svc rec broker cx \<longleftrightarrow> cx_conid cx = pr_conid rec \<and> cx_side cx = pr_action rec
     \<and> cx_quantity cx = opt_or (Fin 0) (pr_quantity rec) \<and> cx_reference_price cx = pr_reference_price rec
     \<and> cx_max_drift_bps cx = pr_max_price_drift_bps rec \<and> cx_broker cx = broker
     \<and> cx_risk_direction cx = classify_risk_direction (pr_action rec)
          (reducible_quantity (sv_rnd svc) broker (pr_conid rec)) (opt_or (Fin 0) (pr_quantity rec))"

lemma validate_exposure_context:
  assumes "validate_exposure svc run q i rec broker = Inr v" and "vd_problem v = None"
  shows "\<exists>cx. vd_context v = Some cx \<and> context_of svc rec broker cx"
proof (cases "classify_risk_direction (pr_action rec) (reducible_quantity (sv_rnd svc) broker (pr_conid rec))
      (opt_or (Fin 0) (pr_quantity rec))")
  case REDUCING
  then show ?thesis
    using assms by (auto simp: validate_exposure_def context_of_def Let_def reject_def split: if_splits)
next
  case INCREASING
  have "validate_increasing svc run q i rec broker (opt_or (Fin 0) (pr_quantity rec)) = Inr v"
    using assms INCREASING by (auto simp: validate_exposure_def Let_def reject_def split: if_splits)
  then show ?thesis
    using assms(2) INCREASING
    by (auto simp: validate_increasing_def context_of_def Let_def reject_def
        split: option.splits sum.splits if_splits guard_stop.splits)
qed

lemma context_of_frozen: "frozen linked = frozen rec \<Longrightarrow> context_of svc rec broker cx = context_of svc linked broker cx"
  by (simp add: context_of_def frozen_def proposal_record.defs) (cases linked; cases rec; simp)

text \<open>
  C5. With the dispatch guard in place, an order is handed to the broker only under a permit for exactly that
  order. The guard was run after the claim, on the instrument, side, quantity, reference price and direction of the
  proposal that is sent; the broker state it read is the one the approval was reviewed against, not older and on its
  account; an order sent as reducing still reduces and cannot flip the position; for an increasing one trading was not
  paused; and the permit was recorded as a risk decision before the order left.
\<close>

theorem guarded_approval_permitted:
  assumes "saga_inv db" and "others_behave run" and "sv_has_dispatch_guard svc"
    and guard: "ru_revalidate run True = revalidate dg grun"
    and "approve svc run q db = (res, fx, db')" and "fx_sent fx \<noteq> []"
  shows "\<exists>linked broker cx permit current before e mid. fx_sent fx = [(linked, encode_order_ref (order_group_of q))]
    \<and> ru_capture run (sv_account_id svc) = Captured broker \<and> context_of svc linked broker cx
    \<and> revalidate dg grun cx q (now_utc run AtDispatchGuard) = Inr permit
    \<and> gr_capture grun (dg_account_id dg) = Captured current \<and> broker_unchanged dg cx current
    \<and> (cx_risk_direction cx = REDUCING \<longrightarrow> still_reducing dg cx current)
    \<and> (cx_risk_direction cx = INCREASING \<longrightarrow> gr_pause grun (dg_account_id dg) = PauseOpen)
    \<and> publish_dispatch_decision svc run q (permit_decision linked permit) before = (Inr e, mid)
    \<and> submit_orders run q linked mid = (res, fx, db')"
proof -
  from assms(1,2,5,6) obtain i rec v cdb where rec: "proposal_get (proposals_of db) i = Some rec"
    and v: "validate svc run q i (Some rec) (ledger_of (ru_gap run GapInflight db)) = Inr v" "vd_problem v = None"
    and cdb: "saga_inv cdb" "proposal_step\<^sup>*\<^sup>* (proposals_of db) (proposals_of cdb)"
    and cd: "claim_and_dispatch svc run q v rec cdb = (res, fx, db')"
    by (rule approve_reaches_claim)
  from cd assms(6) obtain linked before where
      claim: "mutate_batch_work (claim_work svc run q rec (opt_or REDUCING (vd_direction v))) cdb = (Inr (Some linked), before)"
    and disp: "dispatch svc run q (vd_context v) linked before = (res, fx, db')"
    and fx: "fx_sent fx = [(linked, encode_order_ref (order_group_of q))]"
    by (rule claim_and_dispatch_sends)
  from v obtain broker where pending: "pr_status rec = PENDING"
    and broker: "ru_capture run (sv_account_id svc) = Captured broker"
    and ve: "validate_exposure svc run q i rec broker = Inr v"
    by (rule validate_ok)
  from validate_exposure_context [OF ve v(2)] obtain cx where cx: "vd_context v = Some cx" "context_of svc rec broker cx"
    by blast
  have linked: "context_of svc linked broker cx"
    using context_of_frozen [OF claimed_as_read(1) [OF rec pending cdb claim]] cx(2) by simp
  from guarded_dispatch_sends [OF disp [unfolded cx(1)] assms(6,3)] obtain permit e mid where
      permit: "revalidate dg grun cx q (now_utc run AtDispatchGuard) = Inr permit"
    and pub: "publish_dispatch_decision svc run q (permit_decision linked permit) before = (Inr e, mid)"
    and sub: "submit_orders run q linked mid = (res, fx, db')"
    unfolding guard by blast
  from permit_broker [OF permit] obtain current where
      "gr_capture grun (dg_account_id dg) = Captured current" "broker_unchanged dg cx current"
      "cx_risk_direction cx = REDUCING \<longrightarrow> still_reducing dg cx current"
      "cx_risk_direction cx = INCREASING \<longrightarrow> gr_pause grun (dg_account_id dg) = PauseOpen" .
  note parts = fx broker linked permit this pub sub
  show ?thesis
    by (rule exI [of _ linked], rule exI [of _ broker], rule exI [of _ cx], rule exI [of _ permit], rule exI [of _ current],
        rule exI [of _ before], rule exI [of _ e], rule exI [of _ mid], intro conjI) (rule parts)+
qed

text \<open>
  C2. Two approvals of one proposal never both send an order. From the moment one call's claim is
  committed, and whatever repository writes follow in whatever interleaving, the claim of any other
  call, by any service, for any command and any version, sends nothing.
\<close>

theorem approvals_never_both_send:
  assumes "saga_inv cdb" and "claim_and_dispatch svc run q v rec cdb = (res, fx, db1)" and "fx_sent fx \<noteq> []"
    and "mutate_batch_work (claim_work svc run q rec (opt_or REDUCING (vd_direction v))) cdb = (out, mid)"
    and "proposal_step\<^sup>*\<^sup>* (proposals_of mid) (proposals_of cdb')" and "saga_inv cdb'"
    and "pr_id rec' = pr_id rec"
    and "claim_and_dispatch svc' run' q' v' rec' cdb' = (res', fx', db2)"
  shows "fx_sent fx' = []"
proof (rule ccontr)
  assume "fx_sent fx' \<noteq> []"
  with assms(8) obtain linked' mid' where claim': "mutate_batch_work
      (claim_work svc' run' q' rec' (opt_or REDUCING (vd_direction v'))) cdb' = (Inr (Some linked'), mid')"
    by (rule claim_and_dispatch_sends)
  from assms(2,3) obtain linked mid0 where claim0: "mutate_batch_work
      (claim_work svc run q rec (opt_or REDUCING (vd_direction v))) cdb = (Inr (Some linked), mid0)"
    by (rule claim_and_dispatch_sends)
  then have claim: "mutate_batch_work
      (claim_work svc run q rec (opt_or REDUCING (vd_direction v))) cdb = (Inr (Some linked), mid)"
    using assms(4) by simp
  have inv: "journal_inv cdb" "ids_distinct (proposals_of cdb)" "journal_inv cdb'" "ids_distinct (proposals_of cdb')"
    using assms(1,6) by (simp_all add: saga_inv_def)
  from inv(1,2) claim obtain r where "pr_id r = pr_id rec"
    and mem: "r\<lparr>pr_status := APPROVED, pr_updated_at := as_utc (ru_clock run AtClaim),
        pr_revision := pr_revision r + 1, pr_order_group_id := Some (order_group_of q)\<rparr> \<in> set (proposals_of mid)"
    by (rule claim_committed) blast
  moreover from run_row [OF assms(5) mem] obtain a where a: "a \<in> set (proposals_of cdb')"
    "row_moves (r\<lparr>pr_status := APPROVED, pr_updated_at := as_utc (ru_clock run AtClaim),
        pr_revision := pr_revision r + 1, pr_order_group_id := Some (order_group_of q)\<rparr>) a" by blast
  ultimately have "pr_id a = pr_id rec" and "pr_status a \<noteq> PENDING"
    using row_moves_id [OF a(2)] moved_not_pending [OF a(2)] by simp_all
  moreover from inv(3,4) claim' obtain b where "b \<in> set (proposals_of cdb')" "pr_id b = pr_id rec'" "pr_status b = PENDING"
    by (rule claim_committed) blast
  ultimately show False using ids_distinct_eq [OF inv(4) a(1)] assms(7) by metis
qed

section \<open>What the receipt says\<close>

text \<open>The ledger has one row per command, and no event of the command's states in \<open>S\<close> is journaled yet.\<close>

definition tracked :: "command_request \<Rightarrow> command_state set \<Rightarrow> saga_db \<Rightarrow> bool" where
  "tracked q S db \<longleftrightarrow> journal_inv db \<and> distinct (map lr_command_id (ledger_of db))
     \<and> (\<forall>s \<in> S. \<not> journal_has db (command_event_id (cq_command_id q) s))"

text \<open>The other threads journal no state of this command, and a fresh uuid is no event id of it.\<close>

definition quiet_about :: "command_request \<Rightarrow> 'a call_run_scheme \<Rightarrow> bool" where
  "quiet_about q run \<longleftrightarrow> (\<forall>g S db. tracked q S db \<longrightarrow> tracked q S (ru_gap run g db))
     \<and> (\<forall>b s. pb_uuid (ru_publish run b) \<noteq> command_event_id (cq_command_id q) s)"

definition recorded :: "command_request \<Rightarrow> command_state \<Rightarrow> jobject option \<Rightarrow> string option \<Rightarrow> saga_db \<Rightarrow> bool" where
  "recorded q s outcome error_code db \<longleftrightarrow> (\<exists>row. ledger_select (ledger_of db) (cq_command_id q) = Some row
     \<and> lr_state row = s \<and> lr_outcome row = outcome \<and> lr_error_code row = error_code)"

lemma command_event_id_inject [simp]:
  "command_event_id i s = command_event_id i t \<longleftrightarrow> s = t"
proof -
  have low: "lower (command_state_str Received) = ''received''" "lower (command_state_str Validated) = ''validated''"
    "lower (command_state_str Submitting) = ''submitting''" "lower (command_state_str Submitted) = ''submitted''"
    "lower (command_state_str Rejected) = ''rejected''" "lower (command_state_str Resolved) = ''resolved''"
    "lower (command_state_str OutcomeUnknown) = ''outcome_unknown''" by code_simp+
  have "lower (command_state_str s) = lower (command_state_str t) \<Longrightarrow> s = t"
    by (cases s; cases t) (simp_all add: low)
  then show ?thesis by (auto simp: command_event_id_def)
qed

lemma proposal_event_apart [simp]:
  "proposal_event_id i n \<noteq> command_event_id c s" "command_event_id c s \<noteq> proposal_event_id i n"
  by (simp_all add: proposal_event_id_def command_event_id_def)

lemma has_cong: "jd_rows db' = jd_rows db \<Longrightarrow> journal_has db' e = journal_has db e"
  by (simp add: journal_has_def)

lemma transition_hit:
  assumes dist: "distinct (map lr_command_id rows)"
    and hit: "transition_in_tx i from_state to_state outcome error_code now rows = Some (row, rows')"
  shows "ledger_select rows' i = Some row \<and> lr_state row = to_state \<and> lr_outcome row = outcome
    \<and> lr_error_code row = error_code \<and> map lr_command_id rows' = map lr_command_id rows"
proof (cases "ledger_select rows i")
  case None
  then show ?thesis using transition_miss [OF None] hit by simp
next
  case (Some r)
  have "lr_state r = from_state"
  proof (rule ccontr)
    assume "lr_state r \<noteq> from_state"
    moreover have "x = r" if "x \<in> set rows" "lr_command_id x = i" for x
      using ledger_select_mem [OF dist that(1)] that(2) Some by simp
    ultimately have "filter (\<lambda>r. lr_command_id r = i \<and> lr_state r = from_state) rows = []"
      by (auto simp: filter_empty_conv)
    then show False using hit by (simp add: transition_in_tx_def)
  qed
  from transition_ok [OF dist Some this, of to_state outcome error_code now] hit show ?thesis by auto
qed

lemma has_append:
  assumes "journal_inv db" and "journal_append t u m w e db = (Inr ev, db')" and "journal_has db' x"
  shows "journal_has db x \<or> x = opt_or u e"
  using assms by (elim journal_append_cases) (auto simp: journal_has_def)

lemma has_tables [simp]:
  "journal_has (set_proposals rows db) e = journal_has db e" "journal_has (set_ledger ls db) e = journal_has db e"
  "journal_has (db\<lparr>jd_open_events := es\<rparr>) e = journal_has db e"
  by (simp_all add: journal_has_def)

lemma has_proposal_and_command:
  assumes inv: "journal_inv db"
    and run: "proposal_and_command run at_time q rec from_state to_state outcome error_code db = (Inr u, db')"
    and has: "journal_has db' x"
  shows "journal_has db x \<or> x = proposal_event_id (pr_id rec) (pr_revision rec)
    \<or> x = command_event_id (cq_command_id q) to_state"
proof -
  obtain ev mid where ap: "append_proposal run at_time q rec db = (Inr ev, mid)"
    using run by (auto simp: proposal_and_command_def split: prod.splits sum.splits)
  then obtain ev2 where mv: "move_command run at_time q from_state to_state outcome error_code mid = (Inr ev2, db')"
    using run by (auto simp: proposal_and_command_def split: prod.splits sum.splits)
  note inv1 = append_inv [OF inv ap [unfolded append_proposal_def]]
  obtain rows where ap2: "journal_append (ru_journaled run at_time) []
        (command_updated_mutation q to_state (now_utc run at_time) outcome error_code) (\<lambda>p _. Inr p)
        (Some (command_event_id (cq_command_id q) to_state)) (set_ledger rows mid)
        = (Inr ev2 :: claim_error journal_error + domain_event, db')"
    using mv by (auto simp: move_command_def split: option.splits)
  have "journal_inv (set_ledger rows mid)" using inv1 by simp
  from has_append [OF this ap2 has] have "journal_has mid x \<or> x = command_event_id (cq_command_id q) to_state" by simp
  then show ?thesis using has_append [OF inv ap [unfolded append_proposal_def], of x] by auto
qed

lemma tracked_mono: "tracked q S db \<Longrightarrow> T \<subseteq> S \<Longrightarrow> tracked q T db"
  by (auto simp: tracked_def)

lemma gap_tracked: "quiet_about q run \<Longrightarrow> tracked q S db \<Longrightarrow> tracked q S (ru_gap run g db)"
  by (simp add: quiet_about_def)

lemma transition_tracked:
  assumes tr: "tracked q S db" and mem: "to_state \<in> S"
    and run: "transition_command run at_time q from_state to_state outcome error_code db = (Inr u, db')"
  shows "tracked q (S - {to_state}) db' \<and> recorded q to_state outcome error_code db'"
proof -
  let ?item = "transition_item q from_state to_state outcome error_code (now_utc run at_time) (ru_journaled run at_time)"
  have inv: "journal_inv db" and dist: "distinct (map lr_command_id (ledger_of db))"
    and new: "\<And>s. s \<in> S \<Longrightarrow> \<not> journal_has db (command_event_id (cq_command_id q) s)"
    using tr by (simp_all add: tracked_def)
  have id: "item_id ?item = command_event_id (cq_command_id q) to_state" by (simp add: transition_item_def item_id_def)
  obtain ev where m: "mutate ?item db = (Inr ev, db')"
    using run by (auto simp: transition_command_def split: prod.splits sum.splits)
  have inv': "journal_inv db'" using mutate_inv [OF inv m] .
  from inv m show ?thesis
  proof (cases rule: mutate_cases)
    case (replay row)
    then show ?thesis using new [OF mem] select_journal_row_Some by (fastforce simp: journal_has_def id)
  next
    case (fresh p)
    then obtain row rows where t: "transition_in_tx (cq_command_id q) from_state to_state outcome error_code
        (now_utc run at_time) (ledger_of db) = Some (row, rows)" and p: "ct_ledger p = rows"
      by (auto simp: transition_item_def command_write_def ledger_of_def split: option.splits)
    have led: "ledger_of db' = rows" using fresh(4) p by (simp add: ledger_of_def)
    have "\<not> journal_has db' (command_event_id (cq_command_id q) s)" if "s \<in> S - {to_state}" for s
      using that new [of s] fresh(4) id by (auto simp: journal_has_def)
    then show ?thesis
      using inv' dist transition_hit [OF dist t] led by (simp add: tracked_def recorded_def)
  qed simp
qed

lemma refuse_recorded:
  assumes "tracked q S db" and "Rejected \<in> S" and "refuse run q from_state code retryable db = (Inr r, fx, db')"
  shows "r = receipt (cq_command_id q) Rejected (Some code) retryable None \<and> fx = no_effects
    \<and> recorded q Rejected None (Some code) db'"
  using assms(3) transition_tracked [where run = run, OF assms(1,2)]
  by (auto simp: refuse_def split: prod.splits sum.splits)

lemma park_recorded:
  assumes "quiet_about q run" and "tracked q S db" and "OutcomeUnknown \<in> S"
    and "park_unknown run q outcome sent db = (Inr r, fx, db')"
  shows "r = receipt (cq_command_id q) OutcomeUnknown (Some ''DISPATCH_AMBIGUOUS'') False outcome
    \<and> fx = sent\<lparr>fx_scheduled := fx_scheduled sent @ [(cq_command_id q, now_utc run AtSchedule)]\<rparr>
    \<and> recorded q OutcomeUnknown outcome (Some ''DISPATCH_AMBIGUOUS'') db'"
  using assms(4) transition_tracked [where run = run, OF gap_tracked [OF assms(1,2)] assms(3)]
  by (auto simp: park_unknown_def split: prod.splits sum.splits)

text \<open>A rolled back unit of work leaves the command as it was.\<close>

lemma rolled_back_tracked:
  assumes "keeps_journal work" and "tracked q S db" and "mutate_batch_work work db = (Inl e, db')"
  shows "tracked q S db'"
proof -
  have inv: "journal_inv db" using assms(2) by (simp add: tracked_def)
  have "journal_inv db'" using journal_work.batch_work_inv [OF keeps_journal_work [OF assms(1)] inv assms(3)] .
  moreover from assms(3) have "jd_prod db' = jd_prod db \<and> jd_rows db' = jd_rows db"
    by (cases rule: batch_work_prod) simp_all
  ultimately show ?thesis using assms(2) by (simp add: tracked_def ledger_of_def journal_has_def)
qed

text \<open>A committed unit on proposal and command records the command's new state.\<close>

lemma unit_recorded:
  assumes tr: "tracked q S db" and inv': "journal_inv mid" and prod: "jd_prod mid = jd_prod m" "jd_rows mid = jd_rows m"
    and run: "proposal_and_command run at_time q rec from_state to_state outcome error_code
        (set_proposals rows (db\<lparr>jd_open_events := []\<rparr>)) = (Inr u, m)"
  shows "tracked q (S - {to_state}) mid \<and> recorded q to_state outcome error_code mid"
proof -
  let ?db = "set_proposals rows (db\<lparr>jd_open_events := []\<rparr>)"
  have inv: "journal_inv ?db" and dist: "distinct (map lr_command_id (ledger_of db))"
    and new: "\<And>s. s \<in> S \<Longrightarrow> \<not> journal_has db (command_event_id (cq_command_id q) s)"
    using tr by (simp_all add: tracked_def)
  from inv run obtain row where t: "transition_in_tx (cq_command_id q) from_state to_state outcome error_code
      (ru_ledger_clock run at_time) (ledger_of ?db) = Some (row, ledger_of m)"
    by (rule proposal_and_command_ok)
  have "\<not> journal_has mid (command_event_id (cq_command_id q) s)" if "s \<in> S - {to_state}" for s
    using has_proposal_and_command [OF inv run, of "command_event_id (cq_command_id q) s"] that new [of s]
    by (auto simp: has_cong [OF prod(2)])
  moreover have "ledger_of mid = ledger_of m" using prod(1) by (simp add: ledger_of_def)
  ultimately show ?thesis
    using inv' dist transition_hit [OF _ t] by (simp add: tracked_def recorded_def)
qed

lemma fail_recorded:
  assumes "tracked q S db" and run: "mutate_batch_work (fail_work run q claimed reason code) db = (Inr u, mid)"
  shows "recorded q Rejected None (Some code) mid"
proof -
  have inv: "journal_inv db" using assms(1) by (simp add: tracked_def)
  have inv': "journal_inv mid" using fail_mark.batch_work_inv [OF inv run] .
  from run obtain m where w: "fail_work run q claimed reason code (db\<lparr>jd_open_events := []\<rparr>) = (Inr u, m)"
    and prod: "jd_prod mid = jd_prod m" "jd_rows mid = jd_rows m" by (rule batch_work_prod) auto
  then obtain row rows where "proposal_and_command run AtFailEvent q row Submitting Rejected None (Some code)
      (set_proposals rows (db\<lparr>jd_open_events := []\<rparr>)) = (Inr u, m)"
    by (auto simp: fail_work_def split: prod.splits option.splits)
  from unit_recorded [OF assms(1) inv' prod this] show ?thesis by blast
qed

lemma finish_recorded:
  assumes "tracked q S db" and run: "mutate_batch_work (finish_work run q claimed order_ids outcome) db = (Inr u, mid)"
  shows "recorded q Submitted (Some outcome) None mid"
proof -
  have inv: "journal_inv db" using assms(1) by (simp add: tracked_def)
  have inv': "journal_inv mid" using finish.batch_work_inv [OF inv run] .
  from run obtain m where w: "finish_work run q claimed order_ids outcome (db\<lparr>jd_open_events := []\<rparr>) = (Inr u, m)"
    and prod: "jd_prod mid = jd_prod m" "jd_rows mid = jd_rows m" by (rule batch_work_prod) auto
  then obtain row rows where "proposal_and_command run AtFinishEvent q row Submitting Submitted (Some outcome) None
      (set_proposals rows (db\<lparr>jd_open_events := []\<rparr>)) = (Inr u, m)"
    by (auto simp: finish_work_def split: prod.splits option.splits)
  from unit_recorded [OF assms(1) inv' prod this] show ?thesis by blast
qed

lemma claim_tracked:
  assumes tr: "tracked q S db" and run: "mutate_batch_work (claim_work svc run q rec direction) db = (Inr c, mid)"
  shows "tracked q (S - {Submitting}) mid"
proof -
  have inv: "journal_inv db" using tr by (simp add: tracked_def)
  have inv': "journal_inv mid" using claim.batch_work_inv [OF inv run] .
  from run obtain m where w: "claim_work svc run q rec direction (db\<lparr>jd_open_events := []\<rparr>) = (Inr c, m)"
    and prod: "jd_prod mid = jd_prod m" "jd_rows mid = jd_rows m" by (rule batch_work_prod) auto
  from w show ?thesis
  proof (cases rule: claim_work_cases)
    case (claimed outcome rows r res')
    then have "res' = Inr ()" by (cases res') simp_all
    with claimed(5) have "proposal_and_command run AtSubmittingEvent q (r\<lparr>pr_order_group_id := Some (order_group_of q)\<rparr>)
        Validated Submitting None None (set_proposals (link_order_group_in_tx (pr_id rec) (order_group_of q) rows)
          (db\<lparr>jd_open_events := []\<rparr>)) = (Inr (), m)" by simp
    from unit_recorded [OF tr inv' prod this] show ?thesis by blast
  next
    case (expired outcome rows r res')
    then obtain ev where ap: "append_proposal run AtSubmittingEvent q r
        (set_proposals rows (db\<lparr>jd_open_events := []\<rparr>)) = (Inr ev, m)" by (cases res') simp_all
    have base: "journal_inv (set_proposals rows (db\<lparr>jd_open_events := []\<rparr>))" using inv by simp
    have "jd_prod m = jd_prod (set_proposals rows (db\<lparr>jd_open_events := []\<rparr>))"
      by (rule append_keeps_prod [OF base ap [unfolded append_proposal_def]])
        (simp add: assert_proposal_revision_def split: if_splits)
    then have "ledger_of mid = ledger_of db" using prod(1) by (simp add: ledger_of_def set_proposals_def)
    moreover have "\<not> journal_has mid (command_event_id (cq_command_id q) s)" if "s \<in> S" for s
      using has_append [OF base ap [unfolded append_proposal_def], of "command_event_id (cq_command_id q) s"]
        that tr by (auto simp: tracked_def has_cong [OF prod(2)])
    ultimately show ?thesis using inv' tr by (simp add: tracked_def)
  qed (simp_all split: sum.splits)
qed

lemma publish_tracked:
  assumes q: "quiet_about q run" and tr: "tracked q S db"
    and run: "publish_decision saga_risk_slot account_id (ru_publish run b) command_id payload corr db = (res, db')"
  shows "tracked q S db'"
proof -
  have inv: "journal_inv db" using tr by (simp add: tracked_def)
  note keeps = publish_keeps [OF inv run]
  have has: "journal_has db x \<or> x = pb_uuid (ru_publish run b)" if "journal_has db' x" for x
  proof -
    from run [unfolded publish_decision_def] show ?thesis
    proof (cases rule: batch_work_prod)
      case (rolled_back e)
      then show ?thesis using that by (simp add: journal_has_def)
    next
      case (committed r mid)
      have base: "journal_inv (db\<lparr>jd_open_events := []\<rparr>)" using inv by simp
      have "journal_has (db\<lparr>jd_open_events := []\<rparr>) x \<or> x = pb_uuid (ru_publish run b)"
        if "risk_append_write saga_risk_slot account_id (ru_publish run b) rid kind payload c'
            (db\<lparr>jd_open_events := []\<rparr>) = (Inr r, mid)" for rid kind c'
        using base that
        by (cases rule: risk_append_cases) (use \<open>journal_has db' x\<close> committed(4) in \<open>auto simp: journal_has_def\<close>)
      then show ?thesis
        using committed(2,4) that by (auto simp: publish_decision_work_def journal_has_def split: option.splits if_splits)
    qed
  qed
  have "\<not> journal_has db' (command_event_id (cq_command_id q) s)" if "s \<in> S" for s
  proof
    assume "journal_has db' (command_event_id (cq_command_id q) s)"
    from has [OF this] show False
    proof
      assume "command_event_id (cq_command_id q) s = pb_uuid (ru_publish run b)"
      then show False using q by (metis quiet_about_def)
    qed (use tr that in \<open>simp add: tracked_def\<close>)
  qed
  then show ?thesis using tr keeps by (simp add: tracked_def)
qed

text \<open>What a returned receipt claims, and that the ledger says the same.\<close>

definition receipt_true :: "command_request \<Rightarrow> command_receipt \<Rightarrow> saga_effects \<Rightarrow> saga_db \<Rightarrow> bool" where
  "receipt_true q r fx db \<longleftrightarrow>
     rc_command_id r = cq_command_id q \<and> recorded q (rc_state r) (rc_outcome r) (rc_error_code r) db
     \<and> rc_state r \<in> {Rejected, Submitted, OutcomeUnknown}
     \<and> (rc_state r \<noteq> Rejected \<longrightarrow> fx_sent fx \<noteq> []) \<and> (fx_sent fx \<noteq> [] \<longrightarrow> \<not> rc_retryable r)
     \<and> (rc_state r = OutcomeUnknown \<longleftrightarrow> fx_scheduled fx \<noteq> [])
     \<and> set (fx_scheduled fx) \<subseteq> {cq_command_id q} \<times> UNIV"

lemma refuse_true:
  assumes "tracked q S db" and "Rejected \<in> S" and "refuse run q from_state code retryable db = (Inr r, fx, db')"
  shows "receipt_true q r fx db'"
  using refuse_recorded [OF assms] by (simp add: receipt_true_def receipt_def no_effects_def)

lemma fail_claimed_true:
  assumes "quiet_about q run" and "tracked q S db"
    and "fail_claimed run q claimed reason code retryable sent db = (Inr r, fx, db')"
    and "fx_scheduled sent = []" and "fx_sent sent \<noteq> [] \<longrightarrow> \<not> retryable"
  shows "receipt_true q r fx db'"
  using assms(3-5) fail_recorded [OF gap_tracked [OF assms(1,2), of GapFail]]
  by (auto simp: fail_claimed_def receipt_true_def receipt_def split: prod.splits sum.splits)

lemma park_true:
  assumes "quiet_about q run" and "tracked q S db" and "OutcomeUnknown \<in> S"
    and "park_unknown run q outcome sent db = (Inr r, fx, db')" and "fx_sent sent \<noteq> []" and "fx_scheduled sent = []"
  shows "receipt_true q r fx db'"
  using park_recorded [OF assms(1-4)] assms(5,6) by (simp add: receipt_true_def receipt_def)

lemma submit_true:
  assumes quiet: "quiet_about q run" and tr: "tracked q S db" and mem: "OutcomeUnknown \<in> S"
    and run: "submit_orders run q claimed db = (Inr r, fx, db')"
  shows "receipt_true q r fx db'"
proof (cases "ru_submit run claimed (encode_order_ref (order_group_of q)) (order_group_of q)")
  case (BrokerRejected reason)
  then have "fail_claimed run q claimed reason ''BROKER_REJECTED'' False
      (no_effects\<lparr>fx_sent := [(claimed, encode_order_ref (order_group_of q))]\<rparr>) db = (Inr r, fx, db')"
    using run by (simp add: submit_orders_def Let_def)
  then show ?thesis by (rule fail_claimed_true [OF quiet tr]) (simp_all add: no_effects_def)
next
  case SubmitRaised
  then have "park_unknown run q None
      (no_effects\<lparr>fx_sent := [(claimed, encode_order_ref (order_group_of q))]\<rparr>) db = (Inr r, fx, db')"
    using run by (simp add: submit_orders_def Let_def)
  then show ?thesis by (rule park_true [OF quiet tr mem]) (simp_all add: no_effects_def)
next
  case (OrdersSubmitted order_ids)
  define outcome where "outcome = [(''order_ids'', JList (map JInt order_ids)), (''order_group_id'', JStr (order_group_of q))]"
  obtain w mid where work: "mutate_batch_work (finish_work run q claimed order_ids outcome) (ru_gap run GapFinish db) = (w, mid)"
    by fastforce
  note tr' = gap_tracked [OF quiet tr, of GapFinish]
  show ?thesis
  proof (cases w)
    case (Inl e)
    have "tracked q S mid" using rolled_back_tracked [OF keeps_finish tr'] work Inl by blast
    moreover have "park_unknown run q (Some outcome)
        (no_effects\<lparr>fx_sent := [(claimed, encode_order_ref (order_group_of q))]\<rparr>) mid = (Inr r, fx, db')"
      using run OrdersSubmitted work Inl by (simp add: submit_orders_def Let_def outcome_def)
    ultimately show ?thesis by (rule park_true [OF quiet _ mem]) (simp_all add: no_effects_def)
  next
    case (Inr u)
    have "r = receipt (cq_command_id q) Submitted None False (Some outcome)" and "db' = mid"
      and "fx = no_effects\<lparr>fx_sent := [(claimed, encode_order_ref (order_group_of q))]\<rparr>"
      using run OrdersSubmitted work Inr by (simp_all add: submit_orders_def Let_def outcome_def)
    then show ?thesis
      using finish_recorded [OF tr' work [unfolded Inr]] by (simp add: receipt_true_def receipt_def no_effects_def)
  qed
qed

lemma dispatch_true:
  assumes quiet: "quiet_about q run" and tr: "tracked q S db" and mem: "OutcomeUnknown \<in> S"
    and run: "dispatch svc run q cx claimed db = (Inr r, fx, db')"
  shows "receipt_true q r fx db'"
proof (cases "sv_has_dispatch_guard svc \<and> cx \<noteq> None")
  case False
  then show ?thesis
    using run by (intro submit_true [OF quiet tr mem]) (auto simp: dispatch_def split: bool.splits option.splits)
next
  case True
  then obtain c where c: "cx = Some c" and g: "sv_has_dispatch_guard svc" by auto
  have pub: "tracked q S mid" if "publish_dispatch_decision svc run q decision db = (res, mid)" for decision res mid
    using publish_tracked [OF quiet gap_tracked [OF quiet tr]] that by (simp add: publish_dispatch_decision_def)
  show ?thesis
  proof (cases "ru_revalidate run True c q (now_utc run AtDispatchGuard)")
    case (Inr permit)
    then obtain mid x where p: "publish_dispatch_decision svc run q (permit_decision claimed permit) db = (Inr x, mid)"
      and s: "submit_orders run q claimed mid = (Inr r, fx, db')"
      using run c g by (auto simp: dispatch_def split: prod.splits sum.splits)
    show ?thesis by (rule submit_true [OF quiet pub [OF p] mem s])
  next
    case (Inl stop)
    then obtain code retryable mid x where
        p: "publish_dispatch_decision svc run q (reject_decision code (pr_id claimed)) db = (Inr x, mid)"
      and s: "fail_claimed run q claimed (''pre-dispatch validation: '' @ code) code retryable no_effects mid = (Inr r, fx, db')"
      using run c g by (auto simp: dispatch_def split: prod.splits sum.splits guard_stop.splits)
    show ?thesis by (rule fail_claimed_true [OF quiet pub [OF p] s]) (simp_all add: no_effects_def)
  qed
qed

lemma claim_and_dispatch_true:
  assumes quiet: "quiet_about q run" and tr: "tracked q S db" and mem: "Rejected \<in> S" "OutcomeUnknown \<in> S"
    and run: "claim_and_dispatch svc run q v rec db = (Inr r, fx, db')"
  shows "receipt_true q r fx db'"
proof -
  obtain w mid where work: "mutate_batch_work (claim_work svc run q rec (opt_or REDUCING (vd_direction v))) db = (w, mid)"
    by fastforce
  have refused: "receipt_true q r fx db'"
    if "tracked q T mid" "Rejected \<in> T" "refuse run q Validated code retryable (ru_gap run GapRefused mid) = (Inr r, fx, db')"
    for T code retryable
    using refuse_true [OF gap_tracked [OF quiet that(1)] that(2,3)] .
  show ?thesis
  proof (cases w)
    case (Inr claimed)
    have tr': "tracked q (S - {Submitting}) mid" using claim_tracked [OF tr] work Inr by blast
    show ?thesis
    proof (cases claimed)
      case None
      then show ?thesis using run work Inr by (intro refused [OF tr']) (use mem in \<open>auto simp: claim_and_dispatch_def\<close>)
    next
      case (Some linked)
      then show ?thesis
        using run work Inr by (intro dispatch_true [OF quiet tr']) (use mem in \<open>auto simp: claim_and_dispatch_def\<close>)
    qed
  next
    case (Inl e)
    have tr': "tracked q S mid" using rolled_back_tracked [OF keeps_claim tr] work Inl by blast
    show ?thesis
      using run work Inl refused [OF tr' mem(1)]
      by (auto simp: claim_and_dispatch_def split: journal_error.splits claim_error.splits control_error.splits)
  qed
qed

text \<open>
  C3. A receipt of the approval saga tells the truth. Whenever the saga returns a receipt, the
  ledger holds the command in exactly the state, with the outcome and the error code that the
  receipt reports; the state is rejected, submitted or unknown; submitted and unknown are reported
  only when an order was handed to the broker, an order that may exist is never reported as
  retryable, and a command is handed to the reconciler exactly when its outcome is unknown.
\<close>

theorem approve_receipt_true:
  assumes quiet: "quiet_about q run" and tr: "tracked q (- {Received}) db"
    and run: "approve svc run q db = (Inr r, fx, db')"
  shows "receipt_true q r fx db'"
proof -
  obtain i v where after: "after_validation svc run q v (proposal_get (proposals_of db) i) (ru_gap run GapInflight db)
      = (Inr r, fx, db')"
    using run unfolding approve_def by (auto simp: Let_def split: sum.splits)
  obtain pres db2 where pub: "publish_decision saga_risk_slot (sv_account_id svc) (ru_publish run False)
      (cq_command_id q) (context_decision v) (Some (cq_command_id q))
      (ru_gap run GapDecision (ru_gap run GapInflight db)) = (pres, db2)" by fastforce
  have tr2: "tracked q (- {Received}) (ru_gap run GapFirstTransition db2)"
    using publish_tracked [OF quiet gap_tracked [OF quiet gap_tracked [OF quiet tr]] pub]
    by (rule gap_tracked [OF quiet])
  show ?thesis
  proof (cases "vd_problem v")
    case (Some problem)
    then show ?thesis
      using after pub by (intro refuse_true [OF tr2]) (auto simp: after_validation_def split: sum.splits)
  next
    case None
    then obtain rec where rec: "proposal_get (proposals_of db) i = Some rec"
      using after pub by (auto simp: after_validation_def split: sum.splits option.splits)
    obtain tres db3 where t: "transition_command run AtValidated q Received Validated None None
        (ru_gap run GapFirstTransition db2) = (tres, db3)" by fastforce
    have tres: "tres = Inr ()" and cd: "claim_and_dispatch svc run q v rec (ru_gap run GapClaim db3) = (Inr r, fx, db')"
      using after pub None rec t by (auto simp: after_validation_def split: sum.splits)
    have "tracked q (- {Received} - {Validated}) db3"
      using transition_tracked [OF tr2 _ t [unfolded tres]] by simp
    from claim_and_dispatch_true [OF quiet gap_tracked [OF quiet this] _ _ cd] show ?thesis by simp
  qed
qed

section \<open>A concrete approval\<close>

definition demo_approval :: command_request where
  "demo_approval = demo_command\<lparr>cq_body := [(''proposal_id'', JInt 7)]\<rparr>"

definition demo_saga_tables :: "trading_tables command_tables" where
  "demo_saga_tables =
     \<lparr>ct_ledger = [received_row demo_approval ''h'' 0], ct_audit = [], ct_next_audit = 1, ct_nonces = [],
      ct_written = None,
      ct_world = \<lparr>tt_proposals = demo_rows,
        tt_controls = [\<lparr>tc_account_id = ''DU1'', tc_new_exposure_paused = False, tc_revision = 1, tc_updated_at = 0,
          tc_updated_by_command_id = ''system:bootstrap'', tc_updated_reason = []\<rparr>],
        tt_risk = [], tt_sent = [], tt_scheduled = [], tt_cancelled = []\<rparr>\<rparr>"

text \<open>The proposal was journaled when it was created.\<close>

definition demo_saga_db :: saga_db where
  "demo_saga_db = snd (mutate
     \<lparr>bi_received_ts = 0, bi_uuid = [], bi_mutation = proposal_mutation_for (hd demo_rows) None,
      bi_write = (\<lambda>p _. Inr p :: unit + trading_tables command_tables),
      bi_event_id = Some (proposal_event_id 7 1)\<rparr> (empty_journal demo_saga_tables))"

definition demo_service_config :: approval_service where
  "demo_service_config = \<lparr>sv_account_id = ''DU1'', sv_account_mode = ''paper'',
     sv_outside_session_limit_enabled = False, sv_has_dispatch_guard = True,
     sv_paper_max_quote_age_seconds = None, sv_rnd = Fin\<rparr>"

definition demo_approval_run :: approval_run where
  "demo_approval_run =
     \<lparr>ru_clock = (\<lambda>_. Aware 10), ru_ledger_clock = (\<lambda>_. 10), ru_journaled = (\<lambda>_. 11),
      ru_publish = (\<lambda>b. \<lparr>pb_clock = Aware 10, pb_journaled = 11, pb_uuid = (if b then ''u2'' else ''u1'')\<rparr>),
      ru_gap = (\<lambda>_ d. d), ru_capture = (\<lambda>_. Captured demo_snapshot), ru_risk = (\<lambda>_ _ _ _ _. Some True),
      ru_quote = (\<lambda>_ _. Some (Some demo_quote)),
      ru_revalidate = (\<lambda>_ _ _ _. Inr \<lparr>dp_generation_id = 1, dp_source_cursor = 0, dp_quote_timestamp = None,
        dp_what_if_timestamp = None, dp_warnings = []\<rparr>),
      ru_submit = (\<lambda>_ _ _. OrdersSubmitted [101, 102])\<rparr>"

lemma demo_saga_inv: "saga_inv demo_saga_db"
proof -
  have "journal_inv demo_saga_db"
    unfolding demo_saga_db_def by (rule mutate_inv [OF _ surjective_pairing]) simp
  moreover have "ids_distinct (proposals_of demo_saga_db)" by code_simp
  ultimately show ?thesis by (simp add: saga_inv_def)
qed

lemma demo_others: "others_behave demo_approval_run"
  by (simp add: others_behave_def demo_approval_run_def)

definition demo_answer :: saga_answer where
  "demo_answer = approve demo_service_config demo_approval_run demo_approval demo_saga_db"

lemma demo_approved:
  "fst demo_answer = Inr (receipt ''c1'' Submitted None False
     (Some [(''order_ids'', JList [JInt 101, JInt 102]), (''order_group_id'', JStr ''og-c1'')]))"
  "map snd (fx_sent (fst (snd demo_answer))) = [''mmr:og-c1'']"
  by code_simp+

theorem approve_sends_only_claimed_witness:
  "\<exists>linked. fx_sent (fst (snd demo_answer)) = [(linked, encode_order_ref (order_group_of demo_approval))]
     \<and> pr_status linked = APPROVED \<and> saga_inv demo_saga_db \<and> others_behave demo_approval_run"
proof -
  have run: "approve demo_service_config demo_approval_run demo_approval demo_saga_db
      = (fst demo_answer, fst (snd demo_answer), snd (snd demo_answer))" by (simp add: demo_answer_def)
  have "fx_sent (fst (snd demo_answer)) \<noteq> []" using demo_approved(2) by auto
  from approve_sends_only_claimed [OF demo_saga_inv demo_others run this] demo_saga_inv demo_others
  show ?thesis by blast
qed

theorem approve_receipt_true_witness:
  "receipt_true demo_approval (receipt ''c1'' Submitted None False
     (Some [(''order_ids'', JList [JInt 101, JInt 102]), (''order_group_id'', JStr ''og-c1'')]))
     (fst (snd demo_answer)) (snd (snd demo_answer))"
proof -
  have run: "approve demo_service_config demo_approval_run demo_approval demo_saga_db
      = (Inr (receipt ''c1'' Submitted None False
          (Some [(''order_ids'', JList [JInt 101, JInt 102]), (''order_group_id'', JStr ''og-c1'')])),
         fst (snd demo_answer), snd (snd demo_answer))"
    using demo_approved(1) by (metis demo_answer_def prod.collapse)
  have quiet: "quiet_about demo_approval demo_approval_run"
    by (simp add: quiet_about_def demo_approval_run_def command_event_id_def)
  have "map jr_event_id (jd_rows demo_saga_db) = [proposal_event_id 7 1]" by code_simp
  then have "\<not> journal_has demo_saga_db (command_event_id c s)" for c s
    by (auto simp: journal_has_def)
  moreover have "distinct (map lr_command_id (ledger_of demo_saga_db))" by code_simp
  ultimately have "tracked demo_approval (- {Received}) demo_saga_db"
    using demo_saga_inv by (simp add: tracked_def saga_inv_def)
  from approve_receipt_true [OF quiet this run] show ?thesis .
qed

text \<open>The command after its validation, and the two calls that claim the proposal one after the other.\<close>

definition demo_validated :: saga_db where
  "demo_validated = snd (transition_command demo_approval_run AtValidated demo_approval Received Validated None None demo_saga_db)"

definition demo_verdict :: verdict where
  "demo_verdict = \<lparr>vd_problem = None, vd_direction = Some INCREASING, vd_decision = [], vd_context = None\<rparr>"

definition demo_unguarded :: approval_service where
  "demo_unguarded = demo_service_config\<lparr>sv_has_dispatch_guard := False\<rparr>"

definition demo_claim ::
    "command_request \<Rightarrow> saga_db \<Rightarrow> (claim_error journal_error + proposal_record option) \<times> saga_db" where
  "demo_claim q = mutate_batch_work (claim_work demo_unguarded demo_approval_run q (hd demo_rows)
     (opt_or REDUCING (vd_direction demo_verdict)))"

lemma demo_claim_inv: "saga_inv demo_validated" "saga_inv (snd (demo_claim demo_approval demo_validated))"
proof -
  have inv: "journal_inv demo_saga_db" using demo_saga_inv by (simp add: saga_inv_def)
  have "journal_inv demo_validated"
    using transition_keeps [OF inv surjective_pairing] unfolding demo_validated_def by blast
  moreover from this have "journal_inv (snd (demo_claim demo_approval demo_validated))"
    unfolding demo_claim_def by (rule claim.batch_work_inv [OF _ surjective_pairing])
  moreover have "ids_distinct (proposals_of demo_validated)" by code_simp
  moreover have "ids_distinct (proposals_of (snd (demo_claim demo_approval demo_validated)))" by code_simp
  ultimately show "saga_inv demo_validated" "saga_inv (snd (demo_claim demo_approval demo_validated))"
    by (simp_all add: saga_inv_def)
qed

theorem approvals_never_both_send_witness:
  "fx_sent (fst (snd (claim_and_dispatch demo_unguarded demo_approval_run demo_approval demo_verdict (hd demo_rows)
       demo_validated))) \<noteq> []
   \<and> fx_sent (fst (snd (claim_and_dispatch demo_unguarded demo_approval_run (demo_approval\<lparr>cq_command_id := ''c2''\<rparr>)
       demo_verdict (hd demo_rows) (snd (demo_claim demo_approval demo_validated))))) = []"
proof -
  let ?first = "claim_and_dispatch demo_unguarded demo_approval_run demo_approval demo_verdict (hd demo_rows) demo_validated"
  let ?second = "claim_and_dispatch demo_unguarded demo_approval_run (demo_approval\<lparr>cq_command_id := ''c2''\<rparr>)
       demo_verdict (hd demo_rows) (snd (demo_claim demo_approval demo_validated))"
  have first: "?first = (fst ?first, fst (snd ?first), snd (snd ?first))"
    and second: "?second = (fst ?second, fst (snd ?second), snd (snd ?second))" by simp_all
  have claim: "mutate_batch_work (claim_work demo_unguarded demo_approval_run demo_approval (hd demo_rows)
      (opt_or REDUCING (vd_direction demo_verdict))) demo_validated
      = (fst (demo_claim demo_approval demo_validated), snd (demo_claim demo_approval demo_validated))"
    by (simp add: demo_claim_def)
  have "map snd (fx_sent (fst (snd ?first))) = [''mmr:og-c1'']" by code_simp
  then have sent: "fx_sent (fst (snd ?first)) \<noteq> []" by auto
  from approvals_never_both_send
      [OF demo_claim_inv(1) first sent claim rtranclp.rtrancl_refl demo_claim_inv(2) refl second] sent
  show ?thesis by blast
qed


text \<open>The same approval with the paper account's dispatch guard.\<close>

definition demo_paper_guard :: dispatch_guard where
  "demo_paper_guard = demo_guard\<lparr>dg_account_id := ''DU1'', dg_account_mode := ''paper''\<rparr>"

definition demo_paper_run :: guard_run where
  "demo_paper_run = demo_guard_run\<lparr>gr_capture := (\<lambda>_. Captured demo_snapshot), gr_quote := (\<lambda>_ _. Some (Some demo_quote))\<rparr>"

definition demo_guarded_run :: approval_run where
  "demo_guarded_run = demo_approval_run\<lparr>ru_revalidate := (\<lambda>_. revalidate demo_paper_guard demo_paper_run)\<rparr>"

definition demo_guarded :: saga_answer where
  "demo_guarded = approve demo_service_config demo_guarded_run demo_approval demo_saga_db"

lemma demo_guarded_sends: "map snd (fx_sent (fst (snd demo_guarded))) = [''mmr:og-c1'']"
  by code_simp

theorem guarded_approval_permitted_witness:
  "\<exists>cx permit. revalidate demo_paper_guard demo_paper_run cx demo_approval 10 = Inr permit
     \<and> broker_unchanged demo_paper_guard cx demo_snapshot"
proof -
  have run: "approve demo_service_config demo_guarded_run demo_approval demo_saga_db
      = (fst demo_guarded, fst (snd demo_guarded), snd (snd demo_guarded))" by (simp add: demo_guarded_def)
  have sent: "fx_sent (fst (snd demo_guarded)) \<noteq> []" using demo_guarded_sends by auto
  have others: "others_behave demo_guarded_run" by (simp add: others_behave_def demo_guarded_run_def demo_approval_run_def)
  have guard: "ru_revalidate demo_guarded_run True = revalidate demo_paper_guard demo_paper_run"
    by (simp add: demo_guarded_run_def)
  have has: "sv_has_dispatch_guard demo_service_config" by (simp add: demo_service_config_def)
  have now: "now_utc demo_guarded_run AtDispatchGuard = 10" "gr_capture demo_paper_run a = Captured demo_snapshot" for a
    by (simp_all add: now_utc_def demo_guarded_run_def demo_approval_run_def demo_paper_run_def)
  from guarded_approval_permitted [OF demo_saga_inv others has guard run sent, unfolded now]
  show ?thesis by (elim exE conjE) auto
qed
end
