(* ===== verification/Outcome_Reconciler.thy ===== *)
theory Outcome_Reconciler
  imports Approval_Saga
begin

text \<open>
  \<open>OutcomeReconciler\<close> of \<^verbatim>\<open>src/trader/trading/command_coordinator.py\<close>: the only component that settles a
  command whose effect is in doubt. It never sends anything. For each kind of command it reads the
  authority that can prove the outcome (broker orders, the journal, the pause row, child commands, a
  close root, the strategy service's receipt), and a command it cannot prove stays as it is: after
  fifteen minutes an operator is alerted, once.

  The authorities are functions of the record \<open>reconcile_ports\<close>: what each answers during one attempt.
  An outer \<open>None\<close> is an exception. \<open>po_gap\<close> is what other threads commit between the read of the
  command's row, the read of its evidence and the transaction that settles it. The sets of command
  ids the class keeps only decide what is logged once; they are left out.
\<close>

section \<open>Evidence\<close>

text \<open>What \<open>getattr\<close> finds on an order of \<open>find_by_order_ref\<close>.\<close>

record found_order =
  fo_leg :: "string option"
  fo_status :: "string option"
  fo_filled_quantity :: "pyfloat option"
  fo_order_ids :: "int list option"

text \<open>\<open>BrokerOrderRow\<close>, the class the trading runtime returns, has no attribute \<open>order_ids\<close>.\<close>

definition found_of_row :: "order_row \<Rightarrow> found_order" where
  "found_of_row r = \<lparr>fo_leg = bo_leg r, fo_status = Some (bo_status r), fo_filled_quantity = Some (bo_filled_quantity r),
     fo_order_ids = None\<rparr>"

definition active_order_statuses :: "string list" where
  "active_order_statuses = [''PendingSubmit'', ''ApiPending'', ''PreSubmitted'', ''Submitted'', ''PendingCancel'']"

definition known_terminal_order_statuses :: "string list" where
  "known_terminal_order_statuses = [''Filled'', ''Cancelled'', ''ApiCancelled'', ''Inactive'']"

definition broker_accepted_order_statuses :: "string list" where
  "broker_accepted_order_statuses = [''Submitted'', ''PreSubmitted'']"

definition status_in :: "found_order \<Rightarrow> string list \<Rightarrow> bool" where
  "status_in order statuses \<longleftrightarrow> (case fo_status order of None \<Rightarrow> False | Some s \<Rightarrow> s \<in> set statuses)"

definition has_fill :: "found_order \<Rightarrow> bool" where
  "has_fill order \<longleftrightarrow> flt_less (Fin 0) (opt_or (Fin 0) (fo_filled_quantity order))"

definition entry_accepted :: "found_order list \<Rightarrow> bool" where
  "entry_accepted entries \<longleftrightarrow>
     (\<exists>order \<in> set entries. status_in order broker_accepted_order_statuses \<or> fo_status order = Some ''Filled'' \<or> has_fill order)"

definition is_terminal_order :: "order_row \<Rightarrow> bool" where
  "is_terminal_order order \<longleftrightarrow> bo_deleted order \<or> bo_status order \<notin> set active_order_statuses"

record close_resolution =
  cr_root_id :: string
  cr_state :: string
  cr_success :: bool
  cr_outcome :: jobject
  cr_error_code :: "string option"

text \<open>The resolution may be read twice in one attempt: \<open>True\<close> is the second read.\<close>

record close_port =
  cl_root_for :: "string \<Rightarrow> string option option"
  cl_resolution :: "bool \<Rightarrow> string \<Rightarrow> close_resolution option option"

record strategy_receipt =
  st_strategy_name :: string
  st_action :: string
  st_state :: string
  st_control_revision :: int
  st_state_revision :: int
  st_error :: "string option"
  st_observable_state :: "string option"
  st_observable_payload :: "jobject option"

datatype reconcile_gap = BeforeEvidence | BeforeSettle

type_synonym commit_evidence = "string \<Rightarrow> jobject option option"

record reconcile_ports =
  po_find :: "string option \<Rightarrow> string \<Rightarrow> found_order list option"
  po_enumeration_complete :: "bool option"
  po_strategy :: "string \<Rightarrow> strategy_receipt option option"
  po_has_repo :: bool
  po_orders_view :: "(string \<Rightarrow> order_row option option) option"
  po_closes :: "close_port option"
  po_saga_row :: "string \<Rightarrow> bool option"
  po_registrations :: "commit_evidence option"
  po_withdrawals :: "commit_evidence option"
  po_policies :: "commit_evidence option"
  po_breaker_resets :: "commit_evidence option"
  po_experiments :: "(string \<Rightarrow> commit_evidence) option"
  po_reads_ok :: bool
  po_gap :: "reconcile_gap \<Rightarrow> saga_db \<Rightarrow> saga_db"
  po_journaled :: instant
  po_now :: instant

section \<open>Plans\<close>

record reconcile_plan =
  pl_started :: instant
  pl_next_due :: instant
  pl_attempt :: nat
  pl_alerted :: bool

record reconciler =
  rs_plans :: "(string \<times> reconcile_plan) list"
  rs_alerts :: "(string \<times> string) list"
  rs_received_at_start :: "ledger_row list"

definition reconcile_delays :: "int list" where
  "reconcile_delays = 0 # replicate 12 5 @ replicate 28 30"

fun accumulate :: "int \<Rightarrow> int list \<Rightarrow> int list" where
  "accumulate s [] = []"
| "accumulate s (d # ds) = (s + d) # accumulate (s + d) ds"

definition reconcile_offsets :: "int list" where
  "reconcile_offsets = accumulate 0 reconcile_delays"

definition critical_after_seconds :: int where
  "critical_after_seconds = 900"

definition drop_plan :: "string \<Rightarrow> reconciler \<Rightarrow> reconciler" where
  "drop_plan command_id st = st\<lparr>rs_plans := filter (\<lambda>p. fst p \<noteq> command_id) (rs_plans st)\<rparr>"

definition put_plan :: "string \<Rightarrow> reconcile_plan \<Rightarrow> reconciler \<Rightarrow> reconciler" where
  "put_plan command_id plan st = st\<lparr>rs_plans := AList.update command_id plan (rs_plans st)\<rparr>"

definition plan_of :: "reconciler \<Rightarrow> string \<Rightarrow> reconcile_plan option" where
  "plan_of st command_id = map_of (rs_plans st) command_id"

definition new_plan :: "instant \<Rightarrow> reconcile_plan" where
  "new_plan started = \<lparr>pl_started = started, pl_next_due = started, pl_attempt = 0, pl_alerted = False\<rparr>"

definition schedule :: "string \<Rightarrow> instant \<Rightarrow> reconciler \<Rightarrow> reconciler" where
  "schedule command_id now st = (if plan_of st command_id \<noteq> None then st else put_plan command_id (new_plan now) st)"

section \<open>What the evidence decides\<close>

datatype recon_error = PortRaised | BadProposalNumber | SettleRaised "claim_error journal_error"

text \<open>
  The outcome of one \<open>_reconcile_*\<close> method: nothing is proven; the row alone is settled
  (\<open>_resolve_command_only\<close>, \<open>_reject_command_only\<close>); a failed close is rejected with an alert; or one of the
  settlements that write more than the row.
\<close>

datatype settlement =
    Unproven
  | SettleRow command_state jobject "string option"
  | RejectAndAlert jobject string string
  | ResolveOrder "int list" "int option"
  | NeverSubmitted "int option"
  | ResolveStrategy strategy_receipt

type_synonym verdict_of_evidence = "recon_error + settlement"

definition ask :: "'a option \<Rightarrow> ('a \<Rightarrow> verdict_of_evidence) \<Rightarrow> verdict_of_evidence" where
  "ask answer k = (case answer of None \<Rightarrow> Inl PortRaised | Some a \<Rightarrow> k a)"

definition group_ref_of :: "ledger_row \<Rightarrow> string" where
  "group_ref_of row = encode_order_ref (''og-'' @ lr_command_id row)"

definition associated_proposal_id :: "ledger_row \<Rightarrow> recon_error + int option" where
  "associated_proposal_id row =
     (case jget (opt_or [] (lr_outcome row)) ''proposal_id'' of
        Some v \<Rightarrow>
          if v \<noteq> JNull then (case py_int v of None \<Rightarrow> Inl BadProposalNumber | Some i \<Rightarrow> Inr (Some i))
          else Inr (if lr_target_type row = ''proposal'' \<and> lr_target_id row \<noteq> [] then int_of_string (lr_target_id row) else None)
      | None \<Rightarrow>
          Inr (if lr_target_type row = ''proposal'' \<and> lr_target_id row \<noteq> [] then int_of_string (lr_target_id row) else None))"

definition collect_order_ids :: "found_order list \<Rightarrow> int list" where
  "collect_order_ids found = concat (map (\<lambda>item. opt_or [] (fo_order_ids item)) found)"

definition reconcile_approve :: "reconcile_ports \<Rightarrow> ledger_row \<Rightarrow> verdict_of_evidence" where
  "reconcile_approve po row =
     ask (po_find po (lr_account_id row) (group_ref_of row)) (\<lambda>found.
       if found \<noteq> [] then map_sum id (ResolveOrder (collect_order_ids found)) (associated_proposal_id row)
       else ask (po_enumeration_complete po) (\<lambda>complete.
         if complete then map_sum id NeverSubmitted (associated_proposal_id row) else Inr Unproven))"

definition settle_from_own_commit ::
    "ledger_row \<Rightarrow> commit_evidence option \<Rightarrow> string \<Rightarrow> jobject \<Rightarrow> settlement" where
  "settle_from_own_commit row evidence not_committed_code not_committed_outcome =
     (case evidence of
        None \<Rightarrow> Unproven
      | Some committed \<Rightarrow>
          if lr_state row \<noteq> OutcomeUnknown then Unproven
          else case committed (lr_command_id row) of
                 None \<Rightarrow> Unproven
               | Some (Some outcome) \<Rightarrow> SettleRow Resolved outcome None
               | Some None \<Rightarrow> SettleRow Rejected
                   (jmerge not_committed_outcome [(''reconciled'', JStr ''never_committed'')]) (Some not_committed_code))"

text \<open>A target outcome that is not an object counts as an empty one; the ledger stores objects.\<close>

definition settle_receipt :: "ledger_row \<Rightarrow> jobject" where
  "settle_receipt target =
     (let outcome = opt_or [] (lr_outcome target)
      in [(''command_id'', JStr (lr_command_id target)), (''action'', JStr (lr_action target)),
          (''state'', JStr (command_state_str (lr_state target))), (''error_code'', jopt JStr (lr_error_code target)),
          (''settled_by'', opt_or JNull (jget outcome ''settled_by'')), (''reason'', opt_or JNull (jget outcome ''reason''))])"

definition settled_by :: "ledger_row list \<Rightarrow> ledger_row \<Rightarrow> jobject option" where
  "settled_by ledger settle =
     (case ledger_select ledger (lr_target_id settle) of
        None \<Rightarrow> None
      | Some target \<Rightarrow>
          if jget (opt_or [] (lr_outcome target)) ''settle_command_id'' = Some (JStr (lr_command_id settle))
          then Some (settle_receipt target) else None)"

definition close_verdict :: "ledger_row \<Rightarrow> close_resolution \<Rightarrow> settlement" where
  "close_verdict row r =
     (if cr_success r then SettleRow Resolved (cr_outcome r) None
      else RejectAndAlert (cr_outcome r)
        (case cr_error_code r of None \<Rightarrow> ''CLOSE_FAILED'' | Some c \<Rightarrow> if c = [] then ''CLOSE_FAILED'' else c)
        (lr_action row @ '' ended '' @ cr_state r @ '' on close root '' @ cr_root_id r @ '' ('' @ opt_or ''None'' (cr_error_code r)
         @ ''); operator check of the position required''))"

definition reconcile_close :: "reconcile_ports \<Rightarrow> bool \<Rightarrow> ledger_row \<Rightarrow> verdict_of_evidence" where
  "reconcile_close po again row =
     (case po_closes po of
        None \<Rightarrow> Inr Unproven
      | Some closes \<Rightarrow>
          ask (cl_resolution closes again (lr_command_id row)) (\<lambda>answer.
            case answer of None \<Rightarrow> Inr Unproven | Some r \<Rightarrow> Inr (close_verdict row r)))"

definition is_bracket_entry :: "reconcile_ports \<Rightarrow> ledger_row \<Rightarrow> bool option" where
  "is_bracket_entry po row =
     (if lr_state row = Submitted
         \<or> jget (opt_or [] (lr_outcome row)) ''order_group_id'' = Some (JStr (''og-'' @ lr_command_id row))
      then Some True else po_saga_row po (lr_command_id row))"

definition status_json :: "found_order \<Rightarrow> json" where
  "status_json order = jopt JStr (fo_status order)"

definition reconcile_flattened_entry :: "reconcile_ports \<Rightarrow> ledger_row \<Rightarrow> verdict_of_evidence" where
  "reconcile_flattened_entry po row =
     (case po_closes po of
        None \<Rightarrow> Inl PortRaised
      | Some closes \<Rightarrow>
          ask (cl_resolution closes False (lr_command_id row)) (\<lambda>answer.
            case answer of
              None \<Rightarrow> reconcile_close po True row
            | Some r \<Rightarrow>
                if \<not> cr_success r then reconcile_close po True row
                else ask (po_find po (lr_account_id row) (group_ref_of row)) (\<lambda>found.
                  if entry_accepted (filter (\<lambda>order. fo_leg order = Some ''entry'') found)
                  then Inr (SettleRow Resolved (cr_outcome r) None)
                  else if \<not> (\<forall>order \<in> set found. status_in order known_terminal_order_statuses) then Inr Unproven
                  else ask (po_enumeration_complete po) (\<lambda>complete.
                    if \<not> complete then Inr Unproven
                    else Inr (SettleRow Rejected
                      (jmerge (cr_outcome r) [(''order_group_id'', JStr (''og-'' @ lr_command_id row)),
                         (''broker_statuses'', JList (map status_json found)), (''broker_acknowledged'', JBool False)])
                      (Some ''ENTRY_UNPROVEN_FLATTENED''))))))"

definition reconcile_automated_entry :: "reconcile_ports \<Rightarrow> ledger_row \<Rightarrow> verdict_of_evidence" where
  "reconcile_automated_entry po row =
     ask (po_find po (lr_account_id row) (group_ref_of row)) (\<lambda>found.
       let entries = filter (\<lambda>order. fo_leg order = Some ''entry'') found;
           outcome = jmerge (opt_or [] (lr_outcome row)) [(''order_group_id'', JStr (''og-'' @ lr_command_id row)),
             (''broker_statuses'', JList (map status_json found))]
       in if entries = [] then Inr Unproven
          else if \<not> (\<forall>order \<in> set found. status_in order (active_order_statuses @ known_terminal_order_statuses))
          then Inr Unproven
          else if entry_accepted entries
          then Inr (SettleRow Resolved (jmerge outcome [(''broker_acknowledged'', JBool True)]) None)
          else if \<exists>order \<in> set found. status_in order active_order_statuses \<or> fo_status order = Some ''Filled'' \<or> has_fill order
          then Inr Unproven
          else ask (po_enumeration_complete po) (\<lambda>complete.
            if complete
            then Inr (SettleRow Rejected (jmerge outcome [(''broker_acknowledged'', JBool False)]) (Some ''BROKER_REJECTED''))
            else Inr Unproven))"

definition reconcile_automated_intent :: "reconcile_ports \<Rightarrow> ledger_row \<Rightarrow> verdict_of_evidence" where
  "reconcile_automated_intent po row =
     ask (case po_closes po of None \<Rightarrow> Some None | Some closes \<Rightarrow> cl_root_for closes (lr_command_id row)) (\<lambda>close_root.
       if close_root = None then reconcile_automated_entry po row
       else case is_bracket_entry po row of
              None \<Rightarrow> Inr Unproven
            | Some True \<Rightarrow> reconcile_flattened_entry po row
            | Some False \<Rightarrow> reconcile_close po False row)"

definition reconcile_liquidation_left_received :: "reconcile_ports \<Rightarrow> ledger_row \<Rightarrow> verdict_of_evidence" where
  "reconcile_liquidation_left_received po row =
     (case po_closes po of
        None \<Rightarrow> Inr Unproven
      | Some closes \<Rightarrow>
         (case cl_root_for closes (lr_command_id row) of
            None \<Rightarrow> Inr Unproven
          | Some (Some root_id) \<Rightarrow> reconcile_close po False row
          | Some None \<Rightarrow> Inr (SettleRow Rejected [(''reconciled'', JStr ''never_started'')] (Some ''LIQUIDATION_NOT_STARTED''))))"


definition created_proposal_id :: "saga_db \<Rightarrow> string \<Rightarrow> string option" where
  "created_proposal_id db command_id =
     map_option jr_entity_id (fetchone (sort_key jr_source_cursor
       (filter (\<lambda>r. jr_entity_type r = ''proposal'' \<and> jr_correlation_id r = Some command_id) (jd_rows db))))"

definition never_committed_codes :: "string list" where
  "never_committed_codes = [''INTERNAL_ERROR'', ''PROPOSAL_IDENTITY_CONFLICT'', ''RECEIVED_AT_RESTART'']"

text \<open>
  A row id that is not a number makes \<open>int\<close> raise inside the guarded read, so nothing is concluded
  from it. A rejected create keeps the error code that parked it.
\<close>

definition reconcile_create :: "reconcile_ports \<Rightarrow> saga_db \<Rightarrow> ledger_row \<Rightarrow> verdict_of_evidence" where
  "reconcile_create po db row =
     (if \<not> po_reads_ok po then Inr Unproven
      else case created_proposal_id db (lr_command_id row) of
             Some entity_id \<Rightarrow>
              (case int_of_string entity_id of
                 None \<Rightarrow> Inr Unproven
               | Some proposal_id \<Rightarrow>
                   Inr (SettleRow Resolved [(''proposal_id'', JInt proposal_id), (''created'', JBool True)] None))
           | None \<Rightarrow>
              (case lr_error_code row of
                 None \<Rightarrow> Inr Unproven
               | Some code \<Rightarrow>
                   if code \<in> set never_committed_codes
                   then Inr (SettleRow Rejected [(''created'', JBool False), (''reconciled'', JStr ''never_committed'')] (Some code))
                   else Inr Unproven))"

definition reconcile_reject :: "reconcile_ports \<Rightarrow> saga_db \<Rightarrow> ledger_row \<Rightarrow> verdict_of_evidence" where
  "reconcile_reject po db row =
     (if \<not> po_has_repo po \<or> lr_target_id row = [] then Inr Unproven
      else case int_of_string (lr_target_id row) of
             None \<Rightarrow> Inr Unproven
           | Some proposal_id \<Rightarrow>
              (case proposal_get (proposals_of db) proposal_id of
                 Some record \<Rightarrow>
                   if pr_status record = REJECTED
                   then Inr (SettleRow Resolved [(''proposal_id'', JInt proposal_id), (''status'', JStr ''REJECTED'')] None)
                   else Inr Unproven
               | None \<Rightarrow> Inr Unproven))"

definition reconcile_cancel :: "reconcile_ports \<Rightarrow> ledger_row \<Rightarrow> verdict_of_evidence" where
  "reconcile_cancel po row =
     (case po_orders_view po of
        None \<Rightarrow> Inr Unproven
      | Some get_order \<Rightarrow>
          ask (get_order (lr_target_id row)) (\<lambda>answer.
            case answer of
              None \<Rightarrow> Inr Unproven
            | Some order \<Rightarrow>
                if is_terminal_order order
                then Inr (SettleRow Resolved [(''order_entity_id'', JStr (lr_target_id row)),
                       (''authoritative_status'', JStr (bo_status order))] None)
                else Inr Unproven))"

text \<open>The root of a bulk cancel: its request, a list of order ids, from the audit record, its children from the ledger.\<close>

fun json_text :: "json \<Rightarrow> string option" where
  "json_text (JStr s) = Some s"
| "json_text _ = None"

definition requested_orders :: "jobject option \<Rightarrow> string list" where
  "requested_orders body =
     (case jget (opt_or [] body) ''order_entity_ids'' of
        Some (JList vs) \<Rightarrow> from_keys (List.map_filter json_text vs)
      | _ \<Rightarrow> [])"

definition child_id_of :: "string \<Rightarrow> nat \<Rightarrow> string" where
  "child_id_of command_id index = command_id @ CHR ''-'' # string_of_int (int index)"

definition is_cancel_child_of :: "ledger_row \<Rightarrow> string option \<Rightarrow> ledger_row \<Rightarrow> string \<Rightarrow> bool" where
  "is_cancel_child_of child link root_row order_id \<longleftrightarrow> link = Some (lr_command_id root_row)
     \<and> lr_action child = ''cancel_order'' \<and> lr_target_type child = ''order'' \<and> lr_target_id child = order_id
     \<and> lr_account_id child = lr_account_id root_row"

definition cancel_children :: "saga_db \<Rightarrow> ledger_row \<Rightarrow> string list \<Rightarrow> (string \<times> string \<times> ledger_row option) list" where
  "cancel_children db row order_ids =
     map (\<lambda>(i, order_id). (order_id, child_id_of (lr_command_id row) i,
            ledger_select (ledger_of db) (child_id_of (lr_command_id row) i)))
       (enumerate 0 order_ids)"

definition child_json :: "ledger_row \<Rightarrow> json" where
  "child_json child = JObj [(''command_id'', JStr (lr_command_id child)),
     (''state'', JStr (command_state_str (lr_state child))), (''error_code'', jopt JStr (lr_error_code child))]"

definition children_outcome :: "(string \<times> string \<times> ledger_row option) list \<Rightarrow> jobject" where
  "children_outcome children =
     [(''child_command_ids'', JList (map (\<lambda>(_, child_id, _). JStr child_id) children)),
      (''children'', JObj (List.map_filter (\<lambda>(order_id, _, child). map_option (\<lambda>c. (order_id, child_json c)) child) children)),
      (''partial_failure'', JBool (\<exists>(_, _, child) \<in> set children. case child of None \<Rightarrow> False | Some c \<Rightarrow> lr_state c \<noteq> Resolved)),
      (''reconciled'', JStr ''children_settled'')]"

definition foreign_child :: "saga_db \<Rightarrow> ledger_row \<Rightarrow> string \<times> string \<times> ledger_row option \<Rightarrow> bool" where
  "foreign_child db row x = (case x of (order_id, child_id, child) \<Rightarrow>
     (case child of None \<Rightarrow> False
      | Some c \<Rightarrow> \<not> is_cancel_child_of c (audited_correlation_id (ct_audit (jd_prod db)) (lr_command_id c)) row order_id))"

definition child_settled :: "string \<times> string \<times> ledger_row option \<Rightarrow> bool" where
  "child_settled x = (case x of (_, _, child) \<Rightarrow> (case child of None \<Rightarrow> False | Some c \<Rightarrow> terminal_state (lr_state c)))"

definition reconcile_cancel_orders :: "reconcile_ports \<Rightarrow> saga_db \<Rightarrow> ledger_row \<Rightarrow> verdict_of_evidence" where
  "reconcile_cancel_orders po db row =
     (let order_ids = requested_orders (audited_body (ct_audit (jd_prod db)) (lr_command_id row));
          children = cancel_children db row order_ids
      in if \<not> po_reads_ok po \<or> order_ids = [] then Inr Unproven
         else if \<exists>x \<in> set children. foreign_child db row x then Inr Unproven
         else if \<forall>(_, _, child) \<in> set children. child = None
         then Inr (SettleRow Rejected [(''child_command_ids'', JList []), (''reconciled'', JStr ''fan_out_not_started'')]
                (Some ''CANCEL_FANOUT_NOT_STARTED''))
         else if \<exists>x \<in> set children. \<not> child_settled x then Inr Unproven
         else Inr (SettleRow Resolved (children_outcome children) None))"

definition reconcile_pause :: "reconcile_ports \<Rightarrow> saga_db \<Rightarrow> ledger_row \<Rightarrow> verdict_of_evidence" where
  "reconcile_pause po db row =
     (if \<not> po_reads_ok po then Inr Unproven
      else case fetchone (filter (\<lambda>c. tc_account_id c = lr_target_id row) (controls_of db)) of
             None \<Rightarrow> Inr Unproven
           | Some state \<Rightarrow>
               if tc_updated_by_command_id state = lr_command_id row
               then Inr (SettleRow Resolved [(''account_id'', JStr (lr_target_id row)),
                      (''new_exposure_paused'', JBool (tc_new_exposure_paused state))] None)
               else Inr Unproven)"

definition reconcile_strategy :: "reconcile_ports \<Rightarrow> ledger_row \<Rightarrow> verdict_of_evidence" where
  "reconcile_strategy po row =
     ask (po_strategy po (lr_command_id row)) (\<lambda>answer.
       case answer of
         None \<Rightarrow> Inr Unproven
       | Some r \<Rightarrow> if st_state r = ''COMMITTED'' \<or> st_state r = ''ROLLED_BACK'' then Inr (ResolveStrategy r) else Inr Unproven)"

definition experiment_command_actions :: "string list" where
  "experiment_command_actions = [''start_experiment'', ''pause_experiment'', ''resume_experiment'', ''stop_experiment'']"

definition try_resolve :: "reconcile_ports \<Rightarrow> saga_db \<Rightarrow> ledger_row \<Rightarrow> verdict_of_evidence" where
  "try_resolve po db row =
     (let action = lr_action row
      in if action = ''approve_proposal'' then reconcile_approve po row
         else if action = ''create_proposal'' then reconcile_create po db row
         else if action = ''reject_proposal'' then reconcile_reject po db row
         else if action = ''cancel_order'' then reconcile_cancel po row
         else if action = ''cancel_orders'' then reconcile_cancel_orders po db row
         else if action \<in> {''pause_trading'', ''resume_trading''} then reconcile_pause po db row
         else if action \<in> {''enable_strategy'', ''disable_strategy'', ''update_strategy_params''} then reconcile_strategy po row
         else if action \<in> {''execute_automated_intent'', ''submit_ai_paper_decision''} then reconcile_automated_intent po row
         else if action = ''liquidate_account'' \<and> lr_error_code row = Some ''RECEIVED_AT_RESTART''
         then reconcile_liquidation_left_received po row
         else if action = ''liquidate_account'' then reconcile_close po False row
         else if action = ''register_ai_deployment''
         then Inr (settle_from_own_commit row (po_registrations po) ''REGISTRATION_NOT_COMMITTED'' [(''created'', JBool False)])
         else if action = ''withdraw_ai_deployment''
         then Inr (settle_from_own_commit row (po_withdrawals po) ''WITHDRAWAL_NOT_COMMITTED'' [(''withdrawn'', JBool False)])
         else if action = ''publish_ai_risk_policy''
         then Inr (settle_from_own_commit row (po_policies po) ''POLICY_NOT_COMMITTED'' [(''published'', JBool False)])
         else if action \<in> set experiment_command_actions
         then Inr (settle_from_own_commit row (map_option (\<lambda>e. e action) (po_experiments po)) ''EXPERIMENT_COMMAND_NOT_COMMITTED''
                [(''experiment_changed'', JBool False)])
         else if action = ''settle_unknown_command''
         then Inr (settle_from_own_commit row
                (Some (\<lambda>_. if po_reads_ok po then Some (settled_by (ledger_of db) row) else None)) ''SETTLE_NOT_COMMITTED''
                [(''settled'', JBool False)])
         else if action = ''reset_circuit_breaker''
         then Inr (settle_from_own_commit row (po_breaker_resets po) ''BREAKER_RESET_NOT_COMMITTED'' [(''reset'', JBool False)])
         else Inr Unproven)"

section \<open>Settling\<close>

definition command_mutation ::
    "ledger_row \<Rightarrow> command_state \<Rightarrow> instant \<Rightarrow> jobject option \<Rightarrow> string option \<Rightarrow> domain_mutation" where
  "command_mutation row to_state now outcome error_code =
     \<lparr>dm_event_type = ''command.updated'', dm_entity_type = ''command'',
      dm_entity_id = command_entity_id (lr_command_id row), dm_operation = Upsert,
      dm_account_id = lr_account_id row, dm_source = ''trader_service'',
      dm_source_timestamp = Aware now, dm_correlation_id = Some (lr_command_id row),
      dm_payload = Some
        [(''state'', JStr (command_state_str to_state)), (''action'', JStr (lr_action row)),
         (''target_type'', JStr (lr_target_type row)), (''target_id'', JStr (lr_target_id row)),
         (''outcome'', jopt JObj outcome), (''error_code'', jopt JStr error_code)]\<rparr>"

definition settle_row_work ::
    "reconcile_ports \<Rightarrow> ledger_row \<Rightarrow> instant \<Rightarrow> command_state \<Rightarrow> jobject option \<Rightarrow> string option \<Rightarrow> saga_db
     \<Rightarrow> domain_event claim_result" where
  "settle_row_work po row now to_state outcome error_code db =
     (case transition_in_tx (lr_command_id row) (lr_state row) to_state outcome error_code now (ledger_of db) of
        None \<Rightarrow> (Inl (Raised ClaimIllegalTransition), db)
      | Some (_, rows) \<Rightarrow>
          journal_append (po_journaled po) [] (command_mutation row to_state now outcome error_code) (\<lambda>p _. Inr p)
            (Some (command_event_id (lr_command_id row) to_state)) (set_ledger rows db))"

text \<open>\<open>_mark_proposal\<close>: only an APPROVED proposal is marked; \<open>Some ids\<close> marks it executed, \<open>None\<close> failed.\<close>

definition mark_proposal ::
    "reconcile_ports \<Rightarrow> ledger_row \<Rightarrow> int option \<Rightarrow> int list option \<Rightarrow> instant \<Rightarrow> saga_db \<Rightarrow> unit claim_result" where
  "mark_proposal po row proposal_id order_ids now db =
     (case (if po_has_repo po then proposal_id else None) of
        None \<Rightarrow> (Inr (), db)
      | Some i \<Rightarrow>
         (case proposal_get (proposals_of db) i of
            None \<Rightarrow> (Inr (), db)
          | Some record \<Rightarrow>
              if pr_status record \<noteq> APPROVED then (Inr (), db)
              else case (case order_ids of
                           Some ids \<Rightarrow> mark_order_submitted_in_tx i ids (pr_revision record) (Aware now) (proposals_of db)
                         | None \<Rightarrow> mark_failed_in_tx i ''reconciled: order never submitted'' (pr_revision record) (Aware now)
                             (proposals_of db)) of
                     (None, rows) \<Rightarrow> (Inr (), set_proposals rows db)
                   | (Some marked, rows) \<Rightarrow>
                      (case journal_append (po_journaled po) [] (proposal_mutation_for marked (Some (lr_command_id row)))
                              (assert_proposal_revision (pr_revision marked))
                              (Some (proposal_event_id i (pr_revision marked))) (set_proposals rows db) of
                         (Inl e, db') \<Rightarrow> (Inl e, db')
                       | (Inr _, db') \<Rightarrow> (Inr (), db'))))"

definition order_outcome :: "ledger_row \<Rightarrow> int list \<Rightarrow> jobject" where
  "order_outcome row order_ids =
     [(''order_ids'', JList (map JInt order_ids)), (''order_group_id'', JStr (''og-'' @ lr_command_id row))]"

definition strategy_payload :: "strategy_receipt \<Rightarrow> jobject" where
  "strategy_payload r =
     [(''strategy_name'', JStr (st_strategy_name r)), (''action'', JStr (st_action r)),
      (''strategy_state'', JStr (case st_observable_state r of None \<Rightarrow> st_state r | Some s \<Rightarrow> if s = [] then st_state r else s)),
      (''receipt_state'', JStr (st_state r)), (''control_revision'', JInt (st_control_revision r)),
      (''state_revision'', JInt (st_state_revision r)), (''error'', jopt JStr (st_error r)),
      (''last_error'', jopt JStr (st_error r))]"

definition strategy_mutation :: "ledger_row \<Rightarrow> strategy_receipt \<Rightarrow> instant \<Rightarrow> domain_mutation" where
  "strategy_mutation row r now =
     \<lparr>dm_event_type = ''strategy.updated'', dm_entity_type = ''strategy'', dm_entity_id = st_strategy_name r,
      dm_operation = Upsert, dm_account_id = lr_account_id row, dm_source = ''trader_service'',
      dm_source_timestamp = Aware now, dm_correlation_id = Some (lr_command_id row),
      dm_payload = Some (strategy_payload r)\<rparr>"

text \<open>What a settlement writes on the command's row: state, outcome and error code.\<close>

definition settled_as :: "ledger_row \<Rightarrow> settlement \<Rightarrow> command_state \<times> jobject \<times> string option" where
  "settled_as row s = (case s of
      SettleRow to_state outcome code \<Rightarrow> (to_state, outcome, code)
    | RejectAndAlert outcome code _ \<Rightarrow> (Rejected, outcome, Some code)
    | ResolveOrder ids _ \<Rightarrow> (Resolved, order_outcome row ids, None)
    | NeverSubmitted _ \<Rightarrow> (Resolved, [(''submitted'', JBool False)], None)
    | ResolveStrategy r \<Rightarrow> (Resolved, strategy_payload r, None)
    | Unproven \<Rightarrow> (lr_state row, [], None))"

text \<open>What is written before it, in the same transaction.\<close>

definition settle_first ::
    "reconcile_ports \<Rightarrow> ledger_row \<Rightarrow> instant \<Rightarrow> settlement \<Rightarrow> saga_db \<Rightarrow> unit claim_result" where
  "settle_first po row now s db = (case s of
      ResolveOrder ids i \<Rightarrow> mark_proposal po row i (Some ids) now db
    | NeverSubmitted i \<Rightarrow> mark_proposal po row i None now db
    | ResolveStrategy r \<Rightarrow>
       (case journal_append (po_journaled po) [] (strategy_mutation row r now) (\<lambda>p _. Inr p)
               (Some (''strategy:'' @ st_strategy_name r @ '':reconcile:'' @ lr_command_id row)) db of
          (Inl e, db') \<Rightarrow> (Inl e, db') | (Inr _, db') \<Rightarrow> (Inr (), db'))
    | _ \<Rightarrow> (Inr (), db))"

definition settle_work ::
    "reconcile_ports \<Rightarrow> ledger_row \<Rightarrow> instant \<Rightarrow> settlement \<Rightarrow> saga_db \<Rightarrow> domain_event claim_result" where
  "settle_work po row now s db =
     (case settle_first po row now s db of
        (Inl e, db') \<Rightarrow> (Inl e, db')
      | (Inr _, db') \<Rightarrow>
         (case settled_as row s of (to_state, outcome, code) \<Rightarrow>
            settle_row_work po row now to_state (Some outcome) code db'))"

definition perform ::
    "reconcile_ports \<Rightarrow> ledger_row \<Rightarrow> instant \<Rightarrow> settlement \<Rightarrow> reconciler \<Rightarrow> saga_db
     \<Rightarrow> (recon_error + bool) \<times> reconciler \<times> saga_db" where
  "perform po row now s st db =
     (if s = Unproven then (Inr False, st, db)
      else case mutate_batch_work (settle_work po row now s) (po_gap po BeforeSettle db) of
             (Inl e, db') \<Rightarrow> (Inl (SettleRaised e), st, db')
           | (Inr _, db') \<Rightarrow>
               (let st' = drop_plan (lr_command_id row) st
                in (Inr True,
                    (case s of RejectAndAlert _ _ detail \<Rightarrow> st'\<lparr>rs_alerts := rs_alerts st' @ [(lr_command_id row, detail)]\<rparr>
                     | _ \<Rightarrow> st'), db')))"

record reconcile_result =
  rr_command_id :: string
  rr_resolved :: bool
  rr_critical :: bool

definition unresolved_detail :: "ledger_row \<Rightarrow> string" where
  "unresolved_detail row = lr_action row @ '' unresolved after 15 minutes -- operator reconciliation required''"

definition escalate :: "ledger_row \<Rightarrow> instant \<Rightarrow> reconciler \<Rightarrow> reconcile_result \<times> reconciler" where
  "escalate row now st =
     (let command_id = lr_command_id row; plan = opt_or (new_plan now) (plan_of st command_id);
          due = (seconds critical_after_seconds \<le> now - pl_started plan \<and> \<not> pl_alerted plan);
          plan' = (if due then plan\<lparr>pl_alerted := True\<rparr> else plan);
          st' = put_plan command_id plan' st
      in (\<lparr>rr_command_id = command_id, rr_resolved = False, rr_critical = pl_alerted plan'\<rparr>,
          if due then st'\<lparr>rs_alerts := rs_alerts st' @ [(command_id, unresolved_detail row)]\<rparr> else st'))"

definition open_for_reconcile :: "command_state \<Rightarrow> bool" where
  "open_for_reconcile s \<longleftrightarrow> s = Submitting \<or> s = OutcomeUnknown \<or> s = Submitted"

definition reconcile_once ::
    "reconcile_ports \<Rightarrow> string \<Rightarrow> instant \<Rightarrow> reconciler \<Rightarrow> saga_db
     \<Rightarrow> (recon_error + reconcile_result) \<times> reconciler \<times> saga_db" where
  "reconcile_once po command_id now st db =
     (let resolved = \<lparr>rr_command_id = command_id, rr_resolved = True, rr_critical = False\<rparr>
      in case ledger_select (ledger_of db) command_id of
           None \<Rightarrow> (Inr resolved, drop_plan command_id st, db)
         | Some row \<Rightarrow>
             if \<not> open_for_reconcile (lr_state row) then (Inr resolved, drop_plan command_id st, db)
             else let db1 = po_gap po BeforeEvidence db
                  in case try_resolve po db1 row of
                       Inl e \<Rightarrow> (Inl e, st, db1)
                     | Inr s \<Rightarrow>
                        (case perform po row now s st db1 of
                           (Inl e, st', db') \<Rightarrow> (Inl e, st', db')
                         | (Inr True, st', db') \<Rightarrow> (Inr resolved, st', db')
                         | (Inr False, st', db') \<Rightarrow> (case escalate row now st' of (result, st'') \<Rightarrow> (Inr result, st'', db'))))"

text \<open>The next attempt of a plan that is still registered after one.\<close>

definition advance :: "instant \<Rightarrow> reconcile_plan \<Rightarrow> reconcile_plan" where
  "advance now plan =
     (let attempt = Suc (pl_attempt plan)
      in plan\<lparr>pl_attempt := attempt,
           pl_next_due := (if attempt < length reconcile_delays
                           then pl_started plan + seconds (reconcile_offsets ! attempt) else now + seconds 30)\<rparr>)"

fun run_due_from ::
    "(string \<Rightarrow> reconcile_ports) \<Rightarrow> instant \<Rightarrow> string list \<Rightarrow> reconciler \<Rightarrow> saga_db
     \<Rightarrow> (recon_error + reconcile_result list) \<times> reconciler \<times> saga_db" where
  "run_due_from ports now [] st db = (Inr [], st, db)"
| "run_due_from ports now (command_id # rest) st db =
     (case plan_of st command_id of
        None \<Rightarrow> run_due_from ports now rest st db
      | Some plan \<Rightarrow>
          if now < pl_next_due plan then run_due_from ports now rest st db
          else case reconcile_once (ports command_id) command_id now st db of
                 (Inl e, st', db') \<Rightarrow> (Inl e, st', db')
               | (Inr result, st', db') \<Rightarrow>
                  (case run_due_from ports now rest
                          (case plan_of st' command_id of None \<Rightarrow> st' | Some plan' \<Rightarrow> put_plan command_id (advance now plan') st')
                          db' of
                     (Inl e, st'', db'') \<Rightarrow> (Inl e, st'', db'')
                   | (Inr results, st'', db'') \<Rightarrow> (Inr (result # results), st'', db'')))"

definition run_due ::
    "(string \<Rightarrow> reconcile_ports) \<Rightarrow> instant \<Rightarrow> reconciler \<Rightarrow> saga_db
     \<Rightarrow> (recon_error + reconcile_result list) \<times> reconciler \<times> saga_db" where
  "run_due ports now st db = run_due_from ports now (map fst (rs_plans st)) st db"

section \<open>Recovery at start\<close>

definition saga_actions_idle_while_received :: "string list" where
  "saga_actions_idle_while_received = [''approve_proposal'', ''cancel_order'', ''enable_strategy'', ''disable_strategy'',
     ''update_strategy_params'', ''execute_automated_intent'', ''submit_ai_paper_decision'']"

definition orphan_work :: "reconcile_ports \<Rightarrow> ledger_row \<Rightarrow> saga_db \<Rightarrow> domain_event claim_result" where
  "orphan_work po row = settle_row_work po row (po_now po) Rejected None (Some ''CRASH_ORPHANED'')"

definition terminalize_pre_dispatch_orphan ::
    "reconcile_ports \<Rightarrow> ledger_row \<Rightarrow> reconciler \<Rightarrow> saga_db \<Rightarrow> bool \<times> reconciler \<times> saga_db" where
  "terminalize_pre_dispatch_orphan po row st db =
     (case mutate_batch_work (orphan_work po row) (po_gap po BeforeSettle db) of
        (Inl _, db') \<Rightarrow> (False, st, db')
      | (Inr _, db') \<Rightarrow> (True, drop_plan (lr_command_id row) st, db'))"

text \<open>\<open>_park_received\<close>; a failure is logged and the row left.\<close>

definition park_received :: "reconcile_ports \<Rightarrow> ledger_row \<Rightarrow> saga_db \<Rightarrow> saga_db" where
  "park_received po row db =
     snd (mutate_batch_work (settle_row_work po (row\<lparr>lr_state := Received\<rparr>) (po_now po) OutcomeUnknown None
       (Some ''RECEIVED_AT_RESTART'')) (po_gap po BeforeSettle db))"

fun settle_received ::
    "(string \<Rightarrow> reconcile_ports) \<Rightarrow> ledger_row list \<Rightarrow> reconciler \<Rightarrow> saga_db \<Rightarrow> reconciler \<times> saga_db" where
  "settle_received ports [] st db = (st, db)"
| "settle_received ports (row # rest) st db =
     (let po = ports (lr_command_id row)
      in if lr_action row \<in> set saga_actions_idle_while_received
         then (case terminalize_pre_dispatch_orphan po row st db of (_, st', db') \<Rightarrow> settle_received ports rest st' db')
         else settle_received ports rest st (park_received po row db))"

definition park_received_at_start ::
    "(string \<Rightarrow> reconcile_ports) \<Rightarrow> reconciler \<Rightarrow> saga_db \<Rightarrow> reconciler \<times> saga_db" where
  "park_received_at_start ports st db =
     settle_received ports (rs_received_at_start st) (st\<lparr>rs_received_at_start := []\<rparr>) db"

definition schedule_all :: "(string \<Rightarrow> reconcile_ports) \<Rightarrow> ledger_row list \<Rightarrow> reconciler \<Rightarrow> reconciler" where
  "schedule_all ports rows = fold (\<lambda>row. schedule (lr_command_id row) (po_now (ports (lr_command_id row)))) rows"

fun terminalize_orphans ::
    "(string \<Rightarrow> reconcile_ports) \<Rightarrow> ledger_row list \<Rightarrow> reconciler \<Rightarrow> saga_db \<Rightarrow> string list \<times> reconciler \<times> saga_db" where
  "terminalize_orphans ports [] st db = ([], st, db)"
| "terminalize_orphans ports (row # rest) st db =
     (case terminalize_pre_dispatch_orphan (ports (lr_command_id row)) row st db of (ok, st', db') \<Rightarrow>
       (case terminalize_orphans ports rest st' db' of (ids, st'', db'') \<Rightarrow>
         (if ok then lr_command_id row # ids else ids, st'', db'')))"

text \<open>The ledger is read again for the rows in flight and for the orphans.\<close>

definition rescan_on_startup ::
    "(string \<Rightarrow> reconcile_ports) \<Rightarrow> reconciler \<Rightarrow> saga_db \<Rightarrow> string list \<times> reconciler \<times> saga_db" where
  "rescan_on_startup ports st db =
     (case park_received_at_start ports st db of (st1, db1) \<Rightarrow>
       (let in_flight = reconcilable (ledger_of db1); st2 = schedule_all ports in_flight st1
        in case terminalize_orphans ports (pre_dispatch_orphans (ledger_of db1)) st2 db1 of (ids, st3, db3) \<Rightarrow>
             (map lr_command_id in_flight @ ids, st3, db3)))"

section \<open>Settlement by the operator\<close>

definition operator_settleable_actions :: "string list" where
  "operator_settleable_actions = [''reject_proposal'', ''pause_trading'', ''resume_trading'', ''activate_live_canary'',
     ''deactivate_live_canary'', ''activate_allocation'', ''suspend_allocation'', ''activate_paper_automation'',
     ''deactivate_paper_automation'', ''register_discretionary_deployment'', ''acceptance_mark_start'']"

datatype settle_error = OperatorSettleRefused string | SettleWriteRaised "claim_error journal_error"

text \<open>The last read of the row the write has just settled answers the caller.\<close>

definition settle_by_operator ::
    "reconcile_ports \<Rightarrow> string \<Rightarrow> bool \<Rightarrow> string \<Rightarrow> string \<Rightarrow> string \<Rightarrow> string option \<Rightarrow> reconciler \<Rightarrow> saga_db
     \<Rightarrow> (settle_error + jobject option) \<times> reconciler \<times> saga_db" where
  "settle_by_operator po target_id resolved reason settler settle_id account_id st db =
     (case ledger_select (ledger_of db) target_id of
        None \<Rightarrow> (Inl (OperatorSettleRefused ''SETTLE_UNKNOWN_COMMAND''), st, db)
      | Some target \<Rightarrow>
          if lr_account_id target \<noteq> account_id then (Inl (OperatorSettleRefused ''SETTLE_UNKNOWN_COMMAND''), st, db)
          else if lr_state target \<noteq> OutcomeUnknown then (Inl (OperatorSettleRefused ''SETTLE_NOT_UNKNOWN''), st, db)
          else if lr_action target \<notin> set operator_settleable_actions
          then (Inl (OperatorSettleRefused ''SETTLE_ACTION_FORBIDDEN''), st, db)
          else let outcome = [(''settled_by'', JStr settler), (''reason'', JStr reason), (''settle_command_id'', JStr settle_id)];
                   s = (if resolved then SettleRow Resolved outcome None else SettleRow Rejected outcome (Some ''OPERATOR_SETTLED''))
               in case mutate_batch_work (settle_work po target (po_now po) s) (po_gap po BeforeSettle db) of
                    (Inl (Raised ClaimIllegalTransition), db') \<Rightarrow> (Inl (OperatorSettleRefused ''SETTLE_NOT_UNKNOWN''), st, db')
                  | (Inl e, db') \<Rightarrow> (Inl (SettleWriteRaised e), st, db')
                  | (Inr _, db') \<Rightarrow>
                      (Inr (map_option settle_receipt (ledger_select (ledger_of db') target_id)),
                       drop_plan target_id st, db'))"

section \<open>The transactions keep the journal\<close>

lemma keeps_settle_row: "keeps_journal (settle_row_work po row now to_state outcome error_code)"
proof (rule keeps_journalI)
  fix db res db'
  assume inv: "journal_inv db" "open_ok db"
    and run: "settle_row_work po row now to_state outcome error_code db = (res, db')"
  show "jd_next_cursor db \<le> jd_next_cursor db'
      \<and> (is_ok res \<longrightarrow> journal_inv db' \<and> open_ok db' \<and> journal_extends db db')"
  proof (cases "transition_in_tx (lr_command_id row) (lr_state row) to_state outcome error_code now (ledger_of db)")
    case None
    then show ?thesis using run by (auto simp: settle_row_work_def)
  next
    case (Some rr)
    then have ap: "journal_append (po_journaled po) [] (command_mutation row to_state now outcome error_code) (\<lambda>p _. Inr p)
        (Some (command_event_id (lr_command_id row) to_state)) (set_ledger (snd rr) db) = (res, db')"
      using run by (cases rr) (simp add: settle_row_work_def)
    have "journal_inv (set_ledger (snd rr) db)" "open_ok (set_ledger (snd rr) db)" using inv by simp_all
    from keeps_append [unfolded keeps_journal_def, rule_format, OF this ap] show ?thesis by simp
  qed
qed

lemma update_returning_None: "update_returning P f rows = (None, rows') \<Longrightarrow> rows' = rows"
  by (auto simp: update_returning_def update_where_def filter_empty_conv intro!: map_idI)

lemma set_proposals_same [simp]: "set_proposals (proposals_of db) db = db"
  by (simp add: set_proposals_def proposals_of_def)

lemma mark_proposal_cases:
  assumes "mark_proposal po row i order_ids now db = (res, db')"
  obtains (untouched) "res = Inr ()" and "db' = db"
  | (marked) k rec m new_rows res' where "i = Some k" and "po_has_repo po"
      and "proposal_get (proposals_of db) k = Some rec" and "pr_status rec = APPROVED"
      and "(case order_ids of
              Some ids \<Rightarrow> mark_order_submitted_in_tx k ids (pr_revision rec) (Aware now) (proposals_of db)
            | None \<Rightarrow> mark_failed_in_tx k ''reconciled: order never submitted'' (pr_revision rec) (Aware now)
                (proposals_of db)) = (Some m, new_rows)"
      and "journal_append (po_journaled po) [] (proposal_mutation_for m (Some (lr_command_id row)))
              (assert_proposal_revision (pr_revision m)) (Some (proposal_event_id k (pr_revision m)))
              (set_proposals new_rows db) = (res', db')"
      and "is_ok res = is_ok res'"
proof (cases "if po_has_repo po then i else None")
  case None
  then have "res = Inr () \<and> db' = db" using assms by (auto simp: mark_proposal_def)
  then show thesis using untouched by blast
next
  case (Some k)
  then have i: "i = Some k" "po_has_repo po" by (auto split: if_splits)
  show thesis
  proof (cases "proposal_get (proposals_of db) k")
    case None
    then have "res = Inr () \<and> db' = db" using assms i by (auto simp: mark_proposal_def)
    then show thesis using untouched by blast
  next
    case (Some rec)
    show thesis
    proof (cases "pr_status rec = APPROVED")
      case False
      then have "res = Inr () \<and> db' = db" using assms i Some by (auto simp: mark_proposal_def)
      then show thesis using untouched by blast
    next
      case True
      let ?mark = "case order_ids of
          Some ids \<Rightarrow> mark_order_submitted_in_tx k ids (pr_revision rec) (Aware now) (proposals_of db)
        | None \<Rightarrow> mark_failed_in_tx k ''reconciled: order never submitted'' (pr_revision rec) (Aware now) (proposals_of db)"
      obtain m new_rows where m: "?mark = (m, new_rows)" by fastforce
      show thesis
      proof (cases m)
        case None
        then have "new_rows = proposals_of db"
          using m by (auto simp: mark_order_submitted_in_tx_def mark_failed_in_tx_def dest: update_returning_None split: option.splits)
        then have "res = Inr () \<and> db' = db"
          using assms i Some True m None by (auto simp: mark_proposal_def)
        then show thesis using untouched by blast
      next
        case (Some mm)
        obtain res' mid where ap: "journal_append (po_journaled po) [] (proposal_mutation_for mm (Some (lr_command_id row)))
              (assert_proposal_revision (pr_revision mm)) (Some (proposal_event_id k (pr_revision mm)))
              (set_proposals new_rows db) = (res', mid)" by fastforce
        have "mid = db' \<and> is_ok res = is_ok res'"
          using assms i \<open>proposal_get (proposals_of db) k = Some rec\<close> True m Some ap
          by (auto simp: mark_proposal_def split: sum.splits)
        then show thesis
          using marked [OF i \<open>proposal_get (proposals_of db) k = Some rec\<close> True] m Some ap by blast
      qed
    qed
  qed
qed

lemma keeps_mark: "keeps_journal (mark_proposal po row i order_ids now)"
proof (rule keeps_journalI)
  fix db res db'
  assume inv: "journal_inv db" "open_ok db" and run: "mark_proposal po row i order_ids now db = (res, db')"
  from run show "jd_next_cursor db \<le> jd_next_cursor db'
      \<and> (is_ok res \<longrightarrow> journal_inv db' \<and> open_ok db' \<and> journal_extends db db')"
  proof (cases rule: mark_proposal_cases)
    case (marked k rec m new_rows res')
    from keeps_after_write [OF keeps_append inv marked(6)] show ?thesis using marked(7) by simp
  qed (use inv in simp_all)
qed

lemma keeps_settle: "keeps_journal (settle_work po row now s)"
proof -
  have first: "keeps_journal (settle_first po row now s)"
  proof (cases s)
    case (ResolveStrategy r)
    have "keeps_journal (\<lambda>db. case journal_append (po_journaled po) [] (strategy_mutation row r now) (\<lambda>p _. Inr p)
        (Some (''strategy:'' @ st_strategy_name r @ '':reconcile:'' @ lr_command_id row)) db of
          (Inl e, db') \<Rightarrow> (Inl e, db') | (Inr x, db') \<Rightarrow> (\<lambda>db. (Inr (), db)) db')"
      by (rule keeps_then [OF keeps_append keeps_return(1)])
    then show ?thesis by (simp add: settle_first_def [abs_def] ResolveStrategy)
  qed (simp_all add: settle_first_def [abs_def] keeps_mark keeps_return)
  obtain to_state outcome code where as: "settled_as row s = (to_state, outcome, code)" by (metis prod.exhaust)
  have "settle_work po row now s = (\<lambda>db. case settle_first po row now s db of (Inl e, db') \<Rightarrow> (Inl e, db')
      | (Inr x, db') \<Rightarrow> settle_row_work po row now to_state (Some outcome) code db')"
    by (rule ext) (simp only: settle_work_def as prod.case)
  then show ?thesis using keeps_then [OF first keeps_settle_row] by simp
qed

interpretation settle: journal_work "settle_work po row now s" for po row now s
  by (rule keeps_journal_work [OF keeps_settle])

interpretation settle_row: journal_work "settle_row_work po row now to_state outcome error_code"
  for po row now to_state outcome error_code
  by (rule keeps_journal_work [OF keeps_settle_row])

section \<open>What a settlement changes\<close>

lemma settle_row_ok:
  assumes inv: "journal_inv db"
    and run: "settle_row_work po row now to_state outcome error_code db = (Inr ev, db')"
  obtains lrow where "transition_in_tx (lr_command_id row) (lr_state row) to_state outcome error_code now (ledger_of db)
      = Some (lrow, ledger_of db')"
    and "jd_prod db' = (jd_prod db)\<lparr>ct_ledger := ledger_of db'\<rparr>"
    and "journal_has db' (command_event_id (lr_command_id row) to_state)"
proof -
  obtain lrow rows where tr: "transition_in_tx (lr_command_id row) (lr_state row) to_state outcome error_code now (ledger_of db)
      = Some (lrow, rows)"
    and ap: "journal_append (po_journaled po) [] (command_mutation row to_state now outcome error_code) (\<lambda>p _. Inr p)
        (Some (command_event_id (lr_command_id row) to_state)) (set_ledger rows db)
        = (Inr ev :: claim_error journal_error + domain_event, db')"
    using run by (auto simp: settle_row_work_def split: option.splits)
  have inv': "journal_inv (set_ledger rows db)" using inv by simp
  have "jd_prod db' = jd_prod (set_ledger rows db)" by (rule append_keeps_prod [OF inv' ap]) simp
  then have prod: "jd_prod db' = (jd_prod db)\<lparr>ct_ledger := rows\<rparr>" by (simp add: set_ledger_def)
  then have rows: "rows = ledger_of db'" by (simp add: ledger_of_def)
  show thesis
    by (rule that [OF tr [unfolded rows] prod [unfolded rows]]) (use append_has [OF inv' ap] in blast)
qed

text \<open>How a settlement may mark a proposal: not at all, or as the evidence says.\<close>

definition marks :: "settlement \<Rightarrow> proposal_record list \<Rightarrow> proposal_record list \<Rightarrow> bool" where
  "marks s rows rows' \<longleftrightarrow> rows' = rows
     \<or> (\<exists>k ids n now out. s = ResolveOrder ids (Some k) \<and> mark_order_submitted_in_tx k ids n (Aware now) rows = (out, rows'))
     \<or> (\<exists>k n now out. s = NeverSubmitted (Some k)
          \<and> mark_failed_in_tx k ''reconciled: order never submitted'' n (Aware now) rows = (out, rows'))"

lemma settle_first_ok:
  assumes inv: "journal_inv db" and run: "settle_first po row now s db = (Inr u, db')"
  shows "journal_inv db' \<and> ledger_of db' = ledger_of db \<and> controls_of db' = controls_of db
    \<and> ct_audit (jd_prod db') = ct_audit (jd_prod db) \<and> ct_nonces (jd_prod db') = ct_nonces (jd_prod db)
    \<and> marks s (proposals_of db) (proposals_of db')"
proof -
  have mark: "journal_inv db' \<and> ledger_of db' = ledger_of db \<and> controls_of db' = controls_of db
    \<and> ct_audit (jd_prod db') = ct_audit (jd_prod db) \<and> ct_nonces (jd_prod db') = ct_nonces (jd_prod db)
    \<and> marks s (proposals_of db) (proposals_of db')"
    if "mark_proposal po row i ids now db = (Inr u, db')"
      and "s = (case ids of None \<Rightarrow> NeverSubmitted i | Some xs \<Rightarrow> ResolveOrder xs i)" for i ids
    using that(1)
  proof (cases rule: mark_proposal_cases)
    case untouched
    then show ?thesis using inv by (simp add: marks_def)
  next
    case (marked k rec m new_rows res')
    then obtain ev where ap: "journal_append (po_journaled po) [] (proposal_mutation_for m (Some (lr_command_id row)))
              (assert_proposal_revision (pr_revision m)) (Some (proposal_event_id k (pr_revision m)))
              (set_proposals new_rows db) = (Inr ev, db')" by (cases res') simp_all
    have inv': "journal_inv (set_proposals new_rows db)" using inv by simp
    have prod: "jd_prod db' = jd_prod (set_proposals new_rows db)"
      by (rule append_keeps_prod [OF inv' ap]) (simp add: assert_proposal_revision_def split: if_splits)
    then have "proposals_of db' = new_rows" "ledger_of db' = ledger_of db" "controls_of db' = controls_of db"
        "ct_audit (jd_prod db') = ct_audit (jd_prod db)" "ct_nonces (jd_prod db') = ct_nonces (jd_prod db)"
      by (simp_all add: proposals_of_def ledger_of_def controls_of_def set_proposals_def)
    moreover have "marks s (proposals_of db) new_rows"
      using marked(1,5) that(2) by (cases ids) (auto simp: marks_def)
    ultimately show ?thesis using append_inv [OF inv' ap] by simp
  qed
  show ?thesis
  proof (cases s)
    case (ResolveStrategy r)
    then obtain ev where ap: "journal_append (po_journaled po) [] (strategy_mutation row r now) (\<lambda>p _. Inr p)
        (Some (''strategy:'' @ st_strategy_name r @ '':reconcile:'' @ lr_command_id row)) db
        = (Inr ev :: claim_error journal_error + domain_event, db')"
      using run by (auto simp: settle_first_def split: prod.splits sum.splits)
    have "jd_prod db' = jd_prod db" by (rule append_keeps_prod [OF inv ap]) simp
    then show ?thesis using append_inv [OF inv ap] by (simp add: proposals_of_def ledger_of_def controls_of_def marks_def)
  next
    case (ResolveOrder ids i)
    then show ?thesis using mark [of i "Some ids"] run by (simp add: settle_first_def)
  next
    case (NeverSubmitted i)
    then show ?thesis using mark [of i None] run by (simp add: settle_first_def)
  qed (use run inv in \<open>auto simp: settle_first_def marks_def\<close>)
qed

text \<open>A committed settlement: the row moved from the state that was read, and what else was written with it.\<close>

lemma settlement_committed:
  assumes inv: "journal_inv db" and run: "mutate_batch_work (settle_work po row now s) db = (Inr ev, db')"
    and as: "settled_as row s = (to_state, outcome, code)"
  obtains lrow where "transition_in_tx (lr_command_id row) (lr_state row) to_state (Some outcome) code now (ledger_of db)
      = Some (lrow, ledger_of db')"
    and "marks s (proposals_of db) (proposals_of db')" and "controls_of db' = controls_of db"
    and "ct_audit (jd_prod db') = ct_audit (jd_prod db)" and "ct_nonces (jd_prod db') = ct_nonces (jd_prod db)"
    and "journal_has db' (command_event_id (lr_command_id row) to_state)" and "journal_inv db'"
proof -
  have inv': "journal_inv db'" using settle.batch_work_inv [OF inv run] .
  from run obtain m where w: "settle_work po row now s (db\<lparr>jd_open_events := []\<rparr>) = (Inr ev, m)"
    and prod: "jd_prod db' = jd_prod m" and rows: "jd_rows db' = jd_rows m"
    by (rule batch_work_prod) auto
  obtain u mid where f: "settle_first po row now s (db\<lparr>jd_open_events := []\<rparr>) = (Inr u, mid)"
    and r: "settle_row_work po row now to_state (Some outcome) code mid = (Inr ev, m)"
    using w by (auto simp: settle_work_def as split: prod.splits sum.splits)
  have "journal_inv (db\<lparr>jd_open_events := []\<rparr>)" using inv by simp
  note first = settle_first_ok [OF this f]
  from first r obtain lrow where tr: "transition_in_tx (lr_command_id row) (lr_state row) to_state (Some outcome) code now
        (ledger_of mid) = Some (lrow, ledger_of m)"
    and pm: "jd_prod m = (jd_prod mid)\<lparr>ct_ledger := ledger_of m\<rparr>"
    and ev: "journal_has m (command_event_id (lr_command_id row) to_state)"
    by (blast elim: settle_row_ok)
  have tables: "ledger_of db' = ledger_of m" "proposals_of db' = proposals_of mid" "controls_of db' = controls_of mid"
      "ct_audit (jd_prod db') = ct_audit (jd_prod mid)" "ct_nonces (jd_prod db') = ct_nonces (jd_prod mid)"
    using pm prod
    by (simp_all add: ledger_of_def proposals_of_def controls_of_def)
      (metis command_tables.ext_inject command_tables.surjective command_tables.update_convs(1))+
  show thesis
    by (rule that) (use tr first tables ev rows inv' in \<open>simp_all add: journal_has_def\<close>)
qed

section \<open>Only evidence settles a command\<close>

text \<open>A settlement that writes no proposal and ends the command.\<close>

definition row_only :: "settlement \<Rightarrow> bool" where
  "row_only s \<longleftrightarrow> (case s of
      Unproven \<Rightarrow> True | SettleRow to_state _ _ \<Rightarrow> terminal_state to_state | RejectAndAlert _ _ _ \<Rightarrow> True
    | ResolveOrder _ _ \<Rightarrow> False | NeverSubmitted _ \<Rightarrow> False | ResolveStrategy _ \<Rightarrow> True)"

lemma row_only_simps [simp]:
  "row_only Unproven" "row_only (SettleRow to_state outcome code) \<longleftrightarrow> terminal_state to_state"
  "row_only (RejectAndAlert outcome c detail)" "\<not> row_only (ResolveOrder ids i)" "\<not> row_only (NeverSubmitted i)"
  "row_only (ResolveStrategy r)" "terminal_state Resolved" "terminal_state Rejected"
  by (simp_all add: row_only_def terminal_state_def)

named_theorems row_only_rules

lemma ask_Inr [simp]: "ask answer k = Inr s \<longleftrightarrow> (\<exists>a. answer = Some a \<and> k a = Inr s)"
  by (simp add: ask_def split: option.splits)

lemma close_row_only [row_only_rules]: "reconcile_close po again row = Inr s \<Longrightarrow> row_only s"
proof -
  have "row_only (close_verdict row r)" for r by (simp add: close_verdict_def)
  moreover assume "reconcile_close po again row = Inr s"
  ultimately show ?thesis by (auto simp: reconcile_close_def split: option.splits)
qed

lemma flattened_row_only [row_only_rules]: "reconcile_flattened_entry po row = Inr s \<Longrightarrow> row_only s"
  by (auto simp: reconcile_flattened_entry_def split: option.splits if_splits intro: close_row_only)

lemma entry_row_only [row_only_rules]: "reconcile_automated_entry po row = Inr s \<Longrightarrow> row_only s"
  by (auto simp: reconcile_automated_entry_def Let_def split: if_splits)

lemma intent_row_only [row_only_rules]: "reconcile_automated_intent po row = Inr s \<Longrightarrow> row_only s"
  by (auto simp: reconcile_automated_intent_def split: option.splits if_splits bool.splits
      intro: close_row_only flattened_row_only entry_row_only)

lemma liquidation_row_only [row_only_rules]: "reconcile_liquidation_left_received po row = Inr s \<Longrightarrow> row_only s"
  by (auto simp: reconcile_liquidation_left_received_def split: option.splits intro: close_row_only)

lemma own_commit_row_only [row_only_rules]: "settle_from_own_commit row evidence code outcome = s \<Longrightarrow> row_only s"
  by (auto simp: settle_from_own_commit_def split: option.splits)

lemma simple_row_only [row_only_rules]:
  "reconcile_create po db row = Inr s \<Longrightarrow> row_only s" "reconcile_reject po db row = Inr s \<Longrightarrow> row_only s"
  "reconcile_cancel po row = Inr s \<Longrightarrow> row_only s" "reconcile_cancel_orders po db row = Inr s \<Longrightarrow> row_only s"
  "reconcile_pause po db row = Inr s \<Longrightarrow> row_only s" "reconcile_strategy po row = Inr s \<Longrightarrow> row_only s"
  by (auto simp: reconcile_create_def reconcile_reject_def reconcile_cancel_def reconcile_cancel_orders_def
      reconcile_pause_def reconcile_strategy_def Let_def split: option.splits if_splits)

lemma try_resolve_row_only:
  assumes "try_resolve po db row = Inr s" and "lr_action row \<noteq> ''approve_proposal''"
  shows "row_only s"
  using assms unfolding try_resolve_def Let_def by (auto split: if_splits intro: row_only_rules)

lemma approve_settlement:
  assumes "reconcile_approve po row = Inr s"
  shows "s = Unproven
    \<or> (\<exists>found i. s = ResolveOrder (collect_order_ids found) i \<and> associated_proposal_id row = Inr i
         \<and> po_find po (lr_account_id row) (group_ref_of row) = Some found \<and> found \<noteq> [])
    \<or> (\<exists>i. s = NeverSubmitted i \<and> associated_proposal_id row = Inr i
         \<and> po_find po (lr_account_id row) (group_ref_of row) = Some [] \<and> po_enumeration_complete po = Some True)"
proof -
  have map: "map_sum id f x = Inr s \<Longrightarrow> \<exists>i. x = Inr i \<and> s = f i" for f and x :: "recon_error + int option"
    by (cases x) auto
  show ?thesis using assms by (auto simp: reconcile_approve_def split: if_splits dest!: map)
qed

lemma try_resolve_approve:
  assumes "try_resolve po db row = Inr s" and "\<not> row_only s"
  shows "lr_action row = ''approve_proposal'' \<and> reconcile_approve po row = Inr s"
proof -
  have "lr_action row = ''approve_proposal''" using try_resolve_row_only [OF assms(1)] assms(2) by blast
  then show ?thesis using assms(1) by (simp add: try_resolve_def)
qed

lemma settled_terminal:
  assumes "try_resolve po db row = Inr s" and "s \<noteq> Unproven"
  shows "terminal_state (fst (settled_as row s))"
proof (cases "row_only s")
  case True
  then show ?thesis using assms(2) by (cases s) (simp_all add: settled_as_def)
next
  case False
  then have "reconcile_approve po row = Inr s" using try_resolve_approve [OF assms(1)] by blast
  from approve_settlement [OF this] assms(2) show ?thesis by (auto simp: settled_as_def)
qed

lemma rolled_back_prod: "mutate_batch_work w db = (Inl e, db') \<Longrightarrow> jd_prod db' = jd_prod db \<and> jd_rows db' = jd_rows db"
  by (auto simp: mutate_batch_work_def split: prod.splits sum.splits)

lemma reconcile_once_cases:
  assumes "reconcile_once po c now st db = (res, st', db')"
  defines "mid \<equiv> po_gap po BeforeEvidence db"
  obtains (closed) "ledger_select (ledger_of db) c = None \<or> (\<exists>row. ledger_select (ledger_of db) c = Some row
        \<and> \<not> open_for_reconcile (lr_state row))"
      and "res = Inr \<lparr>rr_command_id = c, rr_resolved = True, rr_critical = False\<rparr>" and "st' = drop_plan c st" and "db' = db"
  | (raised) row e where "ledger_select (ledger_of db) c = Some row" and "open_for_reconcile (lr_state row)"
      and "try_resolve po mid row = Inl e" and "res = Inl e" and "st' = st" and "db' = mid"
  | (waiting) row result where "ledger_select (ledger_of db) c = Some row" and "open_for_reconcile (lr_state row)"
      and "try_resolve po mid row = Inr Unproven" and "escalate row now st = (result, st')" and "res = Inr result"
      and "db' = mid"
  | (failed) row s e where "ledger_select (ledger_of db) c = Some row" and "open_for_reconcile (lr_state row)"
      and "try_resolve po mid row = Inr s" and "s \<noteq> Unproven"
      and "mutate_batch_work (settle_work po row now s) (po_gap po BeforeSettle mid) = (Inl e, db')"
      and "res = Inl (SettleRaised e)" and "st' = st"
  | (settled) row s ev where "ledger_select (ledger_of db) c = Some row" and "open_for_reconcile (lr_state row)"
      and "try_resolve po mid row = Inr s" and "s \<noteq> Unproven"
      and "mutate_batch_work (settle_work po row now s) (po_gap po BeforeSettle mid) = (Inr ev, db')"
      and "res = Inr \<lparr>rr_command_id = c, rr_resolved = True, rr_critical = False\<rparr>"
      and "rs_plans st' = filter (\<lambda>p. fst p \<noteq> c) (rs_plans st)"
      and "rs_alerts st' = rs_alerts st @ (case s of RejectAndAlert _ _ detail \<Rightarrow> [(c, detail)] | _ \<Rightarrow> [])"
proof (cases "\<exists>row. ledger_select (ledger_of db) c = Some row \<and> open_for_reconcile (lr_state row)")
  case False
  then show thesis
    using assms(1) by (intro closed) (auto simp: reconcile_once_def Let_def split: option.splits if_splits)
next
  case True
  then obtain row where row: "ledger_select (ledger_of db) c = Some row" "open_for_reconcile (lr_state row)" by blast
  then have id: "lr_command_id row = c" by (blast dest: ledger_select_Some)
  note run = assms(1) [unfolded reconcile_once_def Let_def, folded mid_def] row
  show thesis
  proof (cases "try_resolve po mid row")
    case (Inl e)
    then show thesis using run by (intro raised [OF row Inl]) auto
  next
    case (Inr s)
    show thesis
    proof (cases "s = Unproven")
      case True
      obtain result st2 where e: "escalate row now st = (result, st2)" by fastforce
      then show thesis using run Inr True by (intro waiting [OF row]) (auto simp: perform_def)
    next
      case False
      obtain r d where b: "mutate_batch_work (settle_work po row now s) (po_gap po BeforeSettle mid) = (r, d)" by fastforce
      show thesis
      proof (cases r)
        case (Inl e)
        then show thesis using run Inr False b by (intro failed [OF row Inr False]) (auto simp: perform_def)
      next
        case (Inr ev)
        then show thesis
          using run \<open>try_resolve po mid row = Inr s\<close> False b id
          by (intro settled [OF row \<open>try_resolve po mid row = Inr s\<close> False])
            (auto simp: perform_def drop_plan_def Let_def split: settlement.splits)
      qed
    qed
  qed
qed

lemma update_where_new:
  "r' \<in> set (update_where P f rows) \<Longrightarrow> r' \<notin> set rows \<Longrightarrow> \<exists>r \<in> set rows. P r \<and> r' = f r"
  by (auto simp: set_update_where split: if_splits)

lemma submitted_new:
  assumes "mark_order_submitted_in_tx k ids n now rows = (out, rows')" and "r' \<in> set rows'" and "r' \<notin> set rows"
  shows "\<exists>r \<in> set rows. pr_id r = k \<and> pr_status r = APPROVED \<and> frozen r' = frozen r \<and> pr_status r' = EXECUTED
    \<and> pr_order_ids r' = ids"
proof -
  have "rows' = update_where (\<lambda>r. pr_id r = k \<and> pr_status r = APPROVED \<and> pr_revision r = n)
      (\<lambda>r. r\<lparr>pr_status := EXECUTED, pr_order_ids := ids, pr_updated_at := as_utc now, pr_revision := pr_revision r + 1\<rparr>) rows"
    using assms(1) by (simp add: mark_order_submitted_in_tx_def update_returning_def)
  from update_where_new [OF assms(2) [unfolded this] assms(3)] show ?thesis by (auto simp: frozen_def)
qed

lemma failed_new:
  assumes "mark_failed_in_tx k reason n now rows = (out, rows')" and "r' \<in> set rows'" and "r' \<notin> set rows"
  shows "\<exists>r \<in> set rows. pr_id r = k \<and> pr_status r = APPROVED \<and> frozen r' = frozen r \<and> pr_status r' = FAILED"
proof -
  have "rows' = update_where (\<lambda>r. pr_id r = k \<and> pr_status r = APPROVED \<and> pr_revision r = n)
      (\<lambda>r. r\<lparr>pr_status := FAILED, pr_rejection_reason := reason, pr_updated_at := as_utc now, pr_revision := pr_revision r + 1\<rparr>) rows"
    using assms(1) by (simp add: mark_failed_in_tx_def update_returning_def)
  from update_where_new [OF assms(2) [unfolded this] assms(3)] show ?thesis by (auto simp: frozen_def)
qed

text \<open>
  C9. The reconciler marks a proposal only on proof from the broker. A proposal row that appears through an attempt (not
  there before, and not written by another thread meanwhile) is the approved proposal of the approval command that is
  reconciled, with its reviewed content unchanged: executed, with the order ids of the orders the broker shows for
  the command, and only if it shows some; or failed, and only if the broker shows none and its enumeration is complete.
\<close>

theorem proposal_marked_on_proof:
  assumes inv: "journal_inv (po_gap po BeforeSettle (po_gap po BeforeEvidence db))"
    and run: "reconcile_once po c now st db = (res, st', db')" and new: "r' \<in> set (proposals_of db')"
      "r' \<notin> set (proposals_of db)" "r' \<notin> set (proposals_of (po_gap po BeforeEvidence db))"
      "r' \<notin> set (proposals_of (po_gap po BeforeSettle (po_gap po BeforeEvidence db)))"
  shows "\<exists>row r. ledger_select (ledger_of db) c = Some row \<and> lr_action row = ''approve_proposal''
    \<and> open_for_reconcile (lr_state row) \<and> associated_proposal_id row = Inr (Some (pr_id r))
    \<and> r \<in> set (proposals_of (po_gap po BeforeSettle (po_gap po BeforeEvidence db)))
    \<and> pr_status r = APPROVED \<and> frozen r' = frozen r
    \<and> (pr_status r' = EXECUTED \<and> (\<exists>found. po_find po (lr_account_id row) (group_ref_of row) = Some found \<and> found \<noteq> []
           \<and> pr_order_ids r' = collect_order_ids found)
       \<or> pr_status r' = FAILED \<and> po_find po (lr_account_id row) (group_ref_of row) = Some []
           \<and> po_enumeration_complete po = Some True)"
  using run
proof (cases rule: reconcile_once_cases)
  case (settled row s ev)
  obtain to_state outcome code where as: "settled_as row s = (to_state, outcome, code)" by (metis prod.exhaust)
  have m: "marks s (proposals_of (po_gap po BeforeSettle (po_gap po BeforeEvidence db))) (proposals_of db')"
    using settlement_committed [OF inv settled(5) as] by blast
  then have "\<not> row_only s" using new by (cases s) (auto simp: marks_def row_only_def)
  then have approve: "lr_action row = ''approve_proposal''" "reconcile_approve po row = Inr s"
    using try_resolve_approve [OF settled(3)] by blast+
  from approve_settlement [OF approve(2)] settled(4) consider
      (found) found i where "s = ResolveOrder (collect_order_ids found) i" "associated_proposal_id row = Inr i"
        "po_find po (lr_account_id row) (group_ref_of row) = Some found" "found \<noteq> []"
    | (absent) i where "s = NeverSubmitted i" "associated_proposal_id row = Inr i"
        "po_find po (lr_account_id row) (group_ref_of row) = Some []" "po_enumeration_complete po = Some True"
    by blast
  then show ?thesis
  proof cases
    case found
    then obtain k n t out where k: "i = Some k"
        "mark_order_submitted_in_tx k (collect_order_ids found) n (Aware t)
           (proposals_of (po_gap po BeforeSettle (po_gap po BeforeEvidence db))) = (out, proposals_of db')"
      using m new by (auto simp: marks_def)
    from submitted_new [OF k(2) new(1,4)] show ?thesis using found k(1) settled(1,2) approve(1) by auto
  next
    case absent
    then obtain k n t out where k: "i = Some k"
        "mark_failed_in_tx k ''reconciled: order never submitted'' n (Aware t)
           (proposals_of (po_gap po BeforeSettle (po_gap po BeforeEvidence db))) = (out, proposals_of db')"
      using m new by (auto simp: marks_def)
    from failed_new [OF k(2) new(1,4)] show ?thesis using absent k(1) settled(1,2) approve(1) by auto
  qed
next
  case (failed row s e)
  then have "proposals_of db' = proposals_of (po_gap po BeforeSettle (po_gap po BeforeEvidence db))"
    using rolled_back_prod [OF failed(5)] by (simp add: proposals_of_def)
  then show ?thesis using new by simp
qed (use new in simp_all)

lemma transition_from:
  assumes "distinct (map lr_command_id rows)"
    and "transition_in_tx i from_state to_state outcome code now rows = Some (lrow, rows')"
  shows "\<exists>r. ledger_select rows i = Some r \<and> lr_state r = from_state"
proof -
  obtain r where r: "r \<in> set rows" "lr_command_id r = i" "lr_state r = from_state"
    using assms(2) by (auto simp: transition_in_tx_def Let_def split: option.splits dest!: fetchone_SomeD)
  then show ?thesis using ledger_select_mem [OF assms(1) r(1)] by blast
qed

lemma settled_row:
  assumes inv: "journal_inv base" "distinct (map lr_command_id (ledger_of base))"
    and row: "ledger_select ledger c = Some row" and run: "mutate_batch_work (settle_work po row now s) base = (Inr ev, db')"
    and as: "settled_as row s = (to_state, outcome, code)"
  obtains current where "ledger_select (ledger_of base) c = Some current" and "lr_state current = lr_state row"
    and "\<forall>a. ledger_select (ledger_of db') a = (if a = c then Some (current\<lparr>lr_state := to_state, lr_outcome := Some outcome,
        lr_error_code := code, lr_updated_at := now\<rparr>) else ledger_select (ledger_of base) a)"
    and "controls_of db' = controls_of base" and "ct_audit (jd_prod db') = ct_audit (jd_prod base)"
    and "ct_nonces (jd_prod db') = ct_nonces (jd_prod base)" and "journal_has db' (command_event_id c to_state)"
    and "journal_inv db'" and "distinct (map lr_command_id (ledger_of db'))"
proof -
  have id: "lr_command_id row = c" using row by (blast dest: ledger_select_Some)
  from inv(1) run as obtain lrow where
      tr: "transition_in_tx c (lr_state row) to_state (Some outcome) code now (ledger_of base) = Some (lrow, ledger_of db')"
    and frame: "controls_of db' = controls_of base" "ct_audit (jd_prod db') = ct_audit (jd_prod base)"
      "ct_nonces (jd_prod db') = ct_nonces (jd_prod base)" "journal_has db' (command_event_id c to_state)" "journal_inv db'"
    unfolding id [symmetric] by (rule settlement_committed)
  obtain current where cur: "ledger_select (ledger_of base) c = Some current" "lr_state current = lr_state row"
    using transition_from [OF inv(2) tr] by blast
  from transition_ok [OF inv(2) cur, of to_state "Some outcome" code now] tr
  have "\<forall>a. ledger_select (ledger_of db') a = (if a = c then Some (current\<lparr>lr_state := to_state, lr_outcome := Some outcome,
        lr_error_code := code, lr_updated_at := now\<rparr>) else ledger_select (ledger_of base) a)"
      "map lr_command_id (ledger_of db') = map lr_command_id (ledger_of base)" by auto
  then show thesis using that [OF cur] frame inv(2) by simp
qed

text \<open>
  C10. An attempt settles one command, by compare and set, and only on evidence. Whatever other threads commit in
  between, every other ledger row, the pause rows, the audit records and the nonces are as those threads left them; the
  command's own row is too, unless its evidence proved an outcome and the row was still in the open state that was read:
  then it is resolved or rejected as the evidence says, and the event is journaled. Without proof, however long it
  takes, nothing is written.
\<close>

theorem reconcile_compare_and_set:
  assumes inv: "journal_inv (po_gap po BeforeSettle (po_gap po BeforeEvidence db))"
      "distinct (map lr_command_id (ledger_of (po_gap po BeforeSettle (po_gap po BeforeEvidence db))))"
    and run: "reconcile_once po c now st db = (res, st', db')"
  shows "\<exists>base \<in> {db, po_gap po BeforeEvidence db, po_gap po BeforeSettle (po_gap po BeforeEvidence db)}.
    controls_of db' = controls_of base \<and> ct_audit (jd_prod db') = ct_audit (jd_prod base)
    \<and> ct_nonces (jd_prod db') = ct_nonces (jd_prod base)
    \<and> (\<forall>a. a \<noteq> c \<longrightarrow> ledger_select (ledger_of db') a = ledger_select (ledger_of base) a)
    \<and> (jd_prod db' = jd_prod base \<and> jd_rows db' = jd_rows base
       \<or> (\<exists>row current s to_state outcome code. ledger_select (ledger_of db) c = Some row \<and> open_for_reconcile (lr_state row)
            \<and> try_resolve po (po_gap po BeforeEvidence db) row = Inr s \<and> s \<noteq> Unproven
            \<and> settled_as row s = (to_state, outcome, code) \<and> terminal_state to_state
            \<and> ledger_select (ledger_of base) c = Some current \<and> lr_state current = lr_state row
            \<and> ledger_select (ledger_of db') c = Some (current\<lparr>lr_state := to_state, lr_outcome := Some outcome,
                 lr_error_code := code, lr_updated_at := now\<rparr>)
            \<and> journal_has db' (command_event_id c to_state)))"
  using run
proof (cases rule: reconcile_once_cases)
  case (settled row s ev)
  let ?base = "po_gap po BeforeSettle (po_gap po BeforeEvidence db)"
  obtain to_state outcome code where as: "settled_as row s = (to_state, outcome, code)" by (metis prod.exhaust)
  from inv settled(1,5) as obtain current where cur: "ledger_select (ledger_of ?base) c = Some current"
      "lr_state current = lr_state row"
    and sel: "\<forall>a. ledger_select (ledger_of db') a = (if a = c then Some (current\<lparr>lr_state := to_state,
        lr_outcome := Some outcome, lr_error_code := code, lr_updated_at := now\<rparr>) else ledger_select (ledger_of ?base) a)"
    and frame: "controls_of db' = controls_of ?base" "ct_audit (jd_prod db') = ct_audit (jd_prod ?base)"
      "ct_nonces (jd_prod db') = ct_nonces (jd_prod ?base)" "journal_has db' (command_event_id c to_state)"
    by (rule settled_row)
  have "terminal_state to_state" using settled_terminal [OF settled(3,4)] as by simp
  with settled(1-4) as cur sel frame show ?thesis by (intro bexI [of _ ?base]) auto
next
  case (failed row s e)
  then show ?thesis
    using rolled_back_prod [OF failed(5)]
    by (intro bexI [of _ "po_gap po BeforeSettle (po_gap po BeforeEvidence db)"]) (simp_all add: controls_of_def ledger_of_def)
qed auto

section \<open>One alert while a command is in doubt\<close>

definition row_open :: "saga_db \<Rightarrow> string \<Rightarrow> bool" where
  "row_open db c \<longleftrightarrow> (\<exists>row. ledger_select (ledger_of db) c = Some row \<and> open_for_reconcile (lr_state row))"

definition row_past :: "saga_db \<Rightarrow> string \<Rightarrow> bool" where
  "row_past db c \<longleftrightarrow> (case ledger_select (ledger_of db) c of None \<Rightarrow> True | Some row \<Rightarrow> terminal_state (lr_state row))"

text \<open>The command's row goes forward only: in flight, then settled, then purged; its id is not used again.\<close>

definition forward :: "string \<Rightarrow> saga_db \<Rightarrow> saga_db \<Rightarrow> bool" where
  "forward c db db' \<longleftrightarrow> (row_past db c \<longrightarrow> row_past db' c) \<and> (row_open db c \<longrightarrow> row_open db' c \<or> row_past db' c)"

definition sound_ledger :: "saga_db \<Rightarrow> bool" where
  "sound_ledger db \<longleftrightarrow> journal_inv db \<and> distinct (map lr_command_id (ledger_of db))"

definition others_forward :: "string \<Rightarrow> reconcile_ports \<Rightarrow> bool" where
  "others_forward c po \<longleftrightarrow> (\<forall>g db. sound_ledger db \<longrightarrow> sound_ledger (po_gap po g db) \<and> forward c db (po_gap po g db))"

text \<open>Attempts for any command, scheduling, the move to the next attempt, and what other threads commit.\<close>

inductive recon_step :: "string \<Rightarrow> reconciler \<times> saga_db \<Rightarrow> reconciler \<times> saga_db \<Rightarrow> bool" for c :: string where
  step_schedule: "recon_step c (st, db) (schedule d now st, db)"
| step_attempt: "others_forward c po \<Longrightarrow> reconcile_once po d now st db = (res, st', db') \<Longrightarrow> recon_step c (st, db) (st', db')"
| step_advance: "plan_of st d = Some plan \<Longrightarrow> recon_step c (st, db) (put_plan d (advance now plan) st, db)"
| step_others: "sound_ledger db' \<Longrightarrow> forward c db db' \<Longrightarrow> recon_step c (st, db) (st, db')"

definition alerts_of :: "string \<Rightarrow> reconciler \<Rightarrow> nat" where
  "alerts_of c st = length (filter (\<lambda>a. fst a = c) (rs_alerts st))"

definition alerted :: "string \<Rightarrow> reconciler \<Rightarrow> bool" where
  "alerted c st \<longleftrightarrow> (\<exists>plan. plan_of st c = Some plan \<and> pl_alerted plan)"

definition doubt_inv :: "string \<Rightarrow> reconciler \<times> saga_db \<Rightarrow> bool" where
  "doubt_inv c x \<longleftrightarrow> (case x of (st, db) \<Rightarrow> sound_ledger db
     \<and> (row_past db c \<or> row_open db c \<and> alerts_of c st = (if alerted c st then 1 else 0)))"

lemma plan_of_simps [simp]:
  "plan_of (put_plan d plan st) c = (if c = d then Some plan else plan_of st c)"
  "plan_of (drop_plan d st) c = (if c = d then None else plan_of st c)"
  "plan_of (st\<lparr>rs_alerts := as\<rparr>) c = plan_of st c"
  "rs_alerts (put_plan d plan st) = rs_alerts st" "rs_alerts (drop_plan d st) = rs_alerts st"
proof -
  have "map_of (filter (\<lambda>p. fst p \<noteq> d) ps) c = (if c = d then None else map_of ps c)"
    for ps :: "(string \<times> reconcile_plan) list" by (induction ps) auto
  then show "plan_of (drop_plan d st) c = (if c = d then None else plan_of st c)"
    by (simp add: plan_of_def drop_plan_def)
qed (simp_all add: plan_of_def put_plan_def drop_plan_def update_conv')

lemma forward_trans: "forward c db mid \<Longrightarrow> forward c mid db' \<Longrightarrow> forward c db db'"
  by (auto simp: forward_def)

lemma open_not_past: "row_open db c \<Longrightarrow> \<not> row_past db c"
  by (auto simp: row_open_def row_past_def open_for_reconcile_def terminal_state_def)

lemma escalate_effect:
  assumes "escalate row now st = (result, st')"
  shows "alerts_of c st' = alerts_of c st + (if lr_command_id row = c \<and> \<not> alerted c st \<and> alerted c st' then 1 else 0)
    \<and> (c \<noteq> lr_command_id row \<longrightarrow> plan_of st' c = plan_of st c) \<and> (alerted (lr_command_id row) st \<longrightarrow> alerted (lr_command_id row) st')"
  using assms
  by (cases "plan_of st (lr_command_id row)") (auto simp: escalate_def alerts_of_def alerted_def Let_def new_plan_def split: if_splits)

text \<open>An attempt and the row of the command: it goes forward, and a settled one is past.\<close>

lemma attempt_forward:
  assumes others: "others_forward c po" and sound: "sound_ledger db" and run: "reconcile_once po d now st db = (res, st', db')"
  shows "sound_ledger db' \<and> forward c db db'"
proof -
  let ?mid = "po_gap po BeforeEvidence db"
  let ?base = "po_gap po BeforeSettle ?mid"
  have mid: "sound_ledger ?mid" "forward c db ?mid" and base: "sound_ledger ?base" "forward c ?mid ?base"
    using others sound by (auto simp: others_forward_def)
  note to_base = forward_trans [OF mid(2) base(2)]
  from run show ?thesis
  proof (cases rule: reconcile_once_cases)
    case (failed row s e)
    note same = rolled_back_prod [OF failed(5)]
    have "journal_inv db'" using settle.batch_work_inv [OF _ failed(5)] base(1) by (simp add: sound_ledger_def)
    moreover have "ledger_of db' = ledger_of ?base" using same by (simp add: ledger_of_def)
    ultimately show ?thesis
      using base(1) to_base by (simp add: sound_ledger_def forward_def row_open_def row_past_def)
  next
    case (settled row s ev)
    obtain to_state outcome code where as: "settled_as row s = (to_state, outcome, code)" by (metis prod.exhaust)
    from base(1) have inv: "journal_inv ?base" "distinct (map lr_command_id (ledger_of ?base))" by (simp_all add: sound_ledger_def)
    from inv settled(1,5) as obtain current where
        sel: "\<forall>a. ledger_select (ledger_of db') a = (if a = d then Some (current\<lparr>lr_state := to_state,
          lr_outcome := Some outcome, lr_error_code := code, lr_updated_at := now\<rparr>) else ledger_select (ledger_of ?base) a)"
      and ok: "journal_inv db'" "distinct (map lr_command_id (ledger_of db'))"
      by (rule settled_row)
    have "terminal_state to_state" using settled_terminal [OF settled(3,4)] as by simp
    then have "row_past db' c \<or> (ledger_select (ledger_of db') c = ledger_select (ledger_of ?base) c)"
      using sel by (simp add: row_past_def)
    then show ?thesis
      using to_base ok by (auto simp: sound_ledger_def forward_def row_open_def row_past_def)
  qed (use sound mid in \<open>simp_all add: forward_def\<close>)
qed

lemma settled_past:
  assumes "others_forward c po" and "sound_ledger db" and row: "ledger_select (ledger_of db) d = Some row"
    and s: "try_resolve po (po_gap po BeforeEvidence db) row = Inr s" "s \<noteq> Unproven"
    and run: "mutate_batch_work (settle_work po row now s) (po_gap po BeforeSettle (po_gap po BeforeEvidence db)) = (Inr ev, db')"
  shows "row_past db' d"
proof -
  obtain to_state outcome code where as: "settled_as row s = (to_state, outcome, code)" by (metis prod.exhaust)
  have base: "journal_inv (po_gap po BeforeSettle (po_gap po BeforeEvidence db))"
      "distinct (map lr_command_id (ledger_of (po_gap po BeforeSettle (po_gap po BeforeEvidence db))))"
    using assms(1,2) by (auto simp: others_forward_def sound_ledger_def)
  have "terminal_state to_state" using settled_terminal [OF s] as by simp
  then show ?thesis by (rule_tac settled_row [OF base row run as]) (simp add: row_past_def)
qed

lemma attempt_doubt:
  assumes others: "others_forward c po" and inv: "doubt_inv c (st, db)" and run: "reconcile_once po d now st db = (res, st', db')"
  shows "doubt_inv c (st', db')"
proof -
  have sound: "sound_ledger db" using inv by (simp add: doubt_inv_def)
  note fw = attempt_forward [OF others sound run]
  show ?thesis
  proof (cases "row_past db' c")
    case False
    then have op: "row_open db c" "row_open db' c" and count: "alerts_of c st = (if alerted c st then 1 else 0)"
      using inv fw by (auto simp: doubt_inv_def forward_def)
    have "alerts_of c st' = (if alerted c st' then 1 else 0)"
      using run
    proof (cases rule: reconcile_once_cases)
      case closed
      then have "c \<noteq> d" using op(1) by (auto simp: row_open_def)
      then show ?thesis using closed(3) count by (simp add: alerts_of_def alerted_def)
    next
      case (waiting row result)
      have id: "lr_command_id row = d" using waiting(1) by (blast dest: ledger_select_Some)
      show ?thesis
        using escalate_effect [OF waiting(4), of c] count id by (cases "c = d") (auto simp: alerted_def split: if_splits)
    next
      case (settled row s ev)
      have "c \<noteq> d" using settled_past [OF others sound settled(1,3,4,5)] False by blast
      then have "plan_of st' c = plan_of st c" "alerts_of c st' = alerts_of c st"
        using settled(7,8) plan_of_simps(2) [of d st c]
        by (auto simp: plan_of_def drop_plan_def alerts_of_def split: settlement.splits)
      then show ?thesis using count by (simp add: alerted_def)
    qed (use count in simp_all)
    then show ?thesis using fw op(2) by (simp add: doubt_inv_def)
  qed (use fw in \<open>simp add: doubt_inv_def\<close>)
qed

interpretation reconciling: state_machine "recon_step c" "doubt_inv c" for c
proof unfold_locales
  fix x y :: "reconciler \<times> saga_db"
  assume "recon_step c x y" and inv: "doubt_inv c x"
  then show "doubt_inv c y"
  proof cases
    case (step_schedule st db d now)
    then show ?thesis using inv
      by (auto simp: doubt_inv_def schedule_def alerts_of_def alerted_def new_plan_def split: if_splits)
  next
    case (step_attempt po d now st db res st' db')
    then show ?thesis using attempt_doubt inv by blast
  next
    case (step_advance st d plan db now)
    then show ?thesis using inv
      by (auto simp: doubt_inv_def alerts_of_def alerted_def advance_def Let_def split: if_splits)
  next
    case (step_others db' db st)
    then show ?thesis using inv by (auto simp: doubt_inv_def forward_def)
  qed
qed

lemma run_due_steps:
  assumes "\<forall>d. others_forward c (ports d)" and "run_due_from ports now ds st db = (res, st', db')"
  shows "(recon_step c)\<^sup>*\<^sup>* (st, db) (st', db')"
  using assms(2)
proof (induction ds arbitrary: st db res)
  case (Cons d ds)
  show ?case
  proof (cases "plan_of st d")
    case None
    then show ?thesis using Cons by simp
  next
    case (Some plan)
    show ?thesis
    proof (cases "now < pl_next_due plan")
      case True
      then show ?thesis using Cons Some by simp
    next
      case False
      obtain r st1 db1 where once: "reconcile_once (ports d) d now st db = (r, st1, db1)" by (metis prod.exhaust)
      then have one: "recon_step c (st, db) (st1, db1)" using assms(1) by (blast intro: step_attempt)
      show ?thesis
      proof (cases r)
        case (Inl e)
        then have "st' = st1 \<and> db' = db1" using Cons.prems Some False once by simp
        then show ?thesis using one by blast
      next
        case (Inr result)
        let ?st = "case plan_of st1 d of None \<Rightarrow> st1 | Some plan' \<Rightarrow> put_plan d (advance now plan') st1"
        have two: "(recon_step c)\<^sup>*\<^sup>* (st1, db1) (?st, db1)"
          by (cases "plan_of st1 d") (auto intro: step_advance)
        obtain r2 where "run_due_from ports now ds ?st db1 = (r2, st', db')"
          using Cons.prems Some False once Inr by (auto split: prod.splits sum.splits)
        from Cons.IH [OF this] two one show ?thesis by (meson converse_rtranclp_into_rtranclp rtranclp_trans)
      qed
    qed
  qed
qed simp

lemma past_stays: "(recon_step c)\<^sup>*\<^sup>* x y \<Longrightarrow> doubt_inv c x \<Longrightarrow> row_past (snd x) c \<Longrightarrow> row_past (snd y) c"
proof (rule reconciling.run_stable [of c x y "\<lambda>x. row_past (snd x) c"])
  fix u v :: "reconciler \<times> saga_db"
  assume "recon_step c u v" "doubt_inv c u" "row_past (snd u) c"
  then show "row_past (snd v) c"
    by cases (auto simp: doubt_inv_def forward_def dest: attempt_forward)
qed

text \<open>An attempt for a command that stays in doubt, fifteen minutes after its plan started, leaves it alerted.\<close>

lemma attempt_alerts:
  assumes others: "others_forward c po" and sound: "sound_ledger db" and op: "row_open db c"
    and run: "reconcile_once po c now st db = (Inr result, st', db')" and wait: "\<not> row_past db' c"
    and plan: "plan_of st c = Some plan" "pl_started plan + seconds critical_after_seconds \<le> now"
  shows "alerted c st'"
  using run
proof (cases rule: reconcile_once_cases)
  case (waiting row r)
  have "lr_command_id row = c" using waiting(1) by (blast dest: ledger_select_Some)
  then show ?thesis using waiting(4) plan by (auto simp: escalate_def alerted_def Let_def split: if_splits)
next
  case (settled row s ev)
  then show ?thesis using settled_past [OF others sound settled(1,3,4,5)] wait by blast
qed (use op in \<open>auto simp: row_open_def\<close>)

lemma attempt_keeps_alerted:
  assumes "reconcile_once po d now st db = (res, st', db')" and "alerted c st" and "row_open db c" and "\<not> row_past db' c"
    and others: "others_forward c po" and sound: "sound_ledger db"
  shows "alerted c st'"
  using assms(1)
proof (cases rule: reconcile_once_cases)
  case closed
  then show ?thesis using assms(2,3) by (auto simp: alerted_def row_open_def)
next
  case (waiting row result)
  have "lr_command_id row = d" using waiting(1) by (blast dest: ledger_select_Some)
  then show ?thesis using escalate_effect [OF waiting(4), of c] assms(2) by (cases "c = d") (auto simp: alerted_def)
next
  case (settled row s ev)
  have "c \<noteq> d" using settled_past [OF others sound settled(1,3,4,5)] assms(4) by blast
  then have "plan_of st' c = plan_of st c"
    using settled(7) plan_of_simps(2) [of d st c] by (auto simp: plan_of_def drop_plan_def)
  then show ?thesis using assms(2) by (simp add: alerted_def)
qed (use assms(2) in simp_all)

text \<open>An attempt for another command leaves the plan alone.\<close>

lemma attempt_pending:
  assumes "reconcile_once po d now st db = (res, st', db')" and "c \<noteq> d"
  shows "plan_of st' c = plan_of st c"
  using assms(1)
proof (cases rule: reconcile_once_cases)
  case (waiting row result)
  have "lr_command_id row = d" using waiting(1) by (blast dest: ledger_select_Some)
  then show ?thesis using escalate_effect [OF waiting(4), of c] assms(2) by auto
next
  case (settled row s ev)
  then show ?thesis using assms(2) plan_of_simps(2) [of d st c] by (auto simp: plan_of_def drop_plan_def)
qed (use assms(2) in simp_all)

text \<open>A tick that does not raise leaves every overdue command that it did not settle alerted.\<close>

lemma run_due_alerts:
  assumes others: "\<forall>d. others_forward c (ports d)" and "run_due_from ports now ds st db = (Inr results, st', db')"
    and "doubt_inv c (st, db)" and wait: "\<not> row_past db' c"
    and "alerted c st \<or> (\<exists>plan. plan_of st c = Some plan \<and> pl_next_due plan \<le> now
           \<and> pl_started plan + seconds critical_after_seconds \<le> now \<and> c \<in> set ds)"
  shows "alerted c st'"
  using assms(2,3,5)
proof (induction ds arbitrary: st db results)
  case (Cons d ds)
  show ?case
  proof (cases "\<exists>plan. plan_of st d = Some plan \<and> pl_next_due plan \<le> now")
    case False
    then have "run_due_from ports now ds st db = (Inr results, st', db')"
      using Cons.prems(1) by (auto split: option.splits if_splits)
    moreover have "c \<noteq> d \<or> alerted c st" using False Cons.prems(3) by auto
    ultimately show ?thesis using Cons by auto
  next
    case True
    then obtain plan where plan: "plan_of st d = Some plan" "\<not> now < pl_next_due plan" by auto
    obtain result st1 db1 results' where once: "reconcile_once (ports d) d now st db = (Inr result, st1, db1)"
      and rest: "run_due_from ports now ds
          (case plan_of st1 d of None \<Rightarrow> st1 | Some plan' \<Rightarrow> put_plan d (advance now plan') st1) db1 = (Inr results', st', db')"
      using Cons.prems(1) plan by (auto split: prod.splits sum.splits)
    let ?st = "case plan_of st1 d of None \<Rightarrow> st1 | Some plan' \<Rightarrow> put_plan d (advance now plan') st1"
    have steps: "(recon_step c)\<^sup>*\<^sup>* (st, db) (st1, db1)" "(recon_step c)\<^sup>*\<^sup>* (st1, db1) (?st, db1)"
      using others once by (auto intro: step_attempt step_advance split: option.splits)
    have inv1: "doubt_inv c (st1, db1)" and inv: "doubt_inv c (?st, db1)"
      using steps reconciling.run_inv Cons.prems(2) by blast+
    have "\<not> row_past db1 c" using past_stays [OF run_due_steps [OF others rest] inv] wait by auto
    moreover from this have "row_open db c" using past_stays [OF steps(1) Cons.prems(2)] Cons.prems(2) by (auto simp: doubt_inv_def)
    moreover have "sound_ledger db" using Cons.prems(2) by (simp add: doubt_inv_def)
    ultimately have "alerted c st1 \<or> c \<noteq> d \<and> (\<exists>p. plan_of st1 c = Some p \<and> pl_next_due p \<le> now
        \<and> pl_started p + seconds critical_after_seconds \<le> now \<and> c \<in> set ds)"
      using attempt_pending [OF once] Cons.prems(3) others
        attempt_keeps_alerted [OF once] attempt_alerts [of c "ports c" db now st result st1 db1] once by (cases "c = d") auto
    then have "alerted c ?st \<or> (\<exists>p. plan_of ?st c = Some p \<and> pl_next_due p \<le> now
        \<and> pl_started p + seconds critical_after_seconds \<le> now \<and> c \<in> set ds)"
      by (cases "c = d") (auto simp: alerted_def advance_def Let_def split: option.splits)
    from Cons.IH [OF rest inv this] show ?thesis .
  qed
qed simp


text \<open>
  C12. While a command is in doubt, its operator hears of it exactly once. Over any interleaving of ticks, attempts,
  scheduling and commits of other threads, there is at most one alert for a command that is neither settled nor
  purged; its plan remembers it. And a tick that does not raise, fifteen minutes after the plan started, with the
  command due and still unproven, has sent it.
\<close>

theorem one_alert_in_doubt:
  assumes "(recon_step c)\<^sup>*\<^sup>* (st, db) (st1, db1)" and "sound_ledger db" and "row_open db c"
    and "alerts_of c st = 0" and "\<not> alerted c st"
    and others: "\<forall>d. others_forward c (ports d)" and tick: "run_due ports now st1 db1 = (res, st', db')"
    and wait: "\<not> row_past db' c"
  shows "alerts_of c st' \<le> 1 \<and> (alerts_of c st' = 1 \<longleftrightarrow> alerted c st')
    \<and> (\<forall>plan results. plan_of st1 c = Some plan \<longrightarrow> pl_next_due plan \<le> now
         \<longrightarrow> pl_started plan + seconds critical_after_seconds \<le> now \<longrightarrow> res = Inr results \<longrightarrow> alerts_of c st' = 1)"
proof -
  have "doubt_inv c (st, db)" using assms(2-5) by (simp add: doubt_inv_def)
  then have inv1: "doubt_inv c (st1, db1)" using reconciling.run_inv [OF assms(1)] by blast
  note due = tick [unfolded run_due_def]
  have "doubt_inv c (st', db')" using reconciling.run_inv [OF run_due_steps [OF others due] inv1] .
  then have count: "alerts_of c st' = (if alerted c st' then 1 else 0)" using wait by (simp add: doubt_inv_def)
  have "alerted c st'" if "plan_of st1 c = Some plan" "pl_next_due plan \<le> now"
      "pl_started plan + seconds critical_after_seconds \<le> now" "res = Inr results" for plan results
  proof (rule run_due_alerts [OF others due [unfolded that(4)] inv1 wait])
    have "c \<in> set (map fst (rs_plans st1))" using that(1) by (auto simp: plan_of_def dest: map_of_SomeD intro!: image_eqI)
    then show "alerted c st1 \<or> (\<exists>plan. plan_of st1 c = Some plan \<and> pl_next_due plan \<le> now
        \<and> pl_started plan + seconds critical_after_seconds \<le> now \<and> c \<in> set (map fst (rs_plans st1)))"
      using that by blast
  qed
  with count show ?thesis by simp
qed

section \<open>The loop of the trader service\<close>

text \<open>
  \<open>_command_reconciliation_loop\<close> of \<^verbatim>\<open>src/trader/trader_service.py\<close>: one tick every few seconds; an exception of
  the tick, or of the daily retention, is logged and the loop goes on. A tick reads the clock for the attempts, for
  the retention check, for the purge and for the new retention mark.
\<close>

record loop_tick =
  lt_ports :: "string \<Rightarrow> reconcile_ports"
  lt_now :: instant
  lt_checked_at :: instant
  lt_purged_at :: instant
  lt_marked_at :: instant
  lt_purge_ok :: bool

definition retention_step :: "loop_tick \<Rightarrow> instant \<Rightarrow> saga_db \<Rightarrow> instant \<times> saga_db" where
  "retention_step t last_retention db =
     (if seconds 86400 \<le> lt_checked_at t - last_retention \<and> lt_purge_ok t
      then (lt_marked_at t, set_ledger (snd (purge_expired (Aware (lt_purged_at t)) (ledger_of db))) db)
      else (last_retention, db))"

fun command_reconciliation_loop ::
    "loop_tick list \<Rightarrow> instant \<Rightarrow> reconciler \<Rightarrow> saga_db \<Rightarrow> instant \<times> reconciler \<times> saga_db" where
  "command_reconciliation_loop [] last_retention st db = (last_retention, st, db)"
| "command_reconciliation_loop (t # ts) last_retention st db =
     (case run_due (lt_ports t) (lt_now t) st db of (_, st', db') \<Rightarrow>
       (case retention_step t last_retention db' of (last', db'') \<Rightarrow> command_reconciliation_loop ts last' st' db''))"

lemma purge_keeps_open:
  assumes "row_open db d"
  shows "ledger_select (snd (purge_expired now (ledger_of db))) d = ledger_select (ledger_of db) d"
proof -
  have keep: "fetchone (filter P (filter Q rows)) = Some r" if "fetchone (filter P rows) = Some r" "Q r"
    for P Q and rows :: "ledger_row list" and r
    using that by (induction rows) (auto split: if_splits)
  obtain r where r: "ledger_select (ledger_of db) d = Some r" "\<not> terminal_state (lr_state r)"
    using assms by (auto simp: row_open_def open_for_reconcile_def terminal_state_def)
  then show ?thesis unfolding ledger_select_def purge_expired_def Let_def snd_conv by (intro keep [THEN trans]) auto
qed

lemma retention_keeps:
  assumes "retention_step t last_retention db = (last', db')"
  shows "proposals_of db' = proposals_of db" and "row_open db d \<Longrightarrow> ledger_select (ledger_of db') d = ledger_select (ledger_of db) d"
  using assms by (auto simp: retention_step_def purge_keeps_open split: if_splits)

text \<open>
  C13. One command whose evidence cannot be read stops the reconciliation of all the others. While the plan that was
  registered first is due and its authority raises, every tick of the service's loop raises at it: no other plan is
  attempted, no command in flight is settled, and nobody is alerted, not even about that command, however many ticks
  and however much time pass.
\<close>

theorem raising_evidence_stops_ticks:
  assumes plans: "rs_plans st = (c, plan) # rest"
    and row: "ledger_select (ledger_of db) c = Some row" and op: "open_for_reconcile (lr_state row)"
    and ticks: "\<forall>t \<in> set ticks. pl_next_due plan \<le> lt_now t \<and> (\<forall>g x. po_gap (lt_ports t c) g x = x)
      \<and> (\<forall>x. try_resolve (lt_ports t c) x row = Inl PortRaised)"
    and run: "command_reconciliation_loop ticks last_retention st db = (last', st', db')"
  shows "st' = st \<and> proposals_of db' = proposals_of db
    \<and> (\<forall>d. row_open db d \<longrightarrow> ledger_select (ledger_of db') d = ledger_select (ledger_of db) d)"
  using row ticks run
proof (induction ticks arbitrary: last_retention db)
  case (Cons t ts)
  have tick: "run_due (lt_ports t) (lt_now t) st db = (Inl PortRaised, st, db)"
    using Cons.prems(1,2) op by (simp add: run_due_def plans plan_of_def reconcile_once_def Let_def)
  obtain last1 mid where r: "retention_step t last_retention db = (last1, mid)" by fastforce
  note keep = retention_keeps [OF r]
  have "ledger_select (ledger_of mid) c = Some row" using keep(2) [of c] Cons.prems(1) op by (simp add: row_open_def)
  moreover have "row_open mid d" if "row_open db d" for d using that keep(2) [OF that] by (simp add: row_open_def)
  moreover have "command_reconciliation_loop ts last1 st mid = (last', st', db')" using Cons.prems(3) tick r by simp
  ultimately show ?case using Cons.IH [of mid last1] Cons.prems(2) keep by simp
qed simp

section \<open>Recovery leaves no command in flight unwatched\<close>

text \<open>What the rescan may do to a row.\<close>

definition crash_orphaned :: "instant \<Rightarrow> ledger_row \<Rightarrow> ledger_row" where
  "crash_orphaned t row =
     row\<lparr>lr_state := Rejected, lr_outcome := None, lr_error_code := Some ''CRASH_ORPHANED'', lr_updated_at := t\<rparr>"

definition parked :: "instant \<Rightarrow> ledger_row \<Rightarrow> ledger_row" where
  "parked t row =
     row\<lparr>lr_state := OutcomeUnknown, lr_outcome := None, lr_error_code := Some ''RECEIVED_AT_RESTART'', lr_updated_at := t\<rparr>"

lemma recovered_rows [simp]:
  "lr_state (crash_orphaned t row) = Rejected" "lr_action (crash_orphaned t row) = lr_action row"
  "lr_state (parked t row) = OutcomeUnknown" "lr_action (parked t row) = lr_action row"
  by (simp_all add: crash_orphaned_def parked_def)

definition recovered :: "ledger_row \<Rightarrow> ledger_row \<Rightarrow> bool" where
  "recovered row row' \<longleftrightarrow> row' = row
     \<or> (lr_state row = Validated \<or> lr_state row = Received \<and> lr_action row \<in> set saga_actions_idle_while_received)
         \<and> (\<exists>t. row' = crash_orphaned t row)
     \<or> lr_state row = Received \<and> lr_action row \<notin> set saga_actions_idle_while_received \<and> (\<exists>t. row' = parked t row)"

definition recovers :: "saga_db \<Rightarrow> saga_db \<Rightarrow> bool" where
  "recovers db db' \<longleftrightarrow> sound_ledger db' \<and> (\<forall>a. rel_option recovered (ledger_select (ledger_of db) a) (ledger_select (ledger_of db') a))"

lemma recovered_trans: "recovered a b \<Longrightarrow> recovered b c \<Longrightarrow> recovered a c"
  unfolding recovered_def by auto

lemma recovers_refl: "sound_ledger db \<Longrightarrow> recovers db db"
  by (auto simp: recovers_def option.rel_refl recovered_def)

lemma recovers_trans:
  assumes "recovers a b" and "recovers b c"
  shows "recovers a c"
proof -
  have "rel_option recovered x z" if "rel_option recovered x y" "rel_option recovered y z" for x y z
    using that by (cases x; cases y; cases z) (auto intro: recovered_trans)
  with assms show ?thesis unfolding recovers_def by blast
qed

lemma settle_row_step:
  assumes sound: "sound_ledger db"
    and run: "mutate_batch_work (settle_row_work po row now to_state outcome code) db = (res, db')"
  shows "sound_ledger db' \<and> (if is_ok res
      then \<exists>current. ledger_select (ledger_of db) (lr_command_id row) = Some current \<and> lr_state current = lr_state row
        \<and> (\<forall>a. ledger_select (ledger_of db') a = (if a = lr_command_id row then Some (current\<lparr>lr_state := to_state,
             lr_outcome := outcome, lr_error_code := code, lr_updated_at := now\<rparr>) else ledger_select (ledger_of db) a))
      else ledger_of db' = ledger_of db)"
proof (cases res)
  case (Inl e)
  then have "jd_prod db' = jd_prod db" using rolled_back_prod run by blast
  then show ?thesis
    using Inl settle_row.batch_work_inv [OF _ run] sound by (simp add: sound_ledger_def ledger_of_def)
next
  case (Inr ev)
  from run [unfolded Inr] obtain m where
      w: "settle_row_work po row now to_state outcome code (db\<lparr>jd_open_events := []\<rparr>) = (Inr ev, m)"
    and prod: "jd_prod db' = jd_prod m" by (rule batch_work_prod) auto
  have inv: "journal_inv (db\<lparr>jd_open_events := []\<rparr>)" and dist: "distinct (map lr_command_id (ledger_of db))"
    using sound by (simp_all add: sound_ledger_def)
  have "ledger_of m = ledger_of db'" by (simp add: ledger_of_def prod)
  with settle_row_ok [OF inv w] obtain lrow where tr: "transition_in_tx (lr_command_id row) (lr_state row) to_state outcome code
      now (ledger_of db) = Some (lrow, ledger_of db')" by (metis open_events_blind(2))
  obtain current where cur: "ledger_select (ledger_of db) (lr_command_id row) = Some current" "lr_state current = lr_state row"
    using transition_from [OF dist tr] by blast
  have ids: "map lr_command_id (ledger_of db') = map lr_command_id (ledger_of db)"
    and sel: "\<forall>a. ledger_select (ledger_of db') a = (if a = lr_command_id row then Some (current\<lparr>lr_state := to_state,
      lr_outcome := outcome, lr_error_code := code, lr_updated_at := now\<rparr>) else ledger_select (ledger_of db) a)"
    using transition_ok [OF dist cur, of to_state outcome code now] unfolding tr by auto
  have "journal_inv db'" using settle_row.batch_work_inv [OF _ run] sound by (simp add: sound_ledger_def)
  then show ?thesis using Inr ids sel cur dist by (simp add: sound_ledger_def)
qed

text \<open>The two transactions of the rescan, with no other thread running yet.\<close>

lemma orphan_recovers:
  assumes sound: "sound_ledger db" and quiet: "po_gap po BeforeSettle db = db"
    and row: "lr_state row = Validated \<or> lr_state row = Received \<and> lr_action row \<in> set saga_actions_idle_while_received"
    and same: "\<forall>current. ledger_select (ledger_of db) (lr_command_id row) = Some current \<longrightarrow> lr_action current = lr_action row"
    and run: "terminalize_pre_dispatch_orphan po row st db = (ok, st', db')"
  shows "recovers db db'" and "if ok then st' = drop_plan (lr_command_id row) st \<and> \<not> row_open db' (lr_command_id row)
    else st' = st" and "\<forall>a. row_open db' a \<longrightarrow> row_open db a"
proof -
  obtain res d where b: "mutate_batch_work (orphan_work po row) db = (res, d)" by fastforce
  note step = settle_row_step [OF sound b [unfolded orphan_work_def]]
  have d: "d = db'" and ok: "ok = is_ok res" and st: "st' = (if ok then drop_plan (lr_command_id row) st else st)"
    using run b by (cases res; simp add: terminalize_pre_dispatch_orphan_def quiet)+
  have "recovers db db' \<and> (ok \<longrightarrow> \<not> row_open db' (lr_command_id row)) \<and> (\<forall>a. row_open db' a \<longrightarrow> row_open db a)"
  proof (cases ok)
    case False
    then show ?thesis using step ok d by (simp add: recovers_def option.rel_refl recovered_def row_open_def)
  next
    case True
    then obtain current where cur: "ledger_select (ledger_of db) (lr_command_id row) = Some current" "lr_state current = lr_state row"
      and sel: "\<forall>a. ledger_select (ledger_of db') a = (if a = lr_command_id row then Some (crash_orphaned (po_now po) current)
             else ledger_select (ledger_of db) a)"
      using step ok d by (auto simp: crash_orphaned_def)
    have rec: "recovered current (crash_orphaned (po_now po) current)"
      using row cur same by (auto simp: recovered_def)
    have "rel_option recovered (ledger_select (ledger_of db) a) (ledger_select (ledger_of db') a)" for a
      using sel cur(1) rec by (auto simp: option.rel_refl recovered_def)
    then show ?thesis using step d sel by (auto simp: recovers_def row_open_def open_for_reconcile_def)
  qed
  then show "recovers db db'" "if ok then st' = drop_plan (lr_command_id row) st \<and> \<not> row_open db' (lr_command_id row) else st' = st"
      "\<forall>a. row_open db' a \<longrightarrow> row_open db a"
    using st by simp_all
qed

lemma park_recovers:
  assumes sound: "sound_ledger db" and quiet: "po_gap po BeforeSettle db = db"
    and action: "lr_action row \<notin> set saga_actions_idle_while_received"
    and same: "\<forall>current. ledger_select (ledger_of db) (lr_command_id row) = Some current \<longrightarrow> lr_action current = lr_action row"
  shows "recovers db (park_received po row db)"
proof -
  obtain res d where b: "mutate_batch_work (settle_row_work po (row\<lparr>lr_state := Received\<rparr>) (po_now po) OutcomeUnknown None
       (Some ''RECEIVED_AT_RESTART'')) db = (res, d)" by fastforce
  note step = settle_row_step [OF sound b]
  have d: "park_received po row db = d" by (simp add: park_received_def quiet b)
  show ?thesis
  proof (cases "is_ok res")
    case False
    then show ?thesis using step d by (simp add: recovers_def option.rel_refl recovered_def)
  next
    case True
    then obtain current where cur: "ledger_select (ledger_of db) (lr_command_id row) = Some current" "lr_state current = Received"
      and sel: "\<forall>a. ledger_select (ledger_of d) a = (if a = lr_command_id row then Some (parked (po_now po) current)
             else ledger_select (ledger_of db) a)"
      using step by (auto simp: parked_def)
    have rec: "recovered current (parked (po_now po) current)"
      using action cur same by (auto simp: recovered_def)
    have "rel_option recovered (ledger_select (ledger_of db) a) (ledger_select (ledger_of d) a)" for a
      using sel cur(1) rec by (auto simp: option.rel_refl recovered_def)
    then show ?thesis using step d by (simp add: recovers_def)
  qed
qed

lemma recovers_action:
  "recovers db db' \<Longrightarrow> ledger_select (ledger_of db') a = Some row' \<Longrightarrow>
     \<exists>row. ledger_select (ledger_of db) a = Some row \<and> lr_action row = lr_action row' \<and> recovered row row'"
proof -
  assume "recovers db db'" and row': "ledger_select (ledger_of db') a = Some row'"
  then have "rel_option recovered (ledger_select (ledger_of db) a) (Some row')" by (metis recovers_def)
  then obtain row where row: "ledger_select (ledger_of db) a = Some row" "recovered row row'" by (cases rule: option.rel_cases) auto
  then have "lr_action row = lr_action row'" unfolding recovered_def by auto
  with row show ?thesis by blast
qed

definition same_actions :: "ledger_row list \<Rightarrow> saga_db \<Rightarrow> bool" where
  "same_actions rows db \<longleftrightarrow> (\<forall>row \<in> set rows. \<forall>current.
     ledger_select (ledger_of db) (lr_command_id row) = Some current \<longrightarrow> lr_action current = lr_action row)"

lemma same_actions_recovers: "same_actions rows db \<Longrightarrow> recovers db db' \<Longrightarrow> same_actions rows db'"
  unfolding same_actions_def by (metis recovers_action)

lemma settle_received_recovers:
  assumes "sound_ledger db" and quiet: "\<forall>c g x. po_gap (ports c) g x = x" and "same_actions rows db"
    and "\<forall>row \<in> set rows. lr_state row = Received" and "settle_received ports rows st db = (st', db')"
  shows "recovers db db'"
  using assms(1,3-5)
proof (induction rows arbitrary: st db)
  case Nil
  then show ?case by (simp add: recovers_refl)
next
  case (Cons row rest)
  have same: "\<forall>current. ledger_select (ledger_of db) (lr_command_id row) = Some current \<longrightarrow> lr_action current = lr_action row"
    using Cons.prems(2) by (simp add: same_actions_def)
  show ?case
  proof (cases "lr_action row \<in> set saga_actions_idle_while_received")
    case True
    obtain ok st1 mid where t: "terminalize_pre_dispatch_orphan (ports (lr_command_id row)) row st db = (ok, st1, mid)"
      by (metis prod.exhaust)
    have one: "recovers db mid"
      using orphan_recovers(1) [OF Cons.prems(1) _ _ same t] quiet True Cons.prems(3) by simp
    have "recovers mid db'"
      using Cons.IH [of mid st1] one same_actions_recovers [OF Cons.prems(2) one] Cons.prems(3,4) True t
      by (simp add: recovers_def Let_def same_actions_def)
    then show ?thesis using one recovers_trans by blast
  next
    case False
    let ?mid = "park_received (ports (lr_command_id row)) row db"
    have one: "recovers db ?mid" using park_recovers [OF Cons.prems(1) _ False same] quiet by simp
    have "recovers ?mid db'"
      using Cons.IH [of ?mid st] one same_actions_recovers [OF Cons.prems(2) one] Cons.prems(3,4) False
      by (simp add: recovers_def Let_def same_actions_def)
    then show ?thesis using one recovers_trans by blast
  qed
qed

lemma schedule_all_plans:
  "plan_of (schedule_all ports rows st) c \<noteq> None \<longleftrightarrow> c \<in> lr_command_id ` set rows \<or> plan_of st c \<noteq> None"
  by (induction rows arbitrary: st) (auto simp: schedule_all_def schedule_def)

lemma terminalize_orphans_recovers:
  assumes "sound_ledger db" and quiet: "\<forall>c g x. po_gap (ports c) g x = x" and "same_actions rows db"
    and "\<forall>row \<in> set rows. lr_state row = Validated" and "terminalize_orphans ports rows st db = (ids, st', db')"
  shows "recovers db db' \<and> (\<forall>c. row_open db' c \<longrightarrow> row_open db c \<and> plan_of st' c = plan_of st c)"
  using assms(1,3-5)
proof (induction rows arbitrary: st db ids)
  case Nil
  then show ?case by (simp add: recovers_refl)
next
  case (Cons row rest)
  obtain ok st1 mid where t: "terminalize_pre_dispatch_orphan (ports (lr_command_id row)) row st db = (ok, st1, mid)"
    by (metis prod.exhaust)
  then obtain ids' where rest: "terminalize_orphans ports rest st1 mid = (ids', st', db')"
    using Cons.prems(4) by (auto split: prod.splits)
  have same: "\<forall>current. ledger_select (ledger_of db) (lr_command_id row) = Some current \<longrightarrow> lr_action current = lr_action row"
    using Cons.prems(2) by (simp add: same_actions_def)
  have q: "po_gap (ports (lr_command_id row)) BeforeSettle db = db" using quiet by simp
  have v: "lr_state row = Validated \<or> lr_state row = Received \<and> lr_action row \<in> set saga_actions_idle_while_received"
    using Cons.prems(3) by simp
  note one = orphan_recovers [OF Cons.prems(1) q v same t]
  have later: "recovers mid db' \<and> (\<forall>c. row_open db' c \<longrightarrow> row_open mid c \<and> plan_of st' c = plan_of st1 c)"
    using Cons.IH [OF _ _ _ rest] one(1) same_actions_recovers [OF Cons.prems(2) one(1)] Cons.prems(3)
    by (simp add: recovers_def same_actions_def)
  have "plan_of st1 c = plan_of st c" if "row_open mid c" for c
    using one(2) that by (cases "c = lr_command_id row") (auto split: if_splits)
  moreover have "recovers db db'" using recovers_trans [OF one(1)] later by blast
  ultimately show ?case using later one(3) by simp
qed

text \<open>
  The commands an earlier process left received or validated. None of them has been settled before, so the journal holds neither of the
  events that would settle it.
\<close>

definition pending :: "saga_db \<Rightarrow> string \<Rightarrow> bool" where
  "pending db c \<longleftrightarrow> (\<exists>row. ledger_select (ledger_of db) c = Some row \<and> lr_state row \<in> {Received, Validated})"

definition unsettled_pending :: "saga_db \<Rightarrow> bool" where
  "unsettled_pending db \<longleftrightarrow> (\<forall>c. pending db c \<longrightarrow>
     \<not> journal_has db (command_event_id c Rejected) \<and> \<not> journal_has db (command_event_id c OutcomeUnknown))"

lemma command_event_id_command: "command_event_id c s = command_event_id i t \<Longrightarrow> c = i"
proof -
  let ?before = "\<lambda>x. dropWhile (\<lambda>z. z \<noteq> CHR '':'') (rev x)"
  have "list_all (\<lambda>s. CHR '':'' \<notin> set (lower (command_state_str s)))
      [Received, Validated, Submitting, Submitted, Rejected, OutcomeUnknown, Resolved]" by code_simp
  then have "CHR '':'' \<notin> set (lower (command_state_str s))" for s by (cases s) simp_all
  then have no_colon: "\<forall>z \<in> set (lower (command_state_str s)). z \<noteq> CHR '':''" for s by metis
  have shape: "?before (command_event_id c s) = CHR '':'' # rev (''command:'' @ c)" for c s
    unfolding command_event_id_def rev_append rev.simps append_assoc
    by (subst dropWhile_append2) (use no_colon [of s] in auto)
  assume "command_event_id c s = command_event_id i t"
  then have "?before (command_event_id c s) = ?before (command_event_id i t)" by (rule arg_cong)
  then show "c = i" unfolding shape by simp
qed

lemma settle_clears:
  assumes sound: "sound_ledger db" and un: "unsettled_pending db"
    and cur: "ledger_select (ledger_of db) (lr_command_id row) = Some current" "lr_state current = lr_state row"
    and st: "lr_state row \<in> {Received, Validated}" "to_state \<in> {Rejected, OutcomeUnknown}"
    and run: "mutate_batch_work (settle_row_work po row now to_state outcome code) db = (res, db')"
  shows "is_ok res" and "sound_ledger db'" and "unsettled_pending db'" and "pending db' c \<longleftrightarrow> pending db c \<and> c \<noteq> lr_command_id row"
    and "c \<noteq> lr_command_id row \<Longrightarrow> ledger_select (ledger_of db') c = ledger_select (ledger_of db) c"
proof -
  let ?i = "lr_command_id row" and ?e = "command_event_id (lr_command_id row) to_state"
  have inv: "journal_inv db" and dist: "distinct (map lr_command_id (ledger_of db))" using sound by (simp_all add: sound_ledger_def)
  obtain lrow rows where tr: "transition_in_tx ?i (lr_state row) to_state outcome code now (ledger_of db) = Some (lrow, rows)"
    using transition_ok [OF dist cur, of to_state outcome code now] by blast
  let ?d = "set_ledger rows (db\<lparr>jd_open_events := []\<rparr>)"
  have "pending db ?i" using cur st(1) by (simp add: pending_def)
  then have "\<not> journal_has db ?e" using un st(2) by (auto simp: unsettled_pending_def)
  then have new: "select_journal_row ?d ?e = None" by (simp add: select_journal_row_None journal_has_def set_ledger_def)
  have "settle_row_work po row now to_state outcome code (db\<lparr>jd_open_events := []\<rparr>)
      = (Inr (row_to_event (fresh_row (po_journaled po) ?e (command_mutation row to_state now outcome code) ?d)),
         appended (po_journaled po) ?e (command_mutation row to_state now outcome code) (jd_prod ?d) ?d)"
    using append_fresh [OF _ new] inv tr by (simp add: settle_row_work_def)
  then have ok: "is_ok res" and rows: "map jr_event_id (jd_rows db') = map jr_event_id (jd_rows db) @ [?e]"
    using run by (auto simp: mutate_batch_work_def set_ledger_def signal_commit_def split: if_splits)
  have has: "journal_has db' x \<longleftrightarrow> journal_has db x \<or> x = ?e" for x
  proof -
    have mem: "journal_has d x \<longleftrightarrow> x \<in> set (map jr_event_id (jd_rows d))" for d by (auto simp: journal_has_def)
    show ?thesis unfolding mem rows by auto
  qed
  from settle_row_step [OF sound run] ok obtain c0 where s': "sound_ledger db'"
    and sel: "\<forall>a. ledger_select (ledger_of db') a = (if a = ?i then Some (c0\<lparr>lr_state := to_state,
         lr_outcome := outcome, lr_error_code := code, lr_updated_at := now\<rparr>) else ledger_select (ledger_of db) a)" by auto
  have p: "pending db' c \<longleftrightarrow> pending db c \<and> c \<noteq> ?i" for c using sel st(2) by (auto simp: pending_def)
  show "is_ok res" "sound_ledger db'" using ok s' .
  show "unsettled_pending db'" unfolding unsettled_pending_def
  proof (intro allI impI)
    fix c assume "pending db' c"
    then have "pending db c" "c \<noteq> ?i" using p by simp_all
    then show "\<not> journal_has db' (command_event_id c Rejected) \<and> \<not> journal_has db' (command_event_id c OutcomeUnknown)"
      using un command_event_id_command unfolding has unsettled_pending_def by blast
  qed
  show "pending db' c \<longleftrightarrow> pending db c \<and> c \<noteq> ?i" by (rule p)
  show "c \<noteq> ?i \<Longrightarrow> ledger_select (ledger_of db') c = ledger_select (ledger_of db) c" using sel by simp
qed

text \<open>The rows a loop works on are still in the ledger as they were read, one for each command.\<close>

definition still_there :: "ledger_row list \<Rightarrow> saga_db \<Rightarrow> bool" where
  "still_there rows db \<longleftrightarrow> distinct (map lr_command_id rows) \<and> (\<forall>row \<in> set rows. ledger_select (ledger_of db) (lr_command_id row) = Some row)"

lemma still_there_Cons:
  assumes "still_there (row # rest) db"
    and "\<And>c. c \<noteq> lr_command_id row \<Longrightarrow> ledger_select (ledger_of db') c = ledger_select (ledger_of db) c"
  shows "still_there rest db'"
  using assms by (auto simp: still_there_def image_iff)

lemma orphan_clears:
  assumes sound: "sound_ledger db" "unsettled_pending db" and quiet: "po_gap po BeforeSettle db = db"
    and row: "ledger_select (ledger_of db) (lr_command_id row) = Some row" "lr_state row \<in> {Received, Validated}"
    and run: "terminalize_pre_dispatch_orphan po row st db = (ok, st', db')"
  shows "sound_ledger db'" and "unsettled_pending db'" and "pending db' c \<longleftrightarrow> pending db c \<and> c \<noteq> lr_command_id row"
    and "c \<noteq> lr_command_id row \<Longrightarrow> ledger_select (ledger_of db') c = ledger_select (ledger_of db) c"
proof -
  obtain res d where b: "mutate_batch_work (orphan_work po row) db = (res, d)" by fastforce
  have d: "d = db'" using run b by (cases res; simp add: terminalize_pre_dispatch_orphan_def quiet)
  note cl = settle_clears [OF sound row(1) refl row(2) _ b [unfolded orphan_work_def d]]
  show "sound_ledger db'" "unsettled_pending db'" "pending db' c \<longleftrightarrow> pending db c \<and> c \<noteq> lr_command_id row"
    "c \<noteq> lr_command_id row \<Longrightarrow> ledger_select (ledger_of db') c = ledger_select (ledger_of db) c" by (rule cl; simp)+
qed

lemma park_clears:
  assumes sound: "sound_ledger db" "unsettled_pending db" and quiet: "po_gap po BeforeSettle db = db"
    and row: "ledger_select (ledger_of db) (lr_command_id row) = Some row" "lr_state row = Received"
  shows "sound_ledger (park_received po row db)" and "unsettled_pending (park_received po row db)"
    and "pending (park_received po row db) c \<longleftrightarrow> pending db c \<and> c \<noteq> lr_command_id row"
    and "c \<noteq> lr_command_id row \<Longrightarrow> ledger_select (ledger_of (park_received po row db)) c = ledger_select (ledger_of db) c"
proof -
  have same: "row\<lparr>lr_state := Received\<rparr> = row" using row(2) by simp
  obtain res d where b: "mutate_batch_work (settle_row_work po row (po_now po) OutcomeUnknown None
       (Some ''RECEIVED_AT_RESTART'')) db = (res, d)" by fastforce
  have d: "park_received po row db = d" by (simp add: park_received_def quiet same b)
  note cl = settle_clears [OF sound row(1) refl _ _ b]
  show "sound_ledger (park_received po row db)" "unsettled_pending (park_received po row db)"
    "pending (park_received po row db) c \<longleftrightarrow> pending db c \<and> c \<noteq> lr_command_id row"
    "c \<noteq> lr_command_id row \<Longrightarrow> ledger_select (ledger_of (park_received po row db)) c = ledger_select (ledger_of db) c"
    unfolding d by (rule cl; simp add: row(2))+
qed

lemma settle_received_clears:
  assumes "sound_ledger db" and "unsettled_pending db" and quiet: "\<forall>c g x. po_gap (ports c) g x = x" and "still_there rows db"
    and "\<forall>row \<in> set rows. lr_state row = Received" and "settle_received ports rows st db = (st', db')"
  shows "sound_ledger db' \<and> unsettled_pending db' \<and> (\<forall>c. pending db' c \<longleftrightarrow> pending db c \<and> c \<notin> lr_command_id ` set rows)"
  using assms(1,2,4-6)
proof (induction rows arbitrary: st db)
  case (Cons row rest)
  have row: "ledger_select (ledger_of db) (lr_command_id row) = Some row" "lr_state row = Received" "lr_state row \<in> {Received, Validated}"
    using Cons.prems(3,4) by (simp_all add: still_there_def)
  have q: "po_gap (ports (lr_command_id row)) BeforeSettle db = db" using quiet by simp
  show ?case
  proof (cases "lr_action row \<in> set saga_actions_idle_while_received")
    case True
    obtain ok st1 mid where t: "terminalize_pre_dispatch_orphan (ports (lr_command_id row)) row st db = (ok, st1, mid)"
      by (metis prod.exhaust)
    note cl = orphan_clears [OF Cons.prems(1,2) q row(1,3) t]
    have "settle_received ports rest st1 mid = (st', db')" using Cons.prems(5) True t by (simp add: Let_def)
    from Cons.IH [OF cl(1,2) still_there_Cons [OF Cons.prems(3) cl(4)] _ this] Cons.prems(4) cl(3) show ?thesis by auto
  next
    case False
    note cl = park_clears [OF Cons.prems(1,2) q row(1,2)]
    have "settle_received ports rest st (park_received (ports (lr_command_id row)) row db) = (st', db')"
      using Cons.prems(5) False by (simp add: Let_def)
    from Cons.IH [OF cl(1,2) still_there_Cons [OF Cons.prems(3) cl(4)] _ this] Cons.prems(4) cl(3) show ?thesis by auto
  qed
qed simp

lemma terminalize_orphans_clears:
  assumes "sound_ledger db" and "unsettled_pending db" and quiet: "\<forall>c g x. po_gap (ports c) g x = x" and "still_there rows db"
    and "\<forall>row \<in> set rows. lr_state row = Validated" and "terminalize_orphans ports rows st db = (ids, st', db')"
  shows "\<forall>c. pending db' c \<longleftrightarrow> pending db c \<and> c \<notin> lr_command_id ` set rows"
  using assms(1,2,4-6)
proof (induction rows arbitrary: st db ids)
  case (Cons row rest)
  have row: "ledger_select (ledger_of db) (lr_command_id row) = Some row" "lr_state row \<in> {Received, Validated}"
    using Cons.prems(3,4) by (simp_all add: still_there_def)
  have q: "po_gap (ports (lr_command_id row)) BeforeSettle db = db" using quiet by simp
  obtain ok st1 mid where t: "terminalize_pre_dispatch_orphan (ports (lr_command_id row)) row st db = (ok, st1, mid)"
    by (metis prod.exhaust)
  then obtain ids' where rest: "terminalize_orphans ports rest st1 mid = (ids', st', db')"
    using Cons.prems(5) by (auto split: prod.splits)
  note cl = orphan_clears [OF Cons.prems(1,2) q row t]
  from Cons.IH [OF cl(1,2) still_there_Cons [OF Cons.prems(3) cl(4)] _ rest] Cons.prems(4) cl(3) show ?case by auto
qed simp

text \<open>
  C11. After the recovery at start no command in flight is unwatched. Every command that is submitting, submitted or of unknown outcome
  has a plan, so its evidence is read until it is settled. If the journal holds no settlement of the commands an earlier process left
  received or validated, then none of them stays so: a validated one, and a received one whose action does nothing while received, is
  rejected as never started; every other received one is parked as unknown, for it may have written something; and every other row is as
  it was.
\<close>

theorem rescan_watches_every_command:
  assumes sound: "sound_ledger db" and un: "unsettled_pending db" and quiet: "\<forall>c g x. po_gap (ports c) g x = x"
    and start: "rs_received_at_start st = received (ledger_of db)" and run: "rescan_on_startup ports st db = (ids, st', db')"
  shows "(\<forall>c. row_open db' c \<longrightarrow> plan_of st' c \<noteq> None)
    \<and> (\<forall>c row. ledger_select (ledger_of db) c = Some row \<longrightarrow>
         (if lr_state row = Validated \<or> lr_state row = Received \<and> lr_action row \<in> set saga_actions_idle_while_received
          then \<exists>t. ledger_select (ledger_of db') c = Some (crash_orphaned t row)
          else if lr_state row = Received then \<exists>t. ledger_select (ledger_of db') c = Some (parked t row)
          else ledger_select (ledger_of db') c = Some row))"
proof -
  obtain st1 db1 where park: "park_received_at_start ports st db = (st1, db1)" by fastforce
  let ?st2 = "schedule_all ports (reconcilable (ledger_of db1)) st1"
  obtain ids' where orphans: "terminalize_orphans ports (pre_dispatch_orphans (ledger_of db1)) ?st2 db1 = (ids', st', db')"
    using run park by (auto simp: rescan_on_startup_def Let_def split: prod.splits)
  have rows: "set (received l) = {r \<in> set l. lr_state r = Received}" "set (pre_dispatch_orphans l) = {r \<in> set l. lr_state r = Validated}" for l
    by (auto simp: received_def pre_dispatch_orphans_def)
  have there: "still_there (received (ledger_of x)) x" "still_there (pre_dispatch_orphans (ledger_of x)) x" if "sound_ledger x" for x
    using that by (auto simp: still_there_def sound_ledger_def rows intro!: ledger_select_mem)
      (auto simp: received_def pre_dispatch_orphans_def distinct_map intro: inj_on_subset)
  have own: "same_actions rows x" if "still_there rows x" for rows x
    using that by (auto simp: still_there_def same_actions_def)
  note settle = park [unfolded park_received_at_start_def start]
  have one: "recovers db db1"
    by (rule settle_received_recovers [OF sound quiet own [OF there(1) [OF sound]] _ settle]) (simp add: rows)
  have clear1: "sound_ledger db1 \<and> unsettled_pending db1 \<and> (\<forall>c. pending db1 c \<longleftrightarrow> pending db c \<and> c \<notin> lr_command_id ` set (received (ledger_of db)))"
    by (rule settle_received_clears [OF sound un quiet there(1) [OF sound] _ settle]) (simp add: rows)
  then have sound1: "sound_ledger db1" by blast
  have two: "recovers db1 db' \<and> (\<forall>c. row_open db' c \<longrightarrow> row_open db1 c \<and> plan_of st' c = plan_of ?st2 c)"
    by (rule terminalize_orphans_recovers [OF sound1 quiet own [OF there(2) [OF sound1]] _ orphans]) (simp add: rows)
  have clear2: "\<forall>c. pending db' c \<longleftrightarrow> pending db1 c \<and> c \<notin> lr_command_id ` set (pre_dispatch_orphans (ledger_of db1))"
    by (rule terminalize_orphans_clears [OF sound1 _ quiet there(2) [OF sound1] _ orphans]) (use clear1 in \<open>simp_all add: rows\<close>)
  have none: "\<not> pending db' c" for c
  proof
    assume "pending db' c"
    then have p: "pending db1 c" "c \<notin> lr_command_id ` set (pre_dispatch_orphans (ledger_of db1))" using clear2 by simp_all
    then obtain r1 where r1: "ledger_select (ledger_of db1) c = Some r1" "lr_state r1 \<in> {Received, Validated}" by (auto simp: pending_def)
    have "lr_state r1 \<noteq> Validated" using p(2) ledger_select_Some [OF r1(1)] by (auto simp: rows image_iff)
    then have "lr_state r1 = Received" using r1(2) by simp
    moreover obtain r0 where r0: "ledger_select (ledger_of db) c = Some r0" "recovered r0 r1" using recovers_action [OF one r1(1)] by blast
    ultimately have "lr_state r0 = Received" by (auto simp: recovered_def)
    then have "c \<in> lr_command_id ` set (received (ledger_of db))" using ledger_select_Some [OF r0(1)] by (auto simp: rows image_iff)
    then show False using clear1 p(1) by blast
  qed
  have watched: "plan_of ?st2 c \<noteq> None" if op: "row_open db1 c" for c
  proof -
    obtain row where "ledger_select (ledger_of db1) c = Some row" "open_for_reconcile (lr_state row)"
      using op by (auto simp: row_open_def)
    then have "row \<in> set (reconcilable (ledger_of db1))" "lr_command_id row = c"
      by (auto simp: reconcilable_def open_for_reconcile_def dest: ledger_select_Some)
    then show ?thesis by (subst schedule_all_plans) blast
  qed
  have settled: "if lr_state row = Validated \<or> lr_state row = Received \<and> lr_action row \<in> set saga_actions_idle_while_received
      then \<exists>t. ledger_select (ledger_of db') c = Some (crash_orphaned t row)
      else if lr_state row = Received then \<exists>t. ledger_select (ledger_of db') c = Some (parked t row)
      else ledger_select (ledger_of db') c = Some row" if row: "ledger_select (ledger_of db) c = Some row" for c row
  proof -
    have "rel_option recovered (ledger_select (ledger_of db) c) (ledger_select (ledger_of db') c)"
      using recovers_trans [OF one conjunct1 [OF two]] by (simp add: recovers_def)
    then obtain row' where row': "ledger_select (ledger_of db') c = Some row'" "recovered row row'"
      using row by (cases "ledger_select (ledger_of db') c") auto
    moreover have "lr_state row' \<notin> {Received, Validated}" using none [of c] row'(1) by (auto simp: pending_def)
    ultimately show ?thesis unfolding recovered_def by auto
  qed
  show ?thesis
  proof (intro conjI allI impI)
    show "plan_of st' c \<noteq> None" if "row_open db' c" for c using two watched that by simp
  qed (rule settled)
qed

section \<open>Concrete attempts\<close>

text \<open>An approval whose dispatch was ambiguous: its proposal is approved, its command's outcome unknown.\<close>

definition demo_unknown_row :: ledger_row where
  "demo_unknown_row = (received_row demo_approval ''h'' 0)\<lparr>lr_state := OutcomeUnknown, lr_error_code := Some ''DISPATCH_AMBIGUOUS''\<rparr>"

definition demo_unknown :: saga_db where
  "demo_unknown = set_ledger [demo_unknown_row] (set_proposals (map (\<lambda>r. r\<lparr>pr_status := APPROVED\<rparr>) demo_rows) demo_saga_db)"

lemma demo_unknown_sound: "sound_ledger demo_unknown"
  using demo_saga_inv by (simp add: sound_ledger_def saga_inv_def demo_unknown_def)

definition demo_ports :: reconcile_ports where
  "demo_ports = \<lparr>po_find = (\<lambda>_ _. Some []), po_enumeration_complete = Some True, po_strategy = (\<lambda>_. None),
     po_has_repo = True, po_orders_view = None, po_closes = None, po_saga_row = (\<lambda>_. None), po_registrations = None,
     po_withdrawals = None, po_policies = None, po_breaker_resets = None, po_experiments = None, po_reads_ok = True,
     po_gap = (\<lambda>_ d. d), po_journaled = 20, po_now = 20\<rparr>"

definition demo_reconciler :: reconciler where
  "demo_reconciler = \<lparr>rs_plans = [(''c1'', new_plan 10)], rs_alerts = [], rs_received_at_start = []\<rparr>"

definition demo_attempt :: "(recon_error + reconcile_result) \<times> reconciler \<times> saga_db" where
  "demo_attempt = reconcile_once demo_ports ''c1'' 20 demo_reconciler demo_unknown"

lemma demo_attempt_fails_proposal: "map pr_status (proposals_of (snd (snd demo_attempt))) = [FAILED]"
  by code_simp

lemma demo_ports_gap [simp]: "po_gap demo_ports g d = d"
  by (simp add: demo_ports_def)

theorem proposal_marked_on_proof_witness:
  "\<exists>r' \<in> set (proposals_of (snd (snd demo_attempt))). \<exists>r \<in> set (proposals_of demo_unknown).
     pr_status r = APPROVED \<and> pr_status r' = FAILED \<and> frozen r' = frozen r \<and> po_enumeration_complete demo_ports = Some True"
proof -
  let ?rows = "proposals_of (snd (snd demo_attempt))"
  have inv: "journal_inv (po_gap demo_ports BeforeSettle (po_gap demo_ports BeforeEvidence demo_unknown))"
    using demo_unknown_sound by (simp add: sound_ledger_def)
  have run: "reconcile_once demo_ports ''c1'' 20 demo_reconciler demo_unknown
      = (fst demo_attempt, fst (snd demo_attempt), snd (snd demo_attempt))" by (simp add: demo_attempt_def)
  obtain r' where r': "?rows = [r']" "pr_status r' = FAILED" using demo_attempt_fails_proposal by auto
  have "\<forall>r \<in> set (proposals_of demo_unknown). pr_status r \<noteq> FAILED" by (simp add: demo_unknown_def demo_rows_def)
  then have new: "r' \<in> set ?rows" "r' \<notin> set (proposals_of demo_unknown)"
      "r' \<notin> set (proposals_of (po_gap demo_ports BeforeEvidence demo_unknown))"
      "r' \<notin> set (proposals_of (po_gap demo_ports BeforeSettle (po_gap demo_ports BeforeEvidence demo_unknown)))"
    using r' by auto
  from proposal_marked_on_proof [OF inv run new] r'(2) show ?thesis using new(1) by auto
qed

theorem reconcile_compare_and_set_witness:
  "\<exists>to_state outcome code. terminal_state to_state
     \<and> ledger_select (ledger_of (snd (snd demo_attempt))) ''c1'' = Some (demo_unknown_row\<lparr>lr_state := to_state,
         lr_outcome := Some outcome, lr_error_code := code, lr_updated_at := 20\<rparr>)"
proof -
  have inv: "journal_inv (po_gap demo_ports BeforeSettle (po_gap demo_ports BeforeEvidence demo_unknown))"
      "distinct (map lr_command_id (ledger_of (po_gap demo_ports BeforeSettle (po_gap demo_ports BeforeEvidence demo_unknown))))"
    using demo_unknown_sound by (simp_all add: sound_ledger_def)
  have run: "reconcile_once demo_ports ''c1'' 20 demo_reconciler demo_unknown
      = (fst demo_attempt, fst (snd demo_attempt), snd (snd demo_attempt))" by (simp add: demo_attempt_def)
  have "proposals_of (snd (snd demo_attempt)) \<noteq> proposals_of demo_unknown"
    using demo_attempt_fails_proposal by (auto simp: demo_unknown_def demo_rows_def)
  then have changed: "jd_prod (snd (snd demo_attempt)) \<noteq> jd_prod demo_unknown" by (auto simp: proposals_of_def)
  have row: "ledger_select (ledger_of demo_unknown) ''c1'' = Some demo_unknown_row"
    by (simp add: demo_unknown_def demo_unknown_row_def ledger_select_def received_row_def demo_approval_def demo_command_def)
  from reconcile_compare_and_set [OF inv run] changed row show ?thesis by auto
qed

text \<open>A strategy command that nobody can answer for, registered before the approval.\<close>

definition demo_strategy_row :: ledger_row where
  "demo_strategy_row = demo_unknown_row\<lparr>lr_command_id := ''c0'', lr_action := ''enable_strategy'', lr_target_type := ''strategy''\<rparr>"

definition demo_two :: saga_db where
  "demo_two = set_ledger [demo_strategy_row, demo_unknown_row] demo_unknown"

definition demo_two_plans :: reconciler where
  "demo_two_plans = \<lparr>rs_plans = [(''c0'', new_plan 10), (''c1'', new_plan 10)], rs_alerts = [], rs_received_at_start = []\<rparr>"

definition demo_tick :: "instant \<Rightarrow> loop_tick" where
  "demo_tick t = \<lparr>lt_ports = (\<lambda>_. demo_ports), lt_now = t, lt_checked_at = t, lt_purged_at = t, lt_marked_at = t, lt_purge_ok = True\<rparr>"

lemma demo_two_rows:
  "ledger_select (ledger_of demo_two) ''c0'' = Some demo_strategy_row" "ledger_select (ledger_of demo_two) ''c1'' = Some demo_unknown_row"
  by (simp_all add: demo_two_def demo_strategy_row_def demo_unknown_row_def ledger_select_def received_row_def
      demo_approval_def demo_command_def)

definition demo_loop :: "instant \<times> reconciler \<times> saga_db" where
  "demo_loop = command_reconciliation_loop [demo_tick 20, demo_tick (10 + seconds 1000)] 0 demo_two_plans demo_two"

theorem raising_evidence_stops_ticks_witness:
  "rs_alerts (fst (snd demo_loop)) = [] \<and> ledger_select (ledger_of (snd (snd demo_loop))) ''c1'' = Some demo_unknown_row"
proof -
  have run: "command_reconciliation_loop [demo_tick 20, demo_tick (10 + seconds 1000)] 0 demo_two_plans demo_two
      = (fst demo_loop, fst (snd demo_loop), snd (snd demo_loop))" by (simp add: demo_loop_def)
  have plans: "rs_plans demo_two_plans = (''c0'', new_plan 10) # [(''c1'', new_plan 10)]" by (simp add: demo_two_plans_def)
  have op: "open_for_reconcile (lr_state demo_strategy_row)" "row_open demo_two ''c1''"
    using demo_two_rows by (simp_all add: row_open_def demo_strategy_row_def demo_unknown_row_def open_for_reconcile_def)
  have raises: "try_resolve demo_ports x demo_strategy_row = Inl PortRaised" for x
    by (simp add: try_resolve_def demo_strategy_row_def reconcile_strategy_def ask_def demo_ports_def)
  have ticks: "\<forall>t \<in> set [demo_tick 20, demo_tick (10 + seconds 1000)]. pl_next_due (new_plan 10) \<le> lt_now t
      \<and> (\<forall>g x. po_gap (lt_ports t ''c0'') g x = x) \<and> (\<forall>x. try_resolve (lt_ports t ''c0'') x demo_strategy_row = Inl PortRaised)"
    by (simp add: demo_tick_def raises new_plan_def seconds_def)
  from raising_evidence_stops_ticks [OF plans demo_two_rows(1) op(1) ticks run] op(2) demo_two_rows(2)
  show ?thesis by (simp add: demo_two_plans_def)
qed

text \<open>The approval alone, its evidence not yet complete, at a tick after the boundary.\<close>

definition demo_waiting_ports :: reconcile_ports where
  "demo_waiting_ports = demo_ports\<lparr>po_enumeration_complete := Some False\<rparr>"

definition demo_due :: "(recon_error + reconcile_result list) \<times> reconciler \<times> saga_db" where
  "demo_due = run_due (\<lambda>_. demo_waiting_ports) (10 + seconds 900) demo_reconciler demo_unknown"

lemma demo_due_evaluated:
  "map (\<lambda>r. lr_state r) (ledger_of (snd (snd demo_due))) = [OutcomeUnknown] \<and> is_ok (fst demo_due)"
  by code_simp

theorem one_alert_in_doubt_witness: "alerts_of ''c1'' (fst (snd demo_due)) = 1"
proof -
  have others: "\<forall>d. others_forward ''c1'' demo_waiting_ports"
    by (simp add: others_forward_def demo_waiting_ports_def demo_ports_def forward_def)
  have tick: "run_due (\<lambda>_. demo_waiting_ports) (10 + seconds 900) demo_reconciler demo_unknown
      = (fst demo_due, fst (snd demo_due), snd (snd demo_due))" by (simp add: demo_due_def)
  have op: "row_open demo_unknown ''c1''"
    by (simp add: row_open_def demo_unknown_def demo_unknown_row_def ledger_select_def received_row_def demo_approval_def
        demo_command_def open_for_reconcile_def)
  have start: "alerts_of ''c1'' demo_reconciler = 0" "\<not> alerted ''c1'' demo_reconciler"
    by (simp_all add: alerts_of_def alerted_def demo_reconciler_def plan_of_def new_plan_def)
  have ids: "map lr_command_id (ledger_of (snd (snd demo_due))) = [''c1'']" by code_simp
  then obtain r where r: "ledger_of (snd (snd demo_due)) = [r]" "lr_command_id r = ''c1''" by auto
  then have wait: "\<not> row_past (snd (snd demo_due)) ''c1''"
    using demo_due_evaluated by (simp add: row_past_def ledger_select_def terminal_state_def)
  obtain results where ok: "fst demo_due = Inr results" using demo_due_evaluated by (cases "fst demo_due") simp_all
  have plan: "plan_of demo_reconciler ''c1'' = Some (new_plan 10)" "pl_next_due (new_plan 10) \<le> 10 + seconds 900"
      "pl_started (new_plan 10) + seconds critical_after_seconds \<le> 10 + seconds 900"
    by (simp_all add: demo_reconciler_def plan_of_def new_plan_def seconds_def critical_after_seconds_def)
  from one_alert_in_doubt [OF rtranclp.rtrancl_refl demo_unknown_sound op start others tick wait] plan ok show ?thesis by blast
qed

text \<open>A start with one validated command, one received single-step command and one of unknown outcome.\<close>

definition demo_crashed :: saga_db where
  "demo_crashed = set_ledger [demo_unknown_row\<lparr>lr_state := Validated\<rparr>,
     demo_unknown_row\<lparr>lr_command_id := ''c2'', lr_state := Received, lr_action := ''reject_proposal''\<rparr>,
     demo_strategy_row] demo_unknown"

definition demo_start :: reconciler where
  "demo_start = \<lparr>rs_plans = [], rs_alerts = [], rs_received_at_start = received (ledger_of demo_crashed)\<rparr>"

definition demo_rescan :: "string list \<times> reconciler \<times> saga_db" where
  "demo_rescan = rescan_on_startup (\<lambda>_. demo_ports) demo_start demo_crashed"

lemma demo_rescan_states:
  "map (\<lambda>r. (lr_command_id r, lr_state r)) (ledger_of (snd (snd demo_rescan)))
     = [(''c1'', Rejected), (''c2'', OutcomeUnknown), (''c0'', OutcomeUnknown)]"
  by code_simp

theorem rescan_watches_every_command_witness:
  "plan_of (fst (snd demo_rescan)) ''c2'' \<noteq> None \<and> plan_of (fst (snd demo_rescan)) ''c0'' \<noteq> None
   \<and> (\<exists>t row. ledger_select (ledger_of (snd (snd demo_rescan))) ''c1'' = Some (crash_orphaned t row))"
proof -
  have sound: "sound_ledger demo_crashed"
    using demo_unknown_sound
    by (simp add: sound_ledger_def demo_crashed_def demo_strategy_row_def demo_unknown_row_def received_row_def
        demo_approval_def demo_command_def)
  have start: "rs_received_at_start demo_start = received (ledger_of demo_crashed)" by (simp add: demo_start_def)
  have run: "rescan_on_startup (\<lambda>_. demo_ports) demo_start demo_crashed
      = (fst demo_rescan, fst (snd demo_rescan), snd (snd demo_rescan))" by (simp add: demo_rescan_def)
  obtain a b d where rows: "ledger_of (snd (snd demo_rescan)) = [a, b, d]" "lr_command_id a = ''c1''" "lr_command_id b = ''c2''"
      "lr_state b = OutcomeUnknown" "lr_command_id d = ''c0''" "lr_state d = OutcomeUnknown"
    using demo_rescan_states by auto
  then have "row_open (snd (snd demo_rescan)) ''c2''" "row_open (snd (snd demo_rescan)) ''c0''"
    by (simp_all add: row_open_def ledger_select_def open_for_reconcile_def)
  moreover have states: "map (\<lambda>c. map_option lr_state (ledger_select (ledger_of demo_crashed) c)) [''c1'', ''c2'']
      = [Some Validated, Some Received]" by code_simp
  then obtain r where r: "ledger_select (ledger_of demo_crashed) ''c1'' = Some r" "lr_state r = Validated" by auto
  have un: "unsettled_pending demo_crashed"
  proof -
    have "list_all (\<lambda>c. \<not> journal_has demo_crashed (command_event_id c Rejected) \<and> \<not> journal_has demo_crashed (command_event_id c OutcomeUnknown))
        (map lr_command_id (ledger_of demo_crashed))" by code_simp
    then show ?thesis by (auto simp: unsettled_pending_def pending_def list_all_iff dest!: ledger_select_Some)
  qed
  have quiet: "\<forall>c g x. po_gap ((\<lambda>_. demo_ports) c) g x = x" by (simp add: demo_ports_def)
  note th = rescan_watches_every_command [OF sound un quiet start run]
  have "\<exists>t. ledger_select (ledger_of (snd (snd demo_rescan))) ''c1'' = Some (crash_orphaned t r)"
    using spec [OF spec [OF conjunct2 [OF th], of "''c1''"], of r] r by simp
  moreover have "row_open (snd (snd demo_rescan)) c \<Longrightarrow> plan_of (fst (snd demo_rescan)) c \<noteq> None" for c
    using spec [OF conjunct1 [OF th], of c] by (rule mp)
  ultimately show ?thesis by iprover
qed

section \<open>What the orders lose on the way\<close>

text \<open>The rows the trading runtime returns carry no order ids, so a reconciled approval records none.\<close>

lemma reconciled_order_ids_lost: "collect_order_ids (map found_of_row rows) = []"
  by (induction rows) (simp_all add: collect_order_ids_def found_of_row_def)

text \<open>
  A command that is SUBMITTED, so whose orders the broker did accept, is recorded as never submitted once the broker's
  active rows no longer show them.
\<close>

lemma submitted_recorded_as_never_submitted:
  assumes "lr_action row = ''approve_proposal''" and "lr_state row = Submitted" and "jget (opt_or [] (lr_outcome row)) ''proposal_id'' = None"
    and "lr_target_type row = ''proposal''" and "po_find po (lr_account_id row) (group_ref_of row) = Some []"
    and "po_enumeration_complete po = Some True"
  shows "\<exists>i. try_resolve po db row = Inr (NeverSubmitted i)
    \<and> settled_as row (NeverSubmitted i) = (Resolved, [(''submitted'', JBool False)], None)"
  using assms
  by (auto simp: try_resolve_def reconcile_approve_def associated_proposal_id_def ask_def settled_as_def)

end
