(* ===== verification/Cancel_Saga.thy ===== *)
theory Cancel_Saga
  imports Outcome_Reconciler "HOL-Library.Sublist"
begin

text \<open>
  \<open>CancelCommandService\<close> of \<^verbatim>\<open>src/trader/trading/command_coordinator.py\<close>: cancelling one working order as a
  saga, and cancelling several by fanning one command out into a child command per order, each
  through the coordinator.

  The order view, the broker port and the nonce gate's clock are fields of \<open>cancel_run\<close>. Order ids are
  strings, as the typed API declares them; a body without one is \<open>BodyKeyError\<close>.
\<close>

section \<open>The service\<close>

record cancel_service =
  cs_risk_account :: string
  cs_sha :: "json \<Rightarrow> string"

text \<open>\<open>cn_order\<close> is None where the view raises, \<open>cn_cancel\<close> is False where the broker port does.\<close>

record cancel_run = call_run +
  cn_order :: "string \<Rightarrow> order_row option option"
  cn_nonce_now :: instant
  cn_cancel :: "string \<Rightarrow> string \<Rightarrow> bool"

definition classify_cancel :: "order_row option \<Rightarrow> risk_direction" where
  "classify_cancel order =
     (case order of Some row \<Rightarrow> if bo_leg row = Some ''entry'' then REDUCING else INCREASING | None \<Rightarrow> INCREASING)"

definition direction_value :: "risk_direction \<Rightarrow> string" where
  "direction_value d = (case d of INCREASING \<Rightarrow> ''INCREASING'' | REDUCING \<Rightarrow> ''REDUCING'')"

definition nonces_of :: "saga_db \<Rightarrow> nonce_row list" where
  "nonces_of db = ct_nonces (jd_prod db)"

definition set_nonces :: "nonce_row list \<Rightarrow> saga_db \<Rightarrow> saga_db" where
  "set_nonces rows db = db\<lparr>jd_prod := (jd_prod db)\<lparr>ct_nonces := rows\<rparr>\<rparr>"

definition body_order_id :: "command_request \<Rightarrow> string option" where
  "body_order_id q = (case jget (cq_body q) ''order_entity_id'' of Some v \<Rightarrow> json_text v | None \<Rightarrow> None)"

definition needs_ceremony :: "command_request \<Rightarrow> risk_direction \<Rightarrow> bool" where
  "needs_ceremony q direction \<longleftrightarrow> direction = INCREASING \<and> cq_parent_command_id q = None"

definition spend_nonce ::
    "(json \<Rightarrow> string) \<Rightarrow> instant \<Rightarrow> command_request \<Rightarrow> saga_db \<Rightarrow> unit claim_result" where
  "spend_nonce sha now q db =
     (case consume_in_tx sha now (cq_preflight_nonce q) q (nonces_of db) of
        (False, _) \<Rightarrow> (Inl (Raised ClaimPreflightRequired), db)
      | (True, rows) \<Rightarrow> (Inr (), set_nonces rows db))"

definition cancel_claim_work ::
    "cancel_service \<Rightarrow> cancel_run \<Rightarrow> command_request \<Rightarrow> risk_direction \<Rightarrow> saga_db \<Rightarrow> domain_event claim_result" where
  "cancel_claim_work svc run q direction db =
     (case (if needs_ceremony q direction then spend_nonce (cs_sha svc) (cn_nonce_now run) q db else (Inr (), db)) of
        (Inl e, db') \<Rightarrow> (Inl e, db')
      | (Inr _, db') \<Rightarrow> move_command run AtSubmittingEvent q Validated Submitting None None db')"

definition cancel_outcome :: "string \<Rightarrow> order_row \<Rightarrow> jobject" where
  "cancel_outcome order_entity_id order =
     (''order_entity_id'', JStr order_entity_id)
     # (if classify_cancel (Some order) = INCREASING then [(''unprotected_conid'', JInt (bo_conid order))] else [])"

definition cancel_dispatch ::
    "cancel_run \<Rightarrow> command_request \<Rightarrow> string \<Rightarrow> order_row \<Rightarrow> saga_db \<Rightarrow> saga_answer" where
  "cancel_dispatch run q order_entity_id order db =
     (let sent = no_effects\<lparr>fx_cancelled := [(order_entity_id, cq_command_id q)]\<rparr>;
          outcome = cancel_outcome order_entity_id order
      in if \<not> cn_cancel run order_entity_id (cq_command_id q) then park_unknown run q None sent db
         else case mutate_batch_work (move_command run AtFinishEvent q Submitting Submitted (Some outcome) None)
                     (ru_gap run GapFinish db) of
                (Inl _, db') \<Rightarrow> park_unknown run q (Some outcome) sent db'
              | (Inr _, db') \<Rightarrow> (Inr (receipt (cq_command_id q) Submitted None False (Some outcome)), sent, db'))"

definition cancel_claimed ::
    "cancel_service \<Rightarrow> cancel_run \<Rightarrow> command_request \<Rightarrow> string \<Rightarrow> order_row \<Rightarrow> saga_db \<Rightarrow> saga_answer" where
  "cancel_claimed svc run q order_entity_id order db =
     (case mutate_batch_work (cancel_claim_work svc run q (classify_cancel (Some order))) db of
        (Inl (Raised ClaimPreflightRequired), db') \<Rightarrow>
          refuse run q Validated ''PREFLIGHT_REQUIRED'' True (ru_gap run GapRefused db')
      | (Inl e, db') \<Rightarrow> (Inl (ClaimRaised e), no_effects, db')
      | (Inr _, db') \<Rightarrow> cancel_dispatch run q order_entity_id order db')"

definition cancel_decision :: "risk_direction \<Rightarrow> string \<Rightarrow> jobject" where
  "cancel_decision direction order_entity_id =
     [(''decision'', JStr ''cancel''), (''direction'', JStr (direction_value direction)),
      (''order_entity_id'', JStr order_entity_id)]"

text \<open>A terminal order: nothing to cancel, and the command says so.\<close>

definition cancel_noop ::
    "cancel_run \<Rightarrow> command_request \<Rightarrow> order_row \<Rightarrow> saga_db \<Rightarrow> saga_answer" where
  "cancel_noop run q order db =
     (let outcome = [(''noop'', JBool True), (''authoritative_status'', JStr (bo_status order))]
      in case transition_command run AtResolved q Received Resolved (Some outcome) None db of
           (Inl e, db') \<Rightarrow> (Inl e, no_effects, db')
         | (Inr _, db') \<Rightarrow> (Inr (receipt (cq_command_id q) Resolved None False (Some outcome)), no_effects, db'))"

definition cancel_working ::
    "cancel_service \<Rightarrow> cancel_run \<Rightarrow> command_request \<Rightarrow> string \<Rightarrow> order_row \<Rightarrow> saga_db \<Rightarrow> saga_answer" where
  "cancel_working svc run q order_entity_id order db =
     (case publish_decision saga_risk_slot (cs_risk_account svc) (ru_publish run False) (cq_command_id q)
             (cancel_decision (classify_cancel (Some order)) order_entity_id) (Some (correlation_id q))
             (ru_gap run GapDecision db) of
        (Inl e, db1) \<Rightarrow> (Inl (RiskWriteRaised e), no_effects, db1)
      | (Inr _, db1) \<Rightarrow>
         (case transition_command run AtValidated q Received Validated None None (ru_gap run GapFirstTransition db1) of
            (Inl e, db2) \<Rightarrow> (Inl e, no_effects, db2)
          | (Inr _, db2) \<Rightarrow> cancel_claimed svc run q order_entity_id order (ru_gap run GapClaim db2)))"

definition cancel_order ::
    "cancel_service \<Rightarrow> cancel_run \<Rightarrow> command_request \<Rightarrow> saga_db \<Rightarrow> saga_answer" where
  "cancel_order svc run q db =
     (case body_order_id q of
        None \<Rightarrow> (Inl BodyKeyError, no_effects, db)
      | Some order_entity_id \<Rightarrow>
         (case cn_order run order_entity_id of
            None \<Rightarrow> (Inl CollaboratorRaised, no_effects, db)
          | Some None \<Rightarrow> refuse run q Received ''ORDER_NOT_FOUND'' True (ru_gap run GapFirstTransition db)
          | Some (Some order) \<Rightarrow>
              if is_terminal_order order then cancel_noop run q order (ru_gap run GapFirstTransition db)
              else cancel_working svc run q order_entity_id order db))"

definition log_effects :: "saga_effects \<Rightarrow> saga_db \<Rightarrow> saga_db" where
  "log_effects fx db =
     db\<lparr>jd_prod := (jd_prod db)\<lparr>ct_world := (ct_world (jd_prod db))
       \<lparr>tt_sent := tt_sent (ct_world (jd_prod db)) @ fx_sent fx,
        tt_scheduled := tt_scheduled (ct_world (jd_prod db)) @ fx_scheduled fx,
        tt_cancelled := tt_cancelled (ct_world (jd_prod db)) @ fx_cancelled fx\<rparr>\<rparr>\<rparr>"

definition cancel_handler ::
    "cancel_service \<Rightarrow> cancel_run \<Rightarrow> command_request \<Rightarrow> saga_db
     \<Rightarrow> (saga_error handler_error + command_receipt) \<times> saga_db" where
  "cancel_handler svc run q db =
     (case cancel_order svc run q db of
        (res, fx, db') \<Rightarrow>
          ((case res of Inl e \<Rightarrow> Inl (OtherException e) | Inr r \<Rightarrow> Inr r), log_effects fx db'))"

section \<open>Cancelling several orders\<close>

record child_run =
  ch_clocks :: clock_readings
  ch_gap :: "saga_db \<Rightarrow> saga_db"
  ch_run :: cancel_run

text \<open>\<open>br_order\<close> is the view at classification, \<open>br_child\<close> what each child meets, in its place of the sequence.\<close>

record batch_run =
  br_order :: "string \<Rightarrow> order_row option option"
  br_nonce_now :: instant
  br_gap :: "saga_db \<Rightarrow> saga_db"
  br_child :: "nat \<Rightarrow> child_run"

definition cancel_child :: "command_request \<Rightarrow> nat \<Rightarrow> string \<Rightarrow> command_request" where
  "cancel_child q index order_entity_id =
     \<lparr>cq_command_id = child_id_of (cq_command_id q) index, cq_action = ''cancel_order'',
      cq_account_id = cq_account_id q, cq_target_type = ''order'', cq_target_id = order_entity_id,
      cq_expected_version = None, cq_body = [(''order_entity_id'', JStr order_entity_id)], cq_source = cq_source q,
      cq_preflight_nonce = cq_preflight_nonce q, cq_parent_command_id = Some (cq_command_id q),
      cq_session_fingerprint = None, cq_principal = None, cq_controller_epoch = None\<rparr>"

record child_result =
  cd_order :: string
  cd_command_id :: string
  cd_state :: string
  cd_error_code :: "string option"
  cd_classification :: string

definition execute_child ::
    "cancel_service \<Rightarrow> (trading_tables, saga_error) coordinator \<Rightarrow> child_run \<Rightarrow> command_request \<Rightarrow> saga_db
     \<Rightarrow> (saga_error execute_error + command_receipt) \<times> string list \<times> saga_db" where
  "execute_child svc c ch child =
     execute (register_action ''cancel_order'' (Saga (cancel_handler svc (ch_run ch))) False c)
       (ch_clocks ch) (ch_gap ch) child"

definition child_result_of ::
    "string \<Rightarrow> string \<Rightarrow> string \<Rightarrow> saga_error execute_error + command_receipt \<Rightarrow> child_result" where
  "child_result_of order_entity_id child_id classification res =
     (case res of
        Inl _ \<Rightarrow> \<lparr>cd_order = order_entity_id, cd_command_id = child_id, cd_state = ''FAILED'',
                  cd_error_code = Some ''CHILD_EXECUTE_FAILED'', cd_classification = classification\<rparr>
      | Inr r \<Rightarrow> \<lparr>cd_order = order_entity_id, cd_command_id = child_id, cd_state = command_state_str (rc_state r),
                  cd_error_code = rc_error_code r, cd_classification = classification\<rparr>)"

text \<open>The loop over the enumerated orders; the ids the coordinator scheduled for reconciliation are returned too.\<close>

fun fan_out ::
    "cancel_service \<Rightarrow> (trading_tables, saga_error) coordinator \<Rightarrow> batch_run \<Rightarrow> command_request
     \<Rightarrow> nat \<Rightarrow> (string \<times> string) list \<Rightarrow> saga_db \<Rightarrow> child_result list \<times> string list \<times> saga_db" where
  "fan_out svc c run q index [] db = ([], [], db)"
| "fan_out svc c run q index ((order_entity_id, classification) # rest) db =
     (case execute_child svc c (br_child run index) (cancel_child q index order_entity_id) db of
        (res, scheduled, db1) \<Rightarrow>
         (case fan_out svc c run q (Suc index) rest db1 of
            (results, later, db2) \<Rightarrow>
              (child_result_of order_entity_id (child_id_of (cq_command_id q) index) classification res # results,
               scheduled @ later, db2)))"

definition partial_failure :: "child_result list \<Rightarrow> bool" where
  "partial_failure results \<longleftrightarrow> (\<exists>r \<in> set results. cd_state r \<noteq> ''SUBMITTED'')"

definition batch_outcome :: "child_result list \<Rightarrow> jobject" where
  "batch_outcome results =
     [(''child_command_ids'', JList (map (JStr \<circ> cd_command_id) results)),
      (''children'', JObj (map (\<lambda>r. (cd_order r, JObj
         [(''command_id'', JStr (cd_command_id r)), (''state'', JStr (cd_state r)),
          (''error_code'', jopt JStr (cd_error_code r)), (''classification'', JStr (cd_classification r))])) results)),
      (''partial_failure'', JBool (partial_failure results))]"

text \<open>The view is read for every order before anything else happens; it may raise.\<close>

fun classify_all ::
    "(string \<Rightarrow> order_row option option) \<Rightarrow> string list \<Rightarrow> (string \<times> string) list option" where
  "classify_all view [] = Some []"
| "classify_all view (i # is) =
     (case view i of
        None \<Rightarrow> None
      | Some order \<Rightarrow>
          map_option (Cons (i, direction_value (classify_cancel order))) (classify_all view is))"

definition batch_needs_ceremony :: "(string \<times> string) list \<Rightarrow> bool" where
  "batch_needs_ceremony classifications \<longleftrightarrow> (\<exists>kv \<in> set classifications. snd kv = ''INCREASING'')"

definition cancel_orders ::
    "cancel_service \<Rightarrow> (trading_tables, saga_error) coordinator \<Rightarrow> batch_run \<Rightarrow> command_request \<Rightarrow> saga_db
     \<Rightarrow> (saga_error handler_error + child_result list) \<times> string list \<times> saga_db" where
  "cancel_orders svc c run q db =
     (case requested_orders (Some (cq_body q)) of
        [] \<Rightarrow> (Inl (ValidationError ''ORDER_ENTITY_IDS_REQUIRED'' ''order_entity_ids must be a non-empty list''), [], db)
      | ids \<Rightarrow>
         (case classify_all (br_order run) ids of
            None \<Rightarrow> (Inl (OtherException CollaboratorRaised), [], db)
          | Some classifications \<Rightarrow>
             (case (if batch_needs_ceremony classifications
                    then mutate_batch_work (spend_nonce (cs_sha svc) (br_nonce_now run) q) (br_gap run db)
                    else (Inr (), br_gap run db)) of
                (Inl (Raised ClaimPreflightRequired), db') \<Rightarrow>
                  (Inl (ValidationError ''PREFLIGHT_REQUIRED''
                      ''missing, expired, or already-consumed preflight nonce''), [], db')
              | (Inl e, db') \<Rightarrow> (Inl (OtherException (ClaimRaised e)), [], db')
              | (Inr _, db') \<Rightarrow>
                  (case fan_out svc c run q 0 classifications db' of
                     (results, scheduled, db'') \<Rightarrow> (Inr results, scheduled, db'')))))"

text \<open>As the coordinator calls it: the root is a single-step action, its outcome the dict.\<close>

definition cancel_orders_handler ::
    "cancel_service \<Rightarrow> (trading_tables, saga_error) coordinator \<Rightarrow> batch_run \<Rightarrow> command_request \<Rightarrow> saga_db
     \<Rightarrow> (saga_error handler_error + jobject) \<times> saga_db" where
  "cancel_orders_handler svc c run q db =
     (case cancel_orders svc c run q db of
        (Inl e, _, db') \<Rightarrow> (Inl e, db')
      | (Inr results, _, db') \<Rightarrow> (Inr (batch_outcome results), db'))"

section \<open>The units of work\<close>

lemma set_nonces_blind [simp]:
  "journal_inv (set_nonces rows db) = journal_inv db" "open_ok (set_nonces rows db) = open_ok db"
  "journal_extends (set_nonces rows db) db' = journal_extends db db'"
  "jd_next_cursor (set_nonces rows db) = jd_next_cursor db" "jd_rows (set_nonces rows db) = jd_rows db"
  "ledger_of (set_nonces rows db) = ledger_of db" "nonces_of (set_nonces rows db) = rows"
  "journal_has (set_nonces rows db) e = journal_has db e" "tracked q S (set_nonces rows db) = tracked q S db"
  by (simp_all add: set_nonces_def ledger_of_def nonces_of_def journal_has_def tracked_def)

lemma open_events_tracked [simp]:
  "tracked q S (db\<lparr>jd_open_events := es\<rparr>) = tracked q S db" "nonces_of (db\<lparr>jd_open_events := es\<rparr>) = nonces_of db"
  by (simp_all add: tracked_def nonces_of_def)

lemma keeps_spend: "keeps_journal (spend_nonce sha now q)"
  by (auto simp: keeps_journal_def spend_nonce_def journal_extends_def set_nonces_def split: prod.splits bool.splits)

lemma keeps_cancel_claim: "keeps_journal (cancel_claim_work svc run q direction)"
proof -
  have "cancel_claim_work svc run q direction = (\<lambda>db. case (if needs_ceremony q direction
        then spend_nonce (cs_sha svc) (cn_nonce_now run) q else (\<lambda>db. (Inr (), db))) db of
        (Inl e, db') \<Rightarrow> (Inl e, db')
      | (Inr x, db') \<Rightarrow> move_command run AtSubmittingEvent q Validated Submitting None None db')"
    by (rule ext) (simp add: cancel_claim_work_def)
  then show ?thesis by (simp only:) (intro keeps_then keeps_move; simp add: keeps_spend keeps_return)
qed

interpretation nonce_unit: journal_work "spend_nonce sha now q" for sha now q
  by (rule keeps_journal_work [OF keeps_spend])

interpretation cancel_unit: journal_work "cancel_claim_work svc run q direction" for svc run q direction
  by (rule keeps_journal_work [OF keeps_cancel_claim])

interpretation move_unit: journal_work "move_command run at_time q from_state to_state outcome error_code"
  for run at_time q from_state to_state outcome error_code
  by (rule keeps_journal_work [OF keeps_move])

text \<open>The command's row moved, its event is journaled, and no other table changed.\<close>

lemma move_ok:
  assumes tr: "tracked q S db"
    and run: "move_command run at_time q from_state to_state outcome error_code db = (Inr ev, db')"
  shows "tracked q (S - {to_state}) db' \<and> recorded q to_state outcome error_code db'
    \<and> journal_has db' (command_event_id (cq_command_id q) to_state) \<and> nonces_of db' = nonces_of db"
proof -
  have inv: "journal_inv db" and dist: "distinct (map lr_command_id (ledger_of db))" using tr by (simp_all add: tracked_def)
  obtain row rows where t: "transition_in_tx (cq_command_id q) from_state to_state outcome error_code
      (ru_ledger_clock run at_time) (ledger_of db) = Some (row, rows)"
    and ap: "journal_append (ru_journaled run at_time) []
        (command_updated_mutation q to_state (now_utc run at_time) outcome error_code) (\<lambda>p _. Inr p)
        (Some (command_event_id (cq_command_id q) to_state)) (set_ledger rows db)
        = (Inr ev :: claim_error journal_error + domain_event, db')"
    using run by (auto simp: move_command_def split: option.splits)
  have base: "journal_inv (set_ledger rows db)" using inv by simp
  have "jd_prod db' = jd_prod (set_ledger rows db)" by (rule append_keeps_prod [OF base ap]) simp
  then have tables: "ledger_of db' = rows" "nonces_of db' = nonces_of db"
    by (simp_all add: ledger_of_def nonces_of_def set_ledger_def)
  have "\<not> journal_has db' (command_event_id (cq_command_id q) s)" if "s \<in> S - {to_state}" for s
    using has_append [OF base ap, of "command_event_id (cq_command_id q) s"] that tr by (auto simp: tracked_def)
  then show ?thesis
    using append_inv [OF base ap] append_has [OF base ap] transition_hit [OF dist t] dist tables
    by (simp add: tracked_def recorded_def)
qed

text \<open>The same for a whole transaction around it.\<close>

lemma tracked_cong:
  "journal_inv db' \<Longrightarrow> jd_prod db' = jd_prod m \<Longrightarrow> jd_rows db' = jd_rows m \<Longrightarrow> tracked q S m \<Longrightarrow> tracked q S db'"
  by (simp add: tracked_def ledger_of_def journal_has_def)

lemma finish_moved:
  assumes tr: "tracked q S db"
    and run: "mutate_batch_work (move_command run at_time q from_state to_state outcome error_code) db = (Inr ev, db')"
  shows "tracked q (S - {to_state}) db' \<and> recorded q to_state outcome error_code db'"
proof -
  have inv: "journal_inv db" using tr by (simp add: tracked_def)
  from run obtain m where w: "move_command run at_time q from_state to_state outcome error_code
        (db\<lparr>jd_open_events := []\<rparr>) = (Inr ev, m)"
    and same: "jd_prod db' = jd_prod m" "jd_rows db' = jd_rows m" by (rule batch_work_prod) auto
  have "tracked q S (db\<lparr>jd_open_events := []\<rparr>)" using tr by simp
  from move_ok [OF this w] show ?thesis
    using tracked_cong [OF move_unit.batch_work_inv [OF inv run] same] same by (simp add: recorded_def ledger_of_def)
qed

text \<open>A committed claim: the command is SUBMITTING, and where the ceremony was needed its nonce was good and is spent.\<close>

definition authorised_by ::
    "(json \<Rightarrow> string) \<Rightarrow> instant \<Rightarrow> command_request \<Rightarrow> nonce_row list \<Rightarrow> nonce_row list \<Rightarrow> bool" where
  "authorised_by sha now q before after \<longleftrightarrow> (\<exists>n row. cq_preflight_nonce q = Some n \<and> row \<in> set before
     \<and> nr_nonce row = n \<and> \<not> nr_consumed row \<and> now \<le> nr_expires_at row \<and> nr_command_id row = cq_command_id q
     \<and> nr_account_id row = cq_account_id q \<and> nr_session_fingerprint row = opt_or [] (cq_session_fingerprint q)
     \<and> canonical_request_hash sha q = Some (nr_request_hash row) \<and> nonce_spent n after)"

lemma spend_nonce_ok:
  assumes "spend_nonce sha now q db = (Inr u, db')"
  obtains rows where "db' = set_nonces rows db" and "authorised_by sha now q (nonces_of db) rows"
proof -
  obtain rows where c: "consume_in_tx sha now (cq_preflight_nonce q) q (nonces_of db) = (True, rows)"
    and db': "db' = set_nonces rows db"
    using assms by (auto simp: spend_nonce_def split: prod.splits bool.splits)
  from c have "authorised_by sha now q (nonces_of db) rows"
    by (rule consume_TrueE) (auto simp: authorised_by_def nonce_spent_update)
  with db' show thesis by (rule that)
qed

lemma cancel_claim_committed:
  assumes tr: "tracked q S db"
    and run: "mutate_batch_work (cancel_claim_work svc run q direction) db = (Inr ev, db')"
  shows "tracked q (S - {Submitting}) db' \<and> recorded q Submitting None None db'
    \<and> journal_has db' (command_event_id (cq_command_id q) Submitting)
    \<and> (needs_ceremony q direction \<longrightarrow> authorised_by (cs_sha svc) (cn_nonce_now run) q (nonces_of db) (nonces_of db'))"
proof -
  have inv: "journal_inv db" using tr by (simp add: tracked_def)
  from run obtain m where w: "cancel_claim_work svc run q direction (db\<lparr>jd_open_events := []\<rparr>) = (Inr ev, m)"
    and same: "jd_prod db' = jd_prod m" "jd_rows db' = jd_rows m" by (rule batch_work_prod) auto
  obtain base where mv: "move_command run AtSubmittingEvent q Validated Submitting None None base = (Inr ev, m)"
    and tb: "tracked q S base"
    and auth: "needs_ceremony q direction \<longrightarrow>
        authorised_by (cs_sha svc) (cn_nonce_now run) q (nonces_of db) (nonces_of base)"
  proof (cases "needs_ceremony q direction")
    case True
    then obtain u base where sp: "spend_nonce (cs_sha svc) (cn_nonce_now run) q (db\<lparr>jd_open_events := []\<rparr>) = (Inr u, base)"
      and mv: "move_command run AtSubmittingEvent q Validated Submitting None None base = (Inr ev, m)"
      using w by (auto simp: cancel_claim_work_def split: prod.splits sum.splits)
    from sp show thesis by (rule spend_nonce_ok) (use that mv tr in auto)
  next
    case False
    then show thesis using that [of "db\<lparr>jd_open_events := []\<rparr>"] w tr by (simp add: cancel_claim_work_def)
  qed
  from move_ok [OF tb mv] auth show ?thesis
    using tracked_cong [OF cancel_unit.batch_work_inv [OF inv run] same] same
    by (simp add: recorded_def ledger_of_def journal_has_def nonces_of_def)
qed

section \<open>One order\<close>

definition cancel_receipt_true_of :: "command_request \<Rightarrow> command_receipt \<Rightarrow> saga_effects \<Rightarrow> saga_db \<Rightarrow> bool" where
  "cancel_receipt_true_of q r fx db \<longleftrightarrow>
     rc_command_id r = cq_command_id q \<and> recorded q (rc_state r) (rc_outcome r) (rc_error_code r) db
     \<and> rc_state r \<in> {Rejected, Resolved, Submitted, OutcomeUnknown}
     \<and> (rc_state r \<in> {Submitted, OutcomeUnknown} \<longleftrightarrow> fx_cancelled fx \<noteq> [])
     \<and> (fx_cancelled fx \<noteq> [] \<longrightarrow> \<not> rc_retryable r) \<and> fx_sent fx = []
     \<and> (rc_state r = OutcomeUnknown \<longleftrightarrow> fx_scheduled fx \<noteq> [])"

lemma refuse_cancel_true:
  assumes "tracked q S db" and "Rejected \<in> S" and "refuse run q from_state code retryable db = (Inr r, fx, db')"
  shows "cancel_receipt_true_of q r fx db'"
  using refuse_recorded [OF assms] by (simp add: cancel_receipt_true_of_def receipt_def no_effects_def)

lemma cancel_dispatch_sends:
  "cancel_dispatch run q i order db = (res, fx, db') \<Longrightarrow> fx_cancelled fx = [(i, cq_command_id q)]"
  by (auto simp: cancel_dispatch_def park_unknown_def Let_def no_effects_def split: prod.splits sum.splits if_splits)

lemma park_cancel_true:
  assumes "quiet_about q run" and "tracked q S db" and "OutcomeUnknown \<in> S"
    and "park_unknown run q outcome (no_effects\<lparr>fx_cancelled := [(i, cq_command_id q)]\<rparr>) db = (Inr r, fx, db')"
  shows "cancel_receipt_true_of q r fx db'"
  using park_recorded [OF assms] by (simp add: cancel_receipt_true_of_def receipt_def no_effects_def)

lemma cancel_dispatch_true:
  assumes quiet: "quiet_about q run" and tr: "tracked q S db" and mem: "OutcomeUnknown \<in> S"
    and run: "cancel_dispatch run q i order db = (Inr r, fx, db')"
  shows "cancel_receipt_true_of q r fx db'"
proof (cases "cn_cancel run i (cq_command_id q)")
  case False
  then have "park_unknown run q None (no_effects\<lparr>fx_cancelled := [(i, cq_command_id q)]\<rparr>) db = (Inr r, fx, db')"
    using run by (simp add: cancel_dispatch_def Let_def)
  then show ?thesis by (rule park_cancel_true [OF quiet tr mem])
next
  case True
  obtain w mid where work: "mutate_batch_work (move_command run AtFinishEvent q Submitting Submitted
      (Some (cancel_outcome i order)) None) (ru_gap run GapFinish db) = (w, mid)" by fastforce
  note tr' = gap_tracked [OF quiet tr, of GapFinish]
  show ?thesis
  proof (cases w)
    case (Inl e)
    have "tracked q S mid" using rolled_back_tracked [OF keeps_move tr'] work Inl by blast
    moreover have "park_unknown run q (Some (cancel_outcome i order))
        (no_effects\<lparr>fx_cancelled := [(i, cq_command_id q)]\<rparr>) mid = (Inr r, fx, db')"
      using run True work Inl by (simp add: cancel_dispatch_def Let_def)
    ultimately show ?thesis by (rule park_cancel_true [OF quiet _ mem])
  next
    case (Inr ev)
    have "r = receipt (cq_command_id q) Submitted None False (Some (cancel_outcome i order))" and "db' = mid"
      and "fx = no_effects\<lparr>fx_cancelled := [(i, cq_command_id q)]\<rparr>"
      using run True work Inr by (simp_all add: cancel_dispatch_def Let_def)
    then show ?thesis
      using finish_moved [OF tr' work [unfolded Inr]]
      by (simp add: cancel_receipt_true_of_def receipt_def no_effects_def)
  qed
qed

lemma cancel_claimed_true:
  assumes quiet: "quiet_about q run" and tr: "tracked q S db" and mem: "Rejected \<in> S" "OutcomeUnknown \<in> S"
    and run: "cancel_claimed svc run q i order db = (Inr r, fx, db')"
  shows "cancel_receipt_true_of q r fx db'"
proof -
  obtain w mid where work: "mutate_batch_work (cancel_claim_work svc run q (classify_cancel (Some order))) db = (w, mid)"
    by fastforce
  show ?thesis
  proof (cases w)
    case (Inr ev)
    have tr': "tracked q (S - {Submitting}) mid" using cancel_claim_committed [OF tr] work Inr by blast
    show ?thesis
      using run work Inr mem by (intro cancel_dispatch_true [OF quiet tr']) (auto simp: cancel_claimed_def)
  next
    case (Inl e)
    have tr': "tracked q S mid" using rolled_back_tracked [OF keeps_cancel_claim tr] work Inl by blast
    have "refuse run q Validated ''PREFLIGHT_REQUIRED'' True (ru_gap run GapRefused mid) = (Inr r, fx, db')"
      using run work Inl by (auto simp: cancel_claimed_def split: journal_error.splits claim_error.splits)
    then show ?thesis by (rule refuse_cancel_true [OF gap_tracked [OF quiet tr'] mem(1)])
  qed
qed

text \<open>Up to the claim: the order is known and working, and the command is tracked in the state the claim begins in.\<close>

lemma cancel_working_reaches:
  assumes quiet: "quiet_about q run" and tr: "tracked q (- {Received}) db"
    and run: "cancel_working svc run q i order db = (res, fx, db')"
  obtains (failed) e where "res = Inl e" and "fx = no_effects"
  | (claim) cdb where "tracked q (- {Received, Validated}) cdb" and "cancel_claimed svc run q i order cdb = (res, fx, db')"
proof -
  obtain pres db1 where pub: "publish_decision saga_risk_slot (cs_risk_account svc) (ru_publish run False) (cq_command_id q)
      (cancel_decision (classify_cancel (Some order)) i) (Some (correlation_id q)) (ru_gap run GapDecision db) = (pres, db1)"
    by fastforce
  note tr1 = gap_tracked [OF quiet publish_tracked [OF quiet gap_tracked [OF quiet tr] pub], of GapFirstTransition]
  obtain tres db2 where t: "transition_command run AtValidated q Received Validated None None
      (ru_gap run GapFirstTransition db1) = (tres, db2)" by fastforce
  show thesis
  proof (cases "pres = Inl (projl pres) \<or> tres = Inl (projl tres)")
    case True
    then show thesis using run pub t failed by (cases pres; cases tres) (auto simp: cancel_working_def)
  next
    case False
    then have ok: "pres = Inr (projr pres)" "tres = Inr ()" by (cases pres; cases tres; simp)+
    have "tracked q (- {Received} - {Validated}) db2" using transition_tracked [OF tr1 _ t [unfolded ok(2)]] by simp
    then have "tracked q (- {Received, Validated}) db2" by (rule tracked_mono) auto
    from gap_tracked [OF quiet this, of GapClaim] have "tracked q (- {Received, Validated}) (ru_gap run GapClaim db2)" .
    moreover have "cancel_claimed svc run q i order (ru_gap run GapClaim db2) = (res, fx, db')"
      using run pub t ok by (cases pres) (auto simp: cancel_working_def)
    ultimately show thesis by (rule claim)
  qed
qed

text \<open>
  A receipt of the cancel saga tells the truth. Whenever the saga returns a receipt, the ledger holds the command
  in exactly the state, with the outcome and the error code that the receipt reports; the cancel was handed to the
  broker exactly when the receipt says submitted or unknown, and then it is not reported as retryable; and the command
  is handed to the reconciler exactly when its outcome is unknown.
\<close>

lemma cancel_receipt_true:
  assumes quiet: "quiet_about q run" and tr: "tracked q (- {Received}) db"
    and run: "cancel_order svc run q db = (Inr r, fx, db')"
  shows "cancel_receipt_true_of q r fx db'"
proof -
  obtain i answer where i: "body_order_id q = Some i" "cn_order run i = Some answer"
    using run by (auto simp: cancel_order_def split: option.splits)
  note tr' = gap_tracked [OF quiet tr, of GapFirstTransition]
  consider (missing) "answer = None" | (over) order where "answer = Some order" "is_terminal_order order"
    | (working) order where "answer = Some order" "\<not> is_terminal_order order" by (cases answer) auto
  then show ?thesis
  proof cases
    case missing
    then show ?thesis using run i by (intro refuse_cancel_true [OF tr']) (auto simp: cancel_order_def)
  next
    case over
    then show ?thesis
      using run i transition_tracked [where run = run, OF tr', of Resolved]
      by (auto simp: cancel_order_def cancel_noop_def Let_def cancel_receipt_true_of_def receipt_def no_effects_def
          split: prod.splits sum.splits)
  next
    case working
    then have "cancel_working svc run q i order db = (Inr r, fx, db')" using run i by (simp add: cancel_order_def)
    with quiet tr show ?thesis
    proof (cases rule: cancel_working_reaches)
      case (claim cdb)
      show ?thesis by (rule cancel_claimed_true [OF quiet claim(1) _ _ claim(2)]) simp_all
    qed simp
  qed
qed

text \<open>
  C7. A cancel reaches the broker only when it is authorised. If the saga hands a cancel over, it is one cancel, of the
  order the command names, under the command's own reference; the order was known and still working; the transaction
  that made the command SUBMITTING, with its event, had committed before; and if the order protects a position, or its
  leg is not known to be an entry, and the command is not part of a confirmed batch, that same transaction spent a
  preflight nonce that was unspent, in date, and issued for this command, account, session and request.
\<close>

theorem cancel_dispatch_authorised:
  assumes quiet: "quiet_about q run" and tr: "tracked q (- {Received}) db"
    and run: "cancel_order svc run q db = (res, fx, db')" and sent: "fx_cancelled fx \<noteq> []"
  shows "\<exists>i order cdb mid ev. fx_cancelled fx = [(i, cq_command_id q)] \<and> body_order_id q = Some i
    \<and> cn_order run i = Some (Some order) \<and> \<not> bo_deleted order \<and> bo_status order \<in> set active_order_statuses
    \<and> mutate_batch_work (cancel_claim_work svc run q (classify_cancel (Some order))) cdb = (Inr ev, mid)
    \<and> recorded q Submitting None None mid \<and> journal_has mid (command_event_id (cq_command_id q) Submitting)
    \<and> (bo_leg order \<noteq> Some ''entry'' \<longrightarrow> cq_parent_command_id q = None \<longrightarrow>
        authorised_by (cs_sha svc) (cn_nonce_now run) q (nonces_of cdb) (nonces_of mid))
    \<and> cancel_dispatch run q i order mid = (res, fx, db')"
proof -
  have no: False if "fx = no_effects" using sent that by (simp add: no_effects_def)
  obtain i order where i: "body_order_id q = Some i" "cn_order run i = Some (Some order)" "\<not> is_terminal_order order"
    and work: "cancel_working svc run q i order db = (res, fx, db')"
    using run no by (auto simp: cancel_order_def cancel_noop_def Let_def split: option.splits if_splits prod.splits sum.splits
        dest!: refuse_sends_nothing)
  from quiet tr work obtain cdb where tc: "tracked q (- {Received, Validated}) cdb"
    and cl: "cancel_claimed svc run q i order cdb = (res, fx, db')"
    by (rule cancel_working_reaches) (use no in auto)
  obtain ev mid where w: "mutate_batch_work (cancel_claim_work svc run q (classify_cancel (Some order))) cdb = (Inr ev, mid)"
    and d: "cancel_dispatch run q i order mid = (res, fx, db')"
    using cl no by (auto simp: cancel_claimed_def split: prod.splits sum.splits journal_error.splits claim_error.splits
        dest!: refuse_sends_nothing)
  from cancel_claim_committed [OF tc w] have c: "recorded q Submitting None None mid"
      "journal_has mid (command_event_id (cq_command_id q) Submitting)"
      "bo_leg order \<noteq> Some ''entry'' \<longrightarrow> cq_parent_command_id q = None \<longrightarrow>
        authorised_by (cs_sha svc) (cn_nonce_now run) q (nonces_of cdb) (nonces_of mid)"
    by (simp_all add: needs_ceremony_def classify_cancel_def)
  have "\<not> bo_deleted order" "bo_status order \<in> set active_order_statuses" using i(3) by (simp_all add: is_terminal_order_def)
  note parts = cancel_dispatch_sends [OF d] i(1,2) this w c d
  show ?thesis
    by (rule exI [of _ i], rule exI [of _ order], rule exI [of _ cdb], rule exI [of _ mid], rule exI [of _ ev],
        intro conjI) (rule parts)+
qed

section \<open>Several orders\<close>

text \<open>
  A part of the tables that neither the coordinator nor the cancel saga writes to. The locale says which tables they
  do write; what the whole call then leaves alone is proved once for every such part.
\<close>

locale side_table =
  fixes view :: "trading_tables command_tables \<Rightarrow> 'x"
  assumes ledger_apart: "view (p\<lparr>ct_ledger := ls\<rparr>) = view p"
    and audit_apart: "view (p\<lparr>ct_audit := as\<rparr>) = view p" "view (p\<lparr>ct_next_audit := n\<rparr>) = view p"
    and nonces_apart: "view (p\<lparr>ct_nonces := ns\<rparr>) = view p"
    and written_apart: "view (p\<lparr>ct_written := w\<rparr>) = view p"
    and risk_apart: "view (sl_put saga_risk_slot rs p) = view p"
begin

lemma append_view:
  assumes "journal_append t u m w e db = (Inr ev, db')" and "\<And>p n p'. w p n = Inr p' \<Longrightarrow> view p' = view p"
  shows "view (jd_prod db') = view (jd_prod db)"
  using assms(1)
  by (auto simp: journal_append_def insert_journal_row_def upsert_materialized_def Let_def
      split: option.splits if_splits sum.splits dest: assms(2))

lemma batch_view:
  assumes "mutate_batch_work work db = (res, db')"
    and "\<And>r m. work (db\<lparr>jd_open_events := []\<rparr>) = (Inr r, m) \<Longrightarrow> view (jd_prod m) = view (jd_prod db)"
  shows "view (jd_prod db') = view (jd_prod db)"
  using assms(1) by (rule batch_work_prod) (auto dest: assms(2))

lemma mutate_view:
  assumes "mutate item db = (res, db')" and "\<And>p n p'. bi_write item p n = Inr p' \<Longrightarrow> view p' = view p"
  shows "view (jd_prod db') = view (jd_prod db)"
  using assms(1) unfolding mutate_work by (rule batch_view) (drule append_view, auto dest: assms(2))

lemma transition_command_view:
  assumes "transition_command run at_time q s s' outcome code db = (res, db')"
  shows "view (jd_prod db') = view (jd_prod db)"
proof -
  obtain r where "mutate (transition_item q s s' outcome code (now_utc run at_time) (ru_journaled run at_time)) db = (r, db')"
    using assms by (auto simp: transition_command_def split: prod.splits sum.splits)
  then show ?thesis
    by (rule mutate_view) (auto simp: transition_item_def command_write_def ledger_apart split: option.splits)
qed

lemma move_view:
  assumes "move_command run at_time q s s' outcome code db = (Inr ev, db')"
  shows "view (jd_prod db') = view (jd_prod db)"
proof -
  obtain row rows where "journal_append (ru_journaled run at_time) []
      (command_updated_mutation q s' (now_utc run at_time) outcome code) (\<lambda>p _. Inr p)
      (Some (command_event_id (cq_command_id q) s')) (set_ledger rows db)
      = (Inr ev :: claim_error journal_error + domain_event, db')"
    using assms by (auto simp: move_command_def split: option.splits)
  from append_view [OF this] show ?thesis by (simp add: set_ledger_def ledger_apart)
qed

lemma publish_view:
  assumes "publish_decision saga_risk_slot account_id pr command_id payload corr db = (res, db')"
  shows "view (jd_prod db') = view (jd_prod db)"
  using assms unfolding publish_decision_def
proof (rule batch_view)
  fix r m
  assume w: "publish_decision_work saga_risk_slot account_id pr command_id payload corr (db\<lparr>jd_open_events := []\<rparr>) = (Inr r, m)"
  have ap: "view (jd_prod d') = view (jd_prod d)"
    if "risk_append_write saga_risk_slot account_id pr rid kind payload c d = (Inr x, d')" for rid kind c d x d'
    using that by (auto simp: risk_append_write_def split: sum.splits prod.splits dest!: append_view simp: risk_apart)
  from w show "view (jd_prod m) = view (jd_prod db)"
    by (auto simp: publish_decision_work_def split: option.splits if_splits dest!: ap)
qed

lemma spend_view:
  assumes "spend_nonce sha now q db = (Inr u, db')"
  shows "view (jd_prod db') = view (jd_prod db)"
  using assms by (rule spend_nonce_ok) (simp add: set_nonces_def nonces_apart)

lemma claim_view:
  assumes "cancel_claim_work svc run q d db = (Inr ev, db')"
  shows "view (jd_prod db') = view (jd_prod db)"
  using assms
  by (auto simp: cancel_claim_work_def split: prod.splits sum.splits if_splits dest!: move_view dest: spend_view)

lemma refuse_view:
  assumes "refuse run q s code retryable db = (res, fx, db')"
  shows "view (jd_prod db') = view (jd_prod db)"
  using assms by (auto simp: refuse_def split: prod.splits sum.splits dest: transition_command_view)

lemma park_view:
  assumes "park_unknown run q outcome sent db = (res, fx, db')" and "\<And>g d. view (jd_prod (ru_gap run g d)) = view (jd_prod d)"
  shows "view (jd_prod db') = view (jd_prod db)"
  using assms by (auto simp: park_unknown_def split: prod.splits sum.splits dest!: transition_command_view)

lemma cancel_order_view:
  assumes run: "cancel_order svc run q db = (res, fx, db')"
    and gaps: "\<And>g d. view (jd_prod (ru_gap run g d)) = view (jd_prod d)"
  shows "view (jd_prod db') = view (jd_prod db)"
proof -
  have dispatch: "view (jd_prod d') = view (jd_prod d)" if "cancel_dispatch run q i order d = (r, f, d')" for i order d r f d'
  proof -
    obtain w m where b: "mutate_batch_work (move_command run AtFinishEvent q Submitting Submitted
        (Some (cancel_outcome i order)) None) (ru_gap run GapFinish d) = (w, m)" by fastforce
    from b have "view (jd_prod m) = view (jd_prod (ru_gap run GapFinish d))" by (rule batch_view) (auto dest!: move_view)
    then have "view (jd_prod m) = view (jd_prod d)" by (simp add: gaps)
    then show ?thesis
      using that b by (auto simp: cancel_dispatch_def Let_def gaps split: if_splits sum.splits dest!: park_view)
  qed
  have claimed: "view (jd_prod d') = view (jd_prod d)" if "cancel_claimed svc run q i order d = (r, f, d')" for i order d r f d'
  proof -
    obtain w m where b: "mutate_batch_work (cancel_claim_work svc run q (classify_cancel (Some order))) d = (w, m)" by fastforce
    from b have "view (jd_prod m) = view (jd_prod d)" by (rule batch_view) (auto dest!: claim_view)
    then show ?thesis
      using that b by (auto simp: cancel_claimed_def gaps split: sum.splits journal_error.splits claim_error.splits
          dest!: refuse_view dispatch)
  qed
  have working: "view (jd_prod d') = view (jd_prod d)" if "cancel_working svc run q i order d = (r, f, d')" for i order d r f d'
    using that by (auto simp: cancel_working_def gaps split: prod.splits sum.splits
        dest!: publish_view transition_command_view claimed)
  show ?thesis
    using run by (auto simp: cancel_order_def cancel_noop_def Let_def gaps
        split: option.splits if_splits prod.splits sum.splits dest!: refuse_view transition_command_view working)
qed

lemma collect_view:
  assumes "mutate_collect item db = (res, db')" and "\<And>p n p'. bi_write item p n = Inr p' \<Longrightarrow> view p' = view p"
  shows "view (jd_prod db') = view (jd_prod db)"
proof -
  obtain r m where m: "mutate item (db\<lparr>jd_prod := (jd_prod db)\<lparr>ct_written := None\<rparr>\<rparr>) = (r, m)" by fastforce
  from mutate_view [OF this assms(2)] have "view (jd_prod m) = view (jd_prod db)" by (simp add: written_apart)
  then show ?thesis using assms(1) m by (auto simp: mutate_collect_def written_apart split: sum.splits)
qed

lemma transition_view:
  assumes "transition q s s' outcome code now journaled db = (res, db')"
  shows "view (jd_prod db') = view (jd_prod db)"
  using assms
  by (auto simp: transition_def write_transition_def ledger_apart written_apart
      split: option.splits prod.splits sum.splits dest!: collect_view)

lemma fallback_view:
  assumes "fallback_outcome_unknown c clocks q db = (ids, db')"
  shows "view (jd_prod db') = view (jd_prod db)"
  using assms
  by (auto simp: fallback_outcome_unknown_def split: option.splits if_splits prod.splits sum.splits dest!: transition_view)

end

definition cancels_of :: "saga_db \<Rightarrow> (string \<times> string) list" where
  "cancels_of db = tt_cancelled (ct_world (jd_prod db))"

interpretation cancels: side_table "\<lambda>p. tt_cancelled (ct_world p)"
  by unfold_locales (simp_all add: saga_risk_slot_def)

lemma cancel_order_sends:
  assumes "cancel_order svc run q db = (res, fx, db')"
  shows "fx_cancelled fx = [] \<or> (\<exists>i. body_order_id q = Some i \<and> fx_cancelled fx = [(i, cq_command_id q)])"
proof -
  have none: "fx_cancelled f = []" if "refuse run q s code retryable d = (r, f, d')" for s code retryable d r f d'
    using refuse_sends_nothing [OF that] by (simp add: no_effects_def)
  have claimed: "fx_cancelled f = [] \<or> fx_cancelled f = [(i, cq_command_id q)]"
    if "cancel_claimed svc run q i order d = (r, f, d')" for i order d r f d'
    using that by (auto simp: cancel_claimed_def no_effects_def dest: none cancel_dispatch_sends
        split: prod.splits sum.splits journal_error.splits claim_error.splits)
  show ?thesis
    using assms by (auto simp: cancel_order_def cancel_noop_def cancel_working_def Let_def no_effects_def
        dest: none claimed split: option.splits if_splits prod.splits sum.splits)
qed

text \<open>What other threads do while the batch runs is not counted as its own cancels.\<close>

definition others_cancel_nothing :: "batch_run \<Rightarrow> bool" where
  "others_cancel_nothing run \<longleftrightarrow> (\<forall>db. cancels_of (br_gap run db) = cancels_of db)
     \<and> (\<forall>i db. cancels_of (ch_gap (br_child run i) db) = cancels_of db)
     \<and> (\<forall>i g db. cancels_of (ru_gap (ch_run (br_child run i)) g db) = cancels_of db)"

lemma handler_cancels:
  assumes "cancel_handler svc run q db = (res, db')" and "\<And>g d. cancels_of (ru_gap run g d) = cancels_of d"
    and "body_order_id q = Some i"
  shows "cancels_of db' \<in> {cancels_of db, cancels_of db @ [(i, cq_command_id q)]}"
proof -
  obtain r fx m where c: "cancel_order svc run q db = (r, fx, m)" by (cases "cancel_order svc run q db") auto
  have "cancels_of m = cancels_of db"
    using cancels.cancel_order_view [OF c] assms(2) by (simp add: cancels_of_def)
  moreover have "db' = log_effects fx m" using assms(1) c by (simp add: cancel_handler_def)
  ultimately show ?thesis using cancel_order_sends [OF c] assms(3) by (auto simp: cancels_of_def log_effects_def)
qed

lemma child_body [simp]:
  "body_order_id (cancel_child q n i) = Some i" "cq_command_id (cancel_child q n i) = child_id_of (cq_command_id q) n"
  "cq_action (cancel_child q n i) = ''cancel_order''"
  by (simp_all add: body_order_id_def cancel_child_def jget_def)

lemma execute_child_cancels:
  assumes others: "others_cancel_nothing run"
    and exec: "execute_child svc c (br_child run n) (cancel_child q n i) db = (res, ids, db')"
  shows "cancels_of db' \<in> {cancels_of db, cancels_of db @ [(i, child_id_of (cq_command_id q) n)]}"
proof -
  let ?ch = "br_child run n" and ?child = "cancel_child q n i"
  let ?c = "register_action ''cancel_order'' (Saga (cancel_handler svc (ch_run ?ch))) False c"
  define reg :: "(trading_tables, saga_error) action_registration"
    where "reg = \<lparr>ar_handler = Saga (cancel_handler svc (ch_run ?ch)), ar_requires_preflight = False\<rparr>"
  have reg: "map_of (co_actions ?c) (cq_action ?child) = Some reg"
    by (simp add: register_action_def update_conv reg_def)
  have gap: "cancels_of (ch_gap ?ch d) = cancels_of d" "cancels_of (ru_gap (ch_run ?ch) g d) = cancels_of d" for d g
    using others by (auto simp: others_cancel_nothing_def)
  have handled: "cancels_of d' \<in> {cancels_of d, cancels_of d @ [(i, child_id_of (cq_command_id q) n)]}"
    if "run_handler ?c reg clocks ?child d = (r, ids', d')" for clocks d r ids' d'
  proof -
    obtain a m where h: "cancel_handler svc (ch_run ?ch) ?child d = (a, m)" by fastforce
    have "cancels_of d' = cancels_of m"
      using that h by (auto simp: run_handler_def reg_def finish_saga_def cancels_of_def
          split: sum.splits handler_error.splits prod.splits dest!: cancels.fallback_view)
    then show ?thesis using handler_cancels [OF h gap(2) child_body(1)] by simp
  qed
  have claim: "cancels_of m = cancels_of d"
    if "mutate_collect (claim_item ?c reg clocks ?child h t) d = (r, m)" for clocks h t d r m
    unfolding cancels_of_def using that
  proof (rule cancels.collect_view)
    fix p n' p' assume "bi_write (claim_item ?c reg clocks ?child h t) p n' = Inr p'"
    then show "tt_cancelled (ct_world p') = tt_cancelled (ct_world p)"
      by (auto simp: claim_item_def reg_def write_received_def Let_def split: option.splits prod.splits)
  qed
  have "cancels_of d' \<in> {cancels_of d, cancels_of d @ [(i, child_id_of (cq_command_id q) n)]}"
    if "claim_and_run ?c reg clocks ?child d = (r, ids', d')" for clocks d r ids' d'
    using that
    by (auto simp: claim_and_run_def split: option.splits prod.splits sum.splits journal_error.splits command_error.splits
        dest: claim dest!: handled)
  then show ?thesis
    using exec reg gap(1) by (fastforce simp: execute_child_def execute_def split: option.splits ledger_claim.splits)
qed

lemma classify_all_keys: "classify_all view ids = Some cs \<Longrightarrow> map fst cs = ids"
  by (induction ids arbitrary: cs) (auto split: option.splits)

lemma upt_step: "[n..<n + length (x # xs)] = n # [Suc n..<Suc n + length xs]"
  by (simp add: upt_conv_Cons del: upt_Suc)

lemma children_results:
  "fan_out svc c run q n cs db = (results, ids, db') \<Longrightarrow>
     map cd_order results = map fst cs
     \<and> map cd_command_id results = map (child_id_of (cq_command_id q)) [n..<n + length cs]"
proof (induction cs arbitrary: n db results ids db')
  case (Cons kv cs)
  obtain r s d where e: "execute_child svc c (br_child run n) (cancel_child q n (fst kv)) db = (r, s, d)"
    by (cases "execute_child svc c (br_child run n) (cancel_child q n (fst kv)) db") auto
  obtain rs later d' where rest: "fan_out svc c run q (Suc n) cs d = (rs, later, d')"
    by (cases "fan_out svc c run q (Suc n) cs d") auto
  have "results = child_result_of (fst kv) (child_id_of (cq_command_id q) n) (snd kv) r # rs"
    using Cons.prems e rest by (cases kv) auto
  then show ?case
    unfolding upt_step using Cons.IH [OF rest] by (auto simp: child_result_of_def simp del: upt_Suc split: sum.splits)
qed auto

text \<open>The cancels of the children, in order: each child hands over its own or none.\<close>

lemma children_cancels:
  assumes others: "others_cancel_nothing run"
  shows "fan_out svc c run q n cs db = (results, ids, db') \<Longrightarrow>
     \<exists>new. cancels_of db' = cancels_of db @ new
       \<and> subseq new (zip (map fst cs) (map (child_id_of (cq_command_id q)) [n..<n + length cs]))"
proof (induction cs arbitrary: n db results ids db')
  case (Cons kv cs)
  obtain r s d where e: "execute_child svc c (br_child run n) (cancel_child q n (fst kv)) db = (r, s, d)"
    by (cases "execute_child svc c (br_child run n) (cancel_child q n (fst kv)) db") auto
  obtain rs later d' where rest: "fan_out svc c run q (Suc n) cs d = (rs, later, d')"
    by (cases "fan_out svc c run q (Suc n) cs d") auto
  have "d' = db'" using Cons.prems e rest by (cases kv) auto
  with Cons.IH [OF rest] obtain new where new: "cancels_of db' = cancels_of d @ new"
    "subseq new (zip (map fst cs) (map (child_id_of (cq_command_id q)) [Suc n..<Suc n + length cs]))" by blast
  from execute_child_cancels [OF others e] consider "cancels_of d = cancels_of db"
    | "cancels_of d = cancels_of db @ [(fst kv, child_id_of (cq_command_id q) n)]" by auto
  then show ?case
  proof cases
    case 1
    then show ?thesis unfolding upt_step using new by (intro exI [of _ new]) (simp add: list_emb_Cons del: upt_Suc)
  next
    case 2
    then show ?thesis unfolding upt_step
      using new by (intro exI [of _ "(fst kv, child_id_of (cq_command_id q) n) # new"]) (simp del: upt_Suc)
  qed
qed simp

lemma classify_all_needs:
  assumes "classify_all view ids = Some cs" and "i \<in> set ids"
    and "\<And>order. view i = Some (Some order) \<Longrightarrow> bo_leg order \<noteq> Some ''entry''"
  shows "batch_needs_ceremony cs"
  using assms
proof (induction ids arbitrary: cs)
  case (Cons j ids)
  from Cons.prems(1) obtain order cs' where o: "view j = Some order" "classify_all view ids = Some cs'"
    "cs = (j, direction_value (classify_cancel order)) # cs'" by (auto split: option.splits)
  show ?case
  proof (cases "i = j")
    case True
    then have "classify_cancel order = INCREASING"
      using Cons.prems(3) o(1) by (cases order) (auto simp: classify_cancel_def)
    then show ?thesis using o(3) by (simp add: batch_needs_ceremony_def direction_value_def)
  next
    case False
    then have "batch_needs_ceremony cs'" using Cons.IH [OF o(2)] Cons.prems(2,3) by simp
    then show ?thesis using o(3) by (simp add: batch_needs_ceremony_def)
  qed
qed simp

lemma distinct_requested: "distinct (requested_orders body)"
  by (auto simp: requested_orders_def from_keys_def split: option.splits json.splits)

lemma distinct_children: "distinct (map (child_id_of root_id) [m..<n])"
  by (simp add: distinct_map inj_on_def child_id_of_def)

lemma spend_batch:
  assumes "mutate_batch_work (spend_nonce sha now q) db = (res, db')"
  shows "cancels_of db' = cancels_of db \<and> (res = Inr u \<longrightarrow> authorised_by sha now q (nonces_of db) (nonces_of db'))"
proof
  show "cancels_of db' = cancels_of db"
    unfolding cancels_of_def using assms by (rule cancels.batch_view) (auto dest!: cancels.spend_view)
  show "res = Inr u \<longrightarrow> authorised_by sha now q (nonces_of db) (nonces_of db')"
    using assms by (cases rule: batch_work_prod) (auto elim!: spend_nonce_ok simp: nonces_of_def set_nonces_def)
qed

text \<open>
  C8. Cancelling several orders takes one confirmation and cancels each order at most once. A refused batch hands
  nothing to the broker. A batch that runs gives each distinct order its own child command, in the order of the
  request; what it hands to the broker is, for some of the orders, one cancel each, under that child's reference;
  and if any order is missing, protective or of unknown leg, the root's own preflight nonce, unspent, in date and issued for
  this very batch, was spent in a transaction that had committed before the first child ran.
\<close>

theorem cancel_batch_confirmed_once:
  assumes others: "others_cancel_nothing run" and run: "cancel_orders svc c run q db = (res, ids, db')"
  shows "case res of
      Inl e \<Rightarrow> cancels_of db' = cancels_of db
    | Inr results \<Rightarrow>
        let orders = requested_orders (Some (cq_body q));
            children = map (child_id_of (cq_command_id q)) [0..<length orders]
        in distinct orders \<and> distinct children \<and> map cd_order results = orders \<and> map cd_command_id results = children
           \<and> (\<exists>new. cancels_of db' = cancels_of db @ new \<and> subseq new (zip orders children))
           \<and> ((\<exists>i \<in> set orders. \<forall>order. br_order run i = Some (Some order) \<longrightarrow> bo_leg order \<noteq> Some ''entry'') \<longrightarrow>
               (\<exists>cs mid. mutate_batch_work (spend_nonce (cs_sha svc) (br_nonce_now run) q) (br_gap run db) = (Inr (), mid)
                  \<and> authorised_by (cs_sha svc) (br_nonce_now run) q (nonces_of (br_gap run db)) (nonces_of mid)
                  \<and> fan_out svc c run q 0 cs mid = (results, ids, db')))"
proof -
  let ?orders = "requested_orders (Some (cq_body q))"
  have gap: "cancels_of (br_gap run d) = cancels_of d" for d using others by (simp add: others_cancel_nothing_def)
  consider (empty) e where "?orders = []" "res = Inl e" "db' = db"
    | (unread) e where "classify_all (br_order run) ?orders = None" "res = Inl e" "db' = db"
    | (some) cs where "?orders \<noteq> []" "classify_all (br_order run) ?orders = Some cs"
    using run by (auto simp: cancel_orders_def split: list.splits option.splits)
  then show ?thesis
  proof cases
    case (some cs)
    obtain w mid where w: "(if batch_needs_ceremony cs
        then mutate_batch_work (spend_nonce (cs_sha svc) (br_nonce_now run) q) (br_gap run db)
        else (Inr (), br_gap run db)) = (w, mid)" by fastforce
    have mid: "cancels_of mid = cancels_of db"
      using w spend_batch gap by (auto split: if_splits)
    note body = run [unfolded cancel_orders_def] some w
    show ?thesis
    proof (cases w)
      case (Inl e)
      then have "db' = mid" "\<exists>x. res = Inl x"
        using body by (auto split: list.splits journal_error.splits claim_error.splits)
      then show ?thesis using mid by auto
    next
      case (Inr u)
      then obtain results where ch: "fan_out svc c run q 0 cs mid = (results, ids, db')" and res: "res = Inr results"
        using body by (auto split: list.splits prod.splits)
      have keys: "map fst cs = ?orders" "length cs = length ?orders"
        using classify_all_keys [OF some(2)] by (auto dest: arg_cong [of _ _ length])
      have ceremony: "\<exists>cs mid. mutate_batch_work (spend_nonce (cs_sha svc) (br_nonce_now run) q) (br_gap run db) = (Inr (), mid)
            \<and> authorised_by (cs_sha svc) (br_nonce_now run) q (nonces_of (br_gap run db)) (nonces_of mid)
            \<and> fan_out svc c run q 0 cs mid = (results, ids, db')"
        if "i \<in> set ?orders" "\<forall>order. br_order run i = Some (Some order) \<longrightarrow> bo_leg order \<noteq> Some ''entry''" for i
        using classify_all_needs [OF some(2) that(1)] that(2) w Inr ch spend_batch
        by (intro exI [of _ cs] exI [of _ mid]) auto
      show ?thesis
        unfolding res Let_def sum.case
        using children_results [OF ch] children_cancels [OF others ch] keys mid ceremony distinct_requested distinct_children by auto
    qed
  qed simp_all
qed

section \<open>A concrete cancel\<close>

text \<open>The stop of an open position, and the entry of another group.\<close>

definition demo_order :: "string \<Rightarrow> string \<Rightarrow> order_row" where
  "demo_order i leg =
     \<lparr>bo_order_entity_id = i, bo_account_id = ''DU1'', bo_conid = 5, bo_symbol = ''ABC'', bo_order_group_id = Some ''og-g'',
      bo_leg = Some leg, bo_is_external = False, bo_action = ''SELL'', bo_order_type = ''STP'', bo_total_quantity = Fin 1,
      bo_filled_quantity = Fin 0, bo_avg_fill_price = None, bo_limit_price = None, bo_stop_price = Some (Fin 9),
      bo_tif = None, bo_status = ''Submitted'', bo_deleted = False, bo_revision = 1, bo_source_timestamp = 0,
      bo_oca_group = None, bo_oca_type = None\<rparr>"

definition demo_view :: "string \<Rightarrow> order_row option option" where
  "demo_view i = Some (if i = ''o1'' then Some (demo_order i ''stop'') else if i = ''o2'' then Some (demo_order i ''entry'') else None)"

definition demo_cancel :: command_request where
  "demo_cancel = demo_command\<lparr>cq_action := ''cancel_order'', cq_body := [(''order_entity_id'', JStr ''o1'')],
     cq_preflight_nonce := Some ''n1'', cq_parent_command_id := None\<rparr>"

definition demo_batch :: command_request where
  "demo_batch = demo_cancel\<lparr>cq_action := ''cancel_orders'',
     cq_body := [(''order_entity_ids'', JList [JStr ''o1'', JStr ''o2'', JStr ''o1''])]\<rparr>"

definition demo_cancel_service :: cancel_service where
  "demo_cancel_service = \<lparr>cs_risk_account = ''DU1'', cs_sha = demo_sha\<rparr>"

definition demo_cancel_run :: cancel_run where
  "demo_cancel_run =
     \<lparr>ru_clock = (\<lambda>_. Aware 10), ru_ledger_clock = (\<lambda>_. 10), ru_journaled = (\<lambda>_. 11),
      ru_publish = (\<lambda>b. \<lparr>pb_clock = Aware 10, pb_journaled = 11, pb_uuid = ''u1''\<rparr>),
      ru_gap = (\<lambda>_ d. d), cn_order = demo_view, cn_nonce_now = 10, cn_cancel = (\<lambda>_ _. True)\<rparr>"

definition demo_cancel_db :: "command_request \<Rightarrow> saga_db" where
  "demo_cancel_db q = empty_journal (demo_saga_tables\<lparr>ct_ledger := [received_row q ''h'' 0],
     ct_nonces := [\<lparr>nr_nonce = ''n1'', nr_command_id = ''c1'', nr_account_id = Some ''DU1'', nr_account_mode = ''paper'',
       nr_session_fingerprint = opt_or [] (cq_session_fingerprint q),
       nr_request_hash = opt_or [] (canonical_request_hash demo_sha q), nr_issued_at = 0,
       nr_expires_at = 100, nr_consumed = False\<rparr>]\<rparr>)"

definition demo_cancel_answer :: saga_answer where
  "demo_cancel_answer = cancel_order demo_cancel_service demo_cancel_run demo_cancel (demo_cancel_db demo_cancel)"

definition demo_cancel_outcome :: jobject where
  "demo_cancel_outcome = [(''order_entity_id'', JStr ''o1''), (''unprotected_conid'', JInt 5)]"

lemma demo_cancel_sent:
  "fst demo_cancel_answer = Inr (receipt ''c1'' Submitted None False (Some demo_cancel_outcome))"
  "fx_cancelled (fst (snd demo_cancel_answer)) = [(''o1'', ''c1'')]"
  by code_simp+

lemma demo_cancel_tracked:
  "quiet_about demo_cancel demo_cancel_run" "tracked demo_cancel (- {Received}) (demo_cancel_db demo_cancel)"
proof -
  show "quiet_about demo_cancel demo_cancel_run"
    by (simp add: quiet_about_def demo_cancel_run_def command_event_id_def)
  have "journal_inv (demo_cancel_db demo_cancel)" by (simp add: demo_cancel_db_def)
  moreover have "jd_rows (demo_cancel_db demo_cancel) = []" by (simp add: demo_cancel_db_def empty_journal_def)
  moreover have "ledger_of (demo_cancel_db demo_cancel) = [received_row demo_cancel ''h'' 0]"
    by (simp add: demo_cancel_db_def empty_journal_def ledger_of_def)
  ultimately show "tracked demo_cancel (- {Received}) (demo_cancel_db demo_cancel)"
    by (simp add: tracked_def journal_has_def)
qed

lemma cancel_receipt_true_example:
  "cancel_receipt_true_of demo_cancel (receipt ''c1'' Submitted None False (Some demo_cancel_outcome))
     (fst (snd demo_cancel_answer)) (snd (snd demo_cancel_answer))"
proof -
  have "cancel_order demo_cancel_service demo_cancel_run demo_cancel (demo_cancel_db demo_cancel)
      = (Inr (receipt ''c1'' Submitted None False (Some demo_cancel_outcome)),
         fst (snd demo_cancel_answer), snd (snd demo_cancel_answer))"
    using demo_cancel_sent(1) by (metis demo_cancel_answer_def prod.collapse)
  from cancel_receipt_true [OF demo_cancel_tracked this] show ?thesis .
qed

theorem cancel_dispatch_authorised_witness:
  "fx_cancelled (fst (snd demo_cancel_answer)) = [(''o1'', ''c1'')]
   \<and> (\<exists>before after. authorised_by demo_sha 10 demo_cancel before after)"
proof -
  have run: "cancel_order demo_cancel_service demo_cancel_run demo_cancel (demo_cancel_db demo_cancel)
      = (fst demo_cancel_answer, fst (snd demo_cancel_answer), snd (snd demo_cancel_answer))"
    by (simp add: demo_cancel_answer_def)
  have sent: "fx_cancelled (fst (snd demo_cancel_answer)) \<noteq> []" using demo_cancel_sent(2) by simp
  have demo: "body_order_id demo_cancel = Some ''o1''" "cn_order demo_cancel_run ''o1'' = Some (Some (demo_order ''o1'' ''stop''))"
    "bo_leg (demo_order ''o1'' ''stop'') \<noteq> Some ''entry''" "cq_parent_command_id demo_cancel = None"
    "cs_sha demo_cancel_service = demo_sha" "cn_nonce_now demo_cancel_run = 10"
    by (simp_all add: body_order_id_def demo_cancel_def jget_def demo_cancel_run_def demo_view_def demo_order_def
        demo_cancel_service_def)
  from cancel_dispatch_authorised [OF demo_cancel_tracked run sent] demo_cancel_sent(2) show ?thesis
    by (auto simp: demo)
qed

definition demo_batch_run :: batch_run where
  "demo_batch_run = \<lparr>br_order = demo_view, br_nonce_now = 10, br_gap = (\<lambda>d. d),
     br_child = (\<lambda>i. \<lparr>ch_clocks = demo_clocks, ch_gap = (\<lambda>d. d),
       ch_run = demo_cancel_run\<lparr>ru_publish := (\<lambda>b. \<lparr>pb_clock = Aware 10, pb_journaled = 11,
         pb_uuid = ''u'' @ string_of_int (int i)\<rparr>)\<rparr>\<rparr>)\<rparr>"

definition demo_batch_coordinator :: "(trading_tables, saga_error) coordinator" where
  "demo_batch_coordinator = \<lparr>co_actions = [], co_sha = demo_sha, co_reconciler = True\<rparr>"

definition demo_batch_answer ::
    "(saga_error handler_error + child_result list) \<times> string list \<times> saga_db" where
  "demo_batch_answer = cancel_orders demo_cancel_service demo_batch_coordinator demo_batch_run demo_batch (demo_cancel_db demo_batch)"

lemma demo_batch_sent:
  "\<not> (case fst demo_batch_answer of Inl _ \<Rightarrow> True | Inr rs \<Rightarrow> partial_failure rs)"
  "cancels_of (snd (snd demo_batch_answer)) = [(''o1'', ''c1-0''), (''o2'', ''c1-1'')]"
  by code_simp+

theorem cancel_batch_confirmed_once_witness:
  "(\<exists>results. fst demo_batch_answer = Inr results \<and> map cd_command_id results = [''c1-0'', ''c1-1''])
   \<and> (\<exists>mid. authorised_by demo_sha 10 demo_batch (nonces_of (demo_cancel_db demo_batch)) (nonces_of mid))"
proof -
  have run: "cancel_orders demo_cancel_service demo_batch_coordinator demo_batch_run demo_batch (demo_cancel_db demo_batch)
      = (fst demo_batch_answer, fst (snd demo_batch_answer), snd (snd demo_batch_answer))"
    by (simp add: demo_batch_answer_def)
  have others: "others_cancel_nothing demo_batch_run"
    by (simp add: others_cancel_nothing_def demo_batch_run_def demo_cancel_run_def)
  obtain rs where rs: "fst demo_batch_answer = Inr rs"
    using demo_batch_sent(1) by (cases "fst demo_batch_answer") auto
  have ids: "requested_orders (Some (cq_body demo_batch)) = [''o1'', ''o2'']" by code_simp
  have "child_id_of (cq_command_id demo_batch) 0 = ''c1-0''" "child_id_of (cq_command_id demo_batch) 1 = ''c1-1''"
    by code_simp+
  then have kids: "map (child_id_of (cq_command_id demo_batch)) [0..<length [''o1'', ''o2'']] = [''c1-0'', ''c1-1'']"
    by (simp add: upt_conv_Cons)
  have demo: "cs_sha demo_cancel_service = demo_sha" "br_nonce_now demo_batch_run = 10" "br_gap demo_batch_run = (\<lambda>d. d)"
    "br_order demo_batch_run ''o1'' = Some (Some (demo_order ''o1'' ''stop''))" "bo_leg (demo_order ''o1'' ''stop'') = Some ''stop''"
    by (simp_all add: demo_cancel_service_def demo_batch_run_def demo_view_def demo_order_def)
  from cancel_batch_confirmed_once [OF others run] rs ids kids demo show ?thesis by (auto simp: Let_def)
qed

end
