(* ===== verification/Strategy_Saga.thy ===== *)
theory Strategy_Saga
  imports Outcome_Reconciler
begin

text \<open>
  \<open>StrategyControlCommandService\<close> and \<open>acknowledge_strategy_state\<close> of
  \<^verbatim>\<open>src/trader/trading/command_coordinator.py\<close>: forwarding enable, disable and parameter updates to the
  strategy service, and journaling the state the strategy service reports. The service on the other
  side is the field \<open>sr_forward\<close>: what its one call answered.
\<close>

section \<open>Acknowledging a state\<close>

definition strategy_event_id :: "string \<Rightarrow> int \<Rightarrow> string" where
  "strategy_event_id strategy_name state_revision =
     ''strategy:'' @ strategy_name @ '':state:'' @ string_of_int state_revision"

definition ack_mutation ::
    "string \<Rightarrow> jobject \<Rightarrow> string \<Rightarrow> string option \<Rightarrow> instant \<Rightarrow> domain_mutation" where
  "ack_mutation strategy_name payload corr account_id now =
     \<lparr>dm_event_type = ''strategy.updated'', dm_entity_type = ''strategy'', dm_entity_id = strategy_name,
      dm_operation = Upsert, dm_account_id = account_id, dm_source = ''trader_service'',
      dm_source_timestamp = Aware now, dm_correlation_id = Some corr, dm_payload = Some payload\<rparr>"

text \<open>The callback only logs when the revisions have drifted apart: it writes nothing and never raises.\<close>

definition strategy_ack_write :: "int \<Rightarrow> 'p \<Rightarrow> int \<Rightarrow> unit + 'p" where
  "strategy_ack_write expected_state_revision p revision = Inr p"

definition acknowledge_strategy_state ::
    "instant \<Rightarrow> string \<Rightarrow> int \<Rightarrow> jobject \<Rightarrow> string \<Rightarrow> string option \<Rightarrow> instant \<Rightarrow> 'p journal_db
     \<Rightarrow> (unit journal_error + int) \<times> 'p journal_db" where
  "acknowledge_strategy_state journaled strategy_name state_revision payload corr account_id now db =
     (case mutate \<lparr>bi_received_ts = journaled, bi_uuid = [],
                   bi_mutation = ack_mutation strategy_name payload corr account_id now,
                   bi_write = strategy_ack_write state_revision,
                   bi_event_id = Some (strategy_event_id strategy_name state_revision)\<rparr> db of
        (Inr event, db') \<Rightarrow> (Inr (de_entity_revision event), db')
      | (Inl (EventIdentityConflict e), db') \<Rightarrow>
          (case get_entity db' ''strategy'' strategy_name of
             Some entity \<Rightarrow> (Inr (en_entity_revision entity), db')
           | None \<Rightarrow> (Inl (EventIdentityConflict e), db'))
      | (Inl e, db') \<Rightarrow> (Inl e, db'))"

section \<open>The forwarding saga\<close>

datatype forward_answer = Forwarded strategy_receipt | RemoteRejected string | ForwardRaised

record strategy_run = call_run +
  sr_exists :: "string \<Rightarrow> bool option"
  sr_owner_resolved :: "(string \<Rightarrow> bool option) option"
  sr_forward :: "command_request \<Rightarrow> forward_answer"

definition body_strategy_name :: "command_request \<Rightarrow> string option" where
  "body_strategy_name q = (case jget (cq_body q) ''strategy_name'' of Some v \<Rightarrow> json_text v | None \<Rightarrow> None)"

text \<open>\<open>not strategy_name or not exists(strategy_name)\<close>, then the ownership port; None is a port that raised.\<close>

definition strategy_refusal :: "strategy_run \<Rightarrow> command_request \<Rightarrow> (string \<times> bool) option option" where
  "strategy_refusal run q =
     (case body_strategy_name q of
        None \<Rightarrow> Some (Some (''STRATEGY_NOT_FOUND'', False))
      | Some name \<Rightarrow>
          if name = [] then Some (Some (''STRATEGY_NOT_FOUND'', False))
          else case sr_exists run name of
                 None \<Rightarrow> None
               | Some False \<Rightarrow> Some (Some (''STRATEGY_NOT_FOUND'', False))
               | Some True \<Rightarrow>
                  (case (cq_action q = ''disable_strategy'', sr_owner_resolved run) of
                     (True, Some resolved) \<Rightarrow>
                       (case resolved name of
                          None \<Rightarrow> None
                        | Some False \<Rightarrow> Some (Some (''EXPOSURE_OWNERSHIP_UNRESOLVED'', True))
                        | Some True \<Rightarrow> Some None)
                   | _ \<Rightarrow> Some None))"

definition forward_payload :: "strategy_receipt \<Rightarrow> jobject" where
  "forward_payload r = jmerge (opt_or [] (st_observable_payload r)) (strategy_payload r)"

definition forward_outcome :: "strategy_receipt \<Rightarrow> int option \<Rightarrow> jobject" where
  "forward_outcome r entity_revision =
     jmerge (forward_payload r) [(''entity_revision'', jopt JInt entity_revision)]"

text \<open>After the port answered: the state is journaled if the strategy side committed, then the command resolves.\<close>

definition resolve_forwarded ::
    "strategy_run \<Rightarrow> command_request \<Rightarrow> strategy_receipt \<Rightarrow> int option \<Rightarrow> saga_db \<Rightarrow> saga_answer" where
  "resolve_forwarded run q r entity_revision db =
     (case transition_command run AtResolved q Submitting Resolved (Some (forward_outcome r entity_revision)) None
             (ru_gap run GapFinish db) of
        (Inl e, db') \<Rightarrow> (Inl e, no_effects, db')
      | (Inr _, db') \<Rightarrow>
          (Inr (receipt (cq_command_id q) Resolved None False (Some (forward_outcome r entity_revision))), no_effects, db'))"

definition acknowledge_forwarded ::
    "strategy_run \<Rightarrow> command_request \<Rightarrow> strategy_receipt \<Rightarrow> saga_db \<Rightarrow> saga_answer" where
  "acknowledge_forwarded run q r db =
     (if st_state r = ''COMMITTED''
      then case acknowledge_strategy_state (ru_journaled run AtAcknowledged) (st_strategy_name r) (st_state_revision r)
                  (forward_payload r) (correlation_id q) (cq_account_id q) (now_utc run AtAcknowledged)
                  (ru_gap run GapAcknowledge db) of
             (Inl _, db') \<Rightarrow> (Inl CollaboratorRaised, no_effects, db')
           | (Inr revision, db') \<Rightarrow> resolve_forwarded run q r (Some revision) db'
      else resolve_forwarded run q r None db)"

text \<open>The command is SUBMITTING; the one call to the strategy service and what follows from its answer.\<close>

definition forward_submitted :: "strategy_run \<Rightarrow> command_request \<Rightarrow> saga_db \<Rightarrow> saga_answer" where
  "forward_submitted run q db =
     (case sr_forward run q of
        RemoteRejected code \<Rightarrow> refuse run q Submitting code True (ru_gap run GapRefused db)
      | ForwardRaised \<Rightarrow> park_unknown run q None no_effects db
      | Forwarded r \<Rightarrow> acknowledge_forwarded run q r db)"

definition strategy_forward :: "strategy_run \<Rightarrow> command_request \<Rightarrow> saga_db \<Rightarrow> saga_answer" where
  "strategy_forward run q db =
     (case strategy_refusal run q of
        None \<Rightarrow> (Inl CollaboratorRaised, no_effects, db)
      | Some (Some (code, retryable)) \<Rightarrow> refuse run q Received code retryable (ru_gap run GapFirstTransition db)
      | Some None \<Rightarrow>
         (case transition_command run AtValidated q Received Validated None None (ru_gap run GapFirstTransition db) of
            (Inl e, db1) \<Rightarrow> (Inl e, no_effects, db1)
          | (Inr _, db1) \<Rightarrow>
             (case transition_command run AtSubmittingEvent q Validated Submitting None None (ru_gap run GapClaim db1) of
                (Inl e, db2) \<Rightarrow> (Inl e, no_effects, db2)
              | (Inr _, db2) \<Rightarrow> forward_submitted run q db2)))"

section \<open>Acknowledgements\<close>

lemma conflict_has_row:
  assumes "mutate item db = (Inl (EventIdentityConflict x), db')" and "bi_event_id item = Some e"
  obtains row where "select_journal_row db e = Some row"
  using assms
  by (cases "select_journal_row db e")
    (auto simp: mutate_work mutate_batch_work_def journal_append_def item_id_def insert_journal_row_def Let_def
      split: if_splits prod.splits sum.splits)

lemma ack_cases:
  assumes inv: "journal_inv db"
    and run: "acknowledge_strategy_state t name n payload corr account now db = (res, db')"
  obtains (failed) e where "res = Inl e" and "db' = db"
  | (again) r where "select_journal_row db (strategy_event_id name n) = Some r" and "jd_rows db' = jd_rows db"
      and "jd_entities db' = jd_entities db" and "jd_prod db' = jd_prod db" and "journal_inv db'" and "\<exists>k. res = Inr k"
  | (fresh) row where "select_journal_row db (strategy_event_id name n) = None" and "jd_rows db' = jd_rows db @ [row]"
      and "jr_event_id row = strategy_event_id name n" and "jd_prod db' = jd_prod db" and "journal_inv db'"
      and "res = Inr (jr_entity_revision row)"
proof -
  let ?item = "\<lparr>bi_received_ts = t, bi_uuid = [], bi_mutation = ack_mutation name payload corr account now,
      bi_write = strategy_ack_write n, bi_event_id = Some (strategy_event_id name n)\<rparr>"
  obtain r mid where m: "mutate ?item db = (r, mid)" by fastforce
  note inv' = mutate_inv [OF inv m]
  from inv m show thesis
  proof (cases rule: mutate_cases)
    case (failed e)
    show thesis
    proof (cases "\<exists>x. e = EventIdentityConflict x")
      case True
      then obtain x where x: "e = EventIdentityConflict x" by blast
      have "mutate ?item db = (Inl (EventIdentityConflict x), mid)" using m failed(1) x by (simp only:)
      then obtain row where row: "select_journal_row db (strategy_event_id name n) = Some row"
        by (rule conflict_has_row) simp_all
      have ack: "(case get_entity db ''strategy'' name of Some entity \<Rightarrow> (Inr (en_entity_revision entity), db)
          | None \<Rightarrow> (Inl (EventIdentityConflict x), db)) = (res, db')"
        using run m failed x by (simp add: acknowledge_strategy_state_def)
      show thesis
      proof (cases "get_entity db ''strategy'' name")
        case None
        then show thesis using ack that(1) by auto
      next
        case (Some entity)
        then show thesis using ack inv again [OF row] by auto
      qed
    next
      case False
      then show thesis using run m failed that(1)
        by (auto simp: acknowledge_strategy_state_def split: journal_error.splits)
    qed
  next
    case (replay row)
    then show thesis using run m inv' again [of row] by (auto simp: acknowledge_strategy_state_def item_id_def)
  next
    case (fresh p)
    then show thesis using run m inv' that(3) [of "fresh_row t (strategy_event_id name n)
        (ack_mutation name payload corr account now) db"]
      by (auto simp: acknowledge_strategy_state_def strategy_ack_write_def item_id_def)
  qed
qed

text \<open>
  A strategy state is journaled once. After a state revision has been acknowledged, and whatever was journaled since,
  acknowledging the same revision of the same strategy again, at any time, under any correlation and with any payload,
  succeeds as long as the strategy is known, and adds no event and changes no materialised state.
\<close>

lemma strategy_state_recorded_once:
  assumes "journal_inv db" and "acknowledge_strategy_state t name n payload corr account now db = (Inr k, db1)"
    and "set (jd_rows db1) \<subseteq> set (jd_rows db2)" and inv2: "journal_inv db2"
    and known: "get_entity db2 ''strategy'' name \<noteq> None"
    and again: "acknowledge_strategy_state t' name n payload' corr' account' now' db2 = (res, db3)"
  shows "(\<exists>k'. res = Inr k') \<and> jd_rows db3 = jd_rows db2 \<and> jd_entities db3 = jd_entities db2
    \<and> (\<exists>r \<in> set (jd_rows db1). jr_event_id r = strategy_event_id name n)"
proof -
  from assms(1,2) obtain r where r: "r \<in> set (jd_rows db1)" "jr_event_id r = strategy_event_id name n"
    by (cases rule: ack_cases) (auto dest: select_journal_row_Some)
  then have has: "select_journal_row db2 (strategy_event_id name n) \<noteq> None"
    using assms(3) by (auto simp: select_journal_row_def filter_empty_conv)
  from inv2 again have "(\<exists>k'. res = Inr k') \<and> jd_rows db3 = jd_rows db2 \<and> jd_entities db3 = jd_entities db2"
  proof (cases rule: ack_cases)
    case (failed e)
    from has obtain row where row: "select_journal_row db2 (strategy_event_id name n) = Some row" by blast
    have False
      using again failed known
      by (auto simp: acknowledge_strategy_state_def mutate_work mutate_batch_work_def journal_append_def row
          split: prod.splits sum.splits journal_error.splits option.splits if_splits)
    then show ?thesis ..
  qed (use has in simp_all)
  then show ?thesis using r by blast
qed

section \<open>What the receipt says\<close>

lemma strategy_event_apart [simp]: "strategy_event_id name n \<noteq> command_event_id c s" "command_event_id c s \<noteq> strategy_event_id name n"
  by (simp_all add: strategy_event_id_def command_event_id_def)

lemma ack_tracked:
  assumes tr: "tracked q S db"
    and run: "acknowledge_strategy_state t name n payload corr account now db = (Inr k, db')"
  shows "tracked q S db' \<and> journal_has db' (strategy_event_id name n)"
proof -
  have inv: "journal_inv db" using tr by (simp add: tracked_def)
  from inv run show ?thesis
  proof (cases rule: ack_cases)
    case (again r)
    then show ?thesis
      using tr by (auto simp: tracked_def ledger_of_def journal_has_def dest: select_journal_row_Some)
  next
    case (fresh row)
    then show ?thesis using tr by (auto simp: tracked_def ledger_of_def journal_has_def)
  qed simp
qed

lemma resolve_forwarded_recorded:
  assumes "quiet_about q run" and "tracked q S db" and "Resolved \<in> S"
    and "resolve_forwarded run q sr n db = (Inr r, fx, db')"
  shows "r = receipt (cq_command_id q) Resolved None False (Some (forward_outcome sr n)) \<and> fx = no_effects
    \<and> recorded q Resolved (Some (forward_outcome sr n)) None db'"
  using assms(4) transition_tracked [where run = run, OF gap_tracked [OF assms(1,2)] assms(3)]
  by (auto simp: resolve_forwarded_def split: prod.splits sum.splits)

text \<open>What the answer of the strategy service makes of the command.\<close>

definition forward_reported :: "strategy_run \<Rightarrow> command_request \<Rightarrow> command_receipt \<Rightarrow> saga_effects \<Rightarrow> bool" where
  "forward_reported run q r fx =
     (case sr_forward run q of
        RemoteRejected code \<Rightarrow> rc_state r = Rejected \<and> rc_error_code r = Some code \<and> fx_scheduled fx = []
      | ForwardRaised \<Rightarrow> rc_state r = OutcomeUnknown \<and> \<not> rc_retryable r \<and> map fst (fx_scheduled fx) = [cq_command_id q]
      | Forwarded sr \<Rightarrow> rc_state r = Resolved \<and> fx_scheduled fx = []
          \<and> (if st_state sr = ''COMMITTED''
             then \<exists>k t now before after. acknowledge_strategy_state t (st_strategy_name sr) (st_state_revision sr)
                    (forward_payload sr) (correlation_id q) (cq_account_id q) now (before :: saga_db) = (Inr k, after)
                    \<and> journal_has after (strategy_event_id (st_strategy_name sr) (st_state_revision sr))
                    \<and> rc_outcome r = Some (forward_outcome sr (Some k))
             else rc_outcome r = Some (forward_outcome sr None)))"

lemma acknowledge_forwarded_true:
  assumes quiet: "quiet_about q run" and tr: "tracked q S db" and mem: "Resolved \<in> S"
    and ans: "sr_forward run q = Forwarded sr" and run: "acknowledge_forwarded run q sr db = (Inr r, fx, db')"
  shows "recorded q (rc_state r) (rc_outcome r) (rc_error_code r) db' \<and> forward_reported run q r fx"
proof (cases "st_state sr = ''COMMITTED''")
  case True
  let ?ack = "acknowledge_strategy_state (ru_journaled run AtAcknowledged) (st_strategy_name sr) (st_state_revision sr)
      (forward_payload sr) (correlation_id q) (cq_account_id q) (now_utc run AtAcknowledged) (ru_gap run GapAcknowledge db)"
  obtain k mid where ack: "?ack = (Inr k, mid)" and res: "resolve_forwarded run q sr (Some k) mid = (Inr r, fx, db')"
    using run True by (auto simp: acknowledge_forwarded_def split: prod.splits sum.splits)
  note mid = ack_tracked [OF gap_tracked [OF quiet tr] ack]
  note settled = resolve_forwarded_recorded [OF quiet conjunct1 [OF mid] mem res]
  have out: "rc_outcome r = Some (forward_outcome sr (Some k))" using settled by (simp add: receipt_def)
  have "\<exists>k t now before after. acknowledge_strategy_state t (st_strategy_name sr) (st_state_revision sr)
      (forward_payload sr) (correlation_id q) (cq_account_id q) now (before :: saga_db) = (Inr k, after)
      \<and> journal_has after (strategy_event_id (st_strategy_name sr) (st_state_revision sr))
      \<and> rc_outcome r = Some (forward_outcome sr (Some k))"
    by (intro exI conjI) (rule ack, rule conjunct2 [OF mid], rule out)
  then show ?thesis using True ans settled by (simp add: forward_reported_def receipt_def no_effects_def)
next
  case False
  then have "resolve_forwarded run q sr None db = (Inr r, fx, db')" using run by (simp add: acknowledge_forwarded_def)
  from resolve_forwarded_recorded [OF quiet tr mem this] show ?thesis
    using False ans by (simp add: forward_reported_def receipt_def no_effects_def)
qed

lemma forward_submitted_true:
  assumes quiet: "quiet_about q run" and tr: "tracked q S db" and mem: "{Rejected, Resolved, OutcomeUnknown} \<subseteq> S"
    and run: "forward_submitted run q db = (Inr r, fx, db')"
  shows "recorded q (rc_state r) (rc_outcome r) (rc_error_code r) db' \<and> forward_reported run q r fx"
proof (cases "sr_forward run q")
  case (Forwarded sr)
  have "acknowledge_forwarded run q sr db = (Inr r, fx, db')" using run Forwarded by (simp add: forward_submitted_def)
  from acknowledge_forwarded_true [OF quiet tr _ Forwarded this] mem show ?thesis by simp
next
  case (RemoteRejected code)
  then have "refuse run q Submitting code True (ru_gap run GapRefused db) = (Inr r, fx, db')"
    using run by (simp add: forward_submitted_def)
  from refuse_recorded [OF gap_tracked [OF quiet tr] _ this] mem show ?thesis
    using RemoteRejected by (simp add: forward_reported_def receipt_def no_effects_def)
next
  case ForwardRaised
  then have "park_unknown run q None no_effects db = (Inr r, fx, db')" using run by (simp add: forward_submitted_def)
  from park_recorded [OF quiet tr _ this] mem show ?thesis
    using ForwardRaised by (simp add: forward_reported_def receipt_def no_effects_def)
qed

text \<open>
  The strategy saga reports what the strategy service did. Whenever it returns a receipt, the ledger holds the
  command in the state, with the outcome and error code of the receipt. A command that was refused was never forwarded;
  a declared rejection of the strategy service is a rejection under its code; a call that gave no answer is unknown,
  never retryable, and scheduled for reconciliation; an answer resolves the command, and a committed change was
  journaled as a strategy event, whose revision the outcome carries, before it did.
\<close>

lemma strategy_receipt_true:
  assumes quiet: "quiet_about q run" and tr: "tracked q (- {Received}) db"
    and run: "strategy_forward run q db = (Inr r, fx, db')"
  shows "recorded q (rc_state r) (rc_outcome r) (rc_error_code r) db' \<and> rc_command_id r = cq_command_id q
    \<and> (case strategy_refusal run q of
         Some (Some (code, retryable)) \<Rightarrow> rc_state r = Rejected \<and> rc_error_code r = Some code \<and> rc_retryable r = retryable
       | Some None \<Rightarrow> forward_reported run q r fx
       | None \<Rightarrow> False)"
proof -
  note tr0 = gap_tracked [OF quiet tr, of GapFirstTransition]
  consider (refused) code retryable where "strategy_refusal run q = Some (Some (code, retryable))"
    | (ok) "strategy_refusal run q = Some None"
    using run by (cases "strategy_refusal run q") (auto simp: strategy_forward_def split: option.splits)
  then show ?thesis
  proof cases
    case refused
    then have "refuse run q Received code retryable (ru_gap run GapFirstTransition db) = (Inr r, fx, db')"
      using run by (simp add: strategy_forward_def)
    from refuse_recorded [OF tr0 _ this] show ?thesis using refused by (simp add: receipt_def)
  next
    case ok
    obtain db1 db2 where t1: "transition_command run AtValidated q Received Validated None None
          (ru_gap run GapFirstTransition db) = (Inr (), db1)"
      and t2: "transition_command run AtSubmittingEvent q Validated Submitting None None (ru_gap run GapClaim db1) = (Inr (), db2)"
      and f: "forward_submitted run q db2 = (Inr r, fx, db')"
      using run ok by (auto simp: strategy_forward_def split: prod.splits sum.splits)
    have "tracked q (- {Received} - {Validated}) db1" using transition_tracked [OF tr0 _ t1] by simp
    from transition_tracked [OF gap_tracked [OF quiet this] _ t2]
    have "tracked q (- {Received} - {Validated} - {Submitting}) db2" by simp
    from forward_submitted_true [OF quiet this _ f] have "recorded q (rc_state r) (rc_outcome r) (rc_error_code r) db'"
      "forward_reported run q r fx" by simp_all
    moreover have "rc_command_id r = cq_command_id q"
      using f by (auto simp: forward_submitted_def refuse_def park_unknown_def acknowledge_forwarded_def
          resolve_forwarded_def receipt_def split: forward_answer.splits prod.splits sum.splits if_splits)
    ultimately show ?thesis using ok by simp
  qed
qed

section \<open>A concrete enable\<close>

definition demo_enable :: command_request where
  "demo_enable = demo_command\<lparr>cq_action := ''enable_strategy'', cq_body := [(''strategy_name'', JStr ''mom'')],
     cq_parent_command_id := None\<rparr>"

definition demo_strategy_receipt :: strategy_receipt where
  "demo_strategy_receipt = \<lparr>st_strategy_name = ''mom'', st_action = ''enable_strategy'', st_state = ''COMMITTED'',
     st_control_revision = 2, st_state_revision = 1, st_error = None, st_observable_state = Some ''RUNNING'',
     st_observable_payload = Some [(''paper'', JBool True)]\<rparr>"

definition demo_strategy_run :: strategy_run where
  "demo_strategy_run =
     \<lparr>ru_clock = (\<lambda>_. Aware 10), ru_ledger_clock = (\<lambda>_. 10), ru_journaled = (\<lambda>_. 11),
      ru_publish = (\<lambda>b. \<lparr>pb_clock = Aware 10, pb_journaled = 11, pb_uuid = ''u1''\<rparr>),
      ru_gap = (\<lambda>_ d. d), sr_exists = (\<lambda>n. Some (n = ''mom'')), sr_owner_resolved = None,
      sr_forward = (\<lambda>_. Forwarded demo_strategy_receipt)\<rparr>"

definition demo_strategy_db :: saga_db where
  "demo_strategy_db = empty_journal (demo_saga_tables\<lparr>ct_ledger := [received_row demo_enable ''h'' 0]\<rparr>)"

definition demo_strategy_answer :: saga_answer where
  "demo_strategy_answer = strategy_forward demo_strategy_run demo_enable demo_strategy_db"

definition demo_strategy_result :: command_receipt where
  "demo_strategy_result = receipt ''c1'' Resolved None False (Some (forward_outcome demo_strategy_receipt (Some 1)))"

lemma demo_enabled:
  "fst demo_strategy_answer = Inr demo_strategy_result"
  "map jr_event_id (jd_rows (snd (snd demo_strategy_answer)))
     = [''command:c1:validated'', ''command:c1:submitting'', ''strategy:mom:state:1'', ''command:c1:resolved'']"
  by code_simp+

lemma strategy_receipt_true_example:
  "recorded demo_enable Resolved (rc_outcome demo_strategy_result) None (snd (snd demo_strategy_answer))
   \<and> forward_reported demo_strategy_run demo_enable demo_strategy_result (fst (snd demo_strategy_answer))"
proof -
  have run: "strategy_forward demo_strategy_run demo_enable demo_strategy_db
      = (Inr demo_strategy_result, fst (snd demo_strategy_answer), snd (snd demo_strategy_answer))"
    using demo_enabled(1) by (metis demo_strategy_answer_def prod.collapse)
  have quiet: "quiet_about demo_enable demo_strategy_run"
    by (simp add: quiet_about_def demo_strategy_run_def command_event_id_def)
  have "journal_inv demo_strategy_db" "jd_rows demo_strategy_db = []" "ledger_of demo_strategy_db = [received_row demo_enable ''h'' 0]"
    by (simp add: demo_strategy_db_def) (simp_all add: demo_strategy_db_def empty_journal_def ledger_of_def)
  then have "tracked demo_enable (- {Received}) demo_strategy_db" by (simp add: tracked_def journal_has_def)
  moreover have "strategy_refusal demo_strategy_run demo_enable = Some None" by code_simp
  moreover have fields: "rc_state demo_strategy_result = Resolved" "rc_error_code demo_strategy_result = None"
    by (simp_all add: demo_strategy_result_def receipt_def)
  ultimately show ?thesis
    using strategy_receipt_true [OF quiet _ run] fields by simp
qed

text \<open>The second acknowledgement reports a stopped strategy under the same revision; the journal keeps the first.\<close>

definition demo_ack :: "string \<Rightarrow> instant \<Rightarrow> saga_db \<Rightarrow> (unit journal_error + int) \<times> saga_db" where
  "demo_ack state now = acknowledge_strategy_state 11 ''mom'' 1 [(''strategy_state'', JStr state)] ''c1'' None now"

definition demo_acked :: saga_db where
  "demo_acked = snd (demo_ack ''RUNNING'' 10 demo_strategy_db)"

lemma strategy_state_recorded_once_example:
  "jd_entities (snd (demo_ack ''DISABLED'' 20 demo_acked)) = jd_entities demo_acked
   \<and> jd_rows (snd (demo_ack ''DISABLED'' 20 demo_acked)) = jd_rows demo_acked \<and> length (jd_rows demo_acked) = 1"
proof -
  have inv: "journal_inv demo_strategy_db" by (simp add: demo_strategy_db_def)
  have one: "fst (demo_ack ''RUNNING'' 10 demo_strategy_db) = Inr 1" and len: "length (jd_rows demo_acked) = 1"
    by code_simp+
  have first: "acknowledge_strategy_state 11 ''mom'' 1 [(''strategy_state'', JStr ''RUNNING'')] ''c1'' None 10 demo_strategy_db
      = (Inr 1, demo_acked)"
    using one by (metis demo_ack_def demo_acked_def prod.collapse)
  have second: "acknowledge_strategy_state 11 ''mom'' 1 [(''strategy_state'', JStr ''DISABLED'')] ''c1'' None 20 demo_acked
      = (fst (demo_ack ''DISABLED'' 20 demo_acked), snd (demo_ack ''DISABLED'' 20 demo_acked))" by (simp add: demo_ack_def)
  have inv2: "journal_inv demo_acked" using inv first by (cases rule: ack_cases) simp_all
  have known: "get_entity demo_acked ''strategy'' ''mom'' \<noteq> None" by code_simp
  from strategy_state_recorded_once [OF inv first subset_refl inv2 known second] len show ?thesis by blast
qed

end
