(* ===== verification/Promotion_Evidence.thy ===== *)
theory Promotion_Evidence
  imports Command_Ports Domain_Journal "HOL-Library.Multiset"
begin

text \<open>
  The promotion evidence of \<^verbatim>\<open>src/trader/promotion/evidence_store.py\<close>: raw evidence events that are only ever
  appended, and the window that is rebuilt from them on demand. The argument \<open>rep\<close> is Python's \<open>str\<close> on the JSON
  values whose text the model does not build itself (floats, lists and objects).
\<close>

section \<open>Events\<close>

definition evidence_kinds :: "string list" where
  "evidence_kinds = [''session'', ''round_trip'', ''instrument'', ''correction'', ''breaker_trip'', ''cost_breach'',
     ''drawdown_breach'', ''divergence'', ''duplicate'', ''unresolved_alert'', ''missed_flat'', ''replay_mismatch'']"

definition correction_scopes :: "string list" where
  "correction_scopes = [''code'', ''config'', ''allowlist'', ''risk'', ''data'']"

definition stale_after :: duration where
  "stale_after = days 30"

record evidence_event =
  ee_source_event_id :: string
  ee_strategy_id :: string
  ee_event_kind :: string
  ee_payload :: jobject
  ee_source_timestamp :: pydatetime

datatype evidence_error = FieldRequired | UnknownKind | NaiveTimestamp | BadScope

definition payload_get :: "jobject \<Rightarrow> string \<Rightarrow> json" where
  "payload_get p k = opt_or JNull (jget p k)"

definition evidence_event_post_init :: "evidence_event \<Rightarrow> evidence_error + evidence_event" where
  "evidence_event_post_init e =
     (if ee_source_event_id e = [] \<or> ee_strategy_id e = [] \<or> ee_event_kind e = [] then Inl FieldRequired
      else if ee_event_kind e \<notin> set evidence_kinds then Inl UnknownKind
      else case ee_source_timestamp e of
             Naive _ \<Rightarrow> Inl NaiveTimestamp
           | Aware _ \<Rightarrow>
               if ee_event_kind e = ''correction'' \<and> payload_get (ee_payload e) ''scope'' \<notin> JStr ` set correction_scopes
               then Inl BadScope else Inr e)"

text \<open>A row of \<open>promotion_evidence_events\<close>; the payload is what \<open>json.loads\<close> makes of the stored text.\<close>

record evidence_row =
  er_evidence_key :: string
  er_strategy_id :: string
  er_event_kind :: string
  er_payload :: jobject
  er_source_timestamp :: instant
  er_recorded_at :: instant

definition stored_payload :: "jobject \<Rightarrow> jobject" where
  "stored_payload p = (case canon (JObj p) of JObj kvs \<Rightarrow> kvs | _ \<Rightarrow> [])"

section \<open>The window\<close>

text \<open>A calendar day is the number of its UTC midnight since the epoch: ISO dates sort like it.\<close>

record evidence_window =
  ew_strategy_id :: string
  ew_as_of :: instant
  ew_window_reset_at :: "instant option"
  ew_first_event_at :: "instant option"
  ew_last_event_at :: "instant option"
  ew_calendar_days :: "int list"
  ew_session_ids :: "string list"
  ew_round_trip_ids :: "string list"
  ew_instrument_ids :: "string list"
  ew_corrections :: "jobject list"
  ew_breaker_trips :: "jobject list"
  ew_cost_breaches :: "jobject list"
  ew_drawdown_breaches :: "jobject list"
  ew_stale :: bool
  ew_event_count :: nat
  ew_divergences :: "jobject list"
  ew_duplicates :: "jobject list"
  ew_unresolved_alerts :: "jobject list"
  ew_missed_flats :: "jobject list"
  ew_replay_mismatches :: "jobject list"
  ew_round_trip_records :: "jobject list"

definition elapsed_calendar_days :: "evidence_window \<Rightarrow> int" where
  "elapsed_calendar_days w =
     (if ew_calendar_days w = [] then 0 else last (ew_calendar_days w) - hd (ew_calendar_days w) + 1)"

definition is_clean :: "evidence_window \<Rightarrow> bool" where
  "is_clean w \<longleftrightarrow> \<not> ew_stale w \<and> ew_breaker_trips w = [] \<and> ew_cost_breaches w = [] \<and> ew_drawdown_breaches w = []"

section \<open>Projection\<close>

fun py_str :: "(json \<Rightarrow> string) \<Rightarrow> json \<Rightarrow> string" where
  "py_str rep (JStr s) = s"
| "py_str rep (JInt i) = string_of_int i"
| "py_str rep (JBool b) = (if b then ''True'' else ''False'')"
| "py_str rep JNull = ''None''"
| "py_str rep v = rep v"

text \<open>\<open>a or b\<close>.\<close>

definition json_or :: "json \<Rightarrow> json \<Rightarrow> json" where
  "json_or a b = (if json_truthy a then a else b)"

definition day_of :: "instant \<Rightarrow> int" where
  "day_of t = t div days 1"

fun latest_correction_ts :: "evidence_row list \<Rightarrow> instant option" where
  "latest_correction_ts [] = None"
| "latest_correction_ts (e # es) =
     (if er_event_kind e = ''correction''
      then (case latest_correction_ts es of None \<Rightarrow> Some (er_source_timestamp e)
            | Some t \<Rightarrow> Some (max (er_source_timestamp e) t))
      else latest_correction_ts es)"

definition of_kind :: "string \<Rightarrow> evidence_row list \<Rightarrow> evidence_row list" where
  "of_kind k es = filter (\<lambda>e. er_event_kind e = k) es"

definition payloads :: "string \<Rightarrow> evidence_row list \<Rightarrow> jobject list" where
  "payloads k es = map er_payload (of_kind k es)"

text \<open>The dict by alert id: a later event of the same alert replaces the earlier one in its place.\<close>

definition latest_unresolved_alerts :: "(json \<Rightarrow> string) \<Rightarrow> evidence_row list \<Rightarrow> jobject list" where
  "latest_unresolved_alerts rep in_window =
     (let latest_by_key = fold (\<lambda>e acc. AList.update
            (py_str rep (json_or (payload_get (er_payload e) ''alert_id'') (JStr (er_evidence_key e)))) (er_payload e) acc)
            (of_kind ''unresolved_alert'' in_window) []
      in filter (\<lambda>p. payload_get p ''resolved'' \<noteq> JBool True) (map snd latest_by_key))"

definition correction_entry :: "evidence_row \<Rightarrow> jobject" where
  "correction_entry e =
     jmerge (er_payload e) [(''evidence_key'', JStr (er_evidence_key e)), (''source_timestamp'', JTime (Aware (er_source_timestamp e)))]"

definition sorted_set :: "'a::linorder list \<Rightarrow> 'a list" where
  "sorted_set xs = sort (remdups xs)"

definition session_ids_of :: "(json \<Rightarrow> string) \<Rightarrow> evidence_row list \<Rightarrow> string list" where
  "session_ids_of rep es = sorted_set (map (\<lambda>e. py_str rep (payload_get (er_payload e) ''session_id''))
     (filter (\<lambda>e. json_truthy (payload_get (er_payload e) ''session_id'')) (of_kind ''session'' es)))"

definition round_trip_id :: "jobject \<Rightarrow> json" where
  "round_trip_id p = json_or (payload_get p ''round_trip_id'') (payload_get p ''trade_id'')"

definition round_trip_ids_of :: "(json \<Rightarrow> string) \<Rightarrow> evidence_row list \<Rightarrow> string list" where
  "round_trip_ids_of rep es = sorted_set (map (\<lambda>e. py_str rep (round_trip_id (er_payload e)))
     (filter (\<lambda>e. json_truthy (round_trip_id (er_payload e))) (of_kind ''round_trip'' es)))"

definition instrument_value :: "jobject \<Rightarrow> json" where
  "instrument_value p = (if payload_get p ''instrument_id'' \<noteq> JNull then payload_get p ''instrument_id'' else payload_get p ''conid'')"

definition instrument_ids_of :: "(json \<Rightarrow> string) \<Rightarrow> evidence_row list \<Rightarrow> string list" where
  "instrument_ids_of rep es = sorted_set (map (\<lambda>e. py_str rep (instrument_value (er_payload e)))
     (filter (\<lambda>e. er_event_kind e \<in> {''instrument'', ''round_trip''} \<and> instrument_value (er_payload e) \<noteq> JNull) es))"

definition evidence_order :: "evidence_row \<Rightarrow> instant \<times> string" where
  "evidence_order e = (er_source_timestamp e, er_evidence_key e)"

definition project_evidence_window ::
    "(json \<Rightarrow> string) \<Rightarrow> string \<Rightarrow> evidence_row list \<Rightarrow> instant \<Rightarrow> evidence_window" where
  "project_evidence_window rep strategy_id events as_of =
     (let ordered = sort_key evidence_order events;
          reset_at = latest_correction_ts ordered;
          in_window = filter (\<lambda>e. case reset_at of None \<Rightarrow> True | Some t \<Rightarrow> t \<le> er_source_timestamp e) ordered;
          last_in_window = (if in_window = [] then None else Some (er_source_timestamp (last in_window)))
      in \<lparr>ew_strategy_id = strategy_id, ew_as_of = as_of, ew_window_reset_at = reset_at,
          ew_first_event_at = (if ordered = [] then None else Some (er_source_timestamp (hd ordered))),
          ew_last_event_at = (if ordered = [] then None else Some (er_source_timestamp (last ordered))),
          ew_calendar_days = sorted_set (map (day_of \<circ> er_source_timestamp) (of_kind ''session'' in_window)),
          ew_session_ids = session_ids_of rep in_window, ew_round_trip_ids = round_trip_ids_of rep in_window,
          ew_instrument_ids = instrument_ids_of rep in_window,
          ew_corrections = map correction_entry (of_kind ''correction'' ordered),
          ew_breaker_trips = payloads ''breaker_trip'' in_window, ew_cost_breaches = payloads ''cost_breach'' in_window,
          ew_drawdown_breaches = payloads ''drawdown_breach'' in_window,
          ew_stale = (case last_in_window of None \<Rightarrow> True | Some t \<Rightarrow> as_of - t > stale_after),
          ew_event_count = length ordered,
          ew_divergences = payloads ''divergence'' in_window, ew_duplicates = payloads ''duplicate'' in_window,
          ew_unresolved_alerts = latest_unresolved_alerts rep in_window,
          ew_missed_flats = payloads ''missed_flat'' in_window, ew_replay_mismatches = payloads ''replay_mismatch'' in_window,
          ew_round_trip_records = payloads ''round_trip'' in_window\<rparr>)"

section \<open>The store\<close>

text \<open>The tables of the promotion component. \<open>pt_inserted\<close> is the closure variable of a running \<open>append\<close>.\<close>

record 's promotion_tables =
  pt_evidence :: "evidence_row list"
  pt_windows :: "(string \<times> evidence_window \<times> instant) list"
  pt_inserted :: bool
  pt_stages :: 's

type_synonym 's promotion_db = "'s promotion_tables journal_db"

definition evidence_exists :: "string \<Rightarrow> 's promotion_tables \<Rightarrow> bool" where
  "evidence_exists key p \<longleftrightarrow> (\<exists>r \<in> set (pt_evidence p). er_evidence_key r = key)"

definition evidence_row_of :: "evidence_event \<Rightarrow> instant \<Rightarrow> instant \<Rightarrow> evidence_row" where
  "evidence_row_of e at_time now =
     \<lparr>er_evidence_key = ee_source_event_id e, er_strategy_id = ee_strategy_id e, er_event_kind = ee_event_kind e,
      er_payload = stored_payload (ee_payload e), er_source_timestamp = at_time, er_recorded_at = now\<rparr>"

definition promotion_as_utc :: "pydatetime \<Rightarrow> instant" where
  "promotion_as_utc v = (case v of Aware t \<Rightarrow> t | Naive t \<Rightarrow> t)"

definition evidence_write :: "evidence_event \<Rightarrow> instant \<Rightarrow> 's promotion_tables \<Rightarrow> int \<Rightarrow> unit + 's promotion_tables" where
  "evidence_write e now p revision =
     (if evidence_exists (ee_source_event_id e) p then Inr p
      else Inr (p\<lparr>pt_evidence := pt_evidence p @ [evidence_row_of e (promotion_as_utc (ee_source_timestamp e)) now],
                  pt_inserted := True\<rparr>))"

definition evidence_mutation :: "evidence_event \<Rightarrow> domain_mutation" where
  "evidence_mutation e =
     \<lparr>dm_event_type = ''promotion.evidence_appended'', dm_entity_type = ''promotion_evidence'',
      dm_entity_id = ee_source_event_id e, dm_operation = Upsert, dm_account_id = None, dm_source = ''trader_service'',
      dm_source_timestamp = Aware (promotion_as_utc (ee_source_timestamp e)), dm_correlation_id = Some (ee_strategy_id e),
      dm_payload = Some [(''source_event_id'', JStr (ee_source_event_id e)), (''strategy_id'', JStr (ee_strategy_id e)),
        (''event_kind'', JStr (ee_event_kind e)), (''payload'', JObj (ee_payload e))]\<rparr>"

definition evidence_event_id :: "string \<Rightarrow> string" where
  "evidence_event_id key = ''promo-ev:'' @ key"

text \<open>\<open>gap\<close> is what other callers commit between the first look and the transaction.\<close>

definition append_evidence ::
    "instant \<Rightarrow> instant \<Rightarrow> ('s promotion_db \<Rightarrow> 's promotion_db) \<Rightarrow> evidence_event \<Rightarrow> 's promotion_db
     \<Rightarrow> (unit journal_error + bool) \<times> 's promotion_db" where
  "append_evidence now journaled gap e db =
     (if evidence_exists (ee_source_event_id e) (jd_prod db) then (Inr False, db)
      else let start = gap db in
        case mutate \<lparr>bi_received_ts = journaled, bi_uuid = [], bi_mutation = evidence_mutation e,
                     bi_write = evidence_write e now, bi_event_id = Some (evidence_event_id (ee_source_event_id e))\<rparr>
               (start\<lparr>jd_prod := (jd_prod start)\<lparr>pt_inserted := False\<rparr>\<rparr>) of
          (Inl x, db') \<Rightarrow> (Inl x, db')
        | (Inr _, db') \<Rightarrow> (Inr (pt_inserted (jd_prod db')), db'))"

definition list_events :: "string \<Rightarrow> evidence_row list \<Rightarrow> evidence_row list" where
  "list_events strategy_id rows = sort_key evidence_order (filter (\<lambda>r. er_strategy_id r = strategy_id) rows)"

definition rebuild_window :: "(json \<Rightarrow> string) \<Rightarrow> string \<Rightarrow> instant \<Rightarrow> evidence_row list \<Rightarrow> evidence_window" where
  "rebuild_window rep strategy_id as_of rows =
     project_evidence_window rep strategy_id (list_events strategy_id rows) as_of"

definition window_write ::
    "string \<Rightarrow> evidence_window \<Rightarrow> instant \<Rightarrow> 's promotion_tables \<Rightarrow> int \<Rightarrow> unit + 's promotion_tables" where
  "window_write strategy_id w as_of p revision =
     Inr (p\<lparr>pt_windows := filter (\<lambda>x. fst x \<noteq> strategy_id) (pt_windows p) @ [(strategy_id, w, as_of)]\<rparr>)"

text \<open>The journaled payload of a rebuilt window is an argument: the event is for the dashboard only.\<close>

definition project_store ::
    "(json \<Rightarrow> string) \<Rightarrow> (evidence_window \<Rightarrow> jobject) \<Rightarrow> string \<Rightarrow> instant \<Rightarrow> string \<Rightarrow> instant \<Rightarrow> 's promotion_db
     \<Rightarrow> (unit journal_error + evidence_window) \<times> 's promotion_db" where
  "project_store rep to_payload uuid journaled strategy_id as_of db =
     (let w = rebuild_window rep strategy_id as_of (pt_evidence (jd_prod db))
      in case mutate \<lparr>bi_received_ts = journaled, bi_uuid = [],
                bi_mutation = \<lparr>dm_event_type = ''promotion.evidence_window_rebuilt'', dm_entity_type = ''promotion_evidence_window'',
                  dm_entity_id = strategy_entity_id strategy_id, dm_operation = Upsert, dm_account_id = None,
                  dm_source = ''trader_service'', dm_source_timestamp = Aware as_of, dm_correlation_id = Some strategy_id,
                  dm_payload = Some (to_payload w)\<rparr>,
                bi_write = window_write strategy_id w as_of,
                bi_event_id = Some (''promo-window:'' @ strategy_id @ '':'' @ uuid)\<rparr> db of
           (Inl x, db') \<Rightarrow> (Inl x, db')
         | (Inr _, db') \<Rightarrow> (Inr w, db'))"

section \<open>Evidence is only appended\<close>

definition evidence_keys_distinct :: "'s promotion_db \<Rightarrow> bool" where
  "evidence_keys_distinct db \<longleftrightarrow> distinct (map er_evidence_key (pt_evidence (jd_prod db)))"

lemma evidence_write_cases:
  assumes "evidence_write e now p n = Inr p'" and "\<not> pt_inserted p"
  obtains (duplicate) "p' = p" and "evidence_exists (ee_source_event_id e) p"
  | (inserted) "pt_evidence p' = pt_evidence p @ [evidence_row_of e (promotion_as_utc (ee_source_timestamp e)) now]"
      and "pt_inserted p'" and "\<not> evidence_exists (ee_source_event_id e) p"
  using assms by (auto simp: evidence_write_def split: if_splits)

text \<open>
  Evidence is recorded once and never rewritten. Whatever other callers commit in between, recording an event leaves
  every row that is there in its place: it either adds exactly one row, for this event, at the end, and says so, or it adds
  nothing, and then it says so or raises; and no two rows ever carry the same source event id.
\<close>

lemma evidence_append_only:
  assumes inv: "journal_inv (gap db)" and dist: "evidence_keys_distinct (gap db)" "evidence_keys_distinct db"
    and run: "append_evidence now journaled gap e db = (res, db')"
  shows "evidence_keys_distinct db'
    \<and> (res = Inr True \<longrightarrow> pt_evidence (jd_prod db')
         = pt_evidence (jd_prod (gap db)) @ [evidence_row_of e (promotion_as_utc (ee_source_timestamp e)) now])
    \<and> (res \<noteq> Inr True \<longrightarrow> pt_evidence (jd_prod db') \<in> {pt_evidence (jd_prod db), pt_evidence (jd_prod (gap db))})"
proof (cases "evidence_exists (ee_source_event_id e) (jd_prod db)")
  case True
  then show ?thesis using run dist by (auto simp: append_evidence_def)
next
  case False
  define start where "start = (gap db)\<lparr>jd_prod := (jd_prod (gap db))\<lparr>pt_inserted := False\<rparr>\<rparr>"
  obtain r mid where m: "mutate \<lparr>bi_received_ts = journaled, bi_uuid = [], bi_mutation = evidence_mutation e,
      bi_write = evidence_write e now, bi_event_id = Some (evidence_event_id (ee_source_event_id e))\<rparr> start = (r, mid)"
    by fastforce
  have sinv: "journal_inv start" using inv by (simp add: start_def)
  have rows: "pt_evidence (jd_prod start) = pt_evidence (jd_prod (gap db))" "\<not> pt_inserted (jd_prod start)"
    by (simp_all add: start_def)
  have res: "(res, db') = (case r of Inl x \<Rightarrow> (Inl x, mid) | Inr _ \<Rightarrow> (Inr (pt_inserted (jd_prod mid)), mid))"
    using run False m by (auto simp: append_evidence_def Let_def start_def split: sum.splits)
  from sinv m show ?thesis
  proof (cases rule: mutate_cases)
    case (failed x)
    then show ?thesis using res rows dist(1) by (simp add: evidence_keys_distinct_def)
  next
    case (replay row)
    then show ?thesis using res rows dist(1) by (simp add: evidence_keys_distinct_def)
  next
    case (fresh p)
    have prod: "jd_prod mid = p" using fresh(4) by simp
    from fresh(2) obtain n where "evidence_write e now (jd_prod start) n = Inr p" by simp
    from this rows(2) show ?thesis
    proof (cases rule: evidence_write_cases)
      case duplicate
      then show ?thesis using res rows dist(1) prod fresh by (simp add: evidence_keys_distinct_def)
    next
      case inserted
      then show ?thesis
        using res rows dist(1) prod fresh by (auto simp: evidence_keys_distinct_def evidence_exists_def evidence_row_of_def)
    qed
  qed
qed

section \<open>What the window holds\<close>

text \<open>
  The evidence of a strategy that counts: everything not older than its latest correction. The rows are taken as a collection, whatever
  order and at whatever time they were recorded.
\<close>

definition live :: "string \<Rightarrow> evidence_row list \<Rightarrow> evidence_row \<Rightarrow> bool" where
  "live s rows e \<longleftrightarrow> e \<in> set rows \<and> er_strategy_id e = s
     \<and> (\<forall>c \<in> set rows. er_strategy_id c = s \<and> er_event_kind c = ''correction'' \<longrightarrow> er_source_timestamp c \<le> er_source_timestamp e)"

definition live_of :: "string \<Rightarrow> evidence_row list \<Rightarrow> string \<Rightarrow> evidence_row multiset" where
  "live_of s rows k = filter_mset (\<lambda>e. live s rows e \<and> er_event_kind e = k) (mset rows)"

text \<open>The alerts that are open: the last word on the alert does not resolve it.\<close>

definition alert_key :: "(json \<Rightarrow> string) \<Rightarrow> evidence_row \<Rightarrow> string" where
  "alert_key rep e = py_str rep (json_or (payload_get (er_payload e) ''alert_id'') (JStr (er_evidence_key e)))"

definition open_alerts :: "(json \<Rightarrow> string) \<Rightarrow> string \<Rightarrow> evidence_row list \<Rightarrow> jobject set" where
  "open_alerts rep s rows = {er_payload e | e. e \<in># live_of s rows ''unresolved_alert'' \<and> payload_get (er_payload e) ''resolved'' \<noteq> JBool True
     \<and> (\<forall>x \<in># live_of s rows ''unresolved_alert''. alert_key rep x = alert_key rep e \<longrightarrow> evidence_order x \<le> evidence_order e)}"

lemma of_kind_Cons: "of_kind k (e # es) = (if er_event_kind e = k then e # of_kind k es else of_kind k es)"
  by (simp add: of_kind_def)

lemma latest_correction:
  "latest_correction_ts es = (if of_kind ''correction'' es = [] then None
     else Some (Max (er_source_timestamp ` set (of_kind ''correction'' es))))"
proof (induction es)
  case (Cons e es)
  have "Max (insert t (er_source_timestamp ` set (of_kind ''correction'' es))) = max t (Max (er_source_timestamp ` set (of_kind ''correction'' es)))"
    if "of_kind ''correction'' es \<noteq> []" for t
    by (rule Max_insert) (use that in simp_all)
  then show ?case using Cons by (simp add: of_kind_Cons)
qed (simp add: of_kind_def)

text \<open>The rows in the window, in order.\<close>

definition window_rows :: "string \<Rightarrow> evidence_row list \<Rightarrow> evidence_row list" where
  "window_rows s rows = (let ordered = list_events s rows
     in filter (\<lambda>e. case latest_correction_ts ordered of None \<Rightarrow> True | Some t \<Rightarrow> t \<le> er_source_timestamp e) ordered)"

lemma list_events_set [simp]: "set (list_events s rows) = {e \<in> set rows. er_strategy_id e = s}"
  by (auto simp: list_events_def)

lemma in_window_live:
  assumes "e \<in> set (list_events s rows)"
  shows "(case latest_correction_ts (list_events s rows) of None \<Rightarrow> True | Some t \<Rightarrow> t \<le> er_source_timestamp e) \<longleftrightarrow> live s rows e"
proof (cases "of_kind ''correction'' (list_events s rows) = []")
  case True
  then show ?thesis using assms by (auto simp: latest_correction live_def of_kind_def filter_empty_conv)
next
  case False
  let ?c = "er_source_timestamp ` set (of_kind ''correction'' (list_events s rows))"
  have "?c \<noteq> {}" using False by simp
  then have "Max ?c \<le> er_source_timestamp e \<longleftrightarrow> (\<forall>t \<in> ?c. t \<le> er_source_timestamp e)" by (intro Max_le_iff) auto
  then show ?thesis using assms False by (auto simp: latest_correction live_def of_kind_def)
qed

lemma window_rows_mset: "mset (window_rows s rows) = filter_mset (live s rows) (mset rows)"
proof -
  have "mset (window_rows s rows) = filter_mset (live s rows) (mset (list_events s rows))"
    using in_window_live [of _ s rows] by (auto simp: window_rows_def Let_def intro: filter_mset_cong)
  also have "\<dots> = filter_mset (live s rows) (mset rows)"
    by (simp add: list_events_def filter_filter_mset) (rule filter_mset_cong, auto simp: live_def)
  finally show ?thesis .
qed

lemma window_rows_set [simp]: "set (window_rows s rows) = {e. live s rows e}"
proof -
  have "set_mset (mset (window_rows s rows)) = {e. live s rows e}" unfolding window_rows_mset by (auto simp: live_def)
  then show ?thesis by simp
qed

lemma window_rows_sorted: "sorted (map evidence_order (window_rows s rows))"
  by (simp add: window_rows_def list_events_def Let_def sorted_filter)

lemma payloads_mset: "mset (payloads k (window_rows s rows)) = image_mset er_payload (live_of s rows k)"
  by (simp add: payloads_def of_kind_def window_rows_mset filter_filter_mset live_of_def conj_commute)

lemma live_of_set [simp]: "e \<in># live_of s rows k \<longleftrightarrow> live s rows e \<and> er_event_kind e = k"
  by (auto simp: live_of_def live_def)

lemma sorted_set_eq: "sorted_set xs = sorted_list_of_set (set xs)"
  by (simp add: sorted_set_def sorted_list_of_set_sort_remdups)

lemma sorted_set_empty [simp]: "sorted_set xs = [] \<longleftrightarrow> xs = []"
  by (simp add: sorted_set_eq)

lemma sorted_last_most:
  assumes "sorted (map f xs)" and "x \<in> set xs"
  shows "f x \<le> f (last xs)"
  using assms by (induction xs) (auto split: if_splits)

lemma sorted_set_ends:
  assumes "xs \<noteq> []"
  shows "hd (sorted_set xs) = Min (set xs)" "last (sorted_set xs) = Max (set xs)"
proof -
  have s: "sorted (sorted_set xs)" "set (sorted_set xs) = set xs" by (simp_all add: sorted_set_def)
  have ne: "sorted_set xs \<noteq> []" using assms by simp
  then obtain y ys where ys: "sorted_set xs = y # ys" by (cases "sorted_set xs") auto
  show "hd (sorted_set xs) = Min (set xs)"
  proof (rule Min_eqI [symmetric])
    fix x assume "x \<in> set xs"
    then show "hd (sorted_set xs) \<le> x" using s unfolding ys s(2) [symmetric] by auto
  qed (use s(2) ys in auto)
  show "last (sorted_set xs) = Max (set xs)"
  proof (rule Max_eqI [symmetric])
    fix x assume "x \<in> set xs"
    then show "x \<le> last (sorted_set xs)" using sorted_last_most [of "\<lambda>z. z" "sorted_set xs" x] s by simp
  qed (use s(2) last_in_set [OF ne] in auto)
qed

text \<open>A dictionary filled in order keeps the last value of each key.\<close>

lemma dict_keys: "distinct (map fst acc) \<Longrightarrow> distinct (map fst (fold (\<lambda>e. AList.update (f e) (g e)) es acc))"
  by (induction es arbitrary: acc) (simp_all add: distinct_update)

lemma dict_map_of:
  "map_of (fold (\<lambda>e. AList.update (f e) (g e)) es acc) k
     = (case filter (\<lambda>e. f e = k) es of [] \<Rightarrow> map_of acc k | ys \<Rightarrow> Some (g (last ys)))"
  by (induction es arbitrary: acc) (auto simp: update_conv' split: list.splits)

lemma dict_values:
  "set (map snd (fold (\<lambda>e. AList.update (f e) (g e)) es [])) = {g (last ys) | ys k. ys = filter (\<lambda>e. f e = k) es \<and> ys \<noteq> []}"
proof -
  let ?d = "fold (\<lambda>e. AList.update (f e) (g e)) es []"
  have "distinct (map fst ?d)" by (rule dict_keys) simp
  then have "set (map snd ?d) = {v. \<exists>k. map_of ?d k = Some v}" by (force simp: map_of_eq_Some_iff)
  moreover have "map_of ?d k = Some v \<longleftrightarrow> filter (\<lambda>e. f e = k) es \<noteq> [] \<and> v = g (last (filter (\<lambda>e. f e = k) es))" for k v
    unfolding dict_map_of by (cases "filter (\<lambda>e. f e = k) es") auto
  ultimately show ?thesis by auto
qed

lemma latest_alerts_open:
  assumes dist: "distinct (map er_evidence_key rows)"
  shows "set (latest_unresolved_alerts rep (window_rows s rows)) = open_alerts rep s rows"
proof -
  let ?es = "of_kind ''unresolved_alert'' (window_rows s rows)"
  have in_es: "set ?es = set_mset (live_of s rows ''unresolved_alert'')" by (auto simp: of_kind_def)
  have inj: "e = x" if "evidence_order e = evidence_order x" "e \<in> set ?es" "x \<in> set ?es" for e x
    using that dist by (auto simp: evidence_order_def of_kind_def live_def distinct_map inj_on_def)
  have sorted: "sorted (map evidence_order (filter P ?es))" for P
    using window_rows_sorted sorted_filter [of evidence_order "window_rows s rows" "\<lambda>e. er_event_kind e = ''unresolved_alert'' \<and> P e"]
    by (simp add: of_kind_def conj_commute)
  have last_of: "(\<exists>k. e = last (filter (\<lambda>x. alert_key rep x = k) ?es) \<and> filter (\<lambda>x. alert_key rep x = k) ?es \<noteq> [])
      \<longleftrightarrow> e \<in> set ?es \<and> (\<forall>x \<in> set ?es. alert_key rep x = alert_key rep e \<longrightarrow> evidence_order x \<le> evidence_order e)" (is "?l \<longleftrightarrow> ?r") for e
  proof
    assume ?l
    then obtain k where k: "e = last (filter (\<lambda>x. alert_key rep x = k) ?es)" "filter (\<lambda>x. alert_key rep x = k) ?es \<noteq> []" by blast
    have "e \<in> set (filter (\<lambda>x. alert_key rep x = k) ?es)" using last_in_set [OF k(2)] k(1) by simp
    then show ?r using sorted_last_most [OF sorted, of _ "\<lambda>x. alert_key rep x = k"] k(1) by auto
  next
    assume r: ?r
    let ?f = "filter (\<lambda>x. alert_key rep x = alert_key rep e) ?es"
    have e: "e \<in> set ?f" using r by simp
    then have ne: "?f \<noteq> []" by (metis empty_iff list.set(1))
    have "evidence_order (last ?f) \<le> evidence_order e" using r last_in_set [OF ne] by auto
    then have "evidence_order (last ?f) = evidence_order e" using sorted_last_most [OF sorted e] by simp
    then have "last ?f = e" using inj last_in_set [OF ne] r by auto
    then show ?l using ne by (intro exI [of _ "alert_key rep e"]) simp
  qed
  let ?d = "fold (\<lambda>e. AList.update (alert_key rep e) (er_payload e)) ?es []"
  have "set (latest_unresolved_alerts rep (window_rows s rows)) = {p \<in> set (map snd ?d). payload_get p ''resolved'' \<noteq> JBool True}"
    by (simp only: latest_unresolved_alerts_def Let_def alert_key_def [symmetric] set_filter)
  also have "set (map snd ?d) = {er_payload e | e. \<exists>k. e = last (filter (\<lambda>x. alert_key rep x = k) ?es) \<and> filter (\<lambda>x. alert_key rep x = k) ?es \<noteq> []}"
    unfolding dict_values by blast
  also have "\<dots> = {er_payload e | e. e \<in># live_of s rows ''unresolved_alert''
      \<and> (\<forall>x \<in># live_of s rows ''unresolved_alert''. alert_key rep x = alert_key rep e \<longrightarrow> evidence_order x \<le> evidence_order e)}"
    unfolding last_of unfolding in_es ..
  finally show ?thesis unfolding open_alerts_def by (simp only: Collect_conj_eq [symmetric] mem_Collect_eq) (rule Collect_cong, iprover)
qed

text \<open>
  C23. The promotion window counts exactly the evidence that counts. In whatever order and at whatever times the rows were recorded, the
  window of a strategy holds, for the evidence not older than its latest correction: each session, round trip and instrument id once,
  in order; the span of days from the first session to the last; every round trip and every incident of each kind as often as it was
  reported; the alerts whose latest report does not resolve them; and it is stale exactly when all of that evidence is older than
  thirty days (or there is none).
\<close>

theorem window_counts_exactly:
  assumes "distinct (map er_evidence_key rows)" and "w = rebuild_window rep s as_of rows"
  shows "ew_session_ids w = sorted_list_of_set {py_str rep (payload_get (er_payload e) ''session_id'') | e.
             live s rows e \<and> er_event_kind e = ''session'' \<and> json_truthy (payload_get (er_payload e) ''session_id'')}
    \<and> ew_round_trip_ids w = sorted_list_of_set {py_str rep (round_trip_id (er_payload e)) | e.
             live s rows e \<and> er_event_kind e = ''round_trip'' \<and> json_truthy (round_trip_id (er_payload e))}
    \<and> ew_instrument_ids w = sorted_list_of_set {py_str rep (instrument_value (er_payload e)) | e.
             live s rows e \<and> er_event_kind e \<in> {''instrument'', ''round_trip''} \<and> instrument_value (er_payload e) \<noteq> JNull}
    \<and> elapsed_calendar_days w = (let ds = {er_source_timestamp e div days 1 | e. live s rows e \<and> er_event_kind e = ''session''}
             in if ds = {} then 0 else Max ds - Min ds + 1)
    \<and> mset (ew_round_trip_records w) = image_mset er_payload (live_of s rows ''round_trip'')
    \<and> list_all (\<lambda>(ps, k). mset ps = image_mset er_payload (live_of s rows k))
        [(ew_breaker_trips w, ''breaker_trip''), (ew_cost_breaches w, ''cost_breach''), (ew_drawdown_breaches w, ''drawdown_breach''),
         (ew_divergences w, ''divergence''), (ew_duplicates w, ''duplicate''), (ew_missed_flats w, ''missed_flat''),
         (ew_replay_mismatches w, ''replay_mismatch'')]
    \<and> set (ew_unresolved_alerts w) = open_alerts rep s rows
    \<and> (ew_stale w \<longleftrightarrow> (\<forall>e. live s rows e \<longrightarrow> as_of - er_source_timestamp e > stale_after))"
proof -
  let ?es = "window_rows s rows"
  have ordered: "sort_key evidence_order (list_events s rows) = list_events s rows"
    unfolding list_events_def by (simp add: sort_key_id_if_sorted)
  have fields: "ew_session_ids w = session_ids_of rep ?es" "ew_round_trip_ids w = round_trip_ids_of rep ?es"
    "ew_instrument_ids w = instrument_ids_of rep ?es" "ew_round_trip_records w = payloads ''round_trip'' ?es"
    "ew_unresolved_alerts w = latest_unresolved_alerts rep ?es" "ew_breaker_trips w = payloads ''breaker_trip'' ?es"
    "ew_cost_breaches w = payloads ''cost_breach'' ?es" "ew_drawdown_breaches w = payloads ''drawdown_breach'' ?es"
    "ew_divergences w = payloads ''divergence'' ?es" "ew_duplicates w = payloads ''duplicate'' ?es"
    "ew_missed_flats w = payloads ''missed_flat'' ?es" "ew_replay_mismatches w = payloads ''replay_mismatch'' ?es"
    "ew_calendar_days w = sorted_set (map (day_of \<circ> er_source_timestamp) (of_kind ''session'' ?es))"
    "ew_stale w \<longleftrightarrow> (if ?es = [] then True else as_of - er_source_timestamp (last ?es) > stale_after)"
    by (simp_all add: assms(2) rebuild_window_def project_evidence_window_def ordered window_rows_def Let_def)
  have ids: "ew_session_ids w = sorted_list_of_set {py_str rep (payload_get (er_payload e) ''session_id'') | e.
        live s rows e \<and> er_event_kind e = ''session'' \<and> json_truthy (payload_get (er_payload e) ''session_id'')}"
    "ew_round_trip_ids w = sorted_list_of_set {py_str rep (round_trip_id (er_payload e)) | e.
        live s rows e \<and> er_event_kind e = ''round_trip'' \<and> json_truthy (round_trip_id (er_payload e))}"
    "ew_instrument_ids w = sorted_list_of_set {py_str rep (instrument_value (er_payload e)) | e.
        live s rows e \<and> er_event_kind e \<in> {''instrument'', ''round_trip''} \<and> instrument_value (er_payload e) \<noteq> JNull}"
    unfolding fields session_ids_of_def round_trip_ids_of_def instrument_ids_of_def sorted_set_eq
    by (rule arg_cong [where f = sorted_list_of_set], force simp: of_kind_def)+
  let ?ds = "{er_source_timestamp e div days 1 | e. live s rows e \<and> er_event_kind e = ''session''}"
  have ds: "set (map (day_of \<circ> er_source_timestamp) (of_kind ''session'' ?es)) = ?ds"
    by (force simp: of_kind_def day_of_def)
  have elapsed: "elapsed_calendar_days w = (if ?ds = {} then 0 else Max ?ds - Min ?ds + 1)"
  proof (cases "of_kind ''session'' ?es = []")
    case True
    then show ?thesis using ds by (simp add: elapsed_calendar_days_def fields sorted_set_def)
  next
    case False
    let ?xs = "map (day_of \<circ> er_source_timestamp) (of_kind ''session'' ?es)"
    have ne: "?xs \<noteq> []" "sorted_set ?xs \<noteq> []" "?ds \<noteq> {}" using False unfolding ds [symmetric] by simp_all
    show ?thesis
      unfolding elapsed_calendar_days_def fields if_not_P [OF ne(2)] if_not_P [OF ne(3)] sorted_set_ends [OF ne(1)] ds ..
  qed
  have stale: "ew_stale w \<longleftrightarrow> (\<forall>e. live s rows e \<longrightarrow> as_of - er_source_timestamp e > stale_after)"
  proof (cases "?es = []")
    case True
    then have "\<not> live s rows e" for e using window_rows_set [of s rows] by auto
    then show ?thesis using True by (simp add: fields)
  next
    case False
    have "er_source_timestamp e \<le> er_source_timestamp (last ?es)" if "live s rows e" for e
      using sorted_last_most [of evidence_order ?es e, OF window_rows_sorted] that by (auto simp: evidence_order_def less_eq_prod_def)
    moreover have "live s rows (last ?es)" using last_in_set [OF False] by simp
    ultimately show ?thesis using False by (fastforce simp: fields)
  qed
  show ?thesis
    unfolding Let_def using ids elapsed stale latest_alerts_open [OF assms(1)] by (simp add: fields payloads_mset)
qed


section \<open>Concrete evidence\<close>

definition demo_evidence :: "evidence_row list" where
  "demo_evidence =
     [\<lparr>er_evidence_key = ''t1'', er_strategy_id = ''s'', er_event_kind = ''round_trip'',
       er_payload = [(''trade_id'', JStr ''t1''), (''conid'', JInt 5), (''pnl_after_cost'', JInt 1)],
       er_source_timestamp = 10, er_recorded_at = 11\<rparr>,
      \<lparr>er_evidence_key = ''b1'', er_strategy_id = ''s'', er_event_kind = ''breaker_trip'',
       er_payload = [(''session_id'', JStr ''d1'')], er_source_timestamp = 20, er_recorded_at = 21\<rparr>]"

definition demo_correction :: evidence_row where
  "demo_correction = \<lparr>er_evidence_key = ''c1'', er_strategy_id = ''s'', er_event_kind = ''correction'',
     er_payload = [(''scope'', JStr ''risk'')], er_source_timestamp = 15, er_recorded_at = 9\<rparr>"

theorem window_counts_exactly_witness:
  "\<not> ew_stale (rebuild_window (\<lambda>_. []) ''s'' 30 (demo_evidence @ [demo_correction]))
   \<and> ew_round_trip_ids (rebuild_window (\<lambda>_. []) ''s'' 30 (demo_evidence @ [demo_correction])) = []"
proof -
  let ?rows = "demo_evidence @ [demo_correction]"
  have dist: "distinct (map er_evidence_key ?rows)" by (simp add: demo_evidence_def demo_correction_def)
  have live: "live ''s'' ?rows e \<longleftrightarrow> e = demo_evidence ! 1 \<or> e = demo_correction" for e
  proof -
    have "set ?rows = {demo_evidence ! 0, demo_evidence ! 1, demo_correction}"
      "er_strategy_id (demo_evidence ! 0) = ''s''" "er_strategy_id (demo_evidence ! 1) = ''s''" "er_strategy_id demo_correction = ''s''"
      "er_event_kind (demo_evidence ! 0) = ''round_trip''" "er_event_kind (demo_evidence ! 1) = ''breaker_trip''"
      "er_event_kind demo_correction = ''correction''" "er_source_timestamp (demo_evidence ! 0) = 10"
      "er_source_timestamp (demo_evidence ! 1) = 20" "er_source_timestamp demo_correction = 15"
      by (simp_all add: demo_evidence_def demo_correction_def)
    then show ?thesis unfolding live_def by auto
  qed
  have "\<not> 30 - er_source_timestamp (demo_evidence ! 1) > stale_after" "er_event_kind (demo_evidence ! 1) = ''breaker_trip''"
    "er_event_kind demo_correction = ''correction''" by code_simp+
  moreover have "ew_stale (rebuild_window (\<lambda>_. []) ''s'' 30 ?rows) \<longleftrightarrow> (\<forall>e. live ''s'' ?rows e \<longrightarrow> 30 - er_source_timestamp e > stale_after)"
    "ew_round_trip_ids (rebuild_window (\<lambda>_. []) ''s'' 30 ?rows) = sorted_list_of_set {py_str (\<lambda>_. []) (round_trip_id (er_payload e)) | e.
       live ''s'' ?rows e \<and> er_event_kind e = ''round_trip'' \<and> json_truthy (round_trip_id (er_payload e))}"
    using window_counts_exactly [OF dist refl, of "\<lambda>_. []" "''s''" 30] by - (elim conjE, assumption)+
  ultimately show ?thesis by (auto simp: live)
qed

definition demo_evidence_event :: evidence_event where
  "demo_evidence_event = \<lparr>ee_source_event_id = ''e1'', ee_strategy_id = ''s'', ee_event_kind = ''session'',
     ee_payload = [(''session_id'', JStr ''d1'')], ee_source_timestamp = Aware 5\<rparr>"

definition demo_promotion_db :: "unit promotion_db" where
  "demo_promotion_db = empty_journal \<lparr>pt_evidence = demo_evidence, pt_windows = [], pt_inserted = False, pt_stages = ()\<rparr>"

definition demo_recorded :: "(unit journal_error + bool) \<times> unit promotion_db" where
  "demo_recorded = append_evidence 40 41 (\<lambda>d. d) demo_evidence_event demo_promotion_db"

lemma evidence_append_only_example:
  "evidence_keys_distinct (snd demo_recorded)
   \<and> pt_evidence (jd_prod (snd demo_recorded)) = demo_evidence @ [evidence_row_of demo_evidence_event 5 40]"
proof -
  have inv: "journal_inv ((\<lambda>d. d) demo_promotion_db)" by (simp add: demo_promotion_db_def)
  have dist: "evidence_keys_distinct demo_promotion_db"
    by (simp add: evidence_keys_distinct_def demo_promotion_db_def empty_journal_def demo_evidence_def)
  have run: "append_evidence 40 41 (\<lambda>d. d) demo_evidence_event demo_promotion_db = (fst demo_recorded, snd demo_recorded)"
    by (simp add: demo_recorded_def)
  have "fst demo_recorded = Inr True" by code_simp
  moreover have "promotion_as_utc (ee_source_timestamp demo_evidence_event) = 5" "pt_evidence (jd_prod demo_promotion_db) = demo_evidence"
    by (simp_all add: promotion_as_utc_def demo_evidence_event_def demo_promotion_db_def empty_journal_def)
  ultimately show ?thesis using evidence_append_only [OF inv _ _ run] dist by simp
qed

end
