(* ===== verification/Paper_Gate.thy ===== *)
theory Paper_Gate
  imports Promotion_Evidence
begin

text \<open>
  The paper gate of \<^verbatim>\<open>src/trader/promotion/paper_gate.py\<close>: the floors and blockers that decide whether a window of
  paper evidence is good enough, the clean-session streak and the impact of a correction. The profit of a round trip is
  a Python \<open>Decimal\<close>; the decimal that a float prints as, the rounding of decimal arithmetic to 28 digits and the
  rounding to a float are the arguments \<open>shortest\<close>, \<open>ctx\<close> and \<open>rnd\<close>.
\<close>

section \<open>Decimals\<close>

text \<open>A decimal that is not a signalling NaN has the values of a float. \<open>DSignal\<close> raises in any operation.\<close>

datatype pydecimal = Dec pyfloat | DSignal

definition all_digits :: "string \<Rightarrow> bool" where
  "all_digits s \<longleftrightarrow> list_all is_digit s"

text \<open>\<open>Decimal(s)\<close>: the float grammar without rounding, and NaNs with a payload; None is \<open>InvalidOperation\<close>.\<close>

definition decimal_of_string :: "string \<Rightarrow> pydecimal option" where
  "decimal_of_string s =
     (let w = lower (snd (split_sign (strip s)))
      in if take 3 w = ''nan'' \<and> all_digits (drop 3 w) then Some (Dec NaN)
         else if take 4 w = ''snan'' \<and> all_digits (drop 4 w) then Some DSignal
         else map_option Dec (float_of_string Fin s))"

text \<open>\<open>_decimal(value)\<close>, through \<open>str(value)\<close>; a list, an object or a date has no text that is a number.\<close>

fun decimal_of :: "(rat \<Rightarrow> rat) \<Rightarrow> json \<Rightarrow> pydecimal option" where
  "decimal_of shortest (JInt i) = Some (Dec (Fin (of_int i)))"
| "decimal_of shortest (JNum (Fin q)) = Some (Dec (Fin (shortest q)))"
| "decimal_of shortest (JNum x) = Some (Dec x)"
| "decimal_of shortest (JStr s) = decimal_of_string s"
| "decimal_of shortest _ = None"

text \<open>Addition and division; None is a trapped \<open>InvalidOperation\<close>.\<close>

fun decimal_add :: "(rat \<Rightarrow> rat) \<Rightarrow> pyfloat \<Rightarrow> pydecimal \<Rightarrow> pyfloat option" where
  "decimal_add ctx a DSignal = None"
| "decimal_add ctx NaN (Dec b) = Some NaN"
| "decimal_add ctx a (Dec NaN) = Some NaN"
| "decimal_add ctx (Fin a) (Dec (Fin b)) = Some (Fin (ctx (a + b)))"
| "decimal_add ctx PosInf (Dec NegInf) = None"
| "decimal_add ctx NegInf (Dec PosInf) = None"
| "decimal_add ctx PosInf (Dec b) = Some PosInf"
| "decimal_add ctx NegInf (Dec b) = Some NegInf"
| "decimal_add ctx (Fin a) (Dec b) = Some b"

definition decimal_sum :: "(rat \<Rightarrow> rat) \<Rightarrow> pydecimal list \<Rightarrow> pyfloat option" where
  "decimal_sum ctx ds = fold (\<lambda>d acc. case acc of None \<Rightarrow> None | Some a \<Rightarrow> decimal_add ctx a d) ds (Some (Fin 0))"

definition mean_float :: "(rat \<Rightarrow> rat) \<Rightarrow> (rat \<Rightarrow> pyfloat) \<Rightarrow> pydecimal list \<Rightarrow> pyfloat option" where
  "mean_float ctx rnd ds =
     (case decimal_sum ctx ds of
        None \<Rightarrow> None
      | Some (Fin q) \<Rightarrow> Some (rnd (ctx (q / of_nat (length ds))))
      | Some x \<Rightarrow> Some x)"

section \<open>Floors and blockers\<close>

record floor_status =
  fl_name :: string
  fl_required :: int
  fl_observed :: int
  fl_met :: bool

record promotion_decision =
  pd_strategy_id :: string
  pd_as_of :: instant
  pd_passed :: bool
  pd_floors_met :: bool
  pd_recommended_stage :: string
  pd_floors :: "floor_status list"
  pd_blockers :: "string list"
  pd_net_expectancy :: "pyfloat option"
  pd_max_concentration :: "pyfloat option"
  pd_round_trips_with_pnl :: nat
  pd_window_reset_at :: "instant option"

definition floor_status_of :: "string \<Rightarrow> int \<Rightarrow> int \<Rightarrow> floor_status" where
  "floor_status_of name required observed =
     \<lparr>fl_name = name, fl_required = required, fl_observed = observed, fl_met = (observed \<ge> required)\<rparr>"

definition paper_floors :: "evidence_window \<Rightarrow> floor_status list" where
  "paper_floors w =
     [floor_status_of ''calendar_days'' 30 (elapsed_calendar_days w),
      floor_status_of ''sessions'' 20 (int (length (ew_session_ids w))),
      floor_status_of ''round_trips'' 50 (int (length (ew_round_trip_ids w))),
      floor_status_of ''instruments'' 5 (int (length (ew_instrument_ids w)))]"

definition instrument_key :: "(json \<Rightarrow> string) \<Rightarrow> jobject \<Rightarrow> string option" where
  "instrument_key rep p = (if instrument_value p = JNull then None else Some (py_str rep (instrument_value p)))"

definition counted :: "string list \<Rightarrow> (string \<times> nat) list" where
  "counted keys = fold (\<lambda>k acc. AList.update k (opt_or 0 (map_of acc k) + 1) acc) keys []"

record gate_numbers =
  gn_shortest :: "rat \<Rightarrow> rat"
  gn_ctx :: "rat \<Rightarrow> rat"
  gn_rnd :: "rat \<Rightarrow> pyfloat"
  gn_rep :: "json \<Rightarrow> string"

definition pnls_of :: "gate_numbers \<Rightarrow> jobject list \<Rightarrow> pydecimal list" where
  "pnls_of g records = List.map_filter (\<lambda>p. decimal_of (gn_shortest g) (payload_get p ''pnl_after_cost'')) records"

text \<open>\<open>MAX_INSTRUMENT_CONCENTRATION\<close> is the float nearest to 0.40.\<close>

definition max_instrument_concentration :: "gate_numbers \<Rightarrow> pyfloat" where
  "max_instrument_concentration g = gn_rnd g (2 / 5)"

definition expectancy_part :: "gate_numbers \<Rightarrow> jobject list \<Rightarrow> (pyfloat option \<times> string list) option" where
  "expectancy_part g records =
     (let pnls = pnls_of g records
      in if records \<noteq> [] \<and> pnls = [] then Some (None, [''missing_economic_evidence''])
         else if pnls \<noteq> [] then
           (case mean_float (gn_ctx g) (gn_rnd g) pnls of
              None \<Rightarrow> None
            | Some m \<Rightarrow> Some (Some m, if flt_le m (Fin 0) then [''negative_expectancy''] else []))
         else Some (None, []))"

definition concentration_part :: "gate_numbers \<Rightarrow> pyfloat \<Rightarrow> jobject list \<Rightarrow> pyfloat option \<times> string list" where
  "concentration_part g max_concentration records =
     (let counts = counted (List.map_filter (instrument_key (gn_rep g)) records)
      in if records \<noteq> [] \<and> counts = [] then (None, [''missing_instrument_evidence''])
         else if counts \<noteq> [] then
           (let x = gn_rnd g (of_nat (fold max (map snd counts) 0) / of_nat (sum_list (map snd counts)))
            in (Some x, if flt_less max_concentration x then [''concentration''] else []))
         else (None, []))"

definition safety_blockers :: "evidence_window \<Rightarrow> string list" where
  "safety_blockers w =
     (if ew_stale w then [''stale_evidence''] else []) @ (if ew_breaker_trips w \<noteq> [] then [''breaker_trip''] else [])
     @ (if ew_drawdown_breaches w \<noteq> [] then [''drawdown_breach''] else [])
     @ (if ew_cost_breaches w \<noteq> [] then [''stressed_cost_breach''] else [])
     @ (if ew_divergences w \<noteq> [] then [''divergence''] else []) @ (if ew_duplicates w \<noteq> [] then [''duplicate''] else [])
     @ (if ew_unresolved_alerts w \<noteq> [] then [''unresolved_alert''] else [])
     @ (if ew_missed_flats w \<noteq> [] then [''missed_flat''] else [])
     @ (if ew_replay_mismatches w \<noteq> [] then [''replay_mismatch''] else [])"

text \<open>None: the decimal arithmetic raised.\<close>

definition gate_evaluate :: "gate_numbers \<Rightarrow> evidence_window \<Rightarrow> promotion_decision option" where
  "gate_evaluate g w =
     (let floors = paper_floors w; floors_met = list_all fl_met floors
      in case expectancy_part g (ew_round_trip_records w) of
           None \<Rightarrow> None
         | Some (expectancy, economic) \<Rightarrow>
            (let (concentration, diversification) =
                   concentration_part g (max_instrument_concentration g) (ew_round_trip_records w);
                 blockers = safety_blockers w @ economic @ diversification
             in Some \<lparr>pd_strategy_id = ew_strategy_id w, pd_as_of = ew_as_of w,
                  pd_passed = (floors_met \<and> blockers = []), pd_floors_met = floors_met,
                  pd_recommended_stage =
                    (if blockers \<noteq> [] then ''PAPER_FAILED'' else if floors_met then ''PAPER_PASSED'' else ''PAPER_COLLECTING''),
                  pd_floors = floors, pd_blockers = blockers, pd_net_expectancy = expectancy,
                  pd_max_concentration = concentration,
                  pd_round_trips_with_pnl = length (pnls_of g (ew_round_trip_records w)),
                  pd_window_reset_at = ew_window_reset_at w\<rparr>))"

section \<open>Streaks and corrections\<close>

definition safety_correction_scopes :: "string list" where
  "safety_correction_scopes = [''risk'', ''data'']"

definition is_safety_correction :: "(json \<Rightarrow> string) \<Rightarrow> jobject \<Rightarrow> bool" where
  "is_safety_correction rep c \<longleftrightarrow> py_str rep (payload_get c ''scope'') \<in> set safety_correction_scopes"

definition incidents :: "evidence_window \<Rightarrow> jobject list" where
  "incidents w = ew_breaker_trips w @ ew_cost_breaches w @ ew_drawdown_breaches w @ ew_divergences w @ ew_duplicates w
     @ ew_unresolved_alerts w @ ew_missed_flats w @ ew_replay_mismatches w"

definition clean_session_streak :: "(json \<Rightarrow> string) \<Rightarrow> evidence_window \<Rightarrow> nat" where
  "clean_session_streak rep w =
     (if \<exists>i \<in> set (incidents w). \<not> json_truthy (payload_get i ''session_id'') then 0
      else let tainted = map (\<lambda>i. py_str rep (payload_get i ''session_id'')) (incidents w)
           in length (takeWhile (\<lambda>s. s \<notin> set tainted) (rev (ew_session_ids w))))"

record impact =
  im_safety :: bool
  im_removed_sessions :: "string list"
  im_removed_round_trips :: "string list"
  im_removed_instruments :: "string list"
  im_streak_before :: nat
  im_streak_after :: nat

definition removed :: "string list \<Rightarrow> string list \<Rightarrow> string list" where
  "removed old new = sorted_set (filter (\<lambda>x. x \<notin> set new) old)"

definition correction_impact :: "(json \<Rightarrow> string) \<Rightarrow> evidence_window \<Rightarrow> evidence_window \<Rightarrow> impact" where
  "correction_impact rep old new =
     (let safety = (ew_corrections new \<noteq> [] \<and> is_safety_correction rep (last (ew_corrections new)))
      in \<lparr>im_safety = safety,
          im_removed_sessions = removed (ew_session_ids old) (ew_session_ids new),
          im_removed_round_trips = removed (ew_round_trip_ids old) (ew_round_trip_ids new),
          im_removed_instruments = removed (ew_instrument_ids old) (ew_instrument_ids new),
          im_streak_before = clean_session_streak rep old,
          im_streak_after = (if safety then 0 else clean_session_streak rep new)\<rparr>)"

section \<open>When the gate passes\<close>

lemma expectancy_blockers:
  assumes "expectancy_part g records = Some (m, bs)" and "records \<noteq> []"
  shows "bs = [] \<longleftrightarrow> (\<exists>x. m = Some x \<and> \<not> flt_le x (Fin 0))"
proof (cases "pnls_of g records = []")
  case True
  then show ?thesis using assms by (auto simp: expectancy_part_def)
next
  case False
  then obtain a where "mean_float (gn_ctx g) (gn_rnd g) (pnls_of g records) = Some a"
    using assms by (auto simp: expectancy_part_def Let_def split: option.splits)
  then have "m = Some a" "bs = (if flt_le a (Fin 0) then [''negative_expectancy''] else [])"
    using assms False by (simp_all add: expectancy_part_def)
  then show ?thesis by simp
qed

lemma concentration_blockers:
  assumes "concentration_part g limit records = (m, bs)" and "records \<noteq> []"
  shows "bs = [] \<longleftrightarrow> (\<exists>x. m = Some x \<and> \<not> flt_less limit x)"
  using assms by (auto simp: concentration_part_def Let_def split: if_splits)

lemma projected_round_trips:
  assumes "ew_round_trip_ids (project_evidence_window rep s events as_of) \<noteq> []"
  shows "ew_round_trip_records (project_evidence_window rep s events as_of) \<noteq> []"
  using assms
  by (auto simp: project_evidence_window_def Let_def round_trip_ids_of_def sorted_set_def payloads_def filter_empty_conv)

lemma safety_blockers_none:
  "safety_blockers w = [] \<longleftrightarrow> \<not> ew_stale w \<and> incidents w = []"
  by (auto simp: safety_blockers_def incidents_def)

definition floors_reached :: "evidence_window \<Rightarrow> bool" where
  "floors_reached w \<longleftrightarrow> 30 \<le> elapsed_calendar_days w \<and> 20 \<le> length (ew_session_ids w)
     \<and> 50 \<le> length (ew_round_trip_ids w) \<and> 5 \<le> length (ew_instrument_ids w)"

lemma paper_floors_met: "list_all fl_met (paper_floors w) \<longleftrightarrow> floors_reached w"
  by (auto simp: paper_floors_def floor_status_of_def floors_reached_def)

section \<open>The verdict in exact arithmetic\<close>

lemma decimal_sum_exact: "decimal_sum (\<lambda>q. q) (map (Dec \<circ> Fin) qs) = Some (Fin (sum_list qs))"
proof -
  have "fold (\<lambda>d acc. case acc of None \<Rightarrow> None | Some a \<Rightarrow> decimal_add (\<lambda>q. q) a d) (map (Dec \<circ> Fin) qs) (Some (Fin a))
      = Some (Fin (a + sum_list qs))" for a
    by (induction qs arbitrary: a) (simp_all add: add.assoc)
  from this [of 0] show ?thesis by (simp add: decimal_sum_def)
qed

text \<open>\<open>counted\<close> is the multiplicity of each key.\<close>

lemma update_total:
  "distinct (map fst acc) \<Longrightarrow>
     sum_list (map snd (AList.update k v acc)) + opt_or 0 (map_of acc k) = sum_list (map snd acc) + (v :: nat)"
  by (induction acc) (auto simp: opt_or_def split: option.splits dest: map_of_SomeD)

lemma counted_step:
  "distinct (map fst acc) \<and> (\<forall>k. map_of acc k = (if count_list seen k = 0 then None else Some (count_list seen k)))
     \<and> sum_list (map snd acc) = length seen \<Longrightarrow>
   (let acc' = fold (\<lambda>k acc. AList.update k (opt_or 0 (map_of acc k) + 1) acc) keys acc
    in distinct (map fst acc') \<and> (\<forall>k. map_of acc' k = (if count_list (seen @ keys) k = 0 then None else Some (count_list (seen @ keys) k)))
       \<and> sum_list (map snd acc') = length (seen @ keys))"
proof (induction keys arbitrary: acc seen)
  case (Cons x xs)
  let ?acc = "AList.update x (opt_or 0 (map_of acc x) + 1) acc"
  have "sum_list (map snd ?acc) = length (seen @ [x])" using update_total [of acc x "opt_or 0 (map_of acc x) + 1"] Cons.prems by simp
  then have "distinct (map fst ?acc) \<and> (\<forall>k. map_of ?acc k = (if count_list (seen @ [x]) k = 0 then None else Some (count_list (seen @ [x]) k)))
      \<and> sum_list (map snd ?acc) = length (seen @ [x])"
    using Cons.prems by (auto simp: distinct_update update_conv' opt_or_def)
  from Cons.IH [OF this] show ?case by (simp only: fold_simps append.simps append_assoc)
qed simp

lemma counted_counts:
  "distinct (map fst (counted keys))" "map_of (counted keys) k = (if count_list keys k = 0 then None else Some (count_list keys k))"
  "sum_list (map snd (counted keys)) = length keys"
  using counted_step [of "[]" "[]" keys] by (simp_all add: counted_def Let_def)

lemma largest_count:
  fixes a b :: nat
  assumes "keys \<noteq> []"
  shows "a * fold max (map snd (counted keys)) 0 \<le> b \<longleftrightarrow> (\<forall>k. a * count_list keys k \<le> b)"
proof -
  let ?ns = "map snd (counted keys)"
  have mem: "n \<in> set ?ns \<longleftrightarrow> (\<exists>k. count_list keys k = n \<and> n \<noteq> 0)" for n
  proof -
    have "n \<in> set ?ns \<longleftrightarrow> (\<exists>k. map_of (counted keys) k = Some n)"
      using counted_counts(1) [of keys] by (force simp: map_of_eq_Some_iff)
    then show ?thesis by (simp add: counted_counts(2)) metis
  qed
  have "fold max ?ns 0 = Max (insert 0 (set ?ns))" by (metis Max.set_eq_fold list.set(2))
  then have mx: "fold max ?ns 0 \<in> insert 0 (set ?ns)" "\<And>n. n \<in> set ?ns \<Longrightarrow> n \<le> fold max ?ns 0"
    using Max_in [of "insert 0 (set ?ns)"] by auto
  show ?thesis
  proof
    assume le: "a * fold max ?ns 0 \<le> b"
    show "\<forall>k. a * count_list keys k \<le> b"
    proof
      fix k
      have "count_list keys k \<le> fold max ?ns 0" using mx(2) mem by (cases "count_list keys k = 0") auto
      then show "a * count_list keys k \<le> b" using le by (meson le_trans mult_le_mono2)
    qed
  next
    assume all: "\<forall>k. a * count_list keys k \<le> b"
    show "a * fold max ?ns 0 \<le> b"
    proof (cases "fold max ?ns 0 = 0")
      case False
      then have "fold max ?ns 0 \<in> set ?ns" using mx(1) by (metis insertE)
      then obtain k where "count_list keys k = fold max ?ns 0" unfolding mem by iprover
      then show ?thesis using spec [OF all, of k] by simp
    qed simp
  qed
qed

text \<open>
  C22. The paper gate passes exactly when everything holds at once. In exact arithmetic (every decimal sum fits its context and every
  quotient is a float), on a window projected from evidence whose reported profits are the finite numbers \<open>qs\<close>, the gate returns a
  verdict, its expectancy is their mean, and it is a pass if and only if the sessions span thirty days, there are twenty sessions, fifty
  round trips and five instruments, the evidence is not stale, no incident of any kind is open in the window, the profits sum to more
  than zero, some round trip names its instrument, and no instrument has more than two fifths of the round trips that name one.
\<close>

theorem paper_gate_exact:
  assumes w: "w = project_evidence_window rep s events as_of" and exact: "gn_ctx g = (\<lambda>q. q)" "gn_rnd g = Fin"
    and qs: "pnls_of g (ew_round_trip_records w) = map (Dec \<circ> Fin) qs"
    and keys: "keys = List.map_filter (instrument_key (gn_rep g)) (ew_round_trip_records w)"
  shows "\<exists>d. gate_evaluate g w = Some d
    \<and> pd_net_expectancy d = (if qs = [] then None else Some (Fin (sum_list qs / of_nat (length qs))))
    \<and> (pd_passed d \<longleftrightarrow> floors_reached w \<and> \<not> ew_stale w \<and> incidents w = [] \<and> 0 < sum_list qs
         \<and> keys \<noteq> [] \<and> (\<forall>k. 5 * count_list keys k \<le> 2 * length keys))"
proof -
  let ?rs = "ew_round_trip_records w" and ?m = "if qs = [] then None else Some (Fin (sum_list qs / of_nat (length qs)))"
  have mean: "mean_float (gn_ctx g) (gn_rnd g) (pnls_of g ?rs) = Some (Fin (sum_list qs / of_nat (length qs)))"
    by (simp add: mean_float_def exact qs decimal_sum_exact)
  have "\<exists>es. expectancy_part g ?rs = Some (?m, es)"
    using mean by (cases "qs = []") (auto simp: expectancy_part_def Let_def qs)
  then obtain es where e: "expectancy_part g ?rs = Some (?m, es)" ..
  obtain c cs where c: "concentration_part g (max_instrument_concentration g) ?rs = (c, cs)" by fastforce
  define d where "d = the (gate_evaluate g w)"
  have d: "gate_evaluate g w = Some d" "pd_passed d \<longleftrightarrow> floors_reached w \<and> safety_blockers w @ es @ cs = []" "pd_net_expectancy d = ?m"
    using e c by (auto simp: gate_evaluate_def Let_def paper_floors_met d_def)
  have records: "?rs \<noteq> []" if "floors_reached w"
    using that projected_round_trips [of rep s events as_of] by (fastforce simp: floors_reached_def w)
  have no_profit: "es = [] \<longleftrightarrow> 0 < sum_list qs" if "?rs \<noteq> []"
  proof (cases "qs = []")
    case False
    then have "0 < rat_of_nat (length qs)" by simp
    then have "sum_list qs / rat_of_nat (length qs) \<le> 0 \<longleftrightarrow> sum_list qs \<le> 0" by (simp add: divide_le_0_iff)
    then show ?thesis using expectancy_blockers [OF e that] False by auto
  qed (use expectancy_blockers [OF e that] in simp)
  have spread: "cs = [] \<longleftrightarrow> keys \<noteq> [] \<and> (\<forall>k. 5 * count_list keys k \<le> 2 * length keys)" if "?rs \<noteq> []"
  proof (cases "keys = []")
    case True
    then show ?thesis using c that by (auto simp: concentration_part_def Let_def keys [symmetric] counted_def)
  next
    case False
    let ?n = "fold max (map snd (counted keys)) 0"
    have ne: "counted keys \<noteq> []" using counted_counts(3) [of keys] False by (metis length_0_conv list.map(1) sum_list.Nil)
    then have "cs = (if flt_less (Fin (2 / 5)) (Fin (of_nat ?n / of_nat (length keys))) then [''concentration''] else [])"
      using c by (auto simp: concentration_part_def Let_def keys [symmetric] counted_counts(3) exact max_instrument_concentration_def)
    moreover have "2 / 5 < rat_of_nat ?n / rat_of_nat (length keys) \<longleftrightarrow> \<not> 5 * ?n \<le> 2 * length keys"
    proof -
      have "0 < rat_of_nat (length keys)" using False by simp
      then have "2 / 5 < rat_of_nat ?n / rat_of_nat (length keys) \<longleftrightarrow> 2 * rat_of_nat (length keys) < 5 * rat_of_nat ?n"
        by (simp add: field_simps)
      also have "\<dots> \<longleftrightarrow> rat_of_nat (2 * length keys) < rat_of_nat (5 * ?n)" by simp
      also have "\<dots> \<longleftrightarrow> \<not> 5 * ?n \<le> 2 * length keys" by (simp only: of_nat_less_iff not_le)
      finally show ?thesis .
    qed
    ultimately show ?thesis using False largest_count [OF False, of 5 "2 * length keys"] by simp
  qed
  show ?thesis using d records no_profit spread safety_blockers_none [of w] by (intro exI [of _ d]) auto
qed

lemma decimal_sum_NaN:
  assumes "DSignal \<notin> set ds"
  shows "fold (\<lambda>d acc. case acc of None \<Rightarrow> None | Some a \<Rightarrow> decimal_add ctx a d) ds (Some NaN) = Some NaN"
  using assms
proof (induction ds)
  case (Cons d ds)
  then obtain x where "d = Dec x" by (cases d) auto
  then show ?case using Cons by simp
qed simp

lemma decimal_sum_hits_NaN:
  assumes "Dec NaN \<in> set ds" and "set ds \<subseteq> insert (Dec NaN) ((Dec \<circ> Fin) ` UNIV)"
  shows "fold (\<lambda>d acc. case acc of None \<Rightarrow> None | Some a \<Rightarrow> decimal_add ctx a d) ds (Some (Fin q)) = Some NaN"
  using assms
proof (induction ds arbitrary: q)
  case (Cons d ds)
  show ?case
  proof (cases "d = Dec NaN")
    case True
    have "DSignal \<notin> set ds" using Cons.prems(2) by auto
    then show ?thesis using True decimal_sum_NaN [of ds] by simp
  next
    case False
    then obtain b where "d = Dec (Fin b)" using Cons.prems(2) by auto
    then show ?thesis using Cons False by simp
  qed
qed simp

text \<open>
  C34. One profit that is not a number hides every loss from the paper gate. If a round trip reports NaN as its profit and
  the other profits that are reported are finite, however negative, the mean is NaN, and the gate raises no objection to
  the strategy's expectancy.
\<close>

theorem nan_profit_hides_losses:
  assumes "Dec NaN \<in> set (pnls_of g records)"
    and "set (pnls_of g records) \<subseteq> insert (Dec NaN) ((Dec \<circ> Fin) ` UNIV)"
  shows "expectancy_part g records = Some (Some NaN, [])"
proof -
  have "decimal_sum (gn_ctx g) (pnls_of g records) = Some NaN"
    unfolding decimal_sum_def by (rule decimal_sum_hits_NaN [OF assms])
  moreover have "pnls_of g records \<noteq> []" using assms(1) by auto
  ultimately show ?thesis by (simp add: expectancy_part_def mean_float_def flt_le_def)
qed

section \<open>Concrete evidence\<close>

definition demo_numbers :: gate_numbers where
  "demo_numbers = \<lparr>gn_shortest = id, gn_ctx = id, gn_rnd = Fin, gn_rep = (\<lambda>_. [])\<rparr>"

theorem nan_profit_hides_losses_witness:
  "expectancy_part demo_numbers [[(''pnl_after_cost'', JStr ''-5'')], [(''pnl_after_cost'', JStr ''NaN'')]]
     = Some (Some NaN, [])"
proof -
  have "pnls_of demo_numbers [[(''pnl_after_cost'', JStr ''-5'')], [(''pnl_after_cost'', JStr ''NaN'')]]
      = [Dec (Fin (- 5)), Dec NaN]" by code_simp
  then show ?thesis by (intro nan_profit_hides_losses) auto
qed

definition demo_window :: evidence_window where
  "demo_window = project_evidence_window (\<lambda>_. []) ''s'' demo_evidence 30"

theorem paper_gate_exact_witness:
  "\<exists>d. gate_evaluate demo_numbers demo_window = Some d \<and> \<not> pd_passed d \<and> pd_net_expectancy d = Some (Fin 1)"
proof -
  have qs: "pnls_of demo_numbers (ew_round_trip_records demo_window) = map (Dec \<circ> Fin) [1]" by code_simp
  have inc: "incidents demo_window = [[(''session_id'', JStr ''d1'')]]" by code_simp
  have exact: "gn_ctx demo_numbers = (\<lambda>q. q)" "gn_rnd demo_numbers = Fin" by (simp_all add: demo_numbers_def id_def)
  from paper_gate_exact [OF demo_window_def exact qs refl] inc show ?thesis by auto
qed

end
