(* ===== verification/Promotion_Stage.thy ===== *)
theory Promotion_Stage
  imports Paper_Gate Entry_Limits
begin

text \<open>
  The promotion stage machine of \<^verbatim>\<open>src/trader/promotion/stage.py\<close>: one current stage per strategy, moved along a frozen
  set of edges, with clean evidence required for the stages that certify a strategy and an authority for the canary.
  A transition reads the current row, decides, and then writes in a transaction of its own: \<open>gap\<close> is what other callers
  commit in between.
\<close>

section \<open>Stages\<close>

datatype stage =
    PAPER_COLLECTING | PAPER_FAILED | PAPER_PASSED | CANARY_AUTHORIZED | CANARY_ACTIVE | CANARY_SUSPENDED | CANARY_PASSED

definition stage_str :: "stage \<Rightarrow> string" where
  "stage_str s = (case s of PAPER_COLLECTING \<Rightarrow> ''PAPER_COLLECTING'' | PAPER_FAILED \<Rightarrow> ''PAPER_FAILED''
     | PAPER_PASSED \<Rightarrow> ''PAPER_PASSED'' | CANARY_AUTHORIZED \<Rightarrow> ''CANARY_AUTHORIZED'' | CANARY_ACTIVE \<Rightarrow> ''CANARY_ACTIVE''
     | CANARY_SUSPENDED \<Rightarrow> ''CANARY_SUSPENDED'' | CANARY_PASSED \<Rightarrow> ''CANARY_PASSED'')"

fun allowed_edges :: "stage option \<Rightarrow> stage list" where
  "allowed_edges None = [PAPER_COLLECTING]"
| "allowed_edges (Some PAPER_COLLECTING) = [PAPER_FAILED, PAPER_PASSED]"
| "allowed_edges (Some PAPER_FAILED) = [PAPER_COLLECTING]"
| "allowed_edges (Some PAPER_PASSED) = [CANARY_AUTHORIZED]"
| "allowed_edges (Some CANARY_AUTHORIZED) = [CANARY_ACTIVE, PAPER_PASSED]"
| "allowed_edges (Some CANARY_ACTIVE) = [CANARY_SUSPENDED, CANARY_PASSED]"
| "allowed_edges (Some CANARY_SUSPENDED) = [CANARY_AUTHORIZED]"
| "allowed_edges (Some CANARY_PASSED) = []"

definition requires_clean_evidence :: "stage \<Rightarrow> bool" where
  "requires_clean_evidence s \<longleftrightarrow> s \<in> {PAPER_PASSED, CANARY_AUTHORIZED, CANARY_PASSED}"

record stage_record =
  sg_strategy_id :: string
  sg_stage :: stage
  sg_prior_stage :: "stage option"
  sg_reason :: string
  sg_actor :: string
  sg_authority_ref :: "string option"
  sg_authority_expiry :: "instant option"
  sg_evidence_digest :: "string option"
  sg_revision :: int
  sg_updated_at :: instant

type_synonym stage_db = "stage_record list promotion_db"

definition stage_load :: "stage_record list \<Rightarrow> string \<Rightarrow> stage_record option" where
  "stage_load rows strategy_id = fetchone (filter (\<lambda>r. sg_strategy_id r = strategy_id) rows)"

definition stage_save :: "stage_record \<Rightarrow> stage_record list \<Rightarrow> stage_record list" where
  "stage_save record rows = filter (\<lambda>r. sg_strategy_id r \<noteq> sg_strategy_id record) rows @ [record]"

definition current_stage :: "stage_db \<Rightarrow> string \<Rightarrow> stage option" where
  "current_stage db strategy_id = map_option sg_stage (stage_load (pt_stages (jd_prod db)) strategy_id)"

section \<open>A transition\<close>

datatype stage_error =
    StageValueError
  | IllegalStageTransition "stage option" stage
  | EvidenceNotClean "string list"
  | AuthorityRequired
  | AuthorityMismatch
  | AuthorityExpired
  | EvidenceRaised
  | StageJournalError "unit journal_error"

text \<open>
  The evidence store the caller hands in, if any: how its ids print, what its rebuild journals, and the numbers of the gate.
  \<open>rq_window\<close> is a window the caller supplies beside it.
\<close>

record evidence_source =
  es_numbers :: gate_numbers
  es_payload :: "evidence_window \<Rightarrow> jobject"
  es_uuid :: string
  es_journaled :: instant

record stage_request =
  rq_to_stage :: "stage option"
  rq_reason :: string
  rq_actor :: string
  rq_now :: pydatetime
  rq_evidence :: "evidence_source option"
  rq_window :: "evidence_window option"
  rq_authority_ref :: "string option"
  rq_authority_expiry :: "pydatetime option"
  rq_evidence_digest :: "string option"
  rq_journaled :: instant

text \<open>Every compared field; \<open>as_of\<close> and the incident lists of the second task are not among them.\<close>

definition window_matches_projection :: "evidence_window \<Rightarrow> evidence_window \<Rightarrow> bool" where
  "window_matches_projection w p \<longleftrightarrow> ew_strategy_id w = ew_strategy_id p \<and> ew_window_reset_at w = ew_window_reset_at p
     \<and> ew_first_event_at w = ew_first_event_at p \<and> ew_last_event_at w = ew_last_event_at p
     \<and> ew_calendar_days w = ew_calendar_days p \<and> ew_session_ids w = ew_session_ids p
     \<and> ew_round_trip_ids w = ew_round_trip_ids p \<and> ew_instrument_ids w = ew_instrument_ids p
     \<and> ew_corrections w = ew_corrections p \<and> ew_breaker_trips w = ew_breaker_trips p
     \<and> ew_cost_breaches w = ew_cost_breaches p \<and> ew_drawdown_breaches w = ew_drawdown_breaches p
     \<and> ew_stale w = ew_stale p \<and> ew_event_count w = ew_event_count p"

definition clean_reasons :: "evidence_window option \<Rightarrow> evidence_window \<Rightarrow> string list" where
  "clean_reasons supplied p =
     (case supplied of None \<Rightarrow> [] | Some w \<Rightarrow> if window_matches_projection w p then [] else [''evidence_window_mismatch''])
     @ (if ew_stale p then [''stale_evidence''] else []) @ (if ew_breaker_trips p \<noteq> [] then [''breaker_trip''] else [])
     @ (if ew_cost_breaches p \<noteq> [] then [''cost_breach''] else [])
     @ (if ew_drawdown_breaches p \<noteq> [] then [''drawdown_breach''] else [])"

text \<open>None: the gate raised.\<close>

definition gate_reasons :: "gate_numbers \<Rightarrow> stage \<Rightarrow> evidence_window \<Rightarrow> string list option" where
  "gate_reasons g to_stage p =
     (if to_stage \<noteq> PAPER_PASSED then Some []
      else case gate_evaluate g p of
             None \<Rightarrow> None
           | Some d \<Rightarrow> Some (if pd_passed d then []
               else map (\<lambda>f. ''floor_'' @ fl_name f) (filter (\<lambda>f. \<not> fl_met f) (pd_floors d)) @ pd_blockers d))"

text \<open>The projection is itself a transaction of the evidence store, committed whatever comes of the check.\<close>

definition require_clean_evidence ::
    "string \<Rightarrow> stage \<Rightarrow> stage_request \<Rightarrow> instant \<Rightarrow> stage_db \<Rightarrow> (stage_error + unit) \<times> stage_db" where
  "require_clean_evidence strategy_id to_stage rq now db =
     (case rq_evidence rq of
        None \<Rightarrow> (Inl (EvidenceNotClean [''missing_evidence_store'']), db)
      | Some es \<Rightarrow>
         (case project_store (gn_rep (es_numbers es)) (es_payload es) (es_uuid es) (es_journaled es) strategy_id now db of
            (Inl _, db') \<Rightarrow> (Inl EvidenceRaised, db')
          | (Inr p, db') \<Rightarrow>
             (case gate_reasons (es_numbers es) to_stage p of
                None \<Rightarrow> (Inl EvidenceRaised, db')
              | Some more_reasons \<Rightarrow>
                 (let reasons = clean_reasons (rq_window rq) p @ more_reasons
                  in if reasons = [] then (Inr (), db') else (Inl (EvidenceNotClean (from_keys reasons)), db')))))"

definition verify_authority ::
    "stage_record option \<Rightarrow> stage_request \<Rightarrow> instant \<Rightarrow> stage_error + (string option \<times> instant option)" where
  "verify_authority current rq now =
     (case (Option.bind current sg_authority_ref, Option.bind current sg_authority_expiry,
            rq_authority_ref rq, rq_authority_expiry rq) of
        (Some stored_ref, Some stored_expiry, Some ref, Some expiry) \<Rightarrow>
          if ref \<noteq> stored_ref \<or> promotion_as_utc expiry \<noteq> stored_expiry then Inl AuthorityMismatch
          else if stored_expiry \<le> now then Inl AuthorityExpired
          else Inr (Some stored_ref, Some stored_expiry)
      | _ \<Rightarrow> Inl AuthorityRequired)"

definition next_authority ::
    "stage_record option \<Rightarrow> stage \<Rightarrow> stage_request \<Rightarrow> instant \<Rightarrow> stage_error + (string option \<times> instant option)" where
  "next_authority current to_stage rq now =
     (if to_stage = CANARY_AUTHORIZED then
        (case (rq_authority_ref rq, rq_authority_expiry rq) of
           (Some ref, Some expiry) \<Rightarrow> Inr (Some ref, Some (promotion_as_utc expiry))
         | _ \<Rightarrow> Inl AuthorityRequired)
      else if to_stage = CANARY_ACTIVE then verify_authority current rq now
      else if to_stage \<in> {PAPER_COLLECTING, PAPER_FAILED, PAPER_PASSED} then Inr (None, None)
      else Inr (Option.bind current sg_authority_ref, Option.bind current sg_authority_expiry))"

definition stage_event_id :: "string \<Rightarrow> int \<Rightarrow> string" where
  "stage_event_id strategy_id revision = ''promo-stage:'' @ strategy_id @ CHR '':'' # string_of_int revision"

definition stage_payload :: "stage_record \<Rightarrow> jobject" where
  "stage_payload r =
     [(''strategy_id'', JStr (sg_strategy_id r)), (''stage'', JStr (stage_str (sg_stage r))),
      (''prior_stage'', jopt (JStr \<circ> stage_str) (sg_prior_stage r)), (''reason'', JStr (sg_reason r)),
      (''actor'', JStr (sg_actor r)), (''authority_ref'', jopt JStr (sg_authority_ref r)),
      (''authority_expiry'', jopt (JTime \<circ> Aware) (sg_authority_expiry r)),
      (''evidence_digest'', jopt JStr (sg_evidence_digest r)), (''revision'', JInt (sg_revision r)),
      (''updated_at'', JTime (Aware (sg_updated_at r)))]"

definition stage_item :: "instant \<Rightarrow> stage_record \<Rightarrow> (stage_record list promotion_tables, unit) batch_item" where
  "stage_item journaled record =
     \<lparr>bi_received_ts = journaled, bi_uuid = [],
      bi_mutation = \<lparr>dm_event_type = ''promotion.stage_transitioned'', dm_entity_type = ''strategy_promotion_state'',
        dm_entity_id = strategy_entity_id (sg_strategy_id record), dm_operation = Upsert, dm_account_id = None,
        dm_source = ''trader_service'', dm_source_timestamp = Aware (sg_updated_at record),
        dm_correlation_id = Some (sg_strategy_id record), dm_payload = Some (stage_payload record)\<rparr>,
      bi_write = (\<lambda>p _. Inr (p\<lparr>pt_stages := stage_save record (pt_stages p)\<rparr>)),
      bi_event_id = Some (stage_event_id (sg_strategy_id record) (sg_revision record))\<rparr>"

definition persist_stage ::
    "instant \<Rightarrow> stage_record \<Rightarrow> stage_db \<Rightarrow> (stage_error + stage_record) \<times> stage_db" where
  "persist_stage journaled record db =
     (case mutate (stage_item journaled record) db of
        (Inl e, db') \<Rightarrow> (Inl (StageJournalError e), db')
      | (Inr _, db') \<Rightarrow> (Inr record, db'))"

definition next_record ::
    "string \<Rightarrow> stage_record option \<Rightarrow> stage \<Rightarrow> stage_request \<Rightarrow> string option \<times> instant option \<Rightarrow> stage_record" where
  "next_record strategy_id current to_stage rq authority =
     \<lparr>sg_strategy_id = strategy_id, sg_stage = to_stage, sg_prior_stage = map_option sg_stage current,
      sg_reason = rq_reason rq, sg_actor = rq_actor rq, sg_authority_ref = fst authority,
      sg_authority_expiry = snd authority, sg_evidence_digest = rq_evidence_digest rq,
      sg_revision = opt_or 0 (map_option sg_revision current) + 1, sg_updated_at = promotion_as_utc (rq_now rq)\<rparr>"

text \<open>
  \<open>rq_to_stage\<close> is None for a name that is not a stage. The first gap lies between the read of the current row and the
  projection, the second before the write.
\<close>

definition stage_transition ::
    "(stage_db \<Rightarrow> stage_db) \<Rightarrow> (stage_db \<Rightarrow> stage_db) \<Rightarrow> string \<Rightarrow> stage_request \<Rightarrow> stage_db
     \<Rightarrow> (stage_error + stage_record) \<times> stage_db" where
  "stage_transition gap gap' strategy_id rq db =
     (case rq_to_stage rq of
        None \<Rightarrow> (Inl StageValueError, db)
      | Some to_stage \<Rightarrow>
          if rq_reason rq = [] \<or> rq_actor rq = [] then (Inl StageValueError, db)
          else
            (let now = promotion_as_utc (rq_now rq);
                 current = stage_load (pt_stages (jd_prod db)) strategy_id;
                 from_stage = map_option sg_stage current
             in if to_stage \<notin> set (allowed_edges from_stage) then (Inl (IllegalStageTransition from_stage to_stage), db)
                else case (if requires_clean_evidence to_stage
                           then require_clean_evidence strategy_id to_stage rq now (gap db) else (Inr (), gap db)) of
                       (Inl e, db') \<Rightarrow> (Inl e, db')
                     | (Inr _, db') \<Rightarrow>
                        (case next_authority current to_stage rq now of
                           Inl e \<Rightarrow> (Inl e, db')
                         | Inr authority \<Rightarrow>
                             persist_stage (rq_journaled rq) (next_record strategy_id current to_stage rq authority)
                               (gap' db'))))"

section \<open>Certified stages need clean evidence\<close>

lemma latest_correction_cases:
  "case latest_correction_ts es of
     None \<Rightarrow> \<forall>c \<in> set es. er_event_kind c \<noteq> ''correction''
   | Some t \<Rightarrow> \<exists>c \<in> set es. er_event_kind c = ''correction'' \<and> er_source_timestamp c = t"
  by (induction es) (auto split: option.splits if_splits simp: max_def)

text \<open>What is recorded of a strategy is either in its window or older than a correction.\<close>

lemma in_window_or_corrected:
  assumes "e \<in> set rows" and "er_strategy_id e = s"
    and "\<And>c. c \<in> set rows \<Longrightarrow> er_strategy_id c = s \<Longrightarrow> er_event_kind c = ''correction''
           \<Longrightarrow> er_source_timestamp c \<le> er_source_timestamp e"
  shows "e \<in> set (filter (\<lambda>e. case latest_correction_ts (sort_key evidence_order (list_events s rows)) of None \<Rightarrow> True
      | Some t \<Rightarrow> t \<le> er_source_timestamp e) (sort_key evidence_order (list_events s rows)))"
  using assms latest_correction_cases [of "sort_key evidence_order (list_events s rows)"]
  by (auto simp: list_events_def split: option.splits)

definition incident_kinds :: "string set" where
  "incident_kinds = {''breaker_trip'', ''cost_breach'', ''drawdown_breach''}"

lemma clean_window_incidents:
  assumes clean: "is_clean (rebuild_window rep s as_of rows)"
    and e: "e \<in> set rows" "er_strategy_id e = s" "er_event_kind e \<in> incident_kinds"
  shows "\<exists>c \<in> set rows. er_strategy_id c = s \<and> er_event_kind c = ''correction'' \<and> er_source_timestamp e < er_source_timestamp c"
proof (rule ccontr)
  assume none: "\<not> ?thesis"
  let ?w = "rebuild_window rep s as_of rows"
  from in_window_or_corrected [OF e(1,2)] none
  have "er_payload e \<in> set (ew_breaker_trips ?w) \<union> set (ew_cost_breaches ?w) \<union> set (ew_drawdown_breaches ?w)"
    using e(3) by (auto simp: rebuild_window_def project_evidence_window_def Let_def payloads_def of_kind_def
        incident_kinds_def not_less)
  then show False using clean by (auto simp: is_clean_def)
qed

lemma clean_window_recent:
  assumes "is_clean (rebuild_window rep s as_of rows)"
  shows "\<exists>e \<in> set rows. er_strategy_id e = s \<and> as_of - er_source_timestamp e \<le> stale_after"
proof -
  let ?in = "filter (\<lambda>e. case latest_correction_ts (sort_key evidence_order (list_events s rows)) of None \<Rightarrow> True
      | Some t \<Rightarrow> t \<le> er_source_timestamp e) (sort_key evidence_order (list_events s rows))"
  have "?in \<noteq> []" and recent: "as_of - er_source_timestamp (last ?in) \<le> stale_after"
    using assms by (auto simp: is_clean_def rebuild_window_def project_evidence_window_def Let_def split: if_splits)
  then have "last ?in \<in> set ?in" by (intro last_in_set)
  then have "last ?in \<in> set rows" "er_strategy_id (last ?in) = s" by (auto simp: list_events_def)
  then show ?thesis using recent by blast
qed

lemma clean_reasons_none:
  "clean_reasons supplied p = [] \<Longrightarrow> is_clean p"
  by (auto simp: clean_reasons_def is_clean_def split: if_splits)

lemma project_store_window:
  "project_store rep to_payload uuid journaled s as_of db = (Inr w, db') \<Longrightarrow>
     w = rebuild_window rep s as_of (pt_evidence (jd_prod db))"
  by (auto simp: project_store_def Let_def split: prod.splits sum.splits)

lemma require_clean_ok:
  assumes "require_clean_evidence s to_stage rq now db = (Inr u, db')"
  obtains es p where "rq_evidence rq = Some es" and "p = rebuild_window (gn_rep (es_numbers es)) s now (pt_evidence (jd_prod db))"
    and "is_clean p" and "to_stage = PAPER_PASSED \<longrightarrow> (\<exists>d. gate_evaluate (es_numbers es) p = Some d \<and> pd_passed d)"
proof -
  obtain es where es: "rq_evidence rq = Some es" using assms by (auto simp: require_clean_evidence_def split: option.splits)
  obtain p mid where pr: "project_store (gn_rep (es_numbers es)) (es_payload es) (es_uuid es) (es_journaled es) s now db = (Inr p, mid)"
    using assms es by (auto simp: require_clean_evidence_def split: prod.splits sum.splits)
  obtain ms where ms: "gate_reasons (es_numbers es) to_stage p = Some ms"
    using assms es pr by (auto simp: require_clean_evidence_def split: option.splits)
  have none: "clean_reasons (rq_window rq) p = []" "ms = []"
    using assms es pr ms by (auto simp: require_clean_evidence_def Let_def split: if_splits)
  have "to_stage = PAPER_PASSED \<longrightarrow> (\<exists>d. gate_evaluate (es_numbers es) p = Some d \<and> pd_passed d)"
  proof
    assume to: "to_stage = PAPER_PASSED"
    then obtain d where d: "gate_evaluate (es_numbers es) p = Some d"
      and ms': "ms = (if pd_passed d then [] else map (\<lambda>f. ''floor_'' @ fl_name f) (filter (\<lambda>f. \<not> fl_met f) (pd_floors d)) @ pd_blockers d)"
      using ms by (auto simp: gate_reasons_def split: option.splits)
    have "pd_passed d"
    proof (rule ccontr)
      assume "\<not> pd_passed d"
      then have "filter (\<lambda>f. \<not> fl_met f) (pd_floors d) = []" "pd_blockers d = []" using ms' none(2) by simp_all
      then have "pd_passed d"
        using d by (auto simp: gate_evaluate_def Let_def list_all_iff filter_empty_conv split: option.splits prod.splits)
      with \<open>\<not> pd_passed d\<close> show False ..
    qed
    with d show "\<exists>d. gate_evaluate (es_numbers es) p = Some d \<and> pd_passed d" by blast
  qed
  with es project_store_window [OF pr] clean_reasons_none [OF none(1)] show thesis by (rule that)
qed

lemma persist_record: "persist_stage journaled record db = (Inr r, db') \<Longrightarrow> r = record"
  by (auto simp: persist_stage_def split: prod.splits sum.splits)

text \<open>What a transition that returns a record has gone through.\<close>

lemma stage_transition_ok:
  assumes "stage_transition gap gap' s rq db = (Inr r, db')"
  obtains to_stage authority mid where "rq_to_stage rq = Some to_stage"
    and "to_stage \<in> set (allowed_edges (map_option sg_stage (stage_load (pt_stages (jd_prod db)) s)))"
    and "(if requires_clean_evidence to_stage
          then require_clean_evidence s to_stage rq (promotion_as_utc (rq_now rq)) (gap db) else (Inr (), gap db)) = (Inr (), mid)"
    and "next_authority (stage_load (pt_stages (jd_prod db)) s) to_stage rq (promotion_as_utc (rq_now rq)) = Inr authority"
    and "persist_stage (rq_journaled rq) (next_record s (stage_load (pt_stages (jd_prod db)) s) to_stage rq authority) (gap' mid)
           = (Inr r, db')"
  using assms
  by (auto simp: stage_transition_def Let_def split: option.splits if_splits prod.splits sum.splits)

text \<open>
  C21. No strategy is certified on bad evidence. A transition into PAPER_PASSED, CANARY_AUTHORIZED or CANARY_PASSED succeeds only
  with an evidence store; in the evidence that store held, each breaker trip, cost breach and drawdown breach of the strategy is
  older than a correction, and some evidence is at most thirty days old; and for PAPER_PASSED the paper gate passes on the
  window projected from that evidence. A window the caller supplies decides nothing.
\<close>

theorem promotion_needs_clean_evidence:
  assumes run: "stage_transition gap gap' s rq db = (Inr r, db')" and certified: "requires_clean_evidence (sg_stage r)"
  shows "\<exists>es rows. rq_evidence rq = Some es \<and> rows = pt_evidence (jd_prod (gap db))
    \<and> (\<forall>e \<in> set rows. er_strategy_id e = s \<longrightarrow> er_event_kind e \<in> incident_kinds \<longrightarrow>
         (\<exists>c \<in> set rows. er_strategy_id c = s \<and> er_event_kind c = ''correction'' \<and> er_source_timestamp e < er_source_timestamp c))
    \<and> (\<exists>e \<in> set rows. er_strategy_id e = s \<and> promotion_as_utc (rq_now rq) - er_source_timestamp e \<le> stale_after)
    \<and> (sg_stage r = PAPER_PASSED \<longrightarrow> (\<exists>d. pd_passed d \<and> gate_evaluate (es_numbers es)
         (rebuild_window (gn_rep (es_numbers es)) s (promotion_as_utc (rq_now rq)) rows) = Some d))"
proof -
  from run obtain to_stage authority mid where
      req: "(if requires_clean_evidence to_stage
        then require_clean_evidence s to_stage rq (promotion_as_utc (rq_now rq)) (gap db) else (Inr (), gap db)) = (Inr (), mid)"
    and per: "persist_stage (rq_journaled rq) (next_record s (stage_load (pt_stages (jd_prod db)) s) to_stage rq authority) (gap' mid)
           = (Inr r, db')" by (rule stage_transition_ok)
  have to: "sg_stage r = to_stage" using persist_record [OF per] by (simp add: next_record_def)
  then have "require_clean_evidence s to_stage rq (promotion_as_utc (rq_now rq)) (gap db) = (Inr (), mid)"
    using req certified by simp
  then obtain es p where es: "rq_evidence rq = Some es"
    and p: "p = rebuild_window (gn_rep (es_numbers es)) s (promotion_as_utc (rq_now rq)) (pt_evidence (jd_prod (gap db)))"
    and clean: "is_clean p" and gate: "to_stage = PAPER_PASSED \<longrightarrow> (\<exists>d. gate_evaluate (es_numbers es) p = Some d \<and> pd_passed d)"
    by (rule require_clean_ok)
  show ?thesis
    using es clean_window_incidents [OF clean [unfolded p]] clean_window_recent [OF clean [unfolded p]] gate to
    unfolding p by (intro exI [of _ es] exI [of _ "pt_evidence (jd_prod (gap db))"]) blast
qed

section \<open>Stages move along the edges, one at a time\<close>

definition stage_journaled :: "stage_db \<Rightarrow> string \<Rightarrow> int \<Rightarrow> bool" where
  "stage_journaled db s n \<longleftrightarrow> (\<exists>j \<in> set (jd_rows db). jr_event_id j = stage_event_id s n)"

definition stage_revision :: "stage_record option \<Rightarrow> int" where
  "stage_revision r = opt_or 0 (map_option sg_revision r)"

abbreviation stage_of :: "stage_db \<Rightarrow> string \<Rightarrow> stage_record option" where
  "stage_of db s \<equiv> stage_load (pt_stages (jd_prod db)) s"

text \<open>Every revision up to the current one of a strategy is in the journal.\<close>

definition stage_inv :: "stage_db \<Rightarrow> bool" where
  "stage_inv db \<longleftrightarrow> journal_inv db \<and> (\<forall>s. 0 \<le> stage_revision (stage_of db s)) \<and>
     (\<forall>s n. 1 \<le> n \<longrightarrow> n \<le> stage_revision (stage_of db s) \<longrightarrow> stage_journaled db s n)"

text \<open>What callers do to each other: a strategy's row is the same, or its revision is higher.\<close>

definition stage_ahead :: "stage_db \<Rightarrow> stage_db \<Rightarrow> bool" where
  "stage_ahead db db' \<longleftrightarrow> stage_inv db' \<and>
     (\<forall>s. stage_of db' s = stage_of db s \<or> stage_revision (stage_of db s) < stage_revision (stage_of db' s))"

lemma stage_journaled_mono: "set (jd_rows db) \<subseteq> set (jd_rows db') \<Longrightarrow> stage_journaled db s n \<Longrightarrow> stage_journaled db' s n"
  by (auto simp: stage_journaled_def)

lemma stage_ahead_refl: "stage_inv db \<Longrightarrow> stage_ahead db db"
  by (simp add: stage_ahead_def)

lemma stage_ahead_trans:
  assumes "stage_ahead a b" and "stage_ahead b c"
  shows "stage_ahead a c"
  unfolding stage_ahead_def
proof (intro conjI allI)
  show "stage_inv c" using assms(2) by (simp add: stage_ahead_def)
  fix s
  have "stage_of b s = stage_of a s \<or> stage_revision (stage_of a s) < stage_revision (stage_of b s)"
    "stage_of c s = stage_of b s \<or> stage_revision (stage_of b s) < stage_revision (stage_of c s)"
    using assms by (simp_all add: stage_ahead_def)
  then show "stage_of c s = stage_of a s \<or> stage_revision (stage_of a s) < stage_revision (stage_of c s)"
    by (elim disjE) simp_all
qed

lemma stage_load_save [simp]:
  "stage_load (stage_save record rows) s = (if s = sg_strategy_id record then Some record else stage_load rows s)"
proof -
  have "filter (\<lambda>r. sg_strategy_id r = s) (filter (\<lambda>r. sg_strategy_id r \<noteq> sg_strategy_id record) rows)
      = (if s = sg_strategy_id record then [] else filter (\<lambda>r. sg_strategy_id r = s) rows)"
    by (induction rows) auto
  then show ?thesis by (simp add: stage_load_def stage_save_def)
qed

lemma project_keeps_stages:
  assumes inv: "journal_inv (db :: stage_db)" and run: "project_store rep to_payload uuid journaled s as_of db = (res, db')"
  shows "journal_inv db' \<and> pt_stages (jd_prod db') = pt_stages (jd_prod db) \<and> set (jd_rows db) \<subseteq> set (jd_rows db')"
proof -
  let ?w = "rebuild_window rep s as_of (pt_evidence (jd_prod db))"
  obtain item r where m: "mutate item db = (r, db')" and w: "bi_write item = window_write s ?w as_of"
    using run by (auto simp: project_store_def Let_def split: prod.splits sum.splits)
  have inv': "journal_inv db'" using mutate_inv [OF inv m] .
  from inv m show ?thesis
    by (cases rule: mutate_cases) (use inv' w in \<open>auto simp: window_write_def\<close>)
qed

lemma require_clean_ahead:
  assumes inv: "stage_inv db" and run: "require_clean_evidence s to_stage rq now db = (res, db')"
  shows "stage_ahead db db'"
proof -
  have ji: "journal_inv db" using inv by (simp add: stage_inv_def)
  have "journal_inv db' \<and> pt_stages (jd_prod db') = pt_stages (jd_prod db) \<and> set (jd_rows db) \<subseteq> set (jd_rows db')"
    using run ji by (auto simp: require_clean_evidence_def Let_def dest: project_keeps_stages
        split: option.splits prod.splits sum.splits if_splits)
  then show ?thesis using inv by (auto simp: stage_ahead_def stage_inv_def intro: stage_journaled_mono)
qed

lemma persist_cases:
  assumes inv: "journal_inv db" and run: "persist_stage journaled record db = (res, db')"
  obtains (kept) "pt_stages (jd_prod db') = pt_stages (jd_prod db)" and "jd_rows db' = jd_rows db" and "journal_inv db'"
      and "res = Inr record \<Longrightarrow> stage_journaled db (sg_strategy_id record) (sg_revision record)"
  | (written) "pt_stages (jd_prod db') = stage_save record (pt_stages (jd_prod db))" and "res = Inr record" and "journal_inv db'"
      and "set (jd_rows db) \<subseteq> set (jd_rows db')" and "stage_journaled db' (sg_strategy_id record) (sg_revision record)"
      and "\<not> stage_journaled db (sg_strategy_id record) (sg_revision record)"
proof -
  obtain r where m: "mutate (stage_item journaled record) db = (r, db')"
    and res: "res = (case r of Inl e \<Rightarrow> Inl (StageJournalError e) | Inr _ \<Rightarrow> Inr record)"
    using run by (auto simp: persist_stage_def split: prod.splits sum.splits)
  have id: "item_id (stage_item journaled record) = stage_event_id (sg_strategy_id record) (sg_revision record)"
    by (simp add: item_id_def stage_item_def)
  have inv': "journal_inv db'" using mutate_inv [OF inv m] .
  from inv m show thesis
  proof (cases rule: mutate_cases)
    case (failed e)
    then show thesis using kept inv' res by simp
  next
    case (replay row)
    then have "stage_journaled db (sg_strategy_id record) (sg_revision record)"
      using id by (auto simp: stage_journaled_def select_journal_row_def dest: fetchone_filter_SomeD)
    then show thesis using kept replay inv' by simp
  next
    case (fresh p)
    have "\<not> stage_journaled db (sg_strategy_id record) (sg_revision record)"
      using fresh(1) id by (auto simp: stage_journaled_def select_journal_row_def filter_empty_conv)
    moreover have "stage_journaled db' (sg_strategy_id record) (sg_revision record)"
      using fresh(4) id by (auto simp: stage_journaled_def)
    moreover have "pt_stages (jd_prod db') = stage_save record (pt_stages (jd_prod db))"
      using fresh(2,4) by (auto simp: stage_item_def)
    moreover have "res = Inr record" using res fresh(3) by simp
    moreover have "set (jd_rows db) \<subseteq> set (jd_rows db')" using fresh(4) by auto
    ultimately show thesis using written inv' by blast
  qed
qed

text \<open>Only a caller whose row is still the current one gets to write: the event of its next revision is new.\<close>

lemma persist_current:
  assumes inv: "stage_inv db" and ahead: "stage_ahead start db" and current: "c = stage_of start s"
    and new: "\<not> stage_journaled db s (stage_revision c + 1)" and pos: "0 \<le> stage_revision c"
  shows "stage_of db s = c"
proof (rule ccontr)
  assume "stage_of db s \<noteq> c"
  then have "stage_revision c + 1 \<le> stage_revision (stage_of db s)" using ahead current by (force simp: stage_ahead_def)
  then show False using inv new pos by (auto simp: stage_inv_def)
qed

text \<open>What the write of one transition does, given the row it was decided on.\<close>

definition stage_moved :: "string \<Rightarrow> stage_request \<Rightarrow> stage_record \<Rightarrow> stage_db \<Rightarrow> stage_db \<Rightarrow> bool" where
  "stage_moved s rq r before after \<longleftrightarrow>
     stage_of after s = Some r \<and> (\<forall>s'. s' \<noteq> s \<longrightarrow> stage_of after s' = stage_of before s')
     \<and> sg_stage r \<in> set (allowed_edges (map_option sg_stage (stage_of before s)))
     \<and> sg_revision r = stage_revision (stage_of before s) + 1
     \<and> (sg_stage r = CANARY_ACTIVE \<longrightarrow> (\<exists>a ref expiry. stage_of before s = Some a \<and> sg_stage a = CANARY_AUTHORIZED
          \<and> sg_authority_ref a = Some ref \<and> sg_authority_expiry a = Some expiry
          \<and> rq_authority_ref rq = Some ref \<and> promotion_as_utc (rq_now rq) < expiry
          \<and> sg_authority_ref r = Some ref \<and> sg_authority_expiry r = Some expiry))"

lemma activation_edge: "CANARY_ACTIVE \<in> set (allowed_edges f) \<longleftrightarrow> f = Some CANARY_AUTHORIZED"
  by (cases f rule: allowed_edges.cases) auto

lemma next_record_moves:
  assumes edge: "to_stage \<in> set (allowed_edges (map_option sg_stage c))"
    and auth: "next_authority c to_stage rq (promotion_as_utc (rq_now rq)) = Inr authority"
    and same: "stage_of before s = c" and stages: "pt_stages (jd_prod after) = stage_save (next_record s c to_stage rq authority) (pt_stages (jd_prod before))"
  shows "stage_moved s rq (next_record s c to_stage rq authority) before after"
proof -
  let ?r = "next_record s c to_stage rq authority"
  have fields: "sg_strategy_id ?r = s" "sg_stage ?r = to_stage" "sg_revision ?r = stage_revision c + 1"
    "sg_authority_ref ?r = fst authority" "sg_authority_expiry ?r = snd authority"
    by (simp_all add: next_record_def stage_revision_def)
  have "\<exists>a ref expiry. c = Some a \<and> sg_stage a = CANARY_AUTHORIZED \<and> sg_authority_ref a = Some ref
      \<and> sg_authority_expiry a = Some expiry \<and> rq_authority_ref rq = Some ref \<and> promotion_as_utc (rq_now rq) < expiry
      \<and> authority = (Some ref, Some expiry)" if active: "to_stage = CANARY_ACTIVE"
  proof -
    obtain a where "c = Some a" "sg_stage a = CANARY_AUTHORIZED" using edge active by (auto simp: activation_edge)
    then show ?thesis
      using auth active by (auto simp: next_authority_def verify_authority_def split: option.splits if_splits)
  qed
  then show ?thesis using edge same stages fields by (fastforce simp: stage_moved_def)
qed

lemma written_ahead:
  assumes inv: "stage_inv before" and inv': "journal_inv after"
    and rows: "set (jd_rows before) \<subseteq> set (jd_rows after)" and ev: "stage_journaled after s (sg_revision r)"
    and moved: "stage_moved s rq r before after"
  shows "stage_ahead before after"
proof -
  have rev: "stage_revision (stage_of after s) = stage_revision (stage_of before s) + 1"
    "sg_revision r = stage_revision (stage_of before s) + 1"
    and other: "\<And>s'. s' \<noteq> s \<Longrightarrow> stage_of after s' = stage_of before s'"
    using moved by (simp_all add: stage_moved_def stage_revision_def)
  have "stage_journaled after s' n" if "1 \<le> n" "n \<le> stage_revision (stage_of after s')" for s' n
  proof (cases "s' = s \<and> n = sg_revision r")
    case True
    then show ?thesis using ev by simp
  next
    case False
    have "n \<le> stage_revision (stage_of before s')" using False that(2) rev other [of s'] by (cases "s' = s") auto
    then show ?thesis using inv that(1) rows by (intro stage_journaled_mono [OF rows]) (simp add: stage_inv_def)
  qed
  moreover have "0 \<le> stage_revision (stage_of after s')" for s'
    using inv rev other [of s'] by (cases "s' = s") (auto simp: stage_inv_def)
  moreover have "stage_of after s' = stage_of before s' \<or> stage_revision (stage_of before s') < stage_revision (stage_of after s')" for s'
    using rev other [of s'] by (cases "s' = s") simp_all
  ultimately show ?thesis using inv' by (simp add: stage_ahead_def stage_inv_def)
qed

text \<open>The database after the evidence check, when the write is due.\<close>

definition evidence_checked :: "(stage_db \<Rightarrow> stage_db) \<Rightarrow> string \<Rightarrow> stage_request \<Rightarrow> stage_db \<Rightarrow> stage_db" where
  "evidence_checked gap s rq db =
     (case rq_to_stage rq of
        Some to_stage \<Rightarrow>
          if requires_clean_evidence to_stage
          then snd (require_clean_evidence s to_stage rq (promotion_as_utc (rq_now rq)) (gap db)) else gap db
      | None \<Rightarrow> db)"

lemma require_clean_stages:
  assumes "journal_inv db" and "require_clean_evidence s to_stage rq now db = (res, db')"
  shows "pt_stages (jd_prod db') = pt_stages (jd_prod db)"
  using assms by (auto simp: require_clean_evidence_def Let_def dest: project_keeps_stages
      split: option.splits prod.splits sum.splits if_splits)

text \<open>
  C20. A strategy's stage moves only along the edges of the promotion graph, whatever callers race. If the other callers move rows
  forward only, then so does a transition. A transition that raises writes no stage. One that answers with a record was asked to follow
  an allowed edge from the stage it read; either the row it read is still the current one when it writes, and it replaces that row by
  its successor, with the next revision, and touches no other strategy; or another caller has already journaled that very revision, and
  it writes nothing. In particular it makes a strategy active in the canary only from CANARY_AUTHORIZED, under the authority recorded
  there, before it expires; never from a paper stage and never from a suspension.
\<close>

theorem stage_moves_along_edges:
  assumes inv: "stage_inv db" and gap: "\<And>d. stage_inv d \<Longrightarrow> stage_ahead d (gap d)"
    and gap': "\<And>d. stage_inv d \<Longrightarrow> stage_ahead d (gap' d)"
    and run: "stage_transition gap gap' s rq db = (res, db')" and before: "before = gap' (evidence_checked gap s rq db)"
  shows "stage_ahead db db' \<and>
    (case res of
       Inl e \<Rightarrow> pt_stages (jd_prod db') \<in> {pt_stages (jd_prod db), pt_stages (jd_prod (gap db)), pt_stages (jd_prod before)}
     | Inr r \<Rightarrow> sg_stage r \<in> set (allowed_edges (current_stage db s))
         \<and> (if stage_journaled before s (sg_revision r) then pt_stages (jd_prod db') = pt_stages (jd_prod before)
            else stage_of before s = stage_of db s \<and> stage_moved s rq r before db'))"
proof -
  let ?c = "stage_of db s" and ?now = "promotion_as_utc (rq_now rq)"
  consider (early) "db' = db" "\<exists>e. res = Inl e"
    | (go) to_stage where "rq_to_stage rq = Some to_stage" "to_stage \<in> set (allowed_edges (map_option sg_stage ?c))"
        "rq_reason rq \<noteq> []" "rq_actor rq \<noteq> []"
    using run by (auto simp: stage_transition_def Let_def split: option.splits if_splits)
  then show ?thesis
  proof cases
    case early
    then show ?thesis using stage_ahead_refl [OF inv] by auto
  next
    case (go to_stage)
    obtain w mid where w: "(if requires_clean_evidence to_stage
        then require_clean_evidence s to_stage rq ?now (gap db) else (Inr (), gap db)) = (w, mid)" by fastforce
    have gi: "stage_inv (gap db)" "journal_inv (gap db)" using gap [OF inv] by (simp_all add: stage_ahead_def stage_inv_def)
    have "stage_ahead (gap db) mid"
      using w require_clean_ahead gap [OF inv] stage_ahead_refl by (auto simp: stage_ahead_def split: if_splits)
    then have mid: "stage_ahead db mid" using stage_ahead_trans gap [OF inv] by blast
    have stages: "pt_stages (jd_prod mid) = pt_stages (jd_prod (gap db))"
      using w require_clean_stages [OF gi(2)] by (auto split: if_splits)
    have b: "before = gap' mid" using w go(1) by (auto simp: before evidence_checked_def split: if_splits)
    note body = run [unfolded stage_transition_def Let_def] go w
    show ?thesis
    proof (cases "\<exists>u a. w = Inr u \<and> next_authority ?c to_stage rq ?now = Inr a")
      case False
      then have "db' = mid" "\<exists>e. res = Inl e" using body by (auto split: sum.splits)
      then show ?thesis using mid stages by auto
    next
      case True
      then obtain a where a: "next_authority ?c to_stage rq ?now = Inr a" and "w = Inr ()" by auto
      then have per: "persist_stage (rq_journaled rq) (next_record s ?c to_stage rq a) before = (res, db')"
        using body b by simp
      have ahead: "stage_ahead db before" "stage_inv before"
        using stage_ahead_trans [OF mid gap'] mid gap' b by (auto simp: stage_ahead_def)
      then have ji: "journal_inv before" by (simp add: stage_inv_def)
      have id: "sg_strategy_id (next_record s ?c to_stage rq a) = s" "sg_stage (next_record s ?c to_stage rq a) = to_stage"
        "sg_revision (next_record s ?c to_stage rq a) = stage_revision ?c + 1"
        by (simp_all add: next_record_def stage_revision_def)
      have edge: "to_stage \<in> set (allowed_edges (current_stage db s))" using go(2) by (simp add: current_stage_def)
      from ji per show ?thesis
      proof (cases rule: persist_cases)
        case kept
        then have "stage_ahead before db'" using ahead(2) by (simp add: stage_ahead_def stage_inv_def stage_journaled_def)
        then have "stage_ahead db db'" using stage_ahead_trans [OF ahead(1)] by blast
        moreover have "stage_journaled before s (sg_revision r)" "sg_stage r = to_stage" if "res = Inr r" for r
          using kept(4) persist_record [OF per [unfolded that]] that id by auto
        ultimately show ?thesis using kept(1) edge by (cases res) auto
      next
        case written
        have same: "stage_of before s = ?c"
          by (rule persist_current [OF ahead(2,1) refl]) (use written(6) id inv in \<open>simp_all add: stage_inv_def\<close>)
        note moved = next_record_moves [OF go(2) a same written(1)]
        have "stage_ahead before db'"
          by (rule written_ahead [OF ahead(2) written(3,4) _ moved]) (use written(5) id in simp)
        then show ?thesis using stage_ahead_trans [OF ahead(1)] written(2,6) same moved edge id by simp
      qed
    qed
  qed
qed

section \<open>Concrete transitions\<close>

definition demo_stage_request :: "stage \<Rightarrow> stage_request" where
  "demo_stage_request to_stage =
     \<lparr>rq_to_stage = Some to_stage, rq_reason = ''review'', rq_actor = ''operator'', rq_now = Aware 30,
      rq_evidence = Some \<lparr>es_numbers = demo_numbers, es_payload = (\<lambda>_. []), es_uuid = ''u1'', es_journaled = 31\<rparr>,
      rq_window = None, rq_authority_ref = Some ''ref'', rq_authority_expiry = Some (Aware 100),
      rq_evidence_digest = None, rq_journaled = 32\<rparr>"

definition demo_stage_db :: "stage_record list \<Rightarrow> stage_db" where
  "demo_stage_db stages = empty_journal \<lparr>pt_evidence =
     [\<lparr>er_evidence_key = ''e1'', er_strategy_id = ''s'', er_event_kind = ''session'', er_payload = [(''session_id'', JStr ''d1'')],
       er_source_timestamp = 20, er_recorded_at = 21\<rparr>],
     pt_windows = [], pt_inserted = False, pt_stages = stages\<rparr>"

definition demo_passed_row :: stage_record where
  "demo_passed_row = \<lparr>sg_strategy_id = ''s'', sg_stage = PAPER_PASSED, sg_prior_stage = Some PAPER_COLLECTING,
     sg_reason = ''gate'', sg_actor = ''operator'', sg_authority_ref = None, sg_authority_expiry = None,
     sg_evidence_digest = None, sg_revision = 2, sg_updated_at = 25\<rparr>"

definition demo_authorised :: "(stage_error + stage_record) \<times> stage_db" where
  "demo_authorised = stage_transition (\<lambda>d. d) (\<lambda>d. d) ''s'' (demo_stage_request CANARY_AUTHORIZED) (demo_stage_db [demo_passed_row])"

theorem promotion_needs_clean_evidence_witness:
  "\<exists>r. fst demo_authorised = Inr r \<and> sg_stage r = CANARY_AUTHORIZED
     \<and> (\<exists>e \<in> set (pt_evidence (jd_prod (demo_stage_db [demo_passed_row]))). 30 - er_source_timestamp e \<le> stale_after)"
proof -
  have "(case fst demo_authorised of Inl _ \<Rightarrow> None | Inr r \<Rightarrow> Some (sg_stage r)) = Some CANARY_AUTHORIZED" by code_simp
  then obtain r where r: "fst demo_authorised = Inr r" "sg_stage r = CANARY_AUTHORIZED" by (auto split: sum.splits)
  then have run: "stage_transition (\<lambda>d. d) (\<lambda>d. d) ''s'' (demo_stage_request CANARY_AUTHORIZED) (demo_stage_db [demo_passed_row])
      = (Inr r, snd demo_authorised)" by (metis demo_authorised_def prod.collapse)
  have "requires_clean_evidence (sg_stage r)" by (simp add: r(2) requires_clean_evidence_def)
  from promotion_needs_clean_evidence [OF run this] r show ?thesis
    by (auto simp: demo_stage_request_def promotion_as_utc_def)
qed

definition demo_entered :: "(stage_error + stage_record) \<times> stage_db" where
  "demo_entered = stage_transition (\<lambda>d. d) (\<lambda>d. d) ''s'' (demo_stage_request PAPER_COLLECTING) (demo_stage_db [])"

theorem stage_moves_along_edges_witness:
  "\<exists>r. fst demo_entered = Inr r \<and> stage_of (snd demo_entered) ''s'' = Some r \<and> sg_stage r = PAPER_COLLECTING \<and> sg_revision r = 1"
proof -
  have none: "stage_of (demo_stage_db []) s = None" for s by (simp add: stage_load_def demo_stage_db_def empty_journal_def)
  then have inv: "stage_inv (demo_stage_db [])" by (simp add: stage_inv_def stage_revision_def) (simp add: demo_stage_db_def)
  have run: "stage_transition (\<lambda>d. d) (\<lambda>d. d) ''s'' (demo_stage_request PAPER_COLLECTING) (demo_stage_db [])
      = (fst demo_entered, snd demo_entered)" by (simp add: demo_entered_def)
  have "(case fst demo_entered of Inl _ \<Rightarrow> None | Inr r \<Rightarrow> Some (sg_stage r)) = Some PAPER_COLLECTING" by code_simp
  then obtain r where r: "fst demo_entered = Inr r" "sg_stage r = PAPER_COLLECTING" by (auto split: sum.splits)
  have before: "demo_stage_db [] = (\<lambda>d. d) (evidence_checked (\<lambda>d. d) ''s'' (demo_stage_request PAPER_COLLECTING) (demo_stage_db []))"
    by (simp add: evidence_checked_def demo_stage_request_def requires_clean_evidence_def)
  have new: "\<not> stage_journaled (demo_stage_db []) ''s'' n" for n by (simp add: stage_journaled_def demo_stage_db_def empty_journal_def)
  from stage_moves_along_edges [OF inv stage_ahead_refl stage_ahead_refl run before]
  have "stage_moved ''s'' (demo_stage_request PAPER_COLLECTING) r (demo_stage_db []) (snd demo_entered)"
    unfolding r(1) using new by simp
  then show ?thesis using r none by (simp add: stage_moved_def stage_revision_def opt_or_def)
qed

end
