(* ===== verification/Order_Lifecycle.thy ===== *)
theory Order_Lifecycle
  imports Pyfloat
begin

text \<open>
  \<open>OrderLifecycleTracker\<close> of \<^verbatim>\<open>src/trader/trading/order_lifecycle.py\<close>: the sink of the broker's order-status stream. It
  keeps the latest status of each order, wakes the callers that wait for a decisive one, and records the outcome of an
  order in the event store. The event store is a log with a predicate that says which events it accepts; an append that
  raises is caught.
\<close>

section \<open>Statuses and state\<close>

definition accepted_statuses :: "string list" where
  "accepted_statuses = [''PreSubmitted'', ''Submitted'']"

definition filled_statuses :: "string list" where
  "filled_statuses = [''Filled'']"

definition dead_statuses :: "string list" where
  "dead_statuses = [''Cancelled'', ''ApiCancelled'', ''Inactive'']"

text \<open>An update with the defaults of \<open>getattr\<close> filled in: 0 and the empty string for what is missing.\<close>

record trade_update =
  tu_order_id :: int
  tu_status :: string
  tu_filled :: pyfloat
  tu_total_quantity :: pyfloat
  tu_avg_fill_price :: pyfloat
  tu_order_ref :: string
  tu_conid :: int
  tu_symbol :: string
  tu_action :: string

datatype outcome_type = ORDER_FILLED | ORDER_CANCELLED | ORDER_REJECTED

record outcome_event =
  oe_type :: outcome_type
  oe_timestamp :: instant
  oe_strategy_name :: string
  oe_conid :: int
  oe_symbol :: string
  oe_action :: string
  oe_quantity :: pyfloat
  oe_price :: pyfloat
  oe_order_id :: int
  oe_status :: string

record outcome_store =
  os_accepts :: "outcome_event \<Rightarrow> bool"
  os_events :: "outcome_event list"

text \<open>A future is a number and its result, None while it is pending.\<close>

record tracker =
  tk_event_store :: "outcome_store option"
  tk_status :: "(int \<times> string) list"
  tk_terminal_logged :: "int list"
  tk_waiters :: "(int \<times> (nat \<times> string option) list) list"

definition new_tracker :: "outcome_store option \<Rightarrow> tracker" where
  "new_tracker es = \<lparr>tk_event_store = es, tk_status = [], tk_terminal_logged = [], tk_waiters = []\<rparr>"

definition set_event_store :: "outcome_store \<Rightarrow> tracker \<Rightarrow> tracker" where
  "set_event_store es tk = tk\<lparr>tk_event_store := Some es\<rparr>"

definition decisive :: "string \<Rightarrow> string option" where
  "decisive status =
     (if status \<in> set filled_statuses then Some ''filled''
      else if status \<in> set accepted_statuses then Some ''accepted''
      else if status \<in> set dead_statuses then Some ''rejected'' else None)"

definition latest_status :: "tracker \<Rightarrow> int \<Rightarrow> string option" where
  "latest_status tk order_id = map_of (tk_status tk) order_id"

section \<open>The stream\<close>

definition outcome_type_of :: "string \<Rightarrow> outcome_type" where
  "outcome_type_of status =
     (if status \<in> set filled_statuses then ORDER_FILLED
      else if status \<in> {''Cancelled'', ''ApiCancelled''} then ORDER_CANCELLED else ORDER_REJECTED)"

definition outcome_event_of :: "instant \<Rightarrow> trade_update \<Rightarrow> outcome_event" where
  "outcome_event_of now u =
     \<lparr>oe_type = outcome_type_of (tu_status u), oe_timestamp = now,
      oe_strategy_name = (if tu_order_ref u = [] then ''order'' else tu_order_ref u), oe_conid = tu_conid u,
      oe_symbol = tu_symbol u, oe_action = tu_action u,
      oe_quantity = (if outcome_type_of (tu_status u) = ORDER_FILLED then tu_filled u else tu_total_quantity u),
      oe_price = tu_avg_fill_price u, oe_order_id = tu_order_id u, oe_status = tu_status u\<rparr>"

definition record_event :: "instant \<Rightarrow> trade_update \<Rightarrow> tracker \<Rightarrow> tracker" where
  "record_event now u tk =
     (case tk_event_store tk of
        None \<Rightarrow> tk
      | Some es \<Rightarrow>
          if os_accepts es (outcome_event_of now u)
          then tk\<lparr>tk_event_store := Some (es\<lparr>os_events := os_events es @ [outcome_event_of now u]\<rparr>)\<rparr> else tk)"

definition resolve_waiters :: "int \<Rightarrow> string \<Rightarrow> tracker \<Rightarrow> tracker" where
  "resolve_waiters order_id d tk =
     tk\<lparr>tk_waiters := map (\<lambda>(i, futs). (i, if i = order_id
        then map (\<lambda>(f, res). (f, if res = None then Some d else res)) futs else futs)) (tk_waiters tk)\<rparr>"

definition terminal_status :: "string \<Rightarrow> bool" where
  "terminal_status status \<longleftrightarrow> status \<in> set filled_statuses \<or> status \<in> set dead_statuses"

definition log_terminal :: "instant \<Rightarrow> trade_update \<Rightarrow> tracker \<Rightarrow> tracker" where
  "log_terminal now u tk =
     (if terminal_status (tu_status u) \<and> tu_order_id u \<notin> set (tk_terminal_logged tk)
      then record_event now u (tk\<lparr>tk_terminal_logged := tu_order_id u # tk_terminal_logged tk\<rparr>) else tk)"

definition on_trade :: "instant \<times> trade_update \<Rightarrow> tracker \<Rightarrow> tracker" where
  "on_trade nu tk =
     (case nu of (now, u) \<Rightarrow>
        if tu_order_id u = 0 \<or> tu_status u = [] then tk
        else let tk1 = tk\<lparr>tk_status := AList.update (tu_order_id u) (tu_status u) (tk_status tk)\<rparr>;
                 tk2 = (case decisive (tu_status u) of None \<Rightarrow> tk1 | Some d \<Rightarrow> resolve_waiters (tu_order_id u) d tk1)
             in log_terminal now u tk2)"

section \<open>Waiting\<close>

text \<open>The synchronous part of \<open>wait_decisive\<close>: an answer at once, or a new future \<open>f\<close> to wait on.\<close>

definition begin_wait :: "nat \<Rightarrow> int \<Rightarrow> tracker \<Rightarrow> string option \<times> tracker" where
  "begin_wait f order_id tk =
     (case latest_status tk order_id of
        Some cur \<Rightarrow>
          (case (if cur = [] then None else decisive cur) of
             Some d \<Rightarrow> (Some d, tk)
           | None \<Rightarrow> (None, tk\<lparr>tk_waiters := AList.update order_id
                (opt_or [] (map_of (tk_waiters tk) order_id) @ [(f, None)]) (tk_waiters tk)\<rparr>))
      | None \<Rightarrow> (None, tk\<lparr>tk_waiters := AList.update order_id
           (opt_or [] (map_of (tk_waiters tk) order_id) @ [(f, None)]) (tk_waiters tk)\<rparr>))"

text \<open>The future was resolved or the timeout passed: the answer, and the \<open>finally\<close> block that drops the future.\<close>

definition end_wait :: "nat \<Rightarrow> int \<Rightarrow> tracker \<Rightarrow> string \<times> tracker" where
  "end_wait f order_id tk =
     (let futs = opt_or [] (map_of (tk_waiters tk) order_id);
          res = Option.bind (map_of futs f) id;
          rest = filter (\<lambda>x. fst x \<noteq> f) futs
      in (opt_or ''timeout'' res,
          if map_of (tk_waiters tk) order_id = None then tk
          else if rest = [] then tk\<lparr>tk_waiters := filter (\<lambda>x. fst x \<noteq> order_id) (tk_waiters tk)\<rparr>
          else tk\<lparr>tk_waiters := AList.update order_id rest (tk_waiters tk)\<rparr>))"

section \<open>The outcome of an order\<close>

definition outcomes_of :: "int \<Rightarrow> tracker \<Rightarrow> outcome_event list" where
  "outcomes_of i tk = (case tk_event_store tk of None \<Rightarrow> [] | Some es \<Rightarrow> filter (\<lambda>e. oe_order_id e = i) (os_events es))"

definition ends_order :: "int \<Rightarrow> instant \<times> trade_update \<Rightarrow> bool" where
  "ends_order i nu \<longleftrightarrow> i \<noteq> 0 \<and> tu_order_id (snd nu) = i \<and> terminal_status (tu_status (snd nu))"

definition recorded_outcome :: "(outcome_event \<Rightarrow> bool) \<Rightarrow> int \<Rightarrow> (instant \<times> trade_update) list \<Rightarrow> outcome_event list" where
  "recorded_outcome accepts i us =
     (case find (ends_order i) us of
        None \<Rightarrow> []
      | Some (now, u) \<Rightarrow> if accepts (outcome_event_of now u) then [outcome_event_of now u] else [])"

lemma terminal_nonempty: "terminal_status s \<Longrightarrow> s \<noteq> []"
  by (auto simp: terminal_status_def filled_statuses_def dead_statuses_def)

lemma resolve_keeps [simp]:
  "tk_event_store (resolve_waiters i d tk) = tk_event_store tk" "tk_terminal_logged (resolve_waiters i d tk) = tk_terminal_logged tk"
  "tk_status (resolve_waiters i d tk) = tk_status tk"
  by (simp_all add: resolve_waiters_def)

lemma oe_order_id_of [simp]: "oe_order_id (outcome_event_of now u) = tu_order_id u"
  by (simp add: outcome_event_of_def)

lemma on_trade_effect:
  assumes "tk_event_store tk = Some es"
  shows "\<exists>es'. tk_event_store (on_trade nu tk) = Some es' \<and> os_accepts es' = os_accepts es"
    and "set (tk_terminal_logged (on_trade nu tk)) = set (tk_terminal_logged tk)
           \<union> (if ends_order (tu_order_id (snd nu)) nu then {tu_order_id (snd nu)} else {})"
    and "outcomes_of i (on_trade nu tk) = outcomes_of i tk @ (if i \<in> set (tk_terminal_logged tk) then []
           else recorded_outcome (os_accepts es) i [nu])"
  using assms
  by (cases nu; auto simp: on_trade_def Let_def log_terminal_def record_event_def ends_order_def recorded_outcome_def
      outcomes_of_def terminal_nonempty split: option.splits)+

lemma recorded_outcome_Cons:
  "recorded_outcome accepts i (nu # us) = (if ends_order i nu then recorded_outcome accepts i [nu] else recorded_outcome accepts i us)"
  by (simp add: recorded_outcome_def)

lemma outcomes_run:
  assumes "tk_event_store tk = Some es"
  shows "outcomes_of i (fold on_trade us tk) = outcomes_of i tk @ (if i \<in> set (tk_terminal_logged tk) then []
           else recorded_outcome (os_accepts es) i us)"
  using assms
proof (induction us arbitrary: tk es)
  case Nil
  then show ?case by (simp add: recorded_outcome_def)
next
  case (Cons nu us)
  note step = on_trade_effect [OF Cons.prems]
  from step(1) [of nu] obtain es' where es': "tk_event_store (on_trade nu tk) = Some es'" "os_accepts es' = os_accepts es" by blast
  have logged: "i \<in> set (tk_terminal_logged (on_trade nu tk)) \<longleftrightarrow> i \<in> set (tk_terminal_logged tk) \<or> ends_order i nu"
    using step(2) [of nu] by (auto simp: ends_order_def)
  have "recorded_outcome (os_accepts es) i [nu] = []" if "\<not> ends_order i nu"
    using that by (simp add: recorded_outcome_def)
  then show ?case
    using Cons.IH [OF es'(1)] step(3) [of i nu] logged es'(2)
    by (auto simp: recorded_outcome_Cons [of _ i nu us])
qed

text \<open>
  An order's outcome is recorded once, and it is the first one. Over any stream of status updates, in any order and with any
  repetitions, what the event store holds for an order is exactly the event of the first update that reported it filled,
  cancelled or inactive, or nothing if the store refused that one; later updates of the order add nothing.
\<close>

lemma order_outcome_first:
  assumes "os_events es = []"
  shows "outcomes_of i (fold on_trade us (new_tracker (Some es))) = recorded_outcome (os_accepts es) i us"
  using outcomes_run [of "new_tracker (Some es)" es i us] assms by (simp add: new_tracker_def outcomes_of_def)

section \<open>What a waiting caller is told\<close>

text \<open>The tracker's operations in any interleaving; \<open>h\<close> is the stream so far.\<close>

inductive lifecycle :: "trade_update list \<Rightarrow> tracker \<Rightarrow> bool" where
  started: "lifecycle [] (new_tracker es)"
| attached: "lifecycle h tk \<Longrightarrow> lifecycle h (set_event_store es tk)"
| updated: "lifecycle h tk \<Longrightarrow> lifecycle (h @ [u]) (on_trade (now, u) tk)"
| waiting: "lifecycle h tk \<Longrightarrow> begin_wait f i tk = (r, tk') \<Longrightarrow> lifecycle h tk'"
| answered: "lifecycle h tk \<Longrightarrow> end_wait f i tk = (d, tk') \<Longrightarrow> lifecycle h tk'"

definition reported :: "trade_update list \<Rightarrow> int \<Rightarrow> string \<Rightarrow> bool" where
  "reported h i d \<longleftrightarrow> (\<exists>u \<in> set h. tu_order_id u = i \<and> decisive (tu_status u) = Some d)"

definition tracker_ok :: "trade_update list \<Rightarrow> tracker \<Rightarrow> bool" where
  "tracker_ok h tk \<longleftrightarrow> (\<forall>(i, s) \<in> set (tk_status tk). \<exists>u \<in> set h. tu_order_id u = i \<and> tu_status u = s)
     \<and> (\<forall>(i, futs) \<in> set (tk_waiters tk). \<forall>(f, res) \<in> set futs. \<forall>d. res = Some d \<longrightarrow> reported h i d)"

lemma reported_snoc: "reported h i d \<Longrightarrow> reported (h @ [u]) i d"
  by (auto simp: reported_def)

lemma set_alist_update: "set (AList.update k v xs) \<subseteq> insert (k, v) (set xs)"
  by (induction xs) auto

lemma on_trade_shape:
  "tk_status (on_trade (now, u) tk) = (if tu_order_id u = 0 \<or> tu_status u = [] then tk_status tk
     else AList.update (tu_order_id u) (tu_status u) (tk_status tk))"
  "tk_waiters (on_trade (now, u) tk) = (if tu_order_id u = 0 \<or> tu_status u = [] then tk_waiters tk
     else case decisive (tu_status u) of None \<Rightarrow> tk_waiters tk
          | Some d \<Rightarrow> tk_waiters (resolve_waiters (tu_order_id u) d tk))"
  by (auto simp: on_trade_def Let_def log_terminal_def record_event_def resolve_waiters_def split: option.splits)

lemma on_trade_ok:
  assumes "tracker_ok h tk"
  shows "tracker_ok (h @ [u]) (on_trade (now, u) tk)"
proof -
  have "\<exists>v \<in> set (h @ [u]). tu_order_id v = i \<and> tu_status v = s" if "(i, s) \<in> set (tk_status (on_trade (now, u) tk))" for i s
    using that assms set_alist_update [of "tu_order_id u" "tu_status u" "tk_status tk"]
    by (force simp: on_trade_shape tracker_ok_def split: if_splits)
  moreover have "reported (h @ [u]) i d"
    if "(i, futs) \<in> set (tk_waiters (on_trade (now, u) tk))" "(f, Some d) \<in> set futs" for i futs f d
  proof -
    have old: "reported (h @ [u]) i d" if "(i, gs) \<in> set (tk_waiters tk)" "(f, Some d) \<in> set gs" for gs
      using assms that by (fastforce simp: tracker_ok_def intro: reported_snoc)
    show ?thesis
    proof (cases "\<exists>gs. (i, gs) \<in> set (tk_waiters tk) \<and> (f, Some d) \<in> set gs")
      case True
      then show ?thesis using old by blast
    next
      case False
      then have "i = tu_order_id u" "decisive (tu_status u) = Some d"
        using that by (auto simp: on_trade_shape resolve_waiters_def split: if_splits option.splits)
      then show ?thesis by (auto simp: reported_def)
    qed
  qed
  ultimately show ?thesis unfolding tracker_ok_def by fast
qed

lemma waiters_updated_ok:
  assumes ok: "tracker_ok h tk" and new: "\<And>f d. (f, Some d) \<in> set futs \<Longrightarrow> \<exists>gs. (i, gs) \<in> set (tk_waiters tk) \<and> (f, Some d) \<in> set gs"
  shows "tracker_ok h (tk\<lparr>tk_waiters := AList.update i futs (tk_waiters tk)\<rparr>)"
proof -
  have told: "reported h j d" if "(j, gs) \<in> set (tk_waiters tk)" "(f, Some d) \<in> set gs" for j gs f d
    using ok that by (fastforce simp: tracker_ok_def)
  have "reported h j d" if "(j, gs) \<in> set (AList.update i futs (tk_waiters tk))" "(f, Some d) \<in> set gs" for j gs f d
    using that set_alist_update [of i futs "tk_waiters tk"] told new [of f d] by blast
  then show ?thesis using ok by (fastforce simp: tracker_ok_def)
qed

lemma waiting_mem:
  assumes "(f, x) \<in> set (opt_or [] (map_of ws i))"
  shows "\<exists>gs. (i, gs) \<in> set ws \<and> (f, x) \<in> set gs"
  using assms by (cases "map_of ws i") (auto dest: map_of_SomeD)

lemma lifecycle_ok: "lifecycle h tk \<Longrightarrow> tracker_ok h tk"
proof (induction rule: lifecycle.induct)
  case (started es)
  then show ?case by (simp add: tracker_ok_def new_tracker_def)
next
  case (attached h tk es)
  then show ?case by (simp add: tracker_ok_def set_event_store_def)
next
  case (updated h tk u now)
  then show ?case by (simp add: on_trade_ok)
next
  case (waiting h tk f i r tk')
  have "tracker_ok h (tk\<lparr>tk_waiters := AList.update i (opt_or [] (map_of (tk_waiters tk) i) @ [(f, None)]) (tk_waiters tk)\<rparr>)"
    by (rule waiters_updated_ok [OF waiting.IH]) (auto dest: waiting_mem)
  then show ?case using waiting.IH waiting.hyps(2) by (auto simp: begin_wait_def split: option.splits)
next
  case (answered h tk f i d tk')
  have "tracker_ok h (tk\<lparr>tk_waiters := AList.update i (filter (\<lambda>x. fst x \<noteq> f) (opt_or [] (map_of (tk_waiters tk) i))) (tk_waiters tk)\<rparr>)"
    by (rule waiters_updated_ok [OF answered.IH]) (auto dest: waiting_mem)
  moreover have "tracker_ok h (tk\<lparr>tk_waiters := filter (\<lambda>x. fst x \<noteq> i) (tk_waiters tk)\<rparr>)"
    using answered.IH by (fastforce simp: tracker_ok_def)
  ultimately show ?case using answered.IH answered.hyps(2) by (auto simp: end_wait_def Let_def split: if_splits)
qed

text \<open>
  A caller that waits for an order is told the truth. Whatever updates, waits and timeouts interleave, an answer other than a
  timeout, given at once or after waiting, is the meaning of a status that the broker did report for that order.
\<close>

lemma wait_answer_reported:
  assumes "lifecycle h tk"
  shows "(begin_wait f i tk = (Some d, tk') \<longrightarrow> reported h i d)
    \<and> (end_wait f i tk = (d, tk') \<longrightarrow> d \<noteq> ''timeout'' \<longrightarrow> reported h i d)"
proof (intro conjI impI)
  note ok = lifecycle_ok [OF assms]
  assume "begin_wait f i tk = (Some d, tk')"
  then obtain s where "map_of (tk_status tk) i = Some s" "decisive s = Some d"
    by (auto simp: begin_wait_def latest_status_def split: option.splits if_splits)
  then show "reported h i d" using ok by (fastforce simp: tracker_ok_def reported_def dest: map_of_SomeD)
next
  note ok = lifecycle_ok [OF assms]
  assume "end_wait f i tk = (d, tk')" "d \<noteq> ''timeout''"
  then obtain futs where "map_of (tk_waiters tk) i = Some futs" "map_of futs f = Some (Some d)"
    by (auto simp: end_wait_def Let_def opt_or_def split: option.splits bind_splits)
  then show "reported h i d" using ok by (fastforce simp: tracker_ok_def dest: map_of_SomeD)
qed

section \<open>A concrete stream\<close>

definition demo_update :: "string \<Rightarrow> trade_update" where
  "demo_update status = \<lparr>tu_order_id = 5, tu_status = status, tu_filled = Fin 3, tu_total_quantity = Fin 10,
     tu_avg_fill_price = Fin 7, tu_order_ref = [], tu_conid = 1, tu_symbol = ''ABC'', tu_action = ''BUY''\<rparr>"

definition demo_store :: outcome_store where
  "demo_store = \<lparr>os_accepts = (\<lambda>_. True), os_events = []\<rparr>"

text \<open>The broker parks the order as inactive, then works and fills it: the fill is not recorded.\<close>

lemma order_outcome_first_example:
  "map oe_type (outcomes_of 5 (fold on_trade [(1, demo_update ''Inactive''), (2, demo_update ''Submitted''), (3, demo_update ''Filled'')]
     (new_tracker (Some demo_store)))) = [ORDER_REJECTED]"
proof -
  have "os_events demo_store = []" by (simp add: demo_store_def)
  moreover have "map oe_type (recorded_outcome (os_accepts demo_store) 5
      [(1, demo_update ''Inactive''), (2, demo_update ''Submitted''), (3, demo_update ''Filled'')]) = [ORDER_REJECTED]" by code_simp
  ultimately show ?thesis by (simp only: order_outcome_first)
qed

lemma wait_answer_reported_example:
  "\<exists>tk. lifecycle [demo_update ''Submitted''] tk \<and> fst (begin_wait 0 5 tk) = Some ''accepted''
     \<and> reported [demo_update ''Submitted''] 5 ''accepted''"
proof -
  let ?tk = "on_trade (1, demo_update ''Submitted'') (new_tracker None)"
  have run: "lifecycle [demo_update ''Submitted''] ?tk" using lifecycle.updated [OF lifecycle.started] by simp
  have told: "fst (begin_wait 0 5 ?tk) = Some ''accepted''" by code_simp
  then have "begin_wait 0 5 ?tk = (Some ''accepted'', snd (begin_wait 0 5 ?tk))" by (metis prod.collapse)
  with wait_answer_reported [OF run, of 0 5 "''accepted''"] run told show ?thesis by blast
qed

end
