(* ===== verification/Experiments.thy ===== *)
theory Experiments
  imports Domain_Journal Pyfloat
begin

text \<open>
  Experiments of \<^verbatim>\<open>src/trader/automation/experiments.py\<close> and the kill line of \<^verbatim>\<open>kill_line.py\<close>: the durable record of
  a paper run with its state machine, the table that lets one account have one running experiment, and the log of
  transitions. Every write is one unit of work of the journal. A field whose code only checks its Python type or its
  membership in a list of strings has that type here, or a datatype with one constructor for each string; the
  \<open>updated_at\<close> column, which nothing reads, is left out, and so are the texts of refusals beside their codes.
\<close>

section \<open>The record\<close>

datatype experiment_state = ARMED | PAUSED | KILLED | STOPPED
datatype kill_basis = BasisStart | BasisPeak
datatype flat_state = FlatPending | ProvenFlat | FlatFailedSafe
datatype alert_state = AlertPending | AlertEnqueued | AlertNoOutbox
datatype session_end_state = EndPending | EndRecorded | EndNoSink
datatype pause_cause = BrokerDataOutage

datatype experiment_error = ExperimentRefused string | ExperimentValueError | ConstraintViolation | DatabaseError | PortError

fun allowed_transition :: "experiment_state \<Rightarrow> experiment_state \<Rightarrow> bool" where
  "allowed_transition ARMED to = (to \<noteq> ARMED)"
| "allowed_transition PAUSED to = (to \<noteq> PAUSED)"
| "allowed_transition KILLED to = (to = STOPPED)"
| "allowed_transition STOPPED to = False"

record experiment_record =
  ex_experiment_id :: string
  ex_account_id :: string
  ex_started_at :: instant
  ex_start_net_liquidation :: pyfloat
  ex_base_currency :: string
  ex_start_usd_per_base :: pyfloat
  ex_state :: experiment_state
  ex_killed_at :: "instant option"
  ex_start_command_id :: string
  ex_start_generation_id :: int
  ex_start_fx_source :: string
  ex_config_digest :: string
  ex_styles :: "string list"
  ex_kill_drawdown_pct :: "pyfloat option"
  ex_kill_basis :: kill_basis
  ex_revision :: int
  ex_peak_net_liquidation :: pyfloat
  ex_kill_anchor_net_liquidation :: pyfloat
  ex_kill_seq :: int
  ex_kill_round :: int
  ex_kill_root_id :: "string option"
  ex_kill_flatten_root :: "string option"
  ex_kill_net_liquidation :: "pyfloat option"
  ex_kill_observed_drawdown_pct :: "pyfloat option"
  ex_kill_generation_id :: "int option"
  ex_kill_flat_state :: "flat_state option"
  ex_kill_flat_generation :: "int option"
  ex_kill_flat_at :: "instant option"
  ex_kill_alert_state :: "alert_state option"
  ex_kill_session_end_state :: "session_end_state option"
  ex_stopped_at :: "instant option"
  ex_pause_cause :: "pause_cause option"
  ex_pause_generation_id :: "int option"

definition fx_sources :: "string list" where
  "fx_sources = [''base_is_usd'', ''ib_account_values'']"

definition supported_styles :: "string list" where
  "supported_styles = [''intraday_long'']"

definition is_lower_hex :: "char \<Rightarrow> bool" where
  "is_lower_hex c \<longleftrightarrow> is_digit c \<or> (97::nat) \<le> of_char c \<and> of_char c \<le> (102::nat)"

definition is_upper_letter :: "char \<Rightarrow> bool" where
  "is_upper_letter c \<longleftrightarrow> (65::nat) \<le> of_char c \<and> of_char c \<le> (90::nat)"

definition is_experiment_id :: "string \<Rightarrow> bool" where
  "is_experiment_id s \<longleftrightarrow> take 4 s = ''exp-'' \<and> length s = 24 \<and> list_all is_lower_hex (drop 4 s)"

definition experiment_id_for :: "(string \<Rightarrow> string) \<Rightarrow> string \<Rightarrow> string \<Rightarrow> string" where
  "experiment_id_for sha256_hex account_id command_id =
     ''exp-'' @ take 20 (sha256_hex (account_id @ [CHR 0x00] @ command_id))"

definition is_positive :: "pyfloat \<Rightarrow> bool" where
  "is_positive v \<longleftrightarrow> flt_finite v \<and> flt_less (Fin 0) v"

definition none_or :: "('a \<Rightarrow> bool) \<Rightarrow> 'a option \<Rightarrow> bool" where
  "none_or P v \<longleftrightarrow> (case v of None \<Rightarrow> True | Some x \<Rightarrow> P x)"

lemma none_or_simps [simp]: "none_or P None" "none_or P (Some x) \<longleftrightarrow> P x"
  by (simp_all add: none_or_def)

text \<open>The checks of \<open>__post_init__\<close>, on construction, on \<open>replace\<close> and on every row that is read.\<close>

definition experiment_valid :: "experiment_record \<Rightarrow> bool" where
  "experiment_valid r \<longleftrightarrow>
     is_experiment_id (ex_experiment_id r) \<and> ex_account_id r \<noteq> [] \<and> ex_start_command_id r \<noteq> [] \<and> ex_config_digest r \<noteq> []
     \<and> is_positive (ex_start_net_liquidation r) \<and> is_positive (ex_start_usd_per_base r)
     \<and> is_positive (ex_peak_net_liquidation r) \<and> is_positive (ex_kill_anchor_net_liquidation r)
     \<and> length (ex_base_currency r) = 3 \<and> list_all is_upper_letter (ex_base_currency r)
     \<and> ex_start_fx_source r \<in> set fx_sources
     \<and> ex_styles r \<noteq> [] \<and> set (ex_styles r) \<subseteq> set supported_styles
     \<and> none_or (\<lambda>p. flt_finite p \<and> flt_less (Fin 0) p \<and> flt_less p (Fin 100)) (ex_kill_drawdown_pct r)
     \<and> 0 \<le> ex_start_generation_id r \<and> 1 \<le> ex_revision r \<and> 0 \<le> ex_kill_seq r \<and> 0 \<le> ex_kill_round r
     \<and> none_or (\<lambda>s. s \<noteq> []) (ex_kill_root_id r) \<and> none_or (\<lambda>s. s \<noteq> []) (ex_kill_flatten_root r)
     \<and> none_or is_positive (ex_kill_net_liquidation r) \<and> none_or flt_finite (ex_kill_observed_drawdown_pct r)
     \<and> none_or (\<lambda>g. 0 \<le> g) (ex_kill_generation_id r) \<and> none_or (\<lambda>g. 0 \<le> g) (ex_kill_flat_generation r)
     \<and> none_or (\<lambda>g. 0 \<le> g) (ex_pause_generation_id r)"

definition experiment_post_init :: "experiment_record \<Rightarrow> experiment_error + experiment_record" where
  "experiment_post_init r = (if experiment_valid r then Inr r else Inl ExperimentValueError)"

section \<open>The columns a write may change\<close>

text \<open>\<open>OtherColumn\<close> stands for every column outside \<open>KILL_COLUMNS\<close>.\<close>

datatype column_change =
    KilledAt "instant option" | KillSeq int | KillRound int | KillRootId "string option"
  | KillFlattenRoot "string option" | KillNetLiquidation "pyfloat option" | KillObservedDrawdownPct "pyfloat option"
  | KillGenerationId "int option" | KillFlatState "flat_state option" | KillFlatGeneration "int option"
  | KillFlatAt "instant option" | KillAlertState "alert_state option"
  | KillSessionEndState "session_end_state option" | PeakNetLiquidation pyfloat
  | PauseCause "pause_cause option" | PauseGenerationId "int option" | OtherColumn string

fun apply_change :: "column_change \<Rightarrow> experiment_record \<Rightarrow> experiment_record" where
  "apply_change (KilledAt v) r = r\<lparr>ex_killed_at := v\<rparr>"
| "apply_change (KillSeq v) r = r\<lparr>ex_kill_seq := v\<rparr>"
| "apply_change (KillRound v) r = r\<lparr>ex_kill_round := v\<rparr>"
| "apply_change (KillRootId v) r = r\<lparr>ex_kill_root_id := v\<rparr>"
| "apply_change (KillFlattenRoot v) r = r\<lparr>ex_kill_flatten_root := v\<rparr>"
| "apply_change (KillNetLiquidation v) r = r\<lparr>ex_kill_net_liquidation := v\<rparr>"
| "apply_change (KillObservedDrawdownPct v) r = r\<lparr>ex_kill_observed_drawdown_pct := v\<rparr>"
| "apply_change (KillGenerationId v) r = r\<lparr>ex_kill_generation_id := v\<rparr>"
| "apply_change (KillFlatState v) r = r\<lparr>ex_kill_flat_state := v\<rparr>"
| "apply_change (KillFlatGeneration v) r = r\<lparr>ex_kill_flat_generation := v\<rparr>"
| "apply_change (KillFlatAt v) r = r\<lparr>ex_kill_flat_at := v\<rparr>"
| "apply_change (KillAlertState v) r = r\<lparr>ex_kill_alert_state := v\<rparr>"
| "apply_change (KillSessionEndState v) r = r\<lparr>ex_kill_session_end_state := v\<rparr>"
| "apply_change (PeakNetLiquidation v) r = r\<lparr>ex_peak_net_liquidation := v\<rparr>"
| "apply_change (PauseCause v) r = r\<lparr>ex_pause_cause := v\<rparr>"
| "apply_change (PauseGenerationId v) r = r\<lparr>ex_pause_generation_id := v\<rparr>"
| "apply_change (OtherColumn _) r = r"

definition apply_changes :: "column_change list \<Rightarrow> experiment_record \<Rightarrow> experiment_record" where
  "apply_changes changes r = fold apply_change changes r"

definition is_kill_column :: "column_change \<Rightarrow> bool" where
  "is_kill_column c \<longleftrightarrow> (case c of OtherColumn _ \<Rightarrow> False | _ \<Rightarrow> True)"

definition check_changes :: "column_change list \<Rightarrow> experiment_error + unit" where
  "check_changes changes = check (list_all is_kill_column changes) ExperimentValueError"

section \<open>The tables\<close>

record experiment_transition =
  tn_experiment_id :: string
  tn_revision :: int
  tn_from_state :: "experiment_state option"
  tn_to_state :: experiment_state
  tn_principal :: string
  tn_command_id :: "string option"
  tn_reason :: string
  tn_changes :: "column_change list"
  tn_entries_in_flight :: "string list option"
  tn_at :: instant

text \<open>The columns of \<open>automated_order_sagas\<close> that a pause reads: \<open>send_attempted_at\<close> and \<open>send_returned_at\<close> are members of
  its payload.\<close>

record order_send =
  os_command_id :: string
  os_account_id :: string
  os_send_attempted_at :: "instant option"
  os_send_returned_at :: "instant option"

text \<open>\<open>xt_sends\<close> and \<open>xt_decisions\<close> (command id and action) are None while their tables do not exist.\<close>

record experiment_tables =
  xt_experiments :: "experiment_record list"
  xt_active :: "(string \<times> string) list"
  xt_transitions :: "experiment_transition list"
  xt_sends :: "order_send list option"
  xt_decisions :: "(string \<times> string) list option"

type_synonym experiment_db = "experiment_tables journal_db"
type_synonym 'a tx_result = "experiment_error + ('a \<times> experiment_tables)"

record experiment_store =
  st_account_id :: string
  st_process_started_at :: instant

definition get_in_tx :: "experiment_tables \<Rightarrow> string \<Rightarrow> experiment_error + experiment_record option" where
  "get_in_tx t experiment_id =
     (case fetchone (filter (\<lambda>r. ex_experiment_id r = experiment_id) (xt_experiments t)) of
        None \<Rightarrow> Inr None | Some row \<Rightarrow> map_sum id Some (experiment_post_init row))"

text \<open>\<open>ORDER BY started_at DESC, rowid DESC LIMIT 1\<close>: the last of the rows that started last.\<close>

definition newest :: "experiment_record list \<Rightarrow> experiment_record option" where
  "newest rows = fold (\<lambda>r best. case best of None \<Rightarrow> Some r
     | Some b \<Rightarrow> if ex_started_at b \<le> ex_started_at r then Some r else Some b) rows None"

definition experiment_latest_in_tx :: "experiment_store \<Rightarrow> experiment_tables \<Rightarrow> experiment_error + experiment_record option" where
  "experiment_latest_in_tx st t =
     (case newest (filter (\<lambda>r. ex_account_id r = st_account_id st) (xt_experiments t)) of
        None \<Rightarrow> Inr None | Some row \<Rightarrow> map_sum id Some (experiment_post_init row))"

definition active_in_tx :: "experiment_store \<Rightarrow> experiment_tables \<Rightarrow> experiment_error + experiment_record option" where
  "active_in_tx st t =
     (case fetchone (filter (\<lambda>row. fst row = st_account_id st) (xt_active t)) of
        None \<Rightarrow> Inr None | Some row \<Rightarrow> get_in_tx t (snd row))"

definition require_in_tx :: "experiment_store \<Rightarrow> experiment_tables \<Rightarrow> string \<Rightarrow> experiment_error + experiment_record" where
  "require_in_tx st t experiment_id =
     bind_sum (get_in_tx t experiment_id) (\<lambda>current.
       case current of None \<Rightarrow> Inl (ExperimentRefused ''NO_EXPERIMENT'')
       | Some r \<Rightarrow> if ex_account_id r \<noteq> st_account_id st then Inl (ExperimentRefused ''NO_EXPERIMENT'') else Inr r)"

definition transitions_of :: "experiment_tables \<Rightarrow> string \<Rightarrow> experiment_transition list" where
  "transitions_of t experiment_id = sort_key tn_revision (filter (\<lambda>x. tn_experiment_id x = experiment_id) (xt_transitions t))"

definition committed_transition ::
    "experiment_store \<Rightarrow> experiment_tables \<Rightarrow> string
     \<Rightarrow> experiment_error + (experiment_record \<times> int \<times> experiment_state) option" where
  "committed_transition st t command_id =
     (case filter (\<lambda>x. tn_command_id x = Some command_id) (xt_transitions t) of
        [] \<Rightarrow> Inr None
      | [x] \<Rightarrow> bind_sum (require_in_tx st t (tn_experiment_id x)) (\<lambda>r. Inr (Some (r, tn_revision x, tn_to_state x)))
      | _ \<Rightarrow> Inl ExperimentValueError)"

definition entries_in_flight_at_pause :: "experiment_tables \<Rightarrow> string \<Rightarrow> int \<Rightarrow> string list" where
  "entries_in_flight_at_pause t experiment_id revision =
     (case fetchone (filter (\<lambda>x. tn_experiment_id x = experiment_id \<and> tn_revision x = revision) (xt_transitions t)) of
        None \<Rightarrow> [] | Some x \<Rightarrow> opt_or [] (tn_entries_in_flight x))"

text \<open>\<open>unreturned_send_sql\<close>: the send started in this process and has not returned.\<close>

definition unreturned_send :: "instant \<Rightarrow> order_send \<Rightarrow> bool" where
  "unreturned_send process_started_at s \<longleftrightarrow>
     (case os_send_attempted_at s of None \<Rightarrow> False | Some at' \<Rightarrow> os_send_returned_at s = None \<and> process_started_at \<le> at')"

definition entries_being_sent_in_tx :: "experiment_store \<Rightarrow> experiment_tables \<Rightarrow> string list" where
  "entries_being_sent_in_tx st t =
     (case (xt_sends t, xt_decisions t) of
        (Some sends, Some decisions) \<Rightarrow>
          sort (map (\<lambda>(s, d). os_command_id s)
            (filter (\<lambda>(s, d). fst d = os_command_id s \<and> os_account_id s = st_account_id st \<and> snd d = ''ENTER''
                \<and> unreturned_send (st_process_started_at st) s) (List.product sends decisions)))
      | _ \<Rightarrow> [])"

section \<open>The writes\<close>

text \<open>\<open>_write\<close>: one unit of work of the journal that appends no event.\<close>

definition store_write :: "(experiment_tables \<Rightarrow> 'a tx_result) \<Rightarrow> experiment_db \<Rightarrow> (experiment_error + 'a) \<times> experiment_db" where
  "store_write tx db =
     (case mutate_batch_work (\<lambda>d. case tx (jd_prod d) of
               Inl e \<Rightarrow> (Inl (Raised e), d) | Inr (x, t) \<Rightarrow> (Inr x, d\<lparr>jd_prod := t\<rparr>)) db of
        (Inl (Raised e), db') \<Rightarrow> (Inl e, db') | (Inl _, db') \<Rightarrow> (Inl DatabaseError, db') | (Inr x, db') \<Rightarrow> (Inr x, db'))"

definition append_in_tx :: "experiment_transition \<Rightarrow> experiment_tables \<Rightarrow> experiment_error + experiment_tables" where
  "append_in_tx x t =
     (if \<exists>y \<in> set (xt_transitions t). tn_experiment_id y = tn_experiment_id x \<and> tn_revision y = tn_revision x
      then Inl ConstraintViolation else Inr (t\<lparr>xt_transitions := xt_transitions t @ [x]\<rparr>))"

definition insert_row_in_tx :: "experiment_record \<Rightarrow> experiment_tables \<Rightarrow> experiment_error + experiment_tables" where
  "insert_row_in_tx r t =
     (if (\<exists>x \<in> set (xt_experiments t). ex_experiment_id x = ex_experiment_id r \<or> ex_start_command_id x = ex_start_command_id r)
         \<or> (\<exists>a \<in> set (xt_active t). fst a = ex_account_id r \<or> snd a = ex_experiment_id r)
      then Inl ConstraintViolation
      else Inr (t\<lparr>xt_experiments := xt_experiments t @ [r], xt_active := xt_active t @ [(ex_account_id r, ex_experiment_id r)]\<rparr>))"

text \<open>A read that has to find the row it has just written; the code hands on what \<open>_get_in_tx\<close> returns.\<close>

definition read_back :: "string \<Rightarrow> experiment_tables \<Rightarrow> experiment_record tx_result" where
  "read_back experiment_id t =
     bind_sum (get_in_tx t experiment_id) (\<lambda>r. case r of None \<Rightarrow> Inl DatabaseError | Some x \<Rightarrow> Inr (x, t))"

definition insert_armed_tx :: "experiment_record \<Rightarrow> string \<Rightarrow> string \<Rightarrow> instant \<Rightarrow> experiment_tables \<Rightarrow> experiment_record tx_result" where
  "insert_armed_tx r who reason now t =
     bind_sum (get_in_tx t (ex_experiment_id r)) (\<lambda>own.
       case own of Some x \<Rightarrow> Inr (x, t)
       | None \<Rightarrow>
           if \<exists>a \<in> set (xt_active t). fst a = ex_account_id r then Inl (ExperimentRefused ''EXPERIMENT_ACTIVE'')
           else bind_sum (insert_row_in_tx r t) (\<lambda>t1.
             bind_sum (append_in_tx \<lparr>tn_experiment_id = ex_experiment_id r, tn_revision = 1, tn_from_state = None,
                 tn_to_state = ARMED, tn_principal = who, tn_command_id = Some (ex_start_command_id r),
                 tn_reason = reason, tn_changes = [], tn_entries_in_flight = None, tn_at = now\<rparr> t1) (\<lambda>t2.
               read_back (ex_experiment_id r) t2)))"

definition insert_armed ::
    "experiment_store \<Rightarrow> experiment_record \<Rightarrow> string \<Rightarrow> string \<Rightarrow> instant \<Rightarrow> experiment_db
     \<Rightarrow> (experiment_error + experiment_record) \<times> experiment_db" where
  "insert_armed st r who reason now db =
     (if ex_state r \<noteq> ARMED \<or> ex_revision r \<noteq> 1 \<or> ex_account_id r \<noteq> st_account_id st then (Inl ExperimentValueError, db)
      else case store_write (insert_armed_tx r who reason now) db of
             (Inl ConstraintViolation, db') \<Rightarrow> (Inl (ExperimentRefused ''EXPERIMENT_ACTIVE''), db')
           | res \<Rightarrow> res)"

text \<open>\<open>_write_in_tx\<close>: the compare-and-set update; \<open>with_mutable_of\<close> is its list of assignments.\<close>

definition with_mutable_of :: "experiment_record \<Rightarrow> experiment_record \<Rightarrow> experiment_record" where
  "with_mutable_of r x = x\<lparr>ex_state := ex_state r, ex_revision := ex_revision r, ex_stopped_at := ex_stopped_at r,
     ex_killed_at := ex_killed_at r, ex_kill_seq := ex_kill_seq r, ex_kill_round := ex_kill_round r,
     ex_kill_root_id := ex_kill_root_id r, ex_kill_flatten_root := ex_kill_flatten_root r,
     ex_kill_net_liquidation := ex_kill_net_liquidation r,
     ex_kill_observed_drawdown_pct := ex_kill_observed_drawdown_pct r,
     ex_kill_generation_id := ex_kill_generation_id r, ex_kill_flat_state := ex_kill_flat_state r,
     ex_kill_flat_generation := ex_kill_flat_generation r, ex_kill_flat_at := ex_kill_flat_at r,
     ex_kill_alert_state := ex_kill_alert_state r, ex_kill_session_end_state := ex_kill_session_end_state r,
     ex_peak_net_liquidation := ex_peak_net_liquidation r, ex_pause_cause := ex_pause_cause r,
     ex_pause_generation_id := ex_pause_generation_id r\<rparr>"

definition write_in_tx ::
    "experiment_record \<Rightarrow> experiment_state \<Rightarrow> int \<Rightarrow> experiment_tables \<Rightarrow> experiment_error + experiment_tables" where
  "write_in_tx r expect_state expect_revision t =
     (let hit = (\<lambda>x. ex_experiment_id x = ex_experiment_id r \<and> ex_state x = expect_state \<and> ex_revision x = expect_revision)
      in if \<exists>x \<in> set (xt_experiments t). hit x
         then Inr (t\<lparr>xt_experiments := update_where hit (with_mutable_of r) (xt_experiments t)\<rparr>)
         else Inl (ExperimentRefused ''EXPERIMENT_STATE_CHANGED''))"

text \<open>The arguments of \<open>transition\<close> beside the experiment.\<close>

record transition_request =
  tq_expected :: "experiment_state list"
  tq_to :: experiment_state
  tq_principal :: string
  tq_command_id :: "string option"
  tq_reason :: string
  tq_changes :: "column_change list"

definition transition_tx ::
    "experiment_store \<Rightarrow> string \<Rightarrow> transition_request \<Rightarrow> instant \<Rightarrow> experiment_tables \<Rightarrow> experiment_record tx_result" where
  "transition_tx st experiment_id q now t =
     bind_sum (require_in_tx st t experiment_id) (\<lambda>current.
       if ex_state current \<notin> set (tq_expected q) then Inl (ExperimentRefused ''EXPERIMENT_STATE_CHANGED'')
       else if \<not> allowed_transition (ex_state current) (tq_to q) then Inl (ExperimentRefused ''ILLEGAL_TRANSITION'')
       else bind_sum (experiment_post_init
             ((if tq_to q = STOPPED then (\<lambda>r. r\<lparr>ex_stopped_at := Some now\<rparr>) else id)
               (apply_changes (tq_changes q) (current\<lparr>ex_state := tq_to q, ex_revision := ex_revision current + 1\<rparr>)))) (\<lambda>updated.
         bind_sum (write_in_tx updated (ex_state current) (ex_revision current) t) (\<lambda>t1.
         let t2 = (if tq_to q = STOPPED
                   then t1\<lparr>xt_active := filter (\<lambda>a. snd a \<noteq> experiment_id) (xt_active t1)\<rparr> else t1);
             sent = (if tq_to q = PAUSED then Some (entries_being_sent_in_tx st t2) else None)
         in bind_sum (append_in_tx \<lparr>tn_experiment_id = experiment_id, tn_revision = ex_revision updated,
                tn_from_state = Some (ex_state current), tn_to_state = tq_to q, tn_principal = tq_principal q,
                tn_command_id = tq_command_id q, tn_reason = tq_reason q, tn_changes = tq_changes q,
                tn_entries_in_flight = sent, tn_at = now\<rparr> t2) (\<lambda>t3. read_back experiment_id t3))))"

definition exp_transition ::
    "experiment_store \<Rightarrow> string \<Rightarrow> transition_request \<Rightarrow> instant \<Rightarrow> experiment_db
     \<Rightarrow> (experiment_error + experiment_record) \<times> experiment_db" where
  "exp_transition st experiment_id q now db =
     (case check_changes (tq_changes q) of
        Inl e \<Rightarrow> (Inl e, db)
      | Inr _ \<Rightarrow> store_write (transition_tx st experiment_id q now) db)"

definition kill_progress_tx ::
    "experiment_store \<Rightarrow> string \<Rightarrow> experiment_state \<Rightarrow> column_change list \<Rightarrow> experiment_tables \<Rightarrow> experiment_record tx_result" where
  "kill_progress_tx st experiment_id expected_state changes t =
     bind_sum (require_in_tx st t experiment_id) (\<lambda>current.
       if ex_state current \<noteq> expected_state then Inl (ExperimentRefused ''EXPERIMENT_STATE_CHANGED'')
       else bind_sum (experiment_post_init (apply_changes changes current)) (\<lambda>updated.
         bind_sum (write_in_tx updated (ex_state current) (ex_revision current) t) (\<lambda>t1. read_back experiment_id t1)))"

definition update_kill_progress ::
    "experiment_store \<Rightarrow> string \<Rightarrow> experiment_state \<Rightarrow> column_change list \<Rightarrow> experiment_db
     \<Rightarrow> (experiment_error + experiment_record) \<times> experiment_db" where
  "update_kill_progress st experiment_id expected_state changes db =
     (case check_changes changes of
        Inl e \<Rightarrow> (Inl e, db) | Inr _ \<Rightarrow> store_write (kill_progress_tx st experiment_id expected_state changes) db)"

definition raise_peak_tx :: "experiment_store \<Rightarrow> string \<Rightarrow> pyfloat \<Rightarrow> experiment_tables \<Rightarrow> pyfloat tx_result" where
  "raise_peak_tx st experiment_id v t =
     bind_sum (require_in_tx st t experiment_id) (\<lambda>current.
       if flt_less (ex_peak_net_liquidation current) v
       then Inr (v, t\<lparr>xt_experiments := update_where (\<lambda>x. ex_experiment_id x = experiment_id)
                        (\<lambda>x. x\<lparr>ex_peak_net_liquidation := v\<rparr>) (xt_experiments t)\<rparr>)
       else Inr (ex_peak_net_liquidation current, t))"

definition raise_peak ::
    "experiment_store \<Rightarrow> string \<Rightarrow> pyfloat \<Rightarrow> experiment_db \<Rightarrow> (experiment_error + pyfloat) \<times> experiment_db" where
  "raise_peak st experiment_id net_liquidation db =
     (if \<not> is_positive net_liquidation then (Inl ExperimentValueError, db)
      else store_write (raise_peak_tx st experiment_id net_liquidation) db)"

section \<open>The kill line\<close>

record kill_line =
  kl_pct :: pyfloat
  kl_basis :: kill_basis

record kill_evaluation =
  ke_hit :: bool
  ke_reference :: pyfloat
  ke_net_liquidation :: pyfloat
  ke_drawdown_pct :: pyfloat

text \<open>\<open>configured\<close> is \<open>experiment_kill_drawdown_pct\<close> of the configuration loaded at process start.\<close>

definition effective_kill_line :: "pyfloat option \<Rightarrow> experiment_record \<Rightarrow> kill_line option" where
  "effective_kill_line configured r =
     (case (ex_kill_drawdown_pct r, configured) of
        (None, None) \<Rightarrow> None
      | (Some p, None) \<Rightarrow> Some \<lparr>kl_pct = p, kl_basis = ex_kill_basis r\<rparr>
      | (None, Some c) \<Rightarrow> Some \<lparr>kl_pct = c, kl_basis = ex_kill_basis r\<rparr>
      | (Some p, Some c) \<Rightarrow> Some \<lparr>kl_pct = flt_min p c, kl_basis = ex_kill_basis r\<rparr>)"

text \<open>None: \<open>KillLineInputError\<close>.\<close>

definition evaluate_kill_line ::
    "(rat \<Rightarrow> pyfloat) \<Rightarrow> kill_line \<Rightarrow> pyfloat \<Rightarrow> pyfloat \<Rightarrow> pyfloat \<Rightarrow> kill_evaluation option" where
  "evaluate_kill_line rnd line anchor peak net_liquidation =
     (if \<not> (is_positive anchor \<and> is_positive peak \<and> is_positive net_liquidation) then None
      else let reference = (case kl_basis line of BasisStart \<Rightarrow> anchor | BasisPeak \<Rightarrow> flt_max peak anchor)
           in map_option (\<lambda>ratio. let drawdown = flt_mul rnd ratio (Fin 100)
                in \<lparr>ke_hit = flt_le (kl_pct line) drawdown, ke_reference = reference,
                    ke_net_liquidation = net_liquidation, ke_drawdown_pct = drawdown\<rparr>)
              (flt_div rnd (flt_sub rnd reference net_liquidation) reference))"

section \<open>What never changes\<close>

definition same_start :: "experiment_record \<Rightarrow> experiment_record \<Rightarrow> bool" where
  "same_start r x \<longleftrightarrow> ex_experiment_id r = ex_experiment_id x \<and> ex_account_id r = ex_account_id x
     \<and> ex_started_at r = ex_started_at x \<and> ex_start_net_liquidation r = ex_start_net_liquidation x
     \<and> ex_base_currency r = ex_base_currency x \<and> ex_start_usd_per_base r = ex_start_usd_per_base x
     \<and> ex_start_command_id r = ex_start_command_id x \<and> ex_start_generation_id r = ex_start_generation_id x
     \<and> ex_start_fx_source r = ex_start_fx_source x \<and> ex_config_digest r = ex_config_digest x \<and> ex_styles r = ex_styles x
     \<and> ex_kill_drawdown_pct r = ex_kill_drawdown_pct x \<and> ex_kill_basis r = ex_kill_basis x
     \<and> ex_kill_anchor_net_liquidation r = ex_kill_anchor_net_liquidation x"

lemma same_start_refl [simp]: "same_start r r"
  by (simp add: same_start_def)

lemma same_start_trans: "same_start a b \<Longrightarrow> same_start b c \<Longrightarrow> same_start a c"
  by (simp add: same_start_def)

lemma with_mutable_same: "same_start r x \<Longrightarrow> with_mutable_of r x = r"
  by (cases r; cases x) (simp add: same_start_def with_mutable_of_def)

lemma apply_change_keeps:
  "same_start (apply_change c r) r" "ex_state (apply_change c r) = ex_state r"
  "ex_revision (apply_change c r) = ex_revision r" "ex_stopped_at (apply_change c r) = ex_stopped_at r"
  by (cases c; simp add: same_start_def)+

lemma apply_changes_keeps:
  "same_start (apply_changes cs r) r" "ex_state (apply_changes cs r) = ex_state r"
  "ex_revision (apply_changes cs r) = ex_revision r"
proof -
  have "same_start (fold apply_change cs r) r \<and> ex_state (fold apply_change cs r) = ex_state r
      \<and> ex_revision (fold apply_change cs r) = ex_revision r" for r
    by (induction cs arbitrary: r) (simp, metis apply_change_keeps fold_simps(2) same_start_trans)
  then show "same_start (apply_changes cs r) r" "ex_state (apply_changes cs r) = ex_state r"
    "ex_revision (apply_changes cs r) = ex_revision r" by (simp_all add: apply_changes_def)
qed

section \<open>Units of work\<close>

lemma store_write_eq:
  "store_write tx db = (case tx (jd_prod db) of Inl e \<Rightarrow> (Inl e, db)
     | Inr (x, t) \<Rightarrow> (Inr x, db\<lparr>jd_open_events := [], jd_prod := t\<rparr>))"
  by (simp add: store_write_def mutate_batch_work_def split: sum.splits prod.splits)

lemma store_write_cases:
  assumes "store_write tx db = (res, db')"
  obtains (failed) e where "tx (jd_prod db) = Inl e" and "res = Inl e" and "db' = db"
  | (committed) x t where "tx (jd_prod db) = Inr (x, t)" and "res = Inr x" and "jd_prod db' = t"
  using assms by (auto simp: store_write_eq split: sum.splits prod.splits)

lemma post_init_Inr [simp]: "experiment_post_init r = Inr x \<longleftrightarrow> experiment_valid r \<and> x = r"
  by (auto simp: experiment_post_init_def)

lemma get_in_tx_Some: "get_in_tx t i = Inr (Some r) \<Longrightarrow> r \<in> set (xt_experiments t) \<and> ex_experiment_id r = i \<and> experiment_valid r"
  by (auto simp: get_in_tx_def experiment_post_init_def map_sum_def split: option.splits if_splits dest: fetchone_filter_SomeD)

lemma get_in_tx_None: "get_in_tx t i = Inr None \<Longrightarrow> \<forall>r \<in> set (xt_experiments t). ex_experiment_id r \<noteq> i"
  by (auto simp: get_in_tx_def fetchone_filter_None experiment_post_init_def filter_empty_conv split: option.splits if_splits)

lemma require_in_tx_Inr:
  "require_in_tx st t i = Inr r \<Longrightarrow>
     r \<in> set (xt_experiments t) \<and> ex_experiment_id r = i \<and> experiment_valid r \<and> ex_account_id r = st_account_id st"
  by (auto simp: require_in_tx_def bind_sum_Inr split: option.splits if_splits dest: get_in_tx_Some)

section \<open>The invariant\<close>

text \<open>A log of transitions that leads from one state to another along allowed edges; None is before the start.\<close>

fun exp_edge :: "experiment_state option \<Rightarrow> experiment_state \<Rightarrow> bool" where
  "exp_edge None to = (to = ARMED)"
| "exp_edge (Some s) to = allowed_transition s to"

fun walk :: "experiment_state option \<Rightarrow> experiment_transition list \<Rightarrow> experiment_state option \<Rightarrow> bool" where
  "walk s [] u = (s = u)"
| "walk s (x # xs) u = (tn_from_state x = s \<and> exp_edge s (tn_to_state x) \<and> walk (Some (tn_to_state x)) xs u)"

lemma walk_snoc:
  "walk s (xs @ [x]) u \<longleftrightarrow> walk s xs (tn_from_state x) \<and> exp_edge (tn_from_state x) (tn_to_state x) \<and> u = Some (tn_to_state x)"
  by (induction xs arbitrary: s) auto

definition history :: "experiment_tables \<Rightarrow> string \<Rightarrow> experiment_transition list" where
  "history t i = filter (\<lambda>x. tn_experiment_id x = i) (xt_transitions t)"

definition history_ok :: "experiment_tables \<Rightarrow> experiment_record \<Rightarrow> bool" where
  "history_ok t r \<longleftrightarrow> map tn_revision (history t (ex_experiment_id r)) = [1..ex_revision r]
     \<and> walk None (history t (ex_experiment_id r)) (Some (ex_state r))"

definition exp_inv :: "experiment_tables \<Rightarrow> bool" where
  "exp_inv t \<longleftrightarrow>
     (\<forall>r \<in> set (xt_experiments t). experiment_valid r \<and> history_ok t r)
     \<and> distinct (map ex_experiment_id (xt_experiments t)) \<and> distinct (map fst (xt_active t))
     \<and> (\<forall>a i. (a, i) \<in> set (xt_active t)
          \<longleftrightarrow> (\<exists>r \<in> set (xt_experiments t). ex_account_id r = a \<and> ex_experiment_id r = i \<and> ex_state r \<noteq> STOPPED))
     \<and> (\<forall>x \<in> set (xt_transitions t). \<exists>r \<in> set (xt_experiments t). ex_experiment_id r = tn_experiment_id x)"

lemma exp_inv_row: "exp_inv t \<Longrightarrow> r \<in> set (xt_experiments t) \<Longrightarrow> experiment_valid r \<and> history_ok t r"
  by (simp add: exp_inv_def)

lemma exp_inv_unique:
  assumes "exp_inv t" and "r \<in> set (xt_experiments t)" and "x \<in> set (xt_experiments t)"
    and "ex_experiment_id r = ex_experiment_id x"
  shows "r = x"
  using assms by (auto simp: exp_inv_def distinct_map inj_on_def)

lemma exp_inv_fetch:
  assumes "exp_inv t" and "r \<in> set (xt_experiments t)"
  shows "get_in_tx t (ex_experiment_id r) = Inr (Some r)"
  using assms fetchone_key [of ex_experiment_id "xt_experiments t" r] exp_inv_row [OF assms]
  by (simp add: get_in_tx_def exp_inv_def experiment_post_init_def)

text \<open>How far a state may go, and how the tables grow.\<close>

definition row_ahead :: "experiment_record \<Rightarrow> experiment_record \<Rightarrow> bool" where
  "row_ahead r x \<longleftrightarrow> same_start x r \<and> ex_revision r \<le> ex_revision x \<and> (ex_revision x = ex_revision r \<longrightarrow> ex_state x = ex_state r)
     \<and> (ex_state r = KILLED \<longrightarrow> ex_state x \<in> {KILLED, STOPPED}) \<and> (ex_state r = STOPPED \<longrightarrow> ex_state x = STOPPED)"

definition exp_ahead :: "experiment_tables \<Rightarrow> experiment_tables \<Rightarrow> bool" where
  "exp_ahead t u \<longleftrightarrow> (\<exists>new. xt_transitions u = xt_transitions t @ new)
     \<and> (\<forall>r \<in> set (xt_experiments t). \<exists>x \<in> set (xt_experiments u). row_ahead r x)"

lemma row_ahead_refl [simp]: "row_ahead r r"
  by (simp add: row_ahead_def)

lemma row_ahead_trans: "row_ahead a b \<Longrightarrow> row_ahead b c \<Longrightarrow> row_ahead a c"
  unfolding row_ahead_def by (auto intro: same_start_trans)

lemma exp_ahead_refl [simp]: "exp_ahead t t"
  by (auto simp: exp_ahead_def intro: row_ahead_refl)

lemma exp_ahead_trans: "exp_ahead a b \<Longrightarrow> exp_ahead b c \<Longrightarrow> exp_ahead a c"
  unfolding exp_ahead_def by (metis append_assoc row_ahead_trans)

section \<open>Replacing a row\<close>

definition put_row :: "experiment_record \<Rightarrow> experiment_tables \<Rightarrow> experiment_tables" where
  "put_row u t = t\<lparr>xt_experiments := update_where (\<lambda>x. ex_experiment_id x = ex_experiment_id u) (\<lambda>_. u) (xt_experiments t)\<rparr>"

lemma put_row_rows:
  assumes "exp_inv t" and "r \<in> set (xt_experiments t)" and "same_start u r"
  shows "set (xt_experiments (put_row u t)) = insert u (set (xt_experiments t) - {r})"
proof -
  have "ex_experiment_id u = ex_experiment_id r" using assms(3) by (simp add: same_start_def)
  then have "\<And>x. x \<in> set (xt_experiments t) \<Longrightarrow> ex_experiment_id x = ex_experiment_id u \<longleftrightarrow> x = r"
    using exp_inv_unique [OF assms(1)] assms(2) by auto
  then show ?thesis using assms(2) by (auto simp: put_row_def set_update_where image_iff)
qed

lemma put_row_ids: "map ex_experiment_id (xt_experiments (put_row u t)) = map ex_experiment_id (xt_experiments t)"
  by (simp add: put_row_def update_where_def)

lemma put_row_simps [simp]:
  "xt_active (put_row u t) = xt_active t" "xt_transitions (put_row u t) = xt_transitions t"
  "xt_sends (put_row u t) = xt_sends t" "xt_decisions (put_row u t) = xt_decisions t"
  by (simp_all add: put_row_def)

lemma write_in_tx_put:
  assumes "exp_inv t" and "r \<in> set (xt_experiments t)" and "same_start u r"
  shows "write_in_tx u (ex_state r) (ex_revision r) t = Inr (put_row u t)"
proof -
  have id: "ex_experiment_id u = ex_experiment_id r" using assms(3) by (simp add: same_start_def)
  have only: "\<And>x. x \<in> set (xt_experiments t) \<Longrightarrow> ex_experiment_id x = ex_experiment_id u \<longleftrightarrow> x = r"
    using exp_inv_unique [OF assms(1)] assms(2) id by auto
  have "update_where (\<lambda>x. ex_experiment_id x = ex_experiment_id u \<and> ex_state x = ex_state r \<and> ex_revision x = ex_revision r)
      (with_mutable_of u) (xt_experiments t) = update_where (\<lambda>x. ex_experiment_id x = ex_experiment_id u) (\<lambda>_. u) (xt_experiments t)"
    unfolding update_where_def using only with_mutable_same [OF assms(3)] by (intro map_cong refl) (metis (no_types, lifting))
  then show ?thesis using assms(2) id by (auto simp: write_in_tx_def put_row_def Let_def)
qed

lemma put_row_history: "history (put_row u t) = history t"
  by (simp add: history_def fun_eq_iff)

lemma put_row_inv:
  assumes inv: "exp_inv t" and r: "r \<in> set (xt_experiments t)" and same: "same_start u r" and valid: "experiment_valid u"
    and st: "ex_state u = ex_state r" "ex_revision u = ex_revision r"
  shows "exp_inv (put_row u t)" and "exp_ahead t (put_row u t)"
proof -
  note rows = put_row_rows [OF inv r same]
  have hist: "history_ok (put_row u t) x = history_ok t x" for x by (simp add: history_ok_def put_row_history)
  have ids: "ex_experiment_id u = ex_experiment_id r" "ex_account_id u = ex_account_id r" using same by (simp_all add: same_start_def)
  have "history_ok t u" using exp_inv_row [OF inv r] ids st by (simp add: history_ok_def)
  moreover have "(\<exists>x \<in> insert u (set (xt_experiments t) - {r}). ex_account_id x = a \<and> ex_experiment_id x = i \<and> ex_state x \<noteq> STOPPED)
      \<longleftrightarrow> (\<exists>x \<in> set (xt_experiments t). ex_account_id x = a \<and> ex_experiment_id x = i \<and> ex_state x \<noteq> STOPPED)" for a i
    using r ids st by auto
  moreover have "(\<exists>x \<in> insert u (set (xt_experiments t) - {r}). ex_experiment_id x = i)
      \<longleftrightarrow> (\<exists>x \<in> set (xt_experiments t). ex_experiment_id x = i)" for i using r ids by auto
  ultimately show "exp_inv (put_row u t)" using inv valid unfolding exp_inv_def rows hist put_row_ids by simp
  have "row_ahead r u" using same st by (simp add: row_ahead_def)
  then show "exp_ahead t (put_row u t)" unfolding exp_ahead_def rows by (auto intro: row_ahead_refl)
qed

text \<open>A row that moves along an edge, with its line in the log; a stopped one leaves the table of running ones.\<close>

definition move_row :: "experiment_record \<Rightarrow> experiment_transition \<Rightarrow> experiment_tables \<Rightarrow> experiment_tables" where
  "move_row u x t = (let t1 = put_row u t;
       t2 = (if ex_state u = STOPPED then t1\<lparr>xt_active := filter (\<lambda>a. snd a \<noteq> ex_experiment_id u) (xt_active t1)\<rparr> else t1)
     in t2\<lparr>xt_transitions := xt_transitions t2 @ [x]\<rparr>)"

lemma move_row_simps [simp]:
  "xt_experiments (move_row u x t) = xt_experiments (put_row u t)"
  "xt_transitions (move_row u x t) = xt_transitions t @ [x]"
  "xt_active (move_row u x t) = (if ex_state u = STOPPED then filter (\<lambda>a. snd a \<noteq> ex_experiment_id u) (xt_active t) else xt_active t)"
  by (simp_all add: move_row_def Let_def)

lemma move_row_inv:
  assumes inv: "exp_inv t" and r: "r \<in> set (xt_experiments t)" and same: "same_start u r" and valid: "experiment_valid u"
    and edge: "allowed_transition (ex_state r) (ex_state u)" and rev: "ex_revision u = ex_revision r + 1"
    and x: "tn_experiment_id x = ex_experiment_id r" "tn_revision x = ex_revision u" "tn_from_state x = Some (ex_state r)"
      "tn_to_state x = ex_state u"
  shows "exp_inv (move_row u x t)" and "exp_ahead t (move_row u x t)"
proof -
  note rows = put_row_rows [OF inv r same]
  have ids: "ex_experiment_id u = ex_experiment_id r" "ex_account_id u = ex_account_id r" using same by (simp_all add: same_start_def)
  have hist: "history (move_row u x t) i = (if i = ex_experiment_id r then history t i @ [x] else history t i)" for i
    using x(1) by (simp add: history_def)
  have old: "history_ok t r" "1 \<le> ex_revision r" using exp_inv_row [OF inv r] by (simp_all add: experiment_valid_def)
  have "[1..ex_revision r + 1] = [1..ex_revision r] @ [ex_revision r + 1]" using old(2) by (simp add: upto_rec2)
  then have hu: "history_ok (move_row u x t) u"
    using old x edge rev ids by (simp add: history_ok_def hist walk_snoc)
  have others: "history_ok (move_row u x t) y" if "y \<in> set (xt_experiments t) - {r}" for y
  proof -
    have "ex_experiment_id y \<noteq> ex_experiment_id r" using that exp_inv_unique [OF inv _ r] by auto
    then show ?thesis using that exp_inv_row [OF inv, of y] by (simp add: history_ok_def hist)
  qed
  have running: "r \<in> set (xt_experiments t) \<and> ex_state r \<noteq> STOPPED" using r edge by (cases "ex_state r") auto
  have act: "(a, i) \<in> set (xt_active t)
      \<longleftrightarrow> (\<exists>y \<in> set (xt_experiments t). ex_account_id y = a \<and> ex_experiment_id y = i \<and> ex_state y \<noteq> STOPPED)" for a i
    using inv by (simp add: exp_inv_def)
  have act': "(a, i) \<in> set (xt_active (move_row u x t))
      \<longleftrightarrow> (\<exists>y \<in> insert u (set (xt_experiments t) - {r}). ex_account_id y = a \<and> ex_experiment_id y = i \<and> ex_state y \<noteq> STOPPED)" for a i
  proof (cases "i = ex_experiment_id r")
    case True
    then have "(\<exists>y \<in> insert u (set (xt_experiments t) - {r}). ex_account_id y = a \<and> ex_experiment_id y = i \<and> ex_state y \<noteq> STOPPED)
        \<longleftrightarrow> a = ex_account_id r \<and> ex_state u \<noteq> STOPPED" using exp_inv_unique [OF inv _ r] ids by auto
    moreover have "(a, i) \<in> set (xt_active t) \<longleftrightarrow> a = ex_account_id r"
      using True act [of a i] running exp_inv_unique [OF inv _ r] by auto
    ultimately show ?thesis using True ids by auto
  next
    case False
    then have "(\<exists>y \<in> insert u (set (xt_experiments t) - {r}). ex_account_id y = a \<and> ex_experiment_id y = i \<and> ex_state y \<noteq> STOPPED)
        \<longleftrightarrow> (a, i) \<in> set (xt_active t)" unfolding act using ids by auto
    then show ?thesis using False ids by simp
  qed
  have known: "\<forall>y \<in> set (xt_transitions (move_row u x t)). \<exists>z \<in> insert u (set (xt_experiments t) - {r}). ex_experiment_id z = tn_experiment_id y"
    using inv ids x(1) r by (auto simp: exp_inv_def)
  have "distinct (map fst (xt_active (move_row u x t)))"
    using inv by (simp add: exp_inv_def distinct_map_filter)
  then show "exp_inv (move_row u x t)"
    using inv hu others valid act' known exp_inv_row [OF inv] unfolding exp_inv_def
    by (simp add: rows put_row_ids)
  have "row_ahead r u" using same edge rev by (cases "ex_state r") (auto simp: row_ahead_def)
  then show "exp_ahead t (move_row u x t)" unfolding exp_ahead_def by (auto simp: rows intro: row_ahead_refl)
qed

section \<open>The operations keep it\<close>

text \<open>What each committed unit of work did.\<close>

lemma transition_tx_effect:
  assumes inv: "exp_inv t" and run: "transition_tx st i q now t = Inr (x, t')"
  obtains r u line where "r \<in> set (xt_experiments t)" and "ex_experiment_id r = i" and "ex_account_id r = st_account_id st"
    and "ex_state r \<in> set (tq_expected q)" and "allowed_transition (ex_state r) (tq_to q)"
    and "u = (if tq_to q = STOPPED then (\<lambda>r. r\<lparr>ex_stopped_at := Some now\<rparr>) else id)
           (apply_changes (tq_changes q) (r\<lparr>ex_state := tq_to q, ex_revision := ex_revision r + 1\<rparr>))"
    and "x = u" and "experiment_valid u" and "same_start u r" and "ex_state u = tq_to q" and "ex_revision u = ex_revision r + 1"
    and "t' = move_row u line t" and "tn_experiment_id line = i" and "tn_revision line = ex_revision u"
    and "tn_from_state line = Some (ex_state r)" and "tn_to_state line = tq_to q" and "tn_command_id line = tq_command_id q"
    and "tn_principal line = tq_principal q" and "exp_inv t'" and "exp_ahead t t'"
    and "tn_entries_in_flight line = (if tq_to q = PAUSED then Some (entries_being_sent_in_tx st t) else None)"
proof -
  let ?u = "\<lambda>r. (if tq_to q = STOPPED then (\<lambda>r. r\<lparr>ex_stopped_at := Some now\<rparr>) else id)
           (apply_changes (tq_changes q) (r\<lparr>ex_state := tq_to q, ex_revision := ex_revision r + 1\<rparr>))"
  from run obtain r where req: "require_in_tx st t i = Inr r" by (auto simp: transition_tx_def bind_sum_Inr)
  note r = require_in_tx_Inr [OF req]
  define u where "u = ?u r"
  have k: "same_start (apply_changes (tq_changes q) (r\<lparr>ex_state := tq_to q, ex_revision := ex_revision r + 1\<rparr>)) r"
    using apply_changes_keeps(1) [of "tq_changes q" "r\<lparr>ex_state := tq_to q, ex_revision := ex_revision r + 1\<rparr>"]
    by (simp add: same_start_def)
  then have same: "same_start u r" by (auto simp: u_def same_start_def)
  have st: "ex_state u = tq_to q" "ex_revision u = ex_revision r + 1" by (simp_all add: u_def apply_changes_keeps)
  have ids: "ex_experiment_id u = i" using same r by (simp add: same_start_def)
  define line where "line = \<lparr>tn_experiment_id = i, tn_revision = ex_revision u, tn_from_state = Some (ex_state r), tn_to_state = tq_to q,
      tn_principal = tq_principal q, tn_command_id = tq_command_id q, tn_reason = tq_reason q, tn_changes = tq_changes q,
      tn_entries_in_flight = (if tq_to q = PAUSED then Some (entries_being_sent_in_tx st t) else None), tn_at = now\<rparr>"
  have being: "entries_being_sent_in_tx st (put_row u t) = entries_being_sent_in_tx st t"
    by (simp add: entries_being_sent_in_tx_def)
  have ok: "ex_state r \<in> set (tq_expected q)" "allowed_transition (ex_state r) (tq_to q)" "experiment_valid u"
    using run by (auto simp: transition_tx_def req u_def bind_sum_Inr split: if_splits)
  have eff: "read_back i (move_row u line t) = Inr (x, t')"
    using run ok write_in_tx_put [OF inv conjunct1 [OF r] same] st ids
    by (auto simp: transition_tx_def req u_def [symmetric] bind_sum_Inr append_in_tx_def line_def move_row_def Let_def being
        split: if_splits)
  note mv = move_row_inv [OF inv conjunct1 [OF r] same ok(3), of line]
  have "t' = move_row u line t" using eff by (auto simp: read_back_def bind_sum_Inr split: option.splits)
  moreover have inv': "exp_inv (move_row u line t)" "exp_ahead t (move_row u line t)"
    using mv ok st r by (simp_all add: line_def)
  moreover have "u \<in> set (xt_experiments (move_row u line t))" using put_row_rows [OF inv conjunct1 [OF r] same] by simp
  then have "x = u" using eff exp_inv_fetch [OF inv'(1)] ids by (auto simp: read_back_def bind_sum_Inr)
  ultimately show thesis using that [of r u line] r ok same st by (simp add: line_def u_def)
qed

lemma kill_progress_tx_effect:
  assumes inv: "exp_inv t" and run: "kill_progress_tx st i s changes t = Inr (x, t')"
  obtains r where "r \<in> set (xt_experiments t)" and "ex_experiment_id r = i" and "ex_account_id r = st_account_id st" and "ex_state r = s"
    and "x = apply_changes changes r" and "experiment_valid x" and "t' = put_row x t" and "exp_inv t'" and "exp_ahead t t'"
    and "x \<in> set (xt_experiments t')"
proof -
  from run obtain r where req: "require_in_tx st t i = Inr r" by (auto simp: kill_progress_tx_def bind_sum_Inr)
  note r = require_in_tx_Inr [OF req]
  define u where "u = apply_changes changes r"
  have same: "same_start u r" and st: "ex_state u = ex_state r" "ex_revision u = ex_revision r"
    by (simp_all add: u_def apply_changes_keeps)
  have ids: "ex_experiment_id u = i" using same r by (simp add: same_start_def)
  have ok: "ex_state r = s" "experiment_valid u"
    using run by (auto simp: kill_progress_tx_def req u_def bind_sum_Inr split: if_splits)
  note put = put_row_inv [OF inv conjunct1 [OF r] same ok(2) st]
  have mem: "u \<in> set (xt_experiments (put_row u t))" using put_row_rows [OF inv conjunct1 [OF r] same] by simp
  have "read_back i (put_row u t) = Inr (x, t')"
    using run ok write_in_tx_put [OF inv conjunct1 [OF r] same]
    by (auto simp: kill_progress_tx_def req u_def [symmetric] bind_sum_Inr)
  then have "t' = put_row u t" "x = u"
    using exp_inv_fetch [OF put(1) mem] ids by (auto simp: read_back_def bind_sum_Inr)
  then show thesis using that [of r] r ok put mem by (simp add: u_def)
qed

lemma raise_peak_tx_effect:
  assumes inv: "exp_inv t" and run: "raise_peak_tx st i v t = Inr (p, t')" and v: "is_positive v"
  obtains r where "r \<in> set (xt_experiments t)" and "ex_experiment_id r = i" and "ex_account_id r = st_account_id st"
    and "p = flt_max (ex_peak_net_liquidation r) v" and "t' = put_row (r\<lparr>ex_peak_net_liquidation := p\<rparr>) t"
    and "exp_inv t'" and "exp_ahead t t'"
proof -
  from run obtain r where req: "require_in_tx st t i = Inr r" by (auto simp: raise_peak_tx_def bind_sum_Inr)
  note r = require_in_tx_Inr [OF req]
  have only: "\<And>x. x \<in> set (xt_experiments t) \<Longrightarrow> ex_experiment_id x = i \<longleftrightarrow> x = r"
    using exp_inv_unique [OF inv] r by auto
  define u where "u = r\<lparr>ex_peak_net_liquidation := p\<rparr>"
  have pv: "p = flt_max (ex_peak_net_liquidation r) v" using run by (auto simp: raise_peak_tx_def req flt_max_def split: if_splits)
  have same: "same_start u r" "ex_state u = ex_state r" "ex_revision u = ex_revision r" by (simp_all add: u_def same_start_def)
  have "is_positive p" using v r pv by (simp add: flt_max_def experiment_valid_def)
  then have valid: "experiment_valid u" using r by (auto simp: experiment_valid_def u_def)
  have idu: "ex_experiment_id u = i" using r by (simp add: u_def)
  have "t' = put_row u t"
  proof (cases "flt_less (ex_peak_net_liquidation r) v")
    case True
    then have p: "p = v" by (simp add: pv flt_max_def)
    have "update_where (\<lambda>x. ex_experiment_id x = i) (\<lambda>x. x\<lparr>ex_peak_net_liquidation := v\<rparr>) (xt_experiments t)
        = update_where (\<lambda>x. ex_experiment_id x = i) (\<lambda>_. u) (xt_experiments t)"
      unfolding update_where_def using only p by (intro map_cong refl) (auto simp: u_def)
    then show ?thesis using run True by (simp add: raise_peak_tx_def req put_row_def idu)
  next
    case False
    then have p: "p = ex_peak_net_liquidation r" by (simp add: pv flt_max_def)
    then have "u = r" by (simp add: u_def)
    then have "update_where (\<lambda>x. ex_experiment_id x = i) (\<lambda>_. u) (xt_experiments t) = xt_experiments t"
      unfolding update_where_def using only by (intro map_idI) auto
    then show ?thesis using run False by (simp add: raise_peak_tx_def req put_row_def idu)
  qed
  then show thesis using that [of r] r pv put_row_inv [OF inv conjunct1 [OF r] same(1) valid same(2,3)] by (simp add: u_def)
qed

lemma insert_armed_tx_effect:
  assumes inv: "exp_inv t" and run: "insert_armed_tx r who reason now t = Inr (x, t')" and valid: "experiment_valid r"
    and fresh: "ex_state r = ARMED" "ex_revision r = 1"
  shows "x \<in> set (xt_experiments t') \<and> ex_experiment_id x = ex_experiment_id r \<and> exp_inv t' \<and> exp_ahead t t'
    \<and> (x \<notin> set (xt_experiments t) \<longrightarrow> x = r \<and> (\<forall>a \<in> set (xt_active t). fst a \<noteq> ex_account_id r))"
proof (cases "get_in_tx t (ex_experiment_id r)")
  case (Inr own)
  show ?thesis
  proof (cases own)
    case (Some y)
    then have "t' = t" "x = y" using run Inr by (simp_all add: insert_armed_tx_def)
    then show ?thesis using Some Inr get_in_tx_Some inv by fastforce
  next
    case None
    note new = get_in_tx_None [OF Inr [unfolded None]]
    define line where "line = \<lparr>tn_experiment_id = ex_experiment_id r, tn_revision = 1, tn_from_state = None,
        tn_to_state = ARMED, tn_principal = who, tn_command_id = Some (ex_start_command_id r),
        tn_reason = reason, tn_changes = [], tn_entries_in_flight = None, tn_at = now\<rparr>"
    define u where "u = t\<lparr>xt_experiments := xt_experiments t @ [r], xt_active := xt_active t @ [(ex_account_id r, ex_experiment_id r)],
        xt_transitions := xt_transitions t @ [line]\<rparr>"
    have free: "\<forall>a \<in> set (xt_active t). fst a \<noteq> ex_account_id r" and reread: "read_back (ex_experiment_id r) u = Inr (x, t')"
      using run Inr None by (auto simp: insert_armed_tx_def bind_sum_Inr insert_row_in_tx_def append_in_tx_def u_def line_def
          split: if_splits)
    have none: "history t (ex_experiment_id r) = []" using inv new by (auto simp: history_def filter_empty_conv exp_inv_def)
    have hist: "history u i = (if i = ex_experiment_id r then history t i @ [line] else history t i)" for i
      by (simp add: history_def u_def line_def)
    have hr: "history_ok u r" using fresh none by (simp add: history_ok_def hist) (simp add: line_def)
    have hy: "history_ok u y" if "y \<in> set (xt_experiments t)" for y
      using that new exp_inv_row [OF inv that] by (auto simp: history_ok_def hist)
    have "exp_inv u" using inv new free valid fresh hr hy unfolding exp_inv_def by (fastforce simp: u_def line_def)
    moreover have "exp_ahead t u" by (auto simp: exp_ahead_def u_def intro: row_ahead_refl)
    moreover have "x = r" "t' = u" using reread exp_inv_fetch [OF \<open>exp_inv u\<close>, of r]
      by (auto simp: read_back_def bind_sum_Inr u_def)
    ultimately show ?thesis using free by (simp add: u_def)
  qed
qed (use run in \<open>simp add: insert_armed_tx_def\<close>)

inductive exp_step :: "experiment_db \<Rightarrow> experiment_db \<Rightarrow> bool" where
  step_insert: "insert_armed st r who reason now db = (res, db') \<Longrightarrow> experiment_valid r \<Longrightarrow> exp_step db db'"
| step_transition: "exp_transition st i q now db = (res, db') \<Longrightarrow> exp_step db db'"
| step_progress: "update_kill_progress st i s changes db = (res, db') \<Longrightarrow> exp_step db db'"
| step_peak: "raise_peak st i v db = (p, db') \<Longrightarrow> exp_step db db'"
| step_elsewhere: "xt_experiments (jd_prod db') = xt_experiments (jd_prod db) \<Longrightarrow> xt_active (jd_prod db') = xt_active (jd_prod db)
    \<Longrightarrow> xt_transitions (jd_prod db') = xt_transitions (jd_prod db) \<Longrightarrow> exp_step db db'"

lemma exp_inv_elsewhere:
  assumes "xt_experiments u = xt_experiments t" and "xt_active u = xt_active t" and "xt_transitions u = xt_transitions t"
  shows "exp_inv u = exp_inv t" and "exp_ahead t u"
  using assms by (auto simp: exp_inv_def history_ok_def history_def exp_ahead_def intro: row_ahead_refl)

lemma insert_armed_keeps:
  assumes inv: "exp_inv (jd_prod db)" and run: "insert_armed st r who reason now db = (res, db')" and valid: "experiment_valid r"
  shows "exp_inv (jd_prod db') \<and> exp_ahead (jd_prod db) (jd_prod db')"
proof (cases "ex_state r \<noteq> ARMED \<or> ex_revision r \<noteq> 1 \<or> ex_account_id r \<noteq> st_account_id st")
  case False
  obtain w db1 where w: "store_write (insert_armed_tx r who reason now) db = (w, db1)" by fastforce
  have "db' = db1" using run False w by (auto simp: insert_armed_def split: sum.splits experiment_error.splits)
  with w show ?thesis
    by (cases rule: store_write_cases) (use inv False insert_armed_tx_effect [OF inv _ valid] in auto)
qed (use run inv in \<open>auto simp: insert_armed_def\<close>)

lemma exp_transition_keeps:
  assumes inv: "exp_inv (jd_prod db)" and run: "exp_transition st i q now db = (res, db')"
  shows "exp_inv (jd_prod db') \<and> exp_ahead (jd_prod db) (jd_prod db')"
proof (cases "check_changes (tq_changes q)")
  case (Inr _)
  then have "store_write (transition_tx st i q now) db = (res, db')" using run by (simp add: exp_transition_def)
  then show ?thesis
    by (cases rule: store_write_cases) (use inv in \<open>auto elim: transition_tx_effect [OF inv]\<close>)
qed (use run inv in \<open>auto simp: exp_transition_def\<close>)

lemma progress_keeps:
  assumes inv: "exp_inv (jd_prod db)" and run: "update_kill_progress st i s changes db = (res, db')"
  shows "exp_inv (jd_prod db') \<and> exp_ahead (jd_prod db) (jd_prod db')"
proof (cases "check_changes changes")
  case (Inr _)
  then have "store_write (kill_progress_tx st i s changes) db = (res, db')" using run by (simp add: update_kill_progress_def)
  then show ?thesis
    by (cases rule: store_write_cases) (use inv in \<open>auto elim: kill_progress_tx_effect [OF inv]\<close>)
qed (use run inv in \<open>auto simp: update_kill_progress_def\<close>)

lemma peak_keeps:
  assumes inv: "exp_inv (jd_prod db)" and run: "raise_peak st i v db = (res, db')"
  shows "exp_inv (jd_prod db') \<and> exp_ahead (jd_prod db) (jd_prod db')"
proof (cases "is_positive v")
  case True
  then have "store_write (raise_peak_tx st i v) db = (res, db')" using run by (simp add: raise_peak_def)
  then show ?thesis
    by (cases rule: store_write_cases) (use inv True in \<open>auto elim: raise_peak_tx_effect [OF inv]\<close>)
qed (use run inv in \<open>auto simp: raise_peak_def\<close>)

lemma exp_step_keeps:
  assumes "exp_step db db'" and inv: "exp_inv (jd_prod db)"
  shows "exp_inv (jd_prod db') \<and> exp_ahead (jd_prod db) (jd_prod db')"
  using assms(1)
proof cases
  case (step_insert st r who reason now res)
  then show ?thesis using insert_armed_keeps [OF inv] by blast
next
  case (step_transition st i q now res)
  then show ?thesis using exp_transition_keeps [OF inv] by blast
next
  case (step_progress st i s changes res)
  then show ?thesis using progress_keeps [OF inv] by blast
next
  case (step_peak st i v p)
  then show ?thesis using peak_keeps [OF inv] by blast
next
  case step_elsewhere
  then show ?thesis using inv exp_inv_elsewhere by metis
qed

interpretation experiments: state_machine exp_step "\<lambda>db. exp_inv (jd_prod db)"
  by unfold_locales (auto dest: exp_step_keeps)

lemma exp_run_ahead:
  assumes "exp_step\<^sup>*\<^sup>* db db'" and "exp_inv (jd_prod db)"
  shows "exp_ahead (jd_prod db) (jd_prod db')"
  by (rule experiments.run_stable [OF assms, where P = "\<lambda>d. exp_ahead (jd_prod db) (jd_prod d)"])
    (auto dest: exp_step_keeps intro: exp_ahead_trans)

lemma one_running:
  assumes "exp_inv t" and "r \<in> set (xt_experiments t)" and "x \<in> set (xt_experiments t)"
    and "ex_account_id r = ex_account_id x" and "ex_state r \<noteq> STOPPED" and "ex_state x \<noteq> STOPPED"
  shows "r = x"
proof -
  have "(ex_account_id r, ex_experiment_id r) \<in> set (xt_active t)" "(ex_account_id r, ex_experiment_id x) \<in> set (xt_active t)"
    using assms by (auto simp: exp_inv_def)
  moreover have "distinct (map fst (xt_active t))" using assms(1) by (simp add: exp_inv_def)
  ultimately have "ex_experiment_id r = ex_experiment_id x" by (metis eq_key_imp_eq_value)
  then show ?thesis using exp_inv_unique assms by blast
qed

text \<open>
  C19. The life of an experiment. Over any sequence of store operations, of any account's store and with any arguments, what an
  experiment started with (its start value, its kill line and anchor, its command and configuration) never changes, its log of
  transitions only grows and always leads from the start to its state along the allowed edges, one line for each revision; a
  killed experiment is never armed or paused again, a stopped one stays stopped; and an account never has two experiments that
  are not stopped.
\<close>

theorem experiment_lifecycle:
  assumes "exp_inv (jd_prod db)" and "exp_step\<^sup>*\<^sup>* db db'"
  shows "(\<forall>r \<in> set (xt_experiments (jd_prod db)). \<exists>r' \<in> set (xt_experiments (jd_prod db')). same_start r' r
            \<and> (ex_state r = KILLED \<longrightarrow> ex_state r' \<in> {KILLED, STOPPED}) \<and> (ex_state r = STOPPED \<longrightarrow> ex_state r' = STOPPED))
     \<and> (\<exists>new. xt_transitions (jd_prod db') = xt_transitions (jd_prod db) @ new)
     \<and> (\<forall>r \<in> set (xt_experiments (jd_prod db')).
            walk None (history (jd_prod db') (ex_experiment_id r)) (Some (ex_state r))
            \<and> map tn_revision (history (jd_prod db') (ex_experiment_id r)) = [1..ex_revision r])
     \<and> (\<forall>r \<in> set (xt_experiments (jd_prod db')). \<forall>x \<in> set (xt_experiments (jd_prod db')).
            ex_account_id r = ex_account_id x \<and> ex_state r \<noteq> STOPPED \<and> ex_state x \<noteq> STOPPED \<longrightarrow> r = x)"
proof -
  have inv: "exp_inv (jd_prod db')" using experiments.run_inv [OF assms(2,1)] .
  have "exp_ahead (jd_prod db) (jd_prod db')" using exp_run_ahead [OF assms(2,1)] .
  then show ?thesis
    using one_running [OF inv] exp_inv_row [OF inv] by (fastforce simp: exp_ahead_def row_ahead_def history_ok_def)
qed

section \<open>The kill line\<close>

lemma flt_le_min:
  assumes "p \<noteq> NaN" and "c \<noteq> NaN"
  shows "flt_le (flt_min p c) d \<longleftrightarrow> flt_le p d \<or> flt_le c d"
  using assms by (cases p; cases c; cases d) (auto simp: flt_min_def flt_le_def)

text \<open>Two lines, the frozen one and the configured one: an evaluation under the effective line hits exactly when it hits under
  one of them, whatever the rounding; loosening the configuration of a running experiment has no effect.\<close>

lemma tighter_kill_line_decides:
  assumes p: "ex_kill_drawdown_pct r = Some p" "p \<noteq> NaN" "c \<noteq> NaN"
    and line: "effective_kill_line (Some c) r = Some line"
    and ev: "evaluate_kill_line rnd line anchor peak nlv = Some e"
    and ep: "evaluate_kill_line rnd (line\<lparr>kl_pct := p\<rparr>) anchor peak nlv = Some e1"
    and ec: "evaluate_kill_line rnd (line\<lparr>kl_pct := c\<rparr>) anchor peak nlv = Some e2"
  shows "ke_hit e \<longleftrightarrow> ke_hit e1 \<or> ke_hit e2"
proof -
  have pct: "kl_pct line = flt_min p c" using line p(1) by (auto simp: effective_kill_line_def)
  have "ke_hit e = flt_le (kl_pct line) (ke_drawdown_pct e)" "ke_hit e1 = flt_le p (ke_drawdown_pct e)"
    "ke_hit e2 = flt_le c (ke_drawdown_pct e)"
    using ev ep ec by (auto simp: evaluate_kill_line_def Let_def split: if_splits)
  then show ?thesis by (simp add: pct flt_le_min [OF p(2,3)])
qed

section \<open>A concrete life\<close>

definition demo_experiment :: experiment_record where
  "demo_experiment =
     \<lparr>ex_experiment_id = ''exp-0123456789abcdef0123'', ex_account_id = ''DU1'', ex_started_at = 5,
      ex_start_net_liquidation = Fin 1000, ex_base_currency = ''USD'', ex_start_usd_per_base = Fin 1, ex_state = ARMED,
      ex_killed_at = None, ex_start_command_id = ''c1'', ex_start_generation_id = 3, ex_start_fx_source = ''base_is_usd'',
      ex_config_digest = ''d'', ex_styles = [''intraday_long''], ex_kill_drawdown_pct = Some (Fin 10),
      ex_kill_basis = BasisPeak, ex_revision = 1, ex_peak_net_liquidation = Fin 1000,
      ex_kill_anchor_net_liquidation = Fin 1000, ex_kill_seq = 0, ex_kill_round = 0, ex_kill_root_id = None,
      ex_kill_flatten_root = None, ex_kill_net_liquidation = None, ex_kill_observed_drawdown_pct = None,
      ex_kill_generation_id = None, ex_kill_flat_state = None, ex_kill_flat_generation = None, ex_kill_flat_at = None,
      ex_kill_alert_state = None, ex_kill_session_end_state = None, ex_stopped_at = None, ex_pause_cause = None,
      ex_pause_generation_id = None\<rparr>"

definition demo_experiment_tables :: experiment_tables where
  "demo_experiment_tables = \<lparr>xt_experiments = [], xt_active = [], xt_transitions = [], xt_sends = None, xt_decisions = None\<rparr>"

definition demo_experiment_store :: experiment_store where
  "demo_experiment_store = \<lparr>st_account_id = ''DU1'', st_process_started_at = 0\<rparr>"

definition demo_armed :: "(experiment_error + experiment_record) \<times> experiment_db" where
  "demo_armed = insert_armed demo_experiment_store demo_experiment ''cli'' ''go'' 6 (empty_journal demo_experiment_tables)"

definition demo_killed :: "(experiment_error + experiment_record) \<times> experiment_db" where
  "demo_killed = exp_transition demo_experiment_store (ex_experiment_id demo_experiment)
     \<lparr>tq_expected = [ARMED], tq_to = KILLED, tq_principal = ''kill_monitor'', tq_command_id = None, tq_reason = ''kill line hit'',
      tq_changes = [KillSeq 1]\<rparr> 7 (snd demo_armed)"

lemma demo_experiment_valid: "experiment_valid demo_experiment"
  by code_simp

lemma demo_armed_rows: "xt_experiments (jd_prod (snd demo_armed)) = [demo_experiment]"
  by code_simp

lemma demo_killed_rows: "map ex_state (xt_experiments (jd_prod (snd demo_killed))) = [KILLED]"
  by code_simp

lemma demo_experiment_tables_inv: "exp_inv (jd_prod (empty_journal demo_experiment_tables))"
  by (simp add: exp_inv_def demo_experiment_tables_def)

lemma demo_steps: "exp_step (empty_journal demo_experiment_tables) (snd demo_armed)" "exp_step (snd demo_armed) (snd demo_killed)"
  by (rule step_insert [OF _ demo_experiment_valid, where res = "fst demo_armed"], simp add: demo_armed_def,
      rule step_transition [where res = "fst demo_killed"], simp add: demo_killed_def)

theorem experiment_lifecycle_witness:
  "map ex_state (xt_experiments (jd_prod (snd demo_killed))) = [KILLED]
   \<and> (\<exists>r' \<in> set (xt_experiments (jd_prod (snd demo_killed))). same_start r' demo_experiment)"
proof -
  have inv: "exp_inv (jd_prod (snd demo_armed))" using experiments.run_inv demo_steps(1) demo_experiment_tables_inv by blast
  have "exp_step\<^sup>*\<^sup>* (snd demo_armed) (snd demo_killed)" using demo_steps(2) by blast
  from experiment_lifecycle [OF inv this] show ?thesis unfolding demo_armed_rows using demo_killed_rows by auto
qed

end
