(* ===== verification/Kill_Monitor.thy ===== *)
theory Kill_Monitor
  imports Experiments Broker_State
begin

text \<open>
  The kill line monitor of \<^verbatim>\<open>src/trader/automation/kill_monitor.py\<close>. What a call reads from its collaborators (clock, broker
  capture, liquidation receipts, session controller, outbox, session ledger, reconciliation) is a record of answers, one for each place
  that asks; other callers may change the database before each transaction of the monitor, and the database may fail there. The
  world is the monitor's own state, the database, and the log of what was asked of the outside, each entry with the tables as they were
  at that moment. The texts of alerts and log lines are left out.
\<close>

section \<open>The monitor and its collaborators\<close>

record kill_config =
  kc_store :: experiment_store
  kc_account_id :: string
  kc_configured_pct :: "pyfloat option"
  kc_outage_pause_seconds :: int
  kc_stale_after :: duration
  kc_flatten_time :: duration
  kc_has_journal :: bool
  kc_has_alerts :: bool
  kc_has_session_end :: bool
  kc_rnd :: "rat \<Rightarrow> pyfloat"

record kill_monitor =
  km_recovered :: bool
  km_last_generation :: "int option"
  km_last_good_at :: "instant option"
  km_last_evaluation :: "kill_evaluation option"
  km_unknown_since :: "instant option"
  km_unknown_reason :: "string option"
  km_outage_handled :: bool

definition new_monitor :: kill_monitor where
  "new_monitor = \<lparr>km_recovered = False, km_last_generation = None, km_last_good_at = None, km_last_evaluation = None,
     km_unknown_since = None, km_unknown_reason = None, km_outage_handled = False\<rparr>"

datatype kill_site =
    AtActive | AtDetect | AtPeak | AtGood | AtUnknown | AtIncident | AtPause | AtKill | AtKilledAt | AtReceipt | AtDeadline | AtFlattenStart
  | AtFlattenRoot | AtAlertState | AtFlatReceipt | AtFlatCapture | AtFlatAt | AtFlatState | AtLateCapture | AtRound | AtEndState

text \<open>The part of a liquidation receipt the monitor reads.\<close>

record flatten_receipt =
  fr_state :: string
  fr_generation_id :: "int option"
  fr_superseded_by :: "string option"

record kill_run =
  kr_now :: "kill_site \<Rightarrow> instant"
  kr_gap :: "kill_site \<Rightarrow> experiment_db \<Rightarrow> experiment_db"
  kr_db_fails :: "kill_site \<Rightarrow> bool"
  kr_capture :: "kill_site \<Rightarrow> string + risk_snapshot"
  kr_receipt :: "kill_site \<Rightarrow> string option \<Rightarrow> experiment_error + flatten_receipt option"
  kr_flatten :: "string option \<Rightarrow> instant \<Rightarrow> experiment_error + string"
  kr_enqueues :: "string \<Rightarrow> bool"
  kr_session_end_ok :: bool
  kr_reconciliation_safe :: "bool option"
  kr_et_date :: "instant \<Rightarrow> int"
  kr_isoformat :: "instant \<Rightarrow> string"
  kr_uuid :: string

datatype kill_effect = FlattenRequested "string option" instant | AlertEnqueue string string | SessionEndRecorded string "int option" "instant option"

record kill_world =
  kw_monitor :: kill_monitor
  kw_db :: experiment_db
  kw_effects :: "(kill_effect \<times> experiment_tables) list"

abbreviation tables_of :: "kill_world \<Rightarrow> experiment_tables" where
  "tables_of w \<equiv> jd_prod (kw_db w)"

definition effect :: "kill_effect \<Rightarrow> kill_world \<Rightarrow> kill_world" where
  "effect e w = w\<lparr>kw_effects := kw_effects w @ [(e, tables_of w)]\<rparr>"

definition on_monitor :: "(kill_monitor \<Rightarrow> kill_monitor) \<Rightarrow> kill_world \<Rightarrow> kill_world" where
  "on_monitor f w = w\<lparr>kw_monitor := f (kw_monitor w)\<rparr>"

text \<open>One call of the store, after whatever other callers did.\<close>

definition store_call ::
    "kill_run \<Rightarrow> kill_site \<Rightarrow> (experiment_db \<Rightarrow> (experiment_error + 'a) \<times> experiment_db) \<Rightarrow> kill_world
     \<Rightarrow> (experiment_error + 'a) \<times> kill_world" where
  "store_call run site f w =
     (let db = kr_gap run site (kw_db w)
      in if kr_db_fails run site then (Inl DatabaseError, w\<lparr>kw_db := db\<rparr>)
         else (case f db of (res, db') \<Rightarrow> (res, w\<lparr>kw_db := db'\<rparr>)))"

definition read_active :: "kill_config \<Rightarrow> kill_run \<Rightarrow> kill_world \<Rightarrow> (experiment_error + experiment_record option) \<times> kill_world" where
  "read_active c run = store_call run AtActive (\<lambda>db. (active_in_tx (kc_store c) (jd_prod db), db))"

text \<open>Other callers write while the monitor waits for an answer from outside.\<close>

definition others_act :: "kill_run \<Rightarrow> kill_site \<Rightarrow> kill_world \<Rightarrow> kill_world" where
  "others_act run site w = w\<lparr>kw_db := kr_gap run site (kw_db w)\<rparr>"

text \<open>\<open>_progress\<close>.\<close>

definition progress ::
    "kill_config \<Rightarrow> kill_run \<Rightarrow> kill_site \<Rightarrow> experiment_record \<Rightarrow> column_change list \<Rightarrow> kill_world
     \<Rightarrow> (experiment_error + experiment_record) \<times> kill_world" where
  "progress c run site r changes = store_call run site (update_kill_progress (kc_store c) (ex_experiment_id r) KILLED changes)"

definition kill_root_id :: "string \<Rightarrow> int \<Rightarrow> int \<Rightarrow> string" where
  "kill_root_id experiment_id kill_seq kill_round =
     ''experiment-kill-'' @ experiment_id @ ''-'' @ string_of_int kill_seq @ ''-'' @ string_of_int kill_round"

definition kill_alert_event_id :: "experiment_record \<Rightarrow> string" where
  "kill_alert_event_id r = ''kill_started:'' @ ex_experiment_id r @ '':'' @ string_of_int (ex_kill_seq r)"

definition exposure :: "risk_snapshot \<Rightarrow> bool" where
  "exposure sn \<longleftrightarrow> (\<exists>p \<in> set (sn_positions sn). \<not> flt_eq (bp_quantity p) (Fin 0)) \<or> sn_working_orders sn \<noteq> []"

text \<open>\<open>_send_alert\<close>: None when the outbox failed.\<close>

definition send_alert ::
    "kill_config \<Rightarrow> kill_run \<Rightarrow> string \<Rightarrow> string \<Rightarrow> kill_world \<Rightarrow> alert_state option \<times> kill_world" where
  "send_alert c run event_id kind w =
     (if \<not> kc_has_alerts c then (Some AlertNoOutbox, w)
      else if kr_enqueues run event_id then (Some AlertEnqueued, effect (AlertEnqueue event_id kind) w) else (None, w))"

section \<open>The steps while killed\<close>

definition ensure_flatten ::
    "kill_config \<Rightarrow> kill_run \<Rightarrow> experiment_record \<Rightarrow> kill_world \<Rightarrow> (experiment_error + experiment_record) \<times> kill_world" where
  "ensure_flatten c run r w =
     (if ex_kill_flatten_root r \<noteq> None then (Inr r, w)
      else case kr_receipt run AtReceipt (ex_kill_root_id r) of
           Inl e \<Rightarrow> (Inl e, w)
         | Inr (Some _) \<Rightarrow> progress c run AtFlattenRoot r [KillFlattenRoot (ex_kill_root_id r)] w
         | Inr None \<Rightarrow>
             let deadline = kr_now run AtDeadline + kc_flatten_time c;
                 w1 = effect (FlattenRequested (ex_kill_root_id r) deadline) (others_act run AtFlattenStart w)
             in (case kr_flatten run (ex_kill_root_id r) deadline of
                   Inl e \<Rightarrow> (Inl e, w1)
                 | Inr flat_root \<Rightarrow> progress c run AtFlattenRoot r [KillFlattenRoot (Some flat_root)] w1))"

definition ensure_alert ::
    "kill_config \<Rightarrow> kill_run \<Rightarrow> experiment_record \<Rightarrow> kill_world \<Rightarrow> (experiment_error + experiment_record) \<times> kill_world" where
  "ensure_alert c run r w =
     (if ex_kill_alert_state r \<noteq> Some AlertPending then (Inr r, w)
      else case send_alert c run (kill_alert_event_id r) ''kill_started'' w of
             (None, w1) \<Rightarrow> (Inr r, w1)
           | (Some s, w1) \<Rightarrow> progress c run AtAlertState r [KillAlertState (Some s)] w1)"

definition proves_flat :: "kill_run \<Rightarrow> flatten_receipt \<Rightarrow> risk_snapshot \<Rightarrow> bool" where
  "proves_flat run rc sn \<longleftrightarrow>
     opt_or 0 (fr_generation_id rc) \<le> sn_generation_id sn \<and> \<not> exposure sn \<and> kr_reconciliation_safe run = Some True"

definition prove_flat ::
    "kill_config \<Rightarrow> kill_run \<Rightarrow> experiment_record \<Rightarrow> kill_world \<Rightarrow> (experiment_error + experiment_record) \<times> kill_world" where
  "prove_flat c run r w =
     (case ex_kill_flatten_root r of
        None \<Rightarrow> (Inr r, w)
      | Some flat_root \<Rightarrow>
          if ex_kill_flat_state r \<noteq> Some FlatPending then (Inr r, w)
          else (case kr_receipt run AtFlatReceipt (Some flat_root) of
             Inl e \<Rightarrow> (Inl e, w)
           | Inr None \<Rightarrow> (Inr r, w)
           | Inr (Some rc) \<Rightarrow>
               if fr_state rc = ''SUPERSEDED'' \<and> opt_or [] (fr_superseded_by rc) \<noteq> []
               then progress c run AtFlatState r [KillFlattenRoot (fr_superseded_by rc)] w
               else if fr_state rc \<in> {''FAILED_SAFE'', ''REDUCE_FAILED''}
               then progress c run AtFlatState r [KillFlatState (Some FlatFailedSafe), KillFlatAt (Some (kr_now run AtFlatAt))] w
               else if fr_state rc \<notin> {''FLAT'', ''CLOSED'', ''DONE''} then (Inr r, w)
               else (case kr_capture run AtFlatCapture of
                  Inl _ \<Rightarrow> (Inl PortError, w)
                | Inr sn \<Rightarrow>
                    if \<not> proves_flat run rc sn then (Inr r, w)
                    else progress c run AtFlatState r [KillFlatState (Some ProvenFlat), KillFlatGeneration (Some (sn_generation_id sn)),
                           KillFlatAt (Some (kr_now run AtFlatAt))] w)))"

definition check_late_exposure ::
    "kill_config \<Rightarrow> kill_run \<Rightarrow> experiment_record \<Rightarrow> kill_world \<Rightarrow> (experiment_error + experiment_record) \<times> kill_world" where
  "check_late_exposure c run r w =
     (if ex_kill_flat_state r \<noteq> Some ProvenFlat then (Inr r, w)
      else case kr_capture run AtLateCapture of
             Inl _ \<Rightarrow> (Inl PortError, w)
           | Inr sn \<Rightarrow>
               if \<not> exposure sn then (Inr r, w)
               else progress c run AtRound r
                 [KillRound (ex_kill_round r + 1), KillRootId (Some (kill_root_id (ex_experiment_id r) (ex_kill_seq r) (ex_kill_round r + 1))),
                  KillFlattenRoot None, KillFlatState (Some FlatPending), KillFlatGeneration None, KillFlatAt None] w)"

definition ensure_session_end ::
    "kill_config \<Rightarrow> kill_run \<Rightarrow> experiment_record \<Rightarrow> kill_world \<Rightarrow> (experiment_error + experiment_record) \<times> kill_world" where
  "ensure_session_end c run r w =
     (if ex_kill_flat_state r \<notin> {Some ProvenFlat, Some FlatFailedSafe} \<or> ex_kill_session_end_state r \<noteq> Some EndPending then (Inr r, w)
      else if \<not> kc_has_session_end c then progress c run AtEndState r [KillSessionEndState (Some EndNoSink)] w
      else if ex_killed_at r = None \<or> \<not> kr_session_end_ok run then (Inl PortError, w)
      else progress c run AtEndState r [KillSessionEndState (Some EndRecorded)]
             (effect (SessionEndRecorded (kc_account_id c) (map_option (kr_et_date run) (ex_killed_at r)) (ex_kill_flat_at r)) w))"

text \<open>The loop of \<open>_drive_kill\<close>: a step that fails is skipped, a lost compare-and-set ends the tick.\<close>

fun drive ::
    "(experiment_record \<Rightarrow> kill_world \<Rightarrow> (experiment_error + experiment_record) \<times> kill_world) list \<Rightarrow> experiment_record
     \<Rightarrow> kill_world \<Rightarrow> kill_world" where
  "drive [] r w = w"
| "drive (s # ss) r w =
     (case s r w of
        (Inr r', w') \<Rightarrow> drive ss r' w'
      | (Inl e, w') \<Rightarrow> if e = ExperimentRefused ''EXPERIMENT_STATE_CHANGED'' then w' else drive ss r w')"

definition drive_kill :: "kill_config \<Rightarrow> kill_run \<Rightarrow> experiment_record \<Rightarrow> kill_world \<Rightarrow> kill_world" where
  "drive_kill c run =
     drive [ensure_flatten c run, ensure_alert c run, prove_flat c run, check_late_exposure c run, ensure_session_end c run]"

section \<open>Detection\<close>

definition unusable_reason :: "kill_config \<Rightarrow> kill_monitor \<Rightarrow> risk_snapshot \<Rightarrow> string option" where
  "unusable_reason c m sn =
     (if sn_account_id sn \<noteq> kc_account_id c then Some ''ACCOUNT_MISMATCH''
      else if sn_account_mode sn \<noteq> ''paper'' then Some ''ACCOUNT_NOT_PAPER''
      else if \<not> is_positive (sn_net_liquidation sn) then Some ''INVALID_NET_LIQUIDATION''
      else case km_last_generation m of
             Some g \<Rightarrow> if sn_generation_id sn < g then Some ''GENERATION_REGRESSION'' else None
           | None \<Rightarrow> None)"

definition evaluable_capture :: "kill_config \<Rightarrow> kill_run \<Rightarrow> kill_world \<Rightarrow> risk_snapshot option \<times> kill_world" where
  "evaluable_capture c run w =
     (case kr_capture run AtDetect of
        Inl reason \<Rightarrow> (None, on_monitor (\<lambda>m. m\<lparr>km_unknown_reason := Some reason\<rparr>) w)
      | Inr sn \<Rightarrow>
          let reason = unusable_reason c (kw_monitor w) sn
          in (if reason = None then Some sn else None, on_monitor (\<lambda>m. m\<lparr>km_unknown_reason := reason\<rparr>) w))"

definition end_unknown_streak :: "kill_monitor \<Rightarrow> kill_monitor" where
  "end_unknown_streak m = m\<lparr>km_unknown_since := None, km_unknown_reason := None, km_outage_handled := False\<rparr>"

definition incident_item ::
    "kill_config \<Rightarrow> kill_run \<Rightarrow> experiment_record \<Rightarrow> instant \<Rightarrow> kill_monitor \<Rightarrow> (experiment_tables, experiment_error) batch_item" where
  "incident_item c run r now m =
     (let event_id = ''experiment.kill_line_unknown:'' @ ex_experiment_id r @ '':'' @ kr_isoformat run now;
          detail = ''broker capture unknown: '' @ opt_or ''None'' (km_unknown_reason m)
      in \<lparr>bi_received_ts = kr_now run AtIncident, bi_uuid = kr_uuid run,
          bi_mutation = \<lparr>dm_event_type = ''experiment.kill_line_unknown'', dm_entity_type = ''incident'', dm_entity_id = event_id,
            dm_operation = Upsert, dm_account_id = Some (kc_account_id c), dm_source = ''trader_service'',
            dm_source_timestamp = Aware now, dm_correlation_id = None,
            dm_payload = Some [(''kind'', JStr ''experiment.kill_line_unknown''), (''detail'', JStr detail)]\<rparr>,
          bi_write = (\<lambda>t _. Inr t), bi_event_id = Some event_id\<rparr>)"

definition journal_item ::
    "(experiment_tables, experiment_error) batch_item \<Rightarrow> experiment_db \<Rightarrow> (experiment_error + unit) \<times> experiment_db" where
  "journal_item item db =
     (case mutate item db of (Inl _, db') \<Rightarrow> (Inl DatabaseError, db') | (Inr _, db') \<Rightarrow> (Inr (), db'))"

text \<open>\<open>_incident\<close>: a failure is logged and forgotten.\<close>

definition record_incident :: "kill_config \<Rightarrow> kill_run \<Rightarrow> experiment_record \<Rightarrow> instant \<Rightarrow> kill_world \<Rightarrow> kill_world" where
  "record_incident c run r now w =
     (if \<not> kc_has_journal c then w
      else snd (store_call run AtIncident (journal_item (incident_item c run r now (kw_monitor w))) w))"

definition outage_alert :: "kill_config \<Rightarrow> kill_run \<Rightarrow> experiment_record \<Rightarrow> kill_world \<Rightarrow> kill_world" where
  "outage_alert c run target w =
     (case send_alert c run (''broker_outage:'' @ ex_experiment_id target @ '':'' @ string_of_int (ex_revision target)) ''broker_outage'' w of
        (s, w') \<Rightarrow> on_monitor (\<lambda>m. m\<lparr>km_outage_handled := s \<noteq> None\<rparr>) w')"

definition outage_pause :: "instant \<Rightarrow> kill_monitor \<Rightarrow> experiment_record \<Rightarrow> transition_request" where
  "outage_pause now m r = \<lparr>tq_expected = [ARMED], tq_to = PAUSED, tq_principal = ''kill_monitor'', tq_command_id = None,
     tq_reason = ''broker data unavailable for '' @ string_of_int ((now - opt_or now (km_unknown_since m)) div 1000000) @ '' s'',
     tq_changes = [PauseCause (Some BrokerDataOutage),
       PauseGenerationId (Some (opt_or (ex_start_generation_id r) (km_last_generation m)))]\<rparr>"

text \<open>\<open>_outage\<close>; an exception of the store other than a refusal leaves the tick.\<close>

definition outage :: "kill_config \<Rightarrow> kill_run \<Rightarrow> experiment_record \<Rightarrow> instant \<Rightarrow> kill_world \<Rightarrow> (experiment_error + unit) \<times> kill_world" where
  "outage c run r now w =
     (if ex_state r \<noteq> ARMED then (Inr (), outage_alert c run r w)
      else case store_call run AtPause
             (exp_transition (kc_store c) (ex_experiment_id r) (outage_pause now (kw_monitor w) r) (kr_now run AtPause)) w of
             (Inl (ExperimentRefused _), w1) \<Rightarrow> (Inr (), w1)
           | (Inl e, w1) \<Rightarrow> (Inl e, w1)
           | (Inr target, w1) \<Rightarrow> (Inr (), outage_alert c run target w1))"

definition on_unknown :: "kill_config \<Rightarrow> kill_run \<Rightarrow> experiment_record \<Rightarrow> kill_world \<Rightarrow> (experiment_error + unit) \<times> kill_world" where
  "on_unknown c run r w =
     (let now = kr_now run AtUnknown;
          w1 = (if km_unknown_since (kw_monitor w) = None
                then record_incident c run r now
                       (on_monitor (\<lambda>m. m\<lparr>km_unknown_since := Some now, km_outage_handled := False\<rparr>) w)
                else w)
      in if km_outage_handled (kw_monitor w1) then (Inr (), w1)
         else if flt_le (Fin (of_int (kc_outage_pause_seconds c)))
                   (total_seconds (kc_rnd c) (now - opt_or now (km_unknown_since (kw_monitor w1))))
         then outage c run r now w1 else (Inr (), w1))"

section \<open>The kill\<close>

definition kill_request :: "experiment_record \<Rightarrow> risk_snapshot \<Rightarrow> kill_evaluation \<Rightarrow> instant \<Rightarrow> transition_request" where
  "kill_request r sn ev killed_at = \<lparr>tq_expected = [ARMED, PAUSED], tq_to = KILLED, tq_principal = ''kill_monitor'',
     tq_command_id = None, tq_reason = ''kill line hit'',
     tq_changes = [KilledAt (Some killed_at), KillSeq (ex_kill_seq r + 1), KillRound 0,
       KillRootId (Some (kill_root_id (ex_experiment_id r) (ex_kill_seq r + 1) 0)), KillFlattenRoot None,
       KillNetLiquidation (Some (ke_net_liquidation ev)), KillObservedDrawdownPct (Some (ke_drawdown_pct ev)),
       KillGenerationId (Some (sn_generation_id sn)), KillFlatState (Some FlatPending), KillAlertState (Some AlertPending),
       KillSessionEndState (Some EndPending)]\<rparr>"

definition kill :: "kill_config \<Rightarrow> kill_run \<Rightarrow> experiment_record \<Rightarrow> risk_snapshot \<Rightarrow> kill_evaluation \<Rightarrow> kill_world \<Rightarrow> kill_world" where
  "kill c run r sn ev w =
     (case store_call run AtKill (exp_transition (kc_store c) (ex_experiment_id r) (kill_request r sn ev (kr_now run AtKilledAt))
             (kr_now run AtKill)) w of
        (Inl _, w1) \<Rightarrow> w1
      | (Inr killed, w1) \<Rightarrow> drive_kill c run killed w1)"

datatype kill_check = CheckClear | CheckHit | CheckUnknown | CheckNotReady

definition kill_evaluate ::
    "kill_config \<Rightarrow> kill_run \<Rightarrow> experiment_record \<Rightarrow> risk_snapshot \<Rightarrow> kill_world \<Rightarrow> (experiment_error + kill_check) \<times> kill_world" where
  "kill_evaluate c run r sn w =
     (case store_call run AtPeak (raise_peak (kc_store c) (ex_experiment_id r) (sn_net_liquidation sn)) (on_monitor end_unknown_streak w) of
        (Inl e, w1) \<Rightarrow> (Inl e, w1)
      | (Inr peak, w1) \<Rightarrow>
          let w2 = on_monitor (\<lambda>m. m\<lparr>km_last_generation := Some (sn_generation_id sn), km_last_good_at := Some (kr_now run AtGood)\<rparr>) w1
          in (case effective_kill_line (kc_configured_pct c) r of
                None \<Rightarrow> (Inr CheckClear, on_monitor (\<lambda>m. m\<lparr>km_last_evaluation := None\<rparr>) w2)
              | Some line \<Rightarrow>
                  (case evaluate_kill_line (kc_rnd c) line (ex_kill_anchor_net_liquidation r) peak (sn_net_liquidation sn) of
                     None \<Rightarrow> (Inr CheckUnknown, on_monitor (\<lambda>m. m\<lparr>km_last_good_at := None\<rparr>) w2)
                   | Some ev \<Rightarrow>
                       let w3 = on_monitor (\<lambda>m. m\<lparr>km_last_evaluation := Some ev\<rparr>) w2
                       in if \<not> ke_hit ev then (Inr CheckClear, w3) else (Inr CheckHit, kill c run r sn ev w3))))"

section \<open>The public calls\<close>

definition kill_recover :: "kill_config \<Rightarrow> kill_run \<Rightarrow> kill_world \<Rightarrow> (experiment_error + unit) \<times> kill_world" where
  "kill_recover c run w =
     (case read_active c run w of
        (Inl e, w1) \<Rightarrow> (Inl e, w1)
      | (Inr found, w1) \<Rightarrow>
          (Inr (), on_monitor (\<lambda>m. m\<lparr>km_recovered := True\<rparr>)
             (case found of Some r \<Rightarrow> if ex_state r = KILLED then drive_kill c run r w1 else w1 | None \<Rightarrow> w1)))"

definition kill_tick :: "kill_config \<Rightarrow> kill_run \<Rightarrow> kill_world \<Rightarrow> (experiment_error + unit) \<times> kill_world" where
  "kill_tick c run w =
     (if \<not> km_recovered (kw_monitor w) then kill_recover c run w
      else case read_active c run w of
        (Inl e, w1) \<Rightarrow> (Inl e, w1)
      | (Inr None, w1) \<Rightarrow> (Inr (), w1)
      | (Inr (Some r), w1) \<Rightarrow>
          if ex_state r = KILLED then (Inr (), drive_kill c run r w1)
          else (case evaluable_capture c run w1 of
             (None, w2) \<Rightarrow> on_unknown c run r w2
           | (Some sn, w2) \<Rightarrow> (case kill_evaluate c run r sn w2 of (res, w3) \<Rightarrow> (map_sum id (\<lambda>_. ()) res, w3))))"

definition check_before_arming ::
    "kill_config \<Rightarrow> kill_run \<Rightarrow> experiment_record \<Rightarrow> risk_snapshot \<Rightarrow> kill_world \<Rightarrow> (experiment_error + kill_check) \<times> kill_world" where
  "check_before_arming c run r sn w =
     (if \<not> km_recovered (kw_monitor w) then (Inr CheckNotReady, w)
      else if unusable_reason c (kw_monitor w) sn \<noteq> None then (Inr CheckUnknown, w)
      else kill_evaluate c run r sn w)"

definition entry_block :: "kill_config \<Rightarrow> instant \<Rightarrow> kill_monitor \<Rightarrow> experiment_record \<Rightarrow> string option" where
  "entry_block c now m r =
     (if ex_state r \<noteq> ARMED then None
      else if \<not> km_recovered m then Some ''EXPERIMENT_MONITOR_NOT_READY''
      else if effective_kill_line (kc_configured_pct c) r = None then None
      else case km_last_good_at m of
             None \<Rightarrow> Some ''KILL_LINE_UNKNOWN''
           | Some good \<Rightarrow> if now - good > kc_stale_after c then Some ''KILL_LINE_UNKNOWN'' else None)"

section \<open>What a call may do\<close>

definition others_use_store :: "kill_run \<Rightarrow> bool" where
  "others_use_store run \<longleftrightarrow> (\<forall>site db. exp_step\<^sup>*\<^sup>* db (kr_gap run site db))"

text \<open>The tables stay good and only move forward; every new entry of the log satisfies \<open>P\<close>.\<close>

definition moves :: "(kill_effect \<Rightarrow> experiment_tables \<Rightarrow> bool) \<Rightarrow> kill_world \<Rightarrow> kill_world \<Rightarrow> bool" where
  "moves P w w' \<longleftrightarrow> exp_inv (tables_of w') \<and> exp_ahead (tables_of w) (tables_of w')
     \<and> (\<exists>new. kw_effects w' = kw_effects w @ new \<and> (\<forall>(e, t) \<in> set new. P e t))"

lemma moves_refl: "exp_inv (tables_of w) \<Longrightarrow> moves P w w"
  by (simp add: moves_def)

lemma moves_inv: "moves P w w' \<Longrightarrow> exp_inv (tables_of w')"
  by (simp add: moves_def)

lemma moves_trans: "moves P u v \<Longrightarrow> moves P v w \<Longrightarrow> moves P u w"
  unfolding moves_def by (fastforce intro: exp_ahead_trans)

lemma moves_mono: "moves P w w' \<Longrightarrow> (\<And>e t. P e t \<Longrightarrow> Q e t) \<Longrightarrow> moves Q w w'"
  unfolding moves_def by fastforce

lemma moves_on_monitor: "exp_inv (tables_of w) \<Longrightarrow> moves P w (on_monitor f w)"
  by (simp add: moves_def on_monitor_def)

lemma moves_effect: "exp_inv (tables_of w) \<Longrightarrow> P e (tables_of w) \<Longrightarrow> moves P w (effect e w)"
  by (simp add: moves_def effect_def)

text \<open>An operation of the store, or none.\<close>

definition store_op :: "(experiment_db \<Rightarrow> (experiment_error + 'a) \<times> experiment_db) \<Rightarrow> bool" where
  "store_op f \<longleftrightarrow> (\<forall>db. exp_step\<^sup>*\<^sup>* db (snd (f db)))"

lemma store_ops:
  "store_op (\<lambda>db. (g db, db))" "store_op (exp_transition st i q now)" "store_op (update_kill_progress st i s changes)"
  "store_op (raise_peak st i v)"
  unfolding store_op_def
  by (simp, metis prod.collapse r_into_rtranclp step_transition, metis prod.collapse r_into_rtranclp step_progress,
      metis prod.collapse r_into_rtranclp step_peak)

lemma gap_keeps:
  assumes "others_use_store run" and "exp_inv (jd_prod db)"
  shows "exp_inv (jd_prod (kr_gap run site db))" "exp_ahead (jd_prod db) (jd_prod (kr_gap run site db))"
  using assms experiments.run_inv exp_run_ahead unfolding others_use_store_def by blast+

lemma moves_store_call:
  assumes run: "others_use_store run" and f: "store_op f" and inv: "exp_inv (tables_of w)" and call: "store_call run site f w = (res, w')"
  shows "moves P w w' \<and> kw_monitor w' = kw_monitor w"
proof -
  let ?g = "kr_gap run site (kw_db w)"
  have "exp_step\<^sup>*\<^sup>* ?g (snd (f ?g))" using f by (simp add: store_op_def)
  then have "exp_inv (jd_prod (snd (f ?g)))" "exp_ahead (jd_prod ?g) (jd_prod (snd (f ?g)))"
    using gap_keeps [OF run inv] experiments.run_inv exp_run_ahead by blast+
  then show ?thesis
    using call gap_keeps [OF run inv, of site]
    by (auto simp: store_call_def Let_def moves_def split: if_splits prod.splits intro: exp_ahead_trans)
qed

lemma progress_moves:
  assumes "others_use_store run" and "exp_inv (tables_of w)" and "progress c run site r changes w = (res, w')"
  shows "moves P w w'"
  using moves_store_call [OF assms(1) store_ops(3) assms(2)] assms(3) unfolding progress_def by blast

section \<open>Only a durable kill asks for a flatten\<close>

definition is_flatten :: "kill_effect \<Rightarrow> bool" where
  "is_flatten e \<longleftrightarrow> (case e of FlattenRequested _ _ \<Rightarrow> True | _ \<Rightarrow> False)"

lemma is_flatten_simps [simp]:
  "is_flatten (FlattenRequested a b)" "\<not> is_flatten (AlertEnqueue d e)" "\<not> is_flatten (SessionEndRecorded f g h)"
  by (simp_all add: is_flatten_def)

text \<open>The flatten roots asked for so far.\<close>

definition requested :: "kill_world \<Rightarrow> string option list" where
  "requested w = concat (map (\<lambda>(e, t). case e of FlattenRequested flat_root _ \<Rightarrow> [flat_root] | _ \<Rightarrow> []) (kw_effects w))"

abbreviation quietly :: "kill_world \<Rightarrow> kill_world \<Rightarrow> bool" where
  "quietly \<equiv> moves (\<lambda>e t. \<not> is_flatten e)"

lemma quietly_requested: "quietly w w' \<Longrightarrow> requested w' = requested w"
  unfolding moves_def requested_def by (fastforce split: kill_effect.splits)

lemma requested_effect [simp]:
  "requested (effect (FlattenRequested flat_root d) w) = requested w @ [flat_root]"
  "requested (effect (AlertEnqueue a b) w) = requested w" "requested (effect (SessionEndRecorded f g h) w) = requested w"
  by (simp_all add: requested_def effect_def)

lemma effect_simps [simp]: "kw_db (effect e w) = kw_db w" "kw_monitor (effect e w) = kw_monitor w"
  by (simp_all add: effect_def)

lemma on_monitor_simps [simp]:
  "kw_db (on_monitor f w) = kw_db w" "kw_effects (on_monitor f w) = kw_effects w" "kw_monitor (on_monitor f w) = f (kw_monitor w)"
  by (simp_all add: on_monitor_def)

lemma send_alert_quiet:
  "exp_inv (tables_of w) \<Longrightarrow> send_alert c run i k w = (res, w') \<Longrightarrow> quietly w w' \<and> kw_db w' = kw_db w"
  by (auto simp: send_alert_def moves_effect moves_refl split: if_splits)

definition quiet_step ::
    "(experiment_record \<Rightarrow> kill_world \<Rightarrow> (experiment_error + experiment_record) \<times> kill_world) \<Rightarrow> bool" where
  "quiet_step s \<longleftrightarrow> (\<forall>r w res w'. exp_inv (tables_of w) \<longrightarrow> s r w = (res, w') \<longrightarrow> quietly w w')"

lemma quiet_then_progress:
  "others_use_store run \<Longrightarrow> quietly w v \<Longrightarrow> progress c run site r ch v = (res, w') \<Longrightarrow> quietly w w'"
  using moves_trans progress_moves moves_inv by metis

lemma progress_after_effect:
  "progress c run site r ch (effect e w) = (res, w') \<Longrightarrow> others_use_store run \<Longrightarrow> exp_inv (tables_of w) \<Longrightarrow> \<not> is_flatten e \<Longrightarrow> quietly w w'"
  using quiet_then_progress moves_effect by metis

lemma ensure_alert_quiet: "others_use_store run \<Longrightarrow> quiet_step (ensure_alert c run)"
  unfolding quiet_step_def ensure_alert_def
  by (auto simp: moves_refl split: if_splits prod.splits option.splits
      dest: send_alert_quiet elim: quiet_then_progress [OF _ conjunct1 [OF send_alert_quiet]])

lemma prove_flat_quiet: "others_use_store run \<Longrightarrow> quiet_step (prove_flat c run)"
  unfolding quiet_step_def prove_flat_def
  by (auto simp: moves_refl split: if_splits option.splits sum.splits intro: progress_moves)

lemma check_late_exposure_quiet: "others_use_store run \<Longrightarrow> quiet_step (check_late_exposure c run)"
  unfolding quiet_step_def check_late_exposure_def
  by (auto simp: moves_refl split: if_splits sum.splits intro: progress_moves)

lemma ensure_session_end_quiet: "others_use_store run \<Longrightarrow> quiet_step (ensure_session_end c run)"
  unfolding quiet_step_def ensure_session_end_def
  by (auto simp: moves_refl split: if_splits intro: progress_moves elim: progress_after_effect)

lemma drive_quiet:
  "(\<And>s. s \<in> set ss \<Longrightarrow> quiet_step s) \<Longrightarrow> exp_inv (tables_of w) \<Longrightarrow> quietly w (drive ss r w)"
proof (induction ss arbitrary: r w)
  case (Cons s ss)
  obtain res w1 where s: "s r w = (res, w1)" by fastforce
  then have q: "quietly w w1" using Cons.prems(1) [of s] Cons.prems(2) unfolding quiet_step_def by auto
  have rest: "quietly w1 (drive ss r' w1)" for r' using Cons.IH [of w1 r'] Cons.prems(1) moves_inv [OF q] by auto
  show ?case using s q rest by (auto split: sum.splits intro: moves_trans)
qed (simp add: moves_refl)

text \<open>
  A request for a flatten: the database as it was when the monitor last saw it holds the killed row the monitor works on, and the
  tables at the request are what other callers have made of it since.
\<close>

definition lawful :: "kill_config \<Rightarrow> kill_run \<Rightarrow> kill_effect \<Rightarrow> experiment_tables \<Rightarrow> bool" where
  "lawful c run e t \<longleftrightarrow>
     (case e of
        FlattenRequested flat_root _ \<Rightarrow> kr_receipt run AtReceipt flat_root = Inr None
          \<and> (\<exists>db r. t = jd_prod (kr_gap run AtFlattenStart db) \<and> exp_inv (jd_prod db) \<and> r \<in> set (xt_experiments (jd_prod db))
               \<and> ex_account_id r = st_account_id (kc_store c) \<and> ex_state r = KILLED
               \<and> ex_kill_root_id r = flat_root \<and> ex_kill_flatten_root r = None)
      | _ \<Rightarrow> True)"

lemma quiet_lawful: "quietly w w' \<Longrightarrow> moves (lawful c run) w w'"
  by (erule moves_mono) (auto simp: lawful_def is_flatten_def split: kill_effect.splits)

definition stored_killed :: "kill_config \<Rightarrow> experiment_record \<Rightarrow> experiment_tables \<Rightarrow> bool" where
  "stored_killed c r t \<longleftrightarrow> r \<in> set (xt_experiments t) \<and> ex_account_id r = st_account_id (kc_store c) \<and> ex_state r = KILLED"

definition at_most_one_request :: "kill_run \<Rightarrow> kill_world \<Rightarrow> kill_world \<Rightarrow> bool" where
  "at_most_one_request run w w' \<longleftrightarrow> requested w' = requested w
     \<or> (\<exists>flat_root. kr_receipt run AtReceipt flat_root = Inr None \<and> requested w' = requested w @ [flat_root])"

lemma others_act_simps [simp]:
  "kw_db (others_act run site w) = kr_gap run site (kw_db w)" "kw_monitor (others_act run site w) = kw_monitor w"
  "kw_effects (others_act run site w) = kw_effects w" "requested (others_act run site w) = requested w"
  by (simp_all add: others_act_def requested_def)

lemma moves_others_act:
  "others_use_store run \<Longrightarrow> exp_inv (tables_of w) \<Longrightarrow> moves P w (others_act run site w)"
  using gap_keeps by (simp add: moves_def)

lemma ensure_flatten_lawful:
  assumes others: "others_use_store run" and inv: "exp_inv (tables_of w)" and r: "stored_killed c r (tables_of w)"
    and s: "ensure_flatten c run r w = (res, w')"
  shows "moves (lawful c run) w w'" and "at_most_one_request run w w'"
proof -
  let ?w = "\<lambda>d. effect (FlattenRequested (ex_kill_root_id r) d) (others_act run AtFlattenStart w)"
  note ga = moves_others_act [OF others inv, of _ AtFlattenStart]
  have ok: "moves (lawful c run) w (?w d)" if "kr_receipt run AtReceipt (ex_kill_root_id r) = Inr None" "ex_kill_flatten_root r = None" for d
  proof (rule moves_trans [OF ga moves_effect [OF moves_inv [OF ga]]])
    show "lawful c run (FlattenRequested (ex_kill_root_id r) d) (tables_of (others_act run AtFlattenStart w))"
      using that r inv unfolding lawful_def stored_killed_def by auto
  qed
  have prog: "quietly (?w d) w'" if "progress c run site r ch (?w d) = (res, w')" for d site ch
    using progress_moves [OF others _ that] moves_inv [OF ga] by simp
  have prog0: "quietly w w'" if "progress c run site r ch w = (res, w')" for site ch
    using progress_moves [OF others inv that] .
  show "moves (lawful c run) w w'"
    using s ok moves_refl [OF inv] prog0 [THEN quiet_lawful] moves_trans [OF ok prog [THEN quiet_lawful]]
    by (auto simp: ensure_flatten_def Let_def split: if_splits sum.splits option.splits)
  show "at_most_one_request run w w'"
    using s prog [THEN quietly_requested] prog0 [THEN quietly_requested]
    by (auto simp: ensure_flatten_def Let_def at_most_one_request_def split: if_splits sum.splits option.splits)
qed

lemma drive_kill_lawful:
  assumes others: "others_use_store run" and inv: "exp_inv (tables_of w)" and r: "stored_killed c r (tables_of w)"
  shows "moves (lawful c run) w (drive_kill c run r w)" and "at_most_one_request run w (drive_kill c run r w)"
proof -
  let ?ss = "[ensure_alert c run, prove_flat c run, check_late_exposure c run, ensure_session_end c run]"
  obtain res w1 where s: "ensure_flatten c run r w = (res, w1)" by fastforce
  note first = ensure_flatten_lawful [OF others inv r s]
  have rest: "quietly w1 (drive ?ss r' w1)" for r'
    using drive_quiet [of ?ss w1 r'] moves_inv [OF first(1)] ensure_alert_quiet [OF others] prove_flat_quiet [OF others]
      check_late_exposure_quiet [OF others] ensure_session_end_quiet [OF others] by auto
  have q: "quietly w1 (drive_kill c run r w)"
    using s rest moves_refl [OF moves_inv [OF first(1)]] by (auto simp: drive_kill_def split: sum.splits simp del: drive.simps(2))
      (auto simp: s split: sum.splits)
  show "moves (lawful c run) w (drive_kill c run r w)" using first(1) q [THEN quiet_lawful] by (rule moves_trans)
  show "at_most_one_request run w (drive_kill c run r w)"
    using first(2) quietly_requested [OF q] by (simp add: at_most_one_request_def)
qed

lemma transition_result:
  assumes inv: "exp_inv (jd_prod db)" and run: "exp_transition st i q now db = (Inr x, db')"
  shows "x \<in> set (xt_experiments (jd_prod db')) \<and> ex_account_id x = st_account_id st \<and> ex_state x = tq_to q"
proof -
  have "store_write (transition_tx st i q now) db = (Inr x, db')" using run by (auto simp: exp_transition_def split: sum.splits)
  then obtain t where t: "transition_tx st i q now (jd_prod db) = Inr (x, t)" "jd_prod db' = t" by (cases rule: store_write_cases) auto
  show ?thesis using transition_tx_effect [OF inv t(1)]
  proof cases
    case (1 r u line)
    then have "x \<in> set (xt_experiments t)" using put_row_rows [OF inv 1(1) 1(9)] by simp
    then show ?thesis using 1 t by (simp add: same_start_def)
  qed
qed

lemma active_in_tx_Some:
  assumes "exp_inv t" and "active_in_tx st t = Inr (Some r)"
  shows "r \<in> set (xt_experiments t) \<and> ex_account_id r = st_account_id st \<and> ex_state r \<noteq> STOPPED"
proof -
  obtain row where row: "fetchone (filter (\<lambda>row. fst row = st_account_id st) (xt_active t)) = Some row" "get_in_tx t (snd row) = Inr (Some r)"
    using assms(2) by (auto simp: active_in_tx_def split: option.splits)
  have "(st_account_id st, snd row) \<in> set (xt_active t)" using fetchone_filter_SomeD [OF row(1)] by (metis prod.collapse)
  then obtain x where x: "x \<in> set (xt_experiments t)" "ex_account_id x = st_account_id st" "ex_experiment_id x = snd row" "ex_state x \<noteq> STOPPED"
    using assms(1) by (auto simp: exp_inv_def)
  then have "x = r" using exp_inv_fetch [OF assms(1) x(1)] row(2) by simp
  then show ?thesis using x by simp
qed

lemma store_call_Inr:
  "store_call run site f w = (Inr x, w') \<Longrightarrow>
     f (kr_gap run site (kw_db w)) = (Inr x, kw_db w') \<and> kw_effects w' = kw_effects w \<and> kw_monitor w' = kw_monitor w"
  by (auto simp: store_call_def Let_def split: if_splits prod.splits)

lemma read_active_quiet:
  assumes "others_use_store run" and "exp_inv (tables_of w)" and "read_active c run w = (res, w')"
  shows "quietly w w'" and "kw_monitor w' = kw_monitor w"
  using moves_store_call [OF assms(1) store_ops(1) assms(2) assms(3) [unfolded read_active_def]] by simp_all

lemma read_active_stored:
  assumes "others_use_store run" and "exp_inv (tables_of w)" and "read_active c run w = (Inr (Some r), w')"
  shows "r \<in> set (xt_experiments (tables_of w')) \<and> ex_account_id r = st_account_id (kc_store c) \<and> ex_state r \<noteq> STOPPED"
proof -
  have "active_in_tx (kc_store c) (tables_of w') = Inr (Some r)"
    using store_call_Inr [OF assms(3) [unfolded read_active_def]] by auto
  then show ?thesis using active_in_tx_Some moves_inv [OF read_active_quiet(1) [OF assms]] by blast
qed

lemma kill_lawful:
  assumes others: "others_use_store run" and inv: "exp_inv (tables_of w)"
  shows "moves (lawful c run) w (kill c run r sn ev w)" and "at_most_one_request run w (kill c run r sn ev w)"
proof -
  let ?f = "exp_transition (kc_store c) (ex_experiment_id r) (kill_request r sn ev (kr_now run AtKilledAt)) (kr_now run AtKill)"
  obtain res w1 where s: "store_call run AtKill ?f w = (res, w1)" by fastforce
  have q: "quietly w w1" using moves_store_call [OF others store_ops(2) inv s] by blast
  have stored: "stored_killed c x (tables_of w1)" if "res = Inr x" for x
    using transition_result [OF gap_keeps(1) [OF others inv]] store_call_Inr [OF s [unfolded that]]
    by (auto simp: stored_killed_def kill_request_def)
  show "moves (lawful c run) w (kill c run r sn ev w)"
    using s q [THEN quiet_lawful] drive_kill_lawful(1) [OF others moves_inv [OF q] stored]
    by (auto simp: kill_def split: sum.splits intro: moves_trans)
  show "at_most_one_request run w (kill c run r sn ev w)"
    using s drive_kill_lawful(2) [OF others moves_inv [OF q] stored] quietly_requested [OF q]
    by (auto simp: kill_def at_most_one_request_def split: sum.splits)
qed

lemma quiet_one_request: "quietly w w' \<Longrightarrow> at_most_one_request run w w'"
  by (simp add: at_most_one_request_def quietly_requested)

lemma after_quiet:
  assumes "quietly u v"
  shows "moves (lawful c run) v w \<Longrightarrow> moves (lawful c run) u w" and "at_most_one_request run v w \<Longrightarrow> at_most_one_request run u w"
  using moves_trans [OF quiet_lawful [OF assms]] quietly_requested [OF assms] by (auto simp: at_most_one_request_def)

lemma requested_on_monitor [simp]: "requested (on_monitor f w) = requested w"
  by (simp add: requested_def)

lemma kill_evaluate_lawful:
  assumes others: "others_use_store run" and inv: "exp_inv (tables_of w)" and s: "kill_evaluate c run r sn w = (res, w')"
  shows "moves (lawful c run) w w'" and "at_most_one_request run w w'"
proof -
  let ?f = "raise_peak (kc_store c) (ex_experiment_id r) (sn_net_liquidation sn)"
  obtain p w1 where p: "store_call run AtPeak ?f (on_monitor end_unknown_streak w) = (p, w1)" by fastforce
  have q1: "quietly w w1"
    using moves_store_call [OF others store_ops(4) _ p] inv moves_on_monitor [OF inv] by (metis moves_trans on_monitor_simps(1))
  have qm: "quietly w (on_monitor f w1)" for f using q1 moves_on_monitor [OF moves_inv [OF q1]] by (rule moves_trans)
  have qmm: "quietly w (on_monitor g (on_monitor f w1))" for f g
    using qm moves_on_monitor [OF moves_inv [OF qm]] by (rule moves_trans)
  have k: "moves (lawful c run) v (kill c run r sn ev v)" "at_most_one_request run v (kill c run r sn ev v)"
    if "quietly w v" for ev v using kill_lawful [OF others moves_inv [OF that]] by blast+
  show "moves (lawful c run) w w'"
    using s p q1 [THEN quiet_lawful] qmm [THEN quiet_lawful] after_quiet(1) [OF qmm k(1) [OF qmm]]
    by (auto simp: kill_evaluate_def Let_def split: sum.splits option.splits if_splits)
  show "at_most_one_request run w w'"
    using s p q1 [THEN quiet_one_request] qmm [THEN quiet_one_request] after_quiet(2) [OF qmm k(2) [OF qmm]]
    by (auto simp: kill_evaluate_def Let_def split: sum.splits option.splits if_splits)
qed

lemma noop_mutate_prod:
  fixes item :: "('p, 'e) batch_item"
  assumes "bi_write item = (\<lambda>t _. Inr t)" and "mutate item db = (res, db')"
  shows "jd_prod db' = jd_prod db"
proof -
  have "mutate_batch_work (journal_append (bi_received_ts item) (bi_uuid item) (bi_mutation item) (bi_write item) (bi_event_id item)) db = (res, db')"
    using assms(2) by (simp add: mutate_work)
  then show ?thesis
    by (cases rule: batch_work_prod)
      (auto simp: assms(1) journal_append_def insert_journal_row_def upsert_materialized_def Let_def
        split: option.splits if_splits prod.splits sum.splits operation.splits)
qed

lemma journal_item_prod:
  assumes "bi_write item = (\<lambda>t _. Inr t)"
  shows "jd_prod (snd (journal_item item db)) = jd_prod db"
proof -
  obtain res db' where m: "mutate item db = (res, db')" by fastforce
  then show ?thesis using noop_mutate_prod [OF assms m] by (auto simp: journal_item_def split: sum.splits)
qed

lemma journal_item_op: "bi_write item = (\<lambda>t _. Inr t) \<Longrightarrow> store_op (journal_item item)"
  unfolding store_op_def by (intro allI r_into_rtranclp step_elsewhere) (simp_all add: journal_item_prod)

lemma record_incident_quiet:
  assumes "others_use_store run" and inv: "exp_inv (tables_of w)"
  shows "quietly w (record_incident c run r now w)"
proof -
  have "store_op (journal_item (incident_item c run r now (kw_monitor w)))"
    by (rule journal_item_op) (simp add: incident_item_def Let_def)
  from moves_store_call [OF assms(1) this inv prod.collapse [symmetric]] show ?thesis
    using moves_refl [OF inv] by (auto simp: record_incident_def)
qed

lemma outage_quiet:
  assumes "others_use_store run" and inv: "exp_inv (tables_of w)" and s: "outage c run r now w = (res, w')"
  shows "quietly w w'"
proof -
  let ?f = "exp_transition (kc_store c) (ex_experiment_id r) (outage_pause now (kw_monitor w) r) (kr_now run AtPause)"
  obtain p w1 where p: "store_call run AtPause ?f w = (p, w1)" by fastforce
  have q: "quietly w w1" using moves_store_call [OF assms(1) store_ops(2) inv p] by blast
  have al: "quietly v (outage_alert c run x v)" if "exp_inv (tables_of v)" for x v
  proof -
    obtain a v1 where a: "send_alert c run (''broker_outage:'' @ ex_experiment_id x @ '':'' @ string_of_int (ex_revision x)) ''broker_outage'' v = (a, v1)"
      by fastforce
    have "quietly v v1" using send_alert_quiet [OF that a] by blast
    then show ?thesis using a moves_trans moves_on_monitor moves_inv by (fastforce simp: outage_alert_def)
  qed
  show ?thesis using s p q al [OF inv] moves_trans [OF q al [OF moves_inv [OF q]]]
    by (auto simp: outage_def split: if_splits sum.splits experiment_error.splits)
qed

lemma on_unknown_quiet:
  assumes "others_use_store run" and inv: "exp_inv (tables_of w)" and s: "on_unknown c run r w = (res, w')"
  shows "quietly w w'"
proof -
  let ?w = "if km_unknown_since (kw_monitor w) = None then record_incident c run r (kr_now run AtUnknown)
      (on_monitor (\<lambda>m. m\<lparr>km_unknown_since := Some (kr_now run AtUnknown), km_outage_handled := False\<rparr>) w) else w"
  have q: "quietly w ?w"
    using record_incident_quiet [OF assms(1)] moves_on_monitor [OF inv] moves_refl [OF inv] inv moves_trans
    by (auto) (metis (no_types, lifting) on_monitor_simps(1))
  show ?thesis using s q moves_trans [OF q outage_quiet [OF assms(1) moves_inv [OF q]]]
    by (auto simp: on_unknown_def Let_def split: if_splits)
qed

lemma kill_tick_lawful:
  assumes others: "others_use_store run" and inv: "exp_inv (tables_of w)" and s: "kill_tick c run w = (res, w')"
  shows "moves (lawful c run) w w'" and "at_most_one_request run w w'"
proof -
  obtain a w1 where a: "read_active c run w = (a, w1)" by fastforce
  note q = read_active_quiet(1) [OF others inv a]
  note inv1 = moves_inv [OF q]
  have stored: "stored_killed c r (tables_of w1)" if "a = Inr (Some r)" "ex_state r = KILLED" for r
    using read_active_stored [OF others inv a [unfolded that]] that by (simp add: stored_killed_def)
  have rec: "moves (lawful c run) w1 (on_monitor f (drive_kill c run r w1)) \<and> at_most_one_request run w1 (on_monitor f (drive_kill c run r w1))"
    if "a = Inr (Some r)" "ex_state r = KILLED" for r f
    using drive_kill_lawful [OF others inv1 stored [OF that]] moves_on_monitor moves_inv moves_trans
    by (metis at_most_one_request_def requested_on_monitor)
  have mon: "quietly w1 (on_monitor f w1)" for f using moves_on_monitor [OF inv1] .
  have cap: "\<exists>f. snd (evaluable_capture c run w1) = on_monitor f w1"
    by (auto simp: evaluable_capture_def Let_def split: sum.splits)
  have w1: "moves (lawful c run) w1 w' \<and> at_most_one_request run w1 w'"
  proof (cases "\<exists>r. a = Inr (Some r) \<and> km_recovered (kw_monitor w) \<and> ex_state r \<noteq> KILLED")
    case False
    then show ?thesis
      using s a rec drive_kill_lawful [OF others inv1 stored] quiet_lawful [OF mon] quiet_one_request [OF mon]
        quiet_lawful [OF moves_refl [OF inv1]] quiet_one_request [OF moves_refl [OF inv1]]
      by (auto simp: kill_tick_def kill_recover_def split: if_splits sum.splits option.splits)
  next
    case True
    then obtain r where r: "a = Inr (Some r)" "km_recovered (kw_monitor w)" "ex_state r \<noteq> KILLED" by blast
    obtain o1 w2 where c2: "evaluable_capture c run w1 = (o1, w2)" by fastforce
    then have q2: "quietly w1 w2" using cap mon by auto
    show ?thesis
    proof (cases o1)
      case None
      then have "on_unknown c run r w2 = (res, w')" using s a r c2 by (simp add: kill_tick_def)
      then show ?thesis using on_unknown_quiet [OF others moves_inv [OF q2]] q2 moves_trans quiet_lawful quiet_one_request by metis
    next
      case (Some sn)
      then obtain res2 where "kill_evaluate c run r sn w2 = (res2, w')" using s a r c2
        by (auto simp: kill_tick_def split: prod.splits)
      then show ?thesis using kill_evaluate_lawful [OF others moves_inv [OF q2]] after_quiet [OF q2] by metis
    qed
  qed
  show "moves (lawful c run) w w'" "at_most_one_request run w w'" using w1 after_quiet [OF q] by auto
qed

section \<open>What a call leaves alone\<close>

text \<open>The experiments whose row satisfies \<open>p\<close>, and calls after which no other experiment satisfies it.\<close>

definition ids_of :: "(experiment_record \<Rightarrow> bool) \<Rightarrow> experiment_tables \<Rightarrow> string set" where
  "ids_of p t = ex_experiment_id ` {x \<in> set (xt_experiments t). p x}"

lemma ids_of_iff: "i \<in> ids_of p t \<longleftrightarrow> (\<exists>x \<in> set (xt_experiments t). ex_experiment_id x = i \<and> p x)"
  by (auto simp: ids_of_def)

definition safe_change :: "(experiment_record \<Rightarrow> bool) \<Rightarrow> (experiment_record \<Rightarrow> experiment_record) \<Rightarrow> bool" where
  "safe_change p f \<longleftrightarrow> (\<forall>r. p (f r) \<longrightarrow> p r)"

definition safe_change_at :: "string \<Rightarrow> (experiment_record \<Rightarrow> bool) \<Rightarrow> (experiment_record \<Rightarrow> experiment_record) \<Rightarrow> bool" where
  "safe_change_at i p f \<longleftrightarrow> (\<forall>r. ex_experiment_id r = i \<longrightarrow> p (f r) \<longrightarrow> p r)"

lemma safe_change_anywhere: "safe_change p f \<Longrightarrow> safe_change_at i p f"
  by (simp add: safe_change_def safe_change_at_def)

definition others_leave :: "(experiment_record \<Rightarrow> bool) \<Rightarrow> kill_run \<Rightarrow> bool" where
  "others_leave p run \<longleftrightarrow> (\<forall>site db. exp_inv (jd_prod db) \<longrightarrow> ids_of p (jd_prod (kr_gap run site db)) \<subseteq> ids_of p (jd_prod db))"

definition op_leaves :: "(experiment_record \<Rightarrow> bool) \<Rightarrow> (experiment_db \<Rightarrow> 'r \<times> experiment_db) \<Rightarrow> bool" where
  "op_leaves p f \<longleftrightarrow> (\<forall>db. exp_inv (jd_prod db) \<longrightarrow> ids_of p (jd_prod (snd (f db))) \<subseteq> ids_of p (jd_prod db))"

definition leaves :: "(experiment_record \<Rightarrow> bool) \<Rightarrow> kill_world \<Rightarrow> kill_world \<Rightarrow> bool" where
  "leaves p w w' \<longleftrightarrow> exp_inv (tables_of w') \<and> ids_of p (tables_of w') \<subseteq> ids_of p (tables_of w)"

lemma leaves_trans: "leaves p u v \<Longrightarrow> leaves p v w \<Longrightarrow> leaves p u w"
  by (auto simp: leaves_def)

lemma leaves_same: "exp_inv (tables_of w) \<Longrightarrow> kw_db w' = kw_db w \<Longrightarrow> leaves p w w'"
  by (simp add: leaves_def)

lemma put_row_leaves:
  assumes "exp_inv t" and "r \<in> set (xt_experiments t)" and "same_start u r" and "p u \<longrightarrow> p r"
  shows "ids_of p (put_row u t) \<subseteq> ids_of p t"
  using put_row_rows [OF assms(1-3)] assms(2-4) unfolding ids_of_def same_start_def by (auto simp: image_iff)

lemma transition_leaves:
  assumes "tq_to q \<noteq> STOPPED"
    and "safe_change_at i p (\<lambda>r. apply_changes (tq_changes q) (r\<lparr>ex_state := tq_to q, ex_revision := ex_revision r + 1\<rparr>))"
  shows "op_leaves p (exp_transition st i q now)"
  unfolding op_leaves_def
proof (intro allI impI)
  fix db :: experiment_db
  assume inv: "exp_inv (jd_prod db)"
  show "ids_of p (jd_prod (snd (exp_transition st i q now db))) \<subseteq> ids_of p (jd_prod db)"
  proof (cases "check_changes (tq_changes q)")
    case (Inr u)
    obtain res db' where w: "store_write (transition_tx st i q now) db = (res, db')" by fastforce
    then have "ids_of p (jd_prod db') \<subseteq> ids_of p (jd_prod db)"
    proof (cases rule: store_write_cases)
      case (committed x t)
      show ?thesis using transition_tx_effect [OF inv committed(1)]
      proof cases
        case (1 r u line)
        have "p u \<longrightarrow> p r" using spec [OF assms(2) [unfolded safe_change_at_def], of r] assms(1) 1(2) unfolding 1(6) by (metis id_apply)
        then show ?thesis using put_row_leaves [OF inv 1(1) 1(9)] 1(12) committed(3) by (simp add: ids_of_def)
      qed
    qed simp
    then show ?thesis using Inr w by (simp add: exp_transition_def)
  qed (simp add: exp_transition_def)
qed

lemma progress_op_leaves:
  assumes "safe_change p (apply_changes changes)"
  shows "op_leaves p (update_kill_progress st i s changes)"
  unfolding op_leaves_def
proof (intro allI impI)
  fix db :: experiment_db
  assume inv: "exp_inv (jd_prod db)"
  show "ids_of p (jd_prod (snd (update_kill_progress st i s changes db))) \<subseteq> ids_of p (jd_prod db)"
  proof (cases "check_changes changes")
    case (Inr u)
    obtain res db' where w: "store_write (kill_progress_tx st i s changes) db = (res, db')" by fastforce
    then have "ids_of p (jd_prod db') \<subseteq> ids_of p (jd_prod db)"
    proof (cases rule: store_write_cases)
      case (committed x t)
      show ?thesis using kill_progress_tx_effect [OF inv committed(1)]
      proof cases
        case (1 r)
        have "p x \<longrightarrow> p r" "same_start x r"
          unfolding 1(5) using spec [OF assms [unfolded safe_change_def], of r] apply_changes_keeps(1) by blast+
        then show ?thesis using put_row_leaves [OF inv 1(1)] 1(7) committed(3) by simp
      qed
    qed simp
    then show ?thesis using Inr w by (simp add: update_kill_progress_def)
  qed (simp add: update_kill_progress_def)
qed

lemma peak_op_leaves:
  assumes "\<And>v. safe_change p (\<lambda>r. r\<lparr>ex_peak_net_liquidation := v\<rparr>)"
  shows "op_leaves p (raise_peak st i v)"
  unfolding op_leaves_def
proof (intro allI impI)
  fix db :: experiment_db
  assume inv: "exp_inv (jd_prod db)"
  show "ids_of p (jd_prod (snd (raise_peak st i v db))) \<subseteq> ids_of p (jd_prod db)"
  proof (cases "is_positive v")
    case True
    obtain res db' where w: "store_write (raise_peak_tx st i v) db = (res, db')" by fastforce
    then have "ids_of p (jd_prod db') \<subseteq> ids_of p (jd_prod db)"
    proof (cases rule: store_write_cases)
      case (committed x t)
      show ?thesis using raise_peak_tx_effect [OF inv committed(1) True]
      proof cases
        case (1 r)
        have "same_start (r\<lparr>ex_peak_net_liquidation := x\<rparr>) r" by (simp add: same_start_def)
        moreover have "p (r\<lparr>ex_peak_net_liquidation := x\<rparr>) \<longrightarrow> p r" using assms [of x] unfolding safe_change_def by blast
        ultimately show ?thesis using put_row_leaves [OF inv 1(1)] 1(5) committed(3) by simp
      qed
    qed simp
    then show ?thesis using True w by (simp add: raise_peak_def)
  qed (simp add: raise_peak_def)
qed

lemma store_call_leaves:
  assumes "others_use_store run" and "others_leave p run" and "store_op f" and "op_leaves p f" and "exp_inv (tables_of w)"
    and "store_call run site f w = (res, w')"
  shows "leaves p w w'"
proof -
  have inv: "exp_inv (tables_of w')" using moves_store_call [OF assms(1,3,5,6)] moves_inv by blast
  have g: "exp_inv (jd_prod (kr_gap run site (kw_db w)))" using gap_keeps(1) [OF assms(1,5)] .
  have "ids_of p (tables_of w') \<subseteq> ids_of p (jd_prod (kr_gap run site (kw_db w)))"
    using assms(6) assms(4) g unfolding op_leaves_def store_call_def Let_def by (fastforce split: if_splits prod.splits)
  also have "\<dots> \<subseteq> ids_of p (tables_of w)" using assms(2,5) by (simp add: others_leave_def)
  finally show ?thesis using inv by (simp add: leaves_def)
qed

lemma progress_leaves:
  assumes "others_use_store run" and "others_leave p run" and "safe_change p (apply_changes changes)" and "exp_inv (tables_of w)"
    and "progress c run site r changes w = (res, w')"
  shows "leaves p w w'"
  using store_call_leaves [OF assms(1,2) store_ops(3) progress_op_leaves [OF assms(3)] assms(4)] assms(5) unfolding progress_def by blast

text \<open>A condition on rows that the steps of a kill may lose but not gain.\<close>

definition kill_safe :: "(experiment_record \<Rightarrow> bool) \<Rightarrow> bool" where
  "kill_safe p \<longleftrightarrow> (\<forall>v. safe_change p (apply_changes [KillFlattenRoot v])) \<and> (\<forall>v. safe_change p (apply_changes [KillAlertState v]))
     \<and> (\<forall>v. safe_change p (apply_changes [KillFlatState (Some FlatFailedSafe), KillFlatAt v]))
     \<and> (\<forall>a b. safe_change p (apply_changes [KillRound a, KillRootId b, KillFlattenRoot None, KillFlatState (Some FlatPending),
          KillFlatGeneration None, KillFlatAt None]))
     \<and> (\<forall>v. safe_change p (apply_changes [KillSessionEndState v]))
     \<and> (\<forall>g v. safe_change p (apply_changes [KillFlatState (Some ProvenFlat), KillFlatGeneration g, KillFlatAt v]))"

definition detect_safe :: "(experiment_record \<Rightarrow> bool) \<Rightarrow> bool" where
  "detect_safe p \<longleftrightarrow> (\<forall>v. safe_change p (\<lambda>r. r\<lparr>ex_peak_net_liquidation := v\<rparr>))
     \<and> (\<forall>a b. safe_change p (\<lambda>r. apply_changes [PauseCause a, PauseGenerationId b] (r\<lparr>ex_state := PAUSED, ex_revision := ex_revision r + 1\<rparr>)))"

lemma send_alert_db: "send_alert c run i k w = (res, w') \<Longrightarrow> kw_db w' = kw_db w"
  by (auto simp: send_alert_def split: if_splits)

definition step_leaves ::
    "(experiment_record \<Rightarrow> bool) \<Rightarrow> (experiment_record \<Rightarrow> kill_world \<Rightarrow> (experiment_error + experiment_record) \<times> kill_world) \<Rightarrow> bool" where
  "step_leaves p s \<longleftrightarrow> (\<forall>r w res w'. exp_inv (tables_of w) \<longrightarrow> s r w = (res, w') \<longrightarrow> leaves p w w')"

lemma drive_leaves: "list_all (step_leaves p) ss \<Longrightarrow> exp_inv (tables_of w) \<Longrightarrow> leaves p w (drive ss r w)"
proof (induction ss arbitrary: r w)
  case (Cons s ss)
  obtain res w1 where s: "s r w = (res, w1)" by fastforce
  then have q: "leaves p w w1" using Cons.prems unfolding step_leaves_def by auto
  then have rest: "leaves p w1 (drive ss r' w1)" for r' using Cons by (simp add: leaves_def)
  show ?case using s q rest by (auto split: sum.splits intro: leaves_trans)
qed (simp add: leaves_same)

lemma progress_on:
  assumes "progress c run site r ch v = (res, w')" and "kw_db v = kw_db w" and "others_use_store run" and "others_leave p run"
    and "safe_change p (apply_changes ch)" and "exp_inv (tables_of w)"
  shows "leaves p w w'"
  using progress_leaves [OF assms(3-5) _ assms(1)] assms(2,6) by (simp add: leaves_def)

lemma leaves_others_act:
  "others_use_store run \<Longrightarrow> others_leave p run \<Longrightarrow> exp_inv (tables_of w) \<Longrightarrow> leaves p w (others_act run site w)"
  using gap_keeps by (simp add: leaves_def others_leave_def)

lemma ensure_flatten_leaves:
  "others_use_store run \<Longrightarrow> others_leave p run \<Longrightarrow> (\<And>v. safe_change p (apply_changes [KillFlattenRoot v])) \<Longrightarrow> step_leaves p (ensure_flatten c run)"
  unfolding step_leaves_def
proof (intro allI impI)
  fix r w res w'
  assume others: "others_use_store run" "others_leave p run" and safe: "\<And>v. safe_change p (apply_changes [KillFlattenRoot v])"
    and inv: "exp_inv (tables_of w)" and s: "ensure_flatten c run r w = (res, w')"
  note g = leaves_others_act [OF others inv, of AtFlattenStart]
  have eff: "leaves p w (effect e (others_act run AtFlattenStart w))" for e using g by (simp add: leaves_def)
  have prog: "leaves p w w'" if "progress c run site r [KillFlattenRoot v] (effect e (others_act run AtFlattenStart w)) = (res, w')" for site v e
    using leaves_trans [OF eff progress_leaves [OF others safe _ that]] eff by (simp add: leaves_def)
  show "leaves p w w'"
    using s leaves_same [OF inv refl] eff prog progress_leaves [OF others safe inv]
    by (auto simp: ensure_flatten_def Let_def split: if_splits sum.splits option.splits)
qed

lemma ensure_alert_leaves:
  "others_use_store run \<Longrightarrow> others_leave p run \<Longrightarrow> (\<And>v. safe_change p (apply_changes [KillAlertState v])) \<Longrightarrow> step_leaves p (ensure_alert c run)"
  unfolding step_leaves_def ensure_alert_def
  by (auto split: if_splits prod.splits option.splits dest!: send_alert_db elim!: progress_on intro: leaves_same)

lemma prove_flat_leaves:
  assumes "others_use_store run" and "others_leave p run" and "\<And>v. safe_change p (apply_changes [KillFlattenRoot v])"
    and "\<And>v. safe_change p (apply_changes [KillFlatState (Some FlatFailedSafe), KillFlatAt v])"
    and "\<And>g v. safe_change p (apply_changes [KillFlatState (Some ProvenFlat), KillFlatGeneration g, KillFlatAt v])"
  shows "step_leaves p (prove_flat c run)"
  unfolding step_leaves_def prove_flat_def using assms
  by (auto simp: leaves_same split: if_splits sum.splits option.splits elim!: progress_on)

lemma check_late_exposure_leaves:
  assumes "others_use_store run" and "others_leave p run"
    and "\<And>a b. safe_change p (apply_changes [KillRound a, KillRootId b, KillFlattenRoot None, KillFlatState (Some FlatPending),
          KillFlatGeneration None, KillFlatAt None])"
  shows "step_leaves p (check_late_exposure c run)"
  unfolding step_leaves_def check_late_exposure_def using assms
  by (auto simp: leaves_same split: if_splits sum.splits elim!: progress_on)

lemma ensure_session_end_leaves:
  "others_use_store run \<Longrightarrow> others_leave p run \<Longrightarrow> (\<And>v. safe_change p (apply_changes [KillSessionEndState v])) \<Longrightarrow> step_leaves p (ensure_session_end c run)"
  unfolding step_leaves_def ensure_session_end_def
  by (auto simp: leaves_same split: if_splits elim!: progress_on)

lemma drive_kill_leaves:
  assumes "others_use_store run" and "others_leave p run" and "kill_safe p" and "exp_inv (tables_of w)"
  shows "leaves p w (drive_kill c run r w)"
  unfolding drive_kill_def
proof (rule drive_leaves [OF _ assms(4)])
  show "list_all (step_leaves p) [ensure_flatten c run, ensure_alert c run, prove_flat c run, check_late_exposure c run, ensure_session_end c run]"
    using assms(3) ensure_flatten_leaves [OF assms(1,2)] ensure_alert_leaves [OF assms(1,2)] prove_flat_leaves [OF assms(1,2)]
      check_late_exposure_leaves [OF assms(1,2)] ensure_session_end_leaves [OF assms(1,2)]
    by (simp add: kill_safe_def)
qed

text \<open>The loop over the steps of a kill adds no row that satisfies \<open>p\<close>.\<close>

definition drive_leaves_alone :: "(experiment_record \<Rightarrow> bool) \<Rightarrow> kill_config \<Rightarrow> kill_run \<Rightarrow> bool" where
  "drive_leaves_alone p c run \<longleftrightarrow>
     (\<forall>r w. exp_inv (tables_of w) \<longrightarrow> stored_killed c r (tables_of w) \<longrightarrow> leaves p w (drive_kill c run r w))"

lemma drive_leaves_aloneI:
  "others_use_store run \<Longrightarrow> others_leave p run \<Longrightarrow> kill_safe p \<Longrightarrow> drive_leaves_alone p c run"
  using drive_kill_leaves by (simp add: drive_leaves_alone_def)

text \<open>The capture breaches the kill line of \<open>r\<close>.\<close>

definition line_hit :: "kill_config \<Rightarrow> kill_run \<Rightarrow> experiment_record \<Rightarrow> risk_snapshot \<Rightarrow> experiment_db \<Rightarrow> bool" where
  "line_hit c run r sn db \<longleftrightarrow> (\<exists>line peak ev. effective_kill_line (kc_configured_pct c) r = Some line
     \<and> fst (raise_peak (kc_store c) (ex_experiment_id r) (sn_net_liquidation sn) (kr_gap run AtPeak db)) = Inr peak
     \<and> evaluate_kill_line (kc_rnd c) line (ex_kill_anchor_net_liquidation r) peak (sn_net_liquidation sn) = Some ev \<and> ke_hit ev)"

text \<open>A tick sees a breach: the monitor has recovered, the active experiment is not killed, and the capture can be trusted.\<close>

definition breach :: "kill_config \<Rightarrow> kill_run \<Rightarrow> kill_world \<Rightarrow> experiment_record \<Rightarrow> risk_snapshot \<Rightarrow> bool" where
  "breach c run w r sn \<longleftrightarrow> km_recovered (kw_monitor w)
     \<and> active_in_tx (kc_store c) (jd_prod (kr_gap run AtActive (kw_db w))) = Inr (Some r) \<and> ex_state r \<noteq> KILLED
     \<and> kr_capture run AtDetect = Inr sn \<and> unusable_reason c (kw_monitor w) sn = None
     \<and> line_hit c run r sn (kr_gap run AtActive (kw_db w))"

text \<open>The kill of \<open>r\<close> makes no new row satisfy \<open>p\<close>.\<close>

definition kill_write_safe :: "(experiment_record \<Rightarrow> bool) \<Rightarrow> experiment_record \<Rightarrow> bool" where
  "kill_write_safe p r \<longleftrightarrow> (\<forall>sn ev t. safe_change_at (ex_experiment_id r) p (\<lambda>x. apply_changes (tq_changes (kill_request r sn ev t))
     (x\<lparr>ex_state := KILLED, ex_revision := ex_revision x + 1\<rparr>)))"

lemma kill_leaves:
  assumes others: "others_use_store run" "others_leave p run" and safe: "drive_leaves_alone p c run" "kill_write_safe p r" and inv: "exp_inv (tables_of w)"
  shows "leaves p w (kill c run r sn ev w)"
proof -
  let ?q = "kill_request r sn ev (kr_now run AtKilledAt)"
  obtain res w1 where s: "store_call run AtKill (exp_transition (kc_store c) (ex_experiment_id r) ?q (kr_now run AtKill)) w = (res, w1)" by fastforce
  have to: "tq_to ?q = KILLED" by (simp add: kill_request_def)
  have "op_leaves p (exp_transition (kc_store c) (ex_experiment_id r) ?q (kr_now run AtKill))"
    by (rule transition_leaves) (use safe(2) in \<open>simp_all add: to kill_write_safe_def\<close>)
  from store_call_leaves [OF others store_ops(2) this inv s] have q: "leaves p w w1" .
  have stored: "stored_killed c x (tables_of w1)" if "res = Inr x" for x
    using transition_result [OF gap_keeps(1) [OF others(1) inv]] store_call_Inr [OF s [unfolded that]]
    by (auto simp: stored_killed_def kill_request_def)
  show ?thesis using s q stored safe(1) leaves_trans unfolding kill_def leaves_def drive_leaves_alone_def
    by (auto split: sum.splits)
qed

lemma kill_evaluate_leaves:
  assumes others: "others_use_store run" "others_leave p run" and safe: "drive_leaves_alone p c run" "detect_safe p" and inv: "exp_inv (tables_of w)"
    and hit: "line_hit c run r sn (kw_db w) \<Longrightarrow> kill_write_safe p r" and s: "kill_evaluate c run r sn w = (res, w')"
  shows "leaves p w w'"
proof -
  let ?f = "raise_peak (kc_store c) (ex_experiment_id r) (sn_net_liquidation sn)"
  obtain x w1 where x: "store_call run AtPeak ?f (on_monitor end_unknown_streak w) = (x, w1)" by fastforce
  have "op_leaves p ?f" by (rule peak_op_leaves) (use safe in \<open>simp add: detect_safe_def\<close>)
  from store_call_leaves [OF others store_ops(4) this _ x] have q: "leaves p w w1" using inv by (simp add: leaves_def)
  have k: "leaves p w (kill c run r sn ev v)" if "kw_db v = kw_db w1" "line_hit c run r sn (kw_db w)" for v ev
  proof -
    have "leaves p v (kill c run r sn ev v)"
      using kill_leaves [OF others safe(1) hit [OF that(2)], of v] q that(1) by (simp add: leaves_def)
    then show ?thesis using q that(1) by (auto simp: leaves_def)
  qed
  have l: "line_hit c run r sn (kw_db w)" if "x = Inr peak" "effective_kill_line (kc_configured_pct c) r = Some line"
    "evaluate_kill_line (kc_rnd c) line (ex_kill_anchor_net_liquidation r) peak (sn_net_liquidation sn) = Some ev" "ke_hit ev" for peak line ev
    using that store_call_Inr [OF x [unfolded that(1)]] unfolding line_hit_def by force
  have q': "leaves p w v" if "kw_db v = kw_db w1" for v using q that by (simp add: leaves_def)
  show ?thesis using s x
    by (auto simp: kill_evaluate_def Let_def intro: q' k l split: sum.splits option.splits if_splits)
qed

lemma record_incident_leaves:
  assumes "others_use_store run" and "others_leave p run" and inv: "exp_inv (tables_of w)"
  shows "leaves p w (record_incident c run r now w)"
proof -
  let ?i = "incident_item c run r now (kw_monitor w)"
  have wr: "bi_write ?i = (\<lambda>t _. Inr t)" by (simp add: incident_item_def Let_def)
  have "op_leaves p (journal_item ?i)" by (simp add: op_leaves_def journal_item_prod [OF wr])
  from store_call_leaves [OF assms(1,2) journal_item_op [OF wr] this inv prod.collapse [symmetric]]
  show ?thesis using leaves_same [OF inv refl] by (auto simp: record_incident_def)
qed

lemma outage_alert_db: "kw_db (outage_alert c run r w) = kw_db w"
  by (auto simp: outage_alert_def split: prod.splits dest: send_alert_db)

lemma outage_leaves:
  assumes others: "others_use_store run" "others_leave p run" and safe: "detect_safe p" and inv: "exp_inv (tables_of w)"
    and s: "outage c run r now w = (res, w')"
  shows "leaves p w w'"
proof -
  let ?q = "outage_pause now (kw_monitor w) r"
  obtain x w1 where x: "store_call run AtPause (exp_transition (kc_store c) (ex_experiment_id r) ?q (kr_now run AtPause)) w = (x, w1)" by fastforce
  have "op_leaves p (exp_transition (kc_store c) (ex_experiment_id r) ?q (kr_now run AtPause))"
    by (rule transition_leaves) (use safe in \<open>simp_all add: outage_pause_def detect_safe_def safe_change_anywhere\<close>)
  from store_call_leaves [OF others store_ops(2) this inv x] have "leaves p w w1" .
  then have "leaves p w v" if "kw_db v = kw_db w1" for v using that by (simp add: leaves_def)
  then show ?thesis using s x leaves_same [OF inv outage_alert_db] outage_alert_db
    by (auto simp: outage_def split: if_splits sum.splits experiment_error.splits)
qed

lemma on_unknown_leaves:
  assumes others: "others_use_store run" "others_leave p run" and safe: "detect_safe p" and inv: "exp_inv (tables_of w)"
    and s: "on_unknown c run r w = (res, w')"
  shows "leaves p w w'"
proof -
  let ?w = "if km_unknown_since (kw_monitor w) = None then record_incident c run r (kr_now run AtUnknown)
      (on_monitor (\<lambda>m. m\<lparr>km_unknown_since := Some (kr_now run AtUnknown), km_outage_handled := False\<rparr>) w) else w"
  have q: "leaves p w ?w"
    using record_incident_leaves [OF others, of "on_monitor (\<lambda>m. m\<lparr>km_unknown_since := Some (kr_now run AtUnknown), km_outage_handled := False\<rparr>) w"] inv
    by (simp add: leaves_def)
  then have "exp_inv (tables_of ?w)" by (simp add: leaves_def)
  from outage_leaves [OF others safe this] show ?thesis using s q leaves_trans [OF q]
    by (auto simp: on_unknown_def Let_def split: if_splits)
qed

lemma evaluable_capture_cases:
  assumes "evaluable_capture c run w = (x, w')"
  shows "kw_db w' = kw_db w" and "x = Some sn \<Longrightarrow> kr_capture run AtDetect = Inr sn \<and> unusable_reason c (kw_monitor w) sn = None"
  using assms by (auto simp: evaluable_capture_def Let_def split: sum.splits if_splits)

lemma kill_tick_leaves:
  assumes others: "others_use_store run" "others_leave p run" and safe: "drive_leaves_alone p c run" "detect_safe p" and inv: "exp_inv (tables_of w)"
    and hit: "\<And>r sn. breach c run w r sn \<Longrightarrow> kill_write_safe p r" and s: "kill_tick c run w = (res, w')"
  shows "leaves p w w'"
proof -
  obtain a w1 where a: "read_active c run w = (a, w1)" by fastforce
  have "op_leaves p (\<lambda>db. (active_in_tx (kc_store c) (jd_prod db), db))" by (simp add: op_leaves_def)
  from store_call_leaves [OF others store_ops(1) this inv a [unfolded read_active_def]] have q: "leaves p w w1" .
  then have inv1: "exp_inv (tables_of w1)" by (simp add: leaves_def)
  note mon = read_active_quiet(2) [OF others(1) inv a]
  have d: "leaves p w (drive_kill c run r w1)" if "a = Inr (Some r)" "ex_state r = KILLED" for r
  proof -
    have "stored_killed c r (tables_of w1)"
      using read_active_stored [OF others(1) inv a [unfolded that(1)]] that(2) by (simp add: stored_killed_def)
    then show ?thesis using leaves_trans [OF q] safe(1) inv1 by (simp add: drive_leaves_alone_def)
  qed
  have om: "leaves p w (on_monitor f v)" if "leaves p w v" for f v using that by (simp add: leaves_def)
  show ?thesis
  proof (cases "\<exists>r. a = Inr (Some r) \<and> km_recovered (kw_monitor w) \<and> ex_state r \<noteq> KILLED")
    case False
    then show ?thesis using s a q d om
      by (auto simp: kill_tick_def kill_recover_def split: if_splits sum.splits option.splits)
  next
    case True
    then obtain r where r: "a = Inr (Some r)" "km_recovered (kw_monitor w)" "ex_state r \<noteq> KILLED" by blast
    have db: "kw_db w1 = kr_gap run AtActive (kw_db w)" "active_in_tx (kc_store c) (jd_prod (kr_gap run AtActive (kw_db w))) = Inr (Some r)"
      using store_call_Inr [OF a [unfolded read_active_def r(1)]] by auto
    obtain x w2 where x: "evaluable_capture c run w1 = (x, w2)" by fastforce
    note cap = evaluable_capture_cases [OF x]
    have inv2: "exp_inv (tables_of w2)" using inv1 cap(1) by simp
    have q2: "leaves p w w2" using q cap(1) by (simp add: leaves_def)
    show ?thesis
    proof (cases x)
      case None
      then have "on_unknown c run r w2 = (res, w')" using s a r x by (simp add: kill_tick_def)
      then show ?thesis using on_unknown_leaves [OF others safe(2) inv2] leaves_trans [OF q2] by blast
    next
      case (Some sn)
      have "kill_write_safe p r" if "line_hit c run r sn (kw_db w2)"
        using hit that cap(1) cap(2) [OF Some] r db mon unfolding breach_def by auto
      moreover obtain res2 where "kill_evaluate c run r sn w2 = (res2, w')" using s a r x Some
        by (auto simp: kill_tick_def split: prod.splits)
      ultimately show ?thesis using kill_evaluate_leaves [OF others safe inv2] leaves_trans [OF q2] by blast
    qed
  qed
qed

section \<open>The kill\<close>

lemma apply_changes_id [simp]: "ex_experiment_id (apply_changes cs r) = ex_experiment_id r"
  using apply_changes_keeps(1) [of cs r] by (simp add: same_start_def)

lemma killed_safe: "kill_safe (\<lambda>x. ex_state x = KILLED \<and> ex_experiment_id x = i)"
  by (simp add: kill_safe_def safe_change_def apply_changes_keeps)

lemma killed_detect_safe: "detect_safe (\<lambda>x. ex_state x = KILLED \<and> ex_experiment_id x = i)"
  using apply_changes_keeps(1) by (simp add: detect_safe_def safe_change_def apply_changes_keeps)

lemma raise_peak_reads:
  assumes "exp_inv (jd_prod db)" and "fst (raise_peak st i v db) = Inr peak"
  shows "\<exists>y \<in> set (xt_experiments (jd_prod db)). ex_experiment_id y = i \<and> peak = flt_max (ex_peak_net_liquidation y) v"
proof -
  have v: "is_positive v" using assms(2) by (simp add: raise_peak_def split: if_splits)
  then obtain t where t: "raise_peak_tx st i v (jd_prod db) = Inr (peak, t)"
    using assms(2) by (auto simp: raise_peak_def store_write_eq split: sum.splits)
  show ?thesis using raise_peak_tx_effect [OF assms(1) t v] by blast
qed

lemma walk_reaches: "walk s xs (Some u) \<Longrightarrow> s \<noteq> Some u \<Longrightarrow> \<exists>y \<in> set xs. tn_to_state y = u"
  by (induction xs arbitrary: s) auto

lemma killed_is_logged:
  assumes "exp_inv t" and "r \<in> set (xt_experiments t)"
  shows "\<exists>y \<in> set (xt_transitions t). tn_experiment_id y = ex_experiment_id r \<and> tn_to_state y = ex_state r"
  using exp_inv_row [OF assms] walk_reaches [of None "history t (ex_experiment_id r)" "ex_state r"]
  by (auto simp: history_ok_def history_def)

text \<open>
  C16. The kill is durable before any order. In one tick the monitor asks the session controller for at most one account flatten. When it
  asks, the liquidation service has just answered that it knows no such root, and the row the monitor acts on is stored as KILLED with
  this very root and no flatten root recorded; whatever other callers write between that and the request, the experiment is still KILLED
  at the request (or another caller has stopped it meanwhile), and its transition to KILLED is in the log.
\<close>

theorem kill_durable_before_flatten:
  assumes "others_use_store run" and "exp_inv (tables_of w)" and "kill_tick c run w = (res, w')"
  shows "(\<exists>new. kw_effects w' = kw_effects w @ new \<and> (\<forall>(e, t) \<in> set new. \<forall>flat_root deadline. e = FlattenRequested flat_root deadline \<longrightarrow>
            kr_receipt run AtReceipt flat_root = Inr None
            \<and> (\<exists>db r x. t = jd_prod (kr_gap run AtFlattenStart db) \<and> r \<in> set (xt_experiments (jd_prod db))
                 \<and> ex_account_id r = st_account_id (kc_store c) \<and> ex_state r = KILLED \<and> ex_kill_root_id r = flat_root \<and> ex_kill_flatten_root r = None
                 \<and> x \<in> set (xt_experiments t) \<and> ex_experiment_id x = ex_experiment_id r \<and> ex_state x \<in> {KILLED, STOPPED}
                 \<and> (\<exists>y \<in> set (xt_transitions t). tn_experiment_id y = ex_experiment_id r \<and> tn_to_state y = KILLED))))
         \<and> length (requested w') \<le> length (requested w) + 1"
proof -
  obtain new where new: "kw_effects w' = kw_effects w @ new" "\<forall>(e, t) \<in> set new. lawful c run e t"
    using kill_tick_lawful(1) [OF assms] by (auto simp: moves_def)
  have at_request: "kr_receipt run AtReceipt flat_root = Inr None
      \<and> (\<exists>db r x. t = jd_prod (kr_gap run AtFlattenStart db) \<and> r \<in> set (xt_experiments (jd_prod db))
           \<and> ex_account_id r = st_account_id (kc_store c) \<and> ex_state r = KILLED \<and> ex_kill_root_id r = flat_root \<and> ex_kill_flatten_root r = None
           \<and> x \<in> set (xt_experiments t) \<and> ex_experiment_id x = ex_experiment_id r \<and> ex_state x \<in> {KILLED, STOPPED}
           \<and> (\<exists>y \<in> set (xt_transitions t). tn_experiment_id y = ex_experiment_id r \<and> tn_to_state y = KILLED))"
    if "lawful c run (FlattenRequested flat_root deadline) t" for flat_root deadline t
  proof -
    from that obtain db r where db: "t = jd_prod (kr_gap run AtFlattenStart db)" "exp_inv (jd_prod db)" "r \<in> set (xt_experiments (jd_prod db))"
      and r: "ex_account_id r = st_account_id (kc_store c)" "ex_state r = KILLED" "ex_kill_root_id r = flat_root" "ex_kill_flatten_root r = None"
      and none: "kr_receipt run AtReceipt flat_root = Inr None" by (auto simp: lawful_def)
    have ahead: "exp_ahead (jd_prod db) t" using gap_keeps(2) [OF assms(1) db(2)] db(1) by blast
    then obtain x where x: "x \<in> set (xt_experiments t)" "row_ahead r x" using db(3) by (auto simp: exp_ahead_def)
    then have "ex_experiment_id x = ex_experiment_id r \<and> ex_state x \<in> {KILLED, STOPPED}"
      using r(2) by (auto simp: row_ahead_def same_start_def)
    moreover have "\<exists>y \<in> set (xt_transitions t). tn_experiment_id y = ex_experiment_id r \<and> tn_to_state y = KILLED"
      using killed_is_logged [OF db(2,3)] ahead r(2) by (auto simp: exp_ahead_def)
    ultimately show ?thesis using db r x(1) none by blast
  qed
  have "length (requested w') \<le> length (requested w) + 1"
    using kill_tick_lawful(2) [OF assms] by (auto simp: at_most_one_request_def)
  then show ?thesis using new at_request by (intro conjI exI [of _ new]) fast+
qed

text \<open>
  C14. Only a breach kills. If no one else kills experiments, an experiment that is KILLED after a tick and was not before is the one
  that was active when the tick began, and it was killed because the monitor had recovered, the broker's capture could be trusted (this
  account, a paper account, a positive finite net liquidation, not older than the last one seen), a kill line is set, and the drawdown
  of that capture reached it, measured from the experiment's anchor or from its stored peak raised to that capture. An unreadable or
  implausible capture never kills.
\<close>

theorem kill_only_on_breach:
  assumes "others_use_store run" and "others_leave (\<lambda>x. ex_state x = KILLED) run" and "exp_inv (tables_of w)"
    and "kill_tick c run w = (res, w')" and "x \<in> set (xt_experiments (tables_of w'))" and "ex_state x = KILLED"
    and "ex_experiment_id x \<notin> ids_of (\<lambda>x. ex_state x = KILLED) (tables_of w)"
  shows "\<exists>r sn line y ev. km_recovered (kw_monitor w) \<and> ex_state r \<noteq> KILLED \<and> ex_experiment_id r = ex_experiment_id x
     \<and> active_in_tx (kc_store c) (jd_prod (kr_gap run AtActive (kw_db w))) = Inr (Some r)
     \<and> kr_capture run AtDetect = Inr sn \<and> unusable_reason c (kw_monitor w) sn = None
     \<and> effective_kill_line (kc_configured_pct c) r = Some line
     \<and> y \<in> set (xt_experiments (jd_prod (kr_gap run AtPeak (kr_gap run AtActive (kw_db w))))) \<and> ex_experiment_id y = ex_experiment_id x
     \<and> evaluate_kill_line (kc_rnd c) line (ex_kill_anchor_net_liquidation r)
         (flt_max (ex_peak_net_liquidation y) (sn_net_liquidation sn)) (sn_net_liquidation sn) = Some ev
     \<and> flt_le (kl_pct line) (ke_drawdown_pct ev)"
proof -
  let ?p = "\<lambda>y. ex_state y = KILLED \<and> ex_experiment_id y = ex_experiment_id x"
  have only: "ids_of ?p t = ids_of (\<lambda>y. ex_state y = KILLED) t \<inter> {ex_experiment_id x}" for t by (auto simp: ids_of_iff)
  have others: "others_leave ?p run" using assms(2) unfolding others_leave_def only by blast
  note leave = kill_tick_leaves [OF assms(1) others drive_leaves_aloneI [OF assms(1) others killed_safe] killed_detect_safe assms(3) _ assms(4)]
  have "ex_experiment_id x \<in> ids_of ?p (tables_of w')" using assms(5,6) by (auto simp: ids_of_def)
  then have "\<not> leaves ?p w w'" using assms(7) unfolding leaves_def only by blast
  then obtain r sn where b: "breach c run w r sn" "\<not> kill_write_safe ?p r" using leave by blast
  have id: "ex_experiment_id r = ex_experiment_id x"
  proof (rule ccontr)
    assume "ex_experiment_id r \<noteq> ex_experiment_id x"
    then have "kill_write_safe ?p r" by (simp add: kill_write_safe_def safe_change_at_def)
    then show False using b(2) by blast
  qed
  obtain line peak ev where e: "effective_kill_line (kc_configured_pct c) r = Some line"
    "evaluate_kill_line (kc_rnd c) line (ex_kill_anchor_net_liquidation r) peak (sn_net_liquidation sn) = Some ev" "ke_hit ev"
    and pk: "fst (raise_peak (kc_store c) (ex_experiment_id r) (sn_net_liquidation sn) (kr_gap run AtPeak (kr_gap run AtActive (kw_db w)))) = Inr peak"
    using b(1) by (auto simp: breach_def line_hit_def)
  have inv: "exp_inv (jd_prod (kr_gap run AtPeak (kr_gap run AtActive (kw_db w))))" using gap_keeps(1) assms(1,3) by simp
  obtain y where y: "y \<in> set (xt_experiments (jd_prod (kr_gap run AtPeak (kr_gap run AtActive (kw_db w)))))" "ex_experiment_id y = ex_experiment_id x"
    "peak = flt_max (ex_peak_net_liquidation y) (sn_net_liquidation sn)"
    using raise_peak_reads [OF inv pk] id by auto
  have "flt_le (kl_pct line) (ke_drawdown_pct ev)" using e by (auto simp: evaluate_kill_line_def Let_def split: if_splits)
  then show ?thesis using b(1) e(1,2) y id unfolding breach_def by blast
qed

section \<open>Flat only on proof\<close>

text \<open>
  The flatten bookkeeping of a row. Other callers (operators who stop, pause or resume, the writers of peaks) leave it alone, and an
  experiment they insert is not marked flat.
\<close>

definition flat_view :: "experiment_record \<Rightarrow> flat_state option \<times> string option \<times> int option" where
  "flat_view x = (ex_kill_flat_state x, ex_kill_flatten_root x, ex_kill_flat_generation x)"

definition flat_kept :: "experiment_tables \<Rightarrow> experiment_tables \<Rightarrow> bool" where
  "flat_kept t u \<longleftrightarrow> (\<forall>x \<in> set (xt_experiments u).
     (\<exists>y \<in> set (xt_experiments t). ex_experiment_id y = ex_experiment_id x \<and> flat_view y = flat_view x)
     \<or> (\<forall>y \<in> set (xt_experiments t). ex_experiment_id y \<noteq> ex_experiment_id x) \<and> ex_kill_flat_state x \<noteq> Some ProvenFlat)"

definition others_keep_flat :: "kill_run \<Rightarrow> bool" where
  "others_keep_flat run \<longleftrightarrow> (\<forall>site db. exp_inv (jd_prod db) \<longrightarrow> flat_kept (jd_prod db) (jd_prod (kr_gap run site db)))"

text \<open>The receipt of the row's own flatten root, and the capture that proves the account flat.\<close>

definition flat_evidence :: "kill_run \<Rightarrow> experiment_record \<Rightarrow> bool" where
  "flat_evidence run x \<longleftrightarrow> (\<exists>flat_root rc sn. ex_kill_flatten_root x = Some flat_root
     \<and> kr_receipt run AtFlatReceipt (Some flat_root) = Inr (Some rc) \<and> fr_state rc \<in> {''FLAT'', ''CLOSED'', ''DONE''}
     \<and> kr_capture run AtFlatCapture = Inr sn \<and> proves_flat run rc sn \<and> ex_kill_flat_generation x = Some (sn_generation_id sn))"

definition unbacked :: "kill_run \<Rightarrow> experiment_record \<Rightarrow> bool" where
  "unbacked run x \<longleftrightarrow> ex_kill_flat_state x = Some ProvenFlat \<and> \<not> flat_evidence run x"

lemma unbacked_view: "flat_view x = flat_view y \<Longrightarrow> unbacked run x \<longleftrightarrow> unbacked run y"
  by (simp add: flat_view_def unbacked_def flat_evidence_def)

lemma unbacked_left_alone:
  assumes "others_keep_flat run"
  shows "others_leave (unbacked run) run"
  unfolding others_leave_def
proof (intro allI impI subsetI)
  fix site db i
  assume inv: "exp_inv (jd_prod db)" and "i \<in> ids_of (unbacked run) (jd_prod (kr_gap run site db))"
  then obtain x where x: "x \<in> set (xt_experiments (jd_prod (kr_gap run site db)))" "unbacked run x" "i = ex_experiment_id x"
    by (auto simp: ids_of_def)
  then obtain y where "y \<in> set (xt_experiments (jd_prod db))" "ex_experiment_id y = ex_experiment_id x" "flat_view y = flat_view x"
    using assms inv unfolding others_keep_flat_def flat_kept_def unbacked_def by blast
  then show "i \<in> ids_of (unbacked run) (jd_prod db)" using x unbacked_view [of y x run] by (auto simp: ids_of_iff)
qed

lemma unbacked_detect_safe: "detect_safe (unbacked run)"
  by (simp add: detect_safe_def safe_change_def unbacked_def flat_evidence_def apply_changes_def)

lemma unbacked_kill_write_safe: "kill_write_safe (unbacked run) r"
  by (simp add: kill_write_safe_def safe_change_at_def unbacked_def kill_request_def apply_changes_def)

text \<open>The row of the experiment agrees with the record the monitor carries from step to step.\<close>

definition carried :: "experiment_record \<Rightarrow> kill_world \<Rightarrow> bool" where
  "carried r w \<longleftrightarrow> exp_inv (tables_of w)
     \<and> (\<exists>x \<in> set (xt_experiments (tables_of w)). ex_experiment_id x = ex_experiment_id r \<and> flat_view x = flat_view r)"

lemma carried_row:
  "carried r w \<Longrightarrow> x \<in> set (xt_experiments (tables_of w)) \<Longrightarrow> ex_experiment_id x = ex_experiment_id r \<Longrightarrow> flat_view x = flat_view r"
  using exp_inv_unique unfolding carried_def by metis

lemma gap_carries:
  assumes "others_use_store run" and "others_keep_flat run" and "carried r w" and "kw_db v = kr_gap run site (kw_db w)"
  shows "carried r v"
proof -
  have inv: "exp_inv (tables_of w)" using assms(3) by (simp add: carried_def)
  obtain y where y: "y \<in> set (xt_experiments (tables_of w))" "ex_experiment_id y = ex_experiment_id r" using assms(3) by (auto simp: carried_def)
  obtain x where x: "x \<in> set (xt_experiments (tables_of v))" "row_ahead y x"
    using gap_keeps(2) [OF assms(1) inv, of site] y(1) assms(4) by (auto simp: exp_ahead_def)
  then have id: "ex_experiment_id x = ex_experiment_id r" using y(2) by (simp add: row_ahead_def same_start_def)
  then obtain z where "z \<in> set (xt_experiments (tables_of w))" "ex_experiment_id z = ex_experiment_id r" "flat_view z = flat_view x"
    using assms(2,4) inv x(1) y unfolding others_keep_flat_def flat_kept_def by metis
  then show ?thesis using carried_row [OF assms(3)] gap_keeps(1) [OF assms(1) inv, of site] assms(4) x(1) id unfolding carried_def by metis
qed

definition view_change :: "column_change list \<Rightarrow> bool" where
  "view_change ch \<longleftrightarrow> (\<forall>x y. flat_view x = flat_view y \<longrightarrow> flat_view (apply_changes ch x) = flat_view (apply_changes ch y))"

lemma view_changes:
  "view_change [KillFlattenRoot v]" "view_change [KillAlertState a]" "view_change [KillFlatState f, KillFlatAt d]"
  "view_change [KillFlatState f, KillFlatGeneration g, KillFlatAt d]" "view_change [KillSessionEndState e]"
  "view_change [KillRound n, KillRootId i, KillFlattenRoot v, KillFlatState f, KillFlatGeneration g, KillFlatAt d]"
  by (simp_all add: view_change_def flat_view_def apply_changes_def)

text \<open>One step: no row gains an unbacked mark, and the record handed on agrees with its row.\<close>

definition carries :: "kill_run \<Rightarrow> experiment_record \<Rightarrow> kill_world \<Rightarrow> (experiment_error + experiment_record) \<times> kill_world \<Rightarrow> bool" where
  "carries run r w out \<longleftrightarrow> leaves (unbacked run) w (snd out)
     \<and> carried (case fst out of Inr r' \<Rightarrow> r' | Inl _ \<Rightarrow> r) (snd out)"

lemma carries_same: "carried r w \<Longrightarrow> kw_db v = kw_db w \<Longrightarrow> carries run r w (Inr r, v) \<and> carries run r w (Inl e, v)"
  by (simp add: carries_def carried_def leaves_def)

lemma carries_later: "leaves (unbacked run) w v \<Longrightarrow> carries run r v out \<Longrightarrow> carries run r w out"
  using leaves_trans by (auto simp: carries_def)

lemma progress_carries:
  assumes run: "others_use_store run" "others_keep_flat run" and car: "carried r w" and ch: "view_change ch"
    and safe: "unbacked run (apply_changes ch r) \<Longrightarrow> unbacked run r"
  shows "carries run r w (progress c run site r ch w)"
proof -
  define db where "db = kr_gap run site (kw_db w)"
  let ?v = "w\<lparr>kw_db := db\<rparr>"
  have inv: "exp_inv (tables_of w)" using car by (simp add: carried_def)
  have car': "carried r ?v" using gap_carries [OF run car] by (simp add: db_def)
  have inv': "exp_inv (jd_prod db)" using car' by (simp add: carried_def)
  have leave: "leaves (unbacked run) w ?v"
    using unbacked_left_alone [OF run(2)] inv inv' by (simp add: leaves_def others_leave_def db_def)
  have put: "carries run r ?v (Inr u, w\<lparr>kw_db := db'\<rparr>)" if "store_write (kill_progress_tx (kc_store c) (ex_experiment_id r) KILLED ch) db = (Inr u, db')" for u db'
    using that
  proof (cases rule: store_write_cases)
    case (committed x t)
    from kill_progress_tx_effect [OF inv' committed(1)] obtain y where y: "y \<in> set (xt_experiments (jd_prod db))" "ex_experiment_id y = ex_experiment_id r"
      "x = apply_changes ch y" "t = put_row x (jd_prod db)" "exp_inv t" "x \<in> set (xt_experiments t)" by blast
    have view: "flat_view y = flat_view r" using carried_row [OF car'] y(1,2) by simp
    then have "flat_view x = flat_view (apply_changes ch r)" using ch unfolding view_change_def y(3) by blast
    then have "unbacked run x \<longrightarrow> unbacked run y" using safe unbacked_view [of x] unbacked_view [OF view] by blast
    then have "ids_of (unbacked run) t \<subseteq> ids_of (unbacked run) (jd_prod db)"
      using put_row_leaves [OF inv' y(1)] y(3,4) apply_changes_keeps(1) by blast
    moreover have "ex_experiment_id x = ex_experiment_id r" using y(2,3) by simp
    then have "carried x (w\<lparr>kw_db := db'\<rparr>)" using y(5,6) committed(3) unfolding carried_def by auto
    ultimately show ?thesis using committed y(5) by (simp add: carries_def leaves_def)
  qed simp
  have fail: "carries run r ?v (Inl e, ?v)" for e using carries_same [OF car'] by blast
  obtain res db' where m: "update_kill_progress (kc_store c) (ex_experiment_id r) KILLED ch db = (res, db')" by fastforce
  have "carries run r ?v (res, w\<lparr>kw_db := db'\<rparr>)"
  proof (cases res)
    case (Inr u)
    then show ?thesis using put m by (auto simp: update_kill_progress_def split: sum.splits)
  next
    case (Inl e)
    then have "db' = db" using m by (auto simp: update_kill_progress_def store_write_eq split: sum.splits prod.splits)
    then show ?thesis using fail Inl by simp
  qed
  then have "carries run r ?v (progress c run site r ch w)"
    using fail m by (simp add: progress_def store_call_def db_def [symmetric])
  then show ?thesis by (rule carries_later [OF leave])
qed

lemma progress_carries_on:
  assumes "others_use_store run" "others_keep_flat run" "carried r w" "kw_db v = kw_db w" "view_change ch"
    "unbacked run (apply_changes ch r) \<Longrightarrow> unbacked run r"
  shows "carries run r w (progress c run site r ch v)"
proof -
  have "carried r v" "leaves (unbacked run) w v" using assms(3,4) by (simp_all add: carried_def leaves_def)
  then show ?thesis using progress_carries [OF assms(1,2) _ assms(5,6)] carries_later by blast
qed

lemma ensure_flatten_carries:
  assumes run: "others_use_store run" "others_keep_flat run" and car: "carried r w"
  shows "carries run r w (ensure_flatten c run r w)"
proof -
  let ?g = "others_act run AtFlattenStart w"
  have car': "carried r (effect e ?g)" for e using gap_carries [OF run car] by simp
  have leave: "leaves (unbacked run) w (effect e ?g)" for e
    using leaves_others_act [OF run(1) unbacked_left_alone [OF run(2)], of w AtFlattenStart] car by (simp add: leaves_def carried_def)
  have safe: "unbacked run (apply_changes [KillFlattenRoot v] r) \<Longrightarrow> unbacked run r" if "ex_kill_flatten_root r = None" for v
    using that by (simp add: unbacked_def flat_evidence_def apply_changes_def)
  have prog: "carries run r w (progress c run AtFlattenRoot r [KillFlattenRoot v] (effect e ?g))" if "ex_kill_flatten_root r = None" for v e
    using carries_later [OF leave progress_carries [OF run car' view_changes(1)]] safe [OF that] by blast
  have fail: "carries run r w (Inl x, effect e ?g)" for x e
    using carries_later [OF leave conjunct2 [OF carries_same [OF car' refl]]] .
  show ?thesis
    using carries_same [OF car refl] prog fail progress_carries [OF run car view_changes(1)] safe
    by (auto simp: ensure_flatten_def Let_def split: sum.splits option.splits)
qed

lemma ensure_alert_carries:
  assumes run: "others_use_store run" "others_keep_flat run" and car: "carried r w"
  shows "carries run r w (ensure_alert c run r w)"
proof -
  obtain a w1 where a: "send_alert c run (kill_alert_event_id r) ''kill_started'' w = (a, w1)" by fastforce
  note db = send_alert_db [OF a]
  have "unbacked run (apply_changes [KillAlertState v] r) \<Longrightarrow> unbacked run r" for v
    by (simp add: unbacked_def flat_evidence_def apply_changes_def)
  then show ?thesis
    using a carries_same [OF car refl] carries_same [OF car db] progress_carries_on [OF run car db view_changes(2)]
    by (auto simp: ensure_alert_def split: option.splits)
qed

lemma prove_flat_carries:
  assumes run: "others_use_store run" "others_keep_flat run" and car: "carried r w"
  shows "carries run r w (prove_flat c run r w)"
proof -
  note prog = progress_carries [OF run car]
  have moved: "carries run r w (progress c run site r [KillFlattenRoot v] w)" if "ex_kill_flat_state r = Some FlatPending" for v site
    by (rule prog [OF view_changes(1)]) (use that in \<open>simp add: unbacked_def apply_changes_def\<close>)
  have failed: "carries run r w (progress c run site r [KillFlatState (Some FlatFailedSafe), KillFlatAt v] w)" for v site
    by (rule prog [OF view_changes(3)]) (simp add: unbacked_def apply_changes_def)
  have proven: "carries run r w (progress c run site r [KillFlatState (Some ProvenFlat), KillFlatGeneration (Some (sn_generation_id sn)), KillFlatAt v] w)"
    if "ex_kill_flatten_root r = Some flat_root" "kr_receipt run AtFlatReceipt (Some flat_root) = Inr (Some rc)"
      "fr_state rc = ''FLAT'' \<or> fr_state rc = ''CLOSED'' \<or> fr_state rc = ''DONE''" "kr_capture run AtFlatCapture = Inr sn" "proves_flat run rc sn"
    for flat_root rc sn v site
    by (rule prog [OF view_changes(4)]) (use that in \<open>auto simp: unbacked_def flat_evidence_def apply_changes_def\<close>)
  show ?thesis
    using carries_same [OF car refl] moved failed proven by (auto simp: prove_flat_def split: option.splits sum.splits)
qed

lemma check_late_exposure_carries:
  assumes run: "others_use_store run" "others_keep_flat run" and car: "carried r w"
  shows "carries run r w (check_late_exposure c run r w)"
proof -
  have "carries run r w (progress c run site r
      [KillRound n, KillRootId i, KillFlattenRoot None, KillFlatState (Some FlatPending), KillFlatGeneration None, KillFlatAt None] w)" for n i site
    by (rule progress_carries [OF run car view_changes(6)]) (simp add: unbacked_def apply_changes_def)
  then show ?thesis using carries_same [OF car refl] by (auto simp: check_late_exposure_def split: sum.splits)
qed

lemma ensure_session_end_carries:
  assumes run: "others_use_store run" "others_keep_flat run" and car: "carried r w"
  shows "carries run r w (ensure_session_end c run r w)"
proof -
  have safe: "unbacked run (apply_changes [KillSessionEndState v] r) \<Longrightarrow> unbacked run r" for v
    by (simp add: unbacked_def flat_evidence_def apply_changes_def)
  show ?thesis
    using carries_same [OF car refl] progress_carries [OF run car view_changes(5) safe]
      progress_carries_on [OF run car effect_simps(1) view_changes(5) safe]
    by (auto simp: ensure_session_end_def)
qed

lemma drive_carries:
  assumes "\<And>s r w. s \<in> set ss \<Longrightarrow> carried r w \<Longrightarrow> carries run r w (s r w)" and "carried r w"
  shows "leaves (unbacked run) w (drive ss r w)"
  using assms
proof (induction ss arbitrary: r w)
  case Nil
  then show ?case by (simp add: leaves_def carried_def)
next
  case (Cons s ss)
  obtain res w1 where s: "s r w = (res, w1)" by fastforce
  then have c: "carries run r w (res, w1)" using Cons.prems by (metis list.set_intros(1))
  have "leaves (unbacked run) w1 (drive ss r' w1)" if "carried r' w1" for r'
    by (rule Cons.IH [OF _ that]) (use Cons.prems(1) in simp)
  then show ?case using s c leaves_trans by (auto simp: carries_def split: sum.splits)
qed

lemma drive_kill_backs_flat:
  assumes "others_use_store run" and "others_keep_flat run"
  shows "drive_leaves_alone (unbacked run) c run"
  unfolding drive_leaves_alone_def drive_kill_def
proof (intro allI impI)
  fix r w
  assume "exp_inv (tables_of w)" and "stored_killed c r (tables_of w)"
  then have "carried r w" by (auto simp: carried_def stored_killed_def)
  then show "leaves (unbacked run) w (drive [ensure_flatten c run, ensure_alert c run, prove_flat c run, check_late_exposure c run,
      ensure_session_end c run] r w)"
    by (rule drive_carries [rotated])
      (use assms in \<open>auto simp: ensure_flatten_carries ensure_alert_carries prove_flat_carries check_late_exposure_carries ensure_session_end_carries\<close>)
qed

text \<open>
  C18. A kill is called flat only on proof. If other callers leave the flatten bookkeeping of the experiments alone, an experiment that a
  tick marks flat carries its proof: the receipt of the very flatten root its row names ended FLAT, CLOSED or DONE, and a broker
  capture, whose generation the row records, is at least as new as that receipt's own proof and shows no position and no working order,
  while every command is reconciled.
\<close>

theorem flat_only_on_proof:
  assumes "others_use_store run" and "others_keep_flat run" and "exp_inv (tables_of w)"
    and "kill_tick c run w = (res, w')" and "x \<in> set (xt_experiments (tables_of w'))" and "ex_kill_flat_state x = Some ProvenFlat"
    and "ex_experiment_id x \<notin> ids_of (\<lambda>x. ex_kill_flat_state x = Some ProvenFlat) (tables_of w)"
  shows "\<exists>flat_root rc sn. ex_kill_flatten_root x = Some flat_root \<and> kr_receipt run AtFlatReceipt (Some flat_root) = Inr (Some rc)
     \<and> fr_state rc \<in> {''FLAT'', ''CLOSED'', ''DONE''} \<and> kr_capture run AtFlatCapture = Inr sn
     \<and> ex_kill_flat_generation x = Some (sn_generation_id sn) \<and> opt_or 0 (fr_generation_id rc) \<le> sn_generation_id sn
     \<and> (\<forall>q \<in> set (sn_positions sn). flt_eq (bp_quantity q) (Fin 0)) \<and> sn_working_orders sn = []
     \<and> kr_reconciliation_safe run = Some True"
proof -
  have "leaves (unbacked run) w w'"
    by (rule kill_tick_leaves [OF assms(1) unbacked_left_alone [OF assms(2)] drive_kill_backs_flat [OF assms(1,2)] unbacked_detect_safe
          assms(3) unbacked_kill_write_safe assms(4)])
  moreover have "ex_experiment_id x \<notin> ids_of (unbacked run) (tables_of w)" using assms(7) by (auto simp: ids_of_def unbacked_def)
  ultimately have "\<not> unbacked run x" using assms(5) by (auto simp: leaves_def ids_of_def)
  then have "flat_evidence run x" using assms(6) by (simp add: unbacked_def)
  then show ?thesis unfolding flat_evidence_def proves_flat_def exposure_def by blast
qed

section \<open>A breach is acted on\<close>

lemma require_in_tx_stored:
  assumes "exp_inv t" and "r \<in> set (xt_experiments t)" and "ex_account_id r = st_account_id st"
  shows "require_in_tx st t (ex_experiment_id r) = Inr r"
  using exp_inv_fetch [OF assms(1,2)] assms(3) by (simp add: require_in_tx_def)

lemma next_revision_free:
  assumes "exp_inv t" and "r \<in> set (xt_experiments t)" and "y \<in> set (xt_transitions t)" and "tn_experiment_id y = ex_experiment_id r"
  shows "tn_revision y \<noteq> ex_revision r + 1"
proof -
  have "y \<in> set (history t (ex_experiment_id r))" using assms(3,4) by (simp add: history_def)
  then have "tn_revision y \<in> set (map tn_revision (history t (ex_experiment_id r)))" by simp
  also have "\<dots> = set [1..ex_revision r]" using exp_inv_row [OF assms(1,2)] by (simp add: history_ok_def)
  finally show ?thesis by simp
qed

lemma transition_succeeds:
  assumes inv: "exp_inv (jd_prod db)" and r: "r \<in> set (xt_experiments (jd_prod db))" "ex_account_id r = st_account_id st"
    and q: "ex_state r \<in> set (tq_expected q)" "allowed_transition (ex_state r) (tq_to q)" "tq_to q \<noteq> STOPPED" "list_all is_kill_column (tq_changes q)"
    and u: "u = apply_changes (tq_changes q) (r\<lparr>ex_state := tq_to q, ex_revision := ex_revision r + 1\<rparr>)" "experiment_valid u"
  shows "\<exists>db'. exp_transition st (ex_experiment_id r) q now db = (Inr u, db')"
proof -
  let ?t = "jd_prod db"
  have same: "same_start u r" unfolding u(1)
    using apply_changes_keeps(1) [of "tq_changes q" "r\<lparr>ex_state := tq_to q, ex_revision := ex_revision r + 1\<rparr>"] by (simp add: same_start_def)
  have rev: "ex_revision u = ex_revision r + 1" by (simp add: u(1) apply_changes_keeps)
  have free: "\<not> (\<exists>y \<in> set (xt_transitions ?t). tn_experiment_id y = ex_experiment_id r \<and> tn_revision y = ex_revision u)"
    using next_revision_free [OF inv r(1)] rev by auto
  have put: "get_in_tx (t\<lparr>xt_transitions := h\<rparr>) i = get_in_tx t i" for t i h by (simp add: get_in_tx_def)
  have "fetchone (filter (\<lambda>x. ex_experiment_id x = ex_experiment_id r) (xt_experiments (put_row u ?t))) = Some u"
    using fetchone_key [of ex_experiment_id "xt_experiments (put_row u ?t)" u] put_row_rows [OF inv r(1) same] inv same
    by (simp add: put_row_ids exp_inv_def same_start_def)
  then have read: "get_in_tx (put_row u ?t) (ex_experiment_id r) = Inr (Some u)"
    using u(2) by (simp add: get_in_tx_def experiment_post_init_def)
  have "\<exists>t'. transition_tx st (ex_experiment_id r) q now ?t = Inr (u, t')"
    using q free write_in_tx_put [OF inv r(1) same] u(2) read
    by (simp add: transition_tx_def require_in_tx_stored [OF inv r] u(1) [symmetric] experiment_post_init_def append_in_tx_def
        read_back_def put Let_def)
  then show ?thesis using q(4) by (auto simp: exp_transition_def check_changes_def store_write_eq)
qed

lemma raise_peak_succeeds:
  assumes inv: "exp_inv (jd_prod db)" and r: "r \<in> set (xt_experiments (jd_prod db))" "ex_account_id r = st_account_id st" and v: "is_positive v"
  shows "\<exists>peak db'. raise_peak st (ex_experiment_id r) v db = (Inr peak, db') \<and> is_positive peak \<and> peak = flt_max (ex_peak_net_liquidation r) v
     \<and> r\<lparr>ex_peak_net_liquidation := peak\<rparr> \<in> set (xt_experiments (jd_prod db')) \<and> exp_inv (jd_prod db')"
proof -
  obtain peak t where t: "raise_peak_tx st (ex_experiment_id r) v (jd_prod db) = Inr (peak, t)"
    by (cases "flt_less (ex_peak_net_liquidation r) v") (auto simp: raise_peak_tx_def require_in_tx_stored [OF inv r])
  show ?thesis using raise_peak_tx_effect [OF inv t v]
  proof cases
    case (1 x)
    have "x = r" using exp_inv_unique [OF inv 1(1) r(1) 1(2)] .
    moreover have "same_start (r\<lparr>ex_peak_net_liquidation := peak\<rparr>) r" by (simp add: same_start_def)
    then have "r\<lparr>ex_peak_net_liquidation := peak\<rparr> \<in> set (xt_experiments (put_row (r\<lparr>ex_peak_net_liquidation := peak\<rparr>) (jd_prod db)))"
      using put_row_rows [OF inv r(1)] by simp
    moreover have "is_positive peak" using 1(4) v exp_inv_row [OF inv r(1)] \<open>x = r\<close> by (simp add: flt_max_def experiment_valid_def)
    ultimately show ?thesis using t v 1 by (simp add: raise_peak_def store_write_eq)
  qed
qed

lemma killed_record_valid:
  assumes "experiment_valid r" and "is_positive peak" and "is_positive (ke_net_liquidation ev)" and "flt_finite (ke_drawdown_pct ev)"
    and "0 \<le> sn_generation_id sn"
  shows "experiment_valid (apply_changes (tq_changes (kill_request r sn ev t))
     ((r\<lparr>ex_peak_net_liquidation := peak\<rparr>)\<lparr>ex_state := KILLED, ex_revision := ex_revision r + 1\<rparr>))"
  using assms by (simp add: experiment_valid_def kill_request_def apply_changes_def kill_root_id_def)

lemma drive_kill_requests:
  assumes "others_use_store run" and "exp_inv (tables_of w)" and "ex_kill_flatten_root r = None" and "kr_receipt run AtReceipt (ex_kill_root_id r) = Inr None"
  shows "ex_kill_root_id r \<in> set (requested (drive_kill c run r w))"
proof -
  let ?ss = "[ensure_alert c run, prove_flat c run, check_late_exposure c run, ensure_session_end c run]"
  obtain res w1 where s: "ensure_flatten c run r w = (res, w1)" by fastforce
  let ?g = "others_act run AtFlattenStart w"
  note inv' = moves_inv [OF moves_others_act [OF assms(1,2)], of AtFlattenStart]
  let ?v = "effect (FlattenRequested (ex_kill_root_id r) (kr_now run AtDeadline + kc_flatten_time c)) ?g"
  have "moves (\<lambda>e t. \<not> is_flatten e) ?v w1"
    using s assms(3,4) inv' moves_refl [of ?v] progress_moves [OF assms(1), of ?v]
    by (auto simp: ensure_flatten_def Let_def split: sum.splits)
  then have m: "exp_inv (tables_of w1)" and req: "ex_kill_root_id r \<in> set (requested w1)"
    using moves_inv quietly_requested by fastforce+
  have rest: "quietly w1 (drive ?ss r' w1)" for r'
    using drive_quiet [of ?ss w1 r'] m ensure_alert_quiet [OF assms(1)] prove_flat_quiet [OF assms(1)]
      check_late_exposure_quiet [OF assms(1)] ensure_session_end_quiet [OF assms(1)] by auto
  have "requested (drive_kill c run r w) = requested w1"
    using s quietly_requested [OF rest] by (auto simp: drive_kill_def split: sum.splits simp del: drive.simps(2)) (auto simp: s split: sum.splits)
  then show ?thesis using req by simp
qed

lemma stopped_safe: "kill_safe (\<lambda>x. ex_state x = STOPPED)"
  by (simp add: kill_safe_def safe_change_def apply_changes_keeps)

lemma drive_kill_stays_killed:
  assumes others: "others_use_store run" "others_leave (\<lambda>x. ex_state x = STOPPED) run" and inv: "exp_inv (tables_of w)"
    and r: "stored_killed c r (tables_of w)"
  shows "\<exists>x \<in> set (xt_experiments (tables_of (drive_kill c run r w))). ex_experiment_id x = ex_experiment_id r \<and> ex_state x = KILLED"
proof -
  have "exp_ahead (tables_of w) (tables_of (drive_kill c run r w))"
    using drive_kill_lawful(1) [OF others(1) inv r] by (simp add: moves_def)
  then obtain x where x: "x \<in> set (xt_experiments (tables_of (drive_kill c run r w)))" "row_ahead r x"
    using r by (auto simp: exp_ahead_def stored_killed_def)
  then have id: "ex_experiment_id x = ex_experiment_id r" "ex_state x = KILLED \<or> ex_state x = STOPPED"
    using r by (auto simp: row_ahead_def same_start_def stored_killed_def)
  have "ex_state x \<noteq> STOPPED"
  proof
    assume "ex_state x = STOPPED"
    then have "ex_experiment_id r \<in> ids_of (\<lambda>x. ex_state x = STOPPED) (tables_of w)"
      using x(1) id(1) drive_kill_leaves [OF others stopped_safe inv, of c r] unfolding leaves_def ids_of_def by force
    then obtain y where "y \<in> set (xt_experiments (tables_of w))" "ex_state y = STOPPED" "ex_experiment_id y = ex_experiment_id r"
      by (auto simp: ids_of_def)
    then show False using exp_inv_unique [OF inv] r by (metis experiment_state.distinct(11) stored_killed_def)
  qed
  then show ?thesis using x(1) id by blast
qed

definition undisturbed :: "kill_run \<Rightarrow> bool" where
  "undisturbed run \<longleftrightarrow> (\<forall>site db. kr_gap run site db = db) \<and> (\<forall>site. \<not> kr_db_fails run site)"

lemma undisturbed_call: "undisturbed run \<Longrightarrow> store_call run site f w = (fst (f (kw_db w)), w\<lparr>kw_db := snd (f (kw_db w))\<rparr>)"
  by (simp add: undisturbed_def store_call_def split: prod.splits)

lemma undisturbed_others: "undisturbed run \<Longrightarrow> others_use_store run \<and> others_leave p run"
  by (simp add: undisturbed_def others_use_store_def others_leave_def)

text \<open>The kill of a breached experiment, once the peak has been raised.\<close>

lemma kill_acts:
  assumes run: "undisturbed run" and inv: "exp_inv (tables_of w)" and r: "r\<lparr>ex_peak_net_liquidation := peak\<rparr> \<in> set (xt_experiments (tables_of w))"
      "ex_account_id r = st_account_id (kc_store c)" "ex_state r = ARMED \<or> ex_state r = PAUSED" "experiment_valid r" "is_positive peak"
    and ev: "is_positive (ke_net_liquidation ev)" "flt_finite (ke_drawdown_pct ev)" "0 \<le> sn_generation_id sn"
    and fresh: "kr_receipt run AtReceipt (Some (kill_root_id (ex_experiment_id r) (ex_kill_seq r + 1) 0)) = Inr None"
  shows "(\<exists>x \<in> set (xt_experiments (tables_of (kill c run r sn ev w))). ex_experiment_id x = ex_experiment_id r \<and> ex_state x = KILLED)
    \<and> Some (kill_root_id (ex_experiment_id r) (ex_kill_seq r + 1) 0) \<in> set (requested (kill c run r sn ev w))"
proof -
  let ?r1 = "r\<lparr>ex_peak_net_liquidation := peak\<rparr>" and ?q = "kill_request r sn ev (kr_now run AtKilledAt)"
  define u where "u = apply_changes (tq_changes ?q) (?r1\<lparr>ex_state := tq_to ?q, ex_revision := ex_revision ?r1 + 1\<rparr>)"
  have "experiment_valid u"
    using killed_record_valid [OF r(4,5) ev(1,2,3), of "kr_now run AtKilledAt"] by (simp add: u_def kill_request_def)
  then obtain db' where t: "exp_transition (kc_store c) (ex_experiment_id r) ?q (kr_now run AtKill) (kw_db w) = (Inr u, db')"
    using transition_succeeds [OF inv r(1), of "kc_store c" ?q u "kr_now run AtKill"] r(2,3)
    by (auto simp: u_def kill_request_def is_kill_column_def)
  let ?w1 = "w\<lparr>kw_db := db'\<rparr>"
  have k: "kill c run r sn ev w = drive_kill c run u ?w1" using t by (simp add: kill_def undisturbed_call [OF run])
  have inv1: "exp_inv (tables_of ?w1)" using exp_transition_keeps [OF inv t] by simp
  have stored: "stored_killed c u (tables_of ?w1)" using transition_result [OF inv t] by (simp add: stored_killed_def kill_request_def)
  have uf: "ex_kill_flatten_root u = None" "ex_kill_root_id u = Some (kill_root_id (ex_experiment_id r) (ex_kill_seq r + 1) 0)"
    "ex_experiment_id u = ex_experiment_id r" by (simp_all add: u_def kill_request_def apply_changes_def)
  show ?thesis
    using drive_kill_stays_killed [OF _ _ inv1 stored] drive_kill_requests [OF _ inv1 uf(1), of run c] fresh uf undisturbed_others [OF run]
    unfolding k by auto
qed

text \<open>
  C15. A breach is acted on. When nothing interferes, a tick of a recovered monitor that sees a trusted capture whose drawdown reaches
  the kill line of the running experiment leaves the experiment KILLED and has asked for the flatten of the first round of this
  kill.
\<close>

theorem breach_kills:
  assumes "undisturbed run" and "exp_inv (tables_of w)" and "km_recovered (kw_monitor w)"
    and "active_in_tx (kc_store c) (tables_of w) = Inr (Some r)" and "ex_state r \<noteq> KILLED"
    and "kr_capture run AtDetect = Inr sn" and "unusable_reason c (kw_monitor w) sn = None" and "0 \<le> sn_generation_id sn"
    and "effective_kill_line (kc_configured_pct c) r = Some line"
    and "evaluate_kill_line (kc_rnd c) line (ex_kill_anchor_net_liquidation r)
           (flt_max (ex_peak_net_liquidation r) (sn_net_liquidation sn)) (sn_net_liquidation sn) = Some ev"
    and "flt_le (kl_pct line) (ke_drawdown_pct ev)" and "flt_finite (ke_drawdown_pct ev)"
    and "kr_receipt run AtReceipt (Some (kill_root_id (ex_experiment_id r) (ex_kill_seq r + 1) 0)) = Inr None"
  shows "(\<exists>x \<in> set (xt_experiments (tables_of (snd (kill_tick c run w)))). ex_experiment_id x = ex_experiment_id r \<and> ex_state x = KILLED)
    \<and> Some (kill_root_id (ex_experiment_id r) (ex_kill_seq r + 1) 0) \<in> set (requested (snd (kill_tick c run w)))"
proof -
  let ?nlv = "sn_net_liquidation sn"
  have ev: "ke_hit ev" "ke_net_liquidation ev = ?nlv"
    using assms(10,11) by (auto simp: evaluate_kill_line_def Let_def split: if_splits)
  have r: "r \<in> set (xt_experiments (tables_of w))" "ex_account_id r = st_account_id (kc_store c)" "ex_state r = ARMED \<or> ex_state r = PAUSED"
    using active_in_tx_Some [OF assms(2,4)] assms(5) experiment_state.exhaust [of "ex_state r"] by auto
  have pos: "is_positive ?nlv" using assms(7) by (auto simp: unusable_reason_def split: if_splits)
  obtain peak db1 where pk: "raise_peak (kc_store c) (ex_experiment_id r) ?nlv (kw_db w) = (Inr peak, db1)" "is_positive peak"
    "peak = flt_max (ex_peak_net_liquidation r) ?nlv" "r\<lparr>ex_peak_net_liquidation := peak\<rparr> \<in> set (xt_experiments (jd_prod db1))" "exp_inv (jd_prod db1)"
    using raise_peak_succeeds [OF assms(2) r(1,2) pos] by blast
  define w1 where "w1 = on_monitor (\<lambda>m. (m\<lparr>km_unknown_reason := None\<rparr>)) w"
  define w2 where "w2 = on_monitor (\<lambda>m. m\<lparr>km_last_evaluation := Some ev\<rparr>) (on_monitor (\<lambda>m. m\<lparr>km_last_generation := Some (sn_generation_id sn),
      km_last_good_at := Some (kr_now run AtGood)\<rparr>) ((on_monitor end_unknown_streak w1)\<lparr>kw_db := db1\<rparr>))"
  have cap: "evaluable_capture c run w = (Some sn, w1)" using assms(6,7) by (simp add: evaluable_capture_def w1_def)
  have "kill_evaluate c run r sn w1 = (Inr CheckHit, kill c run r sn ev w2)"
    using pk assms(9,10) ev(1) by (simp add: kill_evaluate_def undisturbed_call [OF assms(1)] w1_def w2_def Let_def)
  then have tick: "snd (kill_tick c run w) = kill c run r sn ev w2"
    using assms(3-5) cap by (simp add: kill_tick_def read_active_def undisturbed_call [OF assms(1)])
  have w2: "tables_of w2 = jd_prod db1" by (simp add: w2_def)
  show ?thesis
    unfolding tick by (rule kill_acts [OF assms(1), where peak = peak])
      (use w2 pk r pos ev assms(8,12,13) exp_inv_row [OF assms(2) r(1)] in simp_all)
qed

section \<open>Exposure after the flatten\<close>

lemma progress_succeeds:
  assumes run: "undisturbed run" and inv: "exp_inv (tables_of w)" and r: "stored_killed c r (tables_of w)"
    and ch: "list_all is_kill_column ch" and u: "u = apply_changes ch r" "experiment_valid u"
  shows "\<exists>w'. progress c run site r ch w = (Inr u, w') \<and> tables_of w' = put_row u (tables_of w) \<and> exp_inv (tables_of w')
    \<and> stored_killed c u (tables_of w') \<and> kw_monitor w' = kw_monitor w"
proof -
  let ?t = "tables_of w"
  have mem: "r \<in> set (xt_experiments ?t)" "ex_account_id r = st_account_id (kc_store c)" "ex_state r = KILLED"
    using r by (simp_all add: stored_killed_def)
  have same: "same_start u r" "ex_state u = ex_state r" "ex_revision u = ex_revision r" by (simp_all add: u(1) apply_changes_keeps)
  note put = put_row_inv [OF inv mem(1) same(1) u(2) same(2,3)]
  have in_rows: "u \<in> set (xt_experiments (put_row u ?t))" using put_row_rows [OF inv mem(1) same(1)] by simp
  have reread: "read_back (ex_experiment_id r) (put_row u ?t) = Inr (u, put_row u ?t)"
    using exp_inv_fetch [OF put(1) in_rows] same(1) by (simp add: read_back_def same_start_def)
  have "kill_progress_tx (kc_store c) (ex_experiment_id r) KILLED ch ?t = Inr (u, put_row u ?t)"
    using write_in_tx_put [OF inv mem(1) same(1)] reread u mem
    by (simp add: kill_progress_tx_def require_in_tx_stored [OF inv mem(1,2)] experiment_post_init_def)
  then show ?thesis
    using ch put(1) in_rows same mem
    by (simp add: progress_def undisturbed_call [OF run] update_kill_progress_def check_changes_def store_write_eq stored_killed_def same_start_def)
qed

lemma active_of_put:
  assumes inv: "exp_inv t" and r: "active_in_tx st t = Inr (Some r)" and u: "same_start u r" "exp_inv (put_row u t)"
  shows "active_in_tx st (put_row u t) = Inr (Some u)"
proof -
  obtain row where row: "fetchone (filter (\<lambda>row. fst row = st_account_id st) (xt_active t)) = Some row" "get_in_tx t (snd row) = Inr (Some r)"
    using r by (auto simp: active_in_tx_def split: option.splits)
  have mem: "r \<in> set (xt_experiments t)" "ex_experiment_id r = snd row" using get_in_tx_Some [OF row(2)] by simp_all
  have "u \<in> set (xt_experiments (put_row u t))" using put_row_rows [OF inv mem(1) u(1)] by simp
  from exp_inv_fetch [OF u(2) this] show ?thesis using row(1) mem(2) u(1) by (simp add: active_in_tx_def same_start_def)
qed

lemma kill_root_id_inj: "kill_root_id i a m = kill_root_id i a n \<longleftrightarrow> m = n"
  by (simp add: kill_root_id_def string_of_int_inject)

text \<open>The row of the round that follows.\<close>

definition next_round :: "experiment_record \<Rightarrow> experiment_record" where
  "next_round r = apply_changes
     [KillRound (ex_kill_round r + 1), KillRootId (Some (kill_root_id (ex_experiment_id r) (ex_kill_seq r) (ex_kill_round r + 1))),
      KillFlattenRoot None, KillFlatState (Some FlatPending), KillFlatGeneration None, KillFlatAt None] r"

text \<open>
  C17. Exposure after the flatten starts a new round. When nothing interferes, a tick of a recovered monitor on an experiment whose kill
  is recorded as flat, whose alert is settled, and whose account shows a position or a working order again, opens the next round: the
  row is KILLED with the round raised by one, a flatten root id that no earlier round of this kill had, no flatten root, and nothing
  proved flat. The next tick, if the liquidation service knows no such root, asks for that flatten: the old receipt is not used again.
\<close>

theorem late_exposure_new_round:
  assumes "undisturbed run" and "undisturbed run'" and "exp_inv (tables_of w)" and "km_recovered (kw_monitor w)"
    and "active_in_tx (kc_store c) (tables_of w) = Inr (Some r)" and "ex_state r = KILLED" and "ex_kill_flat_state r = Some ProvenFlat"
    and "ex_kill_flatten_root r = Some flat_root" and "ex_kill_alert_state r \<noteq> Some AlertPending"
    and "kr_capture run AtLateCapture = Inr sn" and "exposure sn"
    and "kr_receipt run' AtReceipt (Some (kill_root_id (ex_experiment_id r) (ex_kill_seq r) (ex_kill_round r + 1))) = Inr None"
  shows "(\<exists>x \<in> set (xt_experiments (tables_of (snd (kill_tick c run w)))). ex_experiment_id x = ex_experiment_id r \<and> ex_state x = KILLED
            \<and> ex_kill_round x = ex_kill_round r + 1 \<and> ex_kill_flatten_root x = None \<and> ex_kill_flat_state x = Some FlatPending
            \<and> ex_kill_root_id x = Some (kill_root_id (ex_experiment_id r) (ex_kill_seq r) (ex_kill_round r + 1))
            \<and> (\<forall>n \<le> ex_kill_round r. ex_kill_root_id x \<noteq> Some (kill_root_id (ex_experiment_id r) (ex_kill_seq r) n)))
    \<and> Some (kill_root_id (ex_experiment_id r) (ex_kill_seq r) (ex_kill_round r + 1))
        \<in> set (requested (snd (kill_tick c run' (snd (kill_tick c run w)))))"
proof -
  have st: "stored_killed c r (tables_of w)" using active_in_tx_Some [OF assms(3,5)] assms(6) by (simp add: stored_killed_def)
  then have "experiment_valid r" using exp_inv_row [OF assms(3)] by (simp add: stored_killed_def)
  then have valid: "experiment_valid (next_round r)"
    by (simp add: next_round_def experiment_valid_def apply_changes_def kill_root_id_def)
  obtain w1 where p: "progress c run AtRound r
      [KillRound (ex_kill_round r + 1), KillRootId (Some (kill_root_id (ex_experiment_id r) (ex_kill_seq r) (ex_kill_round r + 1))),
       KillFlattenRoot None, KillFlatState (Some FlatPending), KillFlatGeneration None, KillFlatAt None] w = (Inr (next_round r), w1)"
    and w1: "tables_of w1 = put_row (next_round r) (tables_of w)" "exp_inv (tables_of w1)" "stored_killed c (next_round r) (tables_of w1)"
      "kw_monitor w1 = kw_monitor w"
    using progress_succeeds [OF assms(1,3) st _ next_round_def valid, of AtRound] by (auto simp: is_kill_column_def)
  have flat: "ex_kill_flat_state (next_round r) = Some FlatPending" "ex_kill_flatten_root (next_round r) = None"
    "ex_kill_round (next_round r) = ex_kill_round r + 1" "ex_state (next_round r) = KILLED" "ex_experiment_id (next_round r) = ex_experiment_id r"
    "ex_kill_root_id (next_round r) = Some (kill_root_id (ex_experiment_id r) (ex_kill_seq r) (ex_kill_round r + 1))"
    using assms(6) by (simp_all add: next_round_def apply_changes_def)
  have "drive_kill c run r w = w1"
    using assms(7-11) p flat
    by (simp add: drive_kill_def ensure_flatten_def ensure_alert_def prove_flat_def check_late_exposure_def ensure_session_end_def)
  then have tick: "snd (kill_tick c run w) = w1"
    using assms(4-6) by (simp add: kill_tick_def read_active_def undisturbed_call [OF assms(1)])
  have "same_start (next_round r) r" by (simp add: next_round_def apply_changes_keeps)
  then have act: "active_in_tx (kc_store c) (tables_of w1) = Inr (Some (next_round r))"
    using active_of_put [OF assms(3,5)] w1(1,2) by simp
  then have "snd (kill_tick c run' w1) = drive_kill c run' (next_round r) w1"
    using assms(4) w1(4) flat(4) by (simp add: kill_tick_def read_active_def undisturbed_call [OF assms(2)])
  then have "Some (kill_root_id (ex_experiment_id r) (ex_kill_seq r) (ex_kill_round r + 1)) \<in> set (requested (snd (kill_tick c run' w1)))"
    using drive_kill_requests [OF _ w1(2) flat(2), of run' c] undisturbed_others [OF assms(2)] assms(12) flat(6) by simp
  moreover have "next_round r \<in> set (xt_experiments (tables_of w1))" using w1(3) by (simp add: stored_killed_def)
  ultimately show ?thesis unfolding tick using flat kill_root_id_inj by (intro conjI bexI [of _ "next_round r"]) auto
qed

section \<open>A concrete kill\<close>

lemma undisturbed_keeps_flat: "undisturbed run \<Longrightarrow> others_keep_flat run"
  by (auto simp: undisturbed_def others_keep_flat_def flat_kept_def)

definition demo_kill_config :: kill_config where
  "demo_kill_config = \<lparr>kc_store = demo_experiment_store, kc_account_id = ''DU1'', kc_configured_pct = None, kc_outage_pause_seconds = 300,
     kc_stale_after = seconds 30, kc_flatten_time = seconds 300, kc_has_journal = True, kc_has_alerts = False, kc_has_session_end = False,
     kc_rnd = Fin\<rparr>"

definition demo_breach_snapshot :: risk_snapshot where
  "demo_breach_snapshot = \<lparr>sn_generation_id = 9, sn_source_cursor = 1, sn_promoted_at = 0, sn_account_id = ''DU1'', sn_account_mode = ''paper'',
     sn_net_liquidation = Fin 850, sn_daily_pnl = Fin 0, sn_positions = [], sn_working_orders = [], sn_generation_started_at = None,
     sn_base_currency = None\<rparr>"

definition demo_kill_run :: "(string option \<Rightarrow> experiment_error + flatten_receipt option) \<Rightarrow> kill_run" where
  "demo_kill_run receipt = \<lparr>kr_now = (\<lambda>_. 50), kr_gap = (\<lambda>_ db. db), kr_db_fails = (\<lambda>_. False), kr_capture = (\<lambda>_. Inr demo_breach_snapshot),
     kr_receipt = (\<lambda>_. receipt), kr_flatten = (\<lambda>i _. Inr (opt_or [] i)), kr_enqueues = (\<lambda>_. True), kr_session_end_ok = True,
     kr_reconciliation_safe = Some True, kr_et_date = (\<lambda>_. 0), kr_isoformat = (\<lambda>_. ''t''), kr_uuid = ''u''\<rparr>"

definition demo_kill_world :: kill_world where
  "demo_kill_world = \<lparr>kw_monitor = new_monitor\<lparr>km_recovered := True\<rparr>, kw_db = snd demo_armed, kw_effects = []\<rparr>"

abbreviation demo_first_tick :: kill_run where
  "demo_first_tick \<equiv> demo_kill_run (\<lambda>_. Inr None)"

abbreviation demo_second_tick :: kill_run where
  "demo_second_tick \<equiv> demo_kill_run (\<lambda>_. Inr (Some \<lparr>fr_state = ''FLAT'', fr_generation_id = Some 9, fr_superseded_by = None\<rparr>))"

definition demo_exposed_snapshot :: risk_snapshot where
  "demo_exposed_snapshot = demo_breach_snapshot\<lparr>sn_generation_id := 10, sn_positions :=
     [\<lparr>bp_account_id = ''DU1'', bp_conid = 7, bp_symbol = ''ABC'', bp_sec_type = ''STK'', bp_exchange = None, bp_currency = ''USD'',
       bp_quantity = Fin 5, bp_average_cost = None, bp_market_price = None, bp_market_value = None, bp_unrealized_pnl = None,
       bp_realized_pnl = None, bp_daily_pnl = None, bp_deleted = False, bp_revision = 1, bp_source_timestamp = 0\<rparr>]\<rparr>"

definition demo_late_tick :: kill_run where
  "demo_late_tick = demo_second_tick\<lparr>kr_capture := (\<lambda>_. Inr demo_exposed_snapshot)\<rparr>"

definition demo_after_kill :: kill_world where
  "demo_after_kill = snd (kill_tick demo_kill_config demo_first_tick demo_kill_world)"

definition demo_after_flat :: kill_world where
  "demo_after_flat = snd (kill_tick demo_kill_config demo_second_tick demo_after_kill)"

lemma demo_kill_undisturbed: "undisturbed (demo_kill_run receipt)"
  by (simp add: undisturbed_def demo_kill_run_def)

lemma demo_kill_world_inv: "exp_inv (tables_of demo_kill_world)"
  using experiments.step_keeps_inv [OF demo_steps(1) demo_experiment_tables_inv] by (simp add: demo_kill_world_def)

lemma demo_after_kill_inv: "exp_inv (tables_of demo_after_kill)"
  using kill_tick_lawful(1) [OF _ demo_kill_world_inv] undisturbed_others [OF demo_kill_undisturbed] moves_inv
  unfolding demo_after_kill_def by (metis prod.collapse)

lemma demo_after_kill_rows:
  "map (\<lambda>x. (ex_state x, ex_kill_flat_state x)) (xt_experiments (tables_of demo_after_kill)) = [(KILLED, Some FlatPending)]"
  "length (requested demo_after_kill) = 1"
  by code_simp+

lemma demo_after_flat_rows:
  "map (\<lambda>x. (ex_experiment_id x, ex_state x, ex_kill_flat_state x)) (xt_experiments (tables_of demo_after_flat))
     = [(ex_experiment_id demo_experiment, KILLED, Some ProvenFlat)]"
  by code_simp

lemma demo_after_flat_inv: "exp_inv (tables_of demo_after_flat)"
  using kill_tick_lawful(1) [OF _ demo_after_kill_inv] undisturbed_others [OF demo_kill_undisturbed] moves_inv
  unfolding demo_after_flat_def by (metis prod.collapse)

lemma demo_flat_active:
  obtains r where "active_in_tx (kc_store demo_kill_config) (tables_of demo_after_flat) = Inr (Some r)"
    "ex_experiment_id r = ex_experiment_id demo_experiment" "ex_state r = KILLED" "ex_kill_flat_state r = Some ProvenFlat"
    "ex_kill_flatten_root r = Some (kill_root_id (ex_experiment_id demo_experiment) 1 0)" "ex_kill_alert_state r = Some AlertNoOutbox"
    "ex_kill_seq r = 1" "ex_kill_round r = 0"
proof -
  have "map_sum id (map_option (\<lambda>r. ((ex_experiment_id r, ex_state r, ex_kill_flat_state r), (ex_kill_flatten_root r, ex_kill_alert_state r), ex_kill_seq r, ex_kill_round r)))
      (active_in_tx (kc_store demo_kill_config) (tables_of demo_after_flat))
    = Inr (Some ((ex_experiment_id demo_experiment, KILLED, Some ProvenFlat), (Some (kill_root_id (ex_experiment_id demo_experiment) 1 0), Some AlertNoOutbox), 1, 0))"
    by code_simp
  then show thesis using that by (cases "active_in_tx (kc_store demo_kill_config) (tables_of demo_after_flat)") auto
qed

lemma demo_killed_row:
  obtains x where "x \<in> set (xt_experiments (tables_of demo_after_kill))" "ex_state x = KILLED"
    "ids_of (\<lambda>x. ex_state x = KILLED) (tables_of demo_kill_world) = {}"
proof -
  have "ids_of (\<lambda>x. ex_state x = KILLED) (tables_of demo_kill_world) = {}"
    by (simp add: ids_of_def demo_kill_world_def demo_armed_rows) (simp add: demo_experiment_def)
  then show thesis using that demo_after_kill_rows(1) by (cases "xt_experiments (tables_of demo_after_kill)") auto
qed

lemma demo_flat_row:
  obtains x where "x \<in> set (xt_experiments (tables_of demo_after_flat))" "ex_kill_flat_state x = Some ProvenFlat"
    "ids_of (\<lambda>x. ex_kill_flat_state x = Some ProvenFlat) (tables_of demo_after_kill) = {}"
proof -
  have "ids_of (\<lambda>x. ex_kill_flat_state x = Some ProvenFlat) (tables_of demo_after_kill) = {}"
    using demo_after_kill_rows(1) by (cases "xt_experiments (tables_of demo_after_kill)") (auto simp: ids_of_def)
  then show thesis using that demo_after_flat_rows by (cases "xt_experiments (tables_of demo_after_flat)") auto
qed

theorem kill_durable_before_flatten_witness:
  "\<exists>flat_root deadline t x. (FlattenRequested flat_root deadline, t) \<in> set (kw_effects demo_after_kill) \<and> x \<in> set (xt_experiments t)
     \<and> ex_state x \<in> {KILLED, STOPPED}"
proof -
  have "map (\<lambda>(e, t). e) (kw_effects demo_after_kill) = [FlattenRequested (Some (kill_root_id (ex_experiment_id demo_experiment) 1 0)) (50 + seconds 300)]"
    by code_simp
  then obtain t where t: "(FlattenRequested (Some (kill_root_id (ex_experiment_id demo_experiment) 1 0)) (50 + seconds 300), t) \<in> set (kw_effects demo_after_kill)"
    by (cases "kw_effects demo_after_kill") auto
  have "kw_effects demo_kill_world = []" by (simp add: demo_kill_world_def)
  with kill_durable_before_flatten [of demo_first_tick demo_kill_world demo_kill_config, OF _ demo_kill_world_inv prod.collapse [symmetric]]
  show ?thesis using t undisturbed_others [OF demo_kill_undisturbed] unfolding demo_after_kill_def [symmetric] by fastforce
qed

theorem kill_only_on_breach_witness:
  "\<exists>sn. kr_capture demo_first_tick AtDetect = Inr sn \<and> unusable_reason demo_kill_config (kw_monitor demo_kill_world) sn = None"
proof -
  obtain x where x: "x \<in> set (xt_experiments (tables_of demo_after_kill))" "ex_state x = KILLED"
    "ids_of (\<lambda>x. ex_state x = KILLED) (tables_of demo_kill_world) = {}" by (rule demo_killed_row)
  have "ex_experiment_id x \<notin> ids_of (\<lambda>x. ex_state x = KILLED) (tables_of demo_kill_world)" using x(3) by simp
  from kill_only_on_breach [OF _ _ demo_kill_world_inv prod.collapse [symmetric] x(1) [unfolded demo_after_kill_def] x(2) this]
  show ?thesis using undisturbed_others [OF demo_kill_undisturbed] by blast
qed

theorem flat_only_on_proof_witness:
  "\<exists>sn. kr_capture demo_second_tick AtFlatCapture = Inr sn \<and> sn_working_orders sn = []"
proof -
  obtain x where x: "x \<in> set (xt_experiments (tables_of demo_after_flat))" "ex_kill_flat_state x = Some ProvenFlat"
    "ids_of (\<lambda>x. ex_kill_flat_state x = Some ProvenFlat) (tables_of demo_after_kill) = {}" by (rule demo_flat_row)
  have "ex_experiment_id x \<notin> ids_of (\<lambda>x. ex_kill_flat_state x = Some ProvenFlat) (tables_of demo_after_kill)" using x(3) by simp
  from flat_only_on_proof [OF _ _ demo_after_kill_inv prod.collapse [symmetric] x(1) [unfolded demo_after_flat_def] x(2) this]
  show ?thesis using undisturbed_others [OF demo_kill_undisturbed] undisturbed_keeps_flat [OF demo_kill_undisturbed] by blast
qed

theorem late_exposure_new_round_witness:
  "Some (kill_root_id (ex_experiment_id demo_experiment) 1 1)
     \<in> set (requested (snd (kill_tick demo_kill_config demo_first_tick (snd (kill_tick demo_kill_config demo_late_tick demo_after_flat)))))"
proof -
  obtain r where act: "active_in_tx (kc_store demo_kill_config) (tables_of demo_after_flat) = Inr (Some r)"
    and r: "ex_experiment_id r = ex_experiment_id demo_experiment" "ex_state r = KILLED" "ex_kill_flat_state r = Some ProvenFlat"
      "ex_kill_flatten_root r = Some (kill_root_id (ex_experiment_id demo_experiment) 1 0)" "ex_kill_alert_state r = Some AlertNoOutbox"
      "ex_kill_seq r = 1" "ex_kill_round r = 0"
    by (rule demo_flat_active)
  have late: "kr_capture demo_late_tick AtLateCapture = Inr demo_exposed_snapshot" "exposure demo_exposed_snapshot"
    "undisturbed demo_late_tick" "kr_receipt demo_first_tick AtReceipt root = Inr None" "km_recovered (kw_monitor demo_after_flat)" for root
    by (simp_all add: demo_late_tick_def demo_kill_run_def exposure_def demo_exposed_snapshot_def undisturbed_def) code_simp
  from late_exposure_new_round [OF late(3) demo_kill_undisturbed demo_after_flat_inv late(5) act r(2-4) _ late(1,2,4)]
  show ?thesis using r by simp
qed

theorem breach_kills_witness:
  "Some (kill_root_id (ex_experiment_id demo_experiment) 1 0) \<in> set (requested demo_after_kill)"
proof -
  have act: "active_in_tx (kc_store demo_kill_config) (tables_of demo_kill_world) = Inr (Some demo_experiment)" by code_simp
  have line: "effective_kill_line (kc_configured_pct demo_kill_config) demo_experiment = Some \<lparr>kl_pct = Fin 10, kl_basis = BasisPeak\<rparr>" by code_simp
  have ev: "evaluate_kill_line (kc_rnd demo_kill_config) \<lparr>kl_pct = Fin 10, kl_basis = BasisPeak\<rparr> (ex_kill_anchor_net_liquidation demo_experiment)
      (flt_max (ex_peak_net_liquidation demo_experiment) (sn_net_liquidation demo_breach_snapshot)) (sn_net_liquidation demo_breach_snapshot)
    = Some \<lparr>ke_hit = True, ke_reference = Fin 1000, ke_net_liquidation = Fin 850, ke_drawdown_pct = Fin 15\<rparr>" by code_simp
  have "kr_capture demo_first_tick AtDetect = Inr demo_breach_snapshot" by (simp add: demo_kill_run_def)
  from breach_kills [OF demo_kill_undisturbed demo_kill_world_inv _ act _ this _ _ line ev]
  show ?thesis
    by (simp add: demo_kill_world_def demo_kill_run_def demo_experiment_def demo_after_kill_def unusable_reason_def demo_breach_snapshot_def
        demo_kill_config_def new_monitor_def is_positive_def flt_finite_def)
qed

end
