(* ===== verification/Spec2Isabelle.thy ===== *)
theory Spec2Isabelle
  imports Prelude Pyfloat Domain_Events Domain_Journal Trading_Control Domain_Feed Circuit_Breaker Exit_Owner
    Controller_Epoch Leadership Ai_Budget Proposal_Repository Proposal_Service Command_Ledger
    Preflight_Nonce Command_Coordinator Risk_Producer Order_Correlation Broker_State Pretrade_Gates
    Entry_Limits Command_Ports
    Dispatch_Guard Approval_Saga Outcome_Reconciler Cancel_Saga Strategy_Saga
    Promotion_Evidence Paper_Gate Promotion_Stage Order_Lifecycle Experiments Kill_Monitor
begin

text \<open>
  \<^bold>\<open>A verification development for the MMR trading platform.\<close>

  MMR trades through Interactive Brokers. Every durable decision of the trader service goes
  through one DuckDB file: an event journal with a materialised ledger, and beside it the tables
  of the components that write in the journal's transactions (proposals, the command ledger, the
  pause control, the circuit breaker, exit ownership, controller epochs). Clients follow the
  journal over a long-poll feed that starts from a snapshot. The AI controller runs in its own
  process: it leads only while it holds an epoch the trader granted, and it spends only what its
  budget admits. This library models that core.

  \<^bold>\<open>Modelling.\<close> A table is a list of rows in insertion order, a transaction is a function on the
  tables, a rollback gives back the tables it started from (sequences are not rolled back, as in
  DuckDB), an exception is a value on the left of a sum, a closure variable a callback fills is a field
  of the state for the length of the call. Instants are microseconds in UTC as unbounded
  integers; Python's integers are \<open>int\<close>; a float is a rational, an infinity or NaN, with
  rounding as an argument. Clock readings, \<open>uuid4\<close>, SHA-256 and the authorities a service is
  constructed with are arguments. Column widths of DuckDB are not modelled: ids, revisions and cursors stay
  far below them.

  \<^bold>\<open>Theories, in the order they build on each other.\<close>

  \<^item> \<open>Prelude\<close>: time, results, tables, strings, and the locale \<open>state_machine\<close> (a step relation that
    keeps an invariant, and what follows for runs). \<open>Pyfloat\<close>: Python floats.

  \<^item> \<open>Domain_Events\<close> (\<^verbatim>\<open>src/trader/domain/events.py\<close>, \<^verbatim>\<open>identity.py\<close>): JSON values, mutations,
    events, entity keys, the wire form; the field names of the two wire functions agree. A time is carried as the
    value its ISO text denotes, and the transport, which refuses NaN, is not part of it.

  \<^item> \<open>Domain_Journal\<close> (\<^verbatim>\<open>src/trader/data/domain_journal.py\<close>): the journal, the atomic append,
    batches, the commit signal, retention. The locale \<open>journal_work\<close> is the contract between the
    journal and a producer's unit of work; every producer that writes through it interprets it. The rollback of a
    batch is DuckDB's and is written into the model, not proved. Shown: retries are
    idempotent, a reused id with other content is refused, revisions survive
    compaction, compaction keeps what it promises.

  \<^item> \<open>Trading_Control\<close> (\<^verbatim>\<open>src/trader/trading/trading_control.py\<close>): the pause gate. Pausing always
    succeeds, resuming needs the current revision, an unknown account counts as paused; and the
    control event is journaled without waking the feed.

  \<^item> \<open>Domain_Feed\<close> (\<^verbatim>\<open>src/trader/domain/feed_service.py\<close>, \<^verbatim>\<open>snapshot_service.py\<close>,
    \<^verbatim>\<open>src/trader/data/materialized_state.py\<close>): the snapshot and the long poll. The journal is an
    inductive step relation, so a compaction may race a read; the locale \<open>retained_log\<close> extends
    \<open>state_machine\<close>. A write of the pause gate is one step too, although it takes no journal lock: that its cursor
    commits before a later one is an assumption. Shown: no silent gap, the window of an answer, the poll returns, and
    the events after a snapshot's cursor take the ledger from then to now.

  \<^item> \<open>Circuit_Breaker\<close> (\<^verbatim>\<open>src/trader/trading/circuit_breaker.py\<close>,
    \<^verbatim>\<open>src/trader/data/circuit_breaker_store.py\<close>): latching, immediate and rolling trips,
    redelivery, guarded reset.

  \<^item> \<open>Exit_Owner\<close> (\<^verbatim>\<open>src/trader/trading/exit_owner.py\<close>): at most one active owner per position,
    claims cover what they claim, a flatten supersedes scoped exits, rows only move forward.

  \<^item> \<open>Controller_Epoch\<close> and \<open>Leadership\<close> (\<^verbatim>\<open>src/trader/automation/controller_epoch.py\<close>,
    \<^verbatim>\<open>src/trader/ai/leadership.py\<close>): the trader's grants and the controller's view of them over a
    lossy call. A grant reads its clock inside its step; the code reads it just before taking the write lock. Shown: at no instant do two controllers believe they lead.

  \<^item> \<open>Ai_Budget\<close> (\<^verbatim>\<open>src/trader/ai/budget.py\<close>): reservations, settlement, caps. Shown: a
    reservation fits the cap, a window is never overspent, a raise waits for midnight, settlement
    happens once.

  \<^item> \<open>Proposal_Repository\<close> and \<open>Proposal_Service\<close> (\<^verbatim>\<open>src/trader/data/proposal_repository.py\<close>,
    \<^verbatim>\<open>src/trader/trading/proposal_command_service.py\<close>): the proposal table with its
    compare-and-set updates, and creation, rejection and the expiry sweep over the journal. Shown:
    the lifecycle, one approval at most and never of an expired proposal, row and event in step,
    a complete and exact sweep, creation stopped by the pause gate.

  \<^item> \<open>Command_Ledger\<close>, \<open>Preflight_Nonce\<close> and \<open>Command_Coordinator\<close>
    (\<^verbatim>\<open>src/trader/trading/command_coordinator.py\<close>, \<^verbatim>\<open>preflight_nonce.py\<close>,
    \<^verbatim>\<open>src/trader/domain/commands.py\<close>): the one boundary every command crosses. A handler is an
    arbitrary function on the database, and other callers may commit between the replay lookup
    and the claim. A failing write of the audit record refuses the command before its handler runs. The locale \<open>single_use_gate\<close> is the contract of the nonce gate. Shown: a
    command runs at most once, its claim is durable before its handler starts, its outcome is
    recorded, a nonce is spent once and only for what it was issued for.

  \<^item> \<open>Risk_Producer\<close> (\<^verbatim>\<open>src/trader/trading/risk_producer.py\<close>, \<^verbatim>\<open>reconciliation.py\<close>): replaceable and
    write-once risk rows, the debounced projection, reconciliation runs. Shown: a recorded decision is never
    overwritten.

  \<^item> \<open>Order_Correlation\<close> (\<^verbatim>\<open>src/trader/trading/order_correlation.py\<close>) and \<open>Broker_State\<close>
    (\<^verbatim>\<open>src/trader/data/broker_state.py\<close>): order references and child ids with their parsers, aliases, and the broker
    tables with generations and the fenced risk snapshot. Shown: a child id comes back from the broker as it was sent, an order
    keeps its identity across sessions, a snapshot stands on the newest promoted generation and holds finite numbers only.

  \<^item> \<open>Pretrade_Gates\<close> (\<^verbatim>\<open>src/trader/trading/risk_gate.py\<close>, \<^verbatim>\<open>trading_filter.py\<close>, \<^verbatim>\<open>order_validator.py\<close>, and the guards of
    \<^verbatim>\<open>command_coordinator.py\<close>) and \<open>Entry_Limits\<close> (\<^verbatim>\<open>src/trader/automation/risk_limits.py\<close>, \<^verbatim>\<open>liquidity_policy.py\<close>,
    \<^verbatim>\<open>src/trader/promotion/allocation_policy.py\<close>): what an entry has to satisfy. Shown: a reduction never flips a
    position, tighter limits are the greatest lower bound, a sized entry fits every bound, an allowed dispatch keeps
    the gross exposure under the ceiling.

  \<^item> \<open>Command_Ports\<close> (\<^verbatim>\<open>src/trader/trading/command_policy.py\<close>, \<^verbatim>\<open>quote_feeds.py\<close>, \<^verbatim>\<open>command_ports.py\<close>) and
    \<open>Dispatch_Guard\<close> (\<^verbatim>\<open>src/trader/trading/dispatch_guard.py\<close>): the authority policy, fenced captures, executable
    quotes, and the last re-check before an order leaves. Shown: what a permit means, and that one fill is never
    counted for two orders.

  \<^item> \<open>Approval_Saga\<close>, \<open>Outcome_Reconciler\<close>, \<open>Cancel_Saga\<close> and \<open>Strategy_Saga\<close>
    (\<^verbatim>\<open>src/trader/trading/command_coordinator.py\<close>): the multi-step commands. What a call reads and does outside the
    database is a record of answers and a log of effects; other callers may change the database at every point where
    the code holds no transaction. Shown: an order is sent only for a proposal claimed in the same command, two
    approvals never both send, the receipt says what happened, a permit guards every guarded dispatch; a cancel of a protective
    order spends a nonce issued for it, a batch spends one and cancels each order once; a command whose outcome
    is unknown is watched after every restart (what never left is rejected, what may have left is parked), settled only on proof and by compare-and-set, and alerted once (the alert call itself is taken not to raise). The locale
    \<open>side_table\<close> carries facts about a table through steps that do not write it.

  \<^item> \<open>Promotion_Evidence\<close>, \<open>Paper_Gate\<close> and \<open>Promotion_Stage\<close> (\<^verbatim>\<open>src/trader/promotion/evidence_store.py\<close>,
    \<^verbatim>\<open>paper_gate.py\<close>, \<^verbatim>\<open>stage.py\<close>): how a strategy earns real money. Shown: the window counts exactly the evidence since the last
    correction, the gate passes exactly when the days, sessions, round trips, mean and concentration hold in exact arithmetic,
    a stage moves only along an edge from the stage that was read and only if it is still the stored one, and certification
    needs clean evidence. Decimal arithmetic has its rounding to 28 digits, and the text of a float, as arguments.

  \<^item> \<open>Order_Lifecycle\<close> (\<^verbatim>\<open>src/trader/trading/order_lifecycle.py\<close>): the tracker of order statuses. Shown: the first
    terminal outcome is the recorded one, and a wait reports a status that was received.

  \<^item> \<open>Experiments\<close> (\<^verbatim>\<open>src/trader/automation/experiments.py\<close>, \<^verbatim>\<open>kill_line.py\<close>) and \<open>Kill_Monitor\<close>
    (\<^verbatim>\<open>kill_monitor.py\<close>): the durable record of a paper experiment with its state machine, log and store, the kill
    line, and the monitor that watches it. Shown: what was frozen at the start never changes, a killed experiment is
    never resumed, an account runs one experiment, the tighter line decides; a kill was stored, and its root current,
    when the monitor decided to ask for a flatten (another writer may come between that read and the request), only a breach on a
    trusted capture, measured against the stored peak, kills and such a breach does kill, exposure that appears after a kill was
    called flat opens a new round with a root of its own, and a kill is called flat only on the receipt of its own root.

  \<^bold>\<open>Bounds and fuel.\<close> The id allocator of proposals tries 10,000 values, as the source does, and
  running out is its error. The long poll runs over a finite schedule of wake-ups and returns None if the
  schedule ends first; it is proved to return once the deadline has passed. Nothing else needs
  fuel: every other loop runs over a finite list. A sum of floats carries its rounding error along, as
  Python's \<open>sum\<close> does since 3.12.

  \<^bold>\<open>Not modelled.\<close> Order execution, protective orders and liquidation, long conversations with the broker
  client whose own behaviour is not in the sources. The promotion controller, canary rules and attestations, the shadow runner; the
  operator commands around experiments; RPC transport,
  signatures and handler glue; broker ingest and the trading runtime, which adapt the broker client; research,
  simulation, scoreboard, language models, sandbox, market data, command line. These are I/O, numerics on market data,
  process isolation, or glue around the components above.
\<close>

end
